(* ===== verification/Virtusb_Prelude.thy ===== *)
theory Virtusb_Prelude
  imports Main "HOL-Library.Word" "HOL-Library.Monad_Syntax"
begin

text \<open>
  What every component of the model shares: the C integer types at their width, the errno
  values, the log of calls that leave the driver, and the convention for memory faults.

  An operation that reads or writes kernel memory returns an \<open>option\<close>: \<^const>\<open>None\<close> is a memory
  fault (a dereference of a freed object, of a null pointer, or an access past the end of an
  array), which C leaves undefined; \<open>Some\<close> is a normal return. The state is passed explicitly,
  so an operation with a return code has a result of the form \<open>Some (ret, s')\<close>. The predicate
  \<open>runs m Q\<close> says that \<open>m\<close> does not fault and that its result satisfies \<open>Q\<close>; the rules of
  the collection \<open>wp\<close> push it through the \<open>do\<close> blocks of the model.
\<close>

named_theorems wp \<open>rules that push runs through a block of the model\<close>

section \<open>C integer types and errno values\<close>

type_synonym u8 = "8 word"
type_synonym u16 = "16 word"
type_synonym u32 = "32 word"
type_synonym u64 = "64 word"

abbreviation ENOENT :: int where "ENOENT \<equiv> 2"
abbreviation EINTR :: int where "EINTR \<equiv> 4"
abbreviation EIO :: int where "EIO \<equiv> 5"
abbreviation EBADF :: int where "EBADF \<equiv> 9"
abbreviation EAGAIN :: int where "EAGAIN \<equiv> 11"
abbreviation ENOMEM :: int where "ENOMEM \<equiv> 12"
abbreviation EFAULT :: int where "EFAULT \<equiv> 14"
abbreviation EBUSY :: int where "EBUSY \<equiv> 16"
abbreviation ENODEV :: int where "ENODEV \<equiv> 19"
abbreviation EINVAL :: int where "EINVAL \<equiv> 22"
abbreviation ENOTTY :: int where "ENOTTY \<equiv> 25"
abbreviation ENOSPC :: int where "ENOSPC \<equiv> 28"
abbreviation EPIPE :: int where "EPIPE \<equiv> 32"
abbreviation EIDRM :: int where "EIDRM \<equiv> 43"
abbreviation EMSGSIZE :: int where "EMSGSIZE \<equiv> 90"
abbreviation EOPNOTSUPP :: int where "EOPNOTSUPP \<equiv> 95"
abbreviation ESHUTDOWN :: int where "ESHUTDOWN \<equiv> 108"
abbreviation EALREADY :: int where "EALREADY \<equiv> 114"
abbreviation EINPROGRESS :: int where "EINPROGRESS \<equiv> 115"

section \<open>Calls that leave the driver\<close>

text \<open>
  The driver calls Linux for effects the model keeps only as a log, newest first: a root-hub
  status poll and a failed \<open>WARN_ON\<close>.
\<close>

datatype kevent =
    Poll_rh_status nat
  | Warn

section \<open>Faults\<close>

definition runs :: "'a option \<Rightarrow> ('a \<Rightarrow> bool) \<Rightarrow> bool" where
  "runs m Q \<longleftrightarrow> (case m of None \<Rightarrow> False | Some x \<Rightarrow> Q x)"

lemma runs_Some [wp, simp]: "runs (Some x) Q = Q x"
  by (simp add: runs_def)

lemma runs_None [simp]: "runs None Q = False"
  by (simp add: runs_def)

lemma runs_bind [wp]: "runs (Option.bind m f) Q = runs m (\<lambda>x. runs (f x) Q)"
  by (cases m) simp_all

lemma runs_if [wp]: "runs (if b then m else n) Q = (if b then runs m Q else runs n Q)"
  by simp

lemma runs_mono: "runs m P \<Longrightarrow> (\<And>x. P x \<Longrightarrow> Q x) \<Longrightarrow> runs m Q"
  by (cases m) simp_all

lemma runs_iff: "runs m Q \<longleftrightarrow> (\<exists>x. m = Some x \<and> Q x)"
  by (cases m) simp_all

lemma runs_conjI: "runs m P \<Longrightarrow> runs m Q \<Longrightarrow> runs m (\<lambda>x. P x \<and> Q x)"
  by (cases m) simp_all

lemma runs_SomeD: "runs m Q \<Longrightarrow> m = Some x \<Longrightarrow> Q x"
  by simp

lemma runs_notNone: "runs m Q \<Longrightarrow> m \<noteq> None"
  by (cases m) simp_all

text \<open>The branches of what an operation promises, taken apart one at a time.\<close>

lemma if_casesE: "(if c then P else Q) \<Longrightarrow> (c \<Longrightarrow> P \<Longrightarrow> R) \<Longrightarrow> (\<not> c \<Longrightarrow> Q \<Longrightarrow> R) \<Longrightarrow> R"
  by (cases c) simp_all

lemma option_casesE:
  "(case x of None \<Rightarrow> P | Some y \<Rightarrow> Q y) \<Longrightarrow> (x = None \<Longrightarrow> P \<Longrightarrow> R) \<Longrightarrow> (\<And>y. x = Some y \<Longrightarrow> Q y \<Longrightarrow> R) \<Longrightarrow> R"
  by (cases x) simp_all

lemmas branchE = conjE exE disjE if_casesE option_casesE

section \<open>Arrays and memories\<close>

text \<open>An array access past the end is a fault.\<close>

definition nth_opt :: "'a list \<Rightarrow> nat \<Rightarrow> 'a option" where
  "nth_opt xs i = (if i < length xs then Some (xs ! i) else None)"

lemma nth_opt_in [simp]: "i < length xs \<Longrightarrow> nth_opt xs i = Some (xs ! i)"
  by (simp add: nth_opt_def)

lemma nth_opt_Some: "nth_opt xs i = Some x \<longleftrightarrow> i < length xs \<and> xs ! i = x"
  by (auto simp: nth_opt_def)

text \<open>
  A memory of the kernel: \<open>load\<close> reads the value at an address and faults where nothing is
  allocated, \<open>store\<close> overwrites the value at an allocated address. Ports, objects and transfers
  each live in such a memory.
\<close>

definition modify_at ::
  "('p \<Rightarrow> 's \<Rightarrow> 'v option) \<Rightarrow> ('p \<Rightarrow> 'v \<Rightarrow> 's \<Rightarrow> 's option) \<Rightarrow> 'p \<Rightarrow> ('v \<Rightarrow> 'v) \<Rightarrow> 's \<Rightarrow> 's option" where
  "modify_at load store p f s = do { v \<leftarrow> load p s; store p (f v) s }"

locale memory =
  fixes load :: "'p \<Rightarrow> 's \<Rightarrow> 'v option"
    and store :: "'p \<Rightarrow> 'v \<Rightarrow> 's \<Rightarrow> 's option"
  assumes store_alloc: "load p s = Some v \<Longrightarrow> \<exists>s'. store p w s = Some s'"
    and store_fault: "load p s = None \<Longrightarrow> store p w s = None"
    and load_store: "store p w s = Some s' \<Longrightarrow> load q s' = (if q = p then Some w else load q s)"
begin

lemma modify_runs:
  assumes "load p s = Some v"
  shows "runs (modify_at load store p f s)
           (\<lambda>s'. store p (f v) s = Some s' \<and> (\<forall>q. load q s' = (if q = p then Some (f v) else load q s)))"
proof -
  from store_alloc [OF assms] obtain s' where "store p (f v) s = Some s'" by blast
  with assms show ?thesis by (simp add: modify_at_def load_store)
qed

lemma modify_fault: "load p s = None \<Longrightarrow> modify_at load store p f s = None"
  by (simp add: modify_at_def)

lemma modify_SomeD:
  assumes "modify_at load store p f s = Some s'"
  obtains v where "load p s = Some v" and "store p (f v) s = Some s'"
    and "\<And>q. load q s' = (if q = p then Some (f v) else load q s)"
  using assms by (cases "load p s") (auto simp: modify_at_def load_store)

end

text \<open>
  \<open>memcpy(dst, src, n)\<close>: the bytes of the destination afterwards; reading or writing past the
  end of either buffer is a fault.
\<close>

definition memcpy :: "'a list \<Rightarrow> 'a list \<Rightarrow> nat \<Rightarrow> 'a list option" where
  "memcpy dst src n =
     (if n \<le> length dst \<and> n \<le> length src then Some (take n src @ drop n dst) else None)"

lemma memcpy_ok [simp]:
  "n \<le> length dst \<Longrightarrow> n \<le> length src \<Longrightarrow> memcpy dst src n = Some (take n src @ drop n dst)"
  by (simp add: memcpy_def)

section \<open>Loops that drain a collection\<close>

text \<open>
  A loop that picks an element, processes it and starts again until nothing is left to pick.
  \<open>inv ds\<close> holds when the elements \<open>ds\<close> have been processed, in this order. The loop ends, and it
  has processed what there was to do, each element once and in order.
\<close>

locale drain_loop =
  fixes loop :: "'s \<Rightarrow> 's option"
    and pick :: "'s \<Rightarrow> 'r option option"
    and step :: "'r \<Rightarrow> 's \<Rightarrow> 's option"
    and todo :: "'s \<Rightarrow> 'r list"
    and inv :: "'r list \<Rightarrow> 's \<Rightarrow> bool"
  assumes loop_unfold: "loop s = do { c \<leftarrow> pick s; (case c of None \<Rightarrow> Some s | Some r \<Rightarrow> do { s \<leftarrow> step r s; loop s }) }"
    and pick_todo: "inv ds s \<Longrightarrow> pick s = Some (case todo s of [] \<Rightarrow> None | r # _ \<Rightarrow> Some r)"
    and step_todo: "inv ds s \<Longrightarrow> todo s = r # rs \<Longrightarrow> runs (step r s) (\<lambda>s'. inv (ds @ [r]) s' \<and> todo s' = rs)"
begin

lemma drained:
  assumes "inv ds s"
  shows "runs (loop s) (\<lambda>s'. inv (ds @ todo s) s' \<and> todo s' = [])"
  using assms
proof (induction "todo s" arbitrary: ds s)
  case Nil
  then show ?case by (simp add: loop_unfold [of s] pick_todo [OF Nil(2)] flip: Nil(1))
next
  case (Cons r rs)
  note todo = Cons.hyps(2) [symmetric]
  from step_todo [OF Cons.prems todo] obtain s' where s': "step r s = Some s'" "inv (ds @ [r]) s'" "todo s' = rs"
    by (auto simp: runs_iff)
  have "loop s = loop s'" by (simp add: loop_unfold [of s] pick_todo [OF Cons.prems] todo s'(1))
  with Cons.hyps(1) [OF s'(3) [symmetric] s'(2)] s'(3) todo show ?case by simp
qed

lemma terminates: "inv ds s \<Longrightarrow> loop s \<noteq> None"
  using drained by (rule runs_notNone)

end

text \<open>The element a search finds is the first of those that pass the test.\<close>

lemma find_SomeD: "find P xs = Some x \<Longrightarrow> x \<in> set xs \<and> P x"
  by (auto simp: find_Some_iff)

lemma find_filter: "find P xs = (case filter P xs of [] \<Rightarrow> None | x # _ \<Rightarrow> Some x)"
  by (induction xs) simp_all

lemma filter_remove1_first:
  "filter P xs = x # ys \<Longrightarrow> filter P (remove1 x xs) = ys"
  "filter P xs = x # ys \<Longrightarrow> filter (\<lambda>x. \<not> P x) (remove1 x xs) = filter (\<lambda>x. \<not> P x) xs"
proof -
  assume *: "filter P xs = x # ys"
  then have "P x" by (metis filter_eq_ConsD)
  show "filter P (remove1 x xs) = ys"
    using * \<open>P x\<close> by (induction xs) (auto split: if_splits)
  show "filter (\<lambda>x. \<not> P x) (remove1 x xs) = filter (\<lambda>x. \<not> P x) xs"
    using \<open>P x\<close> by (induction xs) auto
qed

section \<open>Single bits of a 32-bit state word\<close>

text \<open>\<open>BIT(n)\<close> of the kernel, truncated to the \<open>u32\<close> it is combined with.\<close>

definition BIT :: "u32 \<Rightarrow> u32" where
  "BIT n = push_bit (unat n) 1"

unbundle bit_operations_syntax

lemma bit_BIT [simp]: "bit (BIT n) i \<longleftrightarrow> i = unat n \<and> i < 32"
  by (auto simp: BIT_def bit_simps)

lemma and_BIT_eq_0:
  assumes n: "unat n < 32"
  shows "(w AND BIT n = 0) \<longleftrightarrow> \<not> bit w (unat n)"
proof
  assume "w AND BIT n = 0"
  then have "\<not> bit (w AND BIT n) (unat n)" by simp
  with n show "\<not> bit w (unat n)" by (simp add: bit_simps)
qed (auto intro!: bit_word_eqI simp: bit_simps)

lemma word_eqI_32: "(\<And>i. i < 32 \<Longrightarrow> bit v i = bit w i) \<Longrightarrow> v = (w :: u32)"
  by (rule bit_word_eqI) simp

lemma bit_set_BIT: "bit (w OR BIT n) i \<longleftrightarrow> bit w i \<or> (i = unat n \<and> i < 32)"
  by (simp add: bit_simps)

lemma bit_clear_BIT: "bit (w AND NOT (BIT n)) i \<longleftrightarrow> bit w i \<and> i \<noteq> unat n"
  using bit_imp_le_length [of w i] by (auto simp: bit_simps)

lemmas bit_BITs = bit_set_BIT bit_clear_BIT

text \<open>A test against the complement of a low mask bounds the value.\<close>

lemma and_not_mask_eq_0: "(w :: 'a::len word) AND NOT (mask n) = 0 \<longleftrightarrow> unat w < 2 ^ n"
proof -
  have "w AND NOT (mask n) = 0 \<longleftrightarrow> w AND mask n = w"
    by (auto simp: bit_eq_iff bit_simps)
  also have "\<dots> \<longleftrightarrow> unat (take_bit n w) = unat w"
    by (simp only: take_bit_eq_mask word_unat_eq_iff)
  finally show ?thesis
    by (simp only: unsigned_take_bit_eq take_bit_nat_eq_self_iff)
qed

text \<open>Widening conversions of C keep the value.\<close>

lemma unat_ucast_u8 [simp]: "unat (ucast (x :: u8) :: u32) = unat x"
proof -
  have "unat x < 2 ^ 8" using unsigned_less [of x] by simp
  then have "unat x < 2 ^ 32" by simp
  then show ?thesis
    by (simp add: unsigned_ucast_eq unsigned_take_bit_eq take_bit_nat_eq_self)
qed

end
