(* ===== verification/Virtusb_Uapi.thy ===== *)
theory Virtusb_Uapi
  imports Virtusb_Prelude
begin

text \<open>
  The constants and macros of \<open>uapi/include/virtusb_uapi.h\<close> that the kernel and the library
  compute with: the packed representation of multi-bit port properties, the USB speed values,
  the status and change flags and the request structs. The struct of each ioctl is a record;
  the fixed-size byte arrays are byte lists.
\<close>

section \<open>Packed property representation\<close>

abbreviation (input) VIRTUSB_MAX_HUB_PORTS :: "'a::numeral" where
  "VIRTUSB_MAX_HUB_PORTS \<equiv> 31"

definition VIRTUSB_HUB_POSITION_COUNT :: u32 where
  "VIRTUSB_HUB_POSITION_COUNT = VIRTUSB_MAX_HUB_PORTS + 1"

definition VIRTUSB_PACKED_WORD_BITS :: u32 where
  "VIRTUSB_PACKED_WORD_BITS = 32"

definition VIRTUSB_PACKED_BITS_VALID :: "u32 \<Rightarrow> bool" where
  "VIRTUSB_PACKED_BITS_VALID bits \<longleftrightarrow>
     bits \<noteq> 0 \<and> bits AND (bits - 1) = 0 \<and> VIRTUSB_PACKED_WORD_BITS mod bits = 0"

definition VIRTUSB_PACKED_VALUES_PER_WORD :: "u32 \<Rightarrow> u32" where
  "VIRTUSB_PACKED_VALUES_PER_WORD bits = VIRTUSB_PACKED_WORD_BITS div bits"

definition VIRTUSB_PACKED_WORD_COUNT :: "u32 \<Rightarrow> u32" where
  "VIRTUSB_PACKED_WORD_COUNT bits =
     (VIRTUSB_HUB_POSITION_COUNT + VIRTUSB_PACKED_VALUES_PER_WORD bits - 1)
       div VIRTUSB_PACKED_VALUES_PER_WORD bits"

definition VIRTUSB_PACKED_VALUE_MASK :: "u32 \<Rightarrow> u32" where
  "VIRTUSB_PACKED_VALUE_MASK bits = push_bit (unat bits) 1 - 1"

definition VIRTUSB_PORT_SPEED_BITS :: u32 where
  "VIRTUSB_PORT_SPEED_BITS = 2"

text \<open>The static assertion of \<open>virtusb_hub.h\<close> and the values the macros take at two bits.\<close>

lemma VIRTUSB_PACKED_speed:
  "VIRTUSB_PACKED_BITS_VALID VIRTUSB_PORT_SPEED_BITS"
  "VIRTUSB_PACKED_VALUES_PER_WORD VIRTUSB_PORT_SPEED_BITS = 16"
  "VIRTUSB_PACKED_WORD_COUNT VIRTUSB_PORT_SPEED_BITS = 2"
  "VIRTUSB_PACKED_VALUE_MASK VIRTUSB_PORT_SPEED_BITS = mask 2"
  by (simp_all add: VIRTUSB_PACKED_BITS_VALID_def VIRTUSB_PACKED_VALUES_PER_WORD_def
      VIRTUSB_PACKED_WORD_COUNT_def VIRTUSB_PACKED_VALUE_MASK_def VIRTUSB_PORT_SPEED_BITS_def
      VIRTUSB_PACKED_WORD_BITS_def VIRTUSB_HUB_POSITION_COUNT_def mask_eq_exp_minus_1)

section \<open>USB speeds\<close>

datatype virtusb_port_speed =
    VIRTUSB_PORT_SPEED_NONE
  | VIRTUSB_PORT_SPEED_LOW
  | VIRTUSB_PORT_SPEED_FULL
  | VIRTUSB_PORT_SPEED_HIGH

fun speed_code :: "virtusb_port_speed \<Rightarrow> u32" where
  "speed_code VIRTUSB_PORT_SPEED_NONE = 0"
| "speed_code VIRTUSB_PORT_SPEED_LOW = 1"
| "speed_code VIRTUSB_PORT_SPEED_FULL = 2"
| "speed_code VIRTUSB_PORT_SPEED_HIGH = 3"

text \<open>The cast back, used on values of two bits only.\<close>

definition speed_of_code :: "u32 \<Rightarrow> virtusb_port_speed" where
  "speed_of_code v =
     (if v = 0 then VIRTUSB_PORT_SPEED_NONE
      else if v = 1 then VIRTUSB_PORT_SPEED_LOW
      else if v = 2 then VIRTUSB_PORT_SPEED_FULL
      else VIRTUSB_PORT_SPEED_HIGH)"

lemma speed_of_speed_code [simp]: "speed_of_code (speed_code sp) = sp"
  by (cases sp) (simp_all add: speed_of_code_def)

lemma speed_code_bits: "bit (speed_code sp) b \<Longrightarrow> b < 2"
proof -
  have "speed_code sp = take_bit 2 (speed_code sp)"
    by (cases sp) (simp_all add: take_bit_eq_mod)
  then show "bit (speed_code sp) b \<Longrightarrow> b < 2"
    by (metis bit_take_bit_iff)
qed

section \<open>Status and change flags\<close>

abbreviation (input) VIRTUSB_PORT_STATUS_CONNECTED :: u32 where "VIRTUSB_PORT_STATUS_CONNECTED \<equiv> 1"
abbreviation (input) VIRTUSB_PORT_STATUS_ENABLED :: u32 where "VIRTUSB_PORT_STATUS_ENABLED \<equiv> 2"
abbreviation (input) VIRTUSB_PORT_STATUS_SUSPENDED :: u32 where "VIRTUSB_PORT_STATUS_SUSPENDED \<equiv> 4"
abbreviation (input) VIRTUSB_PORT_STATUS_OVER_CURRENT :: u32 where "VIRTUSB_PORT_STATUS_OVER_CURRENT \<equiv> 8"
abbreviation (input) VIRTUSB_PORT_STATUS_RESET :: u32 where "VIRTUSB_PORT_STATUS_RESET \<equiv> 16"
abbreviation (input) VIRTUSB_PORT_STATUS_POWER :: u32 where "VIRTUSB_PORT_STATUS_POWER \<equiv> 256"

abbreviation (input) VIRTUSB_PORT_CHANGE_CONNECTED :: u32 where "VIRTUSB_PORT_CHANGE_CONNECTED \<equiv> 1"
abbreviation (input) VIRTUSB_PORT_CHANGE_ENABLED :: u32 where "VIRTUSB_PORT_CHANGE_ENABLED \<equiv> 2"
abbreviation (input) VIRTUSB_PORT_CHANGE_SUSPENDED :: u32 where "VIRTUSB_PORT_CHANGE_SUSPENDED \<equiv> 4"
abbreviation (input) VIRTUSB_PORT_CHANGE_OVER_CURRENT :: u32 where "VIRTUSB_PORT_CHANGE_OVER_CURRENT \<equiv> 8"
abbreviation (input) VIRTUSB_PORT_CHANGE_RESET :: u32 where "VIRTUSB_PORT_CHANGE_RESET \<equiv> 16"

record virtusb_port_state =
  ps_status :: u32
  ps_change :: u32
  ps_speed :: u32

record virtusb_port_status =
  pst_hub_id :: u32
  pst_port :: u32
  pst_port_count :: u32
  pst_state :: virtusb_port_state
  pst_ports :: "virtusb_port_state list"

section \<open>The transfer data plane\<close>

abbreviation (input) VIRTUSB_TRANSFER_DATA_MAX :: "'a::numeral" where
  "VIRTUSB_TRANSFER_DATA_MAX \<equiv> 4096"

abbreviation (input) VIRTUSB_TRANSFER_SETUP_SIZE :: nat where
  "VIRTUSB_TRANSFER_SETUP_SIZE \<equiv> 8"

record virtusb_transfer_fetch =
  tf_transfer_id :: u64
  tf_object_id :: u32
  tf_type :: u32
  tf_direction :: u32
  tf_endpoint :: u32
  tf_has_setup :: u32
  tf_requested_length :: u32
  tf_data_length :: u32
  tf_setup :: "u8 list"
  tf_data :: "u8 list"

definition zero_fetch :: virtusb_transfer_fetch where
  "zero_fetch =
     \<lparr>tf_transfer_id = 0, tf_object_id = 0, tf_type = 0, tf_direction = 0, tf_endpoint = 0, tf_has_setup = 0,
      tf_requested_length = 0, tf_data_length = 0, tf_setup = replicate VIRTUSB_TRANSFER_SETUP_SIZE 0,
      tf_data = replicate VIRTUSB_TRANSFER_DATA_MAX 0\<rparr>"

text \<open>The signed status is its value.\<close>

record virtusb_transfer_complete_request =
  tc_transfer_id :: u64
  tc_status :: int
  tc_actual_length :: u32
  tc_data :: "u8 list"

section \<open>Request structs\<close>

text \<open>A struct is named after the C one with its fields prefixed; \<open>__u32\<close> flags stay words.\<close>

record virtusb_status_bitmap =
  sb_hub_id :: u32
  sb_value :: u32

record virtusb_device_create_request =
  dc_speed_caps :: u32
  dc_object_id :: u32

record virtusb_device_attach_request =
  da_object_id :: u32
  da_hub_id :: u32
  da_port :: u32

record virtusb_device_object_request =
  do_object_id :: u32

record virtusb_backend_register_request =
  br_object_id :: u32

record virtusb_device_connection_request =
  dn_object_id :: u32
  dn_enabled :: u32

record virtusb_port_power_request =
  pp_hub_id :: u32
  pp_port :: u32
  pp_powered :: u32

record virtusb_device_destroy_request =
  dd_object_id :: u32
  dd_flags :: u32

abbreviation (input) VIRTUSB_ROOT_HUB_ID :: u32 where "VIRTUSB_ROOT_HUB_ID \<equiv> 0"
abbreviation (input) VIRTUSB_DEVICE_DESTROY_FORCE :: u32 where "VIRTUSB_DEVICE_DESTROY_FORCE \<equiv> 1"
abbreviation (input) VIRTUSB_DEVICE_DESTROY_FLAGS :: u32 where "VIRTUSB_DEVICE_DESTROY_FLAGS \<equiv> 1"

text \<open>The low, full and high speed capability bits, and all of them.\<close>

abbreviation (input) VIRTUSB_SPEED_CAP_LOW :: u32 where "VIRTUSB_SPEED_CAP_LOW \<equiv> 1"
abbreviation (input) VIRTUSB_SPEED_CAP_FULL :: u32 where "VIRTUSB_SPEED_CAP_FULL \<equiv> 2"
abbreviation (input) VIRTUSB_SPEED_CAP_HIGH :: u32 where "VIRTUSB_SPEED_CAP_HIGH \<equiv> 4"
abbreviation (input) VIRTUSB_SPEED_CAP_ALL :: u32 where "VIRTUSB_SPEED_CAP_ALL \<equiv> 7"

section \<open>ioctl numbers\<close>

text \<open>
  \<open>_IOC\<close> of the Linux ioctl header: direction in bits 30 and 31 (1 to write to the kernel, 2 to
  read from it), the size of the struct in bits 16 to 29, the magic in bits 8 to 15. The sizes
  are \<open>sizeof\<close> of the structs with the C layout rules of 64-bit Linux.
\<close>

abbreviation (input) VIRTUSB_IOCTL_MAGIC :: u32 where "VIRTUSB_IOCTL_MAGIC \<equiv> 0xB9"

definition IOC :: "u32 \<Rightarrow> u32 \<Rightarrow> u32 \<Rightarrow> u32" where
  "IOC dir nr sz = push_bit 30 dir OR push_bit 16 sz OR push_bit 8 VIRTUSB_IOCTL_MAGIC OR nr"

abbreviation (input) IO :: "u32 \<Rightarrow> u32" where "IO nr \<equiv> IOC 0 nr 0"
abbreviation (input) IOW :: "u32 \<Rightarrow> u32 \<Rightarrow> u32" where "IOW nr sz \<equiv> IOC 1 nr sz"
abbreviation (input) IOR :: "u32 \<Rightarrow> u32 \<Rightarrow> u32" where "IOR nr sz \<equiv> IOC 2 nr sz"
abbreviation (input) IOWR :: "u32 \<Rightarrow> u32 \<Rightarrow> u32" where "IOWR nr sz \<equiv> IOC 3 nr sz"

definition VIRTUSB_IOCTL_GET_PORT_STATUS :: u32 where "VIRTUSB_IOCTL_GET_PORT_STATUS = IOWR 0x00 396"
definition VIRTUSB_IOCTL_DEVICE_CREATE :: u32 where "VIRTUSB_IOCTL_DEVICE_CREATE = IOWR 0x02 8"
definition VIRTUSB_IOCTL_DEVICE_DESTROY :: u32 where "VIRTUSB_IOCTL_DEVICE_DESTROY = IOW 0x03 8"
definition VIRTUSB_IOCTL_DEVICE_ATTACH :: u32 where "VIRTUSB_IOCTL_DEVICE_ATTACH = IOW 0x20 12"
definition VIRTUSB_IOCTL_DEVICE_DETACH :: u32 where "VIRTUSB_IOCTL_DEVICE_DETACH = IOW 0x21 4"
definition VIRTUSB_IOCTL_DEVICE_CONNECTION :: u32 where "VIRTUSB_IOCTL_DEVICE_CONNECTION = IOW 0x22 8"
definition VIRTUSB_IOCTL_SET_PORT_POWER :: u32 where "VIRTUSB_IOCTL_SET_PORT_POWER = IOW 0x23 12"
definition VIRTUSB_IOCTL_BACKEND_REGISTER :: u32 where "VIRTUSB_IOCTL_BACKEND_REGISTER = IOW 0x30 4"
definition VIRTUSB_IOCTL_BACKEND_UNREGISTER :: u32 where "VIRTUSB_IOCTL_BACKEND_UNREGISTER = IO 0x31"
definition VIRTUSB_IOCTL_TRANSFER_FETCH :: u32 where "VIRTUSB_IOCTL_TRANSFER_FETCH = IOR 0x40 4144"
definition VIRTUSB_IOCTL_TRANSFER_COMPLETE :: u32 where "VIRTUSB_IOCTL_TRANSFER_COMPLETE = IOW 0x41 4112"
definition VIRTUSB_IOCTL_GET_POWER :: u32 where "VIRTUSB_IOCTL_GET_POWER = IOWR 0x01 8"
definition VIRTUSB_IOCTL_GET_CONNECTED :: u32 where "VIRTUSB_IOCTL_GET_CONNECTED = IOWR 0x02 8"
definition VIRTUSB_IOCTL_GET_ENABLED :: u32 where "VIRTUSB_IOCTL_GET_ENABLED = IOWR 0x03 8"
definition VIRTUSB_IOCTL_GET_SUSPENDED :: u32 where "VIRTUSB_IOCTL_GET_SUSPENDED = IOWR 0x04 8"
definition VIRTUSB_IOCTL_GET_RESET :: u32 where "VIRTUSB_IOCTL_GET_RESET = IOWR 0x05 8"
definition VIRTUSB_IOCTL_GET_OVER_CURRENT :: u32 where "VIRTUSB_IOCTL_GET_OVER_CURRENT = IOWR 0x06 8"
definition VIRTUSB_IOCTL_GET_SPEED :: u32 where "VIRTUSB_IOCTL_GET_SPEED = IOWR 0x07 12"
definition VIRTUSB_IOCTL_SET_OVER_CURRENT :: u32 where "VIRTUSB_IOCTL_SET_OVER_CURRENT = IOW 0x12 8"
definition VIRTUSB_IOCTL_SET_SPEED :: u32 where "VIRTUSB_IOCTL_SET_SPEED = IOW 0x13 12"

lemmas handled_ioctls =
  VIRTUSB_IOCTL_GET_PORT_STATUS_def VIRTUSB_IOCTL_DEVICE_CREATE_def VIRTUSB_IOCTL_DEVICE_DESTROY_def
  VIRTUSB_IOCTL_DEVICE_ATTACH_def VIRTUSB_IOCTL_DEVICE_DETACH_def VIRTUSB_IOCTL_DEVICE_CONNECTION_def
  VIRTUSB_IOCTL_SET_PORT_POWER_def VIRTUSB_IOCTL_BACKEND_REGISTER_def VIRTUSB_IOCTL_BACKEND_UNREGISTER_def
  VIRTUSB_IOCTL_TRANSFER_FETCH_def VIRTUSB_IOCTL_TRANSFER_COMPLETE_def

lemmas declared_ioctls =
  VIRTUSB_IOCTL_GET_POWER_def VIRTUSB_IOCTL_GET_CONNECTED_def VIRTUSB_IOCTL_GET_ENABLED_def
  VIRTUSB_IOCTL_GET_SUSPENDED_def VIRTUSB_IOCTL_GET_RESET_def VIRTUSB_IOCTL_GET_OVER_CURRENT_def
  VIRTUSB_IOCTL_GET_SPEED_def VIRTUSB_IOCTL_SET_OVER_CURRENT_def VIRTUSB_IOCTL_SET_SPEED_def

text \<open>The handled commands have different numbers.\<close>

lemma handled_ioctls_distinct:
  "distinct [VIRTUSB_IOCTL_GET_PORT_STATUS, VIRTUSB_IOCTL_DEVICE_CREATE, VIRTUSB_IOCTL_DEVICE_DESTROY,
     VIRTUSB_IOCTL_DEVICE_ATTACH, VIRTUSB_IOCTL_DEVICE_DETACH, VIRTUSB_IOCTL_DEVICE_CONNECTION,
     VIRTUSB_IOCTL_SET_PORT_POWER, VIRTUSB_IOCTL_BACKEND_REGISTER, VIRTUSB_IOCTL_BACKEND_UNREGISTER,
     VIRTUSB_IOCTL_TRANSFER_FETCH, VIRTUSB_IOCTL_TRANSFER_COMPLETE]"
  by (simp add: handled_ioctls IOC_def)

text \<open>One declared query has the number of a handled command: it would create devices. The next one has
  the number of a command with another direction.\<close>

lemma ioctl_number_collision:
  "VIRTUSB_IOCTL_GET_CONNECTED = VIRTUSB_IOCTL_DEVICE_CREATE"
  "VIRTUSB_IOCTL_GET_ENABLED \<noteq> VIRTUSB_IOCTL_DEVICE_DESTROY"
  by (simp_all add: handled_ioctls declared_ioctls IOC_def)

end
