(* ===== verification/Virtusb_Store.thy ===== *)
theory Virtusb_Store
  imports Virtusb_Uapi
begin

text \<open>
  The structs of \<open>virtusb_port.h\<close> and \<open>virtusb_hub.h\<close> and the memory they live in. A port has
  no allocation of its own: it is element \<open>i\<close> of the port array of a hub, or the upstream port
  embedded in a device. A \<open>struct virtusb_port *\<close> is therefore one of two kinds of address; a
  null pointer is \<^const>\<open>None\<close> of an \<open>option\<close>. Hubs and devices are named by the address of
  their allocation, a \<^typ>\<open>nat\<close>. An address that holds nothing (never allocated, or freed)
  faults when it is read or written, and so does an index past the 31 elements of the array.
\<close>

section \<open>Ports\<close>

datatype virtusb_port_role =
    VIRTUSB_PORT_ROLE_INVALID
  | VIRTUSB_PORT_ROLE_UPSTREAM
  | VIRTUSB_PORT_ROLE_DOWNSTREAM

datatype port_ptr = Hub_port nat nat | Dev_port nat

text \<open>The \<open>void *owner\<close> of a port: the hub or the device it is part of.\<close>

datatype owner_ptr = Own_hub nat | Own_dev nat

text \<open>
  The union \<open>state\<close> is kept as the two bytes it occupies, so that writing one member shows in
  the other: \<open>upstream.connection_signaling\<close> and \<open>downstream.powered\<close> are the first byte,
  \<open>downstream.over_current\<close> the second.
\<close>

record virtusb_port =
  p_role :: virtusb_port_role
  p_owner :: "owner_ptr option"
  p_speed :: u8
  p_peer :: "port_ptr option"
  p_state0 :: bool
  p_state1 :: bool

abbreviation upstream_connection_signaling :: "virtusb_port \<Rightarrow> bool" where
  "upstream_connection_signaling \<equiv> p_state0"

abbreviation downstream_powered :: "virtusb_port \<Rightarrow> bool" where
  "downstream_powered \<equiv> p_state0"

abbreviation downstream_over_current :: "virtusb_port \<Rightarrow> bool" where
  "downstream_over_current \<equiv> p_state1"

abbreviation (input) VIRTUSB_PORT_SPEED_CAP_LOW :: "'a::len word" where
  "VIRTUSB_PORT_SPEED_CAP_LOW \<equiv> 1"

abbreviation (input) VIRTUSB_PORT_SPEED_CAP_FULL :: "'a::len word" where
  "VIRTUSB_PORT_SPEED_CAP_FULL \<equiv> 2"

abbreviation (input) VIRTUSB_PORT_SPEED_CAP_HIGH :: "'a::len word" where
  "VIRTUSB_PORT_SPEED_CAP_HIGH \<equiv> 4"

abbreviation (input) VIRTUSB_PORT_SPEED_CAP_ALL :: "'a::len word" where
  "VIRTUSB_PORT_SPEED_CAP_ALL \<equiv> 7"

text \<open>What \<open>memset(port, 0, sizeof(*port))\<close> leaves.\<close>

definition zero_port :: virtusb_port where
  "zero_port =
     \<lparr>p_role = VIRTUSB_PORT_ROLE_INVALID, p_owner = None, p_speed = 0, p_peer = None,
      p_state0 = False, p_state1 = False\<rparr>"

lemma zero_port_sel [simp]:
  "p_role zero_port = VIRTUSB_PORT_ROLE_INVALID"
  "p_owner zero_port = None"
  "p_peer zero_port = None"
  by (simp_all add: zero_port_def)

section \<open>Hubs\<close>

datatype virtusb_hub_power_switching_mode =
    VIRTUSB_HUB_POWER_SWITCHING_GANGED
  | VIRTUSB_HUB_POWER_SWITCHING_INDIVIDUAL

datatype virtusb_hub_over_current_mode =
    VIRTUSB_HUB_OVER_CURRENT_GLOBAL
  | VIRTUSB_HUB_OVER_CURRENT_PER_PORT
  | VIRTUSB_HUB_OVER_CURRENT_NONE

text \<open>The only function the driver installs as a hub's status-change callback.\<close>

datatype virtusb_hub_status_changed_t = Virtusb_hcd_root_hub_status_changed

record virtusb_hub_port_usb_state =
  usb_enabled :: u32
  usb_suspended :: u32
  usb_reset :: u32
  usb_speed :: "u32 list"

record virtusb_hub_port_usb_change =
  chg_connected :: u32
  chg_enabled :: u32
  chg_suspended :: u32
  chg_reset :: u32
  chg_over_current :: u32

record virtusb_hub =
  hub_port_count :: u8
  hub_power_switching_mode :: virtusb_hub_power_switching_mode
  hub_over_current_mode :: virtusb_hub_over_current_mode
  hub_over_current :: bool
  hub_ports :: "virtusb_port list"
  hub_usb :: virtusb_hub_port_usb_state
  hub_usb_change :: virtusb_hub_port_usb_change
  hub_status_changed :: "virtusb_hub_status_changed_t option"
  hub_status_changed_context :: "nat option"

definition zero_usb :: virtusb_hub_port_usb_state where
  "zero_usb =
     \<lparr>usb_enabled = 0, usb_suspended = 0, usb_reset = 0,
      usb_speed = replicate (unat (VIRTUSB_PACKED_WORD_COUNT VIRTUSB_PORT_SPEED_BITS)) 0\<rparr>"

definition zero_usb_change :: virtusb_hub_port_usb_change where
  "zero_usb_change =
     \<lparr>chg_connected = 0, chg_enabled = 0, chg_suspended = 0, chg_reset = 0, chg_over_current = 0\<rparr>"

text \<open>What \<open>memset(hub, 0, sizeof(*hub))\<close> leaves.\<close>

definition zero_hub :: virtusb_hub where
  "zero_hub =
     \<lparr>hub_port_count = 0,
      hub_power_switching_mode = VIRTUSB_HUB_POWER_SWITCHING_GANGED,
      hub_over_current_mode = VIRTUSB_HUB_OVER_CURRENT_GLOBAL,
      hub_over_current = False,
      hub_ports = replicate VIRTUSB_MAX_HUB_PORTS zero_port,
      hub_usb = zero_usb,
      hub_usb_change = zero_usb_change,
      hub_status_changed = None,
      hub_status_changed_context = None\<rparr>"

section \<open>The memory of ports and hubs\<close>

record topo =
  dev_ports :: "nat \<Rightarrow> virtusb_port option"
  hubs :: "nat \<Rightarrow> virtusb_hub option"
  events :: "kevent list"

definition log_event :: "kevent \<Rightarrow> 'a topo_scheme \<Rightarrow> 'a topo_scheme" where
  "log_event e s = s\<lparr>events := e # events s\<rparr>"

lemma log_event_sel [simp]:
  "dev_ports (log_event e s) = dev_ports s"
  "hubs (log_event e s) = hubs s"
  "events (log_event e s) = e # events s"
  "topo.more (log_event e s) = topo.more s"
  by (simp_all add: log_event_def)

definition load_hub :: "nat \<Rightarrow> 'a topo_scheme \<Rightarrow> virtusb_hub option" where
  "load_hub h s = hubs s h"

definition put_hub :: "nat \<Rightarrow> virtusb_hub \<Rightarrow> 'a topo_scheme \<Rightarrow> 'a topo_scheme" where
  "put_hub h hub s = s\<lparr>hubs := (hubs s)(h \<mapsto> hub)\<rparr>"

definition store_hub :: "nat \<Rightarrow> virtusb_hub \<Rightarrow> 'a topo_scheme \<Rightarrow> 'a topo_scheme option" where
  "store_hub h hub s = (if load_hub h s = None then None else Some (put_hub h hub s))"

fun load_port :: "port_ptr \<Rightarrow> 'a topo_scheme \<Rightarrow> virtusb_port option" where
  "load_port (Hub_port h i) s = do { hub \<leftarrow> load_hub h s; nth_opt (hub_ports hub) i }"
| "load_port (Dev_port d) s = dev_ports s d"

fun put_port :: "port_ptr \<Rightarrow> virtusb_port \<Rightarrow> 'a topo_scheme \<Rightarrow> 'a topo_scheme" where
  "put_port (Hub_port h i) p s =
     (case load_hub h s of
        None \<Rightarrow> s
      | Some hub \<Rightarrow> put_hub h (hub\<lparr>hub_ports := (hub_ports hub)[i := p]\<rparr>) s)"
| "put_port (Dev_port d) p s =
     (if dev_ports s d = None then s else s\<lparr>dev_ports := (dev_ports s)(d \<mapsto> p)\<rparr>)"

definition store_port :: "port_ptr \<Rightarrow> virtusb_port \<Rightarrow> 'a topo_scheme \<Rightarrow> 'a topo_scheme option" where
  "store_port a p s = (if load_port a s = None then None else Some (put_port a p s))"

abbreviation modify_hub :: "nat \<Rightarrow> (virtusb_hub \<Rightarrow> virtusb_hub) \<Rightarrow> 'a topo_scheme \<Rightarrow> 'a topo_scheme option" where
  "modify_hub \<equiv> modify_at load_hub store_hub"

abbreviation modify_port :: "port_ptr \<Rightarrow> (virtusb_port \<Rightarrow> virtusb_port) \<Rightarrow> 'a topo_scheme \<Rightarrow> 'a topo_scheme option" where
  "modify_port \<equiv> modify_at load_port store_port"

declare load_port.simps [simp del] put_port.simps [simp del]

lemma load_put_hub [simp]: "load_hub g (put_hub h hub s) = (if g = h then Some hub else load_hub g s)"
  by (simp add: load_hub_def put_hub_def)

lemma put_hub_sel [simp]:
  "dev_ports (put_hub h hub s) = dev_ports s"
  "events (put_hub h hub s) = events s"
  "topo.more (put_hub h hub s) = topo.more s"
  by (simp_all add: put_hub_def)

lemma load_hub_dev_ports [simp]: "load_hub h (s\<lparr>dev_ports := f\<rparr>) = load_hub h s"
  by (simp add: load_hub_def)

lemma put_port_sel [simp]:
  "events (put_port a p s) = events s"
  "topo.more (put_port a p s) = topo.more s"
  by (cases a; simp add: put_port.simps split: option.split)+

lemma load_port_log [simp]:
  "load_port a (log_event e s) = load_port a s"
  "load_hub h (log_event e s) = load_hub h s"
  by (cases a) (simp_all add: load_port.simps load_hub_def)

lemma load_put_port [simp]:
  "load_port b (put_port a p s) = (if b = a \<and> load_port a s \<noteq> None then Some p else load_port b s)"
  by (cases a; cases b)
     (auto simp: load_port.simps put_port.simps nth_opt_def nth_list_update split: option.splits bind_splits)

text \<open>Writing a hub's own fields leaves every port as it was.\<close>

lemma load_port_put_hub:
  assumes "load_hub h s = Some hub" and "hub_ports hub' = hub_ports hub"
  shows "load_port a (put_hub h hub' s) = load_port a s"
  using assms by (cases a) (auto simp: load_port.simps)

lemma load_hub_put_Dev [simp]: "load_hub h (put_port (Dev_port d) p s) = load_hub h s"
  by (simp add: put_port.simps load_hub_def)

lemma load_hub_put_Hub [simp]:
  "load_hub g (put_port (Hub_port h i) p s) =
     (if g = h then map_option (\<lambda>hub. hub\<lparr>hub_ports := (hub_ports hub)[i := p]\<rparr>) (load_hub h s)
      else load_hub g s)"
  by (simp add: put_port.simps split: option.split)

lemma dev_ports_put_Hub [simp]: "dev_ports (put_port (Hub_port h i) p s) = dev_ports s"
  by (simp add: put_port.simps split: option.split)

lemma dev_ports_put_Dev [simp]: "dev_ports (put_port (Dev_port d) p s) =
     (if dev_ports s d = None then dev_ports s else (dev_ports s)(d \<mapsto> p))"
  by (simp add: put_port.simps)

interpretation hub_mem: memory load_hub store_hub
  by unfold_locales (auto simp: store_hub_def split: if_splits)

interpretation port_mem: memory load_port store_port
  by unfold_locales (auto simp: store_port_def split: if_splits)

text \<open>The operations of the model, once the address is known to be allocated.\<close>

lemma modify_hub_alloc [simp]:
  "load_hub h s = Some hub \<Longrightarrow> modify_hub h f s = Some (put_hub h (f hub) s)"
  by (simp add: modify_at_def store_hub_def)

lemma modify_port_alloc [simp]:
  "load_port a s = Some p \<Longrightarrow> modify_port a f s = Some (put_port a (f p) s)"
  by (simp add: modify_at_def store_port_def)

end
