(* ===== verification/Virtusb_Port.thy ===== *)
theory Virtusb_Port
  imports Virtusb_Store
begin

text \<open>
  The port operations of \<open>kernel/src/virtusb_port.c\<close>: one definition per function, null
  pointers as \<^const>\<open>None\<close>. The invariant \<open>ports_wf\<close> says what a port may hold and that
  peers are reciprocal; every operation keeps it.
\<close>

section \<open>The operations\<close>

definition virtusb_port_speed_is_valid :: "u8 \<Rightarrow> bool" where
  "virtusb_port_speed_is_valid speed =
     (if speed = 0 then False
      else (speed AND NOT VIRTUSB_PORT_SPEED_CAP_ALL) = 0)"

definition virtusb_port_init ::
  "port_ptr option \<Rightarrow> virtusb_port_role \<Rightarrow> u8 \<Rightarrow> owner_ptr option \<Rightarrow> 'a topo_scheme
     \<Rightarrow> (int \<times> 'a topo_scheme) option" where
  "virtusb_port_init port role speed owner s =
     (case port of
        None \<Rightarrow> Some (- EINVAL, s)
      | Some a \<Rightarrow>
          if owner = None then Some (- EINVAL, s)
          else if role \<noteq> VIRTUSB_PORT_ROLE_UPSTREAM \<and> role \<noteq> VIRTUSB_PORT_ROLE_DOWNSTREAM
          then Some (- EINVAL, s)
          else if \<not> virtusb_port_speed_is_valid speed then Some (- EINVAL, s)
          else do {
            s \<leftarrow> modify_port a (\<lambda>_. zero_port\<lparr>p_role := role, p_owner := owner, p_speed := speed\<rparr>) s;
            Some (0, s)
          })"

definition virtusb_port_attach ::
  "port_ptr option \<Rightarrow> port_ptr option \<Rightarrow> 'a topo_scheme \<Rightarrow> (int \<times> 'a topo_scheme) option" where
  "virtusb_port_attach downstream upstream s =
     (case (downstream, upstream) of
        (Some d, Some u) \<Rightarrow> do {
          pd \<leftarrow> load_port d s;
          pu \<leftarrow> load_port u s;
          if p_role pd \<noteq> VIRTUSB_PORT_ROLE_DOWNSTREAM \<or> p_role pu \<noteq> VIRTUSB_PORT_ROLE_UPSTREAM
          then Some (- EINVAL, s)
          else if p_peer pd \<noteq> None \<or> p_peer pu \<noteq> None then Some (- EBUSY, s)
          else do {
            s \<leftarrow> modify_port d (\<lambda>p. p\<lparr>p_peer := Some u\<rparr>) s;
            s \<leftarrow> modify_port u (\<lambda>p. p\<lparr>p_peer := Some d\<rparr>) s;
            Some (0, s)
          }
        }
      | _ \<Rightarrow> Some (- EINVAL, s))"

definition virtusb_port_detach :: "port_ptr option \<Rightarrow> 'a topo_scheme \<Rightarrow> 'a topo_scheme option" where
  "virtusb_port_detach port s =
     (case port of
        None \<Rightarrow> Some s
      | Some a \<Rightarrow> do {
          p \<leftarrow> load_port a s;
          (case p_peer p of
             None \<Rightarrow> Some s
           | Some peer \<Rightarrow> do {
               s \<leftarrow> modify_port a (\<lambda>p. p\<lparr>p_peer := None\<rparr>) s;
               q \<leftarrow> load_port peer s;
               if p_peer q = Some a then modify_port peer (\<lambda>p. p\<lparr>p_peer := None\<rparr>) s else Some s
             })
        })"

definition virtusb_port_is_attached :: "port_ptr option \<Rightarrow> 'a topo_scheme \<Rightarrow> bool option" where
  "virtusb_port_is_attached port s =
     (case port of
        None \<Rightarrow> Some False
      | Some a \<Rightarrow> do { p \<leftarrow> load_port a s; Some (p_peer p \<noteq> None) })"

definition virtusb_port_has_vbus :: "port_ptr option \<Rightarrow> 'a topo_scheme \<Rightarrow> bool option" where
  "virtusb_port_has_vbus port s =
     (case port of
        None \<Rightarrow> Some False
      | Some a \<Rightarrow> do {
          p \<leftarrow> load_port a s;
          if p_role p \<noteq> VIRTUSB_PORT_ROLE_UPSTREAM then Some False
          else (case p_peer p of
                  None \<Rightarrow> Some False
                | Some peer \<Rightarrow> do {
                    q \<leftarrow> load_port peer s;
                    if p_role q \<noteq> VIRTUSB_PORT_ROLE_DOWNSTREAM then Some False
                    else Some (downstream_powered q)
                  })
        })"

definition virtusb_port_set_connection_signaling ::
  "port_ptr option \<Rightarrow> bool \<Rightarrow> 'a topo_scheme \<Rightarrow> (int \<times> 'a topo_scheme) option" where
  "virtusb_port_set_connection_signaling port enabled s =
     (case port of
        None \<Rightarrow> Some (- EINVAL, s)
      | Some a \<Rightarrow> do {
          p \<leftarrow> load_port a s;
          if p_role p \<noteq> VIRTUSB_PORT_ROLE_UPSTREAM then Some (- EINVAL, s)
          else do {
            s \<leftarrow> modify_port a (\<lambda>p. p\<lparr>p_state0 := enabled\<rparr>) s;
            Some (0, s)
          }
        })"

definition virtusb_port_set_powered ::
  "port_ptr option \<Rightarrow> bool \<Rightarrow> 'a topo_scheme \<Rightarrow> (int \<times> 'a topo_scheme) option" where
  "virtusb_port_set_powered port powered s =
     (case port of
        None \<Rightarrow> Some (- EINVAL, s)
      | Some a \<Rightarrow> do {
          p \<leftarrow> load_port a s;
          if p_role p \<noteq> VIRTUSB_PORT_ROLE_DOWNSTREAM then Some (- EINVAL, s)
          else do {
            s \<leftarrow> modify_port a (\<lambda>p. p\<lparr>p_state0 := powered\<rparr>) s;
            Some (0, s)
          }
        })"

definition virtusb_port_set_over_current ::
  "port_ptr option \<Rightarrow> bool \<Rightarrow> 'a topo_scheme \<Rightarrow> (int \<times> 'a topo_scheme) option" where
  "virtusb_port_set_over_current port over_current s =
     (case port of
        None \<Rightarrow> Some (- EINVAL, s)
      | Some a \<Rightarrow> do {
          p \<leftarrow> load_port a s;
          if p_role p \<noteq> VIRTUSB_PORT_ROLE_DOWNSTREAM then Some (- EINVAL, s)
          else do {
            s \<leftarrow> modify_port a (\<lambda>p. p\<lparr>p_state1 := over_current\<rparr>) s;
            Some (0, s)
          }
        })"

lemmas virtusb_port_defs =
  virtusb_port_init_def virtusb_port_attach_def virtusb_port_detach_def
  virtusb_port_set_connection_signaling_def virtusb_port_set_powered_def
  virtusb_port_set_over_current_def

lemma virtusb_port_speed_is_valid_iff:
  "virtusb_port_speed_is_valid speed \<longleftrightarrow> speed \<noteq> 0 \<and> unat speed \<le> 7"
proof -
  have "(7 :: u8) = mask 3" by (simp add: mask_eq_exp_minus_1)
  then have "speed AND NOT 7 = 0 \<longleftrightarrow> unat speed < 2 ^ 3"
    by (simp only: and_not_mask_eq_0)
  then show ?thesis by (auto simp: virtusb_port_speed_is_valid_def)
qed

section \<open>The invariant of ports and peers\<close>

text \<open>
  What an address may hold: zeroed storage that \<open>virtusb_port_init\<close> has not reached yet, or
  an initialised port of the role its container gives it. Peers are reciprocal and of opposite
  roles.
\<close>

definition port_ok :: "port_ptr \<Rightarrow> virtusb_port \<Rightarrow> bool" where
  "port_ok a p \<longleftrightarrow>
     p = zero_port \<or>
     virtusb_port_speed_is_valid (p_speed p) \<and>
     (case a of
        Hub_port h i \<Rightarrow> p_role p = VIRTUSB_PORT_ROLE_DOWNSTREAM \<and> p_owner p = Some (Own_hub h)
      | Dev_port d \<Rightarrow> p_role p = VIRTUSB_PORT_ROLE_UPSTREAM \<and> p_owner p = Some (Own_dev d))"

definition reciprocal :: "(port_ptr \<Rightarrow> virtusb_port option) \<Rightarrow> bool" where
  "reciprocal v \<longleftrightarrow>
     (\<forall>a p b. v a = Some p \<longrightarrow> p_peer p = Some b \<longrightarrow>
        (\<exists>q. v b = Some q \<and> p_peer q = Some a \<and> p_role q \<noteq> p_role p))"

definition ports_wf :: "'a topo_scheme \<Rightarrow> bool" where
  "ports_wf s \<longleftrightarrow>
     (\<forall>a p. load_port a s = Some p \<longrightarrow> port_ok a p) \<and> reciprocal (\<lambda>a. load_port a s)"

lemma ports_wfI:
  assumes "\<And>a p. load_port a s = Some p \<Longrightarrow> port_ok a p"
    and "\<And>a p b. load_port a s = Some p \<Longrightarrow> p_peer p = Some b \<Longrightarrow>
           \<exists>q. load_port b s = Some q \<and> p_peer q = Some a \<and> p_role q \<noteq> p_role p"
  shows "ports_wf s"
  using assms by (auto simp: ports_wf_def reciprocal_def)

lemma ports_wf_port: "ports_wf s \<Longrightarrow> load_port a s = Some p \<Longrightarrow> port_ok a p"
  by (simp add: ports_wf_def)

lemma ports_wf_peer:
  assumes "ports_wf s" and "load_port a s = Some p" and "p_peer p = Some b"
  obtains q where "load_port b s = Some q" and "p_peer q = Some a" and "p_role q \<noteq> p_role p"
  using assms unfolding ports_wf_def reciprocal_def by blast

lemma ports_wf_cong:
  "(\<And>a. load_port a s' = load_port a s) \<Longrightarrow> ports_wf s' = ports_wf s"
  by (simp add: ports_wf_def)

lemma port_ok_role:
  "p_role p \<noteq> VIRTUSB_PORT_ROLE_INVALID \<Longrightarrow>
     port_ok a p \<longleftrightarrow>
       virtusb_port_speed_is_valid (p_speed p) \<and>
       (case a of
          Hub_port h i \<Rightarrow> p_role p = VIRTUSB_PORT_ROLE_DOWNSTREAM \<and> p_owner p = Some (Own_hub h)
        | Dev_port d \<Rightarrow> p_role p = VIRTUSB_PORT_ROLE_UPSTREAM \<and> p_owner p = Some (Own_dev d))"
  unfolding port_ok_def by (metis zero_port_sel(1))

lemma port_ok_peer_role:
  "port_ok a p \<Longrightarrow> p_peer p = Some b \<Longrightarrow>
     p_role p = (case a of Hub_port h i \<Rightarrow> VIRTUSB_PORT_ROLE_DOWNSTREAM
                         | Dev_port d \<Rightarrow> VIRTUSB_PORT_ROLE_UPSTREAM)"
  by (auto simp: port_ok_def split: port_ptr.splits)

lemma peer_of_hub_port:
  assumes wf: "ports_wf s" and p: "load_port (Hub_port h i) s = Some p" and b: "p_peer p = Some b"
  obtains d q where "b = Dev_port d" and "load_port (Dev_port d) s = Some q"
    and "p_peer q = Some (Hub_port h i)" and "p_role q = VIRTUSB_PORT_ROLE_UPSTREAM"
    and "p_owner q = Some (Own_dev d)" and "p_role p = VIRTUSB_PORT_ROLE_DOWNSTREAM"
proof -
  from wf p b obtain q where q: "load_port b s = Some q" "p_peer q = Some (Hub_port h i)"
    "p_role q \<noteq> p_role p" by (rule ports_wf_peer)
  from wf p have "port_ok (Hub_port h i) p" by (rule ports_wf_port)
  with b have r: "p_role p = VIRTUSB_PORT_ROLE_DOWNSTREAM" by (simp add: port_ok_peer_role)
  from wf q(1) have ok: "port_ok b q" by (rule ports_wf_port)
  show ?thesis
  proof (cases b)
    case (Hub_port g j)
    with ok q r show ?thesis by (auto simp: port_ok_def)
  next
    case (Dev_port d)
    with ok q r have "p_role q = VIRTUSB_PORT_ROLE_UPSTREAM" "p_owner q = Some (Own_dev d)"
      by (auto simp: port_ok_def)
    with Dev_port q r show ?thesis by (intro that) simp_all
  qed
qed

lemma peer_of_dev_port:
  assumes wf: "ports_wf s" and p: "load_port (Dev_port d) s = Some p" and b: "p_peer p = Some b"
  obtains h i q where "b = Hub_port h i" and "load_port (Hub_port h i) s = Some q"
    and "p_peer q = Some (Dev_port d)" and "p_role q = VIRTUSB_PORT_ROLE_DOWNSTREAM"
    and "p_owner q = Some (Own_hub h)" and "p_role p = VIRTUSB_PORT_ROLE_UPSTREAM"
proof -
  from wf p b obtain q where q: "load_port b s = Some q" "p_peer q = Some (Dev_port d)"
    "p_role q \<noteq> p_role p" by (rule ports_wf_peer)
  from wf p have "port_ok (Dev_port d) p" by (rule ports_wf_port)
  with b have r: "p_role p = VIRTUSB_PORT_ROLE_UPSTREAM" by (simp add: port_ok_peer_role)
  from wf q(1) have ok: "port_ok b q" by (rule ports_wf_port)
  show ?thesis
  proof (cases b)
    case (Hub_port h i)
    with ok q r have "p_role q = VIRTUSB_PORT_ROLE_DOWNSTREAM" "p_owner q = Some (Own_hub h)"
      by (auto simp: port_ok_def)
    with Hub_port q r show ?thesis by (intro that) simp_all
  next
    case (Dev_port e)
    with ok q r show ?thesis by (auto simp: port_ok_def)
  qed
qed

text \<open>Overwriting a port with one of the same role, owner, speed and peer keeps the invariant.\<close>

lemma ports_wf_put_state:
  assumes wf: "ports_wf s" and p: "load_port a s = Some p"
    and same: "p_role q = p_role p" "p_owner q = p_owner p" "p_speed q = p_speed p" "p_peer q = p_peer p"
    and role: "p_role p \<noteq> VIRTUSB_PORT_ROLE_INVALID"
  shows "ports_wf (put_port a q s)"
proof (rule ports_wfI)
  fix b r assume r: "load_port b (put_port a q s) = Some r"
  show "port_ok b r"
  proof (cases "b = a")
    case True
    with r p have "r = q" by simp
    with True same role ports_wf_port [OF wf p] show ?thesis
      by (simp add: port_ok_role split: port_ptr.splits)
  next
    case False
    with r have "load_port b s = Some r" by simp
    with wf show ?thesis by (rule ports_wf_port)
  qed
next
  fix b r c assume *: "load_port b (put_port a q s) = Some r" "p_peer r = Some c"
  define r' where "r' = (if b = a then p else r)"
  have "load_port b s = Some r'" "p_peer r' = Some c" "p_role r' = p_role r"
    using * p same by (auto simp: r'_def split: if_splits)
  with wf obtain t where "load_port c s = Some t" "p_peer t = Some b" "p_role t \<noteq> p_role r"
    by (metis ports_wf_peer)
  with p same show "\<exists>t. load_port c (put_port a q s) = Some t \<and> p_peer t = Some b \<and> p_role t \<noteq> p_role r"
    by auto
qed


section \<open>What each operation does\<close>

lemma virtusb_port_init_ok:
  assumes "load_port a s = Some p" and "role \<noteq> VIRTUSB_PORT_ROLE_INVALID"
    and "virtusb_port_speed_is_valid speed"
  shows "virtusb_port_init (Some a) role speed (Some w) s =
           Some (0, put_port a (zero_port\<lparr>p_role := role, p_owner := Some w, p_speed := speed\<rparr>) s)"
  using assms by (cases role) (auto simp: virtusb_port_init_def)

lemma virtusb_port_attach_ok:
  assumes d: "load_port d s = Some pd" "p_role pd = VIRTUSB_PORT_ROLE_DOWNSTREAM" "p_peer pd = None"
    and u: "load_port u s = Some pu" "p_role pu = VIRTUSB_PORT_ROLE_UPSTREAM" "p_peer pu = None"
  shows "virtusb_port_attach (Some d) (Some u) s =
           Some (0, put_port u (pu\<lparr>p_peer := Some d\<rparr>) (put_port d (pd\<lparr>p_peer := Some u\<rparr>) s))"
proof -
  have "u \<noteq> d" using d u by auto
  with d u show ?thesis by (simp add: virtusb_port_attach_def)
qed

lemma virtusb_port_attach_cases:
  assumes d: "load_port d s = Some pd" and u: "load_port u s = Some pu"
  obtains
    (invalid) "virtusb_port_attach (Some d) (Some u) s = Some (- EINVAL, s)"
      "\<not> (p_role pd = VIRTUSB_PORT_ROLE_DOWNSTREAM \<and> p_role pu = VIRTUSB_PORT_ROLE_UPSTREAM)"
  | (busy) "virtusb_port_attach (Some d) (Some u) s = Some (- EBUSY, s)"
      "\<not> (p_peer pd = None \<and> p_peer pu = None)"
  | (attached) "p_role pd = VIRTUSB_PORT_ROLE_DOWNSTREAM" "p_peer pd = None"
      "p_role pu = VIRTUSB_PORT_ROLE_UPSTREAM" "p_peer pu = None"
proof (cases "p_role pd = VIRTUSB_PORT_ROLE_DOWNSTREAM \<and> p_role pu = VIRTUSB_PORT_ROLE_UPSTREAM")
  case False
  with d u show ?thesis by (intro invalid) (auto simp: virtusb_port_attach_def)
next
  case True
  show ?thesis
  proof (cases "p_peer pd = None \<and> p_peer pu = None")
    case False
    with True d u show ?thesis by (intro busy) (auto simp: virtusb_port_attach_def)
  next
    case True
    with \<open>p_role pd = _ \<and> _\<close> show ?thesis by (intro attached) simp_all
  qed
qed

lemma ports_wf_attach:
  assumes wf: "ports_wf s"
    and d: "load_port d s = Some pd" "p_role pd = VIRTUSB_PORT_ROLE_DOWNSTREAM" "p_peer pd = None"
    and u: "load_port u s = Some pu" "p_role pu = VIRTUSB_PORT_ROLE_UPSTREAM" "p_peer pu = None"
  shows "ports_wf (put_port u (pu\<lparr>p_peer := Some d\<rparr>) (put_port d (pd\<lparr>p_peer := Some u\<rparr>) s))"
    (is "ports_wf ?s'")
proof (rule ports_wfI)
  have ne: "u \<noteq> d" using d u by auto
  have load: "load_port b ?s' =
      (if b = u then Some (pu\<lparr>p_peer := Some d\<rparr>)
       else if b = d then Some (pd\<lparr>p_peer := Some u\<rparr>) else load_port b s)" for b
    using d(1) u(1) by simp
  {
    fix b r assume "load_port b ?s' = Some r"
    then show "port_ok b r"
      using ports_wf_port [OF wf d(1)] ports_wf_port [OF wf u(1)] ports_wf_port [OF wf, of b r] d u
      by (auto simp: load port_ok_role split: if_splits port_ptr.splits)
  next
    fix b r c assume r: "load_port b ?s' = Some r" "p_peer r = Some c"
    show "\<exists>q. load_port c ?s' = Some q \<and> p_peer q = Some b \<and> p_role q \<noteq> p_role r"
    proof (cases "b = u \<or> b = d")
      case True
      with r ne d u show ?thesis by (auto simp: load split: if_splits)
    next
      case False
      with r have "load_port b s = Some r" by (simp add: load)
      from wf this r(2) obtain q where q: "load_port c s = Some q" "p_peer q = Some b" "p_role q \<noteq> p_role r"
        by (rule ports_wf_peer)
      with d u have "c \<noteq> u" "c \<noteq> d" by auto
      with q show ?thesis by (simp add: load)
    qed
  }
qed

lemma virtusb_port_detach_none:
  assumes "load_port a s = Some p" and "p_peer p = None"
  shows "virtusb_port_detach (Some a) s = Some s"
  using assms by (simp add: virtusb_port_detach_def)

lemma virtusb_port_detach_ok:
  assumes wf: "ports_wf s" and a: "load_port a s = Some p" and b: "p_peer p = Some b"
    and q: "load_port b s = Some q"
  shows "virtusb_port_detach (Some a) s =
           Some (put_port b (q\<lparr>p_peer := None\<rparr>) (put_port a (p\<lparr>p_peer := None\<rparr>) s))"
proof -
  from wf a b obtain q' where q': "load_port b s = Some q'" "p_peer q' = Some a" "p_role q' \<noteq> p_role p"
    by (rule ports_wf_peer)
  with q a have "p_peer q = Some a" "b \<noteq> a" by auto
  with a b q show ?thesis by (simp add: virtusb_port_detach_def)
qed

lemma ports_wf_detach:
  assumes wf: "ports_wf s" and a: "load_port a s = Some p" and b: "p_peer p = Some b"
    and q: "load_port b s = Some q"
  shows "ports_wf (put_port b (q\<lparr>p_peer := None\<rparr>) (put_port a (p\<lparr>p_peer := None\<rparr>) s))"
    (is "ports_wf ?s'")
proof (rule ports_wfI)
  from wf a b q have peer_back: "p_peer q = Some a" "b \<noteq> a"
    by (metis ports_wf_peer option.inject)+
  have roles: "p_role p \<noteq> VIRTUSB_PORT_ROLE_INVALID" "p_role q \<noteq> VIRTUSB_PORT_ROLE_INVALID"
    using port_ok_peer_role [OF ports_wf_port [OF wf a] b]
      port_ok_peer_role [OF ports_wf_port [OF wf q] peer_back(1)] by (auto split: port_ptr.splits)
  have load: "load_port c ?s' =
      (if c = b then Some (q\<lparr>p_peer := None\<rparr>)
       else if c = a then Some (p\<lparr>p_peer := None\<rparr>) else load_port c s)" for c
    using a q by simp
  {
    fix c r assume "load_port c ?s' = Some r"
    then show "port_ok c r"
      using ports_wf_port [OF wf a] ports_wf_port [OF wf q] ports_wf_port [OF wf, of c r] roles
      by (auto simp: load port_ok_role split: if_splits port_ptr.splits)
  next
    fix c r e assume r: "load_port c ?s' = Some r" "p_peer r = Some e"
    then have c: "c \<noteq> a" "c \<noteq> b" "load_port c s = Some r" by (auto simp: load split: if_splits)
    from wf c(3) r(2) obtain t where t: "load_port e s = Some t" "p_peer t = Some c" "p_role t \<noteq> p_role r"
      by (rule ports_wf_peer)
    with c a b q peer_back have "e \<noteq> a" "e \<noteq> b" by auto
    with t show "\<exists>t. load_port e ?s' = Some t \<and> p_peer t = Some c \<and> p_role t \<noteq> p_role r"
      by (simp add: load)
  }
qed

lemma virtusb_port_set_connection_signaling_ok:
  assumes "load_port a s = Some p"
  shows "virtusb_port_set_connection_signaling (Some a) enabled s =
           (if p_role p = VIRTUSB_PORT_ROLE_UPSTREAM
            then Some (0, put_port a (p\<lparr>p_state0 := enabled\<rparr>) s) else Some (- EINVAL, s))"
  using assms by (simp add: virtusb_port_set_connection_signaling_def)

lemma virtusb_port_set_powered_ok:
  assumes "load_port a s = Some p"
  shows "virtusb_port_set_powered (Some a) powered s =
           (if p_role p = VIRTUSB_PORT_ROLE_DOWNSTREAM
            then Some (0, put_port a (p\<lparr>p_state0 := powered\<rparr>) s) else Some (- EINVAL, s))"
  using assms by (simp add: virtusb_port_set_powered_def)

lemma virtusb_port_set_over_current_ok:
  assumes "load_port a s = Some p"
  shows "virtusb_port_set_over_current (Some a) oc s =
           (if p_role p = VIRTUSB_PORT_ROLE_DOWNSTREAM
            then Some (0, put_port a (p\<lparr>p_state1 := oc\<rparr>) s) else Some (- EINVAL, s))"
  using assms by (simp add: virtusb_port_set_over_current_def)

lemmas virtusb_port_set_ok =
  virtusb_port_set_connection_signaling_ok virtusb_port_set_powered_ok virtusb_port_set_over_current_ok

end
