(* ===== verification/Virtusb_Hub.thy ===== *)
theory Virtusb_Hub
  imports Virtusb_Port
begin

text \<open>
  The common hub model of \<open>kernel/src/virtusb_hub.c\<close> and the root hub around it: one
  definition per function. A \<open>struct virtusb_hub *\<close> is \<^typ>\<open>nat option\<close>, a port number a
  \<^typ>\<open>u32\<close>. The status-change callback is called through its pointer; the only function ever
  installed, \<open>virtusb_hcd_root_hub_status_changed\<close>, polls the root hub, which the model logs.
\<close>

section \<open>Notification\<close>

definition virtusb_hcd_root_hub_status_changed :: "nat \<Rightarrow> nat option \<Rightarrow> 'a topo_scheme \<Rightarrow> 'a topo_scheme" where
  "virtusb_hcd_root_hub_status_changed hub context_ptr s =
     (case context_ptr of None \<Rightarrow> s | Some hcd \<Rightarrow> log_event (Poll_rh_status hcd) s)"

fun call_status_changed ::
  "virtusb_hub_status_changed_t \<Rightarrow> nat \<Rightarrow> nat option \<Rightarrow> 'a topo_scheme \<Rightarrow> 'a topo_scheme" where
  "call_status_changed Virtusb_hcd_root_hub_status_changed hub context_ptr s =
     virtusb_hcd_root_hub_status_changed hub context_ptr s"

definition virtusb_hub_notify_status_changed :: "nat option \<Rightarrow> 'a topo_scheme \<Rightarrow> 'a topo_scheme option" where
  "virtusb_hub_notify_status_changed hub s =
     (case hub of
        None \<Rightarrow> Some s
      | Some h \<Rightarrow> do {
          hb \<leftarrow> load_hub h s;
          (case hub_status_changed hb of
             None \<Rightarrow> Some s
           | Some cb \<Rightarrow> Some (call_status_changed cb h (hub_status_changed_context hb) s))
        })"

section \<open>Port numbers\<close>

definition virtusb_hub_port_is_valid :: "nat option \<Rightarrow> u32 \<Rightarrow> 'a topo_scheme \<Rightarrow> bool option" where
  "virtusb_hub_port_is_valid hub port_number s =
     (case hub of
        None \<Rightarrow> Some False
      | Some h \<Rightarrow> do {
          hb \<leftarrow> load_hub h s;
          Some (port_number > 0 \<and> port_number \<le> ucast (hub_port_count hb))
        })"

definition virtusb_hub_get_port :: "nat option \<Rightarrow> u32 \<Rightarrow> 'a topo_scheme \<Rightarrow> port_ptr option option" where
  "virtusb_hub_get_port hub port_number s = do {
     ok \<leftarrow> virtusb_hub_port_is_valid hub port_number s;
     if \<not> ok then Some None
     else Some (map_option (\<lambda>h. Hub_port h (unat (port_number - 1))) hub)
   }"

definition virtusb_hub_get_port_const :: "nat option \<Rightarrow> u32 \<Rightarrow> 'a topo_scheme \<Rightarrow> port_ptr option option" where
  "virtusb_hub_get_port_const hub port_number s = do {
     ok \<leftarrow> virtusb_hub_port_is_valid hub port_number s;
     if \<not> ok then Some None
     else Some (map_option (\<lambda>h. Hub_port h (unat (port_number - 1))) hub)
   }"

text \<open>The out parameter \<open>*port_number\<close> is the second component; it is written on success only.\<close>

definition virtusb_hub_find_port_number ::
  "nat option \<Rightarrow> port_ptr option \<Rightarrow> 'a topo_scheme \<Rightarrow> (int \<times> u32 option) option" where
  "virtusb_hub_find_port_number hub port s =
     (case (hub, port) of
        (Some h, Some a) \<Rightarrow> do {
          hb \<leftarrow> load_hub h s;
          (case find (\<lambda>index. Hub_port h index = a) [0..<unat (hub_port_count hb)] of
             Some index \<Rightarrow> Some (0, Some (word_of_nat index + 1))
           | None \<Rightarrow> Some (- ENOENT, None))
        }
      | _ \<Rightarrow> Some (- EINVAL, None))"

section \<open>Packed operating speed\<close>

definition virtusb_hub_packed_word_index :: "u32 \<Rightarrow> u32 \<Rightarrow> u32" where
  "virtusb_hub_packed_word_index position bits_per_value =
     position div VIRTUSB_PACKED_VALUES_PER_WORD bits_per_value"

definition virtusb_hub_packed_shift :: "u32 \<Rightarrow> u32 \<Rightarrow> u32" where
  "virtusb_hub_packed_shift position bits_per_value =
     (position mod VIRTUSB_PACKED_VALUES_PER_WORD bits_per_value) * bits_per_value"

definition virtusb_hub_set_port_speed ::
  "nat \<Rightarrow> u32 \<Rightarrow> virtusb_port_speed \<Rightarrow> 'a topo_scheme \<Rightarrow> 'a topo_scheme option" where
  "virtusb_hub_set_port_speed h port_number speed s =
     (let word_index = unat (virtusb_hub_packed_word_index port_number VIRTUSB_PORT_SPEED_BITS);
          shift = unat (virtusb_hub_packed_shift port_number VIRTUSB_PORT_SPEED_BITS);
          m = push_bit shift (VIRTUSB_PACKED_VALUE_MASK VIRTUSB_PORT_SPEED_BITS)
      in do {
        hb \<leftarrow> load_hub h s;
        w \<leftarrow> nth_opt (usb_speed (hub_usb hb)) word_index;
        let w = w AND NOT m;
        let w = w OR (push_bit shift (speed_code speed) AND m);
        store_hub h (hb\<lparr>hub_usb := (hub_usb hb)\<lparr>usb_speed := (usb_speed (hub_usb hb))[word_index := w]\<rparr>\<rparr>) s
      })"

definition virtusb_hub_get_port_speed :: "nat option \<Rightarrow> u32 \<Rightarrow> 'a topo_scheme \<Rightarrow> virtusb_port_speed option" where
  "virtusb_hub_get_port_speed hub port_number s = do {
     ok \<leftarrow> virtusb_hub_port_is_valid hub port_number s;
     if \<not> ok then Some VIRTUSB_PORT_SPEED_NONE
     else do {
       h \<leftarrow> hub;
       hb \<leftarrow> load_hub h s;
       w \<leftarrow> nth_opt (usb_speed (hub_usb hb))
              (unat (virtusb_hub_packed_word_index port_number VIRTUSB_PORT_SPEED_BITS));
       let v = drop_bit (unat (virtusb_hub_packed_shift port_number VIRTUSB_PORT_SPEED_BITS)) w;
       let v = v AND VIRTUSB_PACKED_VALUE_MASK VIRTUSB_PORT_SPEED_BITS;
       Some (speed_of_code v)
     }
   }"

section \<open>Derived connection state\<close>

definition virtusb_hub_port_is_connected :: "nat option \<Rightarrow> u32 \<Rightarrow> 'a topo_scheme \<Rightarrow> bool option" where
  "virtusb_hub_port_is_connected hub port_number s = do {
     downstream \<leftarrow> virtusb_hub_get_port_const hub port_number s;
     (case downstream of
        None \<Rightarrow> Some False
      | Some d \<Rightarrow> do {
          pd \<leftarrow> load_port d s;
          (case p_peer pd of
             None \<Rightarrow> Some False
           | Some u \<Rightarrow> do {
               pu \<leftarrow> load_port u s;
               if p_role pu \<noteq> VIRTUSB_PORT_ROLE_UPSTREAM then Some False
               else if \<not> downstream_powered pd then Some False
               else Some (upstream_connection_signaling pu)
             })
        })
   }"

definition virtusb_hub_determine_port_speed :: "nat option \<Rightarrow> u32 \<Rightarrow> 'a topo_scheme \<Rightarrow> virtusb_port_speed option" where
  "virtusb_hub_determine_port_speed hub port_number s = do {
     downstream \<leftarrow> virtusb_hub_get_port_const hub port_number s;
     (case downstream of
        None \<Rightarrow> Some VIRTUSB_PORT_SPEED_NONE
      | Some d \<Rightarrow> do {
          pd \<leftarrow> load_port d s;
          (case p_peer pd of
             None \<Rightarrow> Some VIRTUSB_PORT_SPEED_NONE
           | Some u \<Rightarrow> do {
               pu \<leftarrow> load_port u s;
               if p_role pu \<noteq> VIRTUSB_PORT_ROLE_UPSTREAM then Some VIRTUSB_PORT_SPEED_NONE
               else let capabilities = p_speed pd AND p_speed pu in
                 if capabilities AND VIRTUSB_PORT_SPEED_CAP_HIGH \<noteq> 0 then Some VIRTUSB_PORT_SPEED_HIGH
                 else if capabilities AND VIRTUSB_PORT_SPEED_CAP_FULL \<noteq> 0 then Some VIRTUSB_PORT_SPEED_FULL
                 else if capabilities AND VIRTUSB_PORT_SPEED_CAP_LOW \<noteq> 0 then Some VIRTUSB_PORT_SPEED_LOW
                 else Some VIRTUSB_PORT_SPEED_NONE
             })
        })
   }"

section \<open>Initialisation and reset\<close>

fun hub_init_ports :: "nat \<Rightarrow> nat list \<Rightarrow> 'a topo_scheme \<Rightarrow> (int \<times> 'a topo_scheme) option" where
  "hub_init_ports h [] s = Some (0, s)"
| "hub_init_ports h (port # ports) s = do {
     (ret, s) \<leftarrow> virtusb_port_init (Some (Hub_port h port)) VIRTUSB_PORT_ROLE_DOWNSTREAM
                   VIRTUSB_PORT_SPEED_CAP_ALL (Some (Own_hub h)) s;
     if ret < 0
     then do { s \<leftarrow> modify_hub h (\<lambda>_. zero_hub) s; Some (ret, s) }
     else hub_init_ports h ports s
   }"

definition virtusb_hub_init :: "nat option \<Rightarrow> u32 \<Rightarrow> 'a topo_scheme \<Rightarrow> (int \<times> 'a topo_scheme) option" where
  "virtusb_hub_init hub port_count s =
     (case hub of
        None \<Rightarrow> Some (- EINVAL, s)
      | Some h \<Rightarrow>
          if port_count = 0 \<or> port_count > VIRTUSB_MAX_HUB_PORTS then Some (- EINVAL, s)
          else do {
            s \<leftarrow> modify_hub h (\<lambda>_. zero_hub\<lparr>
                   hub_port_count := ucast port_count,
                   hub_power_switching_mode := VIRTUSB_HUB_POWER_SWITCHING_INDIVIDUAL,
                   hub_over_current_mode := VIRTUSB_HUB_OVER_CURRENT_PER_PORT\<rparr>) s;
            hub_init_ports h [0..<unat port_count] s
          })"

definition virtusb_hub_reset :: "nat option \<Rightarrow> 'a topo_scheme \<Rightarrow> 'a topo_scheme option" where
  "virtusb_hub_reset hub s =
     (case hub of
        None \<Rightarrow> Some s
      | Some h \<Rightarrow> modify_hub h (\<lambda>hb. hb\<lparr>hub_usb := zero_usb, hub_usb_change := zero_usb_change\<rparr>) s)"

definition virtusb_hub_set_status_changed_callback ::
  "nat option \<Rightarrow> virtusb_hub_status_changed_t option \<Rightarrow> nat option \<Rightarrow> 'a topo_scheme \<Rightarrow> 'a topo_scheme option" where
  "virtusb_hub_set_status_changed_callback hub callback context_ptr s =
     (case hub of
        None \<Rightarrow> Some s
      | Some h \<Rightarrow> modify_hub h (\<lambda>hb. hb\<lparr>hub_status_changed := callback,
                                        hub_status_changed_context := context_ptr\<rparr>) s)"

section \<open>Protocol state changes\<close>

definition virtusb_hub_mark_port_connection_change ::
  "nat option \<Rightarrow> u32 \<Rightarrow> 'a topo_scheme \<Rightarrow> 'a topo_scheme option" where
  "virtusb_hub_mark_port_connection_change hub port_number s = do {
     ok \<leftarrow> virtusb_hub_port_is_valid hub port_number s;
     if \<not> ok then Some s
     else do {
       h \<leftarrow> hub;
       connected \<leftarrow> virtusb_hub_port_is_connected hub port_number s;
       s \<leftarrow> (if \<not> connected then do {
                s \<leftarrow> modify_hub h (\<lambda>hb. hb\<lparr>hub_usb := (hub_usb hb)
                       \<lparr>usb_enabled := usb_enabled (hub_usb hb) AND NOT (BIT port_number),
                        usb_suspended := usb_suspended (hub_usb hb) AND NOT (BIT port_number),
                        usb_reset := usb_reset (hub_usb hb) AND NOT (BIT port_number)\<rparr>\<rparr>) s;
                virtusb_hub_set_port_speed h port_number VIRTUSB_PORT_SPEED_NONE s
              } else Some s);
       hb \<leftarrow> load_hub h s;
       if chg_connected (hub_usb_change hb) AND BIT port_number \<noteq> 0 then Some s
       else do {
         s \<leftarrow> modify_hub h (\<lambda>hb. hb\<lparr>hub_usb_change := (hub_usb_change hb)
                \<lparr>chg_connected := chg_connected (hub_usb_change hb) OR BIT port_number\<rparr>\<rparr>) s;
         virtusb_hub_notify_status_changed hub s
       }
     }
   }"

definition virtusb_hub_reset_port ::
  "nat option \<Rightarrow> u32 \<Rightarrow> 'a topo_scheme \<Rightarrow> (int \<times> 'a topo_scheme) option" where
  "virtusb_hub_reset_port hub port_number s = do {
     ok \<leftarrow> virtusb_hub_port_is_valid hub port_number s;
     if \<not> ok then Some (- EINVAL, s)
     else do {
       h \<leftarrow> hub;
       connected \<leftarrow> virtusb_hub_port_is_connected hub port_number s;
       if \<not> connected then Some (- ENODEV, s)
       else do {
         speed \<leftarrow> virtusb_hub_determine_port_speed hub port_number s;
         if speed = VIRTUSB_PORT_SPEED_NONE then Some (- EOPNOTSUPP, s)
         else do {
           s \<leftarrow> modify_hub h (\<lambda>hb. hb\<lparr>hub_usb := (hub_usb hb)
                  \<lparr>usb_enabled := usb_enabled (hub_usb hb) AND NOT (BIT port_number),
                   usb_suspended := usb_suspended (hub_usb hb) AND NOT (BIT port_number),
                   usb_reset := usb_reset (hub_usb hb) OR BIT port_number\<rparr>\<rparr>) s;
           s \<leftarrow> virtusb_hub_set_port_speed h port_number speed s;
           s \<leftarrow> modify_hub h (\<lambda>hb. hb\<lparr>hub_usb := (hub_usb hb)
                  \<lparr>usb_reset := usb_reset (hub_usb hb) AND NOT (BIT port_number),
                   usb_enabled := usb_enabled (hub_usb hb) OR BIT port_number\<rparr>\<rparr>) s;
           hb \<leftarrow> load_hub h s;
           if chg_reset (hub_usb_change hb) AND BIT port_number = 0
           then do {
             s \<leftarrow> modify_hub h (\<lambda>hb. hb\<lparr>hub_usb_change := (hub_usb_change hb)
                    \<lparr>chg_reset := chg_reset (hub_usb_change hb) OR BIT port_number\<rparr>\<rparr>) s;
             s \<leftarrow> virtusb_hub_notify_status_changed hub s;
             Some (0, s)
           }
           else Some (0, s)
         }
       }
     }
   }"

section \<open>Hardware capabilities and state\<close>

text \<open>The mode arguments are C enums and may hold any value; the setters refuse the unknown ones.\<close>

fun power_switching_mode_of_code :: "int \<Rightarrow> virtusb_hub_power_switching_mode option" where
  "power_switching_mode_of_code mode =
     (if mode = 0 then Some VIRTUSB_HUB_POWER_SWITCHING_GANGED
      else if mode = 1 then Some VIRTUSB_HUB_POWER_SWITCHING_INDIVIDUAL
      else None)"

definition virtusb_hub_set_power_switching_mode ::
  "nat option \<Rightarrow> int \<Rightarrow> 'a topo_scheme \<Rightarrow> (int \<times> 'a topo_scheme) option" where
  "virtusb_hub_set_power_switching_mode hub mode s =
     (case hub of
        None \<Rightarrow> Some (- EINVAL, s)
      | Some h \<Rightarrow>
          (case power_switching_mode_of_code mode of
             None \<Rightarrow> Some (- EINVAL, s)
           | Some m \<Rightarrow> do {
               s \<leftarrow> modify_hub h (\<lambda>hb. hb\<lparr>hub_power_switching_mode := m\<rparr>) s;
               Some (0, s)
             }))"

fun over_current_mode_of_code :: "int \<Rightarrow> virtusb_hub_over_current_mode option" where
  "over_current_mode_of_code mode =
     (if mode = 0 then Some VIRTUSB_HUB_OVER_CURRENT_GLOBAL
      else if mode = 1 then Some VIRTUSB_HUB_OVER_CURRENT_PER_PORT
      else if mode = 2 then Some VIRTUSB_HUB_OVER_CURRENT_NONE
      else None)"

definition virtusb_hub_set_over_current_mode ::
  "nat option \<Rightarrow> int \<Rightarrow> 'a topo_scheme \<Rightarrow> (int \<times> 'a topo_scheme) option" where
  "virtusb_hub_set_over_current_mode hub mode s =
     (case hub of
        None \<Rightarrow> Some (- EINVAL, s)
      | Some h \<Rightarrow>
          (case over_current_mode_of_code mode of
             None \<Rightarrow> Some (- EINVAL, s)
           | Some m \<Rightarrow> do {
               s \<leftarrow> modify_hub h (\<lambda>hb. hb\<lparr>hub_over_current_mode := m\<rparr>) s;
               Some (0, s)
             }))"

fun hub_set_ports_power ::
  "nat \<Rightarrow> u32 list \<Rightarrow> bool \<Rightarrow> 'a topo_scheme \<Rightarrow> (int \<times> 'a topo_scheme) option" where
  "hub_set_ports_power h [] powered s = Some (0, s)"
| "hub_set_ports_power h (port_number # ports) powered s = do {
     was_connected \<leftarrow> virtusb_hub_port_is_connected (Some h) port_number s;
     (ret, s) \<leftarrow> virtusb_port_set_powered (Some (Hub_port h (unat (port_number - 1)))) powered s;
     if ret < 0 then Some (ret, s)
     else do {
       is_connected \<leftarrow> virtusb_hub_port_is_connected (Some h) port_number s;
       s \<leftarrow> (if was_connected \<noteq> is_connected
             then virtusb_hub_mark_port_connection_change (Some h) port_number s else Some s);
       hub_set_ports_power h ports powered s
     }
   }"

text \<open>The downstream port numbers of a hub, in the order the loops visit them.\<close>

definition hub_port_numbers :: "virtusb_hub \<Rightarrow> u32 list" where
  "hub_port_numbers hb = map word_of_nat [1..<Suc (unat (hub_port_count hb))]"

definition virtusb_hub_set_all_ports_power ::
  "nat option \<Rightarrow> bool \<Rightarrow> 'a topo_scheme \<Rightarrow> (int \<times> 'a topo_scheme) option" where
  "virtusb_hub_set_all_ports_power hub powered s =
     (case hub of
        None \<Rightarrow> Some (- EINVAL, s)
      | Some h \<Rightarrow> do {
          hb \<leftarrow> load_hub h s;
          hub_set_ports_power h (hub_port_numbers hb) powered s
        })"

definition virtusb_hub_set_port_power ::
  "nat option \<Rightarrow> u32 \<Rightarrow> bool \<Rightarrow> 'a topo_scheme \<Rightarrow> (int \<times> 'a topo_scheme) option" where
  "virtusb_hub_set_port_power hub port_number powered s = do {
     port \<leftarrow> virtusb_hub_get_port hub port_number s;
     if port = None then Some (- EINVAL, s)
     else do {
       h \<leftarrow> hub;
       hb \<leftarrow> load_hub h s;
       if hub_power_switching_mode hb = VIRTUSB_HUB_POWER_SWITCHING_GANGED
       then virtusb_hub_set_all_ports_power hub powered s
       else do {
         was_connected \<leftarrow> virtusb_hub_port_is_connected hub port_number s;
         (ret, s) \<leftarrow> virtusb_port_set_powered port powered s;
         if ret < 0 then Some (ret, s)
         else do {
           is_connected \<leftarrow> virtusb_hub_port_is_connected hub port_number s;
           s \<leftarrow> (if was_connected \<noteq> is_connected
                 then virtusb_hub_mark_port_connection_change hub port_number s else Some s);
           Some (0, s)
         }
       }
     }
   }"

definition virtusb_hub_port_is_powered :: "nat option \<Rightarrow> u32 \<Rightarrow> 'a topo_scheme \<Rightarrow> bool option" where
  "virtusb_hub_port_is_powered hub port_number s = do {
     port \<leftarrow> virtusb_hub_get_port_const hub port_number s;
     (case port of
        None \<Rightarrow> Some False
      | Some a \<Rightarrow> do { p \<leftarrow> load_port a s; Some (downstream_powered p) })
   }"

definition virtusb_hub_set_port_over_current ::
  "nat option \<Rightarrow> u32 \<Rightarrow> bool \<Rightarrow> 'a topo_scheme \<Rightarrow> (int \<times> 'a topo_scheme) option" where
  "virtusb_hub_set_port_over_current hub port_number over_current s =
     (case hub of
        None \<Rightarrow> Some (- EINVAL, s)
      | Some h \<Rightarrow> do {
          hb \<leftarrow> load_hub h s;
          if hub_over_current_mode hb \<noteq> VIRTUSB_HUB_OVER_CURRENT_PER_PORT then Some (- EINVAL, s)
          else do {
            port \<leftarrow> virtusb_hub_get_port hub port_number s;
            if port = None then Some (- EINVAL, s)
            else virtusb_port_set_over_current port over_current s
          }
        })"

definition virtusb_hub_port_is_over_current :: "nat option \<Rightarrow> u32 \<Rightarrow> 'a topo_scheme \<Rightarrow> bool option" where
  "virtusb_hub_port_is_over_current hub port_number s =
     (case hub of
        None \<Rightarrow> Some False
      | Some h \<Rightarrow> do {
          hb \<leftarrow> load_hub h s;
          if hub_over_current_mode hb \<noteq> VIRTUSB_HUB_OVER_CURRENT_PER_PORT then Some False
          else do {
            port \<leftarrow> virtusb_hub_get_port_const hub port_number s;
            (case port of
               None \<Rightarrow> Some False
             | Some a \<Rightarrow> do { p \<leftarrow> load_port a s; Some (downstream_over_current p) })
          }
        })"

definition virtusb_hub_set_over_current :: "nat option \<Rightarrow> bool \<Rightarrow> 'a topo_scheme \<Rightarrow> 'a topo_scheme option" where
  "virtusb_hub_set_over_current hub over_current s =
     (case hub of
        None \<Rightarrow> Some s
      | Some h \<Rightarrow> do {
          hb \<leftarrow> load_hub h s;
          if hub_over_current_mode hb \<noteq> VIRTUSB_HUB_OVER_CURRENT_GLOBAL then Some s
          else modify_hub h (\<lambda>hb. hb\<lparr>hub_over_current := over_current\<rparr>) s
        })"

definition virtusb_hub_is_over_current :: "nat option \<Rightarrow> 'a topo_scheme \<Rightarrow> bool option" where
  "virtusb_hub_is_over_current hub s =
     (case hub of
        None \<Rightarrow> Some False
      | Some h \<Rightarrow> do {
          hb \<leftarrow> load_hub h s;
          if hub_over_current_mode hb \<noteq> VIRTUSB_HUB_OVER_CURRENT_GLOBAL then Some False
          else Some (hub_over_current hb)
        })"

section \<open>The root hub\<close>

text \<open>
  \<open>struct virtusb_root_hub\<close> holds nothing but its hub, at the same address; the functions of
  \<open>virtusb_root_hub.c\<close> check their pointer and call the hub model.
\<close>

definition virtusb_root_hub_init :: "nat option \<Rightarrow> u32 \<Rightarrow> 'a topo_scheme \<Rightarrow> (int \<times> 'a topo_scheme) option" where
  "virtusb_root_hub_init root_hub port_count s =
     (case root_hub of
        None \<Rightarrow> Some (- EINVAL, s)
      | Some h \<Rightarrow> virtusb_hub_init (Some h) port_count s)"

definition virtusb_root_hub_reset :: "nat option \<Rightarrow> 'a topo_scheme \<Rightarrow> 'a topo_scheme option" where
  "virtusb_root_hub_reset root_hub s =
     (case root_hub of
        None \<Rightarrow> Some s
      | Some h \<Rightarrow> virtusb_hub_reset (Some h) s)"

end
