(* ===== verification/Virtusb_Object.thy ===== *)
theory Virtusb_Object
  imports Virtusb_Hub "HOL-Library.RBT"
begin

text \<open>
  The objects of \<open>kernel/src/virtusb_object.c\<close> and their registry,
  \<open>kernel/src/virtusb_object_manager.c\<close>. An object is named by the address of its allocation;
  \<open>container_of\<close> of an embedded first member is the same address, so the upstream port of the
  device at address \<open>d\<close> is \<open>Dev_port d\<close>. Freeing removes the whole allocation, after which
  every access faults. The registry is an XArray: its interface is the locale \<open>xarray\<close>,
  interpreted on the ordered map the state holds.
\<close>

section \<open>The XArray interface\<close>

text \<open>
  What \<open>xa_load\<close>, \<open>xa_insert\<close>, \<open>xa_erase\<close>, \<open>xa_empty\<close> and \<open>xa_for_each\<close> promise:
  the last visits the entries in the order of their index.
\<close>

locale xarray =
  fixes load :: "'x \<Rightarrow> u64 \<Rightarrow> 'v option"
    and insert :: "u64 \<Rightarrow> 'v \<Rightarrow> 'x \<Rightarrow> 'x"
    and erase :: "u64 \<Rightarrow> 'x \<Rightarrow> 'x"
    and empty :: "'x"
    and is_empty :: "'x \<Rightarrow> bool"
    and entries :: "'x \<Rightarrow> (u64 \<times> 'v) list"
  assumes load_empty: "load empty i = None"
    and load_insert: "load x i = None \<Longrightarrow> load (insert i v x) j = (if j = i then Some v else load x j)"
    and load_erase: "load (erase i x) j = (if j = i then None else load x j)"
    and empty_iff: "is_empty x \<longleftrightarrow> entries x = []"
    and entries_load: "(i, v) \<in> set (entries x) \<longleftrightarrow> load x i = Some v"
    and entries_sorted: "sorted (map fst (entries x))"
    and entries_distinct: "distinct (map fst (entries x))"
begin

lemma is_empty_load: "is_empty x \<longleftrightarrow> (\<forall>i. load x i = None)"
proof -
  have "entries x = [] \<longleftrightarrow> (\<forall>i v. (i, v) \<notin> set (entries x))" by (cases "entries x") auto
  then show ?thesis by (simp add: empty_iff entries_load)
qed

lemma entries_dom: "fst ` set (entries x) = dom (load x)"
  by (auto simp: entries_load image_iff) (metis entries_load fst_conv)

lemma finite_dom: "finite (dom (load x))"
  by (simp flip: entries_dom)

lemma length_entries: "length (entries x) = card (dom (load x))"
  by (metis distinct_card entries_distinct entries_dom length_map set_map)

lemma length_erase:
  assumes "load x i = Some v"
  shows "length (entries (erase i x)) < length (entries x)"
proof -
  have "dom (load (erase i x)) = dom (load x) - {i}"
    by (auto simp: load_erase split: if_splits)
  with assms have "dom (load (erase i x)) \<subset> dom (load x)" by auto
  then show ?thesis unfolding length_entries by (rule psubset_card_mono [OF finite_dom])
qed

text \<open>A scan in index order finds the entry of the smallest index.\<close>

lemma find_first:
  assumes "find P (entries x) = Some (i, v)"
  shows "load x i = Some v" and "P (i, v)"
    and "\<And>j w. load x j = Some w \<Longrightarrow> P (j, w) \<Longrightarrow> i \<le> j"
proof -
  from assms obtain k where k: "k < length (entries x)" "entries x ! k = (i, v)" "P (i, v)"
    and before: "\<forall>m < k. \<not> P (entries x ! m)"
    by (auto simp: find_Some_iff)
  then show "P (i, v)" by simp
  from k have "(i, v) \<in> set (entries x)" by (metis nth_mem)
  then show "load x i = Some v" by (simp add: entries_load)
  fix j w assume "load x j = Some w" "P (j, w)"
  then obtain m where m: "m < length (entries x)" "entries x ! m = (j, w)"
    by (metis entries_load in_set_conv_nth)
  with before \<open>P (j, w)\<close> have "k \<le> m" by (metis not_less)
  with m k entries_sorted [of x] show "i \<le> j"
    by (metis (no_types, lifting) fst_conv length_map nth_map sorted_nth_mono)
qed

lemma find_none: "find P (entries x) = None \<longleftrightarrow> (\<forall>i v. load x i = Some v \<longrightarrow> \<not> P (i, v))"
  by (auto simp: find_None_iff entries_load)

end

type_synonym 'v xa = "(u64, 'v) rbt"

definition xa_load :: "'v xa \<Rightarrow> u64 \<Rightarrow> 'v option" where
  "xa_load x i = RBT.lookup x i"

definition xa_store_new :: "u64 \<Rightarrow> 'v \<Rightarrow> 'v xa \<Rightarrow> 'v xa" where
  "xa_store_new i v x = RBT.insert i v x"

definition xa_erase :: "u64 \<Rightarrow> 'v xa \<Rightarrow> 'v xa" where
  "xa_erase i x = RBT.delete i x"

definition xa_none :: "'v xa" where
  "xa_none = RBT.empty"

definition xa_empty :: "'v xa \<Rightarrow> bool" where
  "xa_empty x = (RBT.entries x = [])"

definition xa_entries :: "'v xa \<Rightarrow> (u64 \<times> 'v) list" where
  "xa_entries x = RBT.entries x"

text \<open>
  \<open>xa_insert\<close> refuses an occupied index with -EBUSY and reports -ENOMEM when it cannot allocate
  a node, which the argument \<open>mem\<close> decides.
\<close>

definition xa_insert :: "bool \<Rightarrow> u64 \<Rightarrow> 'v \<Rightarrow> 'v xa \<Rightarrow> int \<times> 'v xa" where
  "xa_insert mem i v x =
     (if xa_load x i \<noteq> None then (- EBUSY, x)
      else if \<not> mem then (- ENOMEM, x)
      else (0, xa_store_new i v x))"

interpretation xa: xarray xa_load xa_store_new xa_erase xa_none xa_empty xa_entries
  by unfold_locales
     (auto simp: xa_load_def xa_store_new_def xa_erase_def xa_none_def xa_empty_def xa_entries_def
       RBT.lookup_in_tree RBT.sorted_entries RBT.distinct_entries)

section \<open>Objects\<close>

datatype virtusb_object_type =
    VIRTUSB_OBJECT_TYPE_INVALID
  | VIRTUSB_OBJECT_TYPE_HCD
  | VIRTUSB_OBJECT_TYPE_ROOT_HUB
  | VIRTUSB_OBJECT_TYPE_HUB
  | VIRTUSB_OBJECT_TYPE_DEVICE

fun type_code :: "virtusb_object_type \<Rightarrow> int" where
  "type_code VIRTUSB_OBJECT_TYPE_INVALID = 0"
| "type_code VIRTUSB_OBJECT_TYPE_HCD = 1"
| "type_code VIRTUSB_OBJECT_TYPE_ROOT_HUB = 2"
| "type_code VIRTUSB_OBJECT_TYPE_HUB = 3"
| "type_code VIRTUSB_OBJECT_TYPE_DEVICE = 4"

abbreviation (input) VIRTUSB_OBJECT_ID_INVALID :: u32 where "VIRTUSB_OBJECT_ID_INVALID \<equiv> 0"

text \<open>The only release callback of the driver.\<close>

datatype virtusb_object_release_t = Virtusb_device_release

record virtusb_object =
  obj_id :: u32
  obj_type :: virtusb_object_type
  obj_refcount :: nat
  obj_release :: "virtusb_object_release_t option"
  obj_registered :: bool

text \<open>
  The allocations, the registry and its counter; \<open>next_addr\<close> is the next address the allocator
  hands out. Addresses are not used twice, so a dangling pointer can never reach a new object.
\<close>

record kobj = topo +
  objects :: "nat \<Rightarrow> virtusb_object option"
  registry :: "nat xa"
  next_object_id :: u64
  next_addr :: nat

definition load_obj :: "nat \<Rightarrow> 'a kobj_scheme \<Rightarrow> virtusb_object option" where
  "load_obj obj s = objects s obj"

definition put_obj :: "nat \<Rightarrow> virtusb_object \<Rightarrow> 'a kobj_scheme \<Rightarrow> 'a kobj_scheme" where
  "put_obj obj ob s = s\<lparr>objects := (objects s)(obj \<mapsto> ob)\<rparr>"

definition store_obj :: "nat \<Rightarrow> virtusb_object \<Rightarrow> 'a kobj_scheme \<Rightarrow> 'a kobj_scheme option" where
  "store_obj obj ob s = (if load_obj obj s = None then None else Some (put_obj obj ob s))"

abbreviation modify_obj :: "nat \<Rightarrow> (virtusb_object \<Rightarrow> virtusb_object) \<Rightarrow> 'a kobj_scheme \<Rightarrow> 'a kobj_scheme option" where
  "modify_obj \<equiv> modify_at load_obj store_obj"

lemma load_put_obj [simp]: "load_obj p (put_obj obj ob s) = (if p = obj then Some ob else load_obj p s)"
  by (simp add: load_obj_def put_obj_def)

interpretation obj_mem: memory load_obj store_obj
  by unfold_locales (auto simp: store_obj_def split: if_splits)

lemma modify_obj_alloc [simp]:
  "load_obj obj s = Some ob \<Longrightarrow> modify_obj obj f s = Some (put_obj obj (f ob) s)"
  by (simp add: modify_at_def store_obj_def)

text \<open>\<open>kfree\<close> of the allocation that holds an object and, in a device, its upstream port.\<close>

definition free_object :: "nat \<Rightarrow> 'a kobj_scheme \<Rightarrow> 'a kobj_scheme" where
  "free_object obj s = s\<lparr>objects := (objects s)(obj := None), dev_ports := (dev_ports s)(obj := None)\<rparr>"

text \<open>\<open>WARN_ON\<close> of the kernel: a failed check is logged and execution goes on.\<close>

definition WARN_ON :: "bool \<Rightarrow> 'a topo_scheme \<Rightarrow> 'a topo_scheme" where
  "WARN_ON b s = (if b then log_event Warn s else s)"

definition virtusb_device_release :: "nat \<Rightarrow> 'a kobj_scheme \<Rightarrow> 'a kobj_scheme option" where
  "virtusb_device_release object s = do {
     p \<leftarrow> load_port (Dev_port object) s;
     Some (free_object object (WARN_ON (p_peer p \<noteq> None) s))
   }"

definition virtusb_object_release_kref :: "nat \<Rightarrow> 'a kobj_scheme \<Rightarrow> 'a kobj_scheme option" where
  "virtusb_object_release_kref object s = do {
     ob \<leftarrow> load_obj object s;
     release \<leftarrow> obj_release ob;
     (case release of Virtusb_device_release \<Rightarrow> virtusb_device_release object s)
   }"

text \<open>\<open>sizeof\<close> of the two structs on a 64-bit machine.\<close>

definition SIZEOF_VIRTUSB_OBJECT :: nat where "SIZEOF_VIRTUSB_OBJECT = 32"
definition SIZEOF_VIRTUSB_DEVICE :: nat where "SIZEOF_VIRTUSB_DEVICE = 72"

text \<open>
  The argument \<open>mem\<close> is the success of \<open>kzalloc\<close>. The allocation is zeroed; one large enough
  for a device includes its upstream port.
\<close>

definition virtusb_object_alloc ::
  "bool \<Rightarrow> nat \<Rightarrow> virtusb_object_release_t option \<Rightarrow> 'a kobj_scheme \<Rightarrow> nat option \<times> 'a kobj_scheme" where
  "virtusb_object_alloc mem bytes release s =
     (if bytes < SIZEOF_VIRTUSB_OBJECT \<or> release = None then (None, s)
      else if \<not> mem then (None, s)
      else let obj = next_addr s in
        (Some obj, s\<lparr>next_addr := Suc obj,
           objects := (objects s)(obj \<mapsto>
             \<lparr>obj_id = VIRTUSB_OBJECT_ID_INVALID, obj_type = VIRTUSB_OBJECT_TYPE_INVALID,
              obj_refcount = 1, obj_release = release, obj_registered = False\<rparr>),
           dev_ports := (if bytes < SIZEOF_VIRTUSB_DEVICE then dev_ports s
                         else (dev_ports s)(obj \<mapsto> zero_port))\<rparr>))"

text \<open>\<open>kref_get\<close> and \<open>kref_put\<close>; a count of zero belongs to a freed object only.\<close>

definition virtusb_object_get :: "nat option \<Rightarrow> 'a kobj_scheme \<Rightarrow> 'a kobj_scheme option" where
  "virtusb_object_get object s =
     (case object of
        None \<Rightarrow> Some s
      | Some obj \<Rightarrow> modify_obj obj (\<lambda>ob. ob\<lparr>obj_refcount := obj_refcount ob + 1\<rparr>) s)"

definition virtusb_object_put :: "nat option \<Rightarrow> 'a kobj_scheme \<Rightarrow> 'a kobj_scheme option" where
  "virtusb_object_put object s =
     (case object of
        None \<Rightarrow> Some s
      | Some obj \<Rightarrow> do {
          ob \<leftarrow> load_obj obj s;
          if obj_refcount ob = 0 then None
          else do {
            s \<leftarrow> modify_obj obj (\<lambda>ob. ob\<lparr>obj_refcount := obj_refcount ob - 1\<rparr>) s;
            if obj_refcount ob = 1 then virtusb_object_release_kref obj s else Some s
          }
        })"

section \<open>The object manager\<close>

text \<open>
  The manager's mutex makes each operation atomic: it is held from the first access of the
  registry to the last. \<open>virtusb_object_unregister\<close> drops the registry reference after the
  unlock, when the object can no longer be found.
\<close>

definition virtusb_object_manager_init :: "'a kobj_scheme \<Rightarrow> 'a kobj_scheme" where
  "virtusb_object_manager_init s = s\<lparr>next_object_id := 1\<rparr>"

definition virtusb_object_manager_exit :: "'a kobj_scheme \<Rightarrow> 'a kobj_scheme" where
  "virtusb_object_manager_exit s = (WARN_ON (\<not> xa_empty (registry s)) s)\<lparr>registry := xa_none\<rparr>"

abbreviation (input) U32_MAX :: u64 where "U32_MAX \<equiv> 4294967295"

definition virtusb_object_register ::
  "bool \<Rightarrow> nat option \<Rightarrow> virtusb_object_type \<Rightarrow> 'a kobj_scheme \<Rightarrow> (int \<times> 'a kobj_scheme) option" where
  "virtusb_object_register mem object type s =
     (case object of
        None \<Rightarrow> Some (- EINVAL, s)
      | Some obj \<Rightarrow>
          if type_code type \<le> type_code VIRTUSB_OBJECT_TYPE_INVALID \<or>
             type_code type > type_code VIRTUSB_OBJECT_TYPE_DEVICE
          then Some (- EINVAL, s)
          else do {
            ob \<leftarrow> load_obj obj s;
            if obj_registered ob then Some (- EALREADY, s)
            else if next_object_id s > U32_MAX then Some (- ENOSPC, s)
            else do {
              let new_id = (ucast (next_object_id s) :: u32);
              s \<leftarrow> virtusb_object_get object s;
              let (ret, reg) = xa_insert mem (ucast new_id) obj (registry s);
              if ret < 0 then do {
                s \<leftarrow> virtusb_object_put object s;
                Some (ret, s)
              }
              else do {
                let s = s\<lparr>registry := reg\<rparr>;
                s \<leftarrow> modify_obj obj (\<lambda>ob. ob\<lparr>obj_id := new_id, obj_type := type, obj_registered := True\<rparr>) s;
                Some (ret, s\<lparr>next_object_id := next_object_id s + 1\<rparr>)
              }
            }
          })"

definition virtusb_object_unregister :: "nat option \<Rightarrow> 'a kobj_scheme \<Rightarrow> (int \<times> 'a kobj_scheme) option" where
  "virtusb_object_unregister object s =
     (case object of
        None \<Rightarrow> Some (- EINVAL, s)
      | Some obj \<Rightarrow> do {
          ob \<leftarrow> load_obj obj s;
          if \<not> obj_registered ob \<or> obj_id ob = VIRTUSB_OBJECT_ID_INVALID then Some (- ENOENT, s)
          else if xa_load (registry s) (ucast (obj_id ob)) \<noteq> Some obj then Some (- ENOENT, s)
          else do {
            let s = s\<lparr>registry := xa_erase (ucast (obj_id ob)) (registry s)\<rparr>;
            s \<leftarrow> modify_obj obj (\<lambda>ob. ob\<lparr>obj_registered := False\<rparr>) s;
            s \<leftarrow> virtusb_object_put object s;
            Some (0, s)
          }
        })"

definition virtusb_object_lookup :: "u32 \<Rightarrow> 'a kobj_scheme \<Rightarrow> (nat option \<times> 'a kobj_scheme) option" where
  "virtusb_object_lookup object_id s =
     (if object_id = VIRTUSB_OBJECT_ID_INVALID then Some (None, s)
      else case xa_load (registry s) (ucast object_id) of
        None \<Rightarrow> Some (None, s)
      | Some obj \<Rightarrow> do { s \<leftarrow> virtusb_object_get (Some obj) s; Some (Some obj, s) })"

text \<open>The \<open>xa_for_each\<close> scan reads the type of each object it passes.\<close>

fun find_type :: "virtusb_object_type \<Rightarrow> (u64 \<times> nat) list \<Rightarrow> 'a kobj_scheme \<Rightarrow> nat option option" where
  "find_type type [] s = Some None"
| "find_type type ((index, obj) # entries) s = do {
     ob \<leftarrow> load_obj obj s;
     if obj_type ob = type then Some (Some obj) else find_type type entries s
   }"

definition virtusb_object_lookup_first_by_type ::
  "virtusb_object_type \<Rightarrow> 'a kobj_scheme \<Rightarrow> (nat option \<times> 'a kobj_scheme) option" where
  "virtusb_object_lookup_first_by_type type s = do {
     found \<leftarrow> find_type type (xa_entries (registry s)) s;
     (case found of
        None \<Rightarrow> Some (None, s)
      | Some obj \<Rightarrow> do { s \<leftarrow> virtusb_object_get (Some obj) s; Some (Some obj, s) })
   }"

end
