(* ===== verification/Virtusb_Hub_Props.thy ===== *)
theory Virtusb_Hub_Props
  imports Virtusb_Hub
begin

text \<open>
  What the operations of \<open>Virtusb_Hub\<close> do, stated on the value of one hub, and the invariant of
  the hubs: the USB protocol state of a port (enabled, operating speed) is only kept while the
  port is connected. An operation that changes the connection breaks that for one port and
  repairs it with \<open>virtusb_hub_mark_port_connection_change\<close>, so the invariant has an exception
  set.
\<close>

section \<open>The packed speed as a function of the port number\<close>

lemma put_hub_put_hub [simp]: "put_hub h b (put_hub h a s) = put_hub h b s"
  by (simp add: put_hub_def)

lemma put_hub_same: "load_hub h s = Some hub \<Longrightarrow> put_hub h hub s = s"
  by (simp add: put_hub_def load_hub_def fun_upd_idem)

definition packed_speed :: "virtusb_hub \<Rightarrow> u32 \<Rightarrow> virtusb_port_speed" where
  "packed_speed hub n =
     speed_of_code (drop_bit (2 * (unat n mod 16)) (usb_speed (hub_usb hub) ! (unat n div 16)) AND mask 2)"

definition with_speed :: "u32 \<Rightarrow> virtusb_port_speed \<Rightarrow> virtusb_hub \<Rightarrow> virtusb_hub" where
  "with_speed n sp hub =
     (let i = unat n div 16; k = 2 * (unat n mod 16); m = push_bit k (mask 2 :: u32) in
      hub\<lparr>hub_usb := (hub_usb hub)\<lparr>usb_speed := (usb_speed (hub_usb hub))
        [i := (usb_speed (hub_usb hub) ! i AND NOT m) OR (push_bit k (speed_code sp) AND m)]\<rparr>\<rparr>)"

lemma packed_speed_update [simp]:
  "packed_speed (hub\<lparr>hub_usb_change := c\<rparr>) = packed_speed hub"
  "packed_speed (hub\<lparr>hub_ports := p\<rparr>) = packed_speed hub"
  "usb_speed u = usb_speed (hub_usb hub) \<Longrightarrow> packed_speed (hub\<lparr>hub_usb := u\<rparr>) = packed_speed hub"
  by (simp_all add: packed_speed_def fun_eq_iff)

lemma with_speed_change [simp]:
  "c = hub_usb_change hub \<Longrightarrow> (with_speed n sp hub)\<lparr>hub_usb_change := c\<rparr> = with_speed n sp hub"
  by (simp add: with_speed_def Let_def)

lemma packed_index:
  "unat (virtusb_hub_packed_word_index n VIRTUSB_PORT_SPEED_BITS) = unat n div 16"
  by (simp add: virtusb_hub_packed_word_index_def VIRTUSB_PACKED_speed unat_div)

lemma packed_shift:
  "unat (virtusb_hub_packed_shift n VIRTUSB_PORT_SPEED_BITS) = 2 * (unat n mod 16)"
  unfolding virtusb_hub_packed_shift_def VIRTUSB_PACKED_speed
  using mod_less_divisor [of 16 "unat n"]
  by (simp add: VIRTUSB_PORT_SPEED_BITS_def unat_word_ariths unat_mod mult.commute
      order.strict_trans)

lemma packed_index_bound: "unat (n :: u32) < 32 \<Longrightarrow> unat n div 16 < 2"
  by (simp add: less_mult_imp_div_less)

lemma virtusb_hub_set_port_speed_ok:
  assumes "load_hub h s = Some hub" and "length (usb_speed (hub_usb hub)) = 2" and "unat n < 32"
  shows "virtusb_hub_set_port_speed h n sp s = Some (put_hub h (with_speed n sp hub) s)"
  using assms packed_index_bound [of n]
  by (simp add: virtusb_hub_set_port_speed_def packed_index packed_shift with_speed_def Let_def
      store_hub_def VIRTUSB_PACKED_speed)

lemma word_field_get_set:
  fixes w v :: u32
  assumes v: "\<And>b. bit v b \<Longrightarrow> b < 2" and j: "j + 2 \<le> 32" "2 dvd j" "2 dvd k"
  shows "drop_bit j ((w AND NOT (push_bit k (mask 2))) OR (push_bit k v AND push_bit k (mask 2))) AND mask 2
         = (if j = k then v else drop_bit j w AND mask 2)"
proof (rule bit_word_eqI)
  fix b assume "b < LENGTH(32)"
  have "b < 2 \<Longrightarrow> k \<le> j + b \<Longrightarrow> j + b - k < 2 \<Longrightarrow> j = k"
    using j by (elim dvdE) (auto; presburger)
  then show "bit (drop_bit j ((w AND NOT (push_bit k (mask 2))) OR (push_bit k v AND push_bit k (mask 2)))
                AND mask 2) b
             = bit (if j = k then v else drop_bit j w AND mask 2) b"
    using v [of b] j by (auto simp: bit_simps)
qed

lemma with_speed_sel [simp]:
  "hub_port_count (with_speed n sp hub) = hub_port_count hub"
  "hub_power_switching_mode (with_speed n sp hub) = hub_power_switching_mode hub"
  "hub_over_current_mode (with_speed n sp hub) = hub_over_current_mode hub"
  "hub_over_current (with_speed n sp hub) = hub_over_current hub"
  "hub_ports (with_speed n sp hub) = hub_ports hub"
  "hub_usb_change (with_speed n sp hub) = hub_usb_change hub"
  "hub_status_changed (with_speed n sp hub) = hub_status_changed hub"
  "hub_status_changed_context (with_speed n sp hub) = hub_status_changed_context hub"
  "usb_enabled (hub_usb (with_speed n sp hub)) = usb_enabled (hub_usb hub)"
  "usb_suspended (hub_usb (with_speed n sp hub)) = usb_suspended (hub_usb hub)"
  "usb_reset (hub_usb (with_speed n sp hub)) = usb_reset (hub_usb hub)"
  "length (usb_speed (hub_usb (with_speed n sp hub))) = length (usb_speed (hub_usb hub))"
  by (simp_all add: with_speed_def Let_def)

lemma packed_speed_with_speed:
  assumes len: "length (usb_speed (hub_usb hub)) = 2" and m: "unat m < 32" and n: "unat n < 32"
  shows "packed_speed (with_speed n sp hub) m = (if m = n then sp else packed_speed hub m)"
proof (cases "unat m div 16 = unat n div 16")
  case True
  have eq: "2 * (unat m mod 16) = 2 * (unat n mod 16) \<longleftrightarrow> m = n"
    using True by (metis div_mult_mod_eq mult_cancel1 word_unat_eq_iff zero_neq_numeral)
  have j: "2 * (unat m mod 16) + 2 \<le> 32"
    using mod_less_divisor [of 16 "unat m"] by simp
  let ?w = "usb_speed (hub_usb hub) ! (unat n div 16)" and ?k = "2 * (unat n mod 16)"
  have "packed_speed (with_speed n sp hub) m =
      speed_of_code (drop_bit (2 * (unat m mod 16))
        ((?w AND NOT (push_bit ?k (mask 2))) OR (push_bit ?k (speed_code sp) AND push_bit ?k (mask 2)))
        AND mask 2)"
    using len packed_index_bound [OF n] by (simp only: packed_speed_def with_speed_def Let_def True) simp
  also have "\<dots> = (if m = n then sp else packed_speed hub m)"
    using j eq
    by (subst word_field_get_set [OF speed_code_bits]) (simp_all add: packed_speed_def True)
  finally show ?thesis .
next
  case False
  then show ?thesis by (auto simp: packed_speed_def with_speed_def Let_def)
qed


section \<open>The invariant of the hubs\<close>

text \<open>
  A hub keeps the sizes of its arrays, and exactly the ports its port count covers are initialised.
  This also holds of the zeroed hub the USB core allocates before the hub is initialised.
\<close>

definition hub_shape :: "virtusb_hub \<Rightarrow> bool" where
  "hub_shape hub \<longleftrightarrow>
     length (hub_ports hub) = 31 \<and> unat (hub_port_count hub) \<le> 31 \<and>
     length (usb_speed (hub_usb hub)) = 2 \<and>
     (\<forall>i < 31. p_role (hub_ports hub ! i) =
        (if i < unat (hub_port_count hub) then VIRTUSB_PORT_ROLE_DOWNSTREAM else VIRTUSB_PORT_ROLE_INVALID))"

definition valid_port :: "virtusb_hub \<Rightarrow> u32 \<Rightarrow> bool" where
  "valid_port hub n \<longleftrightarrow> 0 < n \<and> n \<le> ucast (hub_port_count hub)"

text \<open>
  The connection USB sees at port \<open>k\<close> (numbered from one): a device is plugged in, the port has
  power, and the device signals its presence.
\<close>

fun port_connected :: "'a topo_scheme \<Rightarrow> nat \<Rightarrow> nat \<Rightarrow> bool" where
  "port_connected s h 0 = False"
| "port_connected s h (Suc i) =
     (case load_port (Hub_port h i) s of
        None \<Rightarrow> False
      | Some pd \<Rightarrow>
          (case p_peer pd of
             None \<Rightarrow> False
           | Some u \<Rightarrow>
               (case load_port u s of
                  None \<Rightarrow> False
                | Some pu \<Rightarrow> downstream_powered pd \<and> upstream_connection_signaling pu)))"

declare port_connected.simps [simp del]

text \<open>
  The protocol state that may stand while \<open>C\<close> holds of the connected ports. No operation of the
  driver raises the enable, suspend and over-current changes, and a reset completes before the
  operation returns.
\<close>

definition hub_usb_ok :: "(nat \<Rightarrow> bool) \<Rightarrow> virtusb_hub \<Rightarrow> bool" where
  "hub_usb_ok C hub \<longleftrightarrow>
     usb_reset (hub_usb hub) = 0 \<and>
     chg_enabled (hub_usb_change hub) = 0 \<and> chg_suspended (hub_usb_change hub) = 0 \<and>
     chg_over_current (hub_usb_change hub) = 0 \<and>
     (\<forall>k. bit (usb_enabled (hub_usb hub)) k \<longrightarrow> C k) \<and>
     (\<forall>n. unat n < 32 \<longrightarrow> packed_speed hub n \<noteq> VIRTUSB_PORT_SPEED_NONE \<longrightarrow> C (unat n)) \<and>
     (\<forall>k. bit (usb_enabled (hub_usb hub)) k \<or> bit (usb_suspended (hub_usb hub)) k \<or>
          bit (chg_connected (hub_usb_change hub)) k \<or> bit (chg_reset (hub_usb_change hub)) k
          \<longrightarrow> 0 < k \<and> k \<le> unat (hub_port_count hub))"

definition topo_wf_upto :: "(nat \<Rightarrow> nat \<Rightarrow> bool) \<Rightarrow> 'a topo_scheme \<Rightarrow> bool" where
  "topo_wf_upto E s \<longleftrightarrow>
     ports_wf s \<and>
     (\<forall>h hub. load_hub h s = Some hub \<longrightarrow>
        hub_shape hub \<and> hub_usb_ok (\<lambda>k. E h k \<or> port_connected s h k) hub)"

abbreviation topo_wf :: "'a topo_scheme \<Rightarrow> bool" where
  "topo_wf \<equiv> topo_wf_upto (\<lambda>_ _. False)"

lemma topo_wf_ports: "topo_wf_upto E s \<Longrightarrow> ports_wf s"
  by (simp add: topo_wf_upto_def)

lemma topo_wf_shape: "topo_wf_upto E s \<Longrightarrow> load_hub h s = Some hub \<Longrightarrow> hub_shape hub"
  by (simp add: topo_wf_upto_def)

lemma topo_wf_usb:
  "topo_wf_upto E s \<Longrightarrow> load_hub h s = Some hub \<Longrightarrow>
     hub_usb_ok (\<lambda>k. E h k \<or> port_connected s h k) hub"
  by (simp add: topo_wf_upto_def)

lemma hub_usb_ok_mono:
  "hub_usb_ok C hub \<Longrightarrow> (\<And>k. C k \<Longrightarrow> D k) \<Longrightarrow> hub_usb_ok D hub"
  unfolding hub_usb_ok_def by blast

lemma topo_wf_upto_mono:
  assumes "topo_wf_upto E s" and "\<And>h k. E h k \<Longrightarrow> F h k \<or> port_connected s h k"
  shows "topo_wf_upto F s"
  using assms hub_usb_ok_mono
  unfolding topo_wf_upto_def by (smt (verit, ccfv_threshold))

lemma port_connected_cong:
  assumes "\<And>a. load_port a s' = load_port a s"
  shows "port_connected s' h k = port_connected s h k"
  by (cases k) (simp_all add: assms port_connected.simps split: option.split)

section \<open>Port numbers of a hub of the right shape\<close>

lemma valid_portD:
  assumes "hub_shape hub" and "valid_port hub n"
  obtains i where "unat n = Suc i" and "i < 31" and "i < unat (hub_port_count hub)"
    and "unat (n - 1) = i" and "unat n < 32"
proof -
  from assms have n: "0 < n" "unat n \<le> unat (hub_port_count hub)" "unat (hub_port_count hub) \<le> 31"
    by (simp_all add: valid_port_def hub_shape_def word_le_nat_alt)
  then have "unat (n - 1) = unat n - 1" by (simp add: unat_minus_one word_neq_0_conv)
  moreover from n have "0 < unat n" by (simp add: word_less_nat_alt)
  ultimately show ?thesis using n by (intro that [of "unat n - 1"]) simp_all
qed

lemma hub_port_alloc:
  assumes "load_hub h s = Some hub" and "hub_shape hub" and "i < unat (hub_port_count hub)"
  shows "load_port (Hub_port h i) s = Some (hub_ports hub ! i)"
    and "p_role (hub_ports hub ! i) = VIRTUSB_PORT_ROLE_DOWNSTREAM"
  using assms by (simp_all add: load_port.simps hub_shape_def)

lemma virtusb_hub_port_is_valid_ok:
  "load_hub h s = Some hub \<Longrightarrow> virtusb_hub_port_is_valid (Some h) n s = Some (valid_port hub n)"
  by (simp add: virtusb_hub_port_is_valid_def valid_port_def)

lemma virtusb_hub_get_port_ok:
  assumes "load_hub h s = Some hub"
  shows "virtusb_hub_get_port (Some h) n s =
           Some (if valid_port hub n then Some (Hub_port h (unat (n - 1))) else None)"
    and "virtusb_hub_get_port_const (Some h) n s =
           Some (if valid_port hub n then Some (Hub_port h (unat (n - 1))) else None)"
  using assms
  by (simp_all add: virtusb_hub_get_port_def virtusb_hub_get_port_const_def virtusb_hub_port_is_valid_ok)

lemma virtusb_hub_port_is_connected_ok:
  assumes wf: "ports_wf s" and h: "load_hub h s = Some hub" and shape: "hub_shape hub"
  shows "virtusb_hub_port_is_connected (Some h) n s =
           Some (valid_port hub n \<and> port_connected s h (unat n))"
proof (cases "valid_port hub n")
  case False
  with h show ?thesis by (simp add: virtusb_hub_port_is_connected_def virtusb_hub_get_port_ok port_connected.simps)
next
  case True
  with shape obtain i where i: "unat n = Suc i" "i < unat (hub_port_count hub)" "unat (n - 1) = i"
    by (rule valid_portD)
  let ?p = "hub_ports hub ! i"
  have p: "load_port (Hub_port h i) s = Some ?p" using h shape i(2) by (rule hub_port_alloc)
  show ?thesis
  proof (cases "p_peer ?p")
    case None
    with True h i p show ?thesis
      by (simp add: virtusb_hub_port_is_connected_def virtusb_hub_get_port_ok port_connected.simps)
  next
    case (Some b)
    with wf p obtain q where "load_port b s = Some q" "p_role q = VIRTUSB_PORT_ROLE_UPSTREAM"
      by (metis peer_of_hub_port)
    with True h i p Some show ?thesis
      by (simp add: virtusb_hub_port_is_connected_def virtusb_hub_get_port_ok port_connected.simps)
  qed
qed

lemma virtusb_hub_get_port_speed_ok:
  assumes h: "load_hub h s = Some hub" and shape: "hub_shape hub"
  shows "virtusb_hub_get_port_speed (Some h) n s =
           Some (if valid_port hub n then packed_speed hub n else VIRTUSB_PORT_SPEED_NONE)"
proof (cases "valid_port hub n")
  case True
  with shape have "unat n < 32" by (rule valid_portD)
  with True h shape packed_index_bound [of n] show ?thesis
    by (simp add: virtusb_hub_get_port_speed_def virtusb_hub_port_is_valid_ok packed_index packed_shift
        packed_speed_def hub_shape_def VIRTUSB_PACKED_speed Let_def)
next
  case False
  with h show ?thesis by (simp add: virtusb_hub_get_port_speed_def virtusb_hub_port_is_valid_ok)
qed

section \<open>What the protocol operations do to a hub\<close>

definition notified :: "virtusb_hub \<Rightarrow> 'a topo_scheme \<Rightarrow> 'a topo_scheme" where
  "notified hub s =
     (case (hub_status_changed hub, hub_status_changed_context hub) of
        (Some Virtusb_hcd_root_hub_status_changed, Some hcd) \<Rightarrow> log_event (Poll_rh_status hcd) s
      | _ \<Rightarrow> s)"

lemma virtusb_hub_notify_status_changed_ok:
  "load_hub h s = Some hub \<Longrightarrow> virtusb_hub_notify_status_changed (Some h) s = Some (notified hub s)"
  by (cases "hub_status_changed hub")
     (auto simp: virtusb_hub_notify_status_changed_def notified_def virtusb_hcd_root_hub_status_changed_def
       split: virtusb_hub_status_changed_t.split option.split)

definition mark_hub :: "bool \<Rightarrow> u32 \<Rightarrow> virtusb_hub \<Rightarrow> virtusb_hub" where
  "mark_hub connected n hub =
     (let hub = (if connected then hub
                 else with_speed n VIRTUSB_PORT_SPEED_NONE (hub\<lparr>hub_usb := (hub_usb hub)
                   \<lparr>usb_enabled := usb_enabled (hub_usb hub) AND NOT (BIT n),
                    usb_suspended := usb_suspended (hub_usb hub) AND NOT (BIT n),
                    usb_reset := usb_reset (hub_usb hub) AND NOT (BIT n)\<rparr>\<rparr>))
      in hub\<lparr>hub_usb_change := (hub_usb_change hub)
           \<lparr>chg_connected := chg_connected (hub_usb_change hub) OR BIT n\<rparr>\<rparr>)"

definition reset_hub :: "virtusb_port_speed \<Rightarrow> u32 \<Rightarrow> virtusb_hub \<Rightarrow> virtusb_hub" where
  "reset_hub sp n hub =
     (let hub = with_speed n sp (hub\<lparr>hub_usb := (hub_usb hub)
                   \<lparr>usb_enabled := usb_enabled (hub_usb hub) OR BIT n,
                    usb_suspended := usb_suspended (hub_usb hub) AND NOT (BIT n),
                    usb_reset := usb_reset (hub_usb hub) AND NOT (BIT n)\<rparr>\<rparr>)
      in hub\<lparr>hub_usb_change := (hub_usb_change hub)
           \<lparr>chg_reset := chg_reset (hub_usb_change hub) OR BIT n\<rparr>\<rparr>)"

definition marked :: "nat \<Rightarrow> u32 \<Rightarrow> 'a topo_scheme \<Rightarrow> 'a topo_scheme" where
  "marked h n s =
     (case load_hub h s of
        None \<Rightarrow> s
      | Some hub \<Rightarrow>
          (if bit (chg_connected (hub_usb_change hub)) (unat n) then id else notified hub)
            (put_hub h (mark_hub (port_connected s h (unat n)) n hub) s))"

lemma OR_BIT_same: "bit w (unat n) \<Longrightarrow> w OR BIT n = w"
  by (rule word_eqI_32) (auto simp: bit_BITs)

lemma BIT_set_clear: "(w OR BIT n) AND NOT (BIT n) = w AND NOT (BIT n)"
  by (rule word_eqI_32) (auto simp: bit_BITs)

lemma BIT_clear_set: "(w AND NOT (BIT n)) OR BIT n = w OR BIT n"
  by (rule word_eqI_32) (auto simp: bit_BITs)

lemma notified_put_hub [simp]:
  "notified hub (put_hub h b s) = put_hub h b (notified hub s)"
  by (auto simp: notified_def log_event_def put_hub_def
      split: option.split virtusb_hub_status_changed_t.split)

lemma notified_update [simp]:
  "notified (hub\<lparr>hub_usb := u\<rparr>) = notified hub"
  "notified (hub\<lparr>hub_usb_change := c\<rparr>) = notified hub"
  "notified (hub\<lparr>hub_ports := p\<rparr>) = notified hub"
  "notified (with_speed n sp hub) = notified hub"
  by (simp_all add: notified_def fun_eq_iff)

lemma virtusb_hub_mark_port_connection_change_ok:
  assumes wf: "ports_wf s" and h: "load_hub h s = Some hub" and shape: "hub_shape hub"
    and n: "valid_port hub n"
  shows "virtusb_hub_mark_port_connection_change (Some h) n s = Some (marked h n s)"
proof -
  from shape n have n32: "unat n < 32" by (rule valid_portD)
  have len: "length (usb_speed (hub_usb hub)) = 2" using shape by (simp add: hub_shape_def)
  note facts = virtusb_hub_port_is_valid_ok virtusb_hub_port_is_connected_ok [OF wf h shape]
    virtusb_hub_set_port_speed_ok virtusb_hub_notify_status_changed_ok and_BIT_eq_0 [OF n32]
  show ?thesis
    using h n n32 len
    by (cases "port_connected s h (unat n)"; cases "bit (chg_connected (hub_usb_change hub)) (unat n)")
       (simp_all add: virtusb_hub_mark_port_connection_change_def facts marked_def mark_hub_def
         OR_BIT_same put_hub_same [OF h])
qed


text \<open>Marking a port is the only reaction to a change of its connection.\<close>

lemma hub_usb_ok_mark:
  assumes ok: "hub_usb_ok (\<lambda>k. k = unat n \<or> C k) hub" and shape: "hub_shape hub" and n: "valid_port hub n"
  shows "hub_usb_ok C (mark_hub (C (unat n)) n hub)"
proof -
  from shape n have n32: "unat n < 32" by (rule valid_portD)
  from shape n have range: "0 < unat n" "unat n \<le> unat (hub_port_count hub)"
    by (auto elim: valid_portD)
  have len: "length (usb_speed (hub_usb hub)) = 2" using shape by (simp add: hub_shape_def)
  show ?thesis
    using ok range n32 len
    by (auto simp: hub_usb_ok_def mark_hub_def Let_def bit_BITs packed_speed_with_speed)
       (metis word_unat_eq_iff)
qed


section \<open>Frames\<close>

text \<open>
  Two states agree on the wiring when they hold the same ports. An operation of the topology
  keeps the layout: what is allocated, the port counts, the capabilities and the callbacks of
  the hubs and every part of the state outside ports and hubs.
\<close>

definition same_layout :: "virtusb_hub \<Rightarrow> virtusb_hub \<Rightarrow> bool" where
  "same_layout hub hub' \<longleftrightarrow>
     hub_port_count hub' = hub_port_count hub \<and>
     hub_power_switching_mode hub' = hub_power_switching_mode hub \<and>
     hub_over_current_mode hub' = hub_over_current_mode hub \<and>
     hub_over_current hub' = hub_over_current hub \<and>
     hub_status_changed hub' = hub_status_changed hub \<and>
     hub_status_changed_context hub' = hub_status_changed_context hub"

definition layout :: "'a topo_scheme \<Rightarrow> 'a topo_scheme \<Rightarrow> bool" where
  "layout s s' \<longleftrightarrow>
     (\<forall>h. rel_option same_layout (load_hub h s) (load_hub h s')) \<and>
     dom (dev_ports s') = dom (dev_ports s) \<and> topo.more s' = topo.more s"

lemma same_layout_refl [simp]: "same_layout hub hub"
  by (simp add: same_layout_def)

lemma rel_same_layout_refl [simp]: "rel_option same_layout x x"
  by (cases x) simp_all

lemma layout_refl [simp]: "layout s s"
  by (simp add: layout_def)

lemma layout_trans [trans]: "layout s t \<Longrightarrow> layout t u \<Longrightarrow> layout s u"
proof -
  have "rel_option same_layout x y \<Longrightarrow> rel_option same_layout y z \<Longrightarrow> rel_option same_layout x z" for x y z
    by (cases x; cases y; cases z) (auto simp: same_layout_def)
  then show "layout s t \<Longrightarrow> layout t u \<Longrightarrow> layout s u"
    unfolding layout_def by metis
qed

lemma layout_load_hub:
  assumes "layout s s'" and "load_hub h s = Some hub"
  obtains hub' where "load_hub h s' = Some hub'" and "same_layout hub hub'"
proof -
  from assms have "rel_option same_layout (Some hub) (load_hub h s')" by (metis layout_def)
  then show ?thesis using that by (cases "load_hub h s'") simp_all
qed

lemma layout_more: "layout s s' \<Longrightarrow> topo.more s' = topo.more s"
  by (simp add: layout_def)

lemma layout_dev_ports: "layout s s' \<Longrightarrow> dev_ports s' d = None \<longleftrightarrow> dev_ports s d = None"
  unfolding layout_def by (metis domIff)

lemma layout_hubs: "layout s s' \<Longrightarrow> load_hub h s' = None \<longleftrightarrow> load_hub h s = None"
  unfolding layout_def by (metis option.rel_distinct(1) option.rel_distinct(2) option.exhaust)

lemma layout_put_hub:
  "load_hub h s = Some hub \<Longrightarrow> same_layout hub hub' \<Longrightarrow> layout s (put_hub h hub' s)"
  by (simp add: layout_def)

lemma layout_put_port: "layout s (put_port a p s)"
proof (cases a)
  case (Hub_port h i)
  then show ?thesis
    by (cases "load_hub h s") (simp_all add: layout_def same_layout_def)
next
  case (Dev_port d)
  then show ?thesis by (auto simp: layout_def)
qed

lemma load_hub_notified [simp]: "load_hub h (notified hub s) = load_hub h s"
  by (auto simp: notified_def split: option.split virtusb_hub_status_changed_t.split)

lemma layout_notified: "layout s (notified hub s)"
  by (auto simp: notified_def layout_def split: option.split virtusb_hub_status_changed_t.split)

lemma load_port_notified [simp]:
  "load_port a (notified hub s) = load_port a s"
  by (auto simp: notified_def split: option.split virtusb_hub_status_changed_t.split)

lemma same_layout_mark_hub [simp]: "same_layout hub (mark_hub c n hub)"
  by (simp add: same_layout_def mark_hub_def Let_def)

lemma same_layout_reset_hub [simp]: "same_layout hub (reset_hub sp n hub)"
  by (simp add: same_layout_def reset_hub_def Let_def)

lemma hub_ports_mark_hub [simp]: "hub_ports (mark_hub c n hub) = hub_ports hub"
  by (simp add: mark_hub_def Let_def)

lemma hub_ports_reset_hub [simp]: "hub_ports (reset_hub sp n hub) = hub_ports hub"
  by (simp add: reset_hub_def Let_def)

lemma load_port_marked [simp]: "load_port a (marked h n s) = load_port a s"
  by (auto simp: marked_def load_port_put_hub split: option.split)

lemma load_hub_marked:
  "load_hub g (marked h n s) =
     (if g = h then map_option (mark_hub (port_connected s h (unat n)) n) (load_hub h s) else load_hub g s)"
  by (auto simp: marked_def split: option.split)

lemma layout_marked [simp]: "layout s (marked h n s)"
  by (auto simp: marked_def intro: layout_put_hub layout_trans [OF layout_notified layout_put_hub]
      split: option.split)

lemma port_connected_marked [simp]: "port_connected (marked h n s) g k = port_connected s g k"
  by (rule port_connected_cong) simp

lemma hub_shape_layout:
  assumes "hub_shape hub" and "same_layout hub hub'" and "length (usb_speed (hub_usb hub')) = 2"
    and "hub_ports hub' = hub_ports hub"
  shows "hub_shape hub'"
  using assms by (simp add: hub_shape_def same_layout_def)

lemma hub_shape_marked: "hub_shape hub \<Longrightarrow> hub_shape (mark_hub c n hub)"
  by (simp add: hub_shape_def mark_hub_def Let_def)

lemma hub_shape_reset: "hub_shape hub \<Longrightarrow> hub_shape (reset_hub sp n hub)"
  by (simp add: hub_shape_def reset_hub_def Let_def)

text \<open>Marking the port of a changed connection repairs the invariant.\<close>

lemma topo_wf_marked:
  assumes wf: "topo_wf_upto (\<lambda>g k. g = h \<and> k = unat n) s"
    and h: "load_hub h s = Some hub" and n: "valid_port hub n"
  shows "topo_wf (marked h n s)"
  unfolding topo_wf_upto_def
proof (intro conjI allI impI)
  show "ports_wf (marked h n s)"
    using topo_wf_ports [OF wf] by (simp add: ports_wf_cong [of "marked h n s" s])
next
  fix g hub' assume g: "load_hub g (marked h n s) = Some hub'"
  show "hub_shape hub'"
    using g h topo_wf_shape [OF wf] by (auto simp: load_hub_marked hub_shape_marked split: if_splits)
  show "hub_usb_ok (\<lambda>k. False \<or> port_connected (marked h n s) g k) hub'"
  proof (cases "g = h")
    case True
    with topo_wf_usb [OF wf h] have "hub_usb_ok (\<lambda>k. k = unat n \<or> port_connected s h k) hub" by simp
    with topo_wf_shape [OF wf h] n
    have "hub_usb_ok (port_connected s h) (mark_hub (port_connected s h (unat n)) n hub)"
      by (simp add: hub_usb_ok_mark)
    with True g h show ?thesis by (auto simp: load_hub_marked)
  next
    case False
    with g have "load_hub g s = Some hub'" by (simp add: load_hub_marked)
    from topo_wf_usb [OF wf this] False show ?thesis by simp
  qed
qed


section \<open>Changing a port and settling the hub\<close>

text \<open>
  The hub operations that may change a connection all have one form: note whether the port was
  connected, write ports, and mark the port if it is connected now and was not, or the reverse.
\<close>

definition settle :: "bool \<Rightarrow> nat \<Rightarrow> u32 \<Rightarrow> 'a topo_scheme \<Rightarrow> 'a topo_scheme" where
  "settle was h n s = (if was \<noteq> port_connected s h (unat n) then marked h n s else s)"

definition ports_written :: "virtusb_hub \<Rightarrow> virtusb_hub \<Rightarrow> bool" where
  "ports_written hub hub' \<longleftrightarrow>
     hub' = hub\<lparr>hub_ports := hub_ports hub'\<rparr> \<and>
     map p_role (hub_ports hub') = map p_role (hub_ports hub)"

definition port_writes :: "'a topo_scheme \<Rightarrow> 'a topo_scheme \<Rightarrow> bool" where
  "port_writes s s' \<longleftrightarrow>
     (\<forall>g. rel_option ports_written (load_hub g s) (load_hub g s')) \<and> layout s s'"

lemma ports_written_shape: "ports_written hub hub' \<Longrightarrow> hub_shape hub \<Longrightarrow> hub_shape hub'"
  unfolding ports_written_def hub_shape_def
  by (metis length_map nth_map order_less_le_trans virtusb_hub.select_convs(1,6)
      virtusb_hub.update_convs(5) virtusb_hub.surjective)

lemma ports_written_usb: "ports_written hub hub' \<Longrightarrow> hub_usb_ok C hub' = hub_usb_ok C hub"
  by (cases hub; cases hub') (simp add: ports_written_def hub_usb_ok_def packed_speed_def)

lemma port_writes_put:
  assumes "load_port a s = Some q" and "p_role p = p_role q"
  shows "port_writes s (put_port a p s)"
proof -
  have "rel_option ports_written (load_hub g s) (load_hub g (put_port a p s))" for g
  proof (cases a)
    case (Hub_port h i)
    with assms obtain hub where "load_hub h s = Some hub" "i < length (hub_ports hub)" "hub_ports hub ! i = q"
      by (auto simp: load_port.simps nth_opt_Some split: bind_splits)
    moreover from this assms(2) have "map p_role ((hub_ports hub)[i := p]) = map p_role (hub_ports hub)"
      by (simp add: map_update list_update_same_conv)
    ultimately show ?thesis
      using Hub_port by (cases "load_hub g s") (auto simp: ports_written_def)
  next
    case (Dev_port d)
    then show ?thesis by (cases "load_hub g s") (auto simp: ports_written_def)
  qed
  then show ?thesis by (simp add: port_writes_def layout_put_port)
qed

lemma port_writes_refl [simp]: "port_writes s s"
proof -
  have "rel_option ports_written x x" for x by (cases x) (simp_all add: ports_written_def)
  then show ?thesis by (simp add: port_writes_def)
qed

lemma port_writes_trans [trans]: "port_writes s t \<Longrightarrow> port_writes t u \<Longrightarrow> port_writes s u"
proof -
  have "ports_written a b \<Longrightarrow> ports_written b c \<Longrightarrow> ports_written a c" for a b c
    by (cases a; cases b; cases c) (simp add: ports_written_def)
  then have "rel_option ports_written x y \<Longrightarrow> rel_option ports_written y z \<Longrightarrow> rel_option ports_written x z" for x y z
    by (cases x; cases y; cases z) auto
  then show "port_writes s t \<Longrightarrow> port_writes t u \<Longrightarrow> port_writes s u"
    unfolding port_writes_def by (metis layout_trans)
qed

lemma topo_wf_port_writes:
  assumes wf: "topo_wf_upto E s" and s': "port_writes s s'" and ports: "ports_wf s'"
    and E: "\<And>g k. E g k \<or> port_connected s g k \<Longrightarrow> F g k \<or> port_connected s' g k"
  shows "topo_wf_upto F s'"
  unfolding topo_wf_upto_def
proof (intro conjI allI impI)
  fix g hub' assume g: "load_hub g s' = Some hub'"
  with s' obtain hub where hub: "load_hub g s = Some hub" "ports_written hub hub'"
    unfolding port_writes_def by (metis option.rel_cases option.inject option.distinct(1))
  with topo_wf_shape [OF wf] show "hub_shape hub'" by (metis ports_written_shape)
  from topo_wf_usb [OF wf hub(1)] show "hub_usb_ok (\<lambda>k. F g k \<or> port_connected s' g k) hub'"
    unfolding ports_written_usb [OF hub(2)] by (rule hub_usb_ok_mono) (rule E)
qed (rule ports)

lemma topo_wf_settle:
  assumes wf: "topo_wf s" and s': "port_writes s s'" and ports: "ports_wf s'"
    and h: "load_hub h s = Some hub" and n: "valid_port hub n"
    and others: "\<And>g k. \<not> (g = h \<and> k = unat n) \<Longrightarrow> port_connected s' g k = port_connected s g k"
  shows "topo_wf (settle (port_connected s h (unat n)) h n s')"
proof (cases "port_connected s h (unat n) = port_connected s' h (unat n)")
  case True
  with others have "port_connected s' g k = port_connected s g k" for g k by metis
  then have "topo_wf s'" by (intro topo_wf_port_writes [OF wf s' ports]) simp
  with True show ?thesis by (simp add: settle_def)
next
  case False
  have upto: "topo_wf_upto (\<lambda>g k. g = h \<and> k = unat n) s'"
    by (rule topo_wf_port_writes [OF wf s' ports]) (use others in auto)
  from s' h obtain hub' where hub': "load_hub h s' = Some hub'" "same_layout hub hub'"
    unfolding port_writes_def by (metis layout_load_hub)
  with n have "valid_port hub' n" by (simp add: valid_port_def same_layout_def)
  with upto hub' have "topo_wf (marked h n s')" by (blast intro: topo_wf_marked)
  with False show ?thesis by (simp add: settle_def)
qed

lemma load_port_settle [simp]: "load_port a (settle was h n s) = load_port a s"
  by (simp add: settle_def)

lemma port_connected_settle [simp]: "port_connected (settle was h n s) g k = port_connected s g k"
  by (simp add: settle_def)

lemma layout_settle: "layout s (settle was h n s)"
  by (simp add: settle_def)

text \<open>The code of the pattern, once the ports are written.\<close>

lemma settle_code:
  assumes "ports_wf s" and "load_hub h s = Some hub" and "hub_shape hub" and "valid_port hub n"
  shows "virtusb_hub_port_is_connected (Some h) n s \<bind> (\<lambda>is_connected.
           (if was = (\<not> is_connected) then virtusb_hub_mark_port_connection_change (Some h) n s else Some s)
             \<bind> f) = f (settle was h n s)"
  using assms
  by (cases was; cases "port_connected s h (unat n)")
     (simp_all add: virtusb_hub_port_is_connected_ok virtusb_hub_mark_port_connection_change_ok settle_def)

section \<open>Which connections a port write can change\<close>

lemma port_connected_frame:
  assumes wf: "ports_wf s"
    and same: "\<And>a. a \<notin> X \<Longrightarrow> load_port a s' = load_port a s"
    and hub: "\<And>j. k = Suc j \<Longrightarrow> Hub_port g j \<notin> X"
    and dev: "\<And>j d p. k = Suc j \<Longrightarrow> Dev_port d \<in> X \<Longrightarrow> load_port (Dev_port d) s = Some p
                \<Longrightarrow> p_peer p \<noteq> Some (Hub_port g j)"
  shows "port_connected s' g k = port_connected s g k"
proof (cases k)
  case (Suc j)
  with hub have a: "load_port (Hub_port g j) s' = load_port (Hub_port g j) s"
    by (intro same) blast
  show ?thesis
  proof (cases "load_port (Hub_port g j) s")
    case (Some pd)
    show ?thesis
    proof (cases "p_peer pd")
      case (Some b)
      with wf \<open>load_port (Hub_port g j) s = Some pd\<close> obtain d q where
        q: "b = Dev_port d" "load_port (Dev_port d) s = Some q" "p_peer q = Some (Hub_port g j)"
        by (metis peer_of_hub_port)
      with Suc dev have "Dev_port d \<notin> X" by blast
      with q have "load_port b s' = load_port b s" by (simp add: same)
      with Suc a Some \<open>load_port (Hub_port g j) s = Some pd\<close> show ?thesis by (simp add: port_connected.simps)
    qed (use Suc a \<open>load_port (Hub_port g j) s = Some pd\<close> in \<open>simp add: port_connected.simps\<close>)
  qed (use Suc a in \<open>simp add: port_connected.simps\<close>)
qed (simp add: port_connected.simps)

section \<open>Port power\<close>

definition powered_port :: "bool \<Rightarrow> nat \<Rightarrow> u32 \<Rightarrow> 'a topo_scheme \<Rightarrow> 'a topo_scheme" where
  "powered_port powered h n s =
     (case load_port (Hub_port h (unat (n - 1))) s of
        None \<Rightarrow> s
      | Some pd \<Rightarrow> settle (port_connected s h (unat n)) h n
                    (put_port (Hub_port h (unat (n - 1))) (pd\<lparr>p_state0 := powered\<rparr>) s))"

lemma put_state_facts:
  assumes wf: "topo_wf s" and p: "load_port a s = Some p" and r: "p_role p \<noteq> VIRTUSB_PORT_ROLE_INVALID"
  shows "ports_wf (put_port a (p\<lparr>p_state0 := b\<rparr>) s)" "port_writes s (put_port a (p\<lparr>p_state0 := b\<rparr>) s)"
    and "ports_wf (put_port a (p\<lparr>p_state1 := b\<rparr>) s)" "port_writes s (put_port a (p\<lparr>p_state1 := b\<rparr>) s)"
  using ports_wf_put_state [OF topo_wf_ports [OF wf] p] p r by (auto intro: port_writes_put)

lemma powered_port_facts:
  assumes wf: "topo_wf s" and h: "load_hub h s = Some hub" and n: "valid_port hub n"
  shows "topo_wf (powered_port powered h n s)" and "layout s (powered_port powered h n s)"
    and "load_port a (powered_port powered h n s) =
           (if a = Hub_port h (unat (n - 1)) then map_option (p_state0_update (\<lambda>_. powered)) (load_port a s)
            else load_port a s)"
proof -
  note shape = topo_wf_shape [OF wf h]
  from shape n obtain i where i: "unat n = Suc i" "i < unat (hub_port_count hub)" "unat (n - 1) = i"
    by (rule valid_portD)
  note p = hub_port_alloc [OF h shape i(2)]
  let ?p = "hub_ports hub ! i"
  let ?s' = "put_port (Hub_port h i) (?p\<lparr>p_state0 := powered\<rparr>) s"
  from p have facts: "ports_wf ?s'" "port_writes s ?s'" using put_state_facts [OF wf p(1)] by simp_all
  have eq: "powered_port powered h n s = settle (port_connected s h (unat n)) h n ?s'"
    using i p by (simp add: powered_port_def)
  have "port_connected ?s' g k = port_connected s g k" if "\<not> (g = h \<and> k = unat n)" for g k
    by (rule port_connected_frame [OF topo_wf_ports [OF wf], where X = "{Hub_port h i}"])
       (use that i in auto)
  with wf facts h n show "topo_wf (powered_port powered h n s)"
    unfolding eq by (intro topo_wf_settle)
  from facts show "layout s (powered_port powered h n s)"
    unfolding eq port_writes_def by (blast intro: layout_trans layout_settle)
  show "load_port a (powered_port powered h n s) =
      (if a = Hub_port h (unat (n - 1)) then map_option (p_state0_update (\<lambda>_. powered)) (load_port a s)
       else load_port a s)"
    unfolding eq using i p by simp
qed

lemma powered_port_hub:
  assumes "topo_wf s" and "load_hub h s = Some hub" and "valid_port hub n"
  obtains hub' where "load_hub h (powered_port powered h n s) = Some hub'" and "same_layout hub hub'"
  using powered_port_facts(2) [OF assms] assms(2) by (rule layout_load_hub)

lemma power_code:
  assumes wf: "topo_wf s" and h: "load_hub h s = Some hub" and n: "valid_port hub n"
  shows "do {
      was_connected \<leftarrow> virtusb_hub_port_is_connected (Some h) n s;
      (ret, s) \<leftarrow> virtusb_port_set_powered (Some (Hub_port h (unat (n - 1)))) powered s;
      if ret < 0 then Some (ret, s)
      else do {
        is_connected \<leftarrow> virtusb_hub_port_is_connected (Some h) n s;
        s \<leftarrow> (if was_connected \<noteq> is_connected
              then virtusb_hub_mark_port_connection_change (Some h) n s else Some s);
        f s
      } } = f (powered_port powered h n s)"
proof -
  note shape = topo_wf_shape [OF wf h]
  from shape n obtain i where i: "unat n = Suc i" "i < unat (hub_port_count hub)" "unat (n - 1) = i"
    by (rule valid_portD)
  note p = hub_port_alloc [OF h shape i(2)]
  let ?p = "hub_ports hub ! i"
  let ?s' = "put_port (Hub_port h i) (?p\<lparr>p_state0 := powered\<rparr>) s"
  from p have facts: "ports_wf ?s'" "port_writes s ?s'" using put_state_facts [OF wf p(1)] by simp_all
  then obtain hub' where h': "load_hub h ?s' = Some hub'" "ports_written hub hub'"
    using h unfolding port_writes_def by (metis option.rel_cases option.inject option.distinct(1))
  then have "hub_shape hub'" "valid_port hub' n"
    using shape n by (auto simp: ports_written_shape valid_port_def ports_written_def dest: arg_cong [of _ _ hub_port_count])
  note settle = settle_code [OF facts(1) h'(1) this]
  show ?thesis
    using n i p
    by (simp add: virtusb_hub_port_is_connected_ok [OF topo_wf_ports [OF wf] h shape]
        virtusb_port_set_powered_ok [OF p(1)] powered_port_def settle)
qed

lemma hub_set_ports_power_ok:
  assumes "topo_wf s" and "load_hub h s = Some hub" and "\<forall>n \<in> set ns. valid_port hub n"
  shows "hub_set_ports_power h ns powered s = Some (0, fold (powered_port powered h) ns s)"
  using assms
proof (induction ns arbitrary: s hub)
  case (Cons n ns)
  then have n: "valid_port hub n" by simp
  from Cons.prems(1,2) n obtain hub' where
    hub': "load_hub h (powered_port powered h n s) = Some hub'" "same_layout hub hub'"
    by (rule powered_port_hub)
  with Cons.prems(3) have "\<forall>m \<in> set ns. valid_port hub' m" by (simp add: valid_port_def same_layout_def)
  with hub' powered_port_facts(1) [OF Cons.prems(1,2) n] show ?case
    by (simp only: hub_set_ports_power.simps power_code [OF Cons.prems(1,2) n] fold_simps o_apply)
       (rule Cons.IH)
qed simp

lemma fold_powered_port:
  assumes "topo_wf s" and "load_hub h s = Some hub" and "\<forall>n \<in> set ns. valid_port hub n"
  shows "topo_wf (fold (powered_port powered h) ns s)" and "layout s (fold (powered_port powered h) ns s)"
    and "load_port a (fold (powered_port powered h) ns s) =
           (if a \<in> (\<lambda>n. Hub_port h (unat (n - 1))) ` set ns
            then map_option (p_state0_update (\<lambda>_. powered)) (load_port a s) else load_port a s)"
  using assms
proof (induction ns arbitrary: s hub)
  case (Cons n ns)
  {
    case 1
    then have n: "valid_port hub n" by simp
    note facts = powered_port_facts [OF 1(1,2) n]
    from 1(1,2) n obtain hub' where
      "load_hub h (powered_port powered h n s) = Some hub'" "same_layout hub hub'"
      by (rule powered_port_hub)
    with Cons.IH(1) [OF facts(1)] 1(3) show ?case by (simp add: valid_port_def same_layout_def)
  next
    case 2
    then have n: "valid_port hub n" by simp
    note facts = powered_port_facts [OF 2(1,2) n]
    from 2(1,2) n obtain hub' where
      "load_hub h (powered_port powered h n s) = Some hub'" "same_layout hub hub'"
      by (rule powered_port_hub)
    with Cons.IH(2) [OF facts(1)] 2(3)
    have "layout (powered_port powered h n s) (fold (powered_port powered h) ns (powered_port powered h n s))"
      by (simp add: valid_port_def same_layout_def)
    with facts(2) show ?case by (auto intro: layout_trans)
  next
    case 3
    then have n: "valid_port hub n" by simp
    note facts = powered_port_facts [OF 3(1,2) n]
    from 3(1,2) n obtain hub' where
      "load_hub h (powered_port powered h n s) = Some hub'" "same_layout hub hub'"
      by (rule powered_port_hub)
    with Cons.IH(3) [OF facts(1)] 3(3) show ?case
      by (simp add: valid_port_def same_layout_def facts(3) option.map_comp o_def)
  }
qed simp_all

lemma valid_port_image:
  assumes "hub_shape hub"
  shows "set (hub_port_numbers hub) = {n. valid_port hub n}"
    and "Hub_port h i \<in> (\<lambda>n. Hub_port h (unat (n - 1))) ` {n. valid_port hub n} \<longleftrightarrow> i < unat (hub_port_count hub)"
proof -
  have c: "unat (hub_port_count hub) \<le> 31" using assms by (simp add: hub_shape_def)
  have of_nat: "unat (word_of_nat k :: u32) = k" if "k \<le> 31" for k
    using that by (simp add: unsigned_of_nat take_bit_nat_eq_self)
  have valid: "valid_port hub (word_of_nat k)" if "1 \<le> k" "k \<le> unat (hub_port_count hub)" for k
    using that c by (simp add: valid_port_def word_less_nat_alt word_le_nat_alt of_nat)
  show "set (hub_port_numbers hub) = {n. valid_port hub n}"
  proof (intro set_eqI iffI)
    fix n assume "n \<in> {n. valid_port hub n}"
    with assms have "1 \<le> unat n \<and> unat n < Suc (unat (hub_port_count hub))"
      by (auto elim: valid_portD)
    then have "unat n \<in> set [1..<Suc (unat (hub_port_count hub))]" by auto
    then have "word_of_nat (unat n) \<in> set (hub_port_numbers hub)"
      unfolding hub_port_numbers_def set_map by (rule imageI)
    then show "n \<in> set (hub_port_numbers hub)" by simp
  next
    fix n assume "n \<in> set (hub_port_numbers hub)"
    then obtain k where "1 \<le> k" "k \<le> unat (hub_port_count hub)" "n = word_of_nat k"
      by (auto simp: hub_port_numbers_def simp del: upt_Suc)
    with valid show "n \<in> {n. valid_port hub n}" by simp
  qed
  show "Hub_port h i \<in> (\<lambda>n. Hub_port h (unat (n - 1))) ` {n. valid_port hub n} \<longleftrightarrow> i < unat (hub_port_count hub)"
  proof
    assume i: "i < unat (hub_port_count hub)"
    then have v: "valid_port hub (word_of_nat (Suc i))" by (intro valid) simp_all
    then obtain j where "unat (word_of_nat (Suc i) :: u32) = Suc j" "unat ((word_of_nat (Suc i) :: u32) - 1) = j"
      by (rule valid_portD [OF assms])
    with i c of_nat [of "Suc i"] have "unat ((word_of_nat (Suc i) :: u32) - 1) = i" by simp
    with v show "Hub_port h i \<in> (\<lambda>n. Hub_port h (unat (n - 1))) ` {n. valid_port hub n}"
      by (intro image_eqI [of _ _ "word_of_nat (Suc i)"]) simp_all
  qed (auto elim: valid_portD [OF assms])
qed

text \<open>
  \<open>virtusb_hub_set_all_ports_power\<close> gives every downstream port the power requested, and
  nothing else changes but the protocol state the marking repairs.
\<close>

lemma virtusb_hub_set_all_ports_power_ok:
  assumes wf: "topo_wf s" and h: "load_hub h s = Some hub"
  shows "runs (virtusb_hub_set_all_ports_power (Some h) powered s) (\<lambda>(ret, s').
           ret = 0 \<and> topo_wf s' \<and> layout s s' \<and>
           (\<forall>a. load_port a s' =
              (if \<exists>i < unat (hub_port_count hub). a = Hub_port h i
               then map_option (p_state0_update (\<lambda>_. powered)) (load_port a s) else load_port a s)))"
proof -
  note shape = topo_wf_shape [OF wf h]
  let ?ns = "hub_port_numbers hub"
  have v: "\<forall>n \<in> set ?ns. valid_port hub n" by (simp add: valid_port_image [OF shape])
  have img: "a \<in> (\<lambda>n. Hub_port h (unat (n - 1))) ` set ?ns \<longleftrightarrow> (\<exists>i < unat (hub_port_count hub). a = Hub_port h i)" for a
    unfolding valid_port_image(1) [OF shape] using valid_port_image(2) [OF shape, of h]
    by (cases a) (auto simp: image_iff)
  show ?thesis
    using fold_powered_port [OF wf h v, where powered = powered] img
    by (simp add: virtusb_hub_set_all_ports_power_def h hub_set_ports_power_ok [OF wf h v])
qed

lemma virtusb_hub_set_port_power_ok:
  assumes wf: "topo_wf s" and h: "load_hub h s = Some hub"
  shows "virtusb_hub_set_port_power (Some h) n powered s =
           (if \<not> valid_port hub n then Some (- EINVAL, s)
            else if hub_power_switching_mode hub = VIRTUSB_HUB_POWER_SWITCHING_GANGED
            then virtusb_hub_set_all_ports_power (Some h) powered s
            else Some (0, powered_port powered h n s))"
  using power_code [OF wf h, of n powered "\<lambda>s. Some (0, s)"] h
  by (simp add: virtusb_hub_set_port_power_def virtusb_hub_get_port_ok)

end
