(* ===== verification/Virtusb_Hub_Spec.thy ===== *)
theory Virtusb_Hub_Spec
  imports Virtusb_Hub_Props
begin

text \<open>
  The properties of the hub model: negotiation and port reset, power, over-current,
  initialisation and reset. Speeds are ordered by their code, so the negotiated speed is a
  maximum.
\<close>

section \<open>Speeds in order\<close>

instantiation virtusb_port_speed :: linorder
begin

definition less_eq_virtusb_port_speed :: "virtusb_port_speed \<Rightarrow> virtusb_port_speed \<Rightarrow> bool" where
  "less_eq_virtusb_port_speed a b \<longleftrightarrow> speed_code a \<le> speed_code b"

definition less_virtusb_port_speed :: "virtusb_port_speed \<Rightarrow> virtusb_port_speed \<Rightarrow> bool" where
  "less_virtusb_port_speed a b \<longleftrightarrow> speed_code a < speed_code b"

instance
proof
  fix a b :: virtusb_port_speed
  show "a \<le> b \<Longrightarrow> b \<le> a \<Longrightarrow> a = b"
    unfolding less_eq_virtusb_port_speed_def by (metis order_antisym speed_of_speed_code)
qed (auto simp: less_eq_virtusb_port_speed_def less_virtusb_port_speed_def)

end

text \<open>The speeds a capability mask offers, and the best speed two ports share.\<close>

definition cap_speeds :: "u8 \<Rightarrow> virtusb_port_speed set" where
  "cap_speeds caps =
     {sp. sp \<noteq> VIRTUSB_PORT_SPEED_NONE \<and> bit caps (unat (speed_code sp) - 1)}"

definition best_speed :: "u8 \<Rightarrow> virtusb_port_speed" where
  "best_speed caps =
     (if bit caps 2 then VIRTUSB_PORT_SPEED_HIGH
      else if bit caps 1 then VIRTUSB_PORT_SPEED_FULL
      else if bit caps 0 then VIRTUSB_PORT_SPEED_LOW
      else VIRTUSB_PORT_SPEED_NONE)"

lemma best_speed_Max:
  "best_speed (a AND b) = Max (insert VIRTUSB_PORT_SPEED_NONE (cap_speeds a \<inter> cap_speeds b))"
proof (rule sym, rule Max_eqI)
  show "finite (insert VIRTUSB_PORT_SPEED_NONE (cap_speeds a \<inter> cap_speeds b))"
    by (rule finite_subset [of _ "{VIRTUSB_PORT_SPEED_NONE, VIRTUSB_PORT_SPEED_LOW,
          VIRTUSB_PORT_SPEED_FULL, VIRTUSB_PORT_SPEED_HIGH}"])
       (auto intro: virtusb_port_speed.exhaust)
  fix sp assume "sp \<in> insert VIRTUSB_PORT_SPEED_NONE (cap_speeds a \<inter> cap_speeds b)"
  then show "sp \<le> best_speed (a AND b)"
    by (cases sp) (auto simp: best_speed_def cap_speeds_def less_eq_virtusb_port_speed_def bit_simps)
next
  show "best_speed (a AND b) \<in> insert VIRTUSB_PORT_SPEED_NONE (cap_speeds a \<inter> cap_speeds b)"
    by (auto simp: best_speed_def cap_speeds_def bit_simps)
qed

lemma cap_bits:
  "(w AND VIRTUSB_PORT_SPEED_CAP_HIGH \<noteq> 0) = bit (w :: u8) 2"
  "(w AND VIRTUSB_PORT_SPEED_CAP_FULL \<noteq> 0) = bit w 1"
  "(w AND VIRTUSB_PORT_SPEED_CAP_LOW \<noteq> 0) = bit w 0"
proof -
  have "(w AND push_bit n 1 \<noteq> 0) = bit w n" if "n < 8" for n
    using that by (auto simp: bit_eq_iff [of "w AND _"] bit_simps)
  from this [of 2] this [of 1] this [of 0]
  show "(w AND VIRTUSB_PORT_SPEED_CAP_HIGH \<noteq> 0) = bit w 2"
    "(w AND VIRTUSB_PORT_SPEED_CAP_FULL \<noteq> 0) = bit w 1"
    "(w AND VIRTUSB_PORT_SPEED_CAP_LOW \<noteq> 0) = bit w 0"
    by simp_all
qed

section \<open>Port reset\<close>

text \<open>The ports at both ends of a connected port.\<close>

lemma port_connectedE:
  assumes wf: "ports_wf s" and c: "port_connected s h k"
  obtains i d pd pu where "k = Suc i" and "load_port (Hub_port h i) s = Some pd"
    and "p_peer pd = Some (Dev_port d)" and "load_port (Dev_port d) s = Some pu"
    and "p_peer pu = Some (Hub_port h i)" and "p_role pu = VIRTUSB_PORT_ROLE_UPSTREAM"
    and "downstream_powered pd" and "upstream_connection_signaling pu"
proof (cases k)
  case (Suc i)
  with c obtain pd b where pd: "load_port (Hub_port h i) s = Some pd" "p_peer pd = Some b"
    by (auto simp: port_connected.simps split: option.splits)
  with wf obtain d pu where "b = Dev_port d" "load_port (Dev_port d) s = Some pu"
    "p_peer pu = Some (Hub_port h i)" "p_role pu = VIRTUSB_PORT_ROLE_UPSTREAM"
    by (rule peer_of_hub_port)
  with Suc pd c show ?thesis by (intro that) (auto simp: port_connected.simps)
qed (use c in \<open>simp add: port_connected.simps\<close>)

lemma virtusb_hub_determine_port_speed_ok:
  assumes h: "load_hub h s = Some hub" and shape: "hub_shape hub" and n: "valid_port hub n"
    and pd: "load_port (Hub_port h (unat (n - 1))) s = Some pd" and peer: "p_peer pd = Some u"
    and pu: "load_port u s = Some pu" and role: "p_role pu = VIRTUSB_PORT_ROLE_UPSTREAM"
  shows "virtusb_hub_determine_port_speed (Some h) n s = Some (best_speed (p_speed pd AND p_speed pu))"
  using assms
  by (simp add: virtusb_hub_determine_port_speed_def virtusb_hub_get_port_ok cap_bits best_speed_def Let_def)

definition reset_state :: "virtusb_port_speed \<Rightarrow> nat \<Rightarrow> u32 \<Rightarrow> virtusb_hub \<Rightarrow> 'a topo_scheme \<Rightarrow> 'a topo_scheme" where
  "reset_state sp h n hub s =
     (if bit (chg_reset (hub_usb_change hub)) (unat n) then id else notified hub)
       (put_hub h (reset_hub sp n hub) s)"

lemma hub_usb_ok_reset:
  assumes ok: "hub_usb_ok C hub" and shape: "hub_shape hub" and n: "valid_port hub n" and C: "C (unat n)"
  shows "hub_usb_ok C (reset_hub sp n hub)"
proof -
  from shape n have n32: "unat n < 32" by (rule valid_portD)
  from shape n have range: "0 < unat n" "unat n \<le> unat (hub_port_count hub)"
    by (auto elim: valid_portD)
  have len: "length (usb_speed (hub_usb hub)) = 2" using shape by (simp add: hub_shape_def)
  show ?thesis
    using ok range n32 len C
    by (auto simp: hub_usb_ok_def reset_hub_def Let_def bit_BITs packed_speed_with_speed)
qed

text \<open>Writing the fields of a hub, its ports apart.\<close>

lemma topo_wf_put_hub:
  assumes wf: "topo_wf s" and h: "load_hub h s = Some hub" and ports: "hub_ports hub' = hub_ports hub"
    and shape: "hub_shape hub'" and usb: "hub_usb_ok (port_connected s h) hub'"
  shows "topo_wf (put_hub h hub' s)"
  unfolding topo_wf_upto_def
proof (intro conjI allI impI)
  have load: "load_port a (put_hub h hub' s) = load_port a s" for a
    using h ports by (rule load_port_put_hub)
  then show "ports_wf (put_hub h hub' s)"
    using topo_wf_ports [OF wf] by (simp add: ports_wf_cong [of "put_hub h hub' s" s])
  fix g hub'' assume g: "load_hub g (put_hub h hub' s) = Some hub''"
  then show "hub_shape hub''" using topo_wf_shape [OF wf] shape by (auto split: if_splits)
  show "hub_usb_ok (\<lambda>k. False \<or> port_connected (put_hub h hub' s) g k) hub''"
    using g topo_wf_usb [OF wf] usb by (auto simp: port_connected_cong [OF load] split: if_splits)
qed

lemma topo_wf_notified [simp]: "topo_wf (notified hub s) = topo_wf s"
  by (simp add: topo_wf_upto_def ports_wf_cong [of "notified hub s" s]
      port_connected_cong [of "notified hub s" s])

lemma topo_wf_reset:
  assumes wf: "topo_wf s" and h: "load_hub h s = Some hub" and n: "valid_port hub n"
    and C: "port_connected s h (unat n)"
  shows "topo_wf (reset_state sp h n hub s)"
proof -
  from topo_wf_usb [OF wf h] have "hub_usb_ok (port_connected s h) hub" by simp
  with topo_wf_shape [OF wf h] n C have "topo_wf (put_hub h (reset_hub sp n hub) s)"
    by (intro topo_wf_put_hub [OF wf h]) (simp_all add: hub_usb_ok_reset hub_shape_reset)
  then show ?thesis by (simp add: reset_state_def del: notified_put_hub)
qed

text \<open>Every branch of \<open>virtusb_hub_reset_port\<close>.\<close>

lemma with_speed_usb:
  fixes hub :: virtusb_hub and sp :: virtusb_port_speed and n :: u32
  defines "w \<equiv> \<lambda>e u r. with_speed n sp (hub\<lparr>hub_usb := (hub_usb hub)
             \<lparr>usb_enabled := e, usb_suspended := u, usb_reset := r\<rparr>\<rparr>)"
  shows "(w a u b)\<lparr>hub_usb := (hub_usb (w a u b))\<lparr>usb_reset := r, usb_enabled := e\<rparr>\<rparr> = w e u r"
  unfolding w_def by (cases hub; cases "hub_usb hub") (simp add: with_speed_def Let_def)

lemma virtusb_hub_reset_port_invalid:
  assumes "load_hub h s = Some hub" and "\<not> valid_port hub n"
  shows "virtusb_hub_reset_port (Some h) n s = Some (- EINVAL, s)"
  using assms by (simp add: virtusb_hub_reset_port_def virtusb_hub_port_is_valid_ok)

lemma virtusb_hub_reset_port_unconnected:
  assumes "topo_wf s" and "load_hub h s = Some hub" and "valid_port hub n"
    and "\<not> port_connected s h (unat n)"
  shows "virtusb_hub_reset_port (Some h) n s = Some (- ENODEV, s)"
  using assms
  by (simp add: virtusb_hub_reset_port_def virtusb_hub_port_is_valid_ok
      virtusb_hub_port_is_connected_ok topo_wf_ports topo_wf_shape)

lemma virtusb_hub_reset_port_connected:
  assumes wf: "topo_wf s" and h: "load_hub h s = Some hub" and n: "valid_port hub n"
    and c: "port_connected s h (unat n)"
    and pd: "load_port (Hub_port h (unat (n - 1))) s = Some pd" and peer: "p_peer pd = Some u"
    and pu: "load_port u s = Some pu"
  shows "virtusb_hub_reset_port (Some h) n s =
           (let sp = best_speed (p_speed pd AND p_speed pu) in
            if sp = VIRTUSB_PORT_SPEED_NONE then Some (- EOPNOTSUPP, s)
            else Some (0, reset_state sp h n hub s))"
proof -
  note shape = topo_wf_shape [OF wf h] and ports = topo_wf_ports [OF wf]
  from shape n have n32: "unat n < 32" by (rule valid_portD)
  have len: "length (usb_speed (hub_usb hub)) = 2" using shape by (simp add: hub_shape_def)
  from ports pd peer pu have role: "p_role pu = VIRTUSB_PORT_ROLE_UPSTREAM"
    by (metis option.inject peer_of_hub_port)
  note speed = virtusb_hub_determine_port_speed_ok [OF h shape n pd peer pu role]
  show ?thesis
    using h n c n32 len
    by (cases "bit (chg_reset (hub_usb_change hub)) (unat n)")
       (simp_all add: virtusb_hub_reset_port_def virtusb_hub_port_is_valid_ok speed
         virtusb_hub_port_is_connected_ok [OF ports h shape] virtusb_hub_set_port_speed_ok
         virtusb_hub_notify_status_changed_ok and_BIT_eq_0 [OF n32] reset_state_def reset_hub_def
         BIT_set_clear BIT_clear_set OR_BIT_same Let_def with_speed_usb)
qed

section \<open>Initialisation and protocol reset\<close>

definition fresh_port :: "nat \<Rightarrow> virtusb_port" where
  "fresh_port h = zero_port\<lparr>p_role := VIRTUSB_PORT_ROLE_DOWNSTREAM, p_owner := Some (Own_hub h),
     p_speed := VIRTUSB_PORT_SPEED_CAP_ALL\<rparr>"

definition fresh_hub :: "nat \<Rightarrow> u32 \<Rightarrow> virtusb_hub" where
  "fresh_hub h port_count = zero_hub\<lparr>
     hub_port_count := ucast port_count,
     hub_power_switching_mode := VIRTUSB_HUB_POWER_SWITCHING_INDIVIDUAL,
     hub_over_current_mode := VIRTUSB_HUB_OVER_CURRENT_PER_PORT,
     hub_ports := map (\<lambda>i. if i < unat port_count then fresh_port h else zero_port) [0..<31]\<rparr>"

lemma hub_init_ports_ok:
  assumes "load_hub h s = Some hub" and "\<forall>i \<in> set ports. i < length (hub_ports hub)"
  shows "hub_init_ports h ports s = Some (0, put_hub h
           (hub\<lparr>hub_ports := fold (\<lambda>i ps. ps[i := fresh_port h]) ports (hub_ports hub)\<rparr>) s)"
  using assms
proof (induction ports arbitrary: s hub)
  case Nil
  then show ?case by (simp add: put_hub_same)
next
  case (Cons i ports)
  have valid: "virtusb_port_speed_is_valid 7" by (simp add: virtusb_port_speed_is_valid_def)
  let ?hub' = "hub\<lparr>hub_ports := (hub_ports hub)[i := fresh_port h]\<rparr>"
  have "load_port (Hub_port h i) s = Some (hub_ports hub ! i)"
    using Cons.prems by (simp add: load_port.simps)
  from virtusb_port_init_ok [OF this _ valid]
  have "virtusb_port_init (Some (Hub_port h i)) VIRTUSB_PORT_ROLE_DOWNSTREAM 7 (Some (Own_hub h)) s =
      Some (0, put_hub h ?hub' s)"
    using Cons.prems by (simp add: put_port.simps fresh_port_def)
  moreover have "hub_init_ports h ports (put_hub h ?hub' s) = Some (0, put_hub h
      (?hub'\<lparr>hub_ports := fold (\<lambda>i ps. ps[i := fresh_port h]) ports (hub_ports ?hub')\<rparr>)
      (put_hub h ?hub' s))"
    using Cons.prems by (intro Cons.IH) simp_all
  ultimately show ?case by simp
qed

lemma fold_list_update:
  "k \<le> length xs \<Longrightarrow> fold (\<lambda>i xs. xs[i := x]) [0..<k] xs = replicate k x @ drop k xs"
proof (induction k)
  case (Suc k)
  then have "fold (\<lambda>i xs. xs[i := x]) [0..<k] xs = replicate k x @ drop k xs" by simp
  with Suc.prems show ?case
    by (simp add: list_update_append Cons_nth_drop_Suc [symmetric] replicate_app_Cons_same)
qed simp

lemma virtusb_hub_init_ok:
  assumes h: "load_hub h s = Some old" and c: "0 < port_count" "port_count \<le> 31"
  shows "virtusb_hub_init (Some h) port_count s = Some (0, put_hub h (fresh_hub h port_count) s)"
proof -
  from c have k: "unat port_count \<le> 31" by (simp add: word_le_nat_alt)
  have "fold (\<lambda>i ps. ps[i := fresh_port h]) [0..<unat port_count] (replicate 31 zero_port)
      = map (\<lambda>i. if i < unat port_count then fresh_port h else zero_port) [0..<31]"
    using k by (subst fold_list_update) (auto simp: nth_append intro!: nth_equalityI)
  with h c k show ?thesis
    by (simp add: virtusb_hub_init_def hub_init_ports_ok zero_hub_def fresh_hub_def not_less)
qed

lemma packed_speed_zero:
  assumes "usb_speed (hub_usb hub) = [0, 0]" and "unat n < 32"
  shows "packed_speed hub n = VIRTUSB_PORT_SPEED_NONE"
  using assms packed_index_bound [of n]
  by (cases "unat n div 16 = 0") (auto simp: packed_speed_def speed_of_code_def less_Suc_eq numeral_2_eq_2)

lemma usb_speed_zero: "usb_speed zero_usb = [0, 0]"
  by (simp add: zero_usb_def VIRTUSB_PACKED_speed) (simp add: numeral_2_eq_2)

lemma hub_usb_ok_zero:
  "hub_usb hub = zero_usb \<Longrightarrow> hub_usb_change hub = zero_usb_change \<Longrightarrow> hub_usb_ok C hub"
  by (auto simp: hub_usb_ok_def packed_speed_zero usb_speed_zero) (auto simp: zero_usb_def zero_usb_change_def)

definition hub_idle :: "virtusb_hub \<Rightarrow> bool" where
  "hub_idle hub \<longleftrightarrow> (\<forall>p \<in> set (hub_ports hub). p_peer p = None)"

lemma hub_idle_peer:
  assumes "load_hub h s = Some hub" and "hub_idle hub" and "load_port (Hub_port h i) s = Some p"
  shows "p_peer p = None"
  using assms by (auto simp: load_port.simps hub_idle_def nth_opt_Some)

text \<open>
  The state around a hub without attached devices does not refer to it, so the hub may be
  replaced, or freed.
\<close>

lemma ports_wf_no_peer:
  assumes wf: "ports_wf s" and h: "load_hub h s = Some hub" and idle: "hub_idle hub"
    and p: "load_port a s = Some p" "p_peer p = Some b"
  shows "b \<noteq> Hub_port h i" and "a \<noteq> Hub_port h i"
proof -
  from wf p obtain q where "load_port b s = Some q" "p_peer q = Some a" by (rule ports_wf_peer)
  with hub_idle_peer [OF h idle] show "b \<noteq> Hub_port h i" by auto
  from hub_idle_peer [OF h idle] p show "a \<noteq> Hub_port h i" by auto
qed

lemma topo_wf_replace_hub:
  assumes wf: "topo_wf s" and h: "load_hub h s = Some hub" and idle: "hub_idle hub"
    and idle': "hub_idle hub'" and ok: "\<forall>i < length (hub_ports hub'). port_ok (Hub_port h i) (hub_ports hub' ! i)"
    and shape: "hub_shape hub'" and usb: "hub_usb hub' = zero_usb" "hub_usb_change hub' = zero_usb_change"
  shows "topo_wf (put_hub h hub' s)"
proof -
  let ?s' = "put_hub h hub' s"
  have load: "load_port a ?s' = (case a of Hub_port g i \<Rightarrow> if g = h then nth_opt (hub_ports hub') i else load_port a s
                                         | Dev_port d \<Rightarrow> load_port a s)" for a
    by (cases a) (simp_all add: load_port.simps)
  have old: "load_port a s = Some p \<and> a \<notin> range (Hub_port h) \<and> b \<notin> range (Hub_port h)"
    if "load_port a ?s' = Some p" "p_peer p = Some b" for a p b
  proof -
    from that idle' have "load_port a s = Some p"
      by (auto simp: load nth_opt_Some hub_idle_def split: port_ptr.splits if_splits)
    with ports_wf_no_peer [OF topo_wf_ports [OF wf] h idle this that(2)] show ?thesis by blast
  qed
  have frame: "load_port a ?s' = load_port a s" if "a \<notin> range (Hub_port h)" for a
    using that by (auto simp: load split: port_ptr.splits)
  have "ports_wf ?s'"
  proof (rule ports_wfI)
    fix a p assume "load_port a ?s' = Some p"
    then show "port_ok a p"
      using ok topo_wf_ports [OF wf]
      by (auto simp: load nth_opt_Some intro: ports_wf_port split: port_ptr.splits if_splits)
  next
    fix a p b assume "load_port a ?s' = Some p" "p_peer p = Some b"
    with old frame topo_wf_ports [OF wf]
    show "\<exists>q. load_port b ?s' = Some q \<and> p_peer q = Some a \<and> p_role q \<noteq> p_role p"
      by (metis ports_wf_peer)
  qed
  moreover have "port_connected ?s' g = port_connected s g" if g: "g \<noteq> h" for g
  proof (rule ext, rule port_connected_frame [OF topo_wf_ports [OF wf], where X = "range (Hub_port h)"])
  qed (use frame g in auto)
  ultimately show ?thesis
    using wf shape usb hub_usb_ok_zero unfolding topo_wf_upto_def by (auto split: if_splits)
qed

lemma port_ok_fresh_port: "port_ok (Hub_port h i) (fresh_port h)"
  by (simp add: port_ok_def fresh_port_def virtusb_port_speed_is_valid_def)

lemma fresh_hub_facts:
  assumes "port_count \<le> 31"
  shows "hub_shape (fresh_hub h port_count)" and "hub_idle (fresh_hub h port_count)"
    and "hub_usb (fresh_hub h port_count) = zero_usb"
    and "hub_usb_change (fresh_hub h port_count) = zero_usb_change"
    and "i < 31 \<Longrightarrow> port_ok (Hub_port h i) (hub_ports (fresh_hub h port_count) ! i)"
proof -
  have "unat (ucast port_count :: u8) = unat port_count"
  proof -
    from assms have "unat port_count < 2 ^ 8" by (simp add: word_le_nat_alt)
    then show ?thesis by (simp add: unsigned_ucast_eq unsigned_take_bit_eq take_bit_nat_eq_self)
  qed
  then show "hub_shape (fresh_hub h port_count)"
    using assms by (auto simp: hub_shape_def fresh_hub_def usb_speed_zero zero_hub_def fresh_port_def
        word_le_nat_alt)
  show "i < 31 \<Longrightarrow> port_ok (Hub_port h i) (hub_ports (fresh_hub h port_count) ! i)"
    using port_ok_fresh_port by (simp add: fresh_hub_def port_ok_def [of _ zero_port])
qed (auto simp: hub_idle_def fresh_hub_def fresh_port_def zero_hub_def)

lemma topo_wf_fresh_hub:
  assumes "topo_wf s" and "load_hub h s = Some hub" and "hub_idle hub" and "port_count \<le> 31"
  shows "topo_wf (put_hub h (fresh_hub h port_count) s)"
  using assms(4)
  by (intro topo_wf_replace_hub [OF assms(1-3)])
     (simp_all add: fresh_hub_facts, simp add: fresh_hub_def port_ok_fresh_port port_ok_def [of _ zero_port])

lemma zero_hub_wf: "hub_shape zero_hub" "hub_idle zero_hub" "hub_usb_ok C zero_hub"
  by (simp_all add: hub_shape_def hub_idle_def zero_hub_def usb_speed_zero hub_usb_ok_zero)

section \<open>A concrete topology\<close>

text \<open>
  A root hub with two ports at address 0; a device at address 1 that supports full and high
  speed is plugged into port 1, which has power, and signals its presence. Port 2 is free, and
  so is the device at address 2, which signals already.
\<close>

definition example_hub :: virtusb_hub where
  "example_hub = (fresh_hub 0 2)\<lparr>
     hub_ports := (hub_ports (fresh_hub 0 2))
       [0 := (fresh_port 0)\<lparr>p_peer := Some (Dev_port 1), p_state0 := True\<rparr>],
     hub_status_changed := Some Virtusb_hcd_root_hub_status_changed,
     hub_status_changed_context := Some 5\<rparr>"

definition example_upstream :: virtusb_port where
  "example_upstream =
     \<lparr>p_role = VIRTUSB_PORT_ROLE_UPSTREAM, p_owner = Some (Own_dev 1), p_speed = 6,
      p_peer = Some (Hub_port 0 0), p_state0 = True, p_state1 = False\<rparr>"

definition example_unplugged :: virtusb_port where
  "example_unplugged = example_upstream\<lparr>p_owner := Some (Own_dev 2), p_peer := None\<rparr>"

definition example_topo :: topo where
  "example_topo = \<lparr>dev_ports = [1 \<mapsto> example_upstream, 2 \<mapsto> example_unplugged], hubs = [0 \<mapsto> example_hub], events = []\<rparr>"

lemma example_ports:
  "hub_ports example_hub ! 0 = (fresh_port 0)\<lparr>p_peer := Some (Dev_port 1), p_state0 := True\<rparr>"
  "i \<noteq> 0 \<Longrightarrow> hub_ports example_hub ! i = hub_ports (fresh_hub 0 2) ! i"
  "length (hub_ports example_hub) = 31"
  by (simp_all add: example_hub_def fresh_hub_def zero_hub_def)

lemma port_ok_example_upstream:
  "port_ok (Dev_port 1) example_upstream" "port_ok (Dev_port 2) example_unplugged"
  by (simp_all add: port_ok_def example_upstream_def example_unplugged_def virtusb_port_speed_is_valid_def)

lemma topo_wf_example_gen:
  assumes dev: "dev_ports s = [1 \<mapsto> example_upstream, 2 \<mapsto> example_unplugged]" and hub: "hubs s = [0 \<mapsto> example_hub]"
  shows "topo_wf s"
proof -
  have load: "load_hub g s = (if g = 0 then Some example_hub else None)" for g
    by (simp add: load_hub_def hub)
  have shape: "hub_shape example_hub"
    by (auto simp: hub_shape_def example_hub_def fresh_hub_def nth_list_update fresh_port_def usb_speed_zero
        zero_hub_def)
  have ok: "port_ok (Hub_port 0 i) (hub_ports example_hub ! i)" if "i < 31" for i
    using that fresh_hub_facts(5) [where port_count = 2 and h = 0 and i = i]
    by (cases "i = 0") (auto simp: example_ports port_ok_def fresh_port_def virtusb_port_speed_is_valid_def)
  have idle: "p_peer (hub_ports example_hub ! i) = None" if "i < 31" "i \<noteq> 0" for i
    using that by (simp add: example_ports fresh_hub_def fresh_port_def)
  have peers: "(a = Hub_port 0 0 \<and> b = Dev_port 1) \<or> (a = Dev_port 1 \<and> b = Hub_port 0 0)"
    if "load_port a s = Some p" "p_peer p = Some b" for a p b
  proof (cases a)
    case (Hub_port g i)
    with that have i: "g = 0" "i < 31" "p = hub_ports example_hub ! i"
      by (auto simp: load_port.simps load nth_opt_Some example_ports(3) split: if_splits)
    with idle [of i] that Hub_port show ?thesis
      by (cases "i = 0") (auto simp: example_ports(1))
  next
    case (Dev_port d)
    with that show ?thesis
      by (auto simp: load_port.simps dev example_upstream_def example_unplugged_def split: if_splits)
  qed
  have "ports_wf s"
  proof (rule ports_wfI)
    fix a p assume "load_port a s = Some p"
    then show "port_ok a p"
      using ok port_ok_example_upstream
      by (cases a) (auto simp: load_port.simps load dev nth_opt_Some example_ports(3) split: if_splits)
  next
    fix a p b assume *: "load_port a s = Some p" "p_peer p = Some b"
    with peers [OF *] show "\<exists>q. load_port b s = Some q \<and> p_peer q = Some a \<and> p_role q \<noteq> p_role p"
      by (auto simp: load_port.simps load dev example_ports fresh_port_def example_upstream_def)
  qed
  with shape show ?thesis
    unfolding topo_wf_upto_def
    by (auto simp: load example_hub_def fresh_hub_def zero_hub_def intro!: hub_usb_ok_zero split: if_splits)
qed

lemma topo_wf_example: "topo_wf example_topo"
  by (rule topo_wf_example_gen) (simp_all add: example_topo_def)

lemma example_connected: "port_connected example_topo 0 1"
  by (simp add: port_connected.simps example_topo_def load_port.simps load_hub_def example_ports
      example_upstream_def)

definition notification :: "virtusb_hub \<Rightarrow> kevent list" where
  "notification hub =
     (case (hub_status_changed hub, hub_status_changed_context hub) of
        (Some Virtusb_hcd_root_hub_status_changed, Some hcd) \<Rightarrow> [Poll_rh_status hcd]
      | _ \<Rightarrow> [])"

lemma events_notified [simp]: "events (notified hub s) = notification hub @ events s"
  by (simp add: notified_def notification_def split: option.split virtusb_hub_status_changed_t.split)

lemma load_hub_example: "load_hub 0 example_topo = Some example_hub"
  by (simp add: load_hub_def example_topo_def)

lemma example_hub_sel:
  "hub_port_count example_hub = 2"
  "hub_power_switching_mode example_hub = VIRTUSB_HUB_POWER_SWITCHING_INDIVIDUAL"
  "hub_over_current_mode example_hub = VIRTUSB_HUB_OVER_CURRENT_PER_PORT"
  "hub_usb example_hub = zero_usb"
  "chg_connected (hub_usb_change example_hub) = 0"
  "hub_status_changed example_hub = Some Virtusb_hcd_root_hub_status_changed"
  "hub_status_changed_context example_hub = Some 5"
  by (simp_all add: example_hub_def fresh_hub_def zero_hub_def zero_usb_change_def)

lemma valid_port_example: "valid_port example_hub n \<longleftrightarrow> n = 1 \<or> n = 2"
proof -
  have "n = 1 \<or> n = 2 \<longleftrightarrow> 0 < unat n \<and> unat n \<le> 2"
    by (auto simp: word_unat_eq_iff)
  then show ?thesis
    by (auto simp: valid_port_def example_hub_def fresh_hub_def word_less_nat_alt word_le_nat_alt)
qed

section \<open>Properties of the hub model\<close>

text \<open>\<open>virtusb_hub_port_is_connected\<close> derives the connection of a port from the canonical
  state: it is true of exactly the existing ports with a device plugged in, VBUS on, and the
  device's connection signaling on.\<close>

lemma hub_connection_derived:
  assumes "topo_wf s" and "load_hub h s = Some hub"
  shows "virtusb_hub_port_is_connected (Some h) n s = Some
           (valid_port hub n \<and>
            (\<exists>pd d pu. load_port (Hub_port h (unat n - 1)) s = Some pd \<and> p_peer pd = Some (Dev_port d) \<and>
               load_port (Dev_port d) s = Some pu \<and>
               downstream_powered pd \<and> upstream_connection_signaling pu))"
proof (cases "valid_port hub n")
  case True
  with topo_wf_shape [OF assms] obtain i where i: "unat n = Suc i" by (rule valid_portD)
  have "port_connected s h (unat n) \<longleftrightarrow>
      (\<exists>pd d pu. load_port (Hub_port h (unat n - 1)) s = Some pd \<and> p_peer pd = Some (Dev_port d) \<and>
         load_port (Dev_port d) s = Some pu \<and> downstream_powered pd \<and> upstream_connection_signaling pu)"
    (is "_ \<longleftrightarrow> ?R")
  proof
    assume "port_connected s h (unat n)"
    with topo_wf_ports [OF assms(1)] show ?R by (rule port_connectedE) (simp add: i)
  qed (auto simp: i port_connected.simps)
  with True assms show ?thesis
    by (simp add: virtusb_hub_port_is_connected_ok topo_wf_ports topo_wf_shape)
qed (use assms in \<open>simp add: virtusb_hub_port_is_connected_ok topo_wf_ports topo_wf_shape\<close>)

lemma hub_connection_derived_example:
  "virtusb_hub_port_is_connected (Some 0) 1 example_topo = Some True"
  by (subst hub_connection_derived [OF topo_wf_example load_hub_example])
     (simp add: valid_port_example load_port.simps load_hub_example example_ports,
      simp add: example_topo_def example_upstream_def)

text \<open>When the connection of a port changes, \<open>virtusb_hub_mark_port_connection_change\<close>
  restores the agreement of protocol state and connection: it clears the enable, suspend and
  speed state of a port that is gone, sets C_PORT_CONNECTION, touches no port, and notifies the
  host once, only if the change was not pending yet.\<close>

lemma hub_mark_restores:
  assumes "topo_wf_upto (\<lambda>g k. g = h \<and> k = unat n) s" and "load_hub h s = Some hub" and "valid_port hub n"
  shows "runs (virtusb_hub_mark_port_connection_change (Some h) n s) (\<lambda>s'.
           topo_wf s' \<and> layout s s' \<and> (\<forall>a. load_port a s' = load_port a s) \<and>
           events s' = (if bit (chg_connected (hub_usb_change hub)) (unat n) then [] else notification hub) @ events s \<and>
           (\<exists>hub'. load_hub h s' = Some hub' \<and> bit (chg_connected (hub_usb_change hub')) (unat n) \<and>
              (if port_connected s h (unat n) then hub_usb hub' = hub_usb hub
               else \<not> bit (usb_enabled (hub_usb hub')) (unat n) \<and> \<not> bit (usb_suspended (hub_usb hub')) (unat n) \<and>
                    packed_speed hub' n = VIRTUSB_PORT_SPEED_NONE)))"
proof -
  note shape = topo_wf_shape [OF assms(1,2)]
  then have "length (usb_speed (hub_usb hub)) = 2" by (simp add: hub_shape_def)
  moreover from shape assms(3) have "unat n < 32" by (rule valid_portD)
  moreover have "events (marked h n s) =
      (if bit (chg_connected (hub_usb_change hub)) (unat n) then [] else notification hub) @ events s"
    using assms(2) by (simp add: marked_def)
  ultimately show ?thesis
    using assms topo_wf_marked [OF assms] shape
    by (simp add: virtusb_hub_mark_port_connection_change_ok [OF topo_wf_ports [OF assms(1)]] load_hub_marked)
       (simp add: mark_hub_def Let_def bit_BITs packed_speed_with_speed)
qed

lemma hub_mark_restores_example:
  "runs (virtusb_hub_mark_port_connection_change (Some 0) 1 example_topo) (\<lambda>s'.
     topo_wf s' \<and> events s' = [Poll_rh_status 5])"
proof -
  have "topo_wf_upto (\<lambda>g k. g = 0 \<and> k = unat (1::u32)) example_topo"
    by (rule topo_wf_upto_mono [OF topo_wf_example]) simp
  from hub_mark_restores [OF this load_hub_example] show ?thesis
    by (rule runs_mono)
       (simp_all add: valid_port_example notification_def example_hub_sel example_topo_def)
qed

text \<open>\<open>virtusb_hub_reset_port\<close> on every branch: -EINVAL for a port that does not exist,
  -ENODEV for an unconnected one and -EOPNOTSUPP when the two ports share no speed, all without
  effect; otherwise the port is enabled, not suspended, out of reset, runs at the best speed
  both ends support, and C_PORT_RESET is pending.\<close>

theorem hub_reset_port_outcome:
  assumes "topo_wf s" and "load_hub h s = Some hub"
  shows "runs (virtusb_hub_reset_port (Some h) n s) (\<lambda>(ret, s').
           topo_wf s' \<and> layout s s' \<and> (\<forall>a. load_port a s' = load_port a s) \<and>
           (if \<not> valid_port hub n then ret = - EINVAL \<and> s' = s
            else if \<not> port_connected s h (unat n) then ret = - ENODEV \<and> s' = s
            else \<exists>pd u pu sp. load_port (Hub_port h (unat n - 1)) s = Some pd \<and> p_peer pd = Some u \<and>
                   load_port u s = Some pu \<and>
                   sp = Max (insert VIRTUSB_PORT_SPEED_NONE (cap_speeds (p_speed pd) \<inter> cap_speeds (p_speed pu))) \<and>
                   (if sp = VIRTUSB_PORT_SPEED_NONE then ret = - EOPNOTSUPP \<and> s' = s
                    else ret = 0 \<and> (\<exists>hub'. load_hub h s' = Some hub' \<and>
                      bit (usb_enabled (hub_usb hub')) (unat n) \<and> \<not> bit (usb_suspended (hub_usb hub')) (unat n) \<and>
                      usb_reset (hub_usb hub') = 0 \<and> bit (chg_reset (hub_usb_change hub')) (unat n) \<and>
                      (\<forall>m. unat m < 32 \<longrightarrow> packed_speed hub' m = (if m = n then sp else packed_speed hub m))))))"
proof -
  note shape = topo_wf_shape [OF assms] and ports = topo_wf_ports [OF assms(1)]
  consider (invalid) "\<not> valid_port hub n" | (unconnected) "valid_port hub n" "\<not> port_connected s h (unat n)"
    | (connected) "valid_port hub n" "port_connected s h (unat n)" by blast
  then show ?thesis
  proof cases
    case invalid
    with assms show ?thesis by (simp add: virtusb_hub_reset_port_invalid)
  next
    case unconnected
    with assms show ?thesis by (simp add: virtusb_hub_reset_port_unconnected)
  next
    case connected
    with ports obtain i d pd pu where i: "unat n = Suc i" and pd: "load_port (Hub_port h i) s = Some pd"
      "p_peer pd = Some (Dev_port d)" "load_port (Dev_port d) s = Some pu"
      by (metis port_connectedE)
    from shape connected(1) i have i': "unat (n - 1) = i" and n32: "unat n < 32"
      by (auto elim!: valid_portD)
    let ?sp = "best_speed (p_speed pd AND p_speed pu)"
    have ok: "virtusb_hub_reset_port (Some h) n s =
        (let sp = ?sp in if sp = VIRTUSB_PORT_SPEED_NONE then Some (- EOPNOTSUPP, s)
         else Some (0, reset_state sp h n hub s))"
      using assms connected pd i' by (intro virtusb_hub_reset_port_connected) simp_all
    have effect: "load_hub h (reset_state ?sp h n hub s) = Some (reset_hub ?sp n hub)"
      "\<forall>a. load_port a (reset_state ?sp h n hub s) = load_port a s" "layout s (reset_state ?sp h n hub s)"
      using assms(2)
      by (auto simp: reset_state_def load_port_put_hub intro: layout_put_hub layout_trans [OF layout_notified layout_put_hub])
    have usb: "usb_reset (hub_usb hub) = 0" "length (usb_speed (hub_usb hub)) = 2"
      using topo_wf_usb [OF assms] shape by (auto simp: hub_usb_ok_def hub_shape_def)
    show ?thesis
      using topo_wf_reset [OF assms connected] effect usb pd i n32 connected
      by (simp add: ok best_speed_Max [symmetric] Let_def)
         (simp add: reset_hub_def Let_def bit_BITs packed_speed_with_speed assms(1))
  qed
qed

theorem hub_reset_port_outcome_witness:
  "runs (virtusb_hub_reset_port (Some 0) 1 example_topo) (\<lambda>(ret, s'). ret = 0 \<and>
     (\<exists>hub'. load_hub 0 s' = Some hub' \<and> packed_speed hub' 1 = VIRTUSB_PORT_SPEED_HIGH))"
proof -
  have sp: "Max (insert VIRTUSB_PORT_SPEED_NONE (cap_speeds (7 :: u8) \<inter> cap_speeds 6)) = VIRTUSB_PORT_SPEED_HIGH"
    by (simp add: best_speed_Max [symmetric] best_speed_def)
  have ports: "load_port (Hub_port 0 0) example_topo = Some (hub_ports example_hub ! 0)"
    "load_port (Dev_port 1) example_topo = Some example_upstream"
    by (simp_all add: load_port.simps load_hub_example example_ports(3)) (simp add: example_topo_def)
  from hub_reset_port_outcome [OF topo_wf_example load_hub_example] show ?thesis
    by (rule runs_mono)
       (auto simp: valid_port_example example_connected [simplified] ports [simplified] example_ports(1) sp
         fresh_port_def example_upstream_def)
qed

text \<open>\<open>virtusb_hub_set_port_power\<close> switches VBUS: in ganged mode of every downstream port, in
  individual mode of the addressed one. No other port is written, the agreement of protocol
  state and connections holds again afterwards, and an invalid port is refused without
  effect.\<close>

theorem hub_set_port_power_outcome:
  assumes "topo_wf s" and "load_hub h s = Some hub"
  shows "runs (virtusb_hub_set_port_power (Some h) n powered s) (\<lambda>(ret, s').
           topo_wf s' \<and> layout s s' \<and>
           (if valid_port hub n
            then ret = 0 \<and> (\<forall>a. load_port a s' =
                   (if (if hub_power_switching_mode hub = VIRTUSB_HUB_POWER_SWITCHING_GANGED
                        then \<exists>i < unat (hub_port_count hub). a = Hub_port h i
                        else a = Hub_port h (unat (n - 1)))
                    then map_option (p_state0_update (\<lambda>_. powered)) (load_port a s) else load_port a s))
            else ret = - EINVAL \<and> s' = s))"
  using assms virtusb_hub_set_all_ports_power_ok [OF assms, of powered]
  by (auto simp: virtusb_hub_set_port_power_ok [OF assms] powered_port_facts [OF assms] elim!: runs_mono)

theorem hub_set_port_power_outcome_witness:
  "runs (virtusb_hub_set_port_power (Some 0) 1 False example_topo) (\<lambda>(ret, s').
     ret = 0 \<and> topo_wf s' \<and> \<not> port_connected s' 0 1)"
proof -
  have ports: "load_port (Hub_port 0 0) example_topo = Some (hub_ports example_hub ! 0)"
    by (simp add: load_port.simps load_hub_example example_ports(3))
  from hub_set_port_power_outcome [OF topo_wf_example load_hub_example] show ?thesis
    by (rule runs_mono)
       (auto simp: valid_port_example example_hub_sel ports port_connected.simps split: option.split)
qed

text \<open>The packed speed words: reading a port after its speed was written gives that speed, and
  every other port reads as before.\<close>

lemma hub_port_speed_set_get:
  assumes "load_hub h s = Some hub" and "hub_shape hub" and "valid_port hub n"
  shows "do { s' \<leftarrow> virtusb_hub_set_port_speed h n sp s; virtusb_hub_get_port_speed (Some h) m s' } =
           (if m = n then Some sp else virtusb_hub_get_port_speed (Some h) m s)"
proof -
  from assms(2,3) have n: "unat n < 32" by (rule valid_portD)
  have len: "length (usb_speed (hub_usb hub)) = 2" using assms(2) by (simp add: hub_shape_def)
  have shape: "hub_shape (with_speed n sp hub)" "\<And>k. valid_port (with_speed n sp hub) k = valid_port hub k"
    using assms(2) by (simp_all add: hub_shape_def valid_port_def)
  have get: "virtusb_hub_get_port_speed (Some h) m (put_hub h (with_speed n sp hub) s) =
      Some (if valid_port hub m then packed_speed (with_speed n sp hub) m else VIRTUSB_PORT_SPEED_NONE)"
    using virtusb_hub_get_port_speed_ok [OF _ shape(1), of h "put_hub h (with_speed n sp hub) s" m]
    unfolding shape(2) by simp
  show ?thesis
  proof (cases "valid_port hub m")
    case True
    with assms(2) have "unat m < 32" by (rule valid_portD)
    with True show ?thesis
      by (simp add: virtusb_hub_set_port_speed_ok [OF assms(1) len n] get packed_speed_with_speed [OF len _ n]
          virtusb_hub_get_port_speed_ok [OF assms(1,2)])
  next
    case False
    with assms show ?thesis
      by (auto simp: virtusb_hub_set_port_speed_ok [OF assms(1) len n] get
          virtusb_hub_get_port_speed_ok [OF assms(1,2)])
  qed
qed

lemma hub_port_speed_set_get_example:
  "do { s' \<leftarrow> virtusb_hub_set_port_speed 0 2 VIRTUSB_PORT_SPEED_FULL example_topo;
        virtusb_hub_get_port_speed (Some 0) 2 s' } = Some VIRTUSB_PORT_SPEED_FULL"
  using hub_port_speed_set_get [OF load_hub_example topo_wf_shape [OF topo_wf_example load_hub_example],
      of 2 VIRTUSB_PORT_SPEED_FULL 2]
  by (simp add: valid_port_example)

text \<open>Initialising a hub nobody is attached to gives a hub with the ports asked for, each a free
  downstream port that offers all speeds, with individual power switching and no protocol state;
  a port count of zero or above 31 is refused without effect.\<close>

lemma hub_init_outcome:
  assumes "topo_wf s" and "load_hub h s = Some old" and "hub_idle old"
  shows "runs (virtusb_root_hub_init (Some h) port_count s) (\<lambda>(ret, s').
           topo_wf s' \<and>
           (if port_count = 0 \<or> port_count > VIRTUSB_MAX_HUB_PORTS then ret = - EINVAL \<and> s' = s
            else ret = 0 \<and> (\<exists>hub. load_hub h s' = Some hub \<and> hub_idle hub \<and>
              unat (hub_port_count hub) = unat port_count \<and>
              hub_power_switching_mode hub = VIRTUSB_HUB_POWER_SWITCHING_INDIVIDUAL \<and>
              hub_over_current_mode hub = VIRTUSB_HUB_OVER_CURRENT_PER_PORT \<and>
              hub_usb hub = zero_usb \<and> hub_usb_change hub = zero_usb_change \<and>
              (\<forall>i < unat port_count. load_port (Hub_port h i) s' = Some (fresh_port h)))))"
proof (cases "port_count = 0 \<or> port_count > VIRTUSB_MAX_HUB_PORTS")
  case False
  then have c: "0 < port_count" "port_count \<le> 31" by (auto simp: word_neq_0_conv not_less)
  then have "unat port_count \<le> 31" by (simp add: word_le_nat_alt)
  then have "unat (ucast port_count :: u8) = unat port_count"
    by (simp add: unsigned_ucast_eq unsigned_take_bit_eq take_bit_nat_eq_self)
  with \<open>unat port_count \<le> 31\<close>
  have "hub_port_count (fresh_hub h port_count) = ucast port_count"
    "\<forall>i < unat port_count. load_port (Hub_port h i) (put_hub h (fresh_hub h port_count) s) = Some (fresh_port h)"
    by (simp_all add: fresh_hub_def load_port.simps)
  with False c assms \<open>unat (ucast port_count :: u8) = unat port_count\<close> show ?thesis
    by (simp add: virtusb_root_hub_init_def virtusb_hub_init_ok topo_wf_fresh_hub fresh_hub_facts)
       (simp add: fresh_hub_def)
qed (use assms in \<open>auto simp: virtusb_root_hub_init_def virtusb_hub_init_def\<close>)

lemma hub_init_outcome_example:
  "runs (virtusb_root_hub_init (Some 3) 4 \<lparr>dev_ports = Map.empty, hubs = [3 \<mapsto> zero_hub], events = []\<rparr>)
     (\<lambda>(ret, s'). ret = 0 \<and> topo_wf (s' :: topo))"
proof -
  let ?s = "\<lparr>dev_ports = Map.empty, hubs = [3 \<mapsto> zero_hub], events = []\<rparr> :: topo"
  have load: "load_hub g ?s = (if g = 3 then Some zero_hub else None)" for g by (simp add: load_hub_def)
  have ports: "hub_ports zero_hub = replicate 31 zero_port" by (simp add: zero_hub_def)
  have zero: "load_port a ?s = Some p \<Longrightarrow> p = zero_port" for a p
    by (cases a) (auto simp: load_port.simps load nth_opt_Some ports split: if_splits)
  have "ports_wf ?s" by (rule ports_wfI) (auto dest!: zero simp: port_ok_def)
  then have wf: "topo_wf ?s"
    using zero_hub_wf by (auto simp: topo_wf_upto_def load split: if_splits)
  from hub_init_outcome [OF wf _ zero_hub_wf(2), of 3 4] show ?thesis
    by (rule runs_mono) (auto simp: load_hub_def)
qed

text \<open>A protocol reset of the root hub clears the USB state and the changes and leaves the
  topology alone: no port is written, so every attachment, VBUS and signaling state survives.\<close>

lemma hub_reset_keeps_topology:
  assumes "topo_wf s" and "load_hub h s = Some hub"
  shows "runs (virtusb_root_hub_reset (Some h) s) (\<lambda>s'.
           topo_wf s' \<and> layout s s' \<and> (\<forall>a. load_port a s' = load_port a s) \<and>
           (\<forall>g k. port_connected s' g k = port_connected s g k) \<and>
           (\<exists>hub'. load_hub h s' = Some hub' \<and> hub_usb hub' = zero_usb \<and> hub_usb_change hub' = zero_usb_change))"
proof -
  let ?hub' = "hub\<lparr>hub_usb := zero_usb, hub_usb_change := zero_usb_change\<rparr>"
  let ?s' = "put_hub h ?hub' s"
  have load: "load_port a ?s' = load_port a s" for a using assms(2) by (rule load_port_put_hub) simp
  have "topo_wf ?s'"
    using topo_wf_shape [OF assms]
    by (intro topo_wf_put_hub [OF assms]) (auto simp: hub_shape_def usb_speed_zero intro: hub_usb_ok_zero)
  moreover have "layout s ?s'" using assms(2) by (rule layout_put_hub) (simp add: same_layout_def)
  ultimately show ?thesis
    using assms(2) by (simp add: virtusb_root_hub_reset_def virtusb_hub_reset_def load port_connected_cong [OF load])
qed

lemma hub_reset_keeps_topology_example:
  "runs (virtusb_root_hub_reset (Some 0) example_topo) (\<lambda>s'. topo_wf s' \<and> port_connected s' 0 1)"
  using hub_reset_keeps_topology [OF topo_wf_example load_hub_example]
  by (rule runs_mono) (simp add: example_connected [simplified])

text \<open>The over-current setter of one port writes that port only, in per-port mode only, and the
  query then reads the value; connections and VBUS are not affected.\<close>

lemma hub_over_current_set_get:
  assumes "topo_wf s" and "load_hub h s = Some hub"
  shows "runs (virtusb_hub_set_port_over_current (Some h) n oc s) (\<lambda>(ret, s').
           topo_wf s' \<and> (\<forall>g k. port_connected s' g k = port_connected s g k) \<and>
           (if hub_over_current_mode hub = VIRTUSB_HUB_OVER_CURRENT_PER_PORT \<and> valid_port hub n
            then ret = 0 \<and> virtusb_hub_port_is_over_current (Some h) n s' = Some oc \<and>
                 (\<forall>m. m \<noteq> n \<longrightarrow> virtusb_hub_port_is_over_current (Some h) m s' =
                              virtusb_hub_port_is_over_current (Some h) m s)
            else ret = - EINVAL \<and> s' = s))"
proof (cases "hub_over_current_mode hub = VIRTUSB_HUB_OVER_CURRENT_PER_PORT \<and> valid_port hub n")
  case True
  note shape = topo_wf_shape [OF assms]
  from shape True obtain i where i: "unat n = Suc i" "i < unat (hub_port_count hub)" "unat (n - 1) = i"
    by (blast elim: valid_portD)
  note p = hub_port_alloc [OF assms(2) shape i(2)]
  let ?p = "hub_ports hub ! i"
  let ?s' = "put_port (Hub_port h i) (?p\<lparr>p_state1 := oc\<rparr>) s"
  have facts: "ports_wf ?s'" "port_writes s ?s'" using put_state_facts(3,4) [OF assms(1) p(1)] p(2) by simp_all
  have conn: "port_connected ?s' g k = port_connected s g k" for g k
    using p by (cases k) (auto simp: port_connected.simps split: option.split)
  then have "topo_wf ?s'" by (intro topo_wf_port_writes [OF assms(1) facts(2,1)]) simp
  moreover have "m \<noteq> n \<Longrightarrow> valid_port hub m \<Longrightarrow> unat (m - 1) \<noteq> i" for m
    using valid_portD [OF shape, of m] i(1) by (metis word_unat_eq_iff)
  ultimately show ?thesis
    using True assms(2) p i(3) conn
    by (auto simp: virtusb_hub_set_port_over_current_def virtusb_hub_get_port_ok
        virtusb_port_set_over_current_ok [OF p(1)] virtusb_hub_port_is_over_current_def valid_port_def)
qed (use assms in \<open>auto simp: virtusb_hub_set_port_over_current_def virtusb_hub_get_port_ok\<close>)

lemma hub_over_current_set_get_example:
  "runs (virtusb_hub_set_port_over_current (Some 0) 2 True example_topo) (\<lambda>(ret, s').
     ret = 0 \<and> virtusb_hub_port_is_over_current (Some 0) 2 s' = Some True)"
  using hub_over_current_set_get [OF topo_wf_example load_hub_example, of 2 True]
  by (rule runs_mono) (auto simp: valid_port_example example_hub_sel)

end
