(* ===== verification/Virtusb_Device.thy ===== *)
theory Virtusb_Device
  imports Virtusb_Object Virtusb_Hub_Spec
begin

text \<open>
  The virtual USB device of \<open>kernel/src/virtusb_device.c\<close>: creation and destruction, and the
  topology operations that connect its upstream port with a port of a hub. A
  \<open>struct virtusb_device *\<close> is \<^typ>\<open>nat option\<close>; an \<open>ERR_PTR\<close> result is the left side of a
  sum.
\<close>

definition virtusb_device_create ::
  "bool \<Rightarrow> bool \<Rightarrow> u8 \<Rightarrow> 'a kobj_scheme \<Rightarrow> ((int + nat) \<times> 'a kobj_scheme) option" where
  "virtusb_device_create mem xa_mem speed s =
     (case virtusb_object_alloc mem SIZEOF_VIRTUSB_DEVICE (Some Virtusb_device_release) s of
        (None, s) \<Rightarrow> Some (Inl (- ENOMEM), s)
      | (Some device, s) \<Rightarrow> do {
          (ret, s) \<leftarrow> virtusb_port_init (Some (Dev_port device)) VIRTUSB_PORT_ROLE_UPSTREAM speed
                        (Some (Own_dev device)) s;
          if ret < 0 then do {
            s \<leftarrow> virtusb_object_put (Some device) s;
            Some (Inl ret, s)
          }
          else do {
            (ret, s) \<leftarrow> virtusb_object_register xa_mem (Some device) VIRTUSB_OBJECT_TYPE_DEVICE s;
            if ret < 0 then do {
              s \<leftarrow> virtusb_object_put (Some device) s;
              Some (Inl ret, s)
            }
            else Some (Inr device, s)
          }
        })"

text \<open>
  The hub a device is attached to, with the number of the port; the owner pointer of a port of
  role downstream is taken to be a hub.
\<close>

definition virtusb_device_get_attached_hub ::
  "nat option \<Rightarrow> 'a topo_scheme \<Rightarrow> (nat \<times> u32) option option" where
  "virtusb_device_get_attached_hub device s =
     (case device of
        None \<Rightarrow> Some None
      | Some d \<Rightarrow> do {
          up \<leftarrow> load_port (Dev_port d) s;
          (case p_peer up of
             None \<Rightarrow> Some None
           | Some downstream \<Rightarrow> do {
               down \<leftarrow> load_port downstream s;
               if p_role down \<noteq> VIRTUSB_PORT_ROLE_DOWNSTREAM then Some None
               else (case p_owner down of
                       None \<Rightarrow> Some None
                     | Some (Own_dev _) \<Rightarrow> None
                     | Some (Own_hub hub) \<Rightarrow> do {
                         (ret, port_number) \<leftarrow> virtusb_hub_find_port_number (Some hub) (Some downstream) s;
                         if ret < 0 then Some None
                         else Some (map_option (Pair hub) port_number)
                       })
             })
        })"

definition virtusb_device_attach ::
  "nat option \<Rightarrow> port_ptr option \<Rightarrow> 'a topo_scheme \<Rightarrow> (int \<times> 'a topo_scheme) option" where
  "virtusb_device_attach device downstream_port s =
     (case (device, downstream_port) of
        (Some d, Some a) \<Rightarrow> do {
          down \<leftarrow> load_port a s;
          (case p_owner down of
             None \<Rightarrow> Some (- EINVAL, s)
           | Some (Own_dev _) \<Rightarrow> None
           | Some (Own_hub hub) \<Rightarrow> do {
               (ret, found) \<leftarrow> virtusb_hub_find_port_number (Some hub) (Some a) s;
               if ret < 0 then Some (ret, s)
               else do {
                 port_number \<leftarrow> found;
                 was_connected \<leftarrow> virtusb_hub_port_is_connected (Some hub) port_number s;
                 (ret, s) \<leftarrow> virtusb_port_attach (Some a) (Some (Dev_port d)) s;
                 if ret < 0 then Some (ret, s)
                 else do {
                   is_connected \<leftarrow> virtusb_hub_port_is_connected (Some hub) port_number s;
                   s \<leftarrow> (if was_connected \<noteq> is_connected
                         then virtusb_hub_mark_port_connection_change (Some hub) port_number s else Some s);
                   Some (0, s)
                 }
               }
             })
        }
      | _ \<Rightarrow> Some (- EINVAL, s))"

definition virtusb_device_detach :: "nat option \<Rightarrow> 'a topo_scheme \<Rightarrow> 'a topo_scheme option" where
  "virtusb_device_detach device s =
     (case device of
        None \<Rightarrow> Some s
      | Some d \<Rightarrow> do {
          attached \<leftarrow> virtusb_device_get_attached_hub device s;
          (case attached of
             None \<Rightarrow> virtusb_port_detach (Some (Dev_port d)) s
           | Some (hub, port_number) \<Rightarrow> do {
               was_connected \<leftarrow> virtusb_hub_port_is_connected (Some hub) port_number s;
               s \<leftarrow> virtusb_port_detach (Some (Dev_port d)) s;
               if was_connected then virtusb_hub_mark_port_connection_change (Some hub) port_number s
               else Some s
             })
        })"

definition virtusb_device_set_connection_signaling ::
  "nat option \<Rightarrow> bool \<Rightarrow> 'a topo_scheme \<Rightarrow> (int \<times> 'a topo_scheme) option" where
  "virtusb_device_set_connection_signaling device enabled s =
     (case device of
        None \<Rightarrow> Some (- EINVAL, s)
      | Some d \<Rightarrow> do {
          attached \<leftarrow> virtusb_device_get_attached_hub device s;
          (case attached of
             None \<Rightarrow> virtusb_port_set_connection_signaling (Some (Dev_port d)) enabled s
           | Some (hub, port_number) \<Rightarrow> do {
               was_connected \<leftarrow> virtusb_hub_port_is_connected (Some hub) port_number s;
               (ret, s) \<leftarrow> virtusb_port_set_connection_signaling (Some (Dev_port d)) enabled s;
               if ret < 0 then Some (ret, s)
               else do {
                 is_connected \<leftarrow> virtusb_hub_port_is_connected (Some hub) port_number s;
                 s \<leftarrow> (if was_connected \<noteq> is_connected
                       then virtusb_hub_mark_port_connection_change (Some hub) port_number s else Some s);
                 Some (0, s)
               }
             })
        })"

definition virtusb_device_has_vbus :: "nat option \<Rightarrow> 'a topo_scheme \<Rightarrow> bool option" where
  "virtusb_device_has_vbus device s =
     (case device of
        None \<Rightarrow> Some False
      | Some d \<Rightarrow> virtusb_port_has_vbus (Some (Dev_port d)) s)"

definition virtusb_device_destroy ::
  "nat option \<Rightarrow> bool \<Rightarrow> 'a kobj_scheme \<Rightarrow> (int \<times> 'a kobj_scheme) option" where
  "virtusb_device_destroy device force s =
     (case device of
        None \<Rightarrow> Some (- EINVAL, s)
      | Some d \<Rightarrow> do {
          up \<leftarrow> load_port (Dev_port d) s;
          if p_peer up = None then virtusb_object_unregister device s
          else if \<not> force then Some (- EBUSY, s)
          else do {
            (ret, s) \<leftarrow> virtusb_device_set_connection_signaling device False s;
            if ret < 0 then Some (ret, s)
            else do {
              s \<leftarrow> virtusb_device_detach device s;
              virtusb_object_unregister device s
            }
          }
        })"

text \<open>
  The loop of \<open>virtusb_device_shutdown_all\<close> ends only when the registry holds no device, so a
  failure to unregister would make it spin for ever: it is a partial function, and
  \<open>None\<close> also stands for not returning.
\<close>

partial_function (option) virtusb_device_shutdown_all :: "'a kobj_scheme \<Rightarrow> 'a kobj_scheme option" where
  "virtusb_device_shutdown_all s = do {
     (object, s) \<leftarrow> virtusb_object_lookup_first_by_type VIRTUSB_OBJECT_TYPE_DEVICE s;
     (case object of
        None \<Rightarrow> Some s
      | Some device \<Rightarrow> do {
          (ret, s) \<leftarrow> virtusb_device_destroy (Some device) True s;
          s \<leftarrow> virtusb_object_put (Some device) s;
          virtusb_device_shutdown_all s
        })
   }"

end
