(* ===== verification/Virtusb_Transfer.thy ===== *)
theory Virtusb_Transfer
  imports Virtusb_Device
begin

text \<open>
  The USB transfer of \<open>kernel/src/virtusb_transfer.c\<close>: a reference-counted copy of what a URB
  asks for, with a reference to its device and its own payload buffer. Transfers live in a
  memory of their own; a \<open>struct virtusb_transfer *\<close> is \<^typ>\<open>nat option\<close>. A
  \<open>struct usb_ctrlrequest\<close> is its eight bytes, a buffer its bytes, a \<open>size_t\<close> a 64-bit word.
\<close>

datatype virtusb_transfer_type =
    VIRTUSB_TRANSFER_TYPE_CONTROL
  | VIRTUSB_TRANSFER_TYPE_ISOCHRONOUS
  | VIRTUSB_TRANSFER_TYPE_BULK
  | VIRTUSB_TRANSFER_TYPE_INTERRUPT

fun transfer_type_code :: "virtusb_transfer_type \<Rightarrow> u32" where
  "transfer_type_code VIRTUSB_TRANSFER_TYPE_CONTROL = 0"
| "transfer_type_code VIRTUSB_TRANSFER_TYPE_ISOCHRONOUS = 1"
| "transfer_type_code VIRTUSB_TRANSFER_TYPE_BULK = 2"
| "transfer_type_code VIRTUSB_TRANSFER_TYPE_INTERRUPT = 3"

datatype virtusb_transfer_direction =
    VIRTUSB_TRANSFER_DIRECTION_OUT
  | VIRTUSB_TRANSFER_DIRECTION_IN

fun transfer_direction_code :: "virtusb_transfer_direction \<Rightarrow> u32" where
  "transfer_direction_code VIRTUSB_TRANSFER_DIRECTION_OUT = 0"
| "transfer_direction_code VIRTUSB_TRANSFER_DIRECTION_IN = 1"

datatype virtusb_transfer_state =
    VIRTUSB_TRANSFER_STATE_NEW
  | VIRTUSB_TRANSFER_STATE_QUEUED
  | VIRTUSB_TRANSFER_STATE_COMPLETED
  | VIRTUSB_TRANSFER_STATE_CANCELLED

record virtusb_transfer =
  t_refcount :: nat
  t_id :: u64
  t_device :: nat
  t_type :: virtusb_transfer_type
  t_direction :: virtusb_transfer_direction
  t_state :: virtusb_transfer_state
  t_endpoint :: u8
  t_has_setup :: bool
  t_setup :: "u8 list"
  t_buffer :: "u8 list option"
  t_requested_length :: u64
  t_actual_length :: u64
  t_status :: int

text \<open>\<open>virtusb_transfer_next_id\<close> is an atomic 64-bit counter that wraps.\<close>

record ktrans = kobj +
  transfers :: "nat \<Rightarrow> virtusb_transfer option"
  next_transfer_id :: u64

definition load_trans :: "nat \<Rightarrow> 'a ktrans_scheme \<Rightarrow> virtusb_transfer option" where
  "load_trans t s = transfers s t"

definition put_trans :: "nat \<Rightarrow> virtusb_transfer \<Rightarrow> 'a ktrans_scheme \<Rightarrow> 'a ktrans_scheme" where
  "put_trans t tr s = s\<lparr>transfers := (transfers s)(t \<mapsto> tr)\<rparr>"

definition store_trans :: "nat \<Rightarrow> virtusb_transfer \<Rightarrow> 'a ktrans_scheme \<Rightarrow> 'a ktrans_scheme option" where
  "store_trans t tr s = (if load_trans t s = None then None else Some (put_trans t tr s))"

abbreviation modify_trans ::
  "nat \<Rightarrow> (virtusb_transfer \<Rightarrow> virtusb_transfer) \<Rightarrow> 'a ktrans_scheme \<Rightarrow> 'a ktrans_scheme option" where
  "modify_trans \<equiv> modify_at load_trans store_trans"

lemma load_put_trans [simp]: "load_trans u (put_trans t tr s) = (if u = t then Some tr else load_trans u s)"
  by (simp add: load_trans_def put_trans_def)

interpretation trans_mem: memory load_trans store_trans
  by unfold_locales (auto simp: store_trans_def split: if_splits)

lemma modify_trans_alloc [simp]:
  "load_trans t s = Some tr \<Longrightarrow> modify_trans t f s = Some (put_trans t (f tr) s)"
  by (simp add: modify_at_def store_trans_def)

text \<open>The final release frees the buffer and the transfer and drops the device reference.\<close>

definition free_trans :: "nat \<Rightarrow> 'a ktrans_scheme \<Rightarrow> 'a ktrans_scheme" where
  "free_trans t s = s\<lparr>transfers := (transfers s)(t := None)\<rparr>"

definition virtusb_transfer_release :: "nat \<Rightarrow> 'a ktrans_scheme \<Rightarrow> 'a ktrans_scheme option" where
  "virtusb_transfer_release transfer s = do {
     tr \<leftarrow> load_trans transfer s;
     s \<leftarrow> virtusb_object_put (Some (t_device tr)) s;
     Some (free_trans transfer s)
   }"

text \<open>
  The arguments \<open>mem\<close> and \<open>buf_mem\<close> are the success of the two allocations, \<open>junk\<close> the bytes
  \<open>kmalloc\<close> leaves in the buffer; OUT data overwrites all of them. Reading more from \<open>data\<close>
  than it holds is a fault.
\<close>

definition virtusb_transfer_create ::
  "bool \<Rightarrow> bool \<Rightarrow> (nat \<Rightarrow> u8) \<Rightarrow> nat option \<Rightarrow> virtusb_transfer_type \<Rightarrow> virtusb_transfer_direction \<Rightarrow> u8
     \<Rightarrow> u8 list option \<Rightarrow> u8 list option \<Rightarrow> u64 \<Rightarrow> 'a ktrans_scheme \<Rightarrow> (nat option \<times> 'a ktrans_scheme) option" where
  "virtusb_transfer_create mem buf_mem junk device type direction endpoint setup data len s =
     (case device of
        None \<Rightarrow> Some (None, s)
      | Some d \<Rightarrow>
          if endpoint > 15 then Some (None, s)
          else if type = VIRTUSB_TRANSFER_TYPE_CONTROL \<and> setup = None then Some (None, s)
          else if direction = VIRTUSB_TRANSFER_DIRECTION_OUT \<and> len > 0 \<and> data = None then Some (None, s)
          else if \<not> mem then Some (None, s)
          else if len > 0 \<and> \<not> buf_mem then Some (None, s)
          else do {
            let buffer = map junk [0..<unat len];
            buffer \<leftarrow> (if len > 0
                       then (if direction = VIRTUSB_TRANSFER_DIRECTION_OUT
                             then do { bytes \<leftarrow> data; map_option Some (memcpy buffer bytes (unat len)) }
                             else Some (Some buffer))
                       else Some None);
            setup_bytes \<leftarrow> (case setup of None \<Rightarrow> Some (replicate 8 0)
                                      | Some bytes \<Rightarrow> memcpy (replicate 8 0) bytes 8);
            let t = next_addr s;
            let s = s\<lparr>next_addr := Suc t, next_transfer_id := next_transfer_id s + 1\<rparr>;
            s \<leftarrow> virtusb_object_get (Some d) s;
            let tr = \<lparr>t_refcount = 1, t_id = next_transfer_id s, t_device = d, t_type = type,
                      t_direction = direction, t_state = VIRTUSB_TRANSFER_STATE_NEW, t_endpoint = endpoint,
                      t_has_setup = (setup \<noteq> None), t_setup = setup_bytes, t_buffer = buffer,
                      t_requested_length = len, t_actual_length = 0, t_status = - EINPROGRESS\<rparr>;
            Some (Some t, put_trans t tr s)
          })"

definition virtusb_transfer_get :: "nat option \<Rightarrow> 'a ktrans_scheme \<Rightarrow> 'a ktrans_scheme option" where
  "virtusb_transfer_get transfer s =
     (case transfer of
        None \<Rightarrow> Some s
      | Some t \<Rightarrow> modify_trans t (\<lambda>tr. tr\<lparr>t_refcount := t_refcount tr + 1\<rparr>) s)"

definition virtusb_transfer_put :: "nat option \<Rightarrow> 'a ktrans_scheme \<Rightarrow> 'a ktrans_scheme option" where
  "virtusb_transfer_put transfer s =
     (case transfer of
        None \<Rightarrow> Some s
      | Some t \<Rightarrow> do {
          tr \<leftarrow> load_trans t s;
          if t_refcount tr = 0 then None
          else do {
            s \<leftarrow> modify_trans t (\<lambda>tr. tr\<lparr>t_refcount := t_refcount tr - 1\<rparr>) s;
            if t_refcount tr = 1 then virtusb_transfer_release t s else Some s
          }
        })"

section \<open>The transfer state machine\<close>

definition virtusb_transfer_mark_queued :: "nat option \<Rightarrow> 'a ktrans_scheme \<Rightarrow> (int \<times> 'a ktrans_scheme) option" where
  "virtusb_transfer_mark_queued transfer s =
     (case transfer of
        None \<Rightarrow> Some (- EINVAL, s)
      | Some t \<Rightarrow> do {
          tr \<leftarrow> load_trans t s;
          if t_state tr \<noteq> VIRTUSB_TRANSFER_STATE_NEW then Some (- EINVAL, s)
          else do {
            s \<leftarrow> modify_trans t (\<lambda>tr. tr\<lparr>t_state := VIRTUSB_TRANSFER_STATE_QUEUED\<rparr>) s;
            Some (0, s)
          }
        })"

definition virtusb_transfer_complete ::
  "nat option \<Rightarrow> int \<Rightarrow> u64 \<Rightarrow> 'a ktrans_scheme \<Rightarrow> (int \<times> 'a ktrans_scheme) option" where
  "virtusb_transfer_complete transfer status actual_length s =
     (case transfer of
        None \<Rightarrow> Some (- EINVAL, s)
      | Some t \<Rightarrow> do {
          tr \<leftarrow> load_trans t s;
          if t_state tr \<noteq> VIRTUSB_TRANSFER_STATE_NEW \<and> t_state tr \<noteq> VIRTUSB_TRANSFER_STATE_QUEUED
          then Some (- EINVAL, s)
          else if actual_length > t_requested_length tr then Some (- EMSGSIZE, s)
          else do {
            s \<leftarrow> modify_trans t (\<lambda>tr. tr\<lparr>t_actual_length := actual_length, t_status := status,
                                        t_state := VIRTUSB_TRANSFER_STATE_COMPLETED\<rparr>) s;
            Some (0, s)
          }
        })"

definition virtusb_transfer_cancel ::
  "nat option \<Rightarrow> int \<Rightarrow> 'a ktrans_scheme \<Rightarrow> (int \<times> 'a ktrans_scheme) option" where
  "virtusb_transfer_cancel transfer status s =
     (case transfer of
        None \<Rightarrow> Some (- EINVAL, s)
      | Some t \<Rightarrow> do {
          tr \<leftarrow> load_trans t s;
          if t_state tr \<noteq> VIRTUSB_TRANSFER_STATE_NEW \<and> t_state tr \<noteq> VIRTUSB_TRANSFER_STATE_QUEUED
          then Some (- EINVAL, s)
          else do {
            s \<leftarrow> modify_trans t (\<lambda>tr. tr\<lparr>t_actual_length := 0, t_status := status,
                                        t_state := VIRTUSB_TRANSFER_STATE_CANCELLED\<rparr>) s;
            Some (0, s)
          }
        })"

end
