(* ===== verification/Virtusb_Backend.thy ===== *)
theory Virtusb_Backend
  imports Virtusb_Transfer
begin

text \<open>
  The transfer data plane of \<open>kernel/src/virtusb_backend.c\<close>: sessions of user-space backends,
  bound to devices, and the requests that wait for them. A backend is part of the private data
  of a host controller and has the controller's address. A request is allocated by \<open>submit\<close>,
  is on one of the two lists until somebody takes it off, and is freed by whoever took it off,
  so the lists hold the requests themselves. A \<open>struct file *\<close> and a \<open>struct urb *\<close> are natural
  numbers.

  The spinlock makes each critical section one step. Outside of it an operation works only on a
  request it has taken off the lists, or on a transfer it holds a reference to, so that
  \<open>submit\<close>, \<open>cancel\<close> and \<open>complete\<close> are one step each.
\<close>

section \<open>URBs and the USB core\<close>

text \<open>
  What the driver uses of \<open>struct urb\<close> and of \<open>struct usb_device\<close>; a buffer is its bytes, so
  that writing past its end, or through a null pointer, is a fault.
\<close>

record usb_device =
  ud_parent :: "nat option"
  ud_portnum :: u8

record urb =
  urb_dev :: "usb_device option"
  urb_pipe :: u32
  urb_setup_packet :: "u8 list option"
  urb_transfer_buffer :: "u8 list option"
  urb_transfer_buffer_length :: u32
  urb_actual_length :: u32
  urb_num_sgs :: int
  urb_number_of_packets :: int

record virtusb_hcd_request =
  req_urb :: nat
  req_transfer :: nat
  req_owner :: "nat option"

record virtusb_backend_binding =
  bind_device :: nat
  bind_owner :: nat

record virtusb_backend =
  bindings :: "virtusb_backend_binding list"
  pending :: "virtusb_hcd_request list"
  active :: "virtusb_hcd_request list"
  stopping :: bool

text \<open>
  The backends by controller; the URBs lent to the driver; those linked to their endpoint; the
  URBs given back, newest first, each with its contents and status; the controllers whose
  waiters were woken, newest first.
\<close>

record kback = ktrans +
  backends :: "nat \<Rightarrow> virtusb_backend option"
  urbs :: "nat \<Rightarrow> urb option"
  linked :: "nat \<Rightarrow> bool"
  givebacks :: "(nat \<times> urb \<times> int) list"
  wakeups :: "nat list"

definition load_back :: "nat \<Rightarrow> 'a kback_scheme \<Rightarrow> virtusb_backend option" where
  "load_back h s = backends s h"

definition put_back :: "nat \<Rightarrow> virtusb_backend \<Rightarrow> 'a kback_scheme \<Rightarrow> 'a kback_scheme" where
  "put_back h b s = s\<lparr>backends := (backends s)(h \<mapsto> b)\<rparr>"

definition store_back :: "nat \<Rightarrow> virtusb_backend \<Rightarrow> 'a kback_scheme \<Rightarrow> 'a kback_scheme option" where
  "store_back h b s = (if load_back h s = None then None else Some (put_back h b s))"

abbreviation modify_back ::
  "nat \<Rightarrow> (virtusb_backend \<Rightarrow> virtusb_backend) \<Rightarrow> 'a kback_scheme \<Rightarrow> 'a kback_scheme option" where
  "modify_back \<equiv> modify_at load_back store_back"

lemma load_put_back [simp]: "load_back g (put_back h b s) = (if g = h then Some b else load_back g s)"
  by (simp add: load_back_def put_back_def)

interpretation back_mem: memory load_back store_back
  by unfold_locales (auto simp: store_back_def split: if_splits)

lemma modify_back_alloc [simp]: "load_back h s = Some b \<Longrightarrow> modify_back h f s = Some (put_back h (f b) s)"
  by (simp add: modify_at_def store_back_def)

definition load_urb :: "nat \<Rightarrow> 'a kback_scheme \<Rightarrow> urb option" where
  "load_urb u s = urbs s u"

definition put_urb :: "nat \<Rightarrow> urb \<Rightarrow> 'a kback_scheme \<Rightarrow> 'a kback_scheme" where
  "put_urb u urb s = s\<lparr>urbs := (urbs s)(u \<mapsto> urb)\<rparr>"

definition store_urb :: "nat \<Rightarrow> urb \<Rightarrow> 'a kback_scheme \<Rightarrow> 'a kback_scheme option" where
  "store_urb u urb s = (if load_urb u s = None then None else Some (put_urb u urb s))"

abbreviation modify_urb :: "nat \<Rightarrow> (urb \<Rightarrow> urb) \<Rightarrow> 'a kback_scheme \<Rightarrow> 'a kback_scheme option" where
  "modify_urb \<equiv> modify_at load_urb store_urb"

lemma load_put_urb [simp]: "load_urb v (put_urb u urb s) = (if v = u then Some urb else load_urb v s)"
  by (simp add: load_urb_def put_urb_def)

interpretation urb_mem: memory load_urb store_urb
  by unfold_locales (auto simp: store_urb_def split: if_splits)

lemma modify_urb_alloc [simp]: "load_urb u s = Some urb \<Longrightarrow> modify_urb u f s = Some (put_urb u (f urb) s)"
  by (simp add: modify_at_def store_urb_def)

text \<open>
  The calls of the USB core: linking may fail with \<open>ret\<close>; a URB given back belongs to its
  submitter again, and touching it afterwards is a fault.
\<close>

definition usb_hcd_link_urb_to_ep :: "int \<Rightarrow> nat \<Rightarrow> 'a kback_scheme \<Rightarrow> int \<times> 'a kback_scheme" where
  "usb_hcd_link_urb_to_ep ret u s = (ret, if ret = 0 then s\<lparr>linked := (linked s)(u := True)\<rparr> else s)"

definition usb_hcd_unlink_urb_from_ep :: "nat \<Rightarrow> 'a kback_scheme \<Rightarrow> 'a kback_scheme" where
  "usb_hcd_unlink_urb_from_ep u s = s\<lparr>linked := (linked s)(u := False)\<rparr>"

definition usb_hcd_giveback_urb :: "nat \<Rightarrow> int \<Rightarrow> 'a kback_scheme \<Rightarrow> 'a kback_scheme option" where
  "usb_hcd_giveback_urb u status s = do {
     urb \<leftarrow> load_urb u s;
     Some (s\<lparr>urbs := (urbs s)(u := None), givebacks := (u, urb, status) # givebacks s\<rparr>)
   }"

definition wake_up_interruptible_all :: "nat \<Rightarrow> 'a kback_scheme \<Rightarrow> 'a kback_scheme" where
  "wake_up_interruptible_all h s = s\<lparr>wakeups := h # wakeups s\<rparr>"

section \<open>Searching the lists\<close>

text \<open>A \<open>list_for_each_entry\<close> loop that returns the first element passing a test.\<close>

fun list_first :: "('r \<Rightarrow> bool option) \<Rightarrow> 'r list \<Rightarrow> 'r option option" where
  "list_first P [] = Some None"
| "list_first P (r # rs) = do { b \<leftarrow> P r; if b then Some (Some r) else list_first P rs }"

definition virtusb_backend_find_owner_locked :: "virtusb_backend \<Rightarrow> nat \<Rightarrow> virtusb_backend_binding option" where
  "virtusb_backend_find_owner_locked b owner = find (\<lambda>binding. bind_owner binding = owner) (bindings b)"

definition virtusb_backend_find_device_locked :: "virtusb_backend \<Rightarrow> nat \<Rightarrow> virtusb_backend_binding option" where
  "virtusb_backend_find_device_locked b device = find (\<lambda>binding. bind_device binding = device) (bindings b)"

definition virtusb_backend_find_urb_locked :: "virtusb_backend \<Rightarrow> nat \<Rightarrow> virtusb_hcd_request option" where
  "virtusb_backend_find_urb_locked b urb =
     (case find (\<lambda>request. req_urb request = urb) (pending b) of
        Some request \<Rightarrow> Some request
      | None \<Rightarrow> find (\<lambda>request. req_urb request = urb) (active b))"

definition virtusb_backend_find_id_locked ::
  "virtusb_backend \<Rightarrow> nat \<Rightarrow> u64 \<Rightarrow> 'a kback_scheme \<Rightarrow> virtusb_hcd_request option option" where
  "virtusb_backend_find_id_locked b owner transfer_id s =
     list_first (\<lambda>request.
       if req_owner request = Some owner
       then do { tr \<leftarrow> load_trans (req_transfer request) s; Some (t_id tr = transfer_id) }
       else Some False) (active b)"

definition virtusb_backend_find_pending_device_locked ::
  "virtusb_backend \<Rightarrow> nat \<Rightarrow> 'a kback_scheme \<Rightarrow> virtusb_hcd_request option option" where
  "virtusb_backend_find_pending_device_locked b device s =
     list_first (\<lambda>request. do { tr \<leftarrow> load_trans (req_transfer request) s; Some (t_device tr = device) }) (pending b)"

section \<open>Sessions\<close>

definition virtusb_backend_init :: "nat \<Rightarrow> 'a kback_scheme \<Rightarrow> 'a kback_scheme option" where
  "virtusb_backend_init h s =
     modify_back h (\<lambda>b. \<lparr>bindings = [], pending = [], active = [], stopping = False\<rparr>) s"

definition virtusb_backend_register ::
  "bool \<Rightarrow> nat option \<Rightarrow> nat option \<Rightarrow> nat option \<Rightarrow> 'a kback_scheme \<Rightarrow> (int \<times> 'a kback_scheme) option" where
  "virtusb_backend_register mem virt_hcd owner device s =
     (case (virt_hcd, owner, device) of
        (Some h, Some file, Some d) \<Rightarrow>
          if \<not> mem then Some (- ENOMEM, s)
          else do {
            s \<leftarrow> virtusb_object_get (Some d) s;
            b \<leftarrow> load_back h s;
            (ret, s) \<leftarrow>
              (if stopping b then Some (- ESHUTDOWN, s)
               else if virtusb_backend_find_owner_locked b file \<noteq> None \<or>
                       virtusb_backend_find_device_locked b d \<noteq> None
               then Some (- EBUSY, s)
               else do {
                 s \<leftarrow> modify_back h (\<lambda>b. b\<lparr>bindings := bindings b @ [\<lparr>bind_device = d, bind_owner = file\<rparr>]\<rparr>) s;
                 Some (0, s)
               });
            if ret < 0 then do { s \<leftarrow> virtusb_object_put (Some d) s; Some (ret, s) }
            else Some (0, wake_up_interruptible_all h s)
          }
      | _ \<Rightarrow> Some (- EINVAL, s))"

definition virtusb_backend_pending_for_owner_or_stopping :: "nat \<Rightarrow> nat \<Rightarrow> 'a kback_scheme \<Rightarrow> bool option" where
  "virtusb_backend_pending_for_owner_or_stopping h owner s = do {
     b \<leftarrow> load_back h s;
     if stopping b then Some True
     else (case virtusb_backend_find_owner_locked b owner of
             None \<Rightarrow> Some False
           | Some binding \<Rightarrow> do {
               request \<leftarrow> virtusb_backend_find_pending_device_locked b (bind_device binding) s;
               Some (request \<noteq> None)
             })
   }"

definition virtusb_backend_has_pending :: "nat option \<Rightarrow> nat option \<Rightarrow> 'a kback_scheme \<Rightarrow> bool option" where
  "virtusb_backend_has_pending virt_hcd owner s =
     (case (virt_hcd, owner) of
        (Some h, Some file) \<Rightarrow> virtusb_backend_pending_for_owner_or_stopping h file s
      | _ \<Rightarrow> Some False)"

section \<open>Giving requests back\<close>

definition virtusb_backend_release_request :: "virtusb_hcd_request \<Rightarrow> 'a kback_scheme \<Rightarrow> 'a kback_scheme option" where
  "virtusb_backend_release_request request s = virtusb_transfer_put (Some (req_transfer request)) s"

definition virtusb_backend_giveback :: "virtusb_hcd_request \<Rightarrow> int \<Rightarrow> 'a kback_scheme \<Rightarrow> 'a kback_scheme option" where
  "virtusb_backend_giveback request status s = do {
     s \<leftarrow> usb_hcd_giveback_urb (req_urb request) status s;
     virtusb_backend_release_request request s
   }"

text \<open>
  \<open>list_del_init\<close> of a request, which is on one list: an owner is set on the active list and
  only there.
\<close>

definition take_request :: "nat \<Rightarrow> virtusb_hcd_request \<Rightarrow> 'a kback_scheme \<Rightarrow> 'a kback_scheme option" where
  "take_request h request s = do {
     s \<leftarrow> modify_back h (\<lambda>b. b\<lparr>pending := remove1 request (pending b), active := remove1 request (active b)\<rparr>) s;
     Some (usb_hcd_unlink_urb_from_ep (req_urb request) s)
   }"

section \<open>Submitting and cancelling\<close>

text \<open>
  The argument \<open>link_ret\<close> is what \<open>usb_hcd_link_urb_to_ep\<close> returns, \<open>check_ret\<close> what
  \<open>usb_hcd_check_unlink_urb\<close> returns.
\<close>

definition virtusb_backend_submit ::
  "bool \<Rightarrow> int \<Rightarrow> nat option \<Rightarrow> nat option \<Rightarrow> nat option \<Rightarrow> nat option \<Rightarrow> 'a kback_scheme
     \<Rightarrow> (int \<times> 'a kback_scheme) option" where
  "virtusb_backend_submit mem link_ret virt_hcd hcd urb transfer s =
     (case (virt_hcd, hcd, urb, transfer) of
        (Some h, Some _, Some u, Some t) \<Rightarrow> do {
          tr \<leftarrow> load_trans t s;
          if t_requested_length tr > VIRTUSB_TRANSFER_DATA_MAX then Some (- EMSGSIZE, s)
          else if \<not> mem then Some (- ENOMEM, s)
          else do {
            s \<leftarrow> virtusb_transfer_get (Some t) s;
            let request = \<lparr>req_urb = u, req_transfer = t, req_owner = None\<rparr>;
            (ret, s) \<leftarrow> virtusb_transfer_mark_queued (Some t) s;
            if ret < 0 then do { s \<leftarrow> virtusb_backend_release_request request s; Some (ret, s) }
            else do {
              b \<leftarrow> load_back h s;
              tr \<leftarrow> load_trans t s;
              (ret, s) \<leftarrow>
                (if stopping b then Some (- ESHUTDOWN, s)
                 else if virtusb_backend_find_device_locked b (t_device tr) = None then Some (- ENODEV, s)
                 else (case usb_hcd_link_urb_to_ep link_ret u s of (ret, s) \<Rightarrow>
                         if ret = 0 then do {
                           s \<leftarrow> modify_back h (\<lambda>b. b\<lparr>pending := pending b @ [request]\<rparr>) s;
                           Some (ret, s)
                         }
                         else Some (ret, s)));
              if ret < 0 then do {
                (_, s) \<leftarrow> virtusb_transfer_cancel (Some t) ret s;
                s \<leftarrow> virtusb_backend_release_request request s;
                Some (ret, s)
              }
              else Some (0, wake_up_interruptible_all h s)
            }
          }
        }
      | _ \<Rightarrow> Some (- EINVAL, s))"

definition virtusb_backend_cancel ::
  "int \<Rightarrow> nat option \<Rightarrow> nat option \<Rightarrow> nat option \<Rightarrow> int \<Rightarrow> 'a kback_scheme \<Rightarrow> (int \<times> 'a kback_scheme) option" where
  "virtusb_backend_cancel check_ret virt_hcd hcd urb status s =
     (case (virt_hcd, hcd, urb) of
        (Some h, Some _, Some u) \<Rightarrow>
          if check_ret < 0 then Some (check_ret, s)
          else do {
            b \<leftarrow> load_back h s;
            (case virtusb_backend_find_urb_locked b u of
               None \<Rightarrow> Some (- EIDRM, s)
             | Some request \<Rightarrow> do {
                 s \<leftarrow> take_request h request s;
                 (_, s) \<leftarrow> virtusb_transfer_cancel (Some (req_transfer request)) status s;
                 s \<leftarrow> virtusb_backend_giveback request status s;
                 Some (0, s)
               })
          }
      | _ \<Rightarrow> Some (- EINVAL, s))"

section \<open>Fetching and completing\<close>

text \<open>
  The loop of \<open>virtusb_backend_fetch\<close> sleeps until another thread changes the state. Each
  element of \<open>waits\<close> is one return of \<open>wait_event_interruptible\<close>: its result and what the
  others did to the state meanwhile. When the list is used up the call is still asleep, which is
  the result \<^const>\<open>None\<close>. Otherwise the loop ends with an error, or with the transfer of the
  request it moved to the active list.
\<close>

fun fetch_request ::
  "nat \<Rightarrow> nat \<Rightarrow> bool \<Rightarrow> (int \<times> ('a kback_scheme \<Rightarrow> 'a kback_scheme)) list \<Rightarrow> 'a kback_scheme
     \<Rightarrow> ((int + nat) option \<times> 'a kback_scheme) option" where
  "fetch_request h owner nonblock waits s = do {
     b \<leftarrow> load_back h s;
     (case virtusb_backend_find_owner_locked b owner of
        None \<Rightarrow> Some (Some (Inl (- ENODEV)), s)
      | Some binding \<Rightarrow> do {
          found \<leftarrow> virtusb_backend_find_pending_device_locked b (bind_device binding) s;
          (case found of
             Some request \<Rightarrow> do {
               s \<leftarrow> modify_back h (\<lambda>b. b\<lparr>pending := remove1 request (pending b),
                                       active := active b @ [request\<lparr>req_owner := Some owner\<rparr>]\<rparr>) s;
               s \<leftarrow> virtusb_transfer_get (Some (req_transfer request)) s;
               Some (Some (Inr (req_transfer request)), s)
             }
           | None \<Rightarrow>
               if stopping b then Some (Some (Inl (- ESHUTDOWN)), s)
               else if nonblock then Some (Some (Inl (- EAGAIN)), s)
               else (case waits of
                       [] \<Rightarrow> Some (None, s)
                     | (ret, others) # waits \<Rightarrow>
                         if ret < 0 then Some (Some (Inl ret), others s)
                         else fetch_request h owner nonblock waits (others s)))
        })
   }"

declare fetch_request.simps [simp del]

definition virtusb_backend_fetch ::
  "nat option \<Rightarrow> nat option \<Rightarrow> virtusb_transfer_fetch option \<Rightarrow> bool
     \<Rightarrow> (int \<times> ('a kback_scheme \<Rightarrow> 'a kback_scheme)) list \<Rightarrow> 'a kback_scheme
     \<Rightarrow> ((int \<times> virtusb_transfer_fetch option) option \<times> 'a kback_scheme) option" where
  "virtusb_backend_fetch virt_hcd owner fetch nonblock waits s =
     (case (virt_hcd, owner, fetch) of
        (Some h, Some file, Some _) \<Rightarrow> do {
          (result, s) \<leftarrow> fetch_request h file nonblock waits s;
          (case result of
             None \<Rightarrow> Some (None, s)
           | Some (Inl ret) \<Rightarrow> Some (Some (ret, fetch), s)
           | Some (Inr t) \<Rightarrow> do {
               tr \<leftarrow> load_trans t s;
               ob \<leftarrow> load_obj (t_device tr) s;
               let f = zero_fetch\<lparr>tf_transfer_id := t_id tr, tf_object_id := obj_id ob,
                         tf_type := transfer_type_code (t_type tr),
                         tf_direction := transfer_direction_code (t_direction tr),
                         tf_endpoint := ucast (t_endpoint tr),
                         tf_requested_length := ucast (t_requested_length tr)\<rparr>;
               f \<leftarrow> (if t_has_setup tr then do {
                       bytes \<leftarrow> memcpy (tf_setup f) (t_setup tr) VIRTUSB_TRANSFER_SETUP_SIZE;
                       Some (f\<lparr>tf_has_setup := 1, tf_setup := bytes\<rparr>)
                     }
                     else Some f);
               f \<leftarrow> (if t_direction tr = VIRTUSB_TRANSFER_DIRECTION_OUT \<and> t_requested_length tr > 0 then do {
                       buffer \<leftarrow> t_buffer tr;
                       bytes \<leftarrow> memcpy (tf_data f) buffer (unat (t_requested_length tr));
                       Some (f\<lparr>tf_data := bytes, tf_data_length := ucast (t_requested_length tr)\<rparr>)
                     }
                     else Some f);
               s \<leftarrow> virtusb_transfer_put (Some t) s;
               Some (Some (0, Some f), s)
             })
        }
      | _ \<Rightarrow> Some (Some (- EINVAL, fetch), s))"

definition virtusb_backend_fetch_rollback ::
  "nat option \<Rightarrow> nat option \<Rightarrow> u64 \<Rightarrow> 'a kback_scheme \<Rightarrow> (int \<times> 'a kback_scheme) option" where
  "virtusb_backend_fetch_rollback virt_hcd owner transfer_id s =
     (case (virt_hcd, owner) of
        (Some h, Some file) \<Rightarrow>
          if transfer_id = 0 then Some (- EINVAL, s)
          else do {
            b \<leftarrow> load_back h s;
            found \<leftarrow> virtusb_backend_find_id_locked b file transfer_id s;
            (case found of
               None \<Rightarrow> Some (- ENOENT, s)
             | Some request \<Rightarrow> do {
                 s \<leftarrow> modify_back h (\<lambda>b. b\<lparr>pending := request\<lparr>req_owner := None\<rparr> # pending b,
                                         active := remove1 request (active b)\<rparr>) s;
                 Some (0, wake_up_interruptible_all h s)
               })
          }
      | _ \<Rightarrow> Some (- EINVAL, s))"

definition virtusb_backend_complete ::
  "nat option \<Rightarrow> nat option \<Rightarrow> nat option \<Rightarrow> virtusb_transfer_complete_request option \<Rightarrow> 'a kback_scheme
     \<Rightarrow> (int \<times> 'a kback_scheme) option" where
  "virtusb_backend_complete virt_hcd hcd owner completion s =
     (case (virt_hcd, hcd, owner, completion) of
        (Some h, Some _, Some file, Some c) \<Rightarrow>
          if tc_transfer_id c = 0 then Some (- EINVAL, s)
          else do {
            b \<leftarrow> load_back h s;
            found \<leftarrow> virtusb_backend_find_id_locked b file (tc_transfer_id c) s;
            (case found of
               None \<Rightarrow> Some (- ENOENT, s)
             | Some request \<Rightarrow> do {
                 s \<leftarrow> take_request h request s;
                 let t = req_transfer request;
                 tr \<leftarrow> load_trans t s;
                 let actual_length = (ucast (tc_actual_length c) :: u64);
                 if actual_length > t_requested_length tr \<or> actual_length > VIRTUSB_TRANSFER_DATA_MAX then do {
                   (_, s) \<leftarrow> virtusb_transfer_cancel (Some t) (- EMSGSIZE) s;
                   s \<leftarrow> virtusb_backend_giveback request (- EMSGSIZE) s;
                   Some (- EMSGSIZE, s)
                 }
                 else do {
                   s \<leftarrow> (if t_direction tr = VIRTUSB_TRANSFER_DIRECTION_IN \<and> actual_length > 0 then do {
                           buffer \<leftarrow> t_buffer tr;
                           buffer \<leftarrow> memcpy buffer (tc_data c) (unat actual_length);
                           s \<leftarrow> modify_trans t (\<lambda>tr. tr\<lparr>t_buffer := Some buffer\<rparr>) s;
                           urb \<leftarrow> load_urb (req_urb request) s;
                           urb_buffer \<leftarrow> urb_transfer_buffer urb;
                           urb_buffer \<leftarrow> memcpy urb_buffer buffer (unat actual_length);
                           modify_urb (req_urb request) (\<lambda>urb. urb\<lparr>urb_transfer_buffer := Some urb_buffer\<rparr>) s
                         }
                         else Some s);
                   (ret, s) \<leftarrow> virtusb_transfer_complete (Some t) (tc_status c) actual_length s;
                   if ret < 0 then do {
                     (_, s) \<leftarrow> virtusb_transfer_cancel (Some t) ret s;
                     s \<leftarrow> virtusb_backend_giveback request ret s;
                     Some (ret, s)
                   }
                   else do {
                     s \<leftarrow> modify_urb (req_urb request)
                            (\<lambda>urb. urb\<lparr>urb_actual_length := ucast actual_length\<rparr>) s;
                     s \<leftarrow> virtusb_backend_giveback request (tc_status c) s;
                     Some (0, s)
                   }
                 }
               })
          }
      | _ \<Rightarrow> Some (- EINVAL, s))"

section \<open>Ending a session and stopping\<close>

text \<open>
  Both loops take requests off the lists until none is left; they are partial functions whose
  termination is proved, with \<^const>\<open>None\<close> also for not returning.
\<close>

definition release_owner_candidate ::
  "virtusb_backend \<Rightarrow> nat \<Rightarrow> nat \<Rightarrow> 'a kback_scheme \<Rightarrow> virtusb_hcd_request option option" where
  "release_owner_candidate b device owner s = do {
     request \<leftarrow> list_first (\<lambda>candidate.
         do { tr \<leftarrow> load_trans (req_transfer candidate) s; Some (t_device tr = device) }) (pending b);
     (case request of
        Some request \<Rightarrow> Some (Some request)
      | None \<Rightarrow> list_first (\<lambda>candidate.
          do { tr \<leftarrow> load_trans (req_transfer candidate) s;
               Some (t_device tr = device \<and> req_owner candidate = Some owner) }) (active b))
   }"

partial_function (option) release_owner_requests ::
  "nat \<Rightarrow> nat \<Rightarrow> nat \<Rightarrow> 'a kback_scheme \<Rightarrow> 'a kback_scheme option" where
  "release_owner_requests h device owner s = do {
     b \<leftarrow> load_back h s;
     candidate \<leftarrow> release_owner_candidate b device owner s;
     (case candidate of
        None \<Rightarrow> Some s
      | Some request \<Rightarrow> do {
          s \<leftarrow> take_request h request s;
          (_, s) \<leftarrow> virtusb_transfer_cancel (Some (req_transfer request)) (- ESHUTDOWN) s;
          s \<leftarrow> virtusb_backend_giveback request (- ESHUTDOWN) s;
          release_owner_requests h device owner s
        })
   }"

definition virtusb_backend_release_owner ::
  "nat option \<Rightarrow> nat option \<Rightarrow> nat option \<Rightarrow> 'a kback_scheme \<Rightarrow> 'a kback_scheme option" where
  "virtusb_backend_release_owner virt_hcd hcd owner s =
     (case (virt_hcd, hcd, owner) of
        (Some h, Some _, Some file) \<Rightarrow> do {
          b \<leftarrow> load_back h s;
          (case virtusb_backend_find_owner_locked b file of
             None \<Rightarrow> Some s
           | Some binding \<Rightarrow> do {
               let device = bind_device binding;
               s \<leftarrow> modify_back h (\<lambda>b. b\<lparr>bindings := remove1 binding (bindings b)\<rparr>) s;
               s \<leftarrow> release_owner_requests h device file s;
               s \<leftarrow> virtusb_object_put (Some device) s;
               Some (wake_up_interruptible_all h s)
             })
        }
      | _ \<Rightarrow> Some s)"

partial_function (option) stop_requests :: "nat \<Rightarrow> 'a kback_scheme \<Rightarrow> 'a kback_scheme option" where
  "stop_requests h s = do {
     b \<leftarrow> load_back h s;
     (case pending b @ active b of
        [] \<Rightarrow> Some s
      | request # _ \<Rightarrow> do {
          s \<leftarrow> take_request h request s;
          (_, s) \<leftarrow> virtusb_transfer_cancel (Some (req_transfer request)) (- ESHUTDOWN) s;
          s \<leftarrow> virtusb_backend_giveback request (- ESHUTDOWN) s;
          stop_requests h s
        })
   }"

partial_function (option) stop_bindings :: "nat \<Rightarrow> 'a kback_scheme \<Rightarrow> 'a kback_scheme option" where
  "stop_bindings h s = do {
     b \<leftarrow> load_back h s;
     (case bindings b of
        [] \<Rightarrow> Some s
      | binding # rest \<Rightarrow> do {
          s \<leftarrow> modify_back h (\<lambda>b. b\<lparr>bindings := rest\<rparr>) s;
          s \<leftarrow> virtusb_object_put (Some (bind_device binding)) s;
          stop_bindings h s
        })
   }"

definition virtusb_backend_stop :: "nat option \<Rightarrow> nat option \<Rightarrow> 'a kback_scheme \<Rightarrow> 'a kback_scheme option" where
  "virtusb_backend_stop virt_hcd hcd s =
     (case (virt_hcd, hcd) of
        (Some h, Some _) \<Rightarrow> do {
          s \<leftarrow> modify_back h (\<lambda>b. b\<lparr>stopping := True\<rparr>) s;
          let s = wake_up_interruptible_all h s;
          s \<leftarrow> stop_requests h s;
          stop_bindings h s
        }
      | _ \<Rightarrow> Some s)"

end
