(* ===== verification/Virtusb_Device_Props.thy ===== *)
theory Virtusb_Device_Props
  imports Virtusb_Device
begin

text \<open>
  The topology operations of a device against an abstract specification: which device is
  plugged into which port, where VBUS is on and which device signals its presence. Attach,
  detach and the signaling switch are updates of these maps, whatever the pointers do.
\<close>

section \<open>The abstract topology\<close>

record cabling =
  plugged :: "nat \<Rightarrow> (nat \<times> nat) option"
  vbus :: "nat \<times> nat \<Rightarrow> bool"
  signaling :: "nat \<Rightarrow> bool"

definition cabling_of :: "'a topo_scheme \<Rightarrow> cabling" where
  "cabling_of s =
     \<lparr>plugged = (\<lambda>d. case load_port (Dev_port d) s of
                        None \<Rightarrow> None
                      | Some p \<Rightarrow> (case p_peer p of Some (Hub_port h i) \<Rightarrow> Some (h, i) | _ \<Rightarrow> None)),
      vbus = (\<lambda>(h, i). case load_port (Hub_port h i) s of None \<Rightarrow> False | Some p \<Rightarrow> downstream_powered p),
      signaling = (\<lambda>d. case load_port (Dev_port d) s of None \<Rightarrow> False
                                | Some p \<Rightarrow> upstream_connection_signaling p)\<rparr>"

lemma plugged_eq: "plugged (cabling_of s) d = Some (h, i) \<longleftrightarrow>
    (\<exists>p. load_port (Dev_port d) s = Some p \<and> p_peer p = Some (Hub_port h i))"
  by (auto simp: cabling_of_def split: option.split port_ptr.split)

lemma cabling_of_cong:
  "(\<And>a. load_port a s' = load_port a s) \<Longrightarrow> cabling_of s' = cabling_of s"
  by (simp add: cabling_of_def)

lemma cabling_of_settle [simp]: "cabling_of (settle was h n s) = cabling_of s"
  by (rule cabling_of_cong) simp

text \<open>A port holds one device, and the visible connections are determined by the cabling.\<close>

lemma plugged_inj:
  assumes "ports_wf s" and "plugged (cabling_of s) d = Some (h, i)" and "plugged (cabling_of s) e = Some (h, i)"
  shows "d = e"
proof -
  from assms(2,3) obtain p q where p: "load_port (Dev_port d) s = Some p" "p_peer p = Some (Hub_port h i)"
    and q: "load_port (Dev_port e) s = Some q" "p_peer q = Some (Hub_port h i)" by (auto simp: plugged_eq)
  from assms(1) p obtain r where r: "load_port (Hub_port h i) s = Some r" "p_peer r = Some (Dev_port d)"
    by (rule ports_wf_peer)
  from assms(1) q obtain r' where "load_port (Hub_port h i) s = Some r'" "p_peer r' = Some (Dev_port e)"
    by (rule ports_wf_peer)
  with r(1) have "p_peer r = Some (Dev_port e)" by simp
  with r(2) show ?thesis by simp
qed

lemma port_connected_cabling:
  assumes "ports_wf s"
  shows "port_connected s h (Suc i) \<longleftrightarrow>
    (\<exists>d. plugged (cabling_of s) d = Some (h, i) \<and> vbus (cabling_of s) (h, i) \<and> signaling (cabling_of s) d)"
proof
  assume "port_connected s h (Suc i)"
  with assms obtain d pd pu where "load_port (Hub_port h i) s = Some pd" "load_port (Dev_port d) s = Some pu"
    "p_peer pu = Some (Hub_port h i)" "downstream_powered pd" "upstream_connection_signaling pu"
    by (rule port_connectedE) auto
  then show "\<exists>d. plugged (cabling_of s) d = Some (h, i) \<and> vbus (cabling_of s) (h, i) \<and> signaling (cabling_of s) d"
    by (intro exI [of _ d]) (auto simp: plugged_eq, simp_all add: cabling_of_def)
next
  assume "\<exists>d. plugged (cabling_of s) d = Some (h, i) \<and> vbus (cabling_of s) (h, i) \<and> signaling (cabling_of s) d"
  then obtain d pu where pu: "load_port (Dev_port d) s = Some pu" "p_peer pu = Some (Hub_port h i)"
    and on: "vbus (cabling_of s) (h, i)" "signaling (cabling_of s) d" by (auto simp: plugged_eq)
  from assms pu obtain pd where "load_port (Hub_port h i) s = Some pd" "p_peer pd = Some (Dev_port d)"
    by (rule ports_wf_peer)
  with pu on show "port_connected s h (Suc i)" by (simp add: port_connected.simps cabling_of_def)
qed

section \<open>From a port to its number\<close>

lemma hub_port_position:
  assumes "topo_wf s" and "load_hub h s = Some hub" and "load_port (Hub_port h i) s = Some p"
    and "p_role p = VIRTUSB_PORT_ROLE_DOWNSTREAM"
  shows "i < unat (hub_port_count hub)"
  using topo_wf_shape [OF assms(1,2)] assms(2-4)
  by (auto simp: load_port.simps nth_opt_Some hub_shape_def split: if_splits)

lemma unat_port_number:
  assumes "i < 31"
  shows "unat (word_of_nat i + 1 :: u32) = Suc i" and "unat ((word_of_nat i + 1 :: u32) - 1) = i"
proof -
  have i: "unat (word_of_nat i :: u32) = i" using assms by (simp add: unsigned_of_nat take_bit_nat_eq_self)
  then show "unat ((word_of_nat i + 1 :: u32) - 1) = i" by simp
  have "unat (word_of_nat i + 1 :: u32) = (unat (word_of_nat i :: u32) + 1) mod 2 ^ 32"
    by (simp add: unat_word_ariths)
  with i assms show "unat (word_of_nat i + 1 :: u32) = Suc i" by simp
qed

lemma valid_port_number:
  assumes "hub_shape hub" and "i < unat (hub_port_count hub)"
  shows "valid_port hub (word_of_nat i + 1)" and "unat (word_of_nat i + 1 :: u32) = Suc i"
proof -
  from assms have i: "i < 31" by (simp add: hub_shape_def)
  show "unat (word_of_nat i + 1 :: u32) = Suc i" using i by (rule unat_port_number)
  with assms(2) show "valid_port hub (word_of_nat i + 1)"
    by (simp add: valid_port_def word_less_nat_alt word_le_nat_alt)
qed

lemma virtusb_hub_find_port_number_ok:
  assumes "load_hub h s = Some hub" and "i < unat (hub_port_count hub)"
  shows "virtusb_hub_find_port_number (Some h) (Some (Hub_port h i)) s = Some (0, Some (word_of_nat i + 1))"
proof -
  have "find (\<lambda>index. Hub_port h index = Hub_port h i) [0..<unat (hub_port_count hub)] = Some i"
    unfolding find_Some_iff using assms(2) by (intro exI [of _ i]) (auto simp: nth_upt)
  with assms(1) show ?thesis by (simp add: virtusb_hub_find_port_number_def)
qed

lemma virtusb_device_get_attached_hub_ok:
  assumes wf: "topo_wf s" and up: "load_port (Dev_port d) s = Some up"
  shows "p_peer up = None \<Longrightarrow> virtusb_device_get_attached_hub (Some d) s = Some None"
    and "p_peer up = Some b \<Longrightarrow> \<exists>h i hub. b = Hub_port h i \<and> load_hub h s = Some hub \<and>
           i < unat (hub_port_count hub) \<and>
           virtusb_device_get_attached_hub (Some d) s = Some (Some (h, word_of_nat i + 1))"
proof -
  show "p_peer up = None \<Longrightarrow> virtusb_device_get_attached_hub (Some d) s = Some None"
    using up by (simp add: virtusb_device_get_attached_hub_def)
  assume b: "p_peer up = Some b"
  with topo_wf_ports [OF wf] up obtain h i q where q: "b = Hub_port h i" "load_port (Hub_port h i) s = Some q"
    "p_role q = VIRTUSB_PORT_ROLE_DOWNSTREAM" "p_owner q = Some (Own_hub h)" by (rule peer_of_dev_port)
  then obtain hub where hub: "load_hub h s = Some hub" by (auto simp: load_port.simps split: bind_splits)
  have i: "i < unat (hub_port_count hub)" using wf hub q(2,3) by (rule hub_port_position)
  from up b q virtusb_hub_find_port_number_ok [OF hub i] hub i
  show "\<exists>h i hub. b = Hub_port h i \<and> load_hub h s = Some hub \<and> i < unat (hub_port_count hub) \<and>
           virtusb_device_get_attached_hub (Some d) s = Some (Some (h, word_of_nat i + 1))"
    by (auto simp: virtusb_device_get_attached_hub_def)
qed

section \<open>Attach\<close>

definition plug :: "nat \<Rightarrow> nat \<Rightarrow> nat \<Rightarrow> virtusb_port \<Rightarrow> virtusb_port \<Rightarrow> 'a topo_scheme \<Rightarrow> 'a topo_scheme" where
  "plug d h i pd pu s = put_port (Dev_port d) (pu\<lparr>p_peer := Some (Hub_port h i)\<rparr>)
     (put_port (Hub_port h i) (pd\<lparr>p_peer := Some (Dev_port d)\<rparr>) s)"

definition unplug :: "nat \<Rightarrow> nat \<Rightarrow> nat \<Rightarrow> virtusb_port \<Rightarrow> virtusb_port \<Rightarrow> 'a topo_scheme \<Rightarrow> 'a topo_scheme" where
  "unplug d h i pd pu s = put_port (Hub_port h i) (pd\<lparr>p_peer := None\<rparr>)
     (put_port (Dev_port d) (pu\<lparr>p_peer := None\<rparr>) s)"

lemma load_port_plug:
  assumes "load_port (Hub_port h i) s = Some pd" and "load_port (Dev_port d) s = Some pu"
  shows "load_port a (plug d h i pd pu s) =
           (if a = Dev_port d then Some (pu\<lparr>p_peer := Some (Hub_port h i)\<rparr>)
            else if a = Hub_port h i then Some (pd\<lparr>p_peer := Some (Dev_port d)\<rparr>) else load_port a s)"
    and "load_port a (unplug d h i pd pu s) =
           (if a = Dev_port d then Some (pu\<lparr>p_peer := None\<rparr>)
            else if a = Hub_port h i then Some (pd\<lparr>p_peer := None\<rparr>) else load_port a s)"
  using assms by (auto simp: plug_def unplug_def)

lemma port_writes_plug:
  assumes "load_port (Hub_port h i) s = Some pd" and "load_port (Dev_port d) s = Some pu"
  shows "port_writes s (plug d h i pd pu s)" and "port_writes s (unplug d h i pd pu s)"
  unfolding plug_def unplug_def using assms
  by (auto intro!: port_writes_trans [OF port_writes_put port_writes_put])

text \<open>Wiring a device to a port, or taking it off, can only change the connection of that port.\<close>

lemma port_connected_plug:
  assumes wf: "ports_wf s" and pd: "load_port (Hub_port h i) s = Some pd"
    and pu: "load_port (Dev_port d) s = Some pu" "p_peer pu = None \<or> p_peer pu = Some (Hub_port h i)"
    and ne: "\<not> (g = h \<and> k = Suc i)"
  shows "port_connected (plug d h i pd pu s) g k = port_connected s g k"
    and "port_connected (unplug d h i pd pu s) g k = port_connected s g k"
  by (rule port_connected_frame [OF wf, where X = "{Hub_port h i, Dev_port d}"];
      use pd pu ne in \<open>auto simp: load_port_plug\<close>)+

lemma cabling_of_plug:
  assumes "load_port (Hub_port h i) s = Some pd" and "load_port (Dev_port d) s = Some pu"
  shows "cabling_of (plug d h i pd pu s) = (cabling_of s)\<lparr>plugged := (plugged (cabling_of s))(d \<mapsto> (h, i))\<rparr>"
    and "cabling_of (unplug d h i pd pu s) = (cabling_of s)\<lparr>plugged := (plugged (cabling_of s))(d := None)\<rparr>"
  using assms
  by (auto simp: cabling_of_def load_port_plug fun_eq_iff split: option.split port_ptr.split)


lemma written_hub:
  assumes "port_writes s s'" and "load_hub h s = Some hub" and "hub_shape hub" and "valid_port hub n"
  obtains hub' where "load_hub h s' = Some hub'" and "hub_shape hub'" and "valid_port hub' n"
proof -
  from assms(1,2) obtain hub' where "load_hub h s' = Some hub'" "ports_written hub hub'"
    unfolding port_writes_def by (metis option.rel_cases option.inject option.distinct(1))
  moreover from this have "hub_port_count hub' = hub_port_count hub"
    by (cases hub; cases hub') (simp add: ports_written_def)
  ultimately show ?thesis
    using assms(3,4) by (intro that [of hub']) (simp_all add: ports_written_shape valid_port_def)
qed

lemma virtusb_device_attach_code:
  assumes wf: "topo_wf s" and h: "load_hub h s = Some hub" and i: "i < unat (hub_port_count hub)"
    and u: "load_port (Dev_port d) s = Some pu"
  obtains pd where "load_port (Hub_port h i) s = Some pd" and "p_role pd = VIRTUSB_PORT_ROLE_DOWNSTREAM"
    and "virtusb_device_attach (Some d) (Some (Hub_port h i)) s =
      (if p_role pu \<noteq> VIRTUSB_PORT_ROLE_UPSTREAM then Some (- EINVAL, s)
       else if p_peer pd \<noteq> None \<or> p_peer pu \<noteq> None then Some (- EBUSY, s)
       else Some (0, settle (port_connected s h (Suc i)) h (word_of_nat i + 1) (plug d h i pd pu s)))"
proof -
  note shape = topo_wf_shape [OF wf h] and ports = topo_wf_ports [OF wf]
  note pd = hub_port_alloc [OF h shape i]
  let ?pd = "hub_ports hub ! i" and ?n = "word_of_nat i + 1 :: u32"
  note n = valid_port_number [OF shape i]
  have owner: "p_owner ?pd = Some (Own_hub h)"
    using ports_wf_port [OF ports pd(1)] pd(2) by (auto simp: port_ok_def)
  have ok: "virtusb_device_attach (Some d) (Some (Hub_port h i)) s =
      (if p_role pu \<noteq> VIRTUSB_PORT_ROLE_UPSTREAM then Some (- EINVAL, s)
       else if p_peer ?pd \<noteq> None \<or> p_peer pu \<noteq> None then Some (- EBUSY, s)
       else Some (0, settle (port_connected s h (Suc i)) h ?n (plug d h i ?pd pu s)))"
  proof (cases "p_role pu = VIRTUSB_PORT_ROLE_UPSTREAM \<and> p_peer ?pd = None \<and> p_peer pu = None")
    case True
    let ?s' = "plug d h i ?pd pu s"
    have ports': "ports_wf ?s'"
      using ports_wf_attach [OF ports pd _ u] True by (simp add: plug_def)
    from port_writes_plug(1) [OF pd(1) u] h shape n(1) obtain hub' where
      hub': "load_hub h ?s' = Some hub'" "hub_shape hub'" "valid_port hub' ?n" by (rule written_hub)
    note settle = settle_code [OF ports' hub']
    have "virtusb_port_attach (Some (Hub_port h i)) (Some (Dev_port d)) s = Some (0, ?s')"
      using virtusb_port_attach_ok [OF pd _ u] True by (simp add: plug_def)
    with True pd owner n show ?thesis
      by (simp add: virtusb_device_attach_def virtusb_hub_find_port_number_ok [OF h i]
          virtusb_hub_port_is_connected_ok [OF ports h shape] settle)
  next
    case False
    with pd u owner show ?thesis
      by (auto simp: virtusb_device_attach_def virtusb_hub_find_port_number_ok [OF h i]
          virtusb_hub_port_is_connected_ok [OF ports h shape] virtusb_port_attach_def)
  qed
  show ?thesis by (rule that [OF pd ok])
qed

lemma topo_wf_plug:
  assumes wf: "topo_wf s" and h: "load_hub h s = Some hub" and i: "i < unat (hub_port_count hub)"
    and pd: "load_port (Hub_port h i) s = Some pd" "p_role pd = VIRTUSB_PORT_ROLE_DOWNSTREAM" "p_peer pd = None"
    and pu: "load_port (Dev_port d) s = Some pu" "p_role pu = VIRTUSB_PORT_ROLE_UPSTREAM" "p_peer pu = None"
  shows "topo_wf (settle (port_connected s h (Suc i)) h (word_of_nat i + 1) (plug d h i pd pu s))"
proof -
  note n = valid_port_number [OF topo_wf_shape [OF wf h] i]
  have "topo_wf (settle (port_connected s h (unat (word_of_nat i + 1 :: u32))) h (word_of_nat i + 1) (plug d h i pd pu s))"
    using ports_wf_attach [OF topo_wf_ports [OF wf] pd pu] n
    by (intro topo_wf_settle [OF wf port_writes_plug(1) [OF pd(1) pu(1)] _ h n(1)])
       (auto simp: plug_def [symmetric] intro!: port_connected_plug(1) [OF topo_wf_ports [OF wf] pd(1) pu(1)] pu(3))
  with n show ?thesis by simp
qed

lemma topo_wf_unplug:
  assumes wf: "topo_wf s" and h: "load_hub h s = Some hub" and i: "i < unat (hub_port_count hub)"
    and pd: "load_port (Hub_port h i) s = Some pd"
    and pu: "load_port (Dev_port d) s = Some pu" "p_peer pu = Some (Hub_port h i)"
  shows "topo_wf (settle (port_connected s h (Suc i)) h (word_of_nat i + 1) (unplug d h i pd pu s))"
proof -
  note n = valid_port_number [OF topo_wf_shape [OF wf h] i]
  have "topo_wf (settle (port_connected s h (unat (word_of_nat i + 1 :: u32))) h (word_of_nat i + 1) (unplug d h i pd pu s))"
    using ports_wf_detach [OF topo_wf_ports [OF wf] pu pd] n
    by (intro topo_wf_settle [OF wf port_writes_plug(2) [OF pd(1) pu(1)] _ h n(1)])
       (auto simp: unplug_def [symmetric] intro!: port_connected_plug(2) [OF topo_wf_ports [OF wf] pd(1) pu(1)] pu(2))
  with n show ?thesis by simp
qed

section \<open>Detach and the signaling switch\<close>

lemma attached_port:
  assumes wf: "topo_wf s" and pu: "load_port (Dev_port d) s = Some pu" "p_peer pu = Some b"
  obtains h i hub pd where "b = Hub_port h i" and "load_hub h s = Some hub" and "i < unat (hub_port_count hub)"
    and "virtusb_device_get_attached_hub (Some d) s = Some (Some (h, word_of_nat i + 1))"
    and "load_port (Hub_port h i) s = Some pd" and "p_peer pd = Some (Dev_port d)"
    and "p_role pd = VIRTUSB_PORT_ROLE_DOWNSTREAM" and "p_role pu = VIRTUSB_PORT_ROLE_UPSTREAM"
proof -
  from virtusb_device_get_attached_hub_ok(2) [OF wf pu] obtain h i hub where
    1: "b = Hub_port h i" "load_hub h s = Some hub" "i < unat (hub_port_count hub)"
      "virtusb_device_get_attached_hub (Some d) s = Some (Some (h, word_of_nat i + 1))" by blast
  from topo_wf_ports [OF wf] pu obtain h' i' pd where "b = Hub_port h' i'" "load_port (Hub_port h' i') s = Some pd"
    "p_peer pd = Some (Dev_port d)" "p_role pd = VIRTUSB_PORT_ROLE_DOWNSTREAM" "p_role pu = VIRTUSB_PORT_ROLE_UPSTREAM"
    by (rule peer_of_dev_port)
  with 1 show ?thesis by (intro that) simp_all
qed

lemma virtusb_device_detach_attached:
  assumes wf: "topo_wf s" and h: "load_hub h s = Some hub" and i: "i < unat (hub_port_count hub)"
    and pd: "load_port (Hub_port h i) s = Some pd"
    and pu: "load_port (Dev_port d) s = Some pu" "p_peer pu = Some (Hub_port h i)"
    and at: "virtusb_device_get_attached_hub (Some d) s = Some (Some (h, word_of_nat i + 1))"
  shows "virtusb_device_detach (Some d) s =
           Some (settle (port_connected s h (Suc i)) h (word_of_nat i + 1) (unplug d h i pd pu s))"
proof -
  note shape = topo_wf_shape [OF wf h] and ports = topo_wf_ports [OF wf]
  let ?n = "word_of_nat i + 1 :: u32" and ?s' = "unplug d h i pd pu s"
  note n = valid_port_number [OF shape i]
  have ports': "ports_wf ?s'" using ports_wf_detach [OF ports pu pd] by (simp add: unplug_def)
  from port_writes_plug(2) [OF pd pu(1)] h shape n(1) obtain hub' where
    hub': "load_hub h ?s' = Some hub'" "hub_shape hub'" "valid_port hub' ?n" by (rule written_hub)
  have off: "\<not> port_connected ?s' h (Suc i)"
    using pd pu by (simp add: port_connected.simps load_port_plug)
  have "virtusb_port_detach (Some (Dev_port d)) s = Some ?s'"
    using virtusb_port_detach_ok [OF ports pu pd] by (simp add: unplug_def)
  with n at off show ?thesis
    by (simp add: virtusb_device_detach_def virtusb_hub_port_is_connected_ok [OF ports h shape]
        virtusb_hub_mark_port_connection_change_ok [OF ports' hub'] settle_def)
qed

lemma virtusb_device_detach_free:
  assumes "topo_wf s" and "load_port (Dev_port d) s = Some pu" and "p_peer pu = None"
  shows "virtusb_device_detach (Some d) s = Some s"
  using virtusb_device_get_attached_hub_ok(1) [OF assms] assms
  by (simp add: virtusb_device_detach_def virtusb_port_detach_none)

lemma virtusb_device_set_connection_signaling_code:
  assumes wf: "topo_wf s" and h: "load_hub h s = Some hub" and i: "i < unat (hub_port_count hub)"
    and pu: "load_port (Dev_port d) s = Some pu" "p_peer pu = Some (Hub_port h i)"
      "p_role pu = VIRTUSB_PORT_ROLE_UPSTREAM"
    and at: "virtusb_device_get_attached_hub (Some d) s = Some (Some (h, word_of_nat i + 1))"
  shows "virtusb_device_set_connection_signaling (Some d) enabled s =
           Some (0, settle (port_connected s h (Suc i)) h (word_of_nat i + 1)
                      (put_port (Dev_port d) (pu\<lparr>p_state0 := enabled\<rparr>) s))"
proof -
  note shape = topo_wf_shape [OF wf h] and ports = topo_wf_ports [OF wf]
  let ?n = "word_of_nat i + 1 :: u32" and ?s' = "put_port (Dev_port d) (pu\<lparr>p_state0 := enabled\<rparr>) s"
  note n = valid_port_number [OF shape i]
  have facts: "ports_wf ?s'" "port_writes s ?s'" using put_state_facts(1,2) [OF wf pu(1)] pu(3) by simp_all
  from facts(2) h shape n(1) obtain hub' where
    hub': "load_hub h ?s' = Some hub'" "hub_shape hub'" "valid_port hub' ?n" by (rule written_hub)
  note settle = settle_code [OF facts(1) hub']
  from n at pu show ?thesis
    by (simp add: virtusb_device_set_connection_signaling_def virtusb_hub_port_is_connected_ok [OF ports h shape]
        virtusb_port_set_connection_signaling_ok settle)
qed

lemma topo_wf_signal:
  assumes wf: "topo_wf s" and pu: "load_port (Dev_port d) s = Some pu" "p_role pu = VIRTUSB_PORT_ROLE_UPSTREAM"
  shows "p_peer pu = None \<Longrightarrow> topo_wf (put_port (Dev_port d) (pu\<lparr>p_state0 := e\<rparr>) s)"
    and "p_peer pu = Some (Hub_port h i) \<Longrightarrow> load_hub h s = Some hub \<Longrightarrow> i < unat (hub_port_count hub) \<Longrightarrow>
      topo_wf (settle (port_connected s h (Suc i)) h (word_of_nat i + 1)
        (put_port (Dev_port d) (pu\<lparr>p_state0 := e\<rparr>) s))"
proof -
  let ?s' = "put_port (Dev_port d) (pu\<lparr>p_state0 := e\<rparr>) s"
  have facts: "ports_wf ?s'" "port_writes s ?s'" using put_state_facts(1,2) [OF wf pu(1)] pu(2) by simp_all
  have frame: "port_connected ?s' g k = port_connected s g k"
    if "\<And>j. k = Suc j \<Longrightarrow> p_peer pu \<noteq> Some (Hub_port g j)" for g k
    by (rule port_connected_frame [OF topo_wf_ports [OF wf], where X = "{Dev_port d}"]) (use that pu in auto)
  show "topo_wf ?s'" if "p_peer pu = None"
    by (rule topo_wf_port_writes [OF wf facts(2,1)]) (use frame that in auto)
  assume p: "p_peer pu = Some (Hub_port h i)" and h: "load_hub h s = Some hub" and i: "i < unat (hub_port_count hub)"
  note n = valid_port_number [OF topo_wf_shape [OF wf h] i]
  have "topo_wf (settle (port_connected s h (unat (word_of_nat i + 1 :: u32))) h (word_of_nat i + 1) ?s')"
    by (rule topo_wf_settle [OF wf facts(2,1) h n(1)]) (use frame p n in auto)
  with n show "topo_wf (settle (port_connected s h (Suc i)) h (word_of_nat i + 1) ?s')" by simp
qed

lemma cabling_of_signal:
  assumes "load_port (Dev_port d) s = Some pu"
  shows "cabling_of (put_port (Dev_port d) (pu\<lparr>p_state0 := e\<rparr>) s) =
           (cabling_of s)\<lparr>signaling := (signaling (cabling_of s))(d := e)\<rparr>"
  using assms by (auto simp: cabling_of_def fun_eq_iff split: option.split port_ptr.split)

section \<open>Reporting to the host\<close>

text \<open>
  No recorded change is lost between two states, every one that is new came with a request to the
  host to poll, and every connection that differs is pending as C_PORT_CONNECTION in the later one.
\<close>

definition changes_reported :: "'a topo_scheme \<Rightarrow> 'a topo_scheme \<Rightarrow> bool" where
  "changes_reported s s' \<longleftrightarrow>
     (\<exists>new. events s' = new @ events s \<and>
        (\<forall>g hub. load_hub g s = Some hub \<longrightarrow>
           (\<exists>hub'. load_hub g s' = Some hub' \<and> notification hub' = notification hub \<and>
              (\<forall>k. bit (chg_connected (hub_usb_change hub)) k \<longrightarrow> bit (chg_connected (hub_usb_change hub')) k) \<and>
              (\<forall>k. bit (chg_connected (hub_usb_change hub')) k \<longrightarrow>
                 bit (chg_connected (hub_usb_change hub)) k \<or> set (notification hub) \<subseteq> set new) \<and>
              (\<forall>k. port_connected s' g k \<noteq> port_connected s g k \<longrightarrow>
                 bit (chg_connected (hub_usb_change hub')) k))))"

lemma changes_reported_same:
  assumes "events s' = events s" and "\<And>g. load_hub g s' = load_hub g s"
    and "\<And>g k. port_connected s' g k = port_connected s g k"
  shows "changes_reported s s'"
  using assms by (simp add: changes_reported_def)

lemma changes_reported_refl [simp]: "changes_reported s s"
  by (simp add: changes_reported_same)

lemma changes_reported_hub:
  assumes "changes_reported s s'" and "load_hub g s = Some hub"
  obtains hub' new where "load_hub g s' = Some hub'" and "events s' = new @ events s"
    and "notification hub' = notification hub"
    and "\<And>k. bit (chg_connected (hub_usb_change hub)) k \<Longrightarrow> bit (chg_connected (hub_usb_change hub')) k"
    and "\<And>k. bit (chg_connected (hub_usb_change hub')) k \<Longrightarrow>
      bit (chg_connected (hub_usb_change hub)) k \<or> set (notification hub) \<subseteq> set new"
    and "\<And>k. port_connected s' g k \<noteq> port_connected s g k \<Longrightarrow> bit (chg_connected (hub_usb_change hub')) k"
  using assms unfolding changes_reported_def by blast

lemma changes_reported_trans:
  assumes "changes_reported s s1" and "changes_reported s1 s2"
  shows "changes_reported s s2"
proof -
  from assms obtain new1 new2 where ev: "events s1 = new1 @ events s" "events s2 = new2 @ events s1"
    unfolding changes_reported_def by blast
  show ?thesis
    unfolding changes_reported_def
  proof (intro exI [of _ "new2 @ new1"] conjI allI impI)
    show "events s2 = (new2 @ new1) @ events s" by (simp add: ev)
    fix g hub assume "load_hub g s = Some hub"
    with assms(1) obtain hub1 n1 where 1: "load_hub g s1 = Some hub1" "events s1 = n1 @ events s"
      "notification hub1 = notification hub"
      "\<And>k. bit (chg_connected (hub_usb_change hub)) k \<Longrightarrow> bit (chg_connected (hub_usb_change hub1)) k"
      "\<And>k. bit (chg_connected (hub_usb_change hub1)) k \<Longrightarrow>
        bit (chg_connected (hub_usb_change hub)) k \<or> set (notification hub) \<subseteq> set n1"
      "\<And>k. port_connected s1 g k \<noteq> port_connected s g k \<Longrightarrow> bit (chg_connected (hub_usb_change hub1)) k"
      by (rule changes_reported_hub) blast
    from assms(2) 1(1) obtain hub2 n2 where 2: "load_hub g s2 = Some hub2" "events s2 = n2 @ events s1"
      "notification hub2 = notification hub1"
      "\<And>k. bit (chg_connected (hub_usb_change hub1)) k \<Longrightarrow> bit (chg_connected (hub_usb_change hub2)) k"
      "\<And>k. bit (chg_connected (hub_usb_change hub2)) k \<Longrightarrow>
        bit (chg_connected (hub_usb_change hub1)) k \<or> set (notification hub1) \<subseteq> set n2"
      "\<And>k. port_connected s2 g k \<noteq> port_connected s1 g k \<Longrightarrow> bit (chg_connected (hub_usb_change hub2)) k"
      by (rule changes_reported_hub) blast
    from 1(2) 2(2) ev have n: "n1 = new1" "n2 = new2" by simp_all
    have "bit (chg_connected (hub_usb_change hub2)) k" if "port_connected s2 g k \<noteq> port_connected s g k" for k
      using that 1(6) [of k] 2(4,6) [of k] by (cases "port_connected s1 g k = port_connected s g k") simp_all
    moreover have "bit (chg_connected (hub_usb_change hub)) k \<or> set (notification hub) \<subseteq> set (new2 @ new1)"
      if "bit (chg_connected (hub_usb_change hub2)) k" for k
      using 1(5) [of k] 2(5) [OF that] 1(3) n by auto
    ultimately show "\<exists>hub'. load_hub g s2 = Some hub' \<and> notification hub' = notification hub \<and>
        (\<forall>k. bit (chg_connected (hub_usb_change hub)) k \<longrightarrow> bit (chg_connected (hub_usb_change hub')) k) \<and>
        (\<forall>k. bit (chg_connected (hub_usb_change hub')) k \<longrightarrow>
           bit (chg_connected (hub_usb_change hub)) k \<or> set (notification hub) \<subseteq> set (new2 @ new1)) \<and>
        (\<forall>k. port_connected s2 g k \<noteq> port_connected s g k \<longrightarrow> bit (chg_connected (hub_usb_change hub')) k)"
      using 1(3,4) 2(1,3,4) by (intro exI [of _ hub2]) simp
  qed
qed

lemma notification_written: "ports_written hub hub' \<Longrightarrow> notification hub' = notification hub"
  by (cases hub; cases hub') (simp add: ports_written_def notification_def)

lemma notification_mark: "notification (mark_hub c n hub) = notification hub"
proof -
  have "hub_status_changed (mark_hub c n hub) = hub_status_changed hub"
    "hub_status_changed_context (mark_hub c n hub) = hub_status_changed_context hub"
    by (simp_all add: mark_hub_def with_speed_def Let_def)
  then show ?thesis by (simp add: notification_def)
qed

lemma change_written: "ports_written hub hub' \<Longrightarrow> hub_usb_change hub' = hub_usb_change hub"
  by (cases hub; cases hub') (simp add: ports_written_def)

lemma changes_reported_settle:
  assumes wf: "topo_wf s" and w: "port_writes s s'" and ev: "events s' = events s"
    and h: "load_hub h s = Some hub" and n: "valid_port hub n"
    and others: "\<And>g k. \<not> (g = h \<and> k = unat n) \<Longrightarrow> port_connected s' g k = port_connected s g k"
  shows "changes_reported s (settle (port_connected s h (unat n)) h n s')"
proof (cases "port_connected s' h (unat n) = port_connected s h (unat n)")
  case True
  have "port_connected s' g k = port_connected s g k" for g k
    using True others [of g k] by (cases "g = h \<and> k = unat n") auto
  moreover have "\<exists>hub'. load_hub g s' = Some hub' \<and> notification hub' = notification hub0 \<and>
      hub_usb_change hub' = hub_usb_change hub0" if "load_hub g s = Some hub0" for g hub0
    using w that notification_written change_written unfolding port_writes_def
    by (metis option.rel_cases option.inject option.distinct(1))
  ultimately show ?thesis using True ev by (fastforce simp: changes_reported_def settle_def)
next
  case False
  then have t: "settle (port_connected s h (unat n)) h n s' = marked h n s'" by (simp add: settle_def)
  have written: "\<exists>hub'. load_hub g s' = Some hub' \<and> ports_written hub0 hub'" if "load_hub g s = Some hub0" for g hub0
    using w that unfolding port_writes_def by (metis option.rel_cases option.inject option.distinct(1))
  from written [OF h] obtain hub' where hub': "load_hub h s' = Some hub'" "ports_written hub hub'" by blast
  have n32: "unat n < 32" using topo_wf_shape [OF wf h] n by (rule valid_portD)
  let ?new = "if bit (chg_connected (hub_usb_change hub)) (unat n) then [] else notification hub"
  let ?m = "mark_hub (port_connected s' h (unat n)) n hub'"
  have ev': "events (marked h n s') = ?new @ events s"
    using hub' by (simp add: marked_def ev notification_written change_written)
  have bits: "bit (chg_connected (hub_usb_change ?m)) k \<longleftrightarrow> bit (chg_connected (hub_usb_change hub)) k \<or> k = unat n" for k
    using n32 by (simp add: mark_hub_def Let_def bit_BITs bit_simps change_written [OF hub'(2)]) auto
  show ?thesis
    unfolding t changes_reported_def
  proof (intro exI [of _ ?new] conjI allI impI)
    fix g hub0 assume g: "load_hub g s = Some hub0"
    show "\<exists>hub'. load_hub g (marked h n s') = Some hub' \<and> notification hub' = notification hub0 \<and>
        (\<forall>k. bit (chg_connected (hub_usb_change hub0)) k \<longrightarrow> bit (chg_connected (hub_usb_change hub')) k) \<and>
        (\<forall>k. bit (chg_connected (hub_usb_change hub')) k \<longrightarrow>
           bit (chg_connected (hub_usb_change hub0)) k \<or> set (notification hub0) \<subseteq> set ?new) \<and>
        (\<forall>k. port_connected (marked h n s') g k \<noteq> port_connected s g k \<longrightarrow>
           bit (chg_connected (hub_usb_change hub')) k)"
    proof (cases "g = h")
      case True
      with g h have "hub0 = hub" by simp
      moreover have "notification ?m = notification hub"
        using notification_written [OF hub'(2)] by (simp add: notification_mark)
      ultimately show ?thesis
        using True hub' bits others [of h] by (auto simp: load_hub_marked)
    next
      case False
      from written [OF g] obtain hub1 where "load_hub g s' = Some hub1" "ports_written hub0 hub1" by blast
      with False others [of g] show ?thesis
        by (auto simp: load_hub_marked notification_written change_written)
    qed
  qed (rule ev')
qed

text \<open>What an operation on the topology owes the host: its changes reported, its hubs kept.\<close>

definition hubs_report :: "'a topo_scheme \<Rightarrow> 'a topo_scheme \<Rightarrow> bool" where
  "hubs_report s s' \<longleftrightarrow> changes_reported s s' \<and> (\<forall>g. rel_option same_layout (load_hub g s) (load_hub g s'))"

lemma hubs_report_refl [simp]: "hubs_report s s"
  by (simp add: hubs_report_def)

lemma hubs_reportI: "changes_reported s s' \<Longrightarrow> layout s s' \<Longrightarrow> hubs_report s s'"
  by (simp add: hubs_report_def layout_def)

lemma hubs_report_trans:
  assumes "hubs_report s s1" and "hubs_report s1 s2"
  shows "hubs_report s s2"
proof -
  have "rel_option same_layout (load_hub g s) (load_hub g s2)" for g
    using assms by (cases "load_hub g s"; cases "load_hub g s1"; cases "load_hub g s2")
      (auto simp: hubs_report_def same_layout_def dest!: spec [of _ g])
  with assms show ?thesis by (auto simp: hubs_report_def intro: changes_reported_trans)
qed

text \<open>A device that is plugged nowhere may go.\<close>

lemma hubs_report_unplugged:
  assumes wf: "topo_wf s" and free: "\<And>p. load_port (Dev_port d) s = Some p \<Longrightarrow> p_peer p = None"
    and same: "\<And>a. a \<noteq> Dev_port d \<Longrightarrow> load_port a s' = load_port a s"
    and hubs: "\<And>g. load_hub g s' = load_hub g s" and ev: "events s' = events s"
  shows "hubs_report s s'"
proof -
  have "port_connected s' g k = port_connected s g k" for g k
    by (rule port_connected_frame [OF topo_wf_ports [OF wf], where X = "{Dev_port d}"]) (use free same in auto)
  with hubs ev have "changes_reported s s'" by (intro changes_reported_same)
  with hubs show ?thesis by (simp add: hubs_report_def)
qed

lemma hubs_report_cong:
  assumes "\<And>a. load_port a s1 = load_port a s" "\<And>h. load_hub h s1 = load_hub h s" "events s1 = events s"
    and "\<And>a. load_port a s2 = load_port a s'" "\<And>h. load_hub h s2 = load_hub h s'" "events s2 = events s'"
  shows "hubs_report s1 s2 = hubs_report s s'"
  using port_connected_cong [OF assms(1)] port_connected_cong [OF assms(4)] assms
  by (simp add: hubs_report_def changes_reported_def)

text \<open>Switching the power of a port, or of all of them one by one.\<close>

lemma hubs_report_powered_port:
  assumes wf: "topo_wf s" and h: "load_hub h s = Some hub" and n: "valid_port hub n"
  shows "hubs_report s (powered_port powered h n s)"
proof -
  note shape = topo_wf_shape [OF wf h]
  from shape n obtain i where i: "unat n = Suc i" "i < unat (hub_port_count hub)" "unat (n - 1) = i"
    by (rule valid_portD)
  note p = hub_port_alloc [OF h shape i(2)]
  let ?s' = "put_port (Hub_port h i) ((hub_ports hub ! i)\<lparr>p_state0 := powered\<rparr>) s"
  from p have w: "port_writes s ?s'" using put_state_facts [OF wf p(1)] by simp
  have eq: "powered_port powered h n s = settle (port_connected s h (unat n)) h n ?s'"
    using i p by (simp add: powered_port_def)
  have "port_connected ?s' g k = port_connected s g k" if "\<not> (g = h \<and> k = unat n)" for g k
    by (rule port_connected_frame [OF topo_wf_ports [OF wf], where X = "{Hub_port h i}"]) (use that i in auto)
  then have "changes_reported s (powered_port powered h n s)"
    unfolding eq by (intro changes_reported_settle [OF wf w _ h n]) simp_all
  with powered_port_facts(2) [OF wf h n] show ?thesis by (intro hubs_reportI)
qed

lemma hubs_report_power:
  assumes "topo_wf s" and "load_hub h s = Some hub" and "\<forall>n \<in> set ns. valid_port hub n"
  shows "hubs_report s (fold (powered_port powered h) ns s)"
  using assms
proof (induction ns arbitrary: s hub)
  case (Cons n ns)
  then have n: "valid_port hub n" by simp
  from Cons.prems(1,2) n obtain hub' where
    hub': "load_hub h (powered_port powered h n s) = Some hub'" "same_layout hub hub'"
    by (rule powered_port_hub)
  with Cons.prems(3) have "\<forall>m \<in> set ns. valid_port hub' m" by (simp add: valid_port_def same_layout_def)
  from Cons.IH [OF powered_port_facts(1) [OF Cons.prems(1,2) n] hub'(1) this]
    hubs_report_trans [OF hubs_report_powered_port [OF Cons.prems(1,2) n]]
  show ?case by simp
qed simp

lemma virtusb_hub_set_port_power_reported:
  assumes wf: "topo_wf s" and h: "load_hub h s = Some hub"
    and run: "virtusb_hub_set_port_power (Some h) n powered s = Some (ret, s')"
  shows "hubs_report s s'"
proof -
  have v: "\<forall>n \<in> set (hub_port_numbers hub). valid_port hub n"
    by (simp add: valid_port_image [OF topo_wf_shape [OF wf h]])
  show ?thesis
    using run hubs_report_powered_port [OF wf h] hubs_report_power [OF wf h v]
    by (auto simp: virtusb_hub_set_port_power_ok [OF wf h] virtusb_hub_set_all_ports_power_def h
        hub_set_ports_power_ok [OF wf h v] split: if_splits)
qed

section \<open>The topology operations refine the cabling\<close>

lemma port_busy_iff:
  assumes wf: "ports_wf s" and pd: "load_port (Hub_port h i) s = Some pd"
  shows "p_peer pd \<noteq> None \<longleftrightarrow> (\<exists>e. plugged (cabling_of s) e = Some (h, i))"
proof
  assume "p_peer pd \<noteq> None"
  then obtain b where "p_peer pd = Some b" by blast
  with wf pd obtain e q where "load_port (Dev_port e) s = Some q" "p_peer q = Some (Hub_port h i)"
    by (rule peer_of_hub_port)
  then show "\<exists>e. plugged (cabling_of s) e = Some (h, i)" by (auto simp: plugged_eq)
next
  assume "\<exists>e. plugged (cabling_of s) e = Some (h, i)"
  then obtain e q where "load_port (Dev_port e) s = Some q" "p_peer q = Some (Hub_port h i)"
    by (auto simp: plugged_eq)
  with wf pd show "p_peer pd \<noteq> None" by (auto elim: ports_wf_peer)
qed

lemma device_busy_iff:
  assumes wf: "ports_wf s" and pu: "load_port (Dev_port d) s = Some pu"
  shows "p_peer pu \<noteq> None \<longleftrightarrow> plugged (cabling_of s) d \<noteq> None"
proof (cases "p_peer pu")
  case (Some b)
  with wf pu obtain h i where "b = Hub_port h i" by (rule peer_of_dev_port)
  with Some pu show ?thesis by (auto simp: cabling_of_def)
qed (use pu in \<open>simp add: cabling_of_def\<close>)

lemma events_plug [simp]:
  "events (plug d h i pd pu s) = events s" "events (unplug d h i pd pu s) = events s"
  by (simp_all add: plug_def unplug_def)

lemma virtusb_device_attach_refines:
  assumes "topo_wf s" and "load_hub h s = Some hub" and "i < VIRTUSB_MAX_HUB_PORTS"
    and "load_port (Dev_port d) s = Some pu" and "p_role pu = VIRTUSB_PORT_ROLE_UPSTREAM"
  shows "runs (virtusb_device_attach (Some d) (Some (Hub_port h i)) s) (\<lambda>(ret, s').
           topo_wf s' \<and> layout s s' \<and>
           (\<forall>e. e \<noteq> d \<longrightarrow> load_port (Dev_port e) s' = load_port (Dev_port e) s) \<and>
           (\<exists>q. load_port (Dev_port d) s' = Some q \<and> p_role q = p_role pu) \<and>
           (if i \<ge> unat (hub_port_count hub) then ret = - EINVAL \<and> s' = s
            else if plugged (cabling_of s) d \<noteq> None \<or> (\<exists>e. plugged (cabling_of s) e = Some (h, i))
            then ret = - EBUSY \<and> s' = s
            else ret = 0 \<and> changes_reported s s' \<and>
                 cabling_of s' = (cabling_of s)\<lparr>plugged := (plugged (cabling_of s))(d \<mapsto> (h, i))\<rparr>))"
proof (cases "i < unat (hub_port_count hub)")
  case i: True
  note ports = topo_wf_ports [OF assms(1)]
  from assms(1,2) i assms(4) obtain pd where pd: "load_port (Hub_port h i) s = Some pd"
      "p_role pd = VIRTUSB_PORT_ROLE_DOWNSTREAM" and
    code: "virtusb_device_attach (Some d) (Some (Hub_port h i)) s =
      (if p_role pu \<noteq> VIRTUSB_PORT_ROLE_UPSTREAM then Some (- EINVAL, s)
       else if p_peer pd \<noteq> None \<or> p_peer pu \<noteq> None then Some (- EBUSY, s)
       else Some (0, settle (port_connected s h (Suc i)) h (word_of_nat i + 1) (plug d h i pd pu s)))"
    by (rule virtusb_device_attach_code)
  note busy = port_busy_iff [OF ports pd(1)] device_busy_iff [OF ports assms(4)]
  show ?thesis
  proof (cases "p_peer pd \<noteq> None \<or> p_peer pu \<noteq> None")
    case True
    with assms i busy show ?thesis by (auto simp: code)
  next
    case False
    let ?s' = "plug d h i pd pu s" and ?n = "word_of_nat i + 1 :: u32"
    let ?t = "settle (port_connected s h (Suc i)) h ?n ?s'"
    note n = valid_port_number [OF topo_wf_shape [OF assms(1,2)] i]
    note w = port_writes_plug(1) [OF pd(1) assms(4)]
    have "topo_wf ?t" using topo_wf_plug [OF assms(1,2) i pd _ assms(4,5)] False by simp
    moreover have "layout s ?t"
      using w unfolding port_writes_def by (blast intro: layout_trans layout_settle)
    moreover have "changes_reported s (settle (port_connected s h (unat ?n)) h ?n ?s')"
      using False n port_connected_plug(1) [OF ports pd(1) assms(4)]
      by (intro changes_reported_settle [OF assms(1) w _ assms(2) n(1)]) auto
    moreover have "cabling_of ?t = (cabling_of s)\<lparr>plugged := (plugged (cabling_of s))(d \<mapsto> (h, i))\<rparr>"
      using cabling_of_plug(1) [OF pd(1) assms(4)] by simp
    ultimately show ?thesis
      using False i assms(5) busy n load_port_plug(1) [OF pd(1) assms(4)] by (simp add: code)
  qed
next
  case False
  with topo_wf_shape [OF assms(1,2)] assms(2,3)
  have p: "load_port (Hub_port h i) s = Some (hub_ports hub ! i)"
    "p_role (hub_ports hub ! i) = VIRTUSB_PORT_ROLE_INVALID"
    by (simp_all add: load_port.simps hub_shape_def)
  with ports_wf_port [OF topo_wf_ports [OF assms(1)]] have "hub_ports hub ! i = zero_port"
    by (fastforce simp: port_ok_def)
  with p False assms(1,4) show ?thesis by (simp add: virtusb_device_attach_def)
qed

text \<open>C1: \<open>virtusb_device_attach\<close> refines the abstract topology: plugging a free device into a
  free port is the map update \<open>plugged(d \<mapsto> port)\<close> and reports the connection it makes to the
  host; a taken port or device gives -EBUSY, a port the hub does not have -EINVAL, both without
  effect.\<close>

theorem device_attach_refines:
  assumes "topo_wf s" and "load_hub h s = Some hub" and "i < VIRTUSB_MAX_HUB_PORTS"
    and "load_port (Dev_port d) s = Some pu" and "p_role pu = VIRTUSB_PORT_ROLE_UPSTREAM"
  shows "runs (virtusb_device_attach (Some d) (Some (Hub_port h i)) s) (\<lambda>(ret, s').
           topo_wf s' \<and> layout s s' \<and>
           (if i \<ge> unat (hub_port_count hub) then ret = - EINVAL \<and> s' = s
            else if plugged (cabling_of s) d \<noteq> None \<or> (\<exists>e. plugged (cabling_of s) e = Some (h, i))
            then ret = - EBUSY \<and> s' = s
            else ret = 0 \<and> changes_reported s s' \<and>
                 cabling_of s' = (cabling_of s)\<lparr>plugged := (plugged (cabling_of s))(d \<mapsto> (h, i))\<rparr>))"
  by (rule runs_mono [OF virtusb_device_attach_refines [OF assms]]) (simp only: split_paired_all split_conv simp_thms, elim conjE, assumption)

lemma example_loads:
  "load_port (Dev_port 1) example_topo = Some example_upstream"
  "load_port (Dev_port 2) example_topo = Some example_unplugged"
  "load_port (Hub_port 0 0) example_topo = Some (hub_ports example_hub ! 0)"
  by (simp_all add: load_port.simps example_topo_def load_hub_def example_ports)

lemma example_plugged:
  "plugged (cabling_of example_topo) = [1 \<mapsto> (0, 0)]"
  by (auto simp: fun_eq_iff cabling_of_def load_port.simps example_topo_def example_upstream_def
      example_unplugged_def)

theorem device_attach_refines_witness:
  "runs (virtusb_device_attach (Some 2) (Some (Hub_port 0 1)) example_topo) (\<lambda>(ret, s').
     ret = 0 \<and> plugged (cabling_of s') = [1 \<mapsto> (0, 0), 2 \<mapsto> (0, 1)])"
proof -
  have "p_role example_unplugged = VIRTUSB_PORT_ROLE_UPSTREAM"
    by (simp add: example_unplugged_def example_upstream_def)
  from device_attach_refines [OF topo_wf_example load_hub_example _ example_loads(2) this, of 1]
  show ?thesis
    by (rule runs_mono) (auto simp: example_hub_sel example_plugged split: if_splits)
qed

lemma virtusb_device_detach_refines:
  assumes wf: "topo_wf s" and pu: "load_port (Dev_port d) s = Some pu"
  shows "runs (virtusb_device_detach (Some d) s) (\<lambda>s'.
           topo_wf s' \<and> layout s s' \<and> changes_reported s s' \<and> load_port (Dev_port d) s' = Some (pu\<lparr>p_peer := None\<rparr>) \<and>
           (\<forall>e. e \<noteq> d \<longrightarrow> load_port (Dev_port e) s' = load_port (Dev_port e) s) \<and>
           cabling_of s' = (cabling_of s)\<lparr>plugged := (plugged (cabling_of s))(d := None)\<rparr>)"
proof (cases "p_peer pu")
  case None
  then have "pu\<lparr>p_peer := None\<rparr> = pu" by simp
  moreover from None pu have "(plugged (cabling_of s))(d := None) = plugged (cabling_of s)"
    by (auto simp: cabling_of_def fun_eq_iff)
  ultimately show ?thesis using wf pu by (simp add: virtusb_device_detach_free [OF wf pu None])
next
  case (Some b)
  from wf pu Some obtain h i hub pd where b: "b = Hub_port h i"
    and h: "load_hub h s = Some hub" and i: "i < unat (hub_port_count hub)"
    and at: "virtusb_device_get_attached_hub (Some d) s = Some (Some (h, word_of_nat i + 1))"
    and pd: "load_port (Hub_port h i) s = Some pd" by (rule attached_port)
  from Some b have peer: "p_peer pu = Some (Hub_port h i)" by simp
  let ?s' = "unplug d h i pd pu s" and ?n = "word_of_nat i + 1 :: u32"
  let ?t = "settle (port_connected s h (Suc i)) h ?n ?s'"
  note n = valid_port_number [OF topo_wf_shape [OF wf h] i]
  note w = port_writes_plug(2) [OF pd pu]
  have "topo_wf ?t" using wf h i pd pu peer by (rule topo_wf_unplug)
  moreover have "layout s ?t"
    using w unfolding port_writes_def by (blast intro: layout_trans layout_settle)
  moreover have "changes_reported s (settle (port_connected s h (unat ?n)) h ?n ?s')"
    using n peer port_connected_plug(2) [OF topo_wf_ports [OF wf] pd pu]
    by (intro changes_reported_settle [OF wf w _ h n(1)]) auto
  moreover have "cabling_of ?t = (cabling_of s)\<lparr>plugged := (plugged (cabling_of s))(d := None)\<rparr>"
    using cabling_of_plug(2) [OF pd pu] by simp
  ultimately show ?thesis
    using n load_port_plug(2) [OF pd pu]
    by (simp add: virtusb_device_detach_attached [OF wf h i pd pu peer at])
qed

text \<open>C2: \<open>virtusb_device_detach\<close> refines the removal of the device from the abstract topology,
  reports the connection this ends to the host, and leaves every other device as it was.\<close>

theorem device_detach_refines:
  assumes "topo_wf s" and "load_port (Dev_port d) s = Some pu"
  shows "runs (virtusb_device_detach (Some d) s) (\<lambda>s'.
           topo_wf s' \<and> layout s s' \<and> changes_reported s s' \<and>
           (\<forall>e. e \<noteq> d \<longrightarrow> load_port (Dev_port e) s' = load_port (Dev_port e) s) \<and>
           cabling_of s' = (cabling_of s)\<lparr>plugged := (plugged (cabling_of s))(d := None)\<rparr>)"
  using virtusb_device_detach_refines [OF assms] by (rule runs_mono) simp

theorem device_detach_refines_witness:
  "runs (virtusb_device_detach (Some 1) example_topo) (\<lambda>s'.
     topo_wf s' \<and> plugged (cabling_of s') = Map.empty)"
  using device_detach_refines [OF topo_wf_example example_loads(1)]
  by (rule runs_mono) (simp add: example_plugged)

lemma virtusb_device_set_connection_signaling_refines:
  assumes wf: "topo_wf s" and pu: "load_port (Dev_port d) s = Some pu" "p_role pu = VIRTUSB_PORT_ROLE_UPSTREAM"
  shows "runs (virtusb_device_set_connection_signaling (Some d) enabled s) (\<lambda>(ret, s').
           ret = 0 \<and> topo_wf s' \<and> layout s s' \<and> changes_reported s s' \<and>
           load_port (Dev_port d) s' = Some (pu\<lparr>p_state0 := enabled\<rparr>) \<and>
           (\<forall>a. a \<noteq> Dev_port d \<longrightarrow> load_port a s' = load_port a s) \<and>
           cabling_of s' = (cabling_of s)\<lparr>signaling := (signaling (cabling_of s))(d := enabled)\<rparr>)"
proof -
  let ?s' = "put_port (Dev_port d) (pu\<lparr>p_state0 := enabled\<rparr>) s"
  have facts: "ports_wf ?s'" "port_writes s ?s'" using put_state_facts(1,2) [OF wf pu(1)] pu(2) by simp_all
  have frame: "port_connected ?s' g k = port_connected s g k"
    if "\<And>j. k = Suc j \<Longrightarrow> p_peer pu \<noteq> Some (Hub_port g j)" for g k
    by (rule port_connected_frame [OF topo_wf_ports [OF wf], where X = "{Dev_port d}"]) (use that pu in auto)
  show ?thesis
  proof (cases "p_peer pu")
    case None
    then have "port_connected ?s' g k = port_connected s g k" for g k by (intro frame) simp
    then have "changes_reported s ?s'" by (simp add: changes_reported_def)
    moreover have "layout s ?s'" using facts(2) by (simp add: port_writes_def)
    ultimately show ?thesis
      using topo_wf_signal(1) [OF wf pu None] cabling_of_signal [OF pu(1)] pu
        virtusb_device_get_attached_hub_ok(1) [OF wf pu(1) None]
      by (simp add: virtusb_device_set_connection_signaling_def virtusb_port_set_connection_signaling_ok)
  next
    case (Some b)
    from wf pu(1) Some obtain h i hub where b: "b = Hub_port h i"
      and h: "load_hub h s = Some hub" and i: "i < unat (hub_port_count hub)"
      and at: "virtusb_device_get_attached_hub (Some d) s = Some (Some (h, word_of_nat i + 1))"
      by (rule attached_port)
    from Some b have peer: "p_peer pu = Some (Hub_port h i)" by simp
    let ?n = "word_of_nat i + 1 :: u32"
    let ?t = "settle (port_connected s h (Suc i)) h ?n ?s'"
    note n = valid_port_number [OF topo_wf_shape [OF wf h] i]
    have "topo_wf ?t" using topo_wf_signal(2) [OF wf pu peer h i] .
    moreover have "layout s ?t"
      using facts(2) unfolding port_writes_def by (blast intro: layout_trans layout_settle)
    moreover have "changes_reported s (settle (port_connected s h (unat ?n)) h ?n ?s')"
      using n peer frame by (intro changes_reported_settle [OF wf facts(2) _ h n(1)]) auto
    ultimately show ?thesis
      using n cabling_of_signal [OF pu(1)] pu
      by (simp add: virtusb_device_set_connection_signaling_code [OF wf h i pu(1) peer pu(2) at])
  qed
qed

text \<open>C3: the connection switch of a device changes its signaling and nothing else of the
  topology; a connection it makes or breaks is reported to the host.\<close>

theorem device_signaling_refines:
  assumes "topo_wf s" and "load_port (Dev_port d) s = Some pu" and "p_role pu = VIRTUSB_PORT_ROLE_UPSTREAM"
  shows "runs (virtusb_device_set_connection_signaling (Some d) enabled s) (\<lambda>(ret, s').
           ret = 0 \<and> topo_wf s' \<and> layout s s' \<and> changes_reported s s' \<and>
           (\<forall>a. a \<noteq> Dev_port d \<longrightarrow> load_port a s' = load_port a s) \<and>
           cabling_of s' = (cabling_of s)\<lparr>signaling := (signaling (cabling_of s))(d := enabled)\<rparr>)"
  using virtusb_device_set_connection_signaling_refines [OF assms] by (rule runs_mono) auto

theorem device_signaling_refines_witness:
  "runs (virtusb_device_set_connection_signaling (Some 1) False example_topo) (\<lambda>(ret, s').
     ret = 0 \<and> \<not> port_connected s' 0 1 \<and> changes_reported example_topo s')"
proof -
  have r: "p_role example_upstream = VIRTUSB_PORT_ROLE_UPSTREAM" by (simp add: example_upstream_def)
  have off: "\<not> port_connected s' 0 1"
    if "topo_wf s'" "cabling_of s' = (cabling_of example_topo)\<lparr>signaling := (signaling (cabling_of example_topo))(1 := False)\<rparr>"
    for s' :: topo
    using port_connected_cabling [OF topo_wf_ports [OF that(1)], of 0 0] that(2)
    by (auto simp: example_plugged split: if_splits)
  from device_signaling_refines [OF topo_wf_example example_loads(1) r, of False]
  show ?thesis by (rule runs_mono) (use off in auto)
qed

text \<open>Plugging a free device in and taking it off again leaves every port of the topology as
  it was.\<close>

theorem device_attach_detach:
  assumes "topo_wf s" and "load_hub h s = Some hub" and "i < unat (hub_port_count hub)"
    and "load_port (Dev_port d) s = Some pu" and "p_role pu = VIRTUSB_PORT_ROLE_UPSTREAM" and "p_peer pu = None"
    and "load_port (Hub_port h i) s = Some pd" and "p_peer pd = None"
  shows "runs (do {
           (ret, s) \<leftarrow> virtusb_device_attach (Some d) (Some (Hub_port h i)) s;
           s \<leftarrow> virtusb_device_detach (Some d) s;
           Some (ret, s) }) (\<lambda>(ret, s'). ret = 0 \<and> (\<forall>a. load_port a s' = load_port a s))"
proof -
  let ?n = "word_of_nat i + 1 :: u32"
  let ?t = "settle (port_connected s h (Suc i)) h ?n (plug d h i pd pu s)"
  from assms(1-4) obtain pd' where "load_port (Hub_port h i) s = Some pd'" and
    role: "p_role pd' = VIRTUSB_PORT_ROLE_DOWNSTREAM" and
    code: "virtusb_device_attach (Some d) (Some (Hub_port h i)) s =
      (if p_role pu \<noteq> VIRTUSB_PORT_ROLE_UPSTREAM then Some (- EINVAL, s)
       else if p_peer pd' \<noteq> None \<or> p_peer pu \<noteq> None then Some (- EBUSY, s)
       else Some (0, settle (port_connected s h (Suc i)) h ?n (plug d h i pd' pu s)))"
    by (rule virtusb_device_attach_code)
  with assms have [simp]: "pd' = pd" by simp
  have wf: "topo_wf ?t" using topo_wf_plug [OF assms(1-3,7) _ assms(8,4-6)] role by simp
  let ?pu = "pu\<lparr>p_peer := Some (Hub_port h i)\<rparr>" and ?pd = "pd\<lparr>p_peer := Some (Dev_port d)\<rparr>"
  have loads: "load_port (Dev_port d) ?t = Some ?pu" "load_port (Hub_port h i) ?t = Some ?pd"
    using load_port_plug(1) [OF assms(7,4)] by simp_all
  from wf loads(1) obtain h' i' hub' pd'' where b: "Some (Hub_port h i) = Some (Hub_port h' i')"
    and h': "load_hub h' ?t = Some hub'" and i': "i' < unat (hub_port_count hub')"
    and at: "virtusb_device_get_attached_hub (Some d) ?t = Some (Some (h', word_of_nat i' + 1))"
    by (rule attached_port) auto
  then have [simp]: "h' = h" "i' = i" by simp_all
  have "p_peer ?pu = Some (Hub_port h i)" by simp
  from virtusb_device_detach_attached [OF wf h' [simplified] i' [simplified] loads(2,1) this at [simplified]]
  show ?thesis
    using assms(5,6,8) load_port_plug(2) [OF loads(2,1)] load_port_plug(1) [OF assms(7,4)] assms(4,7)
    by (auto simp: code)
qed

theorem device_attach_detach_witness:
  "runs (do {
     (ret, s) \<leftarrow> virtusb_device_attach (Some 2) (Some (Hub_port 0 1)) example_topo;
     s \<leftarrow> virtusb_device_detach (Some 2) s;
     Some (ret, s) }) (\<lambda>(ret, s'). ret = 0 \<and> (\<forall>a. load_port a s' = load_port a example_topo))"
proof (rule device_attach_detach [OF topo_wf_example load_hub_example _ example_loads(2)])
  show "load_port (Hub_port 0 1) example_topo = Some (fresh_port 0)"
    by (simp add: load_port.simps load_hub_example example_ports fresh_hub_def)
qed (simp_all add: example_hub_sel example_loads example_unplugged_def example_upstream_def fresh_port_def)

end
