(* ===== verification/Virtusb_Object_Props.thy ===== *)
theory Virtusb_Object_Props
  imports Virtusb_Device_Props
begin

text \<open>
  References and the registry. The invariant \<open>dev_wf held\<close> accounts for every reference: the
  count of an object is its registry reference, if it is registered, plus \<open>held\<close>, the
  references the rest of the driver owns. Under it no operation touches freed memory, the
  registry and the objects agree, and IDs are never used twice.
\<close>

section \<open>The two layers do not interfere\<close>

lemma topo_wf_cong:
  assumes "\<And>a. load_port a s' = load_port a s" and "\<And>h. load_hub h s' = load_hub h s"
  shows "topo_wf_upto E s' = topo_wf_upto E s"
proof -
  have "port_connected s' = port_connected s"
  proof (intro ext)
    fix h k show "port_connected s' h k = port_connected s h k"
      by (cases k) (simp_all add: port_connected.simps assms(1) split: option.split)
  qed
  then show ?thesis by (simp add: topo_wf_upto_def ports_wf_def assms)
qed

lemma obj_layer [simp]:
  "load_port a (put_obj d ob s) = load_port a s"
  "load_hub h (put_obj d ob s) = load_hub h s"
  "dev_ports (put_obj d ob s) = dev_ports s"
  "events (put_obj d ob s) = events s"
  "registry (put_obj d ob s) = registry s"
  "next_object_id (put_obj d ob s) = next_object_id s"
  "next_addr (put_obj d ob s) = next_addr s"
  "kobj.more (put_obj d ob s) = kobj.more s"
  by (cases a; simp add: put_obj_def load_port.simps load_hub_def)+

lemma reg_layer [simp]:
  "load_port a (s\<lparr>registry := r\<rparr>) = load_port a s"
  "load_hub h (s\<lparr>registry := r\<rparr>) = load_hub h s"
  "load_obj d (s\<lparr>registry := r\<rparr>) = load_obj d s"
  "load_port a (s\<lparr>next_object_id := n\<rparr>) = load_port a s"
  "load_hub h (s\<lparr>next_object_id := n\<rparr>) = load_hub h s"
  "load_obj d (s\<lparr>next_object_id := n\<rparr>) = load_obj d s"
  by (cases a; simp add: load_port.simps load_hub_def load_obj_def)+

lemma topo_wf_layer [simp]:
  "topo_wf_upto E (put_obj d ob s) = topo_wf_upto E s"
  "topo_wf_upto E (s\<lparr>registry := r\<rparr>) = topo_wf_upto E s"
  "topo_wf_upto E (s\<lparr>next_object_id := n\<rparr>) = topo_wf_upto E s"
  by (simp_all cong: topo_wf_cong)

text \<open>A device nobody refers to may appear and disappear.\<close>

lemma load_port_cell:
  "load_port a (s\<lparr>dev_ports := (dev_ports s)(d := x)\<rparr>) = (if a = Dev_port d then x else load_port a s)"
  by (cases a) (simp_all add: load_port.simps)

lemma topo_wf_cell:
  fixes s :: "'a topo_scheme"
  assumes wf: "topo_wf s"
    and old: "\<And>p. load_port (Dev_port d) s = Some p \<Longrightarrow> p_peer p = None"
    and new: "\<And>p. x = Some p \<Longrightarrow> port_ok (Dev_port d) p \<and> p_peer p = None"
  shows "topo_wf (s\<lparr>dev_ports := (dev_ports s)(d := x)\<rparr>)"
proof -
  let ?s' = "s\<lparr>dev_ports := (dev_ports s)(d := x)\<rparr>"
  note ports = topo_wf_ports [OF wf] and load = load_port_cell [of _ s d x]
  have ports': "ports_wf ?s'"
  proof (rule ports_wfI)
    fix a p assume "load_port a ?s' = Some p"
    then show "port_ok a p" using new ports_wf_port [OF ports] by (auto simp: load split: if_splits)
  next
    fix a p b assume *: "load_port a ?s' = Some p" "p_peer p = Some b"
    with new have a: "a \<noteq> Dev_port d" "load_port a s = Some p" by (auto simp: load split: if_splits)
    from ports a(2) *(2) obtain q where q: "load_port b s = Some q" "p_peer q = Some a" "p_role q \<noteq> p_role p"
      by (rule ports_wf_peer)
    with old have "b \<noteq> Dev_port d" by auto
    with q show "\<exists>q. load_port b ?s' = Some q \<and> p_peer q = Some a \<and> p_role q \<noteq> p_role p"
      by (simp add: load)
  qed
  have "port_connected ?s' g k = port_connected s g k" for g k
    by (rule port_connected_frame [OF ports, where X = "{Dev_port d}"]) (use old in \<open>auto simp: load\<close>)
  then have "port_connected ?s' = port_connected s" by (intro ext)
  with wf ports' show ?thesis by (simp add: topo_wf_upto_def)
qed

section \<open>The invariant\<close>

definition obj_ok :: "(nat \<Rightarrow> nat) \<Rightarrow> 'a kobj_scheme \<Rightarrow> nat \<Rightarrow> virtusb_object \<Rightarrow> bool" where
  "obj_ok held s d ob \<longleftrightarrow>
     d < next_addr s \<and> obj_release ob = Some Virtusb_device_release \<and>
     obj_refcount ob = (if obj_registered ob then 1 else 0) + held d \<and> 0 < obj_refcount ob \<and>
     (obj_registered ob \<longrightarrow> obj_type ob = VIRTUSB_OBJECT_TYPE_DEVICE \<and> obj_id ob \<noteq> 0) \<and>
     unat (obj_id ob) < unat (next_object_id s)"

definition obj_wf :: "(nat \<Rightarrow> nat) \<Rightarrow> 'a kobj_scheme \<Rightarrow> bool" where
  "obj_wf held s \<longleftrightarrow>
     (\<forall>d ob. load_obj d s = Some ob \<longrightarrow> obj_ok held s d ob) \<and>
     (\<forall>d. load_obj d s = None \<longrightarrow> held d = 0) \<and>
     (\<forall>d e ob ob'. load_obj d s = Some ob \<longrightarrow> load_obj e s = Some ob' \<longrightarrow>
        obj_id ob = obj_id ob' \<longrightarrow> obj_id ob \<noteq> 0 \<longrightarrow> d = e) \<and>
     (\<forall>i d. xa_load (registry s) i = Some d \<longleftrightarrow>
        (\<exists>ob. load_obj d s = Some ob \<and> obj_registered ob \<and> i = ucast (obj_id ob))) \<and>
     0 < next_object_id s \<and> unat (next_object_id s) \<le> 2 ^ 32"

text \<open>
  Every device allocation has an initialised upstream port, and only registered devices are
  attached: a device is looked up before it is attached and detached before it is unregistered.
\<close>

definition dev_wf :: "(nat \<Rightarrow> nat) \<Rightarrow> 'a kobj_scheme \<Rightarrow> bool" where
  "dev_wf held s \<longleftrightarrow>
     topo_wf s \<and> obj_wf held s \<and>
     (\<forall>d. dev_ports s d = None \<longleftrightarrow> load_obj d s = None) \<and>
     (\<forall>d p. load_port (Dev_port d) s = Some p \<longrightarrow> p_role p = VIRTUSB_PORT_ROLE_UPSTREAM) \<and>
     (\<forall>d p ob. load_port (Dev_port d) s = Some p \<longrightarrow> load_obj d s = Some ob \<longrightarrow> p_peer p \<noteq> None
        \<longrightarrow> obj_registered ob)"

lemma dev_wfD:
  assumes "dev_wf held s"
  shows "topo_wf s" and "obj_wf held s"
    and "dev_ports s d = None \<longleftrightarrow> load_obj d s = None"
    and "load_port (Dev_port d) s = Some p \<Longrightarrow> p_role p = VIRTUSB_PORT_ROLE_UPSTREAM"
    and "load_port (Dev_port d) s = Some p \<Longrightarrow> load_obj d s = Some ob \<Longrightarrow> p_peer p \<noteq> None \<Longrightarrow> obj_registered ob"
  using assms unfolding dev_wf_def by blast+

lemma obj_wfD:
  assumes "obj_wf held s"
  shows "load_obj d s = Some ob \<Longrightarrow> obj_ok held s d ob"
    and "load_obj d s = None \<Longrightarrow> held d = 0"
    and "load_obj d s = Some ob \<Longrightarrow> load_obj e s = Some ob' \<Longrightarrow> obj_id ob = obj_id ob' \<Longrightarrow> obj_id ob \<noteq> 0 \<Longrightarrow> d = e"
    and "xa_load (registry s) i = Some d \<longleftrightarrow>
        (\<exists>ob. load_obj d s = Some ob \<and> obj_registered ob \<and> i = ucast (obj_id ob))"
    and "0 < next_object_id s" and "unat (next_object_id s) \<le> 2 ^ 32"
  using assms unfolding obj_wf_def by blast+

lemma dev_port_alloc:
  assumes "dev_wf held s" and "load_obj d s = Some ob"
  obtains p where "load_port (Dev_port d) s = Some p" and "p_role p = VIRTUSB_PORT_ROLE_UPSTREAM"
  using dev_wfD(3) [OF assms(1), of d] assms dev_wfD(4) [OF assms(1), of d]
  by (cases "dev_ports s d") (auto simp: load_port.simps)

lemma dev_obj_alloc:
  assumes "dev_wf held s" and "load_port (Dev_port d) s = Some p"
  obtains ob where "load_obj d s = Some ob"
  using dev_wfD(3) [OF assms(1), of d] assms(2) by (cases "load_obj d s") (auto simp: load_port.simps)

lemma obj_wf_cong:
  assumes "\<And>d. load_obj d s' = load_obj d s" and "registry s' = registry s"
    and "next_object_id s' = next_object_id s" and "next_addr s' = next_addr s"
  shows "obj_wf held s' = obj_wf held s"
  by (simp only: obj_wf_def obj_ok_def assms)

text \<open>A change of the topology that keeps what is allocated and the roles keeps the rest.\<close>

lemma dev_wf_topology:
  assumes wf: "dev_wf held s" and topo: "topo_wf s'" and lay: "layout s s'"
    and dev: "\<And>d p. load_port (Dev_port d) s' = Some p \<Longrightarrow>
        \<exists>q. load_port (Dev_port d) s = Some q \<and> p_role p = p_role q \<and>
            (p_peer p \<noteq> None \<longrightarrow> p_peer q \<noteq> None \<or> (\<exists>ob. load_obj d s = Some ob \<and> obj_registered ob))"
  shows "dev_wf held s'"
proof -
  have more: "topo.more s' = topo.more s" using lay by (rule layout_more)
  have obj: "load_obj d s' = load_obj d s" for d
    using more by (cases s; cases s') (simp add: load_obj_def)
  have reg: "registry s' = registry s" "next_object_id s' = next_object_id s" "next_addr s' = next_addr s"
    using more by (cases s; cases s'; simp)+
  have "obj_wf held s'"
    by (rule iffD2 [OF obj_wf_cong [OF obj reg] dev_wfD(2) [OF wf]])
  moreover have "dev_ports s' d = None \<longleftrightarrow> load_obj d s' = None" for d
    using layout_dev_ports [OF lay] dev_wfD(3) [OF wf] by (simp add: obj)
  moreover have "p_role p = VIRTUSB_PORT_ROLE_UPSTREAM" if p: "load_port (Dev_port d) s' = Some p" for d p
  proof -
    from dev [OF p] obtain q where "load_port (Dev_port d) s = Some q" "p_role p = p_role q" by blast
    with dev_wfD(4) [OF wf] show ?thesis by simp
  qed
  moreover have "obj_registered ob"
    if p: "load_port (Dev_port d) s' = Some p" "p_peer p \<noteq> None" and ob: "load_obj d s' = Some ob" for d p ob
  proof -
    from ob have ob': "load_obj d s = Some ob" by (simp add: obj)
    from dev [OF p(1)] p(2) obtain q where q: "load_port (Dev_port d) s = Some q"
      "p_peer q \<noteq> None \<or> (\<exists>ob. load_obj d s = Some ob \<and> obj_registered ob)" by blast
    from dev_wfD(5) [OF wf q(1) ob'] q(2) ob' show ?thesis by auto
  qed
  ultimately show ?thesis using topo unfolding dev_wf_def by blast
qed


section \<open>Taking and dropping references\<close>

lemma dev_wf_put_obj:
  assumes wf: "dev_wf held s" and ob: "load_obj d s = Some ob"
    and new: "obj_release ob' = obj_release ob" "obj_type ob' = obj_type ob" "obj_registered ob' = obj_registered ob"
      "obj_id ob' = obj_id ob" "obj_refcount ob' + held d = obj_refcount ob + held' d" "0 < obj_refcount ob'"
    and held: "\<And>e. e \<noteq> d \<Longrightarrow> held' e = held e"
  shows "dev_wf held' (put_obj d ob' s)"
proof -
  note obj = obj_wfD [OF dev_wfD(2) [OF wf]]
  let ?s' = "put_obj d ob' s"
  have ok: "obj_ok held' ?s' e o'" if "load_obj e ?s' = Some o'" for e o'
    using that obj(1) [OF ob] obj(1) [of e o'] new held [of e] by (auto simp: obj_ok_def split: if_splits)
  have sel: "\<exists>q. load_obj e s = Some q \<and> obj_id q = obj_id o' \<and> obj_registered q = obj_registered o'"
    if "load_obj e ?s' = Some o'" for e o'
    using that ob new by (auto split: if_splits)
  have "obj_wf held' ?s'"
    unfolding obj_wf_def
  proof (intro conjI allI impI)
    fix e assume "load_obj e ?s' = None"
    then show "held' e = 0" using obj(2) [of e] held by (auto split: if_splits)
  next
    fix e f o1 o2
    assume "load_obj e ?s' = Some o1" "load_obj f ?s' = Some o2" "obj_id o1 = obj_id o2" "obj_id o1 \<noteq> 0"
    with sel obj(3) show "e = f" by metis
  next
    fix i e
    have "(\<exists>o'. load_obj e ?s' = Some o' \<and> obj_registered o' \<and> (i :: u64) = ucast (obj_id o')) \<longleftrightarrow>
        (\<exists>o'. load_obj e s = Some o' \<and> obj_registered o' \<and> i = ucast (obj_id o'))"
      using ob new by auto
    then show "(xa_load (registry ?s') i = Some e) =
        (\<exists>o'. load_obj e ?s' = Some o' \<and> obj_registered o' \<and> i = ucast (obj_id o'))"
      using obj(4) by simp
  qed (use ok obj(5,6) in simp_all)
  then show ?thesis
    using wf ob new unfolding dev_wf_def by (auto split: if_splits)
qed

lemma virtusb_object_get_ok:
  assumes wf: "dev_wf held s" and ob: "load_obj d s = Some ob"
  shows "virtusb_object_get (Some d) s = Some (put_obj d (ob\<lparr>obj_refcount := obj_refcount ob + 1\<rparr>) s)"
    and "dev_wf (held(d := Suc (held d))) (put_obj d (ob\<lparr>obj_refcount := obj_refcount ob + 1\<rparr>) s)"
  using ob dev_wf_put_obj [OF wf ob] by (simp_all add: virtusb_object_get_def)

text \<open>
  Dropping a reference the caller holds: either others remain and only the count changes, or
  the object is freed, which nobody can notice: it is unregistered and not attached, so no
  warning is raised and no pointer dangles.
\<close>

lemma free_object_sel [simp]:
  "load_port a (free_object d s) = (if a = Dev_port d then None else load_port a s)"
  "load_hub h (free_object d s) = load_hub h s"
  "load_obj e (free_object d s) = (if e = d then None else load_obj e s)"
  "dev_ports (free_object d s) = (dev_ports s)(d := None)"
  "registry (free_object d s) = registry s"
  "next_object_id (free_object d s) = next_object_id s"
  "next_addr (free_object d s) = next_addr s"
  "events (free_object d s) = events s"
  "kobj.more (free_object d s) = kobj.more s"
  by (cases a; simp add: free_object_def load_port.simps load_hub_def load_obj_def)+

lemma dev_wf_free:
  assumes wf: "dev_wf held s" and ob: "load_obj d s = Some ob" "\<not> obj_registered ob" and h: "held d = 1"
  shows "dev_wf (held(d := 0)) (free_object d s)"
proof -
  note obj = obj_wfD [OF dev_wfD(2) [OF wf]]
  have free: "p_peer p = None" if "load_port (Dev_port d) s = Some p" for p
    using dev_wfD(5) [OF wf that ob(1)] ob(2) by blast
  have "topo_wf (s\<lparr>dev_ports := (dev_ports s)(d := None)\<rparr>)"
    by (rule topo_wf_cell [OF dev_wfD(1) [OF wf]]) (use free in auto)
  then have "topo_wf (free_object d s)"
    by (rule subst [OF topo_wf_cong, rotated 2]) (simp_all add: load_port_cell)
  moreover have "obj_wf (held(d := 0)) (free_object d s)"
    unfolding obj_wf_def
  proof (intro conjI allI impI)
    fix e o' assume "load_obj e (free_object d s) = Some o'"
    then show "obj_ok (held(d := 0)) (free_object d s) e o'"
      using obj(1) [of e o'] by (auto simp: obj_ok_def split: if_splits)
  next
    fix i e
    show "(xa_load (registry (free_object d s)) i = Some e) =
        (\<exists>ob. load_obj e (free_object d s) = Some ob \<and> obj_registered ob \<and> i = ucast (obj_id ob))"
      using obj(4) [of i e] ob by auto
  next
    fix e f o1 o2
    assume "load_obj e (free_object d s) = Some o1" "load_obj f (free_object d s) = Some o2"
      "obj_id o1 = obj_id o2" "obj_id o1 \<noteq> 0"
    then show "e = f" using obj(3) [of e o1 f o2] by (auto split: if_splits)
  qed (use obj(2,5,6) in auto)
  ultimately show ?thesis
    using wf unfolding dev_wf_def by (auto split: if_splits)
qed

definition put_result :: "(nat \<Rightarrow> nat) \<Rightarrow> nat \<Rightarrow> 'a kobj_scheme \<Rightarrow> 'a kobj_scheme" where
  "put_result held d s =
     (case load_obj d s of
        None \<Rightarrow> s
      | Some ob \<Rightarrow>
          if \<not> obj_registered ob \<and> held d = 1
          then free_object d (put_obj d (ob\<lparr>obj_refcount := 0\<rparr>) s)
          else put_obj d (ob\<lparr>obj_refcount := obj_refcount ob - 1\<rparr>) s)"

lemma virtusb_object_put_ok:
  assumes wf: "dev_wf held s" and h: "0 < held d"
  shows "virtusb_object_put (Some d) s = Some (put_result held d s)"
    and "dev_wf (held(d := held d - 1)) (put_result held d s)"
proof -
  note obj = obj_wfD [OF dev_wfD(2) [OF wf]]
  from h obj(2) [of d] obtain ob where ob: "load_obj d s = Some ob" by (cases "load_obj d s") auto
  from obj(1) [OF ob] have ok: "obj_refcount ob = (if obj_registered ob then 1 else 0) + held d"
    "obj_release ob = Some Virtusb_device_release" by (simp_all add: obj_ok_def)
  from wf ob obtain p where p: "load_port (Dev_port d) s = Some p" by (rule dev_port_alloc)
  show "virtusb_object_put (Some d) s = Some (put_result held d s)"
  proof (cases "\<not> obj_registered ob \<and> held d = 1")
    case True
    with dev_wfD(5) [OF wf p ob] have "p_peer p = None" by blast
    with True ob ok p show ?thesis
      by (simp add: virtusb_object_put_def virtusb_object_release_kref_def virtusb_device_release_def
          put_result_def WARN_ON_def)
  next
    case False
    with ob ok h show ?thesis by (auto simp: virtusb_object_put_def put_result_def)
  qed
  show "dev_wf (held(d := held d - 1)) (put_result held d s)"
  proof (cases "\<not> obj_registered ob \<and> held d = 1")
    case True
    let ?ob = "ob\<lparr>obj_refcount := 0\<rparr>"
    have eq: "free_object d (put_obj d ?ob s) = free_object d s"
      by (simp add: free_object_def put_obj_def)
    from True have "dev_wf (held(d := 0)) (free_object d s)" by (intro dev_wf_free [OF wf ob]) auto
    with True ob show ?thesis by (simp add: put_result_def eq)
  next
    case False
    with ob ok h show ?thesis
      by (auto simp: put_result_def intro!: dev_wf_put_obj [OF wf ob])
  qed
qed

section \<open>Publishing and withdrawing objects\<close>

lemma put_obj_put_obj [simp]: "put_obj d b (put_obj d a s) = put_obj d b s"
  by (simp add: put_obj_def)

lemma put_obj_same: "load_obj d s = Some ob \<Longrightarrow> put_obj d ob s = s"
  by (simp add: put_obj_def load_obj_def fun_upd_idem)

lemma id_conversions:
  assumes "(n :: u64) \<le> U32_MAX"
  shows "unat (ucast n :: u32) = unat n" and "(ucast (ucast n :: u32) :: u64) = n"
    and "unat (n + 1) = unat n + 1"
proof -
  from assms have n: "unat n < 2 ^ 32" by (simp add: word_le_nat_alt)
  then show 1: "unat (ucast n :: u32) = unat n"
    by (simp add: unsigned_ucast_eq unsigned_take_bit_eq take_bit_nat_eq_self)
  have "unat (ucast (ucast n :: u32) :: u64) = unat (ucast n :: u32)"
    using n by (simp add: unsigned_ucast_eq unsigned_take_bit_eq take_bit_nat_eq_self 1)
  then show "(ucast (ucast n :: u32) :: u64) = n" by (simp add: 1 word_unat_eq_iff)
  show "unat (n + 1) = unat n + 1" using n by (simp add: unat_word_ariths)
qed

lemma ucast_id_inj: "(ucast (i :: u32) :: u64) = ucast j \<longleftrightarrow> i = j"
proof -
  have "unat (ucast k :: u64) = unat k" for k :: u32
  proof -
    have "unat k < 2 ^ 32" using unsigned_less [of k] by simp
    then show ?thesis by (simp add: unsigned_ucast_eq unsigned_take_bit_eq take_bit_nat_eq_self)
  qed
  then show ?thesis by (metis word_unat_eq_iff)
qed

definition registered_object :: "'a kobj_scheme \<Rightarrow> virtusb_object \<Rightarrow> virtusb_object" where
  "registered_object s ob = ob\<lparr>obj_refcount := obj_refcount ob + 1, obj_id := ucast (next_object_id s),
     obj_type := VIRTUSB_OBJECT_TYPE_DEVICE, obj_registered := True\<rparr>"

definition registered :: "nat \<Rightarrow> virtusb_object \<Rightarrow> 'a kobj_scheme \<Rightarrow> 'a kobj_scheme" where
  "registered d ob s = (put_obj d (registered_object s ob) s)
     \<lparr>registry := xa_store_new (next_object_id s) d (registry s), next_object_id := next_object_id s + 1\<rparr>"

lemma next_id_free:
  assumes "obj_wf held s"
  shows "xa_load (registry s) (next_object_id s) = None"
proof (rule ccontr)
  assume "xa_load (registry s) (next_object_id s) \<noteq> None"
  then obtain d ob where ob: "load_obj d s = Some ob" "next_object_id s = ucast (obj_id ob)"
    using obj_wfD(4) [OF assms] by (metis option.exhaust)
  have "unat (obj_id ob) < 2 ^ 32" using unsigned_less [of "obj_id ob"] by simp
  then have "unat (ucast (obj_id ob) :: u64) = unat (obj_id ob)"
    by (simp add: unsigned_ucast_eq unsigned_take_bit_eq take_bit_nat_eq_self)
  with ob obj_wfD(1) [OF assms ob(1)] show False by (simp add: obj_ok_def)
qed

lemma virtusb_object_register_ok:
  assumes wf: "obj_wf held s" and ob: "load_obj d s = Some ob" "\<not> obj_registered ob" and h: "0 < obj_refcount ob"
  shows "virtusb_object_register mem (Some d) VIRTUSB_OBJECT_TYPE_DEVICE s =
           (if next_object_id s > U32_MAX then Some (- ENOSPC, s)
            else if \<not> mem then Some (- ENOMEM, s)
            else Some (0, registered d ob s))"
proof (cases "next_object_id s > U32_MAX")
  case False
  then have n: "next_object_id s \<le> U32_MAX" by simp
  note conv = id_conversions(2) [OF n]
  from False ob h next_id_free [OF wf] conv show ?thesis
    by (auto simp: virtusb_object_register_def virtusb_object_get_def virtusb_object_put_def xa_insert_def Let_def
        put_obj_same [OF ob(1)] registered_def registered_object_def put_obj_def load_obj_def modify_at_def
        store_obj_def fun_upd_idem)
qed (use ob in \<open>simp add: virtusb_object_register_def\<close>)

lemma dev_wf_registered:
  assumes wf: "dev_wf held s" and ob: "load_obj d s = Some ob" "\<not> obj_registered ob"
    and n: "\<not> next_object_id s > U32_MAX"
  shows "dev_wf held (registered d ob s)"
proof -
  note owf = dev_wfD(2) [OF wf]
  note obj = obj_wfD [OF owf]
  from n have n': "next_object_id s \<le> U32_MAX" by simp
  note conv = id_conversions [OF n']
  let ?s' = "registered d ob s" and ?ob = "registered_object s ob"
  have load: "load_obj e ?s' = (if e = d then Some ?ob else load_obj e s)" for e
    by (simp add: registered_def)
  have id0: "obj_id ?ob \<noteq> 0"
    using conv(1) obj(5) by (auto simp: registered_object_def word_unat_eq_iff word_less_nat_alt)
  have fresh: "obj_id o' \<noteq> obj_id ?ob" if "load_obj e s = Some o'" for e o'
    using obj(1) [OF that] conv(1) by (auto simp: obj_ok_def registered_object_def)
  have "obj_wf held ?s'"
    unfolding obj_wf_def
  proof (intro conjI allI impI)
    fix e o' assume "load_obj e ?s' = Some o'"
    then show "obj_ok held ?s' e o'"
      using obj(1) [of e o'] obj(1) [OF ob(1)] ob(2) id0 conv(1,3)
      by (auto simp: load obj_ok_def registered_def registered_object_def split: if_splits)
  next
    fix e assume "load_obj e ?s' = None"
    then show "held e = 0" using obj(2) by (auto simp: load split: if_splits)
  next
    fix e f o1 o2
    assume "load_obj e ?s' = Some o1" "load_obj f ?s' = Some o2" "obj_id o1 = obj_id o2" "obj_id o1 \<noteq> 0"
    then show "e = f" using obj(3) [of e o1 f o2] fresh [of e o1] fresh [of f o2] by (auto simp: load split: if_splits)
  next
    fix i :: u64 and e
    have "ucast (obj_id ?ob) = next_object_id s" using conv(2) by (simp add: registered_object_def)
    then show "(xa_load (registry ?s') i = Some e) =
        (\<exists>o'. load_obj e ?s' = Some o' \<and> obj_registered o' \<and> i = ucast (obj_id o'))"
      using obj(4) [of i e] next_id_free [OF owf] xa.load_insert [OF next_id_free [OF owf]] ob
      by (auto simp: load registered_def registered_object_def)
  next
    show "0 < next_object_id ?s'" "unat (next_object_id ?s') \<le> 2 ^ 32"
      using conv(3) n' by (simp_all add: registered_def word_less_nat_alt word_le_nat_alt)
  qed
  moreover have "load_port a ?s' = load_port a s" "dev_ports ?s' = dev_ports s" for a
    by (simp_all add: registered_def)
  ultimately show ?thesis
    using wf ob unfolding dev_wf_def by (auto simp: registered_def registered_object_def)
qed

definition withdrawn :: "nat \<Rightarrow> virtusb_object \<Rightarrow> 'a kobj_scheme \<Rightarrow> 'a kobj_scheme" where
  "withdrawn d ob s = (put_obj d (ob\<lparr>obj_registered := False\<rparr>) s)
     \<lparr>registry := xa_erase (ucast (obj_id ob)) (registry s)\<rparr>"

lemma dev_wf_withdrawn:
  assumes wf: "dev_wf held s" and ob: "load_obj d s = Some ob" "obj_registered ob"
    and p: "load_port (Dev_port d) s = Some p" "p_peer p = None"
  shows "dev_wf (held(d := Suc (held d))) (withdrawn d ob s)"
proof -
  note obj = obj_wfD [OF dev_wfD(2) [OF wf]]
  let ?s' = "withdrawn d ob s" and ?ob = "ob\<lparr>obj_registered := False\<rparr>" and ?held = "held(d := Suc (held d))"
  have load: "load_obj e ?s' = (if e = d then Some ?ob else load_obj e s)" for e
    by (simp add: withdrawn_def)
  have "obj_wf ?held ?s'"
    unfolding obj_wf_def
  proof (intro conjI allI impI)
    fix e o' assume "load_obj e ?s' = Some o'"
    then show "obj_ok ?held ?s' e o'"
      using obj(1) [of e o'] obj(1) [OF ob(1)] ob(2)
      by (auto simp: load obj_ok_def withdrawn_def split: if_splits)
  next
    fix e assume "load_obj e ?s' = None"
    then show "?held e = 0" using obj(2) by (auto simp: load split: if_splits)
  next
    fix e f o1 o2
    assume "load_obj e ?s' = Some o1" "load_obj f ?s' = Some o2" "obj_id o1 = obj_id o2" "obj_id o1 \<noteq> 0"
    then show "e = f"
      using obj(3) [of e o1 f o2] obj(3) [OF ob(1), of f o2] obj(3) [OF _ ob(1), of e o1]
      by (auto simp: load split: if_splits)
  next
    fix i :: u64 and e
    have "xa_load (registry s) (ucast (obj_id ob)) = Some d" using obj(4) ob by blast
    then have "xa_load (registry s) i = Some d \<longleftrightarrow> i = ucast (obj_id ob)" using obj(4) [of i d] ob by auto
    then show "(xa_load (registry ?s') i = Some e) =
        (\<exists>o'. load_obj e ?s' = Some o' \<and> obj_registered o' \<and> i = ucast (obj_id o'))"
      using obj(4) [of i e] obj(4) [of "ucast (obj_id ob)" e] \<open>xa_load (registry s) (ucast (obj_id ob)) = Some d\<close>
      by (auto simp: load withdrawn_def xa.load_erase)
  qed (use obj(5,6) in \<open>simp_all add: withdrawn_def\<close>)
  moreover have "load_port a ?s' = load_port a s" "dev_ports ?s' = dev_ports s" for a
    by (simp_all add: withdrawn_def)
  ultimately show ?thesis
    using wf ob p unfolding dev_wf_def by (auto simp: withdrawn_def)
qed

text \<open>
  Unregistering drops the registry reference; an object nobody else refers to is freed.
\<close>

lemma virtusb_object_unregister_ok:
  assumes wf: "dev_wf held s" and ob: "load_obj d s = Some ob"
    and p: "load_port (Dev_port d) s = Some p" "p_peer p = None"
  shows "virtusb_object_unregister (Some d) s =
           (if obj_registered ob then Some (0, put_result (held(d := Suc (held d))) d (withdrawn d ob s))
            else Some (- ENOENT, s))"
    and "obj_registered ob \<Longrightarrow> dev_wf held (put_result (held(d := Suc (held d))) d (withdrawn d ob s))"
proof -
  note obj = obj_wfD [OF dev_wfD(2) [OF wf]]
  let ?held = "held(d := Suc (held d))"
  {
    assume r: "obj_registered ob"
    have "dev_wf (?held(d := ?held d - 1)) (put_result ?held d (withdrawn d ob s))"
      by (rule virtusb_object_put_ok(2) [OF dev_wf_withdrawn [OF wf ob r p]]) simp
    then show "dev_wf held (put_result ?held d (withdrawn d ob s))" by simp
  }
  show "virtusb_object_unregister (Some d) s =
           (if obj_registered ob then Some (0, put_result ?held d (withdrawn d ob s)) else Some (- ENOENT, s))"
  proof (cases "obj_registered ob")
    case True
    have w: "withdrawn d ob s = put_obj d (ob\<lparr>obj_registered := False\<rparr>)
        (s\<lparr>registry := xa_erase (ucast (obj_id ob)) (registry s)\<rparr>)"
      by (simp add: withdrawn_def put_obj_def)
    have "virtusb_object_put (Some d) (withdrawn d ob s) = Some (put_result ?held d (withdrawn d ob s))"
      by (rule virtusb_object_put_ok(1) [OF dev_wf_withdrawn [OF wf ob True p]]) simp
    moreover have "xa_load (registry s) (ucast (obj_id ob)) = Some d" "obj_id ob \<noteq> 0"
      using obj(4) ob True obj(1) [OF ob] by (auto simp: obj_ok_def)
    ultimately show ?thesis
      using True ob by (simp add: virtusb_object_unregister_def Let_def w)
  qed (use ob in \<open>simp add: virtusb_object_unregister_def\<close>)
qed

lemma virtusb_object_lookup_ok:
  assumes wf: "dev_wf held s"
  shows "virtusb_object_lookup oid s =
      (case (if oid = 0 then None else xa_load (registry s) (ucast oid)) of
         None \<Rightarrow> Some (None, s)
       | Some d \<Rightarrow> Some (Some d, put_obj d (the (load_obj d s)\<lparr>obj_refcount := obj_refcount (the (load_obj d s)) + 1\<rparr>) s))"
proof (cases "oid = 0 \<or> xa_load (registry s) (ucast oid) = None")
  case False
  then obtain d where d: "xa_load (registry s) (ucast oid) = Some d" by auto
  then obtain ob where "load_obj d s = Some ob" using obj_wfD(4) [OF dev_wfD(2) [OF wf]] by blast
  with False d show ?thesis by (simp add: virtusb_object_lookup_def virtusb_object_get_def)
qed (auto simp: virtusb_object_lookup_def)

lemma put_result_sel [simp]:
  "load_hub h (put_result held d s) = load_hub h s"
  "registry (put_result held d s) = registry s"
  "next_object_id (put_result held d s) = next_object_id s"
  "next_addr (put_result held d s) = next_addr s"
  "events (put_result held d s) = events s"
  "kobj.more (put_result held d s) = kobj.more s"
  by (simp_all add: put_result_def split: option.split)

lemma load_port_put_result:
  assumes "dev_wf held s"
  shows "load_port a (put_result held d s) =
           (if a = Dev_port d \<and> load_obj d (put_result held d s) = None then None else load_port a s)"
  using dev_wfD(3) [OF assms, of d]
  by (auto simp: put_result_def load_port.simps split: option.split)

text \<open>Ports come and go only with their devices: whatever port is still there is as it was.\<close>

definition ports_fade :: "'a topo_scheme \<Rightarrow> 'b topo_scheme \<Rightarrow> bool" where
  "ports_fade s s' \<longleftrightarrow> (\<forall>a. load_port a s' = load_port a s \<or> load_port a s' = None)"

lemma ports_fade_same [simp]: "(\<And>a. load_port a s' = load_port a s) \<Longrightarrow> ports_fade s s'"
  by (simp add: ports_fade_def)

lemma ports_fade_trans: "ports_fade s s' \<Longrightarrow> ports_fade s' s'' \<Longrightarrow> ports_fade s s''"
  by (metis ports_fade_def)

lemma ports_fade_put_result: "ports_fade s (put_result held d s)"
  by (auto simp: ports_fade_def put_result_def load_port.simps split: option.split port_ptr.split)

lemma ports_fade_put: "ports_fade s s' \<Longrightarrow> ports_fade s (put_result held d s')"
  by (rule ports_fade_trans [OF _ ports_fade_put_result])

lemma ports_fade_cong: "(\<And>a. load_port a t = load_port a s) \<Longrightarrow> (\<And>a. load_port a t' = load_port a s') \<Longrightarrow> ports_fade t t' = ports_fade s s'"
  by (simp add: ports_fade_def)

lemma load_obj_put_result:
  assumes "0 < held d"
  shows "load_obj e (put_result held d s) =
           (if e \<noteq> d then load_obj e s
            else case load_obj d s of None \<Rightarrow> None
                 | Some ob \<Rightarrow> if \<not> obj_registered ob \<and> held d = 1 then None
                            else Some (ob\<lparr>obj_refcount := obj_refcount ob - 1\<rparr>))"
  by (simp add: put_result_def split: option.split)

lemma put_result_kept:
  assumes "load_obj d s = Some ob" and "1 < held d"
  shows "put_result held d s = put_obj d (ob\<lparr>obj_refcount := obj_refcount ob - 1\<rparr>) s"
  using assms by (simp add: put_result_def)

section \<open>Forced destruction and the shutdown loop\<close>

text \<open>
  Whatever the device is attached to, a forced destruction unplugs it and withdraws its ID; the
  caller's reference keeps the object alive.
\<close>

lemma layout_objects:
  assumes "layout s s'"
  shows "load_obj d s' = load_obj d s" "registry s' = registry s" "next_object_id s' = next_object_id s"
    "next_addr s' = next_addr s" "kobj.more s' = kobj.more s"
  using layout_more [OF assms] by (cases s; cases s'; simp add: load_obj_def)+

lemma disconnect_ok:
  fixes s :: "'a kobj_scheme"
  assumes wf: "dev_wf held s" and ob: "load_obj d s = Some ob"
  shows "runs (do {
           (ret, s) \<leftarrow> virtusb_device_set_connection_signaling (Some d) False s;
           if ret < 0 then Some (ret, s)
           else do { s \<leftarrow> virtusb_device_detach (Some d) s; Some (ret, s) } })
         (\<lambda>(ret, s'). ret = 0 \<and> dev_wf held s' \<and> layout s s' \<and> changes_reported s s' \<and>
            (\<exists>p. load_port (Dev_port d) s' = Some p \<and> p_peer p = None) \<and>
            (\<forall>e. e \<noteq> d \<longrightarrow> load_port (Dev_port e) s' = load_port (Dev_port e) s))"
proof -
  from wf ob obtain pu where pu: "load_port (Dev_port d) s = Some pu" "p_role pu = VIRTUSB_PORT_ROLE_UPSTREAM"
    by (rule dev_port_alloc)
  from virtusb_device_set_connection_signaling_refines [OF dev_wfD(1) [OF wf] pu, of False]
  obtain s1 where s1: "virtusb_device_set_connection_signaling (Some d) False s = Some (0, s1)" "topo_wf s1"
    "layout s s1" "load_port (Dev_port d) s1 = Some (pu\<lparr>p_state0 := False\<rparr>)"
    "\<forall>a. a \<noteq> Dev_port d \<longrightarrow> load_port a s1 = load_port a s"
    "changes_reported s s1"
    by (auto simp: runs_iff)
  have "dev_wf held s1"
    by (rule dev_wf_topology [OF wf s1(2,3)]) (use s1(4,5) pu in force)
  from virtusb_device_detach_refines [OF s1(2,4)]
  obtain s2 where s2: "virtusb_device_detach (Some d) s1 = Some s2" "topo_wf s2" "layout s1 s2"
    "load_port (Dev_port d) s2 = Some (pu\<lparr>p_state0 := False, p_peer := None\<rparr>)"
    "\<forall>e. e \<noteq> d \<longrightarrow> load_port (Dev_port e) s2 = load_port (Dev_port e) s1"
    "changes_reported s1 s2"
    by (auto simp: runs_iff)
  have "dev_wf held s2"
  proof (rule dev_wf_topology [OF \<open>dev_wf held s1\<close> s2(2,3)])
    fix e p assume "load_port (Dev_port e) s2 = Some p"
    then show "\<exists>q. load_port (Dev_port e) s1 = Some q \<and> p_role p = p_role q \<and>
        (p_peer p \<noteq> None \<longrightarrow> p_peer q \<noteq> None \<or> (\<exists>ob. load_obj e s1 = Some ob \<and> obj_registered ob))"
      using s2(4,5) s1(4) by (cases "e = d") auto
  qed
  then show ?thesis
    using s1 s2 layout_trans [OF s1(3) s2(3)] changes_reported_trans [OF s1(6) s2(6)] by auto
qed

lemma virtusb_device_destroy_forced:
  assumes wf: "dev_wf held s" and ob: "load_obj d s = Some ob" "obj_registered ob"
  shows "runs (virtusb_device_destroy (Some d) True s) (\<lambda>(ret, s').
           ret = 0 \<and> dev_wf held s' \<and> registry s' = xa_erase (ucast (obj_id ob)) (registry s) \<and> hubs_report s s' \<and>
           (\<forall>e. e \<noteq> d \<longrightarrow> load_obj e s' = load_obj e s \<and> load_port (Dev_port e) s' = load_port (Dev_port e) s) \<and>
           next_object_id s' = next_object_id s \<and> next_addr s' = next_addr s \<and> kobj.more s' = kobj.more s \<and>
           (\<forall>h. load_hub h s' = None \<longleftrightarrow> load_hub h s = None) \<and>
           (\<forall>p. load_port (Dev_port d) s' = Some p \<longrightarrow> p_peer p = None) \<and>
           (\<forall>ob'. load_obj d s' = Some ob' \<longrightarrow> \<not> obj_registered ob') \<and>
           load_obj d s' = (if held d = 0 then None else Some (ob\<lparr>obj_registered := False, obj_refcount := held d\<rparr>)))"
proof -
  from wf ob(1) obtain pu where pu: "load_port (Dev_port d) s = Some pu" by (rule dev_port_alloc)
  have finish: "runs (virtusb_object_unregister (Some d) t) (\<lambda>(ret, s').
      ret = 0 \<and> dev_wf held s' \<and> registry s' = xa_erase (ucast (obj_id ob)) (registry s) \<and> hubs_report s s' \<and>
      (\<forall>e. e \<noteq> d \<longrightarrow> load_obj e s' = load_obj e s \<and> load_port (Dev_port e) s' = load_port (Dev_port e) s) \<and>
      next_object_id s' = next_object_id s \<and> next_addr s' = next_addr s \<and> kobj.more s' = kobj.more s \<and>
      (\<forall>h. load_hub h s' = None \<longleftrightarrow> load_hub h s = None) \<and>
      (\<forall>p. load_port (Dev_port d) s' = Some p \<longrightarrow> p_peer p = None) \<and>
      (\<forall>ob'. load_obj d s' = Some ob' \<longrightarrow> \<not> obj_registered ob') \<and>
      load_obj d s' = (if held d = 0 then None else Some (ob\<lparr>obj_registered := False, obj_refcount := held d\<rparr>)))"
    if t: "dev_wf held t" "layout s t" "load_port (Dev_port d) t = Some p" "p_peer p = None"
      "\<forall>e. e \<noteq> d \<longrightarrow> load_port (Dev_port e) t = load_port (Dev_port e) s" "changes_reported s t" for t p
  proof -
    note lay = layout_objects [OF t(2)] layout_hubs [OF t(2)]
    have ob': "load_obj d t = Some ob" using ob(1) lay(1) by simp
    note u = virtusb_object_unregister_ok [OF t(1) ob' t(3,4)]
    let ?held = "held(d := Suc (held d))"
    have w: "dev_wf ?held (withdrawn d ob t)" by (rule dev_wf_withdrawn [OF t(1) ob' ob(2) t(3,4)])
    let ?w = "withdrawn d ob t"
    let ?s' = "put_result ?held d ?w"
    have w_sel: "load_obj e ?w = (if e = d then Some (ob\<lparr>obj_registered := False\<rparr>) else load_obj e s)"
      "load_port a ?w = load_port a t" "load_hub h ?w = load_hub h t" "kobj.more ?w = kobj.more s"
      "registry ?w = xa_erase (ucast (obj_id ob)) (registry s)" "next_object_id ?w = next_object_id s"
      "next_addr ?w = next_addr s" for e a h
      by (simp_all add: withdrawn_def lay)
    have w_events: "events ?w = events t" by (simp add: withdrawn_def)
    have refs: "obj_refcount ob = Suc (held d)"
      using obj_wfD(1) [OF dev_wfD(2) [OF wf] ob(1)] ob(2) by (simp add: obj_ok_def)
    have obj': "load_obj e ?s' = (if e \<noteq> d then load_obj e s else
        if held d = 0 then None else Some (ob\<lparr>obj_registered := False, obj_refcount := held d\<rparr>))" for e
      using refs by (simp add: load_obj_put_result w_sel(1))
    have port': "load_port (Dev_port e) ?s' = load_port (Dev_port e) s" if "e \<noteq> d" for e
      using that t(5) by (simp add: load_port_put_result [OF w] w_sel(2))
    have "p_peer q = None" if "load_port (Dev_port d) ?s' = Some q" for q
      using that t(3,4) by (auto simp: load_port_put_result [OF w] w_sel(2) split: if_splits)
    moreover have "hubs_report t ?s'"
      by (rule hubs_report_unplugged [OF dev_wfD(1) [OF t(1)], of d])
         (use t(3,4) in \<open>auto simp: load_port_put_result [OF w] w_sel(2,3) w_events\<close>)
    then have "hubs_report s ?s'" by (rule hubs_report_trans [OF hubs_reportI [OF t(6,2)]])
    ultimately show ?thesis
      using u(1) u(2) [OF ob(2)] ob(2) obj' port' w_sel(3-7) lay(6) by auto
  qed
  show ?thesis
  proof (cases "p_peer pu")
    case None
    with pu finish [OF wf layout_refl pu None] show ?thesis by (simp add: virtusb_device_destroy_def)
  next
    case (Some b)
    from disconnect_ok [OF wf ob(1)] obtain t ret where
      t: "(do { (ret, s) \<leftarrow> virtusb_device_set_connection_signaling (Some d) False s;
           if ret < 0 then Some (ret, s)
           else do { s \<leftarrow> virtusb_device_detach (Some d) s; Some (ret, s) } }) = Some (ret, t)"
      "ret = 0" "dev_wf held t" "layout s t" "\<exists>p. load_port (Dev_port d) t = Some p \<and> p_peer p = None"
      "\<forall>e. e \<noteq> d \<longrightarrow> load_port (Dev_port e) t = load_port (Dev_port e) s"
      "changes_reported s t"
      unfolding runs_iff by blast
    from t(5) obtain p where p: "load_port (Dev_port d) t = Some p" "p_peer p = None" by blast
    from t(1,2) have "virtusb_device_destroy (Some d) True s = virtusb_object_unregister (Some d) t"
      using pu Some by (auto simp: virtusb_device_destroy_def split: bind_splits if_splits)
    with finish [OF t(3,4) p t(6,7)] show ?thesis by simp
  qed
qed

lemma lookup_first_ok:
  assumes wf: "dev_wf held s"
  shows "virtusb_object_lookup_first_by_type VIRTUSB_OBJECT_TYPE_DEVICE s =
      (case xa_entries (registry s) of
         [] \<Rightarrow> Some (None, s)
       | (i, d) # _ \<Rightarrow> Some (Some d, put_obj d (the (load_obj d s)\<lparr>obj_refcount := obj_refcount (the (load_obj d s)) + 1\<rparr>) s))"
proof (cases "xa_entries (registry s)")
  case (Cons e es)
  obtain i d where e: "e = (i, d)" by fastforce
  with Cons have "(i, d) \<in> set (xa_entries (registry s))" by simp
  then have "xa_load (registry s) i = Some d" by (simp add: xa.entries_load)
  then obtain ob where ob: "load_obj d s = Some ob" "obj_registered ob"
    using obj_wfD(4) [OF dev_wfD(2) [OF wf]] by blast
  then have "obj_type ob = VIRTUSB_OBJECT_TYPE_DEVICE"
    using obj_wfD(1) [OF dev_wfD(2) [OF wf]] by (simp add: obj_ok_def)
  with Cons e ob show ?thesis
    by (simp add: virtusb_object_lookup_first_by_type_def virtusb_object_get_def)
qed (simp add: virtusb_object_lookup_first_by_type_def)

text \<open>Each round of the loop withdraws the device it found, so the registry shrinks.\<close>

lemma virtusb_device_shutdown_all_ok:
  assumes "dev_wf held s"
  shows "runs (virtusb_device_shutdown_all s) (\<lambda>s'. dev_wf held s' \<and> xa_empty (registry s') \<and>
           next_object_id s' = next_object_id s \<and> next_addr s' = next_addr s \<and> kobj.more s' = kobj.more s \<and>
           (\<forall>h. load_hub h s' = None \<longleftrightarrow> load_hub h s = None))"
  using assms
proof (induction "length (xa_entries (registry s))" arbitrary: s rule: less_induct)
  case less
  note wf = less.prems
  show ?case
  proof (cases "xa_entries (registry s)")
    case Nil
    then show ?thesis
      using wf by (simp add: virtusb_device_shutdown_all.simps [of s] lookup_first_ok [OF wf] xa.empty_iff)
  next
    case (Cons e es)
    obtain i d where e: "e = (i, d)" by fastforce
    with Cons have "(i, d) \<in> set (xa_entries (registry s))" by simp
    then have i: "xa_load (registry s) i = Some d" by (simp add: xa.entries_load)
    then obtain ob where ob: "load_obj d s = Some ob" "obj_registered ob" "i = ucast (obj_id ob)"
      using obj_wfD(4) [OF dev_wfD(2) [OF wf]] by blast
    let ?ob = "ob\<lparr>obj_refcount := obj_refcount ob + 1\<rparr>" and ?held = "held(d := Suc (held d))"
    let ?s1 = "put_obj d ?ob s"
    have wf1: "dev_wf ?held ?s1" using virtusb_object_get_ok(2) [OF wf ob(1)] by simp
    have "load_obj d ?s1 = Some ?ob" "obj_registered ?ob" using ob by simp_all
    from virtusb_device_destroy_forced [OF wf1 this] obtain s2 where
      s2: "virtusb_device_destroy (Some d) True ?s1 = Some (0, s2)" "dev_wf ?held s2"
        "registry s2 = xa_erase i (registry s)" "next_object_id s2 = next_object_id s"
        "next_addr s2 = next_addr s" "kobj.more s2 = kobj.more s" "\<forall>h. load_hub h s2 = None \<longleftrightarrow> load_hub h s = None"
      using ob(3) by (auto simp: runs_iff)
    let ?s3 = "put_result ?held d s2"
    have put: "virtusb_object_put (Some d) s2 = Some ?s3" "dev_wf held ?s3"
      using virtusb_object_put_ok [OF s2(2), of d] by simp_all
    have "length (xa_entries (registry ?s3)) < length (xa_entries (registry s))"
      using xa.length_erase [OF i] s2(3) by simp
    from less.hyps [OF this put(2)] s2(4-7)
    have "runs (virtusb_device_shutdown_all ?s3) (\<lambda>s'. dev_wf held s' \<and> xa_empty (registry s') \<and>
        next_object_id s' = next_object_id s \<and> next_addr s' = next_addr s \<and> kobj.more s' = kobj.more s \<and>
        (\<forall>h. load_hub h s' = None \<longleftrightarrow> load_hub h s = None))" by simp
    moreover have "virtusb_device_shutdown_all s = virtusb_device_shutdown_all ?s3"
      using Cons e ob s2(1) put(1)
      by (simp add: virtusb_device_shutdown_all.simps [of s] lookup_first_ok [OF wf])
    ultimately show ?thesis by simp
  qed
qed

section \<open>Creation\<close>

definition upstream_port :: "nat \<Rightarrow> u8 \<Rightarrow> virtusb_port" where
  "upstream_port d speed = zero_port\<lparr>p_role := VIRTUSB_PORT_ROLE_UPSTREAM, p_owner := Some (Own_dev d), p_speed := speed\<rparr>"

definition new_object :: virtusb_object where
  "new_object = \<lparr>obj_id = 0, obj_type = VIRTUSB_OBJECT_TYPE_INVALID, obj_refcount = 1,
     obj_release = Some Virtusb_device_release, obj_registered = False\<rparr>"

definition with_device :: "virtusb_port \<Rightarrow> 'a kobj_scheme \<Rightarrow> 'a kobj_scheme" where
  "with_device p s = s\<lparr>next_addr := Suc (next_addr s), objects := (objects s)(next_addr s \<mapsto> new_object),
     dev_ports := (dev_ports s)(next_addr s \<mapsto> p)\<rparr>"

lemma with_device_sel [simp]:
  "load_obj d (with_device p s) = (if d = next_addr s then Some new_object else load_obj d s)"
  "load_port a (with_device p s) = (if a = Dev_port (next_addr s) then Some p else load_port a s)"
  "load_hub h (with_device p s) = load_hub h s"
  "dev_ports (with_device p s) = (dev_ports s)(next_addr s \<mapsto> p)"
  "registry (with_device p s) = registry s"
  "next_object_id (with_device p s) = next_object_id s"
  "next_addr (with_device p s) = Suc (next_addr s)"
  "events (with_device p s) = events s"
  "kobj.more (with_device p s) = kobj.more s"
  by (cases a; simp add: with_device_def load_obj_def load_hub_def load_port.simps)+

lemma next_addr_free:
  assumes "dev_wf held s"
  shows "load_obj (next_addr s) s = None" and "dev_ports s (next_addr s) = None" and "held (next_addr s) = 0"
proof -
  show 1: "load_obj (next_addr s) s = None"
    using obj_wfD(1) [OF dev_wfD(2) [OF assms], of "next_addr s"] by (cases "load_obj (next_addr s) s") (auto simp: obj_ok_def)
  with dev_wfD(3) [OF assms] show "dev_ports s (next_addr s) = None" by blast
  from 1 obj_wfD(2) [OF dev_wfD(2) [OF assms]] show "held (next_addr s) = 0" by blast
qed

lemma dev_wf_with_device:
  assumes wf: "dev_wf held s" and speed: "virtusb_port_speed_is_valid speed"
  shows "dev_wf (held(next_addr s := 1)) (with_device (upstream_port (next_addr s) speed) s)"
proof -
  let ?d = "next_addr s" and ?p = "upstream_port (next_addr s) speed"
  let ?s' = "with_device ?p s" and ?held = "held(next_addr s := 1)"
  note free = next_addr_free [OF wf] and obj = obj_wfD [OF dev_wfD(2) [OF wf]]
  have "topo_wf (s\<lparr>dev_ports := (dev_ports s)(?d := Some ?p)\<rparr>)"
    by (rule topo_wf_cell [OF dev_wfD(1) [OF wf]])
       (use free speed in \<open>auto simp: load_port.simps upstream_port_def port_ok_def\<close>)
  then have "topo_wf ?s'"
    by (rule subst [OF topo_wf_cong, rotated 2]) (simp_all add: load_port_cell)
  moreover have "obj_wf ?held ?s'"
    unfolding obj_wf_def
  proof (intro conjI allI impI)
    fix e o' assume "load_obj e ?s' = Some o'"
    then show "obj_ok ?held ?s' e o'"
      using obj(1) [of e o'] obj(5)
      by (auto simp: obj_ok_def new_object_def word_less_nat_alt split: if_splits)
  next
    fix e assume "load_obj e ?s' = None"
    then show "?held e = 0" using obj(2) by (auto split: if_splits)
  next
    fix e f o1 o2
    assume "load_obj e ?s' = Some o1" "load_obj f ?s' = Some o2" "obj_id o1 = obj_id o2" "obj_id o1 \<noteq> 0"
    then show "e = f" using obj(3) [of e o1 f o2] by (auto simp: new_object_def split: if_splits)
  next
    fix i :: u64 and e
    show "(xa_load (registry ?s') i = Some e) =
        (\<exists>o'. load_obj e ?s' = Some o' \<and> obj_registered o' \<and> i = ucast (obj_id o'))"
      using obj(4) [of i e] free(1) by (auto simp: new_object_def)
  qed (use obj(5,6) in simp_all)
  ultimately show ?thesis
    using wf unfolding dev_wf_def by (auto simp: upstream_port_def split: if_splits)
qed

text \<open>On failure nothing is left of the allocation but the address it used up.\<close>

definition used_addr :: "'a kobj_scheme \<Rightarrow> 'a kobj_scheme" where
  "used_addr s = s\<lparr>next_addr := Suc (next_addr s)\<rparr>"

lemma free_with_device:
  assumes "dev_wf held s"
  shows "free_object (next_addr s) (put_obj (next_addr s) ob (with_device p s)) = used_addr s"
  using next_addr_free [OF assms]
  by (simp add: free_object_def with_device_def put_obj_def used_addr_def fun_upd_idem load_obj_def)

lemma used_addr_sel [simp]:
  "load_obj d (used_addr s) = load_obj d s"
  "load_port a (used_addr s) = load_port a s"
  "load_hub h (used_addr s) = load_hub h s"
  "dev_ports (used_addr s) = dev_ports s"
  "registry (used_addr s) = registry s"
  "next_object_id (used_addr s) = next_object_id s"
  "next_addr (used_addr s) = Suc (next_addr s)"
  "events (used_addr s) = events s"
  "kobj.more (used_addr s) = kobj.more s"
  by (cases a; simp add: used_addr_def load_obj_def load_hub_def load_port.simps)+

lemma dev_wf_used_addr:
  assumes "dev_wf held s" shows "dev_wf held (used_addr s)"
proof -
  have "obj_ok held s d ob \<Longrightarrow> obj_ok held (used_addr s) d ob" for d ob by (auto simp: obj_ok_def)
  with dev_wfD(2) [OF assms] have "obj_wf held (used_addr s)"
    unfolding obj_wf_def used_addr_sel by blast
  with assms show ?thesis unfolding dev_wf_def by (simp cong: topo_wf_cong)
qed

lemma virtusb_device_create_cases:
  assumes wf: "dev_wf held s"
  shows "virtusb_device_create mem xa_mem speed s =
      (if \<not> mem then Some (Inl (- ENOMEM), s)
       else if \<not> virtusb_port_speed_is_valid speed then Some (Inl (- EINVAL), used_addr s)
       else if next_object_id s > U32_MAX then Some (Inl (- ENOSPC), used_addr s)
       else if \<not> xa_mem then Some (Inl (- ENOMEM), used_addr s)
       else Some (Inr (next_addr s), registered (next_addr s) new_object
                   (with_device (upstream_port (next_addr s) speed) s)))"
proof -
  let ?d = "next_addr s"
  note free = next_addr_free [OF wf]
  have alloc: "virtusb_object_alloc mem SIZEOF_VIRTUSB_DEVICE (Some Virtusb_device_release) s =
      (if mem then (Some ?d, with_device zero_port s) else (None, s))"
    by (simp add: virtusb_object_alloc_def SIZEOF_VIRTUSB_DEVICE_def SIZEOF_VIRTUSB_OBJECT_def
        with_device_def new_object_def Let_def)
  have put: "virtusb_object_put (Some ?d) (with_device p s) = Some (used_addr s)" if "p_peer p = None" for p
  proof -
    have "virtusb_object_put (Some ?d) (with_device p s) =
        Some (free_object ?d (put_obj ?d (new_object\<lparr>obj_refcount := 0\<rparr>) (with_device p s)))"
      using that by (simp add: virtusb_object_put_def virtusb_object_release_kref_def virtusb_device_release_def
          WARN_ON_def new_object_def)
    then show ?thesis by (simp add: free_with_device [OF wf])
  qed
  show ?thesis
  proof (cases "virtusb_port_speed_is_valid speed")
    case False
    then show ?thesis
      using put [of zero_port] by (simp add: virtusb_device_create_def alloc virtusb_port_init_def)
  next
    case True
    let ?t = "with_device (upstream_port ?d speed) s"
    have "put_port (Dev_port ?d) (upstream_port ?d speed) (with_device zero_port s) = ?t"
      by (simp add: put_port.simps with_device_def)
    then have init: "virtusb_port_init (Some (Dev_port ?d)) VIRTUSB_PORT_ROLE_UPSTREAM speed (Some (Own_dev ?d))
        (with_device zero_port s) = Some (0, ?t)"
      using True by (simp add: virtusb_port_init_ok upstream_port_def)
    have reg: "virtusb_object_register xa_mem (Some ?d) VIRTUSB_OBJECT_TYPE_DEVICE ?t =
        (if next_object_id ?t > U32_MAX then Some (- ENOSPC, ?t)
         else if \<not> xa_mem then Some (- ENOMEM, ?t) else Some (0, registered ?d new_object ?t))"
      by (rule virtusb_object_register_ok [OF dev_wfD(2) [OF dev_wf_with_device [OF wf True]]])
         (simp_all add: new_object_def)
    have "p_peer (upstream_port ?d speed) = None" by (simp add: upstream_port_def)
    with True init reg put [OF this] show ?thesis by (simp add: virtusb_device_create_def alloc)
  qed
qed

lemma dev_wf_create:
  assumes wf: "dev_wf held s" and speed: "virtusb_port_speed_is_valid speed" and n: "\<not> next_object_id s > U32_MAX"
  shows "dev_wf (held(next_addr s := 1)) (registered (next_addr s) new_object
           (with_device (upstream_port (next_addr s) speed) s))"
  using n by (intro dev_wf_registered [OF dev_wf_with_device [OF wf speed]]) (simp_all add: new_object_def)

section \<open>The concrete topology with its objects\<close>

text \<open>The two devices of the example are registered under the IDs 1 and 2.\<close>

definition example_object :: "u32 \<Rightarrow> virtusb_object" where
  "example_object oid = \<lparr>obj_id = oid, obj_type = VIRTUSB_OBJECT_TYPE_DEVICE, obj_refcount = 1,
     obj_release = Some Virtusb_device_release, obj_registered = True\<rparr>"

definition example_kobj :: kobj where
  "example_kobj = \<lparr>dev_ports = dev_ports example_topo, hubs = hubs example_topo, events = [],
     objects = [1 \<mapsto> example_object 1, 2 \<mapsto> example_object 2],
     registry = xa_store_new 2 2 (xa_store_new 1 1 xa_none), next_object_id = 3, next_addr = 3\<rparr>"

lemma example_registry:
  "xa_load (registry example_kobj) i = (if i = 2 then Some 2 else if i = 1 then Some 1 else None)"
  by (simp add: example_kobj_def xa.load_insert xa.load_empty)

lemma dev_wf_example_gen:
  fixes s :: "'a kobj_scheme"
  assumes s: "dev_ports s = dev_ports example_topo" "hubs s = hubs example_topo"
      "objects s = objects example_kobj" "registry s = registry example_kobj" "next_object_id s = 3" "3 \<le> next_addr s"
  shows "dev_wf (\<lambda>_. 0) s"
proof -
  have load: "load_obj d s = (if d = 1 then Some (example_object 1) else if d = 2 then Some (example_object 2) else None)" for d
    by (simp add: load_obj_def s example_kobj_def)
  have wf: "topo_wf s" by (rule topo_wf_example_gen) (simp_all add: s example_topo_def)
  have obj: "obj_wf (\<lambda>_. 0) s"
    unfolding obj_wf_def
  proof (intro conjI allI impI)
    fix d ob assume "load_obj d s = Some ob"
    then show "obj_ok (\<lambda>_. 0) s d ob"
      using s(6) by (auto simp: load obj_ok_def example_object_def s(5) split: if_splits)
  next
    fix d e o1 o2
    assume "load_obj d s = Some o1" "load_obj e s = Some o2" "obj_id o1 = obj_id o2" "obj_id o1 \<noteq> 0"
    then show "d = e" by (auto simp: load example_object_def split: if_splits)
  next
    fix i d
    show "(xa_load (registry s) i = Some d) =
        (\<exists>ob. load_obj d s = Some ob \<and> obj_registered ob \<and> i = ucast (obj_id ob))"
      by (auto simp: s(4) example_registry load example_object_def)
  qed (simp_all add: s(5))
  have "p_role p = VIRTUSB_PORT_ROLE_UPSTREAM" if "load_port (Dev_port d) s = Some p" for d p
    using that by (auto simp: load_port.simps s example_topo_def example_upstream_def example_unplugged_def split: if_splits)
  moreover have "dev_ports s d = None \<longleftrightarrow> load_obj d s = None" for d
    by (simp add: load s example_topo_def)
  moreover have "obj_registered ob" if "load_obj d s = Some ob" for d ob
    using that by (auto simp: load example_object_def split: if_splits)
  ultimately show ?thesis using wf obj unfolding dev_wf_def by blast
qed

lemma dev_wf_example: "dev_wf (\<lambda>_. 0) example_kobj"
  by (rule dev_wf_example_gen) (simp_all add: example_kobj_def)

lemma load_obj_example: "load_obj 1 example_kobj = Some (example_object 1)"
  by (simp add: load_obj_def example_kobj_def)

section \<open>Properties of objects and devices\<close>

lemma virtusb_device_create_ok:
  assumes "dev_wf held s"
  shows "runs (virtusb_device_create mem xa_mem speed s) (\<lambda>(r, s'). kobj.more s' = kobj.more s \<and> next_addr s \<le> next_addr s' \<and>
    (\<forall>h. load_hub h s' = load_hub h s) \<and>
    (case r of
      Inl e \<Rightarrow> dev_wf held s' \<and> (\<forall>d. load_obj d s' = load_obj d s) \<and> registry s' = registry s \<and>
        next_object_id s' = next_object_id s \<and> e < 0 \<and>
        (\<not> mem \<or> \<not> virtusb_port_speed_is_valid speed \<or> next_object_id s > U32_MAX \<or> \<not> xa_mem)
    | Inr d \<Rightarrow> dev_wf (held(d := 1)) s' \<and> load_obj d s = None \<and> next_object_id s' = next_object_id s + 1 \<and>
        (\<exists>ob. load_obj d s' = Some ob \<and> obj_registered ob \<and> obj_type ob = VIRTUSB_OBJECT_TYPE_DEVICE \<and>
              obj_refcount ob = 2 \<and> unat (obj_id ob) = unat (next_object_id s)) \<and>
        load_port (Dev_port d) s' = Some (upstream_port d speed) \<and>
        (\<forall>e. e \<noteq> d \<longrightarrow> load_obj e s' = load_obj e s \<and> load_port (Dev_port e) s' = load_port (Dev_port e) s)))"
proof -
  have "unat (ucast (next_object_id s) :: u32) = unat (next_object_id s)" if "\<not> next_object_id s > U32_MAX"
    using that by (intro id_conversions) simp
  with next_addr_free(1) [OF assms] show ?thesis
    using assms dev_wf_used_addr [OF assms] dev_wf_create [OF assms]
    by (auto simp: virtusb_device_create_cases [OF assms] registered_def registered_object_def new_object_def)
qed

text \<open>\<open>virtusb_device_create\<close> either fails with a reason and leaves no object behind, or
  publishes a new, detached, silent device under the next unused ID, with one reference for the
  registry and one for the caller, and takes the ID out of use for ever.\<close>

theorem device_create_outcome:
  assumes "dev_wf held s"
  shows "runs (virtusb_device_create mem xa_mem speed s) (\<lambda>(r, s').
    case r of
      Inl e \<Rightarrow> dev_wf held s' \<and> (\<forall>d. load_obj d s' = load_obj d s) \<and> registry s' = registry s \<and>
        next_object_id s' = next_object_id s \<and> e < 0 \<and>
        (\<not> mem \<or> \<not> virtusb_port_speed_is_valid speed \<or> next_object_id s > U32_MAX \<or> \<not> xa_mem)
    | Inr d \<Rightarrow> dev_wf (held(d := 1)) s' \<and> load_obj d s = None \<and> next_object_id s' = next_object_id s + 1 \<and>
        (\<exists>ob. load_obj d s' = Some ob \<and> obj_registered ob \<and> obj_type ob = VIRTUSB_OBJECT_TYPE_DEVICE \<and>
              obj_refcount ob = 2 \<and> unat (obj_id ob) = unat (next_object_id s)) \<and>
        load_port (Dev_port d) s' = Some (upstream_port d speed) \<and>
        (\<forall>e. e \<noteq> d \<longrightarrow> load_obj e s' = load_obj e s \<and> load_port (Dev_port e) s' = load_port (Dev_port e) s))"
  by (rule runs_mono [OF virtusb_device_create_ok [OF assms]]) auto

theorem device_create_outcome_witness:
  "runs (virtusb_device_create True True 3 example_kobj) (\<lambda>(r, s').
     r = Inr 3 \<and> dev_wf ((\<lambda>_. 0)(3 := 1)) s' \<and> next_object_id s' = 4)"
proof -
  have v: "virtusb_port_speed_is_valid 3" by (simp add: virtusb_port_speed_is_valid_def)
  have n: "next_addr example_kobj = 3" "next_object_id example_kobj = 3" by (simp_all add: example_kobj_def)
  have "virtusb_device_create True True 3 example_kobj = Some (Inr 3, s') \<Longrightarrow>
      dev_wf ((\<lambda>_. 0)(3 := 1)) s' \<and> next_object_id s' = 4" for s'
    using device_create_outcome [OF dev_wf_example, of True True 3] by (simp add: n)
  then show ?thesis by (simp add: virtusb_device_create_cases [OF dev_wf_example] v n)
qed

lemma virtusb_object_lookup_held:
  assumes "dev_wf held s"
  shows "runs (virtusb_object_lookup oid s) (\<lambda>(r, s').
    case r of
      None \<Rightarrow> s' = s \<and> (\<forall>d ob. load_obj d s = Some ob \<longrightarrow> obj_registered ob \<longrightarrow> obj_id ob \<noteq> oid)
    | Some d \<Rightarrow> dev_wf (held(d := Suc (held d))) s' \<and>
        (\<exists>ob. load_obj d s = Some ob \<and> obj_registered ob \<and> obj_id ob = oid \<and>
              s' = put_obj d (ob\<lparr>obj_refcount := obj_refcount ob + 1\<rparr>) s))"
proof (cases "oid = 0 \<or> xa_load (registry s) (ucast oid) = None")
  case True
  have "obj_id ob \<noteq> oid" if "load_obj d s = Some ob" "obj_registered ob" for d ob
  proof -
    from that obj_wfD(4) [OF dev_wfD(2) [OF assms]] have "xa_load (registry s) (ucast (obj_id ob)) = Some d" by blast
    moreover from that obj_wfD(1) [OF dev_wfD(2) [OF assms]] have "obj_id ob \<noteq> 0" by (auto simp: obj_ok_def)
    ultimately show ?thesis using True by auto
  qed
  with True show ?thesis by (auto simp: virtusb_object_lookup_ok [OF assms])
next
  case False
  then obtain d where d: "xa_load (registry s) (ucast oid) = Some d" by auto
  then obtain ob where ob: "load_obj d s = Some ob" "obj_registered ob" "(ucast oid :: u64) = ucast (obj_id ob)"
    using obj_wfD(4) [OF dev_wfD(2) [OF assms]] by blast
  then have id: "obj_id ob = oid" by (simp only: ucast_id_inj)
  have "virtusb_object_lookup oid s = Some (Some d, put_obj d (ob\<lparr>obj_refcount := obj_refcount ob + 1\<rparr>) s)"
    using False d ob(1) by (simp add: virtusb_object_lookup_ok [OF assms])
  with virtusb_object_get_ok(2) [OF assms ob(1)] ob(1,2) id show ?thesis by simp
qed

text \<open>A device that was created is found by its ID until it is unregistered, and never
  after; the lookup gives the caller a reference of its own.\<close>

theorem object_lookup_outcome:
  assumes "dev_wf held s"
  shows "runs (virtusb_object_lookup oid s) (\<lambda>(r, s').
    case r of
      None \<Rightarrow> s' = s \<and> (\<forall>d ob. load_obj d s = Some ob \<longrightarrow> obj_registered ob \<longrightarrow> obj_id ob \<noteq> oid)
    | Some d \<Rightarrow> dev_wf (held(d := Suc (held d))) s' \<and>
        (\<exists>ob. load_obj d s = Some ob \<and> obj_registered ob \<and> obj_id ob = oid \<and>
              s' = put_obj d (ob\<lparr>obj_refcount := obj_refcount ob + 1\<rparr>) s))"
  by (rule virtusb_object_lookup_held [OF assms])

theorem object_lookup_outcome_witness:
  "runs (virtusb_object_lookup 1 example_kobj) (\<lambda>(r, s'). r = Some 1 \<and> dev_wf ((\<lambda>_. 0)(1 := 1)) s')"
proof -
  have "virtusb_object_lookup 1 example_kobj = Some (Some 1, s') \<Longrightarrow> dev_wf ((\<lambda>_. 0)(1 := 1)) s'" for s'
    using object_lookup_outcome [OF dev_wf_example, of 1] by simp
  then show ?thesis by (simp add: virtusb_object_lookup_ok [OF dev_wf_example] example_registry)
qed

text \<open>When no device is registered, none is attached.\<close>

lemma nothing_attached:
  assumes wf: "dev_wf held s" and empty: "xa_empty (registry s)"
  shows "load_port (Dev_port d) s = Some p \<Longrightarrow> p_peer p = None"
    and "load_hub h s = Some hub \<Longrightarrow> hub_idle hub"
proof -
  have free: "p_peer p = None" if p: "load_port (Dev_port d) s = Some p" for d p
  proof (rule ccontr)
    assume "p_peer p \<noteq> None"
    moreover from wf p obtain ob where ob: "load_obj d s = Some ob" by (rule dev_obj_alloc)
    ultimately have "obj_registered ob" using dev_wfD(5) [OF wf p] by blast
    with ob obj_wfD(4) [OF dev_wfD(2) [OF wf]] empty show False by (auto simp: xa.is_empty_load)
  qed
  have "hub_idle hub" if h: "load_hub h s = Some hub" for h hub
    unfolding hub_idle_def
  proof
    fix p assume "p \<in> set (hub_ports hub)"
    then obtain i where "i < length (hub_ports hub)" "hub_ports hub ! i = p" by (auto simp: in_set_conv_nth)
    with h have "load_port (Hub_port h i) s = Some p" by (simp add: load_port.simps)
    with free peer_of_hub_port [OF topo_wf_ports [OF dev_wfD(1) [OF wf]] this]
    show "p_peer p = None" by (cases "p_peer p") (blast, fastforce)
  qed
  with free show "load_port (Dev_port d) s = Some p \<Longrightarrow> p_peer p = None"
    "load_hub h s = Some hub \<Longrightarrow> hub_idle hub" by blast+
qed

text \<open>C4: shutting down terminates: whatever is registered and however it is attached, every
  device is disconnected, detached and unregistered, no reference is lost and no freed memory
  is touched.\<close>

theorem device_shutdown_all_terminates:
  assumes "dev_wf held s"
  shows "\<exists>s'. virtusb_device_shutdown_all s = Some s' \<and> dev_wf held s' \<and> xa_empty (registry s') \<and>
           (\<forall>d p. load_port (Dev_port d) s' = Some p \<longrightarrow> p_peer p = None) \<and>
           (\<forall>h hub. load_hub h s' = Some hub \<longrightarrow> hub_idle hub)"
proof -
  from virtusb_device_shutdown_all_ok [OF assms] obtain s' where
    s': "virtusb_device_shutdown_all s = Some s'" "dev_wf held s'" "xa_empty (registry s')"
    by (auto simp: runs_iff)
  with nothing_attached [OF s'(2,3)] show ?thesis by blast
qed

theorem device_shutdown_all_terminates_witness:
  "\<exists>s'. virtusb_device_shutdown_all example_kobj = Some s' \<and> xa_empty (registry s')"
  using device_shutdown_all_terminates [OF dev_wf_example] by blast

lemma if_refusals_mono:
  "(if b then B else if c then C else P) \<Longrightarrow> (P \<Longrightarrow> Q) \<Longrightarrow> (if b then B else if c then C else Q)"
  by (simp split: if_splits)

lemma virtusb_device_destroy_ok:
  assumes "dev_wf held s" and "load_obj d s = Some ob" and "load_port (Dev_port d) s = Some p"
  shows "runs (virtusb_device_destroy (Some d) force s) (\<lambda>(ret, s').
    hubs_report s s' \<and>
    dev_wf held s' \<and> kobj.more s' = kobj.more s \<and> next_addr s' = next_addr s \<and>
    (\<forall>h. load_hub h s' = None \<longleftrightarrow> load_hub h s = None) \<and>
    (if p_peer p \<noteq> None \<and> \<not> force then ret = - EBUSY \<and> s' = s
     else if \<not> obj_registered ob then ret = - ENOENT \<and> s' = s
     else ret = 0 \<and> registry s' = xa_erase (ucast (obj_id ob)) (registry s) \<and>
          (\<forall>q. load_port (Dev_port d) s' = Some q \<longrightarrow> p_peer q = None) \<and>
          (\<forall>ob'. load_obj d s' = Some ob' \<longrightarrow> \<not> obj_registered ob') \<and>
          load_obj d s' = (if held d = 0 then None else Some (ob\<lparr>obj_registered := False, obj_refcount := held d\<rparr>)) \<and>
          (\<forall>e. e \<noteq> d \<longrightarrow> load_obj e s' = load_obj e s \<and> load_port (Dev_port e) s' = load_port (Dev_port e) s)))"
proof -
  consider (busy) "p_peer p \<noteq> None" "\<not> force" | (gone) "p_peer p = None" "\<not> obj_registered ob"
    | (ok) "p_peer p = None \<or> force" "obj_registered ob"
    using dev_wfD(5) [OF assms(1,3,2)] by (cases "p_peer p = None"; cases force) auto
  then show ?thesis
  proof cases
    case busy
    with assms show ?thesis by (auto simp: virtusb_device_destroy_def)
  next
    case gone
    with assms virtusb_object_unregister_ok(1) [OF assms gone(1)] show ?thesis
      by (simp add: virtusb_device_destroy_def)
  next
    case ok
    then have "virtusb_device_destroy (Some d) force s = virtusb_device_destroy (Some d) True s"
      using assms(3) by (auto simp: virtusb_device_destroy_def)
    with virtusb_device_destroy_forced [OF assms(1,2) ok(2)] ok show ?thesis
      by (auto elim!: runs_mono)
  qed
qed

text \<open>C5: destroying an attached device needs force and is refused with -EBUSY otherwise; an
  object that is no longer registered gives -ENOENT; in all other cases the device is withdrawn
  from the registry and detached, and loses the reference of the registry and no other: it is
  freed, its port with it, exactly when nobody held a reference to it; a caller that holds one
  (\<open>held\<close>, as every caller that looked the device up does) keeps it, to put it later.\<close>

theorem device_destroy_outcome:
  assumes "dev_wf held s" and "load_obj d s = Some ob" and "load_port (Dev_port d) s = Some p"
  shows "runs (virtusb_device_destroy (Some d) force s) (\<lambda>(ret, s').
    dev_wf held s' \<and>
    (if p_peer p \<noteq> None \<and> \<not> force then ret = - EBUSY \<and> s' = s
     else if \<not> obj_registered ob then ret = - ENOENT \<and> s' = s
     else ret = 0 \<and> registry s' = xa_erase (ucast (obj_id ob)) (registry s) \<and>
          (\<forall>q. load_port (Dev_port d) s' = Some q \<longrightarrow> p_peer q = None) \<and>
          load_obj d s' = (if held d = 0 then None else Some (ob\<lparr>obj_registered := False, obj_refcount := held d\<rparr>)) \<and>
          (load_port (Dev_port d) s' = None \<longleftrightarrow> held d = 0) \<and>
          (\<forall>e. e \<noteq> d \<longrightarrow> load_obj e s' = load_obj e s \<and> load_port (Dev_port e) s' = load_port (Dev_port e) s)))"
proof (rule runs_mono [OF virtusb_device_destroy_ok [OF assms]], clarify, goal_cases)
  case (1 ret s')
  have port: "load_port (Dev_port d) s' = None \<longleftrightarrow> load_obj d s' = None"
    using dev_wfD(3) [OF 1(2), of d] by (simp add: load_port.simps)
  have freed: "load_port (Dev_port d) s' = None \<longleftrightarrow> held d = 0"
    if "load_obj d s' = (if held d = 0 then None else Some ob')" for ob'
    unfolding port that by simp
  from 1(6) show ?case by (rule if_refusals_mono) (use freed in blast)
qed

theorem device_destroy_outcome_witness:
  "runs (virtusb_device_destroy (Some 1) False example_kobj) (\<lambda>(ret, s'). ret = - EBUSY \<and> s' = example_kobj) \<and>
   runs (virtusb_device_destroy (Some 1) True example_kobj) (\<lambda>(ret, s'). ret = 0 \<and> load_obj 1 s' = None)"
proof -
  have "load_port (Dev_port 1) example_kobj = Some example_upstream"
    by (simp add: load_port.simps example_kobj_def example_topo_def)
  note outcome = device_destroy_outcome [OF dev_wf_example load_obj_example this]
  show ?thesis
    by (intro conjI; rule runs_mono [OF outcome]) (auto simp: example_upstream_def example_object_def)
qed

end
