(* ===== verification/Virtusb_Transfer_Props.thy ===== *)
theory Virtusb_Transfer_Props
  imports Virtusb_Transfer Virtusb_Object_Props
begin

text \<open>
  Lifetime and state machine of transfers. A transfer is counted like an object, and holds one
  reference to its device; \<open>trans_wf held pins\<close> extends \<open>dev_wf\<close> with both accounts: \<open>pins\<close>
  are the references others own to transfers, \<open>held\<close> those they own to devices.
\<close>

section \<open>Reference-counted allocations\<close>

text \<open>
  The contract objects and transfers share: \<open>inv n\<close> accounts for the references, \<open>n p\<close> of them
  in the hands of the client.
\<close>

locale refcounted =
  fixes alive :: "'p \<Rightarrow> 's \<Rightarrow> bool"
    and get :: "'p option \<Rightarrow> 's \<Rightarrow> 's option"
    and put :: "'p option \<Rightarrow> 's \<Rightarrow> 's option"
    and inv :: "('p \<Rightarrow> nat) \<Rightarrow> 's \<Rightarrow> bool"
  assumes held_alive: "inv n s \<Longrightarrow> 0 < n p \<Longrightarrow> alive p s"
    and get_alive: "inv n s \<Longrightarrow> alive p s \<Longrightarrow> \<exists>s'. get (Some p) s = Some s' \<and> inv (n(p := Suc (n p))) s'"
    and put_held: "inv n s \<Longrightarrow> 0 < n p \<Longrightarrow> \<exists>s'. put (Some p) s = Some s' \<and> inv (n(p := n p - 1)) s'"
begin

lemma get_runs: "inv n s \<Longrightarrow> alive p s \<Longrightarrow> runs (get (Some p) s) (inv (n(p := Suc (n p))))"
  using get_alive by (auto simp: runs_iff)

lemma put_runs: "inv n s \<Longrightarrow> 0 < n p \<Longrightarrow> runs (put (Some p) s) (inv (n(p := n p - 1)))"
  using put_held by (auto simp: runs_iff)

text \<open>A reference taken and given back leaves the account as it was.\<close>

lemma get_put: "inv n s \<Longrightarrow> alive p s \<Longrightarrow> runs (do { s \<leftarrow> get (Some p) s; put (Some p) s }) (inv n)"
  using get_alive [of n s p] put_held [of "n(p := Suc (n p))" _ p] by (fastforce simp: runs_iff)

text \<open>References can be dropped one by one until none is left.\<close>

lemma put_all: "inv n s \<Longrightarrow> runs (((\<lambda>m. Option.bind m (put (Some p))) ^^ n p) (Some s)) (inv (n(p := 0)))"
proof (induction "n p" arbitrary: n s)
  case 0
  then have "n(p := 0) = n" by auto
  with 0 show ?case by (simp flip: 0(1))
next
  case (Suc k)
  then have "0 < n p" by simp
  with put_held [OF Suc.prems] obtain s' where s': "put (Some p) s = Some s'" "inv (n(p := n p - 1)) s'" by blast
  have "k = (n(p := n p - 1)) p" using Suc.hyps(2) by simp
  from Suc.hyps(1) [OF this s'(2)]
  have "runs (((\<lambda>m. Option.bind m (put (Some p))) ^^ k) (Some s')) (inv (n(p := 0)))"
    by (simp flip: Suc.hyps(2))
  then show ?case by (simp only: Suc.hyps(2) [symmetric] funpow_Suc_right o_apply Option.bind.simps s'(1))
qed

end

interpretation object_ref: refcounted "\<lambda>d s. load_obj d s \<noteq> None" virtusb_object_get virtusb_object_put dev_wf
proof unfold_locales
  fix n p and s :: "'a kobj_scheme"
  assume wf: "dev_wf n s"
  {
    assume "0 < n p"
    then show "load_obj p s \<noteq> None" using obj_wfD(2) [OF dev_wfD(2) [OF wf], of p] by auto
    with \<open>0 < n p\<close> show "\<exists>s'. virtusb_object_put (Some p) s = Some s' \<and> dev_wf (n(p := n p - 1)) s'"
      using virtusb_object_put_ok [OF wf] by blast
  }
  assume "load_obj p s \<noteq> None"
  then show "\<exists>s'. virtusb_object_get (Some p) s = Some s' \<and> dev_wf (n(p := Suc (n p))) s'"
    using virtusb_object_get_ok [OF wf] by blast
qed

section \<open>The layers do not interfere\<close>

lemma load_trans_more: "kobj.more s' = kobj.more s \<Longrightarrow> load_trans t s' = load_trans t s"
  by (cases s; cases s') (simp add: load_trans_def)

lemma next_transfer_more: "kobj.more s' = kobj.more s \<Longrightarrow> next_transfer_id s' = next_transfer_id s"
  by (cases s; cases s') simp

lemma trans_layer [simp]:
  "load_port a (s\<lparr>transfers := f\<rparr>) = load_port a s"
  "load_hub h (s\<lparr>transfers := f\<rparr>) = load_hub h s"
  "load_obj d (s\<lparr>transfers := f\<rparr>) = load_obj d s"
  "load_port a (s\<lparr>next_transfer_id := n\<rparr>) = load_port a s"
  "load_hub h (s\<lparr>next_transfer_id := n\<rparr>) = load_hub h s"
  "load_obj d (s\<lparr>next_transfer_id := n\<rparr>) = load_obj d s"
  "load_trans t (s\<lparr>next_transfer_id := n\<rparr>) = load_trans t s"
  by (cases a; simp add: load_port.simps load_hub_def load_obj_def load_trans_def)+

lemma put_trans_sel [simp]:
  "load_port a (put_trans t tr s) = load_port a s"
  "load_hub h (put_trans t tr s) = load_hub h s"
  "load_obj d (put_trans t tr s) = load_obj d s"
  "dev_ports (put_trans t tr s) = dev_ports s"
  "registry (put_trans t tr s) = registry s"
  "next_object_id (put_trans t tr s) = next_object_id s"
  "next_addr (put_trans t tr s) = next_addr s"
  "events (put_trans t tr s) = events s"
  "next_transfer_id (put_trans t tr s) = next_transfer_id s"
  "ktrans.more (put_trans t tr s) = ktrans.more s"
  by (simp_all add: put_trans_def)

lemma free_trans_sel [simp]:
  "load_port a (free_trans t s) = load_port a s"
  "load_hub h (free_trans t s) = load_hub h s"
  "load_obj d (free_trans t s) = load_obj d s"
  "load_trans u (free_trans t s) = (if u = t then None else load_trans u s)"
  "dev_ports (free_trans t s) = dev_ports s"
  "registry (free_trans t s) = registry s"
  "next_object_id (free_trans t s) = next_object_id s"
  "next_addr (free_trans t s) = next_addr s"
  "events (free_trans t s) = events s"
  "next_transfer_id (free_trans t s) = next_transfer_id s"
  "ktrans.more (free_trans t s) = ktrans.more s"
  by (simp_all add: free_trans_def) (simp add: load_trans_def)

lemma dev_wf_cong:
  assumes "\<And>a. load_port a s' = load_port a s" and "\<And>h. load_hub h s' = load_hub h s"
    and "\<And>d. load_obj d s' = load_obj d s" and "registry s' = registry s"
    and "next_object_id s' = next_object_id s" and "next_addr s' = next_addr s" and "dev_ports s' = dev_ports s"
  shows "dev_wf held s' = dev_wf held s"
  by (simp only: dev_wf_def topo_wf_cong [OF assms(1,2)] obj_wf_cong [OF assms(3-6)] assms)

lemma dev_wf_trans_layer [simp]:
  "dev_wf held (put_trans t tr s) = dev_wf held s"
  "dev_wf held (free_trans t s) = dev_wf held s"
  "dev_wf held (s\<lparr>next_transfer_id := n\<rparr>) = dev_wf held s"
  by (rule dev_wf_cong; simp)+

lemma put_trans_same: "load_trans t s = Some tr \<Longrightarrow> put_trans t tr s = s"
  by (simp add: put_trans_def load_trans_def fun_upd_idem)

lemma put_obj_trans [simp]:
  "load_trans t (put_obj d ob s) = load_trans t s"
  "next_transfer_id (put_obj d ob s) = next_transfer_id s"
  by (simp_all add: load_trans_def put_obj_def)

section \<open>The invariant\<close>

definition transfer_active :: "virtusb_transfer \<Rightarrow> bool" where
  "transfer_active tr \<longleftrightarrow> t_state tr \<in> {VIRTUSB_TRANSFER_STATE_NEW, VIRTUSB_TRANSFER_STATE_QUEUED}"

text \<open>
  The contents of a transfer: the buffer has the requested length, and no result is recorded
  before the transfer is completed or cancelled.
\<close>

definition transfer_ok :: "virtusb_transfer \<Rightarrow> bool" where
  "transfer_ok tr \<longleftrightarrow>
     unat (t_endpoint tr) \<le> 15 \<and> length (t_setup tr) = 8 \<and>
     (t_type tr = VIRTUSB_TRANSFER_TYPE_CONTROL \<longrightarrow> t_has_setup tr) \<and>
     (case t_buffer tr of
        None \<Rightarrow> t_requested_length tr = 0
      | Some buf \<Rightarrow> length buf = unat (t_requested_length tr) \<and> t_requested_length tr \<noteq> 0) \<and>
     t_actual_length tr \<le> t_requested_length tr \<and>
     (transfer_active tr \<longrightarrow> t_actual_length tr = 0 \<and> t_status tr = - EINPROGRESS)"

lemma transfer_ok_count [simp]: "transfer_ok (tr\<lparr>t_refcount := n\<rparr>) = transfer_ok tr"
  by (cases "t_buffer tr") (simp_all add: transfer_ok_def transfer_active_def)

definition users :: "nat \<Rightarrow> 'a ktrans_scheme \<Rightarrow> nat set" where
  "users d s = {t. \<exists>tr. load_trans t s = Some tr \<and> t_device tr = d}"

definition trans_wf :: "(nat \<Rightarrow> nat) \<Rightarrow> (nat \<Rightarrow> nat) \<Rightarrow> 'a ktrans_scheme \<Rightarrow> bool" where
  "trans_wf held pins s \<longleftrightarrow>
     dev_wf (\<lambda>d. held d + card (users d s)) s \<and>
     (\<forall>t tr. load_trans t s = Some tr \<longrightarrow>
        t < next_addr s \<and> t_refcount tr = pins t \<and> 0 < pins t \<and> transfer_ok tr) \<and>
     (\<forall>t. load_trans t s = None \<longrightarrow> pins t = 0)"
lemma trans_wfD:
  assumes "trans_wf held pins s"
  shows "dev_wf (\<lambda>d. held d + card (users d s)) s"
    and "load_trans t s = Some tr \<Longrightarrow> t < next_addr s"
    and "load_trans t s = Some tr \<Longrightarrow> t_refcount tr = pins t"
    and "load_trans t s = Some tr \<Longrightarrow> 0 < pins t"
    and "load_trans t s = Some tr \<Longrightarrow> transfer_ok tr"
    and "load_trans t s = None \<Longrightarrow> pins t = 0"
  using assms unfolding trans_wf_def by blast+

lemma pinned_alloc:
  assumes "trans_wf held pins s" and "0 < pins t"
  obtains tr where "load_trans t s = Some tr"
  using trans_wfD(6) [OF assms(1), of t] assms(2) by (cases "load_trans t s") auto

lemma users_cong: "(\<And>t. load_trans t s' = load_trans t s) \<Longrightarrow> users d s' = users d s"
  by (simp add: users_def)

lemma finite_users:
  assumes "trans_wf held pins s"
  shows "finite (users d s)"
  by (rule finite_subset [of _ "{..<next_addr s}"]) (auto simp: users_def dest: trans_wfD(2) [OF assms])

lemma users_put_trans:
  "load_trans t s = Some tr \<Longrightarrow> t_device tr' = t_device tr \<Longrightarrow> users d (put_trans t tr' s) = users d s"
  by (auto simp: users_def)

lemma users_free_trans:
  "load_trans t s = Some tr \<Longrightarrow> users d (free_trans t s) = (if d = t_device tr then users d s - {t} else users d s)"
  by (auto simp: users_def)

lemma users_new_trans:
  "load_trans t s = None \<Longrightarrow> users d (put_trans t tr s) = (if d = t_device tr then insert t (users d s) else users d s)"
  by (auto simp: users_def)

lemma user_device:
  assumes wf: "trans_wf held pins s" and tr: "load_trans t s = Some tr"
  shows "0 < card (users (t_device tr) s)" and "\<exists>ob. load_obj (t_device tr) s = Some ob"
proof -
  from tr have "t \<in> users (t_device tr) s" by (auto simp: users_def)
  with finite_users [OF wf] show c: "0 < card (users (t_device tr) s)" by (metis card_gt_0_iff empty_iff)
  then show "\<exists>ob. load_obj (t_device tr) s = Some ob"
    using object_ref.held_alive [OF trans_wfD(1) [OF wf], of "t_device tr"] by auto
qed

text \<open>A change of one transfer that keeps its device, with its count in step.\<close>

lemma trans_wf_put_trans:
  assumes wf: "trans_wf held pins s" and tr: "load_trans t s = Some tr"
    and new: "t_device tr' = t_device tr" "transfer_ok tr'" "t_refcount tr' = pins' t" "0 < pins' t"
    and pins: "\<And>u. u \<noteq> t \<Longrightarrow> pins' u = pins u"
  shows "trans_wf held pins' (put_trans t tr' s)"
  unfolding trans_wf_def
proof (intro conjI allI impI)
  show "dev_wf (\<lambda>d. held d + card (users d (put_trans t tr' s))) (put_trans t tr' s)"
    using trans_wfD(1) [OF wf] by (simp add: users_put_trans [OF tr new(1)])
qed (use wf tr new pins in \<open>auto simp: trans_wf_def split: if_splits\<close>)

section \<open>Taking and dropping references\<close>

lemma virtusb_transfer_get_ok:
  assumes wf: "trans_wf held pins s" and tr: "load_trans t s = Some tr"
  shows "virtusb_transfer_get (Some t) s = Some (put_trans t (tr\<lparr>t_refcount := t_refcount tr + 1\<rparr>) s)"
    and "trans_wf held (pins(t := Suc (pins t))) (put_trans t (tr\<lparr>t_refcount := t_refcount tr + 1\<rparr>) s)"
proof -
  show "virtusb_transfer_get (Some t) s = Some (put_trans t (tr\<lparr>t_refcount := t_refcount tr + 1\<rparr>) s)"
    using tr by (simp add: virtusb_transfer_get_def)
  show "trans_wf held (pins(t := Suc (pins t))) (put_trans t (tr\<lparr>t_refcount := t_refcount tr + 1\<rparr>) s)"
    using trans_wfD(3,5) [OF wf tr] by (intro trans_wf_put_trans [OF wf tr]) simp_all
qed

text \<open>
  The last reference takes the transfer and its device reference with it; the device goes too
  when nothing else refers to it.
\<close>

definition trans_put_result :: "(nat \<Rightarrow> nat) \<Rightarrow> nat \<Rightarrow> 'a ktrans_scheme \<Rightarrow> 'a ktrans_scheme" where
  "trans_put_result held t s =
     (case load_trans t s of
        None \<Rightarrow> s
      | Some tr \<Rightarrow>
          if t_refcount tr = 1
          then free_trans t (put_result (\<lambda>d. held d + card (users d s)) (t_device tr)
                 (put_trans t (tr\<lparr>t_refcount := 0\<rparr>) s))
          else put_trans t (tr\<lparr>t_refcount := t_refcount tr - 1\<rparr>) s)"

lemma load_trans_put_result [simp]: "load_trans t (put_result held d s) = load_trans t s"
  by (rule load_trans_more) simp

lemma virtusb_transfer_put_ok:
  assumes wf: "trans_wf held pins s" and p: "0 < pins t"
  shows "virtusb_transfer_put (Some t) s = Some (trans_put_result held t s)"
    and "trans_wf held (pins(t := pins t - 1)) (trans_put_result held t s)"
proof -
  from wf p obtain tr where tr: "load_trans t s = Some tr" by (rule pinned_alloc)
  note ref = trans_wfD(3) [OF wf tr]
  let ?d = "t_device tr" and ?held = "\<lambda>d. held d + card (users d s)"
  let ?s1 = "put_trans t (tr\<lparr>t_refcount := 0\<rparr>) s"
  have wf1: "dev_wf ?held ?s1" using trans_wfD(1) [OF wf] by simp
  have h: "0 < ?held ?d" using user_device(1) [OF wf tr] by simp
  note put = virtusb_object_put_ok [OF wf1 h]
  show "virtusb_transfer_put (Some t) s = Some (trans_put_result held t s)"
    using tr ref p put(1)
    by (simp add: virtusb_transfer_put_def virtusb_transfer_release_def trans_put_result_def)
  show "trans_wf held (pins(t := pins t - 1)) (trans_put_result held t s)"
  proof (cases "pins t = 1")
    case True
    let ?s2 = "put_result ?held ?d ?s1"
    let ?s' = "free_trans t ?s2"
    have "users d ?s' = (if d = ?d then users d s - {t} else users d s)" for d
      using tr by (auto simp: users_def)
    moreover have "t \<in> users ?d s" using tr by (simp add: users_def)
    ultimately have "(\<lambda>d. held d + card (users d ?s')) = ?held(?d := ?held ?d - 1)"
      using finite_users [OF wf, of ?d] user_device(1) [OF wf tr] by (intro ext) simp
    then have "dev_wf (\<lambda>d. held d + card (users d ?s')) ?s'"
      using put(2) by (simp only: dev_wf_trans_layer)
    moreover have "\<forall>u tu. load_trans u ?s' = Some tu \<longrightarrow>
        u < next_addr ?s' \<and> t_refcount tu = (pins(t := pins t - 1)) u \<and> 0 < (pins(t := pins t - 1)) u \<and> transfer_ok tu"
      using wf by (auto simp: trans_wf_def)
    ultimately have "trans_wf held (pins(t := pins t - 1)) ?s'"
      using trans_wfD(6) [OF wf] True unfolding trans_wf_def by auto
    with True tr ref show ?thesis by (simp add: trans_put_result_def)
  next
    case False
    from False ref p trans_wfD(5) [OF wf tr] have "trans_wf held (pins(t := pins t - 1)) (put_trans t (tr\<lparr>t_refcount := t_refcount tr - 1\<rparr>) s)"
      by (intro trans_wf_put_trans [OF wf tr]) auto
    with False tr ref show ?thesis by (simp add: trans_put_result_def)
  qed
qed

interpretation transfer_ref: refcounted
    "\<lambda>t s. load_trans t s \<noteq> None" virtusb_transfer_get virtusb_transfer_put "trans_wf held" for held
proof unfold_locales
  fix n p and s :: "'a ktrans_scheme"
  assume wf: "trans_wf held n s"
  {
    assume "0 < n p"
    then show "load_trans p s \<noteq> None" using trans_wfD(6) [OF wf, of p] by auto
    with \<open>0 < n p\<close> show "\<exists>s'. virtusb_transfer_put (Some p) s = Some s' \<and> trans_wf held (n(p := n p - 1)) s'"
      using virtusb_transfer_put_ok [OF wf] by blast
  }
  assume "load_trans p s \<noteq> None"
  then show "\<exists>s'. virtusb_transfer_get (Some p) s = Some s' \<and> trans_wf held (n(p := Suc (n p))) s'"
    using virtusb_transfer_get_ok [OF wf] by blast
qed

section \<open>Creation\<close>

definition add_trans :: "nat \<Rightarrow> virtusb_transfer \<Rightarrow> 'a ktrans_scheme \<Rightarrow> 'a ktrans_scheme" where
  "add_trans d tr s =
     (let ob = the (load_obj d s);
          s = s\<lparr>next_addr := Suc (next_addr s), next_transfer_id := next_transfer_id s + 1\<rparr>
      in put_trans (next_addr s - 1) tr (put_obj d (ob\<lparr>obj_refcount := obj_refcount ob + 1\<rparr>) s))"

lemma next_addr_free_trans:
  assumes "trans_wf held pins s"
  shows "load_trans (next_addr s) s = None" and "pins (next_addr s) = 0"
proof -
  show 1: "load_trans (next_addr s) s = None"
    using trans_wfD(2) [OF assms, of "next_addr s"] by (cases "load_trans (next_addr s) s") auto
  then show "pins (next_addr s) = 0" by (rule trans_wfD(6) [OF assms])
qed

lemma used_addr_layer:
  "load_trans t (used_addr s) = load_trans t s"
  "users d (used_addr s) = users d s"
  by (simp_all add: load_trans_def used_addr_def users_def)

lemma add_trans_sel [simp]:
  "load_port a (add_trans d tr s) = load_port a s"
  "load_hub h (add_trans d tr s) = load_hub h s"
  "load_trans t (add_trans d tr s) = (if t = next_addr s then Some tr else load_trans t s)"
  "load_obj e (add_trans d tr s) =
     (if e = d then Some (the (load_obj d s)\<lparr>obj_refcount := obj_refcount (the (load_obj d s)) + 1\<rparr>) else load_obj e s)"
  "next_addr (add_trans d tr s) = Suc (next_addr s)"
  "registry (add_trans d tr s) = registry s"
  "events (add_trans d tr s) = events s"
  "next_transfer_id (add_trans d tr s) = next_transfer_id s + 1"
  "ktrans.more (add_trans d tr s) = ktrans.more s"
  by (simp_all add: add_trans_def Let_def put_obj_def put_trans_def)
     (cases a; simp add: load_port.simps load_hub_def load_obj_def load_trans_def)+

lemma trans_wf_add_trans:
  assumes wf: "trans_wf held pins s" and ob: "load_obj d s = Some ob"
    and tr: "t_device tr = d" "transfer_ok tr" "t_refcount tr = 1"
  shows "trans_wf held (pins(next_addr s := 1)) (add_trans d tr s)"
proof -
  let ?t = "next_addr s" and ?s' = "add_trans d tr s" and ?held = "\<lambda>e. held e + card (users e s)"
  note free = next_addr_free_trans [OF wf]
  let ?s1 = "put_obj d (ob\<lparr>obj_refcount := obj_refcount ob + 1\<rparr>) (used_addr s)"
  have "dev_wf (?held(d := Suc (?held d))) ?s1"
    using virtusb_object_get_ok(2) [OF dev_wf_used_addr [OF trans_wfD(1) [OF wf]], of d ob] ob by simp
  moreover have "users e ?s' = (if e = d then insert ?t (users e s) else users e s)" for e
    using free(1) tr(1) by (auto simp: users_def)
  then have "(\<lambda>e. held e + card (users e ?s')) = ?held(d := Suc (?held d))"
    using finite_users [OF wf] free(1) by (intro ext) (simp add: users_def)
  moreover have "?s' = put_trans ?t tr (?s1\<lparr>next_transfer_id := next_transfer_id s + 1\<rparr>)"
    using ob by (cases s) (simp add: add_trans_def Let_def put_obj_def used_addr_def)
  ultimately have "dev_wf (\<lambda>e. held e + card (users e ?s')) ?s'"
    by (simp only: dev_wf_trans_layer)
  then show ?thesis
    using wf tr free unfolding trans_wf_def by (auto simp: less_SucI)
qed

text \<open>
  The arguments are refused, or an allocation fails, or a new transfer is published with the
  caller's bytes copied: the payload of an OUT transfer and the setup packet.
\<close>

definition transfer_args_ok :: "virtusb_transfer_type \<Rightarrow> virtusb_transfer_direction \<Rightarrow> u8
     \<Rightarrow> u8 list option \<Rightarrow> u8 list option \<Rightarrow> u64 \<Rightarrow> bool" where
  "transfer_args_ok type direction endpoint setup data len \<longleftrightarrow>
     unat endpoint \<le> 15 \<and> (type = VIRTUSB_TRANSFER_TYPE_CONTROL \<longrightarrow> setup \<noteq> None) \<and>
     (direction = VIRTUSB_TRANSFER_DIRECTION_OUT \<longrightarrow> len \<noteq> 0 \<longrightarrow> data \<noteq> None)"

definition created_transfer :: "(nat \<Rightarrow> u8) \<Rightarrow> u64 \<Rightarrow> nat \<Rightarrow> virtusb_transfer_type \<Rightarrow> virtusb_transfer_direction
     \<Rightarrow> u8 \<Rightarrow> u8 list option \<Rightarrow> u8 list option \<Rightarrow> u64 \<Rightarrow> virtusb_transfer" where
  "created_transfer junk new_id d type direction endpoint setup data len =
     \<lparr>t_refcount = 1, t_id = new_id, t_device = d, t_type = type, t_direction = direction,
      t_state = VIRTUSB_TRANSFER_STATE_NEW, t_endpoint = endpoint, t_has_setup = (setup \<noteq> None),
      t_setup = (case setup of None \<Rightarrow> replicate 8 0 | Some bytes \<Rightarrow> take 8 bytes),
      t_buffer = (if len = 0 then None
                  else if direction = VIRTUSB_TRANSFER_DIRECTION_OUT then Some (take (unat len) (the data))
                  else Some (map junk [0..<unat len])),
      t_requested_length = len, t_actual_length = 0, t_status = - EINPROGRESS\<rparr>"

lemma transfer_ok_created:
  assumes "transfer_args_ok type direction endpoint setup data len"
    and "\<And>b. setup = Some b \<Longrightarrow> 8 \<le> length b"
    and "direction = VIRTUSB_TRANSFER_DIRECTION_OUT \<Longrightarrow> len \<noteq> 0 \<Longrightarrow> unat len \<le> length (the data)"
  shows "transfer_ok (created_transfer junk new_id d type direction endpoint setup data len)"
  using assms by (auto simp: transfer_ok_def created_transfer_def transfer_args_ok_def split: option.splits)

lemma virtusb_transfer_create_cases:
  assumes ob: "load_obj d s = Some ob"
    and pkt: "\<And>b. setup = Some b \<Longrightarrow> 8 \<le> length b"
    and data: "direction = VIRTUSB_TRANSFER_DIRECTION_OUT \<Longrightarrow> len \<noteq> 0 \<Longrightarrow> data \<noteq> None \<Longrightarrow> unat len \<le> length (the data)"
  shows "virtusb_transfer_create mem buf_mem junk (Some d) type direction endpoint setup data len s =
      (if \<not> transfer_args_ok type direction endpoint setup data len \<or> \<not> mem \<or> (len \<noteq> 0 \<and> \<not> buf_mem)
       then Some (None, s)
       else Some (Some (next_addr s), add_trans d
              (created_transfer junk (next_transfer_id s + 1) d type direction endpoint setup data len) s))"
proof (cases "transfer_args_ok type direction endpoint setup data len \<and> mem \<and> (len \<noteq> 0 \<longrightarrow> buf_mem)")
  case False
  then show ?thesis
    by (auto simp: virtusb_transfer_create_def transfer_args_ok_def word_le_nat_alt word_gt_0 not_less)
next
  case True
  have "\<not> 15 < endpoint" using True by (simp add: transfer_args_ok_def word_less_nat_alt)
  moreover have "load_obj d (s\<lparr>next_addr := a, next_transfer_id := i\<rparr>) = Some ob" for a i
    using ob by (simp add: load_obj_def)
  ultimately show ?thesis
    using True ob pkt data
    by (cases "setup"; cases direction; cases "len = 0")
       (auto simp: virtusb_transfer_create_def transfer_args_ok_def word_gt_0 virtusb_object_get_def
        created_transfer_def add_trans_def Let_def)
qed

section \<open>The state machine\<close>

text \<open>What a transfer becomes when it is queued, finished or given up.\<close>

inductive transfer_step :: "virtusb_transfer \<Rightarrow> virtusb_transfer \<Rightarrow> bool" where
  queue: "t_state tr = VIRTUSB_TRANSFER_STATE_NEW \<Longrightarrow>
    transfer_step tr (tr\<lparr>t_state := VIRTUSB_TRANSFER_STATE_QUEUED\<rparr>)"
| complete: "transfer_active tr \<Longrightarrow> n \<le> t_requested_length tr \<Longrightarrow>
    transfer_step tr (tr\<lparr>t_actual_length := n, t_status := status, t_state := VIRTUSB_TRANSFER_STATE_COMPLETED\<rparr>)"
| cancel: "transfer_active tr \<Longrightarrow>
    transfer_step tr (tr\<lparr>t_actual_length := 0, t_status := status, t_state := VIRTUSB_TRANSFER_STATE_CANCELLED\<rparr>)"

inductive_cases transfer_stepE: "transfer_step tr tr'"

lemma transfer_step_frame:
  assumes "transfer_step tr tr'"
  shows "t_device tr' = t_device tr" "t_refcount tr' = t_refcount tr" "t_buffer tr' = t_buffer tr"
    "t_requested_length tr' = t_requested_length tr" "t_id tr' = t_id tr" "t_direction tr' = t_direction tr"
    "transfer_active tr"
  using assms by (auto elim!: transfer_stepE simp: transfer_active_def)

lemma transfer_step_ok:
  assumes "transfer_step tr tr'" and "transfer_ok tr"
  shows "transfer_ok tr'"
  using assms by (cases "t_buffer tr") (auto elim!: transfer_stepE simp: transfer_ok_def transfer_active_def)

text \<open>A finished transfer never changes again: every path ends in its first result.\<close>

lemma transfer_step_final: "\<not> transfer_active tr \<Longrightarrow> \<not> transfer_step tr tr'"
  using transfer_step_frame(7) by blast

lemma trans_wf_step:
  assumes wf: "trans_wf held pins s" and tr: "load_trans t s = Some tr" and step: "transfer_step tr tr'"
  shows "trans_wf held pins (put_trans t tr' s)"
  using trans_wfD(3-5) [OF wf tr] transfer_step_frame [OF step] transfer_step_ok [OF step]
  by (intro trans_wf_put_trans [OF wf tr]) auto

lemma virtusb_transfer_mark_queued_ok:
  assumes "load_trans t s = Some tr"
  shows "virtusb_transfer_mark_queued (Some t) s =
     (if t_state tr = VIRTUSB_TRANSFER_STATE_NEW
      then Some (0, put_trans t (tr\<lparr>t_state := VIRTUSB_TRANSFER_STATE_QUEUED\<rparr>) s) else Some (- EINVAL, s))"
  using assms by (simp add: virtusb_transfer_mark_queued_def)

lemma virtusb_transfer_complete_ok:
  assumes "load_trans t s = Some tr"
  shows "virtusb_transfer_complete (Some t) status n s =
     (if \<not> transfer_active tr then Some (- EINVAL, s)
      else if n > t_requested_length tr then Some (- EMSGSIZE, s)
      else Some (0, put_trans t (tr\<lparr>t_actual_length := n, t_status := status,
             t_state := VIRTUSB_TRANSFER_STATE_COMPLETED\<rparr>) s))"
  using assms by (auto simp: virtusb_transfer_complete_def transfer_active_def)

lemma virtusb_transfer_cancel_ok:
  assumes "load_trans t s = Some tr"
  shows "virtusb_transfer_cancel (Some t) status s =
     (if \<not> transfer_active tr then Some (- EINVAL, s)
      else Some (0, put_trans t (tr\<lparr>t_actual_length := 0, t_status := status,
             t_state := VIRTUSB_TRANSFER_STATE_CANCELLED\<rparr>) s))"
  using assms by (auto simp: virtusb_transfer_cancel_def transfer_active_def)

section \<open>The concrete topology without transfers\<close>

lemma trans_wf_start:
  assumes "dev_wf held s" and none: "\<And>t. load_trans t s = None"
  shows "trans_wf held (\<lambda>_. 0) s"
  using assms(1) by (simp add: trans_wf_def none users_def)

definition example_ktrans :: ktrans where
  "example_ktrans = \<lparr>dev_ports = dev_ports example_topo, hubs = hubs example_topo, events = [],
     objects = objects example_kobj, registry = registry example_kobj, next_object_id = 3, next_addr = 3,
     transfers = (\<lambda>_. None), next_transfer_id = 0\<rparr>"

lemma trans_wf_example: "trans_wf (\<lambda>_. 0) (\<lambda>_. 0) example_ktrans"
proof (rule trans_wf_start)
  show "dev_wf (\<lambda>_. 0) example_ktrans"
    by (rule dev_wf_example_gen) (simp_all add: example_ktrans_def)
qed (simp add: load_trans_def example_ktrans_def)

lemma example_ktrans_sel:
  "load_obj 1 example_ktrans = Some (example_object 1)" "next_addr example_ktrans = 3"
  by (simp_all add: load_obj_def example_ktrans_def example_kobj_def)

text \<open>A control request for the plugged device and the state in which it was created.\<close>

definition example_transfer :: virtusb_transfer where
  "example_transfer = created_transfer (\<lambda>_. 0) 1 1 VIRTUSB_TRANSFER_TYPE_CONTROL VIRTUSB_TRANSFER_DIRECTION_IN
     0 (Some [128, 6, 0, 1, 0, 0, 18, 0]) None 18"

lemma example_transfer_ok: "transfer_ok example_transfer" "t_device example_transfer = 1" "t_refcount example_transfer = 1"
proof -
  show "transfer_ok example_transfer"
    unfolding example_transfer_def by (rule transfer_ok_created) (simp_all add: transfer_args_ok_def)
qed (simp_all add: example_transfer_def created_transfer_def)

definition example_ktrans1 :: ktrans where
  "example_ktrans1 = add_trans 1 example_transfer example_ktrans"

lemma trans_wf_example1: "trans_wf (\<lambda>_. 0) ((\<lambda>_. 0)(3 := 1)) example_ktrans1"
  using trans_wf_add_trans [OF trans_wf_example example_ktrans_sel(1) example_transfer_ok(2,1,3)]
  by (simp add: example_ktrans1_def example_ktrans_sel)

lemma load_trans_example1: "load_trans 3 example_ktrans1 = Some example_transfer"
  by (simp add: example_ktrans1_def example_ktrans_sel)

section \<open>Properties of transfers\<close>

text \<open>\<open>virtusb_transfer_create\<close> refuses bad arguments and failed allocations without a
  trace; otherwise the new transfer holds a reference to its device, a copy of the setup packet
  and, for an OUT transfer, of the payload, and a buffer of the requested length.\<close>

lemma transfer_create_outcome:
  assumes "trans_wf held pins s" and "load_obj d s = Some ob"
    and "\<And>b. setup = Some b \<Longrightarrow> 8 \<le> length b"
    and "direction = VIRTUSB_TRANSFER_DIRECTION_OUT \<Longrightarrow> len \<noteq> 0 \<Longrightarrow> data \<noteq> None \<Longrightarrow> unat len \<le> length (the data)"
  shows "runs (virtusb_transfer_create mem buf_mem junk (Some d) type direction endpoint setup data len s) (\<lambda>(r, s').
    case r of
      None \<Rightarrow> s' = s \<and> (\<not> transfer_args_ok type direction endpoint setup data len \<or> \<not> mem \<or> len \<noteq> 0 \<and> \<not> buf_mem)
    | Some t \<Rightarrow> trans_wf held (pins(t := 1)) s' \<and> load_trans t s = None \<and> registry s' = registry s \<and>
        (\<exists>tr. load_trans t s' = Some tr \<and> t_device tr = d \<and> t_type tr = type \<and> t_direction tr = direction \<and>
           t_state tr = VIRTUSB_TRANSFER_STATE_NEW \<and> t_endpoint tr = endpoint \<and> t_requested_length tr = len \<and>
           t_id tr = next_transfer_id s + 1 \<and> t_has_setup tr = (setup \<noteq> None) \<and>
           (\<forall>b. setup = Some b \<longrightarrow> t_setup tr = take 8 b) \<and>
           (direction = VIRTUSB_TRANSFER_DIRECTION_OUT \<longrightarrow> len \<noteq> 0 \<longrightarrow> t_buffer tr = Some (take (unat len) (the data)))) \<and>
        (\<forall>u. u \<noteq> t \<longrightarrow> load_trans u s' = load_trans u s))"
proof (cases "transfer_args_ok type direction endpoint setup data len \<and> mem \<and> (len \<noteq> 0 \<longrightarrow> buf_mem)")
  case False
  then show ?thesis using virtusb_transfer_create_cases [OF assms(2-4)] by auto
next
  case True
  let ?tr = "created_transfer junk (next_transfer_id s + 1) d type direction endpoint setup data len"
  have "transfer_ok ?tr"
    using True assms(3,4) by (intro transfer_ok_created) (auto simp: transfer_args_ok_def)
  then have "trans_wf held (pins(next_addr s := 1)) (add_trans d ?tr s)"
    by (intro trans_wf_add_trans [OF assms(1,2)]) (simp_all add: created_transfer_def)
  with True next_addr_free_trans(1) [OF assms(1)] show ?thesis
    using virtusb_transfer_create_cases [OF assms(2-4)] by (simp add: created_transfer_def)
qed

lemma transfer_create_outcome_example:
  "runs (virtusb_transfer_create True True (\<lambda>_. 0) (Some 1) VIRTUSB_TRANSFER_TYPE_BULK VIRTUSB_TRANSFER_DIRECTION_OUT
      2 None (Some [7, 8, 9]) 3 example_ktrans) (\<lambda>(r, s'). \<exists>t. r = Some t \<and> trans_wf (\<lambda>_. 0) ((\<lambda>_. 0)(t := 1)) s')"
proof -
  have "transfer_args_ok VIRTUSB_TRANSFER_TYPE_BULK VIRTUSB_TRANSFER_DIRECTION_OUT 2 None (Some [7, 8, 9]) 3"
    by (simp add: transfer_args_ok_def)
  then show ?thesis
    by (intro runs_mono [OF transfer_create_outcome [OF trans_wf_example example_ktrans_sel(1)]])
       (auto split: option.splits)
qed

text \<open>The operations of the state machine, for sequences of them.\<close>

datatype transfer_op = Op_mark_queued | Op_complete int u64 | Op_cancel int

fun transfer_op_run :: "nat \<Rightarrow> transfer_op \<Rightarrow> 'a ktrans_scheme \<Rightarrow> (int \<times> 'a ktrans_scheme) option" where
  "transfer_op_run t Op_mark_queued s = virtusb_transfer_mark_queued (Some t) s"
| "transfer_op_run t (Op_complete status n) s = virtusb_transfer_complete (Some t) status n s"
| "transfer_op_run t (Op_cancel status) s = virtusb_transfer_cancel (Some t) status s"

text \<open>The calls one after another, with what each of them returned.\<close>

fun transfer_ops_run :: "nat \<Rightarrow> transfer_op list \<Rightarrow> 'a ktrans_scheme \<Rightarrow> (int list \<times> 'a ktrans_scheme) option" where
  "transfer_ops_run t [] s = Some ([], s)"
| "transfer_ops_run t (op # ops) s = do {
     (ret, s) \<leftarrow> transfer_op_run t op s;
     (rets, s) \<leftarrow> transfer_ops_run t ops s;
     Some (ret # rets, s)
   }"

text \<open>Which calls finish an unfinished transfer, and as what.\<close>

fun finishing :: "virtusb_transfer \<Rightarrow> transfer_op \<Rightarrow> bool" where
  "finishing tr Op_mark_queued \<longleftrightarrow> False"
| "finishing tr (Op_complete status n) \<longleftrightarrow> n \<le> t_requested_length tr"
| "finishing tr (Op_cancel status) \<longleftrightarrow> True"

fun finished_by :: "transfer_op \<Rightarrow> virtusb_transfer \<Rightarrow> virtusb_transfer" where
  "finished_by Op_mark_queued tr = tr"
| "finished_by (Op_complete status n) tr =
     tr\<lparr>t_actual_length := n, t_status := status, t_state := VIRTUSB_TRANSFER_STATE_COMPLETED\<rparr>"
| "finished_by (Op_cancel status) tr =
     tr\<lparr>t_actual_length := 0, t_status := status, t_state := VIRTUSB_TRANSFER_STATE_CANCELLED\<rparr>"

text \<open>What the calls return that do not finish it; \<open>new\<close> says that it is not queued yet.\<close>

fun unfinished_rets :: "bool \<Rightarrow> transfer_op list \<Rightarrow> int list" where
  "unfinished_rets new [] = []"
| "unfinished_rets new (Op_mark_queued # ops) = (if new then 0 else - EINVAL) # unfinished_rets False ops"
| "unfinished_rets new (Op_complete status n # ops) = - EMSGSIZE # unfinished_rets new ops"
| "unfinished_rets new (Op_cancel status # ops) = 0 # unfinished_rets new ops"

definition queued_by :: "transfer_op list \<Rightarrow> virtusb_transfer \<Rightarrow> virtusb_transfer" where
  "queued_by ops tr = (if Op_mark_queued \<in> set ops then tr\<lparr>t_state := VIRTUSB_TRANSFER_STATE_QUEUED\<rparr> else tr)"

lemma transfer_op_cases:
  assumes "load_trans t s = Some tr"
  obtains ret where "transfer_op_run t op s = Some (ret, s)" and "ret < 0"
  | tr' where "transfer_op_run t op s = Some (0, put_trans t tr' s)" and "transfer_step tr tr'"
proof (cases op)
  case Op_mark_queued
  with that transfer_step.queue [of tr] show thesis
    by (cases "t_state tr = VIRTUSB_TRANSFER_STATE_NEW") (simp_all add: virtusb_transfer_mark_queued_ok [OF assms])
next
  case (Op_complete status n)
  note run = virtusb_transfer_complete_ok [OF assms, of status n]
  show thesis
  proof (cases "transfer_active tr \<and> n \<le> t_requested_length tr")
    case True
    with run that(2) transfer_step.complete [of tr n status] Op_complete show thesis by (simp add: not_less)
  next
    case False
    with run that(1) Op_complete show thesis by (cases "transfer_active tr") (simp_all add: not_le)
  qed
next
  case (Op_cancel status)
  with that transfer_step.cancel [of tr status] show thesis
    by (cases "transfer_active tr") (simp_all add: virtusb_transfer_cancel_ok [OF assms])
qed

lemma put_trans_put_trans [simp]: "put_trans t b (put_trans t a s) = put_trans t b s"
  by (simp add: put_trans_def)

lemma transfer_op_wf:
  assumes "trans_wf held pins s" and "load_trans t s = Some tr" and "transfer_op_run t op s = Some (ret, s')"
  shows "trans_wf held pins s'"
  using assms(2)
proof (cases rule: transfer_op_cases [where op = op])
  case (2 tr')
  with assms trans_wf_step [OF assms(1,2) 2(2)] show ?thesis by simp
qed (use assms in simp)

lemma transfer_ops_wf:
  assumes "trans_wf held pins s" and "load_trans t s = Some tr" and "transfer_ops_run t ops s = Some (rets, s')"
  shows "trans_wf held pins s'"
  using assms
proof (induction ops arbitrary: s tr rets)
  case (Cons op ops)
  then obtain ret s1 rs where run: "transfer_op_run t op s = Some (ret, s1)" "transfer_ops_run t ops s1 = Some (rs, s')"
    by (auto split: Option.bind_splits)
  obtain tr1 where "load_trans t s1 = Some tr1"
    using Cons.prems(2) by (rule transfer_op_cases [where op = op]) (use run(1) Cons.prems(2) in auto)
  from Cons.IH [OF transfer_op_wf [OF Cons.prems(1,2) run(1)] this run(2)] show ?case .
qed simp

lemma transfer_ops_append:
  "transfer_ops_run t (earlier @ later) s = do {
     (rs, s) \<leftarrow> transfer_ops_run t earlier s;
     (rs', s) \<leftarrow> transfer_ops_run t later s;
     Some (rs @ rs', s)
   }"
  by (induction earlier arbitrary: s) (auto simp: Option.bind_assoc split: Option.bind_splits)

lemma transfer_ops_finished:
  assumes "load_trans t s = Some tr" and "\<not> transfer_active tr"
  shows "transfer_ops_run t ops s = Some (replicate (length ops) (- EINVAL), s)"
proof (induction ops)
  case (Cons op ops)
  have "t_state tr \<noteq> VIRTUSB_TRANSFER_STATE_NEW" using assms(2) by (simp add: transfer_active_def)
  with Cons assms show ?case
    by (cases op) (simp_all add: virtusb_transfer_mark_queued_ok virtusb_transfer_complete_ok virtusb_transfer_cancel_ok)
qed simp

lemma transfer_ops_unfinished:
  assumes "load_trans t s = Some tr" and "transfer_active tr" and "\<forall>op \<in> set ops. \<not> finishing tr op"
  shows "transfer_ops_run t ops s = Some
           (unfinished_rets (t_state tr = VIRTUSB_TRANSFER_STATE_NEW) ops, put_trans t (queued_by ops tr) s)"
  using assms
proof (induction ops arbitrary: s tr)
  case Nil
  then show ?case by (simp add: queued_by_def put_trans_same)
next
  case (Cons op ops)
  show ?case
  proof (cases op)
    case Op_mark_queued
    let ?tr = "tr\<lparr>t_state := VIRTUSB_TRANSFER_STATE_QUEUED\<rparr>"
    have same: "finishing ?tr op' = finishing tr op'" for op' by (cases op') simp_all
    have q: "?tr = tr" if "t_state tr \<noteq> VIRTUSB_TRANSFER_STATE_NEW"
      using that Cons.prems(2) by (cases tr) (simp add: transfer_active_def)
    have "transfer_ops_run t ops (put_trans t ?tr s) = Some (unfinished_rets False ops, put_trans t ?tr s)"
      using Cons.IH [of "put_trans t ?tr s" ?tr] Cons.prems(3)
      by (simp add: transfer_active_def same queued_by_def)
    with Cons.prems(1) Op_mark_queued q show ?thesis
      by (auto simp: virtusb_transfer_mark_queued_ok queued_by_def put_trans_same)
  next
    case (Op_complete status n)
    with Cons show ?thesis by (simp add: virtusb_transfer_complete_ok not_le queued_by_def)
  next
    case (Op_cancel status)
    with Cons.prems(3) show ?thesis by simp
  qed
qed

lemma transfer_op_finishing:
  assumes "load_trans t s = Some tr" and "transfer_active tr" and "finishing tr op"
  shows "transfer_op_run t op s = Some (0, put_trans t (finished_by op tr) s)"
    and "\<not> transfer_active (finished_by op tr)"
  using assms by (cases op; simp add: virtusb_transfer_complete_ok virtusb_transfer_cancel_ok not_less transfer_active_def)+

lemma queued_by_simps [simp]:
  "transfer_active tr \<Longrightarrow> transfer_active (queued_by ops tr)"
  "finishing (queued_by ops tr) op = finishing tr op"
  "finishing tr op \<Longrightarrow> finished_by op (queued_by ops tr) = finished_by op tr"
  by (cases op; simp add: queued_by_def transfer_active_def)+

text \<open>The first finishing call decides.\<close>

lemma transfer_ops_first:
  assumes "load_trans t s = Some tr" and "transfer_active tr"
    and "\<forall>op' \<in> set earlier. \<not> finishing tr op'" and "finishing tr op"
  shows "transfer_ops_run t (earlier @ op # later) s = Some
           (unfinished_rets (t_state tr = VIRTUSB_TRANSFER_STATE_NEW) earlier @ 0 # replicate (length later) (- EINVAL),
            put_trans t (finished_by op tr) s)"
proof -
  let ?s1 = "put_trans t (queued_by earlier tr) s"
  have "transfer_op_run t op ?s1 = Some (0, put_trans t (finished_by op tr) s)"
    using transfer_op_finishing(1) [of t ?s1 "queued_by earlier tr" op] assms(2,4) by simp
  moreover have "transfer_ops_run t later (put_trans t (finished_by op tr) s) =
      Some (replicate (length later) (- EINVAL), put_trans t (finished_by op tr) s)"
    using transfer_op_finishing(2) [OF assms(1,2,4)] by (intro transfer_ops_finished) simp_all
  ultimately show ?thesis
    using transfer_ops_unfinished [OF assms(1-3)] by (simp add: transfer_ops_append)
qed

text \<open>C6: whatever sequence of \<open>mark_queued\<close>, \<open>complete\<close> and \<open>cancel\<close> calls reaches a
  transfer, the first result stands. A finished transfer refuses every call with -EINVAL and does
  not change. On a new or queued one the first call of \<open>mark_queued\<close> on a new transfer returns 0
  and queues it, every other one -EINVAL; a completion longer than the request gets -EMSGSIZE;
  the first cancellation or fitting completion returns 0 and decides state, status and length,
  whatever was tried before, and every call after it returns -EINVAL and changes nothing. The
  recorded length never exceeds the requested one.\<close>

theorem transfer_first_result_stands:
  assumes "trans_wf held pins s" and "load_trans t s = Some tr"
  shows "runs (transfer_ops_run t ops s) (\<lambda>(rets, s'). trans_wf held pins s' \<and>
    (\<exists>tr'. s' = put_trans t tr' s \<and> t_actual_length tr' \<le> t_requested_length tr' \<and>
      (if \<not> transfer_active tr then tr' = tr \<and> rets = replicate (length ops) (- EINVAL)
       else let new = (t_state tr = VIRTUSB_TRANSFER_STATE_NEW) in
         ((\<forall>op \<in> set ops. \<not> finishing tr op) \<and> tr' = queued_by ops tr \<and> rets = unfinished_rets new ops) \<or>
         (\<exists>earlier op later. ops = earlier @ op # later \<and> (\<forall>op' \<in> set earlier. \<not> finishing tr op') \<and>
            finishing tr op \<and> tr' = finished_by op tr \<and>
            rets = unfinished_rets new earlier @ 0 # replicate (length later) (- EINVAL)))))"
proof -
  have wf: "trans_wf held pins s'" "t_actual_length tr' \<le> t_requested_length tr'"
    if "transfer_ops_run t ops s = Some (rets, s')" "s' = put_trans t tr' s" for rets s' tr'
    using transfer_ops_wf [OF assms that(1)] trans_wfD(5) [of held pins s' t tr'] that(2)
    by (simp_all add: transfer_ok_def)
  consider (final) "\<not> transfer_active tr" | (unfinished) "transfer_active tr" "\<forall>op \<in> set ops. \<not> finishing tr op"
    | (first) earlier op later where "transfer_active tr" "ops = earlier @ op # later"
        "\<forall>op' \<in> set earlier. \<not> finishing tr op'" "finishing tr op"
    using split_list_first_prop [of ops "finishing tr"] by blast
  then show ?thesis
  proof cases
    case final
    note run = transfer_ops_finished [OF assms(2) final, of ops]
    with final wf [OF run, of tr] assms(2) show ?thesis by (auto simp: put_trans_same)
  next
    case unfinished
    note run = transfer_ops_unfinished [OF assms(2) unfinished]
    with unfinished wf [OF run refl] show ?thesis by (auto simp: Let_def)
  next
    case first
    note run = transfer_ops_first [OF assms(2) first(1,3,4), of later]
    note wf' = wf [OF run [folded first(2)] refl]
    let ?rets = "unfinished_rets (t_state tr = VIRTUSB_TRANSFER_STATE_NEW) earlier @
        0 # replicate (length later) (- EINVAL)"
    have "\<exists>earlier' op' later'. ops = earlier' @ op' # later' \<and> (\<forall>o' \<in> set earlier'. \<not> finishing tr o') \<and>
        finishing tr op' \<and> finished_by op tr = finished_by op' tr \<and>
        ?rets = unfinished_rets (t_state tr = VIRTUSB_TRANSFER_STATE_NEW) earlier' @
          0 # replicate (length later') (- EINVAL)"
      using first(2-4) by blast
    with wf' run [folded first(2)] first(1) show ?thesis by (simp add: Let_def) blast
  qed
qed

theorem transfer_first_result_stands_witness:
  "runs (transfer_ops_run 3 [Op_mark_queued, Op_complete 0 19, Op_complete 0 18, Op_cancel (- 2), Op_mark_queued]
       example_ktrans1)
     (\<lambda>(rets, s'). rets = [0, - EMSGSIZE, 0, - EINVAL, - EINVAL] \<and>
        load_trans 3 s' = Some (example_transfer\<lparr>t_actual_length := 18, t_status := 0,
          t_state := VIRTUSB_TRANSFER_STATE_COMPLETED\<rparr>))"
proof -
  have tr: "transfer_active example_transfer" "t_state example_transfer = VIRTUSB_TRANSFER_STATE_NEW"
    "t_requested_length example_transfer = 18"
    by (simp_all add: example_transfer_def created_transfer_def transfer_active_def)
  show ?thesis
    by (rule runs_mono [OF transfer_first_result_stands [OF trans_wf_example1 load_trans_example1]])
       (auto simp: tr Cons_eq_append_conv)
qed

end
