(* ===== verification/Virtusb_Backend_Props.thy ===== *)
theory Virtusb_Backend_Props
  imports Virtusb_Backend Virtusb_Transfer_Props
begin

text \<open>
  The invariant of the data plane. Every request on a list refers to a live, queued transfer and
  to a URB the driver owns; no transfer and no URB is on two lists or twice on one; the URBs
  linked at their endpoints are exactly those of the requests; every request belongs to a
  session. \<open>back_wf\<close> also accounts for the references: a session holds its device, a request
  holds its transfer, which holds its device.
\<close>

section \<open>The layers do not interfere\<close>

lemma put_back_sel [simp]:
  "load_port a (put_back h b s) = load_port a s"
  "load_hub g (put_back h b s) = load_hub g s"
  "load_obj d (put_back h b s) = load_obj d s"
  "load_trans t (put_back h b s) = load_trans t s"
  "load_urb u (put_back h b s) = load_urb u s"
  "dev_ports (put_back h b s) = dev_ports s"
  "registry (put_back h b s) = registry s"
  "next_object_id (put_back h b s) = next_object_id s"
  "next_addr (put_back h b s) = next_addr s"
  "next_transfer_id (put_back h b s) = next_transfer_id s"
  "events (put_back h b s) = events s"
  "urbs (put_back h b s) = urbs s"
  "linked (put_back h b s) = linked s"
  "givebacks (put_back h b s) = givebacks s"
  "wakeups (put_back h b s) = wakeups s"
  "kback.more (put_back h b s) = kback.more s"
  by (simp_all add: put_back_def)
     (cases a; simp add: load_port.simps load_hub_def load_obj_def load_trans_def load_urb_def)+

lemma put_urb_sel [simp]:
  "load_port a (put_urb u urb s) = load_port a s"
  "load_hub g (put_urb u urb s) = load_hub g s"
  "load_obj d (put_urb u urb s) = load_obj d s"
  "load_trans t (put_urb u urb s) = load_trans t s"
  "load_back h (put_urb u urb s) = load_back h s"
  "dev_ports (put_urb u urb s) = dev_ports s"
  "registry (put_urb u urb s) = registry s"
  "next_object_id (put_urb u urb s) = next_object_id s"
  "next_addr (put_urb u urb s) = next_addr s"
  "next_transfer_id (put_urb u urb s) = next_transfer_id s"
  "events (put_urb u urb s) = events s"
  "linked (put_urb u urb s) = linked s"
  "givebacks (put_urb u urb s) = givebacks s"
  "wakeups (put_urb u urb s) = wakeups s"
  "kback.more (put_urb u urb s) = kback.more s"
  by (simp_all add: put_urb_def)
     (cases a; simp add: load_port.simps load_hub_def load_obj_def load_trans_def load_back_def)+

lemma core_layer [simp]:
  "load_port a (s\<lparr>linked := l\<rparr>) = load_port a s" "load_port a (s\<lparr>wakeups := w\<rparr>) = load_port a s"
  "load_port a (s\<lparr>urbs := us\<rparr>) = load_port a s" "load_port a (s\<lparr>givebacks := gs\<rparr>) = load_port a s"
  "load_hub g (s\<lparr>linked := l\<rparr>) = load_hub g s" "load_hub g (s\<lparr>wakeups := w\<rparr>) = load_hub g s"
  "load_hub g (s\<lparr>urbs := us\<rparr>) = load_hub g s" "load_hub g (s\<lparr>givebacks := gs\<rparr>) = load_hub g s"
  "load_obj d (s\<lparr>linked := l\<rparr>) = load_obj d s" "load_obj d (s\<lparr>wakeups := w\<rparr>) = load_obj d s"
  "load_obj d (s\<lparr>urbs := us\<rparr>) = load_obj d s" "load_obj d (s\<lparr>givebacks := gs\<rparr>) = load_obj d s"
  "load_trans t (s\<lparr>linked := l\<rparr>) = load_trans t s" "load_trans t (s\<lparr>wakeups := w\<rparr>) = load_trans t s"
  "load_trans t (s\<lparr>urbs := us\<rparr>) = load_trans t s" "load_trans t (s\<lparr>givebacks := gs\<rparr>) = load_trans t s"
  "load_back h (s\<lparr>linked := l\<rparr>) = load_back h s" "load_back h (s\<lparr>wakeups := w\<rparr>) = load_back h s"
  "load_back h (s\<lparr>urbs := us\<rparr>) = load_back h s" "load_back h (s\<lparr>givebacks := gs\<rparr>) = load_back h s"
  "load_urb u (s\<lparr>linked := l\<rparr>) = load_urb u s" "load_urb u (s\<lparr>wakeups := w\<rparr>) = load_urb u s"
  "load_urb u (s\<lparr>urbs := us\<rparr>) = us u" "load_urb u (s\<lparr>givebacks := gs\<rparr>) = load_urb u s"
  by (cases a; simp add: load_port.simps load_hub_def load_obj_def load_trans_def load_back_def load_urb_def)+

lemma load_back_more: "ktrans.more s' = ktrans.more s \<Longrightarrow> load_back h s' = load_back h s"
  by (cases s; cases s') (simp add: load_back_def)

lemma load_urb_more: "ktrans.more s' = ktrans.more s \<Longrightarrow> load_urb u s' = load_urb u s"
  by (cases s; cases s') (simp add: load_urb_def)

lemma back_fields_more:
  "ktrans.more s' = ktrans.more s \<Longrightarrow> linked s' = linked s"
  "ktrans.more s' = ktrans.more s \<Longrightarrow> givebacks s' = givebacks s"
  "ktrans.more s' = ktrans.more s \<Longrightarrow> wakeups s' = wakeups s"
  "ktrans.more s' = ktrans.more s \<Longrightarrow> urbs s' = urbs s"
  "ktrans.more s' = ktrans.more s \<Longrightarrow> kback.more s' = kback.more s"
  by (cases s; cases s'; simp)+

lemma ktrans_more: "kobj.more s' = kobj.more s \<Longrightarrow> ktrans.more s' = ktrans.more s"
  by (cases s; cases s') simp

text \<open>The transfer layer sees neither backends nor URBs.\<close>

lemma trans_wf_cong:
  assumes "\<And>a. load_port a s' = load_port a s" and "\<And>h. load_hub h s' = load_hub h s"
    and "\<And>d. load_obj d s' = load_obj d s" and "registry s' = registry s"
    and "next_object_id s' = next_object_id s" and "next_addr s' = next_addr s" and "dev_ports s' = dev_ports s"
    and "\<And>t. load_trans t s' = load_trans t s"
  shows "trans_wf held pins s' = trans_wf held pins s"
  by (simp only: trans_wf_def dev_wf_cong [OF assms(1-7)] users_cong [OF assms(8)] assms)

lemma trans_wf_back_layer [simp]:
  "trans_wf held pins (put_back h b s) = trans_wf held pins s"
  "trans_wf held pins (put_urb u urb s) = trans_wf held pins s"
  "trans_wf held pins (s\<lparr>linked := l\<rparr>) = trans_wf held pins s"
  "trans_wf held pins (s\<lparr>wakeups := w\<rparr>) = trans_wf held pins s"
  "trans_wf held pins (s\<lparr>urbs := us\<rparr>) = trans_wf held pins s"
  "trans_wf held pins (s\<lparr>givebacks := gs\<rparr>) = trans_wf held pins s"
  by (rule trans_wf_cong; simp)+

lemma put_back_put_back [simp]: "put_back h b' (put_back h b s) = put_back h b' s"
  by (simp add: put_back_def)

lemma put_back_same: "load_back h s = Some b \<Longrightarrow> put_back h b s = s"
  by (simp add: put_back_def load_back_def fun_upd_idem)

section \<open>The invariant\<close>

text \<open>The requests of all controllers, as controller, URB and transfer.\<close>

definition request_keys :: "virtusb_backend \<Rightarrow> (nat \<times> nat) set" where
  "request_keys b = (\<lambda>r. (req_urb r, req_transfer r)) ` (set (pending b) \<union> set (active b))"

definition requests :: "'a kback_scheme \<Rightarrow> (nat \<times> nat \<times> nat) set" where
  "requests s = {(h, u, t). \<exists>b. load_back h s = Some b \<and> (u, t) \<in> request_keys b}"

definition queued :: "'a kback_scheme \<Rightarrow> nat set" where
  "queued s = {t. \<exists>h u. (h, u, t) \<in> requests s}"

definition sessions :: "nat \<Rightarrow> 'a kback_scheme \<Rightarrow> nat set" where
  "sessions d s = {h. \<exists>b. load_back h s = Some b \<and> d \<in> bind_device ` set (bindings b)}"

text \<open>What the USB core promises of the buffer of an IN URB: room for what the transfer asks for.\<close>

definition urb_room :: "urb \<Rightarrow> virtusb_transfer \<Rightarrow> bool" where
  "urb_room urb tr \<longleftrightarrow>
     (t_direction tr = VIRTUSB_TRANSFER_DIRECTION_IN \<longrightarrow> t_requested_length tr \<noteq> 0 \<longrightarrow>
        (\<exists>buf. urb_transfer_buffer urb = Some buf \<and> unat (t_requested_length tr) \<le> length buf))"

text \<open>
  A queued transfer is small enough for the ABI, and the URB of an IN transfer has room for what
  it asks for.
\<close>

definition request_ok :: "'a kback_scheme \<Rightarrow> nat \<Rightarrow> nat \<Rightarrow> bool" where
  "request_ok s u t \<longleftrightarrow>
     (\<exists>tr urb. load_trans t s = Some tr \<and> load_urb u s = Some urb \<and>
        t_state tr = VIRTUSB_TRANSFER_STATE_QUEUED \<and> t_requested_length tr \<le> VIRTUSB_TRANSFER_DATA_MAX \<and>
        urb_room urb tr)"

definition device_of :: "'a kback_scheme \<Rightarrow> virtusb_hcd_request \<Rightarrow> nat" where
  "device_of s r = t_device (the (load_trans (req_transfer r) s))"

text \<open>
  One backend. \<open>ending\<close> holds the sessions being torn down, which are off the list of bindings
  but whose requests are not all given back yet.
\<close>

definition backend_ok ::
  "virtusb_backend_binding set \<Rightarrow> 'a kback_scheme \<Rightarrow> virtusb_backend \<Rightarrow> bool" where
  "backend_ok ending s b \<longleftrightarrow>
     distinct (map bind_owner (bindings b)) \<and> distinct (map bind_device (bindings b)) \<and>
     distinct (map req_transfer (pending b @ active b)) \<and>
     (\<forall>r \<in> set (pending b). req_owner r = None \<and>
        (\<exists>bd \<in> set (bindings b) \<union> ending. bind_device bd = device_of s r)) \<and>
     (\<forall>r \<in> set (active b).
        \<exists>bd \<in> set (bindings b) \<union> ending. bind_device bd = device_of s r \<and> req_owner r = Some (bind_owner bd))"

definition back_struct :: "(nat \<Rightarrow> virtusb_backend_binding set) \<Rightarrow> 'a kback_scheme \<Rightarrow> bool" where
  "back_struct ending s \<longleftrightarrow>
     finite {h. load_back h s \<noteq> None} \<and>
     (\<forall>h b. load_back h s = Some b \<longrightarrow> backend_ok (ending h) s b) \<and>
     (\<forall>h u t. (h, u, t) \<in> requests s \<longrightarrow> request_ok s u t) \<and>
     (\<forall>h u t h' u' t'. (h, u, t) \<in> requests s \<longrightarrow> (h', u', t') \<in> requests s \<longrightarrow> u = u' \<or> t = t' \<longrightarrow>
        h = h' \<and> u = u' \<and> t = t') \<and>
     (\<forall>u. linked s u \<longleftrightarrow> (\<exists>h t. (h, u, t) \<in> requests s))"

definition back_wf_upto ::
  "(nat \<Rightarrow> virtusb_backend_binding set) \<Rightarrow> (nat \<Rightarrow> nat) \<Rightarrow> (nat \<Rightarrow> nat) \<Rightarrow> 'a kback_scheme \<Rightarrow> bool" where
  "back_wf_upto ending held pins s \<longleftrightarrow>
     trans_wf (\<lambda>d. held d + card (sessions d s)) (\<lambda>t. pins t + (if t \<in> queued s then 1 else 0)) s \<and>
     back_struct ending s"

abbreviation back_wf :: "(nat \<Rightarrow> nat) \<Rightarrow> (nat \<Rightarrow> nat) \<Rightarrow> 'a kback_scheme \<Rightarrow> bool" where
  "back_wf \<equiv> back_wf_upto (\<lambda>_. {})"

lemma back_wfD:
  assumes "back_wf_upto ending held pins s"
  shows "trans_wf (\<lambda>d. held d + card (sessions d s)) (\<lambda>t. pins t + (if t \<in> queued s then 1 else 0)) s"
    and "back_struct ending s"
  using assms unfolding back_wf_upto_def by blast+

lemma back_structD:
  assumes "back_struct ending s"
  shows "finite {h. load_back h s \<noteq> None}"
    and "load_back h s = Some b \<Longrightarrow> backend_ok (ending h) s b"
    and "(h, u, t) \<in> requests s \<Longrightarrow> request_ok s u t"
    and "(h, u, t) \<in> requests s \<Longrightarrow> (h', u', t') \<in> requests s \<Longrightarrow> u = u' \<or> t = t' \<Longrightarrow> h = h' \<and> u = u' \<and> t = t'"
    and "linked s u \<longleftrightarrow> (\<exists>h t. (h, u, t) \<in> requests s)"
  using assms unfolding back_struct_def by blast+

section \<open>Changing one backend\<close>

lemma requests_cong: "(\<And>h. load_back h s' = load_back h s) \<Longrightarrow> requests s' = requests s"
  by (simp add: requests_def)

lemma queued_cong: "(\<And>h. load_back h s' = load_back h s) \<Longrightarrow> queued s' = queued s"
  by (simp add: queued_def requests_def)

lemma sessions_cong: "(\<And>h. load_back h s' = load_back h s) \<Longrightarrow> sessions d s' = sessions d s"
  by (simp add: sessions_def)

lemma backend_ok_cong:
  assumes "\<And>r. r \<in> set (pending b) \<union> set (active b) \<Longrightarrow> device_of s' r = device_of s r"
  shows "backend_ok E s' b = backend_ok E s b"
  using assms by (auto simp: backend_ok_def)

lemma request_keysI: "r \<in> set (pending b) \<union> set (active b) \<Longrightarrow> (req_urb r, req_transfer r) \<in> request_keys b"
  by (auto simp: request_keys_def)

lemma requestsI: "load_back h s = Some b \<Longrightarrow> r \<in> set (pending b) \<union> set (active b) \<Longrightarrow>
    (h, req_urb r, req_transfer r) \<in> requests s"
  by (auto simp: requests_def request_keysI)

lemma requests_at: "load_back h s = Some b \<Longrightarrow> (h, u, t) \<in> requests s \<longleftrightarrow> (u, t) \<in> request_keys b"
  by (simp add: requests_def)

lemma requests_put_back:
  "requests (put_back h b s) = {(g, u, t). if g = h then (u, t) \<in> request_keys b else (g, u, t) \<in> requests s}"
  by (auto simp: requests_def)

lemma requests_put_back_same:
  assumes "load_back h s = Some b" and "request_keys b' = request_keys b"
  shows "requests (put_back h b' s) = requests s" and "queued (put_back h b' s) = queued s"
proof -
  show "requests (put_back h b' s) = requests s"
    by (auto simp: requests_put_back assms(2) requests_at [OF assms(1)] split: if_splits)
  then show "queued (put_back h b' s) = queued s" by (simp add: queued_def)
qed

lemma finite_backs_put_back:
  "finite {g. load_back g s \<noteq> None} \<Longrightarrow> finite {g. load_back g (put_back h b s) \<noteq> None}"
  by (rule finite_subset [of _ "insert h {g. load_back g s \<noteq> None}"]) auto

lemma sessions_put_back:
  "sessions d (put_back h b s) =
     (if d \<in> bind_device ` set (bindings b) then insert h (sessions d s) else sessions d s - {h})"
  by (auto simp: sessions_def split: if_splits)

lemma finite_sessions: "back_struct E s \<Longrightarrow> finite (sessions d s)"
  by (rule finite_subset [OF _ back_structD(1)]) (auto simp: sessions_def)

text \<open>Nothing but the transfers, the URBs and the backends matters.\<close>

lemma back_struct_frame:
  assumes wf: "back_struct E s" and same: "\<And>h. load_back h s' = load_back h s" and lk: "linked s' = linked s"
    and req: "\<And>h u t. (h, u, t) \<in> requests s \<Longrightarrow>
        request_ok s' u t \<and> t_device (the (load_trans t s')) = t_device (the (load_trans t s))"
  shows "back_struct E s'"
proof -
  have "backend_ok (E h) s' b" if "load_back h s = Some b" for h b
    using back_structD(2) [OF wf that] requestsI [OF that] req
    by (subst backend_ok_cong [where s = s]) (auto simp: device_of_def)
  then show ?thesis
    using wf req unfolding back_struct_def by (simp add: same lk requests_cong [OF same])
qed

lemma back_struct_put_back:
  assumes wf: "back_struct E s" and b: "load_back h s = Some b" and lk: "l = linked s"
    and keys: "request_keys b' = request_keys b" and ok: "backend_ok (E' h) s b'" and E: "\<And>g. g \<noteq> h \<Longrightarrow> E' g = E g"
  shows "back_struct E' (put_back h b' s)"
proof -
  note req = requests_put_back_same(1) [OF b keys]
  have "backend_ok (E' g) (put_back h b' s) c" if "load_back g (put_back h b' s) = Some c" for g c
    using that ok back_structD(2) [OF wf, of g c] E
    by (subst backend_ok_cong [where s = s]) (auto simp: device_of_def split: if_splits)
  moreover note finite_backs_put_back [OF back_structD(1) [OF wf], of h b']
  ultimately show ?thesis
    using wf unfolding back_struct_def by (simp add: req request_ok_def)
qed

text \<open>A new request joins the pending list.\<close>

lemma back_struct_add_request:
  assumes wf: "back_struct E s" and b: "load_back h s = Some b"
    and new: "req_owner r = None" "request_ok s (req_urb r) (req_transfer r)"
      "\<And>g u. (g, u, req_transfer r) \<notin> requests s" "\<And>g t. (g, req_urb r, t) \<notin> requests s"
    and dev: "\<exists>bd \<in> set (bindings b). bind_device bd = device_of s r"
  shows "back_struct E (put_back h (b\<lparr>pending := pending b @ [r]\<rparr>) (s\<lparr>linked := (linked s)(req_urb r := True)\<rparr>))"
    (is "back_struct E ?s'")
proof -
  let ?b' = "b\<lparr>pending := pending b @ [r]\<rparr>"
  have "request_keys ?b' = insert (req_urb r, req_transfer r) (request_keys b)"
    by (auto simp: request_keys_def)
  moreover have "requests (s\<lparr>linked := (linked s)(req_urb r := True)\<rparr>) = requests s"
    by (rule requests_cong) simp
  ultimately have req: "requests ?s' = insert (h, req_urb r, req_transfer r) (requests s)"
    by (auto simp: requests_put_back requests_at [OF b] split: if_splits)
  have "req_transfer r \<notin> req_transfer ` (set (pending b) \<union> set (active b))"
    using new(3) requestsI [OF b] by fastforce
  then have "backend_ok (E h) s ?b'"
    using back_structD(2) [OF wf b] new(1) dev by (auto simp: backend_ok_def)
  then have "backend_ok (E g) ?s' c" if "load_back g ?s' = Some c" for g c
    using that back_structD(2) [OF wf, of g c]
    by (subst backend_ok_cong [where s = s]) (auto simp: device_of_def split: if_splits)
  moreover have "finite {g. load_back g ?s' \<noteq> None}"
    by (rule finite_backs_put_back) (use back_structD(1) [OF wf] in simp)
  moreover have "request_ok ?s' u t = request_ok s u t" for u t by (simp add: request_ok_def)
  moreover have "linked ?s' = (linked s)(req_urb r := True)" by simp
  ultimately show ?thesis
    unfolding back_struct_def req
  proof (intro conjI allI impI)
    fix g u t g' u' t'
    assume "(g, u, t) \<in> insert (h, req_urb r, req_transfer r) (requests s)"
      "(g', u', t') \<in> insert (h, req_urb r, req_transfer r) (requests s)" "u = u' \<or> t = t'"
    with new(3,4) back_structD(4) [OF wf, of g u t g' u' t'] show "g = g'" "u = u'" "t = t'" by auto
  qed (use new(2) back_structD(3,5) [OF wf] in auto)
qed

text \<open>A request leaves its list.\<close>

lemma back_struct_take_request:
  assumes wf: "back_struct E s" and b: "load_back h s = Some b" and r: "r \<in> set (pending b) \<union> set (active b)"
  shows "back_struct E (usb_hcd_unlink_urb_from_ep (req_urb r)
           (put_back h (b\<lparr>pending := remove1 r (pending b), active := remove1 r (active b)\<rparr>) s))"
    (is "back_struct E ?s'")
    and "requests (usb_hcd_unlink_urb_from_ep (req_urb r)
           (put_back h (b\<lparr>pending := remove1 r (pending b), active := remove1 r (active b)\<rparr>) s)) =
         requests s - {(h, req_urb r, req_transfer r)}"
proof -
  let ?b' = "b\<lparr>pending := remove1 r (pending b), active := remove1 r (active b)\<rparr>"
  note ok = back_structD(2) [OF wf b]
  have dist: "distinct (map req_transfer (pending b @ active b))" using ok by (simp add: backend_ok_def)
  then have d: "distinct (pending b)" "distinct (active b)" "inj_on req_transfer (set (pending b @ active b))"
    unfolding distinct_map by auto
  have keys: "request_keys ?b' = request_keys b - {(req_urb r, req_transfer r)}"
    using d r by (auto simp: request_keys_def set_remove1_eq dest: inj_onD)
  have "requests ?s' = requests (put_back h ?b' s)"
    by (rule requests_cong) (simp add: usb_hcd_unlink_urb_from_ep_def)
  also have "\<dots> = requests s - {(h, req_urb r, req_transfer r)}"
    by (auto simp: requests_put_back keys requests_at [OF b] split: if_splits)
  finally show req: "requests ?s' = requests s - {(h, req_urb r, req_transfer r)}" .
  have "backend_ok (E h) s ?b'"
    using ok d by (auto simp: backend_ok_def set_remove1_eq distinct_map inj_on_def)
  then have "backend_ok (E g) ?s' c" if "load_back g ?s' = Some c" for g c
    using that back_structD(2) [OF wf, of g c]
    by (subst backend_ok_cong [where s = s])
       (auto simp: device_of_def usb_hcd_unlink_urb_from_ep_def split: if_splits)
  moreover have "finite {g. load_back g ?s' \<noteq> None}"
    using finite_backs_put_back [OF back_structD(1) [OF wf]] by (simp add: usb_hcd_unlink_urb_from_ep_def)
  moreover have "request_ok ?s' u t = request_ok s u t" for u t
    by (simp add: request_ok_def usb_hcd_unlink_urb_from_ep_def)
  moreover have lk: "linked ?s' = (linked s)(req_urb r := False)" by (simp add: usb_hcd_unlink_urb_from_ep_def)
  ultimately show "back_struct E ?s'"
    unfolding back_struct_def req
  proof (intro conjI allI impI)
    fix g u t g' u' t'
    assume "(g, u, t) \<in> requests s - {(h, req_urb r, req_transfer r)}"
      "(g', u', t') \<in> requests s - {(h, req_urb r, req_transfer r)}" "u = u' \<or> t = t'"
    then have "g = g' \<and> u = u' \<and> t = t'" by (intro back_structD(4) [OF wf]) blast+
    then show "g = g'" "u = u'" "t = t'" by blast+
  next
    fix u
    show "linked ?s' u \<longleftrightarrow> (\<exists>g t. (g, u, t) \<in> requests s - {(h, req_urb r, req_transfer r)})"
    proof (cases "u = req_urb r")
      case True
      have "(g, u, t) \<notin> requests s - {(h, req_urb r, req_transfer r)}" for g t
        using back_structD(4) [OF wf _ requestsI [OF b r], of g u t] True by blast
      with True show ?thesis by (simp add: lk)
    next
      case False
      then show ?thesis using back_structD(5) [OF wf, of u] by (simp add: lk)
    qed
  qed (use back_structD(3) [OF wf] in auto)
qed

section \<open>References under the invariant\<close>

lemma account_add: "(\<lambda>e. (f(d := Suc (f d))) e + g e) = (\<lambda>e. f e + g e)(d := Suc (f d + (g d :: nat)))"
  by auto

lemma account_drop: "0 < f d \<Longrightarrow> (\<lambda>e. (f(d := f d - 1)) e + g e) = (\<lambda>e. f e + g e)(d := f d + (g d :: nat) - 1)"
  by auto

text \<open>The layers below change; transfers, URBs and backends stay.\<close>

lemma back_wf_kobj:
  assumes wf: "back_wf_upto E held pins s"
    and dev: "dev_wf (\<lambda>d. held' d + (card (sessions d s) + card (users d s))) s'"
    and more: "kobj.more s' = kobj.more s" and addr: "next_addr s \<le> next_addr s'"
  shows "back_wf_upto E held' pins s'"
proof -
  note tr = load_trans_more [OF more] and bk = load_back_more [OF ktrans_more [OF more]]
    and ub = load_urb_more [OF ktrans_more [OF more]]
  have "back_struct E s'"
    by (rule back_struct_frame [OF back_wfD(2) [OF wf] bk back_fields_more(1) [OF ktrans_more [OF more]]])
       (use back_structD(3) [OF back_wfD(2) [OF wf]] in \<open>simp add: request_ok_def tr ub\<close>)
  moreover have "t < next_addr s'" if "load_trans t s = Some tt" for t tt
    using trans_wfD(2) [OF back_wfD(1) [OF wf] that] addr by simp
  ultimately have "back_struct E s'" "\<And>t tt. load_trans t s = Some tt \<Longrightarrow> t < next_addr s'" by blast+
  moreover have "trans_wf (\<lambda>d. held' d + card (sessions d s')) (\<lambda>t. pins t + (if t \<in> queued s' then 1 else 0)) s'"
    unfolding trans_wf_def tr sessions_cong [OF bk] queued_cong [OF bk] users_cong [OF tr] add.assoc
    using back_wfD(1) [OF wf] dev calculation(2) by (simp add: trans_wf_def)
  ultimately show ?thesis by (simp add: back_wf_upto_def)
qed

lemma back_wf_dev:
  assumes "back_wf_upto E held pins s"
  shows "dev_wf (\<lambda>d. held d + (card (sessions d s) + card (users d s))) s"
  using trans_wfD(1) [OF back_wfD(1) [OF assms]] by (simp add: add.assoc)

lemma back_wf_object_get:
  assumes wf: "back_wf_upto E held pins s" and ob: "load_obj d s = Some ob"
  shows "virtusb_object_get (Some d) s = Some (put_obj d (ob\<lparr>obj_refcount := obj_refcount ob + 1\<rparr>) s)"
    and "back_wf_upto E (held(d := Suc (held d))) pins (put_obj d (ob\<lparr>obj_refcount := obj_refcount ob + 1\<rparr>) s)"
proof -
  note get = virtusb_object_get_ok [OF back_wf_dev [OF wf] ob]
  show "virtusb_object_get (Some d) s = Some (put_obj d (ob\<lparr>obj_refcount := obj_refcount ob + 1\<rparr>) s)" by (rule get(1))
  show "back_wf_upto E (held(d := Suc (held d))) pins (put_obj d (ob\<lparr>obj_refcount := obj_refcount ob + 1\<rparr>) s)"
  proof (rule back_wf_kobj [OF wf])
    show "dev_wf (\<lambda>e. (held(d := Suc (held d))) e + (card (sessions e s) + card (users e s)))
        (put_obj d (ob\<lparr>obj_refcount := obj_refcount ob + 1\<rparr>) s)"
      by (simp only: account_add [of held] get(2))
  qed simp_all
qed

lemma back_wf_object_put:
  assumes wf: "back_wf_upto E held pins s" and h: "0 < held d"
  shows "virtusb_object_put (Some d) s =
           Some (put_result (\<lambda>d. held d + (card (sessions d s) + card (users d s))) d s)"
    and "back_wf_upto E (held(d := held d - 1)) pins
           (put_result (\<lambda>d. held d + (card (sessions d s) + card (users d s))) d s)"
proof -
  from h have "0 < held d + (card (sessions d s) + card (users d s))" by simp
  note put = virtusb_object_put_ok [OF back_wf_dev [OF wf] this]
  show "virtusb_object_put (Some d) s = Some (put_result (\<lambda>d. held d + (card (sessions d s) + card (users d s))) d s)"
    by (rule put(1))
  show "back_wf_upto E (held(d := held d - 1)) pins
           (put_result (\<lambda>d. held d + (card (sessions d s) + card (users d s))) d s)"
  proof (rule back_wf_kobj [OF wf])
    show "dev_wf (\<lambda>e. (held(d := held d - 1)) e + (card (sessions e s) + card (users e s)))
        (put_result (\<lambda>d. held d + (card (sessions d s) + card (users d s))) d s)"
      by (simp only: account_drop [of held, OF h] put(2))
  qed simp_all
qed

text \<open>A transfer changes; one that is queued keeps what the data plane relies on.\<close>

lemma back_wf_put_trans:
  assumes wf: "back_wf_upto E held pins s" and tr: "load_trans t s = Some tr"
    and new: "t_device tr' = t_device tr" "transfer_ok tr'"
      "t_refcount tr' = pins' t + (if t \<in> queued s then 1 else 0)" "0 < t_refcount tr'"
    and q: "t \<in> queued s \<Longrightarrow> t_state tr' = t_state tr \<and> t_requested_length tr' = t_requested_length tr \<and>
        t_direction tr' = t_direction tr"
    and pins: "\<And>u. u \<noteq> t \<Longrightarrow> pins' u = pins u"
  shows "back_wf_upto E held pins' (put_trans t tr' s)"
proof -
  have bk: "load_back h (put_trans t tr' s) = load_back h s" for h by (rule load_back_more) simp
  have ub: "load_urb u (put_trans t tr' s) = load_urb u s" for u by (rule load_urb_more) simp
  have "back_struct E (put_trans t tr' s)"
  proof (rule back_struct_frame [OF back_wfD(2) [OF wf] bk])
    show "linked (put_trans t tr' s) = linked s" by (rule back_fields_more) simp
    fix h u t' assume *: "(h, u, t') \<in> requests s"
    then have "request_ok s u t'" by (rule back_structD(3) [OF back_wfD(2) [OF wf]])
    moreover have "t' = t \<Longrightarrow> t \<in> queued s" using * by (auto simp: queued_def)
    ultimately show "request_ok (put_trans t tr' s) u t' \<and>
        t_device (the (load_trans t' (put_trans t tr' s))) = t_device (the (load_trans t' s))"
      using q tr new(1) by (auto simp: request_ok_def urb_room_def ub)
  qed
  moreover have "trans_wf (\<lambda>d. held d + card (sessions d s)) (\<lambda>t. pins' t + (if t \<in> queued s then 1 else 0)) (put_trans t tr' s)"
    by (rule trans_wf_put_trans [OF back_wfD(1) [OF wf] tr]) (use new pins in auto)
  ultimately show ?thesis
    by (simp add: back_wf_upto_def sessions_cong [OF bk] queued_cong [OF bk])
qed

lemma back_wf_transfer_get:
  assumes wf: "back_wf_upto E held pins s" and tr: "load_trans t s = Some tr"
  shows "virtusb_transfer_get (Some t) s = Some (put_trans t (tr\<lparr>t_refcount := t_refcount tr + 1\<rparr>) s)"
    and "back_wf_upto E held (pins(t := Suc (pins t))) (put_trans t (tr\<lparr>t_refcount := t_refcount tr + 1\<rparr>) s)"
  using virtusb_transfer_get_ok(1) [OF back_wfD(1) [OF wf] tr] trans_wfD(3,5) [OF back_wfD(1) [OF wf] tr]
  by (auto intro!: back_wf_put_trans [OF wf tr])

lemma trans_put_result_sel [simp]:
  "load_hub h (trans_put_result held t s) = load_hub h s"
  "registry (trans_put_result held t s) = registry s"
  "next_object_id (trans_put_result held t s) = next_object_id s"
  "next_addr (trans_put_result held t s) = next_addr s"
  "events (trans_put_result held t s) = events s"
  "next_transfer_id (trans_put_result held t s) = next_transfer_id s"
  "ktrans.more (trans_put_result held t s) = ktrans.more s"
  by (simp_all add: trans_put_result_def ktrans_more [of "put_result _ _ _"] next_transfer_more [of "put_result _ _ _"]
      split: option.split)

lemma load_trans_trans_put_result:
  "load_trans u (trans_put_result held t s) =
     (if u \<noteq> t then load_trans u s
      else case load_trans t s of None \<Rightarrow> None
           | Some tr \<Rightarrow> if t_refcount tr = 1 then None else Some (tr\<lparr>t_refcount := t_refcount tr - 1\<rparr>))"
  by (simp add: trans_put_result_def split: option.split)

lemma back_wf_transfer_put:
  assumes wf: "back_wf_upto E held pins s" and p: "0 < pins t"
  shows "virtusb_transfer_put (Some t) s = Some (trans_put_result (\<lambda>d. held d + card (sessions d s)) t s)"
    and "back_wf_upto E held (pins(t := pins t - 1)) (trans_put_result (\<lambda>d. held d + card (sessions d s)) t s)"
proof -
  let ?s' = "trans_put_result (\<lambda>d. held d + card (sessions d s)) t s"
  from p have "0 < pins t + (if t \<in> queued s then 1 else 0)" by simp
  note put = virtusb_transfer_put_ok [OF back_wfD(1) [OF wf] this]
  show "virtusb_transfer_put (Some t) s = Some ?s'" by (rule put(1))
  have bk: "load_back h ?s' = load_back h s" for h by (rule load_back_more) simp
  have ub: "load_urb u ?s' = load_urb u s" for u by (rule load_urb_more) simp
  have "back_struct E ?s'"
  proof (rule back_struct_frame [OF back_wfD(2) [OF wf] bk])
    show "linked ?s' = linked s" by (rule back_fields_more) simp
    fix h u t' assume *: "(h, u, t') \<in> requests s"
    then obtain tr urb where ok: "load_trans t' s = Some tr" "load_urb u s = Some urb" "request_ok s u t'"
      using back_structD(3) [OF back_wfD(2) [OF wf]] by (fastforce simp: request_ok_def)
    have "t_refcount tr \<noteq> 1" if "t' = t"
    proof -
      from * that have "t \<in> queued s" by (auto simp: queued_def)
      with trans_wfD(3) [OF back_wfD(1) [OF wf] ok(1)] p that show ?thesis by simp
    qed
    with ok show "request_ok ?s' u t' \<and> t_device (the (load_trans t' ?s')) = t_device (the (load_trans t' s))"
      by (auto simp: request_ok_def urb_room_def load_trans_trans_put_result ub)
  qed
  moreover have "(\<lambda>u. (pins(t := pins t - 1)) u + (if u \<in> queued s then 1 else 0)) =
      (\<lambda>u. pins u + (if u \<in> queued s then 1 else 0))(t := pins t + (if t \<in> queued s then 1 else 0) - 1)"
    by (rule account_drop [of pins, OF p])
  ultimately show "back_wf_upto E held (pins(t := pins t - 1)) ?s'"
    using put(2) by (simp add: back_wf_upto_def sessions_cong [OF bk] queued_cong [OF bk])
qed

section \<open>Taking a request and giving it back\<close>

definition without :: "virtusb_hcd_request \<Rightarrow> virtusb_backend \<Rightarrow> virtusb_backend" where
  "without r b = b\<lparr>pending := remove1 r (pending b), active := remove1 r (active b)\<rparr>"

lemma without_sel [simp]:
  "bindings (without r b) = bindings b" "pending (without r b) = remove1 r (pending b)"
  "active (without r b) = remove1 r (active b)" "stopping (without r b) = stopping b"
  by (simp_all add: without_def)

definition taken :: "nat \<Rightarrow> virtusb_hcd_request \<Rightarrow> virtusb_backend \<Rightarrow> 'a kback_scheme \<Rightarrow> 'a kback_scheme" where
  "taken h r b s = usb_hcd_unlink_urb_from_ep (req_urb r) (put_back h (without r b) s)"

lemma taken_sel [simp]:
  "load_port a (taken h r b s) = load_port a s"
  "load_hub g (taken h r b s) = load_hub g s"
  "load_obj d (taken h r b s) = load_obj d s"
  "load_trans t (taken h r b s) = load_trans t s"
  "load_urb u (taken h r b s) = load_urb u s"
  "load_back g (taken h r b s) = (if g = h then Some (without r b) else load_back g s)"
  "registry (taken h r b s) = registry s"
  "next_object_id (taken h r b s) = next_object_id s"
  "next_addr (taken h r b s) = next_addr s"
  "next_transfer_id (taken h r b s) = next_transfer_id s"
  "events (taken h r b s) = events s"
  "givebacks (taken h r b s) = givebacks s"
  "wakeups (taken h r b s) = wakeups s"
  "kback.more (taken h r b s) = kback.more s"
  by (simp_all add: taken_def usb_hcd_unlink_urb_from_ep_def)

lemma take_request_ok: "load_back h s = Some b \<Longrightarrow> take_request h r s = Some (taken h r b s)"
  by (simp add: take_request_def taken_def without_def)

text \<open>Whoever takes a request off its list owns its reference to the transfer.\<close>

lemma back_wf_taken:
  assumes wf: "back_wf_upto E held pins s" and b: "load_back h s = Some b" and r: "r \<in> set (pending b) \<union> set (active b)"
  shows "back_wf_upto E held (pins(req_transfer r := Suc (pins (req_transfer r)))) (taken h r b s)"
    and "requests (taken h r b s) = requests s - {(h, req_urb r, req_transfer r)}"
    and "req_transfer r \<notin> queued (taken h r b s)"
    and "(g, req_urb r, t) \<notin> requests (taken h r b s)"
proof -
  let ?t = "req_transfer r" and ?s' = "taken h r b s"
  note struct = back_wfD(2) [OF wf]
  note take = back_struct_take_request [OF struct b r, folded without_def, folded taken_def]
  show req: "requests ?s' = requests s - {(h, req_urb r, ?t)}" by (rule take(2))
  note mem = requestsI [OF b r]
  have q: "queued ?s' = queued s - {?t}"
    using back_structD(4) [OF struct _ mem] by (auto simp: queued_def req)
  then show "?t \<notin> queued ?s'" by simp
  show "(g, req_urb r, t) \<notin> requests ?s'"
    using back_structD(4) [OF struct _ mem, of g "req_urb r" t] by (auto simp: req)
  have "?t \<in> queued s" using mem by (auto simp: queued_def)
  then have "(\<lambda>t. (pins(?t := Suc (pins ?t))) t + (if t \<in> queued ?s' then 1 else 0)) =
      (\<lambda>t. pins t + (if t \<in> queued s then 1 else 0))"
    by (auto simp: q)
  moreover have "sessions d ?s' = sessions d s" for d
    using b by (auto simp: sessions_def)
  moreover have "trans_wf a c ?s' = trans_wf a c s" for a c
    by (rule trans_wf_cong) (simp_all add: taken_def usb_hcd_unlink_urb_from_ep_def)
  ultimately show "back_wf_upto E held (pins(?t := Suc (pins ?t))) ?s'"
    using back_wfD(1) [OF wf] take(1) by (simp add: back_wf_upto_def)
qed

text \<open>A URB that belongs to no request may change, and may be given back.\<close>

lemma back_wf_urbs:
  assumes wf: "back_wf_upto E held pins s"
    and urb: "\<And>v. v \<noteq> u \<Longrightarrow> load_urb v s' = load_urb v s" and free: "\<And>g t. (g, u, t) \<notin> requests s"
    and same: "\<And>h. load_back h s' = load_back h s" "linked s' = linked s" "\<And>t. load_trans t s' = load_trans t s"
    and trans: "\<And>a c. trans_wf a c s' = trans_wf a c s"
  shows "back_wf_upto E held pins s'"
proof -
  have "back_struct E s'"
  proof (rule back_struct_frame [OF back_wfD(2) [OF wf] same(1,2)])
    fix h v t assume "(h, v, t) \<in> requests s"
    moreover from this free have "v \<noteq> u" by blast
    ultimately show "request_ok s' v t \<and> t_device (the (load_trans t s')) = t_device (the (load_trans t s))"
      using back_structD(3) [OF back_wfD(2) [OF wf]] urb same(3) by (fastforce simp: request_ok_def)
  qed
  with back_wfD(1) [OF wf] show ?thesis
    by (simp add: back_wf_upto_def sessions_cong [OF same(1)] queued_cong [OF same(1)] trans)
qed

lemma back_wf_put_urb:
  assumes "back_wf_upto E held pins s" and "\<And>g t. (g, u, t) \<notin> requests s"
  shows "back_wf_upto E held pins (put_urb u urb s)"
  by (rule back_wf_urbs [where u = u, OF assms(1) _ assms(2)]) simp_all

definition given_back :: "nat \<Rightarrow> urb \<Rightarrow> int \<Rightarrow> 'a kback_scheme \<Rightarrow> 'a kback_scheme" where
  "given_back u urb status s = s\<lparr>urbs := (urbs s)(u := None), givebacks := (u, urb, status) # givebacks s\<rparr>"

lemma given_back_sel [simp]:
  "load_port a (given_back u urb status s) = load_port a s"
  "load_hub g (given_back u urb status s) = load_hub g s"
  "load_obj d (given_back u urb status s) = load_obj d s"
  "load_trans t (given_back u urb status s) = load_trans t s"
  "load_urb v (given_back u urb status s) = (if v = u then None else load_urb v s)"
  "load_back g (given_back u urb status s) = load_back g s"
  "registry (given_back u urb status s) = registry s"
  "next_object_id (given_back u urb status s) = next_object_id s"
  "next_addr (given_back u urb status s) = next_addr s"
  "events (given_back u urb status s) = events s"
  "linked (given_back u urb status s) = linked s"
  "givebacks (given_back u urb status s) = (u, urb, status) # givebacks s"
  "wakeups (given_back u urb status s) = wakeups s"
  "kback.more (given_back u urb status s) = kback.more s"
  by (simp_all add: given_back_def) (simp add: load_urb_def)

lemma back_wf_given_back:
  assumes "back_wf_upto E held pins s" and "\<And>g t. (g, u, t) \<notin> requests s"
  shows "back_wf_upto E held pins (given_back u urb status s)"
  by (rule back_wf_urbs [where u = u, OF assms(1) _ assms(2)])
     (simp_all add: given_back_def, simp add: load_urb_def)

text \<open>The last step of every request: its URB goes back, its reference is dropped.\<close>

lemma virtusb_backend_giveback_ok:
  assumes wf: "back_wf_upto E held pins s" and urb: "load_urb (req_urb r) s = Some urb"
    and free: "\<And>g t. (g, req_urb r, t) \<notin> requests s" and p: "0 < pins (req_transfer r)"
  shows "virtusb_backend_giveback r status s =
           Some (trans_put_result (\<lambda>d. held d + card (sessions d s)) (req_transfer r) (given_back (req_urb r) urb status s))"
    and "back_wf_upto E held (pins(req_transfer r := pins (req_transfer r) - 1))
           (trans_put_result (\<lambda>d. held d + card (sessions d s)) (req_transfer r) (given_back (req_urb r) urb status s))"
proof -
  let ?s = "given_back (req_urb r) urb status s"
  have wf': "back_wf_upto E held pins ?s" by (rule back_wf_given_back [OF wf free])
  have "(\<lambda>d. held d + card (sessions d ?s)) = (\<lambda>d. held d + card (sessions d s))"
    by (simp add: sessions_cong [of ?s s])
  note put = back_wf_transfer_put [where t = "req_transfer r", OF wf' p, unfolded this]
  show "virtusb_backend_giveback r status s =
           Some (trans_put_result (\<lambda>d. held d + card (sessions d s)) (req_transfer r) ?s)"
    using put(1) urb
    by (simp add: virtusb_backend_giveback_def usb_hcd_giveback_urb_def virtusb_backend_release_request_def given_back_def)
  show "back_wf_upto E held (pins(req_transfer r := pins (req_transfer r) - 1))
           (trans_put_result (\<lambda>d. held d + card (sessions d s)) (req_transfer r) ?s)"
    by (rule put(2))
qed

lemma put_result_back [simp]:
  "load_back h (put_result held d s) = load_back h s" "load_urb u (put_result held d s) = load_urb u s"
  "linked (put_result held d s) = linked s" "givebacks (put_result held d s) = givebacks s"
  "wakeups (put_result held d s) = wakeups s" "kback.more (put_result held d s) = kback.more s"
  by (rule load_back_more load_urb_more back_fields_more; rule ktrans_more; simp)+

lemma put_obj_back [simp]:
  "load_back h (put_obj d ob s) = load_back h s" "load_urb u (put_obj d ob s) = load_urb u s"
  "linked (put_obj d ob s) = linked s" "givebacks (put_obj d ob s) = givebacks s"
  "wakeups (put_obj d ob s) = wakeups s" "kback.more (put_obj d ob s) = kback.more s"
  by (rule load_back_more load_urb_more back_fields_more; rule ktrans_more; simp)+

text \<open>
  What the rest of the system sees of a request that was given back with contents \<open>urb\<close> and
  status \<open>status\<close>: its lists and its URB; all other requests, URBs and transfers are as before.
\<close>

definition gave_back ::
  "nat \<Rightarrow> virtusb_hcd_request \<Rightarrow> urb \<Rightarrow> int \<Rightarrow> 'a kback_scheme \<Rightarrow> 'a kback_scheme \<Rightarrow> bool" where
  "gave_back h r urb status s s' \<longleftrightarrow>
     (\<forall>g. load_back g s' = (if g = h then map_option (without r) (load_back h s) else load_back g s)) \<and>
     givebacks s' = (req_urb r, urb, status) # givebacks s \<and>
     (\<forall>u. load_urb u s' = (if u = req_urb r then None else load_urb u s)) \<and>
     (\<forall>t. t \<noteq> req_transfer r \<longrightarrow> load_trans t s' = load_trans t s) \<and>
     registry s' = registry s \<and> next_object_id s' = next_object_id s \<and> next_addr s' = next_addr s \<and>
     (\<forall>g. load_hub g s' = load_hub g s) \<and> ports_fade s s' \<and> events s' = events s \<and>
     wakeups s' = wakeups s \<and> kback.more s' = kback.more s"

lemma ports_fade_trans_put: "(\<And>a. load_port a s2 = load_port a s) \<Longrightarrow> ports_fade s (trans_put_result held t s2)"
  using ports_fade_put_result [of "put_trans t tr s2" for tr]
  by (auto simp: trans_put_result_def ports_fade_def split: option.split)

lemma ports_fade_view [simp]:
  "ports_fade (put_back h b s) s' = ports_fade s s'" "ports_fade s (put_back h b s') = ports_fade s s'"
  "ports_fade (wake_up_interruptible_all h s) s' = ports_fade s s'" "ports_fade s (wake_up_interruptible_all h s') = ports_fade s s'"
  by (rule ports_fade_cong; simp add: wake_up_interruptible_all_def)+

lemma put_trans_back [simp]:
  "load_back h (put_trans t tr s) = load_back h s" "load_urb u (put_trans t tr s) = load_urb u s"
  "linked (put_trans t tr s) = linked s" "givebacks (put_trans t tr s) = givebacks s"
  "wakeups (put_trans t tr s) = wakeups s" "kback.more (put_trans t tr s) = kback.more s"
  by (rule load_back_more load_urb_more back_fields_more; simp)+

lemma trans_put_result_back [simp]:
  "load_back h (trans_put_result held t s) = load_back h s" "load_urb u (trans_put_result held t s) = load_urb u s"
  "linked (trans_put_result held t s) = linked s" "givebacks (trans_put_result held t s) = givebacks s"
  "wakeups (trans_put_result held t s) = wakeups s" "kback.more (trans_put_result held t s) = kback.more s"
  by (rule load_back_more load_urb_more back_fields_more; simp)+

lemma back_view [simp]:
  "requests (put_trans t tr s) = requests s" "queued (put_trans t tr s) = queued s" "sessions d (put_trans t tr s) = sessions d s"
  "requests (put_urb u urb s) = requests s" "queued (put_urb u urb s) = queued s" "sessions d (put_urb u urb s) = sessions d s"
  "requests (put_obj e ob s) = requests s" "queued (put_obj e ob s) = queued s" "sessions d (put_obj e ob s) = sessions d s"
  by (rule requests_cong queued_cong sessions_cong; simp)+

lemma request_alloc:
  assumes "back_wf_upto E held pins s" and "load_back h s = Some b" and "r \<in> set (pending b) \<union> set (active b)"
  obtains tr urb where "load_trans (req_transfer r) s = Some tr" and "load_urb (req_urb r) s = Some urb"
    and "t_state tr = VIRTUSB_TRANSFER_STATE_QUEUED" and "t_requested_length tr \<le> VIRTUSB_TRANSFER_DATA_MAX"
    and "urb_room urb tr"
  using back_structD(3) [OF back_wfD(2) [OF assms(1)] requestsI [OF assms(2,3)]] by (auto simp: request_ok_def)

text \<open>The tail of \<open>cancel\<close>, of both loops and of the refusals of \<open>complete\<close>.\<close>

lemma retire_taken_ok:
  assumes wf: "back_wf_upto E held pins s" and b: "load_back h s = Some b" and r: "r \<in> set (pending b) \<union> set (active b)"
    and tr: "load_trans (req_transfer r) s = Some tr"
  shows "runs (do {
           (_, s) \<leftarrow> virtusb_transfer_cancel (Some (req_transfer r)) st1 (taken h r b s);
           virtusb_backend_giveback r st2 s })
         (\<lambda>s'. back_wf_upto E held pins s' \<and> (\<exists>urb. load_urb (req_urb r) s = Some urb \<and> gave_back h r urb st2 s s') \<and>
            load_trans (req_transfer r) s' =
              (if pins (req_transfer r) = 0 then None
               else Some (tr\<lparr>t_actual_length := 0, t_status := st1, t_state := VIRTUSB_TRANSFER_STATE_CANCELLED,
                             t_refcount := pins (req_transfer r)\<rparr>)))"
proof -
  let ?t = "req_transfer r" and ?s1 = "taken h r b s"
  let ?pins = "pins(?t := Suc (pins ?t))"
  let ?tr = "tr\<lparr>t_actual_length := 0, t_status := st1, t_state := VIRTUSB_TRANSFER_STATE_CANCELLED\<rparr>"
  from wf b r obtain urb where urb: "load_urb (req_urb r) s = Some urb" "t_state tr = VIRTUSB_TRANSFER_STATE_QUEUED"
    by (rule request_alloc) (use tr in auto)
  note taken = back_wf_taken [OF wf b r]
  have tr1: "load_trans ?t ?s1 = Some tr" using tr by simp
  have act: "transfer_active tr" using urb(2) by (simp add: transfer_active_def)
  then have step: "transfer_step tr ?tr" by (rule transfer_step.cancel)
  have ref: "t_refcount tr = Suc (pins ?t)"
    using trans_wfD(3) [OF back_wfD(1) [OF taken(1)] tr1] taken(3) by simp
  have cancel: "virtusb_transfer_cancel (Some ?t) st1 ?s1 = Some (0, put_trans ?t ?tr ?s1)"
    using virtusb_transfer_cancel_ok [OF tr1] act by simp
  have wf2: "back_wf_upto E held ?pins (put_trans ?t ?tr ?s1)"
    using transfer_step_ok [OF step trans_wfD(5) [OF back_wfD(1) [OF taken(1)] tr1]] taken(3) ref
    by (intro back_wf_put_trans [OF taken(1) tr1]) auto
  have free: "(g, req_urb r, t) \<notin> requests (put_trans ?t ?tr ?s1)" for g t
    using taken(4) by (simp add: requests_cong [of "put_trans ?t ?tr ?s1" ?s1])
  have urb2: "load_urb (req_urb r) (put_trans ?t ?tr ?s1) = Some urb" using urb by simp
  note give = virtusb_backend_giveback_ok [OF wf2 urb2 free, of st2]
  show ?thesis
    using give ref b urb by (simp add: cancel gave_back_def load_trans_trans_put_result ports_fade_trans_put)
qed

section \<open>Cancelling\<close>

lemma find_urb_ok:
  assumes "load_back h s = Some b"
  shows "virtusb_backend_find_urb_locked b u = Some r \<Longrightarrow> r \<in> set (pending b) \<union> set (active b) \<and> req_urb r = u"
    and "virtusb_backend_find_urb_locked b u = None \<longleftrightarrow> (\<forall>t. (h, u, t) \<notin> requests s)"
proof -
  show "virtusb_backend_find_urb_locked b u = Some r \<Longrightarrow> r \<in> set (pending b) \<union> set (active b) \<and> req_urb r = u"
    by (auto simp: virtusb_backend_find_urb_locked_def dest: find_SomeD split: option.splits)
  have "virtusb_backend_find_urb_locked b u = None \<longleftrightarrow> (\<forall>r \<in> set (pending b) \<union> set (active b). req_urb r \<noteq> u)"
    by (auto simp: virtusb_backend_find_urb_locked_def find_None_iff dest: find_SomeD split: option.split)
  then show "virtusb_backend_find_urb_locked b u = None \<longleftrightarrow> (\<forall>t. (h, u, t) \<notin> requests s)"
    by (auto simp: requests_at [OF assms] request_keys_def)
qed

lemma virtusb_backend_cancel_ok:
  assumes wf: "back_wf held pins s" and b: "load_back h s = Some b"
  shows "runs (virtusb_backend_cancel check_ret (Some h) (Some h) (Some u) status s) (\<lambda>(ret, s').
    back_wf held pins s' \<and>
    (if check_ret < 0 then ret = check_ret \<and> s' = s
     else if \<forall>t. (h, u, t) \<notin> requests s then ret = - EIDRM \<and> s' = s
     else ret = 0 \<and> (\<exists>r urb. r \<in> set (pending b) \<union> set (active b) \<and> req_urb r = u \<and>
            load_urb u s = Some urb \<and> gave_back h r urb status s s')))"
proof (cases "virtusb_backend_find_urb_locked b u")
  case None
  then have "\<forall>t. (h, u, t) \<notin> requests s" using find_urb_ok(2) [OF b] by blast
  with wf b None show ?thesis by (simp add: virtusb_backend_cancel_def)
next
  case (Some r)
  note r = find_urb_ok(1) [OF b Some]
  from r obtain tr where "load_trans (req_transfer r) s = Some tr"
    by (meson request_alloc [OF wf b])
  note retire = retire_taken_ok [OF wf b _ this, of status status]
  have req: "\<not> (\<forall>t. (h, u, t) \<notin> requests s)" using find_urb_ok(2) [OF b, of u] Some by simp
  show ?thesis
  proof (cases "check_ret < 0")
    case False
    have "runs (virtusb_backend_cancel check_ret (Some h) (Some h) (Some u) status s) (\<lambda>(ret, s'). ret = 0 \<and>
        back_wf held pins s' \<and> (\<exists>urb. load_urb (req_urb r) s = Some urb \<and> gave_back h r urb status s s'))"
      using retire r b Some False
      by (simp add: virtusb_backend_cancel_def take_request_ok [OF b] wp) (erule runs_mono, auto simp: wp elim!: runs_mono)
    with r req False show ?thesis by (auto elim!: runs_mono)
  qed (use wf in \<open>simp add: virtusb_backend_cancel_def\<close>)
qed

end
