(* ===== verification/Virtusb_Backend_Loops.thy ===== *)
theory Virtusb_Backend_Loops
  imports Virtusb_Backend_Props
begin

text \<open>
  Ending a session and stopping a backend. The three loops drain a list each: they are instances
  of \<open>drain_loop\<close>, which gives their termination and that every request is given back exactly
  once, in order.
\<close>

section \<open>Searching under the invariant\<close>

lemma list_first_ok:
  "(\<And>r. r \<in> set rs \<Longrightarrow> P r = Some (Q r)) \<Longrightarrow> list_first P rs = Some (find Q rs)"
  by (induction rs) simp_all

lemma request_trans:
  assumes "back_wf_upto E held pins s" and "load_back h s = Some b" and "r \<in> set (pending b) \<union> set (active b)"
  shows "load_trans (req_transfer r) s = Some (the (load_trans (req_transfer r) s))"
  using request_alloc [OF assms] by (metis option.sel)

lemma release_owner_candidate_ok:
  assumes wf: "back_wf_upto E held pins s" and b: "load_back h s = Some b"
  shows "release_owner_candidate b d file s =
      Some (case find (\<lambda>r. device_of s r = d) (pending b) of
              Some r \<Rightarrow> Some r
            | None \<Rightarrow> find (\<lambda>r. device_of s r = d \<and> req_owner r = Some file) (active b))"
proof -
  have tr: "do { tr \<leftarrow> load_trans (req_transfer r) s; Some (t_device tr = d \<and> Q r) } = Some (device_of s r = d \<and> Q r)"
    if r: "r \<in> set (pending b) \<union> set (active b)" for r Q
  proof -
    from wf b r obtain tr where "load_trans (req_transfer r) s = Some tr" by (rule request_alloc)
    then show ?thesis by (simp add: device_of_def)
  qed
  have "list_first (\<lambda>r. do { tr \<leftarrow> load_trans (req_transfer r) s; Some (t_device tr = d) }) (pending b) =
      Some (find (\<lambda>r. device_of s r = d) (pending b))"
    by (rule list_first_ok) (use tr [where Q = "\<lambda>_. True"] in simp)
  moreover have "list_first (\<lambda>r. do { tr \<leftarrow> load_trans (req_transfer r) s;
        Some (t_device tr = d \<and> req_owner r = Some file) }) (active b) =
      Some (find (\<lambda>r. device_of s r = d \<and> req_owner r = Some file) (active b))"
    by (rule list_first_ok) (use tr [where Q = "\<lambda>r. req_owner r = Some file"] in simp)
  ultimately show ?thesis by (simp add: release_owner_candidate_def split: option.split)
qed

section \<open>Many requests given back\<close>

text \<open>The requests \<open>rs\<close> were given back with one status, the last of them most recently.\<close>

definition gave_back_all ::
  "nat \<Rightarrow> virtusb_hcd_request list \<Rightarrow> int \<Rightarrow> 'a kback_scheme \<Rightarrow> 'a kback_scheme \<Rightarrow> bool" where
  "gave_back_all h rs status s s' \<longleftrightarrow>
     (\<forall>g. g \<noteq> h \<longrightarrow> load_back g s' = load_back g s) \<and>
     (\<exists>gs. givebacks s' = gs @ givebacks s \<and>
           map (\<lambda>(u, _, st). (u, st)) gs = rev (map (\<lambda>r. (req_urb r, status)) rs)) \<and>
     (\<forall>u. load_urb u s' = (if u \<in> req_urb ` set rs then None else load_urb u s)) \<and>
     (\<forall>t. t \<notin> req_transfer ` set rs \<longrightarrow> load_trans t s' = load_trans t s) \<and>
     registry s' = registry s \<and> next_object_id s' = next_object_id s \<and> next_addr s' = next_addr s \<and>
     (\<forall>g. load_hub g s' = load_hub g s) \<and> ports_fade s s' \<and> events s' = events s \<and>
     wakeups s' = wakeups s \<and> kback.more s' = kback.more s"

lemma gave_back_all_Nil [simp]:
  "gave_back_all h [] status s s' \<longleftrightarrow>
     (\<forall>g. g \<noteq> h \<longrightarrow> load_back g s' = load_back g s) \<and> givebacks s' = givebacks s \<and>
     (\<forall>u. load_urb u s' = load_urb u s) \<and> (\<forall>t. load_trans t s' = load_trans t s) \<and>
     registry s' = registry s \<and> next_object_id s' = next_object_id s \<and> next_addr s' = next_addr s \<and>
     (\<forall>g. load_hub g s' = load_hub g s) \<and> ports_fade s s' \<and> events s' = events s \<and>
     wakeups s' = wakeups s \<and> kback.more s' = kback.more s"
  by (auto simp add: gave_back_all_def simp del: split_paired_All)

lemma gave_back_all_snoc:
  assumes all: "gave_back_all h rs status s s1" and one: "gave_back h r urb status s1 s2"
  shows "gave_back_all h (rs @ [r]) status s s2"
proof -
  from all obtain gs where "givebacks s1 = gs @ givebacks s"
    "map (\<lambda>(u, _, st). (u, st)) gs = rev (map (\<lambda>r. (req_urb r, status)) rs)"
    by (auto simp: gave_back_all_def)
  with one have "givebacks s2 = ((req_urb r, urb, status) # gs) @ givebacks s \<and>
      map (\<lambda>(u, _, st). (u, st)) ((req_urb r, urb, status) # gs) = rev (map (\<lambda>r. (req_urb r, status)) (rs @ [r]))"
    by (simp add: gave_back_def)
  then have "\<exists>gs. givebacks s2 = gs @ givebacks s \<and>
      map (\<lambda>(u, _, st). (u, st)) gs = rev (map (\<lambda>r. (req_urb r, status)) (rs @ [r]))" by blast
  with assms show ?thesis using ports_fade_trans [of s s1 s2] by (simp add: gave_back_all_def gave_back_def)
qed

lemma device_of_gave_back:
  assumes wf: "back_wf_upto E held pins s" and b: "load_back h s = Some b"
    and r: "r \<in> set (pending b) \<union> set (active b)" and r': "r' \<in> set (remove1 r (pending b)) \<union> set (remove1 r (active b))"
    and gb: "gave_back h r urb status s s'"
  shows "device_of s' r' = device_of s r'"
proof -
  have dist: "distinct (map req_transfer (pending b @ active b))"
    using back_structD(2) [OF back_wfD(2) [OF wf] b] by (simp add: backend_ok_def)
  then have inj: "inj_on req_transfer (set (pending b) \<union> set (active b))" and "distinct (pending b @ active b)"
    unfolding distinct_map set_append by blast+
  then have "distinct (pending b)" "distinct (active b)" by simp_all
  with r' have "r' \<noteq> r" "r' \<in> set (pending b) \<union> set (active b)" by (simp_all only: set_remove1_eq) blast+
  with inj r have "req_transfer r' \<noteq> req_transfer r" by (blast dest: inj_onD)
  with gb show ?thesis by (simp add: gave_back_def device_of_def)
qed

section \<open>Stopping\<close>

text \<open>The loop over the requests: what has been given back plus what is left is what was there.\<close>

definition requests_of :: "nat \<Rightarrow> 'a kback_scheme \<Rightarrow> virtusb_hcd_request list" where
  "requests_of h s = (case load_back h s of None \<Rightarrow> [] | Some b \<Rightarrow> pending b @ active b)"

definition stop_requests_inv ::
  "(nat \<Rightarrow> virtusb_backend_binding set) \<Rightarrow> (nat \<Rightarrow> nat) \<Rightarrow> (nat \<Rightarrow> nat) \<Rightarrow> nat \<Rightarrow> 'a kback_scheme
     \<Rightarrow> virtusb_hcd_request list \<Rightarrow> 'a kback_scheme \<Rightarrow> bool" where
  "stop_requests_inv E held pins h s0 ds s \<longleftrightarrow>
     back_wf_upto E held pins s \<and> gave_back_all h ds (- ESHUTDOWN) s0 s \<and>
     (\<exists>b0 b. load_back h s0 = Some b0 \<and> load_back h s = Some b \<and> bindings b = bindings b0 \<and> stopping b = stopping b0)"

lemma remove1_append: "remove1 x (xs @ ys) = (if x \<in> set xs then remove1 x xs @ ys else xs @ remove1 x ys)"
  by (induction xs) auto

lemma retire_step:
  assumes wf: "back_wf_upto E held pins s" and b: "load_back h s = Some b" and r: "r \<in> set (pending b) \<union> set (active b)"
  shows "runs (do {
           s \<leftarrow> take_request h r s;
           (_, s) \<leftarrow> virtusb_transfer_cancel (Some (req_transfer r)) st1 s;
           virtusb_backend_giveback r st2 s })
         (\<lambda>s'. back_wf_upto E held pins s' \<and> (\<exists>urb. gave_back h r urb st2 s s'))"
  using retire_taken_ok [OF wf b r request_trans [OF wf b r], of st1 st2]
  by (auto simp: take_request_ok [OF b] elim!: runs_mono)

interpretation stop_requests_loop: drain_loop "stop_requests h"
    "\<lambda>s. do { b \<leftarrow> load_back h s; Some (case pending b @ active b of [] \<Rightarrow> None | r # _ \<Rightarrow> Some r) }"
    "\<lambda>r s. do {
       s \<leftarrow> take_request h r s;
       (_, s) \<leftarrow> virtusb_transfer_cancel (Some (req_transfer r)) (- ESHUTDOWN) s;
       virtusb_backend_giveback r (- ESHUTDOWN) s }"
    "requests_of h" "stop_requests_inv E held pins h s0"
  for E held pins h and s0 :: "'a kback_scheme"
proof unfold_locales
  fix s :: "'a kback_scheme"
  show "stop_requests h s =
      do { b \<leftarrow> load_back h s; Some (case pending b @ active b of [] \<Rightarrow> None | r # _ \<Rightarrow> Some r) } \<bind>
      (\<lambda>c. case c of None \<Rightarrow> Some s
           | Some r \<Rightarrow> do {
               s \<leftarrow> take_request h r s;
               (_, s) \<leftarrow> virtusb_transfer_cancel (Some (req_transfer r)) (- ESHUTDOWN) s;
               virtusb_backend_giveback r (- ESHUTDOWN) s } \<bind> stop_requests h)"
    by (subst stop_requests.simps)
       (auto simp: case_prod_beta split: list.split intro!: Option.bind_cong)
next
  fix ds and s :: "'a kback_scheme"
  assume "stop_requests_inv E held pins h s0 ds s"
  then obtain b where "load_back h s = Some b" by (auto simp: stop_requests_inv_def)
  then show "do { b \<leftarrow> load_back h s; Some (case pending b @ active b of [] \<Rightarrow> None | r # _ \<Rightarrow> Some r) } =
      Some (case requests_of h s of [] \<Rightarrow> None | r # _ \<Rightarrow> Some r)"
    by (simp add: requests_of_def)
next
  fix ds r rs and s :: "'a kback_scheme"
  assume inv: "stop_requests_inv E held pins h s0 ds s" and todo: "requests_of h s = r # rs"
  from inv obtain b0 b where b: "load_back h s0 = Some b0" "load_back h s = Some b" "bindings b = bindings b0"
    "stopping b = stopping b0" and wf: "back_wf_upto E held pins s" and all: "gave_back_all h ds (- ESHUTDOWN) s0 s"
    by (auto simp: stop_requests_inv_def)
  have list: "pending b @ active b = r # rs" using todo b(2) by (simp add: requests_of_def)
  then have r: "r \<in> set (pending b) \<union> set (active b)" by (metis list.set_intros(1) set_append)
  have "distinct (pending b @ active b)"
    using back_structD(2) [OF back_wfD(2) [OF wf] b(2)] unfolding backend_ok_def distinct_map by blast
  then have "remove1 r (pending b) @ remove1 r (active b) = rs"
    using list by (cases "pending b") (auto simp: remove1_idem)
  with retire_step [OF wf b(2) r, of "- ESHUTDOWN" "- ESHUTDOWN"] b all
  show "runs (do {
       s \<leftarrow> take_request h r s;
       (_, s) \<leftarrow> virtusb_transfer_cancel (Some (req_transfer r)) (- ESHUTDOWN) s;
       virtusb_backend_giveback r (- ESHUTDOWN) s })
     (\<lambda>s'. stop_requests_inv E held pins h s0 (ds @ [r]) s' \<and> requests_of h s' = rs)"
    by (elim runs_mono)
       (auto simp: stop_requests_inv_def requests_of_def gave_back_def [of h r] intro: gave_back_all_snoc)
qed

section \<open>Sessions that end\<close>

text \<open>A binding off the list: its device reference is in the hands of whoever took it off.\<close>

lemma back_wf_remove_binding:
  assumes wf: "back_wf_upto E held pins s" and b: "load_back h s = Some b" and bd: "bd \<in> set (bindings b)"
  shows "back_wf_upto (E(h := insert bd (E h))) (held(bind_device bd := Suc (held (bind_device bd)))) pins
           (put_back h (b\<lparr>bindings := remove1 bd (bindings b)\<rparr>) s)"
proof -
  let ?b = "b\<lparr>bindings := remove1 bd (bindings b)\<rparr>" and ?d = "bind_device bd"
  let ?s' = "put_back h ?b s"
  note struct = back_wfD(2) [OF wf]
  note ok = back_structD(2) [OF struct b]
  have inj: "inj_on bind_device (set (bindings b))" and dist: "distinct (bindings b)"
    using ok unfolding backend_ok_def distinct_map by blast+
  have set: "set (remove1 bd (bindings b)) = set (bindings b) - {bd}" by (rule set_remove1_eq [OF dist])
  have "distinct (map bind_owner (remove1 bd (bindings b)))" "distinct (map bind_device (remove1 bd (bindings b)))"
    using ok distinct_remove1 [OF dist] unfolding backend_ok_def distinct_map set by (auto intro: inj_on_subset)
  then have "backend_ok ((E(h := insert bd (E h))) h) s ?b"
    using ok bd by (auto simp: backend_ok_def set)
  then have "back_struct (E(h := insert bd (E h))) ?s'"
    by (intro back_struct_put_back [OF struct b]) (auto simp: request_keys_def)
  moreover have "sessions e ?s' = (if e = ?d then sessions e s - {h} else sessions e s)" for e
  proof (cases "e = ?d")
    case True
    with inj bd have "e \<notin> bind_device ` set (remove1 bd (bindings b))" by (auto simp: set dest: inj_onD)
    with True show ?thesis by (simp add: sessions_put_back)
  next
    case False
    then have "e \<in> bind_device ` set (remove1 bd (bindings b)) \<longleftrightarrow> e \<in> bind_device ` set (bindings b)"
      by (auto simp: set)
    with False b show ?thesis by (auto simp: sessions_put_back sessions_def)
  qed
  moreover have "h \<in> sessions ?d s" using b bd by (auto simp: sessions_def)
  ultimately have "(\<lambda>e. (held(?d := Suc (held ?d))) e + card (sessions e ?s')) = (\<lambda>e. held e + card (sessions e s))"
    using card_Suc_Diff1 [OF finite_sessions [OF struct]] by (intro ext) auto
  moreover have "queued ?s' = queued s"
    by (rule requests_put_back_same(2) [OF b]) (simp add: request_keys_def)
  ultimately show ?thesis
    using back_wfD(1) [OF wf] \<open>back_struct _ ?s'\<close> by (simp add: back_wf_upto_def)
qed

text \<open>A session is over when none of its requests is left.\<close>

lemma back_wf_session_over:
  assumes wf: "back_wf_upto (E(h := insert bd (E h))) held pins s" and b: "load_back h s = Some b"
    and over: "\<And>r. r \<in> set (pending b) \<Longrightarrow> device_of s r \<noteq> bind_device bd"
      "\<And>r. r \<in> set (active b) \<Longrightarrow> device_of s r = bind_device bd \<Longrightarrow> req_owner r \<noteq> Some (bind_owner bd)"
  shows "back_wf_upto E held pins s"
proof -
  let ?E = "E(h := insert bd (E h))"
  note struct = back_wfD(2) [OF wf]
  have "backend_ok (E g) s c" if c: "load_back g s = Some c" for g c
  proof (cases "g = h")
    case True
    with c b have "c = b" by simp
    moreover have "backend_ok (insert bd (E h)) s b" using back_structD(2) [OF struct b] by simp
    ultimately show ?thesis using over True by (fastforce simp: backend_ok_def)
  next
    case False
    with back_structD(2) [OF struct c] show ?thesis by simp
  qed
  then have "back_struct E s" using struct unfolding back_struct_def by blast
  with wf show ?thesis by (simp add: back_wf_upto_def)
qed

text \<open>While a session lasts, whatever is fetched for its device was fetched by its owner.\<close>

lemma active_owner:
  assumes "backend_ok E s b" and "bd \<in> set (bindings b)" and "r \<in> set (active b)" and "E = {}"
    and "device_of s r = bind_device bd"
  shows "req_owner r = Some (bind_owner bd)"
proof -
  from assms obtain bd' where "bd' \<in> set (bindings b)" "bind_device bd' = device_of s r" "req_owner r = Some (bind_owner bd')"
    by (fastforce simp: backend_ok_def)
  moreover have "inj_on bind_device (set (bindings b))" using assms(1) by (simp add: backend_ok_def distinct_map)
  ultimately show ?thesis using assms(2,5) by (metis inj_onD)
qed

section \<open>The loop that ends a session\<close>

definition device_requests :: "nat \<Rightarrow> nat \<Rightarrow> nat \<Rightarrow> 'a kback_scheme \<Rightarrow> virtusb_hcd_request list" where
  "device_requests h d file s =
     (case load_back h s of
        None \<Rightarrow> []
      | Some b \<Rightarrow> filter (\<lambda>r. device_of s r = d) (pending b) @
                  filter (\<lambda>r. device_of s r = d \<and> req_owner r = Some file) (active b))"

text \<open>The requests of other devices and sessions stay where they are.\<close>

definition release_inv ::
  "(nat \<Rightarrow> virtusb_backend_binding set) \<Rightarrow> (nat \<Rightarrow> nat) \<Rightarrow> (nat \<Rightarrow> nat) \<Rightarrow> nat \<Rightarrow> nat \<Rightarrow> nat
     \<Rightarrow> 'a kback_scheme \<Rightarrow> virtusb_hcd_request list \<Rightarrow> 'a kback_scheme \<Rightarrow> bool" where
  "release_inv E held pins h d file s0 ds s \<longleftrightarrow>
     back_wf_upto E held pins s \<and> gave_back_all h ds (- ESHUTDOWN) s0 s \<and>
     (\<exists>b0 b. load_back h s0 = Some b0 \<and> load_back h s = Some b \<and> bindings b = bindings b0 \<and> stopping b = stopping b0 \<and>
        (\<forall>r \<in> set (pending b) \<union> set (active b). device_of s r = device_of s0 r) \<and>
        filter (\<lambda>r. device_of s0 r \<noteq> d) (pending b) = filter (\<lambda>r. device_of s0 r \<noteq> d) (pending b0) \<and>
        filter (\<lambda>r. \<not> (device_of s0 r = d \<and> req_owner r = Some file)) (active b) =
          filter (\<lambda>r. \<not> (device_of s0 r = d \<and> req_owner r = Some file)) (active b0))"

lemma first_of_two:
  assumes dist: "distinct (xs @ ys)" and list: "filter P xs @ filter Q ys = r # rs"
  shows "r \<in> set xs \<union> set ys" and "filter P (remove1 r xs) @ filter Q (remove1 r ys) = rs"
    and "filter (\<lambda>x. \<not> P x) (remove1 r xs) = filter (\<lambda>x. \<not> P x) xs"
    and "filter (\<lambda>y. \<not> Q y) (remove1 r ys) = filter (\<lambda>y. \<not> Q y) ys"
proof -
  consider (p) ps where "filter P xs = r # ps" "ps @ filter Q ys = rs" | (a) "filter P xs = []" "filter Q ys = r # rs"
    using list by (cases "filter P xs") auto
  then have "r \<in> set xs \<union> set ys \<and> filter P (remove1 r xs) @ filter Q (remove1 r ys) = rs \<and>
      filter (\<lambda>x. \<not> P x) (remove1 r xs) = filter (\<lambda>x. \<not> P x) xs \<and>
      filter (\<lambda>y. \<not> Q y) (remove1 r ys) = filter (\<lambda>y. \<not> Q y) ys"
  proof cases
    case p
    then have "r \<in> set (filter P xs)" by simp
    then have "r \<in> set xs" by simp
    with dist have "r \<notin> set ys" by auto
    with p filter_remove1_first [OF p(1)] \<open>r \<in> set xs\<close> show ?thesis by (simp add: remove1_idem)
  next
    case a
    then have "r \<in> set (filter Q ys)" by simp
    then have "r \<in> set ys" by simp
    with dist have "r \<notin> set xs" by auto
    with a filter_remove1_first [OF a(2)] \<open>r \<in> set ys\<close> show ?thesis by (simp add: remove1_idem)
  qed
  then show "r \<in> set xs \<union> set ys" "filter P (remove1 r xs) @ filter Q (remove1 r ys) = rs"
    "filter (\<lambda>x. \<not> P x) (remove1 r xs) = filter (\<lambda>x. \<not> P x) xs"
    "filter (\<lambda>y. \<not> Q y) (remove1 r ys) = filter (\<lambda>y. \<not> Q y) ys" by blast+
qed

interpretation release_loop: drain_loop "release_owner_requests h d f"
    "\<lambda>s. do { b \<leftarrow> load_back h s; release_owner_candidate b d f s }"
    "\<lambda>r s. do {
       s \<leftarrow> take_request h r s;
       (_, s) \<leftarrow> virtusb_transfer_cancel (Some (req_transfer r)) (- ESHUTDOWN) s;
       virtusb_backend_giveback r (- ESHUTDOWN) s }"
    "device_requests h d f" "release_inv E held pins h d f s0"
  for E held pins h d f and s0 :: "'a kback_scheme"
proof unfold_locales
  fix s :: "'a kback_scheme"
  show "release_owner_requests h d f s =
      do { b \<leftarrow> load_back h s; release_owner_candidate b d f s } \<bind>
      (\<lambda>c. case c of None \<Rightarrow> Some s
           | Some r \<Rightarrow> do {
               s \<leftarrow> take_request h r s;
               (_, s) \<leftarrow> virtusb_transfer_cancel (Some (req_transfer r)) (- ESHUTDOWN) s;
               virtusb_backend_giveback r (- ESHUTDOWN) s } \<bind> release_owner_requests h d f)"
    by (subst release_owner_requests.simps)
       (auto simp: case_prod_beta split: option.split intro!: Option.bind_cong)
next
  fix ds and s :: "'a kback_scheme"
  assume "release_inv E held pins h d f s0 ds s"
  then obtain b where b: "load_back h s = Some b" and wf: "back_wf_upto E held pins s" by (auto simp: release_inv_def)
  show "do { b \<leftarrow> load_back h s; release_owner_candidate b d f s } =
      Some (case device_requests h d f s of [] \<Rightarrow> None | r # _ \<Rightarrow> Some r)"
    by (simp add: b release_owner_candidate_ok [OF wf b] device_requests_def find_filter split: list.split)
next
  fix ds r rs and s :: "'a kback_scheme"
  assume inv: "release_inv E held pins h d f s0 ds s" and todo: "device_requests h d f s = r # rs"
  let ?Q = "\<lambda>r. device_of s r = d \<and> req_owner r = Some f"
  from inv obtain b0 b where b: "load_back h s0 = Some b0" "load_back h s = Some b" "bindings b = bindings b0"
    "stopping b = stopping b0" "\<forall>r \<in> set (pending b) \<union> set (active b). device_of s r = device_of s0 r"
    and rest: "filter (\<lambda>r. device_of s0 r \<noteq> d) (pending b) = filter (\<lambda>r. device_of s0 r \<noteq> d) (pending b0)"
      "filter (\<lambda>r. \<not> (device_of s0 r = d \<and> req_owner r = Some f)) (active b) =
         filter (\<lambda>r. \<not> (device_of s0 r = d \<and> req_owner r = Some f)) (active b0)"
    and wf: "back_wf_upto E held pins s" and all: "gave_back_all h ds (- ESHUTDOWN) s0 s"
    by (auto simp: release_inv_def)
  have list: "filter (\<lambda>r. device_of s r = d) (pending b) @ filter ?Q (active b) = r # rs"
    using todo b(2) by (simp add: device_requests_def)
  have dist: "distinct (pending b @ active b)"
    using back_structD(2) [OF back_wfD(2) [OF wf] b(2)] unfolding backend_ok_def distinct_map by blast
  have lists: "r \<in> set (pending b) \<union> set (active b)"
    "filter (\<lambda>r. device_of s r = d) (remove1 r (pending b)) @ filter ?Q (remove1 r (active b)) = rs"
    "filter (\<lambda>r. device_of s r \<noteq> d) (remove1 r (pending b)) = filter (\<lambda>r. device_of s r \<noteq> d) (pending b)"
    "filter (\<lambda>r. \<not> ?Q r) (remove1 r (active b)) = filter (\<lambda>r. \<not> ?Q r) (active b)"
    using first_of_two [OF dist list] by blast+
  have rem: "set (remove1 r (pending b)) \<union> set (remove1 r (active b)) \<subseteq> set (pending b) \<union> set (active b)"
    by (meson Un_mono set_remove1_subset)
  show "runs (do {
       s \<leftarrow> take_request h r s;
       (_, s) \<leftarrow> virtusb_transfer_cancel (Some (req_transfer r)) (- ESHUTDOWN) s;
       virtusb_backend_giveback r (- ESHUTDOWN) s })
     (\<lambda>s'. release_inv E held pins h d f s0 (ds @ [r]) s' \<and> device_requests h d f s' = rs)"
  proof (rule runs_mono [OF retire_step [OF wf b(2) lists(1)]])
    fix s' assume *: "back_wf_upto E held pins s' \<and> (\<exists>urb. gave_back h r urb (- ESHUTDOWN) s s')"
    then obtain urb where gb: "gave_back h r urb (- ESHUTDOWN) s s'" by blast
    then have b': "load_back h s' = Some (without r b)" by (simp add: gave_back_def b(2))
    have dev: "device_of s' r' = device_of s r'" if "r' \<in> set (remove1 r (pending b)) \<union> set (remove1 r (active b))" for r'
      by (rule device_of_gave_back [OF wf b(2) lists(1) that gb])
    have "device_requests h d f s' = rs"
      using lists(2) by (simp add: device_requests_def b' dev cong: filter_cong)
    moreover have dev0: "device_of s r' = device_of s0 r'" if "r' \<in> set (pending b) \<union> set (active b)" for r'
      using b(5) that by blast
    have "filter (\<lambda>r. device_of s0 r \<noteq> d) (remove1 r (pending b)) = filter (\<lambda>r. device_of s0 r \<noteq> d) (pending b)"
      "filter (\<lambda>r. \<not> (device_of s0 r = d \<and> req_owner r = Some f)) (remove1 r (active b)) =
        filter (\<lambda>r. \<not> (device_of s0 r = d \<and> req_owner r = Some f)) (active b)"
      using lists(3,4) dev0 rem by (simp_all cong: filter_cong add: subset_iff)
    ultimately show "release_inv E held pins h d f s0 (ds @ [r]) s' \<and> device_requests h d f s' = rs"
      using * b b' rest dev dev0 rem gave_back_all_snoc [OF all gb]
      by (auto simp: release_inv_def)
  qed
qed

lemma back_wf_wake [simp]: "back_wf_upto E held pins (wake_up_interruptible_all h s) = back_wf_upto E held pins s"
proof -
  have "load_back g (wake_up_interruptible_all h s) = load_back g s" for g by (simp add: wake_up_interruptible_all_def)
  moreover have "request_ok (wake_up_interruptible_all h s) u t = request_ok s u t" for u t
    by (simp add: request_ok_def wake_up_interruptible_all_def)
  moreover have "device_of (wake_up_interruptible_all h s) r = device_of s r" for r
    by (simp add: device_of_def wake_up_interruptible_all_def)
  moreover have "trans_wf a c (wake_up_interruptible_all h s) = trans_wf a c s" for a c
    by (simp add: wake_up_interruptible_all_def)
  moreover have "linked (wake_up_interruptible_all h s) = linked s" by (simp add: wake_up_interruptible_all_def)
  ultimately show ?thesis
    by (simp add: back_wf_upto_def back_struct_def backend_ok_def queued_def requests_def sessions_def)
qed

lemma wake_sel [simp]:
  "load_port a (wake_up_interruptible_all h s) = load_port a s"
  "load_hub g (wake_up_interruptible_all h s) = load_hub g s"
  "load_obj d (wake_up_interruptible_all h s) = load_obj d s"
  "load_trans t (wake_up_interruptible_all h s) = load_trans t s"
  "load_urb u (wake_up_interruptible_all h s) = load_urb u s"
  "load_back g (wake_up_interruptible_all h s) = load_back g s"
  "registry (wake_up_interruptible_all h s) = registry s"
  "next_object_id (wake_up_interruptible_all h s) = next_object_id s"
  "next_addr (wake_up_interruptible_all h s) = next_addr s"
  "next_transfer_id (wake_up_interruptible_all h s) = next_transfer_id s"
  "events (wake_up_interruptible_all h s) = events s"
  "linked (wake_up_interruptible_all h s) = linked s"
  "givebacks (wake_up_interruptible_all h s) = givebacks s"
  "wakeups (wake_up_interruptible_all h s) = h # wakeups s"
  "kback.more (wake_up_interruptible_all h s) = kback.more s"
  by (simp_all add: wake_up_interruptible_all_def)

lemma device_of_wake [simp]: "device_of (wake_up_interruptible_all h s) r = device_of s r"
  by (simp add: device_of_def)

lemma find_owner_ok:
  assumes "backend_ok E s b" and "virtusb_backend_find_owner_locked b f = Some bd"
  shows "bd \<in> set (bindings b)" and "bind_owner bd = f"
  using assms(2) by (auto simp: virtusb_backend_find_owner_locked_def dest: find_SomeD)

text \<open>
  Releasing an owner ends its session: everything queued or fetched for its device is given back
  with -ESHUTDOWN, in order and exactly once; other sessions do not notice.
\<close>

lemma virtusb_backend_release_owner_ok:
  assumes wf: "back_wf held pins s" and b: "load_back h s = Some b"
  shows "runs (virtusb_backend_release_owner (Some h) (Some h) (Some f) s) (\<lambda>s'. back_wf held pins s' \<and>
    (case virtusb_backend_find_owner_locked b f of
       None \<Rightarrow> s' = s
     | Some bd \<Rightarrow>
         load_back h s' = Some (b\<lparr>bindings := remove1 bd (bindings b),
           pending := filter (\<lambda>r. device_of s r \<noteq> bind_device bd) (pending b),
           active := filter (\<lambda>r. device_of s r \<noteq> bind_device bd) (active b)\<rparr>) \<and>
         gave_back_all h (filter (\<lambda>r. device_of s r = bind_device bd) (pending b @ active b)) (- ESHUTDOWN)
           (wake_up_interruptible_all h s) s'))"
proof (cases "virtusb_backend_find_owner_locked b f")
  case None
  with wf b show ?thesis by (simp add: virtusb_backend_release_owner_def)
next
  case (Some bd)
  note ok = back_structD(2) [OF back_wfD(2) [OF wf] b]
  note bd = find_owner_ok [OF ok Some]
  let ?d = "bind_device bd"
  let ?b1 = "b\<lparr>bindings := remove1 bd (bindings b)\<rparr>"
  let ?s1 = "put_back h ?b1 s" and ?E = "(\<lambda>_. {})(h := insert bd {})" and ?held = "held(?d := Suc (held ?d))"
  have wf1: "back_wf_upto ?E ?held pins ?s1" by (rule back_wf_remove_binding [OF wf b bd(1)])
  have dev1: "device_of ?s1 r = device_of s r" for r by (simp add: device_of_def)
  have own: "req_owner r = Some f" if "r \<in> set (active b)" "device_of s r = ?d" for r
    using active_owner [OF ok bd(1) that(1) refl that(2)] bd(2) by simp
  then have list: "device_requests h ?d f ?s1 = filter (\<lambda>r. device_of s r = ?d) (pending b @ active b)"
    by (auto simp: device_requests_def dev1 intro!: filter_cong)
  have "release_inv ?E ?held pins h ?d f ?s1 [] ?s1" using wf1 by (auto simp: release_inv_def)
  from release_loop.drained [OF this] obtain s2 where
    s2: "release_owner_requests h ?d f ?s1 = Some s2" "device_requests h ?d f s2 = []"
      "release_inv ?E ?held pins h ?d f ?s1 (filter (\<lambda>r. device_of s r = ?d) (pending b @ active b)) s2"
    by (auto simp: runs_iff list)
  then obtain b2 where wf2: "back_wf_upto ?E ?held pins s2" and b2: "load_back h s2 = Some b2" "bindings b2 = remove1 bd (bindings b)"
      "stopping b2 = stopping b" "\<forall>r \<in> set (pending b2) \<union> set (active b2). device_of s2 r = device_of s r"
      "filter (\<lambda>r. device_of s r \<noteq> ?d) (pending b2) = filter (\<lambda>r. device_of s r \<noteq> ?d) (pending b)"
      "filter (\<lambda>r. \<not> (device_of s r = ?d \<and> req_owner r = Some f)) (active b2) =
         filter (\<lambda>r. \<not> (device_of s r = ?d \<and> req_owner r = Some f)) (active b)"
    and gb: "gave_back_all h (filter (\<lambda>r. device_of s r = ?d) (pending b @ active b)) (- ESHUTDOWN) ?s1 s2"
    by (auto simp: release_inv_def dev1)
  from s2(2) b2(1,4) have none: "\<forall>r \<in> set (pending b2). device_of s r \<noteq> ?d"
    "\<forall>r \<in> set (active b2). \<not> (device_of s r = ?d \<and> req_owner r = Some f)"
    by (auto simp: device_requests_def filter_empty_conv)
  have p2: "pending b2 = filter (\<lambda>r. device_of s r \<noteq> ?d) (pending b)"
    using b2(5) filter_True [OF none(1)] by simp
  have "active b2 = filter (\<lambda>r. \<not> (device_of s r = ?d \<and> req_owner r = Some f)) (active b)"
    using b2(6) filter_True [OF none(2)] by simp
  also have "\<dots> = filter (\<lambda>r. device_of s r \<noteq> ?d) (active b)"
    by (rule filter_cong) (use own in auto)
  finally have a2: "active b2 = filter (\<lambda>r. device_of s r \<noteq> ?d) (active b)" .
  have wf3: "back_wf ?held pins s2"
    by (rule back_wf_session_over [OF _ b2(1)]) (use wf2 b2(4) none bd(2) in auto)
  note put = back_wf_object_put [OF wf3, of ?d]
  let ?s3 = "put_result (\<lambda>e. ?held e + (card (sessions e s2) + card (users e s2))) ?d s2"
  have "virtusb_backend_release_owner (Some h) (Some h) (Some f) s = Some (wake_up_interruptible_all h ?s3)"
    using b Some s2(1) put(1) by (simp add: virtusb_backend_release_owner_def Let_def)
  moreover have "back_wf held pins (wake_up_interruptible_all h ?s3)"
    using put(2) by simp
  moreover have "b2 = b\<lparr>bindings := remove1 bd (bindings b), pending := filter (\<lambda>r. device_of s r \<noteq> ?d) (pending b),
      active := filter (\<lambda>r. device_of s r \<noteq> ?d) (active b)\<rparr>"
    using b2(2,3) p2 a2 by simp
  moreover have "gave_back_all h (filter (\<lambda>r. device_of s r = ?d) (pending b @ active b)) (- ESHUTDOWN)
      (wake_up_interruptible_all h s) (wake_up_interruptible_all h ?s3)"
    using gb by (simp add: gave_back_all_def ports_fade_put)
  ultimately show ?thesis using Some b2(1) by simp
qed

section \<open>The bindings of a backend that stops\<close>

definition bindings_of :: "nat \<Rightarrow> 'a kback_scheme \<Rightarrow> virtusb_backend_binding list" where
  "bindings_of h s = (case load_back h s of None \<Rightarrow> [] | Some b \<Rightarrow> bindings b)"

definition stop_bindings_inv ::
  "(nat \<Rightarrow> nat) \<Rightarrow> (nat \<Rightarrow> nat) \<Rightarrow> nat \<Rightarrow> 'a kback_scheme \<Rightarrow> virtusb_backend_binding list \<Rightarrow> 'a kback_scheme \<Rightarrow> bool" where
  "stop_bindings_inv held pins h s0 ds s \<longleftrightarrow>
     back_wf held pins s \<and> gave_back_all h [] (- ESHUTDOWN) s0 s \<and>
     (\<exists>b0 b. load_back h s0 = Some b0 \<and> load_back h s = Some b \<and> pending b = [] \<and> active b = [] \<and> stopping b = stopping b0)"

interpretation stop_bindings_loop: drain_loop "stop_bindings h"
    "\<lambda>s. do { b \<leftarrow> load_back h s; Some (case bindings b of [] \<Rightarrow> None | bd # _ \<Rightarrow> Some bd) }"
    "\<lambda>bd s. do {
       s \<leftarrow> modify_back h (\<lambda>b. b\<lparr>bindings := tl (bindings b)\<rparr>) s;
       virtusb_object_put (Some (bind_device bd)) s }"
    "bindings_of h" "stop_bindings_inv held pins h s0"
  for held pins h and s0 :: "'a kback_scheme"
proof unfold_locales
  fix s :: "'a kback_scheme"
  show "stop_bindings h s =
      do { b \<leftarrow> load_back h s; Some (case bindings b of [] \<Rightarrow> None | bd # _ \<Rightarrow> Some bd) } \<bind>
      (\<lambda>c. case c of None \<Rightarrow> Some s
           | Some bd \<Rightarrow> do {
               s \<leftarrow> modify_back h (\<lambda>b. b\<lparr>bindings := tl (bindings b)\<rparr>) s;
               virtusb_object_put (Some (bind_device bd)) s } \<bind> stop_bindings h)"
    by (cases "load_back h s") (simp_all add: stop_bindings.simps [of h s] split: list.split)
next
  fix ds and s :: "'a kback_scheme"
  assume "stop_bindings_inv held pins h s0 ds s"
  then obtain b where "load_back h s = Some b" by (auto simp: stop_bindings_inv_def)
  then show "do { b \<leftarrow> load_back h s; Some (case bindings b of [] \<Rightarrow> None | bd # _ \<Rightarrow> Some bd) } =
      Some (case bindings_of h s of [] \<Rightarrow> None | bd # _ \<Rightarrow> Some bd)"
    by (simp add: bindings_of_def)
next
  fix ds bd rest and s :: "'a kback_scheme"
  assume inv: "stop_bindings_inv held pins h s0 ds s" and todo: "bindings_of h s = bd # rest"
  from inv obtain b0 b where b: "load_back h s0 = Some b0" "load_back h s = Some b" "pending b = []" "active b = []"
    "stopping b = stopping b0" and wf: "back_wf held pins s" and gb: "gave_back_all h [] (- ESHUTDOWN) s0 s"
    by (auto simp: stop_bindings_inv_def)
  from todo b(2) have bd: "bindings b = bd # rest" by (simp add: bindings_of_def)
  let ?d = "bind_device bd" and ?s1 = "put_back h (b\<lparr>bindings := rest\<rparr>) s"
  let ?held = "held(?d := Suc (held ?d))"
  have "back_wf_upto ((\<lambda>_. {})(h := insert bd {})) ?held pins ?s1"
    using back_wf_remove_binding [OF wf b(2), of bd] by (simp add: bd)
  then have wf1: "back_wf ?held pins ?s1"
    by (rule back_wf_session_over [where h = h and b = "b\<lparr>bindings := rest\<rparr>"]) (simp_all add: b(3,4))
  note put = back_wf_object_put [OF wf1, of ?d]
  have "modify_back h (\<lambda>b. b\<lparr>bindings := tl (bindings b)\<rparr>) s = Some ?s1" using b(2) bd by simp
  moreover have "gave_back_all h [] (- ESHUTDOWN) s0
      (put_result (\<lambda>e. ?held e + (card (sessions e ?s1) + card (users e ?s1))) ?d ?s1)"
    using gb by (simp add: ports_fade_put)
  ultimately show "runs (do {
       s \<leftarrow> modify_back h (\<lambda>b. b\<lparr>bindings := tl (bindings b)\<rparr>) s;
       virtusb_object_put (Some (bind_device bd)) s })
     (\<lambda>s'. stop_bindings_inv held pins h s0 (ds @ [bd]) s' \<and> bindings_of h s' = rest)"
    using put b by (simp add: stop_bindings_inv_def bindings_of_def)
qed

text \<open>
  Stopping a backend gives every request back, pending ones first, and ends every session; from
  then on it refuses requests and registrations.
\<close>

lemma back_wf_stopping:
  assumes "back_wf held pins s" and "load_back h s = Some b"
  shows "back_wf held pins (put_back h (b\<lparr>stopping := v\<rparr>) s)"
proof -
  note ok = back_structD(2) [OF back_wfD(2) [OF assms(1)] assms(2)]
  have keys: "request_keys (b\<lparr>stopping := v\<rparr>) = request_keys b" by (simp add: request_keys_def)
  have "backend_ok {} s (b\<lparr>stopping := v\<rparr>)" using ok by (simp add: backend_ok_def)
  then have "back_struct (\<lambda>_. {}) (put_back h (b\<lparr>stopping := v\<rparr>) s)"
    by (intro back_struct_put_back [OF back_wfD(2) [OF assms(1)] assms(2) refl keys] refl)
  moreover have "sessions d (put_back h (b\<lparr>stopping := v\<rparr>) s) = sessions d s" for d
    using assms(2) by (auto simp: sessions_def)
  ultimately show ?thesis
    using back_wfD(1) [OF assms(1)]
    by (simp add: back_wf_upto_def requests_put_back_same(2) [OF assms(2) keys])
qed

lemma virtusb_backend_stop_ok:
  assumes wf: "back_wf held pins s" and b: "load_back h s = Some b"
  shows "runs (virtusb_backend_stop (Some h) (Some h) s) (\<lambda>s'. back_wf held pins s' \<and>
    load_back h s' = Some \<lparr>bindings = [], pending = [], active = [], stopping = True\<rparr> \<and>
    gave_back_all h (pending b @ active b) (- ESHUTDOWN) (wake_up_interruptible_all h s) s')"
proof -
  let ?b1 = "b\<lparr>stopping := True\<rparr>"
  let ?s1 = "wake_up_interruptible_all h (put_back h ?b1 s)"
  have "back_wf held pins ?s1" using back_wf_stopping [OF wf b] by simp
  then have "stop_requests_inv (\<lambda>_. {}) held pins h ?s1 [] ?s1" by (auto simp: stop_requests_inv_def)
  from stop_requests_loop.drained [OF this] obtain s2 where
    s2: "stop_requests h ?s1 = Some s2" "requests_of h s2 = []"
      "stop_requests_inv (\<lambda>_. {}) held pins h ?s1 (pending b @ active b) s2"
    by (auto simp: runs_iff requests_of_def)
  then obtain b2 where b2: "load_back h s2 = Some b2" "bindings b2 = bindings b" "stopping b2"
    and wf2: "back_wf held pins s2" and gb2: "gave_back_all h (pending b @ active b) (- ESHUTDOWN) ?s1 s2"
    by (auto simp: stop_requests_inv_def)
  then have "stop_bindings_inv held pins h s2 [] s2"
    using s2(2) by (auto simp: stop_bindings_inv_def requests_of_def)
  from stop_bindings_loop.drained [OF this] obtain s3 ds where
    s3: "stop_bindings h s2 = Some s3" "bindings_of h s3 = []" "stop_bindings_inv held pins h s2 ds s3"
    by (auto simp: runs_iff)
  then obtain b3 where b3: "load_back h s3 = Some b3" "pending b3 = []" "active b3 = []" "stopping b3" "bindings b3 = []"
    and wf3: "back_wf held pins s3" and gb3: "gave_back_all h [] (- ESHUTDOWN) s2 s3"
    using b2 by (auto simp: stop_bindings_inv_def bindings_of_def)
  have "virtusb_backend_stop (Some h) (Some h) s = Some s3"
    using b s2(1) s3(1) by (simp add: virtusb_backend_stop_def Let_def)
  moreover have "gave_back_all h (pending b @ active b) (- ESHUTDOWN) (wake_up_interruptible_all h s) s3"
    using gb2 gb3 ports_fade_trans [of s s2 s3] by (simp add: gave_back_all_def)
  ultimately show ?thesis using wf3 b3 by simp
qed

end
