(* ===== verification/Virtusb_Backend_Spec.thy ===== *)
theory Virtusb_Backend_Spec
  imports Virtusb_Backend_Loops
begin

text \<open>
  What each operation of the data plane promises: a session is opened for one owner and one
  device, a request joins the queue of its device, a fetch hands out the oldest one, a rollback
  puts it back in front, a completion delivers bytes and status exactly once.
\<close>

section \<open>Opening a session\<close>

lemma find_owner_None: "virtusb_backend_find_owner_locked b f = None \<longleftrightarrow> f \<notin> bind_owner ` set (bindings b)"
  unfolding virtusb_backend_find_owner_locked_def find_None_iff by blast

lemma find_device_None: "virtusb_backend_find_device_locked b d = None \<longleftrightarrow> d \<notin> bind_device ` set (bindings b)"
  unfolding virtusb_backend_find_device_locked_def find_None_iff by blast

lemma back_wf_add_binding:
  assumes wf: "back_wf (held(d := Suc (held d))) pins s" and b: "load_back h s = Some b"
    and fresh: "virtusb_backend_find_owner_locked b f = None" "virtusb_backend_find_device_locked b d = None"
  shows "back_wf held pins (put_back h (b\<lparr>bindings := bindings b @ [\<lparr>bind_device = d, bind_owner = f\<rparr>]\<rparr>) s)"
proof -
  let ?b = "b\<lparr>bindings := bindings b @ [\<lparr>bind_device = d, bind_owner = f\<rparr>]\<rparr>"
  let ?s' = "put_back h ?b s"
  note struct = back_wfD(2) [OF wf]
  have new: "f \<notin> bind_owner ` set (bindings b)" "d \<notin> bind_device ` set (bindings b)"
    using fresh by (simp_all only: find_owner_None find_device_None not_False_eq_True)
  have keys: "request_keys ?b = request_keys b" by (simp add: request_keys_def)
  have "backend_ok {} s ?b"
    using back_structD(2) [OF struct b] new unfolding backend_ok_def by auto
  then have "back_struct (\<lambda>_. {}) ?s'"
    by (intro back_struct_put_back [OF struct b refl keys] refl)
  moreover have "sessions e ?s' = (if e = d then insert h (sessions e s) else sessions e s)" for e
    using b by (auto simp: sessions_put_back sessions_def)
  moreover have "h \<notin> sessions d s" using b new(2) by (auto simp: sessions_def)
  ultimately have "(\<lambda>e. held e + card (sessions e ?s')) = (\<lambda>e. (held(d := Suc (held d))) e + card (sessions e s))"
    using finite_sessions [OF struct] by (intro ext) auto
  with \<open>back_struct _ ?s'\<close> show ?thesis
    using back_wfD(1) [OF wf] by (simp add: back_wf_upto_def requests_put_back_same(2) [OF b keys])
qed

lemma object_get_put:
  assumes wf: "dev_wf held s" and ob: "load_obj d s = Some ob"
  shows "virtusb_object_put (Some d) (put_obj d (ob\<lparr>obj_refcount := obj_refcount ob + 1\<rparr>) s) = Some s"
proof -
  from obj_wfD(1) [OF dev_wfD(2) [OF wf] ob] have "0 < obj_refcount ob" unfolding obj_ok_def by blast
  then show ?thesis using ob by (simp add: virtusb_object_put_def put_obj_same)
qed

lemma virtusb_backend_register_ok:
  assumes wf: "back_wf held pins s" and b: "load_back h s = Some b" and ob: "load_obj d s = Some ob"
  shows "runs (virtusb_backend_register mem (Some h) (Some f) (Some d) s) (\<lambda>(ret, s'). back_wf held pins s' \<and>
    (if \<not> mem then ret = - ENOMEM \<and> s' = s
     else if stopping b then ret = - ESHUTDOWN \<and> s' = s
     else if f \<in> bind_owner ` set (bindings b) \<or> d \<in> bind_device ` set (bindings b) then ret = - EBUSY \<and> s' = s
     else ret = 0 \<and> wakeups s' = h # wakeups s \<and>
          (\<forall>g. load_back g s' = (if g = h
             then Some (b\<lparr>bindings := bindings b @ [\<lparr>bind_device = d, bind_owner = f\<rparr>]\<rparr>) else load_back g s)) \<and>
          (\<forall>t. load_trans t s' = load_trans t s) \<and> (\<forall>u. load_urb u s' = load_urb u s) \<and>
          (\<forall>e. e \<noteq> d \<longrightarrow> load_obj e s' = load_obj e s) \<and> registry s' = registry s \<and>
          load_obj d s' = Some (ob\<lparr>obj_refcount := obj_refcount ob + 1\<rparr>) \<and>
          (\<forall>g. load_hub g s' = load_hub g s) \<and> (\<forall>a. load_port a s' = load_port a s) \<and> kback.more s' = kback.more s))"
proof -
  let ?s1 = "put_obj d (ob\<lparr>obj_refcount := obj_refcount ob + 1\<rparr>) s"
  note get = back_wf_object_get [OF wf ob]
  have b1: "load_back h ?s1 = Some b" using b by simp
  note put = object_get_put [OF back_wf_dev [OF wf] ob]
  consider "\<not> mem \<or> stopping b \<or> f \<in> bind_owner ` set (bindings b) \<or> d \<in> bind_device ` set (bindings b)"
    | (new) "mem" "\<not> stopping b" "f \<notin> bind_owner ` set (bindings b)" "d \<notin> bind_device ` set (bindings b)" by blast
  then show ?thesis
  proof cases
    case new
    with back_wf_add_binding [OF get(2) b1] find_owner_None [of b f] find_device_None [of b d] get(1) b1 show ?thesis
      by (simp add: virtusb_backend_register_def)
  next
    case 1
    then show ?thesis
      using get(1) b1 put wf find_owner_None [of b f] find_device_None [of b d] by (auto simp: virtusb_backend_register_def)
  qed
qed

section \<open>Submitting\<close>

lemma back_wf_add_request:
  assumes wf: "back_wf held (pins(req_transfer r := Suc (pins (req_transfer r)))) s" and b: "load_back h s = Some b"
    and new: "req_owner r = None" "request_ok s (req_urb r) (req_transfer r)" "req_transfer r \<notin> queued s"
      "\<And>g t. (g, req_urb r, t) \<notin> requests s"
    and dev: "\<exists>bd \<in> set (bindings b). bind_device bd = device_of s r"
  shows "back_wf held pins
           (put_back h (b\<lparr>pending := pending b @ [r]\<rparr>) (s\<lparr>linked := (linked s)(req_urb r := True)\<rparr>))"
proof -
  let ?t = "req_transfer r"
  let ?s1 = "s\<lparr>linked := (linked s)(req_urb r := True)\<rparr>"
  let ?s' = "put_back h (b\<lparr>pending := pending b @ [r]\<rparr>) ?s1"
  have "(g, u, ?t) \<notin> requests s" for g u using new(3) by (auto simp: queued_def)
  then have struct: "back_struct (\<lambda>_. {}) ?s'"
    using back_struct_add_request [OF back_wfD(2) [OF wf] b new(1,2) _ new(4) dev] by blast
  have "requests ?s1 = requests s" by (rule requests_cong) simp
  moreover have "request_keys (b\<lparr>pending := pending b @ [r]\<rparr>) = insert (req_urb r, ?t) (request_keys b)"
    by (auto simp: request_keys_def)
  ultimately have "requests ?s' = insert (h, req_urb r, ?t) (requests s)"
    by (auto simp: requests_put_back requests_at [OF b] split: if_splits)
  then have "queued ?s' = insert ?t (queued s)" by (auto simp: queued_def)
  then have "(\<lambda>t. pins t + (if t \<in> queued ?s' then 1 else 0)) =
      (\<lambda>t. (pins(?t := Suc (pins ?t))) t + (if t \<in> queued s then 1 else 0))"
    using new(3) by auto
  moreover have "sessions d ?s' = sessions d s" for d
    using b by (auto simp: sessions_def)
  ultimately show ?thesis
    using back_wfD(1) [OF wf] struct by (simp add: back_wf_upto_def)
qed

lemma queued_transfer_state:
  assumes "back_wf_upto E held pins s" and "t \<in> queued s" and "load_trans t s = Some tr"
  shows "t_state tr = VIRTUSB_TRANSFER_STATE_QUEUED"
  using assms back_structD(3) [OF back_wfD(2) [OF assms(1)]] by (fastforce simp: queued_def request_ok_def)

lemma virtusb_transfer_put_kept:
  "load_trans t s = Some tr \<Longrightarrow> 1 < t_refcount tr \<Longrightarrow>
     virtusb_transfer_put (Some t) s = Some (put_trans t (tr\<lparr>t_refcount := t_refcount tr - 1\<rparr>) s)"
  by (simp add: virtusb_transfer_put_def)

definition submit_error :: "virtusb_backend \<Rightarrow> int \<Rightarrow> nat \<Rightarrow> int" where
  "submit_error b link_ret d =
     (if stopping b then - ESHUTDOWN
      else if d \<notin> bind_device ` set (bindings b) then - ENODEV
      else link_ret)"

definition submitted :: "nat \<Rightarrow> nat \<Rightarrow> nat \<Rightarrow> 'a kback_scheme \<Rightarrow> 'a kback_scheme" where
  "submitted h u t s =
     (let b = the (load_back h s); tr = the (load_trans t s);
          s = put_trans t (tr\<lparr>t_refcount := t_refcount tr + 1, t_state := VIRTUSB_TRANSFER_STATE_QUEUED\<rparr>) s
      in wake_up_interruptible_all h
           (put_back h (b\<lparr>pending := pending b @ [\<lparr>req_urb = u, req_transfer = t, req_owner = None\<rparr>]\<rparr>)
              (s\<lparr>linked := (linked s)(u := True)\<rparr>)))"

lemma virtusb_backend_submit_cases:
  assumes wf: "back_wf held pins s" and b: "load_back h s = Some b" and tr: "load_trans t s = Some tr"
    and link: "link_ret \<le> 0"
  shows "virtusb_backend_submit mem link_ret (Some h) (Some h) (Some u) (Some t) s =
    (if t_requested_length tr > VIRTUSB_TRANSFER_DATA_MAX then Some (- EMSGSIZE, s)
     else if \<not> mem then Some (- ENOMEM, s)
     else if t_state tr \<noteq> VIRTUSB_TRANSFER_STATE_NEW then Some (- EINVAL, s)
     else if submit_error b link_ret (t_device tr) < 0
     then Some (submit_error b link_ret (t_device tr),
            put_trans t (tr\<lparr>t_actual_length := 0, t_status := submit_error b link_ret (t_device tr),
                            t_state := VIRTUSB_TRANSFER_STATE_CANCELLED\<rparr>) s)
     else Some (0, submitted h u t s))"
proof (cases "\<not> t_requested_length tr > VIRTUSB_TRANSFER_DATA_MAX \<and> mem")
  case True
  let ?tr1 = "tr\<lparr>t_refcount := t_refcount tr + 1\<rparr>"
  let ?s1 = "put_trans t ?tr1 s"
  have ref: "0 < t_refcount tr" using trans_wfD(3,4) [OF back_wfD(1) [OF wf] tr] by simp
  have get: "virtusb_transfer_get (Some t) s = Some ?s1" using tr by (simp add: virtusb_transfer_get_def)
  have "load_trans t ?s1 = Some ?tr1" by simp
  note mark = virtusb_transfer_mark_queued_ok [OF this]
  show ?thesis
  proof (cases "t_state tr = VIRTUSB_TRANSFER_STATE_NEW")
    case False
    have put: "virtusb_transfer_put (Some t) ?s1 = Some s"
      using ref by (simp add: virtusb_transfer_put_kept put_trans_same [OF tr])
    show ?thesis
      using True tr False get mark put
      by (simp add: virtusb_backend_submit_def virtusb_backend_release_request_def Let_def)
  next
    case new: True
    let ?tr2 = "tr\<lparr>t_refcount := t_refcount tr + 1, t_state := VIRTUSB_TRANSFER_STATE_QUEUED\<rparr>"
    let ?s2 = "put_trans t ?tr2 s"
    have mark2: "virtusb_transfer_mark_queued (Some t) ?s1 = Some (0, ?s2)" using new mark by simp
    have "load_trans t ?s2 = Some ?tr2" "transfer_active ?tr2" by (simp_all add: transfer_active_def)
    note cancel = virtusb_transfer_cancel_ok [OF this(1)] this(2)
    let ?e = "submit_error b link_ret (t_device tr)"
    let ?tr3 = "\<lambda>e. ?tr2\<lparr>t_actual_length := 0, t_status := e, t_state := VIRTUSB_TRANSFER_STATE_CANCELLED\<rparr>"
    have put: "virtusb_transfer_put (Some t) (put_trans t (?tr3 e) s) = Some (put_trans t
        (tr\<lparr>t_actual_length := 0, t_status := e, t_state := VIRTUSB_TRANSFER_STATE_CANCELLED\<rparr>) s)" for e
      using ref by (subst virtusb_transfer_put_kept [of t _ "?tr3 e"]) simp_all
    have "runs (virtusb_backend_submit mem link_ret (Some h) (Some h) (Some u) (Some t) s) (\<lambda>r. r =
       (if ?e < 0 then (?e, put_trans t (tr\<lparr>t_actual_length := 0, t_status := ?e,
                            t_state := VIRTUSB_TRANSFER_STATE_CANCELLED\<rparr>) s)
        else (0, submitted h u t s)))"
      using True tr get mark2 b cancel put link
      by (auto simp: virtusb_backend_submit_def virtusb_backend_release_request_def Let_def submit_error_def
          find_device_None usb_hcd_link_urb_to_ep_def submitted_def)
    with True new show ?thesis by (auto simp: runs_iff)
  qed
qed (use tr in \<open>auto simp: virtusb_backend_submit_def\<close>)

lemma new_not_queued:
  assumes "back_wf_upto E held pins s" and "load_trans t s = Some tr" and "t_state tr \<noteq> VIRTUSB_TRANSFER_STATE_QUEUED"
  shows "t \<notin> queued s"
  using queued_transfer_state [OF assms(1) _ assms(2)] assms(3) by blast

lemma back_wf_step:
  assumes wf: "back_wf_upto E held pins s" and tr: "load_trans t s = Some tr" and q: "t \<notin> queued s"
    and step: "transfer_step tr tr'"
  shows "back_wf_upto E held pins (put_trans t tr' s)"
  using trans_wfD(3-5) [OF back_wfD(1) [OF wf] tr] transfer_step_frame [OF step] transfer_step_ok [OF step] q
  by (intro back_wf_put_trans [OF wf tr]) auto

lemma back_wf_submitted:
  assumes wf: "back_wf held pins s" and b: "load_back h s = Some b" and tr: "load_trans t s = Some tr"
    and new: "t_state tr = VIRTUSB_TRANSFER_STATE_NEW" "t_requested_length tr \<le> VIRTUSB_TRANSFER_DATA_MAX"
      "t_device tr \<in> bind_device ` set (bindings b)"
    and urb: "load_urb u s = Some urb" "urb_room urb tr" "\<And>g t. (g, u, t) \<notin> requests s"
  shows "back_wf held pins (submitted h u t s)"
proof -
  let ?r = "\<lparr>req_urb = u, req_transfer = t, req_owner = None\<rparr>"
  let ?tr = "tr\<lparr>t_refcount := t_refcount tr + 1, t_state := VIRTUSB_TRANSFER_STATE_QUEUED\<rparr>"
  let ?s1 = "put_trans t ?tr s" and ?pins = "pins(t := Suc (pins t))"
  have q: "t \<notin> queued s" using new(1) by (intro new_not_queued [OF wf tr]) simp
  have "transfer_ok ?tr"
    using new(1) trans_wfD(5) [OF back_wfD(1) [OF wf] tr]
    by (intro transfer_step_ok [OF transfer_step.queue [of "tr\<lparr>t_refcount := t_refcount tr + 1\<rparr>"]]) simp_all
  then have wf1: "back_wf held ?pins ?s1"
    using trans_wfD(3) [OF back_wfD(1) [OF wf] tr] q by (intro back_wf_put_trans [OF wf tr]) auto
  have b1: "load_back h ?s1 = Some b" using b by simp
  have ok: "request_ok ?s1 u t" using new(2) urb(1,2) by (simp add: request_ok_def urb_room_def)
  have dev: "\<exists>bd \<in> set (bindings b). bind_device bd = device_of ?s1 ?r"
    using new(3) by (auto simp: device_of_def)
  have wf': "back_wf held (pins(req_transfer ?r := Suc (pins (req_transfer ?r)))) ?s1" using wf1 by simp
  have "back_wf held pins (put_back h (b\<lparr>pending := pending b @ [?r]\<rparr>) (?s1\<lparr>linked := (linked ?s1)(req_urb ?r := True)\<rparr>))"
    by (rule back_wf_add_request [OF wf' b1 _ _ _ _ dev]) (use ok q urb(3) in simp_all)
  with b tr show ?thesis by (simp add: submitted_def Let_def)
qed

section \<open>The queue of a device\<close>

text \<open>The requests waiting for a device, oldest first.\<close>

definition device_queue :: "'a kback_scheme \<Rightarrow> virtusb_backend \<Rightarrow> nat \<Rightarrow> virtusb_hcd_request list" where
  "device_queue s b d = filter (\<lambda>r. device_of s r = d) (pending b)"

lemma find_pending_ok:
  assumes wf: "back_wf_upto E held pins s" and b: "load_back h s = Some b"
  shows "virtusb_backend_find_pending_device_locked b d s =
      Some (case device_queue s b d of [] \<Rightarrow> None | r # _ \<Rightarrow> Some r)"
proof -
  have "do { tr \<leftarrow> load_trans (req_transfer r) s; Some (t_device tr = d) } = Some (device_of s r = d)"
    if r: "r \<in> set (pending b)" for r
  proof -
    from r have "r \<in> set (pending b) \<union> set (active b)" by simp
    with wf b obtain tr where "load_trans (req_transfer r) s = Some tr" by (rule request_alloc)
    then show ?thesis by (simp add: device_of_def)
  qed
  then have "virtusb_backend_find_pending_device_locked b d s = Some (find (\<lambda>r. device_of s r = d) (pending b))"
    unfolding virtusb_backend_find_pending_device_locked_def by (rule list_first_ok)
  then show ?thesis by (simp add: find_filter device_queue_def)
qed

lemma find_id_ok:
  assumes wf: "back_wf_upto E held pins s" and b: "load_back h s = Some b"
  shows "virtusb_backend_find_id_locked b f i s =
      Some (find (\<lambda>r. req_owner r = Some f \<and> t_id (the (load_trans (req_transfer r) s)) = i) (active b))"
proof -
  have "(if req_owner r = Some f then do { tr \<leftarrow> load_trans (req_transfer r) s; Some (t_id tr = i) } else Some False) =
      Some (req_owner r = Some f \<and> t_id (the (load_trans (req_transfer r) s)) = i)"
    if r: "r \<in> set (active b)" for r
  proof -
    from r have "r \<in> set (pending b) \<union> set (active b)" by simp
    with wf b obtain tr where "load_trans (req_transfer r) s = Some tr" by (rule request_alloc)
    then show ?thesis by simp
  qed
  then show ?thesis unfolding virtusb_backend_find_id_locked_def by (rule list_first_ok)
qed

text \<open>Moving a request between the lists changes nothing but the lists.\<close>

lemma back_wf_relist:
  assumes wf: "back_wf_upto E held pins s" and b: "load_back h s = Some b"
    and keys: "request_keys b' = request_keys b" and bind: "bindings b' = bindings b"
    and ok: "backend_ok (E h) s b'"
  shows "back_wf_upto E held pins (put_back h b' s)"
proof -
  have "back_struct E (put_back h b' s)"
    by (rule back_struct_put_back [OF back_wfD(2) [OF wf] b refl keys ok refl])
  moreover have "sessions d (put_back h b' s) = sessions d s" for d
    using b bind by (auto simp: sessions_def)
  ultimately show ?thesis
    using back_wfD(1) [OF wf] by (simp add: back_wf_upto_def requests_put_back_same(2) [OF b keys])
qed

section \<open>Fetching\<close>

definition moved :: "nat \<Rightarrow> virtusb_hcd_request \<Rightarrow> virtusb_backend \<Rightarrow> virtusb_backend" where
  "moved f r b = b\<lparr>pending := remove1 r (pending b), active := active b @ [r\<lparr>req_owner := Some f\<rparr>]\<rparr>"

lemma distinct_map_remove1:
  "distinct (map g xs) \<Longrightarrow> distinct (map g (remove1 x xs))"
  "distinct (map g xs) \<Longrightarrow> x \<in> set xs \<Longrightarrow> g x \<notin> g ` set (remove1 x xs)"
proof -
  assume d: "distinct (map g xs)"
  then have dist: "distinct xs" and inj: "inj_on g (set xs)" unfolding distinct_map by blast+
  show "distinct (map g (remove1 x xs))"
    using inj distinct_remove1 [OF dist] unfolding distinct_map set_remove1_eq [OF dist] by (blast intro: inj_on_subset)
  show "g x \<notin> g ` set (remove1 x xs)" if "x \<in> set xs"
    using inj that unfolding set_remove1_eq [OF dist] by (blast dest: inj_onD)
qed

lemma backend_ok_lists:
  assumes "backend_ok E s b"
  shows "distinct (map req_transfer (pending b))" and "distinct (map req_transfer (active b))"
    and "req_transfer ` set (pending b) \<inter> req_transfer ` set (active b) = {}"
  using assms by (auto simp: backend_ok_def)

lemma back_wf_moved:
  assumes wf: "back_wf_upto E held pins s" and b: "load_back h s = Some b" and r: "r \<in> set (pending b)"
    and bd: "bd \<in> set (bindings b)" "bind_device bd = device_of s r" "bind_owner bd = f"
  shows "back_wf_upto E held pins (put_back h (moved f r b) s)"
proof (rule back_wf_relist [OF wf b])
  note ok = back_structD(2) [OF back_wfD(2) [OF wf] b]
  note lists = backend_ok_lists [OF ok]
  let ?r = "r\<lparr>req_owner := Some f\<rparr>"
  have "distinct (pending b)" using lists(1) by (simp add: distinct_map)
  then have set: "set (remove1 r (pending b)) = set (pending b) - {r}" by simp
  show "request_keys (moved f r b) = request_keys b"
    using r by (force simp: request_keys_def moved_def set)
  show "bindings (moved f r b) = bindings b" by (simp add: moved_def)
  have "distinct (map req_transfer (remove1 r (pending b) @ active b @ [?r]))"
    using distinct_map_remove1 [OF lists(1), of r] lists(2,3) r notin_set_remove1
    by (fastforce simp: set)
  moreover have "device_of s ?r = device_of s r" by (simp add: device_of_def)
  ultimately show "backend_ok (E h) s (moved f r b)"
    using ok bd unfolding backend_ok_def moved_def by (auto simp: set)
qed

lemma fetch_request_ok:
  assumes wf: "back_wf_upto E held pins s" and b: "load_back h s = Some b"
  shows "fetch_request h f nonblock waits s =
    (case virtusb_backend_find_owner_locked b f of
       None \<Rightarrow> Some (Some (Inl (- ENODEV)), s)
     | Some bd \<Rightarrow>
         (case device_queue s b (bind_device bd) of
            r # _ \<Rightarrow> do {
              s \<leftarrow> virtusb_transfer_get (Some (req_transfer r)) (put_back h (moved f r b) s);
              Some (Some (Inr (req_transfer r)), s) }
          | [] \<Rightarrow>
              if stopping b then Some (Some (Inl (- ESHUTDOWN)), s)
              else if nonblock then Some (Some (Inl (- EAGAIN)), s)
              else (case waits of
                      [] \<Rightarrow> Some (None, s)
                    | (ret, others) # waits \<Rightarrow>
                        if ret < 0 then Some (Some (Inl ret), others s)
                        else fetch_request h f nonblock waits (others s))))"
  by (subst fetch_request.simps) (simp add: b find_pending_ok [OF wf b] moved_def split: option.split list.split)

text \<open>The message a backend receives for a transfer.\<close>

definition fetch_of :: "virtusb_transfer \<Rightarrow> virtusb_object \<Rightarrow> virtusb_transfer_fetch" where
  "fetch_of tr ob =
     \<lparr>tf_transfer_id = t_id tr, tf_object_id = obj_id ob, tf_type = transfer_type_code (t_type tr),
      tf_direction = transfer_direction_code (t_direction tr), tf_endpoint = ucast (t_endpoint tr),
      tf_has_setup = (if t_has_setup tr then 1 else 0), tf_requested_length = ucast (t_requested_length tr),
      tf_data_length = (if t_direction tr = VIRTUSB_TRANSFER_DIRECTION_OUT then ucast (t_requested_length tr) else 0),
      tf_setup = (if t_has_setup tr then t_setup tr else replicate 8 0),
      tf_data = (if t_direction tr = VIRTUSB_TRANSFER_DIRECTION_OUT
                 then (case t_buffer tr of None \<Rightarrow> [] | Some buf \<Rightarrow> buf) @
                      replicate (VIRTUSB_TRANSFER_DATA_MAX - unat (t_requested_length tr)) 0
                 else replicate VIRTUSB_TRANSFER_DATA_MAX 0)\<rparr>"

lemma virtusb_backend_fetch_ok:
  assumes wf: "back_wf held pins s" and b: "load_back h s = Some b"
    and bd: "virtusb_backend_find_owner_locked b f = Some bd"
    and q: "device_queue s b (bind_device bd) = r # rs"
    and tr: "load_trans (req_transfer r) s = Some tr" and ob: "load_obj (bind_device bd) s = Some ob"
  shows "virtusb_backend_fetch (Some h) (Some f) (Some f0) nonblock waits s =
           Some (Some (0, Some (fetch_of tr ob)), put_back h (moved f r b) s)"
    and "back_wf held pins (put_back h (moved f r b) s)"
proof -
  note ok = back_structD(2) [OF back_wfD(2) [OF wf] b]
  have "r \<in> set (device_queue s b (bind_device bd))" by (simp add: q)
  then have r: "r \<in> set (pending b)" and dev: "device_of s r = bind_device bd" by (simp_all add: device_queue_def)
  note bd' = find_owner_ok [OF ok bd]
  show "back_wf held pins (put_back h (moved f r b) s)"
    by (rule back_wf_moved [OF wf b r bd'(1) _ bd'(2)]) (simp add: dev)
  let ?s1 = "put_back h (moved f r b) s" and ?t = "req_transfer r"
  let ?tr = "tr\<lparr>t_refcount := t_refcount tr + 1\<rparr>"
  let ?s2 = "put_trans ?t ?tr ?s1"
  have ref: "0 < t_refcount tr" using trans_wfD(3,4) [OF back_wfD(1) [OF wf] tr] by simp
  have tr1: "load_trans ?t ?s1 = Some tr" using tr by simp
  have "fetch_request h f nonblock waits s = Some (Some (Inr ?t), ?s2)"
    using tr by (simp add: fetch_request_ok [OF wf b] bd q virtusb_transfer_get_def)
  moreover have put: "virtusb_transfer_put (Some ?t) ?s2 = Some ?s1"
    using ref put_trans_same [OF tr1] by (subst virtusb_transfer_put_kept [of _ _ ?tr]) simp_all
  moreover have "transfer_ok tr" by (rule trans_wfD(5) [OF back_wfD(1) [OF wf] tr])
  moreover have "unat (t_requested_length tr) \<le> VIRTUSB_TRANSFER_DATA_MAX"
  proof -
    from r have "r \<in> set (pending b) \<union> set (active b)" by simp
    with wf b obtain tr' where "load_trans ?t s = Some tr'" "t_requested_length tr' \<le> VIRTUSB_TRANSFER_DATA_MAX"
      by (rule request_alloc)
    with tr show ?thesis by (simp add: word_le_nat_alt)
  qed
  moreover have "load_obj (t_device tr) s = Some ob" using dev tr ob by (simp add: device_of_def)
  ultimately show "virtusb_backend_fetch (Some h) (Some f) (Some f0) nonblock waits s =
      Some (Some (0, Some (fetch_of tr ob)), ?s1)"
    by (cases "t_buffer tr"; cases "t_has_setup tr"; cases "t_direction tr")
       (simp_all add: virtusb_backend_fetch_def zero_fetch_def fetch_of_def transfer_ok_def Let_def word_gt_0)
qed

section \<open>Putting a fetched request back\<close>

definition rolled :: "virtusb_hcd_request \<Rightarrow> virtusb_backend \<Rightarrow> virtusb_backend" where
  "rolled r b = b\<lparr>pending := r\<lparr>req_owner := None\<rparr> # pending b, active := remove1 r (active b)\<rparr>"

lemma back_wf_rolled:
  assumes wf: "back_wf_upto E held pins s" and b: "load_back h s = Some b" and r: "r \<in> set (active b)"
  shows "back_wf_upto E held pins (put_back h (rolled r b) s)"
proof (rule back_wf_relist [OF wf b])
  note ok = back_structD(2) [OF back_wfD(2) [OF wf] b]
  note lists = backend_ok_lists [OF ok]
  let ?r = "r\<lparr>req_owner := None\<rparr>"
  have "distinct (active b)" using lists(2) by (simp add: distinct_map)
  then have set: "set (remove1 r (active b)) = set (active b) - {r}" by simp
  show "request_keys (rolled r b) = request_keys b"
    using r by (force simp: request_keys_def rolled_def set)
  show "bindings (rolled r b) = bindings b" by (simp add: rolled_def)
  have "distinct (map req_transfer ((?r # pending b) @ remove1 r (active b)))"
    using distinct_map_remove1 [OF lists(2), of r] lists(1,3) r by (fastforce simp: set)
  moreover have "device_of s ?r = device_of s r" by (simp add: device_of_def)
  ultimately show "backend_ok (E h) s (rolled r b)"
    using ok r unfolding backend_ok_def rolled_def by (auto simp: set)
qed

definition fetched_as :: "nat \<Rightarrow> u64 \<Rightarrow> 'a kback_scheme \<Rightarrow> virtusb_backend \<Rightarrow> virtusb_hcd_request option" where
  "fetched_as f i s b = find (\<lambda>r. req_owner r = Some f \<and> t_id (the (load_trans (req_transfer r) s)) = i) (active b)"

lemma fetched_asD:
  assumes "fetched_as f i s b = Some r"
  shows "r \<in> set (active b)" and "req_owner r = Some f" and "t_id (the (load_trans (req_transfer r) s)) = i"
  using find_SomeD [OF assms [unfolded fetched_as_def]] by blast+

lemma virtusb_backend_fetch_rollback_ok:
  assumes wf: "back_wf held pins s" and b: "load_back h s = Some b"
  shows "virtusb_backend_fetch_rollback (Some h) (Some f) i s =
      (if i = 0 then Some (- EINVAL, s)
       else case fetched_as f i s b of
              None \<Rightarrow> Some (- ENOENT, s)
            | Some r \<Rightarrow> Some (0, wake_up_interruptible_all h (put_back h (rolled r b) s)))"
    and "fetched_as f i s b = Some r \<Longrightarrow> back_wf held pins (wake_up_interruptible_all h (put_back h (rolled r b) s))"
proof -
  show "virtusb_backend_fetch_rollback (Some h) (Some f) i s =
      (if i = 0 then Some (- EINVAL, s)
       else case fetched_as f i s b of
              None \<Rightarrow> Some (- ENOENT, s)
            | Some r \<Rightarrow> Some (0, wake_up_interruptible_all h (put_back h (rolled r b) s)))"
    by (simp add: virtusb_backend_fetch_rollback_def b find_id_ok [OF wf b] fetched_as_def rolled_def split: option.split)
  assume "fetched_as f i s b = Some r"
  from back_wf_rolled [OF wf b fetched_asD(1) [OF this]]
  show "back_wf held pins (wake_up_interruptible_all h (put_back h (rolled r b) s))" by simp
qed

section \<open>Completing\<close>

text \<open>What the URB holds when it is given back: the bytes and the length the backend reports.\<close>

definition completed_urb :: "urb \<Rightarrow> virtusb_transfer \<Rightarrow> virtusb_transfer_complete_request \<Rightarrow> urb" where
  "completed_urb urb tr c =
     (let n = unat (tc_actual_length c);
          urb = (if t_direction tr = VIRTUSB_TRANSFER_DIRECTION_IN \<and> n > 0
                 then urb\<lparr>urb_transfer_buffer :=
                        map_option (\<lambda>buf. take n (tc_data c) @ drop n buf) (urb_transfer_buffer urb)\<rparr>
                 else urb)
      in urb\<lparr>urb_actual_length := tc_actual_length c\<rparr>)"

lemma put_urb_same: "load_urb u s = Some urb \<Longrightarrow> put_urb u urb s = s"
  by (simp add: put_urb_def load_urb_def fun_upd_idem)

lemma put_urb_put_urb [simp]: "put_urb u b (put_urb u a s) = put_urb u b s"
  by (simp add: put_urb_def)

lemma ucast_len: "unat (ucast (n :: u32) :: u64) = unat n" "(ucast (ucast n :: u64) :: u32) = n"
    "(ucast n :: u64) > 0 \<longleftrightarrow> unat n > 0"
proof -
  have "unat n < 2 ^ 32" using unsigned_less [of n] by simp
  then show 1: "unat (ucast n :: u64) = unat n"
    by (simp add: unsigned_ucast_eq unsigned_take_bit_eq take_bit_nat_eq_self)
  show "(ucast n :: u64) > 0 \<longleftrightarrow> unat n > 0" by (simp add: word_less_nat_alt 1)
  have "unat (ucast (ucast n :: u64) :: u32) = unat n"
    using \<open>unat n < 2 ^ 32\<close> by (simp add: unsigned_ucast_eq unsigned_take_bit_eq take_bit_nat_eq_self 1)
  then show "(ucast (ucast n :: u64) :: u32) = n" by (simp add: word_unat_eq_iff)
qed

text \<open>The bytes of an IN transfer on their way from the message to the URB.\<close>

definition deliver :: "nat \<Rightarrow> nat \<Rightarrow> virtusb_transfer \<Rightarrow> virtusb_transfer_complete_request \<Rightarrow> 'a kback_scheme \<Rightarrow> 'a kback_scheme option" where
  "deliver t u tr c s =
     (if t_direction tr = VIRTUSB_TRANSFER_DIRECTION_IN \<and> (ucast (tc_actual_length c) :: u64) > 0 then do {
        buffer \<leftarrow> t_buffer tr;
        buffer \<leftarrow> memcpy buffer (tc_data c) (unat (ucast (tc_actual_length c) :: u64));
        s \<leftarrow> modify_trans t (\<lambda>tr. tr\<lparr>t_buffer := Some buffer\<rparr>) s;
        urb \<leftarrow> load_urb u s;
        urb_buffer \<leftarrow> urb_transfer_buffer urb;
        urb_buffer \<leftarrow> memcpy urb_buffer buffer (unat (ucast (tc_actual_length c) :: u64));
        modify_urb u (\<lambda>urb. urb\<lparr>urb_transfer_buffer := Some urb_buffer\<rparr>) s
      }
      else Some s)"

lemma deliver_ok:
  assumes tr: "load_trans t s = Some tr" and urb: "load_urb u s = Some urb" and ok: "transfer_ok tr"
    and n: "unat (tc_actual_length c) \<le> unat (t_requested_length tr)" and data: "unat (tc_actual_length c) \<le> length (tc_data c)"
    and room: "urb_room urb tr"
  obtains tr1 urb1 where "deliver t u tr c s = Some (put_urb u urb1 (put_trans t tr1 s))" and "transfer_ok tr1"
    and "t_device tr1 = t_device tr" "t_refcount tr1 = t_refcount tr" "t_state tr1 = t_state tr"
      "t_requested_length tr1 = t_requested_length tr"
    and "urb1\<lparr>urb_actual_length := tc_actual_length c\<rparr> = completed_urb urb tr c"
proof (cases "t_direction tr = VIRTUSB_TRANSFER_DIRECTION_IN \<and> unat (tc_actual_length c) > 0")
  case False
  show thesis
  proof (rule that [of urb tr])
    show "deliver t u tr c s = Some (put_urb u urb (put_trans t tr s))"
      using False tr urb by (auto simp: deliver_def ucast_len put_trans_same put_urb_same)
    show "urb\<lparr>urb_actual_length := tc_actual_length c\<rparr> = completed_urb urb tr c"
      using False by (auto simp: completed_urb_def Let_def)
  qed (use ok in simp_all)
next
  case True
  let ?n = "unat (tc_actual_length c)"
  from True n have req: "t_requested_length tr \<noteq> 0" by auto
  with ok obtain buf where buf: "t_buffer tr = Some buf" "length buf = unat (t_requested_length tr)"
    by (auto simp: transfer_ok_def split: option.splits)
  from room True req obtain ubuf where ubuf: "urb_transfer_buffer urb = Some ubuf" "unat (t_requested_length tr) \<le> length ubuf"
    by (auto simp: urb_room_def)
  let ?buf = "take ?n (tc_data c) @ drop ?n buf" and ?ubuf = "take ?n (tc_data c) @ drop ?n ubuf"
  show thesis
  proof (rule that [of "urb\<lparr>urb_transfer_buffer := Some ?ubuf\<rparr>" "tr\<lparr>t_buffer := Some ?buf\<rparr>"])
    have "take ?n ?buf = take ?n (tc_data c)" using data by simp
    then show "deliver t u tr c s =
        Some (put_urb u (urb\<lparr>urb_transfer_buffer := Some ?ubuf\<rparr>) (put_trans t (tr\<lparr>t_buffer := Some ?buf\<rparr>) s))"
      using True tr urb buf ubuf n data by (simp add: deliver_def ucast_len)
    show "transfer_ok (tr\<lparr>t_buffer := Some ?buf\<rparr>)"
      using ok buf n data req by (simp add: transfer_ok_def transfer_active_def)
    show "urb\<lparr>urb_transfer_buffer := Some ?ubuf, urb_actual_length := tc_actual_length c\<rparr> = completed_urb urb tr c"
      using True ubuf(1) by (simp add: completed_urb_def Let_def)
  qed simp_all
qed

lemma virtusb_backend_complete_unfold:
  assumes wf: "back_wf held pins s" and b: "load_back h s = Some b"
    and i: "tc_transfer_id c \<noteq> 0" and r: "fetched_as f (tc_transfer_id c) s b = Some r"
    and tr: "load_trans (req_transfer r) s = Some tr"
  shows "virtusb_backend_complete (Some h) (Some h) (Some f) (Some c) s =
     (let t = req_transfer r; u = req_urb r; n = (ucast (tc_actual_length c) :: u64) in
      if n > t_requested_length tr \<or> n > VIRTUSB_TRANSFER_DATA_MAX then do {
        (_, s) \<leftarrow> virtusb_transfer_cancel (Some t) (- EMSGSIZE) (taken h r b s);
        s \<leftarrow> virtusb_backend_giveback r (- EMSGSIZE) s;
        Some (- EMSGSIZE, s)
      }
      else do {
        s \<leftarrow> deliver t u tr c (taken h r b s);
        (ret, s) \<leftarrow> virtusb_transfer_complete (Some t) (tc_status c) n s;
        if ret < 0 then do {
          (_, s) \<leftarrow> virtusb_transfer_cancel (Some t) ret s;
          s \<leftarrow> virtusb_backend_giveback r ret s;
          Some (ret, s)
        }
        else do {
          s \<leftarrow> modify_urb u (\<lambda>urb. urb\<lparr>urb_actual_length := tc_actual_length c\<rparr>) s;
          s \<leftarrow> virtusb_backend_giveback r (tc_status c) s;
          Some (0, s)
        }
      })"
  unfolding virtusb_backend_complete_def Let_def deliver_def ucast_len
  using b i r tr by (simp add: find_id_ok [OF wf b, of f, folded fetched_as_def] take_request_ok [OF b] Let_def)

text \<open>
  A completion finds the request by owner and ID, delivers and gives back; a length that does
  not fit cancels the transfer.
\<close>

lemma virtusb_backend_complete_ok:
  assumes wf: "back_wf held pins s" and b: "load_back h s = Some b" and data: "length (tc_data c) = VIRTUSB_TRANSFER_DATA_MAX"
  shows "runs (virtusb_backend_complete (Some h) (Some h) (Some f) (Some c) s) (\<lambda>(ret, s'). back_wf held pins s' \<and>
    (if tc_transfer_id c = 0 then ret = - EINVAL \<and> s' = s
     else case fetched_as f (tc_transfer_id c) s b of
       None \<Rightarrow> ret = - ENOENT \<and> s' = s
     | Some r \<Rightarrow> \<exists>tr urb. load_trans (req_transfer r) s = Some tr \<and> load_urb (req_urb r) s = Some urb \<and>
         (if unat (tc_actual_length c) > unat (t_requested_length tr)
          then ret = - EMSGSIZE \<and> gave_back h r urb (- EMSGSIZE) s s'
          else ret = 0 \<and> gave_back h r (completed_urb urb tr c) (tc_status c) s s')))"
proof (cases "tc_transfer_id c = 0 \<or> fetched_as f (tc_transfer_id c) s b = None")
  case True
  with wf b show ?thesis
    by (auto simp: virtusb_backend_complete_def find_id_ok [OF wf b, of f, folded fetched_as_def])
next
  case False
  then obtain r where r: "fetched_as f (tc_transfer_id c) s b = Some r" and i: "tc_transfer_id c \<noteq> 0" by blast
  let ?t = "req_transfer r" and ?u = "req_urb r" and ?n = "ucast (tc_actual_length c) :: u64"
  let ?s1 = "taken h r b s" and ?pins = "pins(req_transfer r := Suc (pins (req_transfer r)))"
  from fetched_asD(1) [OF r] have mem: "r \<in> set (pending b) \<union> set (active b)" by simp
  from wf b mem obtain tr urb where tr: "load_trans ?t s = Some tr" and urb: "load_urb ?u s = Some urb"
    and st: "t_state tr = VIRTUSB_TRANSFER_STATE_QUEUED" and req: "t_requested_length tr \<le> VIRTUSB_TRANSFER_DATA_MAX"
    and room: "urb_room urb tr"
    by (rule request_alloc)
  note unfold = virtusb_backend_complete_unfold [OF wf b i r tr]
  have fits: "?n > t_requested_length tr \<or> ?n > VIRTUSB_TRANSFER_DATA_MAX \<longleftrightarrow>
      unat (tc_actual_length c) > unat (t_requested_length tr)"
    using req by (auto simp: word_less_nat_alt word_le_nat_alt ucast_len)
  show ?thesis
  proof (cases "unat (tc_actual_length c) > unat (t_requested_length tr)")
    case True
    have "runs (virtusb_backend_complete (Some h) (Some h) (Some f) (Some c) s) (\<lambda>(ret, s').
        ret = - EMSGSIZE \<and> back_wf held pins s' \<and> gave_back h r urb (- EMSGSIZE) s s')"
      using retire_taken_ok [OF wf b mem tr, of "- EMSGSIZE" "- EMSGSIZE"] urb True
      unfolding unfold Let_def fits by (auto simp: wp elim!: runs_mono)
    with r i tr urb True show ?thesis by (auto elim!: runs_mono)
  next
    case False
    note taken = back_wf_taken [OF wf b mem]
    have load1: "load_trans ?t ?s1 = Some tr" "load_urb ?u ?s1 = Some urb" using tr urb by simp_all
    have len: "unat (tc_actual_length c) \<le> unat (t_requested_length tr)" "unat (tc_actual_length c) \<le> length (tc_data c)"
      using False req data by (simp_all add: word_le_nat_alt)
    from load1 trans_wfD(5) [OF back_wfD(1) [OF wf] tr] len room obtain tr1 urb1 where
      del: "deliver ?t ?u tr c ?s1 = Some (put_urb ?u urb1 (put_trans ?t tr1 ?s1))" "transfer_ok tr1"
        "t_device tr1 = t_device tr" "t_refcount tr1 = t_refcount tr" "t_state tr1 = t_state tr"
        "t_requested_length tr1 = t_requested_length tr"
        "urb1\<lparr>urb_actual_length := tc_actual_length c\<rparr> = completed_urb urb tr c"
      by (rule deliver_ok)
    let ?tr2 = "tr1\<lparr>t_actual_length := ?n, t_status := tc_status c, t_state := VIRTUSB_TRANSFER_STATE_COMPLETED\<rparr>"
    let ?s2 = "put_urb ?u urb1 (put_trans ?t tr1 ?s1)"
    let ?s4 = "put_urb ?u (completed_urb urb tr c) (put_trans ?t ?tr2 ?s2)"
    have step: "transfer_step tr1 ?tr2"
      using st del(5,6) len(1) by (intro transfer_step.complete) (simp_all add: transfer_active_def word_le_nat_alt ucast_len)
    have ref: "t_refcount tr = Suc (pins ?t)" "0 < t_refcount tr"
      using trans_wfD(3) [OF back_wfD(1) [OF taken(1)] load1(1)] taken(3) by simp_all
    have "back_wf held ?pins (put_trans ?t tr1 ?s1)"
      by (rule back_wf_put_trans [OF taken(1) load1(1)]) (use del ref taken(3) in simp_all)
    then have wf2: "back_wf held ?pins ?s2" by (rule back_wf_put_urb) (use taken(4) in simp)
    have wf3: "back_wf held ?pins (put_trans ?t ?tr2 ?s2)"
      by (rule back_wf_step [OF wf2 _ _ step]) (use taken(3) in simp_all)
    then have wf4: "back_wf held ?pins ?s4" by (rule back_wf_put_urb) (use taken(4) in simp)
    have "virtusb_transfer_complete (Some ?t) (tc_status c) ?n ?s2 = Some (0, put_trans ?t ?tr2 ?s2)"
      using st del(5,6) len(1)
      by (subst virtusb_transfer_complete_ok [of ?t _ tr1]) (simp_all add: transfer_active_def word_less_nat_alt ucast_len)
    moreover have "load_urb ?u (put_trans ?t ?tr2 ?s2) = Some urb1" by simp
    ultimately have run: "virtusb_backend_complete (Some h) (Some h) (Some f) (Some c) s =
        do { s \<leftarrow> virtusb_backend_giveback r (tc_status c) ?s4; Some (0, s) }"
      unfolding unfold Let_def fits using False del(1,7) by simp
    have "load_urb ?u ?s4 = Some (completed_urb urb tr c)" "(g, ?u, t) \<notin> requests ?s4" "0 < ?pins ?t" for g t
      using taken(4) by simp_all
    note give = virtusb_backend_giveback_ok [OF wf4 this, of "tc_status c"]
    have "?pins(?t := ?pins ?t - 1) = pins" by simp
    note wf' = give(2) [unfolded this]
    have "gave_back h r (completed_urb urb tr c) (tc_status c) s (trans_put_result (\<lambda>d. held d + card (sessions d ?s4)) ?t
        (given_back ?u (completed_urb urb tr c) (tc_status c) ?s4))"
      using b by (simp add: gave_back_def load_trans_trans_put_result ports_fade_trans_put)
    with wf' r i tr urb False show ?thesis unfolding run give(1) by simp
  qed
qed

end
