(* ===== verification/Virtusb_Data_Plane.thy ===== *)
theory Virtusb_Data_Plane
  imports Virtusb_Backend_Spec
begin

text \<open>
  The properties of the transfer data plane, over the lemmas of the theories below, and a concrete
  run: a host controller whose backend has one session, with a control transfer created, queued
  and fetched.
\<close>

section \<open>Transfers under the invariant\<close>

lemma back_wf_start:
  assumes wf: "trans_wf held pins s"
    and none: "\<And>h b. load_back h s = Some b \<Longrightarrow> bindings b = [] \<and> pending b = [] \<and> active b = []"
    and fin: "finite {h. load_back h s \<noteq> None}" and idle: "\<And>u. \<not> linked s u"
  shows "back_wf held pins s"
proof -
  have req: "requests s = {}" using none by (fastforce simp: requests_def request_keys_def)
  then have "queued s = {}" by (simp add: queued_def)
  moreover have "sessions d s = {}" for d using none by (fastforce simp: sessions_def)
  moreover have "backend_ok {} s b" if "load_back h s = Some b" for h b
    using none [OF that] by (simp add: backend_ok_def)
  ultimately show ?thesis
    using wf fin idle by (simp add: back_wf_upto_def back_struct_def req)
qed

lemma add_trans_back [simp]:
  "load_back h (add_trans d tr s) = load_back h s" "load_urb u (add_trans d tr s) = load_urb u s"
  "linked (add_trans d tr s) = linked s" "givebacks (add_trans d tr s) = givebacks s"
  "wakeups (add_trans d tr s) = wakeups s" "kback.more (add_trans d tr s) = kback.more s"
  by (rule load_back_more load_urb_more back_fields_more; simp)+

lemma back_wf_add_trans:
  assumes wf: "back_wf_upto E held pins s" and ob: "load_obj d s = Some ob"
    and tr: "t_device tr = d" "transfer_ok tr" "t_refcount tr = 1"
  shows "back_wf_upto E held (pins(next_addr s := 1)) (add_trans d tr s)"
    and "next_addr s \<notin> queued s" and "pins (next_addr s) = 0"
proof -
  let ?t = "next_addr s" and ?s' = "add_trans d tr s"
  note free = next_addr_free_trans [OF back_wfD(1) [OF wf]]
  from free(2) show q: "?t \<notin> queued s" and p: "pins ?t = 0" by (simp_all split: if_splits)
  have "back_struct E ?s'"
  proof (rule back_struct_frame [OF back_wfD(2) [OF wf]])
    fix h u t assume *: "(h, u, t) \<in> requests s"
    with q have "t \<noteq> ?t" by (auto simp: queued_def)
    with back_structD(3) [OF back_wfD(2) [OF wf] *]
    show "request_ok ?s' u t \<and> t_device (the (load_trans t ?s')) = t_device (the (load_trans t s))"
      by (simp add: request_ok_def)
  qed simp_all
  moreover have "(\<lambda>t. pins t + (if t \<in> queued s then 1 else 0))(?t := 1) =
      (\<lambda>t. (pins(?t := 1)) t + (if t \<in> queued s then 1 else 0))"
    using q by auto
  ultimately show "back_wf_upto E held (pins(?t := 1)) ?s'"
    using trans_wf_add_trans [OF back_wfD(1) [OF wf] ob tr]
    by (simp add: back_wf_upto_def sessions_cong [of ?s' s] queued_cong [of ?s' s])
qed

section \<open>A concrete run\<close>

definition example_urb :: urb where
  "example_urb = \<lparr>urb_dev = Some \<lparr>ud_parent = Some 0, ud_portnum = 1\<rparr>, urb_pipe = 0x80000080, urb_setup_packet = Some [128, 6, 0, 1, 0, 0, 18, 0],
     urb_transfer_buffer = Some (replicate 18 0), urb_transfer_buffer_length = 18, urb_actual_length = 0,
     urb_num_sgs = 0, urb_number_of_packets = 0\<rparr>"

definition example_backend :: virtusb_backend where
  "example_backend = \<lparr>bindings = [], pending = [], active = [], stopping = False\<rparr>"

definition example_kback :: kback where
  "example_kback = \<lparr>dev_ports = dev_ports example_topo, hubs = hubs example_topo, events = [],
     objects = objects example_kobj, registry = registry example_kobj, next_object_id = 3, next_addr = 3,
     transfers = (\<lambda>_. None), next_transfer_id = 0, backends = [0 \<mapsto> example_backend],
     urbs = [9 \<mapsto> example_urb], linked = (\<lambda>_. False), givebacks = [], wakeups = []\<rparr>"

lemma back_wf_example: "back_wf (\<lambda>_. 0) (\<lambda>_. 0) example_kback"
proof (rule back_wf_start)
  have "dev_wf (\<lambda>_. 0) example_kback"
    by (rule dev_wf_example_gen) (simp_all add: example_kback_def)
  then show "trans_wf (\<lambda>_. 0) (\<lambda>_. 0) example_kback"
    by (rule trans_wf_start) (simp add: load_trans_def example_kback_def)
qed (auto simp: load_back_def example_kback_def example_backend_def split: if_splits)

lemma example_kback_sel [simp]:
  "load_obj 1 example_kback = Some (example_object 1)" "next_addr example_kback = 3"
  "load_back 0 example_kback = Some example_backend" "load_urb 9 example_kback = Some example_urb"
  "linked example_kback = (\<lambda>_. False)" "load_trans t example_kback = None"
  by (simp_all add: load_obj_def load_back_def load_urb_def load_trans_def example_kback_def example_kobj_def)

text \<open>The open file 5 serves device 1, and a transfer for it was created, then queued, then fetched.\<close>

definition example_bound :: kback where
  "example_bound = add_trans 1 example_transfer
     (put_back 0 (example_backend\<lparr>bindings := [\<lparr>bind_device = 1, bind_owner = 5\<rparr>]\<rparr>)
        (put_obj 1 ((example_object 1)\<lparr>obj_refcount := obj_refcount (example_object 1) + 1\<rparr>) example_kback))"

lemma back_wf_example_bound: "back_wf (\<lambda>_. 0) ((\<lambda>_. 0)(3 := 1)) example_bound"
proof -
  let ?s = "put_obj 1 ((example_object 1)\<lparr>obj_refcount := obj_refcount (example_object 1) + 1\<rparr>) example_kback"
  let ?b = "example_backend\<lparr>bindings := bindings example_backend @ [\<lparr>bind_device = 1, bind_owner = 5\<rparr>]\<rparr>"
  have "back_wf (\<lambda>_. 0) (\<lambda>_. 0) (put_back 0 ?b ?s)"
    using back_wf_object_get(2) [OF back_wf_example example_kback_sel(1)]
    by (intro back_wf_add_binding) (simp_all add: find_owner_None find_device_None example_backend_def)
  moreover have "load_obj 1 (put_back 0 ?b ?s) \<noteq> None" "next_addr (put_back 0 ?b ?s) = 3" by simp_all
  ultimately show ?thesis
    using back_wf_add_trans(1) [where d = 1 and tr = example_transfer, OF _ _ example_transfer_ok(2,1,3)]
    by (force simp: example_bound_def example_backend_def)
qed

definition bound_backend :: virtusb_backend where
  "bound_backend = example_backend\<lparr>bindings := [\<lparr>bind_device = 1, bind_owner = 5\<rparr>]\<rparr>"

lemma example_bound_sel [simp]:
  "load_back 0 example_bound = Some bound_backend" "load_urb 9 example_bound = Some example_urb"
  "load_trans 3 example_bound = Some example_transfer" "load_obj 1 example_bound \<noteq> None"
  by (simp_all add: example_bound_def bound_backend_def)

lemma example_bound_idle: "(g, u, t) \<notin> requests example_bound"
proof
  have "\<not> linked example_bound u" by (simp add: example_bound_def)
  moreover assume "(g, u, t) \<in> requests example_bound"
  ultimately show False using back_structD(5) [OF back_wfD(2) [OF back_wf_example_bound], of u] by blast
qed

definition example_queued :: kback where
  "example_queued = submitted 0 9 3 example_bound"

definition example_request :: virtusb_hcd_request where
  "example_request = \<lparr>req_urb = 9, req_transfer = 3, req_owner = None\<rparr>"

definition queued_backend :: virtusb_backend where
  "queued_backend = bound_backend\<lparr>pending := [example_request]\<rparr>"

lemma example_transfer_sel [simp]:
  "t_requested_length example_transfer = 18" "t_state example_transfer = VIRTUSB_TRANSFER_STATE_NEW"
  "t_direction example_transfer = VIRTUSB_TRANSFER_DIRECTION_IN" "t_id example_transfer = 1"
  "t_device example_transfer = 1" "t_refcount example_transfer = 1"
  by (simp_all add: example_transfer_def created_transfer_def)

lemma bound_backend_sel [simp]:
  "bindings bound_backend = [\<lparr>bind_device = 1, bind_owner = 5\<rparr>]" "pending bound_backend = []"
  "active bound_backend = []" "\<not> stopping bound_backend"
  by (simp_all add: bound_backend_def example_backend_def)

lemma example_room: "urb_room example_urb example_transfer"
  by (simp add: urb_room_def example_urb_def)

lemma back_wf_example_queued: "back_wf (\<lambda>_. 0) ((\<lambda>_. 0)(3 := 1)) example_queued"
  unfolding example_queued_def
  by (rule back_wf_submitted [OF back_wf_example_bound example_bound_sel(1,3) _ _ _ example_bound_sel(2) example_room])
     (simp_all add: example_bound_idle)

lemma example_queued_sel [simp]:
  "load_back 0 example_queued = Some queued_backend" "load_urb 9 example_queued = Some example_urb"
  "load_trans 3 example_queued = Some (example_transfer\<lparr>t_refcount := 2, t_state := VIRTUSB_TRANSFER_STATE_QUEUED\<rparr>)"
  by (simp_all add: example_queued_def submitted_def Let_def queued_backend_def example_request_def numeral_2_eq_2)

lemma queued_backend_sel [simp]:
  "bindings queued_backend = [\<lparr>bind_device = 1, bind_owner = 5\<rparr>]" "pending queued_backend = [example_request]"
  "active queued_backend = []" "\<not> stopping queued_backend"
  by (simp_all add: queued_backend_def)

lemma example_request_sel [simp]:
  "req_urb example_request = 9" "req_transfer example_request = 3" "req_owner example_request = None"
  by (simp_all add: example_request_def)

lemma example_session [simp]:
  "virtusb_backend_find_owner_locked queued_backend 5 = Some \<lparr>bind_device = 1, bind_owner = 5\<rparr>"
  "virtusb_backend_find_owner_locked bound_backend 5 = Some \<lparr>bind_device = 1, bind_owner = 5\<rparr>"
  by (simp_all add: virtusb_backend_find_owner_locked_def)

lemma example_queue [simp]: "device_queue example_queued queued_backend (Suc 0) = [example_request]"
  by (simp add: device_queue_def device_of_def)

definition example_fetched :: kback where
  "example_fetched = put_back 0 (moved 5 example_request queued_backend) example_queued"

lemma back_wf_example_fetched: "back_wf (\<lambda>_. 0) ((\<lambda>_. 0)(3 := 1)) example_fetched"
  unfolding example_fetched_def
  by (rule back_wf_moved [OF back_wf_example_queued example_queued_sel(1),
        where bd = "\<lparr>bind_device = 1, bind_owner = 5\<rparr>"]) (simp_all add: device_of_def)

lemma example_fetched_sel [simp]:
  "load_back 0 example_fetched = Some (moved 5 example_request queued_backend)"
  "load_urb 9 example_fetched = Some example_urb"
  "load_trans 3 example_fetched = Some (example_transfer\<lparr>t_refcount := 2, t_state := VIRTUSB_TRANSFER_STATE_QUEUED\<rparr>)"
  by (simp_all add: example_fetched_def)

lemma example_fetched_as [simp]:
  "fetched_as 5 1 example_fetched (moved 5 example_request queued_backend) = Some (example_request\<lparr>req_owner := Some 5\<rparr>)"
  by (simp add: fetched_as_def moved_def)

section \<open>Properties of the data plane\<close>

lemma find_append: "find P (xs @ ys) = (case find P xs of None \<Rightarrow> find P ys | Some x \<Rightarrow> Some x)"
  by (induction xs) simp_all

lemma filter_remove1_other: "\<not> P x \<Longrightarrow> filter P (remove1 x xs) = filter P xs"
  by (induction xs) auto

lemma submitted_sel [simp]:
  assumes "load_back h s = Some b" and "load_trans t s = Some tr"
  shows "load_back g (submitted h u t s) =
      (if g = h then Some (b\<lparr>pending := pending b @ [\<lparr>req_urb = u, req_transfer = t, req_owner = None\<rparr>]\<rparr>) else load_back g s)"
    and "load_trans t' (submitted h u t s) =
      (if t' = t then Some (tr\<lparr>t_refcount := t_refcount tr + 1, t_state := VIRTUSB_TRANSFER_STATE_QUEUED\<rparr>) else load_trans t' s)"
    and "linked (submitted h u t s) = (linked s)(u := True)"
    and "wakeups (submitted h u t s) = h # wakeups s"
    and "givebacks (submitted h u t s) = givebacks s"
    and "load_urb v (submitted h u t s) = load_urb v s"
    and "load_obj d (submitted h u t s) = load_obj d s"
    and "kback.more (submitted h u t s) = kback.more s"
    and "next_addr (submitted h u t s) = next_addr s"
    and "load_hub g' (submitted h u t s) = load_hub g' s"
  using assms by (simp_all add: submitted_def Let_def)

text \<open>C7: \<open>virtusb_backend_submit\<close> queues a transfer only once and only for a device with an
  open session: then the request joins the end of the pending list, its URB is linked, and the
  waiters are woken. Every refusal leaves the lists and the URB untouched, and a transfer refused
  after it was marked queued ends up cancelled with the error.\<close>

theorem backend_submit_outcome:
  assumes wf: "back_wf held pins s" and b: "load_back h s = Some b" and tr: "load_trans t s = Some tr"
    and link: "link_ret \<le> 0" and urb: "load_urb u s = Some urb" "urb_room urb tr" "\<forall>g t. (g, u, t) \<notin> requests s"
  shows "runs (virtusb_backend_submit mem link_ret (Some h) (Some h) (Some u) (Some t) s) (\<lambda>(ret, s').
    back_wf held pins s' \<and> givebacks s' = givebacks s \<and>
    (if t_requested_length tr > VIRTUSB_TRANSFER_DATA_MAX then ret = - EMSGSIZE \<and> s' = s
     else if \<not> mem then ret = - ENOMEM \<and> s' = s
     else if t_state tr \<noteq> VIRTUSB_TRANSFER_STATE_NEW then ret = - EINVAL \<and> s' = s
     else if stopping b \<or> t_device tr \<notin> bind_device ` set (bindings b) \<or> link_ret < 0
     then ret = (if stopping b then - ESHUTDOWN
                 else if t_device tr \<notin> bind_device ` set (bindings b) then - ENODEV else link_ret) \<and>
          load_back h s' = Some b \<and> linked s' = linked s \<and>
          load_trans t s' = Some (tr\<lparr>t_actual_length := 0, t_status := ret, t_state := VIRTUSB_TRANSFER_STATE_CANCELLED\<rparr>)
     else ret = 0 \<and> wakeups s' = h # wakeups s \<and> linked s' = (linked s)(u := True) \<and>
          load_back h s' = Some (b\<lparr>pending := pending b @ [\<lparr>req_urb = u, req_transfer = t, req_owner = None\<rparr>]\<rparr>) \<and>
          load_trans t s' = Some (tr\<lparr>t_refcount := t_refcount tr + 1, t_state := VIRTUSB_TRANSFER_STATE_QUEUED\<rparr>)))"
proof -
  note run = virtusb_backend_submit_cases [OF wf b tr link, of mem u]
  let ?tr = "\<lambda>e. tr\<lparr>t_actual_length := 0, t_status := e, t_state := VIRTUSB_TRANSFER_STATE_CANCELLED\<rparr>"
  have err: "stopping b \<or> t_device tr \<notin> bind_device ` set (bindings b) \<or> link_ret < 0 \<longleftrightarrow>
      submit_error b link_ret (t_device tr) < 0"
    by (auto simp: submit_error_def)
  have cancelled: "back_wf held pins (put_trans t (?tr e) s)" if "t_state tr = VIRTUSB_TRANSFER_STATE_NEW" for e
    using that by (intro back_wf_step [OF wf tr new_not_queued [OF wf tr] transfer_step.cancel])
      (simp_all add: transfer_active_def)
  have queued: "back_wf held pins (submitted h u t s)"
    if "t_state tr = VIRTUSB_TRANSFER_STATE_NEW" "t_requested_length tr \<le> VIRTUSB_TRANSFER_DATA_MAX"
      "t_device tr \<in> bind_device ` set (bindings b)"
    using that urb by (intro back_wf_submitted [OF wf b tr]) simp_all
  show ?thesis
  proof (cases "t_requested_length tr > VIRTUSB_TRANSFER_DATA_MAX \<or> \<not> mem \<or> t_state tr \<noteq> VIRTUSB_TRANSFER_STATE_NEW")
    case True
    with wf show ?thesis by (auto simp: run)
  next
    case False
    moreover from this have "t_requested_length tr \<le> VIRTUSB_TRANSFER_DATA_MAX" by (simp add: not_less)
    ultimately show ?thesis
      unfolding err run using wf b tr cancelled queued by (simp add: submit_error_def)
  qed
qed

theorem backend_submit_outcome_witness:
  "runs (virtusb_backend_submit True 0 (Some 0) (Some 0) (Some 9) (Some 3) example_bound) (\<lambda>(ret, s').
     ret = 0 \<and> back_wf (\<lambda>_. 0) ((\<lambda>_. 0)(3 := 1)) s' \<and> load_back 0 s' = Some queued_backend)"
  by (rule runs_mono [OF backend_submit_outcome [OF back_wf_example_bound example_bound_sel(1,3) _ example_bound_sel(2) example_room]])
     (auto simp: example_bound_idle queued_backend_def example_request_def)

text \<open>C8: a fetch hands out the oldest request waiting for the device of the session, with
  everything the backend needs to serve it, and moves it to the active list under the session's
  name; the queues of all devices are otherwise unchanged, and so are all transfers.\<close>

theorem backend_fetch_oldest:
  assumes wf: "back_wf held pins s" and b: "load_back h s = Some b"
    and bd: "virtusb_backend_find_owner_locked b f = Some bd"
    and q: "device_queue s b (bind_device bd) = r # rs"
  shows "runs (virtusb_backend_fetch (Some h) (Some f) (Some f0) nonblock waits s) (\<lambda>(result, s').
    back_wf held pins s' \<and>
    (\<exists>tr ob b'. load_trans (req_transfer r) s = Some tr \<and> load_obj (bind_device bd) s = Some ob \<and>
       result = Some (0, Some (fetch_of tr ob)) \<and> load_back h s' = Some b' \<and>
       active b' = active b @ [r\<lparr>req_owner := Some f\<rparr>] \<and> bindings b' = bindings b \<and> stopping b' = stopping b \<and>
       (\<forall>d. device_queue s' b' d = (if d = bind_device bd then rs else device_queue s b d))) \<and>
    (\<forall>t. load_trans t s' = load_trans t s))"
proof -
  have "r \<in> set (device_queue s b (bind_device bd))" by (simp add: q)
  then have r: "r \<in> set (pending b)" "device_of s r = bind_device bd" by (simp_all add: device_queue_def)
  from r(1) have "r \<in> set (pending b) \<union> set (active b)" by simp
  with wf b obtain tr where tr: "load_trans (req_transfer r) s = Some tr" by (rule request_alloc)
  have "t_device tr = bind_device bd" using r(2) tr by (simp add: device_of_def)
  with back_wfD(1) [OF wf] tr obtain ob where ob: "load_obj (bind_device bd) s = Some ob"
    using user_device(2) by metis
  have "filter (\<lambda>x. device_of s x = d) (remove1 r (pending b)) =
      (if d = bind_device bd then rs else device_queue s b d)" for d
    using q r(2) by (auto simp: device_queue_def filter_remove1_first filter_remove1_other)
  then have "device_queue (put_back h (moved f r b) s) (moved f r b) d =
      (if d = bind_device bd then rs else device_queue s b d)" for d
    by (simp add: device_queue_def moved_def device_of_def)
  with virtusb_backend_fetch_ok [OF wf b bd q tr ob] tr ob show ?thesis
    by (simp add: moved_def)
qed

theorem backend_fetch_oldest_witness:
  "runs (virtusb_backend_fetch (Some 0) (Some 5) (Some zero_fetch) True [] example_queued) (\<lambda>(result, s').
     \<exists>f. result = Some (0, Some f) \<and> tf_transfer_id f = 1 \<and> tf_requested_length f = 18 \<and> tf_has_setup f = 1)"
  by (rule runs_mono [OF backend_fetch_oldest [OF back_wf_example_queued example_queued_sel(1) example_session(1),
        of example_request "[]"]])
     (auto simp: fetch_of_def example_transfer_def created_transfer_def)

lemma virtusb_backend_rollback_undoes:
  assumes wf: "back_wf held pins s" and b: "load_back h s = Some b"
    and bd: "virtusb_backend_find_owner_locked b f = Some bd"
    and q: "device_queue s b (bind_device bd) = r # rs"
    and tr: "load_trans (req_transfer r) s = Some tr" and id0: "t_id tr \<noteq> 0"
    and fresh: "fetched_as f (t_id tr) s b = None"
  shows "runs (do { (_, s) \<leftarrow> virtusb_backend_fetch (Some h) (Some f) (Some f0) nonblock waits s;
                    virtusb_backend_fetch_rollback (Some h) (Some f) (t_id tr) s })
    (\<lambda>(ret, s'). ret = 0 \<and> back_wf held pins s' \<and> wakeups s' = h # wakeups s \<and>
       (\<exists>b'. load_back h s' = Some b' \<and> active b' = active b \<and> bindings b' = bindings b \<and> stopping b' = stopping b \<and>
          (\<forall>d. device_queue s' b' d = device_queue s b d)) \<and>
       (\<forall>t. load_trans t s' = load_trans t s) \<and> (\<forall>u. load_urb u s' = load_urb u s))"
proof -
  have "r \<in> set (device_queue s b (bind_device bd))" by (simp add: q)
  then have r: "r \<in> set (pending b)" "device_of s r = bind_device bd" by (simp_all add: device_queue_def)
  note ok = back_structD(2) [OF back_wfD(2) [OF wf] b]
  have own: "req_owner r = None" using ok r(1) by (auto simp: backend_ok_def)
  have "t_device tr = bind_device bd" using r(2) tr by (simp add: device_of_def)
  with back_wfD(1) [OF wf] tr obtain ob where ob: "load_obj (bind_device bd) s = Some ob"
    using user_device(2) by metis
  note fetch = virtusb_backend_fetch_ok [OF wf b bd q tr ob]
  let ?r = "r\<lparr>req_owner := Some f\<rparr>" and ?b1 = "moved f r b"
  let ?s1 = "put_back h ?b1 s"
  have b1: "load_back h ?s1 = Some ?b1" by simp
  have as: "fetched_as f (t_id tr) ?s1 ?b1 = Some ?r"
    using fresh tr by (simp add: fetched_as_def moved_def find_append)
  note roll = virtusb_backend_fetch_rollback_ok [OF fetch(2) b1]
  have "?r \<notin> set (active b)"
    using backend_ok_lists(3) [OF ok] imageI [OF r(1), of req_transfer] imageI [of ?r "set (active b)" req_transfer] by auto
  then have b2: "rolled ?r ?b1 = b\<lparr>pending := r # remove1 r (pending b)\<rparr>"
    using own by (simp add: rolled_def moved_def remove1_append)
  have "filter (\<lambda>x. device_of s x = d) (r # remove1 r (pending b)) = device_queue s b d" for d
    using q r(2) by (auto simp: device_queue_def filter_remove1_first filter_remove1_other)
  then have "device_queue (wake_up_interruptible_all h (put_back h (rolled ?r ?b1) ?s1)) (rolled ?r ?b1) d =
      device_queue s b d" for d
    by (simp add: device_queue_def b2 device_of_def)
  with roll(1) [of f "t_id tr"] roll(2) [OF as] as id0 fetch(1) show ?thesis by (simp add: b2)
qed

text \<open>C9: when the copy to user space fails, putting the fetched request back undoes the fetch:
  the queue of every device, the active list, all transfers and all URBs are as they were before,
  so the next fetch of the session gets the same request. (IDs of requests a session has fetched
  must differ; they come from a 64-bit counter.)\<close>

theorem backend_rollback_undoes_fetch:
  assumes wf: "back_wf held pins s" and b: "load_back h s = Some b"
    and bd: "virtusb_backend_find_owner_locked b f = Some bd"
    and q: "device_queue s b (bind_device bd) = r # rs"
    and tr: "load_trans (req_transfer r) s = Some tr" and id0: "t_id tr \<noteq> 0"
    and fresh: "fetched_as f (t_id tr) s b = None"
  shows "runs (do { (_, s) \<leftarrow> virtusb_backend_fetch (Some h) (Some f) (Some f0) nonblock waits s;
                    virtusb_backend_fetch_rollback (Some h) (Some f) (t_id tr) s })
    (\<lambda>(ret, s'). ret = 0 \<and> back_wf held pins s' \<and> wakeups s' = h # wakeups s \<and>
       (\<exists>b'. load_back h s' = Some b' \<and> active b' = active b \<and> bindings b' = bindings b \<and> stopping b' = stopping b \<and>
          (\<forall>d. device_queue s' b' d = device_queue s b d)) \<and>
       (\<forall>t. load_trans t s' = load_trans t s) \<and> (\<forall>u. load_urb u s' = load_urb u s))"
  by (rule virtusb_backend_rollback_undoes [OF assms])

theorem backend_rollback_undoes_fetch_witness:
  "runs (do { (_, s) \<leftarrow> virtusb_backend_fetch (Some 0) (Some 5) (Some zero_fetch) True [] example_queued;
              virtusb_backend_fetch_rollback (Some 0) (Some 5) 1 s })
     (\<lambda>(ret, s'). ret = 0 \<and> (\<exists>b. load_back 0 s' = Some b \<and> device_queue s' b 1 = [example_request]))"
proof -
  have "fetched_as 5 (t_id (example_transfer\<lparr>t_refcount := 2, t_state := VIRTUSB_TRANSFER_STATE_QUEUED\<rparr>))
      example_queued queued_backend = None" by (simp add: fetched_as_def)
  from backend_rollback_undoes_fetch [OF back_wf_example_queued example_queued_sel(1) example_session(1), of example_request "[]",
      OF _ _ _ this, of zero_fetch True "[]"]
  show ?thesis by (auto elim!: runs_mono)
qed

text \<open>C10: a completion is matched by session and transfer ID. It gives the URB back exactly
  once, with the reported status and length and, for an IN transfer, the reported bytes; an
  unknown ID changes nothing, and a length beyond the requested one gives the URB back with
  -EMSGSIZE. No other request, URB or transfer is touched.\<close>

theorem backend_complete_outcome:
  assumes "back_wf held pins s" and "load_back h s = Some b" and "length (tc_data c) = VIRTUSB_TRANSFER_DATA_MAX"
  shows "runs (virtusb_backend_complete (Some h) (Some h) (Some f) (Some c) s) (\<lambda>(ret, s'). back_wf held pins s' \<and>
    (if tc_transfer_id c = 0 then ret = - EINVAL \<and> s' = s
     else case fetched_as f (tc_transfer_id c) s b of
       None \<Rightarrow> ret = - ENOENT \<and> s' = s
     | Some r \<Rightarrow> \<exists>tr urb. load_trans (req_transfer r) s = Some tr \<and> load_urb (req_urb r) s = Some urb \<and>
         (if unat (tc_actual_length c) > unat (t_requested_length tr)
          then ret = - EMSGSIZE \<and> gave_back h r urb (- EMSGSIZE) s s'
          else ret = 0 \<and> gave_back h r (completed_urb urb tr c) (tc_status c) s s')))"
  by (rule virtusb_backend_complete_ok [OF assms])

theorem backend_complete_outcome_witness:
  "runs (virtusb_backend_complete (Some 0) (Some 0) (Some 5)
       (Some \<lparr>tc_transfer_id = 1, tc_status = 0, tc_actual_length = 2, tc_data = [18, 1] @ replicate 4094 0\<rparr>)
       example_fetched)
     (\<lambda>(ret, s'). ret = 0 \<and> givebacks s' = [(9, example_urb\<lparr>urb_transfer_buffer := Some ([18, 1] @ replicate 16 0),
        urb_actual_length := 2\<rparr>, 0)])"
proof -
  let ?c = "\<lparr>tc_transfer_id = 1, tc_status = 0, tc_actual_length = 2, tc_data = [18, 1] @ replicate 4094 0\<rparr>"
  have "givebacks example_fetched = []"
    by (simp add: example_fetched_def example_queued_def example_bound_def example_kback_def submitted_def Let_def)
  moreover have "completed_urb example_urb (example_transfer\<lparr>t_refcount := 2, t_state := VIRTUSB_TRANSFER_STATE_QUEUED\<rparr>) ?c =
      example_urb\<lparr>urb_transfer_buffer := Some ([18, 1] @ replicate 16 0), urb_actual_length := 2\<rparr>"
    by (simp add: completed_urb_def example_urb_def Let_def)
  moreover have "length (tc_data ?c) = VIRTUSB_TRANSFER_DATA_MAX" by simp
  ultimately show ?thesis
    by (intro runs_mono [OF backend_complete_outcome [OF back_wf_example_fetched example_fetched_sel(1), of ?c 5]])
       (auto simp: gave_back_def)
qed

text \<open>C11: cancelling gives the URB back once, with the status of the unlink, and takes its
  request off whichever list it is on; a URB the backend no longer owns is refused with -EIDRM.\<close>

theorem backend_cancel_outcome:
  assumes "back_wf held pins s" and "load_back h s = Some b"
  shows "runs (virtusb_backend_cancel check_ret (Some h) (Some h) (Some u) status s) (\<lambda>(ret, s').
    back_wf held pins s' \<and>
    (if check_ret < 0 then ret = check_ret \<and> s' = s
     else if \<forall>t. (h, u, t) \<notin> requests s then ret = - EIDRM \<and> s' = s
     else ret = 0 \<and> (\<exists>r urb. r \<in> set (pending b) \<union> set (active b) \<and> req_urb r = u \<and>
            load_urb u s = Some urb \<and> gave_back h r urb status s s')))"
  by (rule virtusb_backend_cancel_ok [OF assms])

theorem backend_cancel_outcome_witness:
  "runs (virtusb_backend_cancel 0 (Some 0) (Some 0) (Some 9) (- 104) example_queued) (\<lambda>(ret, s').
     ret = 0 \<and> (\<exists>b. load_back 0 s' = Some b \<and> pending b = [] \<and> active b = []))"
proof -
  have "(0, 9, 3) \<in> requests example_queued"
    using requestsI [OF example_queued_sel(1), of example_request] by simp
  then have "\<not> (\<forall>t. (0, 9, t) \<notin> requests example_queued)" by blast
  then show ?thesis
    by (intro runs_mono [OF backend_cancel_outcome [OF back_wf_example_queued example_queued_sel(1)]])
       (auto simp: gave_back_def simp del: not_all)
qed

text \<open>C12: when the open file of a session is released, the session ends and everything waiting
  or fetched for its device is given back with -ESHUTDOWN, each request once and in queue order;
  the loop terminates, and the requests and sessions of other devices stay.\<close>

theorem backend_release_owner_drains:
  assumes "back_wf held pins s" and "load_back h s = Some b"
  shows "runs (virtusb_backend_release_owner (Some h) (Some h) (Some f) s) (\<lambda>s'. back_wf held pins s' \<and>
    (case virtusb_backend_find_owner_locked b f of
       None \<Rightarrow> s' = s
     | Some bd \<Rightarrow>
         load_back h s' = Some (b\<lparr>bindings := remove1 bd (bindings b),
           pending := filter (\<lambda>r. device_of s r \<noteq> bind_device bd) (pending b),
           active := filter (\<lambda>r. device_of s r \<noteq> bind_device bd) (active b)\<rparr>) \<and>
         gave_back_all h (filter (\<lambda>r. device_of s r = bind_device bd) (pending b @ active b)) (- ESHUTDOWN)
           (wake_up_interruptible_all h s) s'))"
  by (rule virtusb_backend_release_owner_ok [OF assms])

theorem backend_release_owner_drains_witness:
  "runs (virtusb_backend_release_owner (Some 0) (Some 0) (Some 5) example_fetched)
     (\<lambda>s'. load_back 0 s' = Some \<lparr>bindings = [], pending = [], active = [], stopping = False\<rparr> \<and> load_urb 9 s' = None)"
  by (rule runs_mono [OF backend_release_owner_drains [OF back_wf_example_fetched example_fetched_sel(1)]])
     (auto simp: moved_def gave_back_all_def device_of_def virtusb_backend_find_owner_locked_def
       queued_backend_def bound_backend_def example_backend_def)

text \<open>C13: stopping a backend terminates, gives every request back with -ESHUTDOWN, the pending
  ones first and each exactly once, ends all sessions and refuses new ones, and wakes whoever
  sleeps in a fetch.\<close>

theorem backend_stop_drains:
  assumes "back_wf held pins s" and "load_back h s = Some b"
  shows "runs (virtusb_backend_stop (Some h) (Some h) s) (\<lambda>s'. back_wf held pins s' \<and>
    load_back h s' = Some \<lparr>bindings = [], pending = [], active = [], stopping = True\<rparr> \<and>
    gave_back_all h (pending b @ active b) (- ESHUTDOWN) (wake_up_interruptible_all h s) s' \<and>
    (\<forall>f d ob. load_obj d s' = Some ob \<longrightarrow> virtusb_backend_register True (Some h) (Some f) (Some d) s' = Some (- ESHUTDOWN, s')))"
proof (rule runs_mono [OF virtusb_backend_stop_ok [OF assms]])
  let ?b = "\<lparr>bindings = [], pending = [], active = [], stopping = True\<rparr>"
  fix s' assume *: "back_wf held pins s' \<and> load_back h s' = Some ?b \<and>
    gave_back_all h (pending b @ active b) (- ESHUTDOWN) (wake_up_interruptible_all h s) s'"
  then have "virtusb_backend_register True (Some h) (Some f) (Some d) s' = Some (- ESHUTDOWN, s')"
    if "load_obj d s' = Some ob" for f d ob
    using virtusb_backend_register_ok [of held pins s' h ?b d ob True f] that by (simp add: runs_iff)
  with * show "back_wf held pins s' \<and> load_back h s' = Some ?b \<and>
    gave_back_all h (pending b @ active b) (- ESHUTDOWN) (wake_up_interruptible_all h s) s' \<and>
    (\<forall>f d ob. load_obj d s' = Some ob \<longrightarrow> virtusb_backend_register True (Some h) (Some f) (Some d) s' = Some (- ESHUTDOWN, s'))"
    by blast
qed

theorem backend_stop_drains_witness:
  "runs (virtusb_backend_stop (Some 0) (Some 0) example_fetched)
     (\<lambda>s'. load_back 0 s' = Some \<lparr>bindings = [], pending = [], active = [], stopping = True\<rparr> \<and> load_urb 9 s' = None)"
  by (rule runs_mono [OF backend_stop_drains [OF back_wf_example_fetched example_fetched_sel(1)]])
     (auto simp: moved_def gave_back_all_def)

section \<open>Sleeping in a fetch\<close>

lemma virtusb_backend_fetch_unfold:
  assumes wf: "back_wf held pins s" and b: "load_back h s = Some b"
  shows "virtusb_backend_fetch (Some h) (Some f) (Some f0) nonblock waits s =
    (case virtusb_backend_find_owner_locked b f of
       None \<Rightarrow> Some (Some (- ENODEV, Some f0), s)
     | Some bd \<Rightarrow>
         if device_queue s b (bind_device bd) \<noteq> []
         then virtusb_backend_fetch (Some h) (Some f) (Some f0) nonblock [] s
         else if stopping b then Some (Some (- ESHUTDOWN, Some f0), s)
         else if nonblock then Some (Some (- EAGAIN, Some f0), s)
         else (case waits of
                 [] \<Rightarrow> Some (None, s)
               | (ret, others) # waits \<Rightarrow>
                   if ret < 0 then Some (Some (ret, Some f0), others s)
                   else virtusb_backend_fetch (Some h) (Some f) (Some f0) nonblock waits (others s)))"
  by (auto simp: virtusb_backend_fetch_def fetch_request_ok [OF wf b] neq_Nil_conv split: option.split list.split)

text \<open>What other threads do while the call sleeps: they keep the invariant and the controller.\<close>

definition keeps_back :: "(nat \<Rightarrow> nat) \<Rightarrow> (nat \<Rightarrow> nat) \<Rightarrow> nat \<Rightarrow> ('a kback_scheme \<Rightarrow> 'a kback_scheme) \<Rightarrow> bool" where
  "keeps_back held pins h step \<longleftrightarrow>
     (\<forall>s b. back_wf held pins s \<longrightarrow> load_back h s = Some b \<longrightarrow>
        back_wf held pins (step s) \<and> load_back h (step s) \<noteq> None)"

text \<open>
  The outcome of a fetch that looks at the lists in state \<open>s\<close>: no session, the oldest request of
  the session's device, the end of the backend, or the need to wait (\<^const>\<open>None\<close>, when it may).
\<close>

definition fetch_outcome ::
  "nat \<Rightarrow> nat \<Rightarrow> virtusb_transfer_fetch \<Rightarrow> bool \<Rightarrow> 'a kback_scheme
     \<Rightarrow> (int \<times> virtusb_transfer_fetch option) option \<Rightarrow> 'a kback_scheme \<Rightarrow> bool" where
  "fetch_outcome h f f0 nonblock s result s' \<longleftrightarrow> (\<exists>b. load_back h s = Some b \<and>
     (case virtusb_backend_find_owner_locked b f of
        None \<Rightarrow> result = Some (- ENODEV, Some f0) \<and> s' = s
      | Some bd \<Rightarrow>
          (case device_queue s b (bind_device bd) of
             r # rs \<Rightarrow> \<exists>tr ob. load_trans (req_transfer r) s = Some tr \<and> load_obj (bind_device bd) s = Some ob \<and>
               result = Some (0, Some (fetch_of tr ob)) \<and> s' = put_back h (moved f r b) s
           | [] \<Rightarrow> s' = s \<and>
               result = (if stopping b then Some (- ESHUTDOWN, Some f0)
                         else if nonblock then Some (- EAGAIN, Some f0) else None))))"

lemma fetch_now:
  assumes wf: "back_wf held pins s" and b: "load_back h s = Some b"
    and bd: "virtusb_backend_find_owner_locked b f = Some bd" and q: "device_queue s b (bind_device bd) \<noteq> []"
  shows "runs (virtusb_backend_fetch (Some h) (Some f) (Some f0) nonblock waits s) (\<lambda>(result, s').
    back_wf held pins s' \<and> (\<exists>fetch. result = Some (0, Some fetch) \<and> length (tf_setup fetch) = VIRTUSB_TRANSFER_SETUP_SIZE) \<and>
    (\<exists>r. s' = put_back h (moved f r b) s) \<and> fetch_outcome h f f0 nonblock s result s')"
proof -
  from q obtain r rs where r: "device_queue s b (bind_device bd) = r # rs" by (auto simp: neq_Nil_conv)
  then have "r \<in> set (device_queue s b (bind_device bd))" by simp
  then have mem: "r \<in> set (pending b) \<union> set (active b)" "device_of s r = bind_device bd"
    by (simp_all add: device_queue_def)
  from wf b mem(1) obtain tr where tr: "load_trans (req_transfer r) s = Some tr" by (rule request_alloc)
  with mem(2) have "t_device tr = bind_device bd" by (simp add: device_of_def)
  with user_device(2) [OF back_wfD(1) [OF wf] tr] obtain ob where ob: "load_obj (bind_device bd) s = Some ob" by auto
  from virtusb_backend_fetch_ok [OF wf b bd r tr ob] trans_wfD(5) [OF back_wfD(1) [OF wf] tr] show ?thesis
    by (auto simp: fetch_of_def transfer_ok_def fetch_outcome_def b bd r tr ob)
qed

text \<open>The state after the first \<open>k\<close> wake-ups, and a whole call: it waits \<open>k\<close> times, and then
  returns or was interrupted by a signal, or is asleep for the rest of time.\<close>

definition after_waits ::
  "nat \<Rightarrow> (int \<times> ('a kback_scheme \<Rightarrow> 'a kback_scheme)) list \<Rightarrow> 'a kback_scheme \<Rightarrow> 'a kback_scheme" where
  "after_waits k waits s = fold (\<lambda>(_, others). others) (take k waits) s"

definition fetch_ran ::
  "nat \<Rightarrow> nat \<Rightarrow> virtusb_transfer_fetch \<Rightarrow> bool \<Rightarrow> (int \<times> ('a kback_scheme \<Rightarrow> 'a kback_scheme)) list
     \<Rightarrow> 'a kback_scheme \<Rightarrow> nat \<Rightarrow> (int \<times> virtusb_transfer_fetch option) option \<Rightarrow> 'a kback_scheme \<Rightarrow> bool" where
  "fetch_ran h f f0 nonblock waits s k result s' \<longleftrightarrow> k \<le> length waits \<and>
     (\<forall>j < k. fetch_outcome h f f0 nonblock (after_waits j waits s) None (after_waits j waits s)) \<and>
     ((\<forall>j < k. 0 \<le> fst (waits ! j)) \<and> (result = None \<longrightarrow> k = length waits) \<and>
        fetch_outcome h f f0 nonblock (after_waits k waits s) result s' \<or>
      0 < k \<and> (\<forall>j < k - 1. 0 \<le> fst (waits ! j)) \<and> fst (waits ! (k - 1)) < 0 \<and>
        result = Some (fst (waits ! (k - 1)), Some f0) \<and> s' = after_waits k waits s)"

lemma after_waits_simps [simp]:
  "after_waits 0 waits s = s" "after_waits (Suc k) (w # waits) s = after_waits k waits (snd w s)"
  by (simp_all add: after_waits_def case_prod_beta)

lemma fetch_ran_now: "fetch_outcome h f f0 nonblock s result s' \<Longrightarrow> (result = None \<Longrightarrow> waits = []) \<Longrightarrow>
    fetch_ran h f f0 nonblock waits s 0 result s'"
  by (auto simp: fetch_ran_def)

lemma fetch_ran_interrupted:
  assumes "fetch_outcome h f f0 nonblock s None s" and "fst w < 0"
  shows "fetch_ran h f f0 nonblock (w # waits) s (Suc 0) (Some (fst w, Some f0)) (snd w s)"
  using assms by (simp add: fetch_ran_def)

lemma fetch_ran_woken:
  assumes "fetch_outcome h f f0 nonblock s None s" and "0 \<le> fst w"
    and "fetch_ran h f f0 nonblock waits (snd w s) k result s'"
  shows "fetch_ran h f f0 nonblock (w # waits) s (Suc k) result s'"
  using assms unfolding fetch_ran_def by (cases k) (auto simp: All_less_Suc2 nth_Cons')

definition fetch_value :: "virtusb_transfer_fetch \<Rightarrow> (int \<times> virtusb_transfer_fetch option) option \<Rightarrow> bool" where
  "fetch_value f0 result \<longleftrightarrow> (case result of
       None \<Rightarrow> True
     | Some (ret, fetch) \<Rightarrow> ret = 0 \<and> (\<exists>x. fetch = Some x \<and> length (tf_setup x) = VIRTUSB_TRANSFER_SETUP_SIZE) \<or>
         ret < 0 \<and> fetch = Some f0)"

lemma fetch_value_simps [simp]: "fetch_value f0 None" "ret < 0 \<Longrightarrow> fetch_value f0 (Some (ret, Some f0))"
  by (simp_all add: fetch_value_def)

text \<open>Where the lists do not make it wait, a fetch returns at once; otherwise it sleeps.\<close>

lemma fetch_cases:
  assumes wf: "back_wf held pins s" and b: "load_back h s = Some b"
  obtains (returns) "runs (virtusb_backend_fetch (Some h) (Some f) (Some f0) nonblock waits s) (\<lambda>(result, s').
      result \<noteq> None \<and> fetch_outcome h f f0 nonblock s result s' \<and> fetch_value f0 result \<and>
      (s' = s \<or> (\<exists>r. s' = put_back h (moved f r b) s \<and> back_wf held pins s')))"
  | (sleeps) "fetch_outcome h f f0 nonblock s None s"
      and "virtusb_backend_fetch (Some h) (Some f) (Some f0) nonblock waits s =
        (case waits of
           [] \<Rightarrow> Some (None, s)
         | (ret, others) # waits \<Rightarrow>
             if ret < 0 then Some (Some (ret, Some f0), others s)
             else virtusb_backend_fetch (Some h) (Some f) (Some f0) nonblock waits (others s))"
proof (cases "virtusb_backend_find_owner_locked b f")
  case None
  then show thesis
    by (intro returns) (simp add: virtusb_backend_fetch_unfold [OF wf b] fetch_outcome_def b)
next
  case (Some bd)
  note unfold = virtusb_backend_fetch_unfold [OF wf b, of f f0 nonblock waits]
  show thesis
  proof (cases "device_queue s b (bind_device bd)")
    case (Cons r rs)
    then have q: "device_queue s b (bind_device bd) \<noteq> []" by simp
    show thesis
      by (rule returns, rule runs_mono [OF fetch_now [OF wf b Some q]]) (auto simp: fetch_value_def)
  next
    case Nil
    show thesis
    proof (cases "stopping b \<or> nonblock")
      case True
      with Some Nil show thesis by (intro returns) (auto simp: unfold fetch_outcome_def b)
    next
      case False
      with Some Nil unfold show thesis by (intro sleeps) (simp_all add: fetch_outcome_def b)
    qed
  qed
qed

text \<open>
  However the other threads run while a fetch sleeps: an invariant \<open>keep\<close> they keep, and that moving
  a request to the active list keeps, holds when the call returns or sleeps on.
\<close>

lemma fetch_runs:
  fixes s :: "'a kback_scheme"
  assumes "keep s"
    and wf: "\<And>s. keep s \<Longrightarrow> back_wf held pins s \<and> load_back h s \<noteq> None"
    and moved: "\<And>s b r. keep s \<Longrightarrow> load_back h s = Some b \<Longrightarrow> back_wf held pins (put_back h (moved f r b) s) \<Longrightarrow>
        keep (put_back h (moved f r b) s)"
    and waits: "\<forall>(ret, step) \<in> set waits. \<forall>s. keep s \<longrightarrow> keep (step s)"
  shows "runs (virtusb_backend_fetch (Some h) (Some f) (Some f0) nonblock waits s)
    (\<lambda>(result, s'). keep s' \<and> fetch_value f0 result \<and>
       (\<exists>k. fetch_ran h f f0 nonblock waits s k result s'))"
    (is "runs _ (?P waits s)")
  using assms(1) waits
proof (induction waits arbitrary: s)
  case (Nil s)
  from wf [OF Nil.prems(1)] obtain b where b: "back_wf held pins s" "load_back h s = Some b" by auto
  from b show ?case
  proof (cases rule: fetch_cases [of _ _ _ _ _ f f0 nonblock "[]"])
    case returns
    then show ?thesis
      by (rule runs_mono) (use Nil.prems(1) moved [OF _ b(2)] fetch_ran_now in fastforce)
  next
    case sleeps
    with Nil.prems(1) fetch_ran_now [OF sleeps(1), of "[]"] show ?thesis by auto
  qed
next
  case (Cons w waits s)
  have step: "keep (snd w s)" using Cons.prems by auto
  with Cons.prems(2) have IH: "runs (virtusb_backend_fetch (Some h) (Some f) (Some f0) nonblock waits (snd w s)) (?P waits (snd w s))"
    by (intro Cons.IH) auto
  from wf [OF Cons.prems(1)] obtain b where b: "back_wf held pins s" "load_back h s = Some b" by auto
  from b show ?case
  proof (cases rule: fetch_cases [of _ _ _ _ _ f f0 nonblock "w # waits"])
    case returns
    then show ?thesis
      by (rule runs_mono) (use Cons.prems(1) moved [OF _ b(2)] fetch_ran_now in fastforce)
  next
    case sleeps
    show ?thesis
    proof (cases "fst w < 0")
      case True
      with sleeps step fetch_ran_interrupted [OF sleeps(1) True, of waits] show ?thesis
        by (auto simp: case_prod_beta)
    next
      case False
      have "runs (virtusb_backend_fetch (Some h) (Some f) (Some f0) nonblock waits (snd w s)) (?P (w # waits) s)"
        by (rule runs_mono [OF IH]) (use False in \<open>auto simp: not_less intro: fetch_ran_woken [OF sleeps(1)]\<close>)
      with sleeps(2) False show ?thesis by (simp add: case_prod_beta)
    qed
  qed
qed

lemma fetch_ran_asleep:
  assumes "fetch_ran h f f0 nonblock waits s k None s'"
  shows "\<not> nonblock" and "\<exists>b' bd. load_back h s' = Some b' \<and> \<not> stopping b' \<and>
    virtusb_backend_find_owner_locked b' f = Some bd \<and> device_queue s' b' (bind_device bd) = []"
  using assms by (auto simp: fetch_ran_def fetch_outcome_def split: option.splits list.splits if_splits)

lemma fetch_interleaved:
  fixes s :: "'a kback_scheme"
  assumes "keep s"
    and wf: "\<And>s. keep s \<Longrightarrow> back_wf held pins s \<and> load_back h s \<noteq> None"
    and moved: "\<And>s b r. keep s \<Longrightarrow> load_back h s = Some b \<Longrightarrow> back_wf held pins (put_back h (moved f r b) s) \<Longrightarrow>
        keep (put_back h (moved f r b) s)"
    and waits: "\<forall>(ret, step) \<in> set waits. \<forall>s. keep s \<longrightarrow> keep (step s)"
  shows "runs (virtusb_backend_fetch (Some h) (Some f) (Some f0) nonblock waits s) (\<lambda>(result, s'). keep s' \<and>
    (case result of
       None \<Rightarrow> \<not> nonblock \<and> (\<exists>b' bd. load_back h s' = Some b' \<and> \<not> stopping b' \<and>
          virtusb_backend_find_owner_locked b' f = Some bd \<and> device_queue s' b' (bind_device bd) = [])
     | Some (ret, fetch) \<Rightarrow> ret = 0 \<and> (\<exists>x. fetch = Some x \<and> length (tf_setup x) = VIRTUSB_TRANSFER_SETUP_SIZE) \<or>
         ret < 0 \<and> fetch = Some f0))"
  by (rule runs_mono [OF fetch_runs [where keep = keep, OF assms]])
     (auto dest: fetch_ran_asleep simp: fetch_value_def split: option.splits)

text \<open>C14: however the other threads run while a fetch sleeps, and however often it is woken for
  nothing, the call touches only valid memory and keeps the invariant. It waits for some number
  \<open>k\<close> of wake-ups, each time because its session exists, has nothing pending and the backend is
  not stopping. Then it either returns what the state it was woken in demands - -ENODEV without a
  session, the oldest request of its device, which it moves to the active list and describes in
  full, -ESHUTDOWN when the backend stops, -EAGAIN if it must not block - or the negative result
  of a wait that a signal interrupted, or it is still asleep after the last wake-up. Only a
  transfer that is handed out changes a list or the caller's buffer.\<close>

theorem backend_fetch_interleaved:
  assumes "back_wf held pins s" and "load_back h s = Some b"
    and "\<forall>(ret, step) \<in> set waits. keeps_back held pins h step"
  shows "runs (virtusb_backend_fetch (Some h) (Some f) (Some f0) nonblock waits s) (\<lambda>(result, s').
    back_wf held pins s' \<and>
    (\<exists>k \<le> length waits.
      (\<forall>j < k. fetch_outcome h f f0 nonblock (after_waits j waits s) None (after_waits j waits s)) \<and>
      ((\<forall>j < k. 0 \<le> fst (waits ! j)) \<and> (result = None \<longrightarrow> k = length waits) \<and>
         fetch_outcome h f f0 nonblock (after_waits k waits s) result s' \<or>
       0 < k \<and> (\<forall>j < k - 1. 0 \<le> fst (waits ! j)) \<and> fst (waits ! (k - 1)) < 0 \<and>
         result = Some (fst (waits ! (k - 1)), Some f0) \<and> s' = after_waits k waits s)))"
proof (rule runs_mono [OF fetch_runs [where keep = "\<lambda>s. back_wf held pins s \<and> load_back h s \<noteq> None" and pins = pins]])
  show "\<forall>(ret, step) \<in> set waits. \<forall>s. back_wf held pins s \<and> load_back h s \<noteq> None \<longrightarrow>
      back_wf held pins (step s) \<and> load_back h (step s) \<noteq> None"
    using assms(3) by (auto simp: keeps_back_def)
qed (use assms(1,2) in \<open>auto simp: fetch_ran_def\<close>)

lemma keeps_back_wake: "keeps_back held pins h (wake_up_interruptible_all g)"
  by (simp add: keeps_back_def)

lemma fetch_outcome_bound:
  "load_back 0 s = Some bound_backend \<Longrightarrow>
     fetch_outcome 0 5 f0 False s result s' \<longleftrightarrow> result = None \<and> s' = s"
  by (auto simp: fetch_outcome_def device_queue_def bound_backend_def example_backend_def
      virtusb_backend_find_owner_locked_def)

theorem backend_fetch_interleaved_witness:
  "runs (virtusb_backend_fetch (Some 0) (Some 5) (Some zero_fetch) False
       [(0, wake_up_interruptible_all 0), (- 512, wake_up_interruptible_all 0)] example_bound)
     (\<lambda>(result, s'). result = Some (- 512, Some zero_fetch) \<and> wakeups s' = 0 # 0 # wakeups example_bound)"
proof (rule runs_mono [OF backend_fetch_interleaved [OF back_wf_example_bound example_bound_sel(1)]], goal_cases)
  case 1
  show ?case by (simp add: keeps_back_wake)
next
  case (2 x)
  let ?waits = "[(0 :: int, wake_up_interruptible_all 0), (- 512, wake_up_interruptible_all 0)]"
  obtain result s' where x: "x = (result, s')" by (cases x)
  from 2 have "\<exists>k. fetch_ran 0 5 zero_fetch False ?waits example_bound k result s'"
    unfolding fetch_ran_def x split_conv by blast
  then obtain k where ran: "fetch_ran 0 5 zero_fetch False ?waits example_bound k result s'" by blast
  then have k: "k \<le> Suc (Suc 0)" by (simp add: fetch_ran_def)
  from k consider "k = 0" | "k = Suc 0" | "k = Suc (Suc 0)" by linarith
  then show ?case
    by cases (use ran in \<open>auto simp: x fetch_ran_def fetch_outcome_bound example_bound_sel(1) All_less_Suc2\<close>)
qed

text \<open>C16: \<open>virtusb_backend_has_pending\<close>, which poll reports, agrees with what a non-blocking fetch
  of the session would do: it is ready exactly when the fetch would not return -EAGAIN.\<close>

theorem backend_poll_agrees_with_fetch:
  assumes wf: "back_wf held pins s" and b: "load_back h s = Some b"
  shows "runs (virtusb_backend_fetch (Some h) (Some f) (Some f0) True waits s) (\<lambda>(result, _).
    case result of
      None \<Rightarrow> False
    | Some (ret, _) \<Rightarrow>
        virtusb_backend_has_pending (Some h) (Some f) s = Some (if ret = - ENODEV then stopping b else ret \<noteq> - EAGAIN))"
proof -
  have pend: "virtusb_backend_has_pending (Some h) (Some f) s = Some (stopping b \<or>
      (\<exists>bd. virtusb_backend_find_owner_locked b f = Some bd \<and> device_queue s b (bind_device bd) \<noteq> []))"
    by (simp add: virtusb_backend_has_pending_def virtusb_backend_pending_for_owner_or_stopping_def b
        find_pending_ok [OF wf b] split: option.split list.split)
  have now: "runs (virtusb_backend_fetch (Some h) (Some f) (Some f0) True [] s) (\<lambda>(result, s').
      back_wf held pins s' \<and> (\<exists>fetch. result = Some (0, Some fetch)))"
    if "virtusb_backend_find_owner_locked b f = Some bd" "device_queue s b (bind_device bd) \<noteq> []" for bd
    by (rule runs_mono [OF fetch_now [OF wf b that]]) auto
  show ?thesis
  proof (cases "\<exists>bd. virtusb_backend_find_owner_locked b f = Some bd \<and> device_queue s b (bind_device bd) \<noteq> []")
    case True
    with now show ?thesis
      unfolding pend by (subst virtusb_backend_fetch_unfold [OF wf b]) (auto elim!: runs_mono)
  next
    case False
    then show ?thesis
      unfolding pend by (subst virtusb_backend_fetch_unfold [OF wf b]) (auto split: option.split)
  qed
qed

theorem backend_poll_agrees_with_fetch_witness:
  "virtusb_backend_has_pending (Some 0) (Some 5) example_bound = Some False"
proof -
  have "virtusb_backend_fetch (Some 0) (Some 5) (Some zero_fetch) True [] example_bound =
      Some (Some (- EAGAIN, Some zero_fetch), example_bound)"
    by (simp add: virtusb_backend_fetch_unfold [OF back_wf_example_bound example_bound_sel(1)] device_queue_def)
  with backend_poll_agrees_with_fetch [OF back_wf_example_bound example_bound_sel(1), of 5 zero_fetch "[]"]
  show ?thesis by simp
qed

section \<open>Where the buffer of an IN URB is missing\<close>

text \<open>
  \<open>virtusb_backend_complete\<close> writes to the transfer buffer of the URB without a test, so that an
  IN URB which came without one (and the driver checks this for OUT only) faults.
\<close>

lemma complete_null_buffer_faults:
  assumes wf: "back_wf held pins s" and b: "load_back h s = Some b" and i: "tc_transfer_id c \<noteq> 0"
    and r: "fetched_as f (tc_transfer_id c) s b = Some r"
    and tr: "load_trans (req_transfer r) s = Some tr" "t_direction tr = VIRTUSB_TRANSFER_DIRECTION_IN"
    and n: "0 < unat (tc_actual_length c)" "unat (tc_actual_length c) \<le> unat (t_requested_length tr)"
    and s': "load_back h s' = Some b" "\<And>t. load_trans t s' = load_trans t s"
    and null: "load_urb (req_urb r) s' = Some urb" "urb_transfer_buffer urb = None"
  shows "virtusb_backend_complete (Some h) (Some h) (Some f) (Some c) s' = None"
proof -
  have "virtusb_backend_find_id_locked b f (tc_transfer_id c) s' = Some (Some r)"
    using r find_id_ok [OF wf b, of f "tc_transfer_id c"]
    by (simp add: virtusb_backend_find_id_locked_def fetched_as_def s'(2) cong: if_cong)
  moreover from fetched_asD(1) [OF r] have "r \<in> set (pending b) \<union> set (active b)" by simp
  with wf b obtain tr' where "load_trans (req_transfer r) s = Some tr'" "t_requested_length tr' \<le> VIRTUSB_TRANSFER_DATA_MAX"
    by (rule request_alloc)
  then have "\<not> (ucast (tc_actual_length c) > t_requested_length tr \<or> (ucast (tc_actual_length c) :: u64) > VIRTUSB_TRANSFER_DATA_MAX)"
    using tr n by (auto simp: word_less_nat_alt word_le_nat_alt ucast_len)
  moreover have "(ucast (tc_actual_length c) :: u64) > 0" using n by (simp add: ucast_len)
  ultimately show ?thesis
    using i s' tr null
    by (auto simp: virtusb_backend_complete_def take_request_ok Let_def split: option.split bind_splits)
qed

end
