(* ===== verification/Virtusb_Stop.thy ===== *)
theory Virtusb_Stop
  imports Virtusb_Data_Plane
begin

text \<open>
  \<open>virtusb_backend_stop\<close> of \<open>kernel/src/virtusb_backend.c\<close> with the other threads between its critical
  sections. The call drops the spinlock after it has set \<open>stopping\<close>, after every request and every
  binding it takes off a list, and it cancels, gives back and drops references without the lock. Each
  of these is a step here, with a program counter; between two steps the other threads may do what
  \<open>stop_rely\<close> allows.
\<close>

section \<open>The steps of a stop\<close>

text \<open>Where the call is: the flag is set and the wake-up comes next; the two loops, with the request
  or the device whose reference the call has in its hands; the end.\<close>

datatype stop_pc =
    Stop_marked
  | Stop_draining
  | Stop_taken virtusb_hcd_request
  | Stop_cancelled virtusb_hcd_request
  | Stop_unbinding
  | Stop_unbound nat
  | Stop_done

inductive stop_step :: "nat \<Rightarrow> stop_pc \<times> 'a kback_scheme \<Rightarrow> stop_pc \<times> 'a kback_scheme \<Rightarrow> bool" for h where
  wake: "stop_step h (Stop_marked, s) (Stop_draining, wake_up_interruptible_all h s)"
| take: "load_back h s = Some b \<Longrightarrow> pending b @ active b = r # rs \<Longrightarrow> take_request h r s = Some s' \<Longrightarrow>
    stop_step h (Stop_draining, s) (Stop_taken r, s')"
| cancel: "virtusb_transfer_cancel (Some (req_transfer r)) (- ESHUTDOWN) s = Some (ret, s') \<Longrightarrow>
    stop_step h (Stop_taken r, s) (Stop_cancelled r, s')"
| give: "virtusb_backend_giveback r (- ESHUTDOWN) s = Some s' \<Longrightarrow>
    stop_step h (Stop_cancelled r, s) (Stop_draining, s')"
| drained: "load_back h s = Some b \<Longrightarrow> pending b @ active b = [] \<Longrightarrow>
    stop_step h (Stop_draining, s) (Stop_unbinding, s)"
| unbind: "load_back h s = Some b \<Longrightarrow> bindings b = bd # rest \<Longrightarrow>
    modify_back h (\<lambda>b. b\<lparr>bindings := rest\<rparr>) s = Some s' \<Longrightarrow>
    stop_step h (Stop_unbinding, s) (Stop_unbound (bind_device bd), s')"
| drop: "virtusb_object_put (Some d) s = Some s' \<Longrightarrow>
    stop_step h (Stop_unbound d, s) (Stop_unbinding, s')"
| finish: "load_back h s = Some b \<Longrightarrow> bindings b = [] \<Longrightarrow>
    stop_step h (Stop_unbinding, s) (Stop_done, s)"

lemma two_steps: "R a b \<Longrightarrow> R b c \<Longrightarrow> R\<^sup>*\<^sup>* a c"
  by (meson converse_rtranclp_into_rtranclp r_into_rtranclp)

lemma three_steps: "R a b \<Longrightarrow> R b c \<Longrightarrow> R c d \<Longrightarrow> R\<^sup>*\<^sup>* a d"
  by (meson converse_rtranclp_into_rtranclp r_into_rtranclp)

text \<open>Run without a break, the steps are the call.\<close>

lemma stop_requests_steps:
  assumes "stop_requests h s = Some s'"
  shows "(stop_step h)\<^sup>*\<^sup>* (Stop_draining, s) (Stop_unbinding, s')"
  using assms
proof (rule stop_requests.raw_induct [rotated, where P = "\<lambda>h s s'. (stop_step h)\<^sup>*\<^sup>* (Stop_draining, s) (Stop_unbinding, s')"], goal_cases)
  case (1 rec h s s')
  from 1(2) obtain b where b: "load_back h s = Some b" by (auto split: Option.bind_splits)
  show ?case
  proof (cases "pending b @ active b")
    case Nil
    with 1(2) b have "s' = s" by (simp split: list.splits)
    with drained [OF b Nil] show ?thesis by blast
  next
    case (Cons r rs)
    with 1(2) b obtain s1 ret s2 s3 where run: "take_request h r s = Some s1"
      "virtusb_transfer_cancel (Some (req_transfer r)) (- ESHUTDOWN) s1 = Some (ret, s2)"
      "virtusb_backend_giveback r (- ESHUTDOWN) s2 = Some s3" "rec h s3 = Some s'"
      by (auto split: Option.bind_splits)
    from take [OF b Cons run(1)] cancel [OF run(2)] give [OF run(3)]
    have "(stop_step h)\<^sup>*\<^sup>* (Stop_draining, s) (Stop_draining, s3)" by (rule three_steps)
    from this 1(1) [OF run(4)] show ?thesis by (rule rtranclp_trans)
  qed
qed

lemma stop_bindings_steps:
  assumes "stop_bindings h s = Some s'"
  shows "(stop_step h)\<^sup>*\<^sup>* (Stop_unbinding, s) (Stop_done, s')"
  using assms
proof (rule stop_bindings.raw_induct [rotated, where P = "\<lambda>h s s'. (stop_step h)\<^sup>*\<^sup>* (Stop_unbinding, s) (Stop_done, s')"], goal_cases)
  case (1 rec h s s')
  from 1(2) obtain b where b: "load_back h s = Some b" by (auto split: Option.bind_splits)
  show ?case
  proof (cases "bindings b")
    case Nil
    with 1(2) b finish [OF b Nil] show ?thesis by auto
  next
    case (Cons bd rest)
    with 1(2) b obtain s1 s2 where run: "modify_back h (\<lambda>b. b\<lparr>bindings := rest\<rparr>) s = Some s1"
      "virtusb_object_put (Some (bind_device bd)) s1 = Some s2" "rec h s2 = Some s'"
      by (auto split: Option.bind_splits)
    from unbind [OF b Cons run(1)] drop [OF run(2)]
    have "(stop_step h)\<^sup>*\<^sup>* (Stop_unbinding, s) (Stop_unbinding, s2)" by (rule two_steps)
    from this 1(1) [OF run(3)] show ?thesis by (rule rtranclp_trans)
  qed
qed

lemma virtusb_backend_stop_steps:
  assumes "load_back h s = Some b" and "virtusb_backend_stop (Some h) (Some h) s = Some s'"
  shows "(stop_step h)\<^sup>*\<^sup>* (Stop_marked, put_back h (b\<lparr>stopping := True\<rparr>) s) (Stop_done, s')"
proof -
  let ?s1 = "put_back h (b\<lparr>stopping := True\<rparr>) s"
  from assms obtain s2 where s2: "stop_requests h (wake_up_interruptible_all h ?s1) = Some s2" "stop_bindings h s2 = Some s'"
    by (auto simp: virtusb_backend_stop_def Let_def split: Option.bind_splits)
  with wake [of h ?s1] stop_requests_steps [OF s2(1)] stop_bindings_steps [OF s2(2)] show ?thesis
    by (meson converse_rtranclp_into_rtranclp rtranclp_trans)
qed

section \<open>What the other threads may do\<close>

text \<open>A request in the hands of one thread: its URB is the driver's, and neither the URB nor the
  transfer is on a list.\<close>

definition off_lists :: "virtusb_hcd_request \<Rightarrow> 'a kback_scheme \<Rightarrow> bool" where
  "off_lists r s \<longleftrightarrow> load_urb (req_urb r) s \<noteq> None \<and> (\<forall>g t. (g, req_urb r, t) \<notin> requests s) \<and>
     req_transfer r \<notin> queued s"

text \<open>
  Whole calls of other threads: they keep the invariant, whoever holds which references; they leave
  the backend allocated and stopping and add neither sessions nor requests to it, which a stopping
  backend refuses; wake-ups are only added to; and the request the stop has in its hands stays there.
\<close>

definition stop_rely :: "nat \<Rightarrow> stop_pc \<Rightarrow> 'a kback_scheme \<Rightarrow> 'a kback_scheme \<Rightarrow> bool" where
  "stop_rely h pc s s' \<longleftrightarrow>
     (\<forall>held pins. back_wf held pins s \<longrightarrow> back_wf held pins s') \<and>
     (\<forall>b. load_back h s = Some b \<longrightarrow> stopping b \<longrightarrow> (\<exists>b'. load_back h s' = Some b' \<and> stopping b' \<and>
        length (pending b' @ active b') \<le> length (pending b @ active b) \<and>
        length (bindings b') \<le> length (bindings b))) \<and>
     (\<exists>ws. wakeups s' = ws @ wakeups s) \<and>
     (\<forall>r. pc = Stop_taken r \<or> pc = Stop_cancelled r \<longrightarrow> off_lists r s \<longrightarrow> off_lists r s')"

text \<open>The stop and the other threads in any interleaving, with the number of steps of the stop.\<close>

inductive stop_run :: "nat \<Rightarrow> stop_pc \<times> 'a kback_scheme \<Rightarrow> nat \<Rightarrow> stop_pc \<times> 'a kback_scheme \<Rightarrow> bool" for h c where
  start: "stop_run h c 0 c"
| own: "stop_run h c n c' \<Longrightarrow> stop_step h c' c'' \<Longrightarrow> stop_run h c (Suc n) c''"
| other: "stop_run h c n (pc, s) \<Longrightarrow> stop_rely h pc s s' \<Longrightarrow> stop_run h c n (pc, s')"

section \<open>The invariant of a stop\<close>

text \<open>At every point the data plane is well-formed for the references the stop itself holds.\<close>

fun stop_holds :: "stop_pc \<Rightarrow> (nat \<Rightarrow> nat) \<Rightarrow> (nat \<Rightarrow> nat) \<Rightarrow> virtusb_backend \<Rightarrow> 'a kback_scheme \<Rightarrow> bool" where
  "stop_holds Stop_marked held pins b s \<longleftrightarrow> True"
| "stop_holds Stop_draining held pins b s \<longleftrightarrow> True"
| "stop_holds (Stop_taken r) held pins b s \<longleftrightarrow> 0 < pins (req_transfer r) \<and> off_lists r s"
| "stop_holds (Stop_cancelled r) held pins b s \<longleftrightarrow> 0 < pins (req_transfer r) \<and> off_lists r s"
| "stop_holds Stop_unbinding held pins b s \<longleftrightarrow> pending b = [] \<and> active b = []"
| "stop_holds (Stop_unbound d) held pins b s \<longleftrightarrow> pending b = [] \<and> active b = [] \<and> 0 < held d"
| "stop_holds Stop_done held pins b s \<longleftrightarrow> pending b = [] \<and> active b = [] \<and> bindings b = []"

definition stop_inv :: "nat \<Rightarrow> stop_pc \<Rightarrow> 'a kback_scheme \<Rightarrow> bool" where
  "stop_inv h pc s \<longleftrightarrow> (\<exists>held pins b. back_wf held pins s \<and> load_back h s = Some b \<and> stopping b \<and>
     stop_holds pc held pins b s)"

text \<open>A bound for the steps the stop still makes.\<close>

fun stop_rank :: "stop_pc \<Rightarrow> nat" where
  "stop_rank Stop_marked = 3"
| "stop_rank Stop_draining = 2"
| "stop_rank (Stop_taken r) = 4"
| "stop_rank (Stop_cancelled r) = 3"
| "stop_rank Stop_unbinding = 1"
| "stop_rank (Stop_unbound d) = 2"
| "stop_rank Stop_done = 0"

fun stop_left :: "nat \<Rightarrow> stop_pc \<times> 'a kback_scheme \<Rightarrow> nat" where
  "stop_left h (pc, s) = stop_rank pc +
     (case load_back h s of None \<Rightarrow> 0 | Some b \<Rightarrow> 3 * length (pending b @ active b) + 2 * length (bindings b))"

lemma stop_invI:
  "back_wf held pins s \<Longrightarrow> load_back h s = Some b \<Longrightarrow> stopping b \<Longrightarrow> stop_holds pc held pins b s \<Longrightarrow> stop_inv h pc s"
  unfolding stop_inv_def by blast

lemma stop_rely_inv:
  assumes "stop_inv h pc s" and "stop_rely h pc s s'"
  shows "stop_inv h pc s'" and "stop_left h (pc, s') \<le> stop_left h (pc, s)"
proof -
  from assms(1) obtain held pins b where inv: "back_wf held pins s" "load_back h s = Some b" "stopping b"
    "stop_holds pc held pins b s" by (auto simp: stop_inv_def)
  with assms(2) obtain b' where b': "back_wf held pins s'" "load_back h s' = Some b'" "stopping b'"
    "length (pending b' @ active b') \<le> length (pending b @ active b)" "length (bindings b') \<le> length (bindings b)"
    by (auto simp: stop_rely_def)
  have "stop_holds pc held pins b' s'"
    using inv(4) b'(4,5) assms(2) by (cases pc) (auto simp: stop_rely_def)
  with b'(1-3) show "stop_inv h pc s'" by (rule stop_invI)
  show "stop_left h (pc, s') \<le> stop_left h (pc, s)" using inv(2) b'(2,4,5) by simp
qed

section \<open>Every step of a stop\<close>

lemma owned_transfer:
  assumes "back_wf held pins s" and "0 < pins t"
  obtains tr where "load_trans t s = Some tr"
  using pinned_alloc [OF back_wfD(1) [OF assms(1)], of t] assms(2) by auto

lemma length_without:
  assumes "r \<in> set (pending b) \<union> set (active b)"
  shows "length (pending (without r b) @ active (without r b)) < length (pending b @ active b)"
proof -
  have "length (remove1 r xs) \<le> length xs" for xs by (simp add: length_remove1)
  moreover have "length (remove1 r xs) < length xs" if "r \<in> set xs" for xs
    using that length_pos_if_in_set [OF that] by (simp add: length_remove1)
  ultimately show ?thesis using assms by (auto intro: add_less_le_mono add_le_less_mono)
qed

lemma off_lists_cong:
  assumes "\<And>g. load_back g s' = load_back g s" and "load_urb (req_urb r) s' = load_urb (req_urb r) s"
  shows "off_lists r s' = off_lists r s"
  by (simp add: off_lists_def requests_cong [OF assms(1)] queued_cong [OF assms(1)] assms(2))

text \<open>Nothing is ever stuck: the stop can go on, to a state in which the invariant holds and fewer
  steps are left.\<close>

lemma stop_progress:
  assumes "stop_inv h pc s" and "pc \<noteq> Stop_done"
  shows "\<exists>c. stop_step h (pc, s) c"
proof -
  from assms(1) obtain held pins b where inv: "back_wf held pins s" "load_back h s = Some b" "stopping b"
    "stop_holds pc held pins b s" by (auto simp: stop_inv_def)
  show ?thesis
  proof (cases pc)
    case Stop_draining
    then show ?thesis
      using stop_step.take [OF inv(2) _ take_request_ok [OF inv(2)]] stop_step.drained [OF inv(2)]
      by (cases "pending b @ active b") blast+
  next
    case (Stop_taken r)
    with inv(4) obtain tr where "load_trans (req_transfer r) s = Some tr" by (auto elim: owned_transfer [OF inv(1)])
    from virtusb_transfer_cancel_ok [OF this, of "- ESHUTDOWN"] Stop_taken stop_step.cancel show ?thesis
      by (cases "transfer_active tr") fastforce+
  next
    case (Stop_cancelled r)
    with inv(4) obtain urb where "load_urb (req_urb r) s = Some urb" by (auto simp: off_lists_def)
    with virtusb_backend_giveback_ok(1) [OF inv(1) this] inv(4) Stop_cancelled stop_step.give show ?thesis
      by (fastforce simp: off_lists_def)
  next
    case Stop_unbinding
    then show ?thesis
      using stop_step.unbind [OF inv(2) _ modify_back_alloc [OF inv(2)]] stop_step.finish [OF inv(2)]
      by (cases "bindings b") blast+
  next
    case (Stop_unbound d)
    with inv(4) have "0 < held d" by simp
    from stop_step.drop [OF back_wf_object_put(1) [OF inv(1) this]] Stop_unbound show ?thesis by blast
  qed (use assms(2) stop_step.wake in blast)+
qed

lemma stop_take_inv:
  assumes wf: "back_wf held pins s" and b: "load_back h s = Some b" "stopping b" and r: "pending b @ active b = r # rs"
  shows "stop_inv h (Stop_taken r) (taken h r b s)"
    and "stop_left h (Stop_taken r, taken h r b s) < stop_left h (Stop_draining, s)"
proof -
  have "r \<in> set (pending b @ active b)" by (simp add: r)
  then have mem: "r \<in> set (pending b) \<union> set (active b)" by simp
  note taken = back_wf_taken [OF wf b(1) mem]
  from wf b(1) mem obtain urb where "load_urb (req_urb r) s = Some urb" by (rule request_alloc)
  with taken(3,4) have "off_lists r (taken h r b s)" by (simp add: off_lists_def)
  with b show "stop_inv h (Stop_taken r) (taken h r b s)"
    by (intro stop_invI [OF taken(1), of h "without r b"]) simp_all
  show "stop_left h (Stop_taken r, taken h r b s) < stop_left h (Stop_draining, s)"
    using length_without [OF mem] b(1) by simp
qed

lemma stop_cancel_inv:
  assumes wf: "back_wf held pins s" and b: "load_back h s = Some b" "stopping b"
    and r: "0 < pins (req_transfer r)" "off_lists r s"
    and run: "virtusb_transfer_cancel (Some (req_transfer r)) (- ESHUTDOWN) s = Some (ret, s')"
  shows "stop_inv h (Stop_cancelled r) s'" and "load_back h s' = Some b" and "wakeups s' = wakeups s"
proof -
  from wf r(1) obtain tr where tr: "load_trans (req_transfer r) s = Some tr" by (rule owned_transfer)
  let ?tr = "tr\<lparr>t_actual_length := 0, t_status := - ESHUTDOWN, t_state := VIRTUSB_TRANSFER_STATE_CANCELLED\<rparr>"
  let ?s = "put_trans (req_transfer r) ?tr s"
  from r(2) have q: "req_transfer r \<notin> queued s" by (simp add: off_lists_def)
  from run have s': "s' = (if transfer_active tr then ?s else s)"
    by (auto simp: virtusb_transfer_cancel_ok [OF tr] split: if_splits)
  have "back_wf held pins s'"
    using wf back_wf_step [OF wf tr q transfer_step.cancel] by (simp add: s')
  moreover have "off_lists r s' = off_lists r s" by (rule off_lists_cong) (simp_all add: s')
  ultimately show "stop_inv h (Stop_cancelled r) s'" using b r by (intro stop_invI) (simp_all add: s')
  show "load_back h s' = Some b" "wakeups s' = wakeups s" using b(1) by (simp_all add: s')
qed

lemma stop_give_inv:
  assumes wf: "back_wf held pins s" and b: "load_back h s = Some b" "stopping b"
    and r: "0 < pins (req_transfer r)" "off_lists r s"
    and run: "virtusb_backend_giveback r (- ESHUTDOWN) s = Some s'"
  shows "stop_inv h Stop_draining s'" and "load_back h s' = Some b" and "wakeups s' = wakeups s"
proof -
  from r(2) obtain urb where urb: "load_urb (req_urb r) s = Some urb" by (auto simp: off_lists_def)
  from r(2) have free: "(g, req_urb r, t) \<notin> requests s" for g t by (simp add: off_lists_def)
  note give = virtusb_backend_giveback_ok [OF wf urb free r(1), of "- ESHUTDOWN"]
  with run have s': "s' = trans_put_result (\<lambda>d. held d + card (sessions d s)) (req_transfer r)
      (given_back (req_urb r) urb (- ESHUTDOWN) s)" by simp
  then show "load_back h s' = Some b" "wakeups s' = wakeups s" using b(1) by simp_all
  with give(2) b(2) show "stop_inv h Stop_draining s'" by (intro stop_invI) (simp_all add: s')
qed

lemma stop_unbind_inv:
  assumes wf: "back_wf held pins s" and b: "load_back h s = Some b" "stopping b"
    and empty: "pending b = []" "active b = []" and bd: "bindings b = bd # rest"
  shows "stop_inv h (Stop_unbound (bind_device bd)) (put_back h (b\<lparr>bindings := rest\<rparr>) s)"
proof -
  let ?d = "bind_device bd" and ?s1 = "put_back h (b\<lparr>bindings := rest\<rparr>) s"
  let ?held = "held(?d := Suc (held ?d))"
  have "back_wf_upto ((\<lambda>_. {})(h := insert bd {})) ?held pins ?s1"
    using back_wf_remove_binding [OF wf b(1), of bd] by (simp add: bd)
  then have "back_wf ?held pins ?s1"
    by (rule back_wf_session_over [where h = h and b = "b\<lparr>bindings := rest\<rparr>"]) (simp_all add: empty)
  with b(2) empty show ?thesis by (intro stop_invI [where b = "b\<lparr>bindings := rest\<rparr>" and held = ?held]) simp_all
qed

lemma stop_step_inv:
  assumes inv: "stop_inv h pc s" and step: "stop_step h (pc, s) (pc', s')"
  shows "stop_inv h pc' s' \<and> stop_left h (pc', s') < stop_left h (pc, s) \<and> pc' \<noteq> Stop_marked \<and>
    wakeups s' = (if pc = Stop_marked then h # wakeups s else wakeups s)"
proof -
  from inv obtain held pins b where wf: "back_wf held pins s" and b: "load_back h s = Some b" "stopping b"
    and hold: "stop_holds pc held pins b s" by (auto simp: stop_inv_def)
  from step show ?thesis
  proof cases
    case wake
    with wf b show ?thesis by (auto intro!: stop_invI [of held pins])
  next
    case (take b' r rs)
    with stop_take_inv [OF wf b] b take_request_ok [OF b(1)] show ?thesis by auto
  next
    case (cancel r ret)
    with stop_cancel_inv [OF wf b _ _ cancel(3)] b hold show ?thesis by simp
  next
    case (give r)
    with stop_give_inv [OF wf b _ _ give(3)] b hold show ?thesis by simp
  next
    case (drained b')
    with wf b show ?thesis by (auto intro!: stop_invI [of held pins])
  next
    case (unbind b' bd rest)
    with stop_unbind_inv [OF wf b] b hold show ?thesis by auto
  next
    case (drop d)
    with back_wf_object_put [OF wf, of d] b hold show ?thesis by (auto intro!: stop_invI)
  next
    case (finish b')
    with wf b hold show ?thesis by (auto intro!: stop_invI [of held pins])
  qed
qed

lemma stop_run_inv:
  assumes "stop_run h (Stop_marked, s0) n c" and "stop_inv h Stop_marked s0"
  shows "stop_inv h (fst c) (snd c) \<and> n + stop_left h c \<le> stop_left h (Stop_marked, s0) \<and>
    (\<exists>ws. wakeups (snd c) = ws @ wakeups s0 \<and> (fst c \<noteq> Stop_marked \<longrightarrow> h \<in> set ws))"
  using assms
proof (induction rule: stop_run.induct)
  case start
  then show ?case by auto
next
  case (own n c c')
  obtain pc s pc' s' where c: "c = (pc, s)" "c' = (pc', s')" by (cases c; cases c')
  from own obtain ws where inv: "stop_inv h pc s" "n + stop_left h (pc, s) \<le> stop_left h (Stop_marked, s0)"
    and ws: "wakeups s = ws @ wakeups s0" "pc \<noteq> Stop_marked \<Longrightarrow> h \<in> set ws" by (auto simp: c)
  from stop_step_inv [OF inv(1) own(2) [unfolded c]] have step: "stop_inv h pc' s'"
    "stop_left h (pc', s') < stop_left h (pc, s)" "wakeups s' = (if pc = Stop_marked then h # wakeups s else wakeups s)"
    by blast+
  have "\<exists>ws'. wakeups s' = ws' @ wakeups s0 \<and> h \<in> set ws'"
    using step(3) ws by (cases "pc = Stop_marked") (auto intro: exI [of _ "h # ws"])
  with inv(2) step(1,2) show ?case unfolding c fst_conv snd_conv by auto
next
  case (other n pc s s')
  then obtain ws where ws: "wakeups s = ws @ wakeups s0" "pc \<noteq> Stop_marked \<Longrightarrow> h \<in> set ws"
    and inv: "stop_inv h pc s" "n + stop_left h (pc, s) \<le> stop_left h (Stop_marked, s0)" by auto
  from other(2) obtain ws' where "wakeups s' = ws' @ wakeups s" by (auto simp: stop_rely_def)
  with ws have "\<exists>ws. wakeups s' = ws @ wakeups s0 \<and> (pc \<noteq> Stop_marked \<longrightarrow> h \<in> set ws)"
    by (intro exI [of _ "ws' @ ws"]) auto
  with stop_rely_inv [OF inv(1) other(2)] inv(2) show ?case unfolding fst_conv snd_conv by auto
qed

lemma stop_finishes: "stop_inv h pc s \<Longrightarrow> \<exists>s'. (stop_step h)\<^sup>*\<^sup>* (pc, s) (Stop_done, s')"
proof (induction "stop_left h (pc, s)" arbitrary: pc s rule: less_induct)
  case less
  show ?case
  proof (cases "pc = Stop_done")
    case False
    with stop_progress [OF less.prems] obtain pc' s' where step: "stop_step h (pc, s) (pc', s')" by auto
    with stop_step_inv [OF less.prems] have "stop_left h (pc', s') < stop_left h (pc, s)" "stop_inv h pc' s'" by blast+
    with less.hyps step show ?thesis by (meson converse_rtranclp_into_rtranclp)
  qed blast
qed

section \<open>The calls of the backend are such calls\<close>

lemma stop_relyI:
  assumes b: "load_back g s = Some b" "load_back g s' = Some b'"
    and wf: "\<And>held pins. back_wf held pins s \<Longrightarrow> back_wf held pins s'"
    and same: "\<And>g'. g' \<noteq> g \<Longrightarrow> load_back g' s' = load_back g' s"
    and lists: "request_keys b' \<subseteq> request_keys b" "length (pending b' @ active b') \<le> length (pending b @ active b)"
      "length (bindings b') \<le> length (bindings b)" "stopping b' = stopping b"
    and wake: "\<exists>ws. wakeups s' = ws @ wakeups s"
    and urb: "\<And>r. off_lists r s \<Longrightarrow> load_urb (req_urb r) s' \<noteq> None"
  shows "stop_rely h pc s s'"
proof -
  have "requests s' \<subseteq> requests s"
  proof (clarify)
    fix g' u t assume "(g', u, t) \<in> requests s'"
    then show "(g', u, t) \<in> requests s"
      using b lists(1) same [of g'] by (cases "g' = g") (auto simp: requests_def)
  qed
  then have "off_lists r s'" if "off_lists r s" for r
    using that urb [OF that] by (auto simp: off_lists_def queued_def)
  moreover have "\<exists>b'. load_back h s' = Some b' \<and> stopping b' \<and>
      length (pending b' @ active b') \<le> length (pending c @ active c) \<and> length (bindings b') \<le> length (bindings c)"
    if "load_back h s = Some c" "stopping c" for c
    using that b lists(2-4) same [of h] by (cases "h = g") auto
  ultimately show ?thesis using wf wake unfolding stop_rely_def by blast
qed

lemma stop_rely_refl: "stop_rely h pc s s"
  by (auto simp: stop_rely_def)

lemma fetch_once:
  assumes wf: "back_wf held pins s" and b: "load_back g s = Some b"
    and run: "virtusb_backend_fetch (Some g) (Some f) (Some f0) nonblock [] s = Some (result, s')"
  shows "fetch_outcome g f f0 nonblock s result s' \<and> back_wf held pins s'"
  using wf b by (rule fetch_cases [where waits = "[]" and f = f and ?f0.0 = f0 and nonblock = nonblock])
    (use run wf in auto)

lemma fetch_rely:
  assumes wf: "back_wf held pins s" and b: "load_back g s = Some b"
    and run: "virtusb_backend_fetch (Some g) (Some f) (Some f0) nonblock [] s = Some (result, s')"
  shows "stop_rely h pc s s'"
proof -
  from fetch_once [OF assms] consider "s' = s" | bd r rs where "virtusb_backend_find_owner_locked b f = Some bd"
      "device_queue s b (bind_device bd) = r # rs" "s' = put_back g (moved f r b) s"
    by (auto simp: fetch_outcome_def b split: option.splits list.splits)
  then show ?thesis
  proof cases
    case (2 bd r rs)
    then have "r \<in> set (device_queue s b (bind_device bd))" by simp
    then have r: "r \<in> set (pending b)" by (simp add: device_queue_def)
    have wf': "back_wf held' pins' s'" if "back_wf held' pins' s" for held' pins'
      using fetch_once [OF that b run] by blast
    have "request_keys (moved f r b) \<subseteq> request_keys b"
      using r set_remove1_subset [of r "pending b"] by (auto simp: request_keys_def moved_def)
    with r length_pos_if_in_set [OF r] show ?thesis
      by (intro stop_relyI [OF b, of _ "moved f r b"] wf')
         (auto simp: 2 moved_def length_remove1 off_lists_def)
  qed (simp add: stop_rely_refl)
qed

lemma gave_back_rely:
  assumes b: "load_back g s = Some b" and r: "r \<in> set (pending b) \<union> set (active b)"
    and gb: "gave_back g r urb status s s'" and wf: "\<And>held pins. back_wf held pins s \<Longrightarrow> back_wf held pins s'"
  shows "stop_rely h pc s s'"
proof (rule stop_relyI [OF b _ wf])
  from gb b show "load_back g s' = Some (without r b)" by (simp add: gave_back_def)
  show "request_keys (without r b) \<subseteq> request_keys b"
    using set_remove1_subset [of r "pending b"] set_remove1_subset [of r "active b"] by (auto simp: request_keys_def)
  show "load_urb (req_urb r') s' \<noteq> None" if "off_lists r' s" for r'
    using that gb requestsI [OF b r] by (auto simp: off_lists_def gave_back_def)
qed (use gb less_imp_le [OF length_without [OF r]] in \<open>auto simp: gave_back_def\<close>)

lemma cancel_rely:
  assumes wf: "back_wf held pins s" and b: "load_back g s = Some b"
    and run: "virtusb_backend_cancel check_ret (Some g) (Some g) (Some u) status s = Some (ret, s')"
  shows "stop_rely h pc s s'"
proof -
  have wf': "back_wf held' pins' s'" if "back_wf held' pins' s" for held' pins'
    using virtusb_backend_cancel_ok [OF that b, of check_ret u status] run by simp
  from virtusb_backend_cancel_ok [OF wf b, of check_ret u status] run
  consider "s' = s" | r urb where "r \<in> set (pending b) \<union> set (active b)" "gave_back g r urb status s s'"
    by (auto split: if_splits)
  then show ?thesis
    by cases (simp add: stop_rely_refl, rule gave_back_rely [OF b _ _ wf'])
qed

lemma complete_rely:
  assumes wf: "back_wf held pins s" and b: "load_back g s = Some b" and c: "length (tc_data c) = VIRTUSB_TRANSFER_DATA_MAX"
    and run: "virtusb_backend_complete (Some g) (Some g) (Some f) (Some c) s = Some (ret, s')"
  shows "stop_rely h pc s s'"
proof -
  have wf': "back_wf held' pins' s'" if "back_wf held' pins' s" for held' pins'
    using virtusb_backend_complete_ok [OF that b c, of f] run by simp
  from virtusb_backend_complete_ok [OF wf b c, of f] run
  consider "s' = s" | r urb st where "fetched_as f (tc_transfer_id c) s b = Some r" "gave_back g r urb st s s'"
    by (auto split: if_splits option.splits)
  then show ?thesis
  proof cases
    case (2 r urb st)
    then have "r \<in> set (pending b) \<union> set (active b)" by (simp add: fetched_asD(1))
    from gave_back_rely [OF b this 2(2) wf'] show ?thesis .
  qed (simp add: stop_rely_refl)
qed

lemma rollback_rely:
  assumes wf: "back_wf held pins s" and b: "load_back g s = Some b"
    and run: "virtusb_backend_fetch_rollback (Some g) (Some f) i s = Some (ret, s')"
  shows "stop_rely h pc s s'"
proof -
  note roll = virtusb_backend_fetch_rollback_ok [OF _ b, of _ _ f i]
  from roll(1) [OF wf] run consider "s' = s"
    | r where "fetched_as f i s b = Some r" "s' = wake_up_interruptible_all g (put_back g (rolled r b) s)"
    by (auto split: if_splits option.splits)
  then show ?thesis
  proof cases
    case (2 r)
    then have r: "r \<in> set (active b)" by (simp add: fetched_asD(1))
    have "request_keys (rolled r b) \<subseteq> request_keys b"
      using r set_remove1_subset [of r "active b"] by (auto simp: request_keys_def rolled_def)
    with r length_pos_if_in_set [OF r] roll(2) [OF _ 2(1)] show ?thesis
      by (intro stop_relyI [OF b, of _ "rolled r b"]) (auto simp: 2(2) rolled_def length_remove1 off_lists_def)
  qed (simp add: stop_rely_refl)
qed

lemma release_owner_rely:
  assumes wf: "back_wf held pins s" and b: "load_back g s = Some b"
    and run: "virtusb_backend_release_owner (Some g) (Some g) (Some f) s = Some s'"
  shows "stop_rely h pc s s'"
proof -
  note release = virtusb_backend_release_owner_ok [OF _ b, of _ _ f]
  have wf': "back_wf held' pins' s'" if "back_wf held' pins' s" for held' pins'
    using release [OF that] run by simp
  show ?thesis
  proof (cases "virtusb_backend_find_owner_locked b f")
    case None
    with release [OF wf] run show ?thesis by (simp add: stop_rely_refl)
  next
    case (Some bd)
    let ?P = "\<lambda>r. device_of s r = bind_device bd"
    let ?b' = "b\<lparr>bindings := remove1 bd (bindings b), pending := filter (\<lambda>r. \<not> ?P r) (pending b),
        active := filter (\<lambda>r. \<not> ?P r) (active b)\<rparr>"
    from release [OF wf] run Some have s': "load_back g s' = Some ?b'"
      "gave_back_all g (filter ?P (pending b @ active b)) (- ESHUTDOWN) (wake_up_interruptible_all g s) s'"
      by simp_all
    have "load_urb (req_urb r) s' \<noteq> None" if "off_lists r s" for r
    proof -
      have "req_urb r \<notin> req_urb ` set (filter ?P (pending b @ active b))"
        using that requestsI [OF b] by (fastforce simp: off_lists_def)
      with that s'(2) show ?thesis by (simp add: gave_back_all_def off_lists_def)
    qed
    moreover have "request_keys ?b' \<subseteq> request_keys b" by (auto simp: request_keys_def)
    moreover have "length (filter (\<lambda>r. \<not> ?P r) (pending b) @ filter (\<lambda>r. \<not> ?P r) (active b)) \<le> length (pending b @ active b)"
      by (simp add: add_mono length_filter_le)
    ultimately show ?thesis
      using s' by (intro stop_relyI [OF b s'(1) wf']) (auto simp: gave_back_all_def length_remove1)
  qed
qed

text \<open>A backend that is stopping refuses new sessions and new requests.\<close>

lemma register_rely:
  assumes "back_wf held pins s" and "load_back h s = Some b" and "stopping b" and "load_obj d s = Some ob"
    and "virtusb_backend_register mem (Some h) (Some f) (Some d) s = Some (ret, s')"
  shows "stop_rely h pc s s'"
  using virtusb_backend_register_ok [OF assms(1,2,4), of mem f] assms(3,5)
  by (auto simp: stop_rely_refl split: if_splits)

lemma submit_rely:
  assumes wf: "back_wf held pins s" and b: "load_back h s = Some b" "stopping b" and tr: "load_trans t s = Some tr"
    and link: "link_ret \<le> 0" and run: "virtusb_backend_submit mem link_ret (Some h) (Some h) (Some u) (Some t) s = Some (ret, s')"
  shows "stop_rely h pc s s'"
proof -
  let ?tr = "tr\<lparr>t_actual_length := 0, t_status := - ESHUTDOWN, t_state := VIRTUSB_TRANSFER_STATE_CANCELLED\<rparr>"
  consider "s' = s" | "t_state tr = VIRTUSB_TRANSFER_STATE_NEW" "s' = put_trans t ?tr s"
    using virtusb_backend_submit_cases [OF wf b(1) tr link, of mem u] run b(2)
    by (auto simp: submit_error_def split: if_splits)
  then show ?thesis
  proof cases
    case 2
    have "back_wf held' pins' s'" if "back_wf held' pins' s" for held' pins'
      using 2 back_wf_step [OF that tr new_not_queued [OF that tr] transfer_step.cancel] by (simp add: transfer_active_def)
    with b 2 show ?thesis by (intro stop_relyI [OF b(1), of _ b]) (auto simp: off_lists_def)
  qed (simp add: stop_rely_refl)
qed

lemma fetch_woken:
  assumes wf: "back_wf held pins s" and b: "load_back h s = Some b"
    and idle: "virtusb_backend_fetch (Some h) (Some f) (Some f0) False [] s = Some (None, s)"
  shows "virtusb_backend_fetch (Some h) (Some f) (Some f0) False ((0, step) # waits) s =
    virtusb_backend_fetch (Some h) (Some f) (Some f0) False waits (step s)"
proof -
  from fetch_once [OF wf b idle] have "fetch_outcome h f f0 False s None s" by blast
  then show ?thesis
    by (subst virtusb_backend_fetch_unfold [OF wf b]) (auto simp: fetch_outcome_def b split: option.splits list.splits if_splits)
qed

section \<open>The property\<close>

text \<open>C15: a stop taken apart into its critical sections, with whole calls of other threads in between.
  They may do anything that keeps the invariant whatever references are held, leaves the backend
  allocated and stopping, adds no session and no request to it, and leaves alone the request the stop
  has in its hands (\<open>stop_rely\<close>; the calls of the backend are shown to be of this kind). A fetch that
  slept when the flag was set then returns, wherever the stop is when the woken thread runs: with the
  oldest request of its device as long as one is left, with -ESHUTDOWN when none is left but the
  session is still on the list, and with -ENODEV after that, the only answer once the stop is done. It
  never goes back to sleep, and the condition it waits for holds from the moment the flag is set. The
  stop itself logs its wake-up right after the flag, never gets stuck, makes no more steps than the
  lists at its start allow, however the others run in between, and can be completed from every state
  it reaches.\<close>

theorem backend_stop_ends_fetch:
  assumes wf: "back_wf held pins s" and b: "load_back h s = Some b"
    and run: "stop_run h (Stop_marked, put_back h (b\<lparr>stopping := True\<rparr>) s) n (pc, s1)"
  shows "\<exists>b1. load_back h s1 = Some b1 \<and>
    runs (virtusb_backend_fetch (Some h) (Some f) (Some f0) nonblock waits s1) (\<lambda>(result, s2).
      case virtusb_backend_find_owner_locked b1 f of
        None \<Rightarrow> result = Some (- ENODEV, Some f0) \<and> s2 = s1
      | Some bd \<Rightarrow>
          (case device_queue s1 b1 (bind_device bd) of
             [] \<Rightarrow> s2 = s1 \<and> result = Some (- ESHUTDOWN, Some f0)
           | r # rs \<Rightarrow> \<exists>tr ob. load_trans (req_transfer r) s1 = Some tr \<and> load_obj (bind_device bd) s1 = Some ob \<and>
               result = Some (0, Some (fetch_of tr ob)) \<and> s2 = put_back h (moved f r b1) s1)) \<and>
    (virtusb_backend_fetch (Some h) (Some f) (Some f0) False [] s = Some (None, s) \<longrightarrow>
       virtusb_backend_fetch (Some h) (Some f) (Some f0) False ((0, \<lambda>_. s1) # waits) s =
         virtusb_backend_fetch (Some h) (Some f) (Some f0) False waits s1) \<and>
    virtusb_backend_has_pending (Some h) (Some f) s1 = Some True \<and>
    (pc = Stop_done \<longrightarrow> b1 = \<lparr>bindings = [], pending = [], active = [], stopping = True\<rparr>) \<and>
    (\<exists>ws. wakeups s1 = ws @ wakeups s \<and> (pc \<noteq> Stop_marked \<longrightarrow> h \<in> set ws)) \<and>
    n \<le> 3 + 3 * length (pending b @ active b) + 2 * length (bindings b) \<and>
    (\<exists>s2. (stop_step h)\<^sup>*\<^sup>* (pc, s1) (Stop_done, s2))"
proof -
  let ?s0 = "put_back h (b\<lparr>stopping := True\<rparr>) s"
  have "stop_inv h Stop_marked ?s0"
    by (rule stop_invI [OF back_wf_stopping [OF wf b], where b = "b\<lparr>stopping := True\<rparr>"]) simp_all
  from stop_run_inv [OF run this] obtain ws where inv: "stop_inv h pc s1"
    and rest: "n \<le> 3 + 3 * length (pending b @ active b) + 2 * length (bindings b)"
      "wakeups s1 = ws @ wakeups s" "pc \<noteq> Stop_marked \<longrightarrow> h \<in> set ws" by auto
  from inv obtain held' pins' b1 where wf1: "back_wf held' pins' s1" and b1: "load_back h s1 = Some b1" "stopping b1"
    and hold: "stop_holds pc held' pins' b1 s1" by (auto simp: stop_inv_def)
  have "runs (virtusb_backend_fetch (Some h) (Some f) (Some f0) nonblock waits s1) (\<lambda>(result, s2).
      fetch_outcome h f f0 nonblock s1 result s2)"
    using wf1 b1(1)
  proof (cases rule: fetch_cases [where waits = waits and f = f and ?f0.0 = f0 and nonblock = nonblock])
    case returns
    then show ?thesis by (rule runs_mono) blast
  next
    case sleeps
    with b1 show ?thesis by (auto simp: fetch_outcome_def split: option.splits list.splits)
  qed
  then have "runs (virtusb_backend_fetch (Some h) (Some f) (Some f0) nonblock waits s1) (\<lambda>(result, s2).
      case virtusb_backend_find_owner_locked b1 f of
        None \<Rightarrow> result = Some (- ENODEV, Some f0) \<and> s2 = s1
      | Some bd \<Rightarrow>
          (case device_queue s1 b1 (bind_device bd) of
             [] \<Rightarrow> s2 = s1 \<and> result = Some (- ESHUTDOWN, Some f0)
           | r # rs \<Rightarrow> \<exists>tr ob. load_trans (req_transfer r) s1 = Some tr \<and> load_obj (bind_device bd) s1 = Some ob \<and>
               result = Some (0, Some (fetch_of tr ob)) \<and> s2 = put_back h (moved f r b1) s1))"
    by (rule runs_mono) (simp add: fetch_outcome_def b1 cong: option.case_cong list.case_cong conj_cong split: prod.splits)
  moreover have "virtusb_backend_fetch (Some h) (Some f) (Some f0) False ((0, \<lambda>_. s1) # waits) s =
      virtusb_backend_fetch (Some h) (Some f) (Some f0) False waits s1"
    if "virtusb_backend_fetch (Some h) (Some f) (Some f0) False [] s = Some (None, s)"
    by (rule fetch_woken [OF wf b that])
  moreover have "b1 = \<lparr>bindings = [], pending = [], active = [], stopping = True\<rparr>" if "pc = Stop_done"
    using hold that b1(2) by simp
  moreover have "virtusb_backend_has_pending (Some h) (Some f) s1 = Some True"
    by (simp add: virtusb_backend_has_pending_def virtusb_backend_pending_for_owner_or_stopping_def b1)
  ultimately show ?thesis
    using rest stop_finishes [OF inv] b1(1) by (intro exI [of _ b1] conjI exI [of _ ws]) blast+
qed

text \<open>The witness: a request waits when the stop sets the flag; before the wake-up another thread
  fetches it, so that the sleeper which is woken then finds its session but no request.\<close>

theorem backend_stop_ends_fetch_witness:
  "\<exists>s1. stop_run 0 (Stop_marked, put_back 0 (queued_backend\<lparr>stopping := True\<rparr>) example_queued) 1 (Stop_draining, s1) \<and>
     virtusb_backend_fetch (Some 0) (Some 5) (Some zero_fetch) False [] s1 = Some (Some (- ESHUTDOWN, Some zero_fetch), s1)"
proof -
  let ?b0 = "queued_backend\<lparr>stopping := True\<rparr>" and ?bd = "\<lparr>bind_device = 1, bind_owner = 5\<rparr>"
  let ?s0 = "put_back 0 ?b0 example_queued"
  let ?b1 = "moved 5 example_request ?b0"
  let ?s1 = "wake_up_interruptible_all 0 (put_back 0 ?b1 ?s0)"
  have wf0: "back_wf (\<lambda>_. 0) ((\<lambda>_. 0)(3 := 1)) ?s0"
    by (rule back_wf_stopping [OF back_wf_example_queued example_queued_sel(1)])
  have b0: "load_back 0 ?s0 = Some ?b0" by simp
  have bd: "virtusb_backend_find_owner_locked ?b0 5 = Some ?bd" "virtusb_backend_find_owner_locked ?b1 5 = Some ?bd"
    by (simp_all add: virtusb_backend_find_owner_locked_def moved_def)
  have "device_queue ?s0 ?b0 (bind_device ?bd) = [example_request]"
    using example_queue by (simp add: device_queue_def device_of_def)
  with fetch_now [OF wf0 b0 bd(1), of zero_fetch True "[]"] obtain result where
    "virtusb_backend_fetch (Some 0) (Some 5) (Some zero_fetch) True [] ?s0 = Some (result, put_back 0 ?b1 ?s0)"
    by (auto simp: runs_iff fetch_outcome_def bd(1))
  from stop_run.other [OF stop_run.start fetch_rely [OF wf0 b0 this]]
  have run: "stop_run 0 (Stop_marked, ?s0) 1 (Stop_draining, ?s1)"
    unfolding One_nat_def by (rule stop_run.own) (rule stop_step.wake)
  have "device_queue ?s1 ?b1 1 = []" by (simp add: device_queue_def moved_def)
  with run backend_stop_ends_fetch [OF back_wf_example_queued example_queued_sel(1) run, of 5 zero_fetch False "[]"]
  show ?thesis by (auto simp: runs_iff bd(2))
qed

end
