(* ===== verification/Virtusb_Hcd.thy ===== *)
theory Virtusb_Hcd
  imports Virtusb_Backend
begin

text \<open>
  The host-controller driver of \<open>kernel/src/virtusb_hcd.c\<close>: the root-hub requests of the USB
  core over the hub model, and the URBs it hands to the data plane. One address names a
  \<open>struct usb_hcd\<close>, the \<open>struct virtusb_hcd\<close> in its private data, its root hub, its backend and
  the root hub's \<open>struct usb_device\<close>. A \<open>char *buf\<close> is a byte list; writing past its end is a
  fault. Creating and removing a controller is in \<open>Virtusb_Platform\<close>.
\<close>

section \<open>Constants of the Linux USB headers\<close>

abbreviation (input) USB_PORT_STAT_CONNECTION :: u16 where "USB_PORT_STAT_CONNECTION \<equiv> 0x0001"
abbreviation (input) USB_PORT_STAT_ENABLE :: u16 where "USB_PORT_STAT_ENABLE \<equiv> 0x0002"
abbreviation (input) USB_PORT_STAT_SUSPEND :: u16 where "USB_PORT_STAT_SUSPEND \<equiv> 0x0004"
abbreviation (input) USB_PORT_STAT_OVERCURRENT :: u16 where "USB_PORT_STAT_OVERCURRENT \<equiv> 0x0008"
abbreviation (input) USB_PORT_STAT_RESET :: u16 where "USB_PORT_STAT_RESET \<equiv> 0x0010"
abbreviation (input) USB_PORT_STAT_POWER :: u16 where "USB_PORT_STAT_POWER \<equiv> 0x0100"
abbreviation (input) USB_PORT_STAT_LOW_SPEED :: u16 where "USB_PORT_STAT_LOW_SPEED \<equiv> 0x0200"
abbreviation (input) USB_PORT_STAT_HIGH_SPEED :: u16 where "USB_PORT_STAT_HIGH_SPEED \<equiv> 0x0400"

abbreviation (input) USB_PORT_STAT_C_CONNECTION :: u16 where "USB_PORT_STAT_C_CONNECTION \<equiv> 0x0001"
abbreviation (input) USB_PORT_STAT_C_ENABLE :: u16 where "USB_PORT_STAT_C_ENABLE \<equiv> 0x0002"
abbreviation (input) USB_PORT_STAT_C_SUSPEND :: u16 where "USB_PORT_STAT_C_SUSPEND \<equiv> 0x0004"
abbreviation (input) USB_PORT_STAT_C_OVERCURRENT :: u16 where "USB_PORT_STAT_C_OVERCURRENT \<equiv> 0x0008"
abbreviation (input) USB_PORT_STAT_C_RESET :: u16 where "USB_PORT_STAT_C_RESET \<equiv> 0x0010"

abbreviation (input) USB_PORT_FEAT_ENABLE :: u16 where "USB_PORT_FEAT_ENABLE \<equiv> 1"
abbreviation (input) USB_PORT_FEAT_SUSPEND :: u16 where "USB_PORT_FEAT_SUSPEND \<equiv> 2"
abbreviation (input) USB_PORT_FEAT_RESET :: u16 where "USB_PORT_FEAT_RESET \<equiv> 4"
abbreviation (input) USB_PORT_FEAT_POWER :: u16 where "USB_PORT_FEAT_POWER \<equiv> 8"
abbreviation (input) USB_PORT_FEAT_C_CONNECTION :: u16 where "USB_PORT_FEAT_C_CONNECTION \<equiv> 16"
abbreviation (input) USB_PORT_FEAT_C_ENABLE :: u16 where "USB_PORT_FEAT_C_ENABLE \<equiv> 17"
abbreviation (input) USB_PORT_FEAT_C_SUSPEND :: u16 where "USB_PORT_FEAT_C_SUSPEND \<equiv> 18"
abbreviation (input) USB_PORT_FEAT_C_OVER_CURRENT :: u16 where "USB_PORT_FEAT_C_OVER_CURRENT \<equiv> 19"
abbreviation (input) USB_PORT_FEAT_C_RESET :: u16 where "USB_PORT_FEAT_C_RESET \<equiv> 20"

abbreviation (input) ClearHubFeature :: u16 where "ClearHubFeature \<equiv> 0x2001"
abbreviation (input) ClearPortFeature :: u16 where "ClearPortFeature \<equiv> 0x2301"
abbreviation (input) GetHubDescriptor :: u16 where "GetHubDescriptor \<equiv> 0xa006"
abbreviation (input) GetHubStatus :: u16 where "GetHubStatus \<equiv> 0xa000"
abbreviation (input) GetPortStatus :: u16 where "GetPortStatus \<equiv> 0xa300"
abbreviation (input) SetHubFeature :: u16 where "SetHubFeature \<equiv> 0x2003"
abbreviation (input) SetPortFeature :: u16 where "SetPortFeature \<equiv> 0x2303"
abbreviation (input) C_HUB_LOCAL_POWER :: u16 where "C_HUB_LOCAL_POWER \<equiv> 0"
abbreviation (input) C_HUB_OVER_CURRENT :: u16 where "C_HUB_OVER_CURRENT \<equiv> 1"

abbreviation (input) HUB_STATUS_OVERCURRENT :: u16 where "HUB_STATUS_OVERCURRENT \<equiv> 2"
abbreviation (input) HUB_CHANGE_OVERCURRENT :: u16 where "HUB_CHANGE_OVERCURRENT \<equiv> 2"
abbreviation (input) HUB_CHAR_INDV_PORT_LPSM :: u16 where "HUB_CHAR_INDV_PORT_LPSM \<equiv> 0x0001"
abbreviation (input) HUB_CHAR_INDV_PORT_OCPM :: u16 where "HUB_CHAR_INDV_PORT_OCPM \<equiv> 0x0008"
abbreviation (input) HUB_CHAR_NO_OCPM :: u16 where "HUB_CHAR_NO_OCPM \<equiv> 0x0010"
abbreviation (input) USB_DT_HUB :: u8 where "USB_DT_HUB \<equiv> 0x29"
abbreviation (input) USB_DT_HUB_NONVAR_SIZE :: nat where "USB_DT_HUB_NONVAR_SIZE \<equiv> 7"

section \<open>Byte buffers\<close>

definition write_bytes :: "u8 list \<Rightarrow> nat \<Rightarrow> u8 list \<Rightarrow> u8 list option" where
  "write_bytes buf i bytes =
     (if i + length bytes \<le> length buf then Some (take i buf @ bytes @ drop (i + length bytes) buf) else None)"

definition put_unaligned_le16 :: "u16 \<Rightarrow> u8 list \<Rightarrow> nat \<Rightarrow> u8 list option" where
  "put_unaligned_le16 v buf i = write_bytes buf i [ucast v, ucast (drop_bit 8 v)]"

section \<open>Port state and change words\<close>

definition virtusb_hcd_port_state_test :: "u32 \<Rightarrow> u32 \<Rightarrow> bool" where
  "virtusb_hcd_port_state_test state port_number \<longleftrightarrow> state AND BIT port_number \<noteq> 0"

definition virtusb_hcd_port_state_set :: "u32 \<Rightarrow> u32 \<Rightarrow> u32" where
  "virtusb_hcd_port_state_set state port_number = state OR BIT port_number"

definition virtusb_hcd_port_state_clear :: "u32 \<Rightarrow> u32 \<Rightarrow> u32" where
  "virtusb_hcd_port_state_clear state port_number = state AND NOT (BIT port_number)"

definition virtusb_hcd_port_change_mask :: "virtusb_hub \<Rightarrow> u32" where
  "virtusb_hcd_port_change_mask hb =
     (let c = hub_usb_change hb;
          changes = chg_connected c OR chg_enabled c OR chg_suspended c OR chg_reset c OR chg_over_current c;
          changes = changes AND NOT (BIT 0);
          changes = changes OR (chg_over_current c AND BIT 0)
      in changes)"

definition virtusb_hcd_build_port_status :: "nat \<Rightarrow> u32 \<Rightarrow> 'a topo_scheme \<Rightarrow> u16 option" where
  "virtusb_hcd_build_port_status h port_number s = do {
     hb \<leftarrow> load_hub h s;
     let status = 0;
     connected \<leftarrow> virtusb_hub_port_is_connected (Some h) port_number s;
     let status = (if connected then status OR USB_PORT_STAT_CONNECTION else status);
     let status = (if virtusb_hcd_port_state_test (usb_enabled (hub_usb hb)) port_number
                   then status OR USB_PORT_STAT_ENABLE else status);
     let status = (if virtusb_hcd_port_state_test (usb_suspended (hub_usb hb)) port_number
                   then status OR USB_PORT_STAT_SUSPEND else status);
     over_current \<leftarrow> virtusb_hub_port_is_over_current (Some h) port_number s;
     let status = (if over_current then status OR USB_PORT_STAT_OVERCURRENT else status);
     let status = (if virtusb_hcd_port_state_test (usb_reset (hub_usb hb)) port_number
                   then status OR USB_PORT_STAT_RESET else status);
     powered \<leftarrow> virtusb_hub_port_is_powered (Some h) port_number s;
     let status = (if powered then status OR USB_PORT_STAT_POWER else status);
     speed \<leftarrow> virtusb_hub_get_port_speed (Some h) port_number s;
     Some (case speed of
             VIRTUSB_PORT_SPEED_LOW \<Rightarrow> status OR USB_PORT_STAT_LOW_SPEED
           | VIRTUSB_PORT_SPEED_HIGH \<Rightarrow> status OR USB_PORT_STAT_HIGH_SPEED
           | VIRTUSB_PORT_SPEED_NONE \<Rightarrow> status
           | VIRTUSB_PORT_SPEED_FULL \<Rightarrow> status)
   }"

definition virtusb_hcd_build_port_change :: "virtusb_hub \<Rightarrow> u32 \<Rightarrow> u16" where
  "virtusb_hcd_build_port_change hb port_number =
     (let c = hub_usb_change hb;
          change = 0;
          change = (if virtusb_hcd_port_state_test (chg_connected c) port_number
                    then change OR USB_PORT_STAT_C_CONNECTION else change);
          change = (if virtusb_hcd_port_state_test (chg_enabled c) port_number
                    then change OR USB_PORT_STAT_C_ENABLE else change);
          change = (if virtusb_hcd_port_state_test (chg_suspended c) port_number
                    then change OR USB_PORT_STAT_C_SUSPEND else change);
          change = (if virtusb_hcd_port_state_test (chg_over_current c) port_number
                    then change OR USB_PORT_STAT_C_OVERCURRENT else change);
          change = (if virtusb_hcd_port_state_test (chg_reset c) port_number
                    then change OR USB_PORT_STAT_C_RESET else change)
      in change)"

definition virtusb_hcd_start :: "nat option \<Rightarrow> 'a topo_scheme \<Rightarrow> int \<times> 'a topo_scheme" where
  "virtusb_hcd_start hcd s = (0, s)"

definition virtusb_hcd_stop :: "nat option \<Rightarrow> 'a topo_scheme \<Rightarrow> 'a topo_scheme" where
  "virtusb_hcd_stop hcd s = s"

section \<open>Root-hub requests\<close>

text \<open>The results are the return value and the contents of the caller's buffer.\<close>

fun hub_status_bytes :: "u32 \<Rightarrow> nat list \<Rightarrow> u8 list \<Rightarrow> u8 list option" where
  "hub_status_bytes changes [] buf = Some buf"
| "hub_status_bytes changes (i # is) buf = do {
     buf \<leftarrow> write_bytes buf i [ucast (drop_bit (i * 8) changes AND 0xff)];
     hub_status_bytes changes is buf
   }"

definition virtusb_hcd_hub_status_data :: "nat \<Rightarrow> u8 list \<Rightarrow> 'a topo_scheme \<Rightarrow> (int \<times> u8 list) option" where
  "virtusb_hcd_hub_status_data h buf s = do {
     hb \<leftarrow> load_hub h s;
     let changes = virtusb_hcd_port_change_mask hb;
     if changes = 0 then Some (0, buf)
     else do {
       let byte_count = (unat (hub_port_count hb) + 8) div 8;
       buf \<leftarrow> hub_status_bytes changes [0..<byte_count] buf;
       Some (int byte_count, buf)
     }
   }"

definition virtusb_hcd_get_hub_descriptor :: "virtusb_hub \<Rightarrow> u8 list \<Rightarrow> (int \<times> u8 list) option" where
  "virtusb_hcd_get_hub_descriptor hb buf = do {
     let bitmap_bytes = (unat (hub_port_count hb) + 8) div 8;
     let descriptor_length = USB_DT_HUB_NONVAR_SIZE + 2 * bitmap_bytes;
     d \<leftarrow> write_bytes buf 0 (replicate descriptor_length 0);
     d \<leftarrow> write_bytes d 0 [word_of_nat descriptor_length];
     d \<leftarrow> write_bytes d 1 [USB_DT_HUB];
     d \<leftarrow> write_bytes d 2 [hub_port_count hb];
     let characteristics = 0;
     let characteristics = (if hub_power_switching_mode hb = VIRTUSB_HUB_POWER_SWITCHING_INDIVIDUAL
                            then characteristics OR HUB_CHAR_INDV_PORT_LPSM else characteristics);
     let characteristics = (case hub_over_current_mode hb of
                              VIRTUSB_HUB_OVER_CURRENT_PER_PORT \<Rightarrow> characteristics OR HUB_CHAR_INDV_PORT_OCPM
                            | VIRTUSB_HUB_OVER_CURRENT_NONE \<Rightarrow> characteristics OR HUB_CHAR_NO_OCPM
                            | VIRTUSB_HUB_OVER_CURRENT_GLOBAL \<Rightarrow> characteristics);
     d \<leftarrow> put_unaligned_le16 characteristics d 3;
     d \<leftarrow> write_bytes d 5 [0];
     d \<leftarrow> write_bytes d 6 [0];
     d \<leftarrow> write_bytes d USB_DT_HUB_NONVAR_SIZE (replicate bitmap_bytes 0);
     d \<leftarrow> write_bytes d (USB_DT_HUB_NONVAR_SIZE + bitmap_bytes) (replicate bitmap_bytes 0xff);
     Some (int descriptor_length, d)
   }"

definition virtusb_hcd_get_hub_status :: "nat \<Rightarrow> u8 list \<Rightarrow> 'a topo_scheme \<Rightarrow> (int \<times> u8 list) option" where
  "virtusb_hcd_get_hub_status h buf s = do {
     hb \<leftarrow> load_hub h s;
     over_current \<leftarrow> virtusb_hub_is_over_current (Some h) s;
     let status = (if over_current then 0 OR HUB_STATUS_OVERCURRENT else 0);
     let change = (if virtusb_hcd_port_state_test (chg_over_current (hub_usb_change hb)) 0
                   then 0 OR HUB_CHANGE_OVERCURRENT else 0);
     buf \<leftarrow> put_unaligned_le16 status buf 0;
     buf \<leftarrow> put_unaligned_le16 change buf 2;
     Some (0, buf)
   }"

definition virtusb_hcd_get_port_status :: "nat \<Rightarrow> u32 \<Rightarrow> u8 list \<Rightarrow> 'a topo_scheme \<Rightarrow> (int \<times> u8 list) option" where
  "virtusb_hcd_get_port_status h port_number buf s = do {
     ok \<leftarrow> virtusb_hub_port_is_valid (Some h) port_number s;
     if \<not> ok then Some (- EPIPE, buf)
     else do {
       status \<leftarrow> virtusb_hcd_build_port_status h port_number s;
       hb \<leftarrow> load_hub h s;
       let change = virtusb_hcd_build_port_change hb port_number;
       buf \<leftarrow> put_unaligned_le16 status buf 0;
       buf \<leftarrow> put_unaligned_le16 change buf 2;
       Some (0, buf)
     }
   }"

definition virtusb_hcd_clear_port_feature :: "nat \<Rightarrow> u32 \<Rightarrow> u16 \<Rightarrow> 'a topo_scheme \<Rightarrow> (int \<times> 'a topo_scheme) option" where
  "virtusb_hcd_clear_port_feature h port_number feature s = do {
     ok \<leftarrow> virtusb_hub_port_is_valid (Some h) port_number s;
     if \<not> ok then Some (- EPIPE, s)
     else if feature = USB_PORT_FEAT_ENABLE then do {
       s \<leftarrow> modify_hub h (\<lambda>hb. hb\<lparr>hub_usb := (hub_usb hb)
              \<lparr>usb_enabled := virtusb_hcd_port_state_clear (usb_enabled (hub_usb hb)) port_number\<rparr>\<rparr>) s;
       Some (0, s)
     }
     else if feature = USB_PORT_FEAT_SUSPEND then do {
       s \<leftarrow> modify_hub h (\<lambda>hb. hb\<lparr>hub_usb := (hub_usb hb)
              \<lparr>usb_suspended := virtusb_hcd_port_state_clear (usb_suspended (hub_usb hb)) port_number\<rparr>\<rparr>) s;
       Some (0, s)
     }
     else if feature = USB_PORT_FEAT_POWER then virtusb_hub_set_port_power (Some h) port_number False s
     else if feature = USB_PORT_FEAT_C_CONNECTION then do {
       s \<leftarrow> modify_hub h (\<lambda>hb. hb\<lparr>hub_usb_change := (hub_usb_change hb)
              \<lparr>chg_connected := virtusb_hcd_port_state_clear (chg_connected (hub_usb_change hb)) port_number\<rparr>\<rparr>) s;
       Some (0, s)
     }
     else if feature = USB_PORT_FEAT_C_ENABLE then do {
       s \<leftarrow> modify_hub h (\<lambda>hb. hb\<lparr>hub_usb_change := (hub_usb_change hb)
              \<lparr>chg_enabled := virtusb_hcd_port_state_clear (chg_enabled (hub_usb_change hb)) port_number\<rparr>\<rparr>) s;
       Some (0, s)
     }
     else if feature = USB_PORT_FEAT_C_SUSPEND then do {
       s \<leftarrow> modify_hub h (\<lambda>hb. hb\<lparr>hub_usb_change := (hub_usb_change hb)
              \<lparr>chg_suspended := virtusb_hcd_port_state_clear (chg_suspended (hub_usb_change hb)) port_number\<rparr>\<rparr>) s;
       Some (0, s)
     }
     else if feature = USB_PORT_FEAT_C_OVER_CURRENT then do {
       s \<leftarrow> modify_hub h (\<lambda>hb. hb\<lparr>hub_usb_change := (hub_usb_change hb)
              \<lparr>chg_over_current := virtusb_hcd_port_state_clear (chg_over_current (hub_usb_change hb)) port_number\<rparr>\<rparr>) s;
       Some (0, s)
     }
     else if feature = USB_PORT_FEAT_C_RESET then do {
       s \<leftarrow> modify_hub h (\<lambda>hb. hb\<lparr>hub_usb_change := (hub_usb_change hb)
              \<lparr>chg_reset := virtusb_hcd_port_state_clear (chg_reset (hub_usb_change hb)) port_number\<rparr>\<rparr>) s;
       Some (0, s)
     }
     else Some (- EPIPE, s)
   }"

definition virtusb_hcd_set_port_feature :: "nat \<Rightarrow> u32 \<Rightarrow> u16 \<Rightarrow> 'a topo_scheme \<Rightarrow> (int \<times> 'a topo_scheme) option" where
  "virtusb_hcd_set_port_feature h port_number feature s = do {
     ok \<leftarrow> virtusb_hub_port_is_valid (Some h) port_number s;
     if \<not> ok then Some (- EPIPE, s)
     else if feature = USB_PORT_FEAT_SUSPEND then do {
       s \<leftarrow> modify_hub h (\<lambda>hb. hb\<lparr>hub_usb := (hub_usb hb)
              \<lparr>usb_suspended := virtusb_hcd_port_state_set (usb_suspended (hub_usb hb)) port_number\<rparr>\<rparr>) s;
       Some (0, s)
     }
     else if feature = USB_PORT_FEAT_POWER then virtusb_hub_set_port_power (Some h) port_number True s
     else if feature = USB_PORT_FEAT_RESET then virtusb_hub_reset_port (Some h) port_number s
     else Some (- EPIPE, s)
   }"

definition virtusb_hcd_hub_control ::
  "nat \<Rightarrow> u16 \<Rightarrow> u16 \<Rightarrow> u16 \<Rightarrow> u8 list \<Rightarrow> u16 \<Rightarrow> 'a topo_scheme \<Rightarrow> (int \<times> u8 list \<times> 'a topo_scheme) option" where
  "virtusb_hcd_hub_control hcd type_req value index buf len s = do {
     let h = hcd;
     let port_number = ucast index AND 0xff;
     if type_req = ClearHubFeature then
       (if value = C_HUB_LOCAL_POWER then Some (0, buf, s)
        else if value = C_HUB_OVER_CURRENT then do {
          s \<leftarrow> modify_hub h (\<lambda>hb. hb\<lparr>hub_usb_change := (hub_usb_change hb)
                 \<lparr>chg_over_current := virtusb_hcd_port_state_clear (chg_over_current (hub_usb_change hb)) 0\<rparr>\<rparr>) s;
          Some (0, buf, s)
        }
        else Some (- EPIPE, buf, s))
     else if type_req = ClearPortFeature then do {
       (ret, s) \<leftarrow> virtusb_hcd_clear_port_feature h port_number value s;
       Some (ret, buf, s)
     }
     else if type_req = GetHubDescriptor then do {
       hb \<leftarrow> load_hub h s;
       (ret, buf) \<leftarrow> virtusb_hcd_get_hub_descriptor hb buf;
       Some (ret, buf, s)
     }
     else if type_req = GetHubStatus then do {
       (ret, buf) \<leftarrow> virtusb_hcd_get_hub_status h buf s;
       Some (ret, buf, s)
     }
     else if type_req = GetPortStatus then do {
       (ret, buf) \<leftarrow> virtusb_hcd_get_port_status h port_number buf s;
       Some (ret, buf, s)
     }
     else if type_req = SetHubFeature then Some (- EPIPE, buf, s)
     else if type_req = SetPortFeature then do {
       (ret, s) \<leftarrow> virtusb_hcd_set_port_feature h port_number value s;
       Some (ret, buf, s)
     }
     else Some (- EPIPE, buf, s)
   }"

section \<open>URBs\<close>

text \<open>The upstream port's \<open>void *owner\<close> is taken for a device; for any other owner that is a fault.\<close>

definition virtusb_hcd_get_urb_device ::
  "nat option \<Rightarrow> nat option \<Rightarrow> 'a kback_scheme \<Rightarrow> nat option option" where
  "virtusb_hcd_get_urb_device hcd urb s =
     (case (hcd, urb) of
        (Some h, Some u) \<Rightarrow> do {
          ub \<leftarrow> load_urb u s;
          (case urb_dev ub of
             None \<Rightarrow> Some None
           | Some dev \<Rightarrow>
               if ud_parent dev \<noteq> Some h then Some None
               else do {
                 let port_number = ucast (ud_portnum dev);
                 downstream \<leftarrow> virtusb_hub_get_port (Some h) port_number s;
                 (case downstream of
                    None \<Rightarrow> Some None
                  | Some down \<Rightarrow> do {
                      pd \<leftarrow> load_port down s;
                      (case p_peer pd of
                         None \<Rightarrow> Some None
                       | Some up \<Rightarrow> do {
                           pu \<leftarrow> load_port up s;
                           if p_role pu \<noteq> VIRTUSB_PORT_ROLE_UPSTREAM then Some None
                           else (case p_owner pu of
                                   None \<Rightarrow> Some None
                                 | Some (Own_dev d) \<Rightarrow> Some (Some d)
                                 | Some (Own_hub _) \<Rightarrow> None)
                         })
                    })
               })
        }
      | _ \<Rightarrow> Some None)"

text \<open>The pipe word: type in bits 30 and 31, endpoint in bits 15 to 18, direction in bit 7.\<close>

definition usb_pipetype :: "u32 \<Rightarrow> u32" where "usb_pipetype pipe = drop_bit 30 pipe AND 3"
definition usb_pipeendpoint :: "u32 \<Rightarrow> u32" where "usb_pipeendpoint pipe = drop_bit 15 pipe AND 0xf"
definition usb_pipein :: "u32 \<Rightarrow> bool" where "usb_pipein pipe \<longleftrightarrow> pipe AND 0x80 \<noteq> 0"

abbreviation (input) PIPE_ISOCHRONOUS :: u32 where "PIPE_ISOCHRONOUS \<equiv> 0"
abbreviation (input) PIPE_INTERRUPT :: u32 where "PIPE_INTERRUPT \<equiv> 1"
abbreviation (input) PIPE_CONTROL :: u32 where "PIPE_CONTROL \<equiv> 2"
abbreviation (input) PIPE_BULK :: u32 where "PIPE_BULK \<equiv> 3"

text \<open>The out parameter \<open>*type\<close> is the second component, written on success only.\<close>

definition virtusb_hcd_get_transfer_type :: "urb option \<Rightarrow> int \<times> virtusb_transfer_type option" where
  "virtusb_hcd_get_transfer_type urb =
     (case urb of
        None \<Rightarrow> (- EINVAL, None)
      | Some ub \<Rightarrow>
          if usb_pipetype (urb_pipe ub) = PIPE_CONTROL then (0, Some VIRTUSB_TRANSFER_TYPE_CONTROL)
          else if usb_pipetype (urb_pipe ub) = PIPE_ISOCHRONOUS then (0, Some VIRTUSB_TRANSFER_TYPE_ISOCHRONOUS)
          else if usb_pipetype (urb_pipe ub) = PIPE_BULK then (0, Some VIRTUSB_TRANSFER_TYPE_BULK)
          else if usb_pipetype (urb_pipe ub) = PIPE_INTERRUPT then (0, Some VIRTUSB_TRANSFER_TYPE_INTERRUPT)
          else (- EINVAL, None))"

text \<open>
  The arguments before the pointers are what the environment decides: the three allocations, the
  bytes a fresh buffer holds, and the result of linking the URB. The debug output is left out.
\<close>

definition virtusb_hcd_urb_enqueue ::
  "bool \<Rightarrow> bool \<Rightarrow> (nat \<Rightarrow> u8) \<Rightarrow> bool \<Rightarrow> int \<Rightarrow> nat option \<Rightarrow> nat option \<Rightarrow> 'a kback_scheme
     \<Rightarrow> (int \<times> 'a kback_scheme) option" where
  "virtusb_hcd_urb_enqueue mem buf_mem junk req_mem link_ret hcd urb s =
     (case (hcd, urb) of
        (Some h, Some u) \<Rightarrow> do {
          device \<leftarrow> virtusb_hcd_get_urb_device hcd urb s;
          (case device of
             None \<Rightarrow> Some (- ENODEV, s)
           | Some d \<Rightarrow> do {
               ub \<leftarrow> load_urb u s;
               (case virtusb_hcd_get_transfer_type (Some ub) of (ret, type) \<Rightarrow>
                 if ret < 0 then Some (ret, s)
                 else if urb_num_sgs ub \<noteq> 0 \<or> urb_number_of_packets ub \<noteq> 0 then Some (- EOPNOTSUPP, s)
                 else do {
                   type \<leftarrow> type;
                   let direction = (if usb_pipein (urb_pipe ub) then VIRTUSB_TRANSFER_DIRECTION_IN
                                    else VIRTUSB_TRANSFER_DIRECTION_OUT);
                   let endpoint = ucast (usb_pipeendpoint (urb_pipe ub));
                   if type = VIRTUSB_TRANSFER_TYPE_CONTROL \<and> urb_setup_packet ub = None then Some (- EINVAL, s)
                   else do {
                     let packet = (if type = VIRTUSB_TRANSFER_TYPE_CONTROL then urb_setup_packet ub else None);
                     if direction = VIRTUSB_TRANSFER_DIRECTION_OUT \<and> urb_transfer_buffer_length ub > 0 \<and>
                        urb_transfer_buffer ub = None
                     then Some (- EINVAL, s)
                     else do {
                       let data = (if direction = VIRTUSB_TRANSFER_DIRECTION_OUT \<and> urb_transfer_buffer_length ub > 0
                                   then urb_transfer_buffer ub else None);
                       (transfer, s) \<leftarrow> virtusb_transfer_create mem buf_mem junk (Some d) type direction endpoint
                                          packet data (ucast (urb_transfer_buffer_length ub)) s;
                       (case transfer of
                          None \<Rightarrow> Some (- ENOMEM, s)
                        | Some t \<Rightarrow> do {
                            tr \<leftarrow> load_trans t s;
                            if t_requested_length tr > VIRTUSB_TRANSFER_DATA_MAX then do {
                              s \<leftarrow> virtusb_transfer_put transfer s;
                              Some (- EMSGSIZE, s)
                            }
                            else do {
                              (ret, s) \<leftarrow> virtusb_backend_submit req_mem link_ret (Some h) hcd urb transfer s;
                              s \<leftarrow> virtusb_transfer_put transfer s;
                              Some (ret, s)
                            }
                          })
                     }
                   }
                 })
             })
        }
      | _ \<Rightarrow> Some (- EINVAL, s))"

definition virtusb_hcd_urb_dequeue ::
  "int \<Rightarrow> nat option \<Rightarrow> nat option \<Rightarrow> int \<Rightarrow> 'a kback_scheme \<Rightarrow> (int \<times> 'a kback_scheme) option" where
  "virtusb_hcd_urb_dequeue check_ret hcd urb status s =
     (case (hcd, urb) of
        (Some h, Some u) \<Rightarrow> virtusb_backend_cancel check_ret (Some h) hcd urb status s
      | _ \<Rightarrow> Some (- EINVAL, s))"

end
