(* ===== verification/Virtusb_Control.thy ===== *)
theory Virtusb_Control
  imports Virtusb_Hcd
begin

text \<open>
  The user-space control plane of \<open>kernel/src/virtusb_control.c\<close>: the character device of each
  host controller, its open files and its ioctls. The address of a controller also names the
  \<open>struct virtusb_control\<close> embedded in it; the address of an open file names the \<open>struct file\<close>.
\<close>

section \<open>State\<close>

record virtusb_control =
  ctl_hcd :: "nat option"
  ctl_device :: "nat option"
  ctl_devt :: u32
  ctl_active :: bool

record virtusb_hcd =
  vh_instance :: u32
  vh_linux_hcd :: "nat option"
  vh_control :: virtusb_control

text \<open>The context allocated by \<open>open\<close> is owned by its file and is a part of it here.\<close>

record virtusb_control_file =
  cf_control :: "nat option"

record kfile =
  file_private :: "virtusb_control_file option"
  file_nonblock :: bool

text \<open>
  Below the file-level statics: what the driver has registered with the character-device and
  class layers of Linux and not yet unregistered.
\<close>

record khcd = kback +
  hcds :: "nat \<Rightarrow> virtusb_hcd option"
  files :: "nat \<Rightarrow> kfile option"
  virtusb_control_base_devt :: u32
  virtusb_control_class :: "nat option"
  virtusb_control_instance_count :: u32
  chrdev_regions :: "(u32 \<times> u32) list"
  classes :: "nat list"
  cdevs :: "u32 list"
  class_devices :: "u32 list"

definition load_hcd :: "nat \<Rightarrow> 'a khcd_scheme \<Rightarrow> virtusb_hcd option" where
  "load_hcd h s = hcds s h"

definition put_hcd :: "nat \<Rightarrow> virtusb_hcd \<Rightarrow> 'a khcd_scheme \<Rightarrow> 'a khcd_scheme" where
  "put_hcd h v s = s\<lparr>hcds := (hcds s)(h \<mapsto> v)\<rparr>"

definition store_hcd :: "nat \<Rightarrow> virtusb_hcd \<Rightarrow> 'a khcd_scheme \<Rightarrow> 'a khcd_scheme option" where
  "store_hcd h v s = (if load_hcd h s = None then None else Some (put_hcd h v s))"

definition modify_control ::
  "nat \<Rightarrow> (virtusb_control \<Rightarrow> virtusb_control) \<Rightarrow> 'a khcd_scheme \<Rightarrow> 'a khcd_scheme option" where
  "modify_control h f = modify_at load_hcd store_hcd h (\<lambda>v. v\<lparr>vh_control := f (vh_control v)\<rparr>)"

lemma load_put_hcd [simp]: "load_hcd g (put_hcd h v s) = (if g = h then Some v else load_hcd g s)"
  by (simp add: load_hcd_def put_hcd_def)

interpretation hcd_mem: memory load_hcd store_hcd
  by unfold_locales (auto simp: store_hcd_def split: if_splits)

lemma modify_control_alloc [simp]:
  "load_hcd h s = Some v \<Longrightarrow> modify_control h f s = Some (put_hcd h (v\<lparr>vh_control := f (vh_control v)\<rparr>) s)"
  by (simp add: modify_control_def modify_at_def store_hcd_def)

definition load_file :: "nat \<Rightarrow> 'a khcd_scheme \<Rightarrow> kfile option" where
  "load_file f s = files s f"

definition put_file :: "nat \<Rightarrow> kfile \<Rightarrow> 'a khcd_scheme \<Rightarrow> 'a khcd_scheme" where
  "put_file f v s = s\<lparr>files := (files s)(f \<mapsto> v)\<rparr>"

definition store_file :: "nat \<Rightarrow> kfile \<Rightarrow> 'a khcd_scheme \<Rightarrow> 'a khcd_scheme option" where
  "store_file f v s = (if load_file f s = None then None else Some (put_file f v s))"

abbreviation modify_file :: "nat \<Rightarrow> (kfile \<Rightarrow> kfile) \<Rightarrow> 'a khcd_scheme \<Rightarrow> 'a khcd_scheme option" where
  "modify_file \<equiv> modify_at load_file store_file"

lemma load_put_file [simp]: "load_file g (put_file f v s) = (if g = f then Some v else load_file g s)"
  by (simp add: load_file_def put_file_def)

interpretation file_mem: memory load_file store_file
  by unfold_locales (auto simp: store_file_def split: if_splits)

lemma modify_file_alloc [simp]: "load_file f s = Some v \<Longrightarrow> modify_file f g s = Some (put_file f (g v) s)"
  by (simp add: modify_at_def store_file_def)

text \<open>
  The user memory at the argument of an ioctl: what reading it as each request struct yields,
  \<^const>\<open>None\<close> where the copy fails, and whether it can be written. What the driver writes
  there is the struct in the result; a copy that fails writes nothing the model keeps.
\<close>

record user_memory =
  um_port_status :: "virtusb_port_status option"
  um_device_create :: "virtusb_device_create_request option"
  um_device_destroy :: "virtusb_device_destroy_request option"
  um_device_attach :: "virtusb_device_attach_request option"
  um_device_object :: "virtusb_device_object_request option"
  um_device_connection :: "virtusb_device_connection_request option"
  um_port_power :: "virtusb_port_power_request option"
  um_backend_register :: "virtusb_backend_register_request option"
  um_transfer_complete :: "virtusb_transfer_complete_request option"
  um_writable :: bool

datatype user_struct =
    User_port_status virtusb_port_status
  | User_device_create virtusb_device_create_request
  | User_transfer_fetch virtusb_transfer_fetch

section \<open>Port state\<close>

definition virtusb_control_state_test :: "u32 \<Rightarrow> u32 \<Rightarrow> bool" where
  "virtusb_control_state_test state port \<longleftrightarrow> state AND BIT port \<noteq> 0"

definition virtusb_control_build_port_state :: "nat \<Rightarrow> u32 \<Rightarrow> 'a topo_scheme \<Rightarrow> virtusb_port_state option" where
  "virtusb_control_build_port_state h port s = do {
     hb \<leftarrow> load_hub h s;
     let status = 0;
     connected \<leftarrow> (if port > 0 then virtusb_hub_port_is_connected (Some h) port s else Some False);
     let status = (if connected then status OR VIRTUSB_PORT_STATUS_CONNECTED else status);
     let status = (if virtusb_control_state_test (usb_enabled (hub_usb hb)) port
                   then status OR VIRTUSB_PORT_STATUS_ENABLED else status);
     let status = (if virtusb_control_state_test (usb_suspended (hub_usb hb)) port
                   then status OR VIRTUSB_PORT_STATUS_SUSPENDED else status);
     over_current \<leftarrow> (if port = 0 then virtusb_hub_is_over_current (Some h) s
                      else virtusb_hub_port_is_over_current (Some h) port s);
     let status = (if over_current then status OR VIRTUSB_PORT_STATUS_OVER_CURRENT else status);
     let status = (if virtusb_control_state_test (usb_reset (hub_usb hb)) port
                   then status OR VIRTUSB_PORT_STATUS_RESET else status);
     powered \<leftarrow> (if port > 0 then virtusb_hub_port_is_powered (Some h) port s else Some False);
     let status = (if powered then status OR VIRTUSB_PORT_STATUS_POWER else status);
     let c = hub_usb_change hb;
     let change = 0;
     let change = (if virtusb_control_state_test (chg_connected c) port
                   then change OR VIRTUSB_PORT_CHANGE_CONNECTED else change);
     let change = (if virtusb_control_state_test (chg_enabled c) port
                   then change OR VIRTUSB_PORT_CHANGE_ENABLED else change);
     let change = (if virtusb_control_state_test (chg_suspended c) port
                   then change OR VIRTUSB_PORT_CHANGE_SUSPENDED else change);
     let change = (if virtusb_control_state_test (chg_over_current c) port
                   then change OR VIRTUSB_PORT_CHANGE_OVER_CURRENT else change);
     let change = (if virtusb_control_state_test (chg_reset c) port
                   then change OR VIRTUSB_PORT_CHANGE_RESET else change);
     if port = 0
     then Some \<lparr>ps_status = status, ps_change = change, ps_speed = speed_code VIRTUSB_PORT_SPEED_NONE\<rparr>
     else do {
       speed \<leftarrow> virtusb_hub_get_port_speed (Some h) port s;
       Some \<lparr>ps_status = status, ps_change = change, ps_speed = speed_code speed\<rparr>
     }
   }"

text \<open>The loop that fills \<open>request.ports\<close>; writing past its end is a fault.\<close>

fun build_port_states ::
  "nat \<Rightarrow> nat list \<Rightarrow> virtusb_port_state list \<Rightarrow> 'a topo_scheme \<Rightarrow> virtusb_port_state list option" where
  "build_port_states h [] states s = Some states"
| "build_port_states h (port # ports) states s = do {
     state \<leftarrow> virtusb_control_build_port_state h (word_of_nat port) s;
     if port - 1 < length states then build_port_states h ports (states[port - 1 := state]) s else None
   }"

definition zero_port_state :: virtusb_port_state where
  "zero_port_state = \<lparr>ps_status = 0, ps_change = 0, ps_speed = 0\<rparr>"

definition virtusb_control_get_port_status ::
  "nat \<Rightarrow> user_memory \<Rightarrow> 'a khcd_scheme \<Rightarrow> (int \<times> user_struct option) option" where
  "virtusb_control_get_port_status control argp s =
     (case um_port_status argp of
        None \<Rightarrow> Some (- EFAULT, None)
      | Some request \<Rightarrow>
          if pst_hub_id request \<noteq> VIRTUSB_ROOT_HUB_ID then Some (- ENODEV, None)
          else do {
            v \<leftarrow> load_hcd control s;
            hub \<leftarrow> ctl_hcd (vh_control v);
            hb \<leftarrow> load_hub hub s;
            if pst_port request > ucast (hub_port_count hb) then Some (- EINVAL, None)
            else do {
              state \<leftarrow> virtusb_control_build_port_state hub (pst_port request) s;
              let ports = replicate VIRTUSB_MAX_HUB_PORTS zero_port_state;
              ports \<leftarrow> (if pst_port request = 0
                        then build_port_states hub [1..<Suc (unat (hub_port_count hb))] ports s
                        else Some ports);
              if \<not> um_writable argp then Some (- EFAULT, None)
              else Some (0, Some (User_port_status (request\<lparr>pst_port_count := ucast (hub_port_count hb),
                             pst_state := state, pst_ports := ports\<rparr>)))
            }
          })"

section \<open>Devices\<close>

definition virtusb_control_speed_caps_valid :: "u32 \<Rightarrow> bool" where
  "virtusb_control_speed_caps_valid speed_caps \<longleftrightarrow>
     speed_caps \<noteq> 0 \<and> speed_caps AND NOT VIRTUSB_SPEED_CAP_ALL = 0"

definition virtusb_control_device_create ::
  "bool \<Rightarrow> bool \<Rightarrow> user_memory \<Rightarrow> 'a khcd_scheme \<Rightarrow> (int \<times> user_struct option \<times> 'a khcd_scheme) option" where
  "virtusb_control_device_create mem xa_mem argp s =
     (case um_device_create argp of
        None \<Rightarrow> Some (- EFAULT, None, s)
      | Some request \<Rightarrow>
          if \<not> virtusb_control_speed_caps_valid (dc_speed_caps request) then Some (- EINVAL, None, s)
          else do {
            (device, s) \<leftarrow> virtusb_device_create mem xa_mem (ucast (dc_speed_caps request)) s;
            (case device of
               Inl e \<Rightarrow> Some (e, None, s)
             | Inr d \<Rightarrow> do {
                 ob \<leftarrow> load_obj d s;
                 if \<not> um_writable argp then do {
                   (_, s) \<leftarrow> virtusb_device_destroy (Some d) True s;
                   s \<leftarrow> virtusb_object_put (Some d) s;
                   Some (- EFAULT, None, s)
                 }
                 else do {
                   s \<leftarrow> virtusb_object_put (Some d) s;
                   Some (0, Some (User_device_create (request\<lparr>dc_object_id := obj_id ob\<rparr>)), s)
                 }
               })
          })"

definition virtusb_control_device_destroy ::
  "user_memory \<Rightarrow> 'a khcd_scheme \<Rightarrow> (int \<times> 'a khcd_scheme) option" where
  "virtusb_control_device_destroy argp s =
     (case um_device_destroy argp of
        None \<Rightarrow> Some (- EFAULT, s)
      | Some request \<Rightarrow>
          if dd_object_id request = VIRTUSB_OBJECT_ID_INVALID \<or>
             dd_flags request AND NOT VIRTUSB_DEVICE_DESTROY_FLAGS \<noteq> 0
          then Some (- EINVAL, s)
          else do {
            (object, s) \<leftarrow> virtusb_object_lookup (dd_object_id request) s;
            (case object of
               None \<Rightarrow> Some (- ENOENT, s)
             | Some d \<Rightarrow> do {
                 ob \<leftarrow> load_obj d s;
                 if obj_type ob \<noteq> VIRTUSB_OBJECT_TYPE_DEVICE then do {
                   s \<leftarrow> virtusb_object_put (Some d) s;
                   Some (- EINVAL, s)
                 }
                 else do {
                   let force = (dd_flags request AND VIRTUSB_DEVICE_DESTROY_FORCE \<noteq> 0);
                   (ret, s) \<leftarrow> virtusb_device_destroy (Some d) force s;
                   s \<leftarrow> virtusb_object_put (Some d) s;
                   Some (ret, s)
                 }
               })
          })"

text \<open>
  The out parameter of \<open>virtusb_control_lookup_device\<close> is the object embedded in the device it
  returns, at the same address.
\<close>

definition virtusb_control_lookup_device ::
  "u32 \<Rightarrow> 'a khcd_scheme \<Rightarrow> ((int + nat) \<times> 'a khcd_scheme) option" where
  "virtusb_control_lookup_device object_id s =
     (if object_id = VIRTUSB_OBJECT_ID_INVALID then Some (Inl (- EINVAL), s)
      else do {
        (lookup, s) \<leftarrow> virtusb_object_lookup object_id s;
        (case lookup of
           None \<Rightarrow> Some (Inl (- ENOENT), s)
         | Some d \<Rightarrow> do {
             ob \<leftarrow> load_obj d s;
             if obj_type ob \<noteq> VIRTUSB_OBJECT_TYPE_DEVICE then do {
               s \<leftarrow> virtusb_object_put (Some d) s;
               Some (Inl (- EINVAL), s)
             }
             else Some (Inr d, s)
           })
      })"

definition virtusb_control_get_hub :: "nat option \<Rightarrow> u32 \<Rightarrow> 'a khcd_scheme \<Rightarrow> nat option option" where
  "virtusb_control_get_hub control hub_id s =
     (case control of
        None \<Rightarrow> Some None
      | Some c \<Rightarrow> do {
          v \<leftarrow> load_hcd c s;
          (case ctl_hcd (vh_control v) of
             None \<Rightarrow> Some None
           | Some h \<Rightarrow> if hub_id \<noteq> 0 then Some None else Some (Some h))
        })"

definition virtusb_control_device_attach ::
  "nat option \<Rightarrow> user_memory \<Rightarrow> 'a khcd_scheme \<Rightarrow> (int \<times> 'a khcd_scheme) option" where
  "virtusb_control_device_attach control argp s =
     (case um_device_attach argp of
        None \<Rightarrow> Some (- EFAULT, s)
      | Some request \<Rightarrow> do {
          hub \<leftarrow> virtusb_control_get_hub control (da_hub_id request) s;
          (case hub of
             None \<Rightarrow> Some (- ENOENT, s)
           | Some h \<Rightarrow> do {
               port \<leftarrow> virtusb_hub_get_port (Some h) (da_port request) s;
               (case port of
                  None \<Rightarrow> Some (- EINVAL, s)
                | Some a \<Rightarrow> do {
                    (device, s) \<leftarrow> virtusb_control_lookup_device (da_object_id request) s;
                    (case device of
                       Inl e \<Rightarrow> Some (e, s)
                     | Inr d \<Rightarrow> do {
                         (ret, s) \<leftarrow> virtusb_device_attach (Some d) (Some a) s;
                         s \<leftarrow> virtusb_object_put (Some d) s;
                         Some (ret, s)
                       })
                  })
             })
        })"

definition virtusb_control_device_detach ::
  "user_memory \<Rightarrow> 'a khcd_scheme \<Rightarrow> (int \<times> 'a khcd_scheme) option" where
  "virtusb_control_device_detach argp s =
     (case um_device_object argp of
        None \<Rightarrow> Some (- EFAULT, s)
      | Some request \<Rightarrow> do {
          (device, s) \<leftarrow> virtusb_control_lookup_device (do_object_id request) s;
          (case device of
             Inl e \<Rightarrow> Some (e, s)
           | Inr d \<Rightarrow> do {
               s \<leftarrow> virtusb_device_detach (Some d) s;
               s \<leftarrow> virtusb_object_put (Some d) s;
               Some (0, s)
             })
        })"

definition virtusb_control_device_connection ::
  "user_memory \<Rightarrow> 'a khcd_scheme \<Rightarrow> (int \<times> 'a khcd_scheme) option" where
  "virtusb_control_device_connection argp s =
     (case um_device_connection argp of
        None \<Rightarrow> Some (- EFAULT, s)
      | Some request \<Rightarrow>
          if dn_enabled request > 1 then Some (- EINVAL, s)
          else do {
            (device, s) \<leftarrow> virtusb_control_lookup_device (dn_object_id request) s;
            (case device of
               Inl e \<Rightarrow> Some (e, s)
             | Inr d \<Rightarrow> do {
                 (ret, s) \<leftarrow> virtusb_device_set_connection_signaling (Some d) (dn_enabled request \<noteq> 0) s;
                 s \<leftarrow> virtusb_object_put (Some d) s;
                 Some (ret, s)
               })
          })"

definition virtusb_control_set_port_power ::
  "nat option \<Rightarrow> user_memory \<Rightarrow> 'a khcd_scheme \<Rightarrow> (int \<times> 'a khcd_scheme) option" where
  "virtusb_control_set_port_power control argp s =
     (case um_port_power argp of
        None \<Rightarrow> Some (- EFAULT, s)
      | Some request \<Rightarrow>
          if pp_powered request > 1 then Some (- EINVAL, s)
          else do {
            hub \<leftarrow> virtusb_control_get_hub control (pp_hub_id request) s;
            (case hub of
               None \<Rightarrow> Some (- ENOENT, s)
             | Some h \<Rightarrow> virtusb_hub_set_port_power (Some h) (pp_port request) (pp_powered request \<noteq> 0) s)
          })"

section \<open>Transfers\<close>

definition virtusb_control_backend_register ::
  "bool \<Rightarrow> nat \<Rightarrow> nat \<Rightarrow> user_memory \<Rightarrow> 'a khcd_scheme \<Rightarrow> (int \<times> 'a khcd_scheme) option" where
  "virtusb_control_backend_register mem file control argp s =
     (case um_backend_register argp of
        None \<Rightarrow> Some (- EFAULT, s)
      | Some request \<Rightarrow> do {
          (device, s) \<leftarrow> virtusb_control_lookup_device (br_object_id request) s;
          (case device of
             Inl e \<Rightarrow> Some (e, s)
           | Inr d \<Rightarrow> do {
               up \<leftarrow> load_port (Dev_port d) s;
               elsewhere \<leftarrow> (case p_peer up of
                  None \<Rightarrow> Some True
                | Some peer \<Rightarrow> do {
                    down \<leftarrow> load_port peer s;
                    v \<leftarrow> load_hcd control s;
                    hub \<leftarrow> ctl_hcd (vh_control v);
                    Some (p_owner down \<noteq> Some (Own_hub hub))
                  });
               if elsewhere then do {
                 s \<leftarrow> virtusb_object_put (Some d) s;
                 Some (- ENODEV, s)
               }
               else do {
                 v \<leftarrow> load_hcd control s;
                 (ret, s) \<leftarrow> virtusb_backend_register mem (ctl_hcd (vh_control v)) (Some file) (Some d) s;
                 s \<leftarrow> virtusb_object_put (Some d) s;
                 Some (ret, s)
               }
             })
        })"

text \<open>The result is \<^const>\<open>None\<close> while the call sleeps.\<close>

definition virtusb_control_transfer_fetch ::
  "bool \<Rightarrow> (int \<times> ('a khcd_scheme \<Rightarrow> 'a khcd_scheme)) list \<Rightarrow> nat \<Rightarrow> nat \<Rightarrow> user_memory \<Rightarrow> 'a khcd_scheme
     \<Rightarrow> ((int \<times> user_struct option) option \<times> 'a khcd_scheme) option" where
  "virtusb_control_transfer_fetch mem waits file control argp s =
     (if \<not> mem then Some (Some (- ENOMEM, None), s)
      else do {
        v \<leftarrow> load_hcd control s;
        fl \<leftarrow> load_file file s;
        (result, s) \<leftarrow> virtusb_backend_fetch (ctl_hcd (vh_control v)) (Some file) (Some zero_fetch)
                        (file_nonblock fl) waits s;
        (case result of
           None \<Rightarrow> Some (None, s)
         | Some (ret, fetch) \<Rightarrow>
             if ret < 0 then Some (Some (ret, None), s)
             else do {
               fetch \<leftarrow> fetch;
               if \<not> um_writable argp then do {
                 v \<leftarrow> load_hcd control s;
                 (_, s) \<leftarrow> virtusb_backend_fetch_rollback (ctl_hcd (vh_control v)) (Some file) (tf_transfer_id fetch) s;
                 Some (Some (- EFAULT, None), s)
               }
               else Some (Some (0, Some (User_transfer_fetch fetch)), s)
             })
      })"

definition virtusb_control_transfer_complete ::
  "bool \<Rightarrow> nat \<Rightarrow> nat \<Rightarrow> user_memory \<Rightarrow> 'a khcd_scheme \<Rightarrow> (int \<times> 'a khcd_scheme) option" where
  "virtusb_control_transfer_complete mem file control argp s =
     (if \<not> mem then Some (- ENOMEM, s)
      else (case um_transfer_complete argp of
        None \<Rightarrow> Some (- EFAULT, s)
      | Some completion \<Rightarrow> do {
          v \<leftarrow> load_hcd control s;
          hcd \<leftarrow> ctl_hcd (vh_control v);
          vh \<leftarrow> load_hcd hcd s;
          virtusb_backend_complete (Some hcd) (vh_linux_hcd vh) (Some file) (Some completion) s
        }))"

section \<open>File operations\<close>

text \<open>What \<open>file->private_data\<close> leads to: the control instance, unless it is gone.\<close>

definition file_control :: "nat \<Rightarrow> 'a khcd_scheme \<Rightarrow> nat option option" where
  "file_control file s = do {
     fl \<leftarrow> load_file file s;
     Some (case file_private fl of None \<Rightarrow> None | Some context \<Rightarrow> cf_control context)
   }"

text \<open>The test at the start of ioctl and poll.\<close>

definition control_gone :: "nat option \<Rightarrow> 'a khcd_scheme \<Rightarrow> bool option" where
  "control_gone control s =
     (case control of
        None \<Rightarrow> Some True
      | Some c \<Rightarrow> do {
          v \<leftarrow> load_hcd c s;
          Some (ctl_hcd (vh_control v) = None \<or> \<not> ctl_active (vh_control v))
        })"

definition virtusb_control_ioctl ::
  "bool \<Rightarrow> bool \<Rightarrow> (int \<times> ('a khcd_scheme \<Rightarrow> 'a khcd_scheme)) list \<Rightarrow> nat \<Rightarrow> u32 \<Rightarrow> user_memory \<Rightarrow> 'a khcd_scheme
     \<Rightarrow> ((int \<times> user_struct option) option \<times> 'a khcd_scheme) option" where
  "virtusb_control_ioctl mem xa_mem waits file command argp s = do {
     control \<leftarrow> file_control file s;
     gone \<leftarrow> control_gone control s;
     if gone then Some (Some (- ENODEV, None), s)
     else do {
       c \<leftarrow> control;
       let simple = (\<lambda>m. do { (ret, s) \<leftarrow> m; Some (Some (ret :: int, None), s) });
       if command = VIRTUSB_IOCTL_GET_PORT_STATUS then do {
         (ret, out) \<leftarrow> virtusb_control_get_port_status c argp s;
         Some (Some (ret, out), s)
       }
       else if command = VIRTUSB_IOCTL_DEVICE_CREATE then do {
         (ret, out, s) \<leftarrow> virtusb_control_device_create mem xa_mem argp s;
         Some (Some (ret, out), s)
       }
       else if command = VIRTUSB_IOCTL_DEVICE_DESTROY then simple (virtusb_control_device_destroy argp s)
       else if command = VIRTUSB_IOCTL_DEVICE_ATTACH then simple (virtusb_control_device_attach control argp s)
       else if command = VIRTUSB_IOCTL_DEVICE_DETACH then simple (virtusb_control_device_detach argp s)
       else if command = VIRTUSB_IOCTL_DEVICE_CONNECTION then simple (virtusb_control_device_connection argp s)
       else if command = VIRTUSB_IOCTL_SET_PORT_POWER then simple (virtusb_control_set_port_power control argp s)
       else if command = VIRTUSB_IOCTL_BACKEND_REGISTER then
         simple (virtusb_control_backend_register mem file c argp s)
       else if command = VIRTUSB_IOCTL_BACKEND_UNREGISTER then do {
         v \<leftarrow> load_hcd c s;
         hcd \<leftarrow> ctl_hcd (vh_control v);
         vh \<leftarrow> load_hcd hcd s;
         s \<leftarrow> virtusb_backend_release_owner (Some hcd) (vh_linux_hcd vh) (Some file) s;
         Some (Some (0, None), s)
       }
       else if command = VIRTUSB_IOCTL_TRANSFER_FETCH then
         virtusb_control_transfer_fetch mem waits file c argp s
       else if command = VIRTUSB_IOCTL_TRANSFER_COMPLETE then
         simple (virtusb_control_transfer_complete mem file c argp s)
       else Some (Some (- ENOTTY, None), s)
     }
   }"

text \<open>The inode's \<open>cdev\<close> is embedded in the control instance of the controller \<open>c\<close>.\<close>

definition virtusb_control_open :: "bool \<Rightarrow> nat \<Rightarrow> nat \<Rightarrow> 'a khcd_scheme \<Rightarrow> (int \<times> 'a khcd_scheme) option" where
  "virtusb_control_open mem c file s =
     (if \<not> mem then Some (- ENOMEM, s)
      else do {
        s \<leftarrow> modify_file file (\<lambda>fl. fl\<lparr>file_private := Some \<lparr>cf_control = Some c\<rparr>\<rparr>) s;
        Some (0, s)
      })"

definition virtusb_control_release :: "nat \<Rightarrow> 'a khcd_scheme \<Rightarrow> (int \<times> 'a khcd_scheme) option" where
  "virtusb_control_release file s = do {
     control \<leftarrow> file_control file s;
     s \<leftarrow> (case control of
           None \<Rightarrow> Some s
         | Some c \<Rightarrow> do {
             v \<leftarrow> load_hcd c s;
             (case ctl_hcd (vh_control v) of
                None \<Rightarrow> Some s
              | Some hcd \<Rightarrow> do {
                  vh \<leftarrow> load_hcd hcd s;
                  virtusb_backend_release_owner (Some hcd) (vh_linux_hcd vh) (Some file) s
                })
           });
     s \<leftarrow> modify_file file (\<lambda>fl. fl\<lparr>file_private := None\<rparr>) s;
     Some (0, s)
   }"

abbreviation (input) EPOLLIN :: u32 where "EPOLLIN \<equiv> 0x0001"
abbreviation (input) EPOLLERR :: u32 where "EPOLLERR \<equiv> 0x0008"
abbreviation (input) EPOLLHUP :: u32 where "EPOLLHUP \<equiv> 0x0010"
abbreviation (input) EPOLLRDNORM :: u32 where "EPOLLRDNORM \<equiv> 0x0040"

definition virtusb_control_poll :: "nat \<Rightarrow> 'a khcd_scheme \<Rightarrow> u32 option" where
  "virtusb_control_poll file s = do {
     control \<leftarrow> file_control file s;
     gone \<leftarrow> control_gone control s;
     if gone then Some (EPOLLERR OR EPOLLHUP)
     else do {
       c \<leftarrow> control;
       v \<leftarrow> load_hcd c s;
       pending \<leftarrow> virtusb_backend_has_pending (ctl_hcd (vh_control v)) (Some file) s;
       Some (if pending then 0 OR (EPOLLIN OR EPOLLRDNORM) else 0)
     }
   }"

section \<open>The character devices\<close>

text \<open>
  What Linux answers is an argument: the device number or the error of \<open>alloc_chrdev_region\<close>, the
  class or the error of \<open>class_create\<close>, the result of \<open>cdev_add\<close>, the device or the error of
  \<open>device_create\<close>. Unregistering what is not registered leaves the lists as they are.
\<close>

definition alloc_chrdev_region :: "int + u32 \<Rightarrow> u32 \<Rightarrow> 'a khcd_scheme \<Rightarrow> int \<times> 'a khcd_scheme" where
  "alloc_chrdev_region answer count s =
     (case answer of
        Inl e \<Rightarrow> (e, s)
      | Inr devt \<Rightarrow> (0, s\<lparr>virtusb_control_base_devt := devt, chrdev_regions := (devt, count) # chrdev_regions s\<rparr>))"

definition unregister_chrdev_region :: "u32 \<Rightarrow> u32 \<Rightarrow> 'a khcd_scheme \<Rightarrow> 'a khcd_scheme" where
  "unregister_chrdev_region devt count s = s\<lparr>chrdev_regions := remove1 (devt, count) (chrdev_regions s)\<rparr>"

definition virtusb_control_register ::
  "int + u32 \<Rightarrow> int + nat \<Rightarrow> u32 \<Rightarrow> 'a khcd_scheme \<Rightarrow> int \<times> 'a khcd_scheme" where
  "virtusb_control_register region_answer class_answer instance_count s =
     (if instance_count = 0 then (- EINVAL, s)
      else if virtusb_control_class s \<noteq> None then (- EBUSY, s)
      else (case alloc_chrdev_region region_answer instance_count s of (ret, s) \<Rightarrow>
        if ret < 0 then (ret, s)
        else (case class_answer of
          Inl e \<Rightarrow>
            let s = s\<lparr>virtusb_control_class := None\<rparr>;
                s = unregister_chrdev_region (virtusb_control_base_devt s) instance_count s
            in (e, s\<lparr>virtusb_control_base_devt := 0\<rparr>)
        | Inr cl \<Rightarrow>
            (0, s\<lparr>virtusb_control_class := Some cl, classes := cl # classes s,
                  virtusb_control_instance_count := instance_count\<rparr>))))"

definition virtusb_control_unregister :: "'a khcd_scheme \<Rightarrow> 'a khcd_scheme" where
  "virtusb_control_unregister s =
     (case virtusb_control_class s of
        None \<Rightarrow> s
      | Some cl \<Rightarrow>
          let s = s\<lparr>classes := remove1 cl (classes s), virtusb_control_class := None\<rparr>;
              s = unregister_chrdev_region (virtusb_control_base_devt s) (virtusb_control_instance_count s) s
          in s\<lparr>virtusb_control_base_devt := 0, virtusb_control_instance_count := 0\<rparr>)"

definition MAJOR :: "u32 \<Rightarrow> u32" where "MAJOR devt = drop_bit 20 devt"
definition MINOR :: "u32 \<Rightarrow> u32" where "MINOR devt = take_bit 20 devt"
definition MKDEV :: "u32 \<Rightarrow> u32 \<Rightarrow> u32" where "MKDEV ma mi = push_bit 20 ma OR mi"

definition zero_control :: virtusb_control where
  "zero_control = \<lparr>ctl_hcd = None, ctl_device = None, ctl_devt = 0, ctl_active = False\<rparr>"

definition virtusb_control_instance_create ::
  "int \<Rightarrow> int + nat \<Rightarrow> nat option \<Rightarrow> nat option \<Rightarrow> nat option \<Rightarrow> u32 \<Rightarrow> 'a khcd_scheme
     \<Rightarrow> (int \<times> 'a khcd_scheme) option" where
  "virtusb_control_instance_create cdev_ret device_answer control hcd parent inst s =
     (case (control, hcd, parent) of
        (Some c, Some _, Some _) \<Rightarrow>
          if virtusb_control_class s = None then Some (- ENODEV, s)
          else if inst \<ge> virtusb_control_instance_count s then Some (- EINVAL, s)
          else do {
            let devt = MKDEV (MAJOR (virtusb_control_base_devt s)) (MINOR (virtusb_control_base_devt s) + inst);
            s \<leftarrow> modify_control c (\<lambda>_. zero_control\<lparr>ctl_hcd := hcd, ctl_devt := devt\<rparr>) s;
            if cdev_ret < 0 then do {
              s \<leftarrow> modify_control c (\<lambda>ct. ct\<lparr>ctl_hcd := None, ctl_devt := 0\<rparr>) s;
              Some (cdev_ret, s)
            }
            else do {
              let s = s\<lparr>cdevs := devt # cdevs s\<rparr>;
              (case device_answer of
                 Inl e \<Rightarrow> do {
                   s \<leftarrow> modify_control c (\<lambda>ct. ct\<lparr>ctl_device := None\<rparr>) s;
                   let s = s\<lparr>cdevs := remove1 devt (cdevs s)\<rparr>;
                   s \<leftarrow> modify_control c (\<lambda>ct. ct\<lparr>ctl_hcd := None, ctl_devt := 0\<rparr>) s;
                   Some (e, s)
                 }
               | Inr dev \<Rightarrow> do {
                   let s = s\<lparr>class_devices := devt # class_devices s\<rparr>;
                   s \<leftarrow> modify_control c (\<lambda>ct. ct\<lparr>ctl_device := Some dev\<rparr>) s;
                   s \<leftarrow> modify_control c (\<lambda>ct. ct\<lparr>ctl_active := True\<rparr>) s;
                   Some (0, s)
                 })
            }
          }
      | _ \<Rightarrow> Some (- EINVAL, s))"

definition virtusb_control_instance_destroy :: "nat option \<Rightarrow> 'a khcd_scheme \<Rightarrow> 'a khcd_scheme option" where
  "virtusb_control_instance_destroy control s =
     (case control of
        None \<Rightarrow> Some s
      | Some c \<Rightarrow> do {
          v \<leftarrow> load_hcd c s;
          if \<not> ctl_active (vh_control v) then Some s
          else do {
            s \<leftarrow> modify_control c (\<lambda>ct. ct\<lparr>ctl_active := False\<rparr>) s;
            let devt = ctl_devt (vh_control v);
            let s = s\<lparr>class_devices := remove1 devt (class_devices s)\<rparr>;
            s \<leftarrow> modify_control c (\<lambda>ct. ct\<lparr>ctl_device := None\<rparr>) s;
            let s = s\<lparr>cdevs := remove1 devt (cdevs s)\<rparr>;
            modify_control c (\<lambda>ct. ct\<lparr>ctl_hcd := None, ctl_devt := 0\<rparr>) s
          }
        })"

end
