(* ===== verification/Virtusb_Platform.thy ===== *)
theory Virtusb_Platform
  imports Virtusb_Control
begin

text \<open>
  The platform driver of \<open>kernel/src/virtusb_hcd.c\<close> and the module of
  \<open>kernel/src/virtusb_module.c\<close>: how controllers come and go. What Linux answers, and what it does
  to the state while it adds or removes a host controller, are arguments.
\<close>

section \<open>State\<close>

text \<open>
  A platform device with its ID, a copy of its platform data (the port count) and its driver
  data; Linux calls the \<open>remove\<close> of the devices whose \<open>probe\<close> succeeded.
\<close>

record platform_device =
  pdev_id :: u32
  pdev_port_count :: "u32 option"
  pdev_drvdata :: "nat option"
  pdev_bound :: bool

record kplat = khcd +
  pdevs :: "nat \<Rightarrow> platform_device option"
  hcd_has_tt :: "nat \<Rightarrow> bool"
  driver_registered :: bool

definition load_pdev :: "nat \<Rightarrow> 'a kplat_scheme \<Rightarrow> platform_device option" where
  "load_pdev p s = pdevs s p"

definition put_pdev :: "nat \<Rightarrow> platform_device \<Rightarrow> 'a kplat_scheme \<Rightarrow> 'a kplat_scheme" where
  "put_pdev p v s = s\<lparr>pdevs := (pdevs s)(p \<mapsto> v)\<rparr>"

definition store_pdev :: "nat \<Rightarrow> platform_device \<Rightarrow> 'a kplat_scheme \<Rightarrow> 'a kplat_scheme option" where
  "store_pdev p v s = (if load_pdev p s = None then None else Some (put_pdev p v s))"

abbreviation modify_pdev ::
  "nat \<Rightarrow> (platform_device \<Rightarrow> platform_device) \<Rightarrow> 'a kplat_scheme \<Rightarrow> 'a kplat_scheme option" where
  "modify_pdev \<equiv> modify_at load_pdev store_pdev"

lemma load_put_pdev [simp]: "load_pdev q (put_pdev p v s) = (if q = p then Some v else load_pdev q s)"
  by (simp add: load_pdev_def put_pdev_def)

interpretation pdev_mem: memory load_pdev store_pdev
  by unfold_locales (auto simp: store_pdev_def split: if_splits)

lemma modify_pdev_alloc [simp]: "load_pdev p s = Some v \<Longrightarrow> modify_pdev p f s = Some (put_pdev p (f v) s)"
  by (simp add: modify_at_def store_pdev_def)

text \<open>
  What Linux answers when a controller is created: the address of the new platform device, the
  results of adding its data and of adding it, the address of the new \<open>struct usb_hcd\<close> (whose
  private area is the \<open>struct virtusb_hcd\<close>), what \<open>usb_add_hcd\<close> does and returns, and the
  answers of the character-device layer. What \<open>usb_remove_hcd\<close> does is an argument too.
\<close>

record 's hcd_answers =
  ans_pdev :: "nat option"
  ans_add_data :: int
  ans_device_add :: int
  ans_hcd :: "nat option"
  ans_add_hcd :: "nat \<Rightarrow> 's \<Rightarrow> int \<times> 's"
  ans_cdev :: int
  ans_device :: "int + nat"

text \<open>The private area of a new \<open>struct usb_hcd\<close> is zeroed; the last put frees it.\<close>

definition zero_hcd :: virtusb_hcd where
  "zero_hcd = \<lparr>vh_instance = 0, vh_linux_hcd = None, vh_control = zero_control\<rparr>"

definition zero_backend :: virtusb_backend where
  "zero_backend = \<lparr>bindings = [], pending = [], active = [], stopping = False\<rparr>"

definition usb_create_hcd :: "nat option \<Rightarrow> 'a kplat_scheme \<Rightarrow> nat option \<times> 'a kplat_scheme" where
  "usb_create_hcd answer s =
     (case answer of
        None \<Rightarrow> (None, s)
      | Some h \<Rightarrow> (Some h, put_hcd h zero_hcd (put_back h zero_backend (put_hub h zero_hub s))))"

definition usb_put_hcd :: "nat \<Rightarrow> 'a kplat_scheme \<Rightarrow> 'a kplat_scheme" where
  "usb_put_hcd h s = s\<lparr>hcds := (hcds s)(h := None), backends := (backends s)(h := None), hubs := (hubs s)(h := None)\<rparr>"

definition usb_hcd_poll_rh_status :: "nat \<Rightarrow> 'a topo_scheme \<Rightarrow> 'a topo_scheme" where
  "usb_hcd_poll_rh_status h s = log_event (Poll_rh_status h) s"

section \<open>Probe and remove\<close>

definition virtusb_hcd_platform_probe ::
  "(nat \<Rightarrow> 'a kplat_scheme \<Rightarrow> 'a kplat_scheme) \<Rightarrow> 
     ('a kplat_scheme) hcd_answers \<Rightarrow> nat \<Rightarrow> 'a kplat_scheme \<Rightarrow> (int \<times> 'a kplat_scheme) option" where
  "virtusb_hcd_platform_probe usb_remove_hcd ans p s = do {
     pdev \<leftarrow> load_pdev p s;
     (case pdev_port_count pdev of
        None \<Rightarrow> Some (- EINVAL, s)
      | Some port_count \<Rightarrow>
          if port_count = 0 \<or> port_count > VIRTUSB_MAX_HUB_PORTS then Some (- EINVAL, s)
          else (case usb_create_hcd (ans_hcd ans) s of
            (None, s) \<Rightarrow> Some (- ENOMEM, s)
          | (Some h, s) \<Rightarrow> do {
              v \<leftarrow> load_hcd h s;
              s \<leftarrow> store_hcd h (v\<lparr>vh_instance := pdev_id pdev, vh_linux_hcd := Some h\<rparr>) s;
              let s = s\<lparr>hcd_has_tt := (hcd_has_tt s)(h := True)\<rparr>;
              s \<leftarrow> virtusb_backend_init h s;
              (ret, s) \<leftarrow> virtusb_root_hub_init (Some h) port_count s;
              if ret < 0 then Some (ret, usb_put_hcd h s)
              else do {
                s \<leftarrow> modify_pdev p (\<lambda>d. d\<lparr>pdev_drvdata := Some h\<rparr>) s;
                let (ret, s) = ans_add_hcd ans h s;
                if ret < 0 then do {
                  s \<leftarrow> modify_pdev p (\<lambda>d. d\<lparr>pdev_drvdata := None\<rparr>) s;
                  Some (ret, usb_put_hcd h s)
                }
                else do {
                  s \<leftarrow> virtusb_hub_set_status_changed_callback (Some h)
                         (Some Virtusb_hcd_root_hub_status_changed) (Some h) s;
                  let s = usb_hcd_poll_rh_status h s;
                  v \<leftarrow> load_hcd h s;
                  (ret, s) \<leftarrow> virtusb_control_instance_create (ans_cdev ans) (ans_device ans)
                                (Some h) (Some h) (Some p) (vh_instance v) s;
                  if ret < 0 then do {
                    let s = usb_remove_hcd h s;
                    s \<leftarrow> modify_pdev p (\<lambda>d. d\<lparr>pdev_drvdata := None\<rparr>) s;
                    Some (ret, usb_put_hcd h s)
                  }
                  else Some (0, s)
                }
              }
            }))
   }"

definition virtusb_hcd_platform_remove ::
  "(nat \<Rightarrow> 'a kplat_scheme \<Rightarrow> 'a kplat_scheme) \<Rightarrow> nat \<Rightarrow> 'a kplat_scheme \<Rightarrow> 'a kplat_scheme option" where
  "virtusb_hcd_platform_remove usb_remove_hcd p s = do {
     pdev \<leftarrow> load_pdev p s;
     (case pdev_drvdata pdev of
        None \<Rightarrow> Some s
      | Some h \<Rightarrow> do {
          s \<leftarrow> virtusb_control_instance_destroy (Some h) s;
          s \<leftarrow> virtusb_hub_set_status_changed_callback (Some h) None None s;
          s \<leftarrow> virtusb_backend_stop (Some h) (Some h) s;
          let s = usb_remove_hcd h s;
          s \<leftarrow> modify_pdev p (\<lambda>d. d\<lparr>pdev_drvdata := None\<rparr>) s;
          Some (usb_put_hcd h s)
        })
   }"

definition virtusb_hcd_driver_register :: "int \<Rightarrow> 'a kplat_scheme \<Rightarrow> int \<times> 'a kplat_scheme" where
  "virtusb_hcd_driver_register answer s =
     (if answer < 0 then (answer, s) else (0, s\<lparr>driver_registered := True\<rparr>))"

text \<open>Unregistering a driver unbinds its devices; both callers destroyed them before.\<close>

definition virtusb_hcd_driver_unregister :: "'a kplat_scheme \<Rightarrow> 'a kplat_scheme" where
  "virtusb_hcd_driver_unregister s = s\<lparr>driver_registered := False\<rparr>"

section \<open>Platform devices\<close>

definition platform_device_alloc :: "nat option \<Rightarrow> u32 \<Rightarrow> 'a kplat_scheme \<Rightarrow> nat option \<times> 'a kplat_scheme" where
  "platform_device_alloc answer inst s =
     (case answer of
        None \<Rightarrow> (None, s)
      | Some p \<Rightarrow> (Some p, put_pdev p \<lparr>pdev_id = inst, pdev_port_count = None, pdev_drvdata = None, pdev_bound = False\<rparr> s))"

definition platform_device_put :: "nat \<Rightarrow> 'a kplat_scheme \<Rightarrow> 'a kplat_scheme" where
  "platform_device_put p s = s\<lparr>pdevs := (pdevs s)(p := None)\<rparr>"

definition platform_device_add_data ::
  "int \<Rightarrow> nat \<Rightarrow> u32 \<Rightarrow> 'a kplat_scheme \<Rightarrow> (int \<times> 'a kplat_scheme) option" where
  "platform_device_add_data answer p port_count s =
     (if answer < 0 then Some (answer, s)
      else do {
        s \<leftarrow> modify_pdev p (\<lambda>d. d\<lparr>pdev_port_count := Some port_count\<rparr>) s;
        Some (0, s)
      })"

text \<open>Adding a device probes it when the driver is registered; a probe that fails leaves it unbound.\<close>

definition platform_device_add ::
  "(nat \<Rightarrow> 'a kplat_scheme \<Rightarrow> 'a kplat_scheme) \<Rightarrow> 
     ('a kplat_scheme) hcd_answers \<Rightarrow> nat \<Rightarrow> 'a kplat_scheme \<Rightarrow> (int \<times> 'a kplat_scheme) option" where
  "platform_device_add usb_remove_hcd ans p s =
     (if ans_device_add ans < 0 then Some (ans_device_add ans, s)
      else if \<not> driver_registered s then Some (0, s)
      else do {
        (ret, s) \<leftarrow> virtusb_hcd_platform_probe usb_remove_hcd ans p s;
        if ret < 0 then Some (0, s)
        else do {
          s \<leftarrow> modify_pdev p (\<lambda>d. d\<lparr>pdev_bound := True\<rparr>) s;
          Some (0, s)
        }
      })"

definition platform_device_unregister ::
  "(nat \<Rightarrow> 'a kplat_scheme \<Rightarrow> 'a kplat_scheme) \<Rightarrow> nat \<Rightarrow> 'a kplat_scheme \<Rightarrow> 'a kplat_scheme option" where
  "platform_device_unregister usb_remove_hcd p s = do {
     pdev \<leftarrow> load_pdev p s;
     s \<leftarrow> (if pdev_bound pdev then virtusb_hcd_platform_remove usb_remove_hcd p s else Some s);
     Some (platform_device_put p s)
   }"

definition virtusb_hcd_create ::
  "(nat \<Rightarrow> 'a kplat_scheme \<Rightarrow> 'a kplat_scheme) \<Rightarrow> 
     ('a kplat_scheme) hcd_answers \<Rightarrow> u32 \<Rightarrow> u32 \<Rightarrow> 'a kplat_scheme \<Rightarrow> ((int + nat) \<times> 'a kplat_scheme) option" where
  "virtusb_hcd_create usb_remove_hcd ans inst port_count s =
     (if port_count = 0 \<or> port_count > VIRTUSB_MAX_HUB_PORTS then Some (Inl (- EINVAL), s)
      else (case platform_device_alloc (ans_pdev ans) inst s of
        (None, s) \<Rightarrow> Some (Inl (- ENOMEM), s)
      | (Some p, s) \<Rightarrow> do {
          (ret, s) \<leftarrow> platform_device_add_data (ans_add_data ans) p port_count s;
          if ret < 0 then Some (Inl ret, platform_device_put p s)
          else do {
            (ret, s) \<leftarrow> platform_device_add usb_remove_hcd ans p s;
            if ret < 0 then Some (Inl ret, platform_device_put p s)
            else do {
              pdev \<leftarrow> load_pdev p s;
              (case pdev_drvdata pdev of
                 None \<Rightarrow> do {
                   s \<leftarrow> platform_device_unregister usb_remove_hcd p s;
                   Some (Inl (- ENODEV), s)
                 }
               | Some _ \<Rightarrow> Some (Inr p, s))
            }
          }
        }))"

definition virtusb_hcd_destroy ::
  "(nat \<Rightarrow> 'a kplat_scheme \<Rightarrow> 'a kplat_scheme) \<Rightarrow> nat option \<Rightarrow> 'a kplat_scheme \<Rightarrow> 'a kplat_scheme option" where
  "virtusb_hcd_destroy usb_remove_hcd pdev s =
     (case pdev of None \<Rightarrow> Some s | Some p \<Rightarrow> platform_device_unregister usb_remove_hcd p s)"

end
