(* ===== verification/Virtusb_Module.thy ===== *)
theory Virtusb_Module
  imports Virtusb_Platform
begin

text \<open>
  Loading and unloading the module, \<open>kernel/src/virtusb_module.c\<close>: the statics of the file, the
  loop that creates the controllers, and the unwinding when a step fails.
\<close>

abbreviation (input) VIRTUSB_MAX_HCD_COUNT :: u32 where "VIRTUSB_MAX_HCD_COUNT \<equiv> 31"
abbreviation (input) VIRTUSB_ROOT_HUB_PORTS :: u32 where "VIRTUSB_ROOT_HUB_PORTS \<equiv> 31"

record kmod = kplat +
  hcd_count :: u32
  virtusb_hcd_devices :: "nat option list option"
  virtusb_hcd_created_count :: u32

text \<open>An element of the array of controllers is written; a null array or an index past its end is a fault.\<close>

definition set_hcd_device :: "nat \<Rightarrow> nat option \<Rightarrow> 'a kmod_scheme \<Rightarrow> 'a kmod_scheme option" where
  "set_hcd_device i pdev s = do {
     devices \<leftarrow> virtusb_hcd_devices s;
     if i < length devices then Some (s\<lparr>virtusb_hcd_devices := Some (devices[i := pdev])\<rparr>) else None
   }"

partial_function (option) virtusb_module_destroy_hcds ::
  "(nat \<Rightarrow> 'a kmod_scheme \<Rightarrow> 'a kmod_scheme) \<Rightarrow> 'a kmod_scheme \<Rightarrow> 'a kmod_scheme option" where
  "virtusb_module_destroy_hcds usb_remove_hcd s =
     (if virtusb_hcd_created_count s > 0 then do {
        let s = s\<lparr>virtusb_hcd_created_count := virtusb_hcd_created_count s - 1\<rparr>;
        devices \<leftarrow> virtusb_hcd_devices s;
        pdev \<leftarrow> nth_opt devices (unat (virtusb_hcd_created_count s));
        s \<leftarrow> virtusb_hcd_destroy usb_remove_hcd pdev s;
        s \<leftarrow> set_hcd_device (unat (virtusb_hcd_created_count s)) None s;
        virtusb_module_destroy_hcds usb_remove_hcd s
      }
      else Some s)"

fun create_hcds ::
  "(nat \<Rightarrow> 'a kmod_scheme \<Rightarrow> 'a kmod_scheme) \<Rightarrow> (nat \<Rightarrow> ('a kmod_scheme) hcd_answers) \<Rightarrow> nat list
     \<Rightarrow> 'a kmod_scheme \<Rightarrow> (int \<times> 'a kmod_scheme) option" where
  "create_hcds usb_remove_hcd ans [] s = Some (0, s)"
| "create_hcds usb_remove_hcd ans (i # is) s = do {
     (pdev, s) \<leftarrow> virtusb_hcd_create usb_remove_hcd (ans i) (word_of_nat i) VIRTUSB_ROOT_HUB_PORTS s;
     (case pdev of
        Inl e \<Rightarrow> do {
          s \<leftarrow> set_hcd_device i None s;
          Some (e, s)
        }
      | Inr p \<Rightarrow> do {
          s \<leftarrow> set_hcd_device i (Some p) s;
          create_hcds usb_remove_hcd ans is (s\<lparr>virtusb_hcd_created_count := virtusb_hcd_created_count s + 1\<rparr>)
        })
   }"

definition virtusb_module_init ::
  "bool \<Rightarrow> int + u32 \<Rightarrow> int + nat \<Rightarrow> int \<Rightarrow> (nat \<Rightarrow> ('a kmod_scheme) hcd_answers)
     \<Rightarrow> (nat \<Rightarrow> 'a kmod_scheme \<Rightarrow> 'a kmod_scheme) \<Rightarrow> 'a kmod_scheme \<Rightarrow> (int \<times> 'a kmod_scheme) option" where
  "virtusb_module_init mem region_answer class_answer driver_answer ans usb_remove_hcd s =
     (if hcd_count s = 0 \<or> hcd_count s > VIRTUSB_MAX_HCD_COUNT then Some (- EINVAL, s)
      else do {
        let s = virtusb_object_manager_init s;
        let s = s\<lparr>virtusb_hcd_devices := (if mem then Some (replicate (unat (hcd_count s)) None) else None)\<rparr>;
        if virtusb_hcd_devices s = None then Some (- ENOMEM, virtusb_object_manager_exit s)
        else do {
          let (ret, s) = virtusb_control_register region_answer class_answer (hcd_count s) s;
          if ret < 0 then Some (ret, virtusb_object_manager_exit (s\<lparr>virtusb_hcd_devices := None\<rparr>))
          else do {
            let (ret, s) = virtusb_hcd_driver_register driver_answer s;
            if ret < 0 then
              Some (ret, virtusb_object_manager_exit ((virtusb_control_unregister s)\<lparr>virtusb_hcd_devices := None\<rparr>))
            else do {
              (ret, s) \<leftarrow> create_hcds usb_remove_hcd ans [0..<unat (hcd_count s)] s;
              if ret < 0 then do {
                s \<leftarrow> virtusb_module_destroy_hcds usb_remove_hcd s;
                let s = virtusb_hcd_driver_unregister s;
                Some (ret, virtusb_object_manager_exit ((virtusb_control_unregister s)\<lparr>virtusb_hcd_devices := None\<rparr>))
              }
              else Some (0, s)
            }
          }
        }
      })"

definition virtusb_module_exit ::
  "(nat \<Rightarrow> 'a kmod_scheme \<Rightarrow> 'a kmod_scheme) \<Rightarrow> 'a kmod_scheme \<Rightarrow> 'a kmod_scheme option" where
  "virtusb_module_exit usb_remove_hcd s = do {
     s \<leftarrow> virtusb_device_shutdown_all s;
     s \<leftarrow> virtusb_module_destroy_hcds usb_remove_hcd s;
     let s = virtusb_hcd_driver_unregister s;
     let s = virtusb_control_unregister s;
     let s = s\<lparr>virtusb_hcd_devices := None\<rparr>;
     Some (virtusb_object_manager_exit s)
   }"

end
