(* ===== verification/Virtusb_Hcd_Props.thy ===== *)
theory Virtusb_Hcd_Props
  imports Virtusb_Hcd Virtusb_Data_Plane
begin

text \<open>
  The root hub as the USB core sees it: what the words of GetPortStatus and the bitmap of the
  status poll mean in terms of the topology, and that every request keeps the invariant.
\<close>

section \<open>Byte buffers\<close>

lemma write_bytes_fits [simp]:
  "i + length bytes \<le> length buf \<Longrightarrow>
     write_bytes buf i bytes = Some (take i buf @ bytes @ drop (i + length bytes) buf)"
  by (simp add: write_bytes_def)

lemma write_bytes_mid:
  assumes "buf = xs @ ys @ zs" and "length xs = i" and "length ys = length bytes"
  shows "write_bytes buf i bytes = Some (xs @ bytes @ zs)"
  using assms by (simp add: write_bytes_def)

definition le16 :: "u16 \<Rightarrow> u8 list" where
  "le16 v = [ucast v, ucast (drop_bit 8 v)]"

lemma length_le16 [simp]: "length (le16 v) = 2" by (simp add: le16_def)

lemma put_unaligned_le16_fits [simp]:
  "i + 2 \<le> length buf \<Longrightarrow> put_unaligned_le16 v buf i = Some (take i buf @ le16 v @ drop (i + 2) buf)"
  by (simp add: put_unaligned_le16_def le16_def)

lemma put_two_words:
  assumes "4 \<le> length buf"
  shows "do { buf \<leftarrow> put_unaligned_le16 v buf 0; buf \<leftarrow> put_unaligned_le16 w buf 2; Some (0 :: int, buf) } =
           Some (0, le16 v @ le16 w @ drop 4 buf)"
  using assms by simp

text \<open>Both words can be read back: no two of them share a representation.\<close>

lemma le16_inj: "le16 v = le16 w \<longleftrightarrow> v = w"
proof
  assume "le16 v = le16 w"
  then have lo: "(ucast v :: u8) = ucast w" and hi: "(ucast (drop_bit 8 v) :: u8) = ucast (drop_bit 8 w)"
    by (simp_all add: le16_def)
  show "v = w"
  proof (rule bit_word_eqI)
    fix n assume "n < LENGTH(16)"
    moreover from this have "n - 8 < 8" by simp
    ultimately show "bit v n = bit w n"
      using arg_cong [OF lo, of "\<lambda>x. bit x n"] arg_cong [OF hi, of "\<lambda>x. bit x (n - 8)"]
      by (cases "n < 8") (simp_all add: bit_simps)
  qed
qed simp

section \<open>The words of a port\<close>

lemma bit_numeral_16:
  "(0x0001 :: u16) = push_bit 0 1" "(0x0002 :: u16) = push_bit 1 1" "(0x0004 :: u16) = push_bit 2 1"
  "(0x0008 :: u16) = push_bit 3 1" "(0x0010 :: u16) = push_bit 4 1" "(0x0100 :: u16) = push_bit 8 1"
  "(0x0200 :: u16) = push_bit 9 1" "(0x0400 :: u16) = push_bit 10 1"
  by simp_all

lemma bit_stat:
  "bit (w OR 0x0001 :: u16) b \<longleftrightarrow> bit w b \<or> b = 0" "bit (w OR 0x0002 :: u16) b \<longleftrightarrow> bit w b \<or> b = 1"
  "bit (w OR 0x0004 :: u16) b \<longleftrightarrow> bit w b \<or> b = 2" "bit (w OR 0x0008 :: u16) b \<longleftrightarrow> bit w b \<or> b = 3"
  "bit (w OR 0x0010 :: u16) b \<longleftrightarrow> bit w b \<or> b = 4" "bit (w OR 0x0100 :: u16) b \<longleftrightarrow> bit w b \<or> b = 8"
  "bit (w OR 0x0200 :: u16) b \<longleftrightarrow> bit w b \<or> b = 9" "bit (w OR 0x0400 :: u16) b \<longleftrightarrow> bit w b \<or> b = 10"
  by (subst bit_numeral_16; auto simp only: bit_or_iff bit_push_bit_iff bit_1_iff; simp)+

lemma bit_stat_if:
  "bit (if c then 1 else 0 :: u16) b \<longleftrightarrow> c \<and> b = 0"
  "bit (if c then w OR 0x0001 else w :: u16) b \<longleftrightarrow> bit w b \<or> c \<and> b = 0"
  "bit (if c then w OR 0x0002 else w :: u16) b \<longleftrightarrow> bit w b \<or> c \<and> b = 1"
  "bit (if c then w OR 0x0004 else w :: u16) b \<longleftrightarrow> bit w b \<or> c \<and> b = 2"
  "bit (if c then w OR 0x0008 else w :: u16) b \<longleftrightarrow> bit w b \<or> c \<and> b = 3"
  "bit (if c then w OR 0x0010 else w :: u16) b \<longleftrightarrow> bit w b \<or> c \<and> b = 4"
  "bit (if c then w OR 0x0100 else w :: u16) b \<longleftrightarrow> bit w b \<or> c \<and> b = 8"
  by (simp_all add: bit_stat) (simp add: bit_1_iff)

lemma port_state_test_bit: "unat n < 32 \<Longrightarrow> virtusb_hcd_port_state_test w n = bit w (unat n)"
  by (simp add: virtusb_hcd_port_state_test_def and_BIT_eq_0)

lemma virtusb_hub_port_is_powered_ok:
  assumes h: "load_hub h s = Some hub" and shape: "hub_shape hub" and n: "valid_port hub n"
  shows "virtusb_hub_port_is_powered (Some h) n s = Some (p_state0 (hub_ports hub ! unat (n - 1)))"
proof -
  from shape n have "unat (n - 1) < unat (hub_port_count hub)" by (auto elim: valid_portD)
  with h shape n show ?thesis
    by (simp add: virtusb_hub_port_is_powered_def virtusb_hub_get_port_ok hub_port_alloc)
qed

lemma virtusb_hub_port_is_over_current_ok:
  assumes h: "load_hub h s = Some hub" and shape: "hub_shape hub" and n: "valid_port hub n"
  shows "virtusb_hub_port_is_over_current (Some h) n s =
    Some (hub_over_current_mode hub = VIRTUSB_HUB_OVER_CURRENT_PER_PORT \<and> p_state1 (hub_ports hub ! unat (n - 1)))"
proof -
  from shape n have "unat (n - 1) < unat (hub_port_count hub)" by (auto elim: valid_portD)
  with h shape n show ?thesis
    by (simp add: virtusb_hub_port_is_over_current_def virtusb_hub_get_port_ok hub_port_alloc)
qed

text \<open>The bits of wPortStatus and wPortChange, by what they stand for.\<close>

definition port_status_bit :: "'a topo_scheme \<Rightarrow> nat \<Rightarrow> virtusb_hub \<Rightarrow> u32 \<Rightarrow> nat \<Rightarrow> bool" where
  "port_status_bit s h hub n b \<longleftrightarrow>
     b = 0 \<and> port_connected s h (unat n) \<or>
     b = 1 \<and> bit (usb_enabled (hub_usb hub)) (unat n) \<or>
     b = 2 \<and> bit (usb_suspended (hub_usb hub)) (unat n) \<or>
     b = 3 \<and> hub_over_current_mode hub = VIRTUSB_HUB_OVER_CURRENT_PER_PORT \<and> p_state1 (hub_ports hub ! unat (n - 1)) \<or>
     b = 4 \<and> bit (usb_reset (hub_usb hub)) (unat n) \<or>
     b = 8 \<and> p_state0 (hub_ports hub ! unat (n - 1)) \<or>
     b = 9 \<and> packed_speed hub n = VIRTUSB_PORT_SPEED_LOW \<or>
     b = 10 \<and> packed_speed hub n = VIRTUSB_PORT_SPEED_HIGH"

definition port_change_bit :: "virtusb_hub \<Rightarrow> nat \<Rightarrow> nat \<Rightarrow> bool" where
  "port_change_bit hub k b \<longleftrightarrow>
     (b = 0 \<and> bit (chg_connected (hub_usb_change hub)) k \<or>
      b = 1 \<and> bit (chg_enabled (hub_usb_change hub)) k \<or>
      b = 2 \<and> bit (chg_suspended (hub_usb_change hub)) k \<or>
      b = 3 \<and> bit (chg_over_current (hub_usb_change hub)) k \<or>
      b = 4 \<and> bit (chg_reset (hub_usb_change hub)) k)"

lemma virtusb_hcd_build_port_status_ok:
  assumes wf: "topo_wf s" and h: "load_hub h s = Some hub" and n: "valid_port hub n"
  obtains w where "virtusb_hcd_build_port_status h n s = Some w" and "\<forall>b. bit w b \<longleftrightarrow> port_status_bit s h hub n b"
proof -
  note shape = topo_wf_shape [OF wf h]
  from shape n have n32: "unat n < 32" by (rule valid_portD)
  note ok = virtusb_hub_port_is_connected_ok [OF topo_wf_ports [OF wf] h shape]
    virtusb_hub_port_is_powered_ok [OF h shape n] virtusb_hub_port_is_over_current_ok [OF h shape n]
    virtusb_hub_get_port_speed_ok [OF h shape] port_state_test_bit [OF n32]
  show thesis
    by (rule that, simp add: virtusb_hcd_build_port_status_def h ok n Let_def)
       (cases "packed_speed hub n"; simp add: port_status_bit_def bit_stat bit_stat_if; blast)
qed

lemma virtusb_hcd_build_port_change_ok:
  assumes "unat n < 32"
  shows "bit (virtusb_hcd_build_port_change hub n) b \<longleftrightarrow> port_change_bit hub (unat n) b"
  using assms
  by (simp add: virtusb_hcd_build_port_change_def port_state_test_bit Let_def port_change_bit_def bit_stat_if) blast

lemma virtusb_hcd_get_port_status_ok:
  assumes wf: "topo_wf s" and h: "load_hub h s = Some hub" and buf: "4 \<le> length buf"
  shows "runs (virtusb_hcd_get_port_status h n buf s) (\<lambda>(ret, buf').
    if valid_port hub n
    then ret = 0 \<and> (\<exists>status change. buf' = le16 status @ le16 change @ drop 4 buf \<and>
           (\<forall>b. bit status b \<longleftrightarrow> port_status_bit s h hub n b) \<and>
           (\<forall>b. bit change b \<longleftrightarrow> port_change_bit hub (unat n) b))
    else ret = - EPIPE \<and> buf' = buf)"
proof (cases "valid_port hub n")
  case False
  with h show ?thesis by (simp add: virtusb_hcd_get_port_status_def virtusb_hub_port_is_valid_ok)
next
  case True
  from wf h True obtain w where w: "virtusb_hcd_build_port_status h n s = Some w"
    "\<forall>b. bit w b \<longleftrightarrow> port_status_bit s h hub n b"
    by (rule virtusb_hcd_build_port_status_ok)
  from topo_wf_shape [OF wf h] True have "unat n < 32" by (rule valid_portD)
  note change = virtusb_hcd_build_port_change_ok [OF this, of hub]
  have "virtusb_hcd_get_port_status h n buf s =
      Some (0, le16 w @ le16 (virtusb_hcd_build_port_change hub n) @ drop 4 buf)"
    using put_two_words [OF buf] h True w(1)
    by (simp add: virtusb_hcd_get_port_status_def virtusb_hub_port_is_valid_ok Let_def)
  with True w(2) change show ?thesis by auto
qed

section \<open>The status poll\<close>

text \<open>Position 0 of the bitmap is the hub itself, which reports over-current only.\<close>

definition change_pending :: "virtusb_hub \<Rightarrow> nat \<Rightarrow> bool" where
  "change_pending hub k \<longleftrightarrow>
     (if k = 0 then bit (chg_over_current (hub_usb_change hub)) 0 else \<exists>b. port_change_bit hub k b)"

lemma bit_port_change_mask:
  "k < 32 \<Longrightarrow> bit (virtusb_hcd_port_change_mask hub) k \<longleftrightarrow> change_pending hub k"
  by (auto simp: virtusb_hcd_port_change_mask_def Let_def change_pending_def port_change_bit_def bit_simps)

lemma hub_status_bytes_ok:
  assumes "a \<le> b" and "b \<le> length buf"
  shows "hub_status_bytes w [a..<b] buf =
    Some (take a buf @ map (\<lambda>i. ucast (drop_bit (i * 8) w AND 0xff)) [a..<b] @ drop b buf)"
  using assms
proof (induction "b - a" arbitrary: a buf)
  case (Suc d)
  then have a: "a < b" by simp
  let ?v = "ucast (drop_bit (a * 8) w AND 0xff) :: u8"
  let ?buf = "take a buf @ [?v] @ drop (a + 1) buf"
  have "hub_status_bytes w [Suc a..<b] ?buf =
      Some (take (Suc a) ?buf @ map (\<lambda>i. ucast (drop_bit (i * 8) w AND 0xff)) [Suc a..<b] @ drop b ?buf)"
    using Suc a by (intro Suc.hyps(1)) auto
  moreover have "take (Suc a) ?buf = take a buf @ [?v]" using a Suc.prems by simp
  moreover have "drop b ?buf = drop b buf" using a Suc.prems by (simp add: drop_Cons')
  ultimately show ?case
    using a Suc.prems by (simp add: upt_conv_Cons)
qed simp

lemma bit_status_byte: "bit (ucast (drop_bit (i * 8) w AND 0xff) :: u8) j \<longleftrightarrow> j < 8 \<and> bit (w :: u32) (i * 8 + j)"
proof -
  have eq: "(0xff :: u32) = mask 8" by (simp add: mask_eq_exp_minus_1)
  have "bit (0xff :: u32) j \<longleftrightarrow> j < 8" unfolding eq bit_mask_iff by auto
  then show ?thesis by (auto simp: bit_simps add.commute)
qed

lemma topo_wf_pending:
  assumes "topo_wf s" and "load_hub h s = Some hub" and "change_pending hub k"
  shows "0 < k" and "k \<le> unat (hub_port_count hub)" and "unat (hub_port_count hub) \<le> 31"
  using topo_wf_usb [OF assms(1,2)] topo_wf_shape [OF assms(1,2)] assms(3)
  by (auto simp: hub_usb_ok_def hub_shape_def change_pending_def port_change_bit_def split: if_splits)

lemma virtusb_hcd_hub_status_data_ok:
  assumes wf: "topo_wf s" and h: "load_hub h s = Some hub"
    and buf: "(unat (hub_port_count hub) + 8) div 8 \<le> length buf"
  shows "runs (virtusb_hcd_hub_status_data h buf s) (\<lambda>(ret, buf'). length buf' = length buf \<and>
    (if \<exists>k. change_pending hub k
     then ret = int ((unat (hub_port_count hub) + 8) div 8) \<and>
          (\<forall>k < 8 * nat ret. bit (buf' ! (k div 8)) (k mod 8) \<longleftrightarrow> change_pending hub k)
     else ret = 0 \<and> buf' = buf))"
proof -
  let ?w = "virtusb_hcd_port_change_mask hub" and ?n = "(unat (hub_port_count hub) + 8) div 8"
  have c: "unat (hub_port_count hub) \<le> 31" using topo_wf_shape [OF wf h] by (simp add: hub_shape_def)
  then have n4: "?n \<le> 4" by auto
  have pending: "change_pending hub k \<longleftrightarrow> k < 32 \<and> bit ?w k" for k
    using bit_port_change_mask [of k hub] topo_wf_pending [OF wf h, of k] c by auto
  have none: "?w = 0 \<longleftrightarrow> \<not> (\<exists>k. change_pending hub k)"
    by (auto simp: pending bit_eq_iff [of ?w 0])
  have "bit ((map (\<lambda>i. ucast (drop_bit (i * 8) ?w AND 0xff) :: u8) [0..<m] @ drop m buf) ! i) j \<longleftrightarrow>
      change_pending hub (i * 8 + j)" if "i < m" "j < 8" "m \<le> 4" for i j m
    using that by (simp add: nth_append bit_status_byte pending)
  moreover have "k div 8 < ?n" if "k < 8 * ?n" for k
    using that by (metis less_mult_imp_div_less mult.commute)
  ultimately have bits: "k < 8 * ?n \<Longrightarrow>
      bit ((map (\<lambda>i. ucast (drop_bit (i * 8) ?w AND 0xff) :: u8) [0..<?n] @ drop ?n buf) ! (k div 8)) (k mod 8) \<longleftrightarrow>
      change_pending hub k" for k
    using n4 by (metis div_mult_mod_eq mod_less_divisor zero_less_numeral)
  have run: "virtusb_hcd_hub_status_data h buf s = (if \<exists>k. change_pending hub k
      then Some (int ?n, map (\<lambda>i. ucast (drop_bit (i * 8) ?w AND 0xff) :: u8) [0..<?n] @ drop ?n buf) else Some (0, buf))"
    using hub_status_bytes_ok [of 0 ?n buf ?w] buf h
    by (cases "\<exists>k. change_pending hub k"; cases "?w = 0")
       (simp_all add: virtusb_hcd_hub_status_data_def Let_def none)
  show ?thesis
    unfolding run using bits buf by (simp only: if_distrib [of "\<lambda>x. runs x _"] runs_Some split_conv) (auto simp del: div_add_self2)
qed

section \<open>Features\<close>

text \<open>What every root-hub request leaves alone: the layout, the devices' ends of the cables and all
  other hubs.\<close>

definition hub_request_ok :: "nat \<Rightarrow> 'a topo_scheme \<Rightarrow> 'a topo_scheme \<Rightarrow> bool" where
  "hub_request_ok h s s' \<longleftrightarrow>
     topo_wf s' \<and> layout s s' \<and> (\<forall>d. load_port (Dev_port d) s' = load_port (Dev_port d) s) \<and>
     (\<forall>g. g \<noteq> h \<longrightarrow> load_hub g s' = load_hub g s)"

lemma hub_request_ok_refl [simp]: "hub_request_ok h s s \<longleftrightarrow> topo_wf s"
  by (simp add: hub_request_ok_def)

text \<open>Writing the protocol words of a hub, with no bit set outside its ports and no enable bit added.\<close>

lemma hub_request_put_hub:
  assumes wf: "topo_wf s" and h: "load_hub h s = Some hub"
    and ports: "hub_ports hub' = hub_ports hub" and same: "same_layout hub hub'"
    and speed: "usb_speed (hub_usb hub') = usb_speed (hub_usb hub)"
    and usb: "hub_usb_ok (port_connected s h) hub'"
  shows "hub_request_ok h s (put_hub h hub' s)"
proof -
  have "length (usb_speed (hub_usb hub')) = 2"
    using topo_wf_shape [OF wf h] by (simp add: speed hub_shape_def)
  with topo_wf_shape [OF wf h] same have "hub_shape hub'" using ports by (rule hub_shape_layout)
  with wf h ports have "topo_wf (put_hub h hub' s)" using usb by (intro topo_wf_put_hub)
  moreover have "layout s (put_hub h hub' s)" using h same by (intro layout_put_hub)
  ultimately show ?thesis
    using load_port_put_hub [OF h ports] by (simp add: hub_request_ok_def)
qed

lemma topo_wf_hub_usb: "topo_wf s \<Longrightarrow> load_hub h s = Some hub \<Longrightarrow> hub_usb_ok (port_connected s h) hub"
  using topo_wf_usb by fastforce

lemma powered_port_hubs: "g \<noteq> h \<Longrightarrow> load_hub g (powered_port powered h n s) = load_hub g s"
  by (simp add: powered_port_def settle_def load_hub_marked split: option.split)

lemma fold_powered_port_hubs: "g \<noteq> h \<Longrightarrow> load_hub g (fold (powered_port powered h) ns s) = load_hub g s"
  by (induction ns arbitrary: s) (simp_all add: powered_port_hubs)

lemma set_port_power_request:
  assumes wf: "topo_wf s" and h: "load_hub h s = Some hub"
  shows "runs (virtusb_hub_set_port_power (Some h) n powered s) (\<lambda>(ret, s').
    hub_request_ok h s s' \<and> ret = (if valid_port hub n then 0 else - EINVAL))"
proof -
  have "hub_request_ok h s (powered_port powered h n s)" if "valid_port hub n"
    using powered_port_facts [OF wf h that] by (simp add: hub_request_ok_def powered_port_hubs)
  moreover have "runs (virtusb_hub_set_all_ports_power (Some h) powered s) (\<lambda>(ret, s'). ret = 0 \<and> hub_request_ok h s s')"
  proof -
    have v: "\<forall>n \<in> set (hub_port_numbers hub). valid_port hub n"
      by (simp add: valid_port_image [OF topo_wf_shape [OF wf h]])
    then show ?thesis
      using fold_powered_port [OF wf h v, where powered = powered]
      by (simp add: virtusb_hub_set_all_ports_power_def h hub_set_ports_power_ok [OF wf h v] hub_request_ok_def
          fold_powered_port_hubs image_iff)
  qed
  ultimately show ?thesis
    using wf by (auto simp: virtusb_hub_set_port_power_ok [OF wf h] elim!: runs_mono)
qed

lemma layout_reset_state: "load_hub h s = Some hub \<Longrightarrow> layout s (reset_state sp h n hub s)"
  by (auto simp: reset_state_def intro: layout_put_hub layout_trans [OF layout_notified layout_put_hub])

lemma reset_port_request:
  assumes wf: "topo_wf s" and h: "load_hub h s = Some hub"
  shows "runs (virtusb_hub_reset_port (Some h) n s) (\<lambda>(ret, s'). hub_request_ok h s s' \<and>
    (if \<not> valid_port hub n then ret = - EINVAL \<and> s' = s
     else if \<not> port_connected s h (unat n) then ret = - ENODEV \<and> s' = s
     else ret = - EOPNOTSUPP \<and> s' = s \<or>
       ret = 0 \<and> (\<exists>sp. sp \<noteq> VIRTUSB_PORT_SPEED_NONE \<and> s' = reset_state sp h n hub s)))"
proof -
  consider "\<not> valid_port hub n" | "valid_port hub n" "\<not> port_connected s h (unat n)"
    | (conn) "valid_port hub n" "port_connected s h (unat n)" by blast
  then show ?thesis
  proof cases
    case conn
    note shape = topo_wf_shape [OF wf h]
    from shape conn(1) obtain i where i: "unat n = Suc i" "unat (n - 1) = i" by (rule valid_portD)
    from topo_wf_ports [OF wf] conn(2) obtain d pd pu where
      p: "load_port (Hub_port h i) s = Some pd" "p_peer pd = Some (Dev_port d)" "load_port (Dev_port d) s = Some pu"
      by (rule port_connectedE) (simp add: i)
    note run = virtusb_hub_reset_port_connected [OF wf h conn _ p(2,3), unfolded i(2), OF p(1)]
    have "hub_request_ok h s (reset_state sp h n hub s)" for sp
    proof -
      have "load_port a (reset_state sp h n hub s) = load_port a s" for a
        using load_port_put_hub [OF h, of "reset_hub sp n hub"] by (simp add: reset_state_def del: notified_put_hub)
      moreover have "load_hub g (reset_state sp h n hub s) = load_hub g s" if "g \<noteq> h" for g
        using that by (simp add: reset_state_def)
      ultimately show ?thesis
        using topo_wf_reset [OF wf h conn] layout_reset_state [OF h] by (simp add: hub_request_ok_def)
    qed
    with conn wf show ?thesis unfolding run Let_def by auto
  qed (use wf h in \<open>simp_all add: virtusb_hub_reset_port_invalid virtusb_hub_reset_port_unconnected\<close>)
qed

text \<open>Acknowledging a change clears its bit at this port and nothing else.\<close>

lemma virtusb_hcd_clear_port_feature_ok:
  assumes wf: "topo_wf s" and h: "load_hub h s = Some hub"
  shows "runs (virtusb_hcd_clear_port_feature h n feature s) (\<lambda>(ret, s'). hub_request_ok h s s' \<and>
    (if \<not> valid_port hub n then ret = - EPIPE \<and> s' = s
     else if feature \<in> {1, 2, 8} \<union> {16..20}
     then ret = 0 \<and> (16 \<le> feature \<longrightarrow> (\<exists>hub'. load_hub h s' = Some hub' \<and> hub_usb hub' = hub_usb hub \<and>
            (\<forall>k b. port_change_bit hub' k b \<longleftrightarrow> port_change_bit hub k b \<and> (k \<noteq> unat n \<or> b \<noteq> unat feature - 16))))
     else ret = - EPIPE \<and> s' = s))"
proof (cases "valid_port hub n")
  case False
  with wf h show ?thesis by (simp add: virtusb_hcd_clear_port_feature_def virtusb_hub_port_is_valid_ok)
next
  case True
  note usb = topo_wf_hub_usb [OF wf h]
  have words: "feature \<in> {16..20} \<longleftrightarrow> feature = 16 \<or> feature = 17 \<or> feature = 18 \<or> feature = 19 \<or> feature = 20"
  proof -
    have "feature = word_of_nat (unat feature)" by simp
    moreover have "feature \<in> {16..20} \<longleftrightarrow> unat feature \<in> {16..20}" by (simp add: word_le_nat_alt)
    ultimately show ?thesis by (auto simp: word_unat_eq_iff)
  qed
  have put: "hub_request_ok h s (put_hub h hub' s)"
    if "hub_ports hub' = hub_ports hub" "same_layout hub hub'" "usb_speed (hub_usb hub') = usb_speed (hub_usb hub)"
      "hub_usb_ok (port_connected s h) hub'" for hub'
    using that by (intro hub_request_put_hub [OF wf h])
  show ?thesis
    using True h usb set_port_power_request [OF wf h, of n False]
    unfolding Un_iff words virtusb_hcd_clear_port_feature_def virtusb_hcd_port_state_clear_def
    by (auto simp: virtusb_hub_port_is_valid_ok hub_usb_ok_def port_change_bit_def bit_BITs same_layout_def wf
        word_le_nat_alt intro!: put elim!: runs_mono)
qed

lemma virtusb_hcd_set_port_feature_ok:
  assumes wf: "topo_wf s" and h: "load_hub h s = Some hub"
  shows "runs (virtusb_hcd_set_port_feature h n feature s) (\<lambda>(ret, s'). hub_request_ok h s s' \<and>
    (if \<not> valid_port hub n then ret = - EPIPE \<and> s' = s
     else if feature \<in> {2, 8} then ret = 0
     else if feature = 4 then virtusb_hub_reset_port (Some h) n s = Some (ret, s')
     else ret = - EPIPE \<and> s' = s))"
proof (cases "valid_port hub n")
  case False
  with wf h show ?thesis by (simp add: virtusb_hcd_set_port_feature_def virtusb_hub_port_is_valid_ok)
next
  case True
  from topo_wf_shape [OF wf h] True have n: "0 < unat n" "unat n \<le> unat (hub_port_count hub)"
    by (auto elim: valid_portD)
  let ?hub = "hub\<lparr>hub_usb := (hub_usb hub)\<lparr>usb_suspended := usb_suspended (hub_usb hub) OR BIT n\<rparr>\<rparr>"
  have "hub_usb_ok (port_connected s h) ?hub"
    using topo_wf_hub_usb [OF wf h] n by (auto simp: hub_usb_ok_def bit_BITs)
  then have "hub_request_ok h s (put_hub h ?hub s)"
    by (intro hub_request_put_hub [OF wf h]) (simp_all add: same_layout_def)
  with True h wf show ?thesis
    using set_port_power_request [OF wf h, of n True] reset_port_request [OF wf h, of n]
    unfolding virtusb_hcd_set_port_feature_def virtusb_hcd_port_state_set_def
    by (auto simp: virtusb_hub_port_is_valid_ok runs_iff)
qed

section \<open>Hub descriptor\<close>

lemma virtusb_hcd_get_hub_descriptor_ok:
  assumes shape: "hub_shape hub" and buf: "15 \<le> length buf"
  defines "n \<equiv> (unat (hub_port_count hub) + 8) div 8"
  shows "virtusb_hcd_get_hub_descriptor hub buf =
    Some (int (7 + 2 * n),
      [word_of_nat (7 + 2 * n), 0x29, hub_port_count hub] @
      le16 ((if hub_power_switching_mode hub = VIRTUSB_HUB_POWER_SWITCHING_INDIVIDUAL then 0x01 else 0) OR
            (case hub_over_current_mode hub of VIRTUSB_HUB_OVER_CURRENT_PER_PORT \<Rightarrow> 0x08
             | VIRTUSB_HUB_OVER_CURRENT_NONE \<Rightarrow> 0x10 | VIRTUSB_HUB_OVER_CURRENT_GLOBAL \<Rightarrow> 0)) @
      [0, 0] @ replicate n 0 @ replicate n 0xff @ drop (7 + 2 * n) buf)"
    and "1 \<le> n" and "n \<le> 4"
proof -
  have c: "unat (hub_port_count hub) \<le> 31" using shape by (simp add: hub_shape_def)
  then show n: "1 \<le> n" "n \<le> 4" by (auto simp: n_def)
  from n buf have len: "7 + 2 * n \<le> length buf" by simp
  show "virtusb_hcd_get_hub_descriptor hub buf =
    Some (int (7 + 2 * n),
      [word_of_nat (7 + 2 * n), 0x29, hub_port_count hub] @
      le16 ((if hub_power_switching_mode hub = VIRTUSB_HUB_POWER_SWITCHING_INDIVIDUAL then 0x01 else 0) OR
            (case hub_over_current_mode hub of VIRTUSB_HUB_OVER_CURRENT_PER_PORT \<Rightarrow> 0x08
             | VIRTUSB_HUB_OVER_CURRENT_NONE \<Rightarrow> 0x10 | VIRTUSB_HUB_OVER_CURRENT_GLOBAL \<Rightarrow> 0)) @
      [0, 0] @ replicate n 0 @ replicate n 0xff @ drop (7 + 2 * n) buf)"
  proof -
    let ?rest = "drop (7 + 2 * n) buf" and ?zs = "replicate n (0 :: u8)"
    let ?ch = "(if hub_power_switching_mode hub = VIRTUSB_HUB_POWER_SWITCHING_INDIVIDUAL then 0x01 else 0 :: u16) OR
            (case hub_over_current_mode hub of VIRTUSB_HUB_OVER_CURRENT_PER_PORT \<Rightarrow> 0x08
             | VIRTUSB_HUB_OVER_CURRENT_NONE \<Rightarrow> 0x10 | VIRTUSB_HUB_OVER_CURRENT_GLOBAL \<Rightarrow> 0)"
    let ?l = "word_of_nat (7 + 2 * n) :: u8" and ?c = "hub_port_count hub"
    have "replicate 7 (0 :: u8) = [0, 0, 0, 0, 0, 0, 0]" by (simp add: numeral_eq_Suc)
    then have "replicate (7 + 2 * n) (0 :: u8) = [0, 0, 0, 0, 0, 0, 0] @ ?zs @ ?zs"
      by (simp only: replicate_add mult_2)
    moreover have "write_bytes buf 0 (replicate (7 + 2 * n) 0) = Some (replicate (7 + 2 * n) 0 @ ?rest)"
      using len by simp
    ultimately have "write_bytes buf 0 (replicate (7 + 2 * n) 0) = Some ([0, 0, 0, 0, 0, 0, 0] @ ?zs @ ?zs @ ?rest)"
      by (simp only: append.assoc)
    moreover have "write_bytes ([0, 0, 0, 0, 0, 0, 0] @ ?zs @ ?zs @ ?rest) 0 [?l] =
        Some ([] @ [?l] @ [0, 0, 0, 0, 0, 0] @ ?zs @ ?zs @ ?rest)"
      by (rule write_bytes_mid [where ys = "[0]"]) simp_all
    moreover have "write_bytes ([] @ [?l] @ [0, 0, 0, 0, 0, 0] @ ?zs @ ?zs @ ?rest) 1 [0x29] =
        Some ([?l] @ [0x29] @ [0, 0, 0, 0, 0] @ ?zs @ ?zs @ ?rest)"
      by (rule write_bytes_mid [where ys = "[0]"]) simp_all
    moreover have "write_bytes ([?l] @ [0x29] @ [0, 0, 0, 0, 0] @ ?zs @ ?zs @ ?rest) 2 [?c] =
        Some ([?l, 0x29] @ [?c] @ [0, 0, 0, 0] @ ?zs @ ?zs @ ?rest)"
      by (rule write_bytes_mid [where ys = "[0]"]) simp_all
    moreover have "put_unaligned_le16 ?ch ([?l, 0x29] @ [?c] @ [0, 0, 0, 0] @ ?zs @ ?zs @ ?rest) 3 =
        Some ([?l, 0x29, ?c] @ le16 ?ch @ [0, 0] @ ?zs @ ?zs @ ?rest)"
      unfolding put_unaligned_le16_def le16_def by (rule write_bytes_mid [where ys = "[0, 0]"]) simp_all
    moreover have "write_bytes ([?l, 0x29, ?c] @ le16 ?ch @ [0, 0] @ ?zs @ ?zs @ ?rest) 5 [0] =
        Some (([?l, 0x29, ?c] @ le16 ?ch) @ [0] @ [0] @ ?zs @ ?zs @ ?rest)"
      by (rule write_bytes_mid [where ys = "[0]"]) simp_all
    moreover have "write_bytes (([?l, 0x29, ?c] @ le16 ?ch) @ [0] @ [0] @ ?zs @ ?zs @ ?rest) 6 [0] =
        Some (([?l, 0x29, ?c] @ le16 ?ch @ [0]) @ [0] @ ?zs @ ?zs @ ?rest)"
      by (rule write_bytes_mid [where ys = "[0]"]) simp_all
    moreover have "write_bytes (([?l, 0x29, ?c] @ le16 ?ch @ [0]) @ [0] @ ?zs @ ?zs @ ?rest) 7 ?zs =
        Some (([?l, 0x29, ?c] @ le16 ?ch @ [0, 0]) @ ?zs @ ?zs @ ?rest)"
      by (rule write_bytes_mid [where ys = "replicate n 0"]) simp_all
    moreover have "write_bytes (([?l, 0x29, ?c] @ le16 ?ch @ [0, 0]) @ ?zs @ ?zs @ ?rest) (7 + n) (replicate n 0xff) =
        Some (([?l, 0x29, ?c] @ le16 ?ch @ [0, 0] @ ?zs) @ replicate n 0xff @ ?rest)"
      by (rule write_bytes_mid [where ys = "replicate n 0"]) simp_all
    moreover have "(case hub_over_current_mode hub of
          VIRTUSB_HUB_OVER_CURRENT_PER_PORT \<Rightarrow>
            (if hub_power_switching_mode hub = VIRTUSB_HUB_POWER_SWITCHING_INDIVIDUAL then 0 OR 0x01 else 0) OR 0x08
        | VIRTUSB_HUB_OVER_CURRENT_NONE \<Rightarrow>
            (if hub_power_switching_mode hub = VIRTUSB_HUB_POWER_SWITCHING_INDIVIDUAL then 0 OR 0x01 else 0) OR 0x10
        | VIRTUSB_HUB_OVER_CURRENT_GLOBAL \<Rightarrow>
            (if hub_power_switching_mode hub = VIRTUSB_HUB_POWER_SWITCHING_INDIVIDUAL then 0 OR 0x01 else 0)) = ?ch"
      by (cases "hub_over_current_mode hub") simp_all
    ultimately show ?thesis
      unfolding virtusb_hcd_get_hub_descriptor_def Let_def n_def [symmetric]
      by (simp only: bind.bind_lunit append.assoc)
  qed
qed

section \<open>Every request of the USB core\<close>

lemma virtusb_hcd_get_hub_status_ok:
  assumes wf: "topo_wf s" and h: "load_hub h s = Some hub" and buf: "4 \<le> length buf"
  shows "runs (virtusb_hcd_get_hub_status h buf s) (\<lambda>(ret, buf'). ret = 0 \<and>
    buf' = le16 (if hub_over_current_mode hub = VIRTUSB_HUB_OVER_CURRENT_GLOBAL \<and> hub_over_current hub then 2 else 0) @
           le16 0 @ drop 4 buf)"
proof -
  have "\<not> virtusb_hcd_port_state_test (chg_over_current (hub_usb_change hub)) 0"
    using topo_wf_hub_usb [OF wf h] by (simp add: virtusb_hcd_port_state_test_def hub_usb_ok_def)
  moreover have "virtusb_hub_is_over_current (Some h) s =
      Some (hub_over_current_mode hub = VIRTUSB_HUB_OVER_CURRENT_GLOBAL \<and> hub_over_current hub)"
    using h by (simp add: virtusb_hub_is_over_current_def)
  ultimately show ?thesis
    using put_two_words [OF buf] h by (simp add: virtusb_hcd_get_hub_status_def Let_def)
qed

lemma virtusb_hcd_hub_control_ok:
  assumes wf: "topo_wf s" and h: "load_hub h s = Some hub" and buf: "15 \<le> length buf"
  shows "runs (virtusb_hcd_hub_control h type_req value index buf len s) (\<lambda>(ret, buf', s').
    hub_request_ok h s s' \<and> length buf' = length buf \<and>
    (type_req \<notin> {ClearHubFeature, ClearPortFeature, SetPortFeature} \<longrightarrow> s' = s) \<and>
    (type_req \<notin> {GetHubDescriptor, GetHubStatus, GetPortStatus} \<longrightarrow> buf' = buf) \<and>
    (type_req \<notin> {ClearHubFeature, ClearPortFeature, SetPortFeature, GetHubDescriptor, GetHubStatus, GetPortStatus}
       \<longrightarrow> ret = - EPIPE))"
proof -
  let ?n = "ucast index AND 0xff :: u32"
  from buf have buf4: "4 \<le> length buf" by simp
  have clear_oc: "hub_request_ok h s (put_hub h (hub\<lparr>hub_usb_change := (hub_usb_change hub)
      \<lparr>chg_over_current := virtusb_hcd_port_state_clear (chg_over_current (hub_usb_change hub)) 0\<rparr>\<rparr>) s)"
    using topo_wf_hub_usb [OF wf h]
    by (intro hub_request_put_hub [OF wf h])
       (simp_all add: same_layout_def hub_usb_ok_def virtusb_hcd_port_state_clear_def)
  note desc = virtusb_hcd_get_hub_descriptor_ok [OF topo_wf_shape [OF wf h] buf]
  have get_desc: "runs (virtusb_hcd_get_hub_descriptor hub buf) (\<lambda>(ret, buf'). length buf' = length buf)"
    using desc buf by simp
  have get_hub: "runs (virtusb_hcd_get_hub_status h buf s) (\<lambda>(ret, buf'). length buf' = length buf)"
    by (rule runs_mono [OF virtusb_hcd_get_hub_status_ok [OF wf h buf4]]) (use buf4 in auto)
  have get_port: "runs (virtusb_hcd_get_port_status h ?n buf s) (\<lambda>(ret, buf'). length buf' = length buf)"
    by (rule runs_mono [OF virtusb_hcd_get_port_status_ok [OF wf h buf4]]) (use buf4 in \<open>auto split: if_splits\<close>)
  have clear: "runs (virtusb_hcd_clear_port_feature h ?n value s) (\<lambda>(ret, s'). hub_request_ok h s s')"
    by (rule runs_mono [OF virtusb_hcd_clear_port_feature_ok [OF wf h]]) auto
  have set: "runs (virtusb_hcd_set_port_feature h ?n value s) (\<lambda>(ret, s'). hub_request_ok h s s')"
    by (rule runs_mono [OF virtusb_hcd_set_port_feature_ok [OF wf h]]) auto
  consider "type_req = ClearHubFeature" | "type_req = ClearPortFeature" | "type_req = GetHubDescriptor"
    | "type_req = GetHubStatus" | "type_req = GetPortStatus" | "type_req = SetPortFeature"
    | "type_req \<notin> {ClearHubFeature, ClearPortFeature, SetPortFeature, GetHubDescriptor, GetHubStatus, GetPortStatus}"
    by auto
  then show ?thesis
    by cases
       (use wf h clear_oc get_desc get_hub get_port clear set in
         \<open>auto simp: virtusb_hcd_hub_control_def Let_def wp elim!: runs_mono\<close>)
qed

text \<open>A request of the USB core keeps the invariant of the whole data plane.\<close>

lemma hub_request_more:
  assumes "hub_request_ok h s s'"
  shows "topo.more s' = topo.more s"
  using assms by (simp add: hub_request_ok_def layout_more)

lemma kobj_fields_more:
  assumes "topo.more s' = topo.more s"
  shows "kobj.more s' = kobj.more s" "load_obj d s' = load_obj d s" "registry s' = registry s"
    "next_object_id s' = next_object_id s" "next_addr s' = next_addr s"
  using assms by (cases s; cases s'; simp add: load_obj_def)+

lemma back_wf_hub_request:
  assumes wf: "back_wf_upto E held pins s" and req: "hub_request_ok h s s'"
  shows "back_wf_upto E held pins s'"
proof (rule back_wf_kobj [OF wf])
  note more = hub_request_more [OF req]
  show "dev_wf (\<lambda>d. held d + (card (sessions d s) + card (users d s))) s'"
    by (rule dev_wf_topology [OF back_wf_dev [OF wf]]) (use req in \<open>auto simp: hub_request_ok_def\<close>)
  show "kobj.more s' = kobj.more s" "next_addr s \<le> next_addr s'"
    using kobj_fields_more [OF more] by simp_all
qed

lemma back_wf_topo: "back_wf_upto E held pins s \<Longrightarrow> topo_wf s"
  using dev_wfD(1) [OF back_wf_dev] .

end
