(* ===== verification/Virtusb_Urb_Props.thy ===== *)
theory Virtusb_Urb_Props
  imports Virtusb_Hcd_Props
begin

text \<open>
  URBs on their way into the data plane: which device a URB is routed to, and what enqueueing one
  does on every path.
\<close>

section \<open>Routing\<close>

text \<open>The device plugged into the root port the URB's USB device hangs on.\<close>

definition urb_target :: "'a topo_scheme \<Rightarrow> nat \<Rightarrow> virtusb_hub \<Rightarrow> urb \<Rightarrow> nat option" where
  "urb_target s h hub ub =
     (case urb_dev ub of
        None \<Rightarrow> None
      | Some dev \<Rightarrow>
          if ud_parent dev = Some h \<and> valid_port hub (ucast (ud_portnum dev)) then
            (case load_port (Hub_port h (unat (ucast (ud_portnum dev) - 1 :: u32))) s of
               None \<Rightarrow> None
             | Some pd \<Rightarrow> (case p_peer pd of Some (Dev_port d) \<Rightarrow> Some d | _ \<Rightarrow> None))
          else None)"

lemma virtusb_hcd_get_urb_device_ok:
  assumes wf: "topo_wf s" and h: "load_hub h s = Some hub" and u: "load_urb u s = Some ub"
  shows "virtusb_hcd_get_urb_device (Some h) (Some u) s = Some (urb_target s h hub ub)"
proof -
  note shape = topo_wf_shape [OF wf h] and ports = topo_wf_ports [OF wf]
  have route: "do {
      downstream \<leftarrow> virtusb_hub_get_port (Some h) n s;
      (case downstream of
         None \<Rightarrow> Some None
       | Some down \<Rightarrow> do {
           pd \<leftarrow> load_port down s;
           (case p_peer pd of
              None \<Rightarrow> Some None
            | Some up \<Rightarrow> do {
                pu \<leftarrow> load_port up s;
                if p_role pu \<noteq> VIRTUSB_PORT_ROLE_UPSTREAM then Some None
                else (case p_owner pu of
                        None \<Rightarrow> Some None
                      | Some (Own_dev d) \<Rightarrow> Some (Some d)
                      | Some (Own_hub _) \<Rightarrow> None)
              }) }) } =
     Some (if valid_port hub n then
             (case load_port (Hub_port h (unat (n - 1))) s of
                None \<Rightarrow> None
              | Some pd \<Rightarrow> (case p_peer pd of Some (Dev_port d) \<Rightarrow> Some d | _ \<Rightarrow> None))
           else None)" for n
  proof (cases "valid_port hub n")
    case True
    with shape obtain i where i: "unat (n - 1) = i" "i < unat (hub_port_count hub)" by (rule valid_portD)
    note p = hub_port_alloc [OF h shape i(2)]
    show ?thesis
    proof (cases "p_peer (hub_ports hub ! i)")
      case None
      with True h i p show ?thesis by (simp add: virtusb_hub_get_port_ok)
    next
      case (Some b)
      with ports p(1) obtain d pu where "b = Dev_port d" "load_port (Dev_port d) s = Some pu"
        "p_role pu = VIRTUSB_PORT_ROLE_UPSTREAM" "p_owner pu = Some (Own_dev d)"
        by (rule peer_of_hub_port)
      with True h i p Some show ?thesis by (simp add: virtusb_hub_get_port_ok)
    qed
  qed (use h in \<open>simp add: virtusb_hub_get_port_ok\<close>)
  show ?thesis
    using u by (simp add: virtusb_hcd_get_urb_device_def urb_target_def Let_def route split: option.split)
qed

lemma urb_target_alloc:
  assumes "dev_wf held s" and "urb_target s h hub ub = Some d"
  obtains ob where "load_obj d s = Some ob"
proof -
  from assms(2) obtain i pd where "load_port (Hub_port h i) s = Some pd" "p_peer pd = Some (Dev_port d)"
    by (auto simp: urb_target_def split: option.splits if_splits port_ptr.splits)
  with topo_wf_ports [OF dev_wfD(1) [OF assms(1)]] obtain p where "load_port (Dev_port d) s = Some p"
    by (rule ports_wf_peer)
  with assms(1) obtain ob where "load_obj d s = Some ob" by (rule dev_obj_alloc)
  then show thesis by (rule that)
qed

section \<open>The pipe word\<close>

lemma usb_pipeendpoint_bound: "unat (ucast (usb_pipeendpoint pipe) :: u8) \<le> 15"
proof -
  have eq: "(0xf :: u32) = mask 4" by (simp add: mask_eq_exp_minus_1)
  have "usb_pipeendpoint pipe < 2 ^ 4" unfolding usb_pipeendpoint_def eq by (rule and_mask_less') simp
  then have "unat (usb_pipeendpoint pipe) < 16" by (simp add: word_less_nat_alt)
  then show ?thesis by (simp add: unsigned_ucast_eq unsigned_take_bit_eq take_bit_nat_eq_self)
qed

text \<open>Two bits name four types, so the default branch of the switch is never taken.\<close>

lemma transfer_type_total: "\<exists>type. virtusb_hcd_get_transfer_type (Some ub) = (0, Some type)"
proof -
  have eq: "(3 :: u32) = mask 2" by (simp add: mask_eq_exp_minus_1)
  have "usb_pipetype (urb_pipe ub) < 2 ^ 2" unfolding usb_pipetype_def eq by (rule and_mask_less') simp
  then have "unat (usb_pipetype (urb_pipe ub)) < 4" by (simp add: word_less_nat_alt)
  then have "unat (usb_pipetype (urb_pipe ub)) = 0 \<or> unat (usb_pipetype (urb_pipe ub)) = 1 \<or>
      unat (usb_pipetype (urb_pipe ub)) = 2 \<or> unat (usb_pipetype (urb_pipe ub)) = 3" by auto
  then have "usb_pipetype (urb_pipe ub) = 0 \<or> usb_pipetype (urb_pipe ub) = 1 \<or>
      usb_pipetype (urb_pipe ub) = 2 \<or> usb_pipetype (urb_pipe ub) = 3"
    by (simp add: word_unat_eq_iff)
  then show ?thesis by (auto simp: virtusb_hcd_get_transfer_type_def)
qed

definition urb_type :: "urb \<Rightarrow> virtusb_transfer_type" where
  "urb_type ub = the (snd (virtusb_hcd_get_transfer_type (Some ub)))"

definition urb_direction :: "urb \<Rightarrow> virtusb_transfer_direction" where
  "urb_direction ub = (if usb_pipein (urb_pipe ub) then VIRTUSB_TRANSFER_DIRECTION_IN else VIRTUSB_TRANSFER_DIRECTION_OUT)"

lemma virtusb_hcd_get_transfer_type_ok: "virtusb_hcd_get_transfer_type (Some ub) = (0, Some (urb_type ub))"
  using transfer_type_total [of ub] by (auto simp: urb_type_def)

section \<open>Enqueueing\<close>

text \<open>What the USB core promises of a URB: whole setup packets, and buffers of the stated length.\<close>

definition urb_ok :: "urb \<Rightarrow> bool" where
  "urb_ok ub \<longleftrightarrow>
     (\<forall>p. urb_setup_packet ub = Some p \<longrightarrow> 8 \<le> length p) \<and>
     (\<forall>buf. urb_transfer_buffer ub = Some buf \<longrightarrow> unat (urb_transfer_buffer_length ub) \<le> length buf) \<and>
     (usb_pipein (urb_pipe ub) \<longrightarrow> urb_transfer_buffer_length ub \<noteq> 0 \<longrightarrow> urb_transfer_buffer ub \<noteq> None)"

text \<open>The transfer made for a URB.\<close>

definition urb_packet :: "urb \<Rightarrow> u8 list option" where
  "urb_packet ub = (if urb_type ub = VIRTUSB_TRANSFER_TYPE_CONTROL then urb_setup_packet ub else None)"

definition urb_data :: "urb \<Rightarrow> u8 list option" where
  "urb_data ub = (if urb_direction ub = VIRTUSB_TRANSFER_DIRECTION_OUT \<and> urb_transfer_buffer_length ub > 0
                  then urb_transfer_buffer ub else None)"

definition urb_transfer :: "(nat \<Rightarrow> u8) \<Rightarrow> u64 \<Rightarrow> nat \<Rightarrow> urb \<Rightarrow> virtusb_transfer" where
  "urb_transfer junk i d ub = created_transfer junk i d (urb_type ub) (urb_direction ub)
     (ucast (usb_pipeendpoint (urb_pipe ub))) (urb_packet ub) (urb_data ub) (ucast (urb_transfer_buffer_length ub))"

text \<open>The error of the checks before a transfer is made, and of all checks.\<close>

definition urb_refused :: "urb \<Rightarrow> int" where
  "urb_refused ub =
     (if urb_num_sgs ub \<noteq> 0 \<or> urb_number_of_packets ub \<noteq> 0 then - EOPNOTSUPP
      else if urb_type ub = VIRTUSB_TRANSFER_TYPE_CONTROL \<and> urb_setup_packet ub = None then - EINVAL
      else if urb_direction ub = VIRTUSB_TRANSFER_DIRECTION_OUT \<and> urb_transfer_buffer_length ub > 0 \<and>
              urb_transfer_buffer ub = None then - EINVAL
      else 0)"

definition enqueue_error :: "bool \<Rightarrow> bool \<Rightarrow> bool \<Rightarrow> int \<Rightarrow> virtusb_backend \<Rightarrow> nat option \<Rightarrow> urb \<Rightarrow> int" where
  "enqueue_error mem buf_mem req_mem link_ret b target ub =
     (case target of
        None \<Rightarrow> - ENODEV
      | Some d \<Rightarrow>
          if urb_refused ub < 0 then urb_refused ub
          else if \<not> mem \<or> urb_transfer_buffer_length ub \<noteq> 0 \<and> \<not> buf_mem then - ENOMEM
          else if unat (urb_transfer_buffer_length ub) > VIRTUSB_TRANSFER_DATA_MAX then - EMSGSIZE
          else if \<not> req_mem then - ENOMEM
          else submit_error b link_ret d)"

lemma ucast_buffer_length:
  "(ucast (n :: u32) :: u64) > VIRTUSB_TRANSFER_DATA_MAX \<longleftrightarrow> unat n > VIRTUSB_TRANSFER_DATA_MAX"
  "(ucast n :: u64) = 0 \<longleftrightarrow> n = 0"
  by (simp_all add: word_less_nat_alt ucast_len word_unat_eq_iff)

lemma urb_transfer_facts:
  assumes ok: "urb_ok ub" and go: "urb_refused ub = 0"
  shows "transfer_args_ok (urb_type ub) (urb_direction ub) (ucast (usb_pipeendpoint (urb_pipe ub)))
           (urb_packet ub) (urb_data ub) (ucast (urb_transfer_buffer_length ub))"
    and "transfer_ok (urb_transfer junk i d ub)"
    and "urb_packet ub = Some p \<Longrightarrow> 8 \<le> length p"
    and "urb_direction ub = VIRTUSB_TRANSFER_DIRECTION_OUT \<Longrightarrow> urb_transfer_buffer_length ub \<noteq> 0 \<Longrightarrow>
           urb_data ub \<noteq> None \<and> unat (urb_transfer_buffer_length ub) \<le> length (the (urb_data ub))"
    and "urb_room ub (urb_transfer junk i d ub)"
proof -
  show args: "transfer_args_ok (urb_type ub) (urb_direction ub) (ucast (usb_pipeendpoint (urb_pipe ub)))
           (urb_packet ub) (urb_data ub) (ucast (urb_transfer_buffer_length ub))"
    using go usb_pipeendpoint_bound
    by (auto simp: transfer_args_ok_def urb_refused_def urb_packet_def urb_data_def ucast_buffer_length word_neq_0_conv
        split: if_splits)
  show packet: "8 \<le> length p" if "urb_packet ub = Some p" for p
    using that ok by (auto simp: urb_packet_def urb_ok_def split: if_splits)
  show data: "urb_data ub \<noteq> None \<and> unat (urb_transfer_buffer_length ub) \<le> length (the (urb_data ub))"
    if "urb_direction ub = VIRTUSB_TRANSFER_DIRECTION_OUT" "urb_transfer_buffer_length ub \<noteq> 0"
    using that ok go by (auto simp: urb_data_def urb_ok_def urb_refused_def word_neq_0_conv split: if_splits)
  show "transfer_ok (urb_transfer junk i d ub)"
    unfolding urb_transfer_def using data
    by (intro transfer_ok_created [OF args packet]) (simp_all add: ucast_len ucast_buffer_length)
  show "urb_room ub (urb_transfer junk i d ub)"
    using ok by (auto simp: urb_room_def urb_transfer_def created_transfer_def urb_ok_def urb_direction_def
        ucast_buffer_length ucast_len split: if_splits)
qed

text \<open>The creator drops its reference: a transfer nobody queued goes away without a trace.\<close>

lemma put_created:
  assumes wf: "back_wf held (pins(t := 1)) s" and fresh: "pins t = 0" and tr: "load_trans t s = Some tr"
  shows "runs (virtusb_transfer_put (Some t) s) (\<lambda>s'. back_wf held pins s' \<and>
    (\<forall>u. load_trans u s' = (if u \<noteq> t then load_trans u s
       else if t \<in> queued s then Some (tr\<lparr>t_refcount := 1\<rparr>) else None)) \<and>
    (\<forall>g. load_back g s' = load_back g s) \<and> (\<forall>u. load_urb u s' = load_urb u s) \<and> linked s' = linked s \<and>
    givebacks s' = givebacks s \<and> wakeups s' = wakeups s \<and> (\<forall>g. load_hub g s' = load_hub g s) \<and>
    kback.more s' = kback.more s \<and> registry s' = registry s)"
proof -
  have "0 < (pins(t := 1)) t" by simp
  note put = back_wf_transfer_put [OF wf this]
  have pins: "(pins(t := 1))(t := (pins(t := 1)) t - 1) = pins" using fresh by auto
  have "t_refcount tr = 1 + (if t \<in> queued s then 1 else 0)"
    using trans_wfD(3) [OF back_wfD(1) [OF wf] tr] by simp
  then show ?thesis
    using put(2) [unfolded pins] put(1) tr by (simp add: load_trans_trans_put_result)
qed

lemma registry_submitted [simp]: "load_back h s = Some b \<Longrightarrow> load_trans t s = Some tr \<Longrightarrow> registry (submitted h u t s) = registry s"
  by (simp add: submitted_def put_back_def put_trans_def)

lemma queued_same: "(\<And>g. load_back g s' = load_back g s) \<Longrightarrow> queued s' = queued s"
  by (rule queued_cong)

text \<open>The state in which the new transfer is handed to the data plane.\<close>

lemma submit_created:
  fixes junk :: "nat \<Rightarrow> u8"
  assumes wf: "back_wf held pins s" and b: "load_back h s = Some b" and u: "load_urb u s = Some ub"
    and free: "\<And>g t. (g, u, t) \<notin> requests s" and ok: "urb_ok ub" "urb_refused ub = 0" and link: "link_ret \<le> 0"
    and ob: "load_obj d s = Some ob" and small: "\<not> unat (urb_transfer_buffer_length ub) > VIRTUSB_TRANSFER_DATA_MAX"
  defines "t \<equiv> next_addr s"
  defines "tr \<equiv> urb_transfer junk (next_transfer_id s + 1) d ub"
  defines "s1 \<equiv> add_trans d tr s"
  shows "runs (do { (ret, s) \<leftarrow> virtusb_backend_submit req_mem link_ret (Some h) (Some h) (Some u) (Some t) s1;
                    s \<leftarrow> virtusb_transfer_put (Some t) s;
                    Some (ret, s) }) (\<lambda>(ret, s').
    back_wf held pins s' \<and> (\<forall>v. load_urb v s' = load_urb v s) \<and> givebacks s' = givebacks s \<and>
    (\<forall>g. load_hub g s' = load_hub g s) \<and> kback.more s' = kback.more s \<and> registry s' = registry s \<and>
    (let e = (if \<not> req_mem then - ENOMEM else submit_error b link_ret d) in
     if e < 0
     then ret = e \<and> (\<forall>g. load_back g s' = load_back g s) \<and> linked s' = linked s \<and> wakeups s' = wakeups s \<and>
          (\<forall>t'. load_trans t' s' = load_trans t' s)
     else ret = 0 \<and> wakeups s' = h # wakeups s \<and> linked s' = (linked s)(u := True) \<and>
          (\<forall>g. load_back g s' = (if g = h
             then Some (b\<lparr>pending := pending b @ [\<lparr>req_urb = u, req_transfer = t, req_owner = None\<rparr>]\<rparr>) else load_back g s)) \<and>
          (\<forall>t'. load_trans t' s' = (if t' = t then Some (tr\<lparr>t_state := VIRTUSB_TRANSFER_STATE_QUEUED\<rparr>) else load_trans t' s))))"
proof -
  let ?pins = "pins(t := 1)"
  have tr: "t_device tr = d" "transfer_ok tr" "t_refcount tr = 1" "t_state tr = VIRTUSB_TRANSFER_STATE_NEW"
    "t_requested_length tr = ucast (urb_transfer_buffer_length ub)" "urb_room ub tr"
    unfolding tr_def using urb_transfer_facts(2,5) [OF ok] by (simp_all add: urb_transfer_def created_transfer_def)
  note add = back_wf_add_trans [OF wf ob tr(1-3), folded s1_def, folded t_def]
  have load: "load_trans t s1 = Some tr" "load_back h s1 = Some b" "load_urb u s1 = Some ub"
    using b u by (simp_all add: s1_def t_def)
  have old: "load_trans t s = None" unfolding t_def by (rule next_addr_free_trans(1) [OF back_wfD(1) [OF wf]])
  have reqs: "requests s1 = requests s" by (simp add: s1_def requests_def)
  have free1: "(g, u, t') \<notin> requests s1" for g t' using free by (simp add: reqs)
  have q1: "t \<notin> queued s1" using add(2) by (simp add: queued_def reqs)
  have max: "\<not> t_requested_length tr > VIRTUSB_TRANSFER_DATA_MAX"
    using small by (simp only: tr(5) ucast_buffer_length not_False_eq_True)
  note run = virtusb_backend_submit_cases [OF add(1) load(2,1) link, of req_mem u]
  let ?e = "submit_error b link_ret d"
  have same: "load_back g s1 = load_back g s" "load_urb v s1 = load_urb v s" "linked s1 = linked s"
    "givebacks s1 = givebacks s" "wakeups s1 = wakeups s"
    "load_hub g s1 = load_hub g s" "kback.more s1 = kback.more s" "registry s1 = registry s"
    "load_trans t' s1 = (if t' = t then Some tr else load_trans t' s)" for g v t'
    by (simp_all add: s1_def t_def)
  consider "\<not> req_mem" | "req_mem" "?e < 0" | "req_mem" "\<not> ?e < 0" by blast
  then show ?thesis
  proof cases
    case 1
    with max run have "virtusb_backend_submit req_mem link_ret (Some h) (Some h) (Some u) (Some t) s1 = Some (- ENOMEM, s1)"
      by simp
    with put_created [where pins = pins and t = t, OF add(1) add(3) load(1)] 1 q1 same old show ?thesis by (auto simp: wp elim!: runs_mono)
  next
    case 2
    let ?tr = "tr\<lparr>t_actual_length := 0, t_status := ?e, t_state := VIRTUSB_TRANSFER_STATE_CANCELLED\<rparr>"
    let ?s2 = "put_trans t ?tr s1"
    have "virtusb_backend_submit req_mem link_ret (Some h) (Some h) (Some u) (Some t) s1 = Some (?e, ?s2)"
      using 2 max run tr by simp
    moreover have "back_wf held ?pins ?s2"
      using tr(4) q1 by (intro back_wf_step [OF add(1) load(1)] transfer_step.cancel) (simp_all add: transfer_active_def)
    then have "runs (virtusb_transfer_put (Some t) ?s2) (\<lambda>s'. back_wf held pins s' \<and>
        (\<forall>u. load_trans u s' = (if u \<noteq> t then load_trans u ?s2
           else if t \<in> queued ?s2 then Some (?tr\<lparr>t_refcount := 1\<rparr>) else None)) \<and>
        (\<forall>g. load_back g s' = load_back g ?s2) \<and> (\<forall>u. load_urb u s' = load_urb u ?s2) \<and> linked s' = linked ?s2 \<and>
        givebacks s' = givebacks ?s2 \<and> wakeups s' = wakeups ?s2 \<and> (\<forall>g. load_hub g s' = load_hub g ?s2) \<and>
        kback.more s' = kback.more ?s2 \<and> registry s' = registry ?s2)"
      by (rule put_created [where pins = pins and t = t, OF _ add(3)]) simp
    ultimately show ?thesis using 2 q1 same old by (auto simp: wp Let_def elim!: runs_mono)
  next
    case 3
    let ?s2 = "submitted h u t s1" and ?r = "\<lparr>req_urb = u, req_transfer = t, req_owner = None\<rparr>"
    let ?tr = "tr\<lparr>t_refcount := 2, t_state := VIRTUSB_TRANSFER_STATE_QUEUED\<rparr>"
    have run2: "virtusb_backend_submit req_mem link_ret (Some h) (Some h) (Some u) (Some t) s1 = Some (0, ?s2)"
      using 3 max run tr by simp
    have dev: "t_device tr \<in> bind_device ` set (bindings b)"
      using 3 by (auto simp: submit_error_def tr(1) split: if_splits)
    have wf2: "back_wf held ?pins ?s2"
      using max dev tr(4,6) free1 by (intro back_wf_submitted [OF add(1) load(2,1) _ _ _ load(3)]) (simp_all add: not_less)
    note sel = submitted_sel [OF load(2,1), where u = u]
    have tr2: "load_trans t ?s2 = Some ?tr" using tr(3) by (simp add: sel(2))
    have b2: "load_back h ?s2 = Some (b\<lparr>pending := pending b @ [?r]\<rparr>)" by (simp add: sel(1))
    have q2: "t \<in> queued ?s2" using requestsI [OF b2, of ?r] by (auto simp: queued_def)
    have "runs (virtusb_transfer_put (Some t) ?s2) (\<lambda>s'. back_wf held pins s' \<and>
        (\<forall>v. load_urb v s' = load_urb v s) \<and> givebacks s' = givebacks s \<and> wakeups s' = h # wakeups s \<and>
        (\<forall>g. load_hub g s' = load_hub g s) \<and> kback.more s' = kback.more s \<and> registry s' = registry s \<and>
        linked s' = (linked s)(u := True) \<and>
        (\<forall>g. load_back g s' = (if g = h then Some (b\<lparr>pending := pending b @ [?r]\<rparr>) else load_back g s)) \<and>
        (\<forall>t'. load_trans t' s' = (if t' = t then Some (?tr\<lparr>t_refcount := 1\<rparr>) else load_trans t' s)))"
      by (rule runs_mono [OF put_created [where pins = pins and t = t, OF wf2 add(3) tr2]]) (simp add: sel same q2 registry_submitted [OF load(2,1)])
    moreover have "?tr\<lparr>t_refcount := 1\<rparr> = tr\<lparr>t_state := VIRTUSB_TRANSFER_STATE_QUEUED\<rparr>"
      using tr(3) by (cases tr) simp
    ultimately show ?thesis
      unfolding run2 using 3 by (auto simp: wp elim!: runs_mono)
  qed
qed

lemma urb_refused_cases: "urb_refused ub < 0 \<or> urb_refused ub = 0"
  by (simp add: urb_refused_def)

lemma virtusb_hcd_urb_enqueue_unfold:
  assumes wf: "topo_wf s" and hub: "load_hub h s = Some hub" and u: "load_urb u s = Some ub" and ok: "urb_ok ub"
    and d: "urb_target s h hub ub = Some d" and ob: "load_obj d s = Some ob"
  defines "t \<equiv> next_addr s"
  shows "virtusb_hcd_urb_enqueue mem buf_mem junk req_mem link_ret (Some h) (Some u) s =
    (if urb_refused ub < 0 then Some (urb_refused ub, s)
     else if \<not> mem \<or> urb_transfer_buffer_length ub \<noteq> 0 \<and> \<not> buf_mem then Some (- ENOMEM, s)
     else let s1 = add_trans d (urb_transfer junk (next_transfer_id s + 1) d ub) s in
       if unat (urb_transfer_buffer_length ub) > VIRTUSB_TRANSFER_DATA_MAX
       then do { s \<leftarrow> virtusb_transfer_put (Some t) s1; Some (- EMSGSIZE, s) }
       else do { (ret, s) \<leftarrow> virtusb_backend_submit req_mem link_ret (Some h) (Some h) (Some u) (Some t) s1;
                 s \<leftarrow> virtusb_transfer_put (Some t) s;
                 Some (ret, s) })"
proof -
  note dev = virtusb_hcd_get_urb_device_ok [OF wf hub u, unfolded d]
  have packet: "(if urb_type ub = VIRTUSB_TRANSFER_TYPE_CONTROL then urb_setup_packet ub else None) = urb_packet ub"
    by (simp add: urb_packet_def)
  show ?thesis
  proof (cases "urb_refused ub < 0")
    case True
    then consider "urb_num_sgs ub \<noteq> 0 \<or> urb_number_of_packets ub \<noteq> 0"
      | "urb_num_sgs ub = 0" "urb_number_of_packets ub = 0" "urb_type ub = VIRTUSB_TRANSFER_TYPE_CONTROL" "urb_setup_packet ub = None"
      | "urb_num_sgs ub = 0" "urb_number_of_packets ub = 0" "\<not> (urb_type ub = VIRTUSB_TRANSFER_TYPE_CONTROL \<and> urb_setup_packet ub = None)"
        "\<not> usb_pipein (urb_pipe ub)" "urb_transfer_buffer_length ub > 0" "urb_transfer_buffer ub = None"
      by (auto simp: urb_refused_def urb_direction_def split: if_splits)
    then show ?thesis
      unfolding virtusb_hcd_urb_enqueue_def
      by cases (auto simp: dev u virtusb_hcd_get_transfer_type_ok Let_def urb_refused_def urb_direction_def)
  next
    case False
    then have go: "urb_refused ub = 0" using urb_refused_cases by blast
    note facts = urb_transfer_facts [OF ok go]
    have create: "virtusb_transfer_create mem buf_mem junk (Some d) (urb_type ub) (urb_direction ub)
        (ucast (usb_pipeendpoint (urb_pipe ub))) (urb_packet ub) (urb_data ub) (ucast (urb_transfer_buffer_length ub)) s =
      (if \<not> mem \<or> urb_transfer_buffer_length ub \<noteq> 0 \<and> \<not> buf_mem then Some (None, s)
       else Some (Some t, add_trans d (urb_transfer junk (next_transfer_id s + 1) d ub) s))"
      using facts(1) unfolding t_def urb_transfer_def
      by (subst virtusb_transfer_create_cases [OF ob facts(3)]) (use facts(4) in \<open>simp_all add: ucast_buffer_length ucast_len\<close>)
    have len: "t_requested_length (urb_transfer junk i d ub) = ucast (urb_transfer_buffer_length ub)" for i
      by (simp add: urb_transfer_def created_transfer_def)
    have enq: "virtusb_hcd_urb_enqueue mem buf_mem junk req_mem link_ret (Some h) (Some u) s = do {
        (transfer, s) \<leftarrow> virtusb_transfer_create mem buf_mem junk (Some d) (urb_type ub) (urb_direction ub)
          (ucast (usb_pipeendpoint (urb_pipe ub))) (urb_packet ub) (urb_data ub) (ucast (urb_transfer_buffer_length ub)) s;
        (case transfer of
           None \<Rightarrow> Some (- ENOMEM, s)
         | Some t \<Rightarrow> do {
             tr \<leftarrow> load_trans t s;
             if t_requested_length tr > VIRTUSB_TRANSFER_DATA_MAX then do {
               s \<leftarrow> virtusb_transfer_put transfer s;
               Some (- EMSGSIZE, s)
             }
             else do {
               (ret, s) \<leftarrow> virtusb_backend_submit req_mem link_ret (Some h) (Some h) (Some u) transfer s;
               s \<leftarrow> virtusb_transfer_put transfer s;
               Some (ret, s)
             }
           }) }"
      using go unfolding virtusb_hcd_urb_enqueue_def
      by (simp add: dev u virtusb_hcd_get_transfer_type_ok Let_def packet urb_data_def [symmetric] urb_direction_def [symmetric])
         (auto simp: urb_refused_def urb_direction_def split: if_splits)
    show ?thesis
      using False unfolding enq create
      by (simp add: Let_def t_def len ucast_buffer_length)
  qed
qed

lemma virtusb_hcd_urb_enqueue_ok:
  fixes mem buf_mem req_mem :: bool
  assumes wf: "back_wf held pins s" and hub: "load_hub h s = Some hub" and b: "load_back h s = Some b"
    and u: "load_urb u s = Some ub" and free: "\<And>g t. (g, u, t) \<notin> requests s" and ok: "urb_ok ub" and link: "link_ret \<le> 0"
  defines "target \<equiv> urb_target s h hub ub"
  defines "e \<equiv> enqueue_error mem buf_mem req_mem link_ret b target ub"
  shows "runs (virtusb_hcd_urb_enqueue mem buf_mem junk req_mem link_ret (Some h) (Some u) s) (\<lambda>(ret, s').
    ret = e \<and> back_wf held pins s' \<and> (\<forall>v. load_urb v s' = load_urb v s) \<and> givebacks s' = givebacks s \<and>
    (\<forall>g. load_hub g s' = load_hub g s) \<and> kback.more s' = kback.more s \<and> registry s' = registry s \<and>
    (if e < 0
     then (\<forall>g. load_back g s' = load_back g s) \<and> linked s' = linked s \<and> wakeups s' = wakeups s \<and>
          (\<forall>t. load_trans t s' = load_trans t s)
     else \<exists>t d. load_trans t s = None \<and> target = Some d \<and> wakeups s' = h # wakeups s \<and> linked s' = (linked s)(u := True) \<and>
          (\<forall>g. load_back g s' = (if g = h
             then Some (b\<lparr>pending := pending b @ [\<lparr>req_urb = u, req_transfer = t, req_owner = None\<rparr>]\<rparr>) else load_back g s)) \<and>
          (\<forall>t'. load_trans t' s' = (if t' = t
             then Some ((urb_transfer junk (next_transfer_id s + 1) d ub)\<lparr>t_state := VIRTUSB_TRANSFER_STATE_QUEUED\<rparr>)
             else load_trans t' s))))"
proof (cases target)
  case None
  with wf u hub show ?thesis
    using virtusb_hcd_get_urb_device_ok [OF back_wf_topo [OF wf] hub u]
    by (simp add: e_def target_def enqueue_error_def virtusb_hcd_urb_enqueue_def)
next
  case (Some d)
  from urb_target_alloc [OF back_wf_dev [OF wf] Some [unfolded target_def]] obtain ob where ob: "load_obj d s = Some ob" by blast
  note unf = virtusb_hcd_urb_enqueue_unfold [OF back_wf_topo [OF wf] hub u ok Some [unfolded target_def] ob,
      of mem buf_mem junk req_mem link_ret]
  let ?t = "next_addr s" and ?tr = "urb_transfer junk (next_transfer_id s + 1) d ub"
  have fresh: "load_trans ?t s = None" by (rule next_addr_free_trans(1) [OF back_wfD(1) [OF wf]])
  consider (refused) "urb_refused ub < 0 \<or> \<not> mem \<or> urb_transfer_buffer_length ub \<noteq> 0 \<and> \<not> buf_mem"
    | (big) "urb_refused ub = 0" "mem" "urb_transfer_buffer_length ub \<noteq> 0 \<longrightarrow> buf_mem"
        "unat (urb_transfer_buffer_length ub) > VIRTUSB_TRANSFER_DATA_MAX"
    | (go) "urb_refused ub = 0" "mem" "urb_transfer_buffer_length ub \<noteq> 0 \<longrightarrow> buf_mem"
        "\<not> unat (urb_transfer_buffer_length ub) > VIRTUSB_TRANSFER_DATA_MAX"
    using urb_refused_cases [of ub] by blast
  then show ?thesis
  proof cases
    case refused
    then show ?thesis unfolding unf using wf by (auto simp: e_def enqueue_error_def Some)
  next
    case big
    have tr: "t_device ?tr = d" "transfer_ok ?tr" "t_refcount ?tr = 1"
      using urb_transfer_facts(2) [OF ok big(1)] by (simp_all add: urb_transfer_def created_transfer_def)
    note add = back_wf_add_trans [OF wf ob tr]
    have "?t \<notin> queued (add_trans d ?tr s)" using add(2) by (simp add: queued_cong [of "add_trans d ?tr s" s])
    with put_created [where pins = pins and t = ?t, OF add(1) add(3), of ?tr] fresh
    have "runs (virtusb_transfer_put (Some ?t) (add_trans d ?tr s)) (\<lambda>s'. back_wf held pins s' \<and>
        (\<forall>v. load_urb v s' = load_urb v s) \<and> givebacks s' = givebacks s \<and> (\<forall>g. load_back g s' = load_back g s) \<and>
        (\<forall>g. load_hub g s' = load_hub g s) \<and> kback.more s' = kback.more s \<and> registry s' = registry s \<and> linked s' = linked s \<and> wakeups s' = wakeups s \<and> (\<forall>t. load_trans t s' = load_trans t s))"
      by (auto elim!: runs_mono)
    with big show ?thesis unfolding unf by (auto simp: e_def enqueue_error_def Some Let_def wp elim!: runs_mono)
  next
    case go
    have e: "e = (if \<not> req_mem then - ENOMEM else submit_error b link_ret d)"
      using go by (cases "urb_transfer_buffer_length ub = 0") (simp_all add: e_def enqueue_error_def Some)
    have "submit_error b link_ret d \<le> 0" using link by (simp add: submit_error_def)
    then have e0: "\<not> e < 0 \<Longrightarrow> e = 0" using e by (cases req_mem) simp_all
    have run: "virtusb_hcd_urb_enqueue mem buf_mem junk req_mem link_ret (Some h) (Some u) s =
        do { (ret, s) \<leftarrow> virtusb_backend_submit req_mem link_ret (Some h) (Some h) (Some u) (Some ?t) (add_trans d ?tr s);
             s \<leftarrow> virtusb_transfer_put (Some ?t) s; Some (ret, s) }"
      using go unfolding unf by (auto simp: Let_def)
    show ?thesis
    proof (cases "e < 0")
      case True
      with e Some show ?thesis
        unfolding run
        by (intro runs_mono [OF submit_created [OF wf b u free ok go(1) link ob go(4), where junk = junk and req_mem = req_mem]])
           (auto simp: Let_def)
    next
      case False
      with e have r: "req_mem" "\<not> submit_error b link_ret d < 0" by (cases req_mem; simp)+
      from False e0 have "e = 0" by blast
      with r fresh Some show ?thesis
        unfolding run
        by (intro runs_mono [OF submit_created [OF wf b u free ok go(1) link ob go(4), where junk = junk and req_mem = req_mem]])
           (auto simp: Let_def)
    qed
  qed
qed

end
