(* ===== verification/Virtusb_Host.thy ===== *)
theory Virtusb_Host
  imports Virtusb_Urb_Props
begin

text \<open>
  The properties of the host-controller driver: what the USB core reads of the root hub, that no
  root-hub request breaks the invariant, and the way of a URB through the data plane and back.
\<close>

section \<open>Root-hub requests\<close>

lemma load_example_kback: "load_hub 0 example_kback = Some example_hub" "topo_wf example_kback"
  using back_wf_topo [OF back_wf_example] by (simp_all add: load_hub_def example_kback_def example_topo_def)

text \<open>C17: whatever request the USB core makes of the root hub, known or unknown, with any values in
  the setup packet: the call touches valid memory only, writes inside the caller's buffer, keeps
  the invariant of the whole driver, and leaves every device's end of its cable and the data plane
  alone. Requests to read change nothing, and unknown ones stall.\<close>

theorem hcd_hub_control_safe:
  assumes wf: "back_wf held pins s" and h: "load_hub h s = Some hub" and buf: "15 \<le> length buf"
  shows "runs (virtusb_hcd_hub_control h type_req value index buf len s) (\<lambda>(ret, buf', s').
    back_wf held pins s' \<and> length buf' = length buf \<and> kobj.more s' = kobj.more s \<and>
    (\<forall>d. load_port (Dev_port d) s' = load_port (Dev_port d) s) \<and>
    (type_req \<notin> {ClearHubFeature, ClearPortFeature, SetPortFeature} \<longrightarrow> s' = s) \<and>
    (type_req \<notin> {GetHubDescriptor, GetHubStatus, GetPortStatus} \<longrightarrow> buf' = buf) \<and>
    (type_req \<notin> {ClearHubFeature, ClearPortFeature, SetPortFeature, GetHubDescriptor, GetHubStatus, GetPortStatus}
       \<longrightarrow> ret = - EPIPE))"
proof -
  have keep: "back_wf held pins s' \<and> kobj.more s' = kobj.more s \<and>
      (\<forall>d. load_port (Dev_port d) s' = load_port (Dev_port d) s)" if "hub_request_ok h s s'" for s'
    using back_wf_hub_request [OF wf that] kobj_fields_more(1) [OF hub_request_more [OF that]] that
    by (simp add: hub_request_ok_def)
  show ?thesis
    by (rule runs_mono [OF virtusb_hcd_hub_control_ok [OF back_wf_topo [OF wf] h buf]])
       (simp only: split_paired_all split_conv, use keep in blast)
qed

theorem hcd_hub_control_safe_witness:
  "runs (virtusb_hcd_hub_control 0 SetPortFeature USB_PORT_FEAT_RESET 1 (replicate 15 0) 0 example_kback)
     (\<lambda>(ret, buf, s'). back_wf (\<lambda>_. 0) (\<lambda>_. 0) s' \<and> buf = replicate 15 0)"
  by (rule runs_mono [OF hcd_hub_control_safe [OF back_wf_example load_example_kback(1)]]) auto

text \<open>C18: GetPortStatus answers for the ports of the hub and only for them. Each bit of
  wPortStatus tells the truth about the topology (a connection is a powered, plugged and signaling
  device; the speed bits are the packed speed) and each bit of wPortChange is the recorded change;
  bits that stand for nothing are clear.\<close>

theorem hcd_get_port_status_words:
  fixes index :: u16
  assumes wf: "topo_wf s" and h: "load_hub h s = Some hub" and buf: "4 \<le> length buf"
  defines "n \<equiv> ucast index AND 0xff :: u32"
  shows "runs (virtusb_hcd_hub_control h GetPortStatus value index buf len s) (\<lambda>(ret, buf', s'). s' = s \<and>
    (if valid_port hub n
     then ret = 0 \<and> (\<exists>status change. buf' = le16 status @ le16 change @ drop 4 buf \<and>
            (\<forall>b. bit status b \<longleftrightarrow> port_status_bit s h hub n b) \<and>
            (\<forall>b. bit change b \<longleftrightarrow> port_change_bit hub (unat n) b))
     else ret = - EPIPE \<and> buf' = buf))"
  unfolding virtusb_hcd_hub_control_def n_def [symmetric] Let_def
  by (simp add: wp) (rule runs_mono [OF virtusb_hcd_get_port_status_ok [OF wf h buf, of n]], auto)

theorem hcd_get_port_status_words_witness:
  "runs (virtusb_hcd_hub_control 0 GetPortStatus 0 1 [0, 0, 0, 0] 4 example_kback) (\<lambda>(ret, buf, _).
     ret = 0 \<and> (\<exists>status change. buf = le16 status @ le16 change \<and> bit status 0 \<and> bit status 8 \<and> change = 0))"
proof -
  have n: "ucast (1 :: u16) AND 0xff = (1 :: u32)" by simp
  have "port_connected example_kback 0 1"
    by (simp add: port_connected.simps example_kback_def example_topo_def load_port.simps load_hub_def example_ports
        example_upstream_def)
  then have "port_status_bit example_kback 0 example_hub 1 0" by (simp add: port_status_bit_def)
  moreover have "port_status_bit example_kback 0 example_hub 1 8"
    by (simp add: port_status_bit_def example_ports(1))
  moreover have "\<not> port_change_bit example_hub 1 b" for b
    by (simp add: port_change_bit_def example_hub_def fresh_hub_def zero_hub_def zero_usb_change_def)
  moreover have "w = 0" if "\<forall>b. \<not> bit w b" for w :: u16 using that by (simp add: bit_eq_iff)
  ultimately show ?thesis
    by (intro runs_mono [OF hcd_get_port_status_words [OF load_example_kback(2,1), of "[0, 0, 0, 0]" 0 1 4]])
       (auto simp: valid_port_example)
qed

text \<open>C19: the status poll returns no bytes exactly when no change is recorded; otherwise its bitmap
  has one bit for the hub and one for each port, set exactly where a change is recorded, so the
  USB core asks exactly the ports that have news.\<close>

theorem hcd_hub_status_data_bitmap:
  assumes "topo_wf s" and "load_hub h s = Some hub" and "(unat (hub_port_count hub) + 8) div 8 \<le> length buf"
  shows "runs (virtusb_hcd_hub_status_data h buf s) (\<lambda>(ret, buf'). length buf' = length buf \<and>
    (if \<exists>k. change_pending hub k
     then ret = int ((unat (hub_port_count hub) + 8) div 8) \<and>
          (\<forall>k < 8 * nat ret. bit (buf' ! (k div 8)) (k mod 8) \<longleftrightarrow> change_pending hub k)
     else ret = 0 \<and> buf' = buf))"
  by (rule virtusb_hcd_hub_status_data_ok [OF assms])

theorem hcd_hub_status_data_bitmap_witness:
  "runs (virtusb_hcd_hub_status_data 0 [0] example_kback) (\<lambda>(ret, buf). ret = 0 \<and> buf = [0])"
proof -
  have "\<not> change_pending example_hub k" for k
    by (simp add: change_pending_def port_change_bit_def example_hub_def fresh_hub_def zero_hub_def zero_usb_change_def)
  then show ?thesis
    by (intro runs_mono [OF hcd_hub_status_data_bitmap [OF load_example_kback(2,1), of "[0]"]])
       (auto simp: example_hub_sel)
qed

text \<open>Acknowledging a change of a port clears the bit of that change at that port and nothing
  else: no other change of any port is lost, and the protocol state is untouched.\<close>

lemma hcd_clear_port_feature_exact:
  assumes "topo_wf s" and "load_hub h s = Some hub" and "valid_port hub n" and "feature \<in> {16..20}"
  shows "runs (virtusb_hcd_clear_port_feature h n feature s) (\<lambda>(ret, s'). ret = 0 \<and> topo_wf s' \<and>
    (\<exists>hub'. load_hub h s' = Some hub' \<and> hub_usb hub' = hub_usb hub \<and>
       (\<forall>k b. port_change_bit hub' k b \<longleftrightarrow> port_change_bit hub k b \<and> (k \<noteq> unat n \<or> b \<noteq> unat feature - 16))))"
proof -
  have "16 \<le> feature" "feature \<in> {1, 2, 8} \<union> {16..20}" using assms(4) by simp_all
  with assms(3) show ?thesis
    by (intro runs_mono [OF virtusb_hcd_clear_port_feature_ok [OF assms(1,2)]]) (auto simp: hub_request_ok_def)
qed

lemma hcd_clear_port_feature_exact_example:
  "runs (virtusb_hcd_clear_port_feature 0 1 USB_PORT_FEAT_C_CONNECTION example_kback) (\<lambda>(ret, s').
     ret = 0 \<and> topo_wf s')"
  by (rule runs_mono [OF hcd_clear_port_feature_exact [OF load_example_kback(2,1)]])
     (auto simp: valid_port_example word_le_nat_alt)

text \<open>C20: the hub descriptor of any root hub the driver can make fits the 15 bytes of Linux's
  \<open>struct usb_hub_descriptor\<close>: its length byte is exact, the two bitmaps cover the hub and all its
  ports, and nothing behind the descriptor is written.\<close>

theorem hcd_hub_descriptor_fits:
  assumes "hub_shape hub" and "15 \<le> length buf"
  shows "runs (virtusb_hcd_get_hub_descriptor hub buf) (\<lambda>(ret, d).
    length d = length buf \<and> 9 \<le> ret \<and> ret \<le> 15 \<and> drop (nat ret) d = drop (nat ret) buf \<and>
    int (unat (d ! 0)) = ret \<and> d ! 1 = USB_DT_HUB \<and> d ! 2 = hub_port_count hub \<and>
    (let n = (nat ret - 7) div 2 in unat (hub_port_count hub) < 8 * n \<and>
       (\<forall>i < n. d ! (7 + i) = 0 \<and> d ! (7 + n + i) = 0xff)))"
proof -
  define n where "n = (unat (hub_port_count hub) + 8) div 8"
  note desc = virtusb_hcd_get_hub_descriptor_ok [OF assms, folded n_def]
  have "unat (word_of_nat (7 + 2 * n) :: u8) = 7 + 2 * n"
    using desc(3) by (simp only: unsigned_of_nat) (simp add: take_bit_nat_eq_self)
  moreover have "unat (hub_port_count hub) < 8 * n" unfolding n_def by linarith
  moreover have "7 + 2 * n \<le> length buf" using desc(3) assms(2) by simp
  moreover obtain a b where "virtusb_hcd_get_hub_descriptor hub buf =
      Some (int (7 + 2 * n), [word_of_nat (7 + 2 * n), 0x29, hub_port_count hub, a, b, 0, 0] @
        replicate n 0 @ replicate n 0xff @ drop (7 + 2 * n) buf)"
    by (simp only: desc(1) le16_def append.simps)
  moreover have "(7 + 2 * n - 7) div 2 = n" by simp
  ultimately show ?thesis
    using desc(2,3) by (simp only: runs_Some split_conv nat_int Let_def) (simp add: nth_append numeral_eq_Suc)
qed

theorem hcd_hub_descriptor_fits_witness:
  "runs (virtusb_hcd_get_hub_descriptor example_hub (replicate 15 1)) (\<lambda>(ret, d). 9 \<le> ret \<and> ret \<le> 15 \<and> d ! 2 = 2)"
  by (rule runs_mono [OF hcd_hub_descriptor_fits [OF topo_wf_shape [OF load_example_kback(2,1)]]])
     (auto simp: example_hub_sel)

section \<open>URBs\<close>

text \<open>C21: enqueueing a URB has exactly one of these outcomes, in this order of precedence: no device
  on the root port the URB's USB device hangs on, an unsupported or malformed URB, no memory, a
  buffer larger than the ABI carries, a refusal of the data plane; in each of them the URB stays
  with the USB core and no queue, transfer or link is left behind. Otherwise a new transfer with
  the contents of the URB is the last one of the pending list and the URB is linked.\<close>

theorem hcd_urb_enqueue_outcome:
  fixes mem buf_mem req_mem :: bool
  assumes "back_wf held pins s" and "load_hub h s = Some hub" and "load_back h s = Some b"
    and "load_urb u s = Some ub" and "\<And>g t. (g, u, t) \<notin> requests s" and "urb_ok ub" and "link_ret \<le> 0"
  defines "target \<equiv> urb_target s h hub ub"
  defines "e \<equiv> enqueue_error mem buf_mem req_mem link_ret b target ub"
  shows "runs (virtusb_hcd_urb_enqueue mem buf_mem junk req_mem link_ret (Some h) (Some u) s) (\<lambda>(ret, s').
    ret = e \<and> back_wf held pins s' \<and> (\<forall>v. load_urb v s' = load_urb v s) \<and> givebacks s' = givebacks s \<and>
    (\<forall>g. load_hub g s' = load_hub g s) \<and> kback.more s' = kback.more s \<and> registry s' = registry s \<and>
    (if e < 0
     then (\<forall>g. load_back g s' = load_back g s) \<and> linked s' = linked s \<and> wakeups s' = wakeups s \<and>
          (\<forall>t. load_trans t s' = load_trans t s)
     else \<exists>t d. load_trans t s = None \<and> target = Some d \<and> wakeups s' = h # wakeups s \<and> linked s' = (linked s)(u := True) \<and>
          (\<forall>g. load_back g s' = (if g = h
             then Some (b\<lparr>pending := pending b @ [\<lparr>req_urb = u, req_transfer = t, req_owner = None\<rparr>]\<rparr>) else load_back g s)) \<and>
          (\<forall>t'. load_trans t' s' = (if t' = t
             then Some ((urb_transfer junk (next_transfer_id s + 1) d ub)\<lparr>t_state := VIRTUSB_TRANSFER_STATE_QUEUED\<rparr>)
             else load_trans t' s))))"
  unfolding e_def target_def by (rule virtusb_hcd_urb_enqueue_ok [OF assms(1-7)])

lemma example_urb_routed:
  "urb_target example_bound 0 example_hub example_urb = Some 1" "urb_ok example_urb" "urb_refused example_urb = 0"
  "load_hub 0 example_bound = Some example_hub"
proof -
  show h: "load_hub 0 example_bound = Some example_hub"
    by (simp add: example_bound_def load_example_kback)
  show "urb_target example_bound 0 example_hub example_urb = Some 1"
    using h by (simp add: urb_target_def example_urb_def valid_port_example load_port.simps example_ports)
  show "urb_ok example_urb" by (simp add: urb_ok_def example_urb_def)
  show "urb_refused example_urb = 0"
    by (simp add: urb_refused_def urb_direction_def example_urb_def usb_pipein_def)
qed

theorem hcd_urb_enqueue_outcome_witness:
  "runs (virtusb_hcd_urb_enqueue True True (\<lambda>_. 0) True 0 (Some 0) (Some 9) example_bound)
     (\<lambda>(ret, s'). ret = 0 \<and> linked s' 9)"
proof -
  have "enqueue_error True True True 0 bound_backend (Some 1) example_urb = 0"
    using example_urb_routed(3) by (simp add: enqueue_error_def submit_error_def) (simp add: example_urb_def)
  then show ?thesis
    by (intro runs_mono [OF hcd_urb_enqueue_outcome [where mem = True and buf_mem = True and req_mem = True and
        link_ret = 0 and junk = "\<lambda>_. 0", OF back_wf_example_bound example_urb_routed(4) example_bound_sel(1,2)
        example_bound_idle example_urb_routed(2)]])
       (auto simp: example_urb_routed(1))
qed

text \<open>The request a new URB adds is the only one for its device, and a fetch hands it out.\<close>

lemma enqueued_fetched:
  assumes wf: "back_wf held pins s" and b: "load_back h s = Some b" and fresh: "load_trans t s = None"
    and wf1: "back_wf held pins s1"
    and b1: "load_back h s1 = Some (b\<lparr>pending := pending b @ [r]\<rparr>)"
    and t1: "\<And>t'. load_trans t' s1 = (if t' = t then Some tr else load_trans t' s)"
    and r: "req_transfer r = t" "req_owner r = None" and idle: "device_queue s b (t_device tr) = []"
    and bd: "virtusb_backend_find_owner_locked b f = Some bd" "bind_device bd = t_device tr"
    and id_free: "fetched_as f (t_id tr) s b = None"
  shows "runs (virtusb_backend_fetch (Some h) (Some f) (Some f0) nonblock waits s1) (\<lambda>(res, s2).
    (\<exists>ob. res = Some (0, Some (fetch_of tr ob))) \<and> back_wf held pins s2 \<and>
    (\<exists>b2. s2 = put_back h b2 s1 \<and> without (r\<lparr>req_owner := Some f\<rparr>) b2 = b \<and>
       fetched_as f (t_id tr) s2 b2 = Some (r\<lparr>req_owner := Some f\<rparr>)))"
proof -
  let ?b1 = "b\<lparr>pending := pending b @ [r]\<rparr>" and ?r = "r\<lparr>req_owner := Some f\<rparr>"
  have old: "req_transfer x \<noteq> t" if x: "x \<in> set (pending b) \<union> set (active b)" for x
  proof
    assume "req_transfer x = t"
    with request_alloc [OF wf b x] fresh show False by auto
  qed
  have dev: "device_of s1 x = device_of s x" if "x \<in> set (pending b) \<union> set (active b)" for x
    using old [OF that] by (simp add: device_of_def t1)
  have r1: "device_of s1 r = t_device tr" by (simp add: device_of_def t1 r(1))
  have "filter (\<lambda>x. device_of s1 x = t_device tr) (pending b) = []"
    using idle dev by (auto simp: device_queue_def filter_empty_conv)
  then have q: "device_queue s1 ?b1 (bind_device bd) = r # []"
    by (simp add: device_queue_def r1 bd(2))
  have bd1: "virtusb_backend_find_owner_locked ?b1 f = Some bd"
    using bd(1) by (simp add: virtusb_backend_find_owner_locked_def)
  have tr1: "load_trans (req_transfer r) s1 = Some tr" by (simp add: t1 r(1))
  with user_device(2) [OF back_wfD(1) [OF wf1]] bd(2) obtain ob where ob: "load_obj (bind_device bd) s1 = Some ob" by metis
  note fetch = virtusb_backend_fetch_ok [OF wf1 b1 bd1 q tr1 ob]
  have notin: "r \<notin> set (pending b)" "?r \<notin> set (active b)" using old [of r] old [of ?r] r(1) by auto
  have "?r \<notin> set (pending b)" using old [of ?r] r(1) by auto
  then have "without ?r (moved f r ?b1) = b"
    using notin by (simp add: without_def moved_def remove1_append remove1_idem)
  moreover have "find (\<lambda>x. req_owner x = Some f \<and> t_id (the (load_trans (req_transfer x) s1)) = t_id tr) (active b) =
      find (\<lambda>x. req_owner x = Some f \<and> t_id (the (load_trans (req_transfer x) s)) = t_id tr) (active b)"
    using old by (intro find_cong) (auto simp: t1)
  then have "fetched_as f (t_id tr) (put_back h (moved f r ?b1) s1) (moved f r ?b1) = Some ?r"
    using id_free by (simp add: fetched_as_def moved_def find_append t1 r(1))
  ultimately show ?thesis using fetch by auto
qed

text \<open>C22: the way of a URB through the driver: enqueued for an idle device with a session, fetched by
  the session and completed by its ID. The backend sees the setup packet, the data and the lengths
  of the URB; the URB comes back exactly once, with the backend's status, length and bytes, or with
  -EMSGSIZE when the backend claims more than was asked for; and the queues, sessions and transfers
  are as if nothing had happened.\<close>

theorem hcd_urb_served:
  assumes wf: "back_wf held pins s" and hub: "load_hub h s = Some hub" and b: "load_back h s = Some b" and u: "load_urb u s = Some ub"
    and free: "\<And>g t. (g, u, t) \<notin> requests s" and ok: "urb_ok ub" "urb_refused ub = 0"
    and size: "unat (urb_transfer_buffer_length ub) \<le> VIRTUSB_TRANSFER_DATA_MAX"
    and target: "urb_target s h hub ub = Some d" and run: "\<not> stopping b"
    and bd: "virtusb_backend_find_owner_locked b f = Some bd" "bind_device bd = d" and idle: "device_queue s b d = []"
    and id_free: "fetched_as f (next_transfer_id s + 1) s b = None" "next_transfer_id s + 1 \<noteq> 0"
    and c: "tc_transfer_id c = next_transfer_id s + 1" "length (tc_data c) = VIRTUSB_TRANSFER_DATA_MAX"
  shows "runs (do { (ret, s) \<leftarrow> virtusb_hcd_urb_enqueue True True junk True 0 (Some h) (Some u) s;
                    (res, s) \<leftarrow> virtusb_backend_fetch (Some h) (Some f) (Some f0) nonblock waits s;
                    (ret', s) \<leftarrow> virtusb_backend_complete (Some h) (Some h) (Some f) (Some c) s;
                    Some (ret, res, ret', s) })
    (\<lambda>(ret, res, ret', s'). let tr = urb_transfer junk (next_transfer_id s + 1) d ub in
       ret = 0 \<and> (\<exists>ob. res = Some (0, Some (fetch_of tr ob))) \<and> back_wf held pins s' \<and>
       (if tc_actual_length c > urb_transfer_buffer_length ub
        then ret' = - EMSGSIZE \<and> givebacks s' = (u, ub, - EMSGSIZE) # givebacks s
        else ret' = 0 \<and> givebacks s' = (u, completed_urb ub tr c, tc_status c) # givebacks s) \<and>
       (\<forall>g. load_back g s' = load_back g s) \<and> (\<forall>v. load_urb v s' = (if v = u then None else load_urb v s)) \<and>
       (\<forall>t tr. load_trans t s = Some tr \<longrightarrow> load_trans t s' = Some tr))"
proof -
  let ?i = "next_transfer_id s + 1"
  let ?tr = "(urb_transfer junk ?i d ub)\<lparr>t_state := VIRTUSB_TRANSFER_STATE_QUEUED\<rparr>"
  have tr: "t_device ?tr = d" "t_id ?tr = ?i" "unat (t_requested_length ?tr) = unat (urb_transfer_buffer_length ub)"
    by (simp_all add: urb_transfer_def created_transfer_def ucast_len)
  have "bd \<in> set (bindings b)"
    using find_SomeD bd(1) by (fastforce simp: virtusb_backend_find_owner_locked_def)
  then have e: "enqueue_error True True True 0 b (Some d) ub = 0"
    using ok(2) size run bd(2) by (auto simp: enqueue_error_def submit_error_def)
  from virtusb_hcd_urb_enqueue_ok [where mem = True and buf_mem = True and req_mem = True and link_ret = 0 and junk = junk,
      OF wf hub b u free ok(1)] e target
  obtain s1 t where s1: "virtusb_hcd_urb_enqueue True True junk True 0 (Some h) (Some u) s = Some (0, s1)"
    "back_wf held pins s1" "\<And>v. load_urb v s1 = load_urb v s" "givebacks s1 = givebacks s" "load_trans t s = None"
    "\<And>g. load_back g s1 = (if g = h
       then Some (b\<lparr>pending := pending b @ [\<lparr>req_urb = u, req_transfer = t, req_owner = None\<rparr>]\<rparr>) else load_back g s)"
    "\<And>t'. load_trans t' s1 = (if t' = t then Some ?tr else load_trans t' s)"
    by (auto simp: runs_iff)
  let ?r = "\<lparr>req_urb = u, req_transfer = t, req_owner = Some f\<rparr>"
  have "load_back h s1 = Some (b\<lparr>pending := pending b @ [\<lparr>req_urb = u, req_transfer = t, req_owner = None\<rparr>]\<rparr>)"
    using s1(6) by simp
  from enqueued_fetched [OF wf b s1(5,2) this s1(7), of f bd f0 nonblock waits] idle bd id_free(1) tr(1,2) obtain s2 b2 ob where
    s2: "virtusb_backend_fetch (Some h) (Some f) (Some f0) nonblock waits s1 = Some (Some (0, Some (fetch_of ?tr ob)), s2)"
      "back_wf held pins s2" "s2 = put_back h b2 s1" "without ?r b2 = b" "fetched_as f ?i s2 b2 = Some ?r"
    by (auto simp: runs_iff)
  have b2: "load_back h s2 = Some b2" by (simp add: s2(3))
  have sel: "load_trans t s2 = Some ?tr" "load_urb u s2 = Some ub" using u s1 by (simp_all add: s2(3))
  have same: "fetch_of ?tr ob = fetch_of (urb_transfer junk ?i d ub) ob"
    "completed_urb ub ?tr c = completed_urb ub (urb_transfer junk ?i d ub) c"
    by (simp_all add: fetch_of_def completed_urb_def)
  have gave: "givebacks s' = (u, urb, st) # givebacks s \<and> (\<forall>g. load_back g s' = load_back g s) \<and>
      (\<forall>v. load_urb v s' = (if v = u then None else load_urb v s)) \<and>
      (\<forall>t tr. load_trans t s = Some tr \<longrightarrow> load_trans t s' = Some tr)" if "gave_back h ?r urb st s2 s'" for urb st s'
    using that s2(4) s1(3-7) b by (simp add: gave_back_def s2(3)) (metis option.distinct(1))
  have "runs (virtusb_backend_complete (Some h) (Some h) (Some f) (Some c) s2) (\<lambda>(ret, s'). back_wf held pins s' \<and>
      (if tc_actual_length c > urb_transfer_buffer_length ub
       then ret = - EMSGSIZE \<and> gave_back h ?r ub (- EMSGSIZE) s2 s'
       else ret = 0 \<and> gave_back h ?r (completed_urb ub ?tr c) (tc_status c) s2 s'))"
    using virtusb_backend_complete_ok [OF s2(2) b2 c(2), of f] s2(5) sel c(1) id_free(2)
    by (auto simp: tr(3) [simplified] word_less_nat_alt elim!: runs_mono)
  then obtain ret' s3 where s3: "virtusb_backend_complete (Some h) (Some h) (Some f) (Some c) s2 = Some (ret', s3)"
    "back_wf held pins s3" "if tc_actual_length c > urb_transfer_buffer_length ub
       then ret' = - EMSGSIZE \<and> gave_back h ?r ub (- EMSGSIZE) s2 s3
       else ret' = 0 \<and> gave_back h ?r (completed_urb ub ?tr c) (tc_status c) s2 s3"
    by (auto simp only: runs_iff split_paired_Ex split_conv)
  from s3(3) have "if tc_actual_length c > urb_transfer_buffer_length ub
       then ret' = - EMSGSIZE \<and> givebacks s3 = (u, ub, - EMSGSIZE) # givebacks s
       else ret' = 0 \<and> givebacks s3 = (u, completed_urb ub (urb_transfer junk ?i d ub) c, tc_status c) # givebacks s"
    unfolding same(2) [symmetric] using gave by (metis (full_types))
  moreover have "(\<forall>g. load_back g s3 = load_back g s) \<and> (\<forall>v. load_urb v s3 = (if v = u then None else load_urb v s)) \<and>
      (\<forall>t tr. load_trans t s = Some tr \<longrightarrow> load_trans t s3 = Some tr)"
    using s3(3) gave by (metis (full_types))
  ultimately show ?thesis
    using s3(2) by (simp add: s1(1) s2(1) s3(1) same(1) Let_def) blast
qed

definition example_completion :: virtusb_transfer_complete_request where
  "example_completion = \<lparr>tc_transfer_id = 2, tc_status = 0, tc_actual_length = 2, tc_data = [18, 1] @ replicate 4094 0\<rparr>"

theorem hcd_urb_served_witness:
  "runs (do { (ret, s) \<leftarrow> virtusb_hcd_urb_enqueue True True (\<lambda>_. 0) True 0 (Some 0) (Some 9) example_bound;
              (res, s) \<leftarrow> virtusb_backend_fetch (Some 0) (Some 5) (Some zero_fetch) True [] s;
              (ret', s) \<leftarrow> virtusb_backend_complete (Some 0) (Some 0) (Some 5) (Some example_completion) s;
              Some (ret, res, ret', s) })
     (\<lambda>(ret, res, ret', s'). ret' = 0 \<and> load_back 0 s' = Some bound_backend \<and> load_urb 9 s' = None \<and>
        (\<exists>urb st gs. givebacks s' = (9, urb, st) # gs \<and> urb_actual_length urb = 2 \<and> st = 0))"
proof -
  have n: "next_transfer_id example_bound = 1"
    by (simp add: example_bound_def add_trans_def Let_def put_trans_def put_obj_def put_back_def example_kback_def)
  have c: "tc_transfer_id example_completion = 2" "length (tc_data example_completion) = VIRTUSB_TRANSFER_DATA_MAX"
    "tc_status example_completion = 0" "tc_actual_length example_completion = 2"
    by (simp_all add: example_completion_def)
  have len: "urb_transfer_buffer_length example_urb = 18" by (simp add: example_urb_def)
  show ?thesis
    by (rule runs_mono [OF hcd_urb_served [OF back_wf_example_bound example_urb_routed(4) example_bound_sel(1,2)
        example_bound_idle example_urb_routed(2,3) _ example_urb_routed(1) _ example_session(2)]])
       (auto simp: n c len device_queue_def fetched_as_def completed_urb_def Let_def)
qed

end
