(* ===== verification/Virtusb_Control_Props.thy ===== *)
theory Virtusb_Control_Props
  imports Virtusb_Control Virtusb_Host
begin

text \<open>
  The invariant of the control plane and that every ioctl keeps it: the open files keep their
  controllers, every data-plane session belongs to an open file of its controller, and below it
  the invariants of the topology, the objects, the transfers and the backends.
\<close>

section \<open>Invariant\<close>

definition file_opens :: "nat \<Rightarrow> kfile \<Rightarrow> bool" where
  "file_opens c fl \<longleftrightarrow> file_private fl = Some \<lparr>cf_control = Some c\<rparr>"

text \<open>A controller whose character device is gone has no sessions.\<close>

definition hcd_ok :: "'a khcd_scheme \<Rightarrow> nat \<Rightarrow> virtusb_hcd \<Rightarrow> bool" where
  "hcd_ok s h v \<longleftrightarrow>
     load_hub h s \<noteq> None \<and> load_back h s \<noteq> None \<and> vh_linux_hcd v = Some h \<and>
     (ctl_hcd (vh_control v) = Some h \<or>
      ctl_hcd (vh_control v) = None \<and> \<not> ctl_active (vh_control v) \<and> bindings (the (load_back h s)) = [])"

definition ctl_ok :: "'a khcd_scheme \<Rightarrow> bool" where
  "ctl_ok s \<longleftrightarrow>
     (\<forall>h v. load_hcd h s = Some v \<longrightarrow> hcd_ok s h v) \<and>
     (\<forall>h b. load_back h s = Some b \<longrightarrow> load_hcd h s \<noteq> None) \<and>
     (\<forall>f fl. load_file f s = Some fl \<longrightarrow>
        file_private fl = None \<or> (\<exists>c. file_opens c fl \<and> load_hcd c s \<noteq> None)) \<and>
     (\<forall>h b bd. load_back h s = Some b \<longrightarrow> bd \<in> set (bindings b) \<longrightarrow>
        (\<exists>fl. load_file (bind_owner bd) s = Some fl \<and> file_opens h fl))"

definition control_wf :: "(nat \<Rightarrow> nat) \<Rightarrow> (nat \<Rightarrow> nat) \<Rightarrow> 'a khcd_scheme \<Rightarrow> bool" where
  "control_wf held pins s \<longleftrightarrow> back_wf held pins s \<and> ctl_ok s"

lemma control_wfD:
  assumes "control_wf held pins s"
  shows "back_wf held pins s" and "ctl_ok s"
  using assms by (simp_all add: control_wf_def)

lemma ctl_okD:
  assumes "ctl_ok s"
  shows "load_hcd h s = Some v \<Longrightarrow> hcd_ok s h v"
    and "load_back h s = Some b \<Longrightarrow> load_hcd h s \<noteq> None"
    and "load_file f s = Some fl \<Longrightarrow> file_private fl = None \<or> (\<exists>c. file_opens c fl \<and> load_hcd c s \<noteq> None)"
    and "load_back h s = Some b \<Longrightarrow> bd \<in> set (bindings b) \<Longrightarrow> \<exists>fl. load_file (bind_owner bd) s = Some fl \<and> file_opens h fl"
  using assms unfolding ctl_ok_def by blast+

lemma khcd_fields:
  assumes "kback.more s' = kback.more s"
  shows "load_hcd h s' = load_hcd h s" "load_file f s' = load_file f s" "khcd.more s' = khcd.more s"
  using assms by (cases s; cases s'; simp add: load_hcd_def load_file_def)+

lemma khcd_layer [simp]:
  "load_hcd h (put_back g b s) = load_hcd h s" "load_file f (put_back g b s) = load_file f s"
  "load_hcd h (put_file f fl s) = load_hcd h s" "load_back g (put_file f fl s) = load_back g s"
  "load_hub g (put_file f fl s) = load_hub g s" "load_file f (put_hcd h v s) = load_file f s"
  "load_back g (put_hcd h v s) = load_back g s" "load_hub g (put_hcd h v s) = load_hub g s"
  by (simp_all add: load_hcd_def load_file_def load_back_def load_hub_def put_back_def put_file_def put_hcd_def)

text \<open>
  An operation below the control plane keeps its part of the invariant when it adds no session
  and frees no hub.
\<close>

lemma ctl_ok_frame:
  assumes ok: "ctl_ok s" and more: "kback.more s' = kback.more s"
    and hubs: "\<And>h. load_hub h s \<noteq> None \<Longrightarrow> load_hub h s' \<noteq> None"
    and backs: "\<And>h. rel_option (\<lambda>b b'. set (bindings b') \<subseteq> set (bindings b)) (load_back h s) (load_back h s')"
  shows "ctl_ok s'"
proof -
  note ok = ctl_okD [OF ok] and eq = khcd_fields [OF more]
  have new: "\<exists>b. load_back h s = Some b \<and> set (bindings b') \<subseteq> set (bindings b)" if "load_back h s' = Some b'" for h b'
    using backs [of h] that by (cases "load_back h s") simp_all
  have old: "\<exists>b'. load_back h s' = Some b' \<and> set (bindings b') \<subseteq> set (bindings b)" if "load_back h s = Some b" for h b
    using backs [of h] that by (cases "load_back h s'") simp_all
  have "hcd_ok s' h v" if "load_hcd h s' = Some v" for h v
    using ok(1) [of h v] that hubs [of h] old [of h] by (fastforce simp: hcd_ok_def eq)
  moreover have "load_hcd h s' \<noteq> None" if "load_back h s' = Some b'" for h b'
    using new [OF that] ok(2) by (auto simp: eq)
  moreover have "\<exists>fl. load_file (bind_owner bd) s' = Some fl \<and> file_opens h fl"
    if "load_back h s' = Some b'" "bd \<in> set (bindings b')" for h b' bd
    using new [OF that(1)] that(2) ok(4) by (auto simp: eq)
  ultimately show ?thesis
    unfolding ctl_ok_def using ok(3) by (simp add: eq)
qed

lemma rel_option_bindings_same [simp]: "rel_option (\<lambda>b b'. set (bindings b') \<subseteq> set (bindings b)) x x"
  by (cases x) simp_all

lemma control_wf_frame:
  assumes "control_wf held pins s" and "back_wf held' pins' s'" and "kback.more s' = kback.more s"
    and "\<And>h. load_hub h s \<noteq> None \<Longrightarrow> load_hub h s' \<noteq> None"
    and "\<And>h. rel_option (\<lambda>b b'. set (bindings b') \<subseteq> set (bindings b)) (load_back h s) (load_back h s')"
  shows "control_wf held' pins' s'"
  using assms(2) ctl_ok_frame [OF control_wfD(2) [OF assms(1)] assms(3-5)] by (simp add: control_wf_def)

section \<open>Operations on devices\<close>

text \<open>The references an object has besides the one of the registry.\<close>

abbreviation refs :: "(nat \<Rightarrow> nat) \<Rightarrow> 'a kback_scheme \<Rightarrow> nat \<Rightarrow> nat" where
  "refs held s \<equiv> \<lambda>d. held d + (card (sessions d s) + card (users d s))"

lemma refs_upd: "(refs held s)(d := Suc (refs held s d)) = refs (held(d := Suc (held d))) s"
  by auto

lemma refs_kobj:
  assumes "kobj.more s' = kobj.more s"
  shows "refs held s' = refs held s"
proof -
  have "load_back h s' = load_back h s" for h by (rule load_back_more [OF ktrans_more [OF assms]])
  moreover have "load_trans t s' = load_trans t s" for t by (rule load_trans_more [OF assms])
  ultimately show ?thesis by (simp add: sessions_cong [of s' s] users_cong [of s' s])
qed

lemma control_wf_dev: "control_wf held pins s \<Longrightarrow> dev_wf (refs held s) s"
  by (rule back_wf_dev) (rule control_wfD(1))

text \<open>What an operation on devices, ports and the registry does to the rest.\<close>

lemma control_wf_kobj:
  assumes wf: "control_wf held pins s" and dev: "dev_wf (refs held' s) s'"
    and more: "kobj.more s' = kobj.more s" and addr: "next_addr s \<le> next_addr s'"
    and hubs: "\<And>h. load_hub h s \<noteq> None \<Longrightarrow> load_hub h s' \<noteq> None"
  shows "control_wf held' pins s'"
proof (rule control_wf_frame [OF wf])
  show "back_wf held' pins s'" by (rule back_wf_kobj [OF control_wfD(1) [OF wf] dev more addr])
  show "kback.more s' = kback.more s" by (rule back_fields_more(5) [OF ktrans_more [OF more]])
  have "load_back h s' = load_back h s" for h by (rule load_back_more [OF ktrans_more [OF more]])
  then show "rel_option (\<lambda>b b'. set (bindings b') \<subseteq> set (bindings b)) (load_back h s) (load_back h s')" for h
    by simp
qed (rule hubs)

lemma control_wf_topology:
  assumes wf: "control_wf held pins s" and topo: "topo_wf s'" and lay: "layout s s'"
    and dev: "\<And>d p. load_port (Dev_port d) s' = Some p \<Longrightarrow>
        \<exists>q. load_port (Dev_port d) s = Some q \<and> p_role p = p_role q \<and>
            (p_peer p \<noteq> None \<longrightarrow> p_peer q \<noteq> None \<or> (\<exists>ob. load_obj d s = Some ob \<and> obj_registered ob))"
  shows "control_wf held pins s'"
  using dev_wf_topology [OF control_wf_dev [OF wf] topo lay dev] layout_objects [OF lay] layout_hubs [OF lay]
  by (intro control_wf_kobj [OF wf]) simp_all

lemma control_wf_put:
  assumes wf: "control_wf held pins s" and h: "0 < held d"
  shows "runs (virtusb_object_put (Some d) s) (\<lambda>s'. control_wf (held(d := held d - 1)) pins s' \<and>
    kback.more s' = kback.more s)"
proof -
  have "0 < refs held s d" using h by simp
  note put = virtusb_object_put_ok [OF control_wf_dev [OF wf] this]
  let ?s' = "put_result (refs held s) d s"
  have "(refs held s)(d := refs held s d - 1) = refs (held(d := held d - 1)) s" using h by auto
  with put(2) have "control_wf (held(d := held d - 1)) pins ?s'"
    by (intro control_wf_kobj [OF wf]) simp_all
  with put(1) show ?thesis by simp
qed

lemma control_wf_get:
  assumes wf: "control_wf held pins s" and ob: "load_obj d s = Some ob"
  shows "control_wf (held(d := Suc (held d))) pins (put_obj d (ob\<lparr>obj_refcount := obj_refcount ob + 1\<rparr>) s)"
  using virtusb_object_get_ok(2) [OF control_wf_dev [OF wf] ob] unfolding refs_upd
  by (intro control_wf_kobj [OF wf]) simp_all

text \<open>A lookup that succeeds: the caller holds a reference to a registered device.\<close>

definition found :: "u32 \<Rightarrow> nat \<Rightarrow> 'a khcd_scheme \<Rightarrow> 'a khcd_scheme \<Rightarrow> bool" where
  "found oid d s s' \<longleftrightarrow>
     (\<exists>ob. load_obj d s = Some ob \<and> obj_registered ob \<and> obj_id ob = oid \<and>
           s' = put_obj d (ob\<lparr>obj_refcount := obj_refcount ob + 1\<rparr>) s)"

definition unknown :: "u32 \<Rightarrow> 'a khcd_scheme \<Rightarrow> bool" where
  "unknown oid s \<longleftrightarrow> (\<forall>d ob. load_obj d s = Some ob \<longrightarrow> obj_registered ob \<longrightarrow> obj_id ob \<noteq> oid)"

lemma virtusb_object_lookup_control:
  assumes wf: "control_wf held pins s"
  shows "runs (virtusb_object_lookup oid s) (\<lambda>(r, s').
    case r of
      None \<Rightarrow> s' = s \<and> unknown oid s
    | Some d \<Rightarrow> control_wf (held(d := Suc (held d))) pins s' \<and> found oid d s s' \<and>
        (\<exists>ob. load_obj d s' = Some ob \<and> obj_type ob = VIRTUSB_OBJECT_TYPE_DEVICE \<and> obj_registered ob))"
proof (rule runs_mono [OF virtusb_object_lookup_held [OF control_wf_dev [OF wf]]])
  fix x assume *: "case x of (None, s') \<Rightarrow> s' = s \<and> (\<forall>d ob. load_obj d s = Some ob \<longrightarrow> obj_registered ob \<longrightarrow> obj_id ob \<noteq> oid)
    | (Some d, s') \<Rightarrow> dev_wf ((refs held s)(d := Suc (refs held s d))) s' \<and>
        (\<exists>ob. load_obj d s = Some ob \<and> obj_registered ob \<and> obj_id ob = oid \<and>
              s' = put_obj d (ob\<lparr>obj_refcount := obj_refcount ob + 1\<rparr>) s)"
  have dev: "obj_type ob = VIRTUSB_OBJECT_TYPE_DEVICE" if "load_obj d s = Some ob" "obj_registered ob" for d ob
    using obj_wfD(1) [OF dev_wfD(2) [OF control_wf_dev [OF wf]] that(1)] that(2) by (simp add: obj_ok_def)
  obtain r s' where x: "x = (r, s')" by (cases x)
  show "case x of (r, s') \<Rightarrow> case r of
      None \<Rightarrow> s' = s \<and> unknown oid s
    | Some d \<Rightarrow> control_wf (held(d := Suc (held d))) pins s' \<and> found oid d s s' \<and>
        (\<exists>ob. load_obj d s' = Some ob \<and> obj_type ob = VIRTUSB_OBJECT_TYPE_DEVICE \<and> obj_registered ob)"
  proof (cases r)
    case None
    with * show ?thesis by (simp add: x unknown_def)
  next
    case (Some d)
    with * x obtain ob where ob: "load_obj d s = Some ob" "obj_registered ob" "obj_id ob = oid"
      "s' = put_obj d (ob\<lparr>obj_refcount := obj_refcount ob + 1\<rparr>) s" by auto
    with control_wf_get [OF wf ob(1)] dev [OF ob(1,2)] show ?thesis by (auto simp: x Some found_def)
  qed
qed

end
