(* ===== verification/Virtusb_Ioctl_Props.thy ===== *)
theory Virtusb_Ioctl_Props
  imports Virtusb_Control_Props
begin

text \<open>
  What each device and port ioctl does, on every branch: its error, and for success its effect on
  the topology or on the registered devices. All of them keep the invariant of the control plane
  and leave the data plane alone.
\<close>

section \<open>Looking a device up for the time of a call\<close>

lemma virtusb_control_lookup_device_ok:
  assumes wf: "control_wf held pins s"
  shows "runs (virtusb_control_lookup_device oid s) (\<lambda>(r, s').
    case r of
      Inl e \<Rightarrow> s' = s \<and> (if oid = 0 then e = - EINVAL else e = - ENOENT \<and> unknown oid s)
    | Inr d \<Rightarrow> oid \<noteq> 0 \<and> control_wf (held(d := Suc (held d))) pins s' \<and> found oid d s s')"
proof (cases "oid = 0")
  case False
  with virtusb_object_lookup_control [OF wf, of oid] show ?thesis
    by (auto simp: virtusb_control_lookup_device_def runs_iff split: option.splits)
qed (simp add: virtusb_control_lookup_device_def)

lemma foundD:
  assumes "found oid d s s1"
  obtains ob where "load_obj d s = Some ob" "obj_registered ob" "obj_id ob = oid"
    "s1 = put_obj d (ob\<lparr>obj_refcount := obj_refcount ob + 1\<rparr>) s"
  using assms by (auto simp: found_def)

text \<open>
  The reference is dropped after a change of the topology, which keeps the device registered: all
  that is left of the call is the change.
\<close>

lemma put_found:
  assumes wf: "control_wf (held(d := Suc (held d))) pins s2" and f: "found oid d s s1"
    and same: "load_obj d s2 = load_obj d s1"
  obtains s3 where "virtusb_object_put (Some d) s2 = Some s3" and "control_wf held pins s3"
    and "s3 = put_obj d (the (load_obj d s)) s2"
proof -
  let ?held = "held(d := Suc (held d))"
  from f obtain ob where ob: "load_obj d s = Some ob" "obj_registered ob"
    "s1 = put_obj d (ob\<lparr>obj_refcount := obj_refcount ob + 1\<rparr>) s" by (rule foundD)
  with same have ob2: "load_obj d s2 = Some (ob\<lparr>obj_refcount := obj_refcount ob + 1\<rparr>)" by simp
  have "0 < ?held d" by simp
  from control_wf_put [where held = ?held and d = d, OF wf this] obtain s3 where
    s3: "virtusb_object_put (Some d) s2 = Some s3" "control_wf (?held(d := ?held d - 1)) pins s3"
    by (auto simp: runs_iff)
  have "?held(d := ?held d - 1) = held" by auto
  with s3(2) have "control_wf held pins s3" by simp
  moreover have "0 < refs ?held s2 d" by simp
  from virtusb_object_put_ok(1) [OF control_wf_dev [OF wf] this] s3(1)
  have "s3 = put_result (refs ?held s2) d s2" by simp
  then have "s3 = put_obj d (the (load_obj d s)) s2" using ob2 ob(1,2) by (simp add: put_result_def)
  ultimately show thesis using s3(1) that by blast
qed

lemma found_same:
  assumes "found oid d s s1"
  shows "load_port a s1 = load_port a s" "load_hub h s1 = load_hub h s" "events s1 = events s"
    "kback.more s1 = kback.more s" "cabling_of s1 = cabling_of s" "load_hcd g s1 = load_hcd g s"
    "put_obj d (the (load_obj d s)) s1 = s"
proof -
  from assms obtain ob where ob: "load_obj d s = Some ob" "s1 = put_obj d (ob\<lparr>obj_refcount := obj_refcount ob + 1\<rparr>) s"
    by (auto simp: found_def)
  then show port: "load_port a s1 = load_port a s" and "load_hub h s1 = load_hub h s" "events s1 = events s"
    and more: "kback.more s1 = kback.more s" for a h by simp_all
  from more show "load_hcd g s1 = load_hcd g s" by (rule khcd_fields)
  show "cabling_of s1 = cabling_of s" by (rule cabling_of_cong) (rule port)
  show "put_obj d (the (load_obj d s)) s1 = s" using ob by (simp add: put_obj_same)
qed

lemma changes_reported_cong:
  assumes "\<And>a. load_port a s1 = load_port a s" "\<And>h. load_hub h s1 = load_hub h s" "events s1 = events s"
    and "\<And>a. load_port a s2 = load_port a s'" "\<And>h. load_hub h s2 = load_hub h s'" "events s2 = events s'"
  shows "changes_reported s1 s2 = changes_reported s s'"
  using port_connected_cong [OF assms(1)] port_connected_cong [OF assms(4)] assms
  by (simp add: changes_reported_def)

text \<open>
  The pattern of the device ioctls: look the device up, change the topology, drop the reference.
  \<open>topo_change\<close> is what the change promises, in terms of the topology before and after.
\<close>

definition topo_change :: "'a topo_scheme \<Rightarrow> 'a topo_scheme \<Rightarrow> (cabling \<Rightarrow> cabling) \<Rightarrow> bool" where
  "topo_change s s' upd \<longleftrightarrow> layout s s' \<and> changes_reported s s' \<and> cabling_of s' = upd (cabling_of s)"

lemma after_change:
  fixes ret :: int
  assumes f: "found oid d s s1" and wf: "control_wf (held(d := Suc (held d))) pins s1"
    and topo: "topo_wf s2" and change: "topo_change s1 s2 upd"
    and dev: "\<And>e. e \<noteq> d \<Longrightarrow> load_port (Dev_port e) s2 = load_port (Dev_port e) s1"
      "\<And>p. load_port (Dev_port d) s2 = Some p \<Longrightarrow>
         \<exists>q. load_port (Dev_port d) s1 = Some q \<and> p_role p = p_role q"
  shows "runs (do { s \<leftarrow> virtusb_object_put (Some d) s2; Some (ret, s) }) (\<lambda>(r, s'). r = ret \<and>
    control_wf held pins s' \<and> topo_change s s' upd \<and> kback.more s' = kback.more s)"
proof -
  from f obtain ob where ob: "load_obj d s = Some ob" "obj_registered ob"
    "s1 = put_obj d (ob\<lparr>obj_refcount := obj_refcount ob + 1\<rparr>) s" by (rule foundD)
  have lay: "layout s1 s2" using change by (simp add: topo_change_def)
  have wf2: "control_wf (held(d := Suc (held d))) pins s2"
  proof (rule control_wf_topology [OF wf topo lay])
    fix e p assume p: "load_port (Dev_port e) s2 = Some p"
    show "\<exists>q. load_port (Dev_port e) s1 = Some q \<and> p_role p = p_role q \<and>
        (p_peer p \<noteq> None \<longrightarrow> p_peer q \<noteq> None \<or> (\<exists>ob. load_obj e s1 = Some ob \<and> obj_registered ob))"
    proof (cases "e = d")
      case True
      with dev(2) p ob show ?thesis by auto
    next
      case False
      with dev(1) [OF False] p have "load_port (Dev_port e) s1 = Some p" by simp
      then show ?thesis by blast
    qed
  qed
  have "load_obj d s2 = load_obj d s1" by (rule layout_objects(1) [OF lay])
  from put_found [OF wf2 f this] obtain s3 where
    s3: "virtusb_object_put (Some d) s2 = Some s3" "control_wf held pins s3" "s3 = put_obj d ob s2"
    using ob(1) by auto
  have "changes_reported s s3 = changes_reported s1 s2"
    by (rule changes_reported_cong) (simp_all add: s3(3) ob(3))
  moreover have "cabling_of s3 = cabling_of s2" by (rule cabling_of_cong) (simp add: s3(3))
  moreover have "layout s s3"
  proof -
    have "topo.more s3 = topo.more s"
    proof -
      have "kobj.more s3 = kobj.more s" "registry s3 = registry s" "next_object_id s3 = next_object_id s"
        "next_addr s3 = next_addr s" using layout_objects [OF lay] by (simp_all add: s3(3) ob(3))
      moreover have "load_obj e s3 = load_obj e s" for e
        using layout_objects(1) [OF lay, of e] ob(1) by (simp add: s3(3) ob(3))
      then have "objects s3 = objects s" by (simp add: load_obj_def fun_eq_iff)
      ultimately show ?thesis by (cases s3; cases s) simp
    qed
    moreover have "dev_ports s3 = dev_ports s2" "dev_ports s1 = dev_ports s" by (simp_all add: s3(3) ob(3))
    ultimately show ?thesis using lay by (simp add: layout_def s3(3) ob(3))
  qed
  moreover have "kback.more s3 = kback.more s2" "kback.more s1 = kback.more s" by (simp_all add: s3(3) ob(3))
  ultimately show ?thesis
    using s3(1,2) change found_same(5) [OF f] back_fields_more(5) [OF ktrans_more [OF layout_objects(5) [OF lay]]]
    by (simp add: topo_change_def)
qed

section \<open>Attaching, detaching, connecting\<close>

lemma hcd_okD:
  assumes "control_wf held pins s" and "load_hcd c s = Some v"
  shows "vh_linux_hcd v = Some c" "ctl_hcd (vh_control v) = Some c \<or> ctl_hcd (vh_control v) = None"
    "load_hub c s \<noteq> None" "load_back c s \<noteq> None"
  using ctl_okD(1) [OF control_wfD(2) [OF assms(1)] assms(2)] by (auto simp: hcd_ok_def)

lemma virtusb_control_device_attach_ok:
  assumes wf: "control_wf held pins s" and v: "load_hcd c s = Some v" "ctl_hcd (vh_control v) = Some c"
    and hub: "load_hub c s = Some hub"
  shows "runs (virtusb_control_device_attach (Some c) argp s) (\<lambda>(ret, s'). control_wf held pins s' \<and> kback.more s' = kback.more s \<and>
    (case um_device_attach argp of
       None \<Rightarrow> ret = - EFAULT \<and> s' = s
     | Some r \<Rightarrow>
         if da_hub_id r \<noteq> 0 then ret = - ENOENT \<and> s' = s
         else if \<not> valid_port hub (da_port r) \<or> da_object_id r = 0 then ret = - EINVAL \<and> s' = s
         else if unknown (da_object_id r) s then ret = - ENOENT \<and> s' = s
         else \<exists>d ob. load_obj d s = Some ob \<and> obj_registered ob \<and> obj_id ob = da_object_id r \<and>
                (let at = (c, unat (da_port r - 1)) in
                 if plugged (cabling_of s) d \<noteq> None \<or> (\<exists>e. plugged (cabling_of s) e = Some at)
                 then ret = - EBUSY \<and> s' = s
                 else ret = 0 \<and> topo_change s s' (\<lambda>cb. cb\<lparr>plugged := (plugged cb)(d \<mapsto> at)\<rparr>))))"
proof (cases "um_device_attach argp")
  case None
  with wf show ?thesis by (simp add: virtusb_control_device_attach_def)
next
  case (Some r)
  note topo = back_wf_topo [OF control_wfD(1) [OF wf]]
  note shape = topo_wf_shape [OF topo hub]
  have hub0: "virtusb_control_get_hub (Some c) (da_hub_id r) s = Some (if da_hub_id r \<noteq> 0 then None else Some c)"
    using v by (simp add: virtusb_control_get_hub_def)
  have port: "virtusb_hub_get_port (Some c) (da_port r) s =
      Some (if valid_port hub (da_port r) then Some (Hub_port c (unat (da_port r - 1))) else None)"
    using hub by (simp add: virtusb_hub_get_port_ok)
  show ?thesis
  proof (cases "da_hub_id r \<noteq> 0 \<or> \<not> valid_port hub (da_port r)")
    case True
    with wf Some hub0 port show ?thesis by (auto simp: virtusb_control_device_attach_def)
  next
    case False
    then have n: "valid_port hub (da_port r)" "da_hub_id r = 0" by simp_all
    from shape n(1) obtain i where i: "i < unat (hub_port_count hub)" "unat (da_port r - 1) = i" by (rule valid_portD)
    have i31: "i < VIRTUSB_MAX_HUB_PORTS" using i(1) shape by (simp add: hub_shape_def)
    have code: "virtusb_control_device_attach (Some c) argp s = do {
        (device, s) \<leftarrow> virtusb_control_lookup_device (da_object_id r) s;
        (case device of
           Inl e \<Rightarrow> Some (e, s)
         | Inr d \<Rightarrow> do {
             (ret, s) \<leftarrow> virtusb_device_attach (Some d) (Some (Hub_port c i)) s;
             s \<leftarrow> virtusb_object_put (Some d) s;
             Some (ret, s) }) }"
      using Some hub0 port n i(2) by (simp add: virtusb_control_device_attach_def)
    from virtusb_control_lookup_device_ok [OF wf, of "da_object_id r"] obtain res s1 where
      look: "virtusb_control_lookup_device (da_object_id r) s = Some (res, s1)"
        "case res of Inl e \<Rightarrow> s1 = s \<and> (if da_object_id r = 0 then e = - EINVAL else e = - ENOENT \<and> unknown (da_object_id r) s)
         | Inr d \<Rightarrow> da_object_id r \<noteq> 0 \<and> control_wf (held(d := Suc (held d))) pins s1 \<and> found (da_object_id r) d s s1"
      by (auto simp: runs_iff)
    show ?thesis
    proof (cases res)
      case (Inl e)
      with look wf Some n show ?thesis by (auto simp: code)
    next
      case (Inr d)
      with look have oid: "da_object_id r \<noteq> 0" and wf1: "control_wf (held(d := Suc (held d))) pins s1"
        and f: "found (da_object_id r) d s s1" by simp_all
      note same = found_same [OF f]
      from f obtain ob where ob: "load_obj d s = Some ob" "obj_registered ob" "obj_id ob = da_object_id r"
        "s1 = put_obj d (ob\<lparr>obj_refcount := obj_refcount ob + 1\<rparr>) s" by (rule foundD)
      then have known: "\<not> unknown (da_object_id r) s" by (auto simp: unknown_def)
      from control_wf_dev [OF wf] ob(1) obtain pu where
        pu: "load_port (Dev_port d) s = Some pu" "p_role pu = VIRTUSB_PORT_ROLE_UPSTREAM" by (rule dev_port_alloc)
      have hub1: "load_hub c s1 = Some hub" and pu1: "load_port (Dev_port d) s1 = Some pu"
        using hub pu(1) by (simp_all add: same)
      note topo1 = back_wf_topo [OF control_wfD(1) [OF wf1]]
      from virtusb_device_attach_refines [OF topo1 hub1 i31 pu1 pu(2)] i(1) obtain ret s2 where
        att: "virtusb_device_attach (Some d) (Some (Hub_port c i)) s1 = Some (ret, s2)" "topo_wf s2" "layout s1 s2"
          "\<forall>e. e \<noteq> d \<longrightarrow> load_port (Dev_port e) s2 = load_port (Dev_port e) s1"
          "\<exists>q. load_port (Dev_port d) s2 = Some q \<and> p_role q = p_role pu"
          "if plugged (cabling_of s) d \<noteq> None \<or> (\<exists>e. plugged (cabling_of s) e = Some (c, i)) then ret = - EBUSY \<and> s2 = s1
           else ret = 0 \<and> changes_reported s1 s2 \<and>
                cabling_of s2 = (cabling_of s)\<lparr>plugged := (plugged (cabling_of s))(d \<mapsto> (c, i))\<rparr>"
        by (auto simp only: runs_iff same not_less [symmetric] not_True_eq_False if_False split_paired_Ex split_conv)
      show ?thesis
      proof (cases "plugged (cabling_of s) d \<noteq> None \<or> (\<exists>e. plugged (cabling_of s) e = Some (c, i))")
        case True
        with att(6) have s2: "ret = - EBUSY" "s2 = s1" by simp_all
        from put_found [OF wf1 f refl] obtain s3 where "virtusb_object_put (Some d) s1 = Some s3" "control_wf held pins s3"
          "s3 = s" using same(7) by metis
        with True s2 att(1) look(1) Inr oid known Some n ob i(2) show ?thesis
          by (auto simp: code Let_def)
      next
        case False
        with att(6) have ret: "ret = 0" "topo_change s1 s2 (\<lambda>cb. cb\<lparr>plugged := (plugged cb)(d \<mapsto> (c, i))\<rparr>)"
          using att(3) by (simp_all add: topo_change_def same)
        from after_change [OF f wf1 att(2) ret(2), of ret] att(4,5) pu1
        have "runs (do { s \<leftarrow> virtusb_object_put (Some d) s2; Some (ret, s) }) (\<lambda>(r, s'). r = ret \<and>
            control_wf held pins s' \<and> topo_change s s' (\<lambda>cb. cb\<lparr>plugged := (plugged cb)(d \<mapsto> (c, i))\<rparr>) \<and>
            kback.more s' = kback.more s)" by auto
        with False ret(1) att(1) look(1) Inr oid known Some n ob i(2) show ?thesis
          by (auto simp: code Let_def elim!: runs_mono)
      qed
    qed
  qed
qed

text \<open>The shape of the other device ioctls.\<close>

lemma with_found:
  assumes wf: "control_wf held pins s"
    and invalid: "oid = 0 \<Longrightarrow> Q (- EINVAL, s)"
    and missing: "oid \<noteq> 0 \<Longrightarrow> unknown oid s \<Longrightarrow> Q (- ENOENT, s)"
    and body: "\<And>d s1 ob pu. oid \<noteq> 0 \<Longrightarrow> \<not> unknown oid s \<Longrightarrow> found oid d s s1 \<Longrightarrow>
        control_wf (held(d := Suc (held d))) pins s1 \<Longrightarrow>
        load_obj d s = Some ob \<Longrightarrow> obj_registered ob \<Longrightarrow> obj_id ob = oid \<Longrightarrow>
        load_port (Dev_port d) s1 = Some pu \<Longrightarrow> p_role pu = VIRTUSB_PORT_ROLE_UPSTREAM \<Longrightarrow> runs (f d s1) Q"
  shows "runs (do { (device, s) \<leftarrow> virtusb_control_lookup_device oid s;
                    (case device of Inl e \<Rightarrow> Some (e, s) | Inr d \<Rightarrow> f d s) }) Q"
proof -
  from virtusb_control_lookup_device_ok [OF wf, of oid] obtain res s1 where
    look: "virtusb_control_lookup_device oid s = Some (res, s1)"
      "case res of Inl e \<Rightarrow> s1 = s \<and> (if oid = 0 then e = - EINVAL else e = - ENOENT \<and> unknown oid s)
       | Inr d \<Rightarrow> oid \<noteq> 0 \<and> control_wf (held(d := Suc (held d))) pins s1 \<and> found oid d s s1"
    by (auto simp: runs_iff)
  show ?thesis
  proof (cases res)
    case (Inl e)
    with look invalid missing show ?thesis by (cases "oid = 0") simp_all
  next
    case (Inr d)
    with look have f: "oid \<noteq> 0" "control_wf (held(d := Suc (held d))) pins s1" "found oid d s s1" by simp_all
    from f(3) obtain ob where ob: "load_obj d s = Some ob" "obj_registered ob" "obj_id ob = oid" by (rule foundD)
    then have "\<not> unknown oid s" by (auto simp: unknown_def)
    moreover from control_wf_dev [OF wf] ob(1) obtain pu where
      "load_port (Dev_port d) s = Some pu" "p_role pu = VIRTUSB_PORT_ROLE_UPSTREAM" by (rule dev_port_alloc)
    ultimately show ?thesis using look(1) Inr body [OF f(1) _ f(3,2) ob] found_same(1) [OF f(3)] by simp
  qed
qed

lemma virtusb_control_device_detach_ok:
  assumes wf: "control_wf held pins s"
  shows "runs (virtusb_control_device_detach argp s) (\<lambda>(ret, s'). control_wf held pins s' \<and> kback.more s' = kback.more s \<and>
    (case um_device_object argp of
       None \<Rightarrow> ret = - EFAULT \<and> s' = s
     | Some r \<Rightarrow>
         if do_object_id r = 0 then ret = - EINVAL \<and> s' = s
         else if unknown (do_object_id r) s then ret = - ENOENT \<and> s' = s
         else \<exists>d ob. load_obj d s = Some ob \<and> obj_registered ob \<and> obj_id ob = do_object_id r \<and> ret = 0 \<and>
                topo_change s s' (\<lambda>cb. cb\<lparr>plugged := (plugged cb)(d := None)\<rparr>)))"
proof (cases "um_device_object argp")
  case None
  with wf show ?thesis by (simp add: virtusb_control_device_detach_def)
next
  case (Some r)
  have code: "virtusb_control_device_detach argp s = do {
      (device, s) \<leftarrow> virtusb_control_lookup_device (do_object_id r) s;
      (case device of Inl e \<Rightarrow> Some (e, s)
       | Inr d \<Rightarrow> do { s \<leftarrow> virtusb_device_detach (Some d) s; s \<leftarrow> virtusb_object_put (Some d) s; Some (0, s) }) }"
    by (simp add: virtusb_control_device_detach_def Some)
  show ?thesis
    unfolding code
  proof (rule with_found [OF wf])
    fix d s1 ob pu
    assume *: "do_object_id r \<noteq> 0" "\<not> unknown (do_object_id r) s" and f: "found (do_object_id r) d s s1"
      and wf1: "control_wf (held(d := Suc (held d))) pins s1"
      and ob: "load_obj d s = Some ob" "obj_registered ob" "obj_id ob = do_object_id r"
      and pu: "load_port (Dev_port d) s1 = Some pu"
    from virtusb_device_detach_refines [OF back_wf_topo [OF control_wfD(1) [OF wf1]] pu] obtain s2 where
      s2: "virtusb_device_detach (Some d) s1 = Some s2" "topo_wf s2"
        "topo_change s1 s2 (\<lambda>cb. cb\<lparr>plugged := (plugged cb)(d := None)\<rparr>)"
        "load_port (Dev_port d) s2 = Some (pu\<lparr>p_peer := None\<rparr>)"
        "\<And>e. e \<noteq> d \<Longrightarrow> load_port (Dev_port e) s2 = load_port (Dev_port e) s1"
      by (auto simp: runs_iff topo_change_def)
    from after_change [OF f wf1 s2(2,3,5), of 0] s2(4) pu have
      "runs (do { s \<leftarrow> virtusb_object_put (Some d) s2; Some (0 :: int, s) }) (\<lambda>(r, s'). r = 0 \<and>
        control_wf held pins s' \<and> topo_change s s' (\<lambda>cb. cb\<lparr>plugged := (plugged cb)(d := None)\<rparr>) \<and>
        kback.more s' = kback.more s)" by auto
    with * ob s2(1) Some show "runs (do { s \<leftarrow> virtusb_device_detach (Some d) s1; s \<leftarrow> virtusb_object_put (Some d) s;
        Some (0, s) }) (\<lambda>(ret, s'). control_wf held pins s' \<and> kback.more s' = kback.more s \<and>
      (case um_device_object argp of
         None \<Rightarrow> ret = - EFAULT \<and> s' = s
       | Some r \<Rightarrow>
           if do_object_id r = 0 then ret = - EINVAL \<and> s' = s
           else if unknown (do_object_id r) s then ret = - ENOENT \<and> s' = s
           else \<exists>d ob. load_obj d s = Some ob \<and> obj_registered ob \<and> obj_id ob = do_object_id r \<and> ret = 0 \<and>
                  topo_change s s' (\<lambda>cb. cb\<lparr>plugged := (plugged cb)(d := None)\<rparr>)))"
      by (auto elim!: runs_mono)
  qed (use wf Some in simp_all)
qed

lemma virtusb_control_device_connection_ok:
  assumes wf: "control_wf held pins s"
  shows "runs (virtusb_control_device_connection argp s) (\<lambda>(ret, s'). control_wf held pins s' \<and> kback.more s' = kback.more s \<and>
    (case um_device_connection argp of
       None \<Rightarrow> ret = - EFAULT \<and> s' = s
     | Some r \<Rightarrow>
         if dn_enabled r > 1 \<or> dn_object_id r = 0 then ret = - EINVAL \<and> s' = s
         else if unknown (dn_object_id r) s then ret = - ENOENT \<and> s' = s
         else \<exists>d ob. load_obj d s = Some ob \<and> obj_registered ob \<and> obj_id ob = dn_object_id r \<and> ret = 0 \<and>
                topo_change s s' (\<lambda>cb. cb\<lparr>signaling := (signaling cb)(d := (dn_enabled r \<noteq> 0))\<rparr>)))"
proof (cases "um_device_connection argp")
  case None
  with wf show ?thesis by (simp add: virtusb_control_device_connection_def)
next
  case (Some r)
  show ?thesis
  proof (cases "dn_enabled r > 1")
    case True
    with wf Some show ?thesis by (simp add: virtusb_control_device_connection_def)
  next
    case False
    let ?on = "dn_enabled r \<noteq> 0"
    have code: "virtusb_control_device_connection argp s = do {
        (device, s) \<leftarrow> virtusb_control_lookup_device (dn_object_id r) s;
        (case device of Inl e \<Rightarrow> Some (e, s)
         | Inr d \<Rightarrow> do { (ret, s) \<leftarrow> virtusb_device_set_connection_signaling (Some d) ?on s;
                       s \<leftarrow> virtusb_object_put (Some d) s; Some (ret, s) }) }"
      using False by (simp add: virtusb_control_device_connection_def Some)
    show ?thesis
      unfolding code
    proof (rule with_found [OF wf])
      fix d s1 ob pu
      assume *: "dn_object_id r \<noteq> 0" "\<not> unknown (dn_object_id r) s" and f: "found (dn_object_id r) d s s1"
        and wf1: "control_wf (held(d := Suc (held d))) pins s1"
        and ob: "load_obj d s = Some ob" "obj_registered ob" "obj_id ob = dn_object_id r"
        and pu: "load_port (Dev_port d) s1 = Some pu" "p_role pu = VIRTUSB_PORT_ROLE_UPSTREAM"
      from virtusb_device_set_connection_signaling_refines [OF back_wf_topo [OF control_wfD(1) [OF wf1]] pu, of ?on]
      obtain s2 where
        s2: "virtusb_device_set_connection_signaling (Some d) ?on s1 = Some (0, s2)" "topo_wf s2"
          "topo_change s1 s2 (\<lambda>cb. cb\<lparr>signaling := (signaling cb)(d := ?on)\<rparr>)"
          "load_port (Dev_port d) s2 = Some (pu\<lparr>p_state0 := ?on\<rparr>)"
          "\<And>e. e \<noteq> d \<Longrightarrow> load_port (Dev_port e) s2 = load_port (Dev_port e) s1"
        by (auto simp: runs_iff topo_change_def)
      from after_change [OF f wf1 s2(2,3,5), of 0] s2(4) pu have
        "runs (do { s \<leftarrow> virtusb_object_put (Some d) s2; Some (0 :: int, s) }) (\<lambda>(r, s'). r = 0 \<and>
          control_wf held pins s' \<and> topo_change s s' (\<lambda>cb. cb\<lparr>signaling := (signaling cb)(d := ?on)\<rparr>) \<and>
          kback.more s' = kback.more s)" by auto
      with * ob s2(1) Some False show "runs (do { (ret, s) \<leftarrow> virtusb_device_set_connection_signaling (Some d) ?on s1;
          s \<leftarrow> virtusb_object_put (Some d) s; Some (ret, s) })
        (\<lambda>(ret, s'). control_wf held pins s' \<and> kback.more s' = kback.more s \<and>
        (case um_device_connection argp of
           None \<Rightarrow> ret = - EFAULT \<and> s' = s
         | Some r \<Rightarrow>
             if dn_enabled r > 1 \<or> dn_object_id r = 0 then ret = - EINVAL \<and> s' = s
             else if unknown (dn_object_id r) s then ret = - ENOENT \<and> s' = s
             else \<exists>d ob. load_obj d s = Some ob \<and> obj_registered ob \<and> obj_id ob = dn_object_id r \<and> ret = 0 \<and>
                    topo_change s s' (\<lambda>cb. cb\<lparr>signaling := (signaling cb)(d := (dn_enabled r \<noteq> 0))\<rparr>)))"
        by (auto elim!: runs_mono)
    qed (use wf Some False in simp_all)
  qed
qed

lemma virtusb_control_set_port_power_ok:
  assumes wf: "control_wf held pins s" and v: "load_hcd c s = Some v" "ctl_hcd (vh_control v) = Some c"
    and hub: "load_hub c s = Some hub"
  shows "runs (virtusb_control_set_port_power (Some c) argp s) (\<lambda>(ret, s'). control_wf held pins s' \<and> kback.more s' = kback.more s \<and>
    (case um_port_power argp of
       None \<Rightarrow> ret = - EFAULT \<and> s' = s
     | Some r \<Rightarrow>
         if pp_powered r > 1 then ret = - EINVAL \<and> s' = s
         else if pp_hub_id r \<noteq> 0 then ret = - ENOENT \<and> s' = s
         else virtusb_hub_set_port_power (Some c) (pp_port r) (pp_powered r \<noteq> 0) s = Some (ret, s') \<and>
              ret = (if valid_port hub (pp_port r) then 0 else - EINVAL)))"
proof (cases "um_port_power argp")
  case (Some r)
  note topo = back_wf_topo [OF control_wfD(1) [OF wf]]
  from set_port_power_request [OF topo hub, of "pp_port r" "pp_powered r \<noteq> 0"] obtain ret s' where
    s': "virtusb_hub_set_port_power (Some c) (pp_port r) (pp_powered r \<noteq> 0) s = Some (ret, s')"
      "hub_request_ok c s s'" "ret = (if valid_port hub (pp_port r) then 0 else - EINVAL)"
    by (auto simp: runs_iff)
  then have "control_wf held pins s'"
    by (intro control_wf_topology [OF wf]) (auto simp: hub_request_ok_def)
  moreover have "kback.more s' = kback.more s"
    using s'(2) by (intro back_fields_more(5) ktrans_more layout_objects(5)) (simp add: hub_request_ok_def)
  ultimately show ?thesis
    using Some v s' wf by (simp add: virtusb_control_set_port_power_def virtusb_control_get_hub_def)
qed (use wf in \<open>simp add: virtusb_control_set_port_power_def\<close>)

section \<open>Destroying and creating\<close>

lemma control_wf_destroy:
  assumes wf: "control_wf held pins s" and ob: "load_obj d s = Some ob" and p: "load_port (Dev_port d) s = Some p"
  shows "runs (virtusb_device_destroy (Some d) force s) (\<lambda>(ret, s'). control_wf held pins s' \<and> hubs_report s s' \<and>
    kback.more s' = kback.more s \<and> kobj.more s' = kobj.more s \<and>
    (if p_peer p \<noteq> None \<and> \<not> force then ret = - EBUSY \<and> s' = s
     else if \<not> obj_registered ob then ret = - ENOENT \<and> s' = s
     else ret = 0 \<and> (\<forall>ob'. load_obj d s' = Some ob' \<longrightarrow> \<not> obj_registered ob') \<and>
          (\<forall>e. e \<noteq> d \<longrightarrow> load_obj e s' = load_obj e s \<and> load_port (Dev_port e) s' = load_port (Dev_port e) s)))"
proof -
  from virtusb_device_destroy_ok [OF control_wf_dev [OF wf] ob p, of force] obtain ret s' where
    s': "virtusb_device_destroy (Some d) force s = Some (ret, s')" "dev_wf (refs held s) s'" "kobj.more s' = kobj.more s"
      "hubs_report s s'"
      "next_addr s' = next_addr s" "\<forall>h. load_hub h s' = None \<longleftrightarrow> load_hub h s = None"
      "if p_peer p \<noteq> None \<and> \<not> force then ret = - EBUSY \<and> s' = s
       else if \<not> obj_registered ob then ret = - ENOENT \<and> s' = s
       else ret = 0 \<and> (\<forall>ob'. load_obj d s' = Some ob' \<longrightarrow> \<not> obj_registered ob') \<and>
            (\<forall>e. e \<noteq> d \<longrightarrow> load_obj e s' = load_obj e s \<and> load_port (Dev_port e) s' = load_port (Dev_port e) s)"
    by (auto simp: runs_iff split: if_splits)
  have "control_wf held pins s'"
    by (rule control_wf_kobj [OF wf s'(2,3)]) (use s'(5,6) in simp_all)
  moreover have "kback.more s' = kback.more s" by (rule back_fields_more(5) [OF ktrans_more [OF s'(3)]])
  ultimately show ?thesis using s'(1,3,4,7) by simp
qed

lemma put_others:
  assumes wf: "control_wf held pins s" and h: "0 < held d"
  shows "runs (virtusb_object_put (Some d) s) (\<lambda>s'. control_wf (held(d := held d - 1)) pins s' \<and>
    kback.more s' = kback.more s \<and> hubs_report s s' \<and>
    (\<forall>e. e \<noteq> d \<longrightarrow> load_obj e s' = load_obj e s \<and> load_port (Dev_port e) s' = load_port (Dev_port e) s) \<and>
    (\<forall>ob. load_obj d s' = Some ob \<longrightarrow> (\<exists>ob'. load_obj d s = Some ob' \<and> obj_registered ob = obj_registered ob')) \<and>
    (\<forall>ob. load_obj d s = Some ob \<longrightarrow> \<not> obj_registered ob \<longrightarrow> refs held s d = 1 \<longrightarrow> load_obj d s' = None))"
proof -
  have pos: "0 < refs held s d" using h by simp
  from control_wf_put [OF wf h] obtain s' where
    s': "virtusb_object_put (Some d) s = Some s'" "control_wf (held(d := held d - 1)) pins s'" "kback.more s' = kback.more s"
    by (auto simp: runs_iff)
  from virtusb_object_put_ok(1) [OF control_wf_dev [OF wf] pos] s'(1) have eq: "s' = put_result (refs held s) d s" by simp
  have obj: "load_obj e s' = (if e \<noteq> d then load_obj e s
      else case load_obj d s of None \<Rightarrow> None
           | Some ob \<Rightarrow> if \<not> obj_registered ob \<and> refs held s d = 1 then None
                      else Some (ob\<lparr>obj_refcount := obj_refcount ob - 1\<rparr>))" for e
    unfolding eq by (rule load_obj_put_result [where held = "refs held s" and d = d, OF pos])
  have port: "load_port a s' = (if a = Dev_port d \<and> load_obj d s' = None then None else load_port a s)" for a
    unfolding eq by (rule load_port_put_result [OF control_wf_dev [OF wf]])
  have "load_obj e s' = load_obj e s \<and> load_port (Dev_port e) s' = load_port (Dev_port e) s" if "e \<noteq> d" for e
    using that by (simp add: obj port)
  moreover have "\<exists>ob'. load_obj d s = Some ob' \<and> obj_registered ob = obj_registered ob'" if "load_obj d s' = Some ob" for ob
    using that by (auto simp: obj split: option.splits if_splits)
  moreover have "load_obj d s' = None" if "load_obj d s = Some ob" "\<not> obj_registered ob" "refs held s d = 1" for ob
    using that by (simp add: obj)
  moreover have "hubs_report s s'"
  proof (cases "load_obj d s' = None")
    case False
    have "load_port a s' = load_port a s" for a using False by (auto simp: port)
    then have "port_connected s' g k = port_connected s g k" for g k by (rule port_connected_cong)
    with eq show ?thesis by (simp add: hubs_report_def changes_reported_same)
  next
    case True
    have free: "p_peer p = None" if p: "load_port (Dev_port d) s = Some p" for p
    proof (rule ccontr)
      assume peer: "p_peer p \<noteq> None"
      from control_wf_dev [OF wf] p obtain ob where ob: "load_obj d s = Some ob" by (rule dev_obj_alloc)
      from dev_wfD(5) [OF control_wf_dev [OF wf] p this peer] True ob show False by (simp add: obj)
    qed
    show ?thesis
      by (rule hubs_report_unplugged [OF back_wf_topo [OF control_wfD(1) [OF wf]] free]) (simp_all add: port, simp_all add: eq)
  qed
  ultimately show ?thesis using s' by simp
qed

lemma virtusb_control_device_destroy_ok:
  assumes wf: "control_wf held pins s"
  shows "runs (virtusb_control_device_destroy argp s) (\<lambda>(ret, s'). control_wf held pins s' \<and> kback.more s' = kback.more s \<and>
    hubs_report s s' \<and>
    (case um_device_destroy argp of
       None \<Rightarrow> ret = - EFAULT \<and> s' = s
     | Some r \<Rightarrow>
         if dd_object_id r = 0 \<or> dd_flags r AND NOT VIRTUSB_DEVICE_DESTROY_FLAGS \<noteq> 0 then ret = - EINVAL \<and> s' = s
         else if unknown (dd_object_id r) s then ret = - ENOENT \<and> s' = s
         else \<exists>d ob. load_obj d s = Some ob \<and> obj_registered ob \<and> obj_id ob = dd_object_id r \<and>
                (if plugged (cabling_of s) d \<noteq> None \<and> dd_flags r AND VIRTUSB_DEVICE_DESTROY_FORCE = 0
                 then ret = - EBUSY \<and> s' = s
                 else ret = 0 \<and> unknown (dd_object_id r) s' \<and> (\<forall>ob'. load_obj d s' = Some ob' \<longrightarrow> \<not> obj_registered ob') \<and>
                      (\<forall>e. e \<noteq> d \<longrightarrow> load_obj e s' = load_obj e s \<and> load_port (Dev_port e) s' = load_port (Dev_port e) s))))"
proof (cases "um_device_destroy argp")
  case None
  with wf show ?thesis by (simp add: virtusb_control_device_destroy_def)
next
  case (Some r)
  let ?force = "dd_flags r AND VIRTUSB_DEVICE_DESTROY_FORCE \<noteq> 0"
  show ?thesis
  proof (cases "dd_object_id r = 0 \<or> dd_flags r AND NOT VIRTUSB_DEVICE_DESTROY_FLAGS \<noteq> 0")
    case True
    with wf Some show ?thesis by (simp add: virtusb_control_device_destroy_def)
  next
    case valid: False
    from virtusb_object_lookup_control [OF wf, of "dd_object_id r"] obtain res s1 where
      look: "virtusb_object_lookup (dd_object_id r) s = Some (res, s1)"
        "case res of None \<Rightarrow> s1 = s \<and> unknown (dd_object_id r) s
         | Some d \<Rightarrow> control_wf (held(d := Suc (held d))) pins s1 \<and> found (dd_object_id r) d s s1 \<and>
             (\<exists>ob. load_obj d s1 = Some ob \<and> obj_type ob = VIRTUSB_OBJECT_TYPE_DEVICE \<and> obj_registered ob)"
      by (auto simp: runs_iff)
    show ?thesis
    proof (cases res)
      case None
      with look wf Some valid show ?thesis by (auto simp: virtusb_control_device_destroy_def)
    next
      case res: (Some d)
      let ?held = "held(d := Suc (held d))"
      from look(2) res obtain ob1 where wf1: "control_wf ?held pins s1"
        and f: "found (dd_object_id r) d s s1"
        and ob1: "load_obj d s1 = Some ob1" "obj_type ob1 = VIRTUSB_OBJECT_TYPE_DEVICE" "obj_registered ob1" by auto
      from f obtain ob where ob: "load_obj d s = Some ob" "obj_registered ob" "obj_id ob = dd_object_id r"
        "s1 = put_obj d (ob\<lparr>obj_refcount := obj_refcount ob + 1\<rparr>) s" by (rule foundD)
      note same = found_same [OF f]
      from control_wf_dev [OF wf1] ob1(1) obtain p where p: "load_port (Dev_port d) s1 = Some p" by (rule dev_port_alloc)
      with same(1) have p0: "load_port (Dev_port d) s = Some p" by simp
      note busy = device_busy_iff [OF topo_wf_ports [OF back_wf_topo [OF control_wfD(1) [OF wf]]] p0]
      from control_wf_destroy [OF wf1 ob1(1) p, of ?force] ob1(3) obtain ret s2 where
        s2: "virtusb_device_destroy (Some d) ?force s1 = Some (ret, s2)" "control_wf ?held pins s2"
          "kback.more s2 = kback.more s1" "hubs_report s1 s2"
          "if p_peer p \<noteq> None \<and> \<not> ?force then ret = - EBUSY \<and> s2 = s1
           else ret = 0 \<and> (\<forall>ob'. load_obj d s2 = Some ob' \<longrightarrow> \<not> obj_registered ob') \<and>
             (\<forall>e. e \<noteq> d \<longrightarrow> load_obj e s2 = load_obj e s1 \<and> load_port (Dev_port e) s2 = load_port (Dev_port e) s1)"
        by (auto simp: runs_iff)
      have code: "virtusb_control_device_destroy argp s = do { s \<leftarrow> virtusb_object_put (Some d) s2; Some (ret, s) }"
        using valid Some look(1) res ob1(1,2) s2(1) by (simp add: virtusb_control_device_destroy_def)
      have known: "\<not> unknown (dd_object_id r) s" using ob by (auto simp: unknown_def)
      show ?thesis
      proof (cases "p_peer p \<noteq> None \<and> \<not> ?force")
        case True
        with s2(5) have "ret = - EBUSY" "s2 = s1" by simp_all
        moreover from put_found [OF wf1 f refl] obtain s3 where
          "virtusb_object_put (Some d) s1 = Some s3" "control_wf held pins s3" "s3 = s" using same(7) by metis
        ultimately show ?thesis using True Some valid known ob busy by (auto simp: code)
      next
        case False
        with s2(5) have ret: "ret = 0" "\<And>ob'. load_obj d s2 = Some ob' \<Longrightarrow> \<not> obj_registered ob'"
          "\<And>e. e \<noteq> d \<Longrightarrow> load_obj e s2 = load_obj e s \<and> load_port (Dev_port e) s2 = load_port (Dev_port e) s"
          using ob(4) by auto
        have "0 < ?held d" by simp
        from put_others [where held = ?held and d = d, OF s2(2) this] obtain s3 where
          s3: "virtusb_object_put (Some d) s2 = Some s3" "control_wf (?held(d := ?held d - 1)) pins s3"
            "kback.more s3 = kback.more s2"
            "hubs_report s2 s3"
            "\<And>e. e \<noteq> d \<Longrightarrow> load_obj e s3 = load_obj e s2 \<and> load_port (Dev_port e) s3 = load_port (Dev_port e) s2"
            "\<And>ob. load_obj d s3 = Some ob \<Longrightarrow> \<exists>ob'. load_obj d s2 = Some ob' \<and> obj_registered ob = obj_registered ob'"
          by (auto simp: runs_iff)
        have held: "?held(d := ?held d - 1) = held" by auto
        have gone: "\<not> obj_registered o'" if "load_obj d s3 = Some o'" for o' using s3(6) [OF that] ret(2) by auto
        have "hubs_report s s2 = hubs_report s1 s2"
          by (rule hubs_report_cong [symmetric]) (simp_all add: same)
        with s2(4) have "hubs_report s s2" by simp
        then have rep: "hubs_report s s3" using s3(4) by (rule hubs_report_trans)
        have "unknown (dd_object_id r) s3"
          unfolding unknown_def
        proof (intro allI impI notI)
          fix e o' assume e: "load_obj e s3 = Some o'" "obj_registered o'" "obj_id o' = dd_object_id r"
          then have "e \<noteq> d" using gone by auto
          moreover from this e(1) have "load_obj e s = Some o'" using s3(5) ret(3) by simp
          from obj_wfD(3) [OF dev_wfD(2) [OF control_wf_dev [OF wf]] this ob(1)] e(3) ob(3) valid have "e = d" by simp
          ultimately show False by blast
        qed
        moreover have "plugged (cabling_of s) d \<noteq> None \<longrightarrow> ?force" using False busy by blast
        moreover have "kback.more s3 = kback.more s" using s3(3) s2(3) same(4) by simp
        ultimately show ?thesis
          using s3(1,2,5) ret(1,3) held rep Some valid known ob gone
          by (simp add: code) (intro exI [of _ d], auto)
      qed
    qed
  qed
qed

end
