(* ===== verification/Virtusb_Session_Props.thy ===== *)
theory Virtusb_Session_Props
  imports Virtusb_Ioctl_Props
begin

text \<open>
  The ioctls that create devices and run a data-plane session, on every branch, and the file
  operations: each keeps the invariant of the control plane.
\<close>

section \<open>Creating a device\<close>

lemma control_wf_create:
  assumes wf: "control_wf held pins s"
  shows "runs (virtusb_device_create mem xa_mem speed s) (\<lambda>(r, s'). kback.more s' = kback.more s \<and>
    kobj.more s' = kobj.more s \<and> (\<forall>h. load_hub h s' = load_hub h s) \<and>
    (case r of
      Inl e \<Rightarrow> control_wf held pins s' \<and> (\<forall>d. load_obj d s' = load_obj d s) \<and> e < 0 \<and>
        (\<not> mem \<or> \<not> virtusb_port_speed_is_valid speed \<or> next_object_id s > U32_MAX \<or> \<not> xa_mem)
    | Inr d \<Rightarrow> control_wf (held(d := 1)) pins s' \<and> load_obj d s = None \<and> held d = 0 \<and> refs held s d = 0 \<and>
        (\<exists>ob. load_obj d s' = Some ob \<and> obj_registered ob \<and> obj_type ob = VIRTUSB_OBJECT_TYPE_DEVICE \<and>
              unat (obj_id ob) = unat (next_object_id s)) \<and>
        load_port (Dev_port d) s' = Some (upstream_port d speed) \<and>
        (\<forall>e. e \<noteq> d \<longrightarrow> load_obj e s' = load_obj e s \<and> load_port (Dev_port e) s' = load_port (Dev_port e) s)))"
proof (rule runs_mono [OF virtusb_device_create_ok [OF control_wf_dev [OF wf]]])
  let ?P = "\<lambda>r s'. kobj.more s' = kobj.more s \<and> next_addr s \<le> next_addr s' \<and> (\<forall>h. load_hub h s' = load_hub h s) \<and>
    (case r of
      Inl e \<Rightarrow> dev_wf (refs held s) s' \<and> (\<forall>d. load_obj d s' = load_obj d s) \<and> registry s' = registry s \<and>
        next_object_id s' = next_object_id s \<and> e < 0 \<and>
        (\<not> mem \<or> \<not> virtusb_port_speed_is_valid speed \<or> next_object_id s > U32_MAX \<or> \<not> xa_mem)
    | Inr d \<Rightarrow> dev_wf ((refs held s)(d := 1)) s' \<and> load_obj d s = None \<and> next_object_id s' = next_object_id s + 1 \<and>
        (\<exists>ob. load_obj d s' = Some ob \<and> obj_registered ob \<and> obj_type ob = VIRTUSB_OBJECT_TYPE_DEVICE \<and>
              obj_refcount ob = 2 \<and> unat (obj_id ob) = unat (next_object_id s)) \<and>
        load_port (Dev_port d) s' = Some (upstream_port d speed) \<and>
        (\<forall>e. e \<noteq> d \<longrightarrow> load_obj e s' = load_obj e s \<and> load_port (Dev_port e) s' = load_port (Dev_port e) s))"
  fix x assume "case x of (r, s') \<Rightarrow> ?P r s'"
  then obtain r s' where x: "x = (r, s')" and P: "?P r s'" by (cases x) blast
  have more: "kback.more s' = kback.more s" using P by (intro back_fields_more(5) ktrans_more) blast
  show "case x of (r, s') \<Rightarrow> kback.more s' = kback.more s \<and> kobj.more s' = kobj.more s \<and>
    (\<forall>h. load_hub h s' = load_hub h s) \<and>
    (case r of
      Inl e \<Rightarrow> control_wf held pins s' \<and> (\<forall>d. load_obj d s' = load_obj d s) \<and> e < 0 \<and>
        (\<not> mem \<or> \<not> virtusb_port_speed_is_valid speed \<or> next_object_id s > U32_MAX \<or> \<not> xa_mem)
    | Inr d \<Rightarrow> control_wf (held(d := 1)) pins s' \<and> load_obj d s = None \<and> held d = 0 \<and> refs held s d = 0 \<and>
        (\<exists>ob. load_obj d s' = Some ob \<and> obj_registered ob \<and> obj_type ob = VIRTUSB_OBJECT_TYPE_DEVICE \<and>
              unat (obj_id ob) = unat (next_object_id s)) \<and>
        load_port (Dev_port d) s' = Some (upstream_port d speed) \<and>
        (\<forall>e. e \<noteq> d \<longrightarrow> load_obj e s' = load_obj e s \<and> load_port (Dev_port e) s' = load_port (Dev_port e) s))"
  proof (cases r)
    case (Inl e)
    have "control_wf held pins s'" by (rule control_wf_kobj [OF wf]) (use P Inl in simp_all)
    with more P show ?thesis by (simp add: x Inl)
  next
    case (Inr d)
    with P have "load_obj d s = None" by simp
    from obj_wfD(2) [OF dev_wfD(2) [OF control_wf_dev [OF wf]] this] have none: "refs held s d = 0" .
    then have "(refs held s)(d := 1) = refs (held(d := 1)) s" by auto
    with P Inr have "control_wf (held(d := 1)) pins s'" by (intro control_wf_kobj [OF wf]) simp_all
    with more P none show ?thesis by (simp add: x Inr) blast
  qed
qed

lemma virtusb_control_device_create_ok:
  assumes wf: "control_wf held pins s"
  shows "runs (virtusb_control_device_create mem xa_mem argp s) (\<lambda>(ret, out, s'). control_wf held pins s' \<and>
    kback.more s' = kback.more s \<and>
    (case um_device_create argp of
       None \<Rightarrow> ret = - EFAULT \<and> out = None \<and> s' = s
     | Some r \<Rightarrow>
         if \<not> virtusb_control_speed_caps_valid (dc_speed_caps r) then ret = - EINVAL \<and> out = None \<and> s' = s
         else ret < 0 \<and> out = None \<and> (\<forall>d. load_obj d s' = load_obj d s) \<and>
                (\<not> mem \<or> \<not> virtusb_port_speed_is_valid (ucast (dc_speed_caps r)) \<or> next_object_id s > U32_MAX \<or>
                 \<not> xa_mem \<or> \<not> um_writable argp)
            \<or> ret = 0 \<and> um_writable argp \<and> (\<exists>d ob. load_obj d s = None \<and> load_obj d s' = Some ob \<and> obj_registered ob \<and>
                unat (obj_id ob) = unat (next_object_id s) \<and>
                out = Some (User_device_create (r\<lparr>dc_object_id := obj_id ob\<rparr>)) \<and>
                load_port (Dev_port d) s' = Some (upstream_port d (ucast (dc_speed_caps r))) \<and>
                (\<forall>h. load_hub h s' = load_hub h s) \<and>
                (\<forall>e. e \<noteq> d \<longrightarrow> load_obj e s' = load_obj e s \<and>
                   load_port (Dev_port e) s' = load_port (Dev_port e) s))))"
proof (cases "\<exists>r. um_device_create argp = Some r \<and> virtusb_control_speed_caps_valid (dc_speed_caps r)")
  case False
  with wf show ?thesis by (auto simp: virtusb_control_device_create_def split: option.split)
next
  case True
  then obtain r where r: "um_device_create argp = Some r" "virtusb_control_speed_caps_valid (dc_speed_caps r)" by blast
  from control_wf_create [OF wf, of mem xa_mem "ucast (dc_speed_caps r)"] obtain res s1 where
    create: "virtusb_device_create mem xa_mem (ucast (dc_speed_caps r)) s = Some (res, s1)"
      "kback.more s1 = kback.more s" "kobj.more s1 = kobj.more s"
      "\<forall>h. load_hub h s1 = load_hub h s"
      "case res of
         Inl e \<Rightarrow> control_wf held pins s1 \<and> (\<forall>d. load_obj d s1 = load_obj d s) \<and> e < 0 \<and>
           (\<not> mem \<or> \<not> virtusb_port_speed_is_valid (ucast (dc_speed_caps r)) \<or> next_object_id s > U32_MAX \<or> \<not> xa_mem)
       | Inr d \<Rightarrow> control_wf (held(d := 1)) pins s1 \<and> load_obj d s = None \<and> held d = 0 \<and> refs held s d = 0 \<and>
           (\<exists>ob. load_obj d s1 = Some ob \<and> obj_registered ob \<and> obj_type ob = VIRTUSB_OBJECT_TYPE_DEVICE \<and>
              unat (obj_id ob) = unat (next_object_id s)) \<and>
           load_port (Dev_port d) s1 = Some (upstream_port d (ucast (dc_speed_caps r))) \<and>
           (\<forall>e. e \<noteq> d \<longrightarrow> load_obj e s1 = load_obj e s \<and> load_port (Dev_port e) s1 = load_port (Dev_port e) s)"
    by (auto simp: runs_iff)
  show ?thesis
  proof (cases res)
    case (Inl e)
    with create r show ?thesis by (auto simp: virtusb_control_device_create_def)
  next
    case (Inr d)
    let ?held = "held(d := 1)"
    from create(5) Inr obtain ob where wf1: "control_wf ?held pins s1" and new: "load_obj d s = None" "refs held s d = 0" "held d = 0"
      and ob: "load_obj d s1 = Some ob" "obj_registered ob" "unat (obj_id ob) = unat (next_object_id s)"
      and port: "load_port (Dev_port d) s1 = Some (upstream_port d (ucast (dc_speed_caps r)))"
      and others: "\<And>e. e \<noteq> d \<Longrightarrow> load_obj e s1 = load_obj e s"
        "\<And>e. e \<noteq> d \<Longrightarrow> load_port (Dev_port e) s1 = load_port (Dev_port e) s" by auto
    have held: "?held(d := ?held d - 1) = held" using new(3) by auto
    have pos: "0 < ?held d" by simp
    show ?thesis
    proof (cases "um_writable argp")
      case True
      from put_others [where held = ?held and d = d, OF wf1 pos] obtain s2 where
        s2: "virtusb_object_put (Some d) s1 = Some s2" "control_wf held pins s2" "kback.more s2 = kback.more s1"
          "\<And>e. e \<noteq> d \<Longrightarrow> load_obj e s2 = load_obj e s1"
        unfolding held by (auto simp: runs_iff)
      from virtusb_object_put_ok(1) [OF control_wf_dev [OF wf1]] pos s2(1)
      have "s2 = put_result (refs ?held s1) d s1" by simp
      then have "load_obj d s2 = Some (ob\<lparr>obj_refcount := obj_refcount ob - 1\<rparr>)"
        "load_port a s2 = load_port a s1" "load_hub h s2 = load_hub h s1" for a h
        using ob(1,2) by (simp_all add: put_result_def)
      with ob port create(4) others(2) have found: "load_obj d s2 = Some (ob\<lparr>obj_refcount := obj_refcount ob - 1\<rparr>)"
        "load_port (Dev_port d) s2 = Some (upstream_port d (ucast (dc_speed_caps r)))"
        "load_hub h s2 = load_hub h s" "e \<noteq> d \<Longrightarrow> load_port (Dev_port e) s2 = load_port (Dev_port e) s" for h e by simp_all
      have "virtusb_control_device_create mem xa_mem argp s =
          Some (0, Some (User_device_create (r\<lparr>dc_object_id := obj_id ob\<rparr>)), s2)"
        using True create(1) Inr r ob(1) s2(1) by (simp add: virtusb_control_device_create_def)
      then show ?thesis
        using True s2(2-4) others(1) create(2) r new(1) ob(2,3) found
        by simp (intro exI [of _ d], simp)
    next
      case False
      from control_wf_destroy [OF wf1 ob(1) port, of True] ob(2) obtain s2 where
        s2: "virtusb_device_destroy (Some d) True s1 = Some (0, s2)" "control_wf ?held pins s2"
          "kback.more s2 = kback.more s1" "kobj.more s2 = kobj.more s1"
          "\<And>ob'. load_obj d s2 = Some ob' \<Longrightarrow> \<not> obj_registered ob'"
          "\<And>e. e \<noteq> d \<Longrightarrow> load_obj e s2 = load_obj e s1"
        by (auto simp: runs_iff)
      from put_others [where held = ?held and d = d, OF s2(2) pos] obtain s3 where
        s3: "virtusb_object_put (Some d) s2 = Some s3" "control_wf held pins s3" "kback.more s3 = kback.more s2"
          "\<And>e. e \<noteq> d \<Longrightarrow> load_obj e s3 = load_obj e s2"
          "\<And>ob. load_obj d s3 = Some ob \<Longrightarrow> \<exists>ob'. load_obj d s2 = Some ob'"
          "\<And>ob. load_obj d s2 = Some ob \<Longrightarrow> \<not> obj_registered ob \<Longrightarrow> refs ?held s2 d = 1 \<Longrightarrow> load_obj d s3 = None"
        unfolding held runs_iff by blast
      have "refs ?held s2 d = 1"
        using refs_kobj [of s2 s ?held] s2(4) create(3) new(2) by (simp add: fun_eq_iff)
      then have "load_obj d s3 = None" using s3(5,6) s2(5) by (cases "load_obj d s3") auto
      then have "load_obj e s3 = load_obj e s" for e using s3(4) s2(6) others(1) new(1) by (cases "e = d") simp_all
      then show ?thesis
        using False create(1,2) Inr r ob s2(1,3) s3(1-3) by (simp add: virtusb_control_device_create_def)
    qed
  qed
qed

section \<open>Sessions\<close>

text \<open>The file is open on the controller, whose character device is there.\<close>

definition opened :: "nat \<Rightarrow> nat \<Rightarrow> 'a khcd_scheme \<Rightarrow> bool" where
  "opened f c s \<longleftrightarrow> (\<exists>fl v. load_file f s = Some fl \<and> file_opens c fl \<and> load_hcd c s = Some v \<and>
     ctl_hcd (vh_control v) = Some c)"

lemma openedE:
  assumes "opened f c s" and "control_wf held pins s"
  obtains fl v b hub where "load_file f s = Some fl" "file_opens c fl" "load_hcd c s = Some v"
    "ctl_hcd (vh_control v) = Some c" "vh_linux_hcd v = Some c" "load_back c s = Some b" "load_hub c s = Some hub"
proof -
  from assms(1) obtain fl v where *: "load_file f s = Some fl" "file_opens c fl" "load_hcd c s = Some v"
    "ctl_hcd (vh_control v) = Some c" by (auto simp: opened_def)
  from ctl_okD(1) [OF control_wfD(2) [OF assms(2)] *(3)] show thesis using that * by (auto simp: hcd_ok_def)
qed

lemma opened_more: "kback.more s' = kback.more s \<Longrightarrow> opened f c s' = opened f c s"
  by (simp add: opened_def khcd_fields [of s' s])

lemma ctl_ok_bind:
  assumes ok: "ctl_ok s" and more: "kback.more s' = kback.more s" and hubs: "\<And>h. load_hub h s' = load_hub h s"
    and backs: "\<And>g. load_back g s' = (if g = c then Some (b\<lparr>bindings := bindings b @ [bd]\<rparr>) else load_back g s)"
    and b: "load_back c s = Some b" and f: "opened (bind_owner bd) c s"
  shows "ctl_ok s'"
proof -
  note ok = ctl_okD [OF ok] and eq = khcd_fields [OF more]
  from f obtain fl v where fl: "load_file (bind_owner bd) s = Some fl" "file_opens c fl"
    and v: "load_hcd c s = Some v" "ctl_hcd (vh_control v) = Some c" by (auto simp: opened_def)
  have "hcd_ok s' h w" if "load_hcd h s' = Some w" for h w
    using ok(1) [of h w] that v by (auto simp: hcd_ok_def eq hubs backs)
  moreover have "load_hcd h s' \<noteq> None" if "load_back h s' = Some b'" for h b'
    using that ok(2) [of h] v by (auto simp: eq backs split: if_splits)
  moreover have "\<exists>fl. load_file (bind_owner x) s' = Some fl \<and> file_opens h fl"
    if "load_back h s' = Some b'" "x \<in> set (bindings b')" for h b' x
    using that ok(4) [of h] ok(4) [OF b, of x] fl by (auto simp: eq backs split: if_splits)
  ultimately show ?thesis unfolding ctl_ok_def using ok(3) by (simp add: eq)
qed

lemma virtusb_control_backend_register_ok:
  assumes wf: "control_wf held pins s" and f: "opened f c s" and b: "load_back c s = Some b"
  shows "runs (virtusb_control_backend_register mem f c argp s) (\<lambda>(ret, s'). control_wf held pins s' \<and>
    kback.more s' = kback.more s \<and> registry s' = registry s \<and> (\<forall>g. load_hub g s' = load_hub g s) \<and> ports_fade s s' \<and>
    (case um_backend_register argp of
       None \<Rightarrow> ret = - EFAULT \<and> s' = s
     | Some r \<Rightarrow>
         if br_object_id r = 0 then ret = - EINVAL \<and> s' = s
         else if unknown (br_object_id r) s then ret = - ENOENT \<and> s' = s
         else \<exists>d ob. load_obj d s = Some ob \<and> obj_registered ob \<and> obj_id ob = br_object_id r \<and>
                (if \<forall>i. plugged (cabling_of s) d \<noteq> Some (c, i) then ret = - ENODEV \<and> s' = s
                 else if \<not> mem then ret = - ENOMEM \<and> s' = s
                 else if stopping b then ret = - ESHUTDOWN \<and> s' = s
                 else if f \<in> bind_owner ` set (bindings b) \<or> d \<in> bind_device ` set (bindings b)
                 then ret = - EBUSY \<and> s' = s
                 else ret = 0 \<and> load_back c s' = Some (b\<lparr>bindings := bindings b @ [\<lparr>bind_device = d, bind_owner = f\<rparr>]\<rparr>))))"
proof (cases "um_backend_register argp")
  case None
  with wf show ?thesis by (simp add: virtusb_control_backend_register_def)
next
  case (Some r)
  let ?Q = "\<lambda>(ret, s'). control_wf held pins s' \<and> kback.more s' = kback.more s \<and> registry s' = registry s \<and>
         (\<forall>g. load_hub g s' = load_hub g s) \<and> ports_fade s s' \<and>
         (if br_object_id r = 0 then ret = - EINVAL \<and> s' = s
         else if unknown (br_object_id r) s then ret = - ENOENT \<and> s' = s
         else \<exists>d ob. load_obj d s = Some ob \<and> obj_registered ob \<and> obj_id ob = br_object_id r \<and>
                (if \<forall>i. plugged (cabling_of s) d \<noteq> Some (c, i) then ret = - ENODEV \<and> s' = s
                 else if \<not> mem then ret = - ENOMEM \<and> s' = s
                 else if stopping b then ret = - ESHUTDOWN \<and> s' = s
                 else if f \<in> bind_owner ` set (bindings b) \<or> d \<in> bind_device ` set (bindings b)
                 then ret = - EBUSY \<and> s' = s
                 else ret = 0 \<and> load_back c s' = Some (b\<lparr>bindings := bindings b @ [\<lparr>bind_device = d, bind_owner = f\<rparr>]\<rparr>)))"
  let ?body = "\<lambda>d s. do {
       up \<leftarrow> load_port (Dev_port d) s;
       elsewhere \<leftarrow> (case p_peer up of
          None \<Rightarrow> Some True
        | Some peer \<Rightarrow> do {
            down \<leftarrow> load_port peer s;
            v \<leftarrow> load_hcd c s;
            hub \<leftarrow> ctl_hcd (vh_control v);
            Some (p_owner down \<noteq> Some (Own_hub hub))
          });
       if elsewhere then do {
         s \<leftarrow> virtusb_object_put (Some d) s;
         Some (- ENODEV, s)
       }
       else do {
         v \<leftarrow> load_hcd c s;
         (ret, s) \<leftarrow> virtusb_backend_register mem (ctl_hcd (vh_control v)) (Some f) (Some d) s;
         s \<leftarrow> virtusb_object_put (Some d) s;
         Some (ret, s)
       }
     }"
  have "runs (do { (device, s) \<leftarrow> virtusb_control_lookup_device (br_object_id r) s;
                   (case device of Inl e \<Rightarrow> Some (e, s) | Inr d \<Rightarrow> ?body d s) }) ?Q"
  proof (rule with_found [OF wf])
    fix d s1 ob pu
    assume *: "br_object_id r \<noteq> 0" "\<not> unknown (br_object_id r) s" and fd: "found (br_object_id r) d s s1"
      and wf1: "control_wf (held(d := Suc (held d))) pins s1"
      and ob: "load_obj d s = Some ob" "obj_registered ob" "obj_id ob = br_object_id r"
      and pu: "load_port (Dev_port d) s1 = Some pu" "p_role pu = VIRTUSB_PORT_ROLE_UPSTREAM"
    let ?held = "held(d := Suc (held d))"
    note same = found_same [OF fd]
    have f1: "opened f c s1" using f by (simp add: opened_more [OF same(4)])
    from fd obtain ob' where s1: "s1 = put_obj d (ob'\<lparr>obj_refcount := obj_refcount ob' + 1\<rparr>) s" by (rule foundD)
    then have b1: "load_back c s1 = Some b" using b by simp
    from s1 obtain ob1 where ob1: "load_obj d s1 = Some ob1" by simp
    from f1 wf1 obtain fl v where v: "load_hcd c s1 = Some v" "ctl_hcd (vh_control v) = Some c" by (rule openedE)
    from put_found [OF wf1 fd refl] same(7) have restored: "virtusb_object_put (Some d) s1 = Some s" by metis
    have refused: "runs (do { s \<leftarrow> virtusb_object_put (Some d) s1; Some (e, s) }) ?Q"
      if "if \<forall>i. plugged (cabling_of s) d \<noteq> Some (c, i) then e = - ENODEV
          else if \<not> mem then e = - ENOMEM
          else if stopping b then e = - ESHUTDOWN
          else (f \<in> bind_owner ` set (bindings b) \<or> d \<in> bind_device ` set (bindings b)) \<and> e = - EBUSY" for e
      using that * ob wf by (simp add: restored) (intro exI [of _ d], auto split: if_splits)
    note ports = topo_wf_ports [OF back_wf_topo [OF control_wfD(1) [OF wf1]]]
    have at: "plugged (cabling_of s) d = Some (h, i) \<longleftrightarrow> p_peer pu = Some (Hub_port h i)" for h i
      using pu(1) by (simp add: plugged_eq same(5) [symmetric])
    show "runs (?body d s1) ?Q"
    proof (cases "\<forall>i. plugged (cabling_of s) d \<noteq> Some (c, i)")
      case True
      have "runs (?body d s1) ?Q = runs (do { s \<leftarrow> virtusb_object_put (Some d) s1; Some (- ENODEV, s) }) ?Q"
      proof (cases "p_peer pu")
        case (Some peer)
        from ports pu(1) Some obtain h i q where "peer = Hub_port h i" "load_port (Hub_port h i) s1 = Some q"
          "p_owner q = Some (Own_hub h)" by (rule peer_of_dev_port)
        then show ?thesis using True at [of h i] Some pu(1) v by auto
      qed (use pu(1) in simp)
      with refused [of "- ENODEV"] True show ?thesis by simp
    next
      case False
      then obtain i where peer: "p_peer pu = Some (Hub_port c i)" using at by auto
      from ports pu(1) peer obtain q where "load_port (Hub_port c i) s1 = Some q" "p_owner q = Some (Own_hub c)"
        by (rule peer_of_dev_port) auto
      then have body: "?body d s1 = do {
          (ret, s) \<leftarrow> virtusb_backend_register mem (Some c) (Some f) (Some d) s1;
          s \<leftarrow> virtusb_object_put (Some d) s;
          Some (ret, s) }" using pu(1) peer v by simp
      have "runs (virtusb_backend_register mem (Some c) (Some f) (Some d) s1) (\<lambda>(ret, s2). back_wf ?held pins s2 \<and>
          (if \<not> mem then ret = - ENOMEM \<and> s2 = s1
           else if stopping b then ret = - ESHUTDOWN \<and> s2 = s1
           else if f \<in> bind_owner ` set (bindings b) \<or> d \<in> bind_device ` set (bindings b) then ret = - EBUSY \<and> s2 = s1
           else ret = 0 \<and> (\<forall>g. load_back g s2 = (if g = c
                  then Some (b\<lparr>bindings := bindings b @ [\<lparr>bind_device = d, bind_owner = f\<rparr>]\<rparr>) else load_back g s1)) \<and>
                (\<forall>g. load_hub g s2 = load_hub g s1) \<and> kback.more s2 = kback.more s1 \<and> registry s2 = registry s1 \<and>
                (\<forall>a. load_port a s2 = load_port a s1)))"
        by (rule runs_mono [OF virtusb_backend_register_ok [OF control_wfD(1) [OF wf1] b1 ob1, of mem f]])
           (auto split: if_splits)
      then obtain ret s2 where
        reg: "virtusb_backend_register mem (Some c) (Some f) (Some d) s1 = Some (ret, s2)" "back_wf ?held pins s2"
          "if \<not> mem then ret = - ENOMEM \<and> s2 = s1
           else if stopping b then ret = - ESHUTDOWN \<and> s2 = s1
           else if f \<in> bind_owner ` set (bindings b) \<or> d \<in> bind_device ` set (bindings b) then ret = - EBUSY \<and> s2 = s1
           else ret = 0 \<and> (\<forall>g. load_back g s2 = (if g = c
                  then Some (b\<lparr>bindings := bindings b @ [\<lparr>bind_device = d, bind_owner = f\<rparr>]\<rparr>) else load_back g s1)) \<and>
                (\<forall>g. load_hub g s2 = load_hub g s1) \<and> kback.more s2 = kback.more s1 \<and> registry s2 = registry s1 \<and>
                (\<forall>a. load_port a s2 = load_port a s1)"
        unfolding runs_iff split_paired_Ex split_conv by blast
      show ?thesis
      proof (cases "\<not> mem \<or> stopping b \<or> f \<in> bind_owner ` set (bindings b) \<or> d \<in> bind_device ` set (bindings b)")
        case True
        with reg(3) have "s2 = s1" by (auto split: if_splits)
        moreover have "runs (do { s \<leftarrow> virtusb_object_put (Some d) s1; Some (ret, s) }) ?Q"
          by (rule refused) (use True False reg(3) in \<open>auto split: if_splits\<close>)
        ultimately show ?thesis unfolding body using reg(1) by simp
      next
        case ok: False
        with reg(3) have s2: "ret = 0" "kback.more s2 = kback.more s1" "\<And>g. load_hub g s2 = load_hub g s1"
          "\<And>g. load_back g s2 = (if g = c
             then Some (b\<lparr>bindings := bindings b @ [\<lparr>bind_device = d, bind_owner = f\<rparr>]\<rparr>) else load_back g s1)" "registry s2 = registry s1"
          "\<And>a. load_port a s2 = load_port a s1" by auto
        have "ctl_ok s2" by (rule ctl_ok_bind [OF control_wfD(2) [OF wf1] s2(2-4) b1]) (use f1 in simp)
        with reg(2) have "control_wf ?held pins s2" by (simp add: control_wf_def)
        moreover have "0 < ?held d" by simp
        ultimately obtain s3 where s3: "virtusb_object_put (Some d) s2 = Some s3"
          "control_wf (?held(d := ?held d - 1)) pins s3" "kback.more s3 = kback.more s2"
          using put_others [where held = ?held and d = d and s = s2 and pins = pins] unfolding runs_iff by blast
        have "?held(d := ?held d - 1) = held" by auto
        moreover have "load_back c s3 = load_back c s2" "registry s3 = registry s2" "\<forall>g. load_hub g s3 = load_hub g s2" "ports_fade s s3"
        proof -
          have "0 < refs ?held s2 d" by simp
          note put = virtusb_object_put_ok(1) [OF control_wf_dev [OF \<open>control_wf ?held pins s2\<close>] this]
          from put s3(1) show "load_back c s3 = load_back c s2" "\<forall>g. load_hub g s3 = load_hub g s2" by simp_all
          have "ports_fade s s2" by (rule ports_fade_same) (simp add: s2(6) s1)
          then show "ports_fade s s3" using put s3(1) by (simp add: ports_fade_put)
          from put s3(1) show "registry s3 = registry s2"
            by (auto simp: put_result_def free_object_def put_obj_def split: option.splits if_splits)
        qed
        moreover have "registry s1 = registry s" "\<forall>g. load_hub g s1 = load_hub g s" using s1 by (simp_all add: put_obj_def load_hub_def)
        ultimately show ?thesis
          unfolding body using reg(1) s3 s2 * ob ok False same(4) by simp (rule exI [of _ d], auto)
      qed
    qed
  qed (use wf in simp_all)
  then show ?thesis by (simp add: virtusb_control_backend_register_def Some)
qed

section \<open>Serving transfers\<close>

lemma control_wf_moved:
  assumes wf: "control_wf held pins s" and b: "load_back h s = Some b"
    and kept: "back_wf held pins (put_back h b' s)" and bd: "set (bindings b') \<subseteq> set (bindings b)"
  shows "control_wf held pins (put_back h b' s)"
  by (rule control_wf_frame [OF wf kept]) (use b bd in \<open>simp_all add: put_back_def load_hub_def load_back_def\<close>)

lemma control_wf_wake [simp]: "control_wf held pins (wake_up_interruptible_all h s) = control_wf held pins s"
proof -
  have "ctl_ok (wake_up_interruptible_all h s) = ctl_ok s"
    by (simp add: ctl_ok_def hcd_ok_def wake_up_interruptible_all_def load_hcd_def load_file_def load_back_def load_hub_def)
  then show ?thesis by (simp add: control_wf_def)
qed

lemma opened_wake [simp]: "opened f c (wake_up_interruptible_all h s) = opened f c s"
  by (rule opened_more) (simp add: wake_up_interruptible_all_def)

text \<open>What other threads do while a fetch of the file sleeps: the file stays open on its controller.\<close>

definition keeps_open :: "(nat \<Rightarrow> nat) \<Rightarrow> (nat \<Rightarrow> nat) \<Rightarrow> nat \<Rightarrow> nat \<Rightarrow> ('a khcd_scheme \<Rightarrow> 'a khcd_scheme) \<Rightarrow> bool" where
  "keeps_open held pins f c step \<longleftrightarrow>
     (\<forall>s. control_wf held pins s \<longrightarrow> opened f c s \<longrightarrow> control_wf held pins (step s) \<and> opened f c (step s))"

lemma rollback_ok:
  assumes wf: "control_wf held pins s" and f: "opened f c s"
  shows "runs (virtusb_backend_fetch_rollback (Some c) (Some f) i s) (\<lambda>(_, s'). control_wf held pins s' \<and> opened f c s' \<and>
    kback.more s' = kback.more s \<and> registry s' = registry s)"
proof -
  from f wf obtain b where b: "load_back c s = Some b" by (rule openedE)
  note roll = virtusb_backend_fetch_rollback_ok [OF control_wfD(1) [OF wf] b]
  have "control_wf held pins (put_back c (rolled r b) s)" if "fetched_as f i s b = Some r" for r
    using roll(2) [OF that] by (intro control_wf_moved [OF wf b]) (simp_all add: rolled_def)
  moreover have "opened f c (put_back c b' s) = opened f c s" "kback.more (put_back c b' s) = kback.more s"
    "registry (put_back c b' s) = registry s" for b'
    by (rule opened_more) (simp_all add: put_back_def)
  moreover have "kback.more (wake_up_interruptible_all c s') = kback.more s'"
    "registry (wake_up_interruptible_all c s') = registry s'" for s' :: "'a khcd_scheme"
    by (simp_all add: wake_up_interruptible_all_def)
  ultimately show ?thesis using wf f by (simp add: roll(1) split: option.split)
qed

text \<open>
  A fetch keeps what the waiting steps keep of the registered devices, the controllers and the
  files, which it does not write itself.
\<close>

lemma control_transfer_fetch_keeps:
  fixes s :: "'a khcd_scheme"
  assumes wf: "control_wf held pins s" and f: "opened f c s" and start: "K (registry s) (kback.more s)"
    and waits: "\<And>ret step s. (ret, step) \<in> set waits \<Longrightarrow> control_wf held pins s \<Longrightarrow> opened f c s \<Longrightarrow> K (registry s) (kback.more s) \<Longrightarrow>
      control_wf held pins (step s) \<and> opened f c (step s) \<and> K (registry (step s)) (kback.more (step s))"
  shows "runs (virtusb_control_transfer_fetch mem waits f c argp s) (\<lambda>(result, s'). control_wf held pins s' \<and> opened f c s' \<and>
    K (registry s') (kback.more s') \<and>
    (case result of
       None \<Rightarrow> mem \<and> (\<exists>b bd. load_back c s' = Some b \<and> \<not> stopping b \<and>
          virtusb_backend_find_owner_locked b f = Some bd \<and> device_queue s' b (bind_device bd) = [])
     | Some (ret, out) \<Rightarrow> ret = 0 \<and> um_writable argp \<and> (\<exists>fetch. out = Some (User_transfer_fetch fetch) \<and>
         length (tf_setup fetch) = VIRTUSB_TRANSFER_SETUP_SIZE) \<or>
         ret < 0 \<and> out = None))"
proof (cases mem)
  case False
  with wf f start show ?thesis by (simp add: virtusb_control_transfer_fetch_def)
next
  case True
  let ?keep = "\<lambda>s :: 'a khcd_scheme. control_wf held pins s \<and> opened f c s \<and> K (registry s) (kback.more s)"
  from f wf obtain fl v where fl: "load_file f s = Some fl" and v: "load_hcd c s = Some v" "ctl_hcd (vh_control v) = Some c"
    by (rule openedE)
  have "runs (virtusb_backend_fetch (Some c) (Some f) (Some zero_fetch) (file_nonblock fl) waits s) (\<lambda>(result, s'). ?keep s' \<and>
    (case result of
       None \<Rightarrow> \<not> file_nonblock fl \<and> (\<exists>b' bd. load_back c s' = Some b' \<and> \<not> stopping b' \<and>
          virtusb_backend_find_owner_locked b' f = Some bd \<and> device_queue s' b' (bind_device bd) = [])
     | Some (ret, fetch) \<Rightarrow> ret = 0 \<and> (\<exists>x. fetch = Some x \<and> length (tf_setup x) = VIRTUSB_TRANSFER_SETUP_SIZE) \<or>
         ret < 0 \<and> fetch = Some zero_fetch))"
  proof (rule fetch_interleaved [where keep = ?keep and pins = pins and held = held])
    show "back_wf held pins s \<and> load_back c s \<noteq> None" if "?keep s" for s :: "'a khcd_scheme"
      using that control_wfD(1) openedE [of f c s held pins] by blast
    show "?keep (put_back c (moved f r b) s)"
      if "?keep s" "load_back c s = Some b" "back_wf held pins (put_back c (moved f r b) s)" for s :: "'a khcd_scheme" and b r
      using that control_wf_moved [of held pins s c b "moved f r b"] opened_more [of "put_back c (moved f r b) s" s]
      by (simp add: moved_def put_back_def)
  qed (use wf f start waits in auto)
  then obtain result s1 where
    s1: "virtusb_backend_fetch (Some c) (Some f) (Some zero_fetch) (file_nonblock fl) waits s = Some (result, s1)"
      "control_wf held pins s1" "opened f c s1"
      "case result of
         None \<Rightarrow> \<not> file_nonblock fl \<and> (\<exists>b' bd. load_back c s1 = Some b' \<and> \<not> stopping b' \<and>
            virtusb_backend_find_owner_locked b' f = Some bd \<and> device_queue s1 b' (bind_device bd) = [])
       | Some (ret, fetch) \<Rightarrow> ret = 0 \<and> (\<exists>x. fetch = Some x \<and> length (tf_setup x) = VIRTUSB_TRANSFER_SETUP_SIZE) \<or>
         ret < 0 \<and> fetch = Some zero_fetch"
      "K (registry s1) (kback.more s1)"
    unfolding runs_iff split_paired_Ex split_conv by blast
  from s1(3,2) obtain v1 where v1: "load_hcd c s1 = Some v1" "ctl_hcd (vh_control v1) = Some c" by (rule openedE)
  from rollback_ok [OF s1(2,3)] have roll: "\<exists>e s2. virtusb_backend_fetch_rollback (Some c) (Some f) i s1 = Some (e, s2) \<and>
      control_wf held pins s2 \<and> opened f c s2 \<and> kback.more s2 = kback.more s1 \<and>
      registry s2 = registry s1" for i
    by (auto simp: runs_iff)
  show ?thesis
  proof (cases result)
    case None
    with True fl v s1 show ?thesis by (simp add: virtusb_control_transfer_fetch_def)
  next
    case (Some x)
    obtain ret fetch where x: "x = (ret, fetch)" by (cases x)
    with s1(4) Some consider (ok) ft where "ret = 0" "fetch = Some ft" "length (tf_setup ft) = 8" | (err) "ret < 0" by auto
    then show ?thesis
    proof cases
      case (ok ft)
      from roll [of "tf_transfer_id ft"] True fl v v1 s1(1-3,5) ok show ?thesis
        by (cases "um_writable argp") (auto simp: virtusb_control_transfer_fetch_def Some x)
    next
      case err
      with True fl v s1 show ?thesis by (simp add: virtusb_control_transfer_fetch_def Some x)
    qed
  qed
qed

lemma virtusb_control_transfer_fetch_ok:
  assumes wf: "control_wf held pins s" and f: "opened f c s"
    and waits: "\<forall>(ret, step) \<in> set waits. keeps_open held pins f c step"
  shows "runs (virtusb_control_transfer_fetch mem waits f c argp s) (\<lambda>(result, s'). control_wf held pins s' \<and> opened f c s' \<and>
    (case result of
       None \<Rightarrow> mem \<and> (\<exists>b bd. load_back c s' = Some b \<and> \<not> stopping b \<and>
          virtusb_backend_find_owner_locked b f = Some bd \<and> device_queue s' b (bind_device bd) = [])
     | Some (ret, out) \<Rightarrow> ret = 0 \<and> um_writable argp \<and> (\<exists>fetch. out = Some (User_transfer_fetch fetch)) \<or>
         ret < 0 \<and> out = None))"
  by (rule runs_mono [OF control_transfer_fetch_keeps [OF wf f, where K = "\<lambda>_ _. True"]])
     (use waits in \<open>auto simp: keeps_open_def split: option.splits\<close>)

text \<open>The message of a completion carries a full data array, whatever its length field says.\<close>

definition completions_sized :: "user_memory \<Rightarrow> bool" where
  "completions_sized argp \<longleftrightarrow>
     (\<forall>r. um_transfer_complete argp = Some r \<longrightarrow> length (tc_data r) = VIRTUSB_TRANSFER_DATA_MAX)"

lemma gave_back_frame:
  assumes wf: "control_wf held pins s" and kept: "back_wf held' pins' s'" and gave: "gave_back h r urb status s s'"
  shows "control_wf held' pins' s'" and "kback.more s' = kback.more s"
proof -
  show more: "kback.more s' = kback.more s" using gave by (simp add: gave_back_def)
  show "control_wf held' pins' s'"
  proof (rule control_wf_frame [OF wf kept more])
    show "load_hub g s' \<noteq> None" if "load_hub g s \<noteq> None" for g using that gave by (simp add: gave_back_def)
    show "rel_option (\<lambda>b b'. set (bindings b') \<subseteq> set (bindings b)) (load_back g s) (load_back g s')" for g
      using gave by (cases "load_back g s") (auto simp: gave_back_def without_def)
  qed
qed

lemma virtusb_control_transfer_complete_ok:
  assumes wf: "control_wf held pins s" and f: "opened f c s" and b: "load_back c s = Some b"
    and sized: "completions_sized argp"
  shows "runs (virtusb_control_transfer_complete mem f c argp s) (\<lambda>(ret, s'). control_wf held pins s' \<and>
    kback.more s' = kback.more s \<and>
    (if \<not> mem then ret = - ENOMEM \<and> s' = s
     else case um_transfer_complete argp of
       None \<Rightarrow> ret = - EFAULT \<and> s' = s
     | Some m \<Rightarrow>
         if tc_transfer_id m = 0 then ret = - EINVAL \<and> s' = s
         else case fetched_as f (tc_transfer_id m) s b of
           None \<Rightarrow> ret = - ENOENT \<and> s' = s
         | Some r \<Rightarrow> \<exists>tr urb. load_trans (req_transfer r) s = Some tr \<and> load_urb (req_urb r) s = Some urb \<and>
             (if unat (tc_actual_length m) > unat (t_requested_length tr)
              then ret = - EMSGSIZE \<and> gave_back c r urb (- EMSGSIZE) s s'
              else ret = 0 \<and> gave_back c r (completed_urb urb tr m) (tc_status m) s s')))"
proof (cases "mem \<and> um_transfer_complete argp \<noteq> None")
  case False
  with wf show ?thesis by (auto simp: virtusb_control_transfer_complete_def)
next
  case True
  then obtain m where m: "um_transfer_complete argp = Some m" by blast
  with sized have "length (tc_data m) = VIRTUSB_TRANSFER_DATA_MAX" by (simp add: completions_sized_def)
  note complete = virtusb_backend_complete_ok [where f = f, OF control_wfD(1) [OF wf] b this]
  from f wf obtain v where v: "load_hcd c s = Some v" "ctl_hcd (vh_control v) = Some c" "vh_linux_hcd v = Some c"
    by (rule openedE)
  have "virtusb_control_transfer_complete mem f c argp s = virtusb_backend_complete (Some c) (Some c) (Some f) (Some m) s"
    using True m v by (simp add: virtusb_control_transfer_complete_def)
  moreover have "runs (virtusb_backend_complete (Some c) (Some c) (Some f) (Some m) s)
      (\<lambda>(ret, s'). control_wf held pins s' \<and> kback.more s' = kback.more s)"
    by (rule runs_mono [OF complete])
       (auto dest: gave_back_frame [OF wf] simp: wf split: option.splits if_splits)
  note runs_conjI [OF this complete]
  ultimately show ?thesis
    using True by (auto simp only: m option.simps split_def if_True not_True_eq_False if_False elim!: runs_mono)
qed

lemma gave_back_all_frame:
  assumes wf: "control_wf held pins s" and kept: "back_wf held' pins' s'"
    and gave: "gave_back_all h rs status (wake_up_interruptible_all h s) s'"
    and b: "load_back h s = Some b" and b': "load_back h s' = Some b'" and bd: "set (bindings b') \<subseteq> set (bindings b)"
  shows "control_wf held' pins' s'" and "kback.more s' = kback.more s"
proof -
  show more: "kback.more s' = kback.more s" using gave by (simp add: gave_back_all_def)
  show "control_wf held' pins' s'"
  proof (rule control_wf_frame [OF wf kept more])
    show "load_hub g s' \<noteq> None" if "load_hub g s \<noteq> None" for g using that gave by (simp add: gave_back_all_def)
    show "rel_option (\<lambda>b b'. set (bindings b') \<subseteq> set (bindings b)) (load_back g s) (load_back g s')" for g
      using gave b b' bd by (cases "g = h") (simp_all add: gave_back_all_def)
  qed
qed

lemma control_release_owner_ok:
  assumes wf: "control_wf held pins s" and b: "load_back c s = Some b"
  shows "runs (virtusb_backend_release_owner (Some c) (Some c) (Some f) s) (\<lambda>s'. control_wf held pins s' \<and>
    kback.more s' = kback.more s \<and>
    (case virtusb_backend_find_owner_locked b f of
       None \<Rightarrow> s' = s
     | Some bd \<Rightarrow>
         load_back c s' = Some (b\<lparr>bindings := remove1 bd (bindings b),
           pending := filter (\<lambda>r. device_of s r \<noteq> bind_device bd) (pending b),
           active := filter (\<lambda>r. device_of s r \<noteq> bind_device bd) (active b)\<rparr>) \<and>
         gave_back_all c (filter (\<lambda>r. device_of s r = bind_device bd) (pending b @ active b)) (- ESHUTDOWN)
           (wake_up_interruptible_all c s) s'))"
proof (rule runs_mono [OF virtusb_backend_release_owner_ok [where f = f, OF control_wfD(1) [OF wf] b]])
  fix s' assume *: "back_wf held pins s' \<and>
    (case virtusb_backend_find_owner_locked b f of
       None \<Rightarrow> s' = s
     | Some bd \<Rightarrow>
         load_back c s' = Some (b\<lparr>bindings := remove1 bd (bindings b),
           pending := filter (\<lambda>r. device_of s r \<noteq> bind_device bd) (pending b),
           active := filter (\<lambda>r. device_of s r \<noteq> bind_device bd) (active b)\<rparr>) \<and>
         gave_back_all c (filter (\<lambda>r. device_of s r = bind_device bd) (pending b @ active b)) (- ESHUTDOWN)
           (wake_up_interruptible_all c s) s')"
  have "control_wf held pins s' \<and> kback.more s' = kback.more s"
  proof (cases "virtusb_backend_find_owner_locked b f")
    case (Some bd)
    from * Some have **: "back_wf held pins s'" "load_back c s' = Some (b\<lparr>bindings := remove1 bd (bindings b),
           pending := filter (\<lambda>r. device_of s r \<noteq> bind_device bd) (pending b),
           active := filter (\<lambda>r. device_of s r \<noteq> bind_device bd) (active b)\<rparr>)"
      "gave_back_all c (filter (\<lambda>r. device_of s r = bind_device bd) (pending b @ active b)) (- ESHUTDOWN)
           (wake_up_interruptible_all c s) s'" by simp_all
    from gave_back_all_frame [OF wf **(1,3) b **(2)] set_remove1_subset [of bd "bindings b"] show ?thesis by simp
  qed (use * wf in simp)
  with * show "control_wf held pins s' \<and> kback.more s' = kback.more s \<and>
    (case virtusb_backend_find_owner_locked b f of
       None \<Rightarrow> s' = s
     | Some bd \<Rightarrow>
         load_back c s' = Some (b\<lparr>bindings := remove1 bd (bindings b),
           pending := filter (\<lambda>r. device_of s r \<noteq> bind_device bd) (pending b),
           active := filter (\<lambda>r. device_of s r \<noteq> bind_device bd) (active b)\<rparr>) \<and>
         gave_back_all c (filter (\<lambda>r. device_of s r = bind_device bd) (pending b @ active b)) (- ESHUTDOWN)
           (wake_up_interruptible_all c s) s')" by blast
qed

end
