(* ===== verification/Virtusb_Status_Props.thy ===== *)
theory Virtusb_Status_Props
  imports Virtusb_Control_Props
begin

text \<open>
  What \<open>VIRTUSB_IOCTL_GET_PORT_STATUS\<close> reports, and that it is what the USB core sees of the same
  port.
\<close>

section \<open>The words of a port\<close>

lemma bit_numeral_32:
  "(0x0001 :: u32) = push_bit 0 1" "(0x0002 :: u32) = push_bit 1 1" "(0x0004 :: u32) = push_bit 2 1"
  "(0x0008 :: u32) = push_bit 3 1" "(0x0010 :: u32) = push_bit 4 1" "(0x0100 :: u32) = push_bit 8 1"
  by simp_all

lemma bit_stat_32:
  "bit (w OR 0x0001 :: u32) b \<longleftrightarrow> bit w b \<or> b = 0" "bit (w OR 0x0002 :: u32) b \<longleftrightarrow> bit w b \<or> b = 1"
  "bit (w OR 0x0004 :: u32) b \<longleftrightarrow> bit w b \<or> b = 2" "bit (w OR 0x0008 :: u32) b \<longleftrightarrow> bit w b \<or> b = 3"
  "bit (w OR 0x0010 :: u32) b \<longleftrightarrow> bit w b \<or> b = 4" "bit (w OR 0x0100 :: u32) b \<longleftrightarrow> bit w b \<or> b = 8"
  by (subst bit_numeral_32; auto simp only: bit_or_iff bit_push_bit_iff bit_1_iff; simp)+

lemma bit_stat_32_if:
  "bit (if c then 1 else 0 :: u32) b \<longleftrightarrow> c \<and> b = 0"
  "bit (if c then w OR 0x0001 else w :: u32) b \<longleftrightarrow> bit w b \<or> c \<and> b = 0"
  "bit (if c then w OR 0x0002 else w :: u32) b \<longleftrightarrow> bit w b \<or> c \<and> b = 1"
  "bit (if c then w OR 0x0004 else w :: u32) b \<longleftrightarrow> bit w b \<or> c \<and> b = 2"
  "bit (if c then w OR 0x0008 else w :: u32) b \<longleftrightarrow> bit w b \<or> c \<and> b = 3"
  "bit (if c then w OR 0x0010 else w :: u32) b \<longleftrightarrow> bit w b \<or> c \<and> b = 4"
  "bit (if c then w OR 0x0100 else w :: u32) b \<longleftrightarrow> bit w b \<or> c \<and> b = 8"
  by (simp_all add: bit_stat_32) (simp add: bit_1_iff)

lemma control_state_test_bit: "unat n < 32 \<Longrightarrow> virtusb_control_state_test w n = bit w (unat n)"
  by (simp add: virtusb_control_state_test_def and_BIT_eq_0)

text \<open>The state of a port, bit by bit; the speed has a field of its own.\<close>

definition port_state_of :: "'a topo_scheme \<Rightarrow> nat \<Rightarrow> virtusb_hub \<Rightarrow> u32 \<Rightarrow> virtusb_port_state \<Rightarrow> bool" where
  "port_state_of s h hub n st \<longleftrightarrow>
     (\<forall>b. bit (ps_status st) b \<longleftrightarrow> b \<notin> {9, 10} \<and> port_status_bit s h hub n b) \<and>
     (\<forall>b. bit (ps_change st) b \<longleftrightarrow> port_change_bit hub (unat n) b) \<and>
     ps_speed st = speed_code (packed_speed hub n)"

lemma virtusb_control_build_port_state_ok:
  assumes wf: "topo_wf s" and h: "load_hub h s = Some hub" and n: "valid_port hub n"
  obtains st where "virtusb_control_build_port_state h n s = Some st" and "port_state_of s h hub n st"
proof -
  note shape = topo_wf_shape [OF wf h]
  from shape n obtain i where n32: "unat n < 32" and i: "unat n = Suc i" by (rule valid_portD)
  have pos: "0 < n" using i by (simp add: word_less_nat_alt)
  then have n0: "n \<noteq> 0" by blast
  note ok = virtusb_hub_port_is_connected_ok [OF topo_wf_ports [OF wf] h shape]
    virtusb_hub_port_is_powered_ok [OF h shape n] virtusb_hub_port_is_over_current_ok [OF h shape n]
    virtusb_hub_get_port_speed_ok [OF h shape] control_state_test_bit [OF n32]
  show thesis
    by (rule that, simp add: virtusb_control_build_port_state_def h ok n n0 pos Let_def)
       (unfold port_state_of_def, intro conjI allI;
        auto simp: port_status_bit_def port_change_bit_def bit_stat_32 bit_stat_32_if)
qed

text \<open>Port 0 stands for the hub itself: only a global over-current shows.\<close>

definition hub_state_of :: "virtusb_hub \<Rightarrow> virtusb_port_state" where
  "hub_state_of hub =
     \<lparr>ps_status = (if hub_over_current_mode hub = VIRTUSB_HUB_OVER_CURRENT_GLOBAL \<and> hub_over_current hub then 8 else 0),
      ps_change = 0, ps_speed = speed_code VIRTUSB_PORT_SPEED_NONE\<rparr>"

lemma virtusb_control_build_port_state_hub:
  assumes wf: "topo_wf s" and h: "load_hub h s = Some hub"
  shows "virtusb_control_build_port_state h 0 s = Some (hub_state_of hub)"
proof -
  have "\<not> bit (usb_enabled (hub_usb hub)) 0" "\<not> bit (usb_suspended (hub_usb hub)) 0" "usb_reset (hub_usb hub) = 0"
    "\<not> bit (chg_connected (hub_usb_change hub)) 0" "chg_enabled (hub_usb_change hub) = 0"
    "chg_suspended (hub_usb_change hub) = 0" "chg_over_current (hub_usb_change hub) = 0"
    "\<not> bit (chg_reset (hub_usb_change hub)) 0"
    using topo_wf_hub_usb [OF wf h] unfolding hub_usb_ok_def by blast+
  then show ?thesis
    using h control_state_test_bit [of 0]
    by (simp add: virtusb_control_build_port_state_def virtusb_hub_is_over_current_def hub_state_of_def Let_def)
qed

lemma virtusb_control_build_port_state_any:
  assumes wf: "topo_wf s" and h: "load_hub h s = Some hub" and n: "n \<le> ucast (hub_port_count hub)"
  obtains st where "virtusb_control_build_port_state h n s = Some st"
    and "if n = 0 then st = hub_state_of hub else port_state_of s h hub n st"
proof (cases "n = 0")
  case True
  with virtusb_control_build_port_state_hub [OF wf h] that show thesis by simp
next
  case False
  with n have "valid_port hub n" by (simp add: valid_port_def word_gt_0)
  with wf h obtain st where "virtusb_control_build_port_state h n s = Some st" "port_state_of s h hub n st"
    by (rule virtusb_control_build_port_state_ok)
  with False that show thesis by simp
qed

lemma build_port_states_ok:
  assumes wf: "topo_wf s" and h: "load_hub h s = Some hub"
    and a: "0 < a" and b: "b \<le> Suc (unat (hub_port_count hub))" and len: "b \<le> Suc (length states)"
  shows "runs (build_port_states h [a..<b] states s) (\<lambda>states'. length states' = length states \<and>
    (\<forall>k < length states. if a \<le> Suc k \<and> Suc k < b then port_state_of s h hub (word_of_nat (Suc k)) (states' ! k)
                         else states' ! k = states ! k))"
  using a len
proof (induction "b - a" arbitrary: a states)
  case (Suc d)
  have c31: "unat (hub_port_count hub) \<le> 31" using topo_wf_shape [OF wf h] by (simp add: hub_shape_def)
  from Suc.hyps(2) have ab: "a < b" by simp
  have "unat (word_of_nat a :: u32) = a" using ab b c31 by (simp add: unat_of_nat take_bit_nat_eq_self)
  with Suc.prems(1) ab b have "valid_port hub (word_of_nat a)"
    by (simp add: valid_port_def word_le_nat_alt word_less_nat_alt unsigned_ucast_eq)
  with wf h obtain st where st: "virtusb_control_build_port_state h (word_of_nat a) s = Some st"
    "port_state_of s h hub (word_of_nat a) st"
    by (rule virtusb_control_build_port_state_ok)
  let ?states = "states[a - 1 := st]"
  have fits: "a - 1 < length states" using Suc.prems ab by simp
  have "runs (build_port_states h [Suc a..<b] ?states s) (\<lambda>states'. length states' = length ?states \<and>
    (\<forall>k < length ?states. if Suc a \<le> Suc k \<and> Suc k < b then port_state_of s h hub (word_of_nat (Suc k)) (states' ! k)
                         else states' ! k = ?states ! k))"
    using Suc by (intro Suc.hyps(1)) simp_all
  then have "runs (build_port_states h [Suc a..<b] ?states s) (\<lambda>states'. length states' = length states \<and>
    (\<forall>k < length states. if a \<le> Suc k \<and> Suc k < b then port_state_of s h hub (word_of_nat (Suc k)) (states' ! k)
                         else states' ! k = states ! k))"
  proof (rule runs_mono, intro conjI allI impI)
    fix states' k assume *: "length states' = length ?states \<and>
      (\<forall>k < length ?states. if Suc a \<le> Suc k \<and> Suc k < b then port_state_of s h hub (word_of_nat (Suc k)) (states' ! k)
                           else states' ! k = ?states ! k)"
    show "length states' = length states" using * by simp
    assume "k < length states"
    with * have "if Suc a \<le> Suc k \<and> Suc k < b then port_state_of s h hub (word_of_nat (Suc k)) (states' ! k)
                 else states' ! k = ?states ! k" by (simp del: of_nat_Suc)
    with st(2) Suc.prems(1) ab fits
    show "if a \<le> Suc k \<and> Suc k < b then port_state_of s h hub (word_of_nat (Suc k)) (states' ! k)
          else states' ! k = states ! k"
      by (cases "Suc k = a") (auto split: if_splits simp del: of_nat_Suc)
  qed
  with st(1) fits ab show ?case by (simp add: upt_conv_Cons)
qed auto

section \<open>The ioctl\<close>

text \<open>What the report holds: the port that was asked for and, for the hub, every port.\<close>

definition status_report :: "'a topo_scheme \<Rightarrow> nat \<Rightarrow> virtusb_hub \<Rightarrow> virtusb_port_status \<Rightarrow> virtusb_port_status \<Rightarrow> bool" where
  "status_report s h hub r r' \<longleftrightarrow>
     pst_port r' = pst_port r \<and> pst_hub_id r' = pst_hub_id r \<and> pst_port_count r' = ucast (hub_port_count hub) \<and>
     (if pst_port r = 0 then pst_state r' = hub_state_of hub else port_state_of s h hub (pst_port r) (pst_state r')) \<and>
     length (pst_ports r') = VIRTUSB_MAX_HUB_PORTS \<and>
     (\<forall>k < VIRTUSB_MAX_HUB_PORTS.
        if pst_port r = 0 \<and> k < unat (hub_port_count hub)
        then port_state_of s h hub (word_of_nat (Suc k)) (pst_ports r' ! k)
        else pst_ports r' ! k = zero_port_state)"

lemma virtusb_control_get_port_status_ok:
  assumes wf: "topo_wf s" and v: "load_hcd c s = Some v" "ctl_hcd (vh_control v) = Some c" and hub: "load_hub c s = Some hub"
  shows "runs (virtusb_control_get_port_status c argp s) (\<lambda>(ret, out).
    case um_port_status argp of
      None \<Rightarrow> ret = - EFAULT \<and> out = None
    | Some r \<Rightarrow>
        if pst_hub_id r \<noteq> VIRTUSB_ROOT_HUB_ID then ret = - ENODEV \<and> out = None
        else if pst_port r > ucast (hub_port_count hub) then ret = - EINVAL \<and> out = None
        else if \<not> um_writable argp then ret = - EFAULT \<and> out = None
        else ret = 0 \<and> (\<exists>r'. out = Some (User_port_status r') \<and> status_report s c hub r r'))"
proof (cases "um_port_status argp")
  case None
  then show ?thesis by (simp add: virtusb_control_get_port_status_def)
next
  case (Some r)
  show ?thesis
  proof (cases "pst_hub_id r \<noteq> VIRTUSB_ROOT_HUB_ID \<or> pst_port r > ucast (hub_port_count hub)")
    case True
    with Some v hub show ?thesis by (auto simp: virtusb_control_get_port_status_def)
  next
    case False
    then have "pst_port r \<le> ucast (hub_port_count hub)" by (simp add: not_less)
    with wf hub obtain st where st: "virtusb_control_build_port_state c (pst_port r) s = Some st"
      "if pst_port r = 0 then st = hub_state_of hub else port_state_of s c hub (pst_port r) st"
      by (rule virtusb_control_build_port_state_any)
    let ?ports = "replicate VIRTUSB_MAX_HUB_PORTS zero_port_state"
    have c31: "unat (hub_port_count hub) \<le> 31" using topo_wf_shape [OF wf hub] by (simp add: hub_shape_def)
    obtain ports where ports: "(if pst_port r = 0 then build_port_states c [1..<Suc (unat (hub_port_count hub))] ?ports s
        else Some ?ports) = Some ports" "length ports = VIRTUSB_MAX_HUB_PORTS"
      "\<And>k. k < VIRTUSB_MAX_HUB_PORTS \<Longrightarrow> if pst_port r = 0 \<and> k < unat (hub_port_count hub)
         then port_state_of s c hub (word_of_nat (Suc k)) (ports ! k) else ports ! k = zero_port_state"
    proof (cases "pst_port r = 0")
      case True
      have "Suc (unat (hub_port_count hub)) \<le> Suc (length ?ports)" using c31 by simp
      from build_port_states_ok [OF wf hub zero_less_one order_refl this] obtain ports where
        "build_port_states c [1..<Suc (unat (hub_port_count hub))] ?ports s = Some ports" "length ports = length ?ports"
        "\<forall>k < length ?ports. if 1 \<le> Suc k \<and> Suc k < Suc (unat (hub_port_count hub))
           then port_state_of s c hub (word_of_nat (Suc k)) (ports ! k) else ports ! k = ?ports ! k"
        unfolding runs_iff by blast
      with True show thesis by (intro that [of ports]) (simp_all del: of_nat_Suc upt_Suc)
    qed (use that in auto)
    have "status_report s c hub r (r\<lparr>pst_port_count := ucast (hub_port_count hub), pst_state := st, pst_ports := ports\<rparr>)"
      using st(2) ports(2,3) by (simp add: status_report_def del: of_nat_Suc)
    with False Some v hub st(1) ports(1) show ?thesis
      by (auto simp: virtusb_control_get_port_status_def not_less)
  qed
qed

end
