(* ===== verification/Virtusb_File_Props.thy ===== *)
theory Virtusb_File_Props
  imports Virtusb_Session_Props Virtusb_Status_Props
begin

text \<open>
  The file operations of the control device: ioctl as a whole, open, release and poll, and the
  life of the character devices. Each keeps the invariant of the control plane.
\<close>

section \<open>ioctl\<close>

lemma file_control_ok:
  assumes wf: "control_wf held pins s" and f: "load_file f s = Some fl"
  obtains "file_private fl = None" "file_control f s = Some None"
  | c v where "file_opens c fl" "file_control f s = Some (Some c)" "load_hcd c s = Some v" "hcd_ok s c v"
proof (cases "file_private fl")
  case None
  with f that(1) show thesis by (simp add: file_control_def)
next
  case (Some ctx)
  with ctl_okD(3) [OF control_wfD(2) [OF wf] f] obtain c v where c: "file_opens c fl" "load_hcd c s = Some v" by auto
  with ctl_okD(1) [OF control_wfD(2) [OF wf] c(2)] f show thesis
    by (intro that(2) [of c v]) (simp_all add: file_control_def file_opens_def)
qed

text \<open>The file is open on a controller that is there and active.\<close>

definition live :: "nat \<Rightarrow> nat \<Rightarrow> 'a khcd_scheme \<Rightarrow> bool" where
  "live f c s \<longleftrightarrow> opened f c s \<and> (\<exists>v. load_hcd c s = Some v \<and> ctl_active (vh_control v))"

lemma control_gone_ok:
  assumes wf: "control_wf held pins s" and f: "load_file f s = Some fl"
  obtains control where "file_control f s = Some control" "control_gone control s = Some True" "\<not> (\<exists>c. live f c s)"
  | c where "file_control f s = Some (Some c)" "control_gone (Some c) s = Some False" "live f c s"
  using wf f
proof (rule file_control_ok)
  assume "file_private fl = None" "file_control f s = Some None"
  then show thesis using that(1) [of None] f by (simp add: control_gone_def live_def opened_def file_opens_def)
next
  fix c v assume *: "file_opens c fl" "file_control f s = Some (Some c)" "load_hcd c s = Some v" "hcd_ok s c v"
  then have only: "live f c' s \<Longrightarrow> c' = c" for c' using f by (auto simp: live_def opened_def file_opens_def)
  show thesis
  proof (cases "ctl_hcd (vh_control v) = None \<or> \<not> ctl_active (vh_control v)")
    case True
    with * have "\<not> live f c s" by (auto simp: live_def opened_def)
    with only have "\<not> live f c' s" for c' by blast
    with True * that(1) [of "Some c"] show thesis by (simp add: control_gone_def)
  next
    case False
    with * have "ctl_hcd (vh_control v) = Some c" by (auto simp: hcd_ok_def)
    with False * f that(2) [of c] show thesis by (auto simp: control_gone_def live_def opened_def)
  qed
qed

definition handled :: "u32 \<Rightarrow> bool" where
  "handled command \<longleftrightarrow> command \<in>
     {VIRTUSB_IOCTL_GET_PORT_STATUS, VIRTUSB_IOCTL_DEVICE_CREATE, VIRTUSB_IOCTL_DEVICE_DESTROY,
      VIRTUSB_IOCTL_DEVICE_ATTACH, VIRTUSB_IOCTL_DEVICE_DETACH, VIRTUSB_IOCTL_DEVICE_CONNECTION,
      VIRTUSB_IOCTL_SET_PORT_POWER, VIRTUSB_IOCTL_BACKEND_REGISTER, VIRTUSB_IOCTL_BACKEND_UNREGISTER,
      VIRTUSB_IOCTL_TRANSFER_FETCH, VIRTUSB_IOCTL_TRANSFER_COMPLETE}"

lemmas ioctl_distinct =
  handled_ioctls_distinct [simplified] handled_ioctls_distinct [THEN distinct_rev [THEN iffD2], simplified]

text \<open>What every ioctl promises, whatever the command.\<close>

definition ioctl_result :: "u32 \<Rightarrow> (int \<times> user_struct option) option \<Rightarrow> bool" where
  "ioctl_result command result \<longleftrightarrow>
     (case result of
        None \<Rightarrow> command = VIRTUSB_IOCTL_TRANSFER_FETCH
      | Some (ret, out) \<Rightarrow> ret = 0 \<or> ret < 0 \<and> out = None)"

lemma simple_ioctl:
  assumes "runs m (\<lambda>(ret, s'). control_wf held pins s' \<and> (ret :: int) \<le> 0 \<and> kback.more s' = kback.more s)"
  shows "runs (do { (ret, s) \<leftarrow> m; Some (Some (ret, None), s) })
    (\<lambda>(result, s'). control_wf held pins s' \<and> ioctl_result command result \<and>
       (command \<noteq> VIRTUSB_IOCTL_TRANSFER_FETCH \<longrightarrow> kback.more s' = kback.more s))"
  using assms by (auto simp: runs_iff ioctl_result_def)

lemma branchI: "(c \<Longrightarrow> P) \<Longrightarrow> (\<not> c \<Longrightarrow> Q) \<Longrightarrow> if c then P else Q"
  by simp

lemma virtusb_control_ioctl_ok:
  assumes wf: "control_wf held pins s" and f: "load_file f s = Some fl" and sized: "completions_sized argp"
    and waits: "\<And>c. live f c s \<Longrightarrow> \<forall>(ret, step) \<in> set waits. keeps_open held pins f c step"
  shows "runs (virtusb_control_ioctl mem xa_mem waits f command argp s) (\<lambda>(result, s').
    control_wf held pins s' \<and>
    (command \<noteq> VIRTUSB_IOCTL_TRANSFER_FETCH \<longrightarrow> kback.more s' = kback.more s) \<and>
    (if \<not> (\<exists>c. live f c s) then result = Some (- ENODEV, None) \<and> s' = s
     else if \<not> handled command then result = Some (- ENOTTY, None) \<and> s' = s
     else ioctl_result command result))"
  using wf f
proof (cases rule: control_gone_ok)
  case (1 control)
  with wf show ?thesis by (simp add: virtusb_control_ioctl_def)
next
  case (2 c)
  then have opened: "opened f c s" by (simp add: live_def)
  from opened wf obtain v b hub where v: "load_hcd c s = Some v" "ctl_hcd (vh_control v) = Some c"
    "vh_linux_hcd v = Some c" and b: "load_back c s = Some b" and hub: "load_hub c s = Some hub" by (rule openedE)
  note topo = back_wf_topo [OF control_wfD(1) [OF wf]]
  let ?Q = "\<lambda>(result, s'). control_wf held pins s' \<and> ioctl_result command result \<and>
      (command \<noteq> VIRTUSB_IOCTL_TRANSFER_FETCH \<longrightarrow> kback.more s' = kback.more s)"
  have body: "virtusb_control_ioctl mem xa_mem waits f command argp s =
    (let simple = (\<lambda>m. do { (ret, s) \<leftarrow> m; Some (Some (ret :: int, None), s) }) in
       if command = VIRTUSB_IOCTL_GET_PORT_STATUS then do {
         (ret, out) \<leftarrow> virtusb_control_get_port_status c argp s;
         Some (Some (ret, out), s)
       }
       else if command = VIRTUSB_IOCTL_DEVICE_CREATE then do {
         (ret, out, s) \<leftarrow> virtusb_control_device_create mem xa_mem argp s;
         Some (Some (ret, out), s)
       }
       else if command = VIRTUSB_IOCTL_DEVICE_DESTROY then simple (virtusb_control_device_destroy argp s)
       else if command = VIRTUSB_IOCTL_DEVICE_ATTACH then simple (virtusb_control_device_attach (Some c) argp s)
       else if command = VIRTUSB_IOCTL_DEVICE_DETACH then simple (virtusb_control_device_detach argp s)
       else if command = VIRTUSB_IOCTL_DEVICE_CONNECTION then simple (virtusb_control_device_connection argp s)
       else if command = VIRTUSB_IOCTL_SET_PORT_POWER then simple (virtusb_control_set_port_power (Some c) argp s)
       else if command = VIRTUSB_IOCTL_BACKEND_REGISTER then
         simple (virtusb_control_backend_register mem f c argp s)
       else if command = VIRTUSB_IOCTL_BACKEND_UNREGISTER then
         simple (do { s \<leftarrow> virtusb_backend_release_owner (Some c) (Some c) (Some f) s; Some (0, s) })
       else if command = VIRTUSB_IOCTL_TRANSFER_FETCH then
         virtusb_control_transfer_fetch mem waits f c argp s
       else if command = VIRTUSB_IOCTL_TRANSFER_COMPLETE then
         simple (virtusb_control_transfer_complete mem f c argp s)
       else Some (Some (- ENOTTY, None), s))"
    using 2(1,2) v by (simp add: virtusb_control_ioctl_def Let_def)
  have get: "runs (do { (ret, out) \<leftarrow> virtusb_control_get_port_status c argp s; Some (Some (ret, out), s) }) ?Q"
    by (simp add: wp, rule runs_mono [OF virtusb_control_get_port_status_ok [OF topo v(1,2) hub, of argp]])
       (use wf in \<open>auto simp: ioctl_result_def split: option.splits if_splits\<close>)
  have create: "runs (do { (ret, out, s) \<leftarrow> virtusb_control_device_create mem xa_mem argp s; Some (Some (ret, out), s) }) ?Q"
    by (simp add: wp, rule runs_mono [OF virtusb_control_device_create_ok [OF wf, of mem xa_mem argp]])
       (auto simp: ioctl_result_def split: option.splits if_splits)
  have destroy: "runs (virtusb_control_device_destroy argp s) (\<lambda>(ret, s'). control_wf held pins s' \<and> ret \<le> 0 \<and> kback.more s' = kback.more s)"
    by (rule runs_mono [OF virtusb_control_device_destroy_ok [OF wf]]) (simp only: split_paired_all split_conv, elim branchE; simp)
  have attach: "runs (virtusb_control_device_attach (Some c) argp s) (\<lambda>(ret, s'). control_wf held pins s' \<and> ret \<le> 0 \<and> kback.more s' = kback.more s)"
    by (rule runs_mono [OF virtusb_control_device_attach_ok [OF wf v(1,2) hub]])
       (simp only: split_paired_all split_conv Let_def, elim branchE; simp)
  have detach: "runs (virtusb_control_device_detach argp s) (\<lambda>(ret, s'). control_wf held pins s' \<and> ret \<le> 0 \<and> kback.more s' = kback.more s)"
    by (rule runs_mono [OF virtusb_control_device_detach_ok [OF wf]]) (simp only: split_paired_all split_conv, elim branchE; simp)
  have connection: "runs (virtusb_control_device_connection argp s) (\<lambda>(ret, s'). control_wf held pins s' \<and> ret \<le> 0 \<and> kback.more s' = kback.more s)"
    by (rule runs_mono [OF virtusb_control_device_connection_ok [OF wf]]) (simp only: split_paired_all split_conv, elim branchE; simp)
  have power: "runs (virtusb_control_set_port_power (Some c) argp s) (\<lambda>(ret, s'). control_wf held pins s' \<and> ret \<le> 0 \<and> kback.more s' = kback.more s)"
    by (rule runs_mono [OF virtusb_control_set_port_power_ok [OF wf v(1,2) hub]]) (simp only: split_paired_all split_conv, elim branchE; simp)
  have register: "runs (virtusb_control_backend_register mem f c argp s) (\<lambda>(ret, s'). control_wf held pins s' \<and> ret \<le> 0 \<and> kback.more s' = kback.more s)"
    by (rule runs_mono [OF virtusb_control_backend_register_ok [OF wf opened b]]) (simp only: split_paired_all split_conv, elim branchE; simp)
  have unregister: "runs (do { s \<leftarrow> virtusb_backend_release_owner (Some c) (Some c) (Some f) s; Some (0 :: int, s) })
      (\<lambda>(ret, s'). control_wf held pins s' \<and> ret \<le> 0 \<and> kback.more s' = kback.more s)"
    using control_release_owner_ok [OF wf b, of f] by (auto simp: runs_iff)
  have complete: "runs (virtusb_control_transfer_complete mem f c argp s) (\<lambda>(ret, s'). control_wf held pins s' \<and> ret \<le> 0 \<and> kback.more s' = kback.more s)"
    by (rule runs_mono [OF virtusb_control_transfer_complete_ok [OF wf opened b sized]])
       (simp only: split_paired_all split_conv, elim branchE; simp)
  note simple = destroy attach detach connection power register unregister complete
  note simple = simple [THEN simple_ioctl, of command]
  have fetch: "command = VIRTUSB_IOCTL_TRANSFER_FETCH \<Longrightarrow> runs (virtusb_control_transfer_fetch mem waits f c argp s) ?Q"
    by (rule runs_mono [OF virtusb_control_transfer_fetch_ok [OF wf opened waits [OF 2(3)]]])
       (auto simp: ioctl_result_def split: option.splits)
  have other: "runs (Some (Some (- ENOTTY, None), s)) ?Q" using wf by (simp add: ioctl_result_def)
  have run: "runs (virtusb_control_ioctl mem xa_mem waits f command argp s) ?Q"
    unfolding body Let_def runs_if
    by (intro branchI get create simple fetch other)
  show ?thesis
  proof (cases "handled command")
    case True
    have "\<exists>c. live f c s" using 2(3) by blast
    with True run show ?thesis by (auto elim!: runs_mono)
  next
    case False
    then have "virtusb_control_ioctl mem xa_mem waits f command argp s = Some (Some (- ENOTTY, None), s)"
      unfolding body by (simp add: handled_def)
    with False 2(3) wf show ?thesis by auto
  qed
qed

section \<open>open, release and poll\<close>

lemma ctl_ok_put_file:
  assumes ok: "ctl_ok s"
    and fl: "file_private fl = None \<or> (\<exists>c. file_opens c fl \<and> load_hcd c s \<noteq> None)"
    and bound: "\<And>h b bd. load_back h s = Some b \<Longrightarrow> bd \<in> set (bindings b) \<Longrightarrow> bind_owner bd = f \<Longrightarrow> file_opens h fl"
  shows "ctl_ok (put_file f fl s)"
proof -
  have "hcd_ok (put_file f fl s) h v = hcd_ok s h v" for h v by (simp add: hcd_ok_def)
  moreover have "\<exists>fl'. load_file (bind_owner bd) (put_file f fl s) = Some fl' \<and> file_opens h fl'"
    if "load_back h s = Some b" "bd \<in> set (bindings b)" for h b bd
    using ctl_okD(4) [OF ok that] bound [OF that] by (cases "bind_owner bd = f") auto
  ultimately show ?thesis
    unfolding ctl_ok_def using ctl_okD(1-3) [OF ok] fl by auto
qed

text \<open>The layers below see only their part of the state.\<close>

lemma truncate_view:
  "load_port a (kback.truncate s) = load_port a s" "load_hub h (kback.truncate s) = load_hub h s"
  "load_obj d (kback.truncate s) = load_obj d s" "load_trans t (kback.truncate s) = load_trans t s"
  "load_back h (kback.truncate s) = load_back h s" "load_urb u (kback.truncate s) = load_urb u s"
  "registry (kback.truncate s) = registry s" "next_object_id (kback.truncate s) = next_object_id s"
  "next_addr (kback.truncate s) = next_addr s" "dev_ports (kback.truncate s) = dev_ports s"
  "linked (kback.truncate s) = linked s" "events (kback.truncate s) = events s"
  by (cases s; cases a; simp add: load_port.simps load_hub_def load_obj_def load_trans_def load_back_def load_urb_def
      kback.defs)+

lemma back_wf_truncate:
  assumes same: "kback.truncate s' = kback.truncate s"
  shows "back_wf_upto E held pins s' = back_wf_upto E held pins s"
proof -
  have view: "load_port a s' = load_port a s" "load_hub h s' = load_hub h s" "load_obj d s' = load_obj d s"
    "load_trans t s' = load_trans t s" "load_back h s' = load_back h s" "load_urb u s' = load_urb u s"
    "registry s' = registry s" "next_object_id s' = next_object_id s" "next_addr s' = next_addr s"
    "dev_ports s' = dev_ports s" "linked s' = linked s" for a h d t u
    by (simp_all only: truncate_view [where s = s', symmetric] truncate_view [where s = s, symmetric] same)
  have "trans_wf a c s' = trans_wf a c s" for a c by (rule trans_wf_cong) (rule view)+
  then show ?thesis
    by (simp add: back_wf_upto_def back_struct_def backend_ok_def queued_def requests_def sessions_def request_ok_def
        device_of_def view)
qed

lemma control_wf_put_file:
  assumes wf: "control_wf held pins s" and ok: "ctl_ok (put_file f fl s)"
  shows "control_wf held pins (put_file f fl s)"
proof -
  have "kback.truncate (put_file f fl s) = kback.truncate s" by (cases s) (simp add: put_file_def kback.defs)
  from back_wf_truncate [OF this] control_wfD(1) [OF wf] ok show ?thesis by (simp add: control_wf_def)
qed

lemma virtusb_control_open_ok:
  assumes wf: "control_wf held pins s" and fl: "load_file f s = Some fl" "file_private fl = None"
    and c: "load_hcd c s \<noteq> None"
  shows "runs (virtusb_control_open mem c f s) (\<lambda>(ret, s'). control_wf held pins s' \<and>
    (if mem then ret = 0 \<and> s' = put_file f (fl\<lparr>file_private := Some \<lparr>cf_control = Some c\<rparr>\<rparr>) s
     else ret = - ENOMEM \<and> s' = s))"
proof (cases mem)
  case True
  let ?fl = "fl\<lparr>file_private := Some \<lparr>cf_control = Some c\<rparr>\<rparr>"
  have "ctl_ok (put_file f ?fl s)"
  proof (rule ctl_ok_put_file [OF control_wfD(2) [OF wf]])
    show "file_private ?fl = None \<or> (\<exists>c. file_opens c ?fl \<and> load_hcd c s \<noteq> None)"
      using c by (auto simp: file_opens_def)
    show "file_opens h ?fl" if "load_back h s = Some b" "bd \<in> set (bindings b)" "bind_owner bd = f" for h b bd
      using ctl_okD(4) [OF control_wfD(2) [OF wf] that(1,2)] that(3) fl by (auto simp: file_opens_def)
  qed
  from control_wf_put_file [OF wf this] show ?thesis using True fl(1) by (simp add: virtusb_control_open_def)
qed (use wf in \<open>simp add: virtusb_control_open_def\<close>)

text \<open>A released file owns no session of any controller.\<close>

lemma control_wf_close:
  assumes wf: "control_wf held pins s" and fl: "load_file f s = Some fl"
    and free: "\<And>h b. load_back h s = Some b \<Longrightarrow> f \<notin> bind_owner ` set (bindings b)"
  shows "control_wf held pins (put_file f (fl\<lparr>file_private := None\<rparr>) s)"
proof (rule control_wf_put_file [OF wf], rule ctl_ok_put_file [OF control_wfD(2) [OF wf]])
  show "file_opens h (fl\<lparr>file_private := None\<rparr>)"
    if "load_back h s = Some b" "bd \<in> set (bindings b)" "bind_owner bd = f" for h b bd
    using free [OF that(1)] that(2,3) by blast
qed simp

lemma sessions_of_file:
  assumes wf: "control_wf held pins s" and fl: "load_file f s = Some fl" and b: "load_back h s = Some b"
    and f: "f \<in> bind_owner ` set (bindings b)"
  shows "file_opens h fl"
  using ctl_okD(4) [OF control_wfD(2) [OF wf] b] f fl by force

text \<open>What closing a file does, once its session is over: the file is forgotten.\<close>

definition session_released :: "nat \<Rightarrow> nat \<Rightarrow> virtusb_backend \<Rightarrow> 'a khcd_scheme \<Rightarrow> 'a khcd_scheme \<Rightarrow> bool" where
  "session_released f c b s s' \<longleftrightarrow>
     (case virtusb_backend_find_owner_locked b f of
        None \<Rightarrow> s' = s
      | Some bd \<Rightarrow>
          load_back c s' = Some (b\<lparr>bindings := remove1 bd (bindings b),
            pending := filter (\<lambda>r. device_of s r \<noteq> bind_device bd) (pending b),
            active := filter (\<lambda>r. device_of s r \<noteq> bind_device bd) (active b)\<rparr>) \<and>
          gave_back_all c (filter (\<lambda>r. device_of s r = bind_device bd) (pending b @ active b)) (- ESHUTDOWN)
            (wake_up_interruptible_all c s) s')"

lemma session_released_others: "session_released f c b s s' \<Longrightarrow> g \<noteq> c \<Longrightarrow> load_back g s' = load_back g s"
  by (auto simp: session_released_def gave_back_all_def split: option.splits)

lemma session_released_free:
  assumes wf: "control_wf held pins s" and b: "load_back c s = Some b" and rel: "session_released f c b s s'"
    and b': "load_back c s' = Some b'"
  shows "f \<notin> bind_owner ` set (bindings b')"
proof -
  note ok = back_structD(2) [OF back_wfD(2) [OF control_wfD(1) [OF wf]] b]
  then have dist: "distinct (map bind_owner (bindings b))" by (simp add: backend_ok_def)
  show "f \<notin> bind_owner ` set (bindings b')"
  proof (cases "virtusb_backend_find_owner_locked b f")
    case None
    with rel b b' show ?thesis by (simp add: session_released_def find_owner_None)
  next
    case (Some bd)
    note bd = find_owner_ok [OF ok Some]
    from rel Some b' have "bindings b' = remove1 bd (bindings b)" by (simp add: session_released_def)
    moreover have "distinct (bindings b)" using dist by (simp add: distinct_map)
    ultimately show ?thesis using dist bd by (auto simp: distinct_map inj_on_def)
  qed
qed

lemma virtusb_control_release_ok:
  assumes wf: "control_wf held pins s" and fl: "load_file f s = Some fl"
  shows "runs (virtusb_control_release f s) (\<lambda>(ret, s'). ret = 0 \<and> control_wf held pins s' \<and>
    load_file f s' = Some (fl\<lparr>file_private := None\<rparr>) \<and>
    (\<forall>h b. load_back h s' = Some b \<longrightarrow> f \<notin> bind_owner ` set (bindings b)) \<and>
    (\<exists>s1. s' = put_file f (fl\<lparr>file_private := None\<rparr>) s1 \<and>
       (if \<exists>c. opened f c s then \<exists>c b. opened f c s \<and> load_back c s = Some b \<and> session_released f c b s s1 else s1 = s)))"
proof -
  let ?fl = "fl\<lparr>file_private := None\<rparr>"
  have idle: "f \<notin> bind_owner ` set (bindings b)"
    if "load_back h s = Some b" "\<not> file_opens h fl" for h b
    using sessions_of_file [OF wf fl that(1)] that(2) by blast
  show ?thesis
    using wf fl
  proof (cases rule: file_control_ok)
    case 1
    then have closed: "\<not> file_opens h fl" for h by (simp add: file_opens_def)
    then have free: "f \<notin> bind_owner ` set (bindings b)" if "load_back h s = Some b" for h b using idle that by blast
    have "virtusb_control_release f s = Some (0, put_file f ?fl s)" using 1(2) fl by (simp add: virtusb_control_release_def)
    moreover have "\<not> (\<exists>c. opened f c s)" using fl closed by (auto simp: opened_def)
    ultimately show ?thesis using control_wf_close [OF wf fl free] free by auto
  next
    case (2 c v)
    have only: "file_opens h fl \<Longrightarrow> h = c" for h using 2(1) by (simp add: file_opens_def)
    show ?thesis
    proof (cases "ctl_hcd (vh_control v)")
      case None
      have free: "f \<notin> bind_owner ` set (bindings b)" if "load_back h s = Some b" for h b
        using idle [OF that] only [of h] 2(3,4) None that by (cases "h = c") (auto simp: hcd_ok_def)
      have "virtusb_control_release f s = Some (0, put_file f ?fl s)"
        using 2(2,3) None fl by (simp add: virtusb_control_release_def)
      moreover have "\<not> (\<exists>c. opened f c s)" using fl only 2(3) None by (auto simp: opened_def)
      ultimately show ?thesis using control_wf_close [OF wf fl free] free by auto
    next
      case (Some h)
      with 2(4) have v: "ctl_hcd (vh_control v) = Some c" "vh_linux_hcd v = Some c" by (auto simp: hcd_ok_def)
      with fl 2(1,3) have opened: "opened f c s" by (auto simp: opened_def)
      from opened wf obtain b where b: "load_back c s = Some b" by (rule openedE)
      from control_release_owner_ok [OF wf b, of f] obtain s1 where
        s1: "virtusb_backend_release_owner (Some c) (Some c) (Some f) s = Some s1" "control_wf held pins s1"
          "kback.more s1 = kback.more s" "session_released f c b s s1"
        unfolding session_released_def runs_iff by blast
      have fl1: "load_file f s1 = Some fl" using fl by (simp add: khcd_fields [OF s1(3)])
      then have code: "virtusb_control_release f s = Some (0, put_file f ?fl s1)"
        using 2(2,3) v s1(1) by (simp add: virtusb_control_release_def)
      have free: "f \<notin> bind_owner ` set (bindings b')" if "load_back g s1 = Some b'" for g b'
      proof (cases "g = c")
        case True
        with session_released_free [OF wf b s1(4)] that show ?thesis by simp
      next
        case False
        with that session_released_others [OF s1(4)] have "load_back g s = Some b'" by simp
        moreover from False only have "\<not> file_opens g fl" by blast
        ultimately show ?thesis by (rule idle)
      qed
      from control_wf_close [OF s1(2) fl1 free] show ?thesis
        using opened b s1(4) free by (auto simp: code)
    qed
  qed
qed

lemma virtusb_control_poll_ok:
  assumes wf: "control_wf held pins s" and f: "load_file f s = Some fl"
  shows "runs (virtusb_control_poll f s) (\<lambda>mask.
    if \<not> (\<exists>c. live f c s) then mask = 0x0018
    else \<exists>c ready. live f c s \<and> virtusb_backend_has_pending (Some c) (Some f) s = Some ready \<and>
           mask = (if ready then 0x0041 else 0))"
  using wf f
proof (cases rule: control_gone_ok)
  case (1 control)
  then show ?thesis by (simp add: virtusb_control_poll_def)
next
  case (2 c)
  then have "opened f c s" by (simp add: live_def)
  from this wf obtain v b where v: "load_hcd c s = Some v" "ctl_hcd (vh_control v) = Some c" and b: "load_back c s = Some b"
    by (rule openedE)
  have "virtusb_backend_has_pending (Some c) (Some f) s \<noteq> None"
    by (auto simp: virtusb_backend_has_pending_def virtusb_backend_pending_for_owner_or_stopping_def b
        find_pending_ok [OF control_wfD(1) [OF wf] b] split: option.split list.split)
  then obtain ready where ready: "virtusb_backend_has_pending (Some c) (Some f) s = Some ready" by (simp only: not_None_eq) blast
  have poll: "virtusb_control_poll f s = Some (if ready then 0x0041 else 0)"
    using 2(1,2) v ready by (cases ready) (simp_all add: virtusb_control_poll_def)
  have "\<exists>c r. live f c s \<and> virtusb_backend_has_pending (Some c) (Some f) s = Some r \<and>
      (if ready then 0x0041 else 0 :: u32) = (if r then 0x0041 else 0)"
    using 2(3) ready by blast
  then show ?thesis unfolding poll runs_Some by (rule branchI [rotated]) (use 2(3) in blast)
qed

end
