(* ===== verification/Virtusb_Usb_Core.thy ===== *)
theory Virtusb_Usb_Core
  imports Virtusb_File_Props
begin

text \<open>
  What the Linux USB core does with a controller: it calls the functions of \<open>virtusb_hc_driver\<close>
  (\<open>kernel/src/virtusb_hcd.c\<close>), in any order, and allocates URBs. Whatever it does keeps the
  invariant, the layout of every hub, all plugs and all sessions; other controllers do not notice.
\<close>

section \<open>Steps\<close>

text \<open>
  The requests it makes: any request of the root hub with a buffer of at least 15 bytes, a URB of
  its own that is well-formed and not linked, and the unlinking of any URB.
\<close>

inductive core_step :: "nat \<Rightarrow> 'a kback_scheme \<Rightarrow> 'a kback_scheme \<Rightarrow> bool" for h where
  hub_control: "virtusb_hcd_hub_control h type_req value index buf len s = Some (ret, buf', s') \<Longrightarrow>
    load_hub h s = Some hub \<Longrightarrow> 15 \<le> length buf \<Longrightarrow> core_step h s s'"
| alloc_urb: "load_urb u s = None \<Longrightarrow> core_step h s (put_urb u ub s)"
| urb_enqueue: "virtusb_hcd_urb_enqueue mem buf_mem junk req_mem link_ret (Some h) (Some u) s = Some (ret, s') \<Longrightarrow>
    load_hub h s = Some hub \<Longrightarrow> load_back h s = Some b \<Longrightarrow> load_urb u s = Some ub \<Longrightarrow> urb_ok ub \<Longrightarrow> \<not> linked s u \<Longrightarrow> link_ret \<le> 0 \<Longrightarrow> core_step h s s'"
| urb_dequeue: "virtusb_hcd_urb_dequeue check_ret (Some h) (Some u) status s = Some (ret, s') \<Longrightarrow>
    load_back h s = Some b \<Longrightarrow> core_step h s s'"

inductive_cases core_stepE: "core_step h s s'"

abbreviation core_steps :: "nat \<Rightarrow> 'a kback_scheme \<Rightarrow> 'a kback_scheme \<Rightarrow> bool" where
  "core_steps h \<equiv> (core_step h)\<^sup>*\<^sup>*"

section \<open>What they keep\<close>

text \<open>What is plugged into a hub: a device port for each port with a peer.\<close>

definition plugs :: "virtusb_hub \<Rightarrow> port_ptr option list" where
  "plugs hub = map p_peer (hub_ports hub)"

lemma hub_idle_plugs: "hub_idle hub \<longleftrightarrow> set (plugs hub) \<subseteq> {None}"
  by (auto simp: hub_idle_def plugs_def)

lemma hub_peer_dev:
  assumes wf: "ports_wf s" and p: "load_port (Hub_port g i) s = Some p" "p_peer p = Some b"
  obtains d q where "b = Dev_port d" and "load_port (Dev_port d) s = Some q" and "p_peer q = Some (Hub_port g i)"
proof -
  from wf p obtain q where q: "load_port b s = Some q" "p_peer q = Some (Hub_port g i)" "p_role q \<noteq> p_role p"
    by (rule ports_wf_peer)
  from ports_wf_port [OF wf p(1)] p(2) have "p_role p = VIRTUSB_PORT_ROLE_DOWNSTREAM"
    by (auto simp: port_ok_def zero_port_def)
  with ports_wf_port [OF wf q(1)] q(2,3) obtain d where "b = Dev_port d"
    by (cases b) (auto simp: port_ok_def zero_port_def)
  with q that show thesis by blast
qed

lemma plugs_of_dev_ports:
  fixes s s' :: "'a topo_scheme"
  assumes wf: "topo_wf s" "topo_wf s'" and dev: "\<And>d. load_port (Dev_port d) s' = load_port (Dev_port d) s"
    and hub: "load_hub g s = Some hub" "load_hub g s' = Some hub'"
  shows "plugs hub' = plugs hub"
proof (rule nth_equalityI)
  have len: "length (hub_ports hub) = 31" "length (hub_ports hub') = 31"
    using topo_wf_shape [OF wf(1) hub(1)] topo_wf_shape [OF wf(2) hub(2)] by (simp_all add: hub_shape_def)
  then show "length (plugs hub') = length (plugs hub)" by (simp add: plugs_def)
  have peer: "p_peer (hub_ports h2 ! i) = Some b"
    if wf': "ports_wf s1" "ports_wf s2" and i: "i < 31" and p: "p_peer (hub_ports h1 ! i) = Some b"
      and dev': "\<And>d. load_port (Dev_port d) s1 = load_port (Dev_port d) s2"
      and h: "load_hub g s1 = Some h1" "load_hub g s2 = Some h2" "length (hub_ports h1) = 31" "length (hub_ports h2) = 31"
    for s1 s2 :: "'a topo_scheme" and h1 h2 i b
  proof -
    have port: "load_port (Hub_port g i) s1 = Some (hub_ports h1 ! i)" "load_port (Hub_port g i) s2 = Some (hub_ports h2 ! i)"
      using h i by (simp_all add: load_port.simps nth_opt_Some)
    obtain d q where b: "b = Dev_port d" "load_port (Dev_port d) s2 = Some q" "p_peer q = Some (Hub_port g i)"
      using hub_peer_dev [OF wf'(1) port(1) p] dev' by metis
    from wf'(2) b(2,3) show ?thesis by (rule ports_wf_peer) (simp add: port(2) b(1))
  qed
  note ports = topo_wf_ports [OF wf(1)] topo_wf_ports [OF wf(2)]
  fix i assume "i < length (plugs hub')"
  with len have i: "i < 31" by (simp add: plugs_def)
  have "p_peer (hub_ports hub ! i) = Some b \<Longrightarrow> p_peer (hub_ports hub' ! i) = Some b" for b
    by (rule peer [OF ports i _ _ hub len]) (simp_all add: dev)
  moreover have "p_peer (hub_ports hub' ! i) = Some b \<Longrightarrow> p_peer (hub_ports hub ! i) = Some b" for b
    by (rule peer [OF ports(2,1) i _ _ hub(2,1) len(2,1)]) (simp_all add: dev)
  ultimately have "p_peer (hub_ports hub' ! i) = p_peer (hub_ports hub ! i)"
    by (cases "p_peer (hub_ports hub' ! i)"; cases "p_peer (hub_ports hub ! i)") auto
  with i len show "plugs hub' ! i = plugs hub ! i" by (simp add: plugs_def)
qed

definition same_hub :: "virtusb_hub \<Rightarrow> virtusb_hub \<Rightarrow> bool" where
  "same_hub hub hub' \<longleftrightarrow> same_layout hub hub' \<and> plugs hub' = plugs hub"

definition same_sessions :: "virtusb_backend \<Rightarrow> virtusb_backend \<Rightarrow> bool" where
  "same_sessions b b' \<longleftrightarrow> bindings b' = bindings b \<and> stopping b' = stopping b"

definition core_keeps :: "nat \<Rightarrow> 'a kback_scheme \<Rightarrow> 'a kback_scheme \<Rightarrow> bool" where
  "core_keeps h s s' \<longleftrightarrow>
     (\<forall>g. rel_option same_hub (load_hub g s) (load_hub g s')) \<and>
     (\<forall>g. rel_option same_sessions (load_back g s) (load_back g s')) \<and>
     (\<forall>g. g \<noteq> h \<longrightarrow> load_hub g s' = load_hub g s \<and> load_back g s' = load_back g s) \<and>
     registry s' = registry s \<and> kback.more s' = kback.more s"

lemma same_refl [simp]: "same_hub hub hub" "same_sessions b b"
  by (simp_all add: same_hub_def same_sessions_def)

lemma rel_same_refl [simp]: "rel_option same_hub x x" "rel_option same_sessions y y"
  by (cases x; cases y; simp)+

lemma core_keeps_refl [simp]: "core_keeps h s s"
  by (simp add: core_keeps_def)

lemma core_keeps_trans:
  assumes "core_keeps h s t" and "core_keeps h t u"
  shows "core_keeps h s u"
proof -
  have "rel_option same_hub x y \<Longrightarrow> rel_option same_hub y z \<Longrightarrow> rel_option same_hub x z" for x y z
    by (cases x; cases y; cases z) (auto simp: same_hub_def same_layout_def)
  moreover have "rel_option same_sessions x y \<Longrightarrow> rel_option same_sessions y z \<Longrightarrow> rel_option same_sessions x z" for x y z
    by (cases x; cases y; cases z) (auto simp: same_sessions_def)
  ultimately show ?thesis using assms unfolding core_keeps_def by (simp, blast)
qed

lemma core_keepsD:
  assumes "core_keeps h s s'"
  shows "load_hub g s = Some hub \<Longrightarrow> \<exists>hub'. load_hub g s' = Some hub' \<and> same_hub hub hub'"
    and "load_hub g s' = Some hub' \<Longrightarrow> \<exists>hub. load_hub g s = Some hub \<and> same_hub hub hub'"
    and "load_back g s = Some b \<Longrightarrow> \<exists>b'. load_back g s' = Some b' \<and> same_sessions b b'"
    and "load_back g s' = Some b' \<Longrightarrow> \<exists>b. load_back g s = Some b \<and> same_sessions b b'"
    and "kback.more s' = kback.more s" and "registry s' = registry s"
    and "g \<noteq> h \<Longrightarrow> load_hub g s' = load_hub g s" and "g \<noteq> h \<Longrightarrow> load_back g s' = load_back g s"
  using assms unfolding core_keeps_def by (auto simp: option_rel_Some1 option_rel_Some2 dest: spec [of _ g])

lemma core_step_keeps:
  assumes wf: "back_wf held pins s" and step: "core_step h s s'"
  shows "back_wf held pins s' \<and> core_keeps h s s'"
  using step
proof (cases rule: core_step.cases)
  case (hub_control type_req "value" index buf len ret buf' hub)
  from virtusb_hcd_hub_control_ok [OF back_wf_topo [OF wf] hub_control(2,3), of type_req "value" index len] hub_control(1)
  have req: "hub_request_ok h s s'" by simp
  then have wf': "topo_wf s'" and dev: "load_port (Dev_port d) s' = load_port (Dev_port d) s"
    and lay: "rel_option same_layout (load_hub g s) (load_hub g s')" for d g
    by (simp_all add: hub_request_ok_def layout_def)
  have plug: "load_hub g s = Some hub1 \<Longrightarrow> load_hub g s' = Some hub2 \<Longrightarrow> plugs hub2 = plugs hub1" for g hub1 hub2
    by (rule plugs_of_dev_ports [OF back_wf_topo [OF wf] wf' dev])
  have "rel_option same_hub (load_hub g s) (load_hub g s')" for g
  proof (cases "load_hub g s")
    case (Some hub1)
    with lay [of g] obtain hub2 where "load_hub g s' = Some hub2" "same_layout hub1 hub2"
      by (auto simp: option_rel_Some1)
    with Some plug [OF Some] show ?thesis by (simp add: same_hub_def)
  qed (use lay [of g] in simp)
  moreover have more: "ktrans.more s' = ktrans.more s"
    using hub_request_more [OF req] by (intro ktrans_more kobj_fields_more)
  moreover have "registry s' = registry s" by (rule kobj_fields_more [OF hub_request_more [OF req]])
  ultimately show ?thesis
    using back_wf_hub_request [OF wf req] load_back_more [OF more] back_fields_more(5) [OF more] req
    by (simp add: core_keeps_def hub_request_ok_def)
next
  case (alloc_urb u ub)
  then have "(g, u, t) \<notin> requests s" for g t
    using back_structD(3) [OF back_wfD(2) [OF wf]] by (fastforce simp: request_ok_def)
  with back_wf_put_urb [OF wf] alloc_urb(1) show ?thesis by (simp add: core_keeps_def put_urb_def)
next
  case (urb_enqueue mem buf_mem junk req_mem link_ret u ret hub b ub)
  have "(g, u, t) \<notin> requests s" for g t
    using back_structD(5) [OF back_wfD(2) [OF wf]] urb_enqueue(6) by blast
  note ok = virtusb_hcd_urb_enqueue_ok [OF wf urb_enqueue(2,3,4) this urb_enqueue(5,7), where mem = mem and buf_mem = buf_mem and req_mem = req_mem and junk = junk]
  have "rel_option same_sessions (load_back g s) (load_back g s')" for g
    using ok urb_enqueue(1,3) by (cases "g = h") (auto simp: same_sessions_def split: if_splits)
  moreover have "load_back g s' = load_back g s" if "g \<noteq> h" for g
    using ok urb_enqueue(1) that by (auto split: if_splits)
  ultimately show ?thesis using ok urb_enqueue(1) by (simp add: core_keeps_def)
next
  case (urb_dequeue check_ret u status ret b)
  note ok = virtusb_backend_cancel_ok [OF wf urb_dequeue(2), of check_ret u status]
  have "core_keeps h s s'" if "gave_back h r urb status s s'" for r urb
    using that urb_dequeue(2) by (auto simp: gave_back_def core_keeps_def same_sessions_def without_def)
  with ok urb_dequeue(1) show ?thesis
    by (auto simp: virtusb_hcd_urb_dequeue_def split: if_splits)
qed

lemma core_steps_keep:
  assumes "core_steps h s s'" and "back_wf held pins s"
  shows "back_wf held pins s' \<and> core_keeps h s s'"
  using assms
proof (induction rule: rtranclp_induct)
  case (step t u)
  then show ?case using core_step_keeps [of held pins t h u] by (blast intro: core_keeps_trans)
qed simp

lemma backend_empty: "backend_ok {} s b \<Longrightarrow> bindings b = [] \<Longrightarrow> pending b = [] \<and> active b = []"
  by (cases "pending b"; cases "active b") (auto simp: backend_ok_def)

text \<open>It cannot put a URB on a stopped backend, and has nothing to take off it.\<close>

lemma core_step_stopped:
  assumes wf: "back_wf held pins s" and step: "core_step h s s'"
    and b: "load_back h s = Some b" "stopping b" "bindings b = []"
  shows "load_back h s' = Some b \<and> givebacks s' = givebacks s"
  using step
proof (cases rule: core_step.cases)
  case (hub_control type_req "value" index buf len ret buf' hub)
  from virtusb_hcd_hub_control_ok [OF back_wf_topo [OF wf] hub_control(2,3), of type_req "value" index len] hub_control(1)
  have "topo.more s' = topo.more s" by (auto intro: hub_request_more)
  then have more: "ktrans.more s' = ktrans.more s" by (intro ktrans_more kobj_fields_more)
  with b(1) show ?thesis using load_back_more [OF more, of h] back_fields_more(2) [OF more] by simp
next
  case (alloc_urb u ub)
  with b(1) show ?thesis by (simp add: put_urb_def)
next
  case (urb_enqueue mem buf_mem junk req_mem link_ret u ret hub b' ub)
  have "(g, u, t) \<notin> requests s" for g t
    using back_structD(5) [OF back_wfD(2) [OF wf]] urb_enqueue(6) by blast
  note ok = virtusb_hcd_urb_enqueue_ok [OF wf urb_enqueue(2,3,4) this urb_enqueue(5,7), where mem = mem and buf_mem = buf_mem and req_mem = req_mem and junk = junk]
  have "enqueue_error mem buf_mem req_mem link_ret b target ub < 0" for target
    using b(2) urb_refused_cases [of ub] by (auto simp: enqueue_error_def submit_error_def split: option.split)
  with ok urb_enqueue(1,3) b(1) show ?thesis by simp
next
  case (urb_dequeue check_ret u status ret b')
  have "(h, u, t) \<notin> requests s" for t
    using backend_empty [OF back_structD(2) [OF back_wfD(2) [OF wf] b(1)] b(3)] b(1)
    by (simp add: requests_def request_keys_def)
  with virtusb_backend_cancel_ok [OF wf urb_dequeue(2), of check_ret u status] urb_dequeue(1) b(1) show ?thesis
    by (auto simp: virtusb_hcd_urb_dequeue_def split: if_splits)
qed

end
