(* ===== verification/Virtusb_Platform_Props.thy ===== *)
theory Virtusb_Platform_Props
  imports Virtusb_Platform Virtusb_Usb_Core
begin

text \<open>
  Controllers come and go without a trace: a probe that fails undoes everything it did, and a
  removal gives back every URB and frees the controller. The invariant of the control plane holds
  wherever other threads can run.
\<close>

section \<open>Replacing a controller that nothing refers to\<close>

lemma no_peer_on_idle_hub:
  assumes wf: "ports_wf s" and idle: "\<And>hub. load_hub h s = Some hub \<Longrightarrow> hub_idle hub"
    and p: "load_port a s = Some p" "p_peer p = Some b"
  shows "a \<notin> range (Hub_port h)" and "b \<notin> range (Hub_port h)"
proof -
  from wf p obtain q where q: "load_port b s = Some q" "p_peer q = Some a" by (rule ports_wf_peer)
  have "x \<notin> range (Hub_port h)" if "load_port x s = Some r" "p_peer r = Some y" for x r y
  proof
    assume "x \<in> range (Hub_port h)"
    then obtain i where x: "x = Hub_port h i" by blast
    with that obtain hub where "load_hub h s = Some hub" by (cases "load_hub h s") (simp_all add: load_port.simps)
    with hub_idle_peer [OF this idle [OF this], of i r] x that show False by simp
  qed
  with p q show "a \<notin> range (Hub_port h)" "b \<notin> range (Hub_port h)" by blast+
qed

definition idle_hub :: "nat \<Rightarrow> virtusb_hub \<Rightarrow> bool" where
  "idle_hub h hub \<longleftrightarrow>
     hub_idle hub \<and> hub_shape hub \<and> hub_usb_ok (\<lambda>_. False) hub \<and>
     (\<forall>i < length (hub_ports hub). port_ok (Hub_port h i) (hub_ports hub ! i))"

lemma topo_wf_swap:
  assumes wf: "topo_wf s" and hubs: "\<And>g. g \<noteq> h \<Longrightarrow> load_hub g s' = load_hub g s"
    and devs: "\<And>d. load_port (Dev_port d) s' = load_port (Dev_port d) s"
    and idle: "\<And>hub. load_hub h s = Some hub \<Longrightarrow> hub_idle hub"
    and idle': "\<And>hub. load_hub h s' = Some hub \<Longrightarrow> idle_hub h hub"
  shows "topo_wf s'"
proof -
  have frame: "load_port a s' = load_port a s" if a: "a \<notin> range (Hub_port h)" for a
  proof (cases a)
    case (Hub_port g i)
    with a have "g \<noteq> h" by auto
    with hubs Hub_port show ?thesis by (simp add: load_port.simps)
  qed (use devs in simp)
  have new: "load_port a s' = Some p \<Longrightarrow> p_peer p = Some b \<Longrightarrow> a \<notin> range (Hub_port h)" for a p b
    using idle' hub_idle_peer [of h s'] by (cases "load_hub h s'") (auto simp: idle_hub_def load_port.simps)
  have old: "a \<notin> range (Hub_port h)" "b \<notin> range (Hub_port h)" if "load_port a s = Some p" "p_peer p = Some b" for a p b
    by (rule no_peer_on_idle_hub [OF topo_wf_ports [OF wf] _ that]; erule idle)+
  have "ports_wf s'"
  proof (rule ports_wfI)
    fix a p assume p: "load_port a s' = Some p"
    show "port_ok a p"
    proof (cases "a \<in> range (Hub_port h)")
      case True
      with p idle' show ?thesis by (cases "load_hub h s'") (auto simp: load_port.simps nth_opt_Some idle_hub_def)
    next
      case False
      with p frame topo_wf_ports [OF wf] show ?thesis by (auto intro: ports_wf_port)
    qed
  next
    fix a p b assume p: "load_port a s' = Some p" "p_peer p = Some b"
    from new [OF p] p(1) frame have p': "load_port a s = Some p" by simp
    from topo_wf_ports [OF wf] p' p(2) obtain q where "load_port b s = Some q" "p_peer q = Some a" "p_role q \<noteq> p_role p"
      by (rule ports_wf_peer)
    with frame [of b] old(2) [OF p' p(2)]
    show "\<exists>q. load_port b s' = Some q \<and> p_peer q = Some a \<and> p_role q \<noteq> p_role p" by auto
  qed
  moreover have connected: "port_connected s' g = port_connected s g" if g: "g \<noteq> h" for g
  proof (rule ext, rule port_connected_frame [OF topo_wf_ports [OF wf], where X = "range (Hub_port h)"])
  qed (use frame g in auto)
  moreover have "hub_shape hub \<and> hub_usb_ok (\<lambda>k. False \<or> port_connected s' g k) hub" if hub: "load_hub g s' = Some hub" for g hub
  proof (cases "g = h")
    case True
    with idle' [of hub] hub have "hub_shape hub" "hub_usb_ok (\<lambda>_. False) hub" by (simp_all add: idle_hub_def)
    then show ?thesis by (auto elim: hub_usb_ok_mono)
  next
    case False
    with hubs hub topo_wf_shape [OF wf] topo_wf_usb [OF wf] connected [OF False] show ?thesis by simp
  qed
  ultimately show ?thesis unfolding topo_wf_upto_def by blast
qed

definition idle_backend :: "virtusb_backend \<Rightarrow> bool" where
  "idle_backend b \<longleftrightarrow> bindings b = [] \<and> pending b = [] \<and> active b = []"

text \<open>Nothing the invariant speaks of differs, except for the controller \<open>h\<close>.\<close>

definition elsewhere :: "nat \<Rightarrow> 'a khcd_scheme \<Rightarrow> 'a khcd_scheme \<Rightarrow> bool" where
  "elsewhere h s s' \<longleftrightarrow>
     (\<forall>g. g \<noteq> h \<longrightarrow> load_hub g s' = load_hub g s \<and> load_back g s' = load_back g s \<and> load_hcd g s' = load_hcd g s) \<and>
     dev_ports s' = dev_ports s \<and> (\<forall>d. load_obj d s' = load_obj d s) \<and> registry s' = registry s \<and>
     next_object_id s' = next_object_id s \<and> next_addr s' = next_addr s \<and>
     (\<forall>t. load_trans t s' = load_trans t s) \<and> (\<forall>u. load_urb u s' = load_urb u s) \<and> linked s' = linked s \<and>
     (\<forall>f. load_file f s' = load_file f s)"

lemma elsewhere_refl [simp]: "elsewhere h s s"
  by (simp add: elsewhere_def)

lemma elsewhere_writes [simp]:
  "elsewhere h s (put_hub h hub t) \<longleftrightarrow> elsewhere h s t"
  "elsewhere h s (put_back h b t) \<longleftrightarrow> elsewhere h s t"
  "elsewhere h s (put_hcd h v t) \<longleftrightarrow> elsewhere h s t"
  "elsewhere h s (log_event e t) \<longleftrightarrow> elsewhere h s t"
  "elsewhere h s (t\<lparr>cdevs := cs\<rparr>) \<longleftrightarrow> elsewhere h s t"
  "elsewhere h s (t\<lparr>class_devices := cs\<rparr>) \<longleftrightarrow> elsewhere h s t"
  by (auto simp: elsewhere_def load_file_def load_obj_def load_trans_def load_urb_def put_hcd_def load_hcd_def
      load_hub_def load_back_def put_hub_def put_back_def log_event_def)

lemma elsewhere_platform [simp]:
  "elsewhere h s (put_pdev p d t) \<longleftrightarrow> elsewhere h s t"
  "elsewhere h s (t\<lparr>hcd_has_tt := tt\<rparr>) \<longleftrightarrow> elsewhere h s t"
  "elsewhere h s (usb_put_hcd h t) \<longleftrightarrow> elsewhere h s t"
  by (auto simp: elsewhere_def load_file_def load_obj_def load_trans_def load_urb_def load_hcd_def
      load_hub_def load_back_def put_pdev_def usb_put_hcd_def)

lemma control_wf_swap:
  assumes wf: "control_wf held pins s" and same: "elsewhere h s s'" and topo: "topo_wf s'"
    and old: "\<And>b. load_back h s = Some b \<Longrightarrow> idle_backend b"
    and new: "\<And>b. load_back h s' = Some b \<Longrightarrow> idle_backend b"
    and hcd: "case load_hcd h s' of
                None \<Rightarrow> load_back h s' = None \<and> (\<forall>f fl. load_file f s = Some fl \<longrightarrow> \<not> file_opens h fl)
              | Some v \<Rightarrow> hcd_ok s' h v"
  shows "control_wf held pins s'"
proof -
  note bwf = control_wfD(1) [OF wf] and ok = ctl_okD [OF control_wfD(2) [OF wf]]
  have view: "dev_ports s' = dev_ports s" "load_obj d s' = load_obj d s" "registry s' = registry s"
    "next_object_id s' = next_object_id s" "next_addr s' = next_addr s" "load_trans t s' = load_trans t s"
    "load_urb u s' = load_urb u s" "linked s' = linked s" "load_file f s' = load_file f s" for d t u f
    using same by (simp_all add: elsewhere_def)
  have other: "load_hub g s' = load_hub g s" "load_back g s' = load_back g s" "load_hcd g s' = load_hcd g s" if "g \<noteq> h" for g
    using same that by (simp_all add: elsewhere_def)
  have keys: "(\<exists>b. load_back g s' = Some b \<and> x \<in> request_keys b) \<longleftrightarrow> (\<exists>b. load_back g s = Some b \<and> x \<in> request_keys b)" for g x
    using old new other by (cases "g = h") (auto simp: request_keys_def idle_backend_def)
  then have reqs: "requests s' = requests s" by (auto simp: requests_def)
  have "(\<exists>b. load_back g s' = Some b \<and> d \<in> bind_device ` set (bindings b)) \<longleftrightarrow>
      (\<exists>b. load_back g s = Some b \<and> d \<in> bind_device ` set (bindings b))" for g d
    using old new other by (cases "g = h") (auto simp: idle_backend_def)
  then have sess: "sessions d s' = sessions d s" for d by (simp add: sessions_def)
  have users: "users d s' = users d s" for d by (rule users_cong) (rule view)
  have dev: "dev_wf a s' \<longleftrightarrow> dev_wf a s" for a
    using topo dev_wfD(1) [OF back_wf_dev [OF bwf]] obj_wf_cong [of s' s] unfolding dev_wf_def by (simp add: view load_port.simps)
  have trans: "trans_wf a c s' = trans_wf a c s" for a c
    by (simp add: trans_wf_def dev users view)
  have "finite {g. load_back g s' \<noteq> None}"
    by (rule finite_subset [OF _ finite_insert [THEN iffD2, OF back_structD(1) [OF back_wfD(2) [OF bwf]]], of _ h]) (use other in auto)
  moreover have "backend_ok {} s' b" if b: "load_back g s' = Some b" for g b
  proof (cases "g = h")
    case True
    with new b show ?thesis by (simp add: idle_backend_def backend_ok_def)
  next
    case False
    with b other have "load_back g s = Some b" by simp
    from back_structD(2) [OF back_wfD(2) [OF bwf] this] show ?thesis by (simp add: backend_ok_def device_of_def view)
  qed
  moreover have "request_ok s' u t \<longleftrightarrow> request_ok s u t" for u t by (simp add: request_ok_def view)
  ultimately have "back_struct (\<lambda>_. {}) s'"
    using back_wfD(2) [OF bwf] unfolding back_struct_def reqs view by blast
  with back_wfD(1) [OF bwf] have "back_wf held pins s'"
    by (simp add: back_wf_upto_def sess trans queued_def reqs)
  moreover have "ctl_ok s'"
    unfolding ctl_ok_def
  proof (intro conjI allI impI)
    fix g v assume g: "load_hcd g s' = Some v"
    with ok(1) [of g v] hcd other show "hcd_ok s' g v" by (cases "g = h") (auto simp: hcd_ok_def)
  next
    fix g b assume "load_back g s' = Some b"
    with ok(2) [of g b] hcd other show "load_hcd g s' \<noteq> None" by (cases "g = h") (auto split: option.splits)
  next
    fix f fl assume f: "load_file f s' = Some fl"
    then have fl: "load_file f s = Some fl" by (simp add: view)
    have "load_hcd c s' \<noteq> None" if "file_opens c fl" "load_hcd c s \<noteq> None" for c
      using that fl hcd other [of c] by (cases "c = h") (auto split: option.splits)
    with ok(3) [OF fl] show "file_private fl = None \<or> (\<exists>c. file_opens c fl \<and> load_hcd c s' \<noteq> None)" by blast
  next
    fix g b bd assume b: "load_back g s' = Some b" "bd \<in> set (bindings b)"
    with new have "g \<noteq> h" by (auto simp: idle_backend_def)
    with b ok(4) other show "\<exists>fl. load_file (bind_owner bd) s' = Some fl \<and> file_opens g fl" by (simp add: view)
  qed
  ultimately show ?thesis by (simp add: control_wf_def)
qed

text \<open>The state of the driver core and the lists of registered character devices are not part of the invariant.\<close>

lemma control_wf_views:
  assumes "kback.truncate s' = kback.truncate s" and "\<And>h. load_hcd h s' = load_hcd h s" and "\<And>f. load_file f s' = load_file f s"
  shows "control_wf held pins s' = control_wf held pins s"
proof -
  have "load_hub h s' = load_hub h s" "load_back h s' = load_back h s" for h
    by (simp_all only: truncate_view [where s = s', symmetric] truncate_view [where s = s, symmetric] assms(1))
  then have "ctl_ok s' = ctl_ok s" by (simp add: ctl_ok_def hcd_ok_def assms(2,3))
  with back_wf_truncate [OF assms(1)] show ?thesis by (simp add: control_wf_def)
qed

lemma control_wf_platform [simp]:
  "control_wf held pins (put_pdev p d s) = control_wf held pins s"
  "control_wf held pins (s\<lparr>cdevs := cs\<rparr>) = control_wf held pins s"
  "control_wf held pins (s\<lparr>class_devices := cs\<rparr>) = control_wf held pins s"
  by (rule control_wf_views; simp add: put_pdev_def kback.defs load_hcd_def load_file_def)+

section \<open>Probing\<close>

text \<open>The controller as \<open>usb_add_hcd\<close> finds it.\<close>

definition new_hcd :: "nat \<Rightarrow> u32 \<Rightarrow> virtusb_hcd" where
  "new_hcd h inst = \<lparr>vh_instance = inst, vh_linux_hcd = Some h, vh_control = zero_control\<rparr>"

definition built :: "nat \<Rightarrow> u32 \<Rightarrow> u32 \<Rightarrow> nat \<Rightarrow> platform_device \<Rightarrow> 'a kplat_scheme \<Rightarrow> 'a kplat_scheme" where
  "built h inst port_count p pdev s =
     put_pdev p (pdev\<lparr>pdev_drvdata := Some h\<rparr>) (put_hub h (fresh_hub h port_count) (put_back h zero_backend
       ((put_hcd h (new_hcd h inst) (snd (usb_create_hcd (Some h) s)))\<lparr>hcd_has_tt := (hcd_has_tt s)(h := True)\<rparr>)))"

lemma built_sel [simp]:
  "load_hcd g (built h inst n p pdev s) = (if g = h then Some (new_hcd h inst) else load_hcd g s)"
  "load_back g (built h inst n p pdev s) = (if g = h then Some zero_backend else load_back g s)"
  "load_hub g (built h inst n p pdev s) = (if g = h then Some (fresh_hub h n) else load_hub g s)"
  "load_pdev q (built h inst n p pdev s) = (if q = p then Some (pdev\<lparr>pdev_drvdata := Some h\<rparr>) else load_pdev q s)"
  "elsewhere h s (built h inst n p pdev s)"
  by (simp_all add: built_def usb_create_hcd_def load_hcd_def load_back_def load_hub_def load_pdev_def put_hcd_def
      put_back_def put_hub_def put_pdev_def) (simp add: elsewhere_def load_hcd_def load_back_def load_hub_def
      load_obj_def load_trans_def load_urb_def load_file_def)

lemma built_char [simp]:
  "cdevs (built h inst n p pdev s) = cdevs s" "class_devices (built h inst n p pdev s) = class_devices s"
  "virtusb_control_class (built h inst n p pdev s) = virtusb_control_class s"
  "virtusb_control_instance_count (built h inst n p pdev s) = virtusb_control_instance_count s"
  "virtusb_control_base_devt (built h inst n p pdev s) = virtusb_control_base_devt s"
  by (simp_all add: built_def usb_create_hcd_def put_hcd_def put_back_def put_hub_def put_pdev_def)

lemma control_wf_built:
  assumes wf: "control_wf held pins s" and free: "load_hcd h s = None" "load_hub h s = None" and n: "n \<le> 31"
  shows "control_wf held pins (built h inst n p pdev s)"
proof (rule control_wf_swap [OF wf, where h = h])
  have none: "load_back h s = None"
    using ctl_okD(2) [OF control_wfD(2) [OF wf], of h] free(1) by (cases "load_back h s") auto
  then show "load_back h s = Some b \<Longrightarrow> idle_backend b" for b by simp
  have idle: "idle_hub h (fresh_hub h n)"
    using fresh_hub_facts [OF n] hub_usb_ok_zero by (simp add: idle_hub_def hub_shape_def)
  show "topo_wf (built h inst n p pdev s)"
  proof (rule topo_wf_swap [OF back_wf_topo [OF control_wfD(1) [OF wf]], where h = h])
    have "dev_ports (built h inst n p pdev s) = dev_ports s"
      using built_sel(5) [of h s] unfolding elsewhere_def by blast
    then show "load_port (Dev_port d) (built h inst n p pdev s) = load_port (Dev_port d) s" for d
      by (simp add: load_port.simps)
  qed (use free idle in auto)
qed (auto simp: idle_backend_def zero_backend_def hcd_ok_def new_hcd_def zero_control_def)

lemma kplat_more:
  assumes "kback.more s' = kback.more s"
  shows "load_pdev p s' = load_pdev p s" "cdevs s' = cdevs s" "class_devices s' = class_devices s"
    "virtusb_control_class s' = virtusb_control_class s" "virtusb_control_base_devt s' = virtusb_control_base_devt s"
    "virtusb_control_instance_count s' = virtusb_control_instance_count s"
  using assms by (cases s; cases s'; simp add: load_pdev_def)+

text \<open>What adding or removing the controller \<open>h\<close> of the platform device \<open>p\<close> leaves alone.\<close>

definition registrations where
  "registrations s = (virtusb_control_class s, virtusb_control_base_devt s, virtusb_control_instance_count s, chrdev_regions s,
     classes s, driver_registered s, kplat.more s)"

definition others_keep :: "nat \<Rightarrow> nat \<Rightarrow> 'a kplat_scheme \<Rightarrow> 'a kplat_scheme \<Rightarrow> bool" where
  "others_keep h p s s' \<longleftrightarrow>
     (\<forall>g. g \<noteq> h \<longrightarrow> load_hcd g s' = load_hcd g s \<and> load_hub g s' = load_hub g s \<and> load_back g s' = load_back g s) \<and>
     (\<forall>q. q \<noteq> p \<longrightarrow> load_pdev q s' = load_pdev q s) \<and> (\<forall>f. load_file f s' = load_file f s) \<and>
     registry s' = registry s \<and> registrations s' = registrations s"

lemma others_keep_refl [simp]: "others_keep h p s s"
  by (simp add: others_keep_def)

lemma others_keep_writes [simp]:
  "others_keep h p s (put_hub h hub t) \<longleftrightarrow> others_keep h p s t"
  "others_keep h p s (put_back h b t) \<longleftrightarrow> others_keep h p s t"
  "others_keep h p s (put_hcd h v t) \<longleftrightarrow> others_keep h p s t"
  "others_keep h p s (log_event e t) \<longleftrightarrow> others_keep h p s t"
  "others_keep h p s (t\<lparr>cdevs := cs\<rparr>) \<longleftrightarrow> others_keep h p s t"
  "others_keep h p s (t\<lparr>class_devices := cs\<rparr>) \<longleftrightarrow> others_keep h p s t"
  "others_keep h p s (put_pdev p d t) \<longleftrightarrow> others_keep h p s t"
  "others_keep h p s (t\<lparr>hcd_has_tt := tt\<rparr>) \<longleftrightarrow> others_keep h p s t"
  "others_keep h p s (usb_put_hcd h t) \<longleftrightarrow> others_keep h p s t"
  by (auto simp: others_keep_def registrations_def load_file_def put_hcd_def load_hcd_def load_hub_def load_back_def load_pdev_def put_hub_def
      put_back_def log_event_def put_pdev_def usb_put_hcd_def)

lemma others_keep_built [simp]: "others_keep h p s (built h inst n p pdev s)"
  by (simp add: built_def usb_create_hcd_def)

lemma others_keep_core:
  assumes "others_keep h p s t" and "core_keeps h t u"
  shows "others_keep h p s u"
proof -
  note more = core_keepsD(5) [OF assms(2)]
  have "registrations u = registrations t"
    using more by (cases t; cases u) (simp add: registrations_def)
  then show ?thesis
    using assms by (simp add: others_keep_def core_keeps_def khcd_fields [OF more] kplat_more [OF more])
qed

lemma others_keep_trans: "others_keep h p s t \<Longrightarrow> others_keep h p t u \<Longrightarrow> others_keep h p s u"
  unfolding others_keep_def by simp

text \<open>A step of the topology that leaves the device ports alone.\<close>

lemma back_wf_topology:
  assumes wf: "back_wf held pins s" and topo: "topo_wf s'" and more: "topo.more s' = topo.more s" and dev: "dev_ports s' = dev_ports s"
  shows "back_wf held pins s'"
proof -
  note same = kobj_fields_more [OF more] dev
  have "dev_wf (refs held s) s'"
    using back_wf_dev [OF wf] topo unfolding dev_wf_def by (simp add: load_port.simps same obj_wf_cong [OF same(2-5)])
  then show ?thesis by (rule back_wf_kobj [OF wf]) (simp_all add: same)
qed

lemma control_wf_relayout:
  assumes wf: "control_wf held pins s" and topo: "topo_wf s'" and more: "topo.more s' = topo.more s"
    and dev: "dev_ports s' = dev_ports s" and hubs: "\<And>h. load_hub h s \<noteq> None \<Longrightarrow> load_hub h s' \<noteq> None"
  shows "control_wf held pins s'"
proof (rule control_wf_frame [OF wf back_wf_topology [OF control_wfD(1) [OF wf] topo more dev] _ hubs])
  note more = ktrans_more [OF kobj_fields_more(1) [OF more]]
  show "kback.more s' = kback.more s" by (rule back_fields_more [OF more])
  show "rel_option (\<lambda>b b'. set (bindings b') \<subseteq> set (bindings b)) (load_back h s) (load_back h s')" for h
    by (simp add: load_back_more [OF more])
qed

lemma topo_wf_callback:
  assumes topo: "topo_wf s" and h: "load_hub h s = Some hub"
  shows "topo_wf (put_hub h (hub\<lparr>hub_status_changed := cb, hub_status_changed_context := c\<rparr>) s)"
  using topo_wf_shape [OF topo h] topo_wf_hub_usb [OF topo h]
  by (intro topo_wf_put_hub [OF topo h]) (simp_all add: hub_shape_def hub_usb_ok_def packed_speed_def)

lemma control_wf_callback:
  assumes wf: "control_wf held pins s" and h: "load_hub h s = Some hub"
  shows "control_wf held pins (put_hub h (hub\<lparr>hub_status_changed := cb, hub_status_changed_context := c\<rparr>) s)"
  by (rule control_wf_relayout [OF wf topo_wf_callback [OF back_wf_topo [OF control_wfD(1) [OF wf]] h]])
     (simp_all add: put_hub_def load_hub_def)

lemma topo_wf_log_event: "topo_wf (log_event e s) = topo_wf s"
proof (rule topo_wf_cong)
  show hub: "load_hub h (log_event e s) = load_hub h s" for h by (simp add: log_event_def load_hub_def)
  show "load_port a (log_event e s) = load_port a s" for a by (cases a) (simp_all add: load_port.simps hub)
qed

text \<open>Creating the character device of a controller undoes what it did when it fails.\<close>

definition instance_error :: "u32 \<Rightarrow> int \<Rightarrow> int + nat \<Rightarrow> 'a khcd_scheme \<Rightarrow> int" where
  "instance_error inst cdev_ret device_answer s =
     (if virtusb_control_class s = None then - ENODEV
      else if inst \<ge> virtusb_control_instance_count s then - EINVAL
      else if cdev_ret < 0 then cdev_ret
      else case device_answer of Inl e \<Rightarrow> e | Inr _ \<Rightarrow> 0)"

definition instance_devt :: "u32 \<Rightarrow> 'a khcd_scheme \<Rightarrow> u32" where
  "instance_devt inst s = MKDEV (MAJOR (virtusb_control_base_devt s)) (MINOR (virtusb_control_base_devt s) + inst)"

lemma put_hcd_sel [simp]:
  "cdevs (put_hcd h v s) = cdevs s" "class_devices (put_hcd h v s) = class_devices s"
  "load_hcd g (s\<lparr>cdevs := cs\<rparr>) = load_hcd g s" "load_hcd g (s\<lparr>class_devices := cs\<rparr>) = load_hcd g s"
  "load_back g (s\<lparr>cdevs := cs\<rparr>) = load_back g s" "load_back g (s\<lparr>class_devices := cs\<rparr>) = load_back g s"
  "load_hub g (s\<lparr>cdevs := cs\<rparr>) = load_hub g s" "load_hub g (s\<lparr>class_devices := cs\<rparr>) = load_hub g s"
  "load_pdev p (s'\<lparr>cdevs := cs\<rparr>) = load_pdev p s'" "load_pdev p (s'\<lparr>class_devices := cs\<rparr>) = load_pdev p s'"
  "load_pdev p (put_hcd h v s') = load_pdev p s'"
  "dev_ports (put_hcd h v s) = dev_ports s" "events (put_hcd h v s) = events s"
  by (simp_all add: put_hcd_def load_hcd_def load_back_def load_hub_def load_pdev_def)

definition instance_result ::
  "nat \<Rightarrow> virtusb_hcd \<Rightarrow> u32 \<Rightarrow> int \<Rightarrow> int + nat \<Rightarrow> 'a kplat_scheme \<Rightarrow> int \<Rightarrow> 'a kplat_scheme \<Rightarrow> bool" where
  "instance_result h v inst cdev_ret device_answer s ret s' \<longleftrightarrow>
     ret = instance_error inst cdev_ret device_answer s \<and> elsewhere h s s' \<and> (\<forall>p. others_keep h p s s') \<and>
     (\<forall>g. load_hub g s' = load_hub g s \<and> load_back g s' = load_back g s) \<and>
     events s' = events s \<and> (\<forall>q. load_pdev q s' = load_pdev q s) \<and>
     (if ret = 0
      then let devt = instance_devt inst s in
        load_hcd h s' = Some (v\<lparr>vh_control := \<lparr>ctl_hcd = Some h, ctl_device = Some (projr device_answer), ctl_devt = devt,
          ctl_active = True\<rparr>\<rparr>) \<and> cdevs s' = devt # cdevs s \<and> class_devices s' = devt # class_devices s
      else ret < 0 \<and> cdevs s' = cdevs s \<and> class_devices s' = class_devices s \<and>
        (load_hcd h s' = Some v \<or> load_hcd h s' = Some (v\<lparr>vh_control := zero_control\<rparr>)))"

lemma virtusb_control_instance_create_ok:
  assumes v: "load_hcd h s = Some v" and e: "\<And>e. device_answer = Inl e \<Longrightarrow> e < 0"
  shows "runs (virtusb_control_instance_create cdev_ret device_answer (Some h) (Some h) (Some p) inst s)
    (\<lambda>(ret, s'). instance_result h v inst cdev_ret device_answer s ret s')"
  using v e
  by (cases device_answer)
     (auto simp: virtusb_control_instance_create_def instance_result_def instance_error_def instance_devt_def Let_def
       zero_control_def)

lemma put_pdev_sel [simp]:
  "load_hcd g (put_pdev p d s) = load_hcd g s" "load_back g (put_pdev p d s) = load_back g s"
  "load_hub g (put_pdev p d s) = load_hub g s" "load_file f (put_pdev p d s) = load_file f s"
  "cdevs (put_pdev p d s) = cdevs s" "class_devices (put_pdev p d s) = class_devices s" "events (put_pdev p d s) = events s"
  "givebacks (put_pdev p d s) = givebacks s"
  by (simp_all add: put_pdev_def load_hcd_def load_back_def load_hub_def load_file_def)

lemma usb_put_hcd_sel [simp]:
  "load_hcd g (usb_put_hcd h s) = (if g = h then None else load_hcd g s)"
  "load_back g (usb_put_hcd h s) = (if g = h then None else load_back g s)"
  "load_hub g (usb_put_hcd h s) = (if g = h then None else load_hub g s)"
  "load_pdev p (usb_put_hcd h s) = load_pdev p s" "cdevs (usb_put_hcd h s) = cdevs s"
  "class_devices (usb_put_hcd h s) = class_devices s" "events (usb_put_hcd h s) = events s"
  "givebacks (usb_put_hcd h s) = givebacks s" "load_file f (usb_put_hcd h s) = load_file f s"
  "dev_ports (usb_put_hcd h s) = dev_ports s"
  by (simp_all add: usb_put_hcd_def load_hcd_def load_back_def load_hub_def load_pdev_def load_file_def)

text \<open>The last put frees a controller nothing refers to.\<close>

lemma control_wf_usb_put_hcd:
  assumes wf: "control_wf held pins s" and hub: "\<And>hub. load_hub h s = Some hub \<Longrightarrow> hub_idle hub"
    and b: "\<And>b. load_back h s = Some b \<Longrightarrow> idle_backend b"
    and closed: "\<And>f fl. load_file f s = Some fl \<Longrightarrow> \<not> file_opens h fl"
  shows "control_wf held pins (usb_put_hcd h s)"
proof (rule control_wf_swap [OF wf, where h = h])
  show "topo_wf (usb_put_hcd h s)"
    by (rule topo_wf_swap [OF back_wf_topo [OF control_wfD(1) [OF wf]], where h = h]) (use hub in \<open>auto simp: load_port.simps\<close>)
qed (use b closed in auto)

text \<open>Only the controller itself is rewritten.\<close>

lemma control_wf_new_hcd:
  assumes wf: "control_wf held pins s" and same: "elsewhere h s s'"
    and views: "\<And>g. load_hub g s' = load_hub g s" "\<And>g. load_back g s' = load_back g s"
    and b: "load_back h s = Some b" "idle_backend b" and v: "load_hcd h s' = Some v" "hcd_ok s' h v"
  shows "control_wf held pins s'"
proof (rule control_wf_swap [OF wf same])
  have "dev_ports s' = dev_ports s" using same by (simp add: elsewhere_def)
  then have "load_port a s' = load_port a s" for a by (cases a) (simp_all add: load_port.simps views)
  from topo_wf_cong [OF this views(1)] show "topo_wf s'" using back_wf_topo [OF control_wfD(1) [OF wf]] by simp
qed (use views b v in auto)

lemma control_wf_core:
  assumes "core_steps h s s'" and wf: "control_wf held pins s"
  shows "control_wf held pins s' \<and> core_keeps h s s'"
proof -
  from core_steps_keep [OF assms(1) control_wfD(1) [OF wf]] have s': "back_wf held pins s'" "core_keeps h s s'" by simp_all
  have "rel_option (\<lambda>b b'. set (bindings b') \<subseteq> set (bindings b)) (load_back g s) (load_back g s')" for g
  proof (rule option.rel_mono_strong)
    show "rel_option same_sessions (load_back g s) (load_back g s')" using s'(2) by (simp add: core_keeps_def)
  qed (simp add: same_sessions_def)
  moreover have "load_hub g s \<noteq> None \<Longrightarrow> load_hub g s' \<noteq> None" for g using core_keepsD(1) [OF s'(2)] by fastforce
  ultimately show ?thesis using control_wf_frame [OF wf s'(1) core_keepsD(5) [OF s'(2)]] s'(2) by blast
qed

text \<open>What is idle stays idle.\<close>

lemma core_idle:
  assumes steps: "core_steps h s s'" and wf: "control_wf held pins s"
    and b: "load_back h s = Some b" "bindings b = []" and hub: "load_hub h s = Some hub" "hub_idle hub"
  obtains b' hub' where "load_back h s' = Some b'" and "idle_backend b'" and "stopping b' = stopping b"
    and "load_hub h s' = Some hub'" and "hub_idle hub'" and "same_layout hub hub'"
proof -
  from control_wf_core [OF steps wf] have s': "control_wf held pins s'" "core_keeps h s s'" by simp_all
  from core_keepsD(3) [OF s'(2) b(1)] obtain b' where b': "load_back h s' = Some b'" "same_sessions b b'" by blast
  from core_keepsD(1) [OF s'(2) hub(1)] obtain hub' where hub': "load_hub h s' = Some hub'" "same_hub hub hub'" by blast
  have "idle_backend b'"
    using backend_empty [OF back_structD(2) [OF back_wfD(2) [OF control_wfD(1) [OF s'(1)]] b'(1)]] b'(2) b(2)
    by (simp add: same_sessions_def idle_backend_def)
  with b' hub' hub(2) that show thesis by (simp add: same_sessions_def same_hub_def hub_idle_plugs)
qed

section \<open>The outcome of a probe\<close>

definition probe_error :: "int \<Rightarrow> 's hcd_answers \<Rightarrow> platform_device \<Rightarrow> 'a khcd_scheme \<Rightarrow> int" where
  "probe_error add_ret ans pdev s =
     (case pdev_port_count pdev of
        None \<Rightarrow> - EINVAL
      | Some n \<Rightarrow>
          if n = 0 \<or> n > VIRTUSB_MAX_HUB_PORTS then - EINVAL
          else if ans_hcd ans = None then - ENOMEM
          else if add_ret < 0 then add_ret
          else instance_error (pdev_id pdev) (ans_cdev ans) (ans_device ans) s)"

text \<open>A controller in service: its hub has the ports asked for and nothing plugged in, its changes are reported.\<close>

definition in_service :: "nat \<Rightarrow> u32 \<Rightarrow> u32 \<Rightarrow> u32 \<Rightarrow> 'a khcd_scheme \<Rightarrow> bool" where
  "in_service h inst devt n s \<longleftrightarrow>
     (\<exists>hub b dev. load_hub h s = Some hub \<and> unat (hub_port_count hub) = unat n \<and> hub_idle hub \<and>
        hub_status_changed hub = Some Virtusb_hcd_root_hub_status_changed \<and> hub_status_changed_context hub = Some h \<and>
        load_back h s = Some b \<and> idle_backend b \<and> \<not> stopping b \<and>
        load_hcd h s = Some \<lparr>vh_instance = inst, vh_linux_hcd = Some h,
          vh_control = \<lparr>ctl_hcd = Some h, ctl_device = Some dev, ctl_devt = devt, ctl_active = True\<rparr>\<rparr> \<and>
        Poll_rh_status h \<in> set (events s))"

lemma probe_step:
  assumes pdev: "load_pdev p s = Some pdev" "pdev_port_count pdev = Some n" and n: "n \<noteq> 0" "\<not> n > VIRTUSB_MAX_HUB_PORTS"
    and h: "ans_hcd ans = Some h" and add: "ans_add_hcd ans h (built h (pdev_id pdev) n p pdev s) = (ret, s2)"
  shows "virtusb_hcd_platform_probe usb_remove_hcd ans p s =
    (if ret < 0 then do {
       s \<leftarrow> modify_pdev p (\<lambda>d. d\<lparr>pdev_drvdata := None\<rparr>) s2;
       Some (ret, usb_put_hcd h s)
     }
     else do {
       s \<leftarrow> virtusb_hub_set_status_changed_callback (Some h) (Some Virtusb_hcd_root_hub_status_changed) (Some h) s2;
       let s = usb_hcd_poll_rh_status h s;
       v \<leftarrow> load_hcd h s;
       (ret, s) \<leftarrow> virtusb_control_instance_create (ans_cdev ans) (ans_device ans)
                     (Some h) (Some h) (Some p) (vh_instance v) s;
       if ret < 0 then do {
         let s = usb_remove_hcd h s;
         s \<leftarrow> modify_pdev p (\<lambda>d. d\<lparr>pdev_drvdata := None\<rparr>) s;
         Some (ret, usb_put_hcd h s)
       }
       else Some (0, s)
     })"
proof -
  let ?s1 = "(put_hcd h (new_hcd h (pdev_id pdev)) (snd (usb_create_hcd (Some h) s)))\<lparr>hcd_has_tt := (hcd_has_tt s)(h := True)\<rparr>"
  have load: "load_hcd h (snd (usb_create_hcd (Some h) s)) = Some zero_hcd"
    "load_hub h ?s1 = Some zero_hub" "load_back h ?s1 = Some zero_backend" "load_pdev p ?s1 = Some pdev"
    "hcd_has_tt (put_hcd h v (snd (usb_create_hcd (Some h) s))) = hcd_has_tt s" for v
    using pdev by (simp_all add: usb_create_hcd_def load_pdev_def put_hcd_def put_back_def put_hub_def load_hub_def load_back_def load_hcd_def)
  have init: "virtusb_root_hub_init (Some h) n (put_back h zero_backend ?s1) =
      Some (0, put_hub h (fresh_hub h n) (put_back h zero_backend ?s1))"
    using load(2) n by (simp add: virtusb_root_hub_init_def virtusb_hub_init_ok word_neq_0_conv not_less)
  have load4: "load_pdev p (put_hub h (fresh_hub h n) (put_back h zero_backend ?s1)) = Some pdev"
    using load(4) by (simp add: load_pdev_def put_hub_def put_back_def)
  have new: "zero_hcd\<lparr>vh_instance := i, vh_linux_hcd := Some h\<rparr> = new_hcd h i" for i by (simp add: zero_hcd_def new_hcd_def)
  have "usb_create_hcd (ans_hcd ans) s = (Some h, snd (usb_create_hcd (Some h) s))" by (simp add: h usb_create_hcd_def)
  moreover have "virtusb_backend_init h ?s1 = Some (put_back h zero_backend ?s1)"
    using load(3) by (simp add: virtusb_backend_init_def zero_backend_def)
  ultimately show ?thesis
    using add pdev n load init load4
    by (simp add: virtusb_hcd_platform_probe_def built_def new store_hcd_def Let_def cong: if_cong)
qed

lemma kplat_views:
  "load_pdev p (put_hub h hub s) = load_pdev p s" "load_pdev p (log_event e s) = load_pdev p s"
  "cdevs (put_hub h hub s) = cdevs s" "cdevs (log_event e s) = cdevs s"
  "class_devices (put_hub h hub s) = class_devices s" "class_devices (log_event e s) = class_devices s"
  "instance_error i c a (put_hub h hub s) = instance_error i c a s" "instance_error i c a (log_event e s) = instance_error i c a s"
  "instance_devt i (put_hub h hub s) = instance_devt i s" "instance_devt i (log_event e s) = instance_devt i s"
  "load_hcd g (put_hub h hub s) = load_hcd g s" "load_hcd g (log_event e s) = load_hcd g s"
  "load_back g (put_hub h hub s) = load_back g s" "load_back g (log_event e s) = load_back g s"
  "load_hub g (log_event e s) = load_hub g s" "load_file f (put_hub h hub s) = load_file f s"
  "load_file f (log_event e s) = load_file f s"
  by (simp_all add: load_pdev_def put_hub_def log_event_def instance_error_def instance_devt_def load_hcd_def load_back_def
      load_hub_def load_file_def)

lemma control_wf_log_event:
  assumes "control_wf held pins s"
  shows "control_wf held pins (log_event e s)"
  by (rule control_wf_relayout [OF assms])
     (simp_all add: log_event_def load_hub_def topo_wf_log_event [unfolded log_event_def] back_wf_topo [OF control_wfD(1) [OF assms]])

text \<open>What the USB core is told to do and does: it only calls the driver.\<close>

definition core_behaves :: "int \<Rightarrow> ('a kplat_scheme) hcd_answers \<Rightarrow> (nat \<Rightarrow> 'a kplat_scheme \<Rightarrow> 'a kplat_scheme) \<Rightarrow> bool" where
  "core_behaves add_ret ans usb_remove_hcd \<longleftrightarrow>
     (\<forall>h s. fst (ans_add_hcd ans h s) = add_ret \<and> core_steps h s (snd (ans_add_hcd ans h s)) \<and>
        core_steps h s (usb_remove_hcd h s)) \<and>
     (\<forall>e. ans_device ans = Inl e \<longrightarrow> e < 0)"

lemma closed_file:
  "control_wf held pins s \<Longrightarrow> load_hcd h s = None \<Longrightarrow> load_file f s = Some fl \<Longrightarrow> \<not> file_opens h fl"
  using ctl_okD(3) [OF control_wfD(2)] by (fastforce simp: file_opens_def)

lemma pdev_same [simp]:
  "pdev_drvdata pdev = None \<Longrightarrow> pdev\<lparr>pdev_drvdata := None\<rparr> = pdev" "pdev\<lparr>pdev_drvdata := a, pdev_drvdata := b\<rparr> = pdev\<lparr>pdev_drvdata := b\<rparr>"
  by (cases pdev; simp)+

lemma virtusb_hcd_platform_probe_ok:
  assumes wf: "control_wf held pins s" and pdev: "load_pdev p s = Some pdev" "pdev_drvdata pdev = None"
    and free: "\<And>h. ans_hcd ans = Some h \<Longrightarrow> load_hcd h s = None \<and> load_hub h s = None"
    and core: "core_behaves add_ret ans usb_remove_hcd"
  shows "runs (virtusb_hcd_platform_probe usb_remove_hcd ans p s) (\<lambda>(ret, s').
    ret = probe_error add_ret ans pdev s \<and> control_wf held pins s' \<and>
    (case ans_hcd ans of None \<Rightarrow> s' = s | Some h \<Rightarrow> others_keep h p s s') \<and>
    (if ret < 0
     then load_pdev p s' = Some pdev \<and> cdevs s' = cdevs s \<and> class_devices s' = class_devices s \<and>
       (\<forall>h. ans_hcd ans = Some h \<longrightarrow> load_hcd h s' = None \<and> load_back h s' = None \<and> load_hub h s' = None)
     else ret = 0 \<and> (\<exists>h n. ans_hcd ans = Some h \<and> pdev_port_count pdev = Some n \<and>
       load_pdev p s' = Some (pdev\<lparr>pdev_drvdata := Some h\<rparr>) \<and>
       (let devt = instance_devt (pdev_id pdev) s in
          in_service h (pdev_id pdev) devt n s' \<and> cdevs s' = devt # cdevs s \<and> class_devices s' = devt # class_devices s))))"
proof -
  have back_none: "load_back h s = None" if "load_hcd h s = None" for h
    using ctl_okD(2) [OF control_wfD(2) [OF wf], of h] that by (cases "load_back h s") auto
  show ?thesis
  proof (cases "\<exists>n h. pdev_port_count pdev = Some n \<and> n \<noteq> 0 \<and> \<not> n > VIRTUSB_MAX_HUB_PORTS \<and> ans_hcd ans = Some h")
    case False
    then show ?thesis
      using wf pdev(1) free back_none
      by (auto simp: virtusb_hcd_platform_probe_def probe_error_def usb_create_hcd_def split: option.split)
  next
    case True
    then obtain n h where n: "pdev_port_count pdev = Some n" "n \<noteq> 0" "\<not> n > VIRTUSB_MAX_HUB_PORTS" and h: "ans_hcd ans = Some h"
      by blast
    let ?inst = "pdev_id pdev" and ?s1 = "built h (pdev_id pdev) n p pdev s"
    obtain s2 where add: "ans_add_hcd ans h ?s1 = (add_ret, s2)" and steps: "core_steps h ?s1 s2"
      using core unfolding core_behaves_def by (metis prod.collapse)
    note run = probe_step [OF pdev(1) n h add, of usb_remove_hcd]
    from n free [OF h] have wf1: "control_wf held pins ?s1" by (intro control_wf_built [OF wf]) (simp_all add: not_less)
    from control_wf_core [OF steps wf1] have wf2: "control_wf held pins s2" "core_keeps h ?s1 s2" by simp_all
    note more = core_keepsD(5) [OF wf2(2)]
    have keep2: "others_keep h p s s2" by (rule others_keep_core [OF _ wf2(2)]) simp
    have "hub_idle (fresh_hub h n)" using n by (intro fresh_hub_facts) (simp add: not_less)
    from core_idle [OF steps wf1, of zero_backend "fresh_hub h n"] this obtain b hub where
      b: "load_back h s2 = Some b" "idle_backend b" "\<not> stopping b" and
      hub: "load_hub h s2 = Some hub" "hub_idle hub" "same_layout (fresh_hub h n) hub"
      by (auto simp: zero_backend_def)
    have count: "unat (hub_port_count hub) = unat n"
      using hub(3) n(3) by (simp add: same_layout_def fresh_hub_def unsigned_ucast_eq unsigned_take_bit_eq not_less
          word_le_nat_alt take_bit_nat_eq_self)
    have closed: "\<not> file_opens h fl" if "load_file f s2 = Some fl" for f fl
      using that closed_file [OF wf, of h f fl] free [OF h] built_sel(5) [of h s ?inst n p pdev]
      by (simp add: khcd_fields [OF more] elsewhere_def)
    have v: "load_hcd h s2 = Some (new_hcd h ?inst)" "load_pdev p s2 = Some (pdev\<lparr>pdev_drvdata := Some h\<rparr>)"
      "cdevs s2 = cdevs s" "class_devices s2 = class_devices s" "instance_error i c a s2 = instance_error i c a s"
      "instance_devt i s2 = instance_devt i s" for i c a
      by (simp_all add: khcd_fields [OF more] kplat_more [OF more] instance_error_def instance_devt_def)
    show ?thesis
    proof (cases "add_ret < 0")
      case True
      let ?s3 = "usb_put_hcd h (put_pdev p pdev s2)"
      have "control_wf held pins ?s3"
        by (rule control_wf_usb_put_hcd) (use wf2(1) b hub closed in auto)
      with keep2 True v n h pdev(2) show ?thesis unfolding run by (simp add: probe_error_def)
    next
      case False
      let ?hub = "hub\<lparr>hub_status_changed := Some Virtusb_hcd_root_hub_status_changed, hub_status_changed_context := Some h\<rparr>"
      let ?s4 = "log_event (Poll_rh_status h) (put_hub h ?hub s2)"
      have wf4: "control_wf held pins ?s4" by (intro control_wf_log_event control_wf_callback wf2(1) hub(1))
      have err: "probe_error add_ret ans pdev s = instance_error ?inst (ans_cdev ans) (ans_device ans) s"
        using n h False by (simp add: probe_error_def)
      have dev: "\<And>e. ans_device ans = Inl e \<Longrightarrow> e < 0" using core by (simp add: core_behaves_def)
      have v4: "load_hcd h ?s4 = Some (new_hcd h ?inst)" using v(1) by (simp add: kplat_views)
      from virtusb_control_instance_create_ok [OF v4 dev, where cdev_ret = "ans_cdev ans" and p = p and inst = ?inst]
      obtain ret s5 where
        create: "virtusb_control_instance_create (ans_cdev ans) (ans_device ans) (Some h) (Some h) (Some p) ?inst ?s4 = Some (ret, s5)"
        and result: "instance_result h (new_hcd h ?inst) ?inst (ans_cdev ans) (ans_device ans) ?s4 ret s5"
        unfolding runs_iff split_paired_Ex split_conv by blast
      have s5: "ret = instance_error ?inst (ans_cdev ans) (ans_device ans) s" "elsewhere h ?s4 s5"
        "load_hub g s5 = load_hub g ?s4" "load_back g s5 = load_back g ?s4" "events s5 = events ?s4"
        "load_pdev q s5 = load_pdev q s2" "others_keep h p ?s4 s5"
        "if ret = 0 then let devt = instance_devt ?inst s in
             load_hcd h s5 = Some ((new_hcd h ?inst)\<lparr>vh_control := \<lparr>ctl_hcd = Some h, ctl_device = Some (projr (ans_device ans)),
               ctl_devt = devt, ctl_active = True\<rparr>\<rparr>) \<and> cdevs s5 = devt # cdevs s \<and> class_devices s5 = devt # class_devices s
           else ret < 0 \<and> cdevs s5 = cdevs s \<and> class_devices s5 = class_devices s \<and> load_hcd h s5 = Some (new_hcd h ?inst)" for g q
        using result v by (simp_all add: instance_result_def kplat_views new_hcd_def Let_def cong: if_cong)
           (auto split: if_splits)
      have hcd5: "\<exists>v'. load_hcd h s5 = Some v' \<and> hcd_ok s5 h v'"
        using s5(3,4,8) b hub
        by (cases "ret = 0") (auto simp: hcd_ok_def new_hcd_def zero_control_def kplat_views idle_backend_def Let_def)
      then obtain v5 where "load_hcd h s5 = Some v5" "hcd_ok s5 h v5" by blast
      with control_wf_new_hcd [OF wf4 s5(2-4)] b have wf5: "control_wf held pins s5" by (simp add: kplat_views)
      have keep5: "others_keep h p s s5"
        using keep2 s5(7) others_keep_trans [of h p s ?s4 s5] by simp
      show ?thesis
      proof (cases "ret < 0")
        case fail: True
        let ?s6 = "usb_remove_hcd h s5"
        have steps6: "core_steps h s5 ?s6" using core by (simp add: core_behaves_def)
        from control_wf_core [OF steps6 wf5] have wf6: "control_wf held pins ?s6" "core_keeps h s5 ?s6" by simp_all
        note more6 = core_keepsD(5) [OF wf6(2)]
        have "load_back h s5 = Some b" "bindings b = []" "load_hub h s5 = Some ?hub" "hub_idle ?hub"
          using b hub s5(3,4) by (simp_all add: kplat_views idle_backend_def hub_idle_def)
        from core_idle [OF steps6 wf5 this] obtain b6 hub6 where
          "load_back h ?s6 = Some b6" "idle_backend b6" "load_hub h ?s6 = Some hub6" "hub_idle hub6" by blast
        moreover have "\<not> file_opens h fl" if "load_file f ?s6 = Some fl" for f fl
          using that closed [of f fl] s5(2) by (simp add: khcd_fields [OF more6] elsewhere_def kplat_views)
        ultimately have "control_wf held pins (usb_put_hcd h (put_pdev p pdev ?s6))"
          using wf6(1) by (intro control_wf_usb_put_hcd) auto
        with others_keep_core [OF keep5 wf6(2)] fail False err create s5 v h hub(1) pdev(2) show ?thesis
          unfolding run by (simp add: kplat_views kplat_more [OF more6] usb_hcd_poll_rh_status_def new_hcd_def
              virtusb_hub_set_status_changed_callback_def Let_def)
      next
        case ok: False
        with s5(8) have ret: "ret = 0" by (auto split: if_splits)
        with s5 b hub count v have "in_service h ?inst (instance_devt ?inst s) n s5"
          by (auto simp: in_service_def kplat_views new_hcd_def Let_def hub_idle_def)
        with keep5 ret False err create s5 v h n wf5 hub(1) show ?thesis
          unfolding run by (simp add: kplat_views usb_hcd_poll_rh_status_def new_hcd_def
              virtusb_hub_set_status_changed_callback_def Let_def)
      qed
    qed
  qed
qed

section \<open>Removal\<close>

lemma virtusb_control_instance_destroy_ok:
  assumes v: "load_hcd h s = Some v" and active: "ctl_active (vh_control v)"
  shows "runs (virtusb_control_instance_destroy (Some h) s) (\<lambda>s'.
    kback.truncate s' = kback.truncate s \<and> (\<forall>p. others_keep h p s s') \<and> (\<forall>f. load_file f s' = load_file f s) \<and> (\<forall>q. load_pdev q s' = load_pdev q s) \<and>
    (\<forall>g. load_hcd g s' = (if g = h
       then Some (v\<lparr>vh_control := \<lparr>ctl_hcd = None, ctl_device = None, ctl_devt = 0, ctl_active = False\<rparr>\<rparr>) else load_hcd g s)) \<and>
    cdevs s' = remove1 (ctl_devt (vh_control v)) (cdevs s) \<and>
    class_devices s' = remove1 (ctl_devt (vh_control v)) (class_devices s))"
  using v active
  by (cases "vh_control v")
     (simp add: virtusb_control_instance_destroy_def Let_def put_hcd_def load_hcd_def load_file_def load_pdev_def kback.defs
       modify_control_def modify_at_def store_hcd_def others_keep_def registrations_def load_hub_def load_back_def)

text \<open>A controller that is taken out of service, its sessions ended.\<close>

lemma ctl_ok_retired:
  assumes ok: "ctl_ok s" and v: "load_hcd h s' = Some v" "hcd_ok s' h v"
    and hcds: "\<And>g. g \<noteq> h \<Longrightarrow> load_hcd g s' = load_hcd g s" and files: "\<And>f. load_file f s' = load_file f s"
    and backs: "\<And>g. g \<noteq> h \<Longrightarrow> load_back g s' = load_back g s" and b: "load_back h s' = Some b" "bindings b = []"
    and hubs: "\<And>g. load_hub g s \<noteq> None \<Longrightarrow> load_hub g s' \<noteq> None"
  shows "ctl_ok s'"
  unfolding ctl_ok_def
proof (intro conjI allI impI)
  fix g w assume g: "load_hcd g s' = Some w"
  with ctl_okD(1) [OF ok, of g w] v hcds backs hubs [of g] show "hcd_ok s' g w" by (cases "g = h") (auto simp: hcd_ok_def)
next
  fix g c assume "load_back g s' = Some c"
  with ctl_okD(2) [OF ok, of g c] v hcds backs show "load_hcd g s' \<noteq> None" by (cases "g = h") auto
next
  fix f fl assume "load_file f s' = Some fl"
  then have fl: "load_file f s = Some fl" by (simp add: files)
  have "load_hcd c s' \<noteq> None" if "load_hcd c s \<noteq> None" for c using that v hcds [of c] by (cases "c = h") auto
  with ctl_okD(3) [OF ok fl] show "file_private fl = None \<or> (\<exists>c. file_opens c fl \<and> load_hcd c s' \<noteq> None)" by blast
next
  fix g c bd assume c: "load_back g s' = Some c" "bd \<in> set (bindings c)"
  with b have "g \<noteq> h" by auto
  with c backs ctl_okD(4) [OF ok] show "\<exists>fl. load_file (bind_owner bd) s' = Some fl \<and> file_opens g fl" by (simp add: files)
qed

lemma core_steps_stopped:
  assumes "core_steps h s s'" and "back_wf held pins s" and "load_back h s = Some b" "stopping b" "bindings b = []"
  shows "load_back h s' = Some b \<and> givebacks s' = givebacks s"
  using assms
proof (induction rule: rtranclp_induct)
  case (step t u)
  then have "back_wf held pins t" using core_steps_keep by blast
  from core_step_stopped [OF this step.hyps(2)] step show ?case by simp
qed simp

text \<open>The file is stale: its context names a controller that has been freed.\<close>

lemma stale_file_faults:
  assumes f: "load_file f s = Some fl" "file_opens h fl" and gone: "load_hcd h s = None"
  shows "virtusb_control_ioctl mem xa_mem waits f command argp s = None"
    and "virtusb_control_poll f s = None" and "virtusb_control_release f s = None"
  using f gone
  by (simp_all add: virtusb_control_ioctl_def virtusb_control_poll_def virtusb_control_release_def file_control_def
      control_gone_def file_opens_def)

lemma virtusb_hcd_platform_remove_ok:
  assumes wf: "control_wf held pins s" and pdev: "load_pdev p s = Some pdev" "pdev_drvdata pdev = Some h"
    and v: "load_hcd h s = Some v" "ctl_active (vh_control v)" and b: "load_back h s = Some b"
    and hub: "load_hub h s = Some hub" and core: "\<And>h s. core_steps h s (usb_remove_hcd h s)"
  shows "runs (virtusb_hcd_platform_remove usb_remove_hcd p s) (\<lambda>s'.
    load_hcd h s' = None \<and> load_back h s' = None \<and> load_hub h s' = None \<and>
    load_pdev p s' = Some (pdev\<lparr>pdev_drvdata := None\<rparr>) \<and> others_keep h p s s' \<and>
    cdevs s' = remove1 (ctl_devt (vh_control v)) (cdevs s) \<and>
    class_devices s' = remove1 (ctl_devt (vh_control v)) (class_devices s) \<and>
    (\<forall>f. load_file f s' = load_file f s) \<and>
    (\<exists>gs. givebacks s' = gs @ givebacks s \<and>
       map (\<lambda>(u, _, st). (u, st)) gs = rev (map (\<lambda>r. (req_urb r, - ESHUTDOWN)) (pending b @ active b))) \<and>
    (hub_idle hub \<and> (\<forall>f fl. load_file f s = Some fl \<longrightarrow> \<not> file_opens h fl) \<longrightarrow> control_wf held pins s'))"
proof -
  let ?v1 = "v\<lparr>vh_control := \<lparr>ctl_hcd = None, ctl_device = None, ctl_devt = 0, ctl_active = False\<rparr>\<rparr>"
  let ?hub = "hub\<lparr>hub_status_changed := None, hub_status_changed_context := None\<rparr>"
  let ?b = "\<lparr>bindings = [], pending = [], active = [], stopping = True\<rparr>"
  from virtusb_control_instance_destroy_ok [OF v] obtain s1 where
    destroy: "virtusb_control_instance_destroy (Some h) s = Some s1" and keep1: "\<forall>p. others_keep h p s s1" and s1: "kback.truncate s1 = kback.truncate s"
    "\<And>f. load_file f s1 = load_file f s" "\<And>q. load_pdev q s1 = load_pdev q s"
    "\<And>g. load_hcd g s1 = (if g = h then Some ?v1 else load_hcd g s)"
    "cdevs s1 = remove1 (ctl_devt (vh_control v)) (cdevs s)"
    "class_devices s1 = remove1 (ctl_devt (vh_control v)) (class_devices s)"
    unfolding runs_iff by blast
  have same1: "load_hub g s1 = load_hub g s" "load_back g s1 = load_back g s" "givebacks s1 = givebacks s" for g
    using s1(1) truncate_view [where s = s1, symmetric] truncate_view [where s = s, symmetric]
    by (simp_all only:) (cases s; cases s1; simp add: kback.defs)
  have wf1: "back_wf held pins s1" using back_wf_truncate [OF s1(1)] control_wfD(1) [OF wf] by simp
  let ?s2 = "put_hub h ?hub s1"
  have "load_hub h s1 = Some hub" by (simp add: same1 hub)
  from topo_wf_callback [OF back_wf_topo [OF wf1] this] have "topo_wf ?s2" by simp
  then have wf2: "back_wf held pins ?s2" by (rule back_wf_topology [OF wf1]) (simp_all add: put_hub_def)
  have more2: "ktrans.more ?s2 = ktrans.more s1" by (simp add: put_hub_def)
  have b2: "load_back h ?s2 = Some b" by (simp add: load_back_more [OF more2] same1 b)
  from virtusb_backend_stop_ok [OF wf2 b2] obtain s3 where
    stop: "virtusb_backend_stop (Some h) (Some h) ?s2 = Some s3" and wf3: "back_wf held pins s3" and
    s3: "load_back h s3 = Some ?b" "gave_back_all h (pending b @ active b) (- ESHUTDOWN) (wake_up_interruptible_all h ?s2) s3"
    unfolding runs_iff by blast
  have more3: "kback.more s3 = kback.more s1"
    using s3(2) by (simp add: gave_back_all_def back_fields_more(5) [OF more2])
  have same3: "load_hub g s3 = (if g = h then Some ?hub else load_hub g s)" "g \<noteq> h \<Longrightarrow> load_back g s3 = load_back g s" for g
    using s3(2) by (simp_all add: gave_back_all_def load_back_more [OF more2] same1)
  have "registrations s3 = registrations ?s2"
    using more3 by (cases s3; cases s1) (simp add: registrations_def put_hub_def)
  moreover have "registry s3 = registry s"
    using s3(2) keep1 by (simp add: gave_back_all_def others_keep_def put_hub_def)
  ultimately have keep3: "others_keep h p s s3"
    using keep1 same3 same1 by (simp add: others_keep_def khcd_fields [OF more3] kplat_more [OF more3])
      (simp add: registrations_def put_hub_def)
  from s3(2) obtain gs where gs: "givebacks s3 = gs @ givebacks s"
    "map (\<lambda>(u, _, st). (u, st)) gs = rev (map (\<lambda>r. (req_urb r, - ESHUTDOWN)) (pending b @ active b))"
    by (auto simp: gave_back_all_def back_fields_more(2) [OF more2] same1)
  let ?s4 = "usb_remove_hcd h s3"
  note steps = core [of h s3]
  from core_steps_keep [OF steps wf3] have wf4: "back_wf held pins ?s4" "core_keeps h s3 ?s4" by simp_all
  from core_steps_stopped [OF steps wf3 s3(1)] have s4: "load_back h ?s4 = Some ?b" "givebacks ?s4 = givebacks s3" by simp_all
  note more4 = core_keepsD(5) [OF wf4(2)]
  let ?s5 = "usb_put_hcd h (put_pdev p (pdev\<lparr>pdev_drvdata := None\<rparr>) ?s4)"
  have p4: "load_pdev p ?s4 = Some pdev" by (simp add: kplat_more [OF more4] kplat_more [OF more3] s1(3) pdev)
  have run: "virtusb_hcd_platform_remove usb_remove_hcd p s = Some ?s5"
    using pdev destroy stop p4 hub same1
    by (simp add: virtusb_hcd_platform_remove_def virtusb_hub_set_status_changed_callback_def Let_def)
  have "control_wf held pins ?s5" if idle: "hub_idle hub" and closed: "\<And>f fl. load_file f s = Some fl \<Longrightarrow> \<not> file_opens h fl"
  proof -
    have "ctl_ok s3"
    proof (rule ctl_ok_retired [OF control_wfD(2) [OF wf]])
      show "load_hcd h s3 = Some ?v1" by (simp add: khcd_fields [OF more3] s1(4))
      show "hcd_ok s3 h ?v1"
        using ctl_okD(1) [OF control_wfD(2) [OF wf] v(1)] s3(1) same3 by (simp add: hcd_ok_def)
    qed (use s3(1) same3 s1 in \<open>auto simp: khcd_fields [OF more3]\<close>)
    with wf3 have "control_wf held pins s3" by (simp add: control_wf_def)
    from control_wf_core [OF steps this] have wf4': "control_wf held pins ?s4" by simp
    show ?thesis
    proof (rule control_wf_usb_put_hcd)
      show "control_wf held pins (put_pdev p (pdev\<lparr>pdev_drvdata := None\<rparr>) ?s4)" using wf4' by simp
      show "hub_idle hub'" if "load_hub h (put_pdev p (pdev\<lparr>pdev_drvdata := None\<rparr>) ?s4) = Some hub'" for hub'
        using core_keepsD(2) [OF wf4(2)] that idle same3(1) [of h] by (fastforce simp: same_hub_def hub_idle_plugs plugs_def)
    qed (use s4 closed in \<open>auto simp: idle_backend_def khcd_fields [OF more4] khcd_fields [OF more3] s1(2)\<close>)
  qed
  with gs s4 others_keep_core [OF keep3 wf4(2)] show ?thesis
    by (auto simp: run kplat_more [OF more4] kplat_more [OF more3] khcd_fields [OF more4]
        khcd_fields [OF more3] s1)
qed

end
