(* ===== verification/Virtusb_Module_Props.thy ===== *)
theory Virtusb_Module_Props
  imports Virtusb_Module Virtusb_Platform_Props
begin

text \<open>
  Loading and unloading the module: what the list of controllers means, that the loop that destroys
  them ends and leaves nothing behind, and the outcome of init and exit.
\<close>

section \<open>The controllers of the module\<close>

text \<open>The platform device \<open>p\<close> is bound to the active controller \<open>h\<close> with the character device \<open>devt\<close>.\<close>

definition bound_hcd :: "'a kplat_scheme \<Rightarrow> nat \<times> nat \<times> u32 \<Rightarrow> bool" where
  "bound_hcd s = (\<lambda>(p, h, devt). \<exists>pdev v. load_pdev p s = Some pdev \<and> pdev_bound pdev \<and> pdev_drvdata pdev = Some h \<and>
     load_hcd h s = Some v \<and> ctl_active (vh_control v) \<and> ctl_devt (vh_control v) = devt)"

text \<open>
  The array holds the platform devices of the controllers \<open>cs\<close> in the order of their creation;
  there are no other controllers, and below the character devices of others, \<open>rest\<close>, lie theirs.
\<close>

definition controllers :: "u32 list \<Rightarrow> (nat \<times> nat \<times> u32) list \<Rightarrow> 'a kmod_scheme \<Rightarrow> bool" where
  "controllers rest cs s \<longleftrightarrow>
     (\<exists>ds. virtusb_hcd_devices s = Some ds \<and> length cs \<le> length ds \<and> (\<forall>i < length cs. ds ! i = Some (fst (cs ! i)))) \<and>
     unat (virtusb_hcd_created_count s) = length cs \<and>
     distinct (map fst cs) \<and> distinct (map (fst \<circ> snd) cs) \<and> (\<forall>c \<in> set cs. bound_hcd s c) \<and>
     (\<forall>h. load_hcd h s \<noteq> None \<or> load_hub h s \<noteq> None \<longrightarrow> h \<in> (fst \<circ> snd) ` set cs) \<and>
     (\<forall>p. load_pdev p s \<noteq> None \<longrightarrow> p \<in> fst ` set cs) \<and>
     cdevs s = rev (map (snd \<circ> snd) cs) @ rest \<and> class_devices s = rev (map (snd \<circ> snd) cs) @ rest"

text \<open>No file is open; no device is plugged in either.\<close>

definition no_open_file :: "'a khcd_scheme \<Rightarrow> bool" where
  "no_open_file s \<longleftrightarrow> (\<forall>f fl. load_file f s = Some fl \<longrightarrow> file_private fl = None)"

definition quiet :: "'a khcd_scheme \<Rightarrow> bool" where
  "quiet s \<longleftrightarrow> (\<forall>h hub. load_hub h s = Some hub \<longrightarrow> hub_idle hub) \<and> no_open_file s"

lemma quietD:
  "quiet s \<Longrightarrow> load_hub h s = Some hub \<Longrightarrow> hub_idle hub"
  "quiet s \<Longrightarrow> load_file f s = Some fl \<Longrightarrow> \<not> file_opens h fl"
  by (auto simp: quiet_def no_open_file_def file_opens_def)

section \<open>Destroying them\<close>

lemma kmod_views [simp]:
  "load_hcd h (s\<lparr>virtusb_hcd_created_count := n\<rparr>) = load_hcd h s" "load_hub h (s\<lparr>virtusb_hcd_created_count := n\<rparr>) = load_hub h s"
  "load_pdev p (s\<lparr>virtusb_hcd_created_count := n\<rparr>) = load_pdev p s" "load_file f (s\<lparr>virtusb_hcd_created_count := n\<rparr>) = load_file f s"
  "load_hcd h (s\<lparr>virtusb_hcd_devices := ds\<rparr>) = load_hcd h s" "load_hub h (s\<lparr>virtusb_hcd_devices := ds\<rparr>) = load_hub h s"
  "load_pdev p (s\<lparr>virtusb_hcd_devices := ds\<rparr>) = load_pdev p s" "load_file f (s\<lparr>virtusb_hcd_devices := ds\<rparr>) = load_file f s"
  "load_back h (s\<lparr>virtusb_hcd_created_count := n\<rparr>) = load_back h s" "load_back h (s\<lparr>virtusb_hcd_devices := ds\<rparr>) = load_back h s"
  "load_hub h (platform_device_put p s') = load_hub h s'" "load_hcd h (platform_device_put p s') = load_hcd h s'"
  "load_back h (platform_device_put p s') = load_back h s'" "load_file f (platform_device_put p s') = load_file f s'"
  "load_pdev q (platform_device_put p s') = (if q = p then None else load_pdev q s')"
  by (simp_all add: load_hcd_def load_hub_def load_pdev_def load_file_def load_back_def platform_device_put_def)

lemma control_wf_kmod [simp]:
  "control_wf held pins (s\<lparr>virtusb_hcd_created_count := n\<rparr>) = control_wf held pins s"
  "control_wf held pins (s\<lparr>virtusb_hcd_devices := ds\<rparr>) = control_wf held pins s"
  "control_wf held pins (platform_device_put p s') = control_wf held pins s'"
  "control_wf held pins (s'\<lparr>driver_registered := r\<rparr>) = control_wf held pins s'"
  by (rule control_wf_views; simp add: kback.defs load_hcd_def load_file_def platform_device_put_def)+

lemma others_keepD:
  assumes "others_keep h p s s'"
  shows "g \<noteq> h \<Longrightarrow> load_hcd g s' = load_hcd g s" "g \<noteq> h \<Longrightarrow> rel_option same_hub (load_hub g s) (load_hub g s')"
    "q \<noteq> p \<Longrightarrow> load_pdev q s' = load_pdev q s" "load_file f s' = load_file f s" "registrations s' = registrations s"
    "registry s' = registry s"
  using assms by (simp_all add: others_keep_def)

lemma bound_hcd_other:
  assumes "others_keep h p s s'" and "fst c \<noteq> p" and "fst (snd c) \<noteq> h"
  shows "bound_hcd s' c = bound_hcd s c"
proof -
  obtain q g d where c: "c = (q, g, d)" by (cases c)
  with assms have "load_pdev q s' = load_pdev q s" "load_hcd g s' = load_hcd g s" by (simp_all add: others_keep_def)
  then show ?thesis by (simp add: c bound_hcd_def)
qed

lemma quiet_others:
  assumes "quiet s" and keep: "others_keep h p s s'" and gone: "load_hub h s' = None"
  shows "quiet s'"
  unfolding quiet_def
proof (intro conjI allI impI)
  fix g hub' assume hub': "load_hub g s' = Some hub'"
  with gone have "g \<noteq> h" by auto
  with others_keepD(2) [OF keep] hub' obtain hub where "load_hub g s = Some hub" "same_hub hub hub'"
    by (metis option_rel_Some2)
  with quietD(1) [OF assms(1)] show "hub_idle hub'" by (simp add: same_hub_def hub_idle_plugs)
qed (use assms(1) others_keepD(4) [OF keep] in \<open>simp add: quiet_def no_open_file_def\<close>)

text \<open>What belongs to the module as a whole.\<close>

definition site where
  "site s = (virtusb_control_class s, virtusb_control_base_devt s, virtusb_control_instance_count s, chrdev_regions s,
     classes s, driver_registered s, registry s, hcd_count s, kmod.more s)"

lemma site_keep:
  assumes "others_keep h p s s'"
  shows "site s' = site s" "virtusb_hcd_devices s' = virtusb_hcd_devices s"
    "virtusb_hcd_created_count s' = virtusb_hcd_created_count s"
  using others_keepD(5,6) [OF assms] by (cases s; cases s'; simp add: registrations_def site_def)+

lemma site_writes [simp]:
  "site (s\<lparr>virtusb_hcd_created_count := n\<rparr>) = site s" "site (s\<lparr>virtusb_hcd_devices := ds\<rparr>) = site s"
  "site (platform_device_put p s) = site s"
  by (simp_all add: site_def platform_device_put_def)

definition unregistered :: "nat \<Rightarrow> nat \<Rightarrow> u32 \<Rightarrow> 'a kmod_scheme \<Rightarrow> 'a kmod_scheme \<Rightarrow> bool" where
  "unregistered p h devt s s' \<longleftrightarrow>
     load_hcd h s' = None \<and> load_hub h s' = None \<and>
     (\<forall>c. fst c \<noteq> p \<and> fst (snd c) \<noteq> h \<longrightarrow> bound_hcd s' c = bound_hcd s c) \<and>
     (\<forall>g. g \<noteq> h \<longrightarrow> (load_hcd g s' = None \<longleftrightarrow> load_hcd g s = None) \<and> (load_hub g s' = None \<longleftrightarrow> load_hub g s = None)) \<and>
     (\<forall>q. load_pdev q s' = (if q = p then None else load_pdev q s)) \<and>
     cdevs s' = remove1 devt (cdevs s) \<and> class_devices s' = remove1 devt (class_devices s) \<and>
     site s' = site s \<and> virtusb_hcd_devices s' = virtusb_hcd_devices s \<and>
     virtusb_hcd_created_count s' = virtusb_hcd_created_count s"

lemma platform_device_unregister_ok:
  assumes wf: "control_wf held pins s" and quiet: "quiet s" and bound: "bound_hcd s (p, h, devt)"
    and core: "\<And>h s. core_steps h s (usb_remove_hcd h s)"
  shows "runs (platform_device_unregister usb_remove_hcd p s) (\<lambda>s'.
    control_wf held pins s' \<and> quiet s' \<and> unregistered p h devt s s')"
proof -
  from bound obtain pdev v where pdev: "load_pdev p s = Some pdev" "pdev_bound pdev" "pdev_drvdata pdev = Some h"
    and v: "load_hcd h s = Some v" "ctl_active (vh_control v)" "ctl_devt (vh_control v) = devt"
    by (auto simp: bound_hcd_def)
  from ctl_okD(1) [OF control_wfD(2) [OF wf] v(1)] obtain hub b where hub: "load_hub h s = Some hub" and b: "load_back h s = Some b"
    by (auto simp: hcd_ok_def)
  from virtusb_hcd_platform_remove_ok [OF wf pdev(1,3) v(1,2) b hub core] obtain t where
    run: "virtusb_hcd_platform_remove usb_remove_hcd p s = Some t" and
    t: "load_hcd h t = None" "load_hub h t = None" "others_keep h p s t" "cdevs t = remove1 devt (cdevs s)"
      "class_devices t = remove1 devt (class_devices s)"
      "hub_idle hub \<and> (\<forall>f fl. load_file f s = Some fl \<longrightarrow> \<not> file_opens h fl) \<longrightarrow> control_wf held pins t"
    unfolding runs_iff v(3) by blast
  have wf': "control_wf held pins t" using t(6) quietD [OF quiet] hub by blast
  have q: "quiet (platform_device_put p t)" using quiet_others [OF quiet t(3,2)] by (simp add: quiet_def no_open_file_def)
  have other: "load_hcd g t = None \<longleftrightarrow> load_hcd g s = None" "load_hub g t = None \<longleftrightarrow> load_hub g s = None" if "g \<noteq> h" for g
    using others_keepD(1,2) [OF t(3) that] by (auto simp: rel_option_iff split: option.splits)
  have bnd: "bound_hcd (platform_device_put p t) c = bound_hcd s c" if "fst c \<noteq> p" "fst (snd c) \<noteq> h" for c
    using bound_hcd_other [OF t(3) that] that(1) by (cases c) (simp add: bound_hcd_def)
  show ?thesis
    using run pdev t wf' q other bnd site_keep [OF t(3)] others_keepD(3) [OF t(3)]
    by (simp add: platform_device_unregister_def unregistered_def) (simp add: platform_device_put_def)
qed

text \<open>
  The controllers of the list are destroyed one by one, from its head: each is in service until its
  round, in which its platform device is unregistered and its place in the array cleared, and before
  and after a round the controllers of the module are those that are still to come.
\<close>

fun destroyed_in_turn ::
  "(nat \<Rightarrow> 'a kmod_scheme \<Rightarrow> 'a kmod_scheme) \<Rightarrow> u32 list \<Rightarrow> (nat \<times> nat \<times> u32) list \<Rightarrow> 'a kmod_scheme \<Rightarrow> 'a kmod_scheme \<Rightarrow> bool" where
  "destroyed_in_turn usb_remove_hcd rest [] s s' \<longleftrightarrow> controllers rest [] s \<and> s' = s"
| "destroyed_in_turn usb_remove_hcd rest (c # cs) s s' \<longleftrightarrow>
     controllers rest (rev (c # cs)) s \<and>
     (\<exists>t. platform_device_unregister usb_remove_hcd (fst c)
            (s\<lparr>virtusb_hcd_created_count := virtusb_hcd_created_count s - 1\<rparr>) = Some t \<and>
        load_hcd (fst (snd c)) t = None \<and>
        destroyed_in_turn usb_remove_hcd rest cs
          (t\<lparr>virtusb_hcd_devices := map_option (\<lambda>ds. ds[length cs := None]) (virtusb_hcd_devices t)\<rparr>) s')"

text \<open>One round of the loop destroys the controller created last.\<close>

lemma controllers_nil:
  assumes "controllers rest [] s"
  shows "virtusb_module_destroy_hcds usb_remove_hcd s = Some s"
proof -
  from assms have "virtusb_hcd_created_count s = 0" by (simp add: controllers_def unat_eq_zero)
  then show ?thesis by (simp add: virtusb_module_destroy_hcds.simps [of _ s])
qed

lemma pred_count:
  assumes "unat (n::u32) = Suc k"
  shows "n > 0" "unat (n - 1) = k"
proof -
  from assms have "n \<noteq> 0" by auto
  with assms show "n > 0" "unat (n - 1) = k" by (simp_all add: word_neq_0_conv unat_minus_one)
qed

lemma destroy_round:
  assumes wf: "control_wf held pins s" and quiet: "quiet s" and ctrl: "controllers rest (cs @ [c]) s"
    and core: "\<And>h s. core_steps h s (usb_remove_hcd h s)"
  obtains s' where "virtusb_module_destroy_hcds usb_remove_hcd s = virtusb_module_destroy_hcds usb_remove_hcd s'"
    and "control_wf held pins s'" and "quiet s'" and "controllers rest cs s'" and "site s' = site s"
    and "\<And>u. destroyed_in_turn usb_remove_hcd rest (rev cs) s' u \<Longrightarrow>
      destroyed_in_turn usb_remove_hcd rest (rev (cs @ [c])) s u"
proof -
  obtain p h devt where c: "c = (p, h, devt)" by (cases c)
  from ctrl obtain ds where ds: "virtusb_hcd_devices s = Some ds" "length cs < length ds" "ds ! length cs = Some p"
    "\<And>i. i < length cs \<Longrightarrow> ds ! i = Some (fst (cs ! i))"
    by (fastforce simp: controllers_def c nth_append)
  from ctrl have ctrl': "unat (virtusb_hcd_created_count s) = length (cs @ [c])"
    "distinct (map fst (cs @ [c]))" "distinct (map (fst \<circ> snd) (cs @ [c]))" "\<forall>d \<in> set (cs @ [c]). bound_hcd s d"
    "\<forall>g. load_hcd g s \<noteq> None \<or> load_hub g s \<noteq> None \<longrightarrow> g \<in> (fst \<circ> snd) ` set (cs @ [c])"
    "\<forall>q. load_pdev q s \<noteq> None \<longrightarrow> q \<in> fst ` set (cs @ [c])"
    "cdevs s = rev (map (snd \<circ> snd) (cs @ [c])) @ rest" "class_devices s = rev (map (snd \<circ> snd) (cs @ [c])) @ rest"
    unfolding controllers_def by blast+
  then have count: "unat (virtusb_hcd_created_count s) = Suc (length cs)"
    and fresh: "p \<notin> fst ` set cs" "h \<notin> (fst \<circ> snd) ` set cs" "distinct (map fst cs)" "distinct (map (fst \<circ> snd) cs)"
    and bound: "bound_hcd s (p, h, devt)" "\<And>d. d \<in> set cs \<Longrightarrow> bound_hcd s d"
    and devs: "cdevs s = devt # rev (map (snd \<circ> snd) cs) @ rest" "class_devices s = devt # rev (map (snd \<circ> snd) cs) @ rest"
    by (simp_all add: c)
  from ctrl'(5) have all: "\<And>g. load_hcd g s \<noteq> None \<or> load_hub g s \<noteq> None \<Longrightarrow> g = h \<or> g \<in> (fst \<circ> snd) ` set cs"
    unfolding c by fastforce
  from ctrl'(6) have all_pdevs: "\<And>q. load_pdev q s \<noteq> None \<Longrightarrow> q = p \<or> q \<in> fst ` set cs"
    unfolding c by fastforce
  let ?n = "virtusb_hcd_created_count s - 1"
  let ?s1 = "s\<lparr>virtusb_hcd_created_count := ?n\<rparr>"
  have n: "virtusb_hcd_created_count s > 0" "unat ?n = length cs"
    using pred_count [OF count] by simp_all
  have "control_wf held pins ?s1" "quiet ?s1" "bound_hcd ?s1 (p, h, devt)"
    using wf quiet bound(1) by (simp_all add: quiet_def no_open_file_def bound_hcd_def)
  from platform_device_unregister_ok [OF this core] obtain t where
    run: "platform_device_unregister usb_remove_hcd p ?s1 = Some t" and
    wf': "control_wf held pins t" "quiet t" and un: "unregistered p h devt ?s1 t"
    unfolding runs_iff by blast
  from un have t: "load_hcd h t = None" "load_hub h t = None" "site t = site s"
    "virtusb_hcd_devices t = Some ds" "virtusb_hcd_created_count t = ?n"
    "cdevs t = rev (map (snd \<circ> snd) cs) @ rest" "class_devices t = rev (map (snd \<circ> snd) cs) @ rest"
    "\<And>q. load_pdev q t = (if q = p then None else load_pdev q s)"
    by (simp_all add: unregistered_def devs ds(1))
  from un have other: "\<And>c. fst c \<noteq> p \<Longrightarrow> fst (snd c) \<noteq> h \<Longrightarrow> bound_hcd t c = bound_hcd ?s1 c"
    "\<And>g. g \<noteq> h \<Longrightarrow> load_hcd g t = None \<longleftrightarrow> load_hcd g s = None" "\<And>g. g \<noteq> h \<Longrightarrow> load_hub g t = None \<longleftrightarrow> load_hub g s = None"
    unfolding unregistered_def kmod_views by blast+
  let ?s' = "t\<lparr>virtusb_hcd_devices := Some (ds[length cs := None])\<rparr>"
  have "virtusb_module_destroy_hcds usb_remove_hcd s = virtusb_module_destroy_hcds usb_remove_hcd ?s'"
    using n ds run t(4,5)
    by (simp add: virtusb_module_destroy_hcds.simps [of _ s] virtusb_hcd_destroy_def set_hcd_device_def nth_opt_Some)
  moreover have "bound_hcd ?s' d" if d: "d \<in> set cs" for d
  proof -
    have "fst d \<noteq> p" "fst (snd d) \<noteq> h" using fresh(1,2) d by auto
    with other(1) [of d] bound(2) [OF d] show ?thesis by (cases d) (simp add: bound_hcd_def)
  qed
  moreover have "g \<in> (fst \<circ> snd) ` set cs" if g: "load_hcd g ?s' \<noteq> None \<or> load_hub g ?s' \<noteq> None" for g
  proof -
    have "g \<noteq> h" using g t(1,2) by auto
    with all [of g] other(2,3) [of g] g show ?thesis by auto
  qed
  moreover have "q \<in> fst ` set cs" if "load_pdev q ?s' \<noteq> None" for q
    using that all_pdevs [of q] t(8) [of q] by (cases "q = p") simp_all
  moreover have "\<exists>ds'. virtusb_hcd_devices ?s' = Some ds' \<and> length cs \<le> length ds' \<and> (\<forall>i < length cs. ds' ! i = Some (fst (cs ! i)))"
    using ds by simp
  ultimately have "controllers rest cs ?s'"
    using t(1-7) n(2) fresh(3,4) by (simp add: controllers_def)
  moreover have "destroyed_in_turn usb_remove_hcd rest (rev (cs @ [c])) s u"
    if "destroyed_in_turn usb_remove_hcd rest (rev cs) ?s' u" for u
    using ctrl run that t(1,4) by (simp add: c)
  ultimately show thesis
    using that [of ?s'] \<open>virtusb_module_destroy_hcds usb_remove_hcd s = _\<close> wf' t(3) by (simp add: quiet_def no_open_file_def)
qed

lemma virtusb_module_destroy_hcds_ok:
  assumes "control_wf held pins s" and "quiet s" and "controllers rest cs s"
    and core: "\<And>h s. core_steps h s (usb_remove_hcd h s)"
  shows "runs (virtusb_module_destroy_hcds usb_remove_hcd s) (\<lambda>s'.
    control_wf held pins s' \<and> quiet s' \<and> controllers rest [] s' \<and> site s' = site s \<and>
    destroyed_in_turn usb_remove_hcd rest (rev cs) s s')"
  using assms(1-3)
proof (induction cs arbitrary: s rule: rev_induct)
  case Nil
  with controllers_nil [OF this(3)] show ?case by simp
next
  case (snoc c cs)
  from destroy_round [OF snoc.prems core] obtain s' where
    "virtusb_module_destroy_hcds usb_remove_hcd s = virtusb_module_destroy_hcds usb_remove_hcd s'"
    "control_wf held pins s'" "quiet s'" "controllers rest cs s'" "site s' = site s"
    "\<And>u. destroyed_in_turn usb_remove_hcd rest (rev cs) s' u \<Longrightarrow>
      destroyed_in_turn usb_remove_hcd rest (rev (cs @ [c])) s u" by blast
  with snoc.IH [of s'] show ?case by (auto simp: runs_iff)
qed

section \<open>Unloading\<close>

text \<open>What is left when nothing is registered, no file is open and nothing runs: nothing.\<close>

definition deserted :: "'a khcd_scheme \<Rightarrow> bool" where
  "deserted s \<longleftrightarrow> (\<forall>d. load_obj d s = None) \<and> (\<forall>t. load_trans t s = None) \<and> (\<forall>u. \<not> linked s u)"

lemma no_session:
  assumes wf: "control_wf held pins s" and closed: "no_open_file s"
  shows "load_back h s = Some b \<Longrightarrow> idle_backend b"
proof -
  assume b: "load_back h s = Some b"
  have "bindings b = []"
  proof (cases "bindings b")
    case (Cons bd bs)
    then have "bd \<in> set (bindings b)" by simp
    from ctl_okD(4) [OF control_wfD(2) [OF wf] b this] closed show ?thesis by (fastforce simp: no_open_file_def file_opens_def)
  qed
  with backend_empty [OF back_structD(2) [OF back_wfD(2) [OF control_wfD(1) [OF wf]] b]]
  show "idle_backend b" by (simp add: idle_backend_def)
qed

lemma no_transfers:
  assumes wf: "control_wf (\<lambda>_. 0) (\<lambda>_. 0) s" and closed: "no_open_file s"
  shows "load_trans t s = None" and "\<not> linked s u" and "dev_wf (\<lambda>_. 0) s"
proof -
  note bwf = control_wfD(1) [OF wf]
  have "request_keys b = {}" "bindings b = []" if "load_back h s = Some b" for h b
    using no_session [OF wf closed that] by (simp_all add: idle_backend_def request_keys_def)
  then have none: "requests s = {}" "sessions d s = {}" for d by (auto simp: requests_def sessions_def)
  then show "\<not> linked s u" using back_structD(5) [OF back_wfD(2) [OF bwf], of u] by simp
  have pins: "queued s = {}" using none(1) by (simp add: queued_def)
  show "load_trans t s = None" for t
    using trans_wfD(4) [OF back_wfD(1) [OF bwf], of t] pins by (cases "load_trans t s") auto
  then have "users d s = {}" for d by (simp add: users_def)
  with back_wf_dev [OF bwf] none(2) show "dev_wf (\<lambda>_. 0) s" by simp
qed

lemma unreferenced:
  assumes "dev_wf (\<lambda>_. 0) s" and "xa_empty (registry s)"
  shows "load_obj d s = None"
proof (rule ccontr)
  assume "load_obj d s \<noteq> None"
  then obtain ob where ob: "load_obj d s = Some ob" by blast
  with obj_wfD(1) [OF dev_wfD(2) [OF assms(1)]] have "obj_registered ob" by (fastforce simp: obj_ok_def split: if_splits)
  with ob obj_wfD(4) [OF dev_wfD(2) [OF assms(1)]] assms(2) show False by (auto simp: xa.is_empty_load)
qed

lemma shutdown_quiet:
  assumes wf: "control_wf (\<lambda>_. 0) (\<lambda>_. 0) s" and closed: "no_open_file s"
  shows "runs (virtusb_device_shutdown_all s) (\<lambda>s'. control_wf (\<lambda>_. 0) (\<lambda>_. 0) s' \<and> quiet s' \<and>
    xa_empty (registry s') \<and> kobj.more s' = kobj.more s \<and> (\<forall>h. load_hub h s' = None \<longleftrightarrow> load_hub h s = None))"
proof -
  note none = no_transfers [OF wf closed]
  from virtusb_device_shutdown_all_ok [OF none(3)] obtain s' where
    run: "virtusb_device_shutdown_all s = Some s'" and
    s': "dev_wf (\<lambda>_. 0) s'" "xa_empty (registry s')" "next_addr s' = next_addr s" "kobj.more s' = kobj.more s"
      "\<forall>h. load_hub h s' = None \<longleftrightarrow> load_hub h s = None"
    unfolding runs_iff by blast
  have no_use: "sessions d s = {}" "users d s = {}" for d
    using no_session [OF wf closed] none(1) by (fastforce simp: sessions_def users_def idle_backend_def)+
  note more = ktrans_more [OF s'(4)]
  have bwf: "back_wf (\<lambda>_. 0) (\<lambda>_. 0) s'"
    by (rule back_wf_kobj [OF control_wfD(1) [OF wf]]) (use s' no_use in simp_all)
  have "kback.more s' = kback.more s" by (rule back_fields_more [OF more])
  note files = khcd_fields [OF this]
  have "control_wf (\<lambda>_. 0) (\<lambda>_. 0) s'"
    by (rule control_wf_frame [OF wf bwf back_fields_more(5) [OF more]]) (use s'(5) in \<open>auto simp: load_back_more [OF more]\<close>)
  moreover have "quiet s'"
    using nothing_attached(2) [OF s'(1,2)] closed by (simp add: quiet_def no_open_file_def files)
  ultimately show ?thesis using run s' by simp
qed

text \<open>
  The module with the controllers \<open>cs\<close>: its class and its region of device numbers come before those
  of others. Unloaded, it has nothing at all.
\<close>

definition module_in :: "u32 list \<Rightarrow> nat list \<Rightarrow> (u32 \<times> u32) list \<Rightarrow> (nat \<times> nat \<times> u32) list \<Rightarrow> 'a kmod_scheme \<Rightarrow> bool" where
  "module_in rest clss regs cs s \<longleftrightarrow>
     control_wf (\<lambda>_. 0) (\<lambda>_. 0) s \<and> controllers rest cs s \<and>
     (\<exists>cl. virtusb_control_class s = Some cl \<and> classes s = cl # clss) \<and>
     chrdev_regions s = (virtusb_control_base_devt s, virtusb_control_instance_count s) # regs"

definition module_out :: "u32 list \<Rightarrow> nat list \<Rightarrow> (u32 \<times> u32) list \<Rightarrow> 'a kmod_scheme \<Rightarrow> bool" where
  "module_out rest clss regs s \<longleftrightarrow>
     control_wf (\<lambda>_. 0) (\<lambda>_. 0) s \<and> no_open_file s \<and> deserted s \<and> xa_empty (registry s) \<and>
     (\<forall>h. load_hcd h s = None \<and> load_back h s = None \<and> load_hub h s = None) \<and> (\<forall>p. load_pdev p s = None) \<and>
     virtusb_hcd_devices s = None \<and> virtusb_hcd_created_count s = 0 \<and> \<not> driver_registered s \<and>
     virtusb_control_class s = None \<and> virtusb_control_base_devt s = 0 \<and> virtusb_control_instance_count s = 0 \<and>
     cdevs s = rest \<and> class_devices s = rest \<and> classes s = clss \<and> chrdev_regions s = regs"

text \<open>Without objects the numbering and the registry may start again.\<close>

lemma control_wf_restart:
  assumes wf: "control_wf (\<lambda>_. 0) (\<lambda>_. 0) s" and none: "deserted s"
    and new: "xa_empty x" "0 < n" "unat n \<le> 2 ^ 32"
  shows "control_wf (\<lambda>_. 0) (\<lambda>_. 0) (s\<lparr>registry := x, next_object_id := n\<rparr>)"
proof -
  let ?s = "s\<lparr>registry := x, next_object_id := n\<rparr>"
  have same: "load_hub h ?s = load_hub h s" "load_port a ?s = load_port a s" for h a
    by (simp add: load_hub_def) (cases a; simp add: load_port.simps load_hub_def)
  note bwf = control_wfD(1) [OF wf] and more = ktrans_more [of ?s s]
  have none': "load_obj d ?s = None" for d using none by (simp add: deserted_def load_obj_def)
  have "sessions d s = {} \<and> users d s = {}" for d
  proof -
    from obj_wfD(2) [OF dev_wfD(2) [OF back_wf_dev [OF bwf]], of d] none
    have "card (sessions d s) = 0" "card (users d s) = 0" by (simp_all add: deserted_def)
    moreover have "finite (sessions d s)"
      by (rule finite_subset [OF _ back_structD(1) [OF back_wfD(2) [OF bwf]]]) (auto simp: sessions_def)
    moreover have "users d s = {}" using none by (simp add: users_def deserted_def)
    ultimately show ?thesis by simp
  qed
  then have "dev_wf (refs (\<lambda>_. 0) s) ?s"
    using back_wf_topo [OF bwf] new none' dev_wfD(3-4) [OF back_wf_dev [OF bwf]] none
    unfolding dev_wf_def obj_wf_def topo_wf_cong [of ?s s, OF same(2,1)]
    by (simp add: same deserted_def xa.is_empty_load)
  then have "back_wf (\<lambda>_. 0) (\<lambda>_. 0) ?s" by (rule back_wf_kobj [OF bwf]) simp_all
  then show ?thesis
    by (rule control_wf_frame [OF wf]) (simp_all add: same load_back_more [OF more] option.rel_refl back_fields_more(5) [OF more])
qed

lemma module_out_exit:
  assumes wf: "control_wf (\<lambda>_. 0) (\<lambda>_. 0) s" and quiet: "no_open_file s" and ctrl: "controllers rest [] s"
    and empty: "xa_empty (registry s)" and cl: "virtusb_control_class s = Some cl" "classes s = cl # clss"
    and reg: "chrdev_regions s = (virtusb_control_base_devt s, virtusb_control_instance_count s) # regs"
  shows "module_out rest clss regs
    (virtusb_object_manager_exit ((virtusb_control_unregister (virtusb_hcd_driver_unregister s))\<lparr>virtusb_hcd_devices := None\<rparr>))"
proof -
  note none = no_transfers [OF wf quiet]
  have des: "deserted s" using none(1,2) unreferenced [OF none(3) empty] by (simp add: deserted_def)
  let ?s = "s\<lparr>registry := xa_none, next_object_id := next_object_id s\<rparr>"
  let ?t = "virtusb_object_manager_exit ((virtusb_control_unregister (virtusb_hcd_driver_unregister s))\<lparr>virtusb_hcd_devices := None\<rparr>)"
  have wf': "control_wf (\<lambda>_. 0) (\<lambda>_. 0) ?s"
    using dev_wfD(2) [OF none(3)] by (intro control_wf_restart [OF wf des]) (simp_all add: obj_wf_def xa.is_empty_load xa.load_empty)
  have "control_wf (\<lambda>_. 0) (\<lambda>_. 0) ?t = control_wf (\<lambda>_. 0) (\<lambda>_. 0) ?s"
    using empty cl by (intro control_wf_views) (simp_all add: virtusb_object_manager_exit_def virtusb_control_unregister_def
        virtusb_hcd_driver_unregister_def unregister_chrdev_region_def WARN_ON_def kback.defs load_hcd_def load_file_def)
  moreover have "load_hcd h s = None" "load_hub h s = None" "load_pdev p s = None" for h p
    using ctrl by (simp_all add: controllers_def)
  moreover from this have "load_back h s = None" for h
    using ctl_okD(2) [OF control_wfD(2) [OF wf], of h] by (cases "load_back h s") auto
  moreover have "virtusb_hcd_created_count s = 0" "cdevs s = rest" "class_devices s = rest"
    using ctrl by (simp_all add: controllers_def unat_eq_zero)
  ultimately show ?thesis
    using wf' empty cl reg des quiet
    by (simp add: module_out_def deserted_def no_open_file_def virtusb_object_manager_exit_def virtusb_control_unregister_def
        virtusb_hcd_driver_unregister_def unregister_chrdev_region_def WARN_ON_def load_hcd_def load_file_def load_back_def
        load_hub_def load_obj_def load_trans_def load_pdev_def xa.is_empty_load xa.load_empty)
qed

lemma controllers_more:
  assumes "kobj.more s' = kobj.more s" and "\<And>h. load_hub h s' = None \<longleftrightarrow> load_hub h s = None"
  shows "controllers rest cs s' = controllers rest cs s"
proof -
  have more: "kback.more s' = kback.more s" by (rule back_fields_more [OF ktrans_more [OF assms(1)]])
  then have "virtusb_hcd_devices s' = virtusb_hcd_devices s" "virtusb_hcd_created_count s' = virtusb_hcd_created_count s"
    by (cases s; cases s'; simp)+
  moreover have "bound_hcd s' c = bound_hcd s c" for c
    by (simp add: bound_hcd_def khcd_fields [OF more] kplat_more [OF more])
  ultimately show ?thesis
    by (simp add: controllers_def assms(2) khcd_fields [OF more] kplat_more [OF more])
qed

lemma virtusb_module_exit_ok:
  assumes s: "module_in rest clss regs cs s" and quiet: "no_open_file s"
    and core: "\<And>h s. core_steps h s (usb_remove_hcd h s)"
  shows "\<exists>s1 s2 s'. virtusb_device_shutdown_all s = Some s1 \<and> xa_empty (registry s1) \<and> quiet s1 \<and>
    virtusb_module_destroy_hcds usb_remove_hcd s1 = Some s2 \<and> destroyed_in_turn usb_remove_hcd rest (rev cs) s1 s2 \<and>
    virtusb_module_exit usb_remove_hcd s = Some s' \<and> module_out rest clss regs s'"
proof -
  from s obtain cl where wf: "control_wf (\<lambda>_. 0) (\<lambda>_. 0) s" and ctrl: "controllers rest cs s"
    and cl: "virtusb_control_class s = Some cl" "classes s = cl # clss"
      "chrdev_regions s = (virtusb_control_base_devt s, virtusb_control_instance_count s) # regs"
    by (auto simp: module_in_def)
  from shutdown_quiet [OF wf quiet] obtain s1 where s1: "virtusb_device_shutdown_all s = Some s1"
    "control_wf (\<lambda>_. 0) (\<lambda>_. 0) s1" "quiet s1" "xa_empty (registry s1)" "kobj.more s1 = kobj.more s"
    "\<And>h. load_hub h s1 = None \<longleftrightarrow> load_hub h s = None"
    unfolding runs_iff by blast
  have "controllers rest cs s1" using ctrl controllers_more [OF s1(5,6)] by simp
  from virtusb_module_destroy_hcds_ok [OF s1(2,3) this core] obtain s2 where
    s2: "virtusb_module_destroy_hcds usb_remove_hcd s1 = Some s2" "control_wf (\<lambda>_. 0) (\<lambda>_. 0) s2" "quiet s2"
      "controllers rest [] s2" "site s2 = site s1" "destroyed_in_turn usb_remove_hcd rest (rev cs) s1 s2"
    unfolding runs_iff by blast
  have "site s1 = (virtusb_control_class s, virtusb_control_base_devt s, virtusb_control_instance_count s, chrdev_regions s,
      classes s, driver_registered s, registry s1, hcd_count s, kmod.more s)"
    using s1(5) by (cases s; cases s1) (simp add: site_def)
  with s2(5) cl s1(4) have "xa_empty (registry s2)" "virtusb_control_class s2 = Some cl" "classes s2 = cl # clss"
    "chrdev_regions s2 = (virtusb_control_base_devt s2, virtusb_control_instance_count s2) # regs"
    by (auto simp: site_def)
  from module_out_exit [OF s2(2) _ s2(4) this] s2(3,6) s1(3,4) show ?thesis
    by (simp add: virtusb_module_exit_def s1(1) s2(1) quiet_def Let_def)
qed

section \<open>Loading\<close>

text \<open>What the creation of one controller leaves alone.\<close>

definition only_new :: "nat option \<Rightarrow> nat option \<Rightarrow> 'a kplat_scheme \<Rightarrow> 'a kplat_scheme \<Rightarrow> bool" where
  "only_new oh op s s' \<longleftrightarrow>
     (\<forall>g. oh \<noteq> Some g \<longrightarrow> load_hcd g s' = load_hcd g s \<and> rel_option same_hub (load_hub g s) (load_hub g s')) \<and>
     (\<forall>q. op \<noteq> Some q \<longrightarrow> load_pdev q s' = load_pdev q s) \<and> (\<forall>f. load_file f s' = load_file f s) \<and>
     registry s' = registry s \<and> registrations s' = registrations s"

lemma only_new_others:
  "(case oh of None \<Rightarrow> s' = s | Some h \<Rightarrow> others_keep h p s s') \<Longrightarrow> only_new oh (Some p) s s'"
  by (cases oh) (simp_all add: only_new_def others_keep_def)

lemma only_new_refl [simp]: "only_new oh op s s"
  by (simp add: only_new_def)

lemma only_new_pdev [simp]:
  "only_new oh (Some p) s (put_pdev p d t) \<longleftrightarrow> only_new oh (Some p) s t"
  "only_new oh (Some p) s (platform_device_put p t) \<longleftrightarrow> only_new oh (Some p) s t"
  "only_new oh (Some p) (put_pdev p d s) t \<longleftrightarrow> only_new oh (Some p) s t"
  by (auto simp: only_new_def registrations_def put_pdev_def platform_device_put_def load_hcd_def load_hub_def
      load_pdev_def load_file_def split: if_splits)

definition create_error :: "int \<Rightarrow> 's hcd_answers \<Rightarrow> u32 \<Rightarrow> u32 \<Rightarrow> 'a kplat_scheme \<Rightarrow> int" where
  "create_error add_ret ans inst n s =
     (if n = 0 \<or> n > VIRTUSB_MAX_HUB_PORTS then - EINVAL
      else if ans_pdev ans = None then - ENOMEM
      else if ans_add_data ans < 0 then ans_add_data ans
      else if ans_device_add ans < 0 then ans_device_add ans
      else if \<not> driver_registered s \<or>
        probe_error add_ret ans \<lparr>pdev_id = inst, pdev_port_count = Some n, pdev_drvdata = None, pdev_bound = False\<rparr> s < 0
      then - ENODEV
      else 0)"

definition hcd_created ::
  "int \<Rightarrow> 's hcd_answers \<Rightarrow> u32 \<Rightarrow> u32 \<Rightarrow> 'a kplat_scheme \<Rightarrow> int + nat \<Rightarrow> 'a kplat_scheme \<Rightarrow> bool" where
  "hcd_created add_ret ans inst n s r s' \<longleftrightarrow>
     only_new (ans_hcd ans) (ans_pdev ans) s s' \<and>
     (case r of
        Inl e \<Rightarrow> e = create_error add_ret ans inst n s \<and> e < 0 \<and> cdevs s' = cdevs s \<and> class_devices s' = class_devices s \<and>
          (\<forall>h. ans_hcd ans = Some h \<longrightarrow> load_hcd h s' = None \<and> load_hub h s' = None) \<and>
          (\<forall>p. ans_pdev ans = Some p \<longrightarrow> load_pdev p s' = None)
      | Inr p \<Rightarrow> create_error add_ret ans inst n s = 0 \<and> ans_pdev ans = Some p \<and>
          (\<exists>h. ans_hcd ans = Some h \<and> (let devt = instance_devt inst s in
             bound_hcd s' (p, h, devt) \<and> in_service h inst devt n s' \<and>
             cdevs s' = devt # cdevs s \<and> class_devices s' = devt # class_devices s)))"

lemma put_pdev_fields:
  "instance_devt i (put_pdev p d s) = instance_devt i s" "instance_error i c a (put_pdev p d s) = instance_error i c a s"
  "driver_registered (put_pdev p d s) = driver_registered s" "probe_error r ans pdev (put_pdev p d s) = probe_error r ans pdev s"
  "put_pdev p d' (put_pdev p d s) = put_pdev p d' s" "platform_device_put p (put_pdev p d s) = platform_device_put p s"
  by (auto simp: instance_devt_def instance_error_def put_pdev_def probe_error_def platform_device_put_def fun_eq_iff
      split: option.split sum.split)

lemma platform_device_put_sel [simp]:
  "cdevs (platform_device_put p s) = cdevs s" "class_devices (platform_device_put p s) = class_devices s"
  by (simp_all add: platform_device_put_def)

lemma in_service_put_pdev: "in_service h inst devt n (put_pdev p d s) = in_service h inst devt n s"
  by (simp add: in_service_def)

lemma virtusb_hcd_create_ok:
  fixes s :: "'a kmod_scheme"
  assumes wf: "control_wf held pins s" and core: "core_behaves add_ret ans usb_remove_hcd"
    and p_free: "\<And>p. ans_pdev ans = Some p \<Longrightarrow> load_pdev p s = None"
    and h_free: "\<And>h. ans_hcd ans = Some h \<Longrightarrow> load_hcd h s = None \<and> load_hub h s = None"
  shows "runs (virtusb_hcd_create usb_remove_hcd ans inst n s) (\<lambda>(r, s'). 
    control_wf held pins s' \<and> hcd_created add_ret ans inst n s r s')"
proof -
  let ?pd = "\<lparr>pdev_id = inst, pdev_port_count = Some n, pdev_drvdata = None, pdev_bound = False\<rparr>"
  consider (early) "n = 0 \<or> n > VIRTUSB_MAX_HUB_PORTS \<or> ans_pdev ans = None"
    | p where "n \<noteq> 0" "\<not> n > VIRTUSB_MAX_HUB_PORTS" "ans_pdev ans = Some p"
    by (cases "ans_pdev ans") auto
  then show ?thesis
  proof cases
    case early
    with wf p_free h_free show ?thesis
      by (auto simp: virtusb_hcd_create_def platform_device_alloc_def hcd_created_def create_error_def split: option.split)
  next
    case (2 p)
    let ?s1 = "put_pdev p ?pd s"
    have put: "platform_device_put p s = s"
      using p_free [OF 2(3)] by (cases s) (auto simp: platform_device_put_def load_pdev_def fun_eq_iff)
    have start: "virtusb_hcd_create usb_remove_hcd ans inst n s =
      (if ans_add_data ans < 0 then Some (Inl (ans_add_data ans), s)
       else do {
         (ret, s) \<leftarrow> platform_device_add usb_remove_hcd ans p ?s1;
         if ret < 0 then Some (Inl ret, platform_device_put p s)
         else do {
           pdev \<leftarrow> load_pdev p s;
           (case pdev_drvdata pdev of
              None \<Rightarrow> do {
                s \<leftarrow> platform_device_unregister usb_remove_hcd p s;
                Some (Inl (- ENODEV), s)
              }
            | Some _ \<Rightarrow> Some (Inr p, s))
         }
       })"
      using 2 by (simp add: virtusb_hcd_create_def platform_device_alloc_def platform_device_add_data_def put put_pdev_fields)
    consider (fail) "ans_add_data ans < 0 \<or> ans_device_add ans < 0 \<or> \<not> driver_registered s"
      | (probe) "\<not> ans_add_data ans < 0" "\<not> ans_device_add ans < 0" "driver_registered s" by blast
    then show ?thesis
    proof cases
      case fail
      with wf p_free h_free 2 show ?thesis
        unfolding start
        by (auto simp: platform_device_add_def platform_device_unregister_def put put_pdev_fields hcd_created_def create_error_def)
    next
      case probe
      have wf1: "control_wf held pins ?s1" using wf by simp
      have "load_pdev p ?s1 = Some ?pd" "pdev_drvdata ?pd = None" by simp_all
      from virtusb_hcd_platform_probe_ok [OF wf1 this _ core] h_free obtain ret t where
        run: "virtusb_hcd_platform_probe usb_remove_hcd ans p ?s1 = Some (ret, t)" and
        t: "ret = probe_error add_ret ans ?pd ?s1" "control_wf held pins t"
          "case ans_hcd ans of None \<Rightarrow> t = ?s1 | Some h \<Rightarrow> others_keep h p ?s1 t" and
        res: "if ret < 0
          then load_pdev p t = Some ?pd \<and> cdevs t = cdevs ?s1 \<and> class_devices t = class_devices ?s1 \<and>
            (\<forall>h. ans_hcd ans = Some h \<longrightarrow> load_hcd h t = None \<and> load_back h t = None \<and> load_hub h t = None)
          else ret = 0 \<and> (\<exists>h m. ans_hcd ans = Some h \<and> pdev_port_count ?pd = Some m \<and>
            load_pdev p t = Some (?pd\<lparr>pdev_drvdata := Some h\<rparr>) \<and>
            (let devt = instance_devt (pdev_id ?pd) ?s1 in
               in_service h (pdev_id ?pd) devt m t \<and> cdevs t = devt # cdevs ?s1 \<and> class_devices t = devt # class_devices ?s1))"
        unfolding runs_iff split_paired_Ex split_conv by (metis (no_types, lifting) put_pdev_sel(1,3))
      from only_new_others [OF t(3)] have only: "only_new (ans_hcd ans) (Some p) s t" by simp
      have err: "create_error add_ret ans inst n s = (if ret < 0 then - ENODEV else 0)"
        using 2 probe t(1) by (simp add: create_error_def put_pdev_fields)
      show ?thesis
      proof (cases "ret < 0")
        case True
        with res have "load_pdev p t = Some ?pd" by simp
        with True run probe 2 t(2) only res err show ?thesis
          unfolding start
          by (simp add: platform_device_add_def put_pdev_fields platform_device_unregister_def hcd_created_def)
      next
        case False
        with res obtain h where h: "ans_hcd ans = Some h" "load_pdev p t = Some (?pd\<lparr>pdev_drvdata := Some h\<rparr>)"
          "in_service h inst (instance_devt inst s) n t" "cdevs t = instance_devt inst s # cdevs s"
          "class_devices t = instance_devt inst s # class_devices s"
          by (auto simp: put_pdev_fields Let_def)
        from h(3) have "bound_hcd (put_pdev p (?pd\<lparr>pdev_drvdata := Some h, pdev_bound := True\<rparr>) t) (p, h, instance_devt inst s)"
          by (auto simp: bound_hcd_def in_service_def)
        with False run probe 2 t(2) only err h show ?thesis
          unfolding start
          by (simp add: platform_device_add_def put_pdev_fields hcd_created_def in_service_put_pdev Let_def)
      qed
    qed
  qed
qed

lemma only_newD:
  assumes "only_new oh op s s'"
  shows "oh \<noteq> Some g \<Longrightarrow> load_hcd g s' = load_hcd g s" "oh \<noteq> Some g \<Longrightarrow> rel_option same_hub (load_hub g s) (load_hub g s')"
    "op \<noteq> Some q \<Longrightarrow> load_pdev q s' = load_pdev q s" "load_file f s' = load_file f s" "registrations s' = registrations s"
    "registry s' = registry s"
  using assms by (simp_all add: only_new_def)

lemma site_new:
  assumes "only_new oh op s s'"
  shows "site s' = site s" "virtusb_hcd_devices s' = virtusb_hcd_devices s"
    "virtusb_hcd_created_count s' = virtusb_hcd_created_count s" "driver_registered s' = driver_registered s"
    "instance_devt i s' = instance_devt i s"
  using only_newD(5,6) [OF assms] by (cases s; cases s'; simp add: registrations_def site_def instance_devt_def)+

lemma quiet_new:
  assumes quiet: "quiet s" and new: "only_new oh op s s'" and hub: "\<And>h hub. oh = Some h \<Longrightarrow> load_hub h s' = Some hub \<Longrightarrow> hub_idle hub"
  shows "quiet s'"
  unfolding quiet_def
proof (intro conjI allI impI)
  fix g hub' assume hub': "load_hub g s' = Some hub'"
  show "hub_idle hub'"
  proof (cases "oh = Some g")
    case False
    with only_newD(2) [OF new False] hub' obtain hub where "load_hub g s = Some hub" "same_hub hub hub'"
      by (metis option_rel_Some2)
    with quietD(1) [OF quiet] show ?thesis by (simp add: same_hub_def hub_idle_plugs)
  qed (use hub hub' in blast)
qed (use quiet only_newD(4) [OF new] in \<open>simp add: quiet_def no_open_file_def\<close>)

text \<open>Linux hands out addresses that are not in use.\<close>

definition fresh_answers :: "(nat \<Rightarrow> 's hcd_answers) \<Rightarrow> bool" where
  "fresh_answers ans \<longleftrightarrow>
     (\<forall>i j p. ans_pdev (ans i) = Some p \<longrightarrow> ans_pdev (ans j) = Some p \<longrightarrow> i = j) \<and>
     (\<forall>i j h. ans_hcd (ans i) = Some h \<longrightarrow> ans_hcd (ans j) = Some h \<longrightarrow> i = j)"

text \<open>Where the loop stands after the creation of the controllers \<open>cs\<close>.\<close>

definition creating :: "(nat \<Rightarrow> ('a kmod_scheme) hcd_answers) \<Rightarrow> u32 list \<Rightarrow> (nat \<times> nat \<times> u32) list \<Rightarrow> nat \<Rightarrow> 'a kmod_scheme \<Rightarrow> bool" where
  "creating ans rest cs n s \<longleftrightarrow>
     control_wf (\<lambda>_. 0) (\<lambda>_. 0) s \<and> quiet s \<and> controllers rest cs s \<and>
     (\<exists>ds. virtusb_hcd_devices s = Some ds \<and> length ds = n) \<and> length cs \<le> n \<and>
     (\<forall>i < length cs. ans_pdev (ans i) = Some (fst (cs ! i)) \<and> ans_hcd (ans i) = Some (fst (snd (cs ! i))) \<and>
        snd (snd (cs ! i)) = instance_devt (word_of_nat i) s)"

lemma creating_fresh:
  assumes s: "creating ans rest cs n s" and fresh: "fresh_answers ans" and k: "length cs \<le> k"
  shows "ans_pdev (ans k) = Some p \<Longrightarrow> load_pdev p s = None"
    and "ans_hcd (ans k) = Some h \<Longrightarrow> load_hcd h s = None \<and> load_hub h s = None"
proof -
  have "p \<notin> fst ` set cs" if p: "ans_pdev (ans k) = Some p"
  proof
    assume "p \<in> fst ` set cs"
    then obtain i where i: "i < length cs" "p = fst (cs ! i)" by (auto simp: in_set_conv_nth)
    with s have "ans_pdev (ans i) = Some p" by (simp add: creating_def)
    with fresh p have "i = k" unfolding fresh_answers_def by blast
    with i k show False by simp
  qed
  moreover have "h \<notin> (fst \<circ> snd) ` set cs" if h: "ans_hcd (ans k) = Some h"
  proof
    assume "h \<in> (fst \<circ> snd) ` set cs"
    then obtain i where i: "i < length cs" "h = fst (snd (cs ! i))" by (auto simp: in_set_conv_nth)
    with s have "ans_hcd (ans i) = Some h" by (simp add: creating_def)
    with fresh h have "i = k" unfolding fresh_answers_def by blast
    with i k show False by simp
  qed
  moreover from s have ctrl: "\<forall>q. load_pdev q s \<noteq> None \<longrightarrow> q \<in> fst ` set cs"
    "\<forall>g. load_hcd g s \<noteq> None \<or> load_hub g s \<noteq> None \<longrightarrow> g \<in> (fst \<circ> snd) ` set cs"
    unfolding creating_def controllers_def by blast+
  ultimately show "ans_pdev (ans k) = Some p \<Longrightarrow> load_pdev p s = None"
    "ans_hcd (ans k) = Some h \<Longrightarrow> load_hcd h s = None \<and> load_hub h s = None" by blast+
qed

lemma bound_hcd_new:
  assumes "only_new oh op s s'" and "oh \<noteq> Some (fst (snd c))" and "op \<noteq> Some (fst c)"
  shows "bound_hcd s' c = bound_hcd s c"
proof -
  obtain q g d where c: "c = (q, g, d)" by (cases c)
  with assms have "load_pdev q s' = load_pdev q s" "load_hcd g s' = load_hcd g s" by (simp_all add: only_new_def)
  then show ?thesis by (simp add: c bound_hcd_def)
qed

lemma bound_hcd_devices [simp]:
  "bound_hcd (s\<lparr>virtusb_hcd_devices := ds\<rparr>) c = bound_hcd s c" "bound_hcd (s\<lparr>virtusb_hcd_created_count := k\<rparr>) c = bound_hcd s c"
  by (cases c; simp add: bound_hcd_def)+

lemma creating_others:
  assumes s: "creating ans rest cs n s" and fresh: "fresh_answers ans"
    and new: "only_new (ans_hcd (ans (length cs))) (ans_pdev (ans (length cs))) s t" and c: "c \<in> set cs"
  shows "bound_hcd t c" and "ans_hcd (ans (length cs)) \<noteq> Some (fst (snd c))" and "ans_pdev (ans (length cs)) \<noteq> Some (fst c)"
proof -
  note free = creating_fresh [OF s fresh order_refl]
  have bound: "bound_hcd s c" using s c by (simp add: creating_def controllers_def)
  then show ne: "ans_hcd (ans (length cs)) \<noteq> Some (fst (snd c))" "ans_pdev (ans (length cs)) \<noteq> Some (fst c)"
    using free by (auto simp: bound_hcd_def split: prod.splits)
  show "bound_hcd t c" using bound_hcd_new [OF new ne] bound by simp
qed

lemma creating_fail:
  assumes s: "creating ans rest cs n s" and fresh: "fresh_answers ans" and k: "length cs < n"
    and t: "control_wf (\<lambda>_. 0) (\<lambda>_. 0) t" "hcd_created add_ret (ans (length cs)) inst m s (Inl e) t"
  shows "runs (set_hcd_device (length cs) None t) (\<lambda>s'. creating ans rest cs n s' \<and> site s' = site s)"
proof -
  let ?oh = "ans_hcd (ans (length cs))" and ?op = "ans_pdev (ans (length cs))"
  from t(2) have new: "only_new ?oh ?op s t" and dev: "cdevs t = cdevs s" "class_devices t = class_devices s"
    and h: "\<And>h. ?oh = Some h \<Longrightarrow> load_hcd h t = None \<and> load_hub h t = None" and p: "\<And>p. ?op = Some p \<Longrightarrow> load_pdev p t = None"
    by (simp_all add: hcd_created_def)
  from s obtain ds where ds: "virtusb_hcd_devices s = Some ds" "length ds = n" "\<forall>i < length cs. ds ! i = Some (fst (cs ! i))"
    by (auto simp: creating_def controllers_def)
  have q: "quiet t" by (rule quiet_new [OF _ new]) (use s h in \<open>auto simp: creating_def\<close>)
  have all: "load_hcd g s \<noteq> None \<or> load_hub g s \<noteq> None" if "load_hcd g t \<noteq> None \<or> load_hub g t \<noteq> None" for g
  proof (cases "?oh = Some g")
    case False
    with only_newD(1,2) [OF new False] that show ?thesis by auto
  qed (use h [of g] that in simp)
  have all_p: "load_pdev r s \<noteq> None" if "load_pdev r t \<noteq> None" for r
    using p [of r] only_newD(3) [OF new, of r] that by (cases "?op = Some r") simp_all
  from s have ctrl: "controllers rest cs s" by (simp add: creating_def)
  then have "g \<in> (fst \<circ> snd) ` set cs" if "load_hcd g t \<noteq> None \<or> load_hub g t \<noteq> None" for g
    using all [OF that] unfolding controllers_def by blast
  moreover have "r \<in> fst ` set cs" if "load_pdev r t \<noteq> None" for r
    using all_p [OF that] ctrl unfolding controllers_def by blast
  moreover have "\<forall>c \<in> set cs. bound_hcd t c" using creating_others(1) [OF s fresh new] by blast
  moreover have "cdevs s = rev (map (snd \<circ> snd) cs) @ rest" "class_devices s = rev (map (snd \<circ> snd) cs) @ rest"
    "distinct (map fst cs)" "distinct (map (fst \<circ> snd) cs)" "unat (virtusb_hcd_created_count s) = length cs"
    using ctrl by (simp_all add: controllers_def)
  ultimately have "controllers rest cs (t\<lparr>virtusb_hcd_devices := Some (ds[length cs := None])\<rparr>)"
    using ds k site_new(3) [OF new] dev unfolding controllers_def by simp
  then show ?thesis
    using t(1) q s ds k site_new [OF new]
    by (simp add: set_hcd_device_def creating_def quiet_def no_open_file_def) (simp add: instance_devt_def)
qed

lemma creating_more:
  assumes s: "creating ans rest cs n s" and fresh: "fresh_answers ans" and k: "length cs < n" "n \<le> 31"
    and t: "control_wf (\<lambda>_. 0) (\<lambda>_. 0) t" "hcd_created add_ret (ans (length cs)) (word_of_nat (length cs)) m s (Inr p) t"
  shows "runs (set_hcd_device (length cs) (Some p) t) (\<lambda>s'. \<exists>c.
    creating ans rest (cs @ [c]) n (s'\<lparr>virtusb_hcd_created_count := virtusb_hcd_created_count s' + 1\<rparr>) \<and> site s' = site s)"
proof -
  let ?oh = "ans_hcd (ans (length cs))" and ?op = "ans_pdev (ans (length cs))"
  let ?devt = "instance_devt (word_of_nat (length cs)) s"
  from t(2) obtain h where new: "only_new ?oh ?op s t" and p: "?op = Some p" and h: "?oh = Some h"
    and bound: "bound_hcd t (p, h, ?devt)" and serv: "in_service h (word_of_nat (length cs)) ?devt m t"
    and dev: "cdevs t = ?devt # cdevs s" "class_devices t = ?devt # class_devices s"
    by (auto simp: hcd_created_def Let_def)
  from s obtain ds where ds: "virtusb_hcd_devices s = Some ds" "length ds = n" "\<forall>i < length cs. ds ! i = Some (fst (cs ! i))"
    by (auto simp: creating_def controllers_def)
  have q: "quiet t" by (rule quiet_new [OF _ new]) (use s h serv in \<open>auto simp: creating_def in_service_def\<close>)
  from s have ctrl: "controllers rest cs s" by (simp add: creating_def)
  let ?c = "(p, h, ?devt)"
  let ?t = "t\<lparr>virtusb_hcd_devices := Some (ds[length cs := Some p]), virtusb_hcd_created_count := virtusb_hcd_created_count s + 1\<rparr>"
  note old = creating_others [OF s fresh new]
  have "unat (virtusb_hcd_created_count s) = length cs" using ctrl by (simp add: controllers_def)
  then have "unat (virtusb_hcd_created_count s + 1) = Suc (length cs)" using k by (simp add: unat_word_ariths)
  moreover have "p \<notin> fst ` set cs" using old(3) p by (metis imageE)
  moreover have "h \<notin> (fst \<circ> snd) ` set cs" using old(2) h by (metis comp_apply imageE)
  moreover have "g \<in> insert h ((fst \<circ> snd) ` set cs)" if "load_hcd g t \<noteq> None \<or> load_hub g t \<noteq> None" for g
  proof (cases "g = h")
    case False
    with only_newD(1,2) [OF new, of g] that h have "load_hcd g s \<noteq> None \<or> load_hub g s \<noteq> None" by auto
    with ctrl show ?thesis unfolding controllers_def by blast
  qed simp
  moreover have "r \<in> insert p (fst ` set cs)" if "load_pdev r t \<noteq> None" for r
  proof (cases "r = p")
    case False
    with only_newD(3) [OF new, of r] that p have "load_pdev r s \<noteq> None" by simp
    with ctrl show ?thesis unfolding controllers_def by blast
  qed simp
  moreover have "\<forall>i < length (cs @ [?c]). ds[length cs := Some p] ! i = Some (fst ((cs @ [?c]) ! i))"
    using ds k by (auto simp: nth_append less_Suc_eq)
  moreover have "cdevs s = rev (map (snd \<circ> snd) cs) @ rest" "class_devices s = rev (map (snd \<circ> snd) cs) @ rest"
    "distinct (map fst cs)" "distinct (map (fst \<circ> snd) cs)" using ctrl by (simp_all add: controllers_def)
  moreover have "\<forall>c \<in> set (cs @ [?c]). bound_hcd ?t c" using old(1) bound by auto
  ultimately have "controllers rest (cs @ [?c]) ?t"
    using ds k dev unfolding controllers_def by simp
  moreover have "\<forall>i < length (cs @ [?c]). ans_pdev (ans i) = Some (fst ((cs @ [?c]) ! i)) \<and>
      ans_hcd (ans i) = Some (fst (snd ((cs @ [?c]) ! i))) \<and> snd (snd ((cs @ [?c]) ! i)) = instance_devt (word_of_nat i) ?t"
    using s p h site_new(5) [OF new] by (auto simp: creating_def nth_append less_Suc_eq instance_devt_def)
  ultimately have "creating ans rest (cs @ [?c]) n ?t"
    using t(1) q ds k by (simp add: creating_def quiet_def no_open_file_def)
  then show ?thesis
    using ds k site_new [OF new] by (auto simp: set_hcd_device_def)
qed

lemma create_hcds_ok:
  assumes "creating ans rest cs n s" and fresh: "fresh_answers ans" and n: "n \<le> 31"
    and core: "\<And>i. core_behaves (add_ret i) (ans i) usb_remove_hcd"
  shows "runs (create_hcds usb_remove_hcd ans [length cs..<n] s) (\<lambda>(ret, s'). \<exists>cs'.
    creating ans rest cs' n s' \<and> site s' = site s \<and> ret \<le> 0 \<and> (ret = 0 \<longrightarrow> length cs' = n))"
  using assms(1)
proof (induction "n - length cs" arbitrary: cs s)
  case 0
  then have "length cs = n" by (simp add: creating_def)
  with 0(2) show ?case by auto
next
  case (Suc d)
  let ?k = "length cs"
  from Suc.hyps(2) have k: "?k < n" by simp
  note free = creating_fresh [OF Suc.prems fresh order_refl]
  have wf: "control_wf (\<lambda>_. 0) (\<lambda>_. 0) s" using Suc.prems by (simp add: creating_def)
  from virtusb_hcd_create_ok [OF wf core free] obtain r t where
    run: "virtusb_hcd_create usb_remove_hcd (ans ?k) (word_of_nat ?k) VIRTUSB_ROOT_HUB_PORTS s = Some (r, t)" and
    t: "control_wf (\<lambda>_. 0) (\<lambda>_. 0) t" "hcd_created (add_ret ?k) (ans ?k) (word_of_nat ?k) VIRTUSB_ROOT_HUB_PORTS s r t"
    unfolding runs_iff split_paired_Ex split_conv by blast
  have upt: "[?k..<n] = ?k # [Suc ?k..<n]" using k by (rule upt_conv_Cons)
  show ?case
  proof (cases r)
    case (Inl e)
    then have "e < 0" using t(2) by (simp add: hcd_created_def)
    with creating_fail [OF Suc.prems fresh k t(1) t(2) [unfolded Inl]] run show ?thesis
      unfolding upt Inl by (auto simp: runs_iff)
  next
    case (Inr p)
    from creating_more [OF Suc.prems fresh k n t(1) t(2) [unfolded Inr]] obtain u c where
      u: "set_hcd_device ?k (Some p) t = Some u" "site u = site s"
        "creating ans rest (cs @ [c]) n (u\<lparr>virtusb_hcd_created_count := virtusb_hcd_created_count u + 1\<rparr>)"
      unfolding runs_iff by blast
    from Suc.hyps(1) [OF _ u(3)] Suc.hyps(2) u(2) show ?thesis
      unfolding upt by (simp add: run Inr u(1))
  qed
qed

lemma module_out_restart:
  assumes s: "module_out rest clss regs s"
  shows "module_out rest clss regs (s\<lparr>registry := xa_none, next_object_id := 1\<rparr>)"
proof -
  have "control_wf (\<lambda>_. 0) (\<lambda>_. 0) (s\<lparr>registry := xa_none, next_object_id := 1\<rparr>)"
    using s by (intro control_wf_restart) (simp_all add: module_out_def xa.is_empty_load xa.load_empty)
  then show ?thesis
    using s by (simp add: module_out_def no_open_file_def deserted_def load_file_def load_obj_def load_trans_def load_hcd_def
        load_back_def load_hub_def load_pdev_def xa.is_empty_load xa.load_empty)
qed

text \<open>The state in which the loop starts.\<close>

definition registered :: "u32 \<Rightarrow> nat \<Rightarrow> 'a kmod_scheme \<Rightarrow> 'a kmod_scheme" where
  "registered devt cl s = s\<lparr>next_object_id := 1, virtusb_hcd_devices := Some (replicate (unat (hcd_count s)) None),
     virtusb_control_base_devt := devt, chrdev_regions := (devt, hcd_count s) # chrdev_regions s,
     virtusb_control_class := Some cl, classes := cl # classes s, virtusb_control_instance_count := hcd_count s,
     driver_registered := True\<rparr>"

lemma registered_creating:
  assumes s: "module_out rest clss regs s"
  shows "creating ans rest [] (unat (hcd_count s)) (registered devt cl s)"
proof -
  have "control_wf (\<lambda>_. 0) (\<lambda>_. 0) (s\<lparr>registry := registry s, next_object_id := 1\<rparr>)"
    using s by (intro control_wf_restart) (simp_all add: module_out_def)
  moreover have "control_wf (\<lambda>_. 0) (\<lambda>_. 0) (registered devt cl s) =
      control_wf (\<lambda>_. 0) (\<lambda>_. 0) (s\<lparr>registry := registry s, next_object_id := 1\<rparr>)"
    by (rule control_wf_views) (simp_all add: registered_def kback.defs load_hcd_def load_file_def)
  ultimately show ?thesis
    using s by (simp add: creating_def quiet_def module_out_def controllers_def registered_def no_open_file_def load_file_def
        load_hcd_def load_hub_def load_pdev_def)
qed

text \<open>The first step that can fail, and does.\<close>

definition early_error :: "bool \<Rightarrow> int + u32 \<Rightarrow> int + nat \<Rightarrow> int \<Rightarrow> u32 \<Rightarrow> int" where
  "early_error mem region_answer class_answer driver_answer n =
     (if n = 0 \<or> n > VIRTUSB_MAX_HCD_COUNT then - EINVAL
      else if \<not> mem then - ENOMEM
      else case (region_answer, class_answer) of
          (Inl e, _) \<Rightarrow> e
        | (Inr _, Inl e) \<Rightarrow> e
        | (Inr _, Inr _) \<Rightarrow> if driver_answer < 0 then driver_answer else 0)"

lemma init_early:
  assumes s: "module_out rest clss regs s"
    and e: "\<And>e. region_answer = Inl e \<Longrightarrow> e < 0" "\<And>e. class_answer = Inl e \<Longrightarrow> e < 0"
    and early: "early_error mem region_answer class_answer driver_answer (hcd_count s) < 0"
  shows "virtusb_module_init mem region_answer class_answer driver_answer ans usb_remove_hcd s =
    Some (early_error mem region_answer class_answer driver_answer (hcd_count s),
      if hcd_count s = 0 \<or> hcd_count s > VIRTUSB_MAX_HCD_COUNT then s else s\<lparr>registry := xa_none, next_object_id := 1\<rparr>)"
proof -
  have sel: "xa_empty (registry s)" "virtusb_hcd_devices s = None" "virtusb_control_class s = None" "virtusb_control_base_devt s = 0"
    "virtusb_control_instance_count s = 0" "\<not> driver_registered s"
    using s by (simp_all add: module_out_def)
  show ?thesis
    using early sel e
    by (cases s; cases region_answer; cases class_answer)
       (auto simp: virtusb_module_init_def early_error_def virtusb_object_manager_init_def virtusb_object_manager_exit_def
         virtusb_control_register_def alloc_chrdev_region_def unregister_chrdev_region_def virtusb_control_unregister_def
         virtusb_hcd_driver_register_def WARN_ON_def Let_def split: if_splits)
qed

lemma init_late:
  assumes s: "module_out rest clss regs s"
    and late: "\<not> early_error mem (Inr devt) (Inr cl) driver_answer (hcd_count s) < 0"
  shows "virtusb_module_init mem (Inr devt) (Inr cl) driver_answer ans usb_remove_hcd s = do {
    (ret, s) \<leftarrow> create_hcds usb_remove_hcd ans [0..<unat (hcd_count s)] (registered devt cl s);
    if ret < 0 then do {
      s \<leftarrow> virtusb_module_destroy_hcds usb_remove_hcd s;
      let s = virtusb_hcd_driver_unregister s;
      Some (ret, virtusb_object_manager_exit ((virtusb_control_unregister s)\<lparr>virtusb_hcd_devices := None\<rparr>))
    }
    else Some (0, s)
  }"
proof -
  have sel: "virtusb_control_class s = None" using s by (simp add: module_out_def)
  show ?thesis
    using late sel
    by (cases s)
       (auto simp: virtusb_module_init_def early_error_def virtusb_object_manager_init_def registered_def
         virtusb_control_register_def alloc_chrdev_region_def virtusb_hcd_driver_register_def Let_def split: if_splits)
qed

lemma virtusb_module_init_ok:
  assumes s: "module_out rest clss regs s" and fresh: "fresh_answers ans"
    and core: "\<And>i. core_behaves (add_ret i) (ans i) usb_remove_hcd"
    and e: "\<And>e. region_answer = Inl e \<Longrightarrow> e < 0" "\<And>e. class_answer = Inl e \<Longrightarrow> e < 0"
  shows "runs (virtusb_module_init mem region_answer class_answer driver_answer ans usb_remove_hcd s) (\<lambda>(ret, s').
    ret \<le> 0 \<and>
    (if ret < 0 then module_out rest clss regs s'
     else \<exists>cs. module_in rest clss regs cs s' \<and> creating ans rest cs (unat (hcd_count s)) s' \<and>
       length cs = unat (hcd_count s)))"
proof (cases "early_error mem region_answer class_answer driver_answer (hcd_count s) < 0")
  case True
  with init_early [OF s e] s module_out_restart [OF s] show ?thesis by simp
next
  case False
  then obtain devt cl where ans: "region_answer = Inr devt" "class_answer = Inr cl" and n: "unat (hcd_count s) \<le> 31"
    using e by (auto simp: early_error_def word_le_nat_alt not_less split: if_splits sum.splits)
  let ?n = "unat (hcd_count s)"
  from create_hcds_ok [OF registered_creating [OF s, where ans = ans and devt = devt and cl = cl] fresh n core]
  obtain ret t cs where run: "create_hcds usb_remove_hcd ans [0..<?n] (registered devt cl s) = Some (ret, t)" and
    t: "creating ans rest cs ?n t" "site t = site (registered devt cl s)" "ret \<le> 0" "ret = 0 \<longrightarrow> length cs = ?n"
    by (auto simp: runs_iff)
  have front: "virtusb_control_class u = Some cl" "classes u = cl # clss" "xa_empty (registry u)"
    "chrdev_regions u = (virtusb_control_base_devt u, virtusb_control_instance_count u) # regs"
    if "site u = site t" for u
    using that t(2) s by (simp_all add: site_def registered_def module_out_def)
  from t(1) have cr: "control_wf (\<lambda>_. 0) (\<lambda>_. 0) t" "quiet t" "controllers rest cs t" by (simp_all add: creating_def)
  show ?thesis
  proof (cases "ret < 0")
    case True
    have "core_steps h s (usb_remove_hcd h s)" for h s using core by (simp add: core_behaves_def)
    from virtusb_module_destroy_hcds_ok [OF cr this] obtain u where
      u: "virtusb_module_destroy_hcds usb_remove_hcd t = Some u" "control_wf (\<lambda>_. 0) (\<lambda>_. 0) u" "quiet u"
        "controllers rest [] u" "site u = site t"
      unfolding runs_iff by blast
    from module_out_exit [OF u(2) _ u(4) front(3,1,2,4) [OF u(5)]] u(3) True show ?thesis
      unfolding ans init_late [OF s False [unfolded ans]] by (simp add: run u(1) quiet_def Let_def)
  next
    case ok: False
    with t(3) have "ret = 0" by simp
    with t cr front [OF refl] show ?thesis
      unfolding ans init_late [OF s False [unfolded ans]] by (auto simp: run module_in_def)
  qed
qed

end
