(* ===== verification/Virtusb_Char_Device.thy ===== *)
theory Virtusb_Char_Device
  imports Virtusb_File_Props
begin

text \<open>
  The properties of the control device: that no use of it breaks the driver, what a session leaves
  behind, and that user space and the USB core see the same root hub.
\<close>

section \<open>The driver with an open file\<close>

text \<open>
  The controller at address 0 of the examples, loaded as instance 0; the file 5 is open on it, the
  file 6 is new.
\<close>

definition example_hcd :: virtusb_hcd where
  "example_hcd = \<lparr>vh_instance = 0, vh_linux_hcd = Some 0,
     vh_control = \<lparr>ctl_hcd = Some 0, ctl_device = Some 40, ctl_devt = 0x0f000000, ctl_active = True\<rparr>\<rparr>"

definition example_file :: kfile where
  "example_file = \<lparr>file_private = Some \<lparr>cf_control = Some 0\<rparr>, file_nonblock = True\<rparr>"

definition loaded :: "kback \<Rightarrow> khcd" where
  "loaded s = kback.extend s (khcd.fields [0 \<mapsto> example_hcd]
     [5 \<mapsto> example_file, 6 \<mapsto> \<lparr>file_private = None, file_nonblock = True\<rparr>]
     0x0f000000 (Some 30) 1 [(0x0f000000, 1)] [30] [0x0f000000] [0x0f000000])"

lemma truncate_loaded: "kback.truncate (loaded s) = s"
  by (cases s) (simp add: loaded_def kback.defs)

lemma loaded_sel [simp]:
  "load_port a (loaded s) = load_port a s" "load_hub h (loaded s) = load_hub h s"
  "load_obj d (loaded s) = load_obj d s" "load_trans t (loaded s) = load_trans t s"
  "load_back h (loaded s) = load_back h s" "load_urb u (loaded s) = load_urb u s"
  using truncate_view [where s = "loaded s"] by (simp_all add: truncate_loaded)

lemma loaded_hcd [simp]:
  "load_hcd 0 (loaded s) = Some example_hcd" "load_file 5 (loaded s) = Some example_file"
  "load_file 6 (loaded s) = Some \<lparr>file_private = None, file_nonblock = True\<rparr>"
  by (simp_all add: loaded_def load_hcd_def load_file_def kback.defs khcd.defs)

lemma control_wf_loaded:
  assumes wf: "back_wf held pins s"
    and only: "\<And>h. load_back h s \<noteq> None \<longleftrightarrow> h = 0" and hub: "load_hub 0 s \<noteq> None"
    and owner: "\<And>b bd. load_back 0 s = Some b \<Longrightarrow> bd \<in> set (bindings b) \<Longrightarrow> bind_owner bd = 5"
  shows "control_wf held pins (loaded s)"
proof -
  have "kback.truncate (loaded s) = kback.truncate s" by (simp add: truncate_loaded) (cases s, simp add: kback.defs)
  from back_wf_truncate [OF this] wf have "back_wf held pins (loaded s)" by simp
  moreover have "ctl_ok (loaded s)"
  proof -
    have hcd: "load_hcd h (loaded s) = (if h = 0 then Some example_hcd else None)" for h
      by (simp add: loaded_def load_hcd_def kback.defs khcd.defs)
    have opened_file: "load_file f (loaded s) = (if f = 6 then Some \<lparr>file_private = None, file_nonblock = True\<rparr>
        else if f = 5 then Some example_file else None)" for f
      by (simp add: loaded_def load_file_def kback.defs khcd.defs)
    have "hcd_ok (loaded s) 0 example_hcd"
      using only [of 0] hub by (simp add: hcd_ok_def example_hcd_def)
    moreover have "file_opens 0 example_file" by (simp add: file_opens_def example_file_def)
    moreover have "h = 0" if "load_back h s = Some b" for h b using only [of h] that by blast
    ultimately show ?thesis using owner by (fastforce simp: ctl_ok_def hcd opened_file)
  qed
  ultimately show ?thesis by (simp add: control_wf_def)
qed

lemma example_backs:
  "load_back h example_kback \<noteq> None \<longleftrightarrow> h = 0" "load_back h example_bound \<noteq> None \<longleftrightarrow> h = 0"
  "load_back h example_queued \<noteq> None \<longleftrightarrow> h = 0" "load_back h example_fetched \<noteq> None \<longleftrightarrow> h = 0"
  and example_hubs: "load_hub g example_kback = (if g = 0 then Some example_hub else None)"
  "load_hub g example_bound = (if g = 0 then Some example_hub else None)"
  "load_hub g example_queued = (if g = 0 then Some example_hub else None)"
  "load_hub g example_fetched = (if g = 0 then Some example_hub else None)"
proof -
  have kback: "load_back h example_kback = (if h = 0 then Some example_backend else None)"
    "load_hub g example_kback = (if g = 0 then Some example_hub else None)" for h g
    by (simp_all add: load_back_def load_hub_def example_kback_def example_topo_def)
  then have bound: "load_back h example_bound \<noteq> None \<longleftrightarrow> h = 0"
    "load_hub g example_bound = (if g = 0 then Some example_hub else None)" for h g
    by (simp_all add: example_bound_def)
  then have queued: "load_back h example_queued \<noteq> None \<longleftrightarrow> h = 0"
    "load_hub g example_queued = (if g = 0 then Some example_hub else None)" for h g
    by (auto simp: example_queued_def submitted_def Let_def)
  then show "load_back h example_fetched \<noteq> None \<longleftrightarrow> h = 0"
    "load_hub g example_fetched = (if g = 0 then Some example_hub else None)"
    by (auto simp: example_fetched_def)
  show "load_back h example_kback \<noteq> None \<longleftrightarrow> h = 0" "load_back h example_bound \<noteq> None \<longleftrightarrow> h = 0"
    "load_back h example_queued \<noteq> None \<longleftrightarrow> h = 0"
    "load_hub g example_kback = (if g = 0 then Some example_hub else None)"
    "load_hub g example_bound = (if g = 0 then Some example_hub else None)"
    "load_hub g example_queued = (if g = 0 then Some example_hub else None)"
    using kback bound queued by auto
qed

lemma control_wf_examples:
  "control_wf (\<lambda>_. 0) (\<lambda>_. 0) (loaded example_kback)"
  "control_wf (\<lambda>_. 0) ((\<lambda>_. 0)(3 := 1)) (loaded example_bound)"
  "control_wf (\<lambda>_. 0) ((\<lambda>_. 0)(3 := 1)) (loaded example_queued)"
  "control_wf (\<lambda>_. 0) ((\<lambda>_. 0)(3 := 1)) (loaded example_fetched)"
  by (rule control_wf_loaded; (rule back_wf_example back_wf_example_bound back_wf_example_queued back_wf_example_fetched example_backs |
        auto simp: example_hubs example_backend_def moved_def))+

lemma live_loaded: "live 5 0 (loaded s)"
  by (simp add: live_def opened_def file_opens_def example_file_def example_hcd_def)

section \<open>Any call\<close>

text \<open>C23: no ioctl can break the driver: whatever the command and whatever user memory holds (the
  message of a completion carries its whole data array), the call touches only valid memory, keeps
  the invariant of the registry, the topology, the transfers and all sessions, returns no
  positive value and writes to user memory only when it succeeds. It sleeps only in a fetch,
  however the other threads run meanwhile as long as they keep the file open on the controller. A
  controller that is gone answers -ENODEV and an unknown command -ENOTTY, both without effect.\<close>

theorem control_ioctl_safe:
  assumes "control_wf held pins s" and "load_file f s = Some fl" and "completions_sized argp"
    and "\<And>c. live f c s \<Longrightarrow> \<forall>(ret, step) \<in> set waits. keeps_open held pins f c step"
  shows "runs (virtusb_control_ioctl mem xa_mem waits f command argp s) (\<lambda>(result, s').
    control_wf held pins s' \<and>
    (if \<not> (\<exists>c. live f c s) then result = Some (- ENODEV, None) \<and> s' = s
     else if \<not> handled command then result = Some (- ENOTTY, None) \<and> s' = s
     else case result of
            None \<Rightarrow> command = VIRTUSB_IOCTL_TRANSFER_FETCH
          | Some (ret, out) \<Rightarrow> ret = 0 \<or> ret < 0 \<and> out = None))"
  by (rule runs_mono [OF virtusb_control_ioctl_ok [OF assms]], assumption)
     (simp only: split_paired_all split_conv ioctl_result_def, blast)

definition example_memory :: user_memory where
  "example_memory = \<lparr>um_port_status = None, um_device_create = None, um_device_destroy = None,
     um_device_attach = Some \<lparr>da_object_id = 2, da_hub_id = 0, da_port = 2\<rparr>,
     um_device_object = Some \<lparr>do_object_id = 1\<rparr>, um_device_connection = None, um_port_power = None,
     um_backend_register = None, um_transfer_complete = None, um_writable = False\<rparr>"

theorem control_ioctl_safe_witness:
  "runs (virtusb_control_ioctl True True [] 5 VIRTUSB_IOCTL_BACKEND_UNREGISTER example_memory (loaded example_fetched))
     (\<lambda>(result, s'). control_wf (\<lambda>_. 0) ((\<lambda>_. 0)(3 := 1)) s' \<and> result \<noteq> None)"
proof -
  have sized: "completions_sized example_memory" by (simp add: completions_sized_def example_memory_def)
  have "\<exists>c. live 5 c (loaded example_fetched)" using live_loaded by blast
  moreover have "handled VIRTUSB_IOCTL_BACKEND_UNREGISTER" by (simp add: handled_def)
  moreover have "VIRTUSB_IOCTL_BACKEND_UNREGISTER \<noteq> VIRTUSB_IOCTL_TRANSFER_FETCH" by (simp add: ioctl_distinct)
  ultimately show ?thesis
    by (intro runs_mono [OF control_ioctl_safe [OF control_wf_examples(4) loaded_hcd(2) sized]])
       (auto split: option.splits)
qed

section \<open>What the USB core sees of it\<close>

text \<open>A recorded connection change is what the next status poll reports.\<close>

lemma reported_poll:
  assumes topo: "topo_wf s'" and rep: "hubs_report s s'" and h: "load_hub h s = Some hub"
    and diff: "port_connected s' h k \<noteq> port_connected s h k"
    and buf: "(unat (hub_port_count hub) + 8) div 8 \<le> length buf"
  shows "runs (virtusb_hcd_hub_status_data h buf s') (\<lambda>(ret, buf').
    0 < ret \<and> k < 8 * nat ret \<and> bit (buf' ! (k div 8)) (k mod 8))"
proof -
  from rep have "changes_reported s s'" and lay: "rel_option same_layout (load_hub h s) (load_hub h s')"
    by (simp_all add: hubs_report_def)
  from this(1) h obtain hub' where hub': "load_hub h s' = Some hub'" "bit (chg_connected (hub_usb_change hub')) k"
    by (rule changes_reported_hub) (use diff in blast)
  note lay
  with h hub' have count: "hub_port_count hub' = hub_port_count hub" by (simp add: same_layout_def)
  from hub'(2) topo_wf_hub_usb [OF topo hub'(1)] have k: "0 < k" "k \<le> unat (hub_port_count hub)"
    unfolding count [symmetric] hub_usb_ok_def by blast+
  with hub'(2) have pending: "change_pending hub' k" by (auto simp: change_pending_def port_change_bit_def)
  then have some: "Ex (change_pending hub')" by blast
  define m where "m = (unat (hub_port_count hub) + 8) div 8"
  have m: "k < 8 * m" "m \<le> length buf" using k(2) buf by (simp_all add: m_def)
  have "runs (virtusb_hcd_hub_status_data h buf s') (\<lambda>(ret, buf'). length buf' = length buf \<and>
      (if Ex (change_pending hub')
       then ret = int m \<and> (\<forall>k < 8 * nat ret. bit (buf' ! (k div 8)) (k mod 8) \<longleftrightarrow> change_pending hub' k)
       else ret = 0 \<and> buf' = buf))"
    using virtusb_hcd_hub_status_data_ok [OF topo hub'(1), folded count [symmetric] m_def] m
    by (simp only: count m_def)
  then show ?thesis using some pending m(1) by (auto elim!: runs_mono)
qed

text \<open>The ioctls that can change a connection, on a live controller: nothing happens, or the
  topology changes and the host is told.\<close>

definition topology_ioctls :: "u32 set" where
  "topology_ioctls = {VIRTUSB_IOCTL_DEVICE_ATTACH, VIRTUSB_IOCTL_DEVICE_DETACH, VIRTUSB_IOCTL_DEVICE_CONNECTION,
     VIRTUSB_IOCTL_SET_PORT_POWER, VIRTUSB_IOCTL_DEVICE_DESTROY}"

lemma topology_ioctl:
  assumes wf: "control_wf held pins s" and f: "load_file f s = Some fl" and command: "command \<in> topology_ioctls"
  shows "runs (virtusb_control_ioctl mem xa_mem waits f command argp s) (\<lambda>(_, s'). topo_wf s' \<and> hubs_report s s')"
  using wf f
proof (cases rule: control_gone_ok)
  case (1 control)
  with back_wf_topo [OF control_wfD(1) [OF wf]] show ?thesis by (simp add: virtusb_control_ioctl_def)
next
  case (2 c)
  then have opened: "opened f c s" by (simp add: live_def)
  from opened wf obtain v hub where v: "load_hcd c s = Some v" "ctl_hcd (vh_control v) = Some c"
    and hub: "load_hub c s = Some hub" by (rule openedE)
  have topo: "topo_wf s'" if "control_wf held pins s'" for s' :: "'a khcd_scheme"
    by (rule back_wf_topo [OF control_wfD(1) [OF that]])
  let ?P = "\<lambda>(_, s'). topo_wf s' \<and> hubs_report s s'"
  have attach: "runs (virtusb_control_device_attach (Some c) argp s) ?P"
    by (rule runs_mono [OF virtusb_control_device_attach_ok [OF wf v hub]])
       (simp only: split_paired_all split_conv Let_def, elim branchE; simp add: topo topo_change_def hubs_reportI)
  have detach: "runs (virtusb_control_device_detach argp s) ?P"
    by (rule runs_mono [OF virtusb_control_device_detach_ok [OF wf]])
       (simp only: split_paired_all split_conv, elim branchE; simp add: topo topo_change_def hubs_reportI)
  have connection: "runs (virtusb_control_device_connection argp s) ?P"
    by (rule runs_mono [OF virtusb_control_device_connection_ok [OF wf]])
       (simp only: split_paired_all split_conv, elim branchE; simp add: topo topo_change_def hubs_reportI)
  have power: "runs (virtusb_control_set_port_power (Some c) argp s) ?P"
    by (rule runs_mono [OF virtusb_control_set_port_power_ok [OF wf v hub]])
       (use virtusb_hub_set_port_power_reported [OF back_wf_topo [OF control_wfD(1) [OF wf]] hub] in
         \<open>auto simp: topo split: option.splits if_splits\<close>)
  have destroy: "runs (virtusb_control_device_destroy argp s) ?P"
    by (rule runs_mono [OF virtusb_control_device_destroy_ok [OF wf]]) (use topo in blast)
  have pass: "runs (do { (ret, s) \<leftarrow> m; Some (Some (ret :: int, None), s) }) ?P" if "runs m ?P" for m
    using that by (auto simp: runs_iff)
  from command consider "command = VIRTUSB_IOCTL_DEVICE_ATTACH" | "command = VIRTUSB_IOCTL_DEVICE_DETACH"
    | "command = VIRTUSB_IOCTL_DEVICE_CONNECTION" | "command = VIRTUSB_IOCTL_SET_PORT_POWER"
    | "command = VIRTUSB_IOCTL_DEVICE_DESTROY" unfolding topology_ioctls_def by blast
  then show ?thesis
    using attach [THEN pass] detach [THEN pass] connection [THEN pass] power [THEN pass] destroy [THEN pass]
    by cases (simp_all add: virtusb_control_ioctl_def 2(1,2) Let_def ioctl_distinct)
qed

text \<open>C24: what user space does to a port reaches the USB core: whenever one of the five ioctls that
  plug, unplug, signal, power or destroy changes whether a port is connected, the next status poll
  of the root hub reports that port, and the core was asked to poll unless a change of the port was
  pending already.\<close>

theorem control_hotplug_reported:
  assumes wf: "control_wf held pins s" and f: "load_file f s = Some fl"
    and command: "command \<in> {VIRTUSB_IOCTL_DEVICE_ATTACH, VIRTUSB_IOCTL_DEVICE_DETACH, VIRTUSB_IOCTL_DEVICE_CONNECTION,
      VIRTUSB_IOCTL_SET_PORT_POWER, VIRTUSB_IOCTL_DEVICE_DESTROY}"
    and h: "load_hub h s = Some hub" and buf: "(unat (hub_port_count hub) + 8) div 8 \<le> length buf"
  shows "runs (virtusb_control_ioctl mem xa_mem waits f command argp s) (\<lambda>(_, s').
    \<forall>k. port_connected s' h k \<noteq> port_connected s h k \<longrightarrow>
      runs (virtusb_hcd_hub_status_data h buf s') (\<lambda>(ret, buf'). 0 < ret \<and> bit (buf' ! (k div 8)) (k mod 8)) \<and>
      (bit (chg_connected (hub_usb_change hub)) k \<or>
       (\<exists>new. events s' = new @ events s \<and> set (notification hub) \<subseteq> set new)))"
proof (rule runs_mono [OF topology_ioctl [OF wf f command [folded topology_ioctls_def]]])
  fix x assume "case x of (_, s') \<Rightarrow> topo_wf s' \<and> hubs_report s s'"
  then obtain r s' where x: "x = (r, s')" and s': "topo_wf s'" "hubs_report s s'" by (cases x) blast
  show "case x of (_, s') \<Rightarrow> \<forall>k. port_connected s' h k \<noteq> port_connected s h k \<longrightarrow>
      runs (virtusb_hcd_hub_status_data h buf s') (\<lambda>(ret, buf'). 0 < ret \<and> bit (buf' ! (k div 8)) (k mod 8)) \<and>
      (bit (chg_connected (hub_usb_change hub)) k \<or>
       (\<exists>new. events s' = new @ events s \<and> set (notification hub) \<subseteq> set new))"
    unfolding x split_conv
  proof (intro allI impI conjI)
    fix k assume diff: "port_connected s' h k \<noteq> port_connected s h k"
    show "runs (virtusb_hcd_hub_status_data h buf s') (\<lambda>(ret, buf'). 0 < ret \<and> bit (buf' ! (k div 8)) (k mod 8))"
      by (rule runs_mono [OF reported_poll [OF s' h diff buf]]) auto
    from s'(2) have "changes_reported s s'" by (simp add: hubs_report_def)
    from this h show "bit (chg_connected (hub_usb_change hub)) k \<or> (\<exists>new. events s' = new @ events s \<and> set (notification hub) \<subseteq> set new)"
      by (rule changes_reported_hub) (use diff in blast)
  qed
qed

theorem control_hotplug_reported_witness:
  "runs (virtusb_control_ioctl True True [] 5 VIRTUSB_IOCTL_DEVICE_DETACH example_memory (loaded example_kback)) (\<lambda>(_, s').
     \<not> port_connected s' 0 1 \<and>
     runs (virtusb_hcd_hub_status_data 0 [0] s') (\<lambda>(ret, buf). 0 < ret \<and> bit (buf ! 0) 1))"
proof -
  let ?s = "loaded example_kback"
  note wf = control_wf_examples(1)
  have same: "port_connected ?s h k = port_connected example_kback h k" for h k by (rule port_connected_cong) simp
  have connected: "port_connected ?s 0 1"
    by (simp only: same, simp add: port_connected.simps example_kback_def example_topo_def load_port.simps load_hub_def
        example_ports example_upstream_def)
  have hub: "load_hub 0 ?s = Some example_hub" by (simp add: example_hubs)
  have buf: "(unat (hub_port_count example_hub) + 8) div 8 \<le> length [0 :: u8]" by (simp add: example_hub_sel)
  have ob: "load_obj d ?s = Some ob \<Longrightarrow> obj_id ob = 1 \<Longrightarrow> d = 1" for d ob
    by (simp, auto simp: load_obj_def example_kback_def example_kobj_def example_object_def split: if_splits)
  have known: "\<not> unknown 1 ?s"
    using example_kback_sel(1) by (auto simp: unknown_def example_object_def intro!: exI [of _ 1])
  have code: "virtusb_control_ioctl True True [] 5 VIRTUSB_IOCTL_DEVICE_DETACH example_memory ?s =
      do { (ret, s) \<leftarrow> virtusb_control_device_detach example_memory ?s; Some (Some (ret, None), s) }"
    by (simp add: virtusb_control_ioctl_def file_control_def control_gone_def example_file_def example_hcd_def Let_def
        ioctl_distinct)
  have gone: "\<not> port_connected s' 0 1"
    if "control_wf (\<lambda>_. 0) (\<lambda>_. 0) s'" "load_obj d ?s = Some ob" "obj_id ob = 1"
      "topo_change ?s s' (\<lambda>cb. cb\<lparr>plugged := (plugged cb)(d := None)\<rparr>)" for s' d ob
  proof
    assume "port_connected s' 0 1"
    from that(2,3) have d: "d = 1" by (rule ob)
    note ports = topo_wf_ports [OF back_wf_topo [OF control_wfD(1) [OF wf]]]
      topo_wf_ports [OF back_wf_topo [OF control_wfD(1) [OF that(1)]]]
    from \<open>port_connected s' 0 1\<close> obtain e where e: "plugged (cabling_of s') e = Some (0, 0)"
      by (auto simp: port_connected_cabling [OF ports(2)])
    with that(4) d have "plugged (cabling_of ?s) e = Some (0, 0)" "e \<noteq> 1" by (auto simp: topo_change_def split: if_splits)
    moreover have "plugged (cabling_of ?s) 1 = Some (0, 0)"
    proof -
      have "cabling_of ?s = cabling_of example_kback" by (rule cabling_of_cong) simp
      then show ?thesis
        by (simp add: plugged_eq) (simp add: example_kback_def example_topo_def load_port.simps example_upstream_def)
    qed
    ultimately show False using plugged_inj [OF ports(1)] by blast
  qed
  have "runs (virtusb_control_device_detach example_memory ?s) (\<lambda>(_, s'). \<not> port_connected s' 0 1)"
    by (rule runs_mono [OF virtusb_control_device_detach_ok [OF wf]])
       (simp only: split_paired_all split_conv, elim branchE;
        use gone known in \<open>auto simp: example_memory_def simp del: One_nat_def\<close>)
  then have "runs (virtusb_control_ioctl True True [] 5 VIRTUSB_IOCTL_DEVICE_DETACH example_memory ?s)
      (\<lambda>(_, s'). \<not> port_connected s' 0 1)"
    unfolding code by (auto simp: runs_iff)
  from runs_conjI [OF this control_hotplug_reported [OF wf loaded_hcd(2) _ hub buf]] show ?thesis
    using connected by (auto elim!: runs_mono)
qed

text \<open>The port number of the ioctl as the USB core passes it.\<close>

lemma port_index:
  fixes p :: u32
  assumes "unat p < 32"
  shows "(ucast (ucast p :: u16) AND 0xff :: u32) = p"
proof (rule bit_word_eqI)
  fix n
  have eq: "(0xff :: u32) = mask 8" by (simp add: mask_eq_exp_minus_1)
  have "bit p n \<Longrightarrow> n < 8"
  proof -
    assume b: "bit p n"
    have "p = take_bit 8 p"
      using assms by (simp add: word_unat_eq_iff unsigned_take_bit_eq take_bit_nat_eq_self)
    with b show "n < 8" by (metis bit_take_bit_iff)
  qed
  moreover have "bit (0xff :: u32) n \<longleftrightarrow> n < 8" unfolding eq bit_mask_iff by auto
  ultimately show "bit (ucast (ucast p :: u16) AND 0xff :: u32) n = bit p n"
    by (auto simp: bit_simps)
qed

lemma speed_bits: "bit (0x600 :: u16) b \<longleftrightarrow> b = 9 \<or> b = 10"
proof -
  have eq: "(0x600 :: u16) = push_bit 9 1 OR push_bit 10 1" by simp
  show ?thesis
    unfolding eq by (auto simp only: bit_or_iff bit_push_bit_iff bit_1_iff; simp)
qed

lemma live_ioctl:
  assumes "live f c s"
  shows "file_control f s = Some (Some c)" and "control_gone (Some c) s = Some False"
  using assms by (auto simp: live_def opened_def file_opens_def file_control_def control_gone_def)

text \<open>C25: user space and the USB core are told the same about a port: the status word of
  GET_PORT_STATUS is wPortStatus without the two speed bits, which agree with the speed field, and
  the change word is wPortChange.\<close>

theorem control_status_agrees_with_usb:
  assumes wf: "control_wf held pins s" and f: "live f c s" and h: "load_hub c s = Some hub"
    and r: "um_port_status argp = Some r" "pst_hub_id r = VIRTUSB_ROOT_HUB_ID" and n: "valid_port hub (pst_port r)"
    and writable: "um_writable argp"
  shows "\<exists>r' w ch.
    virtusb_control_ioctl mem xa_mem waits f VIRTUSB_IOCTL_GET_PORT_STATUS argp s =
      Some (Some (0, Some (User_port_status r')), s) \<and>
    virtusb_hcd_hub_control c GetPortStatus 0 (ucast (pst_port r)) [0, 0, 0, 0] 4 s = Some (0, le16 w @ le16 ch, s) \<and>
    ps_status (pst_state r') = ucast (w AND NOT 0x600) \<and> ps_change (pst_state r') = ucast ch \<and>
    (bit w 9 \<longleftrightarrow> ps_speed (pst_state r') = speed_code VIRTUSB_PORT_SPEED_LOW) \<and>
    (bit w 10 \<longleftrightarrow> ps_speed (pst_state r') = speed_code VIRTUSB_PORT_SPEED_HIGH)"
proof -
  note topo = back_wf_topo [OF control_wfD(1) [OF wf]]
  have opened: "opened f c s" using f by (simp add: live_def)
  from opened wf obtain v where v: "load_hcd c s = Some v" "ctl_hcd (vh_control v) = Some c" by (rule openedE)
  from topo_wf_shape [OF topo h] n obtain i where n32: "unat (pst_port r) < 32" and "unat (pst_port r) = Suc i"
    by (rule valid_portD)
  then have n0: "pst_port r \<noteq> 0" by auto
  have in_range: "\<not> pst_port r > ucast (hub_port_count hub)" using n by (simp add: valid_port_def not_less)
  from virtusb_control_get_port_status_ok [OF topo v h, of argp] r in_range writable obtain r' where
    user: "virtusb_control_get_port_status c argp s = Some (0, Some (User_port_status r'))" "status_report s c hub r r'"
    by (auto simp: runs_iff)
  then have st: "port_state_of s c hub (pst_port r) (pst_state r')" using n0 by (simp add: status_report_def)
  from virtusb_hcd_get_port_status_ok [OF topo h, of "[0, 0, 0, 0]" "pst_port r"] n obtain w ch where
    usb: "virtusb_hcd_get_port_status c (pst_port r) [0, 0, 0, 0] s = Some (0, le16 w @ le16 ch)"
      "\<forall>b. bit w b \<longleftrightarrow> port_status_bit s c hub (pst_port r) b"
      "\<forall>b. bit ch b \<longleftrightarrow> port_change_bit hub (unat (pst_port r)) b"
    by (auto simp: runs_iff)
  have "ps_status (pst_state r') = ucast (w AND NOT 0x600)"
  proof (rule bit_word_eqI)
    fix n
    have "bit w n \<Longrightarrow> n < 16" using bit_imp_le_length [of w n] by simp
    moreover have "bit (ps_status (pst_state r')) n \<longleftrightarrow> n \<notin> {9, 10} \<and> bit w n"
      using st usb(2) by (simp add: port_state_of_def)
    ultimately show "n < LENGTH(32) \<Longrightarrow> bit (ps_status (pst_state r')) n = bit (ucast (w AND NOT 0x600) :: u32) n"
      by (simp only: bit_unsigned_iff bit_and_iff bit_not_iff speed_bits possible_bit_word) auto
  qed
  moreover have "ps_change (pst_state r') = ucast ch"
  proof (rule bit_word_eqI)
    fix n
    have "bit ch n \<Longrightarrow> n < 16" using bit_imp_le_length [of ch n] by simp
    moreover have "bit (ps_change (pst_state r')) n \<longleftrightarrow> bit ch n" using st usb(3) by (simp add: port_state_of_def)
    ultimately show "n < LENGTH(32) \<Longrightarrow> bit (ps_change (pst_state r')) n = bit (ucast ch :: u32) n"
      by (auto simp: bit_simps)
  qed
  moreover have speed: "ps_speed (pst_state r') = speed_code sp \<longleftrightarrow> packed_speed hub (pst_port r) = sp" for sp
    using st speed_of_speed_code [of sp] by (auto simp: port_state_of_def) (metis speed_of_speed_code)
  then have "bit w 9 \<longleftrightarrow> ps_speed (pst_state r') = speed_code VIRTUSB_PORT_SPEED_LOW"
    "bit w 10 \<longleftrightarrow> ps_speed (pst_state r') = speed_code VIRTUSB_PORT_SPEED_HIGH"
    using usb(2) by (simp_all only:) (simp_all add: port_status_bit_def)
  moreover have "virtusb_control_ioctl mem xa_mem waits f VIRTUSB_IOCTL_GET_PORT_STATUS argp s =
      Some (Some (0, Some (User_port_status r')), s)"
    using user(1) by (simp add: virtusb_control_ioctl_def live_ioctl [OF f] Let_def)
  moreover have "virtusb_hcd_hub_control c GetPortStatus 0 (ucast (pst_port r)) [0, 0, 0, 0] 4 s =
      Some (0, le16 w @ le16 ch, s)"
    using usb(1) by (simp add: virtusb_hcd_hub_control_def port_index [OF n32] Let_def)
  ultimately show ?thesis by blast
qed

definition status_memory :: user_memory where
  "status_memory = example_memory\<lparr>um_writable := True, um_port_status := Some
     \<lparr>pst_hub_id = 0, pst_port = 1, pst_port_count = 0, pst_state = zero_port_state, pst_ports = []\<rparr>\<rparr>"

theorem control_status_agrees_with_usb_witness:
  "\<exists>r' w ch. virtusb_control_ioctl True True [] 5 VIRTUSB_IOCTL_GET_PORT_STATUS status_memory (loaded example_kback) =
      Some (Some (0, Some (User_port_status r')), loaded example_kback) \<and>
    virtusb_hcd_hub_control 0 GetPortStatus 0 1 [0, 0, 0, 0] 4 (loaded example_kback) =
      Some (0, le16 w @ le16 ch, loaded example_kback) \<and>
    ps_status (pst_state r') = ucast (w AND NOT 0x600)"
proof -
  have "load_hub 0 (loaded example_kback) = Some example_hub" by (simp add: example_hubs)
  from control_status_agrees_with_usb [OF control_wf_examples(1) live_loaded this, of status_memory, OF _ _ _ _, of
      "\<lparr>pst_hub_id = 0, pst_port = 1, pst_port_count = 0, pst_state = zero_port_state, pst_ports = []\<rparr>" True True "[]"]
  show ?thesis by (auto simp: status_memory_def valid_port_example)
qed

section \<open>Devices and sessions\<close>

text \<open>C26: DEVICE_CREATE publishes a new detached device under the next unused ID and tells user
  space that ID, with the hubs and all other devices as they were; when it fails, for whatever
  reason and also when the ID cannot be copied out, every object is as before: no device user
  space does not know of stays registered.\<close>

theorem control_device_create_outcome:
  assumes "control_wf held pins s"
  shows "runs (virtusb_control_device_create mem xa_mem argp s) (\<lambda>(ret, out, s'). control_wf held pins s' \<and>
    (case um_device_create argp of
       None \<Rightarrow> ret = - EFAULT \<and> out = None \<and> s' = s
     | Some r \<Rightarrow>
         if \<not> virtusb_control_speed_caps_valid (dc_speed_caps r) then ret = - EINVAL \<and> out = None \<and> s' = s
         else ret < 0 \<and> out = None \<and> (\<forall>d. load_obj d s' = load_obj d s) \<and>
                (\<not> mem \<or> \<not> virtusb_port_speed_is_valid (ucast (dc_speed_caps r)) \<or> next_object_id s > U32_MAX \<or>
                 \<not> xa_mem \<or> \<not> um_writable argp)
            \<or> ret = 0 \<and> um_writable argp \<and> (\<exists>d ob. load_obj d s = None \<and> load_obj d s' = Some ob \<and> obj_registered ob \<and>
                unat (obj_id ob) = unat (next_object_id s) \<and>
                out = Some (User_device_create (r\<lparr>dc_object_id := obj_id ob\<rparr>)) \<and>
                load_port (Dev_port d) s' = Some (upstream_port d (ucast (dc_speed_caps r))) \<and>
                (\<forall>h. load_hub h s' = load_hub h s) \<and>
                (\<forall>e. e \<noteq> d \<longrightarrow> load_obj e s' = load_obj e s \<and>
                   load_port (Dev_port e) s' = load_port (Dev_port e) s))))"
  by (rule runs_mono [OF virtusb_control_device_create_ok [OF assms]]) (simp only: split_paired_all split_conv)

definition create_memory :: "bool \<Rightarrow> user_memory" where
  "create_memory writable = example_memory\<lparr>um_writable := writable, um_device_create := Some
     \<lparr>dc_speed_caps = 6, dc_object_id = 0\<rparr>\<rparr>"

theorem control_device_create_outcome_witness:
  "runs (virtusb_control_device_create True True (create_memory False) (loaded example_kback)) (\<lambda>(ret, out, s').
     ret < 0 \<and> load_obj 3 s' = None)"
proof -
  have "load_obj 3 (loaded example_kback) = None"
    by (simp, simp add: load_obj_def example_kback_def example_kobj_def)
  then show ?thesis
    by (intro runs_mono [OF control_device_create_outcome [OF control_wf_examples(1)]])
       (auto simp: create_memory_def virtusb_control_speed_caps_valid_def)
qed

lemma opened_unique: "opened f c s \<Longrightarrow> opened f c' s \<Longrightarrow> c' = c"
  by (auto simp: opened_def file_opens_def)

text \<open>C27: closing a file ends its session for good: every request that waits for its device or was
  fetched by it is given back with -ESHUTDOWN, each once and in queue order, the requests of
  other devices keep their places, no session anywhere names the file, and a late ioctl on it
  gets -ENODEV.\<close>

theorem control_release_ends_session:
  assumes wf: "control_wf held pins s" and f: "opened f c s" and b: "load_back c s = Some b"
    and bd: "virtusb_backend_find_owner_locked b f = Some bd"
  shows "runs (virtusb_control_release f s) (\<lambda>(ret, s'). ret = 0 \<and> control_wf held pins s' \<and>
    load_back c s' = Some (b\<lparr>bindings := remove1 bd (bindings b),
      pending := filter (\<lambda>r. device_of s r \<noteq> bind_device bd) (pending b),
      active := filter (\<lambda>r. device_of s r \<noteq> bind_device bd) (active b)\<rparr>) \<and>
    (\<exists>gs. givebacks s' = gs @ givebacks s \<and>
       map (\<lambda>(u, _, st). (u, st)) gs =
         rev (map (\<lambda>r. (req_urb r, - ESHUTDOWN)) (filter (\<lambda>r. device_of s r = bind_device bd) (pending b @ active b)))) \<and>
    (\<forall>h b. load_back h s' = Some b \<longrightarrow> f \<notin> bind_owner ` set (bindings b)) \<and>
    (\<forall>mem xa_mem waits command argp.
       virtusb_control_ioctl mem xa_mem waits f command argp s' = Some (Some (- ENODEV, None), s')))"
proof -
  from f obtain fl where fl: "load_file f s = Some fl" by (auto simp: opened_def)
  have wake: "givebacks (wake_up_interruptible_all c s) = givebacks s" by (simp add: wake_up_interruptible_all_def)
  from virtusb_control_release_ok [OF wf fl] obtain s' s1 where
    code: "virtusb_control_release f s = Some (0, s')" and s': "control_wf held pins s'"
      "load_file f s' = Some (fl\<lparr>file_private := None\<rparr>)"
      "\<forall>h b. load_back h s' = Some b \<longrightarrow> f \<notin> bind_owner ` set (bindings b)"
      "s' = put_file f (fl\<lparr>file_private := None\<rparr>) s1"
    and rel: "if \<exists>c. opened f c s then \<exists>c b. opened f c s \<and> load_back c s = Some b \<and> session_released f c b s s1 else s1 = s"
    unfolding runs_iff split_paired_Ex split_conv by blast
  from f have "\<exists>c. opened f c s" ..
  with rel obtain c' b' where c': "opened f c' s" "load_back c' s = Some b'" "session_released f c' b' s s1"
    by (simp only: if_True) blast
  from f c'(1) have "c' = c" by (rule opened_unique)
  with c' b have "session_released f c b s s1" by simp
  with bd have s1: "load_back c s1 = Some (b\<lparr>bindings := remove1 bd (bindings b),
      pending := filter (\<lambda>r. device_of s r \<noteq> bind_device bd) (pending b),
      active := filter (\<lambda>r. device_of s r \<noteq> bind_device bd) (active b)\<rparr>)"
    "gave_back_all c (filter (\<lambda>r. device_of s r = bind_device bd) (pending b @ active b)) (- ESHUTDOWN)
      (wake_up_interruptible_all c s) s1" by (simp_all add: session_released_def)
  have same: "givebacks s' = givebacks s1" by (simp add: s'(4) put_file_def)
  from s1(2) have "\<exists>gs. givebacks s' = gs @ givebacks s \<and>
      map (\<lambda>(u, _, st). (u, st)) gs =
        rev (map (\<lambda>r. (req_urb r, - ESHUTDOWN)) (filter (\<lambda>r. device_of s r = bind_device bd) (pending b @ active b)))"
    unfolding gave_back_all_def wake same by (elim conjE)
  moreover have "virtusb_control_ioctl mem xa_mem waits f command argp s' = Some (Some (- ENODEV, None), s')"
    for mem xa_mem waits command argp
    using s'(2) by (simp add: virtusb_control_ioctl_def file_control_def control_gone_def)
  moreover have "load_back c s' = load_back c s1" by (simp add: s'(4))
  ultimately show ?thesis using code s'(1,3) s1(1) by simp
qed

theorem control_release_ends_session_witness:
  "runs (virtusb_control_release 5 (loaded example_fetched)) (\<lambda>(ret, s'). ret = 0 \<and> load_back 0 s' = Some example_backend)"
proof -
  have f: "opened 5 0 (loaded example_fetched)" using live_loaded by (simp add: live_def)
  have b: "load_back 0 (loaded example_fetched) = Some (moved 5 example_request queued_backend)" by simp
  have bd: "virtusb_backend_find_owner_locked (moved 5 example_request queued_backend) 5 = Some \<lparr>bind_device = 1, bind_owner = 5\<rparr>"
    by (simp add: virtusb_backend_find_owner_locked_def moved_def)
  show ?thesis
    by (rule runs_mono [OF control_release_ends_session [OF control_wf_examples(4) f b bd]])
       (auto simp: moved_def device_of_def queued_backend_def bound_backend_def example_backend_def)
qed

text \<open>C40: a fetch whose result cannot be copied to user space returns -EFAULT and takes nothing: the
  queue of every device, the requests handed out and all transfers and URBs are as before, so the
  next fetch gets the same request. (IDs of requests a session has fetched must differ; they come
  from a 64-bit counter.)\<close>

theorem control_fetch_copy_failure:
  assumes wf: "control_wf held pins s" and f: "live f c s" and b: "load_back c s = Some b"
    and bd: "virtusb_backend_find_owner_locked b f = Some bd"
    and q: "device_queue s b (bind_device bd) = r # rs"
    and tr: "load_trans (req_transfer r) s = Some tr" and id0: "t_id tr \<noteq> 0"
    and fresh: "fetched_as f (t_id tr) s b = None" and argp: "\<not> um_writable argp"
  shows "runs (virtusb_control_ioctl True xa_mem waits f VIRTUSB_IOCTL_TRANSFER_FETCH argp s) (\<lambda>(result, s').
    result = Some (- EFAULT, None) \<and> back_wf held pins s' \<and>
    (\<exists>b'. load_back c s' = Some b' \<and> active b' = active b \<and> bindings b' = bindings b \<and> stopping b' = stopping b \<and>
       (\<forall>d. device_queue s' b' d = device_queue s b d)) \<and>
    (\<forall>t. load_trans t s' = load_trans t s) \<and> (\<forall>u. load_urb u s' = load_urb u s))"
proof -
  have opened: "opened f c s" using f by (simp add: live_def)
  from opened wf obtain fl v where fl: "load_file f s = Some fl"
    and v: "load_hcd c s = Some v" "ctl_hcd (vh_control v) = Some c" by (rule openedE)
  have "r \<in> set (device_queue s b (bind_device bd))" by (simp add: q)
  then have "device_of s r = bind_device bd" by (simp add: device_queue_def)
  with tr have "t_device tr = bind_device bd" by (simp add: device_of_def)
  with back_wfD(1) [OF control_wfD(1) [OF wf]] tr obtain ob where ob: "load_obj (bind_device bd) s = Some ob"
    using user_device(2) by metis
  let ?s1 = "put_back c (moved f r b) s"
  note fetch = virtusb_backend_fetch_ok(1) [OF control_wfD(1) [OF wf] b bd q tr ob]
  from virtusb_backend_rollback_undoes [OF control_wfD(1) [OF wf] b bd q tr id0 fresh, of zero_fetch "file_nonblock fl" waits]
  obtain s2 where s2: "virtusb_backend_fetch_rollback (Some c) (Some f) (t_id tr) ?s1 = Some (0, s2)"
      "back_wf held pins s2"
      "\<exists>b'. load_back c s2 = Some b' \<and> active b' = active b \<and> bindings b' = bindings b \<and> stopping b' = stopping b \<and>
         (\<forall>d. device_queue s2 b' d = device_queue s b d)"
      "\<forall>t. load_trans t s2 = load_trans t s" "\<forall>u. load_urb u s2 = load_urb u s"
    by (auto simp: fetch runs_iff)
  have "virtusb_control_ioctl True xa_mem waits f VIRTUSB_IOCTL_TRANSFER_FETCH argp s = Some (Some (- EFAULT, None), s2)"
    using v fl argp s2(1)
    by (simp add: virtusb_control_ioctl_def live_ioctl [OF f] Let_def ioctl_distinct virtusb_control_transfer_fetch_def
        fetch fetch_of_def)
  with s2(2-5) show ?thesis by simp
qed

theorem control_fetch_copy_failure_witness:
  "runs (virtusb_control_ioctl True True [] 5 VIRTUSB_IOCTL_TRANSFER_FETCH example_memory (loaded example_queued))
     (\<lambda>(result, s'). result = Some (- EFAULT, None) \<and>
        (\<exists>b. load_back 0 s' = Some b \<and> active b = [] \<and> device_queue s' b 1 = [example_request]))"
proof -
  have "fetched_as 5 (t_id (example_transfer\<lparr>t_refcount := 2, t_state := VIRTUSB_TRANSFER_STATE_QUEUED\<rparr>))
      (loaded example_queued) queued_backend = None" by (simp add: fetched_as_def)
  note failure = control_fetch_copy_failure [OF control_wf_examples(3) live_loaded _ example_session(1),
      of example_request "[]", OF _ _ _ _ this, of example_memory True "[]"]
  have q: "device_queue (loaded example_queued) queued_backend (Suc 0) = [example_request]"
    using example_queue by (simp add: device_queue_def device_of_def)
  show ?thesis
    by (rule runs_mono [OF failure]) (auto simp: q example_memory_def)
qed

end
