(* ===== verification/Virtusb_Lifecycle.thy ===== *)
theory Virtusb_Lifecycle
  imports Virtusb_Module_Props Virtusb_Char_Device
begin

text \<open>
  The properties of the life of a controller and of the module: the outcome of probing, removing,
  loading and unloading, error paths included.
\<close>

section \<open>The driver of the examples\<close>

text \<open>
  The platform device 20 is bound to the controller at address 0; the platform device 21 asks for a
  controller with four ports. The USB core does nothing on its own.
\<close>

definition platform :: "(nat \<rightharpoonup> platform_device) \<Rightarrow> khcd \<Rightarrow> kplat" where
  "platform ps s = (khcd.extend s (kplat.fields ps (\<lambda>h. h = 0) True))
     \<lparr>virtusb_control_instance_count := 2, chrdev_regions := [(0x0f000000, 2)]\<rparr>"

definition bound_pdev :: platform_device where
  "bound_pdev = \<lparr>pdev_id = 0, pdev_port_count = Some 31, pdev_drvdata = Some 0, pdev_bound = True\<rparr>"

definition new_pdev :: platform_device where
  "new_pdev = \<lparr>pdev_id = 1, pdev_port_count = Some 4, pdev_drvdata = None, pdev_bound = False\<rparr>"

definition agreeable :: "nat \<Rightarrow> 's hcd_answers" where
  "agreeable i = \<lparr>ans_pdev = Some (100 + i), ans_add_data = 0, ans_device_add = 0, ans_hcd = Some (50 + i),
     ans_add_hcd = (\<lambda>h s. (0, s)), ans_cdev = 0, ans_device = Inr (70 + i)\<rparr>"

lemma new_pdev_sel [simp]:
  "pdev_id new_pdev = 1" "pdev_port_count new_pdev = Some 4" "pdev_drvdata new_pdev = None"
  "pdev_drvdata bound_pdev = Some 0" "pdev_id bound_pdev = 0" "pdev_bound bound_pdev"
  by (simp_all add: new_pdev_def bound_pdev_def)

lemma agreeable_sel [simp]:
  "ans_pdev (agreeable i) = Some (100 + i)" "ans_hcd (agreeable i) = Some (50 + i)"
  "ans_cdev (agreeable i) = 0" "ans_device (agreeable i) = Inr (70 + i)"
  by (simp_all add: agreeable_def)

lemma platform_sel [simp]:
  "load_hcd h (platform ps s) = load_hcd h s" "load_file f (platform ps s) = load_file f s" "load_pdev p (platform ps s) = ps p"
  "load_back h (platform ps s) = load_back h s" "load_hub h (platform ps s) = load_hub h s"
  "load_urb u (platform ps s) = load_urb u s"
  "cdevs (platform ps s) = cdevs s" "class_devices (platform ps s) = class_devices s" "givebacks (platform ps s) = givebacks s"
  "virtusb_control_class (platform ps s) = virtusb_control_class s"
  "virtusb_control_instance_count (platform ps s) = 2" "chrdev_regions (platform ps s) = [(0x0f000000, 2)]"
  "classes (platform ps s) = classes s"
  "virtusb_control_base_devt (platform ps s) = virtusb_control_base_devt s"
  by (simp_all add: platform_def load_hcd_def load_file_def load_pdev_def load_back_def load_hub_def load_urb_def
      khcd.defs kplat.defs)

lemma loaded_char [simp]:
  "cdevs (loaded s) = [0x0f000000]" "class_devices (loaded s) = [0x0f000000]" "classes (loaded s) = [30]"
  "virtusb_control_class (loaded s) = Some 30" "virtusb_control_base_devt (loaded s) = 0x0f000000"
  "givebacks (loaded s) = givebacks s"
  by (simp_all add: loaded_def kback.defs khcd.defs)

lemma control_wf_platform_ex: "control_wf held pins (platform ps s) = control_wf held pins s"
  by (rule control_wf_views) (simp_all add: platform_def kback.defs khcd.defs load_hcd_def load_file_def)

lemma core_agreeable: "core_behaves 0 (agreeable i) (\<lambda>h s. s)"
  by (simp add: core_behaves_def agreeable_def)

section \<open>Probing and removing\<close>

text \<open>C28: probing a platform device returns the first error of its steps, in their order, and
  then leaves no controller, no character device and no driver data; or it succeeds, and then the
  controller is in service: its root hub has the ports asked for and nothing plugged in, its changes
  reach the USB core, its backend accepts sessions and its character device is the one of its
  instance. Either way the invariant holds, and every other controller is as before with its root hub
  and its backend, as are the other platform devices, all files and the registry of objects.\<close>

theorem platform_probe_outcome:
  assumes "control_wf held pins s" and "load_pdev p s = Some pdev" and "pdev_drvdata pdev = None"
    and "\<And>h. ans_hcd ans = Some h \<Longrightarrow> load_hcd h s = None \<and> load_hub h s = None"
    and "core_behaves add_ret ans usb_remove_hcd"
  shows "runs (virtusb_hcd_platform_probe usb_remove_hcd ans p s) (\<lambda>(ret, s').
    ret = probe_error add_ret ans pdev s \<and> control_wf held pins s' \<and>
    (case ans_hcd ans of None \<Rightarrow> s' = s | Some h \<Rightarrow> others_keep h p s s') \<and>
    (if ret < 0
     then load_pdev p s' = Some pdev \<and> cdevs s' = cdevs s \<and> class_devices s' = class_devices s \<and>
       (\<forall>h. ans_hcd ans = Some h \<longrightarrow> load_hcd h s' = None \<and> load_back h s' = None \<and> load_hub h s' = None)
     else ret = 0 \<and> (\<exists>h n. ans_hcd ans = Some h \<and> pdev_port_count pdev = Some n \<and>
       load_pdev p s' = Some (pdev\<lparr>pdev_drvdata := Some h\<rparr>) \<and>
       (let devt = instance_devt (pdev_id pdev) s in
          in_service h (pdev_id pdev) devt n s' \<and> cdevs s' = devt # cdevs s \<and> class_devices s' = devt # class_devices s))))"
  by (rule virtusb_hcd_platform_probe_ok [OF assms])

theorem platform_probe_outcome_witness:
  "runs (virtusb_hcd_platform_probe (\<lambda>h s. s) (agreeable 0) 21 (platform [21 \<mapsto> new_pdev] (loaded example_bound)))
     (\<lambda>(ret, s'). ret = 0 \<and> in_service 50 1 0x0f000001 4 s' \<and> cdevs s' = [0x0f000001, 0x0f000000])"
proof -
  let ?s = "platform [21 \<mapsto> new_pdev] (loaded example_bound)"
  have wf: "control_wf (\<lambda>_. 0) ((\<lambda>_. 0)(3 := 1)) ?s" using control_wf_examples by (simp add: control_wf_platform_ex)
  have free: "load_hcd h ?s = None \<and> load_hub h ?s = None" if "ans_hcd (agreeable 0) = Some h" for h
    using that by (auto simp: example_hubs) (simp add: loaded_def load_hcd_def kback.defs khcd.defs)
  have res: "probe_error 0 (agreeable 0) new_pdev ?s = 0" "instance_devt 1 ?s = 0x0f000001"
    by (simp_all add: probe_error_def instance_error_def instance_devt_def MKDEV_def MAJOR_def MINOR_def word_le_nat_alt)
  have "load_pdev 21 ?s = Some new_pdev" by simp
  note probe = platform_probe_outcome [where ans = "agreeable 0", OF wf this _ _ core_agreeable]
  show ?thesis by (rule runs_mono [OF probe]) (use free in \<open>auto simp: res Let_def\<close>)
qed

text \<open>C29: removing the platform device of a controller in service succeeds and gives every URB that is
  pending or active back to the USB core with -ESHUTDOWN, first the pending ones in the order of the
  queue, then the active ones in theirs; the controller, its backend and its root hub are freed and
  its character device is gone. Every other controller is as before with its root hub and its backend,
  as are the other platform devices, all files and the registry of objects. The invariant holds again
  if no device is plugged in and no file is open on the controller.\<close>

theorem platform_remove_outcome:
  assumes "control_wf held pins s" and "load_pdev p s = Some pdev" and "pdev_drvdata pdev = Some h"
    and "load_hcd h s = Some v" and "ctl_active (vh_control v)" and "load_back h s = Some b"
    and "load_hub h s = Some hub" and "\<And>h s. core_steps h s (usb_remove_hcd h s)"
  shows "runs (virtusb_hcd_platform_remove usb_remove_hcd p s) (\<lambda>s'.
    load_hcd h s' = None \<and> load_back h s' = None \<and> load_hub h s' = None \<and>
    load_pdev p s' = Some (pdev\<lparr>pdev_drvdata := None\<rparr>) \<and> others_keep h p s s' \<and>
    cdevs s' = remove1 (ctl_devt (vh_control v)) (cdevs s) \<and>
    class_devices s' = remove1 (ctl_devt (vh_control v)) (class_devices s) \<and>
    (\<forall>f. load_file f s' = load_file f s) \<and>
    (\<exists>gs. givebacks s' = gs @ givebacks s \<and>
       map (\<lambda>(u, _, st). (u, st)) gs = rev (map (\<lambda>r. (req_urb r, - ESHUTDOWN)) (pending b @ active b))) \<and>
    (hub_idle hub \<and> (\<forall>f fl. load_file f s = Some fl \<longrightarrow> \<not> file_opens h fl) \<longrightarrow> control_wf held pins s'))"
  by (rule virtusb_hcd_platform_remove_ok [OF assms])

theorem platform_remove_outcome_witness:
  "runs (virtusb_hcd_platform_remove (\<lambda>h s. s) 20 (platform [20 \<mapsto> bound_pdev] (loaded example_queued)))
     (\<lambda>s'. load_hcd 0 s' = None \<and> cdevs s' = [] \<and> load_file 5 s' = Some example_file \<and>
        (\<exists>gs. givebacks s' = gs @ givebacks example_queued \<and> map (\<lambda>(u, _, st). (u, st)) gs = [(9, - ESHUTDOWN)]))"
proof -
  let ?s = "platform [20 \<mapsto> bound_pdev] (loaded example_queued)"
  have wf: "control_wf (\<lambda>_. 0) ((\<lambda>_. 0)(3 := 1)) ?s" using control_wf_examples by (simp add: control_wf_platform_ex)
  have "load_hub 0 ?s = Some example_hub" "load_hcd 0 ?s = Some example_hcd" "load_back 0 ?s = Some queued_backend"
    "load_pdev 20 ?s = Some bound_pdev"
    by (simp_all add: example_hubs)
  note remove = platform_remove_outcome [OF wf this(4) _ this(2) _ this(3,1), of "\<lambda>h s. s"]
  show ?thesis by (rule runs_mono [OF remove]) (auto simp: example_hcd_def)
qed

section \<open>Loading and unloading\<close>

text \<open>The module is loaded with one controller, which has a device plugged in; then it is not loaded.\<close>

definition module_up :: kmod where
  "module_up = kplat.extend (platform [20 \<mapsto> bound_pdev] ((loaded example_kback)\<lparr>files := \<lambda>_. None\<rparr>))
     (kmod.fields 2 (Some [Some 20, None]) 1)"

definition module_down :: kmod where
  "module_down = kplat.extend (khcd.extend (kback.extend (ktrans.extend (kobj.extend (topo.extend
       (topo.make (\<lambda>_. None) (\<lambda>_. None) []) (kobj.fields (\<lambda>_. None) xa_none 1 0)) (ktrans.fields (\<lambda>_. None) 0))
       (kback.fields (\<lambda>_. None) (\<lambda>_. None) (\<lambda>_. False) [] []))
       (khcd.fields (\<lambda>_. None) (\<lambda>_. None) 0 None 0 [] [] [] []))
       (kplat.fields (\<lambda>_. None) (\<lambda>_. False) False))
     (kmod.fields 2 None 0)"

lemma module_out_down: "module_out [] [] [] module_down"
proof -
  have none: "load_obj d module_down = None" "load_trans t module_down = None" "load_back h module_down = None"
    "load_hub h module_down = None" "load_hcd h module_down = None" "load_file f module_down = None" "load_pdev p module_down = None"
    "load_urb u module_down = None" "load_port a module_down = None" "dev_ports module_down x = None" for d t h f p u a x
    by (simp_all add: module_down_def load_obj_def load_trans_def load_back_def load_hub_def load_hcd_def load_file_def
        load_pdev_def load_urb_def topo.defs kobj.defs ktrans.defs kback.defs khcd.defs kplat.defs kmod.defs)
       (cases a; simp add: load_port.simps load_hub_def)
  have fields: "registry module_down = xa_none" "next_object_id module_down = 1" "linked module_down = (\<lambda>_. False)"
    "next_addr module_down = 0"
    by (simp_all add: module_down_def topo.defs kobj.defs ktrans.defs kback.defs khcd.defs kplat.defs kmod.defs)
  have reqs: "requests module_down = {}" "sessions d module_down = {}" "users d module_down = {}" "queued module_down = {}" for d
    by (auto simp: requests_def sessions_def users_def queued_def none)
  have "ports_wf module_down" by (rule ports_wfI) (simp_all add: none)
  then have "topo_wf module_down" by (simp add: topo_wf_upto_def none)
  then have "control_wf (\<lambda>_. 0) (\<lambda>_. 0) module_down"
    by (simp add: control_wf_def back_wf_upto_def trans_wf_def dev_wf_def obj_wf_def back_struct_def ctl_ok_def none fields reqs
        xa.load_empty)
  then show ?thesis
    by (simp add: module_out_def no_open_file_def deserted_def none fields xa.is_empty_load xa.load_empty)
       (simp add: module_down_def topo.defs kobj.defs ktrans.defs kback.defs khcd.defs kplat.defs kmod.defs)
qed

lemma init_succeeds:
  "map_option fst (virtusb_module_init True (Inr 0x0f000000) (Inr 30) 0 agreeable (\<lambda>h s. s) module_down) = Some 0"
  by code_simp

text \<open>C30: loading the module either fails and leaves nothing behind - no controller, hub, platform
  device, device number, class, driver or object, whatever failed first and however many controllers
  had been created - or creates the controllers asked for, each on a platform device of its own, with
  the character device of its instance, and with nothing plugged in.\<close>

theorem module_init_outcome:
  assumes "module_out rest clss regs s" and "fresh_answers ans"
    and "\<And>i. core_behaves (add_ret i) (ans i) usb_remove_hcd"
    and "\<And>e. region_answer = Inl e \<Longrightarrow> e < 0" and "\<And>e. class_answer = Inl e \<Longrightarrow> e < 0"
  shows "runs (virtusb_module_init mem region_answer class_answer driver_answer ans usb_remove_hcd s) (\<lambda>(ret, s').
    ret \<le> 0 \<and>
    (if ret < 0 then module_out rest clss regs s'
     else \<exists>cs. module_in rest clss regs cs s' \<and> length cs = unat (hcd_count s) \<and> quiet s' \<and>
       (\<forall>i < length cs. ans_pdev (ans i) = Some (fst (cs ! i)) \<and> ans_hcd (ans i) = Some (fst (snd (cs ! i))) \<and>
          snd (snd (cs ! i)) = instance_devt (word_of_nat i) s')))"
  by (rule runs_mono [OF virtusb_module_init_ok [OF assms]]) (auto simp: creating_def)

lemma fresh_agreeable: "fresh_answers agreeable"
  by (simp add: fresh_answers_def)

theorem module_init_outcome_witness:
  "\<exists>s' c d. virtusb_module_init True (Inr 0x0f000000) (Inr 30) 0 agreeable (\<lambda>h s. s) module_down = Some (0, s') \<and>
     module_in [] [] [] [c, d] s' \<and> fst d = 101"
proof -
  have count: "unat (hcd_count module_down) = 2" by (simp add: module_down_def kmod.defs kplat.defs)
  from init_succeeds obtain s' where
    run: "virtusb_module_init True (Inr 0x0f000000) (Inr 30) 0 agreeable (\<lambda>h s. s) module_down = Some (0, s')" by auto
  have "\<exists>cs. module_in [] [] [] cs s' \<and> length cs = 2 \<and> (\<forall>i < 2. 100 + i = fst (cs ! i))"
    using module_init_outcome [where add_ret = "\<lambda>_. 0", OF module_out_down fresh_agreeable core_agreeable,
        of "Inr 0x0f000000" "Inr 30" True 0] by (auto simp: run count)
  then obtain cs where cs: "module_in [] [] [] cs s'" "length cs = 2" and all: "\<forall>i < 2. 100 + i = fst (cs ! i)" by blast
  have hd: "fst (cs ! 1) = 101" using spec [OF all, of 1] by simp
  from cs(2) obtain c d where "cs = [c, d]" by (auto simp: numeral_2_eq_2 length_Suc_conv)
  with run cs(1) hd show ?thesis by (intro exI [of _ s'] exI [of _ c] exI [of _ d]) simp
qed

text \<open>C31: with no file open, unloading the module ends, whatever is plugged in or registered. First all
  devices are withdrawn, so that nothing is plugged in and the registry is empty; then the controllers
  are destroyed in the reverse order of their creation, each while exactly those created before it
  remain; and in the end nothing is left - no object, no transfer, no URB on an endpoint, no
  character device, no class, no device number.\<close>

theorem module_exit_terminates:
  assumes "module_in rest clss regs cs s" and "no_open_file s" and "\<And>h s. core_steps h s (usb_remove_hcd h s)"
  shows "\<exists>s1 s2 s'. virtusb_device_shutdown_all s = Some s1 \<and> xa_empty (registry s1) \<and> quiet s1 \<and>
    virtusb_module_destroy_hcds usb_remove_hcd s1 = Some s2 \<and> destroyed_in_turn usb_remove_hcd rest (rev cs) s1 s2 \<and>
    virtusb_module_exit usb_remove_hcd s = Some s' \<and> module_out rest clss regs s'"
  by (rule virtusb_module_exit_ok [OF assms])

lemma module_in_up: "module_in [] [] [] [(20, 0, 0x0f000000)] module_up"
proof -
  let ?t = "(loaded example_kback)\<lparr>files := \<lambda>_. None\<rparr>"
  have view: "load_hcd h module_up = (if h = 0 then Some example_hcd else None)" "load_file f module_up = None"
    "load_hub h module_up = load_hub h example_kback" "load_back h module_up = load_back h example_kback"
    "load_pdev p module_up = [20 \<mapsto> bound_pdev] p" for h f p
    by (simp_all add: module_up_def platform_def loaded_def load_hcd_def load_file_def load_hub_def load_back_def load_pdev_def
        kback.defs khcd.defs kplat.defs kmod.defs)
  have "kback.truncate module_up = kback.truncate example_kback"
    by (cases example_kback) (simp add: module_up_def platform_def loaded_def kback.defs khcd.defs kplat.defs kmod.defs)
  from back_wf_truncate [OF this] have "back_wf (\<lambda>_. 0) (\<lambda>_. 0) module_up" using back_wf_example by simp
  moreover have "ctl_ok module_up"
    unfolding ctl_ok_def
  proof (intro conjI allI impI)
    fix h v assume "load_hcd h module_up = Some v"
    then have "h = 0" "v = example_hcd" by (simp_all add: view split: if_splits)
    then show "hcd_ok module_up h v"
      using example_backs(1) [of 0] by (simp add: hcd_ok_def view example_hubs example_hcd_def)
  next
    fix h b assume "load_back h module_up = Some b"
    then show "load_hcd h module_up \<noteq> None" using example_backs(1) [of h] by (simp add: view)
  next
    fix h b bd assume b: "load_back h module_up = Some b" "bd \<in> set (bindings b)"
    then have "b = example_backend"
      unfolding view by (simp add: load_back_def example_kback_def split: if_splits)
    with b(2) show "\<exists>fl. load_file (bind_owner bd) module_up = Some fl \<and> file_opens h fl" by (simp add: example_backend_def)
  qed (simp_all add: view)
  ultimately have wf: "control_wf (\<lambda>_. 0) (\<lambda>_. 0) module_up" by (simp add: control_wf_def)
  have "bound_hcd module_up (20, 0, 0x0f000000)" by (simp add: bound_hcd_def view example_hcd_def)
  then have "controllers [] [(20, 0, 0x0f000000)] module_up"
    by (simp add: controllers_def view example_hubs)
       (simp add: module_up_def platform_def loaded_def kback.defs khcd.defs kplat.defs kmod.defs)
  with wf show ?thesis
    by (simp add: module_in_def module_up_def platform_def loaded_def kback.defs khcd.defs kplat.defs kmod.defs)
qed

text \<open>Loaded with two controllers by \<open>virtusb_module_init\<close>.\<close>

lemma init_two:
  obtains s c d where "virtusb_module_init True (Inr 0x0f000000) (Inr 30) 0 agreeable (\<lambda>h s. s) module_down = Some (0, s)"
    and "module_in [] [] [] [c, d] s" and "fst d = 101" and "no_open_file s"
proof -
  have count: "unat (hcd_count module_down) = 2" by (simp add: module_down_def kmod.defs kplat.defs)
  from init_succeeds obtain s where
    run: "virtusb_module_init True (Inr 0x0f000000) (Inr 30) 0 agreeable (\<lambda>h s. s) module_down = Some (0, s)" by auto
  have "\<exists>cs. module_in [] [] [] cs s \<and> creating agreeable [] cs 2 s \<and> length cs = 2"
    using virtusb_module_init_ok [where add_ret = "\<lambda>_. 0", OF module_out_down fresh_agreeable core_agreeable,
        of "Inr 0x0f000000" "Inr 30" True 0] by (auto simp: run count)
  then obtain cs where cs: "module_in [] [] [] cs s" "creating agreeable [] cs 2 s" "length cs = 2" by blast
  then obtain c d where cd: "cs = [c, d]" by (auto simp: numeral_2_eq_2 length_Suc_conv)
  have "\<forall>i < length cs. ans_pdev (agreeable i) = Some (fst (cs ! i))" and quiet: "quiet s"
    using cs(2) by (simp_all add: creating_def)
  from spec [OF this(1), of 1] have "fst d = 101" by (simp add: cd)
  with that [of s c d] run cs(1) cd quiet show thesis by (simp add: quiet_def)
qed

theorem module_exit_terminates_witness:
  "(\<exists>s'. virtusb_module_exit (\<lambda>h s. s) module_up = Some s' \<and> module_out [] [] [] s') \<and>
   (\<exists>s c d s1 s2. virtusb_module_init True (Inr 0x0f000000) (Inr 30) 0 agreeable (\<lambda>h s. s) module_down = Some (0, s) \<and>
      fst d = 101 \<and> virtusb_device_shutdown_all s = Some s1 \<and> destroyed_in_turn (\<lambda>h s. s) [] [d, c] s1 s2 \<and>
      (\<exists>s'. virtusb_module_exit (\<lambda>h s. s) s = Some s' \<and> module_out [] [] [] s'))"
proof
  have "no_open_file module_up"
    by (simp add: no_open_file_def module_up_def platform_def loaded_def load_file_def kback.defs khcd.defs kplat.defs kmod.defs)
  with module_exit_terminates [OF module_in_up, of "\<lambda>h s. s"]
  show "\<exists>s'. virtusb_module_exit (\<lambda>h s. s) module_up = Some s' \<and> module_out [] [] [] s'" by auto
next
  obtain s c d where s: "virtusb_module_init True (Inr 0x0f000000) (Inr 30) 0 agreeable (\<lambda>h s. s) module_down = Some (0, s)"
    "module_in [] [] [] [c, d] s" "fst d = 101" "no_open_file s" by (rule init_two)
  from module_exit_terminates [OF s(2,4), of "\<lambda>h s. s"] obtain s1 s2 s' where
    "virtusb_device_shutdown_all s = Some s1" "destroyed_in_turn (\<lambda>h s. s) [] (rev [c, d]) s1 s2"
    "virtusb_module_exit (\<lambda>h s. s) s = Some s'" "module_out [] [] [] s'" by auto
  with s(1,3) show "\<exists>s c d s1 s2.
      virtusb_module_init True (Inr 0x0f000000) (Inr 30) 0 agreeable (\<lambda>h s. s) module_down = Some (0, s) \<and>
      fst d = 101 \<and> virtusb_device_shutdown_all s = Some s1 \<and> destroyed_in_turn (\<lambda>h s. s) [] [d, c] s1 s2 \<and>
      (\<exists>s'. virtusb_module_exit (\<lambda>h s. s) s = Some s' \<and> module_out [] [] [] s')"
    unfolding rev.simps append.simps by blast
qed

end
