(* ===== verification/Virtusb_Libc.thy ===== *)
theory Virtusb_Libc
  imports Virtusb_Prelude
begin

text \<open>
  What the user-space programs use of the C library: printing numbers, \<open>strtoul\<close> with base 0,
  \<open>strtok_r\<close> and padding. A C string is the list of its characters before the terminator;
  \<open>unsigned long\<close> has 64 bits. Errors that only user space sees are here too.
\<close>

abbreviation ERANGE :: int where "ERANGE \<equiv> 34"
abbreviation ENAMETOOLONG :: int where "ENAMETOOLONG \<equiv> 36"
abbreviation newline :: string where "newline \<equiv> [CHR 0x0A]"

section \<open>Printing\<close>

definition digit_char :: "nat \<Rightarrow> char" where
  "digit_char d = ''0123456789abcdef'' ! d"

function number_string :: "nat \<Rightarrow> nat \<Rightarrow> string" where
  "number_string base n =
     (if base < 2 \<or> n < base then [digit_char n] else number_string base (n div base) @ [digit_char (n mod base)])"
  by auto
termination by (relation "measure snd") auto

declare number_string.simps [simp del]

text \<open>The conversions \<open>%u\<close>, \<open>%llu\<close>, \<open>%0wx\<close> and \<open>%-ws\<close>.\<close>

definition print_u :: "u32 \<Rightarrow> string" where
  "print_u x = number_string 10 (unat x)"

definition print_llu :: "u64 \<Rightarrow> string" where
  "print_llu x = number_string 10 (unat x)"

definition print_x :: "nat \<Rightarrow> 'a::len word \<Rightarrow> string" where
  "print_x width x = (let digits = number_string 16 (unat x) in replicate (width - length digits) CHR ''0'' @ digits)"

definition print_left :: "nat \<Rightarrow> string \<Rightarrow> string" where
  "print_left width text = text @ replicate (width - length text) CHR '' ''"

text \<open>\<open>snprintf\<close> writes as much as fits, with the terminator, and returns the length of the whole.\<close>

definition snprintf :: "nat \<Rightarrow> string \<Rightarrow> nat \<times> string" where
  "snprintf n text = (length text, take (n - 1) text)"

section \<open>Reading numbers\<close>

definition is_space :: "char \<Rightarrow> bool" where
  "is_space c \<longleftrightarrow> c = CHR '' '' \<or> (9 \<le> (of_char c :: nat) \<and> (of_char c :: nat) \<le> 13)"

definition digit_value :: "nat \<Rightarrow> char \<Rightarrow> nat option" where
  "digit_value base c =
     (let k = of_char c;
          v = (if 48 \<le> k \<and> k \<le> 57 then k - 48
               else if 97 \<le> k \<and> k \<le> 122 then k - 87
               else if 65 \<le> k \<and> k \<le> 90 then k - 55
               else 36)
      in if v < base then Some v else None)"

fun scan_digits :: "nat \<Rightarrow> nat \<Rightarrow> string \<Rightarrow> nat \<times> string" where
  "scan_digits base acc [] = (acc, [])"
| "scan_digits base acc (c # cs) =
     (case digit_value base c of None \<Rightarrow> (acc, c # cs) | Some v \<Rightarrow> scan_digits base (base * acc + v) cs)"

text \<open>
  After the sign: a prefix \<open>0x\<close> before a hexadecimal digit selects base 16, another leading 0 base
  8. The result is the value and the rest of the text, \<^const>\<open>None\<close> when there is no number.
\<close>

definition scan_number :: "string \<Rightarrow> (nat \<times> string) option" where
  "scan_number text =
     (case text of
        c # x # d # cs \<Rightarrow>
          if c = CHR ''0'' \<and> (x = CHR ''x'' \<or> x = CHR ''X'') \<and> digit_value 16 d \<noteq> None
          then Some (scan_digits 16 0 (d # cs))
          else if c = CHR ''0'' then Some (scan_digits 8 0 text)
          else if digit_value 10 c \<noteq> None then Some (scan_digits 10 0 text) else None
      | c # cs \<Rightarrow>
          if c = CHR ''0'' then Some (scan_digits 8 0 text)
          else if digit_value 10 c \<noteq> None then Some (scan_digits 10 0 text) else None
      | [] \<Rightarrow> None)"

text \<open>
  \<open>strtoul (text, &end, 0)\<close>: the value, what \<open>end\<close> points to, and whether \<open>errno\<close> becomes ERANGE. A
  minus sign negates the value in \<open>unsigned long\<close>; without a number \<open>end\<close> is the whole text.
\<close>

definition strtoul :: "string \<Rightarrow> u64 \<times> string \<times> bool" where
  "strtoul text =
     (let body = dropWhile is_space text;
          minus = (body \<noteq> [] \<and> hd body = CHR ''-'');
          digits = (if body \<noteq> [] \<and> (hd body = CHR ''-'' \<or> hd body = CHR ''+'') then tl body else body)
      in case scan_number digits of
           None \<Rightarrow> (0, text, False)
         | Some (n, rest) \<Rightarrow>
             if n > 2 ^ 64 - 1 then (- 1, rest, True)
             else (if minus then - of_nat n else of_nat n, rest, False))"

section \<open>Tokens\<close>

text \<open>\<open>strtok_r\<close> skips delimiters and splits off the text up to the next one.\<close>

definition strtok_r :: "char \<Rightarrow> string \<Rightarrow> (string \<times> string) option" where
  "strtok_r delim text =
     (let body = dropWhile (\<lambda>c. c = delim) text
      in if body = [] then None
         else Some (takeWhile (\<lambda>c. c \<noteq> delim) body, drop 1 (dropWhile (\<lambda>c. c \<noteq> delim) body)))"

lemma strtok_r_shrinks:
  assumes "strtok_r delim text = Some (token, rest)"
  shows "length rest < length text"
proof -
  let ?body = "dropWhile (\<lambda>c. c = delim) text"
  from assms have "?body \<noteq> []" and rest: "rest = drop 1 (dropWhile (\<lambda>c. c \<noteq> delim) ?body)"
    by (auto simp: strtok_r_def Let_def split: if_splits)
  then have "length rest < length ?body"
    using length_dropWhile_le [of "\<lambda>c. c \<noteq> delim" ?body] by (cases "dropWhile (\<lambda>c. c \<noteq> delim) ?body"; cases ?body) auto
  also have "\<dots> \<le> length text" by (rule length_dropWhile_le)
  finally show ?thesis .
qed

section \<open>Numbers read back\<close>

lemma less_16_cases:
  assumes "(d::nat) < 16"
  shows "d \<in> {0, 1, 2, 3, 4, 5, 6, 7, 8, 9, 10, 11, 12, 13, 14, 15}"
proof -
  have "{..<16::nat} = {0, 1, 2, 3, 4, 5, 6, 7, 8, 9, 10, 11, 12, 13, 14, 15}" by code_simp
  with assms show ?thesis by blast
qed

lemma digit_value_char:
  assumes "d < base" "base \<le> 16"
  shows "digit_value base (digit_char d) = Some d"
proof -
  from assms less_16_cases [of d] show ?thesis by (auto simp: digit_value_def digit_char_def)
qed

lemma digit_char_facts:
  assumes "d < 10"
  shows "digit_char d = CHR ''0'' \<longleftrightarrow> d = 0" "\<not> is_space (digit_char d)" "digit_char d \<noteq> CHR ''-''" "digit_char d \<noteq> CHR ''+''"
proof -
  from assms have "d \<in> {0, 1, 2, 3, 4, 5, 6, 7, 8, 9}" by auto
  then show "digit_char d = CHR ''0'' \<longleftrightarrow> d = 0" "\<not> is_space (digit_char d)" "digit_char d \<noteq> CHR ''-''" "digit_char d \<noteq> CHR ''+''"
    by (auto simp: is_space_def digit_char_def)
qed

lemma scan_digits_append:
  assumes "\<forall>c \<in> set cs. digit_value base c \<noteq> None"
  shows "scan_digits base acc (cs @ ds) = scan_digits base (fold (\<lambda>c a. base * a + the (digit_value base c)) cs acc) ds"
  using assms by (induction cs arbitrary: acc) auto

lemma number_string_digits:
  assumes "2 \<le> base" "base \<le> 16"
  shows "(\<forall>c \<in> set (number_string base n). digit_value base c \<noteq> None) \<and>
    fold (\<lambda>c a. base * a + the (digit_value base c)) (number_string base n) acc = base ^ length (number_string base n) * acc + n"
proof (induction n arbitrary: acc rule: less_induct)
  case (less n)
  show ?case
  proof (cases "n < base")
    case True
    with assms show ?thesis by (simp add: number_string.simps [of base n] digit_value_char)
  next
    case False
    with assms have "n div base < n" by simp
    note IH = less.IH [OF this]
    have "digit_value base (digit_char (n mod base)) = Some (n mod base)"
      using assms by (intro digit_value_char) simp_all
    with False IH [of acc] assms show ?thesis
      by (simp add: number_string.simps [of base n] algebra_simps)
  qed
qed

lemma number_string_head:
  assumes "2 \<le> base"
  obtains d cs where "number_string base n = digit_char d # cs" and "d < base" and "d = 0 \<longleftrightarrow> n = 0" and "n = 0 \<longrightarrow> cs = []"
proof -
  have "\<exists>d cs. number_string base n = digit_char d # cs \<and> d < base \<and> (d = 0 \<longleftrightarrow> n = 0) \<and> (n = 0 \<longrightarrow> cs = [])"
  proof (induction n rule: less_induct)
    case (less n)
    show ?case
    proof (cases "n < base")
      case True
      with assms show ?thesis by (auto simp: number_string.simps [of base n] intro!: exI [of _ n])
    next
      case False
      with assms have "n div base < n" "n div base \<noteq> 0" "n \<noteq> 0" by (auto simp: div_eq_0_iff)
      with less.IH [of "n div base"] False assms show ?thesis
        by (auto simp: number_string.simps [of base n])
    qed
  qed
  with that show thesis by blast
qed

text \<open>What \<open>%u\<close> prints, \<open>strtoul\<close> reads.\<close>

lemma scan_number_printed:
  "scan_number (number_string 10 n) = Some (n, [])"
proof -
  have digits: "scan_digits 10 0 (number_string 10 n) = (n, [])"
    using number_string_digits [of 10 n 0] scan_digits_append [of "number_string 10 n" 10 0 "[]"] by simp
  obtain d cs where s: "number_string 10 n = digit_char d # cs" and d: "d < 10" "d = 0 \<longleftrightarrow> n = 0" "n = 0 \<longrightarrow> cs = []"
    by (rule number_string_head [of 10 n]) auto
  show ?thesis
  proof (cases "n = 0")
    case True
    with s d have zero: "number_string 10 n = [CHR ''0'']" by (simp add: digit_char_def)
    show ?thesis unfolding zero by (simp add: scan_number_def True) (simp add: digit_value_def)
  next
    case False
    with d have "digit_char d \<noteq> CHR ''0''" by (simp add: digit_char_facts)
    moreover have "digit_value 10 (digit_char d) \<noteq> None" using digit_value_char [OF d(1)] by simp
    ultimately show ?thesis
      using digits unfolding s by (auto simp: scan_number_def split: list.split)
  qed
qed

lemma strtoul_printed:
  assumes "n < 2 ^ 64"
  shows "strtoul (number_string 10 n) = (of_nat n, [], False)"
proof -
  obtain d cs where s: "number_string 10 n = digit_char d # cs" and d: "d < 10"
    by (rule number_string_head [of 10 n]) auto
  from digit_char_facts [OF d] assms scan_number_printed [of n] show ?thesis
    unfolding s strtoul_def by (simp add: Let_def)
qed

end
