(* ===== verification/Virtusb_Library.thy ===== *)
theory Virtusb_Library
  imports Virtusb_Control Virtusb_Libc
begin

text \<open>
  libvirtusb, \<open>libvirtusb/src/virtusb.c\<close>: the C interface around the ioctls. The system calls are
  arguments. A function whose name the kernel uses too has the suffix \<open>_lib\<close>. The result of a call
  is \<^const>\<open>None\<close> while it sleeps in the kernel; a handle is a pointer, \<^const>\<open>None\<close> for NULL.
\<close>

abbreviation (input) VIRTUSB_DEVICE_PATH_MAX :: nat where "VIRTUSB_DEVICE_PATH_MAX \<equiv> 64"
abbreviation (input) VIRTUSB_MAX_PORTS :: "'a::numeral" where "VIRTUSB_MAX_PORTS \<equiv> 31"
abbreviation (input) VIRTUSB_INVALID_OBJECT_ID :: u32 where "VIRTUSB_INVALID_OBJECT_ID \<equiv> 0"

section \<open>Data\<close>

datatype virtusb_speed =
    VIRTUSB_SPEED_NONE
  | VIRTUSB_SPEED_LOW
  | VIRTUSB_SPEED_FULL
  | VIRTUSB_SPEED_HIGH

record virtusb_state =
  st_status :: u32
  st_change :: u32
  st_speed :: virtusb_speed

record virtusb_status =
  vs_hub_id :: u32
  vs_port :: u32
  vs_port_count :: u32
  vs_state :: virtusb_state
  vs_ports :: "virtusb_state list"

text \<open>The casts keep whatever number the kernel reports as the type and the direction.\<close>

abbreviation (input) VIRTUSB_TRANSFER_CONTROL :: u32 where "VIRTUSB_TRANSFER_CONTROL \<equiv> 0"
abbreviation (input) VIRTUSB_TRANSFER_ISOCHRONOUS :: u32 where "VIRTUSB_TRANSFER_ISOCHRONOUS \<equiv> 1"
abbreviation (input) VIRTUSB_TRANSFER_BULK :: u32 where "VIRTUSB_TRANSFER_BULK \<equiv> 2"
abbreviation (input) VIRTUSB_TRANSFER_INTERRUPT :: u32 where "VIRTUSB_TRANSFER_INTERRUPT \<equiv> 3"
abbreviation (input) VIRTUSB_TRANSFER_OUT :: u32 where "VIRTUSB_TRANSFER_OUT \<equiv> 0"
abbreviation (input) VIRTUSB_TRANSFER_IN :: u32 where "VIRTUSB_TRANSFER_IN \<equiv> 1"

record virtusb_transfer_request =
  rq_id :: u64
  rq_object_id :: u32
  rq_type :: u32
  rq_direction :: u32
  rq_endpoint :: u32
  rq_has_setup :: bool
  rq_requested_length :: u32
  rq_data_length :: u32
  rq_setup :: "u8 list"
  rq_data :: "u8 list"

record virtusb_handle =
  h_fd :: int
  h_instance :: u32
  h_device_path :: string

section \<open>The process\<close>

text \<open>The handles the library has allocated, and the rest of the world.\<close>

record 'k uproc =
  handles :: "nat \<Rightarrow> virtusb_handle option"
  kern :: 'k

definition load_handle :: "nat \<Rightarrow> ('k, 'a) uproc_scheme \<Rightarrow> virtusb_handle option" where
  "load_handle p s = handles s p"

text \<open>
  The system calls: \<open>open\<close> and \<open>ioctl\<close> return what the C functions return and the value of \<open>errno\<close>
  after a failure, and \<open>ioctl\<close> the struct it wrote, if it wrote one.
\<close>

record 'k syscalls =
  sys_open :: "string \<Rightarrow> 'k \<Rightarrow> ((int \<times> int) \<times> 'k) option"
  sys_close :: "int \<Rightarrow> 'k \<Rightarrow> 'k option"
  sys_ioctl :: "int \<Rightarrow> u32 \<Rightarrow> user_memory \<Rightarrow> 'k \<Rightarrow> ((int \<times> int \<times> user_struct option) option \<times> 'k) option"

section \<open>Conversions\<close>

definition virtusb_speed_from_uapi :: "u32 \<Rightarrow> virtusb_speed" where
  "virtusb_speed_from_uapi speed =
     (if speed = speed_code VIRTUSB_PORT_SPEED_LOW then VIRTUSB_SPEED_LOW
      else if speed = speed_code VIRTUSB_PORT_SPEED_FULL then VIRTUSB_SPEED_FULL
      else if speed = speed_code VIRTUSB_PORT_SPEED_HIGH then VIRTUSB_SPEED_HIGH
      else VIRTUSB_SPEED_NONE)"

definition virtusb_state_from_uapi :: "virtusb_port_state \<Rightarrow> virtusb_state" where
  "virtusb_state_from_uapi source =
     \<lparr>st_status = ps_status source, st_change = ps_change source, st_speed = virtusb_speed_from_uapi (ps_speed source)\<rparr>"

definition zero_state :: virtusb_state where
  "zero_state = \<lparr>st_status = 0, st_change = 0, st_speed = VIRTUSB_SPEED_NONE\<rparr>"

text \<open>The loop over \<open>status->ports\<close>; an index outside of the source array is a fault.\<close>

fun copy_port_states :: "nat list \<Rightarrow> virtusb_port_state list \<Rightarrow> virtusb_state list \<Rightarrow> virtusb_state list option" where
  "copy_port_states [] source states = Some states"
| "copy_port_states (i # is) source states = do {
     p \<leftarrow> nth_opt source i;
     copy_port_states is source (states[i := virtusb_state_from_uapi p])
   }"

section \<open>Handles\<close>

definition device_path :: "u32 \<Rightarrow> string" where
  "device_path inst = ''/dev/virtusb'' @ print_u inst"

text \<open>\<open>handle\<close> tells whether the caller passes a place for the handle; the second result is what is stored there.\<close>

definition virtusb_open ::
  "'k syscalls \<Rightarrow> int + nat \<Rightarrow> u32 \<Rightarrow> bool \<Rightarrow> ('k, 'a) uproc_scheme
     \<Rightarrow> (int \<times> nat option \<times> ('k, 'a) uproc_scheme) option" where
  "virtusb_open sys calloc inst handle s =
     (if \<not> handle then Some (- EINVAL, None, s)
      else do {
        let (length1, path) = snprintf VIRTUSB_DEVICE_PATH_MAX (device_path inst);
        if length1 \<ge> VIRTUSB_DEVICE_PATH_MAX then Some (- ENAMETOOLONG, None, s)
        else do {
          ((fd, errno), k) \<leftarrow> sys_open sys path (kern s);
          let s = s\<lparr>kern := k\<rparr>;
          if fd < 0 then Some (- errno, None, s)
          else (case calloc of
            Inl saved_errno \<Rightarrow> do {
              k \<leftarrow> sys_close sys fd (kern s);
              let saved_errno = (if saved_errno = 0 then ENOMEM else saved_errno);
              Some (- saved_errno, None, s\<lparr>kern := k\<rparr>)
            }
          | Inr new_handle \<Rightarrow> do {
              let (length2, path2) = snprintf VIRTUSB_DEVICE_PATH_MAX path;
              if length2 \<ge> VIRTUSB_DEVICE_PATH_MAX then do {
                k \<leftarrow> sys_close sys fd (kern s);
                Some (- ENAMETOOLONG, None, s\<lparr>kern := k\<rparr>)
              }
              else Some (0, Some new_handle, s\<lparr>handles := (handles s)(new_handle \<mapsto>
                     \<lparr>h_fd = fd, h_instance = inst, h_device_path = path2\<rparr>)\<rparr>)
            })
        }
      })"

definition virtusb_close :: "'k syscalls \<Rightarrow> nat option \<Rightarrow> ('k, 'a) uproc_scheme \<Rightarrow> ('k, 'a) uproc_scheme option" where
  "virtusb_close sys handle s =
     (case handle of
        None \<Rightarrow> Some s
      | Some p \<Rightarrow> do {
          h \<leftarrow> load_handle p s;
          k \<leftarrow> (if h_fd h \<ge> 0 then sys_close sys (h_fd h) (kern s) else Some (kern s));
          Some (s\<lparr>kern := k, handles := (handles s)(p := None)\<rparr>)
        })"

definition virtusb_get_device_path :: "nat option \<Rightarrow> ('k, 'a) uproc_scheme \<Rightarrow> string option option" where
  "virtusb_get_device_path handle s =
     (case handle of
        None \<Rightarrow> Some None
      | Some p \<Rightarrow> do {
          h \<leftarrow> load_handle p s;
          Some (Some (h_device_path h))
        })"

section \<open>Requests\<close>

text \<open>
  Every function checks the handle, clears its request struct, which is all the kernel finds at the
  argument, and calls \<open>ioctl\<close>; what follows the call is the argument \<open>finish\<close>.
\<close>

definition no_memory :: user_memory where
  "no_memory = \<lparr>um_port_status = None, um_device_create = None, um_device_destroy = None, um_device_attach = None,
     um_device_object = None, um_device_connection = None, um_port_power = None, um_backend_register = None,
     um_transfer_complete = None, um_writable = True\<rparr>"

definition with_ioctl ::
  "'k syscalls \<Rightarrow> nat option \<Rightarrow> u32 \<Rightarrow> user_memory \<Rightarrow> (user_struct option \<Rightarrow> 'r option) \<Rightarrow> (int \<Rightarrow> 'r)
     \<Rightarrow> ('k, 'a) uproc_scheme \<Rightarrow> ('r option \<times> ('k, 'a) uproc_scheme) option" where
  "with_ioctl sys handle command argp finish failed s =
     (case handle of
        None \<Rightarrow> Some (Some (failed (- EINVAL)), s)
      | Some p \<Rightarrow> do {
          h \<leftarrow> load_handle p s;
          if h_fd h < 0 then Some (Some (failed (- EBADF)), s)
          else do {
            (result, k) \<leftarrow> sys_ioctl sys (h_fd h) command argp (kern s);
            (case result of
               None \<Rightarrow> Some (None, s\<lparr>kern := k\<rparr>)
             | Some (ret, errno, out) \<Rightarrow>
                 if ret < 0 then Some (Some (failed (- errno)), s\<lparr>kern := k\<rparr>)
                 else do {
                   r \<leftarrow> finish out;
                   Some (Some r, s\<lparr>kern := k\<rparr>)
                 })
          }
        })"

abbreviation plain_ioctl ::
  "'k syscalls \<Rightarrow> nat option \<Rightarrow> u32 \<Rightarrow> user_memory \<Rightarrow> ('k, 'a) uproc_scheme \<Rightarrow> (int option \<times> ('k, 'a) uproc_scheme) option" where
  "plain_ioctl sys handle command argp \<equiv> with_ioctl sys handle command argp (\<lambda>_. Some 0) (\<lambda>e. e)"

text \<open>\<open>status\<close> tells whether the caller passes a place for the result.\<close>

definition virtusb_get_port_status ::
  "'k syscalls \<Rightarrow> nat option \<Rightarrow> u32 \<Rightarrow> u32 \<Rightarrow> bool \<Rightarrow> ('k, 'a) uproc_scheme
     \<Rightarrow> ((int \<times> virtusb_status option) option \<times> ('k, 'a) uproc_scheme) option" where
  "virtusb_get_port_status sys handle hub_id port status s =
     (if \<not> status then Some (Some (- EINVAL, None), s)
      else do {
        let request = \<lparr>pst_hub_id = hub_id, pst_port = port, pst_port_count = 0, pst_state = zero_port_state,
                       pst_ports = replicate VIRTUSB_MAX_HUB_PORTS zero_port_state\<rparr>;
        with_ioctl sys handle VIRTUSB_IOCTL_GET_PORT_STATUS (no_memory\<lparr>um_port_status := Some request\<rparr>)
          (\<lambda>out. do {
             let request = (case out of Some (User_port_status r) \<Rightarrow> r | _ \<Rightarrow> request);
             let ports = replicate VIRTUSB_MAX_PORTS zero_state;
             ports \<leftarrow> (if pst_port request = 0
                       then copy_port_states [0..<min (unat (pst_port_count request)) VIRTUSB_MAX_PORTS]
                              (pst_ports request) ports
                       else Some ports);
             Some (0, Some \<lparr>vs_hub_id = pst_hub_id request, vs_port = pst_port request,
                        vs_port_count = pst_port_count request,
                        vs_state = virtusb_state_from_uapi (pst_state request), vs_ports = ports\<rparr>)
           })
          (\<lambda>e. (e, None)) s
      })"

definition virtusb_device_create_lib ::
  "'k syscalls \<Rightarrow> nat option \<Rightarrow> u32 \<Rightarrow> bool \<Rightarrow> ('k, 'a) uproc_scheme
     \<Rightarrow> ((int \<times> u32 option) option \<times> ('k, 'a) uproc_scheme) option" where
  "virtusb_device_create_lib sys handle speed_caps object_id s =
     (if \<not> object_id then Some (Some (- EINVAL, None), s)
      else do {
        let request = \<lparr>dc_speed_caps = speed_caps, dc_object_id = 0\<rparr>;
        with_ioctl sys handle VIRTUSB_IOCTL_DEVICE_CREATE (no_memory\<lparr>um_device_create := Some request\<rparr>)
          (\<lambda>out. do {
             let request = (case out of Some (User_device_create r) \<Rightarrow> r | _ \<Rightarrow> request);
             Some (0, Some (dc_object_id request))
           })
          (\<lambda>e. (e, None)) s
      })"

definition virtusb_device_destroy_lib ::
  "'k syscalls \<Rightarrow> nat option \<Rightarrow> u32 \<Rightarrow> bool \<Rightarrow> ('k, 'a) uproc_scheme \<Rightarrow> (int option \<times> ('k, 'a) uproc_scheme) option" where
  "virtusb_device_destroy_lib sys handle object_id force =
     plain_ioctl sys handle VIRTUSB_IOCTL_DEVICE_DESTROY (no_memory\<lparr>um_device_destroy := Some
       \<lparr>dd_object_id = object_id, dd_flags = (if force then VIRTUSB_DEVICE_DESTROY_FORCE else 0)\<rparr>\<rparr>)"

definition virtusb_device_attach_lib ::
  "'k syscalls \<Rightarrow> nat option \<Rightarrow> u32 \<Rightarrow> u32 \<Rightarrow> u32 \<Rightarrow> ('k, 'a) uproc_scheme \<Rightarrow> (int option \<times> ('k, 'a) uproc_scheme) option" where
  "virtusb_device_attach_lib sys handle object_id hub_id port =
     plain_ioctl sys handle VIRTUSB_IOCTL_DEVICE_ATTACH (no_memory\<lparr>um_device_attach := Some
       \<lparr>da_object_id = object_id, da_hub_id = hub_id, da_port = port\<rparr>\<rparr>)"

definition virtusb_device_detach_lib ::
  "'k syscalls \<Rightarrow> nat option \<Rightarrow> u32 \<Rightarrow> ('k, 'a) uproc_scheme \<Rightarrow> (int option \<times> ('k, 'a) uproc_scheme) option" where
  "virtusb_device_detach_lib sys handle object_id =
     plain_ioctl sys handle VIRTUSB_IOCTL_DEVICE_DETACH
       (no_memory\<lparr>um_device_object := Some \<lparr>do_object_id = object_id\<rparr>\<rparr>)"

definition virtusb_device_set_connected ::
  "'k syscalls \<Rightarrow> nat option \<Rightarrow> u32 \<Rightarrow> bool \<Rightarrow> ('k, 'a) uproc_scheme \<Rightarrow> (int option \<times> ('k, 'a) uproc_scheme) option" where
  "virtusb_device_set_connected sys handle object_id connected =
     plain_ioctl sys handle VIRTUSB_IOCTL_DEVICE_CONNECTION (no_memory\<lparr>um_device_connection := Some
       \<lparr>dn_object_id = object_id, dn_enabled = (if connected then 1 else 0)\<rparr>\<rparr>)"

definition virtusb_set_port_power ::
  "'k syscalls \<Rightarrow> nat option \<Rightarrow> u32 \<Rightarrow> u32 \<Rightarrow> bool \<Rightarrow> ('k, 'a) uproc_scheme \<Rightarrow> (int option \<times> ('k, 'a) uproc_scheme) option" where
  "virtusb_set_port_power sys handle hub_id port powered =
     plain_ioctl sys handle VIRTUSB_IOCTL_SET_PORT_POWER (no_memory\<lparr>um_port_power := Some
       \<lparr>pp_hub_id = hub_id, pp_port = port, pp_powered = (if powered then 1 else 0)\<rparr>\<rparr>)"

definition virtusb_backend_register_lib ::
  "'k syscalls \<Rightarrow> nat option \<Rightarrow> u32 \<Rightarrow> ('k, 'a) uproc_scheme \<Rightarrow> (int option \<times> ('k, 'a) uproc_scheme) option" where
  "virtusb_backend_register_lib sys handle object_id s =
     (if object_id = VIRTUSB_INVALID_OBJECT_ID then Some (Some (- EINVAL), s)
      else plain_ioctl sys handle VIRTUSB_IOCTL_BACKEND_REGISTER
             (no_memory\<lparr>um_backend_register := Some \<lparr>br_object_id = object_id\<rparr>\<rparr>) s)"

definition virtusb_backend_unregister_lib ::
  "'k syscalls \<Rightarrow> nat option \<Rightarrow> ('k, 'a) uproc_scheme \<Rightarrow> (int option \<times> ('k, 'a) uproc_scheme) option" where
  "virtusb_backend_unregister_lib sys handle =
     plain_ioctl sys handle VIRTUSB_IOCTL_BACKEND_UNREGISTER (no_memory\<lparr>um_writable := False\<rparr>)"

section \<open>Transfers\<close>

definition request_from_uapi :: "virtusb_transfer_fetch \<Rightarrow> virtusb_transfer_request" where
  "request_from_uapi fetch =
     \<lparr>rq_id = tf_transfer_id fetch, rq_object_id = tf_object_id fetch, rq_type = tf_type fetch,
      rq_direction = tf_direction fetch, rq_endpoint = tf_endpoint fetch, rq_has_setup = (tf_has_setup fetch \<noteq> 0),
      rq_requested_length = tf_requested_length fetch, rq_data_length = tf_data_length fetch,
      rq_setup = tf_setup fetch, rq_data = tf_data fetch\<rparr>"

definition virtusb_transfer_fetch_lib ::
  "'k syscalls \<Rightarrow> nat option \<Rightarrow> bool \<Rightarrow> ('k, 'a) uproc_scheme
     \<Rightarrow> ((int \<times> virtusb_transfer_request option) option \<times> ('k, 'a) uproc_scheme) option" where
  "virtusb_transfer_fetch_lib sys handle request s =
     (if \<not> request then Some (Some (- EINVAL, None), s)
      else with_ioctl sys handle VIRTUSB_IOCTL_TRANSFER_FETCH no_memory
        (\<lambda>out. do {
           let fetch = (case out of Some (User_transfer_fetch f) \<Rightarrow> f | _ \<Rightarrow> zero_fetch);
           Some (0, Some (request_from_uapi fetch))
         })
        (\<lambda>e. (e, None)) s)"

text \<open>\<open>data\<close> is the caller's buffer; copying past its end is a fault.\<close>

definition virtusb_transfer_complete_lib ::
  "'k syscalls \<Rightarrow> nat option \<Rightarrow> u64 \<Rightarrow> int \<Rightarrow> u8 list option \<Rightarrow> u32 \<Rightarrow> ('k, 'a) uproc_scheme
     \<Rightarrow> (int option \<times> ('k, 'a) uproc_scheme) option" where
  "virtusb_transfer_complete_lib sys handle transfer_id status data actual_length s =
     (case handle of
        None \<Rightarrow> Some (Some (- EINVAL), s)
      | Some p \<Rightarrow> do {
          h \<leftarrow> load_handle p s;
          if h_fd h < 0 then Some (Some (- EBADF), s)
          else if actual_length > VIRTUSB_TRANSFER_DATA_MAX \<or> actual_length > 0 \<and> data = None
          then Some (Some (- EINVAL), s)
          else do {
            let zeros = replicate VIRTUSB_TRANSFER_DATA_MAX 0;
            bytes \<leftarrow> (if actual_length > 0 then do {
                        buffer \<leftarrow> data;
                        memcpy zeros buffer (unat actual_length)
                      }
                      else Some zeros);
            plain_ioctl sys handle VIRTUSB_IOCTL_TRANSFER_COMPLETE (no_memory\<lparr>um_transfer_complete := Some
              \<lparr>tc_transfer_id = transfer_id, tc_status = status, tc_actual_length = actual_length, tc_data = bytes\<rparr>\<rparr>) s
          }
        })"

end
