(* ===== verification/Virtusb_Library_Props.thy ===== *)
theory Virtusb_Library_Props
  imports Virtusb_Library Virtusb_Char_Device
begin

text \<open>
  libvirtusb on top of the driver: the contract of a process whose descriptors are files of the
  control device, what a library call does under it, and the properties of the two together.
\<close>

section \<open>What the library relies on\<close>

text \<open>
  An \<open>ioctl\<close> on a descriptor of the control device is the handler of the driver, a negative result
  of which becomes -1 and \<open>errno\<close>. \<open>file_of\<close> is the file a descriptor stands for and \<open>driver\<close> the
  state of the driver.
\<close>

definition user_result :: "int \<times> user_struct option \<Rightarrow> int \<times> int \<times> user_struct option" where
  "user_result r = (case r of (ret, out) \<Rightarrow> if ret < 0 then (- 1, - ret, out) else (ret, 0, out))"

locale control_files =
  fixes sys :: "'k syscalls"
    and file_of :: "int \<Rightarrow> 'k \<Rightarrow> nat option"
    and driver :: "'k \<Rightarrow> khcd"
    and with_driver :: "khcd \<Rightarrow> 'k \<Rightarrow> 'k"
    and mem xa_mem :: bool
    and waits :: "(int \<times> (khcd \<Rightarrow> khcd)) list"
  assumes ioctl_handler: "file_of fd k = Some f \<Longrightarrow>
      sys_ioctl sys fd command argp k = do {
        (result, s) \<leftarrow> virtusb_control_ioctl mem xa_mem waits f command argp (driver k);
        Some (map_option user_result result, with_driver s k)
      }"
    and driver_with [simp]: "driver (with_driver s k) = s"
    and file_with [simp]: "file_of fd (with_driver s k) = file_of fd k"
    and with_same [simp]: "with_driver (driver k) k = k"
    and with_with [simp]: "with_driver s (with_driver s' k) = with_driver s k"
begin

text \<open>The handle is open on a file of the driver.\<close>

definition handle_on :: "nat \<Rightarrow> nat \<Rightarrow> ('k, 'a) uproc_scheme \<Rightarrow> bool" where
  "handle_on p f u \<longleftrightarrow> (\<exists>h. load_handle p u = Some h \<and> 0 \<le> h_fd h \<and> file_of (h_fd h) (kern u) = Some f)"

definition on_driver :: "khcd \<Rightarrow> ('k, 'a) uproc_scheme \<Rightarrow> ('k, 'a) uproc_scheme" where
  "on_driver s u = u\<lparr>kern := with_driver s (kern u)\<rparr>"

lemma on_driver_sel [simp]:
  "driver (kern (on_driver s u)) = s" "handle_on p f (on_driver s u) = handle_on p f u"
  "on_driver s (on_driver s' u) = on_driver s u" "on_driver (driver (kern u)) u = u"
  "handles (on_driver s u) = handles u"
  by (simp_all add: on_driver_def handle_on_def load_handle_def)

text \<open>A library call is the ioctl of the driver, with its error code.\<close>

lemma with_ioctl_handler:
  assumes "handle_on p f u"
  shows "with_ioctl sys (Some p) command argp finish failed u = do {
    (result, s) \<leftarrow> virtusb_control_ioctl mem xa_mem waits f command argp (driver (kern u));
    (case result of
       None \<Rightarrow> Some (None, on_driver s u)
     | Some (ret, out) \<Rightarrow>
         if ret < 0 then Some (Some (failed ret), on_driver s u)
         else do { r \<leftarrow> finish out; Some (Some r, on_driver s u) })
  }"
proof -
  from assms obtain h where h: "load_handle p u = Some h" "\<not> h_fd h < 0" "file_of (h_fd h) (kern u) = Some f"
    by (auto simp: handle_on_def)
  show ?thesis
    by (cases "virtusb_control_ioctl mem xa_mem waits f command argp (driver (kern u))")
       (auto simp: with_ioctl_def h ioctl_handler [OF h(3)] user_result_def on_driver_def split: option.split)
qed

text \<open>Whatever a call of the library does, the driver keeps its invariant.\<close>

lemma with_ioctl_safe:
  assumes p: "handle_on p f u" and wf: "control_wf held pins (driver (kern u))"
    and f: "load_file f (driver (kern u)) = Some fl" and sized: "completions_sized argp"
    and waits: "\<And>c. live f c (driver (kern u)) \<Longrightarrow> \<forall>(ret, step) \<in> set waits. keeps_open held pins f c step"
    and fin: "\<And>out. finish out \<noteq> None"
  shows "runs (with_ioctl sys (Some p) command argp finish failed u) (\<lambda>(r, u').
    control_wf held pins (driver (kern u')) \<and> handle_on p f u' \<and>
    (r = None \<longrightarrow> command = VIRTUSB_IOCTL_TRANSFER_FETCH) \<and>
    (\<forall>x. r = Some x \<longrightarrow> (\<exists>e. e < 0 \<and> x = failed e) \<or> (\<exists>out. finish out = Some x)))"
proof -
  from virtusb_control_ioctl_ok [OF wf f sized waits, where mem = mem and xa_mem = xa_mem and command = command]
  obtain result s where code: "virtusb_control_ioctl mem xa_mem waits f command argp (driver (kern u)) = Some (result, s)"
    and wf': "control_wf held pins s"
    and res: "result = Some (- ENODEV, None) \<or> result = Some (- ENOTTY, None) \<or> ioctl_result command result"
    by (auto simp: runs_iff split: if_splits)
  show ?thesis
  proof (cases result)
    case None
    with res wf' p show ?thesis unfolding with_ioctl_handler [OF p] code by (auto simp: ioctl_result_def)
  next
    case (Some x)
    obtain ret out where x: "x = (ret, out)" by (cases x)
    from fin [of out] obtain r where "finish out = Some r" by blast
    with wf' p show ?thesis unfolding with_ioctl_handler [OF p] code by (cases "ret < 0") (auto simp: Some x)
  qed
qed

end

section \<open>The system calls of Linux\<close>

text \<open>
  The descriptors of the process and the driver below them. \<open>nodes\<close> tells which controller a device
  node belongs to; a descriptor and a file are numbered as they are opened.
\<close>

record vfs =
  fds :: "int \<Rightarrow> nat option"
  next_fd :: int
  next_file :: nat
  vkernel :: khcd

definition fd_file :: "int \<Rightarrow> vfs \<Rightarrow> nat option" where
  "fd_file fd k = fds k fd"

definition new_file :: kfile where
  "new_file = \<lparr>file_private = None, file_nonblock = False\<rparr>"

definition kernel_open :: "bool \<Rightarrow> (string \<Rightarrow> nat option) \<Rightarrow> string \<Rightarrow> vfs \<Rightarrow> ((int \<times> int) \<times> vfs) option" where
  "kernel_open mem nodes path k =
     (case nodes path of
        None \<Rightarrow> Some ((- 1, ENOENT), k)
      | Some c \<Rightarrow> do {
          let f = next_file k;
          (ret, s) \<leftarrow> virtusb_control_open mem c f (put_file f new_file (vkernel k));
          if ret < 0 then Some ((- 1, - ret), k\<lparr>vkernel := s\<lparr>files := (files s)(f := None)\<rparr>\<rparr>)
          else Some ((next_fd k, 0), k\<lparr>fds := (fds k)(next_fd k \<mapsto> f), next_fd := next_fd k + 1, next_file := f + 1,
                 vkernel := s\<rparr>)
        })"

definition kernel_close :: "int \<Rightarrow> vfs \<Rightarrow> vfs option" where
  "kernel_close fd k =
     (case fds k fd of
        None \<Rightarrow> Some k
      | Some f \<Rightarrow> do {
          (_, s) \<leftarrow> virtusb_control_release f (vkernel k);
          Some (k\<lparr>fds := (fds k)(fd := None), vkernel := s\<lparr>files := (files s)(f := None)\<rparr>\<rparr>)
        })"

definition kernel_calls ::
  "bool \<Rightarrow> bool \<Rightarrow> (int \<times> (khcd \<Rightarrow> khcd)) list \<Rightarrow> (string \<Rightarrow> nat option) \<Rightarrow> vfs syscalls" where
  "kernel_calls mem xa_mem waits nodes =
     \<lparr>sys_open = kernel_open mem nodes,
      sys_close = kernel_close,
      sys_ioctl = (\<lambda>fd command argp k. case fds k fd of
         None \<Rightarrow> Some (Some (- 1, EBADF, None), k)
       | Some f \<Rightarrow> do {
           (result, s) \<leftarrow> virtusb_control_ioctl mem xa_mem waits f command argp (vkernel k);
           Some (map_option user_result result, k\<lparr>vkernel := s\<rparr>)
         })\<rparr>"

interpretation calls: control_files "kernel_calls mem xa_mem waits nodes" fd_file vkernel "\<lambda>s k. k\<lparr>vkernel := s\<rparr>" mem xa_mem waits
  for mem xa_mem waits nodes
  by unfold_locales (simp_all add: kernel_calls_def fd_file_def)

text \<open>The driver below a process, and a handle that is open on a live controller.\<close>

abbreviation below :: "(vfs, 'a) uproc_scheme \<Rightarrow> khcd" where
  "below u \<equiv> vkernel (kern u)"

definition on_kernel :: "khcd \<Rightarrow> (vfs, 'a) uproc_scheme \<Rightarrow> (vfs, 'a) uproc_scheme" where
  "on_kernel s u = u\<lparr>kern := (kern u)\<lparr>vkernel := s\<rparr>\<rparr>"

definition handle_open :: "nat \<Rightarrow> nat \<Rightarrow> nat \<Rightarrow> (vfs, 'a) uproc_scheme \<Rightarrow> bool" where
  "handle_open p f c u \<longleftrightarrow> live f c (below u) \<and>
     (\<exists>h. load_handle p u = Some h \<and> 0 \<le> h_fd h \<and> fds (kern u) (h_fd h) = Some f)"

lemma below_on_kernel [simp]: "below (on_kernel s u) = s" "on_kernel (below u) u = u"
  "on_kernel s (on_kernel s' u) = on_kernel s u" "handles (on_kernel s u) = handles u"
  by (simp_all add: on_kernel_def)

lemma handle_open_on_kernel: "handle_open p f c u \<Longrightarrow> handle_open p f c' (on_kernel s u) = live f c' s"
  by (auto simp: handle_open_def on_kernel_def load_handle_def)

lemma library_ioctl:
  assumes "handle_open p f c u"
  shows "with_ioctl (kernel_calls mem xa_mem waits nodes) (Some p) command argp finish failed u = do {
    (result, s) \<leftarrow> virtusb_control_ioctl mem xa_mem waits f command argp (below u);
    (case result of
       None \<Rightarrow> Some (None, on_kernel s u)
     | Some (ret, out) \<Rightarrow>
         if ret < 0 then Some (Some (failed ret), on_kernel s u)
         else do { r \<leftarrow> finish out; Some (Some r, on_kernel s u) })
  }"
proof -
  have on: "calls.on_driver s u = on_kernel s u" for s by (simp add: calls.on_driver_def on_kernel_def)
  from assms have "calls.handle_on p f u" by (auto simp: handle_open_def calls.handle_on_def fd_file_def)
  from calls.with_ioctl_handler [OF this, of mem xa_mem waits nodes command argp finish failed] show ?thesis unfolding on .
qed

section \<open>Port status\<close>

lemma copy_port_states_ok:
  assumes "m \<le> n" and "n \<le> length source" and "n \<le> length states"
  shows "copy_port_states [m..<n] source states =
    Some (map (\<lambda>k. if m \<le> k \<and> k < n then virtusb_state_from_uapi (source ! k) else states ! k) [0..<length states])"
  using assms
proof (induction "n - m" arbitrary: m states)
  case 0
  then have "m = n" by simp
  then show ?case by (auto intro!: nth_equalityI)
next
  case (Suc d)
  then have m: "m < n" by simp
  let ?states = "states[m := virtusb_state_from_uapi (source ! m)]"
  have "copy_port_states [Suc m..<n] source ?states =
      Some (map (\<lambda>k. if Suc m \<le> k \<and> k < n then virtusb_state_from_uapi (source ! k) else ?states ! k) [0..<length ?states])"
    using Suc.prems Suc.hyps(2) m by (intro Suc.hyps(1)) simp_all
  also have "map (\<lambda>k. if Suc m \<le> k \<and> k < n then virtusb_state_from_uapi (source ! k) else ?states ! k) [0..<length ?states] =
      map (\<lambda>k. if m \<le> k \<and> k < n then virtusb_state_from_uapi (source ! k) else states ! k) [0..<length states]"
    using m Suc.prems by (auto simp: nth_list_update)
  finally show ?case using m Suc.prems by (simp add: upt_conv_Cons)
qed

text \<open>What the library reports of a port.\<close>

definition lib_state_of :: "'a topo_scheme \<Rightarrow> nat \<Rightarrow> virtusb_hub \<Rightarrow> u32 \<Rightarrow> virtusb_state \<Rightarrow> bool" where
  "lib_state_of s h hub n st \<longleftrightarrow>
     (\<forall>b. bit (st_status st) b \<longleftrightarrow> b \<notin> {9, 10} \<and> port_status_bit s h hub n b) \<and>
     (\<forall>b. bit (st_change st) b \<longleftrightarrow> port_change_bit hub (unat n) b) \<and>
     (st_speed st = VIRTUSB_SPEED_LOW \<longleftrightarrow> packed_speed hub n = VIRTUSB_PORT_SPEED_LOW) \<and>
     (st_speed st = VIRTUSB_SPEED_FULL \<longleftrightarrow> packed_speed hub n = VIRTUSB_PORT_SPEED_FULL) \<and>
     (st_speed st = VIRTUSB_SPEED_HIGH \<longleftrightarrow> packed_speed hub n = VIRTUSB_PORT_SPEED_HIGH)"

lemma lib_state_of_uapi: "port_state_of s h hub n st \<Longrightarrow> lib_state_of s h hub n (virtusb_state_from_uapi st)"
  by (cases "packed_speed hub n") (simp_all add: port_state_of_def lib_state_of_def virtusb_state_from_uapi_def
      virtusb_speed_from_uapi_def)

lemma lib_state_of_unique:
  assumes "lib_state_of s h hub n st" and "lib_state_of s h hub n st'"
  shows "st = st'"
proof -
  have "st_status st = st_status st'" "st_change st = st_change st'"
    using assms by (auto intro!: bit_word_eqI simp: lib_state_of_def)
  moreover have "st_speed st = st_speed st'"
    using assms by (cases "st_speed st"; cases "st_speed st'") (auto simp: lib_state_of_def)
  ultimately show ?thesis by simp
qed

lemma virtusb_get_port_status_ok:
  assumes wf: "control_wf held pins (below u)" and p: "handle_open p f c u" and h: "load_hub c (below u) = Some hub"
    and n: "n \<le> ucast (hub_port_count hub)"
  obtains st where "virtusb_get_port_status (kernel_calls mem xa_mem waits nodes) (Some p) 0 n True u = Some (Some (0, Some st), u)"
    "vs_hub_id st = 0" "vs_port st = n" "vs_port_count st = ucast (hub_port_count hub)" "length (vs_ports st) = VIRTUSB_MAX_PORTS"
    "n \<noteq> 0 \<Longrightarrow> lib_state_of (below u) c hub n (vs_state st)"
    "n = 0 \<Longrightarrow> vs_state st = virtusb_state_from_uapi (hub_state_of hub)"
    "\<And>k. k < VIRTUSB_MAX_PORTS \<Longrightarrow> if n = 0 \<and> k < unat (hub_port_count hub)
       then lib_state_of (below u) c hub (word_of_nat (Suc k)) (vs_ports st ! k) else vs_ports st ! k = zero_state"
proof -
  let ?r = "\<lparr>pst_hub_id = 0, pst_port = n, pst_port_count = 0, pst_state = zero_port_state,
     pst_ports = replicate VIRTUSB_MAX_HUB_PORTS zero_port_state\<rparr>"
  let ?argp = "no_memory\<lparr>um_port_status := Some ?r\<rparr>"
  note topo = back_wf_topo [OF control_wfD(1) [OF wf]]
  have live: "live f c (below u)" using p by (simp add: handle_open_def)
  have "opened f c (below u)" using live by (simp add: live_def)
  then obtain v where v: "load_hcd c (below u) = Some v" "ctl_hcd (vh_control v) = Some c" using wf by (rule openedE)
  have w: "um_writable ?argp" by (simp add: no_memory_def)
  from virtusb_control_get_port_status_ok [OF topo v h, of ?argp] n w obtain r' where
    user: "virtusb_control_get_port_status c ?argp (below u) = Some (0, Some (User_port_status r'))" "status_report (below u) c hub ?r r'"
    by (auto simp: runs_iff not_less [symmetric])
  then have "virtusb_control_ioctl mem xa_mem waits f VIRTUSB_IOCTL_GET_PORT_STATUS ?argp (below u) =
      Some (Some (0, Some (User_port_status r')), below u)"
    by (simp add: virtusb_control_ioctl_def live_ioctl [OF live] Let_def)
  note call = library_ioctl [OF p, of mem xa_mem waits nodes VIRTUSB_IOCTL_GET_PORT_STATUS ?argp, unfolded this]
  have c31: "unat (hub_port_count hub) \<le> 31" using topo_wf_shape [OF topo h] by (simp add: hub_shape_def)
  from user(2) [unfolded status_report_def virtusb_port_status.select_convs] have r': "pst_port r' = n" "pst_hub_id r' = 0" "pst_port_count r' = ucast (hub_port_count hub)"
    "length (pst_ports r') = 31" "if n = 0 then pst_state r' = hub_state_of hub else port_state_of (below u) c hub n (pst_state r')"
    "\<And>k. k < 31 \<Longrightarrow> if n = 0 \<and> k < unat (hub_port_count hub)
       then port_state_of (below u) c hub (word_of_nat (Suc k)) (pst_ports r' ! k) else pst_ports r' ! k = zero_port_state"
    by blast+
  have m: "min (unat (hub_port_count hub)) 31 = unat (hub_port_count hub)" using c31 by simp
  define ports where "ports = map (\<lambda>k. if n = 0 \<and> k < unat (hub_port_count hub)
      then virtusb_state_from_uapi (pst_ports r' ! k) else zero_state) [0..<31]"
  have "(if n = 0 then copy_port_states [0..<min (unat (hub_port_count hub)) 31] (pst_ports r') (replicate 31 zero_state)
      else Some (replicate 31 zero_state)) = Some ports"
    unfolding m using copy_port_states_ok [of 0 "unat (hub_port_count hub)" "pst_ports r'" "replicate 31 zero_state"] c31
    by (auto simp: r'(4) ports_def map_replicate_const intro!: nth_equalityI)
  then have code: "virtusb_get_port_status (kernel_calls mem xa_mem waits nodes) (Some p) 0 n True u =
      Some (Some (0, Some \<lparr>vs_hub_id = 0, vs_port = n, vs_port_count = ucast (hub_port_count hub),
        vs_state = virtusb_state_from_uapi (pst_state r'), vs_ports = ports\<rparr>), u)"
    by (simp add: virtusb_get_port_status_def call Let_def r'(1-3) split: if_splits)
  show thesis
  proof (rule that [OF code])
    fix k :: nat assume k: "k < VIRTUSB_MAX_PORTS"
    with r'(6) [OF k] lib_state_of_uapi show "if n = 0 \<and> k < unat (hub_port_count hub)
       then lib_state_of (below u) c hub (word_of_nat (Suc k)) (vs_ports \<lparr>vs_hub_id = 0, vs_port = n,
         vs_port_count = ucast (hub_port_count hub), vs_state = virtusb_state_from_uapi (pst_state r'), vs_ports = ports\<rparr> ! k)
       else vs_ports \<lparr>vs_hub_id = 0, vs_port = n,
         vs_port_count = ucast (hub_port_count hub), vs_state = virtusb_state_from_uapi (pst_state r'), vs_ports = ports\<rparr> ! k = zero_state"
      by (auto simp: ports_def simp del: of_nat_Suc)
  qed (use r'(5) lib_state_of_uapi in \<open>auto simp: ports_def\<close>)
qed

section \<open>Transfers\<close>

lemma virtusb_transfer_fetch_lib_ok:
  assumes wf: "control_wf held pins (below u)" and p: "handle_open p f c u" and b: "load_back c (below u) = Some b"
    and bd: "virtusb_backend_find_owner_locked b f = Some bd"
    and q: "device_queue (below u) b (bind_device bd) = r # rs"
    and tr: "load_trans (req_transfer r) (below u) = Some tr" and ob: "load_obj (bind_device bd) (below u) = Some ob"
  shows "virtusb_transfer_fetch_lib (kernel_calls True xa_mem waits nodes) (Some p) True u =
      Some (Some (0, Some (request_from_uapi (fetch_of tr ob))), on_kernel (put_back c (moved f r b) (below u)) u)"
    and "control_wf held pins (put_back c (moved f r b) (below u))"
    and "handle_open p f c (on_kernel (put_back c (moved f r b) (below u)) u)"
proof -
  have live: "live f c (below u)" using p by (simp add: handle_open_def)
  then have opened: "opened f c (below u)" by (simp add: live_def)
  from opened wf obtain fl v where fl: "load_file f (below u) = Some fl"
    and v: "load_hcd c (below u) = Some v" "ctl_hcd (vh_control v) = Some c" by (rule openedE)
  note fetch = virtusb_backend_fetch_ok [OF control_wfD(1) [OF wf] b bd q tr ob]
  have "virtusb_control_ioctl True xa_mem waits f VIRTUSB_IOCTL_TRANSFER_FETCH no_memory (below u) =
      Some (Some (0, Some (User_transfer_fetch (fetch_of tr ob))), put_back c (moved f r b) (below u))"
    using v fl by (simp add: virtusb_control_ioctl_def live_ioctl [OF live] Let_def ioctl_distinct
        virtusb_control_transfer_fetch_def fetch(1) no_memory_def)
  then show "virtusb_transfer_fetch_lib (kernel_calls True xa_mem waits nodes) (Some p) True u =
      Some (Some (0, Some (request_from_uapi (fetch_of tr ob))), on_kernel (put_back c (moved f r b) (below u)) u)"
    by (simp add: virtusb_transfer_fetch_lib_def library_ioctl [OF p])
  show "control_wf held pins (put_back c (moved f r b) (below u))"
    by (rule control_wf_moved [OF wf b fetch(2)]) (simp add: moved_def)
  have "kback.more (put_back c (moved f r b) (below u)) = kback.more (below u)" by (simp add: put_back_def)
  with live have "live f c (put_back c (moved f r b) (below u))"
    unfolding live_def opened_more [OF \<open>kback.more _ = _\<close>] by simp
  with p show "handle_open p f c (on_kernel (put_back c (moved f r b) (below u)) u)"
    by (simp add: handle_open_on_kernel)
qed

text \<open>The message the library builds from the caller's buffer.\<close>

definition completion_of :: "u64 \<Rightarrow> int \<Rightarrow> u8 list \<Rightarrow> u32 \<Rightarrow> virtusb_transfer_complete_request" where
  "completion_of i status buf n =
     \<lparr>tc_transfer_id = i, tc_status = status, tc_actual_length = n,
      tc_data = take (unat n) buf @ replicate (VIRTUSB_TRANSFER_DATA_MAX - unat n) 0\<rparr>"

lemma completion_of_sel [simp]:
  "tc_transfer_id (completion_of i status buf n) = i" "tc_status (completion_of i status buf n) = status"
  "tc_actual_length (completion_of i status buf n) = n"
  "tc_data (completion_of i status buf n) = take (unat n) buf @ replicate (VIRTUSB_TRANSFER_DATA_MAX - unat n) 0"
  by (simp_all add: completion_of_def)

lemma virtusb_transfer_complete_lib_ok:
  assumes wf: "control_wf held pins (below u)" and p: "handle_open p f c u" and b: "load_back c (below u) = Some b"
    and n: "n \<le> VIRTUSB_TRANSFER_DATA_MAX" "unat n \<le> length buf"
    and i: "i \<noteq> 0" "fetched_as f i (below u) b = Some r"
    and tr: "load_trans (req_transfer r) (below u) = Some tr" and urb: "load_urb (req_urb r) (below u) = Some urb"
  shows "runs (virtusb_transfer_complete_lib (kernel_calls True xa_mem waits nodes) (Some p) i status (Some buf) n u)
    (\<lambda>(ret, u'). control_wf held pins (below u') \<and>
      (if unat n > unat (t_requested_length tr)
       then ret = Some (- EMSGSIZE) \<and> gave_back c r urb (- EMSGSIZE) (below u) (below u')
       else ret = Some 0 \<and> gave_back c r (completed_urb urb tr (completion_of i status buf n)) status (below u) (below u')))"
proof -
  let ?m = "completion_of i status buf n"
  let ?argp = "no_memory\<lparr>um_transfer_complete := Some ?m\<rparr>"
  have live: "live f c (below u)" using p by (simp add: handle_open_def)
  then have opened: "opened f c (below u)" by (simp add: live_def)
  from p obtain h where h: "load_handle p u = Some h" "\<not> h_fd h < 0" by (auto simp: handle_open_def)
  have n4096: "unat n \<le> 4096" using n(1) by (simp add: word_le_nat_alt)
  have sized: "completions_sized ?argp" using n(2) n4096 by (simp add: completions_sized_def)
  from virtusb_control_transfer_complete_ok [OF wf opened b sized, of True] i tr urb obtain ret s' where
    s': "virtusb_control_transfer_complete True f c ?argp (below u) = Some (ret, s')" "control_wf held pins s'"
      "if unat n > unat (t_requested_length tr)
       then ret = - EMSGSIZE \<and> gave_back c r urb (- EMSGSIZE) (below u) s'
       else ret = 0 \<and> gave_back c r (completed_urb urb tr ?m) status (below u) s'"
    by (auto simp: runs_iff cong: if_cong)
  then have ioctl: "virtusb_control_ioctl True xa_mem waits f VIRTUSB_IOCTL_TRANSFER_COMPLETE ?argp (below u) = Some (Some (ret, None), s')"
    by (simp add: virtusb_control_ioctl_def live_ioctl [OF live] Let_def ioctl_distinct)
  have bytes: "(if 0 < n then do { buffer \<leftarrow> Some buf; memcpy (replicate VIRTUSB_TRANSFER_DATA_MAX 0) buffer (unat n) } else Some (replicate VIRTUSB_TRANSFER_DATA_MAX 0)) =
      Some (take (unat n) buf @ replicate (VIRTUSB_TRANSFER_DATA_MAX - unat n) 0)"
    using n(2) n4096 by (cases "n = 0") (simp_all add: word_gt_0)
  have "virtusb_transfer_complete_lib (kernel_calls True xa_mem waits nodes) (Some p) i status (Some buf) n u =
      plain_ioctl (kernel_calls True xa_mem waits nodes) (Some p) VIRTUSB_IOCTL_TRANSFER_COMPLETE ?argp u"
    using n(1) by (simp add: virtusb_transfer_complete_lib_def h bytes completion_of_def Let_def not_less [symmetric] split del: if_split)
  also have "\<dots> = Some (Some (if ret < 0 then ret else 0), on_kernel s' u)"
    by (simp add: library_ioctl [OF p] ioctl)
  finally have "virtusb_transfer_complete_lib (kernel_calls True xa_mem waits nodes) (Some p) i status (Some buf) n u =
      Some (Some (if ret < 0 then ret else 0), on_kernel s' u)" .
  with s'(2,3) show ?thesis by (auto split: if_splits)
qed

section \<open>Devices\<close>

lemma live_more:
  assumes "kback.more s' = kback.more s"
  shows "live f c s' = live f c s"
  unfolding live_def opened_more [OF assms] khcd_fields(1) [OF assms] ..

text \<open>A request without an answer struct.\<close>

lemma plain_ioctl_ok:
  assumes p: "handle_open p f c u"
    and code: "virtusb_control_ioctl mem xa_mem waits f command argp (below u) = do { (ret, s) \<leftarrow> m; Some (Some (ret, None), s) }"
    and m: "runs m (\<lambda>(ret, s'). ret \<le> 0 \<and> kback.more s' = kback.more (below u) \<and> Q ret s')"
  shows "runs (plain_ioctl (kernel_calls mem xa_mem waits nodes) (Some p) command argp u) (\<lambda>(r, u').
    handle_open p f c u' \<and> (\<exists>ret. r = Some ret \<and> Q ret (below u')))"
proof -
  from m obtain ret s' where m': "m = Some (ret, s')" "ret \<le> 0" "kback.more s' = kback.more (below u)" "Q ret s'"
    by (auto simp: runs_iff)
  have "live f c (below u)" using p by (simp add: handle_open_def)
  with live_more [OF m'(3)] p have "handle_open p f c (on_kernel s' u)" by (simp add: handle_open_on_kernel)
  with m' show ?thesis by (cases "ret < 0") (simp_all add: library_ioctl [OF p] code)
qed

lemma speed_caps_valid:
  assumes "virtusb_control_speed_caps_valid caps"
  shows "virtusb_port_speed_is_valid (ucast caps)"
proof -
  from assms have nz: "caps \<noteq> 0" and mask: "caps AND NOT 7 = 0" by (simp_all add: virtusb_control_speed_caps_valid_def)
  have seven: "(7 :: u32) = mask 3" by (simp add: mask_eq_exp_minus_1)
  have "caps = take_bit 3 caps"
  proof (rule bit_word_eqI)
    fix n
    have "bit (caps AND NOT 7) n \<longleftrightarrow> bit caps n \<and> n < 32 \<and> \<not> n < 3"
      unfolding seven by (auto simp: bit_simps dest: bit_imp_le_length)
    with mask show "bit caps n = bit (take_bit 3 caps) n" by (auto simp: bit_simps dest: bit_imp_le_length)
  qed
  then have "unat caps = take_bit 3 (unat caps)" by (metis unsigned_take_bit_eq)
  then have caps: "unat caps < 8" using take_bit_nat_less_exp [of 3 "unat caps"] by simp
  then have "unat (ucast caps :: u8) = unat caps" by (simp add: unsigned_ucast_eq take_bit_nat_eq_self)
  with caps nz show ?thesis by (simp add: virtusb_port_speed_is_valid_iff) (metis unat_eq_zero)
qed

lemma virtusb_device_create_lib_ok:
  assumes wf: "control_wf held pins (below u)" and p: "handle_open p f c u" and caps: "virtusb_control_speed_caps_valid caps"
    and next_id: "next_object_id (below u) \<le> U32_MAX"
  shows "runs (virtusb_device_create_lib (kernel_calls True True waits nodes) (Some p) caps True u) (\<lambda>(r, u').
    control_wf held pins (below u') \<and> handle_open p f c u' \<and>
    (\<exists>d ob. r = Some (0, Some (obj_id ob)) \<and> load_obj d (below u) = None \<and> load_obj d (below u') = Some ob \<and> obj_registered ob \<and>
       unat (obj_id ob) = unat (next_object_id (below u)) \<and>
       load_port (Dev_port d) (below u') = Some (upstream_port d (ucast caps)) \<and>
       (\<forall>h. load_hub h (below u') = load_hub h (below u)) \<and>
       (\<forall>e. e \<noteq> d \<longrightarrow> load_obj e (below u') = load_obj e (below u) \<and>
          load_port (Dev_port e) (below u') = load_port (Dev_port e) (below u))))"
proof -
  let ?argp = "no_memory\<lparr>um_device_create := Some \<lparr>dc_speed_caps = caps, dc_object_id = 0\<rparr>\<rparr>"
  have live: "live f c (below u)" using p by (simp add: handle_open_def)
  have "um_writable ?argp" by (simp add: no_memory_def)
  with virtusb_control_device_create_ok [OF wf, of True True ?argp] caps next_id speed_caps_valid [OF caps]
  obtain s' d ob where s': "virtusb_control_device_create True True ?argp (below u) =
        Some (0, Some (User_device_create \<lparr>dc_speed_caps = caps, dc_object_id = obj_id ob\<rparr>), s')"
      "control_wf held pins s'" "kback.more s' = kback.more (below u)"
      "load_obj d (below u) = None" "load_obj d s' = Some ob" "obj_registered ob"
      "unat (obj_id ob) = unat (next_object_id (below u))"
      "load_port (Dev_port d) s' = Some (upstream_port d (ucast caps))" "\<forall>h. load_hub h s' = load_hub h (below u)"
      "\<forall>e. e \<noteq> d \<longrightarrow> load_obj e s' = load_obj e (below u) \<and>
         load_port (Dev_port e) s' = load_port (Dev_port e) (below u)"
    by (auto simp: runs_iff)
  from s'(1) have ioctl: "virtusb_control_ioctl True True waits f VIRTUSB_IOCTL_DEVICE_CREATE ?argp (below u) =
      Some (Some (0, Some (User_device_create \<lparr>dc_speed_caps = caps, dc_object_id = obj_id ob\<rparr>)), s')"
    by (simp add: virtusb_control_ioctl_def live_ioctl [OF live] Let_def ioctl_distinct)
  have "handle_open p f c (on_kernel s' u)" using p live live_more [OF s'(3)] by (simp add: handle_open_on_kernel)
  with s'(2-10) show ?thesis
    by (simp add: virtusb_device_create_lib_def library_ioctl [OF p] ioctl) blast
qed

text \<open>An ID that is registered names one device.\<close>

lemma registered_unique:
  assumes "control_wf held pins s" and "load_obj d s = Some ob" and "obj_id ob \<noteq> 0"
    and "load_obj e s = Some ob'" and "obj_id ob' = obj_id ob"
  shows "e = d"
  using dev_wfD(2) [OF control_wf_dev [OF assms(1)]] assms(2-) unfolding obj_wf_def by metis

lemma virtusb_device_attach_lib_ok:
  assumes wf: "control_wf held pins (below u)" and p: "handle_open p f c u" and hub: "load_hub c (below u) = Some hub"
    and n: "valid_port hub n" and ob: "load_obj d (below u) = Some ob" "obj_registered ob" "obj_id ob \<noteq> 0"
  shows "runs (virtusb_device_attach_lib (kernel_calls mem xa_mem waits nodes) (Some p) (obj_id ob) 0 n u) (\<lambda>(r, u').
    handle_open p f c u' \<and> (\<exists>ret. r = Some ret \<and> control_wf held pins (below u') \<and>
    (let at = (c, unat (n - 1)) in
     if plugged (cabling_of (below u)) d \<noteq> None \<or> (\<exists>e. plugged (cabling_of (below u)) e = Some at)
     then ret = - EBUSY \<and> below u' = below u
     else ret = 0 \<and> topo_change (below u) (below u') (\<lambda>cb. cb\<lparr>plugged := (plugged cb)(d \<mapsto> at)\<rparr>))))"
proof -
  let ?argp = "no_memory\<lparr>um_device_attach := Some \<lparr>da_object_id = obj_id ob, da_hub_id = 0, da_port = n\<rparr>\<rparr>"
  have live: "live f c (below u)" using p by (simp add: handle_open_def)
  then have "opened f c (below u)" by (simp add: live_def)
  then obtain v where v: "load_hcd c (below u) = Some v" "ctl_hcd (vh_control v) = Some c" using wf by (rule openedE)
  have known: "\<not> unknown (obj_id ob) (below u)" using ob by (auto simp: unknown_def)
  have only: "load_obj e (below u) = Some ob' \<Longrightarrow> obj_id ob' = obj_id ob \<Longrightarrow> e = d" for e ob'
    by (rule registered_unique [OF wf ob(1,3)])
  have code: "virtusb_control_ioctl mem xa_mem waits f VIRTUSB_IOCTL_DEVICE_ATTACH ?argp (below u) =
      do { (ret, s) \<leftarrow> virtusb_control_device_attach (Some c) ?argp (below u); Some (Some (ret, None), s) }"
    by (simp add: virtusb_control_ioctl_def live_ioctl [OF live] Let_def ioctl_distinct)
  have "runs (virtusb_control_device_attach (Some c) ?argp (below u)) (\<lambda>(ret, s'). ret \<le> 0 \<and> kback.more s' = kback.more (below u) \<and>
      control_wf held pins s' \<and>
      (let at = (c, unat (n - 1)) in
       if plugged (cabling_of (below u)) d \<noteq> None \<or> (\<exists>e. plugged (cabling_of (below u)) e = Some at)
       then ret = - EBUSY \<and> s' = below u
       else ret = 0 \<and> topo_change (below u) s' (\<lambda>cb. cb\<lparr>plugged := (plugged cb)(d \<mapsto> at)\<rparr>)))"
    by (rule runs_mono [OF virtusb_control_device_attach_ok [OF wf v hub]])
       (use n known ob(3) only in \<open>auto simp: Let_def split: if_splits\<close>)
  from plain_ioctl_ok [OF p code this] show ?thesis by (simp add: virtusb_device_attach_lib_def)
qed

lemma virtusb_device_set_connected_ok:
  assumes wf: "control_wf held pins (below u)" and p: "handle_open p f c u"
    and ob: "load_obj d (below u) = Some ob" "obj_registered ob" "obj_id ob \<noteq> 0"
  shows "runs (virtusb_device_set_connected (kernel_calls mem xa_mem waits nodes) (Some p) (obj_id ob) connected u) (\<lambda>(r, u').
    handle_open p f c u' \<and> (\<exists>ret. r = Some ret \<and> control_wf held pins (below u') \<and> ret = 0 \<and>
      topo_change (below u) (below u') (\<lambda>cb. cb\<lparr>signaling := (signaling cb)(d := connected)\<rparr>)))"
proof -
  let ?argp = "no_memory\<lparr>um_device_connection := Some \<lparr>dn_object_id = obj_id ob, dn_enabled = (if connected then 1 else 0)\<rparr>\<rparr>"
  have live: "live f c (below u)" using p by (simp add: handle_open_def)
  have known: "\<not> unknown (obj_id ob) (below u)" using ob by (auto simp: unknown_def)
  have only: "load_obj e (below u) = Some ob' \<Longrightarrow> obj_id ob' = obj_id ob \<Longrightarrow> e = d" for e ob'
    by (rule registered_unique [OF wf ob(1,3)])
  have code: "virtusb_control_ioctl mem xa_mem waits f VIRTUSB_IOCTL_DEVICE_CONNECTION ?argp (below u) =
      do { (ret, s) \<leftarrow> virtusb_control_device_connection ?argp (below u); Some (Some (ret, None), s) }"
    by (simp add: virtusb_control_ioctl_def live_ioctl [OF live] Let_def ioctl_distinct)
  have "runs (virtusb_control_device_connection ?argp (below u)) (\<lambda>(ret, s'). ret \<le> 0 \<and> kback.more s' = kback.more (below u) \<and>
      control_wf held pins s' \<and> ret = 0 \<and>
      topo_change (below u) s' (\<lambda>cb. cb\<lparr>signaling := (signaling cb)(d := connected)\<rparr>))"
    by (rule runs_mono [OF virtusb_control_device_connection_ok [OF wf]])
       (use known ob(3) only in \<open>auto split: if_splits\<close>)
  from plain_ioctl_ok [OF p code this] show ?thesis by (simp add: virtusb_device_set_connected_def)
qed

text \<open>Plugging a new device in, as a program does it: create, attach, raise the connection.\<close>

definition plug_in ::
  "'k syscalls \<Rightarrow> nat option \<Rightarrow> u32 \<Rightarrow> u32 \<Rightarrow> ('k, 'a) uproc_scheme \<Rightarrow> (int option \<times> int option \<times> ('k, 'a) uproc_scheme) option" where
  "plug_in sys handle speed_caps port u = do {
     (created, u) \<leftarrow> virtusb_device_create_lib sys handle speed_caps True u;
     (_, object_id) \<leftarrow> created;
     object_id \<leftarrow> object_id;
     (attached, u) \<leftarrow> virtusb_device_attach_lib sys handle object_id 0 port u;
     (connected, u) \<leftarrow> virtusb_device_set_connected sys handle object_id True u;
     Some (attached, connected, u)
   }"

lemma plug_in_ok:
  assumes wf: "control_wf held pins (below u)" and p: "handle_open p f c u" and caps: "virtusb_control_speed_caps_valid caps"
    and next_id: "next_object_id (below u) \<le> U32_MAX" and hub: "load_hub c (below u) = Some hub" and n: "valid_port hub n"
  shows "runs (plug_in (kernel_calls True True waits nodes) (Some p) caps n u) (\<lambda>(attached, connected, u').
    control_wf held pins (below u') \<and> connected = Some 0 \<and>
    (if \<exists>e. plugged (cabling_of (below u)) e = Some (c, unat (n - 1))
     then attached = Some (- EBUSY) \<and> plugged (cabling_of (below u')) = plugged (cabling_of (below u))
     else attached = Some 0 \<and> (\<exists>d. load_obj d (below u) = None \<and> signaling (cabling_of (below u')) d \<and>
       plugged (cabling_of (below u')) = (plugged (cabling_of (below u)))(d \<mapsto> (c, unat (n - 1))))) \<and>
    vbus (cabling_of (below u')) = vbus (cabling_of (below u)))"
proof -
  note step1 = virtusb_device_create_lib_ok [OF wf p caps next_id, of waits nodes]
  then obtain r1 u1 d ob where c1: "virtusb_device_create_lib (kernel_calls True True waits nodes) (Some p) caps True u = Some (r1, u1)"
      "control_wf held pins (below u1)" "handle_open p f c u1" "r1 = Some (0, Some (obj_id ob))"
    and new: "load_obj d (below u) = None" "load_obj d (below u1) = Some ob" "obj_registered ob"
      "unat (obj_id ob) = unat (next_object_id (below u))" "load_port (Dev_port d) (below u1) = Some (upstream_port d (ucast caps))"
    and hubs: "\<And>h. load_hub h (below u1) = load_hub h (below u)"
    and others: "\<And>e. e \<noteq> d \<Longrightarrow> load_port (Dev_port e) (below u1) = load_port (Dev_port e) (below u)"
    by (auto simp: runs_iff)
  have "0 < next_object_id (below u)" by (rule obj_wfD(5) [OF dev_wfD(2) [OF control_wf_dev [OF wf]]])
  with new(4) have id0: "obj_id ob \<noteq> 0" by (auto simp: word_less_nat_alt)
  have none: "plugged (cabling_of (below u)) d = None" "plugged (cabling_of (below u1)) d = None"
    using dev_wfD(3) [OF control_wf_dev [OF wf], of d] new(1,5) by (simp_all add: cabling_of_def upstream_port_def load_port.simps)
  have same1: "plugged (cabling_of (below u1)) = plugged (cabling_of (below u))"
  proof
    fix e show "plugged (cabling_of (below u1)) e = plugged (cabling_of (below u)) e"
      using none others [of e] by (cases "e = d") (simp_all add: cabling_of_def)
  qed
  have vbus1: "vbus (cabling_of (below u1)) = vbus (cabling_of (below u))"
    by (simp add: cabling_of_def load_port.simps hubs)
  let ?busy = "\<exists>e. plugged (cabling_of (below u)) e = Some (c, unat (n - 1))"
  from virtusb_device_attach_lib_ok [OF c1(2,3) _ n new(2,3) id0, of True True waits nodes] hub hubs none
  obtain r2 u2 where c2: "virtusb_device_attach_lib (kernel_calls True True waits nodes) (Some p) (obj_id ob) 0 n u1 = Some (Some r2, u2)"
      "control_wf held pins (below u2)" "handle_open p f c u2"
    and a: "if ?busy then r2 = - EBUSY \<and> below u2 = below u1
      else r2 = 0 \<and> topo_change (below u1) (below u2) (\<lambda>cb. cb\<lparr>plugged := (plugged cb)(d \<mapsto> (c, unat (n - 1)))\<rparr>)"
    by (auto simp: runs_iff Let_def same1)
  have obj2: "load_obj d (below u2) = Some ob"
    using a new(2) layout_objects(1) [of "below u1" "below u2"] by (auto simp: topo_change_def split: if_splits)
  from virtusb_device_set_connected_ok [OF c2(2,3) obj2 new(3) id0, of True True waits nodes True]
  obtain u3 where c3: "virtusb_device_set_connected (kernel_calls True True waits nodes) (Some p) (obj_id ob) True u2 = Some (Some 0, u3)"
      "control_wf held pins (below u3)"
      "topo_change (below u2) (below u3) (\<lambda>cb. cb\<lparr>signaling := (signaling cb)(d := True)\<rparr>)"
    by (auto simp: runs_iff)
  have "plug_in (kernel_calls True True waits nodes) (Some p) caps n u = Some (Some r2, Some 0, u3)"
    by (simp add: plug_in_def c1(1,4) c2(1) c3(1))
  moreover have "cabling_of (below u3) = (cabling_of (below u2))\<lparr>signaling := (signaling (cabling_of (below u2)))(d := True)\<rparr>"
    using c3(3) by (simp add: topo_change_def)
  ultimately show ?thesis
    using a c3(2) new(1) same1 vbus1 by (auto simp: topo_change_def split: if_splits)
qed

end
