(* ===== verification/Virtusb_Ctl.thy ===== *)
theory Virtusb_Ctl
  imports Virtusb_Library
begin

text \<open>
  The command-line tool, \<open>tools/virtusbctl/main.c\<close>: its output, its parsers, one function per
  command and the dispatch of \<open>main\<close>. The program name and the arguments after it are lists of
  characters; where the code counts \<open>argument\<close> up to \<open>argc\<close>, the model takes the rest of the list.
\<close>

abbreviation (input) VIRTUSB_STATUS_CONNECTED :: u32 where "VIRTUSB_STATUS_CONNECTED \<equiv> 0x0001"
abbreviation (input) VIRTUSB_STATUS_ENABLED :: u32 where "VIRTUSB_STATUS_ENABLED \<equiv> 0x0002"
abbreviation (input) VIRTUSB_STATUS_SUSPENDED :: u32 where "VIRTUSB_STATUS_SUSPENDED \<equiv> 0x0004"
abbreviation (input) VIRTUSB_STATUS_OVER_CURRENT :: u32 where "VIRTUSB_STATUS_OVER_CURRENT \<equiv> 0x0008"
abbreviation (input) VIRTUSB_STATUS_RESET :: u32 where "VIRTUSB_STATUS_RESET \<equiv> 0x0010"
abbreviation (input) VIRTUSB_STATUS_POWER :: u32 where "VIRTUSB_STATUS_POWER \<equiv> 0x0100"

abbreviation (input) VIRTUSB_CHANGE_CONNECTED :: u32 where "VIRTUSB_CHANGE_CONNECTED \<equiv> 0x0001"
abbreviation (input) VIRTUSB_CHANGE_ENABLED :: u32 where "VIRTUSB_CHANGE_ENABLED \<equiv> 0x0002"
abbreviation (input) VIRTUSB_CHANGE_SUSPENDED :: u32 where "VIRTUSB_CHANGE_SUSPENDED \<equiv> 0x0004"
abbreviation (input) VIRTUSB_CHANGE_OVER_CURRENT :: u32 where "VIRTUSB_CHANGE_OVER_CURRENT \<equiv> 0x0008"
abbreviation (input) VIRTUSB_CHANGE_RESET :: u32 where "VIRTUSB_CHANGE_RESET \<equiv> 0x0010"

abbreviation (input) VIRTUSB_DEVICE_SPEED_LOW :: u32 where "VIRTUSB_DEVICE_SPEED_LOW \<equiv> 1"
abbreviation (input) VIRTUSB_DEVICE_SPEED_FULL :: u32 where "VIRTUSB_DEVICE_SPEED_FULL \<equiv> 2"
abbreviation (input) VIRTUSB_DEVICE_SPEED_HIGH :: u32 where "VIRTUSB_DEVICE_SPEED_HIGH \<equiv> 4"

abbreviation (input) EXIT_SUCCESS :: int where "EXIT_SUCCESS \<equiv> 0"
abbreviation (input) EXIT_FAILURE :: int where "EXIT_FAILURE \<equiv> 1"

text \<open>The process with its two output streams, and what the program takes from its environment.\<close>

record 'k terminal = "'k uproc" +
  stdout :: string
  stderr :: string

definition printf :: "string \<Rightarrow> ('k, 'a) terminal_scheme \<Rightarrow> ('k, 'a) terminal_scheme" where
  "printf text s = s\<lparr>stdout := stdout s @ text\<rparr>"

definition eprintf :: "string \<Rightarrow> ('k, 'a) terminal_scheme \<Rightarrow> ('k, 'a) terminal_scheme" where
  "eprintf text s = s\<lparr>stderr := stderr s @ text\<rparr>"

record 'k environment =
  env_sys :: "'k syscalls"
  env_calloc :: "int + nat"
  env_strerror :: "int \<Rightarrow> string"

section \<open>Output\<close>

definition virtusbctl_print_usage :: "string \<Rightarrow> ('k, 'a) terminal_scheme \<Rightarrow> ('k, 'a) terminal_scheme" where
  "virtusbctl_print_usage program = eprintf (
     ''Usage:'' @ newline @
     ''  '' @ program @ '' [-d INSTANCE] status [PORT]'' @ newline @
     ''  '' @ program @ '' [-d INSTANCE] device create SPEED[,SPEED...]'' @ newline @
     ''  '' @ program @ '' [-d INSTANCE] device destroy OBJECT_ID [--force]'' @ newline @
     ''  '' @ program @ '' [-d INSTANCE] device attach OBJECT_ID PORT'' @ newline @
     ''  '' @ program @ '' [-d INSTANCE] device detach OBJECT_ID'' @ newline @
     ''  '' @ program @ '' [-d INSTANCE] device connect OBJECT_ID'' @ newline @
     ''  '' @ program @ '' [-d INSTANCE] device disconnect OBJECT_ID'' @ newline @
     ''  '' @ program @ '' [-d INSTANCE] port power PORT on|off'' @ newline)"

fun virtusbctl_speed_name :: "virtusb_speed \<Rightarrow> string" where
  "virtusbctl_speed_name VIRTUSB_SPEED_NONE = ''none''"
| "virtusbctl_speed_name VIRTUSB_SPEED_LOW = ''low''"
| "virtusbctl_speed_name VIRTUSB_SPEED_FULL = ''full''"
| "virtusbctl_speed_name VIRTUSB_SPEED_HIGH = ''high''"

text \<open>The macro \<open>PRINT_STATUS_FLAG\<close>, which is \<open>PRINT_CHANGE_FLAG\<close> too: \<open>first\<close> and the text so far.\<close>

definition print_flag :: "u32 \<Rightarrow> u32 \<times> string \<Rightarrow> bool \<times> string \<Rightarrow> bool \<times> string" where
  "print_flag status flag acc =
     (case (flag, acc) of ((m, name), (first, text)) \<Rightarrow>
        if status AND m \<noteq> 0 then (False, text @ (if first then '''' else '','') @ name) else (first, text))"

definition virtusbctl_print_status_flags :: "u32 \<Rightarrow> ('k, 'a) terminal_scheme \<Rightarrow> ('k, 'a) terminal_scheme" where
  "virtusbctl_print_status_flags status s =
     (case fold (print_flag status)
             [(VIRTUSB_STATUS_CONNECTED, ''connected''), (VIRTUSB_STATUS_ENABLED, ''enabled''),
              (VIRTUSB_STATUS_SUSPENDED, ''suspended''), (VIRTUSB_STATUS_OVER_CURRENT, ''over-current''),
              (VIRTUSB_STATUS_RESET, ''reset''), (VIRTUSB_STATUS_POWER, ''power'')] (True, '''') of
        (first, text) \<Rightarrow> printf (if first then ''none'' else text) s)"

definition virtusbctl_print_change_flags :: "u32 \<Rightarrow> ('k, 'a) terminal_scheme \<Rightarrow> ('k, 'a) terminal_scheme" where
  "virtusbctl_print_change_flags change s =
     (case fold (print_flag change)
             [(VIRTUSB_CHANGE_CONNECTED, ''connected''), (VIRTUSB_CHANGE_ENABLED, ''enabled''),
              (VIRTUSB_CHANGE_SUSPENDED, ''suspended''), (VIRTUSB_CHANGE_OVER_CURRENT, ''over-current''),
              (VIRTUSB_CHANGE_RESET, ''reset'')] (True, '''') of
        (first, text) \<Rightarrow> printf (if first then ''none'' else text) s)"

definition virtusbctl_print_state :: "string \<Rightarrow> virtusb_state \<Rightarrow> ('k, 'a) terminal_scheme \<Rightarrow> ('k, 'a) terminal_scheme" where
  "virtusbctl_print_state label state s =
     (let s = printf (print_left 8 label @ '' status=0x'' @ print_x 8 (st_status state) @ '' ['') s;
          s = virtusbctl_print_status_flags (st_status state) s;
          s = printf (''] change=0x'' @ print_x 8 (st_change state) @ '' ['') s;
          s = virtusbctl_print_change_flags (st_change state) s
      in printf (''] speed='' @ virtusbctl_speed_name (st_speed state) @ newline) s)"

section \<open>Parsers\<close>

text \<open>The texts are pointers; the flag tells whether the caller passes a place for the result.\<close>

definition virtusbctl_parse_unsigned :: "string option \<Rightarrow> bool \<Rightarrow> int + u32" where
  "virtusbctl_parse_unsigned text value_given =
     (case text of
        None \<Rightarrow> Inl (- EINVAL)
      | Some text \<Rightarrow>
          if \<not> value_given \<or> text = [] then Inl (- EINVAL)
          else (case strtoul text of (parsed, rest, erange) \<Rightarrow>
            if erange \<or> rest \<noteq> [] \<or> parsed > 0xffffffff then Inl (- EINVAL) else Inr (ucast parsed)))"

text \<open>The loop over the tokens, from the text \<open>saveptr\<close> points to.\<close>

function speed_tokens :: "string \<Rightarrow> u32 \<Rightarrow> int + u32" where
  "speed_tokens saveptr caps =
     (case strtok_r CHR '','' saveptr of
        None \<Rightarrow> Inr caps
      | Some (token, saveptr) \<Rightarrow>
          if token = ''low'' then speed_tokens saveptr (caps OR VIRTUSB_DEVICE_SPEED_LOW)
          else if token = ''full'' then speed_tokens saveptr (caps OR VIRTUSB_DEVICE_SPEED_FULL)
          else if token = ''high'' then speed_tokens saveptr (caps OR VIRTUSB_DEVICE_SPEED_HIGH)
          else Inl (- EINVAL))"
  by auto
termination
  by (relation "measure (length \<circ> fst)") (auto dest!: strtok_r_shrinks)

declare speed_tokens.simps [simp del]

definition virtusbctl_parse_speed_caps :: "string option \<Rightarrow> bool \<Rightarrow> int + u32" where
  "virtusbctl_parse_speed_caps text speed_caps_given =
     (case text of
        None \<Rightarrow> Inl (- EINVAL)
      | Some text \<Rightarrow>
          if \<not> speed_caps_given \<or> length text = 0 \<or> length text \<ge> 64 then Inl (- EINVAL)
          else (case speed_tokens text 0 of
            Inl e \<Rightarrow> Inl e
          | Inr caps \<Rightarrow> if caps = 0 then Inl (- EINVAL) else Inr caps))"

section \<open>Commands\<close>

text \<open>
  Every command opens the controller, makes one call of the library, reports a failure or prints
  the result, and closes the handle. A call has the result \<^const>\<open>None\<close> while it sleeps.
\<close>

definition with_controller ::
  "'k environment \<Rightarrow> u32 \<Rightarrow> (nat option \<Rightarrow> ('k, 'a) terminal_scheme \<Rightarrow> ((int \<times> 'r) option \<times> ('k, 'a) terminal_scheme) option)
     \<Rightarrow> string \<Rightarrow> (nat option \<Rightarrow> 'r \<Rightarrow> ('k, 'a) terminal_scheme \<Rightarrow> ('k, 'a) terminal_scheme option)
     \<Rightarrow> ('k, 'a) terminal_scheme \<Rightarrow> (int option \<times> ('k, 'a) terminal_scheme) option" where
  "with_controller env inst call failed report s = do {
     (ret, handle, s) \<leftarrow> virtusb_open (env_sys env) (env_calloc env) inst True s;
     if ret < 0
     then Some (Some EXIT_FAILURE,
            eprintf (''Failed to open /dev/virtusb'' @ print_u inst @ '': '' @ env_strerror env (- ret) @ newline) s)
     else do {
       (result, s) \<leftarrow> call handle s;
       (case result of
          None \<Rightarrow> Some (None, s)
        | Some (ret, r) \<Rightarrow>
            if ret < 0 then do {
              let s = eprintf (failed @ '': '' @ env_strerror env (- ret) @ newline) s;
              s \<leftarrow> virtusb_close (env_sys env) handle s;
              Some (Some EXIT_FAILURE, s)
            }
            else do {
              s \<leftarrow> report handle r s;
              s \<leftarrow> virtusb_close (env_sys env) handle s;
              Some (Some EXIT_SUCCESS, s)
            })
     }
   }"

text \<open>A call without a result.\<close>

definition no_result :: "(int option \<times> 's) option \<Rightarrow> ((int \<times> unit) option \<times> 's) option" where
  "no_result m = do { (r, s) \<leftarrow> m; Some (map_option (\<lambda>ret. (ret, ())) r, s) }"

definition virtusbctl_device_create ::
  "'k environment \<Rightarrow> u32 \<Rightarrow> u32 \<Rightarrow> ('k, 'a) terminal_scheme \<Rightarrow> (int option \<times> ('k, 'a) terminal_scheme) option" where
  "virtusbctl_device_create env inst speed_caps =
     with_controller env inst
       (\<lambda>handle. virtusb_device_create_lib (env_sys env) handle speed_caps True)
       ''Failed to create device''
       (\<lambda>_ object_id s. do {
          object_id \<leftarrow> object_id;
          Some (printf (''Device created: '' @ print_u object_id @ newline) s)
        })"

definition virtusbctl_device_destroy ::
  "'k environment \<Rightarrow> u32 \<Rightarrow> u32 \<Rightarrow> bool \<Rightarrow> ('k, 'a) terminal_scheme \<Rightarrow> (int option \<times> ('k, 'a) terminal_scheme) option" where
  "virtusbctl_device_destroy env inst object_id force =
     with_controller env inst
       (\<lambda>handle s. no_result (virtusb_device_destroy_lib (env_sys env) handle object_id force s))
       (''Failed to destroy device '' @ print_u object_id)
       (\<lambda>_ _ s. Some (printf (''Device destroyed: '' @ print_u object_id @ (if force then '' (forced)'' else '''') @ newline) s))"

definition virtusbctl_device_attach ::
  "'k environment \<Rightarrow> u32 \<Rightarrow> u32 \<Rightarrow> u32 \<Rightarrow> ('k, 'a) terminal_scheme \<Rightarrow> (int option \<times> ('k, 'a) terminal_scheme) option" where
  "virtusbctl_device_attach env inst object_id port =
     with_controller env inst
       (\<lambda>handle s. no_result (virtusb_device_attach_lib (env_sys env) handle object_id 0 port s))
       (''Failed to attach device '' @ print_u object_id @ '' to port '' @ print_u port)
       (\<lambda>_ _ s. Some (printf (''Device '' @ print_u object_id @ '' attached to port '' @ print_u port @ newline) s))"

definition virtusbctl_device_detach ::
  "'k environment \<Rightarrow> u32 \<Rightarrow> u32 \<Rightarrow> ('k, 'a) terminal_scheme \<Rightarrow> (int option \<times> ('k, 'a) terminal_scheme) option" where
  "virtusbctl_device_detach env inst object_id =
     with_controller env inst
       (\<lambda>handle s. no_result (virtusb_device_detach_lib (env_sys env) handle object_id s))
       (''Failed to detach device '' @ print_u object_id)
       (\<lambda>_ _ s. Some (printf (''Device detached: '' @ print_u object_id @ newline) s))"

definition virtusbctl_device_connection ::
  "'k environment \<Rightarrow> u32 \<Rightarrow> u32 \<Rightarrow> bool \<Rightarrow> ('k, 'a) terminal_scheme \<Rightarrow> (int option \<times> ('k, 'a) terminal_scheme) option" where
  "virtusbctl_device_connection env inst object_id connected =
     with_controller env inst
       (\<lambda>handle s. no_result (virtusb_device_set_connected (env_sys env) handle object_id connected s))
       (''Failed to '' @ (if connected then ''connect'' else ''disconnect'') @ '' device '' @ print_u object_id)
       (\<lambda>_ _ s. Some (printf (''Device '' @ (if connected then ''connected'' else ''disconnected'') @ '': '' @
                        print_u object_id @ newline) s))"

definition virtusbctl_port_power ::
  "'k environment \<Rightarrow> u32 \<Rightarrow> u32 \<Rightarrow> bool \<Rightarrow> ('k, 'a) terminal_scheme \<Rightarrow> (int option \<times> ('k, 'a) terminal_scheme) option" where
  "virtusbctl_port_power env inst port powered =
     with_controller env inst
       (\<lambda>handle s. no_result (virtusb_set_port_power (env_sys env) handle 0 port powered s))
       (''Failed to set port '' @ print_u port @ '' power '' @ (if powered then ''on'' else ''off''))
       (\<lambda>_ _ s. Some (printf (''Port '' @ print_u port @ '' power: '' @ (if powered then ''on'' else ''off'') @ newline) s))"

text \<open>The label of a port, and the loop over the ports; an index past the array is a fault.\<close>

definition port_label :: "u32 \<Rightarrow> string" where
  "port_label port = snd (snprintf 32 (''port '' @ print_u port @ '':''))"

fun print_port_states :: "nat list \<Rightarrow> virtusb_state list \<Rightarrow> ('k, 'a) terminal_scheme \<Rightarrow> ('k, 'a) terminal_scheme option" where
  "print_port_states [] ports s = Some s"
| "print_port_states (i # is) ports s = do {
     state \<leftarrow> nth_opt ports i;
     print_port_states is ports (virtusbctl_print_state (port_label (word_of_nat i + 1)) state s)
   }"

definition print_status ::
  "u32 \<Rightarrow> nat option \<Rightarrow> virtusb_status option \<Rightarrow> ('k, 'a) terminal_scheme \<Rightarrow> ('k, 'a) terminal_scheme option" where
  "print_status port handle status s = do {
     status \<leftarrow> status;
     path \<leftarrow> virtusb_get_device_path handle s;
     let s = printf (''Device: '' @ (case path of None \<Rightarrow> ''<unknown>'' | Some p \<Rightarrow> p) @ newline) s;
     let s = printf (''Hub:    '' @ print_u (vs_hub_id status) @ newline) s;
     if port = 0 then do {
       let s = printf (''Ports:  '' @ print_u (vs_port_count status) @ newline @ newline) s;
       let s = virtusbctl_print_state ''hub:'' (vs_state status) s;
       print_port_states [0..<unat (vs_port_count status)] (vs_ports status) s
     }
     else do {
       let s = printf (''Port:   '' @ print_u (vs_port status) @ newline @ newline) s;
       Some (virtusbctl_print_state (port_label (vs_port status)) (vs_state status) s)
     }
   }"

definition virtusbctl_status ::
  "'k environment \<Rightarrow> u32 \<Rightarrow> u32 \<Rightarrow> ('k, 'a) terminal_scheme \<Rightarrow> (int option \<times> ('k, 'a) terminal_scheme) option" where
  "virtusbctl_status env inst port =
     with_controller env inst
       (\<lambda>handle. virtusb_get_port_status (env_sys env) handle 0 port True)
       (''Failed to query port '' @ print_u port)
       (print_status port)"

section \<open>The command line\<close>

text \<open>\<open>usage\<close> and \<open>complain\<close> end the program; \<open>last_argument\<close> is the final test of every command.\<close>

definition usage :: "string \<Rightarrow> ('k, 'a) terminal_scheme \<Rightarrow> (int option \<times> ('k, 'a) terminal_scheme) option" where
  "usage program s = Some (Some EXIT_FAILURE, virtusbctl_print_usage program s)"

definition complain :: "string \<Rightarrow> ('k, 'a) terminal_scheme \<Rightarrow> (int option \<times> ('k, 'a) terminal_scheme) option" where
  "complain text s = Some (Some EXIT_FAILURE, eprintf (text @ newline) s)"

definition quoted :: "string \<Rightarrow> string" where
  "quoted text = CHR 0x27 # text @ [CHR 0x27]"

definition last_argument ::
  "string \<Rightarrow> string list \<Rightarrow> (('k, 'a) terminal_scheme \<Rightarrow> (int option \<times> ('k, 'a) terminal_scheme) option)
     \<Rightarrow> ('k, 'a) terminal_scheme \<Rightarrow> (int option \<times> ('k, 'a) terminal_scheme) option" where
  "last_argument program args run = (if args \<noteq> [] then usage program else run)"

text \<open>The tests for an object ID and for a port: a number other than zero, with what follows it.\<close>

definition object_id_argument :: "string list \<Rightarrow> (u32 \<times> string list) option" where
  "object_id_argument args =
     (case args of
        [] \<Rightarrow> None
      | text # rest \<Rightarrow>
          (case virtusbctl_parse_unsigned (Some text) True of
             Inl _ \<Rightarrow> None
           | Inr object_id \<Rightarrow> if object_id = VIRTUSB_INVALID_OBJECT_ID then None else Some (object_id, rest)))"

definition port_argument :: "string list \<Rightarrow> (u32 \<times> string list) option" where
  "port_argument args =
     (case args of
        [] \<Rightarrow> None
      | text # rest \<Rightarrow>
          (case virtusbctl_parse_unsigned (Some text) True of
             Inl _ \<Rightarrow> None
           | Inr port \<Rightarrow> if port = 0 \<or> port > VIRTUSB_MAX_PORTS then None else Some (port, rest)))"

definition main_status ::
  "'k environment \<Rightarrow> string \<Rightarrow> u32 \<Rightarrow> string list \<Rightarrow> ('k, 'a) terminal_scheme \<Rightarrow> (int option \<times> ('k, 'a) terminal_scheme) option" where
  "main_status env program inst args =
     (case args of
        [] \<Rightarrow> virtusbctl_status env inst 0
      | text # rest \<Rightarrow>
          (case virtusbctl_parse_unsigned (Some text) True of
             Inl _ \<Rightarrow> complain (''Invalid port: '' @ text)
           | Inr port \<Rightarrow>
               if port > VIRTUSB_MAX_PORTS then complain (''Invalid port: '' @ text)
               else last_argument program rest (virtusbctl_status env inst port)))"

definition main_port ::
  "'k environment \<Rightarrow> string \<Rightarrow> u32 \<Rightarrow> string list \<Rightarrow> ('k, 'a) terminal_scheme \<Rightarrow> (int option \<times> ('k, 'a) terminal_scheme) option" where
  "main_port env program inst args =
     (if args = [] \<or> hd args \<noteq> ''power'' then usage program
      else (case port_argument (tl args) of
        None \<Rightarrow> complain ''Invalid port''
      | Some (port, rest) \<Rightarrow>
          (case rest of
             [] \<Rightarrow> usage program
           | text # rest \<Rightarrow>
               if text = ''on'' then last_argument program rest (virtusbctl_port_power env inst port True)
               else if text = ''off'' then last_argument program rest (virtusbctl_port_power env inst port False)
               else complain (''Power state must be '' @ quoted ''on'' @ '' or '' @ quoted ''off''))))"

definition main_device ::
  "'k environment \<Rightarrow> string \<Rightarrow> u32 \<Rightarrow> string list \<Rightarrow> ('k, 'a) terminal_scheme \<Rightarrow> (int option \<times> ('k, 'a) terminal_scheme) option" where
  "main_device env program inst args =
     (case args of
        [] \<Rightarrow> usage program
      | command # args \<Rightarrow>
          if command = ''create'' then
            (case args of
               [] \<Rightarrow> complain ''Invalid device speed capability list''
             | text # rest \<Rightarrow>
                 (case virtusbctl_parse_speed_caps (Some text) True of
                    Inl _ \<Rightarrow> complain ''Invalid device speed capability list''
                  | Inr speed_caps \<Rightarrow> last_argument program rest (virtusbctl_device_create env inst speed_caps)))
          else if command = ''destroy'' then
            (case object_id_argument args of
               None \<Rightarrow> complain ''Invalid object ID''
             | Some (object_id, rest) \<Rightarrow>
                 if rest \<noteq> [] \<and> hd rest = ''--force''
                 then last_argument program (tl rest) (virtusbctl_device_destroy env inst object_id True)
                 else last_argument program rest (virtusbctl_device_destroy env inst object_id False))
          else if command = ''attach'' then
            (case object_id_argument args of
               None \<Rightarrow> complain ''Invalid object ID''
             | Some (object_id, rest) \<Rightarrow>
                 (case port_argument rest of
                    None \<Rightarrow> complain ''Invalid port''
                  | Some (port, rest) \<Rightarrow> last_argument program rest (virtusbctl_device_attach env inst object_id port)))
          else if command = ''detach'' then
            (case object_id_argument args of
               None \<Rightarrow> complain ''Invalid object ID''
             | Some (object_id, rest) \<Rightarrow> last_argument program rest (virtusbctl_device_detach env inst object_id))
          else if command = ''connect'' \<or> command = ''disconnect'' then
            (case object_id_argument args of
               None \<Rightarrow> complain ''Invalid object ID''
             | Some (object_id, rest) \<Rightarrow>
                 last_argument program rest (virtusbctl_device_connection env inst object_id (command = ''connect'')))
          else usage program)"

definition main_command ::
  "'k environment \<Rightarrow> string \<Rightarrow> u32 \<Rightarrow> string list \<Rightarrow> ('k, 'a) terminal_scheme \<Rightarrow> (int option \<times> ('k, 'a) terminal_scheme) option" where
  "main_command env program inst args =
     (case args of
        [] \<Rightarrow> usage program
      | command # args \<Rightarrow>
          if command = ''status'' then main_status env program inst args
          else if command = ''port'' then main_port env program inst args
          else if command = ''device'' then main_device env program inst args
          else usage program)"

definition virtusbctl_main ::
  "'k environment \<Rightarrow> string \<Rightarrow> string list \<Rightarrow> ('k, 'a) terminal_scheme \<Rightarrow> (int option \<times> ('k, 'a) terminal_scheme) option" where
  "virtusbctl_main env program args =
     (if args \<noteq> [] \<and> hd args = ''-d'' then
        (case tl args of
           [] \<Rightarrow> usage program
         | text # rest \<Rightarrow>
             (case virtusbctl_parse_unsigned (Some text) True of
                Inl _ \<Rightarrow> complain (''Invalid instance: '' @ text)
              | Inr inst \<Rightarrow> main_command env program inst rest))
      else main_command env program 0 args)"

end
