(* ===== verification/Virtusb_Process.thy ===== *)
theory Virtusb_Process
  imports Virtusb_Library_Props Virtusb_Ctl
begin

text \<open>
  A process that uses libvirtusb on the driver: opening and closing controllers, and what every
  other call of the library leaves as it is. The programs rest on these.
\<close>

section \<open>Processes\<close>

text \<open>The driver is well formed and the numbers that are handed out next are unused.\<close>

definition process_ok :: "(nat \<Rightarrow> nat) \<Rightarrow> (nat \<Rightarrow> nat) \<Rightarrow> (vfs, 'a) uproc_scheme \<Rightarrow> bool" where
  "process_ok held pins u \<longleftrightarrow> control_wf held pins (below u) \<and> 0 \<le> next_fd (kern u) \<and>
     (\<forall>fd \<ge> next_fd (kern u). fds (kern u) fd = None) \<and> (\<forall>f \<ge> next_file (kern u). load_file f (below u) = None)"

text \<open>Every device node belongs to a controller of the driver.\<close>

definition nodes_ok :: "(string \<Rightarrow> nat option) \<Rightarrow> (vfs, 'a) uproc_scheme \<Rightarrow> bool" where
  "nodes_ok nodes u \<longleftrightarrow> (\<forall>path c. nodes path = Some c \<longrightarrow> load_hcd c (below u) \<noteq> None)"

text \<open>What a call that neither opens nor closes keeps.\<close>

definition stays :: "(nat \<Rightarrow> nat) \<Rightarrow> (nat \<Rightarrow> nat) \<Rightarrow> (vfs, 'a) uproc_scheme \<Rightarrow> (vfs, 'a) uproc_scheme \<Rightarrow> bool" where
  "stays held pins u u' \<longleftrightarrow> process_ok held pins u' \<and> fds (kern u') = fds (kern u) \<and> handles u' = handles u \<and>
     kback.more (below u') = kback.more (below u)"

lemma stays_refl: "process_ok held pins u \<Longrightarrow> stays held pins u u"
  by (simp add: stays_def)

lemma stays_trans: "stays held pins u v \<Longrightarrow> stays held pins v w \<Longrightarrow> stays held pins u w"
  by (simp add: stays_def)

lemma stays_on_kernel:
  assumes "process_ok held pins u" and "control_wf held pins s" and "kback.more s = kback.more (below u)"
  shows "stays held pins u (on_kernel s u)"
  using assms khcd_fields(2) [OF assms(3)] by (simp add: stays_def process_ok_def on_kernel_def)

section \<open>A call of the library\<close>

lemma library_call_ok:
  assumes ok: "process_ok held pins u" and p: "load_handle p u = Some h" "0 \<le> h_fd h" "fds (kern u) (h_fd h) = Some f"
    and fl: "load_file f (below u) = Some fl" and sized: "completions_sized argp" and command: "command \<noteq> VIRTUSB_IOCTL_TRANSFER_FETCH"
    and waits: "\<And>c. live f c (below u) \<Longrightarrow> \<forall>(ret, step) \<in> set waits. keeps_open held pins f c step"
    and fin: "\<And>ret out s'. virtusb_control_ioctl mem xa_mem waits f command argp (below u) = Some (Some (ret, out), s') \<Longrightarrow>
      0 \<le> ret \<Longrightarrow> finish out \<noteq> None"
  shows "runs (with_ioctl (kernel_calls mem xa_mem waits nodes) (Some p) command argp finish failed u) (\<lambda>(r, u').
    stays held pins u u' \<and> (\<exists>x. r = Some x \<and> ((\<exists>e. e < 0 \<and> x = failed e) \<or> (\<exists>ret out s'. 0 \<le> ret \<and> finish out = Some x \<and>
       virtusb_control_ioctl mem xa_mem waits f command argp (below u) = Some (Some (ret, out), s')))))"
proof -
  from ok have wf: "control_wf held pins (below u)" by (simp add: process_ok_def)
  from virtusb_control_ioctl_ok [OF wf fl sized waits, where mem = mem and xa_mem = xa_mem and command = command] command
  obtain result s where code: "virtusb_control_ioctl mem xa_mem waits f command argp (below u) = Some (result, s)"
    and s: "control_wf held pins s" "kback.more s = kback.more (below u)"
    and res: "result = Some (- ENODEV, None) \<or> result = Some (- ENOTTY, None) \<or> ioctl_result command result"
    by (auto simp: runs_iff split: if_splits)
  from res command obtain ret out where r: "result = Some (ret, out)" by (cases result) (auto simp: ioctl_result_def)
  have "calls.handle_on p f u" using p by (auto simp: calls.handle_on_def fd_file_def)
  note call = calls.with_ioctl_handler [OF this, of mem xa_mem waits nodes command argp finish failed, unfolded code r]
  have on: "calls.on_driver s u = on_kernel s u" by (simp add: calls.on_driver_def on_kernel_def)
  show ?thesis
  proof (cases "ret < 0")
    case True
    with call stays_on_kernel [OF ok s] show ?thesis by (auto simp: on)
  next
    case False
    with fin [OF code [unfolded r]] obtain x where "finish out = Some x" by auto
    with False call stays_on_kernel [OF ok s] code r show ?thesis by (auto simp: on)
  qed
qed

section \<open>Opening and closing\<close>

lemma length_number_string:
  assumes "n < 10 ^ Suc k"
  shows "length (number_string 10 n) \<le> Suc k"
  using assms
proof (induction k arbitrary: n)
  case (Suc k)
  then have "n div 10 < 10 ^ Suc k" by (simp add: div_less_iff_less_mult)
  with Suc.IH [of "n div 10"] show ?case by (simp add: number_string.simps [of 10 n])
qed (simp add: number_string.simps)

lemma device_path_fits: "length (device_path inst) < VIRTUSB_DEVICE_PATH_MAX"
proof -
  have "unat inst < 10 ^ Suc 9" using unsigned_less [of inst, where 'a = nat] by simp
  from length_number_string [OF this] show ?thesis by (simp add: device_path_def print_u_def)
qed

text \<open>A file that is closed can be forgotten.\<close>

lemma control_wf_forget:
  assumes wf: "control_wf held pins s"
    and free: "\<And>h b. load_back h s = Some b \<Longrightarrow> f \<notin> bind_owner ` set (bindings b)"
  shows "control_wf held pins (s\<lparr>files := (files s)(f := None)\<rparr>)"
proof -
  let ?s = "s\<lparr>files := (files s)(f := None)\<rparr>"
  have same: "load_hcd h ?s = load_hcd h s" "load_back h ?s = load_back h s" "load_hub h ?s = load_hub h s" for h
    by (simp_all add: load_hcd_def load_back_def load_hub_def)
  have "load_file g ?s = (if g = f then None else load_file g s)" for g by (simp add: load_file_def)
  with ctl_okD [OF control_wfD(2) [OF wf]] free have "ctl_ok ?s"
    unfolding ctl_ok_def hcd_ok_def same by (auto split: if_splits) (metis imageI)+
  moreover have "kback.truncate ?s = kback.truncate s" by (cases s) (simp add: kback.defs)
  from back_wf_truncate [OF this] have "back_wf held pins ?s" using control_wfD(1) [OF wf] by simp
  ultimately show ?thesis by (simp add: control_wf_def)
qed

text \<open>The effect of opening and closing on the process.\<close>

definition opened_as :: "nat \<Rightarrow> u32 \<Rightarrow> nat \<Rightarrow> (vfs, 'a) uproc_scheme \<Rightarrow> (vfs, 'a) uproc_scheme \<Rightarrow> bool" where
  "opened_as p inst c u u' \<longleftrightarrow>
     handles u' = (handles u)(p \<mapsto> \<lparr>h_fd = next_fd (kern u), h_instance = inst, h_device_path = device_path inst\<rparr>) \<and>
     fds (kern u') = (fds (kern u))(next_fd (kern u) \<mapsto> next_file (kern u)) \<and> uproc.more u' = uproc.more u \<and>
     below u' = put_file (next_file (kern u)) (new_file\<lparr>file_private := Some \<lparr>cf_control = Some c\<rparr>\<rparr>) (below u)"

lemma kernel_open_ok:
  assumes ok: "process_ok held pins u" and nodes: "nodes_ok nodes u"
  shows "runs (kernel_open mem nodes path (kern u)) (\<lambda>((fd, errno), k). process_ok held pins (u\<lparr>kern := k\<rparr>) \<and>
    (if fd < 0 then fd = - 1 \<and> 0 < errno \<and> k = kern u \<and> (nodes path = None \<or> \<not> mem)
     else fd = next_fd (kern u) \<and> fds k = (fds (kern u))(next_fd (kern u) \<mapsto> next_file (kern u)) \<and>
       (\<exists>c. nodes path = Some c \<and>
          vkernel k = put_file (next_file (kern u)) (new_file\<lparr>file_private := Some \<lparr>cf_control = Some c\<rparr>\<rparr>) (below u))))"
proof (cases "nodes path")
  case None
  with ok show ?thesis by (simp add: kernel_open_def)
next
  case (Some c)
  let ?k = "kern u"
  let ?f = "next_file ?k"
  let ?s = "put_file ?f new_file (vkernel ?k)"
  from ok have wf: "control_wf held pins (vkernel ?k)" and pos: "0 \<le> next_fd ?k"
    and fresh: "\<forall>fd \<ge> next_fd ?k. fds ?k fd = None" "\<forall>f \<ge> ?f. load_file f (vkernel ?k) = None"
    by (simp_all add: process_ok_def)
  have none: "load_file ?f (vkernel ?k) = None" using fresh(2) by simp
  have c: "load_hcd c (vkernel ?k) \<noteq> None" using nodes Some by (auto simp: nodes_ok_def)
  have "ctl_ok ?s"
  proof (rule ctl_ok_put_file [OF control_wfD(2) [OF wf]])
    show "file_opens h new_file" if "load_back h (vkernel ?k) = Some b" "bd \<in> set (bindings b)" "bind_owner bd = ?f" for h b bd
      using ctl_okD(4) [OF control_wfD(2) [OF wf] that(1,2)] that(3) none by simp
  qed (simp add: new_file_def)
  then have "control_wf held pins ?s" by (rule control_wf_put_file [OF wf])
  from virtusb_control_open_ok [OF this, of ?f new_file c mem] c have
    run: "runs (virtusb_control_open mem c ?f ?s) (\<lambda>(ret, s'). control_wf held pins s' \<and>
      (if mem then ret = 0 \<and> s' = put_file ?f (new_file\<lparr>file_private := Some \<lparr>cf_control = Some c\<rparr>\<rparr>) ?s
       else ret = - ENOMEM \<and> s' = ?s))" by (simp add: new_file_def)
  have undone: "?s\<lparr>files := (files ?s)(?f := None)\<rparr> = vkernel ?k"
    using none by (cases "vkernel ?k") (simp add: put_file_def load_file_def fun_upd_idem)
  have put: "put_file ?f b (put_file ?f a s) = put_file ?f b s" for a b s by (simp add: put_file_def)
  show ?thesis
  proof (cases mem)
    case True
    with run fresh pos Some show ?thesis
      by (auto simp: runs_iff kernel_open_def process_ok_def put Let_def)
  next
    case False
    with run ok Some undone show ?thesis by (auto simp: runs_iff kernel_open_def process_ok_def Let_def)
  qed
qed

lemma kernel_close_ok:
  assumes ok: "process_ok held pins u" and fd: "fds (kern u) fd = Some f" and fl: "load_file f (below u) = Some fl"
  shows "runs (kernel_close fd (kern u)) (\<lambda>k. process_ok held pins (u\<lparr>kern := k\<rparr>) \<and> fds k = (fds (kern u))(fd := None) \<and>
    registry (vkernel k) = registry (below u) \<and> (\<forall>h b. load_back h (vkernel k) = Some b \<longrightarrow> f \<notin> bind_owner ` set (bindings b)) \<and>
    (\<forall>g. load_file g (vkernel k) = (if g = f then None else load_file g (below u))))"
proof -
  from ok have wf: "control_wf held pins (below u)" by (simp add: process_ok_def)
  from virtusb_control_release_ok [OF wf fl] obtain s' s1 where
    code: "virtusb_control_release f (below u) = Some (0, s')" and s': "control_wf held pins s'"
      "\<forall>h b. load_back h s' = Some b \<longrightarrow> f \<notin> bind_owner ` set (bindings b)"
      "s' = put_file f (fl\<lparr>file_private := None\<rparr>) s1"
    and rel: "if \<exists>c. opened f c (below u) then \<exists>c b. opened f c (below u) \<and> load_back c (below u) = Some b \<and>
        session_released f c b (below u) s1 else s1 = below u"
    unfolding runs_iff split_paired_Ex split_conv by blast
  have more: "kback.more s1 = kback.more (below u)" "registry s1 = registry (below u)"
    using rel by (auto simp: session_released_def gave_back_all_def wake_up_interruptible_all_def split: if_splits option.splits)
  then have files: "load_file g s' = (if g = f then Some (fl\<lparr>file_private := None\<rparr>) else load_file g (below u))" for g
    using khcd_fields(2) [OF more(1), of g] by (simp add: s'(3))
  let ?s = "s'\<lparr>files := (files s')(f := None)\<rparr>"
  have "control_wf held pins ?s" using s'(2) by (intro control_wf_forget [OF s'(1)]) blast
  moreover have "load_file g ?s = (if g = f then None else load_file g (below u))" for g
    using files [of g] by (simp add: load_file_def)
  moreover have "load_back h ?s = load_back h s'" for h by (simp add: load_back_def)
  moreover have "registry ?s = registry (below u)" using more(2) by (simp add: s'(3) put_file_def)
  ultimately show ?thesis
    using ok s'(2) by (simp add: kernel_close_def fd code process_ok_def)
qed

lemma process_ok_kern: "process_ok held pins (u\<lparr>kern := k\<rparr>) \<Longrightarrow> kern u' = k \<Longrightarrow> process_ok held pins u'"
  by (simp add: process_ok_def)

lemma virtusb_open_ok:
  fixes u :: "(vfs, 'a) uproc_scheme"
  assumes ok: "process_ok held pins u" and nodes: "nodes_ok nodes u" and calloc: "\<And>e. calloc = Inl e \<Longrightarrow> 0 \<le> e"
  shows "runs (virtusb_open (kernel_calls mem xa_mem waits nodes) calloc inst True u) (\<lambda>(ret, handle, u').
    process_ok held pins u' \<and> uproc.more u' = uproc.more u \<and> registry (below u') = registry (below u) \<and>
    (if ret < 0
     then handle = None \<and> fds (kern u') = fds (kern u) \<and> handles u' = handles u \<and>
       (\<forall>f. load_file f (below u') = load_file f (below u)) \<and>
       (nodes (device_path inst) = None \<or> \<not> mem \<or> (\<exists>e. calloc = Inl e))
     else ret = 0 \<and> (\<exists>p c. calloc = Inr p \<and> handle = Some p \<and> nodes (device_path inst) = Some c \<and> opened_as p inst c u u')))"
proof -
  let ?path = "device_path inst"
  note fits = device_path_fits [of inst]
  have path: "snprintf 64 ?path = (length ?path, ?path)" using fits by (simp add: snprintf_def)
  from ok have pos: "0 \<le> next_fd (kern u)" and fresh: "fds (kern u) (next_fd (kern u)) = None" by (simp_all add: process_ok_def)
  from kernel_open_ok [OF ok nodes, of mem ?path] obtain fd errno k where
    code: "kernel_open mem nodes ?path (kern u) = Some ((fd, errno), k)" and k: "process_ok held pins (u\<lparr>kern := k\<rparr>)"
    and res: "if fd < 0 then fd = - 1 \<and> 0 < errno \<and> k = kern u \<and> (nodes ?path = None \<or> \<not> mem)
      else fd = next_fd (kern u) \<and> fds k = (fds (kern u))(next_fd (kern u) \<mapsto> next_file (kern u)) \<and>
        (\<exists>c. nodes ?path = Some c \<and>
           vkernel k = put_file (next_file (kern u)) (new_file\<lparr>file_private := Some \<lparr>cf_control = Some c\<rparr>\<rparr>) (below u))"
    unfolding runs_iff split_paired_Ex split_conv by blast
  have sys: "sys_open (kernel_calls mem xa_mem waits nodes) = kernel_open mem nodes"
    "sys_close (kernel_calls mem xa_mem waits nodes) = kernel_close" by (simp_all add: kernel_calls_def)
  show ?thesis
  proof (cases "fd < 0")
    case True
    with res code k ok fits show ?thesis by (auto simp: virtusb_open_def path sys Let_def)
  next
    case False
    with res obtain c where fd: "fd = next_fd (kern u)" "fds k = (fds (kern u))(fd \<mapsto> next_file (kern u))"
      and c: "nodes ?path = Some c"
      and v: "vkernel k = put_file (next_file (kern u)) (new_file\<lparr>file_private := Some \<lparr>cf_control = Some c\<rparr>\<rparr>) (below u)" by auto
    show ?thesis
    proof (cases calloc)
      case (Inl e)
      let ?u = "u\<lparr>kern := k\<rparr>"
      have "fds (kern ?u) fd = Some (next_file (kern u))" "load_file (next_file (kern u)) (below ?u) \<noteq> None"
        using fd v by simp_all
      with kernel_close_ok [OF k] obtain k' where close: "kernel_close fd k = Some k'"
        "process_ok held pins (u\<lparr>kern := k'\<rparr>)" "fds k' = (fds k)(fd := None)"
        "registry (vkernel k') = registry (vkernel k)"
        "\<forall>g. load_file g (vkernel k') = (if g = next_file (kern u) then None else load_file g (vkernel k))"
        by (force simp: runs_iff)
      have "registry (vkernel k) = registry (below u)" using v by (simp add: put_file_def)
      moreover have "fds k' = fds (kern u)" using close(3) fd fresh by (simp add: fun_upd_idem)
      moreover have "load_file g (vkernel k') = load_file g (below u)" for g
        using close(5) v ok by (simp add: process_ok_def)
      ultimately show ?thesis
        using close False code fits Inl calloc [OF Inl] by (simp add: virtusb_open_def path sys Let_def)
    next
      case (Inr p)
      with False code fits c fd k v show ?thesis
        by (auto simp: virtusb_open_def path sys Let_def opened_as_def put_file_def elim!: process_ok_kern)
    qed
  qed
qed

lemma virtusb_close_ok:
  assumes ok: "process_ok held pins u" and p: "load_handle p u = Some h" "0 \<le> h_fd h" "fds (kern u) (h_fd h) = Some f"
    and fl: "load_file f (below u) = Some fl"
  shows "runs (virtusb_close (kernel_calls mem xa_mem waits nodes) (Some p) u) (\<lambda>u'. process_ok held pins u' \<and>
    fds (kern u') = (fds (kern u))(h_fd h := None) \<and> handles u' = (handles u)(p := None) \<and> uproc.more u' = uproc.more u \<and>
    registry (below u') = registry (below u) \<and> (\<forall>g b. load_back g (below u') = Some b \<longrightarrow> f \<notin> bind_owner ` set (bindings b)) \<and>
    (\<forall>g. load_file g (below u') = (if g = f then None else load_file g (below u))))"
proof -
  from kernel_close_ok [OF ok p(3) fl] obtain k where k: "kernel_close (h_fd h) (kern u) = Some k"
    "process_ok held pins (u\<lparr>kern := k\<rparr>)" "fds k = (fds (kern u))(h_fd h := None)"
    "registry (vkernel k) = registry (below u)"
    "\<forall>g b. load_back g (vkernel k) = Some b \<longrightarrow> f \<notin> bind_owner ` set (bindings b)"
    "\<forall>g. load_file g (vkernel k) = (if g = f then None else load_file g (below u))"
    unfolding runs_iff by blast
  with p show ?thesis by (auto simp: virtusb_close_def kernel_calls_def elim!: process_ok_kern)
qed

end
