(* ===== verification/Virtusb_Ctl_Props.thy ===== *)
theory Virtusb_Ctl_Props
  imports Virtusb_Process
begin

text \<open>
  virtusbctl: what its parsers accept, that \<open>main\<close> reads back the command lines of a small grammar,
  what \<open>status\<close> prints, and that no run leaves a descriptor, a handle or a broken driver behind.
\<close>

section \<open>Output\<close>

lemma printf_sel [simp]:
  "kern (printf t s) = kern s" "handles (printf t s) = handles s" "stderr (printf t s) = stderr s" "stdout (printf t s) = stdout s @ t"
  "kern (eprintf t s) = kern s" "handles (eprintf t s) = handles s" "stdout (eprintf t s) = stdout s" "stderr (eprintf t s) = stderr s @ t"
  by (simp_all add: printf_def eprintf_def)

lemma printf_printf [simp]: "printf a (printf b s) = printf (b @ a) s"
  by (simp add: printf_def)

lemma printf_Nil [simp]: "printf [] s = s"
  by (simp add: printf_def)

lemma process_ok_printf [simp]:
  "process_ok held pins (printf t s) = process_ok held pins s" "process_ok held pins (eprintf t s) = process_ok held pins s"
  by (simp_all add: process_ok_def)

lemma stays_printf [simp]:
  "stays held pins s (printf t s') = stays held pins s s'" "stays held pins s (eprintf t s') = stays held pins s s'"
  by (simp_all add: stays_def)

text \<open>Words separated by commas.\<close>

fun commas :: "string list \<Rightarrow> string" where
  "commas [] = []"
| "commas [w] = w"
| "commas (w # ws) = w @ '','' @ commas ws"

lemma commas_snoc: "ws \<noteq> [] \<Longrightarrow> commas (ws @ [w]) = commas ws @ '','' @ w"
  by (induction ws rule: commas.induct) auto

text \<open>The flags that are set, by name.\<close>

definition flag_names :: "(u32 \<times> string) list \<Rightarrow> u32 \<Rightarrow> string list" where
  "flag_names flags word = map snd (filter (\<lambda>(m, _). word AND m \<noteq> 0) flags)"

definition names_text :: "string list \<Rightarrow> string" where
  "names_text names = (if names = [] then ''none'' else commas names)"

lemma fold_print_flag:
  "fold (print_flag word) flags (ns = [], commas ns) = (ns @ flag_names flags word = [], commas (ns @ flag_names flags word))"
proof (induction flags arbitrary: ns)
  case Nil
  then show ?case by (simp add: flag_names_def)
next
  case (Cons fl flags)
  obtain m name where fl: "fl = (m, name)" by (cases fl)
  show ?case
  proof (cases "word AND m = 0")
    case True
    with Cons.IH [of ns] show ?thesis by (simp add: fl print_flag_def flag_names_def)
  next
    case False
    have "print_flag word fl (ns = [], commas ns) = (ns @ [name] = [], commas (ns @ [name]))"
      using False commas_snoc [of ns name] by (cases "ns = []") (simp_all add: fl print_flag_def)
    with Cons.IH [of "ns @ [name]"] False show ?thesis by (simp add: fl flag_names_def)
  qed
qed

definition status_flags :: "(u32 \<times> string) list" where
  "status_flags = [(0x0001, ''connected''), (0x0002, ''enabled''), (0x0004, ''suspended''), (0x0008, ''over-current''),
     (0x0010, ''reset''), (0x0100, ''power'')]"

definition change_flags :: "(u32 \<times> string) list" where
  "change_flags = [(0x0001, ''connected''), (0x0002, ''enabled''), (0x0004, ''suspended''), (0x0008, ''over-current''), (0x0010, ''reset'')]"

text \<open>A line of the status report.\<close>

definition state_text :: "string \<Rightarrow> virtusb_state \<Rightarrow> string" where
  "state_text label st =
     print_left 8 label @ '' status=0x'' @ print_x 8 (st_status st) @ '' ['' @ names_text (flag_names status_flags (st_status st)) @
     ''] change=0x'' @ print_x 8 (st_change st) @ '' ['' @ names_text (flag_names change_flags (st_change st)) @
     ''] speed='' @ virtusbctl_speed_name (st_speed st) @ newline"

lemma print_flags_text:
  "virtusbctl_print_status_flags w s = printf (names_text (flag_names status_flags w)) s"
  "virtusbctl_print_change_flags w s = printf (names_text (flag_names change_flags w)) s"
  using fold_print_flag [of w status_flags "[]"] fold_print_flag [of w change_flags "[]"]
  by (simp_all add: virtusbctl_print_status_flags_def status_flags_def virtusbctl_print_change_flags_def change_flags_def
      names_text_def)

lemma virtusbctl_print_state_text: "virtusbctl_print_state label st s = printf (state_text label st) s"
  by (simp add: virtusbctl_print_state_def state_text_def print_flags_text Let_def)

lemma print_port_states_text:
  "\<forall>i \<in> set is. i < length ports \<Longrightarrow>
   print_port_states is ports s = Some (printf (concat (map (\<lambda>i. state_text (port_label (word_of_nat i + 1)) (ports ! i)) is)) s)"
  by (induction "is" arbitrary: s) (simp_all add: virtusbctl_print_state_text)

section \<open>Parsers\<close>

text \<open>What \<open>%u\<close> prints is read back.\<close>

lemma virtusbctl_parse_printed: "virtusbctl_parse_unsigned (Some (print_u n)) True = Inr n"
proof -
  have lt: "unat n < 2 ^ 32" using unsigned_less [of n, where 'a = nat] by simp
  then have "strtoul (print_u n) = (of_nat (unat n), [], False)"
    unfolding print_u_def by (intro strtoul_printed) simp
  moreover have "(of_nat (unat n) :: u64) \<le> 0xffffffff"
    using lt by (simp add: word_le_nat_alt unsigned_ucast_eq take_bit_nat_eq_self)
  moreover have "print_u n \<noteq> []"
    unfolding print_u_def by (rule number_string_head [of 10 "unat n"]) simp_all
  moreover have "ucast (of_nat (unat n) :: u64) = n"
    by (rule bit_word_eqI) (auto simp: bit_simps)
  ultimately show ?thesis by (simp add: virtusbctl_parse_unsigned_def not_less)
qed

text \<open>Speeds separated by commas, in any order and with repetitions, give their capability mask.\<close>

fun speed_cap :: "virtusb_speed \<Rightarrow> u32" where
  "speed_cap VIRTUSB_SPEED_NONE = 0"
| "speed_cap VIRTUSB_SPEED_LOW = VIRTUSB_DEVICE_SPEED_LOW"
| "speed_cap VIRTUSB_SPEED_FULL = VIRTUSB_DEVICE_SPEED_FULL"
| "speed_cap VIRTUSB_SPEED_HIGH = VIRTUSB_DEVICE_SPEED_HIGH"

definition speed_list :: "virtusb_speed list \<Rightarrow> string" where
  "speed_list speeds = commas (map virtusbctl_speed_name speeds)"

lemma speed_tokens_name:
  assumes "sp \<noteq> VIRTUSB_SPEED_NONE"
  shows "speed_tokens (virtusbctl_speed_name sp @ CHR '','' # rest) caps = speed_tokens rest (caps OR speed_cap sp)"
    "speed_tokens (virtusbctl_speed_name sp) caps = Inr (caps OR speed_cap sp)"
  using assms by (cases sp; simp add: speed_tokens.simps [where caps = caps] strtok_r_def Let_def;
      simp add: speed_tokens.simps [where saveptr = "[]"] strtok_r_def)+

lemma speed_tokens_list:
  assumes "speeds \<noteq> []" and "VIRTUSB_SPEED_NONE \<notin> set speeds"
  shows "speed_tokens (speed_list speeds) caps = Inr (fold (\<lambda>sp caps. caps OR speed_cap sp) speeds caps)"
  using assms
proof (induction speeds arbitrary: caps)
  case (Cons sp speeds)
  show ?case
  proof (cases speeds)
    case Nil
    with Cons.prems show ?thesis by (simp add: speed_list_def speed_tokens_name)
  next
    case (Cons sp' rest)
    then have "speed_list (sp # speeds) = virtusbctl_speed_name sp @ '','' @ speed_list speeds" by (simp add: speed_list_def)
    with Cons Cons.prems Cons.IH show ?thesis by (auto simp: speed_tokens_name)
  qed
qed simp

section \<open>Command lines\<close>

text \<open>The commands, how they are written, and what they do.\<close>

datatype command =
    Status u32
  | Create "virtusb_speed list"
  | Destroy u32 bool
  | Attach u32 u32
  | Detach u32
  | Connection u32 bool
  | Port_power u32 bool

fun command_line :: "command \<Rightarrow> string list" where
  "command_line (Status port) = [''status'', print_u port]"
| "command_line (Create speeds) = [''device'', ''create'', speed_list speeds]"
| "command_line (Destroy object_id force) = [''device'', ''destroy'', print_u object_id] @ (if force then [''--force''] else [])"
| "command_line (Attach object_id port) = [''device'', ''attach'', print_u object_id, print_u port]"
| "command_line (Detach object_id) = [''device'', ''detach'', print_u object_id]"
| "command_line (Connection object_id connected) =
     [''device'', if connected then ''connect'' else ''disconnect'', print_u object_id]"
| "command_line (Port_power port on) = [''port'', ''power'', print_u port, if on then ''on'' else ''off'']"

fun command_ok :: "command \<Rightarrow> bool" where
  "command_ok (Status port) \<longleftrightarrow> port \<le> VIRTUSB_MAX_PORTS"
| "command_ok (Create speeds) \<longleftrightarrow> speeds \<noteq> [] \<and> VIRTUSB_SPEED_NONE \<notin> set speeds \<and> length (speed_list speeds) < 64"
| "command_ok (Destroy object_id force) \<longleftrightarrow> object_id \<noteq> 0"
| "command_ok (Attach object_id port) \<longleftrightarrow> object_id \<noteq> 0 \<and> port \<noteq> 0 \<and> port \<le> VIRTUSB_MAX_PORTS"
| "command_ok (Detach object_id) \<longleftrightarrow> object_id \<noteq> 0"
| "command_ok (Connection object_id connected) \<longleftrightarrow> object_id \<noteq> 0"
| "command_ok (Port_power port on) \<longleftrightarrow> port \<noteq> 0 \<and> port \<le> VIRTUSB_MAX_PORTS"

fun run_command ::
  "'k environment \<Rightarrow> u32 \<Rightarrow> command \<Rightarrow> ('k, 'a) terminal_scheme \<Rightarrow> (int option \<times> ('k, 'a) terminal_scheme) option" where
  "run_command env inst (Status port) = virtusbctl_status env inst port"
| "run_command env inst (Create speeds) = virtusbctl_device_create env inst (fold (\<lambda>sp caps. caps OR speed_cap sp) speeds 0)"
| "run_command env inst (Destroy object_id force) = virtusbctl_device_destroy env inst object_id force"
| "run_command env inst (Attach object_id port) = virtusbctl_device_attach env inst object_id port"
| "run_command env inst (Detach object_id) = virtusbctl_device_detach env inst object_id"
| "run_command env inst (Connection object_id connected) = virtusbctl_device_connection env inst object_id connected"
| "run_command env inst (Port_power port on) = virtusbctl_port_power env inst port on"

lemma speed_caps_nonzero:
  assumes "speeds \<noteq> []" and "VIRTUSB_SPEED_NONE \<notin> set speeds"
  shows "fold (\<lambda>sp caps. caps OR speed_cap sp) speeds caps \<noteq> 0"
  using assms
proof (induction speeds rule: rev_induct)
  case (snoc sp speeds)
  then have "speed_cap sp \<noteq> 0" by (cases sp) auto
  then show ?case by (simp add: or_eq_0_iff)
qed simp

lemma speed_list_nonempty: "speeds \<noteq> [] \<Longrightarrow> speed_list speeds \<noteq> []"
  by (cases speeds rule: remdups_adj.cases) (auto simp: speed_list_def; case_tac x; simp)+

lemma virtusbctl_parse_speed_list:
  assumes "command_ok (Create speeds)"
  shows "virtusbctl_parse_speed_caps (Some (speed_list speeds)) True = Inr (fold (\<lambda>sp caps. caps OR speed_cap sp) speeds 0)"
  using assms speed_caps_nonzero [of speeds 0] speed_list_nonempty [of speeds]
  by (simp add: virtusbctl_parse_speed_caps_def speed_tokens_list)

lemma arguments_printed:
  "object_id \<noteq> 0 \<Longrightarrow> object_id_argument (print_u object_id # rest) = Some (object_id, rest)"
  "port \<noteq> 0 \<Longrightarrow> port \<le> VIRTUSB_MAX_PORTS \<Longrightarrow> port_argument (print_u port # rest) = Some (port, rest)"
  by (simp_all add: object_id_argument_def port_argument_def virtusbctl_parse_printed not_less)

lemma main_command_line:
  assumes "command_ok cmd"
  shows "main_command env program inst (command_line cmd) = run_command env inst cmd"
  using assms
  by (cases cmd) (auto simp: main_command_def main_status_def main_port_def main_device_def last_argument_def
      virtusbctl_parse_printed virtusbctl_parse_speed_list arguments_printed dest: leD)

lemma virtusbctl_main_command_line:
  assumes "command_ok cmd"
  shows "virtusbctl_main env program (command_line cmd) = run_command env 0 cmd"
    and "virtusbctl_main env program (''-d'' # print_u inst # command_line cmd) = run_command env inst cmd"
proof -
  have "hd (command_line cmd) \<noteq> ''-d''" by (cases cmd) simp_all
  with main_command_line [OF assms] show "virtusbctl_main env program (command_line cmd) = run_command env 0 cmd"
    by (simp add: virtusbctl_main_def)
  show "virtusbctl_main env program (''-d'' # print_u inst # command_line cmd) = run_command env inst cmd"
    using main_command_line [OF assms] by (simp add: virtusbctl_main_def virtusbctl_parse_printed)
qed

end
