(* ===== verification/Virtusb_Ctl_Safety.thy ===== *)
theory Virtusb_Ctl_Safety
  imports Virtusb_Ctl_Props
begin

text \<open>
  Every run of virtusbctl, whatever its arguments: it exits with 0 or 1, closes the controller it
  opened, frees its handle and leaves the driver well formed. And what \<open>status\<close> prints.
\<close>

section \<open>One command\<close>

lemma openedD:
  assumes "opened_as p inst c u u'" and "process_ok held pins u'"
  shows "load_handle p u' = Some \<lparr>h_fd = next_fd (kern u), h_instance = inst, h_device_path = device_path inst\<rparr>"
    and "fds (kern u') (next_fd (kern u)) = Some (next_file (kern u))"
    and "load_file (next_file (kern u)) (below u') = Some (new_file\<lparr>file_private := Some \<lparr>cf_control = Some c\<rparr>\<rparr>)"
  using assms by (simp_all add: opened_as_def load_handle_def)

text \<open>What is left of a process when a command is over.\<close>

definition finished :: "(nat \<Rightarrow> nat) \<Rightarrow> (nat \<Rightarrow> nat) \<Rightarrow> (vfs, 'a) uproc_scheme \<Rightarrow> (vfs, 'a) uproc_scheme \<Rightarrow> bool" where
  "finished held pins u u' \<longleftrightarrow> process_ok held pins u' \<and> fds (kern u') = fds (kern u) \<and> handles u' = handles u"

definition runs_in :: "vfs environment \<Rightarrow> bool \<Rightarrow> bool \<Rightarrow> (string \<Rightarrow> nat option) \<Rightarrow> (vfs, 'a) uproc_scheme \<Rightarrow> bool" where
  "runs_in env mem xa_mem nodes u \<longleftrightarrow> env_sys env = kernel_calls mem xa_mem [] nodes \<and> nodes_ok nodes u \<and>
     (case env_calloc env of Inl e \<Rightarrow> 0 \<le> e | Inr p \<Rightarrow> load_handle p u = None)"

lemma with_controller_ok:
  fixes s :: "(vfs, 'a) terminal_scheme"
  assumes ok: "process_ok held pins s" and env: "runs_in env mem xa_mem nodes s"
    and call: "\<And>p c (s1 :: (vfs, 'a) terminal_scheme). opened_as p inst c s s1 \<Longrightarrow> process_ok held pins s1 \<Longrightarrow> nodes (device_path inst) = Some c \<Longrightarrow>
      runs (call (Some p) s1) (\<lambda>(r, s2). \<exists>ret x. r = Some (ret, x) \<and> stays held pins s1 s2 \<and>
        (0 \<le> ret \<longrightarrow> runs (report (Some p) x s2) (stays held pins s1)))"
  shows "runs (with_controller env inst call failed report s) (\<lambda>(code, s'). (code = Some 0 \<or> code = Some 1) \<and> finished held pins s s')"
proof -
  have calloc: "\<And>e. env_calloc env = Inl e \<Longrightarrow> 0 \<le> e" and fresh: "\<And>p. env_calloc env = Inr p \<Longrightarrow> handles s p = None"
    and sys: "env_sys env = kernel_calls mem xa_mem [] nodes" and nodes: "nodes_ok nodes s"
    using env by (auto simp: runs_in_def load_handle_def)
  from virtusb_open_ok [where calloc = "env_calloc env" and mem = mem and xa_mem = xa_mem and waits = "[]" and inst = inst,
      OF ok nodes calloc] obtain ret handle s1 where
    code: "virtusb_open (env_sys env) (env_calloc env) inst True s = Some (ret, handle, s1)"
    and s1: "process_ok held pins s1"
    and res: "if ret < 0
     then handle = None \<and> fds (kern s1) = fds (kern s) \<and> handles s1 = handles s
     else ret = 0 \<and> (\<exists>p c. env_calloc env = Inr p \<and> handle = Some p \<and> nodes (device_path inst) = Some c \<and> opened_as p inst c s s1)"
    unfolding sys by (fastforce simp: runs_iff split: if_splits)
  show ?thesis
  proof (cases "ret < 0")
    case True
    with code s1 res show ?thesis by (simp add: with_controller_def finished_def)
  next
    case False
    with res obtain p c where p: "env_calloc env = Inr p" "handle = Some p" "nodes (device_path inst) = Some c" "opened_as p inst c s s1"
      by auto
    note o = openedD [OF p(4) s1]
    from ok have fd0: "0 \<le> next_fd (kern s)" "fds (kern s) (next_fd (kern s)) = None" by (simp_all add: process_ok_def)
    have close: "runs (virtusb_close (env_sys env) handle s2) (finished held pins s)" if "stays held pins s1 s2" for s2 :: "(vfs, 'a) terminal_scheme"
    proof -
      from that have s2: "process_ok held pins s2" "fds (kern s2) = fds (kern s1)" "handles s2 = handles s1"
        "kback.more (below s2) = kback.more (below s1)" by (simp_all add: stays_def)
      have "load_handle p s2 = load_handle p s1" by (simp add: load_handle_def s2(3))
      with o(1) have h: "load_handle p s2 = Some \<lparr>h_fd = next_fd (kern s), h_instance = inst, h_device_path = device_path inst\<rparr>" by simp
      have "load_file (next_file (kern s)) (below s2) = load_file (next_file (kern s)) (below s1)"
        by (rule khcd_fields(2) [OF s2(4)])
      with o(3) have fl: "load_file (next_file (kern s)) (below s2) = Some (new_file\<lparr>file_private := Some \<lparr>cf_control = Some c\<rparr>\<rparr>)" by simp
      from virtusb_close_ok [OF s2(1) h _ _ fl, of mem xa_mem "[]" nodes] fd0 o(2) s2(2)
      have "runs (virtusb_close (env_sys env) handle s2) (\<lambda>u'. process_ok held pins u' \<and>
          fds (kern u') = (fds (kern s1))(next_fd (kern s) := None) \<and> handles u' = (handles s1)(p := None))"
        by (auto simp: sys p(2) s2(3) elim!: runs_mono)
      moreover have "(fds (kern s1))(next_fd (kern s) := None) = fds (kern s)" "(handles s1)(p := None) = handles s"
        using p(4) fd0(2) fresh [OF p(1)] by (simp_all add: opened_as_def fun_upd_idem)
      ultimately show ?thesis by (auto simp: finished_def elim!: runs_mono)
    qed
    from call [OF p(4) s1 p(3)] obtain r x s2 where r: "call handle s1 = Some (Some (r, x), s2)" "stays held pins s1 s2"
      "0 \<le> r \<Longrightarrow> runs (report handle x s2) (stays held pins s1)"
      by (auto simp: runs_iff p(2))
    show ?thesis
    proof (cases "r < 0")
      case True
      from close [of "eprintf (failed @ '': '' @ env_strerror env (- r) @ newline) s2"] r(2)
      show ?thesis using False True code r(1) by (auto simp: with_controller_def runs_iff)
    next
      case r0: False
      with r(3) obtain s3 where s3: "report handle x s2 = Some s3" "stays held pins s1 s3" by (auto simp: runs_iff)
      from close [OF s3(2)] show ?thesis using False r0 code r(1) s3(1) by (auto simp: with_controller_def runs_iff)
    qed
  qed
qed

text \<open>A call that reports nothing but its success.\<close>

lemma plain_command_ok:
  fixes s1 :: "(vfs, 'a) terminal_scheme"
  assumes o: "opened_as p inst c s s1" and ok: "process_ok held pins s1" and fd: "0 \<le> next_fd (kern s)"
    and sized: "completions_sized argp" and command: "command \<noteq> VIRTUSB_IOCTL_TRANSFER_FETCH"
  shows "runs (no_result (plain_ioctl (kernel_calls mem xa_mem [] nodes) (Some p) command argp s1)) (\<lambda>(r, s2).
    \<exists>ret x. r = Some (ret, x) \<and> stays held pins s1 s2 \<and> (0 \<le> ret \<longrightarrow> runs (Some (printf text s2)) (stays held pins s1)))"
proof -
  note o' = openedD [OF o ok]
  have fin: "(Some (0 :: int)) \<noteq> None" by simp
  from library_call_ok [where waits = "[]" and mem = mem and xa_mem = xa_mem and nodes = nodes and
      finish = "\<lambda>_. Some 0" and failed = "\<lambda>e. e", OF ok o'(1) _ _ o'(3) sized command] fd o'(2)
  show ?thesis by (auto simp: no_result_def runs_iff)
qed

lemma sized_no_memory: "um_transfer_complete argp = None \<Longrightarrow> completions_sized argp"
  by (simp add: completions_sized_def)

section \<open>The commands\<close>

lemma next_fd_pos: "process_ok held pins s \<Longrightarrow> 0 \<le> next_fd (kern s)"
  by (simp add: process_ok_def)

lemma simple_commands_ok:
  fixes s :: "(vfs, 'a) terminal_scheme"
  assumes ok: "process_ok held pins s" and env: "runs_in env mem xa_mem nodes s"
  defines "Q \<equiv> \<lambda>(code, s'). (code = Some 0 \<or> code = Some 1) \<and> finished held pins s s'"
  shows "runs (virtusbctl_device_destroy env inst object_id force s) Q"
    and "runs (virtusbctl_device_attach env inst object_id port s) Q"
    and "runs (virtusbctl_device_detach env inst object_id s) Q"
    and "runs (virtusbctl_device_connection env inst object_id connected s) Q"
    and "runs (virtusbctl_port_power env inst port powered s) Q"
proof -
  have sys: "env_sys env = kernel_calls mem xa_mem [] nodes" using env by (simp add: runs_in_def)
  note rules = with_controller_ok [OF ok env] plain_command_ok [OF _ _ next_fd_pos [OF ok]]
  show "runs (virtusbctl_device_destroy env inst object_id force s) Q"
    unfolding virtusbctl_device_destroy_def virtusb_device_destroy_lib_def sys Q_def
    by (rule rules(1), rule rules(2), assumption+) (simp_all add: completions_sized_def no_memory_def ioctl_distinct)
  show "runs (virtusbctl_device_attach env inst object_id port s) Q"
    unfolding virtusbctl_device_attach_def virtusb_device_attach_lib_def sys Q_def
    by (rule rules(1), rule rules(2), assumption+) (simp_all add: completions_sized_def no_memory_def ioctl_distinct)
  show "runs (virtusbctl_device_detach env inst object_id s) Q"
    unfolding virtusbctl_device_detach_def virtusb_device_detach_lib_def sys Q_def
    by (rule rules(1), rule rules(2), assumption+) (simp_all add: completions_sized_def no_memory_def ioctl_distinct)
  show "runs (virtusbctl_device_connection env inst object_id connected s) Q"
    unfolding virtusbctl_device_connection_def virtusb_device_set_connected_def sys Q_def
    by (rule rules(1), rule rules(2), assumption+) (simp_all add: completions_sized_def no_memory_def ioctl_distinct)
  show "runs (virtusbctl_port_power env inst port powered s) Q"
    unfolding virtusbctl_port_power_def virtusb_set_port_power_def sys Q_def
    by (rule rules(1), rule rules(2), assumption+) (simp_all add: completions_sized_def no_memory_def ioctl_distinct)
qed

lemma virtusbctl_device_create_ok:
  fixes s :: "(vfs, 'a) terminal_scheme"
  assumes ok: "process_ok held pins s" and env: "runs_in env mem xa_mem nodes s"
  shows "runs (virtusbctl_device_create env inst speed_caps s) (\<lambda>(code, s'). (code = Some 0 \<or> code = Some 1) \<and> finished held pins s s')"
  unfolding virtusbctl_device_create_def
proof (rule with_controller_ok [OF ok env])
  fix p c and s1 :: "(vfs, 'a) terminal_scheme"
  assume o: "opened_as p inst c s s1" and s1: "process_ok held pins s1"
  have sys: "env_sys env = kernel_calls mem xa_mem [] nodes" using env by (simp add: runs_in_def)
  let ?argp = "no_memory\<lparr>um_device_create := Some \<lparr>dc_speed_caps = speed_caps, dc_object_id = 0\<rparr>\<rparr>"
  note o' = openedD [OF o s1]
  have sized: "completions_sized ?argp" by (simp add: completions_sized_def no_memory_def)
  have command: "VIRTUSB_IOCTL_DEVICE_CREATE \<noteq> VIRTUSB_IOCTL_TRANSFER_FETCH" by (simp add: ioctl_distinct)
  from library_call_ok [where waits = "[]" and mem = mem and xa_mem = xa_mem and nodes = nodes and
      finish = "\<lambda>out. do { let request = (case out of Some (User_device_create r) \<Rightarrow> r |
         _ \<Rightarrow> \<lparr>dc_speed_caps = speed_caps, dc_object_id = 0\<rparr>); Some (0 :: int, Some (dc_object_id request)) }" and
      failed = "\<lambda>e. (e, None)", OF s1 o'(1) _ _ o'(3) sized command] o'(2) next_fd_pos [OF ok]
  show "runs (virtusb_device_create_lib (env_sys env) (Some p) speed_caps True s1) (\<lambda>(r, s2). \<exists>ret x. r = Some (ret, x) \<and>
      stays held pins s1 s2 \<and> (0 \<le> ret \<longrightarrow> runs (do {
          object_id \<leftarrow> x;
          Some (printf (''Device created: '' @ print_u object_id @ newline) s2)
        }) (stays held pins s1)))"
    by (auto simp: virtusb_device_create_lib_def sys Let_def elim!: runs_mono)
qed

text \<open>A successful status query, on whatever controller: the arrays are as long as the count says.\<close>

lemma status_query_sized:
  assumes wf: "control_wf held pins s" and fl: "load_file f s = Some fl" and r: "um_port_status argp = Some r"
    and code: "virtusb_control_ioctl mem xa_mem waits f VIRTUSB_IOCTL_GET_PORT_STATUS argp s = Some (Some (ret, out), s')" and ret: "0 \<le> ret"
  obtains r' where "out = Some (User_port_status r')" "length (pst_ports r') = VIRTUSB_MAX_HUB_PORTS"
    "unat (pst_port_count r') \<le> VIRTUSB_MAX_HUB_PORTS" "pst_port r' = pst_port r" "pst_hub_id r' = pst_hub_id r"
  using wf fl
proof (cases rule: control_gone_ok)
  case (1 control)
  with code ret show ?thesis by (simp add: virtusb_control_ioctl_def)
next
  case (2 c)
  then have "opened f c s" by (simp add: live_def)
  then obtain v hub where v: "load_hcd c s = Some v" "ctl_hcd (vh_control v) = Some c" and hub: "load_hub c s = Some hub"
    using wf by (rule openedE)
  note topo = back_wf_topo [OF control_wfD(1) [OF wf]]
  have c31: "unat (hub_port_count hub) \<le> 31" using topo_wf_shape [OF topo hub] by (simp add: hub_shape_def)
  from code 2(1,2) have "virtusb_control_get_port_status c argp s = Some (ret, out)"
    by (auto simp: virtusb_control_ioctl_def bind_eq_Some_conv)
  with virtusb_control_get_port_status_ok [OF topo v hub, of argp] r ret obtain r' where
    "out = Some (User_port_status r')" "status_report s c hub r r'" by (auto split: if_splits)
  with that c31 show thesis by (auto simp: status_report_def unsigned_ucast_eq)
qed

text \<open>The report of \<open>status\<close>.\<close>

definition status_text :: "string \<Rightarrow> u32 \<Rightarrow> virtusb_status \<Rightarrow> string" where
  "status_text path port st =
     ''Device: '' @ path @ newline @ ''Hub:    '' @ print_u (vs_hub_id st) @ newline @
     (if port = 0
      then ''Ports:  '' @ print_u (vs_port_count st) @ newline @ newline @ state_text ''hub:'' (vs_state st) @
        concat (map (\<lambda>i. state_text (port_label (word_of_nat i + 1)) (vs_ports st ! i)) [0..<unat (vs_port_count st)])
      else ''Port:   '' @ print_u (vs_port st) @ newline @ newline @ state_text (port_label (vs_port st)) (vs_state st))"

lemma print_status_text:
  assumes "load_handle p s = Some h" and "port = 0 \<Longrightarrow> unat (vs_port_count st) \<le> length (vs_ports st)"
  shows "print_status port (Some p) (Some st) s = Some (printf (status_text (h_device_path h) port st) s)"
proof (cases "port = 0")
  case True
  with assms(2) have "\<forall>i \<in> set [0..<unat (vs_port_count st)]. i < length (vs_ports st)" by auto
  with True assms(1) show ?thesis
    by (simp add: print_status_def virtusb_get_device_path_def status_text_def virtusbctl_print_state_text print_port_states_text Let_def)
next
  case False
  with assms(1) show ?thesis
    by (simp add: print_status_def virtusb_get_device_path_def status_text_def virtusbctl_print_state_text Let_def)
qed

lemma copy_all_ports:
  assumes "length source = VIRTUSB_MAX_PORTS"
  obtains ports where "copy_port_states [0..<min n VIRTUSB_MAX_PORTS] source (replicate VIRTUSB_MAX_PORTS zero_state) = Some ports"
    "length ports = VIRTUSB_MAX_PORTS"
  using that copy_port_states_ok [of 0 "min n 31" source "replicate 31 zero_state"] assms by auto

lemma status_query_ok:
  fixes s1 :: "(vfs, 'a) terminal_scheme"
  assumes o: "opened_as p inst c s s1" and s1: "process_ok held pins s1" and fd: "0 \<le> next_fd (kern s)"
  shows "runs (virtusb_get_port_status (kernel_calls mem xa_mem [] nodes) (Some p) 0 port True s1) (\<lambda>(r, s2). \<exists>ret x. r = Some (ret, x) \<and>
    stays held pins s1 s2 \<and> (0 \<le> ret \<longrightarrow> (\<exists>st. x = Some st \<and> length (vs_ports st) = VIRTUSB_MAX_PORTS \<and>
      unat (vs_port_count st) \<le> VIRTUSB_MAX_PORTS)))"
proof -
  let ?r = "\<lparr>pst_hub_id = 0, pst_port = port, pst_port_count = 0, pst_state = zero_port_state,
     pst_ports = replicate VIRTUSB_MAX_HUB_PORTS zero_port_state\<rparr>"
  let ?argp = "no_memory\<lparr>um_port_status := Some ?r\<rparr>"
  let ?finish = "\<lambda>out. do {
             let request = (case out of Some (User_port_status r) \<Rightarrow> r | _ \<Rightarrow> ?r);
             let ports = replicate VIRTUSB_MAX_PORTS zero_state;
             ports \<leftarrow> (if pst_port request = 0
                       then copy_port_states [0..<min (unat (pst_port_count request)) VIRTUSB_MAX_PORTS]
                              (pst_ports request) ports
                       else Some ports);
             Some (0 :: int, Some \<lparr>vs_hub_id = pst_hub_id request, vs_port = pst_port request,
                        vs_port_count = pst_port_count request,
                        vs_state = virtusb_state_from_uapi (pst_state request), vs_ports = ports\<rparr>)
           }"
  note o' = openedD [OF o s1]
  have wf: "control_wf held pins (below s1)" using s1 by (simp add: process_ok_def)
  have sized: "completions_sized ?argp" by (simp add: completions_sized_def no_memory_def)
  have command: "VIRTUSB_IOCTL_GET_PORT_STATUS \<noteq> VIRTUSB_IOCTL_TRANSFER_FETCH" by (simp add: ioctl_distinct)
  have um: "um_port_status ?argp = Some ?r" by simp
  have fin: "\<exists>st. ?finish out = Some (0, Some st) \<and> length (vs_ports st) = VIRTUSB_MAX_PORTS \<and> unat (vs_port_count st) \<le> VIRTUSB_MAX_PORTS"
    if "virtusb_control_ioctl mem xa_mem [] (next_file (kern s)) VIRTUSB_IOCTL_GET_PORT_STATUS ?argp (below s1) = Some (Some (ret, out), s')"
      "0 \<le> ret" for ret out s'
  proof -
    from status_query_sized [OF wf o'(3) um that] obtain r' where r': "out = Some (User_port_status r')" "length (pst_ports r') = 31"
      "unat (pst_port_count r') \<le> 31" by metis
    obtain ports where "copy_port_states [0..<min (unat (pst_port_count r')) 31] (pst_ports r') (replicate 31 zero_state) = Some ports"
      "length ports = 31" by (rule copy_all_ports [OF r'(2)])
    with r' show ?thesis by (simp add: Let_def)
  qed
  have "runs (with_ioctl (kernel_calls mem xa_mem [] nodes) (Some p) VIRTUSB_IOCTL_GET_PORT_STATUS ?argp ?finish (\<lambda>e. (e, None)) s1)
    (\<lambda>(r, s2). stays held pins s1 s2 \<and> (\<exists>x. r = Some x \<and> ((\<exists>e. e < 0 \<and> x = (e, None)) \<or> (\<exists>ret out s'. 0 \<le> ret \<and> ?finish out = Some x \<and>
       virtusb_control_ioctl mem xa_mem [] (next_file (kern s)) VIRTUSB_IOCTL_GET_PORT_STATUS ?argp (below s1) = Some (Some (ret, out), s')))))"
    by (rule library_call_ok [OF s1 o'(1) _ _ o'(3) sized command]) (use fd o'(2) fin in \<open>auto simp del: bind_eq_None_conv\<close>)
  then show ?thesis
    unfolding virtusb_get_port_status_def Let_def
    by (simp, elim runs_mono) (use fin in \<open>fastforce simp: Let_def\<close>)
qed

lemma virtusbctl_status_safe:
  fixes s :: "(vfs, 'a) terminal_scheme"
  assumes ok: "process_ok held pins s" and env: "runs_in env mem xa_mem nodes s"
  shows "runs (virtusbctl_status env inst port s) (\<lambda>(code, s'). (code = Some 0 \<or> code = Some 1) \<and> finished held pins s s')"
  unfolding virtusbctl_status_def
proof (rule with_controller_ok [OF ok env])
  fix p c and s1 :: "(vfs, 'a) terminal_scheme"
  assume o: "opened_as p inst c s s1" and s1: "process_ok held pins s1"
  have sys: "env_sys env = kernel_calls mem xa_mem [] nodes" using env by (simp add: runs_in_def)
  from status_query_ok [OF o s1 next_fd_pos [OF ok], of mem xa_mem nodes port] obtain ret x s2 where
    query: "virtusb_get_port_status (env_sys env) (Some p) 0 port True s1 = Some (Some (ret, x), s2)" and s2: "stays held pins s1 s2"
    and x: "0 \<le> ret \<Longrightarrow> \<exists>st. x = Some st \<and> length (vs_ports st) = 31 \<and> unat (vs_port_count st) \<le> 31"
    unfolding sys by (auto simp: runs_iff)
  have "load_handle p s2 = load_handle p s1" using s2 by (simp add: stays_def load_handle_def)
  with openedD(1) [OF o s1] have h: "load_handle p s2 = Some \<lparr>h_fd = next_fd (kern s), h_instance = inst, h_device_path = device_path inst\<rparr>"
    by simp
  have "runs (print_status port (Some p) x s2) (stays held pins s1)" if ret: "0 \<le> ret"
  proof -
    from x [OF ret] obtain st where st: "x = Some st" "unat (vs_port_count st) \<le> length (vs_ports st)" by auto
    from print_status_text [OF h st(2)] s2 show ?thesis by (simp add: st(1))
  qed
  with query s2 show "runs (virtusb_get_port_status (env_sys env) (Some p) 0 port True s1) (\<lambda>(r, s2). \<exists>ret x. r = Some (ret, x) \<and>
      stays held pins s1 s2 \<and> (0 \<le> ret \<longrightarrow> runs (print_status port (Some p) x s2) (stays held pins s1)))"
    by simp
qed

section \<open>The whole program\<close>

definition ends_well ::
  "(nat \<Rightarrow> nat) \<Rightarrow> (nat \<Rightarrow> nat) \<Rightarrow> (vfs, 'a) terminal_scheme
     \<Rightarrow> ((vfs, 'a) terminal_scheme \<Rightarrow> (int option \<times> (vfs, 'a) terminal_scheme) option) \<Rightarrow> bool" where
  "ends_well held pins s run \<longleftrightarrow> runs (run s) (\<lambda>(code, s'). (code = Some 0 \<or> code = Some 1) \<and> finished held pins s s')"

lemma ends_well_branch:
  "ends_well held pins s f \<Longrightarrow> ends_well held pins s g \<Longrightarrow> ends_well held pins s (if c then f else g)"
  "ends_well held pins s f \<Longrightarrow> (\<And>y z. ends_well held pins s (i y z)) \<Longrightarrow> ends_well held pins s (case xs of [] \<Rightarrow> f | y # z \<Rightarrow> i y z)"
  "ends_well held pins s f \<Longrightarrow> (\<And>y. ends_well held pins s (h y)) \<Longrightarrow> ends_well held pins s (case x of None \<Rightarrow> f | Some y \<Rightarrow> h y)"
  "(\<And>y. ends_well held pins s (k y)) \<Longrightarrow> (\<And>y. ends_well held pins s (l y)) \<Longrightarrow> ends_well held pins s (case e of Inl y \<Rightarrow> k y | Inr y \<Rightarrow> l y)"
  "(\<And>y z. ends_well held pins s (m y z)) \<Longrightarrow> ends_well held pins s (case p of (y, z) \<Rightarrow> m y z)"
  by (auto split: list.split option.split sum.split prod.split)

lemma ends_well_endings:
  assumes "process_ok held pins s"
  shows "ends_well held pins s (usage program)" and "ends_well held pins s (complain text)"
  using assms by (simp_all add: ends_well_def usage_def complain_def virtusbctl_print_usage_def finished_def)

lemma virtusbctl_main_ok:
  fixes s :: "(vfs, 'a) terminal_scheme"
  assumes ok: "process_ok held pins s" and env: "runs_in env mem xa_mem nodes s"
  shows "runs (virtusbctl_main env program args s) (\<lambda>(code, s'). (code = Some 0 \<or> code = Some 1) \<and> finished held pins s s')"
proof -
  note commands = virtusbctl_status_safe [OF ok env] virtusbctl_device_create_ok [OF ok env] simple_commands_ok [OF ok env]
  note ends = ends_well_branch ends_well_endings [OF ok] commands [folded ends_well_def]
  have status: "ends_well held pins s (main_status env program inst args)" for inst args
    unfolding main_status_def last_argument_def by (intro ends)
  have port: "ends_well held pins s (main_port env program inst args)" for inst args
    unfolding main_port_def last_argument_def by (intro ends)
  have device: "ends_well held pins s (main_device env program inst args)" for inst args
    unfolding main_device_def last_argument_def by (intro ends)
  have "ends_well held pins s (main_command env program inst args)" for inst args
    unfolding main_command_def by (intro ends status port device)
  then have "ends_well held pins s (virtusbctl_main env program args)"
    unfolding virtusbctl_main_def by (intro ends)
  then show ?thesis by (simp add: ends_well_def)
qed

section \<open>What status reports\<close>

text \<open>A controller that is there and active, its device node, and room for the handle.\<close>

lemma opened_as_live:
  fixes s :: "(vfs, 'a) terminal_scheme"
  assumes o: "opened_as p inst c s s1" and fd: "0 \<le> next_fd (kern s)"
    and v: "load_hcd c (below s) = Some v" "ctl_hcd (vh_control v) = Some c" "ctl_active (vh_control v)"
  shows "handle_open p (next_file (kern s)) c s1"
proof -
  have below1: "below s1 = put_file (next_file (kern s)) (new_file\<lparr>file_private := Some \<lparr>cf_control = Some c\<rparr>\<rparr>) (below s)"
    using o by (simp add: opened_as_def)
  have "live (next_file (kern s)) c (below s1)" using v by (simp add: live_def opened_def file_opens_def below1)
  moreover have "load_handle p s1 = Some \<lparr>h_fd = next_fd (kern s), h_instance = inst, h_device_path = device_path inst\<rparr>"
    "fds (kern s1) (next_fd (kern s)) = Some (next_file (kern s))" using o by (simp_all add: opened_as_def load_handle_def)
  ultimately show ?thesis using fd by (simp add: handle_open_def)
qed

lemma virtusbctl_status_reports:
  fixes s :: "(vfs, 'a) terminal_scheme"
  assumes ok: "process_ok held pins s" and env: "runs_in env True xa_mem nodes s" and calloc: "env_calloc env = Inr p"
    and node: "nodes (device_path inst) = Some c"
    and v: "load_hcd c (below s) = Some v" "ctl_hcd (vh_control v) = Some c" "ctl_active (vh_control v)"
    and hub: "load_hub c (below s) = Some hub" and port: "port \<le> ucast (hub_port_count hub)"
  shows "runs (virtusbctl_status env inst port s) (\<lambda>(code, s'). code = Some 0 \<and> stderr s' = stderr s \<and>
    (\<exists>st. stdout s' = stdout s @ status_text (device_path inst) port st \<and>
       vs_hub_id st = 0 \<and> vs_port st = port \<and> vs_port_count st = ucast (hub_port_count hub) \<and>
       (if port = 0
        then vs_state st = virtusb_state_from_uapi (hub_state_of hub) \<and>
          (\<forall>k < unat (hub_port_count hub). lib_state_of (below s) c hub (word_of_nat (Suc k)) (vs_ports st ! k))
        else lib_state_of (below s) c hub port (vs_state st))))"
proof -
  have sys: "env_sys env = kernel_calls True xa_mem [] nodes" and nodes: "nodes_ok nodes s" using env by (simp_all add: runs_in_def)
  note fd0 = next_fd_pos [OF ok]
  from virtusb_open_ok [where calloc = "env_calloc env" and mem = True and xa_mem = xa_mem and waits = "[]" and inst = inst,
      OF ok nodes] calloc node obtain s1 where
    code: "virtusb_open (env_sys env) (env_calloc env) inst True s = Some (0, Some p, s1)"
    and s1: "process_ok held pins s1" "uproc.more s1 = uproc.more s" and o: "opened_as p inst c s s1"
    by (auto simp: runs_iff sys split: if_splits)
  have below1: "below s1 = put_file (next_file (kern s)) (new_file\<lparr>file_private := Some \<lparr>cf_control = Some c\<rparr>\<rparr>) (below s)"
    using o by (simp add: opened_as_def)
  have hub1: "load_hub c (below s1) = Some hub" using hub by (simp add: below1)
  have wf1: "control_wf held pins (below s1)" using s1(1) by (simp add: process_ok_def)
  have state1: "lib_state_of (below s1) c hub n st = lib_state_of (below s) c hub n st" for n st
  proof -
    have "load_port a (below s1) = load_port a (below s)" for a by (cases a) (simp_all add: below1 load_port.simps, simp add: put_file_def)
    then have "port_connected (below s1) h k = port_connected (below s) h k" for h k by (rule port_connected_cong)
    then show ?thesis by (simp add: lib_state_of_def port_status_bit_def)
  qed
  have h: "load_handle p s1 = Some \<lparr>h_fd = next_fd (kern s), h_instance = inst, h_device_path = device_path inst\<rparr>"
    and fd: "fds (kern s1) (next_fd (kern s)) = Some (next_file (kern s))"
    and fl: "load_file (next_file (kern s)) (below s1) = Some (new_file\<lparr>file_private := Some \<lparr>cf_control = Some c\<rparr>\<rparr>)"
    by (rule openedD [OF o s1(1)])+
  obtain st where query: "virtusb_get_port_status (env_sys env) (Some p) 0 port True s1 = Some (Some (0, Some st), s1)"
    and st: "vs_hub_id st = 0" "vs_port st = port" "vs_port_count st = ucast (hub_port_count hub)" "length (vs_ports st) = 31"
      "if port = 0
       then vs_state st = virtusb_state_from_uapi (hub_state_of hub) \<and>
         (\<forall>k < unat (hub_port_count hub). lib_state_of (below s) c hub (word_of_nat (Suc k)) (vs_ports st ! k))
       else lib_state_of (below s) c hub port (vs_state st)"
    and count: "unat (vs_port_count st) \<le> length (vs_ports st)"
  proof (rule virtusb_get_port_status_ok [OF wf1 opened_as_live [OF o fd0 v] hub1 port, of True xa_mem "[]" nodes])
    fix st assume *: "virtusb_get_port_status (kernel_calls True xa_mem [] nodes) (Some p) 0 port True s1 = Some (Some (0, Some st), s1)"
      "vs_hub_id st = 0" "vs_port st = port" "vs_port_count st = ucast (hub_port_count hub)" "length (vs_ports st) = 31"
      "port \<noteq> 0 \<Longrightarrow> lib_state_of (below s1) c hub port (vs_state st)"
      "port = 0 \<Longrightarrow> vs_state st = virtusb_state_from_uapi (hub_state_of hub)"
      "\<And>k. k < 31 \<Longrightarrow> if port = 0 \<and> k < unat (hub_port_count hub)
         then lib_state_of (below s1) c hub (word_of_nat (Suc k)) (vs_ports st ! k) else vs_ports st ! k = zero_state"
    have c31: "unat (hub_port_count hub) \<le> 31"
      using topo_wf_shape [OF back_wf_topo [OF control_wfD(1) [OF wf1]] hub1] by (simp add: hub_shape_def)
    have ports: "lib_state_of (below s) c hub (word_of_nat (Suc k)) (vs_ports st ! k)" if "port = 0" "k < unat (hub_port_count hub)" for k
      using *(8) [of k] that c31 by (simp add: state1 del: of_nat_Suc)
    show thesis
      by (rule that [OF *(1) [folded sys] *(2-5)])
         (use *(6,7) ports c31 in \<open>auto simp: state1 *(4,5) unsigned_ucast_eq simp del: of_nat_Suc\<close>)
  qed
  note report = print_status_text [where s = s1, OF h count]
  let ?s2 = "printf (status_text (device_path inst) port st) s1"
  have s2: "process_ok held pins ?s2" "load_handle p ?s2 = load_handle p s1" "kern ?s2 = kern s1" using s1(1) by (simp_all add: load_handle_def)
  from virtusb_close_ok [where mem = True and xa_mem = xa_mem and waits = "[]" and nodes = nodes, OF s2(1), of p] h fd fl fd0 s2
  obtain s3 where close: "virtusb_close (env_sys env) (Some p) ?s2 = Some s3" "uproc.more s3 = uproc.more ?s2"
    by (force simp: runs_iff sys)
  have "virtusbctl_status env inst port s = Some (Some 0, s3)"
    using code query close(1) report by (simp add: virtusbctl_status_def with_controller_def)
  moreover have "stdout s3 = stdout ?s2" "stderr s3 = stderr ?s2" "stdout s1 = stdout s" "stderr s1 = stderr s"
    using close(2) s1(2) by (cases s3; cases s1; cases s; simp add: printf_def)+
  ultimately show ?thesis using st by (auto intro!: exI [of _ st])
qed

end
