(* ===== verification/Virtusb_User_Space.thy ===== *)
theory Virtusb_User_Space
  imports Virtusb_Ctl_Safety
begin

text \<open>
  The properties of user space: libvirtusb on top of the driver, and the tool virtusbctl on top of
  both.
\<close>

section \<open>An example process\<close>

text \<open>
  One controller with the device node of instance 0. The process has the handle 1 on the
  descriptor 3, the file 5 of the driver; the next handle is 2.
\<close>

definition example_nodes :: "string \<Rightarrow> nat option" where
  "example_nodes path = (if path = device_path 0 then Some 0 else None)"

definition process :: "kback \<Rightarrow> vfs terminal" where
  "process s = \<lparr>handles = [1 \<mapsto> \<lparr>h_fd = 3, h_instance = 0, h_device_path = device_path 0\<rparr>],
     kern = \<lparr>fds = [3 \<mapsto> 5], next_fd = 4, next_file = 7, vkernel = loaded s\<rparr>, stdout = [], stderr = []\<rparr>"

definition example_environment :: "vfs environment" where
  "example_environment = \<lparr>env_sys = kernel_calls True True [] example_nodes, env_calloc = Inr 2, env_strerror = \<lambda>_. ''error''\<rparr>"

lemma process_sel [simp]: "below (process s) = loaded s" "handle_open 1 5 0 (process s)"
  using live_loaded by (simp_all add: process_def handle_open_def load_handle_def)

lemma process_ok_process: "control_wf held pins (loaded s) \<Longrightarrow> process_ok held pins (process s)"
  by (simp add: process_ok_def) (simp add: process_def load_file_def loaded_def kback.defs khcd.defs)

lemma runs_in_process: "runs_in example_environment True True example_nodes (process s)"
  by (simp add: runs_in_def example_environment_def nodes_ok_def example_nodes_def)
     (simp add: process_def load_handle_def)

section \<open>Port status\<close>

text \<open>C32: a status query of the library reports what the hub and the cabling say about the port: its
  bits, its changes and its speed. The query of port 0 reports every port of the hub exactly as the
  queries of the single ports do, and nothing for ports the hub does not have. Neither query changes
  anything.\<close>

theorem library_status_consistent:
  assumes wf: "control_wf held pins (below u)" and p: "handle_open p f c u" and h: "load_hub c (below u) = Some hub"
    and n: "valid_port hub n"
  shows "\<exists>st all.
    virtusb_get_port_status (kernel_calls mem xa_mem waits nodes) (Some p) 0 n True u = Some (Some (0, Some st), u) \<and>
    virtusb_get_port_status (kernel_calls mem xa_mem waits nodes) (Some p) 0 0 True u = Some (Some (0, Some all), u) \<and>
    vs_port st = n \<and> lib_state_of (below u) c hub n (vs_state st) \<and>
    vs_port_count all = ucast (hub_port_count hub) \<and> vs_ports all ! (unat n - 1) = vs_state st \<and>
    (\<forall>k < VIRTUSB_MAX_PORTS. unat (hub_port_count hub) \<le> k \<longrightarrow> vs_ports all ! k = zero_state)"
proof -
  from topo_wf_shape [OF back_wf_topo [OF control_wfD(1) [OF wf]] h] n obtain i where i: "unat n = Suc i" "i < 31" "i < unat (hub_port_count hub)"
    by (rule valid_portD)
  then have n0: "n \<noteq> 0" by auto
  have le: "n \<le> ucast (hub_port_count hub)" using n by (simp add: valid_port_def)
  obtain st where st: "virtusb_get_port_status (kernel_calls mem xa_mem waits nodes) (Some p) 0 n True u = Some (Some (0, Some st), u)"
    "vs_port st = n" "lib_state_of (below u) c hub n (vs_state st)"
    by (rule virtusb_get_port_status_ok [OF wf p h le, of mem xa_mem waits nodes]) (use n0 in blast)
  obtain all where all: "virtusb_get_port_status (kernel_calls mem xa_mem waits nodes) (Some p) 0 0 True u = Some (Some (0, Some all), u)"
    "vs_port_count all = ucast (hub_port_count hub)"
    "\<And>k. k < 31 \<Longrightarrow> if k < unat (hub_port_count hub)
       then lib_state_of (below u) c hub (word_of_nat (Suc k)) (vs_ports all ! k) else vs_ports all ! k = zero_state"
    by (rule virtusb_get_port_status_ok [OF wf p h, of 0 mem xa_mem waits nodes]) (simp, simp only: simp_thms, blast)
  have "word_of_nat (Suc i) = n" unfolding i(1) [symmetric] by simp
  with all(3) [OF i(2)] i(3) have "lib_state_of (below u) c hub n (vs_ports all ! i)" by (simp del: of_nat_Suc)
  then have "vs_ports all ! i = vs_state st" using st(3) by (rule lib_state_of_unique)
  moreover have "\<forall>k < 31. unat (hub_port_count hub) \<le> k \<longrightarrow> vs_ports all ! k = zero_state"
    using all(3) by (auto simp: not_less [symmetric] simp del: of_nat_Suc)
  ultimately show ?thesis using st all(1,2) by (intro exI [of _ st] exI [of _ all]) (simp add: i(1))
qed

theorem library_status_consistent_witness:
  "\<exists>st all.
    virtusb_get_port_status (kernel_calls True True [] example_nodes) (Some 1) 0 1 True (process example_kback) =
      Some (Some (0, Some st), process example_kback) \<and>
    virtusb_get_port_status (kernel_calls True True [] example_nodes) (Some 1) 0 0 True (process example_kback) =
      Some (Some (0, Some all), process example_kback) \<and> vs_ports all ! 0 = vs_state st \<and> vs_ports all ! 30 = zero_state"
proof -
  have wf: "control_wf (\<lambda>_. 0) (\<lambda>_. 0) (below (process example_kback))" by (simp add: control_wf_examples)
  have hub: "load_hub 0 (below (process example_kback)) = Some example_hub" by (simp add: example_hubs)
  show ?thesis
    using library_status_consistent [OF wf process_sel(2) hub, of 1 True True "[]" example_nodes]
    by (fastforce simp: valid_port_example example_hub_sel)
qed

section \<open>Transfers\<close>

lemma moved_without:
  assumes wf: "back_wf held pins s" and b: "load_back c s = Some b" and r: "r \<in> set (pending b)"
  shows "without (r\<lparr>req_owner := Some f\<rparr>) (moved f r b) = b\<lparr>pending := remove1 r (pending b)\<rparr>"
proof -
  let ?r = "r\<lparr>req_owner := Some f\<rparr>"
  have ok: "distinct (map req_transfer (pending b @ active b))" "\<forall>r \<in> set (pending b). req_owner r = None"
    using back_structD(2) [OF back_wfD(2) [OF wf] b] by (simp_all add: backend_ok_def)
  have "?r \<notin> set (pending b)" using ok(2) by auto
  moreover have "?r \<notin> set (active b)"
  proof
    assume "?r \<in> set (active b)"
    then have "req_transfer r \<in> req_transfer ` set (active b)" by (force intro: image_eqI [of _ _ ?r])
    with ok(1) r show False by auto
  qed
  ultimately show ?thesis
    using notin_set_remove1 [of ?r "pending b" r] by (simp add: without_def moved_def remove1_append remove1_idem)
qed

text \<open>A request that was just fetched, completed under its ID.\<close>

lemma completes_fetched:
  fixes u :: "(vfs, 'a) uproc_scheme" and u1 :: "(vfs, 'b) uproc_scheme"
  assumes wf: "control_wf held pins (below u)" and b: "load_back c (below u) = Some b" and r: "r \<in> set (pending b)"
    and tr: "load_trans (req_transfer r) (below u) = Some tr" and urb: "load_urb (req_urb r) (below u) = Some urb"
    and i: "t_id tr \<noteq> 0" "fetched_as f (t_id tr) (below u) b = None"
    and u1: "below u1 = put_back c (moved f r b) (below u)" "control_wf held pins (below u1)" "handle_open p f c u1"
    and n: "n \<le> VIRTUSB_TRANSFER_DATA_MAX" "unat n \<le> length buf"
  shows "runs (virtusb_transfer_complete_lib (kernel_calls True xa_mem waits nodes) (Some p) (t_id tr) status (Some buf) n u1)
    (\<lambda>(completed, u'). control_wf held pins (below u') \<and> load_back c (below u') = Some (b\<lparr>pending := remove1 r (pending b)\<rparr>) \<and>
      (if unat n > unat (t_requested_length tr)
       then completed = Some (- EMSGSIZE) \<and> givebacks (below u') = (req_urb r, urb, - EMSGSIZE) # givebacks (below u)
       else completed = Some 0 \<and>
         givebacks (below u') = (req_urb r, completed_urb urb tr (completion_of (t_id tr) status buf n), status) # givebacks (below u)))"
proof -
  let ?s1 = "put_back c (moved f r b) (below u)" and ?r = "r\<lparr>req_owner := Some f\<rparr>"
  have as: "fetched_as f (t_id tr) (below u1) (moved f r b) = Some ?r"
    using i(2) tr by (simp add: u1(1) fetched_as_def moved_def find_append)
  from virtusb_transfer_complete_lib_ok [OF u1(2,3) _ n i(1) as, where xa_mem = xa_mem and waits = waits and
      nodes = nodes and status = status and tr = tr and urb = urb] tr urb
  obtain ret u2 where c: "virtusb_transfer_complete_lib (kernel_calls True xa_mem waits nodes) (Some p) (t_id tr) status (Some buf) n u1 = Some (ret, u2)"
    "control_wf held pins (below u2)"
    and res: "if unat n > unat (t_requested_length tr)
       then ret = Some (- EMSGSIZE) \<and> gave_back c ?r urb (- EMSGSIZE) ?s1 (below u2)
       else ret = Some 0 \<and> gave_back c ?r (completed_urb urb tr (completion_of (t_id tr) status buf n)) status ?s1 (below u2)"
    by (auto simp: runs_iff u1(1) cong: if_cong)
  have gave: "givebacks (below u2) = (req_urb r, urb', st) # givebacks (below u) \<and> load_back c (below u2) = Some (b\<lparr>pending := remove1 r (pending b)\<rparr>)"
    if "gave_back c ?r urb' st ?s1 (below u2)" for urb' st
    using that by (simp add: gave_back_def moved_without [OF control_wfD(1) [OF wf] b r])
  have "load_back c (below u2) = Some (b\<lparr>pending := remove1 r (pending b)\<rparr>)" using res gave by (metis (full_types))
  then show ?thesis using c res gave by simp
qed

text \<open>C33: a backend program serves a request of its device with two calls of the library. The fetch
  hands it the oldest request with the setup packet and the data of the transfer; the completion
  under the ID it was told gives that URB back once, with the program's status and the first bytes
  of its buffer, or with -EMSGSIZE when the program reports more than was asked for. The other
  requests stay in order. (The ID is not zero and no request the session holds has it: IDs come
  from a 64-bit counter.)\<close>

theorem library_serves_transfer:
  assumes wf: "control_wf held pins (below u)" and p: "handle_open p f c u" and b: "load_back c (below u) = Some b"
    and bd: "virtusb_backend_find_owner_locked b f = Some bd" and q: "device_queue (below u) b (bind_device bd) = r # rs"
    and tr: "load_trans (req_transfer r) (below u) = Some tr" and urb: "load_urb (req_urb r) (below u) = Some urb"
    and i: "t_id tr \<noteq> 0" "fetched_as f (t_id tr) (below u) b = None"
    and n: "n \<le> VIRTUSB_TRANSFER_DATA_MAX" "unat n \<le> length buf"
  shows "runs (do { (fetched, u) \<leftarrow> virtusb_transfer_fetch_lib (kernel_calls True xa_mem waits nodes) (Some p) True u;
                    (completed, u) \<leftarrow> virtusb_transfer_complete_lib (kernel_calls True xa_mem waits nodes) (Some p)
                                       (t_id tr) status (Some buf) n u;
                    Some (fetched, completed, u) })
    (\<lambda>(fetched, completed, u'). control_wf held pins (below u') \<and>
      (\<exists>ob. load_obj (bind_device bd) (below u) = Some ob \<and> fetched = Some (0, Some (request_from_uapi (fetch_of tr ob)))) \<and>
      (if unat n > unat (t_requested_length tr)
       then completed = Some (- EMSGSIZE) \<and> givebacks (below u') = (req_urb r, urb, - EMSGSIZE) # givebacks (below u)
       else completed = Some 0 \<and>
         givebacks (below u') = (req_urb r, completed_urb urb tr (completion_of (t_id tr) status buf n), status) # givebacks (below u)) \<and>
      load_back c (below u') = Some (b\<lparr>pending := remove1 r (pending b)\<rparr>))"
proof -
  have "r \<in> set (device_queue (below u) b (bind_device bd))" by (simp add: q)
  then have r: "r \<in> set (pending b)" and dev: "device_of (below u) r = bind_device bd" by (simp_all add: device_queue_def)
  from dev tr have "t_device tr = bind_device bd" by (simp add: device_of_def)
  with back_wfD(1) [OF control_wfD(1) [OF wf]] tr obtain ob where ob: "load_obj (bind_device bd) (below u) = Some ob"
    using user_device(2) by metis
  note fetch = virtusb_transfer_fetch_lib_ok [OF wf p b bd q tr ob]
  from fetch(2) have wf1: "control_wf held pins (below (on_kernel (put_back c (moved f r b) (below u)) u))" by simp
  from completes_fetched [OF wf b r tr urb i below_on_kernel(1) wf1 fetch(3) n, of xa_mem waits nodes status] ob
  show ?thesis by (simp add: fetch(1) wp) (auto elim!: runs_mono split: if_splits)
qed

theorem library_serves_transfer_witness:
  "runs (do { (fetched, u) \<leftarrow> virtusb_transfer_fetch_lib (kernel_calls True True [] example_nodes) (Some 1) True (process example_queued);
              (completed, u) \<leftarrow> virtusb_transfer_complete_lib (kernel_calls True True [] example_nodes) (Some 1)
                                 (t_id example_transfer) 0 (Some [18, 1]) 2 u;
              Some (fetched, completed, u) })
    (\<lambda>(fetched, completed, u'). completed = Some 0 \<and> load_back 0 (below u') = Some bound_backend \<and>
       (\<exists>urb gs. givebacks (below u') = (9, urb, 0) # gs \<and> urb_actual_length urb = 2))"
proof -
  let ?tr = "example_transfer\<lparr>t_refcount := 2, t_state := VIRTUSB_TRANSFER_STATE_QUEUED\<rparr>"
  have wf: "control_wf (\<lambda>_. 0) ((\<lambda>_. 0)(3 := 1)) (below (process example_queued))"
    unfolding process_sel by (rule control_wf_examples(3))
  have q: "device_queue (below (process example_queued)) queued_backend (bind_device \<lparr>bind_device = 1, bind_owner = 5\<rparr>) = example_request # []"
    using example_queue by (simp add: device_queue_def device_of_def)
  have fresh: "fetched_as 5 (t_id ?tr) (below (process example_queued)) queued_backend = None" by (simp add: fetched_as_def)
  have n: "(2 :: u32) \<le> VIRTUSB_TRANSFER_DATA_MAX" "unat (2 :: u32) \<le> length [18, 1 :: u8]" by simp_all
  have sel: "load_back 0 (below (process example_queued)) = Some queued_backend"
    "load_trans (req_transfer example_request) (below (process example_queued)) = Some ?tr"
    "load_urb (req_urb example_request) (below (process example_queued)) = Some example_urb" "t_id ?tr \<noteq> 0" by simp_all
  have i: "t_id ?tr = t_id example_transfer" by simp
  have served: "queued_backend\<lparr>pending := remove1 example_request (pending queued_backend)\<rparr> = bound_backend"
    by (simp add: queued_backend_def)
  show ?thesis
    by (rule runs_mono [OF library_serves_transfer [where status = 0 and n = 2 and buf = "[18, 1]" and xa_mem = True and
        waits = "[]" and nodes = example_nodes, OF wf process_sel(2) sel(1) example_session(1) q sel(2,3,4) fresh n,
        unfolded served i]])
       (auto simp: completed_urb_def Let_def)
qed

text \<open>
  Plugging in through the library: when the port is free a new device ends up exactly there and is
  connected if the port has power; when another device is plugged in, the attachment fails with
  -EBUSY and no cabling changes.
\<close>

lemma plug_in_connects:
  assumes wf: "control_wf held pins (below u)" and p: "handle_open p f c u" and caps: "virtusb_control_speed_caps_valid caps"
    and next_id: "next_object_id (below u) \<le> U32_MAX" and hub: "load_hub c (below u) = Some hub" and n: "valid_port hub n"
    and free: "\<And>e. plugged (cabling_of (below u)) e \<noteq> Some (c, unat (n - 1))"
  shows "runs (plug_in (kernel_calls True True waits nodes) (Some p) caps n u) (\<lambda>(attached, connected, u').
    attached = Some 0 \<and> connected = Some 0 \<and>
    port_connected (below u') c (unat n) = vbus (cabling_of (below u)) (c, unat (n - 1)))"
proof -
  from topo_wf_shape [OF back_wf_topo [OF control_wfD(1) [OF wf]] hub] n obtain i where i: "unat n = Suc i" "unat (n - 1) = i"
    by (rule valid_portD)
  from plug_in_ok [OF wf p caps next_id hub n, of waits nodes] obtain attached u' d where
    code: "plug_in (kernel_calls True True waits nodes) (Some p) caps n u = Some (attached, Some 0, u')"
    and wf': "control_wf held pins (below u')" and a: "attached = Some 0" "signaling (cabling_of (below u')) d"
      "plugged (cabling_of (below u')) = (plugged (cabling_of (below u)))(d \<mapsto> (c, unat (n - 1)))"
      "vbus (cabling_of (below u')) = vbus (cabling_of (below u))"
    using free by (auto simp: runs_iff split: if_splits)
  note ports = topo_wf_ports [OF back_wf_topo [OF control_wfD(1) [OF wf']]]
  have "port_connected (below u') c (unat n) = vbus (cabling_of (below u)) (c, unat (n - 1))"
    unfolding i port_connected_cabling [OF ports] a(3,4) using a(2) free i(2) by auto
  with code a(1) show ?thesis by simp
qed

section \<open>The tool\<close>

text \<open>C37: virtusbctl reads back what it is told: a command of its grammar, written with decimal numbers
  and comma-separated speeds, with or without an instance before it, runs exactly that command with
  exactly these numbers.\<close>

theorem ctl_reads_command_lines:
  assumes "command_ok cmd"
  shows "virtusbctl_main env program (command_line cmd) = run_command env 0 cmd \<and>
    virtusbctl_main env program (''-d'' # print_u inst # command_line cmd) = run_command env inst cmd"
  using virtusbctl_main_command_line [OF assms] by blast

theorem ctl_reads_command_lines_witness:
  "virtusbctl_main example_environment ''virtusbctl'' [''-d'', print_u 3, ''device'', ''attach'', print_u 17, print_u 4]
      (process example_kback) = virtusbctl_device_attach example_environment 3 17 4 (process example_kback)"
proof -
  have ok: "command_ok (Attach 17 4)" by simp
  show ?thesis
    by (simp only: ctl_reads_command_lines [OF ok, THEN conjunct2, unfolded command_line.simps run_command.simps])
qed

text \<open>C38: no run of virtusbctl leaves anything behind, whatever its arguments and whether or not the
  calls succeed: it ends with status 0 or 1, without reading or writing memory it does not own, its
  descriptors and handles are those it started with, and the driver is well formed.\<close>

theorem ctl_leaves_nothing_open:
  fixes s :: "(vfs, 'a) terminal_scheme"
  assumes "process_ok held pins s" and "runs_in env mem xa_mem nodes s"
  shows "runs (virtusbctl_main env program args s) (\<lambda>(code, s'). (code = Some 0 \<or> code = Some 1) \<and>
    process_ok held pins s' \<and> fds (kern s') = fds (kern s) \<and> handles s' = handles s)"
  using virtusbctl_main_ok [OF assms, of program args] by (simp add: finished_def)

theorem ctl_leaves_nothing_open_witness:
  "runs (virtusbctl_main example_environment ''virtusbctl'' [''device'', ''detach'', ''1''] (process example_kback)) (\<lambda>(code, s').
     (code = Some 0 \<or> code = Some 1) \<and> fds (kern s') 4 = None \<and> load_handle 2 s' = None)"
proof -
  have "fds (kern (process example_kback)) 4 = None" "handles (process example_kback) 2 = None" by (simp_all add: process_def)
  then show ?thesis
    by (intro runs_mono [OF ctl_leaves_nothing_open [OF process_ok_process [OF control_wf_examples(1)] runs_in_process]])
       (auto simp: load_handle_def)
qed

text \<open>C39: \<open>virtusbctl status\<close> on a controller that is there prints the state of its hub: the device path,
  the hub, and for each port asked for one line with its status word, its change word, the names of
  the bits that are set and its speed, as the hub and the cabling have them. Nothing goes to the
  error output.\<close>

theorem ctl_status_reports:
  fixes s :: "(vfs, 'a) terminal_scheme"
  assumes "process_ok held pins s" and "runs_in env True xa_mem nodes s" and "env_calloc env = Inr p"
    and "nodes (device_path inst) = Some c"
    and "load_hcd c (below s) = Some v" "ctl_hcd (vh_control v) = Some c" "ctl_active (vh_control v)"
    and "load_hub c (below s) = Some hub" and "port \<le> ucast (hub_port_count hub)"
  shows "runs (virtusbctl_status env inst port s) (\<lambda>(code, s'). code = Some 0 \<and> stderr s' = stderr s \<and>
    (\<exists>st. stdout s' = stdout s @ status_text (device_path inst) port st \<and>
       vs_hub_id st = 0 \<and> vs_port st = port \<and> vs_port_count st = ucast (hub_port_count hub) \<and>
       (if port = 0
        then vs_state st = virtusb_state_from_uapi (hub_state_of hub) \<and>
          (\<forall>k < unat (hub_port_count hub). lib_state_of (below s) c hub (word_of_nat (Suc k)) (vs_ports st ! k))
        else lib_state_of (below s) c hub port (vs_state st))))"
  by (rule virtusbctl_status_reports [OF assms])

theorem ctl_status_reports_witness:
  "runs (virtusbctl_status example_environment 0 1 (process example_kback)) (\<lambda>(code, s'). code = Some 0 \<and>
     (\<exists>st. stdout s' = status_text (device_path 0) 1 st \<and> bit (st_status (vs_state st)) 0))"
proof -
  have sel: "env_calloc example_environment = Inr 2" "example_nodes (device_path 0) = Some 0"
    "load_hcd 0 (below (process example_kback)) = Some example_hcd" "ctl_hcd (vh_control example_hcd) = Some 0"
    "ctl_active (vh_control example_hcd)" "load_hub 0 (below (process example_kback)) = Some example_hub"
    "(1 :: u32) \<le> ucast (hub_port_count example_hub)"
    by (simp_all add: example_environment_def example_nodes_def example_hcd_def example_hubs example_hub_sel)
  have connected: "port_connected (loaded example_kback) 0 (unat (1 :: u32))"
  proof -
    have "port_connected (loaded example_kback) h k = port_connected example_kback h k" for h k by (rule port_connected_cong) simp
    then show ?thesis
      by (simp add: port_connected.simps example_kback_def example_topo_def load_port.simps load_hub_def example_ports
          example_upstream_def)
  qed
  have bits: "bit (st_status (vs_state st)) 0" if "lib_state_of (loaded example_kback) 0 example_hub 1 (vs_state st)" for st
    using that connected by (simp add: lib_state_of_def port_status_bit_def)
  have out: "stdout (process example_kback) @ t = t" for t by (simp add: process_def)
  show ?thesis
    by (rule runs_mono [OF ctl_status_reports [OF process_ok_process [OF control_wf_examples(1)] runs_in_process sel]])
       (simp only: split_paired_all split_conv out process_sel, use bits in \<open>fastforce\<close>)
qed

end
