(* ===== verification/Virtusb_Test_Device.thy ===== *)
theory Virtusb_Test_Device
  imports Virtusb_Ctl
begin

text \<open>
  The test device, \<open>tools/virtusb-test-device/main.c\<close>: a program that creates a device, plugs it in,
  answers its control requests until a signal arrives, and takes everything down again.
\<close>

abbreviation (input) USB_DIR_IN :: u8 where "USB_DIR_IN \<equiv> 0x80"
abbreviation (input) USB_TYPE_MASK :: u8 where "USB_TYPE_MASK \<equiv> 0x60"
abbreviation (input) USB_TYPE_STANDARD :: u8 where "USB_TYPE_STANDARD \<equiv> 0"
abbreviation (input) USB_RECIP_MASK :: u8 where "USB_RECIP_MASK \<equiv> 0x1f"
abbreviation (input) USB_RECIP_DEVICE :: u8 where "USB_RECIP_DEVICE \<equiv> 0"
abbreviation (input) USB_REQ_GET_STATUS :: u8 where "USB_REQ_GET_STATUS \<equiv> 0x00"
abbreviation (input) USB_REQ_SET_ADDRESS :: u8 where "USB_REQ_SET_ADDRESS \<equiv> 0x05"
abbreviation (input) USB_REQ_GET_DESCRIPTOR :: u8 where "USB_REQ_GET_DESCRIPTOR \<equiv> 0x06"
abbreviation (input) USB_REQ_GET_CONFIGURATION :: u8 where "USB_REQ_GET_CONFIGURATION \<equiv> 0x08"
abbreviation (input) USB_REQ_SET_CONFIGURATION :: u8 where "USB_REQ_SET_CONFIGURATION \<equiv> 0x09"
abbreviation (input) USB_DT_DEVICE :: u8 where "USB_DT_DEVICE \<equiv> 0x01"
abbreviation (input) USB_DT_CONFIG :: u8 where "USB_DT_CONFIG \<equiv> 0x02"

definition device_descriptor :: "u8 list" where
  "device_descriptor =
     [18, USB_DT_DEVICE, 0x00, 0x02, 0x00, 0x00, 0x00, 64, 0xad, 0xde, 0x01, 0x00, 0x00, 0x01, 0, 0, 0, 1]"

definition configuration_descriptor :: "u8 list" where
  "configuration_descriptor =
     [9, USB_DT_CONFIG, 18, 0, 1, 1, 0, 0x80, 50,
      9, 0x04, 0, 0, 0, 0xff, 0x00, 0x00, 0]"

text \<open>\<open>data\<close> is a pointer into an array: the rest of the array.\<close>

definition get_le16 :: "u8 list \<Rightarrow> u16 option" where
  "get_le16 data = do {
     low \<leftarrow> nth_opt data 0;
     high \<leftarrow> nth_opt data 1;
     Some (ucast low OR push_bit 8 (ucast high))
   }"

section \<open>Calls that may sleep\<close>

text \<open>
  A call has the result \<^const>\<open>None\<close> while it sleeps; so has everything that waits for it.
\<close>

definition and_then :: "('r option \<times> 's) option \<Rightarrow> ('r \<Rightarrow> 's \<Rightarrow> ('t option \<times> 's) option) \<Rightarrow> ('t option \<times> 's) option" where
  "and_then m k = do {
     (r, s) \<leftarrow> m;
     (case r of None \<Rightarrow> Some (None, s) | Some x \<Rightarrow> k x s)
   }"

text \<open>
  What the program takes from its environment: the calls, whether the signal handlers are installed
  (0, or \<open>errno\<close>), and the signals. The list tells for each time the loop is about to test
  \<open>stop_requested\<close> whether a signal has arrived since; where it ends, the program is still running.
\<close>

record 'k signalled = "'k environment" +
  env_sigaction :: int
  env_signals :: "bool list"

section \<open>Arguments\<close>

definition print_usage :: "string \<Rightarrow> string" where
  "print_usage program = ''Usage: '' @ program @ '' [INSTANCE [PORT]]'' @ newline"

definition parse_unsigned :: "string option \<Rightarrow> bool \<Rightarrow> int + u32" where
  "parse_unsigned text value_given =
     (case text of
        None \<Rightarrow> Inl (- EINVAL)
      | Some text \<Rightarrow>
          if \<not> value_given \<or> text = [] then Inl (- EINVAL)
          else (case strtoul text of (parsed, rest, erange) \<Rightarrow>
            if erange \<or> parsed > 0xffffffff then Inl (- ERANGE)
            else if rest = text \<or> rest \<noteq> [] then Inl (- EINVAL)
            else Inr (ucast parsed)))"

definition handle_signal :: "bool \<Rightarrow> bool" where
  "handle_signal stop_requested = True"

section \<open>Requests\<close>

definition complete_data ::
  "'k syscalls \<Rightarrow> nat option \<Rightarrow> virtusb_transfer_request \<Rightarrow> u8 list \<Rightarrow> nat \<Rightarrow> ('k, 'a) terminal_scheme
     \<Rightarrow> (int option \<times> ('k, 'a) terminal_scheme) option" where
  "complete_data sys handle request data length1 s =
     (let actual_length = (if length1 > unat (rq_requested_length request) then unat (rq_requested_length request) else length1)
      in virtusb_transfer_complete_lib sys handle (rq_id request) 0 (Some data) (word_of_nat actual_length) s)"

definition setup_text :: "virtusb_transfer_request \<Rightarrow> string option" where
  "setup_text request = do {
     request_type \<leftarrow> nth_opt (rq_setup request) 0;
     usb_request \<leftarrow> nth_opt (rq_setup request) 1;
     value2 \<leftarrow> get_le16 (drop 2 (rq_setup request));
     index2 \<leftarrow> get_le16 (drop 4 (rq_setup request));
     length2 \<leftarrow> get_le16 (drop 6 (rq_setup request));
     Some (''transfer='' @ print_llu (rq_id request) @ '' object='' @ print_u (rq_object_id request) @ '' setup='' @
       print_x 2 request_type @ '' '' @ print_x 2 usb_request @ '' '' @ print_x 4 value2 @ '' '' @ print_x 4 index2 @ '' '' @
       print_x 4 length2 @ newline)
   }"

definition handle_control_transfer ::
  "'k syscalls \<Rightarrow> nat option \<Rightarrow> virtusb_transfer_request \<Rightarrow> ('k, 'a) terminal_scheme
     \<Rightarrow> (int option \<times> ('k, 'a) terminal_scheme) option" where
  "handle_control_transfer sys handle request s =
     (if \<not> rq_has_setup request then virtusb_transfer_complete_lib sys handle (rq_id request) (- EINVAL) None 0 s
      else do {
        request_type \<leftarrow> nth_opt (rq_setup request) 0;
        usb_request \<leftarrow> nth_opt (rq_setup request) 1;
        value2 \<leftarrow> get_le16 (drop 2 (rq_setup request));
        text \<leftarrow> setup_text request;
        let s = printf text s;
        let stall = virtusb_transfer_complete_lib sys handle (rq_id request) (- EPIPE) None 0;
        if request_type AND USB_TYPE_MASK \<noteq> USB_TYPE_STANDARD then stall s
        else if usb_request = USB_REQ_GET_DESCRIPTOR then
          (if request_type AND USB_DIR_IN = 0 then stall s
           else let descriptor_type = ucast (drop_bit 8 value2) :: u8 in
             if descriptor_type = USB_DT_DEVICE
             then complete_data sys handle request device_descriptor (length device_descriptor) s
             else if descriptor_type = USB_DT_CONFIG
             then complete_data sys handle request configuration_descriptor (length configuration_descriptor) s
             else stall s)
        else if usb_request = USB_REQ_SET_ADDRESS \<or> usb_request = USB_REQ_SET_CONFIGURATION then
          (if request_type AND USB_DIR_IN = 0
           then virtusb_transfer_complete_lib sys handle (rq_id request) 0 None 0 s
           else stall s)
        else if usb_request = USB_REQ_GET_CONFIGURATION then
          (if request_type AND (USB_DIR_IN OR USB_RECIP_MASK) = USB_DIR_IN OR USB_RECIP_DEVICE
           then complete_data sys handle request [1, 0] 1 s
           else stall s)
        else if usb_request = USB_REQ_GET_STATUS then
          (if request_type AND USB_DIR_IN \<noteq> 0
           then complete_data sys handle request [0, 0] 2 s
           else stall s)
        else stall s
      })"

section \<open>The program\<close>

text \<open>One turn of the loop with a request, lines 296 to 303.\<close>

definition serve_request ::
  "'k syscalls \<Rightarrow> nat option \<Rightarrow> u32 \<Rightarrow> virtusb_transfer_request \<Rightarrow> ('k, 'a) terminal_scheme
     \<Rightarrow> (int option \<times> ('k, 'a) terminal_scheme) option" where
  "serve_request sys handle object_id request s =
     (if rq_object_id request \<noteq> object_id
      then virtusb_transfer_complete_lib sys handle (rq_id request) (- ENODEV) None 0 s
      else if rq_type request = VIRTUSB_TRANSFER_CONTROL \<and> rq_endpoint request = 0
      then handle_control_transfer sys handle request s
      else virtusb_transfer_complete_lib sys handle (rq_id request) (- EPIPE) None 0 s)"

definition failure :: "('k, 'b) environment_scheme \<Rightarrow> string \<Rightarrow> int \<Rightarrow> ('k, 'a) terminal_scheme \<Rightarrow> ('k, 'a) terminal_scheme" where
  "failure env what ret = eprintf (what @ '': '' @ env_strerror env (- ret) @ newline)"

fun serve_loop ::
  "('k, 'b) environment_scheme \<Rightarrow> nat option \<Rightarrow> u32 \<Rightarrow> bool list \<Rightarrow> bool \<Rightarrow> ('k, 'a) terminal_scheme
     \<Rightarrow> (int option \<times> ('k, 'a) terminal_scheme) option" where
  "serve_loop env handle object_id [] stop_requested s = Some (None, s)"
| "serve_loop env handle object_id (signal # signals) stop_requested s =
     (let stop_requested = (if signal then handle_signal stop_requested else stop_requested)
      in if stop_requested then Some (Some EXIT_SUCCESS, s)
         else and_then (virtusb_transfer_fetch_lib (env_sys env) handle True s) (\<lambda>(ret, request) s.
           if ret = - EINTR then serve_loop env handle object_id signals stop_requested s
           else if ret < 0 then Some (Some EXIT_FAILURE, failure env ''transfer fetch'' ret s)
           else do {
             request \<leftarrow> request;
             and_then (serve_request (env_sys env) handle object_id request s) (\<lambda>ret s.
               if ret < 0 then Some (Some EXIT_FAILURE, failure env ''transfer complete'' ret s)
               else serve_loop env handle object_id signals stop_requested s)
           }))"

text \<open>The label \<open>out\<close>; the results of the calls are ignored.\<close>

definition test_device_out ::
  "'k syscalls \<Rightarrow> nat option \<Rightarrow> u32 \<Rightarrow> int \<Rightarrow> ('k, 'a) terminal_scheme \<Rightarrow> (int option \<times> ('k, 'a) terminal_scheme) option" where
  "test_device_out sys handle object_id exit_code s =
     and_then
       (if handle \<noteq> None \<and> object_id \<noteq> VIRTUSB_INVALID_OBJECT_ID then
          and_then (virtusb_device_set_connected sys handle object_id False s) (\<lambda>_ s.
          and_then (virtusb_device_detach_lib sys handle object_id s) (\<lambda>_ s.
          and_then (virtusb_backend_unregister_lib sys handle s) (\<lambda>_ s.
          virtusb_device_destroy_lib sys handle object_id True s)))
        else Some (Some 0, s))
       (\<lambda>_ s. do {
          s \<leftarrow> virtusb_close sys handle s;
          Some (Some exit_code, s)
        })"

text \<open>With the device created, up to \<open>out\<close>: the exit code.\<close>

definition test_device_started ::
  "('k, 'b) environment_scheme \<Rightarrow> bool list \<Rightarrow> u32 \<Rightarrow> nat option \<Rightarrow> u32 \<Rightarrow> ('k, 'a) terminal_scheme
     \<Rightarrow> (int option \<times> ('k, 'a) terminal_scheme) option" where
  "test_device_started env signals port handle object_id s =
     (let fail = (\<lambda>what ret s. Some (Some EXIT_FAILURE, failure env what ret s))
      in and_then (virtusb_device_attach_lib (env_sys env) handle object_id 0 port s) (\<lambda>ret s.
        if ret < 0 then fail ''device attach'' ret s
        else let s = printf (''VirtUSB test device '' @ print_u object_id @ '' attached to port '' @ print_u port @ newline) s in
          and_then (virtusb_backend_register_lib (env_sys env) handle object_id s) (\<lambda>ret s.
            if ret < 0 then fail ''backend register'' ret s
            else and_then (virtusb_device_set_connected (env_sys env) handle object_id True s) (\<lambda>ret s.
              if ret < 0 then fail ''device connect'' ret s
              else serve_loop env handle object_id signals False s))))"

text \<open>From the open controller to \<open>out\<close>: the object ID, which is invalid when there is no device, and the exit code.\<close>

definition test_device_body ::
  "('k, 'b) environment_scheme \<Rightarrow> bool list \<Rightarrow> u32 \<Rightarrow> nat option \<Rightarrow> ('k, 'a) terminal_scheme
     \<Rightarrow> ((u32 \<times> int) option \<times> ('k, 'a) terminal_scheme) option" where
  "test_device_body env signals port handle s =
     and_then (virtusb_device_create_lib (env_sys env) handle VIRTUSB_DEVICE_SPEED_FULL True s) (\<lambda>(ret, object_id) s.
       if ret < 0 then Some (Some (VIRTUSB_INVALID_OBJECT_ID, EXIT_FAILURE), failure env ''device create'' ret s)
       else do {
         object_id \<leftarrow> object_id;
         and_then (test_device_started env signals port handle object_id s) (\<lambda>exit_code s.
           Some (Some (object_id, exit_code), s))
       })"

definition test_device_run ::
  "('k, 'b) signalled_scheme \<Rightarrow> u32 \<Rightarrow> u32 \<Rightarrow> ('k, 'a) terminal_scheme \<Rightarrow> (int option \<times> ('k, 'a) terminal_scheme) option" where
  "test_device_run env inst port s =
     (if env_sigaction env \<noteq> 0 then Some (Some EXIT_FAILURE, failure env ''sigaction'' (- env_sigaction env) s)
      else do {
        (ret, handle, s) \<leftarrow> virtusb_open (env_sys env) (env_calloc env) inst True s;
        if ret < 0
        then test_device_out (env_sys env) handle VIRTUSB_INVALID_OBJECT_ID EXIT_FAILURE (failure env ''virtusb_open'' ret s)
        else and_then (test_device_body env (env_signals env) port handle s) (\<lambda>(object_id, exit_code) s.
          test_device_out (env_sys env) handle object_id exit_code s)
      })"

definition test_device_main ::
  "('k, 'b) signalled_scheme \<Rightarrow> string \<Rightarrow> string list \<Rightarrow> ('k, 'a) terminal_scheme
     \<Rightarrow> (int option \<times> ('k, 'a) terminal_scheme) option" where
  "test_device_main env program args s =
     (let invalid = (\<lambda>what text. Some (Some EXIT_FAILURE,
            eprintf (print_usage program) (eprintf (''Invalid '' @ what @ '': '' @ text @ newline) s)))
      in if args = [''-h''] \<or> args = [''--help''] then Some (Some EXIT_SUCCESS, printf (print_usage program) s)
         else (case args of
             [] \<Rightarrow> test_device_run env 0 1 s
           | [first] \<Rightarrow>
               (case parse_unsigned (Some first) True of
                  Inl _ \<Rightarrow> invalid ''INSTANCE'' first
                | Inr inst \<Rightarrow> test_device_run env inst 1 s)
           | [first, second] \<Rightarrow>
               (case parse_unsigned (Some first) True of
                  Inl _ \<Rightarrow> invalid ''INSTANCE'' first
                | Inr inst \<Rightarrow>
                    (case parse_unsigned (Some second) True of
                       Inl _ \<Rightarrow> invalid ''PORT'' second
                     | Inr port \<Rightarrow> if port = 0 then invalid ''PORT'' second else test_device_run env inst port s))
           | _ \<Rightarrow> Some (Some EXIT_FAILURE, eprintf (print_usage program) s)))"

end
