(* ===== verification/Virtusb_Test_Calls.thy ===== *)
theory Virtusb_Test_Calls
  imports Virtusb_User_Space Virtusb_Test_Device
begin

text \<open>
  What the test programs rest on: which calls leave the registered devices alone, how programs of
  such calls compose, and what creating, destroying, opening and closing change.
\<close>

section \<open>The registered devices\<close>

lemma unknown_registry:
  assumes "control_wf held pins s"
  shows "unknown i s \<longleftrightarrow> xa_load (registry s) (ucast i) = None"
proof -
  have same: "take_bit 64 (uint k) = uint k" for k :: u32
    using uint_bounded [of k] by (simp add: take_bit_int_eq_self_iff)
  have inj: "(ucast i :: u64) = ucast j \<longleftrightarrow> i = j" for j :: u32
    by (simp add: word_uint_eq_iff [of i j] word_uint_eq_iff [of "ucast i :: u64"] unsigned_ucast_eq same)
  have "xa_load (registry s) (ucast i) = Some d \<longleftrightarrow>
      (\<exists>ob. load_obj d s = Some ob \<and> obj_registered ob \<and> (ucast i :: u64) = ucast (obj_id ob))" for d
    using obj_wfD(4) [OF dev_wfD(2) [OF control_wf_dev [OF assms]], of "ucast i" d] .
  then have "xa_load (registry s) (ucast i) = Some d \<longleftrightarrow> (\<exists>ob. load_obj d s = Some ob \<and> obj_registered ob \<and> obj_id ob = i)" for d
    by (auto simp: inj)
  then show ?thesis by (metis not_Some_eq unknown_def)
qed

text \<open>No other command than these two changes which devices are registered.\<close>

lemma ioctl_registry:
  assumes wf: "control_wf held pins s" and fl: "load_file f s = Some fl" and sized: "completions_sized argp"
    and command: "command \<in> {VIRTUSB_IOCTL_GET_PORT_STATUS, VIRTUSB_IOCTL_DEVICE_ATTACH, VIRTUSB_IOCTL_DEVICE_DETACH,
      VIRTUSB_IOCTL_DEVICE_CONNECTION, VIRTUSB_IOCTL_BACKEND_REGISTER, VIRTUSB_IOCTL_BACKEND_UNREGISTER,
      VIRTUSB_IOCTL_TRANSFER_COMPLETE}"
    and code: "virtusb_control_ioctl mem xa_mem waits f command argp s = Some (r, s')"
  shows "registry s' = registry s"
  using wf fl
proof (cases rule: control_gone_ok)
  case (1 control)
  with code show ?thesis by (simp add: virtusb_control_ioctl_def)
next
  case (2 c)
  have opened: "opened f c s" using 2(3) by (simp add: live_def)
  from opened wf obtain v b hub where v: "load_hcd c s = Some v" "ctl_hcd (vh_control v) = Some c"
    "vh_linux_hcd v = Some c" and b: "load_back c s = Some b" and hub: "load_hub c s = Some hub" by (rule openedE)
  have topo: "topo_change s s'' upd \<Longrightarrow> registry s'' = registry s" for s'' upd
    using layout_objects(2) by (auto simp: topo_change_def)
  note ioctl = virtusb_control_ioctl_def live_ioctl [OF 2(3)] Let_def ioctl_distinct bind_eq_Some_conv
  have attach: "registry s'' = registry s" if "virtusb_control_device_attach (Some c) argp s = Some (ret, s'')" for ret s''
    using virtusb_control_device_attach_ok [OF wf v(1,2) hub, of argp] that topo
    by (auto simp: Let_def split: option.splits if_splits)
  have detach: "registry s'' = registry s" if "virtusb_control_device_detach argp s = Some (ret, s'')" for ret s''
    using virtusb_control_device_detach_ok [OF wf, of argp] that topo by (auto split: option.splits if_splits)
  have connection: "registry s'' = registry s" if "virtusb_control_device_connection argp s = Some (ret, s'')" for ret s''
    using virtusb_control_device_connection_ok [OF wf, of argp] that topo by (auto split: option.splits if_splits)
  have register: "registry s'' = registry s" if "virtusb_control_backend_register mem f c argp s = Some (ret, s'')" for ret s''
    using virtusb_control_backend_register_ok [OF wf opened b, of mem argp] that by auto
  have unregister: "registry s'' = registry s" if "virtusb_backend_release_owner (Some c) (Some c) (Some f) s = Some s''" for s''
    using control_release_owner_ok [OF wf b, of f] that
    by (auto simp: gave_back_all_def wake_up_interruptible_all_def split: option.splits)
  have complete: "registry s'' = registry s" if "virtusb_control_transfer_complete mem f c argp s = Some (ret, s'')" for ret s''
    using virtusb_control_transfer_complete_ok [OF wf opened b sized, of mem] that
    by (auto simp: gave_back_def split: option.splits if_splits)
  from command code attach detach connection register unregister complete show ?thesis
    using v by (elim insertE emptyE) (fastforce simp: ioctl)+
qed

section \<open>Waiting\<close>

text \<open>
  What other threads do while a program waits for a request: the driver stays well formed, and no
  device, controller or open file comes or goes.
\<close>

definition quiet_step :: "(nat \<Rightarrow> nat) \<Rightarrow> (nat \<Rightarrow> nat) \<Rightarrow> (khcd \<Rightarrow> khcd) \<Rightarrow> bool" where
  "quiet_step held pins step \<longleftrightarrow>
     (\<forall>s. control_wf held pins s \<longrightarrow> control_wf held pins (step s) \<and> kback.more (step s) = kback.more s \<and>
        registry (step s) = registry s)"

lemma quiet_keeps_open: "quiet_step held pins step \<Longrightarrow> keeps_open held pins f c step"
  using opened_more [of "step s" s for s] by (auto simp: quiet_step_def keeps_open_def)

section \<open>Calls of a program\<close>

text \<open>
  A descriptor, and a handle, that is open on a file of the driver; and what calls leave as it is. A
  steady call does not sleep; \<open>keeps\<close> says so of calls that may, with what their results satisfy.
\<close>

definition has_fd :: "int \<Rightarrow> nat \<Rightarrow> (vfs, 'a) uproc_scheme \<Rightarrow> bool" where
  "has_fd fd f u \<longleftrightarrow> 0 \<le> fd \<and> fds (kern u) fd = Some f \<and> (\<exists>fl. load_file f (below u) = Some fl)"

definition has_handle :: "nat \<Rightarrow> nat \<Rightarrow> (vfs, 'a) uproc_scheme \<Rightarrow> bool" where
  "has_handle p f u \<longleftrightarrow> (\<exists>h. load_handle p u = Some h \<and> has_fd (h_fd h) f u)"

definition undisturbed :: "(nat \<Rightarrow> nat) \<Rightarrow> (nat \<Rightarrow> nat) \<Rightarrow> (vfs, 'a) uproc_scheme \<Rightarrow> (vfs, 'a) uproc_scheme \<Rightarrow> bool" where
  "undisturbed held pins u u' \<longleftrightarrow> stays held pins u u' \<and> registry (below u') = registry (below u)"

definition steady :: "(nat \<Rightarrow> nat) \<Rightarrow> (nat \<Rightarrow> nat) \<Rightarrow> (vfs, 'a) uproc_scheme \<Rightarrow> ('r option \<times> (vfs, 'a) uproc_scheme) option \<Rightarrow> bool" where
  "steady held pins u m \<longleftrightarrow> runs m (\<lambda>(r, u'). r \<noteq> None \<and> undisturbed held pins u u')"

definition keeps ::
  "(nat \<Rightarrow> nat) \<Rightarrow> (nat \<Rightarrow> nat) \<Rightarrow> ('r \<Rightarrow> bool) \<Rightarrow> (vfs, 'a) uproc_scheme \<Rightarrow> ('r option \<times> (vfs, 'a) uproc_scheme) option \<Rightarrow> bool" where
  "keeps held pins R u m \<longleftrightarrow> runs m (\<lambda>(r, u'). undisturbed held pins u u' \<and> (\<forall>x. r = Some x \<longrightarrow> R x))"

lemma undisturbedD:
  assumes "undisturbed held pins u u'"
  shows "process_ok held pins u'" and "registry (below u') = registry (below u)"
    and "has_fd fd f u \<Longrightarrow> has_fd fd f u'" and "has_handle p f u \<Longrightarrow> has_handle p f u'"
  using assms khcd_fields(2) [of "below u'" "below u"] by (auto simp: undisturbed_def stays_def has_fd_def has_handle_def load_handle_def)

lemma undisturbed_refl: "process_ok held pins u \<Longrightarrow> undisturbed held pins u u"
  by (simp add: undisturbed_def stays_refl)

lemma undisturbed_trans: "undisturbed held pins u v \<Longrightarrow> undisturbed held pins v w \<Longrightarrow> undisturbed held pins u w"
  by (auto simp: undisturbed_def elim: stays_trans)

lemma steady_result: "undisturbed held pins u u' \<Longrightarrow> steady held pins u (Some (Some r, u'))"
  by (simp add: steady_def)

lemma steady_from:
  assumes "undisturbed held pins u v" and "steady held pins v m"
  shows "steady held pins u m"
  using assms(2) undisturbed_trans [OF assms(1)] by (auto simp: steady_def elim!: runs_mono)

lemma steady_and_then:
  assumes "steady held pins u m" and "\<And>x u'. undisturbed held pins u u' \<Longrightarrow> steady held pins u (k x u')"
  shows "steady held pins u (and_then m k)"
  using assms by (auto simp: steady_def and_then_def runs_iff)

lemma undisturbed_print:
  "undisturbed held pins u (printf text v) = undisturbed held pins u v"
  "undisturbed held pins u (eprintf text v) = undisturbed held pins u v"
  for u v :: "(vfs, 'a) terminal_scheme"
  by (simp_all add: undisturbed_def stays_def process_ok_def printf_def eprintf_def)

lemma steady_branch:
  "steady held pins u m \<Longrightarrow> steady held pins u n \<Longrightarrow> steady held pins u (if c then m else n)"
  by simp

lemma and_then_Some: "and_then (Some (Some x, u)) k = k x u"
  by (simp add: and_then_def)

lemma keeps_result: "undisturbed held pins u u' \<Longrightarrow> R x \<Longrightarrow> keeps held pins R u (Some (Some x, u'))"
  by (simp add: keeps_def)

lemma keeps_sleep: "undisturbed held pins u u' \<Longrightarrow> keeps held pins R u (Some (None, u'))"
  by (simp add: keeps_def)

lemma keeps_branch:
  "(c \<Longrightarrow> keeps held pins R u m) \<Longrightarrow> (\<not> c \<Longrightarrow> keeps held pins R u n) \<Longrightarrow> keeps held pins R u (if c then m else n)"
  by simp

lemma keeps_steady:
  assumes "undisturbed held pins u v" and "steady held pins v m"
  shows "keeps held pins (\<lambda>_. True) u m"
  using assms(2) undisturbed_trans [OF assms(1)] by (auto simp: keeps_def steady_def elim!: runs_mono)

lemma keeps_from:
  assumes "undisturbed held pins u v" and "keeps held pins R v m"
  shows "keeps held pins R u m"
  using assms(2) undisturbed_trans [OF assms(1)] by (auto simp: keeps_def elim!: runs_mono)

lemma keeps_and_then:
  assumes "keeps held pins P u m" and "\<And>x u'. undisturbed held pins u u' \<Longrightarrow> P x \<Longrightarrow> keeps held pins R u (k x u')"
  shows "keeps held pins R u (and_then m k)"
  using assms by (auto simp: keeps_def and_then_def runs_iff split: option.splits)

lemma undisturbed_failure:
  "undisturbed held pins u v \<Longrightarrow> undisturbed held pins u (failure env what ret v)"
  for u v :: "(vfs, 'a) terminal_scheme"
  by (simp add: failure_def undisturbed_print)

section \<open>The ioctls\<close>

lemma plain_control_ioctl_ok:
  assumes u: "process_ok held pins u" and fl: "load_file f (below u) = Some fl" and sized: "completions_sized argp"
    and command: "command \<in> {VIRTUSB_IOCTL_GET_PORT_STATUS, VIRTUSB_IOCTL_DEVICE_ATTACH, VIRTUSB_IOCTL_DEVICE_DETACH,
      VIRTUSB_IOCTL_DEVICE_CONNECTION, VIRTUSB_IOCTL_BACKEND_REGISTER, VIRTUSB_IOCTL_BACKEND_UNREGISTER,
      VIRTUSB_IOCTL_TRANSFER_COMPLETE}"
    and waits: "\<forall>(ret, step) \<in> set waits. quiet_step held pins step"
  obtains ret out s where "virtusb_control_ioctl mem xa_mem waits f command argp (below u) = Some (Some (ret, out), s)"
    and "undisturbed held pins u (on_kernel s u)"
proof -
  have nofetch: "command \<noteq> VIRTUSB_IOCTL_TRANSFER_FETCH" using command by (auto simp: ioctl_distinct)
  have wf: "control_wf held pins (below u)" using u by (simp add: process_ok_def)
  have waits': "\<forall>(ret, step) \<in> set waits. keeps_open held pins f c step" for c using waits quiet_keeps_open by fast
  from virtusb_control_ioctl_ok [OF wf fl sized waits', where mem = mem and xa_mem = xa_mem and command = command] nofetch
  obtain result s where code: "virtusb_control_ioctl mem xa_mem waits f command argp (below u) = Some (result, s)"
    and s: "control_wf held pins s" "kback.more s = kback.more (below u)" and result: "result \<noteq> None"
    by (auto simp: runs_iff ioctl_result_def split: if_splits option.splits)
  have "undisturbed held pins u (on_kernel s u)"
    using stays_on_kernel [OF u s] ioctl_registry [OF wf fl sized command code] by (simp add: undisturbed_def)
  with result code show ?thesis by (auto intro: that)
qed

lemma fetch_ioctl_ok:
  assumes u: "process_ok held pins u" and fl: "load_file f (below u) = Some fl"
    and waits: "\<forall>(ret, step) \<in> set waits. quiet_step held pins step"
  obtains result s where "virtusb_control_ioctl mem xa_mem waits f VIRTUSB_IOCTL_TRANSFER_FETCH argp (below u) = Some (result, s)"
    and "undisturbed held pins u (on_kernel s u)"
    and "\<forall>ret out. result = Some (ret, out) \<longrightarrow> 0 \<le> ret \<longrightarrow> (\<exists>x. out = Some (User_transfer_fetch x) \<and> length (tf_setup x) = 8)"
proof -
  from u have wf: "control_wf held pins (below u)" by (simp add: process_ok_def)
  have "runs (virtusb_control_ioctl mem xa_mem waits f VIRTUSB_IOCTL_TRANSFER_FETCH argp (below u)) (\<lambda>(result, s').
      control_wf held pins s' \<and> kback.more s' = kback.more (below u) \<and> registry s' = registry (below u) \<and>
      (\<forall>ret out. result = Some (ret, out) \<longrightarrow> 0 \<le> ret \<longrightarrow> (\<exists>x. out = Some (User_transfer_fetch x) \<and> length (tf_setup x) = 8)))"
    using wf fl
  proof (cases rule: control_gone_ok)
    case (1 control)
    with wf show ?thesis by (simp add: virtusb_control_ioctl_def)
  next
    case (2 c)
    have opened: "opened f c (below u)" using 2(3) by (simp add: live_def)
    have "virtusb_control_ioctl mem xa_mem waits f VIRTUSB_IOCTL_TRANSFER_FETCH argp (below u) =
        virtusb_control_transfer_fetch mem waits f c argp (below u)"
      by (simp add: virtusb_control_ioctl_def live_ioctl [OF 2(3)] Let_def ioctl_distinct)
    moreover have "opened f c (step s) = opened f c s" if "kback.more (step s) = kback.more s" for step and s :: khcd
      by (rule opened_more [OF that])
    ultimately show ?thesis
      using control_transfer_fetch_keeps [OF wf opened, where K = "\<lambda>x m. x = registry (below u) \<and> m = kback.more (below u)" and mem = mem and waits = waits and
          argp = argp] waits
      by (fastforce simp: quiet_step_def elim!: runs_mono split: option.splits)
  qed
  then obtain result s where code: "virtusb_control_ioctl mem xa_mem waits f VIRTUSB_IOCTL_TRANSFER_FETCH argp (below u) = Some (result, s)"
    and s: "control_wf held pins s" "kback.more s = kback.more (below u)" "registry s = registry (below u)"
    and res: "\<forall>ret out. result = Some (ret, out) \<longrightarrow> 0 \<le> ret \<longrightarrow> (\<exists>x. out = Some (User_transfer_fetch x) \<and> length (tf_setup x) = 8)"
    unfolding runs_iff split_paired_Ex split_conv by blast
  show ?thesis
    by (rule that [OF code _ res]) (use stays_on_kernel [OF u s(1,2)] s(3) in \<open>simp_all add: undisturbed_def\<close>)
qed

definition devices :: "(vfs, 'a) uproc_scheme \<Rightarrow> u32 set" where
  "devices u = {i. \<not> unknown i (below u)}"

lemma devices_undisturbed:
  assumes "process_ok held pins u" and "undisturbed held pins u u'"
  shows "devices u' = devices u"
  using assms unknown_registry [of held pins "below u"] unknown_registry [of held pins "below u'"]
  by (simp add: devices_def undisturbed_def stays_def process_ok_def)

lemma create_ioctl_ok:
  assumes u: "process_ok held pins u" and fl: "load_file f (below u) = Some fl"
  obtains ret out s where "virtusb_control_ioctl mem xa_mem waits f VIRTUSB_IOCTL_DEVICE_CREATE
        (no_memory\<lparr>um_device_create := Some \<lparr>dc_speed_caps = caps, dc_object_id = 0\<rparr>\<rparr>) (below u) = Some (Some (ret, out), s)"
    and "stays held pins u (on_kernel s u)"
    and "if ret < 0 then devices (on_kernel s u) = devices u
      else \<exists>i c. out = Some (User_device_create \<lparr>dc_speed_caps = caps, dc_object_id = i\<rparr>) \<and> i \<noteq> 0 \<and> live f c (below u) \<and>
             i \<notin> devices u \<and> devices (on_kernel s u) = insert i (devices u)"
proof -
  let ?argp = "no_memory\<lparr>um_device_create := Some \<lparr>dc_speed_caps = caps, dc_object_id = 0\<rparr>\<rparr>"
  have wf: "control_wf held pins (below u)" using u by (simp add: process_ok_def)
  note keep = stays_on_kernel [OF u]
  show ?thesis
    using wf fl
  proof (cases rule: control_gone_ok)
    case (1 control)
    show ?thesis
      by (rule that [of "- ENODEV" None "below u"]) (use 1 stays_refl [OF u] in \<open>simp_all add: virtusb_control_ioctl_def\<close>)
  next
    case (2 c)
    from virtusb_control_device_create_ok [OF wf, of mem xa_mem ?argp] obtain ret out s where
      code: "virtusb_control_device_create mem xa_mem ?argp (below u) = Some (ret, out, s)"
      and s: "control_wf held pins s" "kback.more s = kback.more (below u)"
      and res: "ret < 0 \<and> out = None \<and> (\<forall>d. load_obj d s = load_obj d (below u)) \<or>
        ret = 0 \<and> (\<exists>d ob. load_obj d (below u) = None \<and> load_obj d s = Some ob \<and> obj_registered ob \<and>
           unat (obj_id ob) = unat (next_object_id (below u)) \<and>
           out = Some (User_device_create \<lparr>dc_speed_caps = caps, dc_object_id = obj_id ob\<rparr>) \<and>
           (\<forall>e. e \<noteq> d \<longrightarrow> load_obj e s = load_obj e (below u)))"
      by (fastforce simp: runs_iff split: if_splits)
    have ioctl: "virtusb_control_ioctl mem xa_mem waits f VIRTUSB_IOCTL_DEVICE_CREATE ?argp (below u) = Some (Some (ret, out), s)"
      by (simp add: virtusb_control_ioctl_def live_ioctl [OF 2(3)] Let_def ioctl_distinct code)
    from res show ?thesis
    proof (elim disjE conjE exE)
      assume "ret < 0" and "\<forall>d. load_obj d s = load_obj d (below u)"
      then show ?thesis by (intro that [OF ioctl keep [OF s]]) (simp add: devices_def unknown_def)
    next
      fix d ob
      assume ret: "ret = 0" and new: "load_obj d (below u) = None" "load_obj d s = Some ob" "obj_registered ob"
        and id: "unat (obj_id ob) = unat (next_object_id (below u))"
        and out: "out = Some (User_device_create \<lparr>dc_speed_caps = caps, dc_object_id = obj_id ob\<rparr>)"
        and others: "\<forall>e. e \<noteq> d \<longrightarrow> load_obj e s = load_obj e (below u)"
      note obj = obj_wfD [OF dev_wfD(2) [OF control_wf_dev [OF wf]]]
      have id0: "obj_id ob \<noteq> 0" using obj(5) id by (auto simp: word_less_nat_alt)
      have "obj_id ob' \<noteq> obj_id ob" if "load_obj e (below u) = Some ob'" for e ob'
        using obj(1) [OF that] id by (auto simp: obj_ok_def)
      then have unk: "unknown (obj_id ob) (below u)" by (auto simp: unknown_def)
      have "unknown j s \<longleftrightarrow> j \<noteq> obj_id ob \<and> unknown j (below u)" for j
      proof -
        have "load_obj e s = (if e = d then Some ob else load_obj e (below u))" for e using new(2) others by simp
        with new(1,3) show ?thesis by (auto simp: unknown_def split: if_splits)
      qed
      with id0 unk 2(3) show ?thesis by (intro that [OF ioctl keep [OF s]]) (auto simp: ret out devices_def)
    qed
  qed
qed

lemma destroy_ioctl_ok:
  assumes u: "process_ok held pins u" and live: "live f c (below u)" and i: "i \<noteq> 0"
  obtains ret s where "virtusb_control_ioctl mem xa_mem waits f VIRTUSB_IOCTL_DEVICE_DESTROY
        (no_memory\<lparr>um_device_destroy := Some \<lparr>dd_object_id = i, dd_flags = VIRTUSB_DEVICE_DESTROY_FORCE\<rparr>\<rparr>) (below u) = Some (Some (ret, None), s)"
    and "stays held pins u (on_kernel s u)" and "devices (on_kernel s u) = devices u - {i}"
proof -
  let ?argp = "no_memory\<lparr>um_device_destroy := Some \<lparr>dd_object_id = i, dd_flags = VIRTUSB_DEVICE_DESTROY_FORCE\<rparr>\<rparr>"
  have wf: "control_wf held pins (below u)" using u by (simp add: process_ok_def)
  from virtusb_control_device_destroy_ok [OF wf, of ?argp] i obtain ret s where
    code: "virtusb_control_device_destroy ?argp (below u) = Some (ret, s)"
    and s: "control_wf held pins s" "kback.more s = kback.more (below u)"
    and res: "if unknown i (below u) then s = below u
      else \<exists>d ob. load_obj d (below u) = Some ob \<and> obj_registered ob \<and> obj_id ob = i \<and> unknown i s \<and>
             (\<forall>ob'. load_obj d s = Some ob' \<longrightarrow> \<not> obj_registered ob') \<and> (\<forall>e. e \<noteq> d \<longrightarrow> load_obj e s = load_obj e (below u))"
    by (fastforce simp: runs_iff split: if_splits)
  have ioctl: "virtusb_control_ioctl mem xa_mem waits f VIRTUSB_IOCTL_DEVICE_DESTROY ?argp (below u) = Some (Some (ret, None), s)"
    by (simp add: virtusb_control_ioctl_def live_ioctl [OF live] Let_def ioctl_distinct code)
  have "unknown j s \<longleftrightarrow> j = i \<or> unknown j (below u)" for j
  proof (cases "unknown i (below u)")
    case False
    with res obtain d ob where d: "load_obj d (below u) = Some ob" "obj_registered ob" "obj_id ob = i" "unknown i s"
      "\<And>ob'. load_obj d s = Some ob' \<Longrightarrow> \<not> obj_registered ob'"
      "\<And>e. e \<noteq> d \<Longrightarrow> load_obj e s = load_obj e (below u)" by auto
    show ?thesis
    proof (cases "j = i")
      case False
      have "load_obj e s = Some ob' \<and> obj_registered ob' \<and> obj_id ob' = j \<longleftrightarrow>
          load_obj e (below u) = Some ob' \<and> obj_registered ob' \<and> obj_id ob' = j" for e ob'
        using d(1,3,5) d(6) [of e] False by (cases "e = d") auto
      with False show ?thesis unfolding unknown_def by blast
    qed (use d(4) in simp)
  qed (use res in auto)
  then have "devices (on_kernel s u) = devices u - {i}" by (auto simp: devices_def)
  with ioctl stays_on_kernel [OF u s] show ?thesis by (rule that)
qed

section \<open>Calls of the library\<close>

lemma with_ioctl_on:
  assumes "has_handle p f u"
  shows "with_ioctl (kernel_calls mem xa_mem waits nodes) (Some p) command argp finish failed u = do {
    (result, s) \<leftarrow> virtusb_control_ioctl mem xa_mem waits f command argp (below u);
    (case result of
       None \<Rightarrow> Some (None, on_kernel s u)
     | Some (ret, out) \<Rightarrow>
         if ret < 0 then Some (Some (failed ret), on_kernel s u)
         else do { r \<leftarrow> finish out; Some (Some r, on_kernel s u) })
  }"
proof -
  have on: "calls.on_driver s u = on_kernel s u" for s by (simp add: calls.on_driver_def on_kernel_def)
  from assms have "calls.handle_on p f u" by (auto simp: has_handle_def has_fd_def calls.handle_on_def fd_file_def)
  from calls.with_ioctl_handler [OF this, of mem xa_mem waits nodes command argp finish failed] show ?thesis unfolding on .
qed

lemma has_handle_file: "has_handle p f u \<Longrightarrow> \<exists>fl. load_file f (below u) = Some fl"
  by (auto simp: has_handle_def has_fd_def)

lemma plain_call_steady:
  assumes u: "process_ok held pins u" and p: "has_handle p f u" and sized: "completions_sized argp"
    and command: "command \<in> {VIRTUSB_IOCTL_GET_PORT_STATUS, VIRTUSB_IOCTL_DEVICE_ATTACH, VIRTUSB_IOCTL_DEVICE_DETACH,
      VIRTUSB_IOCTL_DEVICE_CONNECTION, VIRTUSB_IOCTL_BACKEND_REGISTER, VIRTUSB_IOCTL_BACKEND_UNREGISTER,
      VIRTUSB_IOCTL_TRANSFER_COMPLETE}"
    and waits: "\<forall>(ret, step) \<in> set waits. quiet_step held pins step"
  shows "steady held pins u (plain_ioctl (kernel_calls mem xa_mem waits nodes) (Some p) command argp u)"
proof -
  from has_handle_file [OF p] obtain fl where fl: "load_file f (below u) = Some fl" by blast
  from u fl sized command waits obtain ret out s where
    "virtusb_control_ioctl mem xa_mem waits f command argp (below u) = Some (Some (ret, out), s)" "undisturbed held pins u (on_kernel s u)"
    by (rule plain_control_ioctl_ok)
  then show ?thesis by (simp add: steady_def with_ioctl_on [OF p])
qed

lemma complete_steady:
  assumes u: "process_ok held pins u" and p: "has_handle p f u" and n: "n \<le> VIRTUSB_TRANSFER_DATA_MAX"
    and data: "n = 0 \<or> (\<exists>buf. data = Some buf \<and> unat n \<le> length buf)"
    and waits: "\<forall>(ret, step) \<in> set waits. quiet_step held pins step"
  shows "steady held pins u (virtusb_transfer_complete_lib (kernel_calls mem xa_mem waits nodes) (Some p) i st data n u)"
proof -
  let ?zeros = "replicate VIRTUSB_TRANSFER_DATA_MAX 0 :: u8 list"
  from p obtain h where h: "load_handle p u = Some h" "\<not> h_fd h < 0" by (auto simp: has_handle_def has_fd_def)
  have n4096: "unat n \<le> 4096" using n by (simp add: word_le_nat_alt)
  obtain bytes where bytes: "(if 0 < n then do { buffer \<leftarrow> data; memcpy ?zeros buffer (unat n) } else Some ?zeros) = Some bytes"
    "length bytes = VIRTUSB_TRANSFER_DATA_MAX"
    using data n4096 by (cases "n = 0") (auto simp: word_gt_0)
  have "virtusb_transfer_complete_lib (kernel_calls mem xa_mem waits nodes) (Some p) i st data n u =
      plain_ioctl (kernel_calls mem xa_mem waits nodes) (Some p) VIRTUSB_IOCTL_TRANSFER_COMPLETE (no_memory\<lparr>um_transfer_complete :=
        Some \<lparr>tc_transfer_id = i, tc_status = st, tc_actual_length = n, tc_data = bytes\<rparr>\<rparr>) u"
    using n data bytes by (auto simp: virtusb_transfer_complete_lib_def h not_less [symmetric] word_gt_0 split del: if_split)
  also have "steady held pins u \<dots>"
    by (rule plain_call_steady [OF u p _ _ waits]) (simp_all add: completions_sized_def bytes)
  finally show ?thesis .
qed
lemma simple_calls_steady:
  fixes u :: "(vfs, 'a) uproc_scheme" and mem xa_mem :: bool and nodes :: "string \<Rightarrow> nat option"
    and waits :: "(int \<times> (khcd \<Rightarrow> khcd)) list"
  assumes u: "process_ok held pins u" and p: "has_handle p f u" and waits: "\<forall>(ret, step) \<in> set waits. quiet_step held pins step"
  defines "sys \<equiv> kernel_calls mem xa_mem waits nodes"
  shows "steady held pins u (virtusb_device_attach_lib sys (Some p) i 0 port u)"
    and "steady held pins u (virtusb_device_detach_lib sys (Some p) i u)"
    and "steady held pins u (virtusb_device_set_connected sys (Some p) i connected u)"
    and "steady held pins u (virtusb_backend_register_lib sys (Some p) i u)"
    and "steady held pins u (virtusb_backend_unregister_lib sys (Some p) u)"
  unfolding sys_def virtusb_device_attach_lib_def virtusb_device_detach_lib_def virtusb_device_set_connected_def
    virtusb_backend_register_lib_def virtusb_backend_unregister_lib_def
  by (auto intro!: plain_call_steady [OF u p _ _ waits] steady_branch steady_result undisturbed_refl [OF u]
      simp: completions_sized_def no_memory_def)
lemma fetch_call_ok:
  assumes u: "process_ok held pins u" and p: "has_handle p f u" and waits: "\<forall>(ret, step) \<in> set waits. quiet_step held pins step"
  shows "keeps held pins (\<lambda>(ret, request). 0 \<le> ret \<longrightarrow> (\<exists>rq. request = Some rq \<and> length (rq_setup rq) = 8)) u
    (virtusb_transfer_fetch_lib (kernel_calls mem xa_mem waits nodes) (Some p) True u)"
proof -
  from has_handle_file [OF p] obtain fl where fl: "load_file f (below u) = Some fl" by blast
  obtain result s where code: "virtusb_control_ioctl mem xa_mem waits f VIRTUSB_IOCTL_TRANSFER_FETCH no_memory (below u) = Some (result, s)"
    "undisturbed held pins u (on_kernel s u)"
    and res: "\<forall>ret out. result = Some (ret, out) \<longrightarrow> 0 \<le> ret \<longrightarrow> (\<exists>x. out = Some (User_transfer_fetch x) \<and> length (tf_setup x) = 8)"
    using u fl waits by (rule fetch_ioctl_ok [where mem = mem and xa_mem = xa_mem and argp = no_memory])
  show ?thesis
    using code(2) res by (cases result) (fastforce simp: keeps_def virtusb_transfer_fetch_lib_def with_ioctl_on [OF p] code(1) request_from_uapi_def)+
qed

lemma create_call_ok:
  assumes u: "process_ok held pins u" and p: "has_handle p f u"
  obtains ret x u' where "virtusb_device_create_lib (kernel_calls mem xa_mem waits nodes) (Some p) caps True u = Some (Some (ret, x), u')"
    and "stays held pins u u'"
    and "if ret < 0 then devices u' = devices u
       else \<exists>i c. x = Some i \<and> i \<noteq> 0 \<and> live f c (below u) \<and> i \<notin> devices u \<and> devices u' = insert i (devices u)"
proof -
  from has_handle_file [OF p] obtain fl where fl: "load_file f (below u) = Some fl" by blast
  obtain ret out s where code: "virtusb_control_ioctl mem xa_mem waits f VIRTUSB_IOCTL_DEVICE_CREATE
        (no_memory\<lparr>um_device_create := Some \<lparr>dc_speed_caps = caps, dc_object_id = 0\<rparr>\<rparr>) (below u) = Some (Some (ret, out), s)"
    and s: "stays held pins u (on_kernel s u)"
    and res: "if ret < 0 then devices (on_kernel s u) = devices u
      else \<exists>i c. out = Some (User_device_create \<lparr>dc_speed_caps = caps, dc_object_id = i\<rparr>) \<and> i \<noteq> 0 \<and> live f c (below u) \<and>
             i \<notin> devices u \<and> devices (on_kernel s u) = insert i (devices u)"
    using u fl by (rule create_ioctl_ok)
  note lib = virtusb_device_create_lib_def with_ioctl_on [OF p] code Let_def
  show ?thesis
  proof (cases "ret < 0")
    case True
    then show ?thesis using s res by (intro that [of ret None "on_kernel s u"]) (simp_all add: lib)
  next
    case False
    with res obtain i c where i: "out = Some (User_device_create \<lparr>dc_speed_caps = caps, dc_object_id = i\<rparr>)" "i \<noteq> 0" "live f c (below u)"
      "i \<notin> devices u" "devices (on_kernel s u) = insert i (devices u)" by auto
    then show ?thesis using s False by (intro that [of 0 "Some i" "on_kernel s u"]) (auto simp: lib)
  qed
qed

lemma destroy_call_ok:
  assumes u: "process_ok held pins u" and p: "has_handle p f u" and live: "live f c (below u)" and i: "i \<noteq> 0"
  obtains r u' where "virtusb_device_destroy_lib (kernel_calls mem xa_mem waits nodes) (Some p) i True u = Some (Some r, u')"
    and "stays held pins u u'" and "devices u' = devices u - {i}"
proof -
  obtain ret s where "virtusb_control_ioctl mem xa_mem waits f VIRTUSB_IOCTL_DEVICE_DESTROY
        (no_memory\<lparr>um_device_destroy := Some \<lparr>dd_object_id = i, dd_flags = VIRTUSB_DEVICE_DESTROY_FORCE\<rparr>\<rparr>) (below u) = Some (Some (ret, None), s)"
    "stays held pins u (on_kernel s u)" "devices (on_kernel s u) = devices u - {i}"
    using u live i by (rule destroy_ioctl_ok)
  then show ?thesis
    by (intro that [of "if ret < 0 then ret else 0" "on_kernel s u"]) (simp_all add: virtusb_device_destroy_lib_def with_ioctl_on [OF p])
qed

section \<open>Programs\<close>

text \<open>What the part between opening and cleaning up leaves: the device it created, and nothing else.\<close>

definition holds_device :: "(nat \<Rightarrow> nat) \<Rightarrow> (nat \<Rightarrow> nat) \<Rightarrow> nat \<Rightarrow> (vfs, 'a) uproc_scheme \<Rightarrow> u32 \<Rightarrow> (vfs, 'a) uproc_scheme \<Rightarrow> bool" where
  "holds_device held pins f u i u' \<longleftrightarrow> stays held pins u u' \<and>
     (if i = 0 then devices u' = devices u
      else (\<exists>c. live f c (below u)) \<and> i \<notin> devices u \<and> devices u' = insert i (devices u))"

lemma holds_device_undisturbed:
  assumes "holds_device held pins f u i v" and "undisturbed held pins v w"
  shows "holds_device held pins f u i w"
proof -
  from assms(1) have "stays held pins u v" "process_ok held pins v" by (simp_all add: holds_device_def stays_def)
  moreover have "stays held pins v w" using assms(2) by (simp add: undisturbed_def)
  ultimately show ?thesis
    using assms(1) devices_undisturbed [OF _ assms(2)] stays_trans [of held pins u v w] by (simp add: holds_device_def)
qed
lemma holds_device_has_fd:
  assumes "holds_device held pins f u i v"
  shows "process_ok held pins v" and "has_fd fd f u \<Longrightarrow> has_fd fd f v" and "has_handle p f u \<Longrightarrow> has_handle p f v"
  using assms khcd_fields(2) [of "below v" "below u"]
  by (auto simp: holds_device_def stays_def has_fd_def has_handle_def load_handle_def)

text \<open>A device that is held can be destroyed from any state that leaves it alone, and then nothing is held.\<close>

lemma holds_device_destroyed:
  assumes v: "holds_device held pins f u i v" and i: "i \<noteq> 0" and w: "undisturbed held pins v w"
    and z: "stays held pins w z" "devices z = devices w - {i}"
  shows "holds_device held pins f u 0 z"
proof -
  have "holds_device held pins f u i w" by (rule holds_device_undisturbed [OF v w])
  with i z stays_trans [of held pins u w z] show ?thesis by (simp add: holds_device_def)
qed

lemma holds_device_live:
  assumes v: "holds_device held pins f u i v" and i: "i \<noteq> 0"
  obtains c where "live f c (below v)"
proof -
  from v i obtain c where c: "live f c (below u)" by (auto simp: holds_device_def)
  have "kback.more (below v) = kback.more (below u)" using v by (simp add: holds_device_def stays_def)
  from live_more [OF this] c show ?thesis using that by blast
qed

lemma devices_same:
  assumes "process_ok held pins u" and "process_ok held pins u'" and "registry (below u') = registry (below u)"
  shows "devices u' = devices u"
  using unknown_registry [of held pins "below u'"] unknown_registry [of held pins "below u"] assms
  by (simp add: devices_def process_ok_def)

text \<open>The environment of a program: the calls of the driver, device nodes that exist, and fresh memory.\<close>

definition runs_on ::
  "(vfs, 'b) environment_scheme \<Rightarrow> bool \<Rightarrow> bool \<Rightarrow> (int \<times> (khcd \<Rightarrow> khcd)) list \<Rightarrow> (string \<Rightarrow> nat option) \<Rightarrow> (vfs, 'a) uproc_scheme \<Rightarrow> bool" where
  "runs_on env mem xa_mem waits nodes u \<longleftrightarrow> env_sys env = kernel_calls mem xa_mem waits nodes \<and> nodes_ok nodes u \<and>
     (case env_calloc env of Inl e \<Rightarrow> 0 \<le> e | Inr p \<Rightarrow> load_handle p u = None)"

definition restored :: "(nat \<Rightarrow> nat) \<Rightarrow> (nat \<Rightarrow> nat) \<Rightarrow> (vfs, 'a) uproc_scheme \<Rightarrow> int option \<times> (vfs, 'a) uproc_scheme \<Rightarrow> bool" where
  "restored held pins u r \<longleftrightarrow> process_ok held pins (snd r) \<and>
     (fst r = None \<or> (fst r = Some EXIT_SUCCESS \<or> fst r = Some EXIT_FAILURE) \<and>
        fds (kern (snd r)) = fds (kern u) \<and> handles (snd r) = handles u \<and> devices (snd r) = devices u \<and>
        (\<forall>g. load_file g (below (snd r)) = load_file g (below u)))"

lemma restored_now: "process_ok held pins u \<Longrightarrow> restored held pins u (Some EXIT_FAILURE, u)"
  "process_ok held pins u \<Longrightarrow> restored held pins u (Some EXIT_SUCCESS, u)"
  by (simp_all add: restored_def)

lemma devices_print [simp]: "devices (printf t u) = devices u" "devices (eprintf t u) = devices u" "devices (failure env what e u) = devices u"
  by (simp_all add: devices_def printf_def eprintf_def failure_def)

lemma process_ok_print [simp]:
  "process_ok held pins (printf t u) = process_ok held pins u" "process_ok held pins (eprintf t u) = process_ok held pins u"
  "process_ok held pins (failure env what e u) = process_ok held pins u"
  by (simp_all add: process_ok_def printf_def eprintf_def failure_def)

lemma kern_print [simp]:
  "kern (printf t u) = kern u" "kern (eprintf t u) = kern u" "kern (failure env what e u) = kern u"
  "handles (printf t u) = handles u" "handles (eprintf t u) = handles u" "handles (failure env what e u) = handles u"
  by (simp_all add: printf_def eprintf_def failure_def)

text \<open>A program that opened the controller, and one that closes it with nothing left to take down.\<close>

definition opened_from :: "nat \<Rightarrow> nat \<Rightarrow> (vfs, 'a) uproc_scheme \<Rightarrow> (vfs, 'a) uproc_scheme \<Rightarrow> bool" where
  "opened_from p f u u1 \<longleftrightarrow> devices u1 = devices u \<and>
     (\<forall>g. load_file g (below u) = (if g = f then None else load_file g (below u1))) \<and> (\<exists>h. load_handle p u1 = Some h \<and> has_fd (h_fd h) f u1 \<and>
     (fds (kern u1))(h_fd h := None) = fds (kern u) \<and> (handles u1)(p := None) = handles u)"

lemma open_call_ok:
  fixes u :: "(vfs, 'a) uproc_scheme"
  assumes u: "process_ok held pins u" and env: "runs_on env mem xa_mem waits nodes u"
  obtains ret handle u1 where "virtusb_open (env_sys env) (env_calloc env) inst True u = Some (ret, handle, u1)"
    and "process_ok held pins u1"
    and "if ret < 0 then handle = None \<and> restored held pins u (Some EXIT_FAILURE, u1)
      else \<exists>p f. handle = Some p \<and> opened_from p f u u1"
proof -
  have calloc: "\<And>e. env_calloc env = Inl e \<Longrightarrow> 0 \<le> e" and fresh: "\<And>p. env_calloc env = Inr p \<Longrightarrow> handles u p = None"
    and sys: "env_sys env = kernel_calls mem xa_mem waits nodes" and nodes: "nodes_ok nodes u"
    using env by (auto simp: runs_on_def load_handle_def)
  from virtusb_open_ok [where calloc = "env_calloc env" and mem = mem and xa_mem = xa_mem and waits = waits and inst = inst,
      OF u nodes calloc] obtain ret handle u1 where
    code: "virtusb_open (env_sys env) (env_calloc env) inst True u = Some (ret, handle, u1)"
    and u1: "process_ok held pins u1" "registry (below u1) = registry (below u)"
    and res: "if ret < 0 then handle = None \<and> fds (kern u1) = fds (kern u) \<and> handles u1 = handles u \<and>
       (\<forall>g. load_file g (below u1) = load_file g (below u))
     else ret = 0 \<and> (\<exists>p c. env_calloc env = Inr p \<and> handle = Some p \<and> opened_as p inst c u u1)"
    by (fastforce simp: runs_iff sys split: if_splits)
  note dev1 = devices_same [OF u u1]
  show ?thesis
  proof (cases "ret < 0")
    case True
    with res u1(1) dev1 show ?thesis by (intro that [OF code u1(1)]) (simp add: restored_def)
  next
    case False
    with res obtain p c where p: "env_calloc env = Inr p" "handle = Some p" "opened_as p inst c u u1" by auto
    note o = openedD [OF p(3) u1(1)]
    from u have fd0: "0 \<le> next_fd (kern u)" "fds (kern u) (next_fd (kern u)) = None" by (simp_all add: process_ok_def)
    have "(fds (kern u1))(next_fd (kern u) := None) = fds (kern u)" "(handles u1)(p := None) = handles u"
      "\<And>g. load_file g (below u) = (if g = next_file (kern u) then None else load_file g (below u1))"
      using p(3) fd0(2) fresh [OF p(1)] u by (simp_all add: opened_as_def fun_upd_idem process_ok_def)
    with o fd0 dev1 have "opened_from p (next_file (kern u)) u u1" by (auto simp: opened_from_def has_fd_def)
    with False p(2) show ?thesis by (intro that [OF code u1(1)]) auto
  qed
qed

lemma opened_from_handle: "opened_from p f u u1 \<Longrightarrow> has_handle p f u1"
  by (auto simp: opened_from_def has_handle_def)

lemma close_call_ok:
  fixes u :: "(vfs, 'a) uproc_scheme"
  assumes o: "opened_from p f u u1" and w: "holds_device held pins f u1 0 w" and code: "code = EXIT_SUCCESS \<or> code = EXIT_FAILURE"
  shows "runs (do { s \<leftarrow> virtusb_close (kernel_calls mem xa_mem waits nodes) (Some p) w; Some (Some code, s) }) (restored held pins u)"
proof -
  from o obtain h where h: "load_handle p u1 = Some h" "has_fd (h_fd h) f u1" "devices u1 = devices u"
    "(fds (kern u1))(h_fd h := None) = fds (kern u)" "(handles u1)(p := None) = handles u"
    "\<And>g. load_file g (below u) = (if g = f then None else load_file g (below u1))" by (auto simp: opened_from_def)
  from w have w': "process_ok held pins w" "fds (kern w) = fds (kern u1)" "handles w = handles u1" "devices w = devices u1"
    and more: "kback.more (below w) = kback.more (below u1)" by (simp_all add: holds_device_def stays_def)
  note files = khcd_fields(2) [OF more]
  from holds_device_has_fd(2) [OF w h(2)] obtain fl where fd: "0 \<le> h_fd h" "fds (kern w) (h_fd h) = Some f" "load_file f (below w) = Some fl"
    by (auto simp: has_fd_def)
  have hw: "load_handle p w = Some h" using h(1) w'(3) by (simp add: load_handle_def)
  from virtusb_close_ok [OF w'(1) hw fd, of mem xa_mem waits nodes] obtain z where
    z: "virtusb_close (kernel_calls mem xa_mem waits nodes) (Some p) w = Some z" "process_ok held pins z" "fds (kern z) = (fds (kern w))(h_fd h := None)"
      "handles z = (handles w)(p := None)" "registry (below z) = registry (below w)"
      "\<forall>g. load_file g (below z) = (if g = f then None else load_file g (below w))" unfolding runs_iff by blast
  with devices_same [OF w'(1) z(2,5)] w' files h code show ?thesis by (simp add: restored_def)
qed

text \<open>The calls of a program that holds a handle, from any state that leaves \<open>u1\<close> alone.\<close>

lemma simple_calls_keep:
  fixes u1 :: "(vfs, 'a) uproc_scheme" and mem xa_mem :: bool and nodes :: "string \<Rightarrow> nat option"
    and waits :: "(int \<times> (khcd \<Rightarrow> khcd)) list"
  assumes p: "has_handle p f u1" and waits: "\<forall>(ret, step) \<in> set waits. quiet_step held pins step" and v: "undisturbed held pins u1 v"
  defines "sys \<equiv> kernel_calls mem xa_mem waits nodes"
  shows "keeps held pins (\<lambda>_. True) u1 (virtusb_device_attach_lib sys (Some p) i 0 port v)"
    and "keeps held pins (\<lambda>_. True) u1 (virtusb_device_detach_lib sys (Some p) i v)"
    and "keeps held pins (\<lambda>_. True) u1 (virtusb_device_set_connected sys (Some p) i connected v)"
    and "keeps held pins (\<lambda>_. True) u1 (virtusb_backend_register_lib sys (Some p) i v)"
    and "keeps held pins (\<lambda>_. True) u1 (virtusb_backend_unregister_lib sys (Some p) v)"
  unfolding sys_def
  by (rule keeps_steady [OF v] simple_calls_steady [OF undisturbedD(1) [OF v] undisturbedD(4) [OF v p] waits])+

text \<open>What comes after the device has been created, and taking down what it leaves.\<close>

lemma keeps_device:
  assumes "holds_device held pins f u i u1" and "keeps held pins R u1 m"
  shows "runs m (\<lambda>(r, v). process_ok held pins v \<and> (\<forall>x. r = Some x \<longrightarrow> R x \<and> holds_device held pins f u i v))"
  using assms(2) holds_device_undisturbed [OF assms(1)] by (auto simp: keeps_def undisturbedD(1) elim!: runs_mono)

lemma create_and_start:
  fixes u :: "(vfs, 'a) terminal_scheme" and none :: 'c
  assumes u: "process_ok held pins u" and p: "has_handle p f u" and none: "Q none"
    and start: "\<And>i v. process_ok held pins v \<Longrightarrow> has_handle p f v \<Longrightarrow> keeps held pins Q v (started i v)"
  shows "runs (and_then (virtusb_device_create_lib (kernel_calls mem xa_mem waits nodes) (Some p) caps True u) (\<lambda>(ret, i) s.
      if ret < 0 then Some (Some (0, none), failure env what ret s)
      else do { i \<leftarrow> i; and_then (started i s) (\<lambda>x s. Some (Some (i, x), s)) }))
    (\<lambda>(r, v). process_ok held pins v \<and> (\<forall>x. r = Some x \<longrightarrow> Q (snd x) \<and> holds_device held pins f u (fst x) v))"
proof -
  from u p obtain ret x u1 where
    create: "virtusb_device_create_lib (kernel_calls mem xa_mem waits nodes) (Some p) caps True u = Some (Some (ret, x), u1)"
    and stays: "stays held pins u u1"
    and res: "if ret < 0 then devices u1 = devices u
       else \<exists>i c. x = Some i \<and> i \<noteq> 0 \<and> live f c (below u) \<and> i \<notin> devices u \<and> devices u1 = insert i (devices u)"
    by (rule create_call_ok)
  show ?thesis
  proof (cases "ret < 0")
    case True
    with res stays have "holds_device held pins f u 0 u1" by (simp add: holds_device_def)
    from holds_device_undisturbed [OF this undisturbed_failure [OF undisturbed_refl]] stays True none show ?thesis
      by (simp add: create and_then_Some holds_device_has_fd(1) stays_def)
  next
    case False
    with res obtain i c where "x = Some i" "i \<noteq> 0" "live f c (below u)" "i \<notin> devices u" "devices u1 = insert i (devices u)" by auto
    with stays have i: "x = Some i" "holds_device held pins f u i u1" by (auto simp: holds_device_def)
    from keeps_device [OF i(2) start [OF holds_device_has_fd(1) [OF i(2)] holds_device_has_fd(3) [OF i(2) p]], of i]
    obtain r v where v: "started i u1 = Some (r, v)" "process_ok held pins v"
      "\<And>y. r = Some y \<Longrightarrow> Q y \<and> holds_device held pins f u i v"
      by (auto simp: runs_iff)
    with False show ?thesis by (cases r) (simp_all add: create and_then_def i(1))
  qed
qed

lemma restored_and_then:
  assumes "runs m (\<lambda>(r, v). process_ok held pins v \<and> (\<forall>x. r = Some x \<longrightarrow> P x v))"
    and "\<And>x v. P x v \<Longrightarrow> runs (k x v) (restored held pins u)"
  shows "runs (and_then m k) (restored held pins u)"
  using assms by (auto simp: runs_iff and_then_def restored_def split: option.splits)

lemmas keeps_rules = keeps_and_then keeps_branch keeps_result undisturbed_failure undisturbed_print [THEN iffD2]

lemma and_then_assoc: "and_then (and_then m k) l = and_then m (\<lambda>x s. and_then (k x s) l)"
  by (cases m) (auto simp: and_then_def split: option.split)

lemma restored_call:
  assumes "keeps held pins R v m" and "holds_device held pins f u1 i v"
    and "\<And>x w. holds_device held pins f u1 i w \<Longrightarrow> runs (k x w) (restored held pins u)"
  shows "runs (and_then m k) (restored held pins u)"
  using keeps_device [OF assms(2,1)] by (rule restored_and_then) (use assms(3) in blast)

lemma destroy_and_close:
  fixes u :: "(vfs, 'a) uproc_scheme"
  assumes o: "opened_from p f u u1" and v: "holds_device held pins f u1 i v" and i: "i \<noteq> 0" and code: "code = EXIT_SUCCESS \<or> code = EXIT_FAILURE"
  shows "runs (and_then (virtusb_device_destroy_lib (kernel_calls mem xa_mem waits nodes) (Some p) i True v)
    (\<lambda>_ s. do { s \<leftarrow> virtusb_close (kernel_calls mem xa_mem waits nodes) (Some p) s; Some (Some code, s) })) (restored held pins u)"
proof -
  note v0 = holds_device_has_fd(1) [OF v]
  from v i obtain c where "live f c (below v)" by (rule holds_device_live)
  from v0 holds_device_has_fd(3) [OF v opened_from_handle [OF o]] this i obtain r z where
    z: "virtusb_device_destroy_lib (kernel_calls mem xa_mem waits nodes) (Some p) i True v = Some (Some r, z)"
      "stays held pins v z" "devices z = devices v - {i}" by (rule destroy_call_ok)
  show ?thesis
    unfolding z(1) and_then_Some
    by (rule close_call_ok [OF o holds_device_destroyed [OF v i undisturbed_refl [OF v0] z(2,3)] code])
qed

end
