(* ===== verification/Virtusb_Test_Props.thy ===== *)
theory Virtusb_Test_Props
  imports Virtusb_Test_Calls
begin

text \<open>
  The test device on top of libvirtusb and the driver: every run of it takes down what it set up.
\<close>

section \<open>Answering requests\<close>

lemma get_le16_ok: "2 \<le> length data \<Longrightarrow> get_le16 data = Some (ucast (data ! 0) OR push_bit 8 (ucast (data ! 1)))"
  by (auto simp: get_le16_def nth_opt_def)

lemma setup_bytes:
  assumes "length (rq_setup request) = 8"
  shows "nth_opt (rq_setup request) 0 = Some (rq_setup request ! 0)" "nth_opt (rq_setup request) 1 = Some (rq_setup request ! 1)"
    "get_le16 (drop 2 (rq_setup request)) = Some (ucast (rq_setup request ! 2) OR push_bit 8 (ucast (rq_setup request ! 3)))"
    "\<exists>shown. setup_text request = Some shown"
  using assms by (auto simp: nth_opt_def get_le16_ok setup_text_def)

lemma complete_data_steady:
  assumes u: "process_ok held pins u" and p: "has_handle p f u" and n: "n \<le> length data" "n \<le> 4096"
    and waits: "\<forall>(ret, step) \<in> set waits. quiet_step held pins step"
  shows "steady held pins u (complete_data (kernel_calls mem xa_mem waits nodes) (Some p) request data n u)"
proof -
  let ?n = "if n > unat (rq_requested_length request) then unat (rq_requested_length request) else n"
  have le: "?n \<le> n" by simp
  with n have "unat (word_of_nat ?n :: u32) = ?n" by (simp add: unsigned_of_nat take_bit_nat_eq_self del: if_split)
  then show ?thesis
    unfolding complete_data_def Let_def using n le
    by (intro complete_steady [OF u p _ _ waits]) (auto simp: word_le_nat_alt)
qed
lemma handle_control_transfer_steady:
  fixes u :: "(vfs, 'a) terminal_scheme"
  assumes u: "process_ok held pins u" and p: "has_handle p f u" and rq: "length (rq_setup request) = 8"
    and waits: "\<forall>(ret, step) \<in> set waits. quiet_step held pins step"
  shows "steady held pins u (handle_control_transfer (kernel_calls mem xa_mem waits nodes) (Some p) request u)"
proof -
  note bytes = setup_bytes [OF rq]
  obtain shown where shown: "setup_text request = Some shown" using bytes(4) by blast
  let ?u = "printf shown u"
  have print: "undisturbed held pins u ?u" by (simp add: undisturbed_print undisturbed_refl [OF u])
  note u' = undisturbedD(1) [OF print] and p' = undisturbedD(4) [OF print p]
  have complete: "steady held pins ?u (virtusb_transfer_complete_lib (kernel_calls mem xa_mem waits nodes) (Some p) i st None 0 ?u)" for i st
    by (rule complete_steady [OF u' p' _ _ waits]) simp_all
  have send: "steady held pins ?u (complete_data (kernel_calls mem xa_mem waits nodes) (Some p) request data n ?u)"
    if "n \<le> length data" "n \<le> 4096" for data n
    by (rule complete_data_steady [OF u' p' that waits])
  have invalid: "steady held pins u (virtusb_transfer_complete_lib (kernel_calls mem xa_mem waits nodes) (Some p) (rq_id request) (- EINVAL) None 0 u)"
    by (rule complete_steady [OF u p _ _ waits]) simp_all
  show ?thesis
    unfolding handle_control_transfer_def Let_def bytes(1-3) shown Option.bind_lunit
    by (rule steady_branch [OF invalid], intro steady_branch impI conjI steady_from [OF print] complete send; simp add: device_descriptor_def configuration_descriptor_def)
qed

lemma serve_request_steady:
  fixes u :: "(vfs, 'a) terminal_scheme"
  assumes u: "process_ok held pins u" and p: "has_handle p f u" and rq: "length (rq_setup request) = 8"
    and waits: "\<forall>(ret, step) \<in> set waits. quiet_step held pins step"
  shows "steady held pins u (serve_request (kernel_calls mem xa_mem waits nodes) (Some p) object_id request u)"
  unfolding serve_request_def
  by (intro steady_branch handle_control_transfer_steady [OF u p rq waits] complete_steady [OF u p _ _ waits]) simp_all

lemma serve_loop_keeps:
  fixes u :: "(vfs, 'a) terminal_scheme"
  assumes u: "process_ok held pins u" and p: "has_handle p f u" and env: "env_sys env = kernel_calls mem xa_mem waits nodes"
    and waits: "\<forall>(ret, step) \<in> set waits. quiet_step held pins step"
  shows "keeps held pins (\<lambda>code. code = EXIT_SUCCESS \<or> code = EXIT_FAILURE) u (serve_loop env (Some p) object_id signals stop u)"
  using u p
proof (induction signals arbitrary: stop u)
  case Nil
  then show ?case by (simp add: undisturbed_refl keeps_sleep)
next
  case (Cons signal signals)
  note u = Cons.prems(1) and p = Cons.prems(2)
  have loop: "keeps held pins (\<lambda>code. code = EXIT_SUCCESS \<or> code = EXIT_FAILURE) u1 (serve_loop env (Some p) object_id signals stop u2)"
    if "undisturbed held pins u u1" "undisturbed held pins u1 u2" for u1 u2 stop
    using Cons.IH [OF undisturbedD(1) undisturbedD(4)] undisturbed_trans that p keeps_from by metis
  have serve: "keeps held pins (\<lambda>_. True) u1 (serve_request (env_sys env) (Some p) object_id rq u1)"
    if "undisturbed held pins u u1" "length (rq_setup rq) = 8" for rq u1
    unfolding env
    by (rule keeps_steady [OF undisturbed_refl [OF undisturbedD(1) [OF that(1)]]
          serve_request_steady [OF undisturbedD(1) [OF that(1)] undisturbedD(4) [OF that(1) p] that(2) waits]])
  have body: "keeps held pins (\<lambda>code. code = EXIT_SUCCESS \<or> code = EXIT_FAILURE) u1
      (if ret < 0 then Some (Some EXIT_FAILURE, failure env ''transfer fetch'' ret u1)
       else do { request \<leftarrow> request; and_then (serve_request (env_sys env) (Some p) object_id request u1) (\<lambda>ret s.
               if ret < 0 then Some (Some EXIT_FAILURE, failure env ''transfer complete'' ret s)
               else serve_loop env (Some p) object_id signals stop s) })"
    if u1: "undisturbed held pins u u1" and request: "0 \<le> ret \<longrightarrow> (\<exists>rq. request = Some rq \<and> length (rq_setup rq) = 8)" for u1 ret request stop
  proof (cases "ret < 0")
    case True
    then show ?thesis by (auto intro!: keeps_result undisturbed_failure undisturbed_refl [OF undisturbedD(1) [OF u1]])
  next
    case False
    with request obtain rq where rq: "request = Some rq" "length (rq_setup rq) = 8" by auto
    show ?thesis
      unfolding rq(1) Option.bind_lunit if_not_P [OF False]
      by (rule keeps_and_then [OF serve [OF u1 rq(2)]]) (auto intro!: keeps_result undisturbed_failure loop [OF u1])
  qed
  have fetched: "keeps held pins (\<lambda>code. code = EXIT_SUCCESS \<or> code = EXIT_FAILURE) u
      (and_then (virtusb_transfer_fetch_lib (env_sys env) (Some p) True u) (\<lambda>(ret, request) s.
           if ret = - EINTR then serve_loop env (Some p) object_id signals stop s
           else if ret < 0 then Some (Some EXIT_FAILURE, failure env ''transfer fetch'' ret s)
           else do { request \<leftarrow> request; and_then (serve_request (env_sys env) (Some p) object_id request s) (\<lambda>ret s.
               if ret < 0 then Some (Some EXIT_FAILURE, failure env ''transfer complete'' ret s)
               else serve_loop env (Some p) object_id signals stop s) }))" for stop
  proof (rule keeps_and_then [OF fetch_call_ok [OF u p waits, of mem xa_mem nodes, folded env]], goal_cases)
    case (1 x u1)
    obtain ret request where x: "x = (ret, request)" by (cases x)
    have "keeps held pins (\<lambda>code. code = EXIT_SUCCESS \<or> code = EXIT_FAILURE) u1 (serve_loop env (Some p) object_id signals stop u1)"
      by (rule loop [OF 1(1) undisturbed_refl [OF undisturbedD(1) [OF 1(1)]]])
    moreover note body [OF 1(1), of ret request stop] 1(2)
    ultimately show ?case unfolding x split_conv by (intro keeps_branch keeps_from [OF 1(1)]) simp_all
  qed
  show ?case
    using fetched undisturbed_refl [OF u] by (auto simp: Let_def intro: keeps_result)
qed

section \<open>Runs of the test device\<close>


lemma test_device_started_keeps:
  fixes u :: "(vfs, 'a) terminal_scheme"
  assumes u: "process_ok held pins u" and p: "has_handle p f u" and env: "env_sys env = kernel_calls mem xa_mem waits nodes"
    and waits: "\<forall>(ret, step) \<in> set waits. quiet_step held pins step"
  shows "keeps held pins (\<lambda>code. code = EXIT_SUCCESS \<or> code = EXIT_FAILURE) u (test_device_started env signals port (Some p) i u)"
proof -
  note calls = simple_calls_keep [OF p waits, where mem = mem and xa_mem = xa_mem and nodes = nodes]
  have serve: "keeps held pins (\<lambda>code. code = EXIT_SUCCESS \<or> code = EXIT_FAILURE) u (serve_loop env (Some p) i signals False v)"
    if "undisturbed held pins u v" for v
    using keeps_from [OF that] serve_loop_keeps [OF undisturbedD(1) [OF that] undisturbedD(4) [OF that p] env waits] .
  show ?thesis
    unfolding test_device_started_def env Let_def
    by (rule keeps_rules calls serve undisturbed_refl [OF u] refl disjI2 | assumption)+
qed

lemma test_device_body_ok:
  fixes u :: "(vfs, 'a) terminal_scheme"
  assumes u: "process_ok held pins u" and p: "has_handle p f u" and env: "env_sys env = kernel_calls mem xa_mem waits nodes"
    and waits: "\<forall>(ret, step) \<in> set waits. quiet_step held pins step"
  shows "runs (test_device_body env signals port (Some p) u) (\<lambda>(r, v). process_ok held pins v \<and>
    (\<forall>x. r = Some x \<longrightarrow> (snd x = EXIT_SUCCESS \<or> snd x = EXIT_FAILURE) \<and> holds_device held pins f u (fst x) v))"
  unfolding test_device_body_def env
  by (rule create_and_start [OF u p]) (simp, rule test_device_started_keeps [OF _ _ env waits])

lemma test_device_out_ok:
  fixes u :: "(vfs, 'a) terminal_scheme"
  assumes o: "opened_from p f u u1" and v: "holds_device held pins f u1 i v" and code: "code = EXIT_SUCCESS \<or> code = EXIT_FAILURE"
    and waits: "\<forall>(ret, step) \<in> set waits. quiet_step held pins step"
  shows "runs (test_device_out (kernel_calls mem xa_mem waits nodes) (Some p) i code v) (restored held pins u)"
proof (cases "i = 0")
  case True
  with close_call_ok [OF o _ code] v show ?thesis by (simp add: test_device_out_def and_then_Some)
next
  case False
  let ?sys = "kernel_calls mem xa_mem waits nodes"
  have calls: "keeps held pins (\<lambda>_. True) w (virtusb_device_detach_lib ?sys (Some p) i w)"
    "keeps held pins (\<lambda>_. True) w (virtusb_device_set_connected ?sys (Some p) i False w)"
    "keeps held pins (\<lambda>_. True) w (virtusb_backend_unregister_lib ?sys (Some p) w)"
    if w: "holds_device held pins f u1 i w" for w
    by (rule simple_calls_keep [OF holds_device_has_fd(3) [OF w opened_from_handle [OF o]] waits undisturbed_refl [OF holds_device_has_fd(1) [OF w]]])+
  have out: "test_device_out ?sys (Some p) i code v =
      and_then (virtusb_device_set_connected ?sys (Some p) i False v) (\<lambda>_ s.
      and_then (virtusb_device_detach_lib ?sys (Some p) i s) (\<lambda>_ s.
      and_then (virtusb_backend_unregister_lib ?sys (Some p) s) (\<lambda>_ s.
      and_then (virtusb_device_destroy_lib ?sys (Some p) i True s) (\<lambda>_ s.
        do { s \<leftarrow> virtusb_close ?sys (Some p) s; Some (Some code, s) }))))"
    using False by (simp add: test_device_out_def and_then_assoc)
  show ?thesis
    unfolding out by (rule restored_call calls destroy_and_close [OF o _ False code] | assumption | rule v)+
qed

lemma test_device_run_ok:
  fixes u :: "(vfs, 'a) terminal_scheme"
  assumes u: "process_ok held pins u" and env: "runs_on env mem xa_mem waits nodes u"
    and waits: "\<forall>(ret, step) \<in> set waits. quiet_step held pins step"
  shows "runs (test_device_run env inst port u) (restored held pins u)"
proof (cases "env_sigaction env = 0")
  case False
  then show ?thesis using u by (simp add: test_device_run_def restored_def)
next
  case True
  have sys: "env_sys env = kernel_calls mem xa_mem waits nodes" using env by (simp add: runs_on_def)
  from u env obtain ret handle u1 where
    code: "virtusb_open (env_sys env) (env_calloc env) inst True u = Some (ret, handle, u1)" and u1: "process_ok held pins u1"
    and res: "if ret < 0 then handle = None \<and> restored held pins u (Some EXIT_FAILURE, u1)
      else \<exists>p f. handle = Some p \<and> opened_from p f u u1"
    by (rule open_call_ok)
  show ?thesis
  proof (cases "ret < 0")
    case neg: True
    with res code True show ?thesis
      by (simp add: test_device_run_def test_device_out_def and_then_Some virtusb_close_def restored_def)
  next
    case False
    with res obtain p f where p: "handle = Some p" "opened_from p f u u1" by auto
    have "runs (and_then (test_device_body env (env_signals env) port (Some p) u1)
        (\<lambda>(i, e) s. test_device_out (kernel_calls mem xa_mem waits nodes) (Some p) i e s)) (restored held pins u)"
      using test_device_body_ok [OF u1 opened_from_handle [OF p(2)] sys waits]
      by (rule restored_and_then) (auto intro: test_device_out_ok [OF p(2) _ _ waits])
    with False True code p(1) show ?thesis by (simp add: test_device_run_def sys)
  qed
qed

lemma test_device_main_ok:
  fixes u :: "(vfs, 'a) terminal_scheme"
  assumes u: "process_ok held pins u" and env: "runs_on env mem xa_mem waits nodes u"
    and waits: "\<forall>(ret, step) \<in> set waits. quiet_step held pins step"
  shows "runs (test_device_main env program args u) (restored held pins u)"
proof -
  have stop: "restored held pins u (Some c, printf t u)" "restored held pins u (Some c, eprintf t u)"
    "restored held pins u (Some c, eprintf t (eprintf t' u))" if "c = EXIT_SUCCESS \<or> c = EXIT_FAILURE" for c t t'
    using u that by (auto simp: restored_def)
  note run = test_device_run_ok [OF u env waits]
  show ?thesis
    unfolding test_device_main_def Let_def
    by (auto simp: stop run split: list.split sum.split)
qed

end
