(* ===== verification/Virtusb_Test_Unregister.thy ===== *)
theory Virtusb_Test_Unregister
  imports Virtusb_Test_Device
begin

text \<open>
  \<open>tools/virtusb-test-backend-unregister/main.c\<close>: a device until the host has configured it, whose
  session is then ended and started again, with a look at the port before, between and after. The
  descriptors, \<open>get_le16\<close>, \<open>complete_data\<close> and the line printed for a request are those of the test
  device.
\<close>

section \<open>Requests\<close>

text \<open>The result is the return value and \<open>*configured\<close>.\<close>

definition unregister_handle_control_transfer ::
  "'k syscalls \<Rightarrow> nat option \<Rightarrow> virtusb_transfer_request \<Rightarrow> bool \<Rightarrow> ('k, 'a) terminal_scheme
     \<Rightarrow> ((int \<times> bool) option \<times> ('k, 'a) terminal_scheme) option" where
  "unregister_handle_control_transfer sys handle request configured s =
     (let complete = (\<lambda>st s. and_then (virtusb_transfer_complete_lib sys handle (rq_id request) st None 0 s)
                               (\<lambda>ret s. Some (Some (ret, configured), s)));
          data = (\<lambda>data length1 s. and_then (complete_data sys handle request data length1 s)
                                     (\<lambda>ret s. Some (Some (ret, configured), s)))
      in if \<not> rq_has_setup request then complete (- EINVAL) s
      else do {
        request_type \<leftarrow> nth_opt (rq_setup request) 0;
        usb_request \<leftarrow> nth_opt (rq_setup request) 1;
        value2 \<leftarrow> get_le16 (drop 2 (rq_setup request));
        text \<leftarrow> setup_text request;
        let s = printf text s;
        let descriptor_type = (ucast (drop_bit 8 value2) :: u8);
        if request_type AND USB_TYPE_MASK \<noteq> USB_TYPE_STANDARD then complete (- EPIPE) s
        else if usb_request = USB_REQ_GET_DESCRIPTOR then
          (if request_type AND USB_DIR_IN \<noteq> 0 \<and> descriptor_type = USB_DT_DEVICE
           then data device_descriptor (length device_descriptor) s
           else if request_type AND USB_DIR_IN \<noteq> 0 \<and> descriptor_type = USB_DT_CONFIG
           then data configuration_descriptor (length configuration_descriptor) s
           else complete (- EPIPE) s)
        else if usb_request = USB_REQ_SET_ADDRESS then
          (if request_type AND USB_DIR_IN = 0 then complete 0 s else complete (- EPIPE) s)
        else if usb_request = USB_REQ_SET_CONFIGURATION then
          (if request_type AND USB_DIR_IN = 0
           then and_then (virtusb_transfer_complete_lib sys handle (rq_id request) 0 None 0 s)
                  (\<lambda>ret s. Some (Some (ret, if ret = 0 then True else configured), s))
           else complete (- EPIPE) s)
        else if usb_request = USB_REQ_GET_CONFIGURATION then
          (if request_type AND (USB_DIR_IN OR USB_RECIP_MASK) = USB_DIR_IN OR USB_RECIP_DEVICE
           then data [1, 0] 1 s else complete (- EPIPE) s)
        else if usb_request = USB_REQ_GET_STATUS then
          (if request_type AND USB_DIR_IN \<noteq> 0 then data [0, 0] 2 s else complete (- EPIPE) s)
        else complete (- EPIPE) s
      })"

text \<open>One turn of the loop with a request, lines 203 to 208.\<close>

definition unregister_serve ::
  "'k syscalls \<Rightarrow> nat option \<Rightarrow> u32 \<Rightarrow> virtusb_transfer_request \<Rightarrow> bool \<Rightarrow> ('k, 'a) terminal_scheme
     \<Rightarrow> ((int \<times> bool) option \<times> ('k, 'a) terminal_scheme) option" where
  "unregister_serve sys handle object_id request configured s =
     (if rq_object_id request \<noteq> object_id \<or> rq_type request \<noteq> VIRTUSB_TRANSFER_CONTROL \<or> rq_endpoint request \<noteq> 0
      then and_then (virtusb_transfer_complete_lib sys handle (rq_id request) (- EPIPE) None 0 s)
             (\<lambda>ret s. Some (Some (ret, configured), s))
      else unregister_handle_control_transfer sys handle request configured s)"

section \<open>The port\<close>

fun virtusb_speed_number :: "virtusb_speed \<Rightarrow> u32" where
  "virtusb_speed_number VIRTUSB_SPEED_NONE = 0"
| "virtusb_speed_number VIRTUSB_SPEED_LOW = 1"
| "virtusb_speed_number VIRTUSB_SPEED_FULL = 2"
| "virtusb_speed_number VIRTUSB_SPEED_HIGH = 3"

definition verify_port :: "'k syscalls \<Rightarrow> nat option \<Rightarrow> u32 \<Rightarrow> ('k, 'a) terminal_scheme \<Rightarrow> (int option \<times> ('k, 'a) terminal_scheme) option" where
  "verify_port sys handle port s =
     and_then (virtusb_get_port_status sys handle 0 port True s) (\<lambda>(ret, status) s.
       if ret < 0 then Some (Some ret, s)
       else do {
         status \<leftarrow> status;
         let required = VIRTUSB_STATUS_CONNECTED OR VIRTUSB_STATUS_ENABLED OR VIRTUSB_STATUS_POWER;
         let s = printf (''port '' @ print_u port @ '' status=0x'' @ print_x 8 (st_status (vs_state status)) @
                         '' speed='' @ print_u (virtusb_speed_number (st_speed (vs_state status))) @ newline) s;
         if st_status (vs_state status) AND required \<noteq> required then Some (Some (- EIO), s)
         else Some (Some 0, s)
       })"

section \<open>The program\<close>

text \<open>
  The loop, for at most \<open>rounds\<close> requests; the program is still running where they end. The result
  tells whether the loop ended with the configuration or with a failure.
\<close>

fun configure_loop ::
  "('k, 'b) environment_scheme \<Rightarrow> nat option \<Rightarrow> u32 \<Rightarrow> nat \<Rightarrow> bool \<Rightarrow> ('k, 'a) terminal_scheme
     \<Rightarrow> (bool option \<times> ('k, 'a) terminal_scheme) option" where
  "configure_loop env handle object_id rounds True s = Some (Some True, s)"
| "configure_loop env handle object_id 0 False s = Some (None, s)"
| "configure_loop env handle object_id (Suc rounds) False s =
     and_then (virtusb_transfer_fetch_lib (env_sys env) handle True s) (\<lambda>(ret, request) s.
       if ret < 0 then Some (Some False, failure env ''transfer fetch'' ret s)
       else do {
         request \<leftarrow> request;
         and_then (unregister_serve (env_sys env) handle object_id request False s) (\<lambda>(ret, configured) s.
           if ret < 0 then Some (Some False, failure env ''transfer complete'' ret s)
           else configure_loop env handle object_id rounds configured s)
       })"

text \<open>
  What follows the loop. The result is \<open>registered\<close> and the exit code at the label \<open>out\<close>.
\<close>

definition reregister_session ::
  "('k, 'b) environment_scheme \<Rightarrow> nat option \<Rightarrow> u32 \<Rightarrow> ('k, 'a) terminal_scheme
     \<Rightarrow> ((bool \<times> int) option \<times> ('k, 'a) terminal_scheme) option" where
  "reregister_session env handle object_id s =
     (let fail = (\<lambda>registered what ret s. Some (Some (registered, EXIT_FAILURE), failure env what ret s))
      in and_then (verify_port (env_sys env) handle 1 s) (\<lambda>ret s.
        if ret < 0 then fail True ''port state before unregister is invalid'' ret s
        else and_then (virtusb_backend_unregister_lib (env_sys env) handle s) (\<lambda>ret s.
          if ret < 0 then fail True ''backend unregister'' ret s
          else and_then (verify_port (env_sys env) handle 1 s) (\<lambda>ret s.
            if ret < 0 then fail False ''port state changed by backend unregister'' ret s
            else and_then (virtusb_backend_register_lib (env_sys env) handle object_id s) (\<lambda>ret s.
              if ret < 0 then fail False ''backend re-register'' ret s
              else and_then (verify_port (env_sys env) handle 1 s) (\<lambda>ret s.
                if ret < 0 then fail True ''port state changed by backend re-register'' ret s
                else Some (Some (True, EXIT_SUCCESS), printf
                  (''PASS: backend unregister/re-register did not change attachment or connection state'' @ newline) s)))))))"

text \<open>With the device created, up to \<open>out\<close>: \<open>registered\<close> and the exit code.\<close>

definition unregister_started ::
  "('k, 'b) environment_scheme \<Rightarrow> nat \<Rightarrow> nat option \<Rightarrow> u32 \<Rightarrow> ('k, 'a) terminal_scheme
     \<Rightarrow> ((bool \<times> int) option \<times> ('k, 'a) terminal_scheme) option" where
  "unregister_started env rounds handle object_id s =
     (let fail = (\<lambda>registered what ret s. Some (Some (registered, EXIT_FAILURE), failure env what ret s))
      in and_then (virtusb_device_attach_lib (env_sys env) handle object_id 0 1 s) (\<lambda>ret s.
        if ret < 0 then fail False ''device attach'' ret s
        else and_then (virtusb_backend_register_lib (env_sys env) handle object_id s) (\<lambda>ret s.
          if ret < 0 then fail False ''backend register'' ret s
          else and_then (virtusb_device_set_connected (env_sys env) handle object_id True s) (\<lambda>ret s.
            if ret < 0 then fail True ''device connect'' ret s
            else and_then (configure_loop env handle object_id rounds False s) (\<lambda>configured s.
              if \<not> configured then Some (Some (True, EXIT_FAILURE), s)
              else reregister_session env handle object_id s)))))"

text \<open>From the open controller to \<open>out\<close>: the object ID, \<open>registered\<close> and the exit code.\<close>

definition unregister_body ::
  "('k, 'b) environment_scheme \<Rightarrow> nat \<Rightarrow> nat option \<Rightarrow> ('k, 'a) terminal_scheme
     \<Rightarrow> ((u32 \<times> bool \<times> int) option \<times> ('k, 'a) terminal_scheme) option" where
  "unregister_body env rounds handle s =
     and_then (virtusb_device_create_lib (env_sys env) handle VIRTUSB_DEVICE_SPEED_FULL True s) (\<lambda>(ret, object_id) s.
       if ret < 0 then Some (Some (VIRTUSB_INVALID_OBJECT_ID, False, EXIT_FAILURE), failure env ''device create'' ret s)
       else do {
         object_id \<leftarrow> object_id;
         and_then (unregister_started env rounds handle object_id s) (\<lambda>finished s.
           Some (Some (object_id, finished), s))
       })"

definition unregister_out ::
  "'k syscalls \<Rightarrow> nat option \<Rightarrow> u32 \<Rightarrow> bool \<Rightarrow> int \<Rightarrow> ('k, 'a) terminal_scheme \<Rightarrow> (int option \<times> ('k, 'a) terminal_scheme) option" where
  "unregister_out sys handle object_id registered exit_code s =
     (if handle = None then Some (Some exit_code, s)
      else and_then
        (if object_id \<noteq> VIRTUSB_INVALID_OBJECT_ID then
           and_then (virtusb_device_set_connected sys handle object_id False s) (\<lambda>_ s.
           and_then (virtusb_device_detach_lib sys handle object_id s) (\<lambda>_ s.
           and_then (if registered then virtusb_backend_unregister_lib sys handle s else Some (Some 0, s)) (\<lambda>_ s.
           virtusb_device_destroy_lib sys handle object_id True s)))
         else Some (Some 0, s))
        (\<lambda>_ s. do {
           s \<leftarrow> virtusb_close sys handle s;
           Some (Some exit_code, s)
         }))"

definition test_unregister_main ::
  "('k, 'b) environment_scheme \<Rightarrow> nat \<Rightarrow> ('k, 'a) terminal_scheme \<Rightarrow> (int option \<times> ('k, 'a) terminal_scheme) option" where
  "test_unregister_main env rounds s = do {
     (ret, handle, s) \<leftarrow> virtusb_open (env_sys env) (env_calloc env) 0 True s;
     if ret < 0
     then unregister_out (env_sys env) handle VIRTUSB_INVALID_OBJECT_ID False EXIT_FAILURE (failure env ''virtusb_open'' ret s)
     else and_then (unregister_body env rounds handle s) (\<lambda>(object_id, registered, exit_code) s.
       unregister_out (env_sys env) handle object_id registered exit_code s)
   }"

end
