(* ===== verification/Virtusb_Test_Unregister_Props.thy ===== *)
theory Virtusb_Test_Unregister_Props
  imports Virtusb_Test_Props Virtusb_Test_Unregister
begin

text \<open>
  The test of ending and starting a session: every run of it takes down what it set up.
\<close>

section \<open>Requests and port status\<close>

lemma keeps_complete:
  assumes u: "process_ok held pins u" and p: "has_handle p f u" and v: "undisturbed held pins u v"
    and waits: "\<forall>(ret, step) \<in> set waits. quiet_step held pins step"
  shows "keeps held pins (\<lambda>_. True) u (virtusb_transfer_complete_lib (kernel_calls mem xa_mem waits nodes) (Some p) i st None 0 v)"
    and "n \<le> length data \<Longrightarrow> n \<le> 4096 \<Longrightarrow>
      keeps held pins (\<lambda>_. True) u (complete_data (kernel_calls mem xa_mem waits nodes) (Some p) request data n v)"
  by (rule keeps_steady [OF v] complete_steady [OF undisturbedD(1) [OF v] undisturbedD(4) [OF v p] _ _ waits]
      complete_data_steady [OF undisturbedD(1) [OF v] undisturbedD(4) [OF v p] _ _ waits] | simp)+

lemma unregister_handle_keeps:
  fixes u :: "(vfs, 'a) terminal_scheme"
  assumes u: "process_ok held pins u" and p: "has_handle p f u" and rq: "length (rq_setup request) = 8"
    and waits: "\<forall>(ret, step) \<in> set waits. quiet_step held pins step"
  shows "keeps held pins (\<lambda>_. True) u (unregister_handle_control_transfer (kernel_calls mem xa_mem waits nodes) (Some p) request configured u)"
proof -
  note bytes = setup_bytes [OF rq]
  obtain shown where shown: "setup_text request = Some shown" using bytes(4) by blast
  have lengths: "length device_descriptor \<le> 4096" "length configuration_descriptor \<le> 4096" "(1 :: nat) \<le> length [1, 0 :: u8]"
    "(2 :: nat) \<le> length [0, 0 :: u8]" "(1 :: nat) \<le> 4096" "(2 :: nat) \<le> 4096"
    by (simp_all add: device_descriptor_def configuration_descriptor_def)
  show ?thesis
    unfolding unregister_handle_control_transfer_def Let_def bytes(1-3) shown Option.bind_lunit
    by (rule keeps_rules keeps_complete [OF u p _ waits] lengths order_refl undisturbed_refl [OF u] TrueI | assumption)+
qed

lemma unregister_serve_keeps:
  fixes u :: "(vfs, 'a) terminal_scheme"
  assumes u: "process_ok held pins u" and p: "has_handle p f u" and rq: "length (rq_setup request) = 8"
    and waits: "\<forall>(ret, step) \<in> set waits. quiet_step held pins step"
  shows "keeps held pins (\<lambda>_. True) u (unregister_serve (kernel_calls mem xa_mem waits nodes) (Some p) object_id request configured u)"
  unfolding unregister_serve_def
  by (rule keeps_rules unregister_handle_keeps [OF u p rq waits] keeps_complete [OF u p _ waits] undisturbed_refl [OF u] TrueI | assumption)+

lemma status_call_keeps:
  fixes u :: "(vfs, 'a) uproc_scheme"
  assumes u: "process_ok held pins u" and p: "has_handle p f u" and waits: "\<forall>(ret, step) \<in> set waits. quiet_step held pins step"
  shows "keeps held pins (\<lambda>(ret, status). 0 \<le> ret \<longrightarrow> status \<noteq> None) u
    (virtusb_get_port_status (kernel_calls mem xa_mem waits nodes) (Some p) 0 port True u)"
proof -
  let ?r = "\<lparr>pst_hub_id = 0, pst_port = port, pst_port_count = 0, pst_state = zero_port_state,
     pst_ports = replicate VIRTUSB_MAX_HUB_PORTS zero_port_state\<rparr>"
  let ?argp = "no_memory\<lparr>um_port_status := Some ?r\<rparr>"
  from has_handle_file [OF p] obtain fl where fl: "load_file f (below u) = Some fl" by blast
  have wf: "control_wf held pins (below u)" using u by (simp add: process_ok_def)
  have sized: "completions_sized ?argp" by (simp add: completions_sized_def no_memory_def)
  obtain ret out s where code: "virtusb_control_ioctl mem xa_mem waits f VIRTUSB_IOCTL_GET_PORT_STATUS ?argp (below u) = Some (Some (ret, out), s)"
    and s: "undisturbed held pins u (on_kernel s u)"
    by (rule plain_control_ioctl_ok [OF u fl sized _ waits, of VIRTUSB_IOCTL_GET_PORT_STATUS mem xa_mem]) simp_all
  show ?thesis
  proof (cases "ret < 0")
    case True
    with s show ?thesis by (simp add: virtusb_get_port_status_def Let_def with_ioctl_on [OF p] code keeps_def)
  next
    case False
    have um: "um_port_status ?argp = Some ?r" by simp
    from status_query_sized [OF wf fl um code] False obtain r' where r': "out = Some (User_port_status r')" "length (pst_ports r') = 31"
      by (metis not_less)
    obtain ports where "copy_port_states [0..<min (unat (pst_port_count r')) 31] (pst_ports r') (replicate 31 zero_state) = Some ports"
      by (rule copy_all_ports [OF r'(2)])
    with False s r'(1) show ?thesis
      by (simp add: virtusb_get_port_status_def Let_def with_ioctl_on [OF p] code keeps_def)
  qed
qed

lemma verify_port_keeps:
  fixes u :: "(vfs, 'a) terminal_scheme"
  assumes u: "process_ok held pins u" and p: "has_handle p f u" and waits: "\<forall>(ret, step) \<in> set waits. quiet_step held pins step"
  shows "keeps held pins (\<lambda>_. True) u (verify_port (kernel_calls mem xa_mem waits nodes) (Some p) port u)"
  unfolding verify_port_def
proof (rule keeps_and_then [OF status_call_keeps [OF u p waits]], goal_cases)
  case (1 x v)
  obtain ret status where x: "x = (ret, status)" by (cases x)
  show ?case
  proof (cases "ret < 0")
    case True
    with 1(1) show ?thesis by (simp add: x keeps_result)
  next
    case False
    with 1(2) obtain st where "status = Some st" by (auto simp: x)
    with False 1(1) show ?thesis by (simp add: x Let_def keeps_result undisturbed_print)
  qed
qed

section \<open>Runs of the program\<close>

lemma configure_loop_keeps:
  fixes u :: "(vfs, 'a) terminal_scheme"
  assumes u: "process_ok held pins u" and p: "has_handle p f u" and env: "env_sys env = kernel_calls mem xa_mem waits nodes"
    and waits: "\<forall>(ret, step) \<in> set waits. quiet_step held pins step"
  shows "keeps held pins (\<lambda>_. True) u (configure_loop env (Some p) object_id rounds configured u)"
  using u p
proof (induction rounds arbitrary: configured u)
  case 0
  then show ?case by (cases configured) (simp_all add: keeps_result keeps_sleep undisturbed_refl)
next
  case (Suc rounds)
  note u = Suc.prems(1) and p = Suc.prems(2)
  have loop: "keeps held pins (\<lambda>_. True) u (configure_loop env (Some p) object_id rounds configured v)" if "undisturbed held pins u v" for v configured
    using keeps_from [OF that] Suc.IH [OF undisturbedD(1) [OF that] undisturbedD(4) [OF that p]] .
  have serve: "keeps held pins (\<lambda>_. True) u (unregister_serve (env_sys env) (Some p) object_id rq False v)"
    if "undisturbed held pins u v" "length (rq_setup rq) = 8" for v rq
    unfolding env
    using keeps_from [OF that(1)] unregister_serve_keeps [OF undisturbedD(1) [OF that(1)] undisturbedD(4) [OF that(1) p] that(2) waits] .
  show ?case
  proof (cases configured)
    case True
    then show ?thesis by (simp add: keeps_result undisturbed_refl [OF u])
  next
    case False
    have "keeps held pins (\<lambda>_. True) u (configure_loop env (Some p) object_id (Suc rounds) False u)"
      unfolding configure_loop.simps
    proof (rule keeps_and_then [OF fetch_call_ok [OF u p waits, of mem xa_mem nodes, folded env]], goal_cases)
      case (1 x v)
      obtain ret request where x: "x = (ret, request)" by (cases x)
      show ?case
      proof (cases "ret < 0")
        case True
        with 1(1) show ?thesis by (auto simp: x intro!: keeps_result undisturbed_failure)
      next
        case False
        with 1(2) obtain rq where rq: "request = Some rq" "length (rq_setup rq) = 8" by (auto simp: x)
        show ?thesis
          unfolding x split_conv if_not_P [OF False] rq(1) Option.bind_lunit
          by (rule keeps_and_then [OF serve [OF 1(1) rq(2)]]) (auto intro!: keeps_result undisturbed_failure loop)
      qed
    qed
    with False show ?thesis by simp
  qed
qed

lemma reregister_session_keeps:
  fixes u :: "(vfs, 'a) terminal_scheme"
  assumes u: "process_ok held pins u" and p: "has_handle p f u" and env: "env_sys env = kernel_calls mem xa_mem waits nodes"
    and waits: "\<forall>(ret, step) \<in> set waits. quiet_step held pins step"
  shows "keeps held pins (\<lambda>(registered, code). code = EXIT_SUCCESS \<or> code = EXIT_FAILURE) u (reregister_session env (Some p) i u)"
proof -
  have verify: "keeps held pins (\<lambda>_. True) u (verify_port (kernel_calls mem xa_mem waits nodes) (Some p) port v)"
    if "undisturbed held pins u v" for v port
    using keeps_from [OF that] verify_port_keeps [OF undisturbedD(1) [OF that] undisturbedD(4) [OF that p] waits] .
  have ok: "case (registered :: bool, code) of (registered, code) \<Rightarrow> code = EXIT_SUCCESS \<or> code = EXIT_FAILURE"
    if "code = EXIT_SUCCESS \<or> code = EXIT_FAILURE" for registered and code :: int using that by simp
  show ?thesis
    unfolding reregister_session_def env Let_def
    by (rule keeps_rules simple_calls_keep [OF p waits] verify ok undisturbed_refl [OF u] | assumption | simp)+
qed

lemma unregister_started_keeps:
  fixes u :: "(vfs, 'a) terminal_scheme"
  assumes u: "process_ok held pins u" and p: "has_handle p f u" and env: "env_sys env = kernel_calls mem xa_mem waits nodes"
    and waits: "\<forall>(ret, step) \<in> set waits. quiet_step held pins step"
  shows "keeps held pins (\<lambda>(registered, code). code = EXIT_SUCCESS \<or> code = EXIT_FAILURE) u (unregister_started env rounds (Some p) i u)"
proof -
  have loop: "keeps held pins (\<lambda>_. True) u (configure_loop env (Some p) i rounds False v)" if "undisturbed held pins u v" for v
    using keeps_from [OF that] configure_loop_keeps [OF undisturbedD(1) [OF that] undisturbedD(4) [OF that p] env waits] .
  have again: "keeps held pins (\<lambda>(registered, code). code = EXIT_SUCCESS \<or> code = EXIT_FAILURE) u (reregister_session env (Some p) i v)"
    if "undisturbed held pins u v" for v
    using keeps_from [OF that] reregister_session_keeps [OF undisturbedD(1) [OF that] undisturbedD(4) [OF that p] env waits] .
  have ok: "case (registered :: bool, EXIT_FAILURE) of (registered, code) \<Rightarrow> code = EXIT_SUCCESS \<or> code = EXIT_FAILURE" for registered by simp
  show ?thesis
    unfolding unregister_started_def env Let_def
    by (rule keeps_rules simple_calls_keep [OF p waits] loop again ok undisturbed_refl [OF u] | assumption)+
qed

lemma unregister_out_ok:
  fixes u :: "(vfs, 'a) terminal_scheme"
  assumes o: "opened_from p f u u1" and v: "holds_device held pins f u1 i v" and code: "code = EXIT_SUCCESS \<or> code = EXIT_FAILURE"
    and waits: "\<forall>(ret, step) \<in> set waits. quiet_step held pins step"
  shows "runs (unregister_out (kernel_calls mem xa_mem waits nodes) (Some p) i reg code v) (restored held pins u)"
proof (cases "i = 0")
  case True
  with close_call_ok [OF o _ code] v show ?thesis by (simp add: unregister_out_def and_then_Some)
next
  case False
  let ?sys = "kernel_calls mem xa_mem waits nodes"
  have calls: "keeps held pins (\<lambda>_. True) w (virtusb_device_detach_lib ?sys (Some p) i w)"
    "keeps held pins (\<lambda>_. True) w (virtusb_device_set_connected ?sys (Some p) i False w)"
    "keeps held pins (\<lambda>_. True) w (if reg then virtusb_backend_unregister_lib ?sys (Some p) w else Some (Some 0, w))"
    if w: "holds_device held pins f u1 i w" for w
    by (rule simple_calls_keep [OF holds_device_has_fd(3) [OF w opened_from_handle [OF o]] waits] keeps_branch keeps_result
        undisturbed_refl [OF holds_device_has_fd(1) [OF w]] TrueI)+
  have out: "unregister_out ?sys (Some p) i reg code v =
      and_then (virtusb_device_set_connected ?sys (Some p) i False v) (\<lambda>_ s.
      and_then (virtusb_device_detach_lib ?sys (Some p) i s) (\<lambda>_ s.
      and_then (if reg then virtusb_backend_unregister_lib ?sys (Some p) s else Some (Some 0, s)) (\<lambda>_ s.
      and_then (virtusb_device_destroy_lib ?sys (Some p) i True s) (\<lambda>_ s.
        do { s \<leftarrow> virtusb_close ?sys (Some p) s; Some (Some code, s) }))))"
    using False by (simp add: unregister_out_def and_then_assoc)
  show ?thesis
    unfolding out by (rule restored_call calls destroy_and_close [OF o _ False code] | assumption | rule v)+
qed

lemma test_unregister_main_ok:
  fixes u :: "(vfs, 'a) terminal_scheme"
  assumes u: "process_ok held pins u" and env: "runs_on env mem xa_mem waits nodes u"
    and waits: "\<forall>(ret, step) \<in> set waits. quiet_step held pins step"
  shows "runs (test_unregister_main env rounds u) (restored held pins u)"
proof -
  have sys: "env_sys env = kernel_calls mem xa_mem waits nodes" using env by (simp add: runs_on_def)
  from u env obtain ret handle u1 where
    code: "virtusb_open (env_sys env) (env_calloc env) 0 True u = Some (ret, handle, u1)" and u1: "process_ok held pins u1"
    and res: "if ret < 0 then handle = None \<and> restored held pins u (Some EXIT_FAILURE, u1)
      else \<exists>p f. handle = Some p \<and> opened_from p f u u1"
    by (rule open_call_ok)
  show ?thesis
  proof (cases "ret < 0")
    case True
    with res code show ?thesis by (simp add: test_unregister_main_def unregister_out_def restored_def)
  next
    case False
    with res obtain p f where p: "handle = Some p" "opened_from p f u u1" by auto
    have "runs (unregister_body env rounds (Some p) u1) (\<lambda>(r, v). process_ok held pins v \<and> (\<forall>x. r = Some x \<longrightarrow>
        (case snd x of (reg, code) \<Rightarrow> code = EXIT_SUCCESS \<or> code = EXIT_FAILURE) \<and> holds_device held pins f u1 (fst x) v))"
      unfolding unregister_body_def sys
      by (rule create_and_start [OF u1 opened_from_handle [OF p(2)]])
         (simp, rule unregister_started_keeps [OF _ _ sys waits])
    then have "runs (and_then (unregister_body env rounds (Some p) u1) (\<lambda>(i, registered, e) s.
        unregister_out (kernel_calls mem xa_mem waits nodes) (Some p) i registered e s)) (restored held pins u)"
      by (rule restored_and_then) (auto intro: unregister_out_ok [OF p(2) _ _ waits])
    with False code p(1) show ?thesis by (simp add: test_unregister_main_def sys)
  qed
qed

end
