(* ===== verification/Virtusb_Test_Rollback.thy ===== *)
theory Virtusb_Test_Rollback
  imports Virtusb_Test_Device
begin

text \<open>
  \<open>tools/virtusb-test-fetch-rollback/main.c\<close>: a device on the bare descriptor of the control device. It
  fetches once into memory that does not exist, expects the request to come back, and serves it and
  what follows until the host has configured the device. The descriptors and \<open>get_le16\<close> are those of
  the test device.
\<close>

section \<open>Calls\<close>

text \<open>The result is what the C function returns, and the struct the kernel wrote, if it wrote one.\<close>

definition do_ioctl ::
  "'k syscalls \<Rightarrow> int \<Rightarrow> u32 \<Rightarrow> user_memory \<Rightarrow> ('k, 'a) uproc_scheme
     \<Rightarrow> ((int \<times> user_struct option) option \<times> ('k, 'a) uproc_scheme) option" where
  "do_ioctl sys fd command argument s = do {
     (result, k) \<leftarrow> sys_ioctl sys fd command argument (kern s);
     Some (map_option (\<lambda>(ret, errno, out). (if ret < 0 then - errno else 0, out)) result, s\<lparr>kern := k\<rparr>)
   }"

text \<open>An address that no memory is mapped to: NULL, and the 1 the test passes.\<close>

definition unmapped :: user_memory where
  "unmapped = no_memory\<lparr>um_writable := False\<rparr>"

definition complete_transfer ::
  "'k syscalls \<Rightarrow> int \<Rightarrow> u64 \<Rightarrow> int \<Rightarrow> u8 list option \<Rightarrow> nat \<Rightarrow> ('k, 'a) uproc_scheme
     \<Rightarrow> (int option \<times> ('k, 'a) uproc_scheme) option" where
  "complete_transfer sys fd transfer_id status data length1 s =
     (if length1 > VIRTUSB_TRANSFER_DATA_MAX then Some (Some (- EMSGSIZE), s)
      else do {
        let zeros = replicate VIRTUSB_TRANSFER_DATA_MAX 0;
        bytes \<leftarrow> (case data of
            Some buffer \<Rightarrow> if length1 > 0 then memcpy zeros buffer length1 else Some zeros
          | None \<Rightarrow> Some zeros);
        and_then (do_ioctl sys fd VIRTUSB_IOCTL_TRANSFER_COMPLETE (no_memory\<lparr>um_transfer_complete := Some
            \<lparr>tc_transfer_id = transfer_id, tc_status = status, tc_actual_length = word_of_nat length1, tc_data = bytes\<rparr>\<rparr>) s)
          (\<lambda>(ret, _) s. Some (Some ret, s))
      })"

definition rollback_complete_data ::
  "'k syscalls \<Rightarrow> int \<Rightarrow> virtusb_transfer_fetch \<Rightarrow> u8 list \<Rightarrow> nat \<Rightarrow> ('k, 'a) uproc_scheme
     \<Rightarrow> (int option \<times> ('k, 'a) uproc_scheme) option" where
  "rollback_complete_data sys fd request data length1 =
     (let length1 = (if length1 > unat (tf_requested_length request) then unat (tf_requested_length request) else length1)
      in complete_transfer sys fd (tf_transfer_id request) 0 (Some data) length1)"

section \<open>Requests\<close>

definition rollback_setup_text :: "virtusb_transfer_fetch \<Rightarrow> string option" where
  "rollback_setup_text request = do {
     request_type \<leftarrow> nth_opt (tf_setup request) 0;
     usb_request \<leftarrow> nth_opt (tf_setup request) 1;
     value2 \<leftarrow> get_le16 (drop 2 (tf_setup request));
     index2 \<leftarrow> get_le16 (drop 4 (tf_setup request));
     length2 \<leftarrow> get_le16 (drop 6 (tf_setup request));
     Some (''transfer='' @ print_llu (tf_transfer_id request) @ '' object='' @ print_u (tf_object_id request) @ '' setup='' @
       print_x 2 request_type @ '' '' @ print_x 2 usb_request @ '' '' @ print_x 4 value2 @ '' '' @ print_x 4 index2 @ '' '' @
       print_x 4 length2 @ newline)
   }"

text \<open>The result is the return value and \<open>*configured\<close>.\<close>

definition rollback_handle_control_transfer ::
  "'k syscalls \<Rightarrow> int \<Rightarrow> virtusb_transfer_fetch \<Rightarrow> bool \<Rightarrow> ('k, 'a) terminal_scheme
     \<Rightarrow> ((int \<times> bool) option \<times> ('k, 'a) terminal_scheme) option" where
  "rollback_handle_control_transfer sys fd request configured s =
     (let complete = (\<lambda>st s. and_then (complete_transfer sys fd (tf_transfer_id request) st None 0 s)
                               (\<lambda>ret s. Some (Some (ret, configured), s)));
          data = (\<lambda>data length1 s. and_then (rollback_complete_data sys fd request data length1 s)
                                     (\<lambda>ret s. Some (Some (ret, configured), s)))
      in if tf_has_setup request = 0 then complete (- EINVAL) s
      else do {
        request_type \<leftarrow> nth_opt (tf_setup request) 0;
        usb_request \<leftarrow> nth_opt (tf_setup request) 1;
        value2 \<leftarrow> get_le16 (drop 2 (tf_setup request));
        text \<leftarrow> rollback_setup_text request;
        let s = printf text s;
        let descriptor_type = (ucast (drop_bit 8 value2) :: u8);
        if request_type AND USB_TYPE_MASK \<noteq> USB_TYPE_STANDARD then complete (- EPIPE) s
        else if usb_request = USB_REQ_GET_DESCRIPTOR then
          (if request_type AND USB_DIR_IN \<noteq> 0 \<and> descriptor_type = USB_DT_DEVICE
           then data device_descriptor (length device_descriptor) s
           else if request_type AND USB_DIR_IN \<noteq> 0 \<and> descriptor_type = USB_DT_CONFIG
           then data configuration_descriptor (length configuration_descriptor) s
           else complete (- EPIPE) s)
        else if usb_request = USB_REQ_SET_ADDRESS then
          (if request_type AND USB_DIR_IN = 0 then complete 0 s else complete (- EPIPE) s)
        else if usb_request = USB_REQ_SET_CONFIGURATION then
          (if request_type AND USB_DIR_IN = 0
           then and_then (complete_transfer sys fd (tf_transfer_id request) 0 None 0 s)
                  (\<lambda>ret s. Some (Some (ret, if ret = 0 then True else configured), s))
           else complete (- EPIPE) s)
        else if usb_request = USB_REQ_GET_CONFIGURATION then
          (if request_type AND (USB_DIR_IN OR USB_RECIP_MASK) = USB_DIR_IN OR USB_RECIP_DEVICE
           then data [1, 0] 1 s else complete (- EPIPE) s)
        else if usb_request = USB_REQ_GET_STATUS then
          (if request_type AND USB_DIR_IN \<noteq> 0 then data [0, 0] 2 s else complete (- EPIPE) s)
        else complete (- EPIPE) s
      })"

section \<open>The program\<close>

text \<open>The flags of \<open>main\<close>, the struct \<open>create\<close> and the exit code, as the label \<open>out\<close> finds them.\<close>

record rollback_run =
  rb_created :: "u32 option"
  rb_attached :: bool
  rb_registered :: bool
  rb_connected :: bool
  rb_exit_code :: int

definition not_created :: rollback_run where
  "not_created = \<lparr>rb_created = None, rb_attached = False, rb_registered = False, rb_connected = False, rb_exit_code = EXIT_FAILURE\<rparr>"

text \<open>A fetch into the cleared struct.\<close>

definition fetch_transfer ::
  "'k syscalls \<Rightarrow> int \<Rightarrow> ('k, 'a) uproc_scheme \<Rightarrow> ((int \<times> virtusb_transfer_fetch) option \<times> ('k, 'a) uproc_scheme) option" where
  "fetch_transfer sys fd s =
     and_then (do_ioctl sys fd VIRTUSB_IOCTL_TRANSFER_FETCH no_memory s)
       (\<lambda>(ret, out) s. Some (Some (ret, case out of Some (User_transfer_fetch f) \<Rightarrow> f | _ \<Rightarrow> zero_fetch), s))"

text \<open>
  The loop with the request at hand, for at most \<open>rounds\<close> requests; the program is still running where
  they end. The result tells whether the loop ended with the configuration or with a failure.
\<close>

definition rollback_serve ::
  "'k syscalls \<Rightarrow> int \<Rightarrow> virtusb_transfer_fetch \<Rightarrow> bool \<Rightarrow> ('k, 'a) terminal_scheme
     \<Rightarrow> ((int \<times> bool) option \<times> ('k, 'a) terminal_scheme) option" where
  "rollback_serve sys fd request configured s =
     (if tf_type request \<noteq> VIRTUSB_TRANSFER_CONTROL \<or> tf_endpoint request \<noteq> 0
      then and_then (complete_transfer sys fd (tf_transfer_id request) (- EPIPE) None 0 s) (\<lambda>ret s. Some (Some (ret, configured), s))
      else rollback_handle_control_transfer sys fd request configured s)"

fun rollback_loop ::
  "('k, 'b) environment_scheme \<Rightarrow> int \<Rightarrow> nat \<Rightarrow> virtusb_transfer_fetch \<Rightarrow> ('k, 'a) terminal_scheme
     \<Rightarrow> (bool option \<times> ('k, 'a) terminal_scheme) option" where
  "rollback_loop env fd 0 request s = Some (None, s)"
| "rollback_loop env fd (Suc rounds) request s =
     and_then (rollback_serve (env_sys env) fd request False s) (\<lambda>(ret, configured) s.
       if ret < 0 then Some (Some False, failure env ''transfer complete'' ret s)
       else if configured then Some (Some True, s)
       else and_then (fetch_transfer (env_sys env) fd s) (\<lambda>(ret, request) s.
         if ret < 0 then Some (Some False, failure env ''transfer fetch'' ret s)
         else rollback_loop env fd rounds request s))"

text \<open>The two fetches: the one that cannot be copied out, and the one after it.\<close>

definition recover_transfer ::
  "('k, 'b) environment_scheme \<Rightarrow> int \<Rightarrow> u32 \<Rightarrow> ('k, 'a) terminal_scheme
     \<Rightarrow> (virtusb_transfer_fetch option option \<times> ('k, 'a) terminal_scheme) option" where
  "recover_transfer env fd object_id s = do {
     (result, k) \<leftarrow> sys_ioctl (env_sys env) fd VIRTUSB_IOCTL_TRANSFER_FETCH unmapped (kern s);
     let s = s\<lparr>kern := k\<rparr>;
     (case result of
        None \<Rightarrow> Some (None, s)
      | Some (ret, errno, _) \<Rightarrow>
          if ret \<ge> 0 then Some (Some None, eprintf (''faulting fetch unexpectedly succeeded'' @ newline) s)
          else if errno \<noteq> EFAULT
          then Some (Some None, eprintf (''faulting fetch returned '' @ env_strerror env errno @ '' instead of EFAULT'' @ newline) s)
          else let s = printf (''faulting fetch returned EFAULT as expected'' @ newline) s in
            and_then (fetch_transfer (env_sys env) fd s) (\<lambda>(ret, fetch) s.
              if ret < 0 then Some (Some None, failure env ''fetch after EFAULT'' ret s)
              else if tf_transfer_id fetch = 0 \<or> tf_object_id fetch \<noteq> object_id
              then Some (Some None, eprintf (''fetch after EFAULT returned an invalid transfer'' @ newline) s)
              else Some (Some (Some fetch), printf
                (''rollback recovered transfer='' @ print_llu (tf_transfer_id fetch) @ '' object='' @
                 print_u (tf_object_id fetch) @ newline) s)))
   }"

text \<open>With the device created, up to \<open>out\<close>.\<close>

definition rollback_started ::
  "('k, 'b) environment_scheme \<Rightarrow> nat \<Rightarrow> int \<Rightarrow> u32 \<Rightarrow> ('k, 'a) terminal_scheme
     \<Rightarrow> (rollback_run option \<times> ('k, 'a) terminal_scheme) option" where
  "rollback_started env rounds fd object_id s =
     (let call = do_ioctl (env_sys env) fd;
          fail = (\<lambda>run what ret s. Some (Some run, failure env what ret s));
          created = not_created\<lparr>rb_created := Some object_id\<rparr>
      in and_then (call VIRTUSB_IOCTL_DEVICE_ATTACH (no_memory\<lparr>um_device_attach := Some
           \<lparr>da_object_id = object_id, da_hub_id = VIRTUSB_ROOT_HUB_ID, da_port = 1\<rparr>\<rparr>) s) (\<lambda>(ret, _) s.
        if ret < 0 then fail created ''device attach'' ret s
        else let attached = created\<lparr>rb_attached := True\<rparr> in
          and_then (call VIRTUSB_IOCTL_BACKEND_REGISTER (no_memory\<lparr>um_backend_register := Some
            \<lparr>br_object_id = object_id\<rparr>\<rparr>) s) (\<lambda>(ret, _) s.
          if ret < 0 then fail attached ''backend register'' ret s
          else let registered = attached\<lparr>rb_registered := True\<rparr> in
            and_then (call VIRTUSB_IOCTL_DEVICE_CONNECTION (no_memory\<lparr>um_device_connection := Some
              \<lparr>dn_object_id = object_id, dn_enabled = 1\<rparr>\<rparr>) s) (\<lambda>(ret, _) s.
            if ret < 0 then fail registered ''device connect'' ret s
            else let connected = registered\<lparr>rb_connected := True\<rparr> in
              and_then (recover_transfer env fd object_id s) (\<lambda>fetch s.
                (case fetch of
                   None \<Rightarrow> Some (Some connected, s)
                 | Some fetch \<Rightarrow> and_then (rollback_loop env fd rounds fetch s) (\<lambda>configured s.
                     if \<not> configured then Some (Some connected, s)
                     else Some (Some (connected\<lparr>rb_exit_code := EXIT_SUCCESS\<rparr>), printf
                       (''PASS: EFAULT rolled the transfer back without unregistering the backend'' @ newline) s))))))))"

definition rollback_body ::
  "('k, 'b) environment_scheme \<Rightarrow> nat \<Rightarrow> int \<Rightarrow> ('k, 'a) terminal_scheme
     \<Rightarrow> (rollback_run option \<times> ('k, 'a) terminal_scheme) option" where
  "rollback_body env rounds fd s =
     (let create = \<lparr>dc_speed_caps = VIRTUSB_SPEED_CAP_FULL, dc_object_id = 0\<rparr>
      in and_then (do_ioctl (env_sys env) fd VIRTUSB_IOCTL_DEVICE_CREATE (no_memory\<lparr>um_device_create := Some create\<rparr>) s) (\<lambda>(ret, out) s.
        if ret < 0 then Some (Some not_created, failure env ''device create'' ret s)
        else rollback_started env rounds fd (dc_object_id (case out of Some (User_device_create r) \<Rightarrow> r | _ \<Rightarrow> create)) s))"

text \<open>
  The label \<open>out\<close> with an open descriptor; the results of the calls are ignored. The flags after
  \<open>created\<close> are set only once it is.
\<close>

definition rollback_out ::
  "'k syscalls \<Rightarrow> int \<Rightarrow> rollback_run \<Rightarrow> ('k, 'a) terminal_scheme \<Rightarrow> (int option \<times> ('k, 'a) terminal_scheme) option" where
  "rollback_out sys fd run s =
     (let object_id = (case rb_created run of None \<Rightarrow> 0 | Some i \<Rightarrow> i);
          call = (\<lambda>flag command argument s.
            if flag then do_ioctl sys fd command argument s else Some (Some (0, None), s))
      in and_then (call (rb_connected run) VIRTUSB_IOCTL_DEVICE_CONNECTION (no_memory\<lparr>um_device_connection := Some
           \<lparr>dn_object_id = object_id, dn_enabled = 0\<rparr>\<rparr>) s) (\<lambda>_ s.
         and_then (call (rb_attached run) VIRTUSB_IOCTL_DEVICE_DETACH (no_memory\<lparr>um_device_object := Some
           \<lparr>do_object_id = object_id\<rparr>\<rparr>) s) (\<lambda>_ s.
         and_then (call (rb_registered run) VIRTUSB_IOCTL_BACKEND_UNREGISTER unmapped s) (\<lambda>_ s.
         and_then (call (rb_created run \<noteq> None) VIRTUSB_IOCTL_DEVICE_DESTROY (no_memory\<lparr>um_device_destroy := Some
           \<lparr>dd_object_id = object_id, dd_flags = VIRTUSB_DEVICE_DESTROY_FORCE\<rparr>\<rparr>) s) (\<lambda>_ s. do {
           k \<leftarrow> sys_close sys fd (kern s);
           Some (Some (rb_exit_code run), s\<lparr>kern := k\<rparr>)
         })))))"

definition test_rollback_main ::
  "('k, 'b) environment_scheme \<Rightarrow> nat \<Rightarrow> ('k, 'a) terminal_scheme \<Rightarrow> (int option \<times> ('k, 'a) terminal_scheme) option" where
  "test_rollback_main env rounds s = do {
     ((fd, errno), k) \<leftarrow> sys_open (env_sys env) ''/dev/virtusb0'' (kern s);
     let s = s\<lparr>kern := k\<rparr>;
     if fd < 0 then Some (Some EXIT_FAILURE, failure env ''open /dev/virtusb0'' (- errno) s)
     else and_then (rollback_body env rounds fd s) (\<lambda>run s. rollback_out (env_sys env) fd run s)
   }"

end
