(* ===== verification/Virtusb_Test_Rollback_Props.thy ===== *)
theory Virtusb_Test_Rollback_Props
  imports Virtusb_Test_Props Virtusb_Test_Rollback
begin

text \<open>
  The test of the rollback, on the bare descriptor: every run of it takes down what it set up.
\<close>

section \<open>Calls on a descriptor\<close>

lemma do_ioctl_on:
  assumes "has_fd fd f u"
  shows "do_ioctl (kernel_calls mem xa_mem waits nodes) fd command argp u = do {
    (result, s) \<leftarrow> virtusb_control_ioctl mem xa_mem waits f command argp (below u);
    Some (map_option (\<lambda>(ret, out). (if ret < 0 then ret else 0, out)) result, on_kernel s u)
  }"
proof -
  from assms have fd: "fds (kern u) fd = Some f" by (simp add: has_fd_def)
  show ?thesis
    by (cases "virtusb_control_ioctl mem xa_mem waits f command argp (below u)")
       (auto simp: do_ioctl_def kernel_calls_def fd on_kernel_def user_result_def option.map_comp o_def intro!: option.map_cong0)
qed

lemma has_fd_file: "has_fd fd f u \<Longrightarrow> \<exists>fl. load_file f (below u) = Some fl"
  by (auto simp: has_fd_def)

lemma do_ioctl_keeps:
  fixes u :: "(vfs, 'a) uproc_scheme"
  assumes p: "has_fd fd f u" and waits: "\<forall>(ret, step) \<in> set waits. quiet_step held pins step" and v: "undisturbed held pins u v"
    and sized: "completions_sized argp"
    and command: "command \<in> {VIRTUSB_IOCTL_GET_PORT_STATUS, VIRTUSB_IOCTL_DEVICE_ATTACH, VIRTUSB_IOCTL_DEVICE_DETACH,
      VIRTUSB_IOCTL_DEVICE_CONNECTION, VIRTUSB_IOCTL_BACKEND_REGISTER, VIRTUSB_IOCTL_BACKEND_UNREGISTER,
      VIRTUSB_IOCTL_TRANSFER_COMPLETE}"
  shows "keeps held pins (\<lambda>_. True) u (do_ioctl (kernel_calls mem xa_mem waits nodes) fd command argp v)"
proof -
  note p' = undisturbedD(3) [OF v p]
  from has_fd_file [OF p'] obtain fl where fl: "load_file f (below v) = Some fl" by blast
  obtain ret out s where "virtusb_control_ioctl mem xa_mem waits f command argp (below v) = Some (Some (ret, out), s)"
    "undisturbed held pins v (on_kernel s v)"
    by (rule plain_control_ioctl_ok [OF undisturbedD(1) [OF v] fl sized command waits])
  then show ?thesis using undisturbed_trans [OF v] by (simp add: do_ioctl_on [OF p'] keeps_def)
qed

lemma complete_transfer_keeps:
  fixes u :: "(vfs, 'a) uproc_scheme"
  assumes p: "has_fd fd f u" and waits: "\<forall>(ret, step) \<in> set waits. quiet_step held pins step" and v: "undisturbed held pins u v"
    and data: "\<And>buf. data = Some buf \<Longrightarrow> n \<le> length buf"
  shows "keeps held pins (\<lambda>_. True) u (complete_transfer (kernel_calls mem xa_mem waits nodes) fd i st data n v)"
proof (cases "n > 4096")
  case True
  with v show ?thesis by (simp add: complete_transfer_def keeps_result)
next
  case False
  let ?zeros = "replicate VIRTUSB_TRANSFER_DATA_MAX 0 :: u8 list"
  obtain bytes where bytes: "(case data of Some buffer \<Rightarrow> if n > 0 then memcpy ?zeros buffer n else Some ?zeros | None \<Rightarrow> Some ?zeros) = Some bytes"
    "length bytes = VIRTUSB_TRANSFER_DATA_MAX"
    using data False by (cases data; cases "n = 0") auto
  have "keeps held pins (\<lambda>_. True) u (and_then (do_ioctl (kernel_calls mem xa_mem waits nodes) fd VIRTUSB_IOCTL_TRANSFER_COMPLETE
      (no_memory\<lparr>um_transfer_complete := Some \<lparr>tc_transfer_id = i, tc_status = st, tc_actual_length = word_of_nat n, tc_data = bytes\<rparr>\<rparr>) v)
      (\<lambda>(ret, _) s. Some (Some ret, s)))"
    by (rule keeps_and_then [OF do_ioctl_keeps [OF p waits v]]) (auto simp: completions_sized_def bytes(2) intro: keeps_result)
  with False bytes(1) show ?thesis by (simp add: complete_transfer_def cong: option.case_cong)
qed

lemma rollback_complete_data_keeps:
  fixes u :: "(vfs, 'a) uproc_scheme"
  assumes p: "has_fd fd f u" and waits: "\<forall>(ret, step) \<in> set waits. quiet_step held pins step" and v: "undisturbed held pins u v"
    and n: "n \<le> length data"
  shows "keeps held pins (\<lambda>_. True) u (rollback_complete_data (kernel_calls mem xa_mem waits nodes) fd request data n v)"
  unfolding rollback_complete_data_def Let_def by (rule complete_transfer_keeps [OF p waits v]) (use n in auto)

lemma fetch_transfer_keeps:
  fixes u :: "(vfs, 'a) uproc_scheme"
  assumes p: "has_fd fd f u" and waits: "\<forall>(ret, step) \<in> set waits. quiet_step held pins step" and v: "undisturbed held pins u v"
  shows "keeps held pins (\<lambda>(ret, request). 0 \<le> ret \<longrightarrow> length (tf_setup request) = 8) u
    (fetch_transfer (kernel_calls mem xa_mem waits nodes) fd v)"
proof -
  note p' = undisturbedD(3) [OF v p]
  from has_fd_file [OF p'] obtain fl where fl: "load_file f (below v) = Some fl" by blast
  obtain result s where code: "virtusb_control_ioctl mem xa_mem waits f VIRTUSB_IOCTL_TRANSFER_FETCH no_memory (below v) = Some (result, s)"
    "undisturbed held pins v (on_kernel s v)"
    and res: "\<forall>ret out. result = Some (ret, out) \<longrightarrow> 0 \<le> ret \<longrightarrow> (\<exists>x. out = Some (User_transfer_fetch x) \<and> length (tf_setup x) = 8)"
    using undisturbedD(1) [OF v] fl waits by (rule fetch_ioctl_ok [where mem = mem and xa_mem = xa_mem and argp = no_memory])
  have s: "undisturbed held pins u (on_kernel s v)" by (rule undisturbed_trans [OF v code(2)])
  show ?thesis
  proof (cases result)
    case None
    with s show ?thesis by (simp add: fetch_transfer_def do_ioctl_on [OF p'] code(1) and_then_def keeps_sleep)
  next
    case (Some r)
    obtain ret out where r: "r = (ret, out)" by (cases r)
    show ?thesis
    proof (cases "ret < 0")
      case True
      with s show ?thesis by (simp add: fetch_transfer_def do_ioctl_on [OF p'] code(1) and_then_def Some r keeps_result)
    next
      case False
      with res Some r obtain x where "out = Some (User_transfer_fetch x)" "length (tf_setup x) = 8" by auto
      with False s show ?thesis by (simp add: fetch_transfer_def do_ioctl_on [OF p'] code(1) and_then_def Some r keeps_result)
    qed
  qed
qed

section \<open>Requests\<close>

lemma rollback_setup_bytes:
  assumes "length (tf_setup request) = 8"
  shows "nth_opt (tf_setup request) 0 = Some (tf_setup request ! 0)" "nth_opt (tf_setup request) 1 = Some (tf_setup request ! 1)"
    "get_le16 (drop 2 (tf_setup request)) = Some (ucast (tf_setup request ! 2) OR push_bit 8 (ucast (tf_setup request ! 3)))"
    "\<exists>shown. rollback_setup_text request = Some shown"
  using assms by (auto simp: nth_opt_def get_le16_ok rollback_setup_text_def)

lemma rollback_handle_keeps:
  fixes u :: "(vfs, 'a) terminal_scheme"
  assumes u: "process_ok held pins u" and p: "has_fd fd f u" and rq: "length (tf_setup request) = 8"
    and waits: "\<forall>(ret, step) \<in> set waits. quiet_step held pins step"
  shows "keeps held pins (\<lambda>_. True) u (rollback_handle_control_transfer (kernel_calls mem xa_mem waits nodes) fd request configured u)"
proof -
  note bytes = rollback_setup_bytes [OF rq]
  obtain shown where shown: "rollback_setup_text request = Some shown" using bytes(4) by blast
  have lengths: "(1 :: nat) \<le> length [1, 0 :: u8]" "(2 :: nat) \<le> length [0, 0 :: u8]" by simp_all
  have complete: "keeps held pins (\<lambda>_. True) u (complete_transfer (kernel_calls mem xa_mem waits nodes) fd i st None 0 v)"
    if "undisturbed held pins u v" for i st v
    by (rule complete_transfer_keeps [OF p waits that]) simp
  show ?thesis
    unfolding rollback_handle_control_transfer_def Let_def bytes(1-3) shown Option.bind_lunit
    by (rule keeps_rules complete rollback_complete_data_keeps [OF p waits] lengths order_refl undisturbed_refl [OF u] TrueI | assumption)+
qed

lemma rollback_serve_keeps:
  fixes u :: "(vfs, 'a) terminal_scheme"
  assumes u: "process_ok held pins u" and p: "has_fd fd f u" and rq: "length (tf_setup request) = 8"
    and waits: "\<forall>(ret, step) \<in> set waits. quiet_step held pins step"
  shows "keeps held pins (\<lambda>_. True) u (rollback_serve (kernel_calls mem xa_mem waits nodes) fd request configured u)"
proof -
  have complete: "keeps held pins (\<lambda>_. True) u (complete_transfer (kernel_calls mem xa_mem waits nodes) fd i st None 0 u)" for i st
    by (rule complete_transfer_keeps [OF p waits undisturbed_refl [OF u]]) simp
  show ?thesis
    unfolding rollback_serve_def
    by (rule keeps_rules rollback_handle_keeps [OF u p rq waits] complete undisturbed_refl [OF u] TrueI | assumption)+
qed

section \<open>Runs of the program\<close>

lemma rollback_loop_keeps:
  fixes u :: "(vfs, 'a) terminal_scheme"
  assumes u: "process_ok held pins u" and p: "has_fd fd f u" and env: "env_sys env = kernel_calls mem xa_mem waits nodes"
    and waits: "\<forall>(ret, step) \<in> set waits. quiet_step held pins step" and rq: "length (tf_setup request) = 8"
  shows "keeps held pins (\<lambda>_. True) u (rollback_loop env fd rounds request u)"
  using u p rq
proof (induction rounds arbitrary: request u)
  case 0
  then show ?case by (simp add: keeps_sleep undisturbed_refl)
next
  case (Suc rounds)
  note u = Suc.prems(1) and p = Suc.prems(2)
  have loop: "keeps held pins (\<lambda>_. True) u (rollback_loop env fd rounds request v)"
    if v: "undisturbed held pins u v" and request: "length (tf_setup request) = 8" for v request
    using keeps_from [OF v] Suc.IH [OF undisturbedD(1) [OF v] undisturbedD(3) [OF v p] request] .
  have again: "keeps held pins (\<lambda>_. True) u (and_then (fetch_transfer (env_sys env) fd v) (\<lambda>(ret, request) s.
      if ret < 0 then Some (Some False, failure env ''transfer fetch'' ret s) else rollback_loop env fd rounds request s))"
    if v: "undisturbed held pins u v" for v
    unfolding env by (rule keeps_and_then [OF fetch_transfer_keeps [OF p waits v]]) (auto intro!: keeps_result undisturbed_failure loop)
  show ?case
    unfolding rollback_loop.simps env
    by (rule keeps_and_then [OF rollback_serve_keeps [OF u p Suc.prems(3) waits]])
       (auto intro!: keeps_result undisturbed_failure again [unfolded env])
qed

lemma recover_transfer_keeps:
  fixes u :: "(vfs, 'a) terminal_scheme"
  assumes p: "has_fd fd f u" and env: "env_sys env = kernel_calls mem xa_mem waits nodes"
    and waits: "\<forall>(ret, step) \<in> set waits. quiet_step held pins step" and v: "undisturbed held pins u v"
  shows "keeps held pins (\<lambda>fetch. \<forall>x. fetch = Some x \<longrightarrow> length (tf_setup x) = 8) u (recover_transfer env fd object_id v)"
proof -
  note p' = undisturbedD(3) [OF v p]
  from p' obtain fl where fd: "fds (kern v) fd = Some f" and fl: "load_file f (below v) = Some fl" by (auto simp: has_fd_def)
  obtain result s where code: "virtusb_control_ioctl mem xa_mem waits f VIRTUSB_IOCTL_TRANSFER_FETCH unmapped (below v) = Some (result, s)"
    "undisturbed held pins v (on_kernel s v)"
    by (rule fetch_ioctl_ok [OF undisturbedD(1) [OF v] fl waits, of mem xa_mem unmapped])
  then have call: "sys_ioctl (env_sys env) fd VIRTUSB_IOCTL_TRANSFER_FETCH unmapped (kern v) =
      Some (map_option user_result result, (kern v)\<lparr>vkernel := s\<rparr>)"
    by (simp add: env kernel_calls_def fd)
  have s: "undisturbed held pins u (v\<lparr>kern := (kern v)\<lparr>vkernel := s\<rparr>\<rparr>)"
    using undisturbed_trans [OF v code(2)] by (simp add: on_kernel_def)
  have fetch: "keeps held pins (\<lambda>(ret, request). 0 \<le> ret \<longrightarrow> length (tf_setup request) = 8) u (fetch_transfer (env_sys env) fd w)"
    if "undisturbed held pins u w" for w unfolding env by (rule fetch_transfer_keeps [OF p waits that])
  show ?thesis
  proof (cases result)
    case None
    with s show ?thesis by (simp add: recover_transfer_def call keeps_sleep)
  next
    case (Some r)
    have print: "undisturbed held pins u (printf t (v\<lparr>kern := (kern v)\<lparr>vkernel := s\<rparr>\<rparr>))" for t using s by (simp add: undisturbed_print)
    show ?thesis
      unfolding recover_transfer_def call Option.bind_lunit split_conv Some option.map option.case Let_def
      by (cases "user_result r", simp only: split_conv)
         (intro keeps_branch; auto intro!: keeps_result keeps_and_then [OF fetch [OF print]] undisturbed_failure simp: undisturbed_print s)
  qed
qed

lemma rollback_started_keeps:
  fixes u :: "(vfs, 'a) terminal_scheme"
  assumes u: "process_ok held pins u" and p: "has_fd fd f u" and env: "env_sys env = kernel_calls mem xa_mem waits nodes"
    and waits: "\<forall>(ret, step) \<in> set waits. quiet_step held pins step"
  shows "keeps held pins (\<lambda>run. rb_created run = Some i \<and> (rb_exit_code run = EXIT_SUCCESS \<or> rb_exit_code run = EXIT_FAILURE)) u
    (rollback_started env rounds fd i u)"
proof -
  have loop: "keeps held pins (\<lambda>_. True) u (rollback_loop env fd rounds request v)"
    if v: "undisturbed held pins u v" and "length (tf_setup request) = 8" for v request
    using keeps_from [OF v] rollback_loop_keeps [OF undisturbedD(1) [OF v] undisturbedD(3) [OF v p] env waits that(2)] .
  let ?R = "\<lambda>run. rb_created run = Some i \<and> (rb_exit_code run = EXIT_SUCCESS \<or> rb_exit_code run = EXIT_FAILURE)"
  have step: "keeps held pins ?R u (and_then (do_ioctl (kernel_calls mem xa_mem waits nodes) fd command argp v)
      (\<lambda>(ret, _) s. if ret < 0 then Some (Some run, failure env what ret s) else k s))"
    if v: "undisturbed held pins u v" and k: "\<And>w. undisturbed held pins u w \<Longrightarrow> keeps held pins ?R u (k w)" and run: "?R run"
      and command: "command \<in> {VIRTUSB_IOCTL_DEVICE_ATTACH, VIRTUSB_IOCTL_DEVICE_CONNECTION, VIRTUSB_IOCTL_BACKEND_REGISTER}"
      and sized: "completions_sized argp" for v k run command argp what
    by (rule keeps_and_then [OF do_ioctl_keeps [OF p waits v sized]])
       (use command in simp, use k run in \<open>auto intro!: keeps_result undisturbed_failure\<close>)
  have last: "keeps held pins ?R u (and_then (recover_transfer env fd i v) (\<lambda>fetch s.
      case fetch of None \<Rightarrow> Some (Some run, s)
      | Some fetch \<Rightarrow> and_then (rollback_loop env fd rounds fetch s) (\<lambda>configured s.
          if \<not> configured then Some (Some run, s) else Some (Some (run\<lparr>rb_exit_code := EXIT_SUCCESS\<rparr>), printf t s))))"
    if v: "undisturbed held pins u v" and run: "?R run" for v run t
    by (rule keeps_and_then [OF recover_transfer_keeps [OF p env waits v]])
       (use run in \<open>auto split: option.split intro!: keeps_result keeps_and_then [OF loop] simp: undisturbed_print\<close>)
  show ?thesis
    unfolding rollback_started_def Let_def env
    by (rule step last undisturbed_refl [OF u] | assumption |
        simp add: completions_sized_def no_memory_def not_created_def)+
qed

section \<open>Opening, closing and taking down\<close>

definition fd_from :: "int \<Rightarrow> nat \<Rightarrow> (vfs, 'a) uproc_scheme \<Rightarrow> (vfs, 'a) uproc_scheme \<Rightarrow> bool" where
  "fd_from fd f u u1 \<longleftrightarrow> devices u1 = devices u \<and> has_fd fd f u1 \<and> (fds (kern u1))(fd := None) = fds (kern u) \<and>
     handles u1 = handles u \<and> (\<forall>g. load_file g (below u) = (if g = f then None else load_file g (below u1)))"

lemma close_fd_ok:
  fixes u :: "(vfs, 'a) uproc_scheme"
  assumes o: "fd_from fd f u u1" and w: "holds_device held pins f u1 0 w" and code: "code = EXIT_SUCCESS \<or> code = EXIT_FAILURE"
  shows "runs (do { k \<leftarrow> sys_close (kernel_calls mem xa_mem waits nodes) fd (kern w); Some (Some code, w\<lparr>kern := k\<rparr>) }) (restored held pins u)"
proof -
  from w have w': "process_ok held pins w" "fds (kern w) = fds (kern u1)" "handles w = handles u1" "devices w = devices u1"
    and more: "kback.more (below w) = kback.more (below u1)" by (simp_all add: holds_device_def stays_def)
  note files = khcd_fields(2) [OF more]
  from o have "has_fd fd f u1" by (simp add: fd_from_def)
  from holds_device_has_fd(2) [OF w this] obtain fl where fd: "fds (kern w) fd = Some f" "load_file f (below w) = Some fl"
    by (auto simp: has_fd_def)
  from kernel_close_ok [OF w'(1) fd] obtain k where k: "kernel_close fd (kern w) = Some k" "process_ok held pins (w\<lparr>kern := k\<rparr>)"
    "fds k = (fds (kern w))(fd := None)" "registry (vkernel k) = registry (below w)"
    "\<forall>g. load_file g (vkernel k) = (if g = f then None else load_file g (below w))" unfolding runs_iff by blast
  have "devices (w\<lparr>kern := k\<rparr>) = devices w" by (rule devices_same [OF w'(1) k(2)]) (simp add: k(4))
  with k o w' files code show ?thesis by (simp add: kernel_calls_def restored_def fd_from_def)
qed

lemma rollback_out_ok:
  fixes u :: "(vfs, 'a) terminal_scheme"
  assumes o: "fd_from fd f u u1" and v: "holds_device held pins f u1 i v"
    and run: "rb_created run = (if i = 0 then None else Some i)" "rb_exit_code run = EXIT_SUCCESS \<or> rb_exit_code run = EXIT_FAILURE"
    and waits: "\<forall>(ret, step) \<in> set waits. quiet_step held pins step"
  shows "runs (rollback_out (kernel_calls mem xa_mem waits nodes) fd run v) (restored held pins u)"
proof -
  let ?sys = "kernel_calls mem xa_mem waits nodes"
  from o have p: "has_fd fd f u1" by (simp add: fd_from_def)
  have calls: "keeps held pins (\<lambda>_. True) w (if flag then do_ioctl ?sys fd command argp w else Some (Some (0, None), w))"
    if w: "holds_device held pins f u1 i w" and "completions_sized argp"
      "command \<in> {VIRTUSB_IOCTL_DEVICE_DETACH, VIRTUSB_IOCTL_DEVICE_CONNECTION, VIRTUSB_IOCTL_BACKEND_UNREGISTER}" for w flag argp command
    by (rule keeps_branch keeps_result do_ioctl_keeps [OF holds_device_has_fd(2) [OF w p] waits]
        undisturbed_refl [OF holds_device_has_fd(1) [OF w]] TrueI that | use that in auto)+
  have close: "runs (and_then (if rb_created run \<noteq> None then do_ioctl ?sys fd VIRTUSB_IOCTL_DEVICE_DESTROY
        (no_memory\<lparr>um_device_destroy := Some \<lparr>dd_object_id = (case rb_created run of None \<Rightarrow> 0 | Some i \<Rightarrow> i), dd_flags = VIRTUSB_DEVICE_DESTROY_FORCE\<rparr>\<rparr>) w
      else Some (Some (0, None), w))
      (\<lambda>_ s. do { k \<leftarrow> sys_close ?sys fd (kern s); Some (Some (rb_exit_code run), s\<lparr>kern := k\<rparr>) })) (restored held pins u)"
    if w: "holds_device held pins f u1 i w" for w
  proof (cases "i = 0")
    case True
    with w close_fd_ok [OF o _ run(2)] show ?thesis by (simp add: run(1) and_then_Some)
  next
    case False
    note w0 = holds_device_has_fd(1) [OF w]
    from w False obtain c where "live f c (below w)" by (rule holds_device_live)
    from w0 this False obtain ret s where z: "virtusb_control_ioctl mem xa_mem waits f VIRTUSB_IOCTL_DEVICE_DESTROY
        (no_memory\<lparr>um_device_destroy := Some \<lparr>dd_object_id = i, dd_flags = VIRTUSB_DEVICE_DESTROY_FORCE\<rparr>\<rparr>) (below w) = Some (Some (ret, None), s)"
      "stays held pins w (on_kernel s w)" "devices (on_kernel s w) = devices w - {i}" by (rule destroy_ioctl_ok)
    from close_fd_ok [OF o holds_device_destroyed [OF w False undisturbed_refl [OF w0] z(2,3)] run(2), of mem xa_mem waits nodes] False
    show ?thesis by (simp add: run(1) do_ioctl_on [OF holds_device_has_fd(2) [OF w p]] z(1) and_then_Some)
  qed
  show ?thesis
    unfolding rollback_out_def Let_def
    by (rule restored_call calls close | assumption | rule v | simp add: completions_sized_def no_memory_def unmapped_def)+
qed

lemma open_fd_ok:
  fixes u :: "(vfs, 'a) uproc_scheme"
  assumes u: "process_ok held pins u" and env: "runs_on env mem xa_mem waits nodes u"
  obtains fd errno k where "sys_open (env_sys env) path (kern u) = Some ((fd, errno), k)" and "process_ok held pins (u\<lparr>kern := k\<rparr>)"
    and "if fd < 0 then restored held pins u (Some EXIT_FAILURE, u\<lparr>kern := k\<rparr>) else \<exists>f. fd_from fd f u (u\<lparr>kern := k\<rparr>)"
proof -
  have sys: "env_sys env = kernel_calls mem xa_mem waits nodes" and nodes: "nodes_ok nodes u" using env by (simp_all add: runs_on_def)
  from kernel_open_ok [OF u nodes, of mem path] obtain fd errno k where
    opened: "kernel_open mem nodes path (kern u) = Some ((fd, errno), k)" and k: "process_ok held pins (u\<lparr>kern := k\<rparr>)"
    and res: "if fd < 0 then fd = - 1 \<and> 0 < errno \<and> k = kern u \<and> (nodes path = None \<or> \<not> mem)
      else fd = next_fd (kern u) \<and> fds k = (fds (kern u))(next_fd (kern u) \<mapsto> next_file (kern u)) \<and>
       (\<exists>c. nodes path = Some c \<and>
          vkernel k = put_file (next_file (kern u)) (new_file\<lparr>file_private := Some \<lparr>cf_control = Some c\<rparr>\<rparr>) (below u))"
    unfolding runs_iff split_paired_Ex split_conv by blast
  have code: "sys_open (env_sys env) path (kern u) = Some ((fd, errno), k)" by (simp add: sys kernel_calls_def opened)
  have "registry (vkernel k) = registry (below u)" using res by (auto simp: put_file_def split: if_splits)
  then have dev: "devices (u\<lparr>kern := k\<rparr>) = devices u" by (intro devices_same [OF u k]) simp
  show ?thesis
  proof (rule that [OF code k])
    show "if fd < 0 then restored held pins u (Some EXIT_FAILURE, u\<lparr>kern := k\<rparr>) else \<exists>f. fd_from fd f u (u\<lparr>kern := k\<rparr>)"
    proof (cases "fd < 0")
      case True
      with res u show ?thesis by (simp add: restored_now)
    next
      case False
      from u have "0 \<le> next_fd (kern u)" "fds (kern u) (next_fd (kern u)) = None" "load_file (next_file (kern u)) (below u) = None"
        by (simp_all add: process_ok_def)
      with False res dev have "fd_from fd (next_file (kern u)) u (u\<lparr>kern := k\<rparr>)"
        by (auto simp: fd_from_def has_fd_def fun_upd_idem)
      with False show ?thesis by auto
    qed
  qed
qed

lemma rollback_body_ok:
  fixes u :: "(vfs, 'a) terminal_scheme"
  assumes u: "process_ok held pins u" and p: "has_fd fd f u" and env: "env_sys env = kernel_calls mem xa_mem waits nodes"
    and waits: "\<forall>(ret, step) \<in> set waits. quiet_step held pins step"
  shows "runs (rollback_body env rounds fd u) (\<lambda>(r, v). process_ok held pins v \<and> (\<forall>run. r = Some run \<longrightarrow>
    (\<exists>i. holds_device held pins f u i v \<and> rb_created run = (if i = 0 then None else Some i)) \<and>
    (rb_exit_code run = EXIT_SUCCESS \<or> rb_exit_code run = EXIT_FAILURE)))"
proof -
  from has_fd_file [OF p] obtain fl where fl: "load_file f (below u) = Some fl" by blast
  from u fl obtain ret out s where
    code: "virtusb_control_ioctl mem xa_mem waits f VIRTUSB_IOCTL_DEVICE_CREATE
        (no_memory\<lparr>um_device_create := Some \<lparr>dc_speed_caps = VIRTUSB_SPEED_CAP_FULL, dc_object_id = 0\<rparr>\<rparr>) (below u) = Some (Some (ret, out), s)"
    and stays: "stays held pins u (on_kernel s u)"
    and res: "if ret < 0 then devices (on_kernel s u) = devices u
      else \<exists>i c. out = Some (User_device_create \<lparr>dc_speed_caps = VIRTUSB_SPEED_CAP_FULL, dc_object_id = i\<rparr>) \<and> i \<noteq> 0 \<and>
             live f c (below u) \<and> i \<notin> devices u \<and> devices (on_kernel s u) = insert i (devices u)"
    by (rule create_ioctl_ok)
  note call = do_ioctl_on [OF p] code
  show ?thesis
  proof (cases "ret < 0")
    case True
    with res stays have "holds_device held pins f u 0 (on_kernel s u)" by (simp add: holds_device_def)
    from holds_device_undisturbed [OF this undisturbed_failure [OF undisturbed_refl]] stays True show ?thesis
      by (auto simp: rollback_body_def env call and_then_Some not_created_def stays_def intro!: exI [of _ 0])
  next
    case False
    with res obtain i c where i: "out = Some (User_device_create \<lparr>dc_speed_caps = VIRTUSB_SPEED_CAP_FULL, dc_object_id = i\<rparr>)" "i \<noteq> 0"
      "live f c (below u)" "i \<notin> devices u" "devices (on_kernel s u) = insert i (devices u)" by auto
    with stays have hold: "holds_device held pins f u i (on_kernel s u)" by (auto simp: holds_device_def)
    from keeps_device [OF hold rollback_started_keeps [OF holds_device_has_fd(1) [OF hold] holds_device_has_fd(2) [OF hold p] env waits], of rounds i] False i(1,2)
    show ?thesis by (auto simp: rollback_body_def env call and_then_Some elim!: runs_mono)
  qed
qed

lemma test_rollback_main_ok:
  fixes u :: "(vfs, 'a) terminal_scheme"
  assumes u: "process_ok held pins u" and env: "runs_on env mem xa_mem waits nodes u"
    and waits: "\<forall>(ret, step) \<in> set waits. quiet_step held pins step"
  shows "runs (test_rollback_main env rounds u) (restored held pins u)"
proof -
  have sys: "env_sys env = kernel_calls mem xa_mem waits nodes" using env by (simp add: runs_on_def)
  from u env obtain fd errno k where code: "sys_open (env_sys env) ''/dev/virtusb0'' (kern u) = Some ((fd, errno), k)"
    and k: "process_ok held pins (u\<lparr>kern := k\<rparr>)"
    and res: "if fd < 0 then restored held pins u (Some EXIT_FAILURE, u\<lparr>kern := k\<rparr>) else \<exists>f. fd_from fd f u (u\<lparr>kern := k\<rparr>)"
    by (rule open_fd_ok)
  show ?thesis
  proof (cases "fd < 0")
    case True
    with res code show ?thesis by (simp add: test_rollback_main_def restored_def)
  next
    case False
    with res obtain f where o: "fd_from fd f u (u\<lparr>kern := k\<rparr>)" by auto
    then have p: "has_fd fd f (u\<lparr>kern := k\<rparr>)" by (simp add: fd_from_def)
    have "runs (and_then (rollback_body env rounds fd (u\<lparr>kern := k\<rparr>)) (\<lambda>run s. rollback_out (env_sys env) fd run s)) (restored held pins u)"
      using rollback_body_ok [OF k p sys waits] unfolding sys
      by (rule restored_and_then) (auto intro: rollback_out_ok [OF o _ _ _ waits])
    with False code show ?thesis by (simp add: test_rollback_main_def)
  qed
qed

end
