(* ===== verification/Virtusb_Test_Answers.thy ===== *)
theory Virtusb_Test_Answers
  imports Virtusb_Test_Unregister_Props Virtusb_Test_Rollback_Props Virtusb_Platform_Props
begin

text \<open>
  What a device that the test program plays answers to a control request, and that the host's URB
  gets exactly this answer; and that each of the three programs cleans up behind itself, whatever
  other threads such as the USB core do while it waits.
\<close>

section \<open>The answers of the device\<close>

text \<open>
  As USB has it: bit 7 of the first setup byte is the direction, bits 5 and 6 the type, the lower
  bits the recipient; the second byte is the request and the fourth the descriptor type. The result
  is the data of the answer, \<^const>\<open>None\<close> for a stall.
\<close>

definition device_answer :: "u8 list \<Rightarrow> u8 list option" where
  "device_answer setup1 =
     (let dir_in = bit (setup1 ! 0) 7;
          standard = (\<not> bit (setup1 ! 0) 5 \<and> \<not> bit (setup1 ! 0) 6);
          request = setup1 ! 1
      in if \<not> standard then None
         else if request = USB_REQ_GET_DESCRIPTOR \<and> dir_in \<and> setup1 ! 3 = USB_DT_DEVICE then Some device_descriptor
         else if request = USB_REQ_GET_DESCRIPTOR \<and> dir_in \<and> setup1 ! 3 = USB_DT_CONFIG then Some configuration_descriptor
         else if request \<in> {USB_REQ_SET_ADDRESS, USB_REQ_SET_CONFIGURATION} \<and> \<not> dir_in then Some []
         else if request = USB_REQ_GET_CONFIGURATION \<and> dir_in \<and> take_bit 5 (setup1 ! 0) = 0 then Some [1]
         else if request = USB_REQ_GET_STATUS \<and> dir_in then Some [0, 0]
         else None)"

lemma request_type_bits:
  fixes x :: u8
  shows "x AND USB_TYPE_MASK = 0 \<longleftrightarrow> \<not> bit x 5 \<and> \<not> bit x 6" and "x AND USB_DIR_IN = 0 \<longleftrightarrow> \<not> bit x 7"
    and "x AND (USB_DIR_IN OR USB_RECIP_MASK) = USB_DIR_IN OR USB_RECIP_DEVICE \<longleftrightarrow> bit x 7 \<and> take_bit 5 x = 0"
proof -
  have bits: "(0x60 :: u8) = 2 ^ 5 OR 2 ^ 6" "(0x80 :: u8) = 2 ^ 7" "(0x1f :: u8) = mask 5" by (simp_all add: mask_eq_exp_minus_1)
  show "x AND 0x60 = 0 \<longleftrightarrow> \<not> bit x 5 \<and> \<not> bit x 6"
    unfolding bits bit.conj_disj_distrib by (simp only: or_eq_0_iff and_exp_eq_0_iff_not_bit)
  show "x AND 0x80 = 0 \<longleftrightarrow> \<not> bit x 7"
    unfolding bits by (rule and_exp_eq_0_iff_not_bit)
  have b7: "bit (0x80 :: u8) n \<longleftrightarrow> n = 7" and b5: "bit (0x1f :: u8) n \<longleftrightarrow> n < 5" for n
    unfolding bits by (auto simp only: bit_exp_iff bit_mask_iff) simp_all
  show "x AND (0x80 OR 0x1f) = 0x80 OR 0 \<longleftrightarrow> bit x 7 \<and> take_bit 5 x = 0" (is "?l \<longleftrightarrow> ?r")
  proof
    assume l: ?l
    have "bit (x AND (0x80 OR 0x1f)) n = bit (0x80 OR 0 :: u8) n" for n unfolding l ..
    then have eq: "bit x n \<and> (n = 7 \<or> n < 5) \<longleftrightarrow> n = 7" for n
      by (simp only: bit_and_iff bit_or_iff b7 b5 bit_0_eq bot_apply) simp
    have "take_bit 5 x = 0"
    proof (rule bit_word_eqI)
      show "bit (take_bit 5 x) n = bit (0 :: u8) n" for n using eq [of n] by (auto simp: bit_simps)
    qed
    with eq [of 7] show ?r by simp
  next
    assume r: ?r
    then have low: "\<not> bit x n" if "n < 5" for n using that bit_take_bit_iff [of 5 x n] by simp
    show ?l
    proof (rule bit_word_eqI)
      fix n
      have "bit x n \<and> (n = 7 \<or> n < 5) \<longleftrightarrow> n = 7" using r low by auto
      then show "bit (x AND (0x80 OR 0x1f)) n = bit (0x80 OR 0 :: u8) n"
        by (simp only: bit_and_iff bit_or_iff b7 b5 bit_0_eq bot_apply) simp
    qed
  qed
qed

lemma descriptor_type_byte: "ucast (drop_bit 8 (ucast (a :: u8) OR push_bit 8 (ucast (b :: u8)) :: u16)) = b"
  by (rule bit_word_eqI) (auto simp: bit_simps dest: bit_imp_le_length)

section \<open>The program's answers\<close>

text \<open>A completion without data.\<close>

lemma complete_nothing:
  "virtusb_transfer_complete_lib sys handle i st None 0 u = virtusb_transfer_complete_lib sys handle i st (Some []) 0 u"
  by (simp add: virtusb_transfer_complete_lib_def Let_def cong: if_cong option.case_cong)

lemma complete_data_answer:
  assumes "length1 \<le> length data" and "length1 \<le> 4096"
  obtains n where "complete_data sys handle request data length1 u = virtusb_transfer_complete_lib sys handle (rq_id request) 0 (Some data) n u"
    and "unat n = min length1 (unat (rq_requested_length request))"
proof -
  let ?m = "min length1 (unat (rq_requested_length request))"
  have "unat (word_of_nat ?m :: u32) = ?m"
    using assms by (simp add: unsigned_of_nat take_bit_nat_eq_self)
  then show thesis by (intro that [of "word_of_nat ?m"]) (simp_all add: complete_data_def min_def)
qed

text \<open>One completion from this state, of the length and with the data of the device's answer.\<close>

definition answers ::
  "'k syscalls \<Rightarrow> nat option \<Rightarrow> virtusb_transfer_request \<Rightarrow> ('k, 'a) terminal_scheme
     \<Rightarrow> (int option \<times> ('k, 'a) terminal_scheme) option \<Rightarrow> bool" where
  "answers sys handle request u m \<longleftrightarrow>
     (\<exists>st buf n. m = virtusb_transfer_complete_lib sys handle (rq_id request) st (Some buf) n u \<and>
        n \<le> rq_requested_length request \<and> unat n \<le> length buf \<and> n \<le> VIRTUSB_TRANSFER_DATA_MAX \<and>
        (case device_answer (rq_setup request) of
           None \<Rightarrow> st = - EPIPE \<and> n = 0
         | Some data \<Rightarrow> st = 0 \<and> unat n = min (length data) (unat (rq_requested_length request)) \<and>
             take (unat n) buf = take (unat n) data))"

lemma handle_control_answer:
  assumes su: "rq_has_setup request" "length (rq_setup request) = 8"
  obtains shown where "answers sys handle request (printf shown u) (handle_control_transfer sys handle request u)"
proof -
  note bytes = setup_bytes [OF su(2)]
  obtain shown where shown: "setup_text request = Some shown" using bytes(4) by blast
  let ?s = "rq_setup request"
  let ?ans = "answers sys handle request (printf shown u)"
  have silent: "?ans (virtusb_transfer_complete_lib sys handle (rq_id request) st None 0 (printf shown u))"
    if "device_answer ?s = (if st = 0 then Some [] else None)" "st = 0 \<or> st = - EPIPE" for st
    unfolding complete_nothing answers_def
    by (rule exI [of _ st], rule exI [of _ "[]"], rule exI [of _ 0]) (use that in auto)
  have data: "?ans (complete_data sys handle request d k (printf shown u))"
    if ans: "device_answer ?s = Some (take k d)" and k: "k \<le> length d" "k \<le> 18" for d k
  proof -
    from k have "k \<le> 4096" by simp
    with k(1) obtain n where n: "complete_data sys handle request d k (printf shown u) =
        virtusb_transfer_complete_lib sys handle (rq_id request) 0 (Some d) n (printf shown u)"
      "unat n = min k (unat (rq_requested_length request))" by (rule complete_data_answer)
    have d: "take (unat n) d = take (unat n) (take k d)" "unat n = min (length (take k d)) (unat (rq_requested_length request))"
      using n(2) k by simp_all
    show ?thesis
      unfolding n(1) answers_def
      by (rule exI [of _ 0], rule exI [of _ d], rule exI [of _ n]) (use ans n(2) k d in \<open>simp add: word_le_nat_alt min_le_iff_disj\<close>)
  qed
  have code: "handle_control_transfer sys handle request u = (let stall = virtusb_transfer_complete_lib sys handle (rq_id request) (- EPIPE) None 0 in
      if bit (?s ! 0) 5 \<or> bit (?s ! 0) 6 then stall (printf shown u)
      else if ?s ! 1 = 6 then
        (if \<not> bit (?s ! 0) 7 then stall (printf shown u)
         else if ?s ! 3 = 1 then complete_data sys handle request device_descriptor (length device_descriptor) (printf shown u)
         else if ?s ! 3 = 2 then complete_data sys handle request configuration_descriptor (length configuration_descriptor) (printf shown u)
         else stall (printf shown u))
      else if ?s ! 1 = 5 \<or> ?s ! 1 = 9 then
        (if \<not> bit (?s ! 0) 7 then virtusb_transfer_complete_lib sys handle (rq_id request) 0 None 0 (printf shown u) else stall (printf shown u))
      else if ?s ! 1 = 8 then
        (if bit (?s ! 0) 7 \<and> take_bit 5 (?s ! 0) = 0 then complete_data sys handle request [1, 0] 1 (printf shown u) else stall (printf shown u))
      else if ?s ! 1 = 0 then
        (if bit (?s ! 0) 7 then complete_data sys handle request [0, 0] 2 (printf shown u) else stall (printf shown u))
      else stall (printf shown u))"
    using su(1) unfolding handle_control_transfer_def bytes(1-3) shown Option.bind_lunit Let_def request_type_bits descriptor_type_byte
    by auto
  have ans_if: "(c \<Longrightarrow> ?ans m1) \<Longrightarrow> (\<not> c \<Longrightarrow> ?ans m2) \<Longrightarrow> ?ans (if c then m1 else m2)" for c m1 m2
    by simp
  have "?ans (handle_control_transfer sys handle request u)"
    unfolding code Let_def
    by (intro ans_if) (auto intro!: silent data simp: device_answer_def device_descriptor_def configuration_descriptor_def)
  then show thesis by (rule that)
qed

section \<open>From the URB to the answer and back\<close>

lemma printf_view [simp]:
  "below (printf shown u) = below u" "handle_open p f c (printf shown u) = handle_open p f c u"
  by (simp_all add: printf_def handle_open_def load_handle_def)

lemma completed_answer:
  assumes "unat n \<le> length buf" "take (unat n) buf = take (unat n) data"
  shows "urb_actual_length (completed_urb urb tr (completion_of i st buf n)) = n"
    and "urb_transfer_buffer (completed_urb urb tr (completion_of i st buf n)) =
      (if t_direction tr = VIRTUSB_TRANSFER_DIRECTION_IN
       then map_option (\<lambda>b. take (unat n) data @ drop (unat n) b) (urb_transfer_buffer urb) else urb_transfer_buffer urb)"
proof -
  have bytes: "take (unat n) (tc_data (completion_of i st buf n)) = take (unat n) data"
    unfolding assms(2) [symmetric] using assms(1) by simp
  show "urb_transfer_buffer (completed_urb urb tr (completion_of i st buf n)) =
      (if t_direction tr = VIRTUSB_TRANSFER_DIRECTION_IN
       then map_option (\<lambda>b. take (unat n) data @ drop (unat n) b) (urb_transfer_buffer urb) else urb_transfer_buffer urb)"
    unfolding completed_urb_def Let_def completion_of_sel(3) bytes by (cases "unat n = 0") (simp_all add: option.map_ident)
  show "urb_actual_length (completed_urb urb tr (completion_of i st buf n)) = n" by (simp add: completed_urb_def Let_def)
qed

text \<open>The request the library makes of a fetched control transfer.\<close>

lemma fetched_control_request:
  fixes ob :: virtusb_object
  assumes ok: "transfer_ok tr" and small: "t_requested_length tr \<le> VIRTUSB_TRANSFER_DATA_MAX"
    and control: "t_type tr = VIRTUSB_TRANSFER_TYPE_CONTROL" "t_endpoint tr = 0"
  defines "rq \<equiv> request_from_uapi (fetch_of tr ob)"
  shows "rq_has_setup rq" and "length (rq_setup rq) = 8" and "rq_setup rq = t_setup tr" and "rq_id rq = t_id tr"
    and "unat (rq_requested_length rq) = unat (t_requested_length tr)"
    and "serve_request sys handle (obj_id ob) rq u = handle_control_transfer sys handle rq u"
proof -
  show "unat (rq_requested_length rq) = unat (t_requested_length tr)"
    using small by (simp add: rq_def request_from_uapi_def fetch_of_def unsigned_ucast_eq take_bit_nat_eq_self word_le_nat_alt)
  show "serve_request sys handle (obj_id ob) rq u = handle_control_transfer sys handle rq u"
    using control by (simp add: serve_request_def rq_def request_from_uapi_def fetch_of_def)
qed (use ok control in \<open>simp_all add: rq_def request_from_uapi_def fetch_of_def transfer_ok_def\<close>)

text \<open>C34: the device that the test program plays answers every control request as its specification says,
  and the host gets this answer: the program fetches the request, and the URB comes back once, with
  a stall when the device does not know the request, and otherwise with the data of the answer, cut
  to what the host asked for, at the start of its buffer. The driver accepts every completion the
  program makes.\<close>

theorem test_device_answers:
  fixes u :: "(vfs, 'a) terminal_scheme"
  assumes wf: "control_wf held pins (below u)" and p: "handle_open p f c u" and b: "load_back c (below u) = Some b"
    and bd: "virtusb_backend_find_owner_locked b f = Some bd" and q: "device_queue (below u) b (bind_device bd) = r # rs"
    and tr: "load_trans (req_transfer r) (below u) = Some tr" and urb: "load_urb (req_urb r) (below u) = Some urb"
    and ob: "load_obj (bind_device bd) (below u) = Some ob"
    and i: "t_id tr \<noteq> 0" "fetched_as f (t_id tr) (below u) b = None"
    and control: "t_type tr = VIRTUSB_TRANSFER_TYPE_CONTROL" "t_endpoint tr = 0"
  shows "runs (do { (fetched, u) \<leftarrow> virtusb_transfer_fetch_lib (kernel_calls True xa_mem waits nodes) (Some p) True u;
                    (_, request) \<leftarrow> fetched;
                    request \<leftarrow> request;
                    serve_request (kernel_calls True xa_mem waits nodes) (Some p) (obj_id ob) request u })
    (\<lambda>(completed, u'). completed = Some 0 \<and> control_wf held pins (below u') \<and>
      load_back c (below u') = Some (b\<lparr>pending := remove1 r (pending b)\<rparr>) \<and>
      (\<exists>urb' st. givebacks (below u') = (req_urb r, urb', st) # givebacks (below u) \<and>
        (case device_answer (t_setup tr) of
           None \<Rightarrow> st = - EPIPE \<and> urb_actual_length urb' = 0 \<and> urb_transfer_buffer urb' = urb_transfer_buffer urb
         | Some data \<Rightarrow> st = 0 \<and>
             (let n = min (length data) (unat (t_requested_length tr))
              in unat (urb_actual_length urb') = n \<and>
                 urb_transfer_buffer urb' =
                   (if t_direction tr = VIRTUSB_TRANSFER_DIRECTION_IN
                    then map_option (\<lambda>buf. take n data @ drop n buf) (urb_transfer_buffer urb)
                    else urb_transfer_buffer urb)))))"
proof -
  let ?sys = "kernel_calls True xa_mem waits nodes"
  have "r \<in> set (device_queue (below u) b (bind_device bd))" by (simp add: q)
  then have r: "r \<in> set (pending b)" by (simp add: device_queue_def)
  note kept = control_wfD(1) [OF wf]
  have ok: "transfer_ok tr" using trans_wfD(5) [OF back_wfD(1) [OF kept] tr] .
  from requestsI [OF b, of r] r have "(c, req_urb r, req_transfer r) \<in> requests (below u)" by simp
  from back_structD(3) [OF back_wfD(2) [OF kept] this] have "request_ok (below u) (req_urb r) (req_transfer r)" .
  then have small: "t_requested_length tr \<le> VIRTUSB_TRANSFER_DATA_MAX" using tr by (auto simp: request_ok_def)
  note fetch = virtusb_transfer_fetch_lib_ok [OF wf p b bd q tr ob]
  let ?u1 = "on_kernel (put_back c (moved f r b) (below u)) u"
  let ?rq = "request_from_uapi (fetch_of tr ob)"
  note rq = fetched_control_request [OF ok small control, where ob = ob]
  note serve = rq(6) [of ?sys "Some p" ?u1] and len = rq(5)
  from handle_control_answer [OF rq(1,2), of ?sys "Some p" ?u1] obtain shown where
    "answers ?sys (Some p) ?rq (printf shown ?u1) (handle_control_transfer ?sys (Some p) ?rq ?u1)" .
  then obtain st buf n where
    code: "handle_control_transfer ?sys (Some p) ?rq ?u1 =
        virtusb_transfer_complete_lib ?sys (Some p) (t_id tr) st (Some buf) n (printf shown ?u1)"
    and n: "unat n \<le> length buf" "n \<le> VIRTUSB_TRANSFER_DATA_MAX" "unat n \<le> unat (t_requested_length tr)"
    and ans: "case device_answer (t_setup tr) of
         None \<Rightarrow> st = - EPIPE \<and> n = 0
       | Some data \<Rightarrow> st = 0 \<and> unat n = min (length data) (unat (t_requested_length tr)) \<and> take (unat n) buf = take (unat n) data"
    unfolding answers_def rq(3,4) len by (auto simp only: word_le_nat_alt len)
  let ?u2 = "printf shown ?u1"
  have u2: "below ?u2 = put_back c (moved f r b) (below u)" "control_wf held pins (below ?u2)" "handle_open p f c ?u2"
    using fetch(2,3) by simp_all
  from completes_fetched [OF wf b r tr urb i u2 n(2,1), of xa_mem waits nodes st] n(3) obtain u' where
    over: "virtusb_transfer_complete_lib ?sys (Some p) (t_id tr) st (Some buf) n ?u2 = Some (Some 0, u')"
      "control_wf held pins (below u')" "load_back c (below u') = Some (b\<lparr>pending := remove1 r (pending b)\<rparr>)"
      "givebacks (below u') = (req_urb r, completed_urb urb tr (completion_of (t_id tr) st buf n), st) # givebacks (below u)"
    by (auto simp: runs_iff)
  show ?thesis
  proof (cases "device_answer (t_setup tr)")
    case None
    with ans have "st = - EPIPE" "n = 0" by simp_all
    with None over completed_answer [of n buf "[]" urb tr "t_id tr" st] n show ?thesis
      by (simp add: fetch(1) serve code option.map_ident)
  next
    case (Some data)
    have data: "st = 0" "unat n = min (length data) (unat (t_requested_length tr))" "take (unat n) buf = take (unat n) data"
      using ans unfolding Some option.case by blast+
    from completed_answer [OF n(1) data(3), of urb tr "t_id tr" st] over data(1,2) Some show ?thesis
      by (simp add: fetch(1) serve code)
  qed
qed

lemma example_device_queued:
  "load_obj (bind_device \<lparr>bind_device = 1, bind_owner = 5\<rparr>) example_queued = Some ((example_object 1)\<lparr>obj_refcount := 3\<rparr>)"
  by (simp add: example_queued_def submitted_def example_bound_def Let_def) (simp add: example_object_def)

lemma no_givebacks: "givebacks (loaded example_queued) = []"
  by (simp add: loaded_def kback.defs example_queued_def submitted_def Let_def example_bound_def) (simp add: example_kback_def)

theorem test_device_answers_witness:
  "runs (do { (fetched, u) \<leftarrow> virtusb_transfer_fetch_lib (kernel_calls True True [] example_nodes) (Some 1) True (process example_queued);
              (_, request) \<leftarrow> fetched;
              request \<leftarrow> request;
              serve_request (kernel_calls True True [] example_nodes) (Some 1) 1 request u })
    (\<lambda>(completed, u'). completed = Some 0 \<and>
       (\<exists>urb. givebacks (below u') = [(9, urb, 0)] \<and> urb_transfer_buffer urb = Some device_descriptor))"
proof -
  let ?tr = "example_transfer\<lparr>t_refcount := 2, t_state := VIRTUSB_TRANSFER_STATE_QUEUED\<rparr>"
  have wf: "control_wf (\<lambda>_. 0) ((\<lambda>_. 0)(3 := 1)) (below (process example_queued))"
    unfolding process_sel by (rule control_wf_examples(3))
  have q: "device_queue (below (process example_queued)) queued_backend (bind_device \<lparr>bind_device = 1, bind_owner = 5\<rparr>) = example_request # []"
    using example_queue by (simp add: device_queue_def device_of_def)
  have fresh: "fetched_as 5 (t_id ?tr) (below (process example_queued)) queued_backend = None" by (simp add: fetched_as_def)
  have sel: "load_back 0 (below (process example_queued)) = Some queued_backend"
    "load_trans (req_transfer example_request) (below (process example_queued)) = Some ?tr"
    "load_urb (req_urb example_request) (below (process example_queued)) = Some example_urb" "t_id ?tr \<noteq> 0" by simp_all
  obtain ob where ob: "load_obj (bind_device \<lparr>bind_device = 1, bind_owner = 5\<rparr>) (below (process example_queued)) = Some ob" "obj_id ob = 1"
    by (rule that [of "(example_object 1)\<lparr>obj_refcount := 3\<rparr>"]) (simp_all only: process_sel loaded_sel example_device_queued, simp_all add: example_object_def)
  have control: "t_type ?tr = VIRTUSB_TRANSFER_TYPE_CONTROL" "t_endpoint ?tr = 0" by (simp_all add: example_transfer_def created_transfer_def)
  have ans: "device_answer (t_setup ?tr) = Some device_descriptor"
    by (simp add: example_transfer_def created_transfer_def device_answer_def)
  show ?thesis
    by (rule runs_mono [OF test_device_answers [where xa_mem = True and waits = "[]" and nodes = example_nodes,
        OF wf process_sel(2) sel(1) example_session(1) q sel(2,3) ob(1) sel(4) fresh control, unfolded ob(2) ans]])
       (auto simp: device_descriptor_def Let_def example_urb_def no_givebacks)
qed

section \<open>Cleaning up\<close>

text \<open>What the USB core does with a controller is a step of another thread that may come while a program waits.\<close>

lemma core_quiet_step:
  assumes "\<And>s. control_wf held pins s \<Longrightarrow> core_steps h s (step s)"
  shows "quiet_step held pins step"
  using control_wf_core [OF assms] core_keepsD(5,6) unfolding quiet_step_def by blast

lemma wake_up_quiet_step: "quiet_step held pins (wake_up_interruptible_all h)"
  by (simp add: quiet_step_def)

text \<open>C35: whatever the arguments and whatever fails, the three test programs read and write only memory
  they own; when one of them ends, its exit status is 0 or 1, its descriptors, its handles, the files
  that are open and the devices the driver knows are those of its start, and every session in the
  driver belongs to a file that was open then: on every path the device it created is destroyed, its
  file closed and its session ended. While a program waits for a request, other threads may do
  anything that keeps the driver well formed and neither registers or removes a device, nor opens or
  closes a file, nor changes a controller's record; all steps of the USB core are of this kind.\<close>

theorem test_programs_clean_up:
  fixes u :: "(vfs, 'a) terminal_scheme"
  assumes "process_ok held pins u" and "runs_on env mem xa_mem waits nodes u" and "\<forall>(ret, step) \<in> set waits. quiet_step held pins step"
    and "main \<in> {test_device_main env program args, test_unregister_main env rounds, test_rollback_main env rounds}"
  shows "runs (main u) (\<lambda>(code, u'). process_ok held pins u' \<and>
    (\<forall>c. code = Some c \<longrightarrow> (c = EXIT_SUCCESS \<or> c = EXIT_FAILURE) \<and> fds (kern u') = fds (kern u) \<and> handles u' = handles u \<and>
       (\<forall>i. unknown i (below u') \<longleftrightarrow> unknown i (below u)) \<and> (\<forall>f. load_file f (below u') = load_file f (below u)) \<and>
       (\<forall>h b. load_back h (below u') = Some b \<longrightarrow> (\<forall>bd \<in> set (bindings b). load_file (bind_owner bd) (below u) \<noteq> None))))"
proof -
  note ok = test_device_main_ok [OF assms(1-3)] test_unregister_main_ok [OF assms(1-3)] test_rollback_main_ok [OF assms(1-3)]
  have same: "unknown i (below u') \<longleftrightarrow> unknown i (below u)" if "devices u' = devices u" for i and u' :: "(vfs, 'a) terminal_scheme"
    using that unfolding devices_def set_eq_iff mem_Collect_eq by blast
  have owners: "load_file (bind_owner bd) (below u') \<noteq> None"
    if "process_ok held pins u'" "load_back h (below u') = Some b" "bd \<in> set (bindings b)"
    for h b bd and u' :: "(vfs, 'a) terminal_scheme"
  proof -
    from that(1) have "control_wf held pins (below u')" by (simp add: process_ok_def)
    from ctl_okD(4) [OF control_wfD(2) [OF this] that(2,3)] show ?thesis by blast
  qed
  from assms(4) ok have "runs (main u) (restored held pins u)" by auto
  then show ?thesis
  proof (rule runs_mono)
    fix r assume r: "restored held pins u r"
    obtain code u' where [simp]: "r = (code, u')" by (cases r)
    show "case r of (code, u') \<Rightarrow> process_ok held pins u' \<and>
      (\<forall>c. code = Some c \<longrightarrow> (c = EXIT_SUCCESS \<or> c = EXIT_FAILURE) \<and> fds (kern u') = fds (kern u) \<and> handles u' = handles u \<and>
         (\<forall>i. unknown i (below u') \<longleftrightarrow> unknown i (below u)) \<and> (\<forall>f. load_file f (below u') = load_file f (below u)) \<and>
         (\<forall>h b. load_back h (below u') = Some b \<longrightarrow> (\<forall>bd \<in> set (bindings b). load_file (bind_owner bd) (below u) \<noteq> None)))"
    proof (cases code)
      case (Some c)
      with r have "devices u' = devices u" "process_ok held pins u'" "\<forall>f. load_file f (below u') = load_file f (below u)"
        "c = EXIT_SUCCESS \<or> c = EXIT_FAILURE" "fds (kern u') = fds (kern u)" "handles u' = handles u"
        by (auto simp: restored_def)
      with Some same [of u'] owners [of u'] show ?thesis by simp
    qed (use r in \<open>simp add: restored_def\<close>)
  qed
qed

definition example_signalled :: "(int \<times> (khcd \<Rightarrow> khcd)) list \<Rightarrow> vfs signalled" where
  "example_signalled waits = \<lparr>env_sys = kernel_calls True True waits example_nodes, env_calloc = Inr 2, env_strerror = \<lambda>_. ''error'',
     env_sigaction = 0, env_signals = [False, True]\<rparr>"

text \<open>While the program waits, the USB core enqueues a URB of its own, then the program is woken up.\<close>

definition core_enqueues :: "nat \<Rightarrow> nat \<Rightarrow> khcd \<Rightarrow> khcd" where
  "core_enqueues h u s =
     (case (load_hub h s, load_back h s, load_urb u s) of
        (Some _, Some _, Some ub) \<Rightarrow>
          if urb_ok ub \<and> \<not> linked s u then
            (case virtusb_hcd_urb_enqueue True True (\<lambda>_. 0) True 0 (Some h) (Some u) s of None \<Rightarrow> s | Some (ret, s') \<Rightarrow> s')
          else s
      | _ \<Rightarrow> s)"

definition example_waits :: "(int \<times> (khcd \<Rightarrow> khcd)) list" where
  "example_waits = [(0, core_enqueues 0 9), (0, wake_up_interruptible_all 0), (- EINTR, \<lambda>s. s)]"

lemma quiet_waits: "\<forall>(ret, step) \<in> set example_waits. quiet_step held pins step"
proof -
  have "core_steps h s (core_enqueues h u s)" for h u s
    by (auto simp: core_enqueues_def split: option.split intro: core_step.urb_enqueue)
  then have "quiet_step held pins (core_enqueues 0 9)" by (rule core_quiet_step)
  moreover have "quiet_step held pins (\<lambda>s. s)" by (simp add: quiet_step_def)
  ultimately show ?thesis by (simp add: example_waits_def wake_up_quiet_step)
qed

theorem test_programs_clean_up_witness:
  "runs (test_device_main (example_signalled example_waits) [] [] (process example_kback)) (\<lambda>(code, u').
     \<forall>c. code = Some c \<longrightarrow> fds (kern u') 4 = None \<and> load_handle 2 u' = None)"
proof -
  have env: "runs_on (example_signalled example_waits) True True example_waits example_nodes (process example_kback)"
    using runs_in_process by (simp add: runs_on_def runs_in_def example_signalled_def example_environment_def)
  let ?env = "example_signalled example_waits"
  have main: "test_device_main ?env [] [] \<in> {test_device_main ?env [] [], test_unregister_main ?env 3, test_rollback_main ?env 3}" by simp
  have "fds (kern (process example_kback)) 4 = None" "handles (process example_kback) 2 = None" by (simp_all add: process_def)
  then show ?thesis
    by (intro runs_mono [OF test_programs_clean_up [OF process_ok_process [OF control_wf_examples(1)] env quiet_waits main]])
       (auto simp: load_handle_def)
qed

end
