(* ===== verification/Virtusb_Test_Session.thy ===== *)
theory Virtusb_Test_Session
  imports Virtusb_Test_Answers
begin

text \<open>
  Ending a session and starting another leaves the ports of the root hub as they are, so that the
  driver passes \<open>virtusb-test-backend-unregister\<close>.
\<close>

section \<open>Ports after a session\<close>

lemma port_connected_fades:
  assumes ports: "ports_wf s'" and fade: "ports_fade s s'" and hubs: "\<And>g. load_hub g s' = load_hub g s"
  shows "port_connected s' h k = port_connected s h k"
proof (cases k)
  case (Suc i)
  have hub_port: "load_port (Hub_port h i) s' = load_port (Hub_port h i) s" by (simp add: load_port.simps hubs)
  have peer: "load_port u s' = load_port u s" if "load_port (Hub_port h i) s' = Some p" "p_peer p = Some u" for p u
  proof -
    from ports that obtain q where "load_port u s' = Some q" by (rule ports_wf_peer)
    with fade show ?thesis by (metis ports_fade_def option.distinct(1))
  qed
  show ?thesis
    using peer by (auto simp: Suc port_connected.simps hub_port split: option.split)
qed (simp add: port_connected.simps)

lemma lib_state_fades:
  assumes "ports_wf s'" and "ports_fade s s'" and "\<And>g. load_hub g s' = load_hub g s"
  shows "lib_state_of s' h hub n st = lib_state_of s h hub n st"
  by (simp add: lib_state_of_def port_status_bit_def port_connected_fades [OF assms])

lemma plugged_fades:
  assumes wf: "dev_wf held s'" and fade: "ports_fade s s'" and d: "load_obj d s' = Some ob" and plugged: "plugged (cabling_of s) d = Some (h, i)"
  shows "plugged (cabling_of s') d = Some (h, i)"
proof -
  from dev_wfD(3) [OF wf, of d] d have "load_port (Dev_port d) s' \<noteq> None" by (simp add: load_port.simps)
  with fade have "load_port (Dev_port d) s' = load_port (Dev_port d) s" by (metis ports_fade_def)
  with plugged show ?thesis by (simp add: plugged_eq)
qed

section \<open>The calls of the test\<close>

text \<open>The three status bits the test asks for.\<close>

definition port_in_service :: "'a topo_scheme \<Rightarrow> nat \<Rightarrow> virtusb_hub \<Rightarrow> u32 \<Rightarrow> bool" where
  "port_in_service s h hub n \<longleftrightarrow> (\<forall>b \<in> {0, 1, 8}. port_status_bit s h hub n b)"

lemma required_bits:
  "w AND (VIRTUSB_STATUS_CONNECTED OR VIRTUSB_STATUS_ENABLED OR VIRTUSB_STATUS_POWER) =
     VIRTUSB_STATUS_CONNECTED OR VIRTUSB_STATUS_ENABLED OR VIRTUSB_STATUS_POWER \<longleftrightarrow> bit w 0 \<and> bit w 1 \<and> bit w 8"
  (is "w AND ?m = ?m \<longleftrightarrow> _")
proof -
  have m: "?m = 2 ^ 0 OR (2 ^ 1 OR 2 ^ 8)" by simp
  have "w AND ?m = ?m \<longleftrightarrow> (\<forall>k. bit ?m k \<longrightarrow> bit w k)"
  proof
    assume "w AND ?m = ?m"
    then show "\<forall>k. bit ?m k \<longrightarrow> bit w k" by (metis bit_and_iff)
  next
    assume "\<forall>k. bit ?m k \<longrightarrow> bit w k"
    then show "w AND ?m = ?m" by (intro bit_word_eqI) (simp only: bit_and_iff, blast)
  qed
  moreover have "bit ?m k \<longleftrightarrow> k \<in> {0, 1, 8}" for k
    unfolding m bit_or_iff bit_exp_iff by auto
  ultimately show ?thesis by (simp only:) blast
qed

lemma verify_port_ok:
  fixes u :: "(vfs, 'a) terminal_scheme"
  assumes wf: "control_wf held pins (below u)" and p: "handle_open p f c u" and h: "load_hub c (below u) = Some hub" and n: "valid_port hub n"
  obtains shown where "verify_port (kernel_calls mem xa_mem waits nodes) (Some p) n u =
    Some (Some (if port_in_service (below u) c hub n then 0 else - EIO), printf shown u)"
proof -
  have n': "n \<noteq> 0" "n \<le> ucast (hub_port_count hub)" using n by (auto simp: valid_port_def)
  obtain st where st: "virtusb_get_port_status (kernel_calls mem xa_mem waits nodes) (Some p) 0 n True u = Some (Some (0, Some st), u)"
    "lib_state_of (below u) c hub n (vs_state st)"
    by (rule virtusb_get_port_status_ok [OF wf p h n'(2), of mem xa_mem waits nodes]) (use n'(1) in blast)
  have "st_status (vs_state st) AND (VIRTUSB_STATUS_CONNECTED OR VIRTUSB_STATUS_ENABLED OR VIRTUSB_STATUS_POWER) =
      VIRTUSB_STATUS_CONNECTED OR VIRTUSB_STATUS_ENABLED OR VIRTUSB_STATUS_POWER \<longleftrightarrow> port_in_service (below u) c hub n"
    unfolding required_bits using st(2) by (auto simp: lib_state_of_def port_in_service_def)
  then show ?thesis
    by (intro that [of "''port '' @ print_u n @ '' status=0x'' @ print_x 8 (st_status (vs_state st)) @
        '' speed='' @ print_u (virtusb_speed_number (st_speed (vs_state st))) @ newline"])
       (simp add: verify_port_def st(1) and_then_Some Let_def del: One_nat_def)
qed

lemma unregister_call_ok:
  fixes u :: "(vfs, 'a) uproc_scheme"
  assumes wf: "control_wf held pins (below u)" and p: "handle_open p f c u" and b: "load_back c (below u) = Some b"
    and bd: "virtusb_backend_find_owner_locked b f = Some bd"
  obtains s where "virtusb_backend_unregister_lib (kernel_calls mem xa_mem waits nodes) (Some p) u = Some (Some 0, on_kernel s u)"
    and "control_wf held pins s" and "kback.more s = kback.more (below u)" and "registry s = registry (below u)"
    and "\<And>g. load_hub g s = load_hub g (below u)" and "ports_fade (below u) s"
    and "load_back c s = Some (b\<lparr>bindings := remove1 bd (bindings b),
       pending := filter (\<lambda>r. device_of (below u) r \<noteq> bind_device bd) (pending b),
       active := filter (\<lambda>r. device_of (below u) r \<noteq> bind_device bd) (active b)\<rparr>)"
    and "\<exists>gs. givebacks s = gs @ givebacks (below u) \<and> map (\<lambda>(u, _, st). (u, st)) gs =
       rev (map (\<lambda>r. (req_urb r, - ESHUTDOWN)) (filter (\<lambda>r. device_of (below u) r = bind_device bd) (pending b @ active b)))"
proof -
  have live: "live f c (below u)" using p by (simp add: handle_open_def)
  then have "opened f c (below u)" by (simp add: live_def)
  then obtain v where v: "load_hcd c (below u) = Some v" "ctl_hcd (vh_control v) = Some c" "vh_linux_hcd v = Some c"
    using wf by (rule openedE)
  from control_release_owner_ok [OF wf b, of f] obtain s where
    rel: "virtusb_backend_release_owner (Some c) (Some c) (Some f) (below u) = Some s" "control_wf held pins s"
      "kback.more s = kback.more (below u)"
    and binding: "load_back c s = Some (b\<lparr>bindings := remove1 bd (bindings b),
       pending := filter (\<lambda>r. device_of (below u) r \<noteq> bind_device bd) (pending b),
       active := filter (\<lambda>r. device_of (below u) r \<noteq> bind_device bd) (active b)\<rparr>)"
    and gave: "gave_back_all c (filter (\<lambda>r. device_of (below u) r = bind_device bd) (pending b @ active b)) (- ESHUTDOWN)
       (wake_up_interruptible_all c (below u)) s"
    unfolding runs_iff bd option.case by blast
  have "virtusb_control_ioctl mem xa_mem waits f VIRTUSB_IOCTL_BACKEND_UNREGISTER (no_memory\<lparr>um_writable := False\<rparr>) (below u) =
      Some (Some (0, None), s)"
    by (simp add: virtusb_control_ioctl_def live_ioctl [OF live] Let_def ioctl_distinct v rel(1))
  then have call: "virtusb_backend_unregister_lib (kernel_calls mem xa_mem waits nodes) (Some p) u = Some (Some 0, on_kernel s u)"
    by (simp add: virtusb_backend_unregister_lib_def library_ioctl [OF p])
  from gave show ?thesis
    by (intro that [OF call rel(2,3) _ _ _ binding]) (simp_all add: gave_back_all_def)
qed

lemma register_call_ok:
  fixes u :: "(vfs, 'a) uproc_scheme"
  assumes wf: "control_wf held pins (below u)" and p: "handle_open p f c u" and b: "load_back c (below u) = Some b" and run: "\<not> stopping b"
    and ob: "load_obj d (below u) = Some ob" "obj_registered ob" and plugged: "plugged (cabling_of (below u)) d = Some (c, j)"
    and free: "f \<notin> bind_owner ` set (bindings b)" "d \<notin> bind_device ` set (bindings b)"
  obtains s where "virtusb_backend_register_lib (kernel_calls True xa_mem waits nodes) (Some p) (obj_id ob) u = Some (Some 0, on_kernel s u)"
    and "control_wf held pins s" and "kback.more s = kback.more (below u)"
    and "\<And>g. load_hub g s = load_hub g (below u)" and "ports_fade (below u) s"
    and "load_back c s = Some (b\<lparr>bindings := bindings b @ [\<lparr>bind_device = d, bind_owner = f\<rparr>]\<rparr>)"
proof -
  have live: "live f c (below u)" using p by (simp add: handle_open_def)
  then have opened: "opened f c (below u)" by (simp add: live_def)
  note obj = obj_wfD [OF dev_wfD(2) [OF control_wf_dev [OF wf]]]
  from obj(1) [OF ob(1)] ob(2) have id0: "obj_id ob \<noteq> 0" by (auto simp: obj_ok_def)
  let ?argp = "no_memory\<lparr>um_backend_register := Some \<lparr>br_object_id = obj_id ob\<rparr>\<rparr>"
  have known: "\<not> unknown (obj_id ob) (below u)" using ob by (auto simp: unknown_def)
  from virtusb_control_backend_register_ok [OF wf opened b, of True ?argp] obtain ret s where
    code: "virtusb_control_backend_register True f c ?argp (below u) = Some (ret, s)"
    and s: "control_wf held pins s" "kback.more s = kback.more (below u)" "\<forall>g. load_hub g s = load_hub g (below u)" "ports_fade (below u) s"
    and res: "\<exists>d' ob'. load_obj d' (below u) = Some ob' \<and> obj_registered ob' \<and> obj_id ob' = obj_id ob \<and>
       (if \<forall>i. plugged (cabling_of (below u)) d' \<noteq> Some (c, i) then ret = - ENODEV \<and> s = below u
        else if stopping b then ret = - ESHUTDOWN \<and> s = below u
        else if f \<in> bind_owner ` set (bindings b) \<or> d' \<in> bind_device ` set (bindings b) then ret = - EBUSY \<and> s = below u
        else ret = 0 \<and> load_back c s = Some (b\<lparr>bindings := bindings b @ [\<lparr>bind_device = d', bind_owner = f\<rparr>]\<rparr>))"
    by (auto simp: runs_iff id0 known cong: if_cong)
  from res obtain d' ob' where d': "load_obj d' (below u) = Some ob'" "obj_id ob' = obj_id ob" and res':
    "if \<forall>i. plugged (cabling_of (below u)) d' \<noteq> Some (c, i) then ret = - ENODEV \<and> s = below u
        else if stopping b then ret = - ESHUTDOWN \<and> s = below u
        else if f \<in> bind_owner ` set (bindings b) \<or> d' \<in> bind_device ` set (bindings b) then ret = - EBUSY \<and> s = below u
        else ret = 0 \<and> load_back c s = Some (b\<lparr>bindings := bindings b @ [\<lparr>bind_device = d', bind_owner = f\<rparr>]\<rparr>)" by blast
  from obj(3) [OF d'(1) ob(1) d'(2)] id0 d'(2) have "d' = d" by simp
  with res' plugged run free have "ret = 0" and binding: "load_back c s = Some (b\<lparr>bindings := bindings b @ [\<lparr>bind_device = d, bind_owner = f\<rparr>]\<rparr>)"
    by (auto split: if_splits)
  have "virtusb_control_ioctl True xa_mem waits f VIRTUSB_IOCTL_BACKEND_REGISTER ?argp (below u) = Some (Some (ret, None), s)"
    by (simp add: virtusb_control_ioctl_def live_ioctl [OF live] Let_def ioctl_distinct code)
  then have call: "virtusb_backend_register_lib (kernel_calls True xa_mem waits nodes) (Some p) (obj_id ob) u = Some (Some 0, on_kernel s u)"
    using id0 \<open>ret = 0\<close> by (simp add: virtusb_backend_register_lib_def library_ioctl [OF p])
  from s show ?thesis by (intro that [OF call s(1,2) _ s(4) binding]) simp
qed

section \<open>The test\<close>

lemma failure_view [simp]:
  "below (failure env what e u) = below u" "handle_open p f c (failure env what e u) = handle_open p f c u"
  by (simp_all add: failure_def eprintf_def handle_open_def load_handle_def)

lemma live_unchanged: "handle_open p f c u \<Longrightarrow> kback.more s = kback.more (below u) \<Longrightarrow> handle_open p f c (on_kernel s u)"
  using live_more [of s "below u"] by (simp add: handle_open_on_kernel) (simp add: handle_open_def)

text \<open>The session of a file after its end: no binding has its owner or its device.\<close>

lemma session_removed:
  assumes ok: "backend_ok E s b" and bd: "virtusb_backend_find_owner_locked b f = Some bd"
  shows "bd = \<lparr>bind_device = bind_device bd, bind_owner = f\<rparr>"
    and "f \<notin> bind_owner ` set (remove1 bd (bindings b))" and "bind_device bd \<notin> bind_device ` set (remove1 bd (bindings b))"
proof -
  note o = find_owner_ok [OF ok bd]
  show "bd = \<lparr>bind_device = bind_device bd, bind_owner = f\<rparr>" using o(2) by (cases bd) simp
  have "distinct (map g xs) \<Longrightarrow> x \<in> set xs \<Longrightarrow> g x \<notin> g ` set (remove1 x xs)" for g :: "virtusb_backend_binding \<Rightarrow> nat" and x xs
    by (auto simp: distinct_map set_remove1_eq inj_on_def)
  with ok o show "f \<notin> bind_owner ` set (remove1 bd (bindings b))" "bind_device bd \<notin> bind_device ` set (remove1 bd (bindings b))"
    unfolding backend_ok_def by blast+
qed

text \<open>
  After the end of the session: only its requests are gone, the ports report what they did, and the
  device can be registered again.
\<close>

lemma session_ended:
  fixes u :: "(vfs, 'a) terminal_scheme"
  assumes wf: "control_wf held pins (below u)" and p: "handle_open p f c u" and b: "load_back c (below u) = Some b"
    and bd: "virtusb_backend_find_owner_locked b f = Some bd" and ob: "load_obj (bind_device bd) (below u) = Some ob"
    and plugged: "plugged (cabling_of (below u)) (bind_device bd) = Some (c, j)"
  obtains s ob2 where "virtusb_backend_unregister_lib (kernel_calls mem xa_mem waits nodes) (Some p) u = Some (Some 0, on_kernel s u)"
    and "control_wf held pins s" and "handle_open p f c (on_kernel s u)"
    and "\<And>g. load_hub g s = load_hub g (below u)" and "ports_fade (below u) s"
    and "load_back c s = Some (b\<lparr>bindings := remove1 bd (bindings b),
       pending := filter (\<lambda>r. device_of (below u) r \<noteq> bind_device bd) (pending b),
       active := filter (\<lambda>r. device_of (below u) r \<noteq> bind_device bd) (active b)\<rparr>)"
    and "load_obj (bind_device bd) s = Some ob2" and "obj_registered ob2" and "obj_id ob2 = obj_id ob"
    and "plugged (cabling_of s) (bind_device bd) = Some (c, j)"
proof -
  obtain s where ended: "virtusb_backend_unregister_lib (kernel_calls mem xa_mem waits nodes) (Some p) u = Some (Some 0, on_kernel s u)"
    and s: "control_wf held pins s" "kback.more s = kback.more (below u)" "registry s = registry (below u)"
      "\<And>g. load_hub g s = load_hub g (below u)" "ports_fade (below u) s"
    and lists: "load_back c s = Some (b\<lparr>bindings := remove1 bd (bindings b),
       pending := filter (\<lambda>r. device_of (below u) r \<noteq> bind_device bd) (pending b),
       active := filter (\<lambda>r. device_of (below u) r \<noteq> bind_device bd) (active b)\<rparr>)"
    by (rule unregister_call_ok [OF wf p b bd, of mem xa_mem waits nodes]) simp
  note dev = control_wf_dev [OF wf] and dev2 = control_wf_dev [OF s(1)]
  note obj = obj_wfD [OF dev_wfD(2) [OF dev]] and obj2 = obj_wfD [OF dev_wfD(2) [OF dev2]]
  have "obj_registered ob" using dev_wfD(5) [OF dev _ ob] plugged by (auto simp: plugged_eq)
  then have "xa_load (registry s) (ucast (obj_id ob)) = Some (bind_device bd)" using obj(4) ob s(3) by auto
  with obj2(4) obtain ob2 where ob2: "load_obj (bind_device bd) s = Some ob2" "obj_registered ob2" "(ucast (obj_id ob) :: u64) = ucast (obj_id ob2)" by blast
  have "obj_id ob2 = obj_id ob" using ob2(3) by (simp add: ucast_id_inj)
  then show thesis
    by (rule that [OF ended s(1) live_unchanged [OF p s(2)] s(4,5) lists ob2(1,2) _ plugged_fades [OF dev2 s(5) ob2(1) plugged]])
qed

text \<open>C36: the driver passes the test \<open>virtusb-test-backend-unregister\<close>: with the device of its session
  plugged into the root hub, ending the session and starting it again leaves connection, enable and
  power of every port as they are, so that a port in service before is so between and after, and the
  test ends with its success message. Nothing else than the requests of the old session is gone. With port 1 not in service the test fails and changes nothing.\<close>

theorem driver_passes_reregister:
  fixes u :: "(vfs, 'a) terminal_scheme"
  assumes wf: "control_wf held pins (below u)" and p: "handle_open p f c u" and env: "env_sys env = kernel_calls True xa_mem waits nodes"
    and b: "load_back c (below u) = Some b" "\<not> stopping b" and bd: "virtusb_backend_find_owner_locked b f = Some bd"
    and ob: "load_obj (bind_device bd) (below u) = Some ob" and plugged: "plugged (cabling_of (below u)) (bind_device bd) = Some (c, j)"
    and h: "load_hub c (below u) = Some hub" and n: "valid_port hub 1"
  shows "runs (reregister_session env (Some p) (obj_id ob) u) (\<lambda>(result, u').
    control_wf held pins (below u') \<and>
    (if port_in_service (below u) c hub 1
     then result = Some (True, EXIT_SUCCESS) \<and> (\<forall>k. port_status_bit (below u') c hub k = port_status_bit (below u) c hub k) \<and>
       load_back c (below u') = Some (b\<lparr>bindings := remove1 bd (bindings b) @ [bd],
         pending := filter (\<lambda>r. device_of (below u) r \<noteq> bind_device bd) (pending b),
         active := filter (\<lambda>r. device_of (below u) r \<noteq> bind_device bd) (active b)\<rparr>) \<and>
       load_hub c (below u') = Some hub
     else result = Some (True, EXIT_FAILURE) \<and> below u' = below u))"
proof (cases "port_in_service (below u) c hub 1")
  case False
  obtain shown where "verify_port (env_sys env) (Some p) 1 u = Some (Some (if port_in_service (below u) c hub 1 then 0 else - EIO), printf shown u)"
    unfolding env by (rule verify_port_ok [OF wf p h n])
  with False wf show ?thesis by (simp add: reregister_session_def Let_def and_then_Some)
next
  case True
  note verify = verify_port_ok [where mem = True and xa_mem = xa_mem and waits = waits and nodes = nodes, folded env]
  obtain shown where first: "verify_port (env_sys env) (Some p) 1 u = Some (Some 0, printf shown u)"
    using verify [OF wf p h n] True by auto
  let ?u1 = "printf shown u"
  let ?b1 = "b\<lparr>bindings := remove1 bd (bindings b), pending := filter (\<lambda>r. device_of (below u) r \<noteq> bind_device bd) (pending b),
     active := filter (\<lambda>r. device_of (below u) r \<noteq> bind_device bd) (active b)\<rparr>"
  obtain s ob2 where ended: "virtusb_backend_unregister_lib (env_sys env) (Some p) ?u1 = Some (Some 0, on_kernel s ?u1)"
    and s: "control_wf held pins s" and p2: "handle_open p f c (on_kernel s ?u1)"
    and hubs: "\<And>g. load_hub g s = load_hub g (below u)" and fade: "ports_fade (below u) s" and lists: "load_back c s = Some ?b1"
    and ob2: "load_obj (bind_device bd) s = Some ob2" "obj_registered ob2" "obj_id ob2 = obj_id ob"
    and plugged2: "plugged (cabling_of s) (bind_device bd) = Some (c, j)"
    unfolding env
    by (rule session_ended [of held pins ?u1 p f c b bd ob j True xa_mem waits nodes]) (use wf p b(1) bd ob plugged in simp_all)
  let ?u2 = "on_kernel s ?u1"
  have ports: "ports_wf t" if "control_wf held pins t" for t
    using topo_wf_ports [OF back_wf_topo [OF control_wfD(1) [OF that]]] .
  have same: "port_status_bit t c hub k = port_status_bit (below u) c hub k"
    if "control_wf held pins t" "ports_fade (below u) t" "\<And>g. load_hub g t = load_hub g (below u)" for t k
    by (rule ext) (simp add: port_status_bit_def port_connected_fades [OF ports [OF that(1)] that(2,3)])
  have up: "port_in_service s c hub 1" using True same [OF s fade hubs] by (simp add: port_in_service_def)
  have h2: "load_hub c s = Some hub" using h by (simp add: hubs)
  obtain shown2 where second: "verify_port (env_sys env) (Some p) 1 ?u2 = Some (Some 0, printf shown2 ?u2)"
    using verify [of held pins ?u2, OF _ p2 _ n] s h2 up by auto
  let ?u3 = "printf shown2 ?u2"
  note removed = session_removed [OF back_structD(2) [OF back_wfD(2) [OF control_wfD(1) [OF wf]] b(1)] bd]
  obtain t where again: "virtusb_backend_register_lib (env_sys env) (Some p) (obj_id ob) ?u3 = Some (Some 0, on_kernel t ?u3)"
    and t: "control_wf held pins t" "kback.more t = kback.more s" "\<And>g. load_hub g t = load_hub g s" "ports_fade s t"
      "load_back c t = Some (?b1\<lparr>bindings := bindings ?b1 @ [\<lparr>bind_device = bind_device bd, bind_owner = f\<rparr>]\<rparr>)"
    unfolding env ob2(3) [symmetric]
    by (rule register_call_ok [of held pins ?u3 p f c ?b1 "bind_device bd" ob2 j xa_mem waits nodes])
       (use s lists p2 b(2) ob2(1,2) plugged2 removed(2,3) in simp_all)
  let ?u4 = "on_kernel t ?u3"
  have p4: "handle_open p f c ?u4" using p2 t(2) by (intro live_unchanged) simp_all
  have bits: "port_status_bit t c hub k = port_status_bit (below u) c hub k" for k
    by (rule same [OF t(1) ports_fade_trans [OF fade t(4)]]) (simp add: t(3) hubs)
  have h4: "load_hub c t = Some hub" using h by (simp add: hubs t(3))
  obtain shown3 where third: "verify_port (env_sys env) (Some p) 1 ?u4 = Some (Some 0, printf shown3 ?u4)"
    using verify [of held pins ?u4, OF _ p4 _ n] t(1) h4 True by (auto simp: port_in_service_def bits)
  show ?thesis
    using True t(1,5) h4 bits removed(1)
    by (simp add: reregister_session_def Let_def first ended second again third and_then_Some)
qed

text \<open>Port 1 of the example after the reset the host makes before it configures the device.\<close>

definition enabled_process :: "vfs terminal" where
  "enabled_process = on_kernel (reset_state VIRTUSB_PORT_SPEED_FULL 0 1 example_hub (loaded example_queued)) (process example_queued)"

lemma enabled_facts:
  "control_wf (\<lambda>_. 0) ((\<lambda>_. 0)(3 := 1)) (below enabled_process)" "handle_open 1 5 0 enabled_process"
  "load_back 0 (below enabled_process) = Some queued_backend"
  "load_hub 0 (below enabled_process) = Some (reset_hub VIRTUSB_PORT_SPEED_FULL 1 example_hub)"
  "valid_port (reset_hub VIRTUSB_PORT_SPEED_FULL 1 example_hub) 1"
  "port_in_service (below enabled_process) 0 (reset_hub VIRTUSB_PORT_SPEED_FULL 1 example_hub) 1"
  "plugged (cabling_of (below enabled_process)) 1 = Some (0, 0)"
  "load_obj 1 (below enabled_process) = Some ((example_object 1)\<lparr>obj_refcount := 3\<rparr>)"
  "device_of (below enabled_process) example_request = 1"
proof -
  let ?s = "loaded example_queued" and ?hub = "reset_hub VIRTUSB_PORT_SPEED_FULL 1 example_hub"
  let ?t = "reset_state VIRTUSB_PORT_SPEED_FULL 0 1 example_hub ?s"
  have wf: "control_wf (\<lambda>_. 0) ((\<lambda>_. 0)(3 := 1)) ?s" by (rule control_wf_examples(3))
  have topo: "topo_wf ?s" using back_wf_topo [OF control_wfD(1) [OF wf]] .
  have hub: "load_hub 0 ?s = Some example_hub" by (simp add: example_hubs)
  have at: "load_port (Dev_port 1) ?s = Some example_upstream"
    by (simp add: example_queued_def submitted_def example_bound_def Let_def load_port.simps) (simp add: example_kback_def example_topo_def)
  have n: "valid_port example_hub 1" by (simp add: valid_port_example)
  have conn: "port_connected ?s 0 (unat (1 :: u32))"
    using at hub by (simp add: port_connected.simps load_port.simps example_ports example_upstream_def fresh_port_def)
  have lay: "layout ?s ?t" by (rule layout_reset_state [OF hub])
  have port: "load_port a ?t = load_port a ?s" for a
    using load_port_put_hub [OF hub, of ?hub] by (simp add: reset_state_def reset_hub_def with_speed_def Let_def del: notified_put_hub)
  have t: "below enabled_process = ?t" by (simp add: enabled_process_def)
  have rest: "load_back 0 ?t = load_back 0 ?s" "load_obj 1 ?t = load_obj 1 ?s" "kback.more ?t = kback.more ?s" "load_trans 3 ?t = load_trans 3 ?s"
    by (simp_all add: reset_state_def notified_def log_event_def put_hub_def load_back_def load_obj_def load_trans_def
         split: option.split virtusb_hub_status_changed_t.split)
  show "load_back 0 (below enabled_process) = Some queued_backend" by (simp add: t rest)
  show "load_obj 1 (below enabled_process) = Some ((example_object 1)\<lparr>obj_refcount := 3\<rparr>)"
    using example_device_queued unfolding t rest by simp
  show "device_of (below enabled_process) example_request = 1" by (simp add: device_of_def t rest)
  show "control_wf (\<lambda>_. 0) ((\<lambda>_. 0)(3 := 1)) (below enabled_process)"
    unfolding t by (rule control_wf_topology [OF wf topo_wf_reset [OF topo hub n conn] lay]) (auto simp: port)
  show "handle_open 1 5 0 enabled_process"
    unfolding enabled_process_def by (rule live_unchanged [OF process_sel(2)]) (simp add: rest)
  have "port_connected ?t 0 1" using conn by (simp add: port_connected.simps port cong: option.case_cong)
  show "load_hub 0 (below enabled_process) = Some ?hub" by (simp add: t reset_state_def hub)
  show "valid_port ?hub 1" using n by (simp add: valid_port_def reset_hub_def Let_def with_speed_def)
  show "plugged (cabling_of (below enabled_process)) 1 = Some (0, 0)"
    using at by (simp add: t plugged_eq port) (simp add: example_upstream_def)
  show "port_in_service (below enabled_process) 0 ?hub 1"
    using \<open>port_connected ?t 0 1\<close>
    by (simp add: port_in_service_def port_status_bit_def t reset_hub_def Let_def with_speed_def example_ports fresh_port_def bit_simps)
qed

theorem driver_passes_reregister_witness:
  "runs (reregister_session (example_signalled []) (Some 1) 1 enabled_process) (\<lambda>(result, u').
     result = Some (True, EXIT_SUCCESS) \<and>
     load_back 0 (below u') = Some (queued_backend\<lparr>bindings := [\<lparr>bind_device = 1, bind_owner = 5\<rparr>], pending := []\<rparr>))"
proof -
  have env: "env_sys (example_signalled []) = kernel_calls True True [] example_nodes" by (simp add: example_signalled_def)
  have sel: "bind_device \<lparr>bind_device = 1, bind_owner = 5\<rparr> = 1" "obj_id ((example_object 1)\<lparr>obj_refcount := 3\<rparr>) = 1"
    by (simp_all add: example_object_def)
  have run: "\<not> stopping queued_backend" by (simp add: queued_backend_def bound_backend_def example_backend_def)
  note test = driver_passes_reregister [OF enabled_facts(1,2) env enabled_facts(3) run example_session(1), unfolded sel,
    OF enabled_facts(8,7,4,5), unfolded sel]
  show ?thesis
    by (rule runs_mono [OF test])
       (auto simp: enabled_facts(6) queued_backend_def bound_backend_def example_backend_def enabled_facts(9))
qed

end
