(* ===== verification/Spec2Isabelle.thy ===== *)
theory Spec2Isabelle
  imports Virtusb_Stop Virtusb_Lifecycle Virtusb_Test_Session
begin

text \<open>
  VirtUSB: a Linux kernel module that emulates USB host controllers in software, the user-space
  library libvirtusb, the command-line tool virtusbctl and three test programs. A user-space program
  opens \<open>/dev/virtusbN\<close>, creates a virtual USB device, plugs it into the root hub of controller N and
  plays it: it fetches the transfers the USB core of the kernel submits, and completes them. This
  development models the whole of it, from the USB core's calls down and from the argument vectors
  up, so that both ends meet in one state.

  \<^bold>\<open>How the parts interact.\<close> The USB core calls the driver's \<open>hc_driver\<close> functions
  (\<open>kernel/src/virtusb_hcd.c\<close>): root-hub requests read and write the hub model
  (\<open>virtusb_hub.c\<close>, \<open>virtusb_root_hub.c\<close>, \<open>virtusb_port.c\<close>); a URB becomes a transfer
  (\<open>virtusb_transfer.c\<close>) in the queue of the backend (\<open>virtusb_backend.c\<close>). User space calls the file
  operations of the control device (\<open>virtusb_control.c\<close>), which create, plug, switch and destroy
  devices (\<open>virtusb_device.c\<close>, \<open>virtusb_object.c\<close>, \<open>virtusb_object_manager.c\<close>) and run a data-plane
  session. A change of a connection is reported to the USB core through the hub's callback. The
  platform driver and the module (\<open>virtusb_hcd.c\<close>, \<open>virtusb_module.c\<close>) make and unmake controllers.

  \<^bold>\<open>Conventions.\<close> Memory is a map from addresses to records. An operation that reads or writes memory
  returns an \<open>option\<close>; \<^const>\<open>None\<close> is an access to memory that is not there (freed, or a null pointer
  the code does not test), past the end of a buffer, or a loop that does not return. \<open>runs m P\<close> says
  that \<open>m\<close> returns without such a fault and that its result satisfies \<open>P\<close>, so that every property
  stated with it includes memory safety and termination. Errors are the C return values, negative
  errno numbers of type \<^typ>\<open>int\<close>; \<open>u8\<close>, \<open>u16\<close>, \<open>u32\<close> and \<open>u64\<close> are words of that width. Every early
  return of the source is a branch. A call that may sleep returns \<open>Some (None, s)\<close> when it is still
  asleep where the schedule it was given ends. Definitions have the names of the C functions, with
  a suffix \<open>_lib\<close> where library and kernel share one, and a prefix where the programs do; the records
  have the fields of the structs. States extend each other along the layers of the driver (topology,
  objects, transfers, backends, files and controllers, module), so that an operation of a lower layer
  runs unchanged on the state of a higher one and leaves its fields alone by construction.

  \<^bold>\<open>Theories.\<close>

  \<^item> \<open>Virtusb_Prelude\<close>: words, errno values, the log of calls that leave the driver, \<open>runs\<close>, and the
    locales \<open>memory\<close> (load after store) and \<open>drain_loop\<close> (a loop that takes one entry off a list in each
    round ends after as many rounds as there are entries). \<open>Virtusb_Uapi\<close>: \<open>uapi/include/virtusb_uapi.h\<close>.
  \<^item> \<open>Virtusb_Store\<close>, \<open>Virtusb_Port\<close>, \<open>Virtusb_Hub\<close>: the structs of ports and hubs and every function of
    \<open>virtusb_port.c\<close>, \<open>virtusb_hub.c\<close> and \<open>virtusb_root_hub.c\<close>. \<open>Virtusb_Hub_Props\<close> and
    \<open>Virtusb_Hub_Spec\<close>: what each does to the value of a hub; \<open>topo_wf\<close>, by which peers are
    reciprocal and no bit outside the ports of a hub is set; speeds as a linear order.
  \<^item> \<open>Virtusb_Object\<close>, \<open>Virtusb_Device\<close>: \<open>virtusb_object.c\<close>, \<open>virtusb_object_manager.c\<close> and
    \<open>virtusb_device.c\<close>. \<open>Virtusb_Device_Props\<close>: the topology operations implement updates of an abstract
    cabling (what is plugged where, where VBUS is on, which device signals). \<open>Virtusb_Object_Props\<close>:
    \<open>dev_wf held\<close>, which accounts for every reference; creation, destruction, shutdown.
  \<^item> \<open>Virtusb_Transfer\<close>, \<open>Virtusb_Transfer_Props\<close>: \<open>virtusb_transfer.c\<close>, the state machine of a transfer as
    an inductive relation and \<open>trans_wf held pins\<close>; the locale \<open>refcounted\<close> is the contract of get and put,
    which devices and transfers satisfy.
  \<^item> \<open>Virtusb_Backend\<close>: \<open>virtusb_backend.c\<close>. \<open>Virtusb_Backend_Props\<close>, \<open>_Loops\<close>, \<open>_Spec\<close> and
    \<open>Virtusb_Data_Plane\<close>: \<open>back_wf\<close>, by which every request is on one list once, linked, and of an open
    session; submit, fetch, rollback, complete, cancel, release and stop on every branch; every URB
    is given back exactly once. \<open>Virtusb_Stop\<close>: the stop as the sequence of its critical sections, with
    the other threads between them.
  \<^item> \<open>Virtusb_Hcd\<close>: root-hub requests and the URB interface of \<open>virtusb_hcd.c\<close>. \<open>Virtusb_Hcd_Props\<close>,
    \<open>Virtusb_Urb_Props\<close>, \<open>Virtusb_Host\<close>: status words, status bitmap and descriptor against the topology,
    the way of a URB to user space and back.
  \<^item> \<open>Virtusb_Control\<close>: \<open>virtusb_control.c\<close>, with user memory as what \<open>copy_from_user\<close> reads and whether
    \<open>copy_to_user\<close> works. \<open>Virtusb_Control_Props\<close>, \<open>_Ioctl_Props\<close>, \<open>_Status_Props\<close>, \<open>_Session_Props\<close>,
    \<open>_File_Props\<close>, \<open>_Char_Device\<close>: \<open>control_wf\<close>, which every file operation keeps, and what each of
    the eleven ioctls does.
  \<^item> \<open>Virtusb_Platform\<close>, \<open>Virtusb_Module\<close>: probe, remove, create and destroy of \<open>virtusb_hcd.c\<close>, and
    \<open>virtusb_module.c\<close>. \<open>Virtusb_Usb_Core\<close>: the USB core between the calls of the driver, as a step
    relation. \<open>Virtusb_Platform_Props\<close>, \<open>Virtusb_Module_Props\<close>, \<open>Virtusb_Lifecycle\<close>: every error path
    undoes what was done, and unloading ends with nothing left.
  \<^item> \<open>Virtusb_Libc\<close>, \<open>Virtusb_Library\<close>: the C library as far as it is used, and
    \<open>libvirtusb/src/virtusb.c\<close> over system calls that are arguments. \<open>Virtusb_Library_Props\<close>: the locale
    \<open>control_files\<close>, the contract of system calls whose descriptors are files of the control device,
    interpreted on the modelled kernel. \<open>Virtusb_Process\<close>: what a process opens and closes.
  \<^item> \<open>Virtusb_Ctl\<close>: \<open>tools/virtusbctl/main.c\<close>, from \<open>argv\<close> to exit status and output. \<open>Virtusb_Ctl_Props\<close>,
    \<open>Virtusb_Ctl_Safety\<close>, \<open>Virtusb_User_Space\<close>: parsing reads back what was written, nothing stays open,
    \<open>status\<close> prints the state of the ports.
  \<^item> \<open>Virtusb_Test_Device\<close>, \<open>Virtusb_Test_Unregister\<close>, \<open>Virtusb_Test_Rollback\<close>: the three programs
    \<open>tools/virtusb-test-*/main.c\<close>. \<open>Virtusb_Test_Calls\<close>, \<open>Virtusb_Test_Props\<close>, \<open>_Unregister_Props\<close>,
    \<open>_Rollback_Props\<close>, \<open>_Answers\<close>, \<open>_Session\<close>: every run of them cleans up after itself, the host's URB gets
    the answer the device gives, and the driver passes the re-registration test.

  Each locale is interpreted on the definitions of the model: \<open>memory\<close> for each kind of record,
  \<open>drain_loop\<close> for the three loops of the backend, \<open>xarray\<close> on ordered maps, \<open>refcounted\<close> for devices and
  transfers, \<open>control_files\<close> for the system calls of a process.

  \<^bold>\<open>What the properties show.\<close> The topology operations refine the cabling and report exactly the
  connections that change; the words and bitmaps the USB core reads are those of this topology and
  agree with what user space is told. The first result of a transfer stands; requests are handed out
  oldest first; a fetch that fails leaves the queue as it was; ending a session, stopping a backend,
  removing a controller and unloading the module terminate and give every URB back once. Any ioctl
  by any caller, with any command, argument and memory, keeps the invariant of the whole driver. The
  library and the programs, on top of the modelled driver, do what they print.

  \<^bold>\<open>Bounds and fuel.\<close> Loops of the kernel that are not structural are \<open>partial_function\<close>s, proved to
  return: device shutdown and controller destruction by the number of registered objects and
  controllers, the loops of the backend by the length of their lists. A sleeping fetch takes the
  list of its wake-ups: what \<open>wait_event_interruptible\<close> returned and the step of the other
  threads before; the properties hold for every list. The loop of the test device takes one entry of
  \<open>env_signals\<close> per round, whether a signal has come, and the other two programs a number of
  rounds; the properties hold for all of them, a run that is not over being \<open>None\<close> as its exit code.

  \<^bold>\<open>Parameters.\<close> What Linux decides is an argument: whether allocations succeed (\<open>mem\<close>, \<open>xa_mem\<close> and
  the like), the answers of \<open>usb_create_hcd\<close>, \<open>usb_add_hcd\<close>, \<open>device_create\<close> and other
  registrations (\<open>hcd_answers\<close>), the content of uninitialised memory, the names under \<open>/dev\<close>
  (\<open>nodes\<close>), and \<open>strerror\<close>. The hypotheses on steps of other threads (\<open>quiet_step\<close>, \<open>keeps_open\<close>) say that
  they keep the driver's invariant and do not close the file of the caller, and where the programs need
  it that they register or destroy no devices, open or close no files and do not change the record of a
  controller.

  \<^bold>\<open>Not modelled.\<close> Locks: a critical section is one step. Steps of other threads are modelled in three
  places: at the sleep of a fetch, while the USB core starts and removes a controller, and between the
  critical sections of a stop (\<open>Virtusb_Stop\<close>, where the other threads may fetch, complete, cancel,
  roll back, submit, register and release; a stop with nobody in between is a run there). Everywhere
  else a call of the driver is one step: no other thread runs while a URB is given back, and
  \<open>virtusb_backend_release_owner\<close>, which takes the lock once per request, and the stop that the
  removal of a controller calls, run without others in between. The findings list the places where the
  code takes no lock although it should.
  Interrupt states, memory barriers and \<open>fflush\<close>; log messages of the kernel; constants that nothing
  computes with, such as the names and descriptions of the driver; the build files
  and the documentation. The statements of the headers are those of the functions they declare.
\<close>

end
